(* ===== verification/Prelude.thy ===== *)
theory Prelude
  imports Main "HOL-Library.Word" "HOL-Library.Monad_Syntax"
begin

text \<open>
  Shared vocabulary of the development: machine integers, byte buffers and what a C program
  can do with them, IPv4 addresses and the byte order of the network.

  A buffer is a list of bytes, and a pointer into it is the list of bytes from that point to
  the end of the object.  An access outside the object has no result: \<open>None\<close> of the option
  type stands for it throughout, so that "this code stays inside its buffers" is the statement
  that a definition returns \<open>Some\<close>.
\<close>

unbundle bit_operations_syntax

type_synonym u8 = "8 word"
type_synonym u16 = "16 word"
type_synonym u32 = "32 word"

text \<open>
  An address is the number \<open>iptohl\<close> of \<open>bootplib/util.h\<close> gives for it; its bytes in a packet
  are in network order.
\<close>

type_synonym in_addr = u32

text \<open>\<open>mem\<close>: the rules for memory accesses; \<open>wf\<close>: preservation of well-formedness.\<close>

named_theorems mem
named_theorems wf

section \<open>Reads, writes and block copies\<close>

definition rd :: "'a list \<Rightarrow> nat \<Rightarrow> 'a option" where
  "rd p i = (if i < length p then Some (p ! i) else None)"

definition wr :: "'a list \<Rightarrow> nat \<Rightarrow> 'a \<Rightarrow> 'a list option" where
  "wr p i x = (if i < length p then Some (p[i := x]) else None)"

text \<open>The \<open>n\<close> elements from index \<open>i\<close> on, as a copy out of the buffer reads them.\<close>

definition rdn :: "'a list \<Rightarrow> nat \<Rightarrow> nat \<Rightarrow> 'a list option" where
  "rdn p i n = (if i + n \<le> length p then Some (take n (drop i p)) else None)"

text \<open>Storing the elements \<open>xs\<close> from index \<open>i\<close> on.\<close>

definition wrn :: "'a list \<Rightarrow> nat \<Rightarrow> 'a list \<Rightarrow> 'a list option" where
  "wrn p i xs = (if i + length xs \<le> length p
                 then Some (take i p @ xs @ drop (i + length xs) p) else None)"

text \<open>\<open>bcopy\<close> inside one block; source and destination may overlap.\<close>

definition bmove :: "'a list \<Rightarrow> nat \<Rightarrow> nat \<Rightarrow> nat \<Rightarrow> 'a list option" where
  "bmove p src dst n = do { xs \<leftarrow> rdn p src n; wrn p dst xs }"

lemma rd_Some [mem]: "i < length p \<Longrightarrow> rd p i = Some (p ! i)"
  by (simp add: rd_def)

lemma wr_Some [mem]: "i < length p \<Longrightarrow> wr p i x = Some (p[i := x])"
  by (simp add: wr_def)

lemma rdn_Some [mem]: "i + n \<le> length p \<Longrightarrow> rdn p i n = Some (take n (drop i p))"
  by (simp add: rdn_def)

lemma wrn_Some [mem]:
  "i + length xs \<le> length p \<Longrightarrow> wrn p i xs = Some (take i p @ xs @ drop (i + length xs) p)"
  by (simp add: wrn_def)

lemma rd_eq_Some_iff: "rd p i = Some x \<longleftrightarrow> i < length p \<and> p ! i = x"
  by (auto simp: rd_def)

lemma rdn_eq_Some_iff:
  "rdn p i n = Some xs \<longleftrightarrow> i + n \<le> length p \<and> xs = take n (drop i p)"
  by (auto simp: rdn_def)

lemma wrn_eq_Some_iff:
  "wrn p i xs = Some q \<longleftrightarrow>
     i + length xs \<le> length p \<and> q = take i p @ xs @ drop (i + length xs) p"
  by (auto simp: wrn_def)

lemma length_rdn: "rdn p i n = Some xs \<Longrightarrow> length xs = n"
  by (auto simp: rdn_def split: if_splits)

lemma length_wrn: "wrn p i xs = Some q \<Longrightarrow> length q = length p"
  by (auto simp: wrn_def split: if_splits)

lemma rdn_wrn: "wrn p i xs = Some q \<Longrightarrow> rdn q i (length xs) = Some xs"
  by (auto simp: wrn_def rdn_def split: if_splits)

lemma take_wrn: "wrn p i xs = Some q \<Longrightarrow> take i q = take i p"
  by (auto simp: wrn_def split: if_splits)

section \<open>Network byte order (bootplib/nbo.h)\<close>

definition net_uint16_get :: "u8 list \<Rightarrow> u16 option" where
  "net_uint16_get p = do {
     a \<leftarrow> rd p 0; b \<leftarrow> rd p 1;
     Some (push_bit 8 (ucast a) OR ucast b) }"

definition net_uint16_bytes :: "u16 \<Rightarrow> u8 list" where
  "net_uint16_bytes v = [ucast (drop_bit 8 v), ucast v]"

definition net_uint16_set :: "u8 list \<Rightarrow> u16 \<Rightarrow> u8 list option" where
  "net_uint16_set p v = wrn p 0 (net_uint16_bytes v)"

definition net_uint32_get :: "u8 list \<Rightarrow> u32 option" where
  "net_uint32_get p = do {
     a \<leftarrow> rd p 0; b \<leftarrow> rd p 1; c \<leftarrow> rd p 2; d \<leftarrow> rd p 3;
     Some (push_bit 24 (ucast a) OR push_bit 16 (ucast b) OR push_bit 8 (ucast c) OR ucast d) }"

definition net_uint32_bytes :: "u32 \<Rightarrow> u8 list" where
  "net_uint32_bytes v =
     [ucast (drop_bit 24 v), ucast (drop_bit 16 v), ucast (drop_bit 8 v), ucast v]"

definition net_uint32_set :: "u8 list \<Rightarrow> u32 \<Rightarrow> u8 list option" where
  "net_uint32_set p v = wrn p 0 (net_uint32_bytes v)"

text \<open>\<open>htons\<close> and \<open>ntohs\<close> on a little-endian machine.\<close>

definition swap16 :: "u16 \<Rightarrow> u16" where
  "swap16 w = push_bit 8 w OR drop_bit 8 w"

lemma length_net_uint16_bytes [simp]: "length (net_uint16_bytes v) = 2"
  by (simp add: net_uint16_bytes_def)

lemma length_net_uint32_bytes [simp]: "length (net_uint32_bytes v) = 4"
  by (simp add: net_uint32_bytes_def)

lemma be16_join: "push_bit 8 (ucast (ucast (drop_bit 8 v) :: u8)) OR ucast (ucast v :: u8) = (v :: u16)"
  by (rule bit_word_eqI) (auto simp: bit_simps)

lemma be32_join:
  "push_bit 24 (ucast (ucast (drop_bit 24 v) :: u8)) OR push_bit 16 (ucast (ucast (drop_bit 16 v) :: u8))
   OR push_bit 8 (ucast (ucast (drop_bit 8 v) :: u8)) OR ucast (ucast v :: u8) = (v :: u32)"
  (is "?l = v")
proof (rule bit_word_eqI)
  fix n :: nat
  consider "n < 8" | "8 \<le> n" "n < 16" | "16 \<le> n" "n < 24" | "24 \<le> n"
    by linarith
  then show "n < LENGTH(32) \<Longrightarrow> bit ?l n \<longleftrightarrow> bit v n"
    by cases (auto simp: bit_simps)
qed

lemma net_uint16_get_bytes [simp]: "net_uint16_get (net_uint16_bytes v @ rest) = Some v"
  by (simp add: net_uint16_get_def net_uint16_bytes_def rd_def be16_join)

lemma net_uint32_get_bytes [simp]: "net_uint32_get (net_uint32_bytes v @ rest) = Some v"
  by (simp add: net_uint32_get_def net_uint32_bytes_def rd_def be32_join)

lemma net_uint16_get_set: "net_uint16_set p v = Some q \<Longrightarrow> net_uint16_get q = Some v"
  by (auto simp: net_uint16_set_def wrn_def split: if_splits)

lemma net_uint32_get_set: "net_uint32_set p v = Some q \<Longrightarrow> net_uint32_get q = Some v"
  by (auto simp: net_uint32_set_def wrn_def split: if_splits)

lemma net_uint32_get_defined: "4 \<le> length p \<Longrightarrow> \<exists>v. net_uint32_get p = Some v"
  by (auto simp: net_uint32_get_def rd_def)

lemma net_uint16_get_defined: "2 \<le> length p \<Longrightarrow> \<exists>v. net_uint16_get p = Some v"
  by (auto simp: net_uint16_get_def rd_def)

section \<open>Addresses and subnets (bootplib/util.h)\<close>

definition in_subnet :: "in_addr \<Rightarrow> in_addr \<Rightarrow> in_addr \<Rightarrow> bool" where
  "in_subnet netaddr netmask ip \<longleftrightarrow> ip AND netmask = netaddr"

definition prefix_to_mask32 :: "nat \<Rightarrow> u32" where
  "prefix_to_mask32 prefix_length =
     (if prefix_length > 32 \<or> prefix_length = 0 then 0
      else push_bit (32 - prefix_length) 0xffffffff)"

section \<open>Strings\<close>

definition str_bytes :: "string \<Rightarrow> u8 list" where
  "str_bytes s = map of_char s"

section \<open>Loops over a list that may fail\<close>

fun foldM :: "('s \<Rightarrow> 'x \<Rightarrow> 's option) \<Rightarrow> 's \<Rightarrow> 'x list \<Rightarrow> 's option" where
  "foldM f s [] = Some s"
| "foldM f s (x # xs) = Option.bind (f s x) (\<lambda>s'. foldM f s' xs)"

lemma foldM_append: "foldM f s (xs @ ys) = Option.bind (foldM f s xs) (\<lambda>t. foldM f t ys)"
  by (induction xs arbitrary: s) auto

text \<open>An invariant that every step keeps, with each step defined, holds after the loop.\<close>

lemma foldM_inv:
  assumes "\<And>s x. P s \<Longrightarrow> x \<in> set xs \<Longrightarrow> \<exists>s'. f s x = Some s' \<and> P s'" and "P s"
  shows "\<exists>s'. foldM f s xs = Some s' \<and> P s'"
  using assms
proof (induction xs arbitrary: s)
  case Nil
  then show ?case by simp
next
  case (Cons x xs)
  from Cons.prems obtain s' where "f s x = Some s'" "P s'" by (metis list.set_intros(1))
  with Cons show ?case by simp
qed

section \<open>Searching lists\<close>

lemma find_SomeD: "find P xs = Some x \<Longrightarrow> x \<in> set xs \<and> P x"
  by (induction xs) (auto split: if_splits)

lemma find_None_filter: "find P xs = None \<longleftrightarrow> filter P xs = []"
  by (induction xs) auto

lemma find_Some_filter:
  "find P xs = Some x \<Longrightarrow> filter P xs = x # filter P (tl (dropWhile (\<lambda>y. \<not> P y) xs))"
  by (induction xs) (auto split: if_splits)

section \<open>Bounds of machine integers\<close>

lemma unat_u8: "unat (b :: u8) < 256"
  using unsigned_less [where ?'a = nat and w = b] by simp

lemma unat_u16: "unat (b :: u16) < 65536"
  using unsigned_less [where ?'a = nat and w = b] by simp

lemma unat_u32: "unat (b :: u32) < 4294967296"
  using unsigned_less [where ?'a = nat and w = b] by simp

end
