(* ===== verification/NetInfo.thy ===== *)
theory NetInfo
  imports Prelude
begin

text \<open>
  The property lists of \<open>bootplib/netinfo.c\<close> and \<open>netinfo.h\<close>, in which the server keeps its
  leases.  A property list is an array of properties, a property a name with an array of values.
  Names and values are C strings.  \<open>NI_INDEX_NULL\<close>, the largest index, is \<open>None\<close>.

  Insertion and deletion move the array one element at a time; the arrays they work on are lists
  with a slot for each element, \<open>None\<close> in the slot that growing the array adds.
\<close>

section \<open>Moving elements\<close>

type_synonym ni_name = string
type_synonym ni_namelist = "ni_name list"
type_synonym ni_index = "nat option"

record ni_property =
  nip_name :: ni_name
  nip_val :: ni_namelist

type_synonym ni_proplist = "ni_property list"

text \<open>\<open>for (i = len; i > where; i--) a[i] = a[i - 1]\<close>, with the value of \<open>i\<close> after the loop.\<close>

fun shift_up :: "'a option list \<Rightarrow> nat \<Rightarrow> ni_index \<Rightarrow> ('a option list \<times> nat) option" where
  "shift_up a 0 w = Some (a, 0)"
| "shift_up a (Suc i) w =
     (if (case w of None \<Rightarrow> False | Some k \<Rightarrow> Suc i > k)
      then do { x \<leftarrow> rd a i; a' \<leftarrow> wr a (Suc i) x; shift_up a' i w }
      else Some (a, Suc i))"

definition array_insert :: "'a list \<Rightarrow> 'a \<Rightarrow> ni_index \<Rightarrow> 'a list option" where
  "array_insert xs x w = do {
     (a, i) \<leftarrow> shift_up (map Some xs @ [None]) (length xs) w;
     a' \<leftarrow> wr a i (Some x);
     those a' }"

text \<open>\<open>for (i = which + 1; i < len; i++) a[i - 1] = a[i]\<close>, \<open>n\<close> rounds from index \<open>i\<close>.\<close>

fun shift_down :: "nat \<Rightarrow> 'a list \<Rightarrow> nat \<Rightarrow> 'a list option" where
  "shift_down 0 a i = Some a"
| "shift_down (Suc n) a i = do { x \<leftarrow> rd a i; a' \<leftarrow> wr a (i - 1) x; shift_down n a' (i + 1) }"

definition array_delete :: "'a list \<Rightarrow> nat \<Rightarrow> 'a list option" where
  "array_delete xs which = do {
     _ \<leftarrow> rd xs which;
     a \<leftarrow> shift_down (length xs - (which + 1)) xs (which + 1);
     Some (take (length xs - 1) a) }"

lemma those_map_Some [simp]: "those (map Some xs) = Some xs"
  by (induction xs) auto

lemma shift_up_moves:
  "k \<le> length xs \<Longrightarrow> \<exists>z'. shift_up (map Some xs @ [z] @ ys) (length xs) (Some k) =
     Some (map Some (take k xs) @ [z'] @ map Some (drop k xs) @ ys, k)"
proof (induction xs arbitrary: z ys rule: rev_induct)
  case Nil
  then show ?case by auto
next
  case (snoc x xs)
  show ?case
  proof (cases "k = length xs + 1")
    case True
    then show ?thesis by auto
  next
    case False
    then have k: "k \<le> length xs" using snoc.prems by simp
    obtain z' where "shift_up (map Some xs @ [Some x] @ [Some x] @ ys) (length xs) (Some k) =
        Some (map Some (take k xs) @ [z'] @ map Some (drop k xs) @ [Some x] @ ys, k)"
      using snoc.IH [OF k, of "Some x" "Some x # ys"] by auto
    moreover have "rd (map Some xs @ [Some x] @ [z] @ ys) (length xs) = Some (Some x)"
      by (simp add: rd_def nth_append)
    moreover have "wr (map Some xs @ [Some x] @ [z] @ ys) (Suc (length xs)) (Some x) =
        Some (map Some xs @ [Some x] @ [Some x] @ ys)"
      by (simp add: wr_def list_update_append)
    ultimately show ?thesis using k by simp
  qed
qed

lemma array_insert_at: "k \<le> length xs \<Longrightarrow> array_insert xs x (Some k) = Some (take k xs @ x # drop k xs)"
proof -
  assume k: "k \<le> length xs"
  obtain z' where "shift_up (map Some xs @ [None]) (length xs) (Some k) =
      Some (map Some (take k xs) @ [z'] @ map Some (drop k xs), k)"
    using shift_up_moves [OF k, of None "[]"] by auto
  moreover have "wr (map Some (take k xs) @ [z'] @ map Some (drop k xs)) k (Some x) =
      Some (map Some (take k xs @ x # drop k xs))"
    using k by (simp add: wr_def list_update_append)
  ultimately show ?thesis by (simp add: array_insert_def del: map_append)
qed

lemma array_insert_end: "length xs < k \<or> w = None \<Longrightarrow> w = None \<or> w = Some k \<Longrightarrow> array_insert xs x w = Some (xs @ [x])"
proof -
  assume a: "length xs < k \<or> w = None" "w = None \<or> w = Some k"
  then have "shift_up (map Some xs @ [None]) (length xs) w = Some (map Some xs @ [None], length xs)"
    by (cases "length xs") auto
  moreover have "wr (map Some xs @ [None]) (length xs) (Some x) = Some (map Some (xs @ [x]))"
    by (simp add: wr_def list_update_append)
  ultimately show ?thesis by (simp add: array_insert_def del: map_append)
qed

lemma shift_down_moves:
  "shift_down (length bs) (as @ y # bs) (Suc (length as)) = Some (as @ bs @ [last (y # bs)])"
proof (induction bs arbitrary: as y)
  case Nil
  then show ?case by simp
next
  case (Cons b bs)
  have "rd (as @ y # b # bs) (Suc (length as)) = Some b"
    by (simp add: rd_def nth_append)
  moreover have "wr (as @ y # b # bs) (Suc (length as) - 1) b = Some ((as @ [b]) @ b # bs)"
    by (simp add: wr_def list_update_append)
  ultimately show ?case using Cons.IH [of "as @ [b]" b] by simp
qed

lemma array_delete_at:
  assumes "k < length xs"
  shows "array_delete xs k = Some (take k xs @ drop (Suc k) xs)"
proof -
  let ?as = "take k xs" and ?bs = "drop (Suc k) xs"
  have xs: "xs = ?as @ xs ! k # ?bs" using assms by (rule id_take_nth_drop)
  have l: "length ?as = k" "length ?bs = length xs - (k + 1)" using assms by auto
  have "shift_down (length xs - (k + 1)) xs (Suc k) = Some (?as @ ?bs @ [last (xs ! k # ?bs)])"
    using shift_down_moves [of ?bs ?as "xs ! k"] unfolding l xs [symmetric] .
  then show ?thesis
    using assms by (simp add: array_delete_def rd_def)
qed

section \<open>Property lists (netinfo.c)\<close>

definition ni_prop_dup :: "ni_property \<Rightarrow> ni_property" where
  "ni_prop_dup prop = \<lparr>nip_name = nip_name prop, nip_val = nip_val prop\<rparr>"

definition ni_name_match :: "ni_name \<Rightarrow> ni_name \<Rightarrow> bool" where
  "ni_name_match nm1 nm2 \<longleftrightarrow> nm1 = nm2"

definition ni_proplist_insert :: "ni_proplist \<Rightarrow> ni_property \<Rightarrow> ni_index \<Rightarrow> ni_proplist option" where
  "ni_proplist_insert pl prop w = array_insert pl (ni_prop_dup prop) w"

definition ni_proplist_delete :: "ni_proplist \<Rightarrow> nat \<Rightarrow> ni_proplist option" where
  "ni_proplist_delete pl which = array_delete pl which"

definition ni_namelist_insert :: "ni_namelist \<Rightarrow> ni_name \<Rightarrow> ni_index \<Rightarrow> ni_namelist option" where
  "ni_namelist_insert nl nm w = array_insert nl nm w"

definition ni_namelist_delete :: "ni_namelist \<Rightarrow> nat \<Rightarrow> ni_namelist option" where
  "ni_namelist_delete nl which = array_delete nl which"

fun namelist_match_from :: "ni_namelist \<Rightarrow> ni_name \<Rightarrow> nat \<Rightarrow> ni_index" where
  "namelist_match_from [] nm i = None"
| "namelist_match_from (v # vs) nm i =
     (if ni_name_match v nm then Some i else namelist_match_from vs nm (i + 1))"

definition ni_namelist_match :: "ni_namelist \<Rightarrow> ni_name \<Rightarrow> ni_index" where
  "ni_namelist_match nl nm = namelist_match_from nl nm 0"

text \<open>
  Only the first property with the name is looked at; a null \<open>pval\<close> matches any values.
\<close>

fun proplist_match_from :: "ni_proplist \<Rightarrow> ni_name \<Rightarrow> ni_name option \<Rightarrow> nat \<Rightarrow> ni_index" where
  "proplist_match_from [] pname pval i = None"
| "proplist_match_from (p # ps) pname pval i =
     (if ni_name_match pname (nip_name p)
      then (case pval of
              None \<Rightarrow> Some i
            | Some v \<Rightarrow> if list_ex (ni_name_match v) (nip_val p) then Some i else None)
      else proplist_match_from ps pname pval (i + 1))"

definition ni_proplist_match :: "ni_proplist \<Rightarrow> ni_name \<Rightarrow> ni_name option \<Rightarrow> ni_index" where
  "ni_proplist_match pl pname pval = proplist_match_from pl pname pval 0"

definition ni_proplist_insertprop ::
  "ni_proplist \<Rightarrow> ni_name \<Rightarrow> ni_name option \<Rightarrow> ni_index \<Rightarrow> ni_proplist option" where
  "ni_proplist_insertprop pl key val w = do {
     vals \<leftarrow> (case val of None \<Rightarrow> Some [] | Some v \<Rightarrow> ni_namelist_insert [] v (Some 0));
     ni_proplist_insert pl \<lparr>nip_name = key, nip_val = vals\<rparr> w }"

definition ni_proplist_addprop :: "ni_proplist \<Rightarrow> ni_name \<Rightarrow> ni_name option \<Rightarrow> ni_proplist option" where
  "ni_proplist_addprop pl key val = ni_proplist_insertprop pl key val (Some (length pl))"

fun ni_nlforprop :: "ni_proplist \<Rightarrow> ni_name \<Rightarrow> ni_namelist option" where
  "ni_nlforprop [] nm = None"
| "ni_nlforprop (p # ps) nm = (if nm = nip_name p then Some (nip_val p) else ni_nlforprop ps nm)"

definition ni_valforprop :: "ni_proplist \<Rightarrow> ni_name \<Rightarrow> ni_name option" where
  "ni_valforprop pl nm =
     (case ni_nlforprop pl nm of
        None \<Rightarrow> None
      | Some nl \<Rightarrow> (case nl of [] \<Rightarrow> None | v # _ \<Rightarrow> Some v))"

text \<open>The flag of the result says whether \<open>*modified\<close> was set.\<close>

definition ni_set_prop ::
  "ni_proplist \<Rightarrow> ni_name \<Rightarrow> ni_name option \<Rightarrow> (ni_proplist \<times> bool) option" where
  "ni_set_prop pl prop val =
     (let w = ni_proplist_match pl prop None in
      case w of
        Some k \<Rightarrow>
          if val \<noteq> None \<and> w = ni_proplist_match pl prop val then Some (pl, False)
          else do {
            pl1 \<leftarrow> ni_proplist_delete pl k;
            pl2 \<leftarrow> ni_proplist_insertprop pl1 prop val w;
            Some (pl2, True) }
      | None \<Rightarrow> do {
          pl2 \<leftarrow> ni_proplist_insertprop pl prop val w;
          Some (pl2, True) })"

definition ni_delete_prop :: "ni_proplist \<Rightarrow> ni_name \<Rightarrow> (ni_proplist \<times> bool) option" where
  "ni_delete_prop pl prop =
     (case ni_proplist_match pl prop None of
        None \<Rightarrow> Some (pl, False)
      | Some k \<Rightarrow> map_option (\<lambda>pl'. (pl', True)) (ni_proplist_delete pl k))"

section \<open>Property lists as finite maps\<close>

text \<open>A list in which no name occurs twice is the map \<open>ni_nlforprop\<close> from names to values.\<close>

definition names :: "ni_proplist \<Rightarrow> ni_name list" where
  "names pl = List.map nip_name pl"

lemma names_simps [simp]:
  "names [] = []" "names (p # ps) = nip_name p # names ps" "names (xs @ ys) = names xs @ names ys"
  by (simp_all add: names_def)

lemma match_from_split:
  "proplist_match_from pl nm None i = Some k \<Longrightarrow>
     \<exists>as p bs. pl = as @ p # bs \<and> nip_name p = nm \<and> nm \<notin> set (names as) \<and> k = i + length as"
proof (induction pl arbitrary: i)
  case Nil
  then show ?case by simp
next
  case (Cons q pl)
  show ?case
  proof (cases "nm = nip_name q")
    case True
    with Cons.prems show ?thesis by (intro exI [of _ "[]"]) (simp add: ni_name_match_def)
  next
    case False
    then obtain as p bs where "pl = as @ p # bs" "nip_name p = nm" "nm \<notin> set (names as)" "k = Suc i + length as"
      using Cons.IH [of "Suc i"] Cons.prems by (auto simp: ni_name_match_def)
    with False show ?thesis by (intro exI [of _ "q # as"]) auto
  qed
qed

lemma match_from_val:
  "nm \<notin> set (names as) \<Longrightarrow> proplist_match_from (as @ p # bs) nm v i =
     (if nip_name p = nm then proplist_match_from [p] nm v (i + length as) else proplist_match_from bs nm v (i + length as + 1))"
  by (induction as arbitrary: i) (auto simp: ni_name_match_def split: option.splits)

lemma match_from_None: "proplist_match_from pl nm None i = None \<longleftrightarrow> nm \<notin> set (names pl)"
  by (induction pl arbitrary: i) (auto simp: ni_name_match_def)

lemma nlforprop_append:
  "ni_nlforprop (xs @ ys) nm = (case ni_nlforprop xs nm of None \<Rightarrow> ni_nlforprop ys nm | Some v \<Rightarrow> Some v)"
  by (induction xs) auto

lemma nlforprop_None: "ni_nlforprop pl nm = None \<longleftrightarrow> nm \<notin> set (names pl)"
  by (induction pl) auto

lemma insertprop_at:
  assumes "w = None \<or> w = Some k \<and> k \<le> length pl"
  shows "ni_proplist_insertprop pl nm val w =
    Some (case w of None \<Rightarrow> pl @ [\<lparr>nip_name = nm, nip_val = (case val of None \<Rightarrow> [] | Some v \<Rightarrow> [v])\<rparr>]
      | Some k \<Rightarrow> take k pl @ \<lparr>nip_name = nm, nip_val = (case val of None \<Rightarrow> [] | Some v \<Rightarrow> [v])\<rparr> # drop k pl)"
proof -
  have "ni_namelist_insert [] v (Some 0) = Some [v]" for v
    using array_insert_at [of 0 "[]" v] by (simp add: ni_namelist_insert_def)
  then have v: "(case val of None \<Rightarrow> Some [] | Some v \<Rightarrow> ni_namelist_insert [] v (Some 0)) =
      Some (case val of None \<Rightarrow> [] | Some v \<Rightarrow> [v])"
    by (cases val) simp_all
  with assms show ?thesis
    by (auto simp: ni_proplist_insertprop_def ni_proplist_insert_def ni_prop_dup_def
        array_insert_at array_insert_end)
qed

lemma set_prop_cases:
  obtains (same) v vs where "val = Some v" "ni_set_prop pl nm val = Some (pl, False)"
      "ni_nlforprop pl nm = Some vs" "v \<in> set vs"
  | (replaced) as p bs where "pl = as @ p # bs" "nip_name p = nm" "nm \<notin> set (names as)"
      "ni_set_prop pl nm val =
        Some (as @ \<lparr>nip_name = nm, nip_val = (case val of None \<Rightarrow> [] | Some v \<Rightarrow> [v])\<rparr> # bs, True)"
  | (added) "nm \<notin> set (names pl)"
      "ni_set_prop pl nm val =
        Some (pl @ [\<lparr>nip_name = nm, nip_val = (case val of None \<Rightarrow> [] | Some v \<Rightarrow> [v])\<rparr>], True)"
proof (cases "ni_proplist_match pl nm None")
  case None
  then have "nm \<notin> set (names pl)" by (simp add: ni_proplist_match_def match_from_None)
  with None show ?thesis
    using insertprop_at [of None _ pl nm val] by (intro added) (simp_all add: ni_set_prop_def)
next
  case (Some k)
  then obtain as p bs where s: "pl = as @ p # bs" "nip_name p = nm" "nm \<notin> set (names as)" "k = length as"
    using match_from_split [of pl nm 0 k] by (auto simp: ni_proplist_match_def)
  have m: "ni_proplist_match pl nm val = proplist_match_from [p] nm val k"
    using match_from_val [OF s(3), of p bs val 0] s by (simp add: ni_proplist_match_def)
  show ?thesis
  proof (cases "val \<noteq> None \<and> Some k = ni_proplist_match pl nm val")
    case True
    then obtain v where v: "val = Some v" by auto
    with True m have "v \<in> set (nip_val p)"
      by (auto simp: s(2) ni_name_match_def list_ex_iff split: if_splits)
    moreover have "ni_nlforprop pl nm = Some (nip_val p)"
      using s nlforprop_None [of as nm] by (simp add: nlforprop_append)
    moreover have "ni_set_prop pl nm val = Some (pl, False)"
    proof -
      have "ni_proplist_match pl nm (Some v) = Some k" using True v by simp
      then show ?thesis using Some v by (simp add: ni_set_prop_def)
    qed
    ultimately show ?thesis using v same by blast
  next
    case False
    have "ni_proplist_delete pl k = Some (as @ bs)"
      by (simp add: ni_proplist_delete_def array_delete_at s)
    moreover have "ni_proplist_insertprop (as @ bs) nm val (Some k) =
        Some (as @ \<lparr>nip_name = nm, nip_val = (case val of None \<Rightarrow> [] | Some v \<Rightarrow> [v])\<rparr> # bs)"
      using insertprop_at [of "Some k" k "as @ bs" nm val] by (simp add: s(4))
    ultimately have "ni_set_prop pl nm val =
        Some (as @ \<lparr>nip_name = nm, nip_val = (case val of None \<Rightarrow> [] | Some v \<Rightarrow> [v])\<rparr> # bs, True)"
      using False Some by (auto simp: ni_set_prop_def Let_def)
    with s show ?thesis by (intro replaced)
  qed
qed

lemma delete_prop_cases:
  obtains (absent) "nm \<notin> set (names pl)" "ni_delete_prop pl nm = Some (pl, False)"
  | (removed) as p bs where "pl = as @ p # bs" "nip_name p = nm" "nm \<notin> set (names as)"
      "ni_delete_prop pl nm = Some (as @ bs, True)"
proof (cases "ni_proplist_match pl nm None")
  case None
  then have "ni_delete_prop pl nm = Some (pl, False)" by (simp add: ni_delete_prop_def)
  with None show ?thesis by (intro absent) (simp_all add: ni_proplist_match_def match_from_None)
next
  case (Some k)
  then obtain as p bs where s: "pl = as @ p # bs" "nip_name p = nm" "nm \<notin> set (names as)" "k = length as"
    using match_from_split [of pl nm 0 k] by (auto simp: ni_proplist_match_def)
  have "ni_proplist_delete pl k = Some (as @ bs)"
    by (simp add: ni_proplist_delete_def array_delete_at s)
  with Some s show ?thesis by (intro removed) (simp_all add: ni_delete_prop_def)
qed

text \<open>The map laws the lease handling relies on.\<close>

lemma set_prop_total: "\<exists>pl' m. ni_set_prop pl nm val = Some (pl', m)"
  by (cases rule: set_prop_cases [of val pl nm]) auto

lemma delete_prop_total: "\<exists>pl' m. ni_delete_prop pl nm = Some (pl', m)"
  by (cases rule: delete_prop_cases [of nm pl]) auto

lemma set_prop_lookup:
  assumes "ni_set_prop pl nm val = Some (pl', m)"
  shows "ni_nlforprop pl' nm' =
    (if nm' = nm \<and> m then Some (case val of None \<Rightarrow> [] | Some v \<Rightarrow> [v]) else ni_nlforprop pl nm')"
proof (cases rule: set_prop_cases [of val pl nm])
  case (same v vs)
  with assms show ?thesis by auto
next
  case (replaced as p bs)
  then show ?thesis
    using assms nlforprop_None [of as nm] by (auto simp: nlforprop_append split: option.split)
next
  case added
  then show ?thesis
    using assms nlforprop_None [of pl nm] by (auto simp: nlforprop_append split: option.splits)
qed

lemma set_prop_same:
  assumes "ni_set_prop pl nm val = Some (pl', False)"
  obtains v vs where "val = Some v" "pl' = pl" "ni_nlforprop pl nm = Some vs" "v \<in> set vs"
  using assms by (cases rule: set_prop_cases [of val pl nm]) (auto intro: that)

lemma set_prop_distinct:
  assumes "ni_set_prop pl nm val = Some (pl', m)" "distinct (names pl)"
  shows "distinct (names pl')"
  using assms by (cases rule: set_prop_cases [of val pl nm]) auto

lemma delete_prop_lookup:
  assumes "ni_delete_prop pl nm = Some (pl', m)" "distinct (names pl)"
  shows "ni_nlforprop pl' nm' = (if nm' = nm then None else ni_nlforprop pl nm')" "distinct (names pl')"
proof -
  have "ni_nlforprop pl' nm' = (if nm' = nm then None else ni_nlforprop pl nm') \<and> distinct (names pl')"
  proof (cases rule: delete_prop_cases [of nm pl])
    case absent
    then show ?thesis using assms nlforprop_None [of pl nm] by auto
  next
    case (removed as p bs)
    then show ?thesis
      using assms nlforprop_None [of as nm] nlforprop_None [of bs nm]
      by (auto simp: nlforprop_append split: option.splits)
  qed
  then show "ni_nlforprop pl' nm' = (if nm' = nm then None else ni_nlforprop pl nm')" "distinct (names pl')"
    by auto
qed

text \<open>Setting a property makes it readable and leaves every other property as it was; the
  flag reports a change exactly when the value was not already among the property's values.  No
  index outside the array is used, and names stay distinct.\<close>

theorem set_prop_is_update:
  assumes "distinct (names pl)"
  shows "\<exists>pl' m. ni_set_prop pl nm (Some v) = Some (pl', m) \<and> distinct (names pl') \<and>
     (m \<longleftrightarrow> \<not> (\<exists>vs. ni_nlforprop pl nm = Some vs \<and> v \<in> set vs)) \<and>
     (\<exists>vs. ni_nlforprop pl' nm = Some vs \<and> v \<in> set vs) \<and>
     (\<forall>nm'. nm' \<noteq> nm \<longrightarrow> ni_nlforprop pl' nm' = ni_nlforprop pl nm')"
proof (cases rule: set_prop_cases [of "Some v" pl nm])
  case (same v vs)
  then show ?thesis using assms by auto
next
  case (replaced as p bs)
  have nl: "ni_nlforprop pl nm = Some (nip_val p)"
    using replaced nlforprop_None [of as nm] by (simp add: nlforprop_append)
  have "v \<notin> set (nip_val p)"
  proof
    assume "v \<in> set (nip_val p)"
    then have "ni_proplist_match pl nm (Some v) = Some (length as)" "ni_proplist_match pl nm None = Some (length as)"
      using replaced(2) match_from_val [OF replaced(3), of p bs _ 0]
      by (auto simp: replaced(1) ni_proplist_match_def ni_name_match_def list_ex_iff)
    then have "ni_set_prop pl nm (Some v) = Some (pl, False)" by (simp add: ni_set_prop_def)
    with replaced(4) show False by simp
  qed
  with nl replaced(4) set_prop_lookup [OF replaced(4)] set_prop_distinct [OF replaced(4) assms] show ?thesis by auto
next
  case added
  with set_prop_lookup [OF added(2)] set_prop_distinct [OF added(2) assms] nlforprop_None [of pl nm]
  show ?thesis by auto
qed

theorem set_prop_is_update_witness:
  "\<exists>pl' m. ni_set_prop [\<lparr>nip_name = ''name'', nip_val = [''a'']\<rparr>, \<lparr>nip_name = ''lease'', nip_val = [''0x1'']\<rparr>]
      ''lease'' (Some ''0x2'') = Some (pl', m) \<and> m \<and> ni_nlforprop pl' ''name'' = Some [''a'']"
  using set_prop_is_update [of "[\<lparr>nip_name = ''name'', nip_val = [''a'']\<rparr>, \<lparr>nip_name = ''lease'', nip_val = [''0x1'']\<rparr>]"
      "''lease''" "''0x2''"]
  by auto

end
