(* ===== verification/NICache.thy ===== *)
theory NICache
  imports NetInfo
begin

text \<open>
  The host cache of \<open>bootplib/NICache.c\<close>: a doubly linked list of property lists, most recently
  used entry first.

  The operations work on a heap of entries, with null checks and dereferences as in the code; a
  dangling or null pointer that is followed gives \<open>None\<close>.  \<open>inet_aton\<close> and \<open>ether_aton\<close> are not in
  the repository: they are the fields of a record \<open>netlib\<close> passed to the operations that call
  them.  The specification is a list of entries, and the section on refinement shows that the
  pointer operations carry it out.
\<close>

section \<open>Library functions\<close>

record netlib =
  inet_aton :: "string \<Rightarrow> in_addr option"
  inet_ntoa :: "in_addr \<Rightarrow> string"
  ether_aton :: "string \<Rightarrow> u8 list option"
  ether_ntoa :: "u8 list \<Rightarrow> string"

text \<open>What the code relies on: reading back what was printed.\<close>

definition netlib_ok :: "netlib \<Rightarrow> bool" where
  "netlib_ok L \<longleftrightarrow> (\<forall>ip. inet_aton L (inet_ntoa L ip) = Some ip) \<and>
     (\<forall>en. length en = 6 \<longrightarrow> ether_aton L (ether_ntoa L en) = Some en)"

abbreviation "NIPROP_NAME \<equiv> ''name''"
abbreviation "NIPROP_IPADDR \<equiv> ''ip_address''"
abbreviation "NIPROP_ENADDR \<equiv> ''en_address''"
abbreviation "NIPROP_IDENTIFIER \<equiv> ''identifier''"
abbreviation "NIPROP_HWADDR \<equiv> ''hw_address''"
abbreviation "NIPROP_DHCP_LEASE \<equiv> ''lease''"
abbreviation "NIPROP_DHCP_DECLINED \<equiv> ''declined''"

section \<open>Entries and the list (NICache.c)\<close>

type_synonym eptr = nat

record plcache_entry =
  ce_pl :: ni_proplist
  ce_next :: "eptr option"
  ce_prev :: "eptr option"

type_synonym heap = "eptr \<Rightarrow> plcache_entry option"

record plcache =
  pc_head :: "eptr option"
  pc_tail :: "eptr option"
  pc_max_entries :: int
  pc_count :: int

definition CACHE_MIN :: int where "CACHE_MIN = 10"
definition CACHE_MAX :: int where "CACHE_MAX = 256"

definition set_next :: "heap \<Rightarrow> eptr option \<Rightarrow> eptr option \<Rightarrow> heap option" where
  "set_next h p v = do { q \<leftarrow> p; e \<leftarrow> h q; Some (h(q \<mapsto> e\<lparr>ce_next := v\<rparr>)) }"

definition set_prev :: "heap \<Rightarrow> eptr option \<Rightarrow> eptr option \<Rightarrow> heap option" where
  "set_prev h p v = do { q \<leftarrow> p; e \<leftarrow> h q; Some (h(q \<mapsto> e\<lparr>ce_prev := v\<rparr>)) }"

text \<open>\<open>p\<close> is the block \<open>malloc\<close> returned, \<open>None\<close> when it failed.\<close>

definition PLCacheEntry_create :: "heap \<Rightarrow> eptr option \<Rightarrow> ni_proplist \<Rightarrow> heap \<times> eptr option" where
  "PLCacheEntry_create h p pl =
     (case p of
        None \<Rightarrow> (h, None)
      | Some q \<Rightarrow> (h(q \<mapsto> \<lparr>ce_pl = pl, ce_next = None, ce_prev = None\<rparr>), Some q))"

definition PLCacheEntry_free :: "heap \<Rightarrow> eptr \<Rightarrow> heap option" where
  "PLCacheEntry_free h p = do { _ \<leftarrow> h p; Some (h(p := None)) }"

definition PLCache_init :: plcache where
  "PLCache_init = \<lparr>pc_head = None, pc_tail = None, pc_max_entries = CACHE_MAX, pc_count = 0\<rparr>"

definition PLCache_count :: "plcache \<Rightarrow> int" where
  "PLCache_count c = pc_count c"

fun drop_tail :: "nat \<Rightarrow> heap \<Rightarrow> eptr option \<Rightarrow> eptr option \<Rightarrow> (heap \<times> eptr option) option" where
  "drop_tail 0 h prev scan = Some (h, prev)"
| "drop_tail (Suc n) h prev scan = do {
     p \<leftarrow> scan;
     e \<leftarrow> h p;
     h' \<leftarrow> PLCacheEntry_free h p;
     drop_tail n h' (ce_prev e) (ce_prev e) }"

definition PLCache_set_max :: "heap \<Rightarrow> plcache \<Rightarrow> int \<Rightarrow> (heap \<times> plcache) option" where
  "PLCache_set_max h c m0 =
     (let m = (if m0 < CACHE_MIN then CACHE_MIN else m0);
          c1 = c\<lparr>pc_max_entries := m\<rparr> in
      if pc_count c1 > m then do {
        (h1, prev) \<leftarrow> drop_tail (nat (pc_count c1 - m)) h None (pc_tail c1);
        (case prev of
           Some _ \<Rightarrow> do {
             h2 \<leftarrow> set_next h1 prev None;
             Some (h2, c1\<lparr>pc_tail := prev, pc_count := m\<rparr>) }
         | None \<Rightarrow> Some (h1, c1\<lparr>pc_tail := None, pc_head := None, pc_count := m\<rparr>)) }
      else Some (h, c1))"

fun free_all :: "nat \<Rightarrow> heap \<Rightarrow> eptr option \<Rightarrow> heap option" where
  "free_all n h None = Some h"
| "free_all 0 h (Some p) = None"
| "free_all (Suc n) h (Some p) = do {
     e \<leftarrow> h p;
     h' \<leftarrow> PLCacheEntry_free h p;
     free_all n h' (ce_next e) }"

text \<open>The loop ends at the null pointer: \<open>pc_count c\<close> rounds are enough (\<open>free_refines\<close>).\<close>

definition PLCache_free :: "heap \<Rightarrow> plcache \<Rightarrow> (heap \<times> plcache) option" where
  "PLCache_free h c = do {
     h' \<leftarrow> free_all (nat (pc_count c)) h (pc_head c);
     Some (h', \<lparr>pc_head = None, pc_tail = None, pc_max_entries = 0, pc_count = 0\<rparr>) }"

definition PLCache_add :: "heap \<Rightarrow> plcache \<Rightarrow> eptr option \<Rightarrow> (heap \<times> plcache) option" where
  "PLCache_add h c entry =
     (if entry = None then Some (h, c)
      else do {
        h1 \<leftarrow> set_next h entry (pc_head c);
        h2 \<leftarrow> set_prev h1 entry None;
        (h3, c1) \<leftarrow>
          (if pc_head c = None then Some (h2, c\<lparr>pc_tail := entry, pc_head := entry\<rparr>)
           else do { h3 \<leftarrow> set_prev h2 (pc_head c) entry; Some (h3, c\<lparr>pc_head := entry\<rparr>) });
        Some (h3, c1\<lparr>pc_count := pc_count c1 + 1\<rparr>) })"

definition PLCache_append :: "heap \<Rightarrow> plcache \<Rightarrow> eptr option \<Rightarrow> (heap \<times> plcache) option" where
  "PLCache_append h c entry =
     (if entry = None then Some (h, c)
      else do {
        h1 \<leftarrow> set_next h entry None;
        h2 \<leftarrow> set_prev h1 entry (pc_tail c);
        (h3, c1) \<leftarrow>
          (if pc_head c = None then Some (h2, c\<lparr>pc_tail := entry, pc_head := entry\<rparr>)
           else do { h3 \<leftarrow> set_next h2 (pc_tail c) entry; Some (h3, c\<lparr>pc_tail := entry\<rparr>) });
        Some (h3, c1\<lparr>pc_count := pc_count c1 + 1\<rparr>) })"

definition PLCache_remove :: "heap \<Rightarrow> plcache \<Rightarrow> eptr option \<Rightarrow> (heap \<times> plcache) option" where
  "PLCache_remove h c entry =
     (case entry of
        None \<Rightarrow> Some (h, c)
      | Some p \<Rightarrow> do {
          e \<leftarrow> h p;
          h1 \<leftarrow> (if ce_prev e \<noteq> None then set_next h (ce_prev e) (ce_next e) else Some h);
          e1 \<leftarrow> h1 p;
          h2 \<leftarrow> (if ce_next e1 \<noteq> None then set_prev h1 (ce_next e1) (ce_prev e1) else Some h1);
          c1 \<leftarrow> (if entry = pc_head c
                 then do { e2 \<leftarrow> h2 p; Some (c\<lparr>pc_head := ce_next e2\<rparr>) } else Some c);
          c2 \<leftarrow> (if entry = pc_tail c1
                 then do { e2 \<leftarrow> h2 p; Some (c1\<lparr>pc_tail := ce_prev e2\<rparr>) } else Some c1);
          h3 \<leftarrow> set_prev h2 entry None;
          h4 \<leftarrow> set_next h3 entry None;
          Some (h4, c2\<lparr>pc_count := pc_count c2 - 1\<rparr>) })"

definition PLCache_make_head :: "heap \<Rightarrow> plcache \<Rightarrow> eptr option \<Rightarrow> (heap \<times> plcache) option" where
  "PLCache_make_head h c entry =
     (if entry = pc_head c then Some (h, c)
      else do {
        (h1, c1) \<leftarrow> PLCache_remove h c entry;
        PLCache_add h1 c1 entry })"

section \<open>Lookups (NICache.c)\<close>

text \<open>
  The loop all lookups share: \<open>test\<close> is the body, which threads the out parameters and says
  whether the entry is the one looked for.
\<close>

fun plc_walk ::
  "nat \<Rightarrow> heap \<Rightarrow> eptr option \<Rightarrow> (ni_proplist \<Rightarrow> 's \<Rightarrow> 's \<times> bool) \<Rightarrow> 's \<Rightarrow> (eptr option \<times> 's) option" where
  "plc_walk n h None test s = Some (None, s)"
| "plc_walk 0 h (Some p) test s = None"
| "plc_walk (Suc n) h (Some p) test s = do {
     e \<leftarrow> h p;
     case test (ce_pl e) s of
       (s', True) \<Rightarrow> Some (Some p, s')
     | (s', False) \<Rightarrow> plc_walk n h (ce_next e) test s' }"

definition lookup_with ::
  "bool \<Rightarrow> heap \<Rightarrow> plcache \<Rightarrow> (ni_proplist \<Rightarrow> 's \<Rightarrow> 's \<times> bool) \<Rightarrow> 's \<Rightarrow>
   (eptr option \<times> 's \<times> heap \<times> plcache) option" where
  "lookup_with make_head h c test s = do {
     (r, s') \<leftarrow> plc_walk (nat (pc_count c)) h (pc_head c) test s;
     case r of
       None \<Rightarrow> Some (None, s', h, c)
     | Some p \<Rightarrow>
         if make_head
         then do { (h', c') \<leftarrow> PLCache_make_head h c r; Some (r, s', h', c') }
         else Some (r, s', h, c) }"

definition lookup_prop_test :: "ni_name \<Rightarrow> ni_name option \<Rightarrow> ni_proplist \<Rightarrow> unit \<Rightarrow> unit \<times> bool" where
  "lookup_prop_test prop val pl s = (s, ni_proplist_match pl prop val \<noteq> None)"

definition PLCache_lookup_prop where
  "PLCache_lookup_prop h c prop val make_head = lookup_with make_head h c (lookup_prop_test prop val) ()"

text \<open>The values of the property at a matched index.\<close>

definition vals_at :: "ni_proplist \<Rightarrow> nat \<Rightarrow> ni_namelist" where
  "vals_at pl k = nip_val (pl ! k)"

text \<open>
  \<open>PLCache_lookup_hw\<close>: the \<open>n\<close>th hardware address of an entry is paired with its \<open>n\<close>th IP
  address, wrapping around.  The out parameters are \<open>client_ip\<close> and \<open>has_binding\<close>; \<open>func\<close> is
  \<open>None\<close> when it is null.
\<close>

type_synonym binding = "in_addr \<times> bool"

fun hw_names ::
  "netlib \<Rightarrow> u8 list \<Rightarrow> (in_addr \<Rightarrow> bool) option \<Rightarrow> ni_namelist \<Rightarrow> ni_namelist \<Rightarrow> nat \<Rightarrow> binding \<Rightarrow> binding \<times> bool" where
  "hw_names L en_search func ips [] n s = (s, False)"
| "hw_names L en_search func ips (v # vs) n s =
     (case ether_aton L v of
        None \<Rightarrow> hw_names L en_search func ips vs (n + 1) s
      | Some en \<Rightarrow>
          if en = take 6 en_search then
            (case inet_aton L (ips ! (n mod length ips)) of
               None \<Rightarrow> hw_names L en_search func ips vs (n + 1) s
             | Some ip \<Rightarrow>
                 if (case func of None \<Rightarrow> True | Some f \<Rightarrow> f ip) then ((ip, True), True)
                 else hw_names L en_search func ips vs (n + 1) (ip, True))
          else hw_names L en_search func ips vs (n + 1) s)"

definition lookup_hw_test ::
  "netlib \<Rightarrow> u8 list \<Rightarrow> (in_addr \<Rightarrow> bool) option \<Rightarrow> ni_proplist \<Rightarrow> binding \<Rightarrow> binding \<times> bool" where
  "lookup_hw_test L hwaddr func pl s =
     (case ni_proplist_match pl NIPROP_ENADDR None of
        None \<Rightarrow> (s, False)
      | Some en_index \<Rightarrow>
          (case ni_proplist_match pl NIPROP_IPADDR None of
             None \<Rightarrow> (s, False)
           | Some ip_index \<Rightarrow>
               let en_nl = vals_at pl en_index; ip_nl = vals_at pl ip_index in
               if en_nl = [] \<or> ip_nl = [] then (s, False)
               else hw_names L hwaddr func ip_nl en_nl 0 s))"

definition PLCache_lookup_hw where
  "PLCache_lookup_hw L h c hwaddr func client_ip =
     lookup_with True h c (lookup_hw_test L hwaddr func) (client_ip, False)"

text \<open>
  \<open>PLCache_lookup_identifier\<close>: \<open>client_ip\<close> is \<open>None\<close> when the caller passes the null pointer
  and does not care about the address.
\<close>

type_synonym id_binding = "in_addr option \<times> bool"

fun id_names ::
  "netlib \<Rightarrow> string \<Rightarrow> (in_addr \<Rightarrow> bool) option \<Rightarrow> ni_namelist \<Rightarrow> ni_namelist \<Rightarrow> nat \<Rightarrow> id_binding \<Rightarrow> id_binding \<times> bool" where
  "id_names L idstr func ips [] n s = (s, False)"
| "id_names L idstr func ips (v # vs) n (client_ip, hb) =
     (if v = idstr then
        (case inet_aton L (ips ! (n mod length ips)) of
           None \<Rightarrow> id_names L idstr func ips vs (n + 1) (client_ip, hb)
         | Some ip \<Rightarrow>
             let client_ip' = (if client_ip = None then None else Some ip) in
             if (case func of None \<Rightarrow> True | Some f \<Rightarrow> client_ip \<noteq> None \<and> f ip)
             then ((client_ip', True), True)
             else id_names L idstr func ips vs (n + 1) (client_ip', True))
      else id_names L idstr func ips vs (n + 1) (client_ip, hb))"

definition lookup_identifier_test ::
  "netlib \<Rightarrow> string \<Rightarrow> (in_addr \<Rightarrow> bool) option \<Rightarrow> ni_proplist \<Rightarrow> id_binding \<Rightarrow> id_binding \<times> bool" where
  "lookup_identifier_test L idstr func pl s =
     (case ni_proplist_match pl NIPROP_IDENTIFIER None of
        None \<Rightarrow> (s, False)
      | Some ident_index \<Rightarrow>
          let ident_nl = vals_at pl ident_index in
          (case ident_nl of
             [] \<Rightarrow> (s, False)
           | v # _ \<Rightarrow>
               if fst s = None \<and> v = idstr then ((None, True), True)
               else
                 (case ni_proplist_match pl NIPROP_IPADDR None of
                    None \<Rightarrow> (s, False)
                  | Some ip_index \<Rightarrow>
                      let ip_nl = vals_at pl ip_index in
                      if ip_nl = [] then (s, False)
                      else id_names L idstr func ip_nl ident_nl 0 s)))"

definition PLCache_lookup_identifier where
  "PLCache_lookup_identifier L h c idstr func client_ip =
     lookup_with True h c (lookup_identifier_test L idstr func) (client_ip, False)"

definition lookup_ip_test :: "netlib \<Rightarrow> in_addr \<Rightarrow> ni_proplist \<Rightarrow> unit \<Rightarrow> unit \<times> bool" where
  "lookup_ip_test L iaddr pl s =
     (s, (case ni_proplist_match pl NIPROP_IPADDR None of
            None \<Rightarrow> False
          | Some k \<Rightarrow> list_ex (\<lambda>v. inet_aton L v = Some iaddr) (vals_at pl k)))"

definition PLCache_lookup_ip where
  "PLCache_lookup_ip L h c iaddr = lookup_with True h c (lookup_ip_test L iaddr) ()"

end
