(* ===== verification/NICacheFacts.thy ===== *)
theory NICacheFacts
  imports NICache
begin

text \<open>
  The linked list of theory NICache refines a list of entries: every pointer operation is defined
  on a well-formed list, keeps it well formed, and performs the list operation.
\<close>

section \<open>Well-formed linked lists\<close>

definition hdo :: "'a list \<Rightarrow> 'a option \<Rightarrow> 'a option" where
  "hdo xs d = (case xs of [] \<Rightarrow> d | x # _ \<Rightarrow> Some x)"

definition lasto :: "'a option \<Rightarrow> 'a list \<Rightarrow> 'a option" where
  "lasto d xs = (if xs = [] then d else Some (last xs))"

lemma hdo_simps [simp]: "hdo [] d = d" "hdo (x # xs) d = Some x" "hdo (xs @ ys) d = hdo xs (hdo ys d)"
  by (simp_all add: hdo_def split: list.split)

lemma lasto_simps [simp]:
  "lasto d [] = d" "lasto d (xs @ [x]) = Some x" "lasto d (xs @ ys) = lasto (lasto d xs) ys"
  "lasto d (x # xs) = lasto (Some x) xs"
  by (auto simp: lasto_def)

fun chain :: "heap \<Rightarrow> eptr option \<Rightarrow> eptr list \<Rightarrow> eptr option \<Rightarrow> bool" where
  "chain h pr [] nx = True"
| "chain h pr (x # xs) nx =
     ((case h x of None \<Rightarrow> False | Some e \<Rightarrow> ce_prev e = pr \<and> ce_next e = hdo xs nx) \<and> chain h (Some x) xs nx)"

definition dll :: "heap \<Rightarrow> plcache \<Rightarrow> eptr list \<Rightarrow> bool" where
  "dll h c xs \<longleftrightarrow> distinct xs \<and> chain h None xs None \<and> pc_head c = hdo xs None \<and>
     pc_tail c = lasto None xs \<and> pc_count c = int (length xs)"

lemma chain_append: "chain h pr (xs @ ys) nx \<longleftrightarrow> chain h pr xs (hdo ys nx) \<and> chain h (lasto pr xs) ys nx"
  by (induction xs arbitrary: pr) (auto split: option.splits)

lemma chain_frame [simp]: "p \<notin> set xs \<Longrightarrow> chain (h(p := v)) pr xs nx = chain h pr xs nx"
  by (induction xs arbitrary: pr) auto

lemma chain_dom: "chain h pr xs nx \<Longrightarrow> x \<in> set xs \<Longrightarrow> \<exists>e. h x = Some e"
  by (induction xs arbitrary: pr) (auto split: option.splits)

text \<open>The property lists of the entries; relinking does not change them.\<close>

definition pl_of :: "heap \<Rightarrow> eptr \<Rightarrow> ni_proplist option" where
  "pl_of h p = map_option ce_pl (h p)"

definition view :: "heap \<Rightarrow> eptr list \<Rightarrow> (eptr \<times> ni_proplist) list" where
  "view h xs = map (\<lambda>p. (p, the (pl_of h p))) xs"

lemma pl_of_set_next: "set_next h p v = Some h' \<Longrightarrow> pl_of h' = pl_of h"
  by (auto simp: set_next_def pl_of_def bind_eq_Some_conv intro!: ext)

lemma pl_of_set_prev: "set_prev h p v = Some h' \<Longrightarrow> pl_of h' = pl_of h"
  by (auto simp: set_prev_def pl_of_def bind_eq_Some_conv intro!: ext)

lemma view_cong: "pl_of h = pl_of h' \<Longrightarrow> view h xs = view h' xs"
  by (simp add: view_def)

lemma set_next_Some: "h q = Some e \<Longrightarrow> set_next h (Some q) v = Some (h(q \<mapsto> e\<lparr>ce_next := v\<rparr>))"
  by (simp add: set_next_def)

lemma set_prev_Some: "h q = Some e \<Longrightarrow> set_prev h (Some q) v = Some (h(q \<mapsto> e\<lparr>ce_prev := v\<rparr>))"
  by (simp add: set_prev_def)

text \<open>Redirecting the last forward link, or the first backward link, of a segment.\<close>

lemma chain_relink_last:
  assumes "chain h pr (xs @ [x]) nx" "distinct (xs @ [x])"
  obtains e where "h x = Some e" "chain (h(x \<mapsto> e\<lparr>ce_next := nx'\<rparr>)) pr (xs @ [x]) nx'"
proof -
  from assms(1) obtain e where e: "h x = Some e" "ce_prev e = lasto pr xs" "chain h pr xs (Some x)"
    by (auto simp: chain_append split: option.splits)
  with assms(2) show ?thesis by (intro that [of e]) (simp_all add: chain_append)
qed

lemma chain_relink_first:
  assumes "chain h pr (x # xs) nx" "distinct (x # xs)"
  obtains e where "h x = Some e" "chain (h(x \<mapsto> e\<lparr>ce_prev := pr'\<rparr>)) pr' (x # xs) nx"
proof -
  from assms(1) obtain e where "h x = Some e" "ce_next e = hdo xs nx" "chain h (Some x) xs nx"
    by (auto split: option.splits)
  with assms(2) show ?thesis by (intro that [of e]) simp_all
qed

section \<open>Adding and appending\<close>

lemma add_refines:
  assumes "dll h c xs" "h p = Some e" "p \<notin> set xs"
  obtains h' c' where "PLCache_add h c (Some p) = Some (h', c')" "dll h' c' (p # xs)"
    "pl_of h' = pl_of h" "pc_max_entries c' = pc_max_entries c"
proof -
  let ?h1 = "h(p \<mapsto> e\<lparr>ce_next := hdo xs None\<rparr>)"
  let ?h2 = "?h1(p \<mapsto> e\<lparr>ce_next := hdo xs None, ce_prev := None\<rparr>)"
  have d: "distinct xs" "chain h None xs None" "pc_head c = hdo xs None" "pc_tail c = lasto None xs"
      "pc_count c = int (length xs)"
    using assms(1) by (auto simp: dll_def)
  have s: "set_next h (Some p) (pc_head c) = Some ?h1" "set_prev ?h1 (Some p) None = Some ?h2"
    using assms(2) by (simp_all add: d set_next_def set_prev_def)
  have pl: "pl_of ?h2 = pl_of h" using assms(2) by (simp add: pl_of_def fun_eq_iff)
  show ?thesis
  proof (cases xs)
    case Nil
    have "PLCache_add h c (Some p) = Some (?h2, c\<lparr>pc_tail := Some p, pc_head := Some p, pc_count := pc_count c + 1\<rparr>)"
      using s by (simp add: PLCache_add_def d Nil)
    with pl d show ?thesis
      by (intro that [of ?h2 "c\<lparr>pc_tail := Some p, pc_head := Some p, pc_count := pc_count c + 1\<rparr>"])
        (simp_all add: dll_def Nil)
  next
    case (Cons x ys)
    have x: "x \<noteq> p" using Cons assms(3) by auto
    from d(2,1) obtain f where f: "h x = Some f" "chain (h(x \<mapsto> f\<lparr>ce_prev := Some p\<rparr>)) (Some p) (x # ys) None"
      unfolding Cons by (rule chain_relink_first)
    let ?h3 = "?h2(x \<mapsto> f\<lparr>ce_prev := Some p\<rparr>)"
    have "set_prev ?h2 (Some x) (Some p) = Some ?h3"
      using f(1) x by (intro set_prev_Some) simp
    then have add: "PLCache_add h c (Some p) = Some (?h3, c\<lparr>pc_head := Some p, pc_count := pc_count c + 1\<rparr>)"
      using s by (simp add: PLCache_add_def d Cons)
    have "chain ?h3 (Some p) (x # ys) None"
    proof -
      have "?h3 = (h(x \<mapsto> f\<lparr>ce_prev := Some p\<rparr>))(p \<mapsto> e\<lparr>ce_next := hdo xs None, ce_prev := None\<rparr>)"
        using x by (simp add: fun_upd_twist)
      then show ?thesis using f(2) assms(3) Cons by (metis chain_frame)
    qed
    then have "dll ?h3 (c\<lparr>pc_head := Some p, pc_count := pc_count c + 1\<rparr>) (p # xs)"
      using x assms(3) d by (auto simp: dll_def Cons)
    moreover have "pl_of ?h3 = pl_of h" using f(1) assms(2) by (simp add: pl_of_def fun_eq_iff)
    ultimately show ?thesis using add
      by (intro that [of ?h3 "c\<lparr>pc_head := Some p, pc_count := pc_count c + 1\<rparr>"]) simp_all
  qed
qed

lemma append_refines:
  assumes "dll h c xs" "h p = Some e" "p \<notin> set xs"
  obtains h' c' where "PLCache_append h c (Some p) = Some (h', c')" "dll h' c' (xs @ [p])"
    "pl_of h' = pl_of h" "pc_max_entries c' = pc_max_entries c"
proof -
  let ?h1 = "h(p \<mapsto> e\<lparr>ce_next := None\<rparr>)"
  let ?h2 = "?h1(p \<mapsto> e\<lparr>ce_next := None, ce_prev := lasto None xs\<rparr>)"
  have d: "distinct xs" "chain h None xs None" "pc_head c = hdo xs None" "pc_tail c = lasto None xs"
      "pc_count c = int (length xs)"
    using assms(1) by (auto simp: dll_def)
  have s: "set_next h (Some p) None = Some ?h1" "set_prev ?h1 (Some p) (pc_tail c) = Some ?h2"
    using assms(2) by (simp_all add: d set_next_def set_prev_def)
  have pl: "pl_of ?h2 = pl_of h" using assms(2) by (simp add: pl_of_def fun_eq_iff)
  show ?thesis
  proof (cases xs rule: rev_cases)
    case Nil
    have "PLCache_append h c (Some p) = Some (?h2, c\<lparr>pc_tail := Some p, pc_head := Some p, pc_count := pc_count c + 1\<rparr>)"
      using s by (simp add: PLCache_append_def d Nil)
    with pl d show ?thesis
      by (intro that [of ?h2 "c\<lparr>pc_tail := Some p, pc_head := Some p, pc_count := pc_count c + 1\<rparr>"])
        (simp_all add: dll_def Nil)
  next
    case (snoc ys x)
    have x: "x \<noteq> p" using snoc assms(3) by auto
    from d(2,1) obtain f where f: "h x = Some f" "chain (h(x \<mapsto> f\<lparr>ce_next := Some p\<rparr>)) None (ys @ [x]) (Some p)"
      unfolding snoc by (rule chain_relink_last)
    let ?h3 = "?h2(x \<mapsto> f\<lparr>ce_next := Some p\<rparr>)"
    have head: "pc_head c \<noteq> None" using d(3) by (cases ys) (simp_all add: snoc)
    have "set_next ?h2 (Some x) (Some p) = Some ?h3"
      using f(1) x by (intro set_next_Some) simp
    then have add: "PLCache_append h c (Some p) = Some (?h3, c\<lparr>pc_tail := Some p, pc_count := pc_count c + 1\<rparr>)"
      using s head d(4) by (auto simp: PLCache_append_def snoc)
    have "chain ?h3 None (ys @ [x]) (Some p)"
    proof -
      have "?h3 = (h(x \<mapsto> f\<lparr>ce_next := Some p\<rparr>))(p \<mapsto> e\<lparr>ce_next := None, ce_prev := lasto None xs\<rparr>)"
        using x by (simp add: fun_upd_twist)
      then show ?thesis using f(2) assms(3) snoc by (metis chain_frame)
    qed
    then have "dll ?h3 (c\<lparr>pc_tail := Some p, pc_count := pc_count c + 1\<rparr>) (xs @ [p])"
      using x assms(3) d by (simp add: dll_def snoc chain_append)
    moreover have "pl_of ?h3 = pl_of h" using f(1) assms(2) by (simp add: pl_of_def fun_eq_iff)
    ultimately show ?thesis using add
      by (intro that [of ?h3 "c\<lparr>pc_tail := Some p, pc_count := pc_count c + 1\<rparr>"]) simp_all
  qed
qed

section \<open>Removing\<close>

lemma chain_cong: "(\<And>x. x \<in> set xs \<Longrightarrow> h x = h' x) \<Longrightarrow> chain h pr xs nx = chain h' pr xs nx"
  by (induction xs arbitrary: pr) auto

lemma relink_left:
  assumes "chain h None as nx" "distinct as"
  obtains h' where "(if lasto None as \<noteq> None then set_next h (lasto None as) v else Some h) = Some h'"
    "chain h' None as v" "\<And>q. q \<notin> set as \<Longrightarrow> h' q = h q" "pl_of h' = pl_of h"
proof (cases as rule: rev_cases)
  case Nil
  then show ?thesis by (intro that [of h]) simp_all
next
  case (snoc ys x)
  obtain e where e: "h x = Some e" "chain (h(x \<mapsto> e\<lparr>ce_next := v\<rparr>)) None (ys @ [x]) v"
    using assms unfolding snoc by (rule chain_relink_last)
  have "set_next h (Some x) v = Some (h(x \<mapsto> e\<lparr>ce_next := v\<rparr>))" using e(1) by (rule set_next_Some)
  with e(2) snoc pl_of_set_next [OF this] show ?thesis
    by (intro that [of "h(x \<mapsto> e\<lparr>ce_next := v\<rparr>)"]) simp_all
qed

lemma relink_right:
  assumes "chain h pr bs None" "distinct bs"
  obtains h' where "(if hdo bs None \<noteq> None then set_prev h (hdo bs None) v else Some h) = Some h'"
    "chain h' v bs None" "\<And>q. q \<notin> set bs \<Longrightarrow> h' q = h q" "pl_of h' = pl_of h"
proof (cases bs)
  case Nil
  then show ?thesis by (intro that [of h]) simp_all
next
  case (Cons x ys)
  obtain e where e: "h x = Some e" "chain (h(x \<mapsto> e\<lparr>ce_prev := v\<rparr>)) v (x # ys) None"
    using assms unfolding Cons by (rule chain_relink_first)
  have "set_prev h (Some x) v = Some (h(x \<mapsto> e\<lparr>ce_prev := v\<rparr>))" using e(1) by (rule set_prev_Some)
  with e(2) Cons pl_of_set_prev [OF this] show ?thesis
    by (intro that [of "h(x \<mapsto> e\<lparr>ce_prev := v\<rparr>)"]) simp_all
qed

lemma remove_refines:
  assumes "dll h c (as @ p # bs)"
  obtains h' c' where "PLCache_remove h c (Some p) = Some (h', c')" "dll h' c' (as @ bs)"
    "pl_of h' = pl_of h" "pc_max_entries c' = pc_max_entries c"
proof -
  have d: "distinct as" "distinct bs" "p \<notin> set as" "p \<notin> set bs" "set as \<inter> set bs = {}"
      "pc_head c = hdo as (Some p)" "pc_tail c = lasto (Some p) bs" "pc_count c = int (length as + length bs + 1)"
    using assms by (auto simp: dll_def)
  obtain e where e: "h p = Some e" "ce_prev e = lasto None as" "ce_next e = hdo bs None"
      "chain h None as (Some p)" "chain h (Some p) bs None"
    using assms by (auto simp: dll_def chain_append split: option.splits)
  obtain h1 where h1: "(if lasto None as \<noteq> None then set_next h (lasto None as) (hdo bs None) else Some h) = Some h1"
      "chain h1 None as (hdo bs None)" "\<And>q. q \<notin> set as \<Longrightarrow> h1 q = h q" "pl_of h1 = pl_of h"
    using relink_left [OF e(4) d(1), of "hdo bs None"] by blast
  have "chain h1 (Some p) bs None"
    using e(5) d(5) h1(3) chain_cong [of bs h1 h] by blast
  then obtain h2 where h2: "(if hdo bs None \<noteq> None then set_prev h1 (hdo bs None) (lasto None as) else Some h1) = Some h2"
      "chain h2 (lasto None as) bs None" "\<And>q. q \<notin> set bs \<Longrightarrow> h2 q = h1 q" "pl_of h2 = pl_of h1"
    using relink_right d(2) by blast
  have hp: "h1 p = Some e" "h2 p = Some e" using e(1) h1(3) h2(3) d(3,4) by simp_all
  have as2: "chain h2 None as (hdo bs None)"
    using h1(2) d(5) h2(3) chain_cong [of as h2 h1] by blast
  let ?h3 = "h2(p \<mapsto> e\<lparr>ce_prev := None\<rparr>)"
  let ?h4 = "?h3(p \<mapsto> e\<lparr>ce_prev := None, ce_next := None\<rparr>)"
  have h34: "set_prev h2 (Some p) None = Some ?h3" "set_next ?h3 (Some p) None = Some ?h4"
    using hp by (simp_all add: set_prev_def set_next_def)
  let ?c1 = "if Some p = pc_head c then c\<lparr>pc_head := hdo bs None\<rparr> else c"
  let ?c2 = "if Some p = pc_tail ?c1 then ?c1\<lparr>pc_tail := lasto None as\<rparr> else ?c1"
  have rm: "PLCache_remove h c (Some p) = Some (?h4, ?c2\<lparr>pc_count := pc_count ?c2 - 1\<rparr>)"
    unfolding PLCache_remove_def option.case e(1) Option.bind.bind_lunit e(2,3) h1(1) hp h2(1)
    by (simp add: h34)
  have ch: "chain ?h4 None (as @ bs) None"
    using as2 h2(2) d(3,4) by (simp add: chain_append)
  have hd: "pc_head ?c2 = hdo as (hdo bs None)"
    using d(3,6) by (cases as) auto
  have tl: "pc_tail ?c2 = lasto (lasto None as) bs"
    using d(4,7) by (cases bs rule: rev_cases) auto
  have "pl_of ?h4 = pl_of h"
    using h1(4) h2(4) hp e(1) by (simp add: pl_of_def fun_eq_iff)
  moreover have "dll ?h4 (?c2\<lparr>pc_count := pc_count ?c2 - 1\<rparr>) (as @ bs)"
    using d(1,2,5,8) ch hd tl by (simp add: dll_def)
  ultimately show ?thesis
    by (intro that [OF rm]) simp_all
qed

lemma make_head_refines:
  assumes "dll h c (as @ p # bs)"
  obtains h' c' where "PLCache_make_head h c (Some p) = Some (h', c')" "dll h' c' (p # as @ bs)"
    "pl_of h' = pl_of h" "pc_max_entries c' = pc_max_entries c"
proof (cases as)
  case Nil
  then show ?thesis using assms by (intro that [of h c]) (simp_all add: PLCache_make_head_def dll_def)
next
  case (Cons a as')
  obtain h1 c1 where r: "PLCache_remove h c (Some p) = Some (h1, c1)" "dll h1 c1 (as @ bs)" "pl_of h1 = pl_of h"
      "pc_max_entries c1 = pc_max_entries c"
    using remove_refines [OF assms] .
  have "p \<notin> set (as @ bs)" "h p \<noteq> None" "pc_head c \<noteq> Some p"
    using assms Cons by (auto simp: dll_def chain_append)
  moreover from \<open>h p \<noteq> None\<close> obtain e where "h1 p = Some e"
    using r(3) by (auto simp: pl_of_def fun_eq_iff) (metis not_None_eq option.map_disc_iff)
  ultimately obtain h2 c2 where "PLCache_add h1 c1 (Some p) = Some (h2, c2)" "dll h2 c2 (p # as @ bs)"
      "pl_of h2 = pl_of h1" "pc_max_entries c2 = pc_max_entries c1"
    using add_refines [OF r(2)] by blast
  with r \<open>pc_head c \<noteq> Some p\<close> show ?thesis
    by (intro that [of h2 c2]) (auto simp: PLCache_make_head_def)
qed

section \<open>Shortening and freeing the list\<close>

lemma drop_tail_spec:
  "chain h None (as @ bs) nx \<Longrightarrow> distinct (as @ bs) \<Longrightarrow>
   \<exists>h'. drop_tail (length bs) h pv (lasto None (as @ bs)) = Some (h', if bs = [] then pv else lasto None as) \<and>
     (\<forall>q. h' q = (if q \<in> set bs then None else h q))"
proof (induction bs arbitrary: h nx pv rule: rev_induct)
  case Nil
  then show ?case by simp
next
  case (snoc x bs)
  from snoc.prems(1) have c: "chain h None (as @ bs) (Some x)"
    by (auto simp: chain_append)
  from snoc.prems(1) obtain e where e: "h x = Some e" "ce_prev e = lasto None (as @ bs)"
    by (auto simp: chain_append split: option.splits)
  have x: "x \<notin> set (as @ bs)" using snoc.prems(2) by auto
  have "chain (h(x := None)) None (as @ bs) (Some x)" using c chain_frame [OF x] by blast
  from snoc.IH [OF this, of "lasto None (as @ bs)"] snoc.prems(2)
  obtain h' where h': "drop_tail (length bs) (h(x := None)) (lasto None (as @ bs)) (lasto None (as @ bs)) =
        Some (h', if bs = [] then lasto None (as @ bs) else lasto None as)"
      "\<forall>q. h' q = (if q \<in> set bs then None else (h(x := None)) q)"
    unfolding distinct_append by fastforce
  have "drop_tail (length (bs @ [x])) h pv (lasto None (as @ bs @ [x])) =
      drop_tail (length bs) (h(x := None)) (lasto None (as @ bs)) (lasto None (as @ bs))"
    using e by (simp add: PLCacheEntry_free_def)
  also have "\<dots> = Some (h', if bs @ [x] = [] then pv else lasto None as)"
    using h'(1) by simp
  finally show ?case
    using h'(2) by (intro exI [of _ h']) auto
qed

lemma set_max_refines:
  assumes "dll h c xs"
  obtains h' c' where "PLCache_set_max h c m = Some (h', c')" "dll h' c' (take (nat (max CACHE_MIN m)) xs)"
    "pc_max_entries c' = max CACHE_MIN m" "\<And>q. q \<in> set (take (nat (max CACHE_MIN m)) xs) \<Longrightarrow> pl_of h' q = pl_of h q"
proof (cases "int (length xs) > max CACHE_MIN m")
  case False
  then have "length xs \<le> nat (max CACHE_MIN m)" by linarith
  then have "take (nat (max CACHE_MIN m)) xs = xs" by simp
  moreover have "PLCache_set_max h c m = Some (h, c\<lparr>pc_max_entries := max CACHE_MIN m\<rparr>)"
    using False assms by (auto simp: PLCache_set_max_def dll_def Let_def)
  ultimately show ?thesis using assms
    by (intro that [of h "c\<lparr>pc_max_entries := max CACHE_MIN m\<rparr>"]) (simp_all add: dll_def)
next
  case True
  let ?m = "max CACHE_MIN m"
  let ?as = "take (nat ?m) xs" and ?bs = "drop (nat ?m) xs"
  have m: "10 \<le> ?m" by (simp add: CACHE_MIN_def)
  have lb: "length ?bs = nat (int (length xs) - ?m)" unfolding length_drop using m by linarith
  have ne: "?bs \<noteq> []" "?as \<noteq> []" using True m by auto
  have d: "distinct (?as @ ?bs)" "chain h None (?as @ ?bs) None" "pc_tail c = lasto None (?as @ ?bs)"
      "pc_head c = hdo (?as @ ?bs) None" "pc_count c = int (length xs)"
    using assms by (auto simp: dll_def)
  obtain h1 where h1: "drop_tail (length ?bs) h None (pc_tail c) = Some (h1, lasto None ?as)"
      "\<And>q. h1 q = (if q \<in> set ?bs then None else h q)"
    using drop_tail_spec [OF d(2,1), of None] ne(1) unfolding d(3) by auto
  obtain ys x where as: "?as = ys @ [x]" using ne(2) by (metis rev_exhaust)
  have "chain h None ?as (hdo ?bs None)" using d(2) unfolding chain_append by simp
  then have "chain h1 None ?as (hdo ?bs None)"
    using d(1) h1(2) chain_cong [of ?as h1 h] by (metis IntI distinct_append empty_iff)
  then obtain e where e: "h1 x = Some e" "chain (h1(x \<mapsto> e\<lparr>ce_next := None\<rparr>)) None ?as None"
    using chain_relink_last [of h1 None ys x "hdo ?bs None" None] d(1) unfolding as by auto
  let ?h2 = "h1(x \<mapsto> e\<lparr>ce_next := None\<rparr>)"
  let ?c2 = "c\<lparr>pc_max_entries := ?m, pc_tail := Some x, pc_count := ?m\<rparr>"
  have "set_next h1 (Some x) None = Some ?h2" using e(1) by (rule set_next_Some)
  moreover have "lasto None ?as = Some x" unfolding as by simp
  then have "drop_tail (nat (int (length xs) - ?m)) h None (pc_tail c) = Some (h1, Some x)"
    using h1(1) unfolding lb by simp
  moreover have "(if m < CACHE_MIN then CACHE_MIN else m) = ?m" by simp
  ultimately have "PLCache_set_max h c m = Some (?h2, ?c2)"
    using True d(5) by (simp add: PLCache_set_max_def Let_def)
  moreover have "int (length ?as) = ?m" unfolding length_take using True m by linarith
  then have "dll ?h2 ?c2 ?as"
    using e(2) d m unfolding dll_def by (simp only: as) simp
  moreover have "pl_of ?h2 q = pl_of h q" if "q \<in> set ?as" for q
  proof -
    have "q \<notin> set ?bs" using that d(1) unfolding distinct_append by blast
    then have "h1 q = h q" by (simp add: h1(2))
    with e(1) show ?thesis by (auto simp: pl_of_def)
  qed
  ultimately show ?thesis
    by (intro that [of ?h2 ?c2]) simp_all
qed

lemma free_all_spec:
  "chain h pr xs None \<Longrightarrow> distinct xs \<Longrightarrow>
   \<exists>h'. free_all (length xs) h (hdo xs None) = Some h' \<and> (\<forall>q. h' q = (if q \<in> set xs then None else h q))"
proof (induction xs arbitrary: h pr)
  case Nil
  then show ?case by simp
next
  case (Cons x xs)
  then obtain e where e: "h x = Some e" "ce_next e = hdo xs None" "chain h (Some x) xs None"
    by (auto split: option.splits)
  have x: "x \<notin> set xs" "distinct xs" using Cons.prems(2) by auto
  have "chain (h(x := None)) (Some x) xs None" using e(3) chain_frame [OF x(1)] by blast
  from Cons.IH [OF this x(2)] obtain h' where
    "free_all (length xs) (h(x := None)) (hdo xs None) = Some h'" "\<forall>q. h' q = (if q \<in> set xs then None else (h(x := None)) q)"
    by blast
  with e show ?case by (intro exI [of _ h'] conjI) (simp add: PLCacheEntry_free_def, auto)
qed

lemma free_refines:
  assumes "dll h c xs"
  obtains h' c' where "PLCache_free h c = Some (h', c')" "dll h' c' []"
    "\<And>q. h' q = (if q \<in> set xs then None else h q)"
proof -
  have "chain h None xs None" "distinct xs" using assms by (auto simp: dll_def)
  from free_all_spec [OF this] obtain h' where
    "free_all (length xs) h (hdo xs None) = Some h'" "\<And>q. h' q = (if q \<in> set xs then None else h q)"
    by blast
  with assms show ?thesis
    by (intro that [of h' "\<lparr>pc_head = None, pc_tail = None, pc_max_entries = 0, pc_count = 0\<rparr>"])
      (simp_all add: PLCache_free_def dll_def)
qed

section \<open>Lookups\<close>

fun list_scan :: "('e \<Rightarrow> 's \<Rightarrow> 's \<times> bool) \<Rightarrow> 's \<Rightarrow> ('p \<times> 'e) list \<Rightarrow> 'p option \<times> 's" where
  "list_scan test s [] = (None, s)"
| "list_scan test s ((p, e) # ys) =
     (case test e s of
        (s', True) \<Rightarrow> (Some p, s')
      | (s', False) \<Rightarrow> list_scan test s' ys)"

lemma walk_spec:
  "chain h pr xs None \<Longrightarrow> length xs \<le> n \<Longrightarrow>
   plc_walk n h (hdo xs None) test s = Some (list_scan test s (view h xs))"
proof (induction xs arbitrary: n pr s)
  case Nil
  then show ?case by (simp add: view_def)
next
  case (Cons x xs)
  then obtain k where n: "n = Suc k" "length xs \<le> k" by (cases n) auto
  obtain e where e: "h x = Some e" "ce_next e = hdo xs None" "chain h (Some x) xs None"
    using Cons.prems(1) by (auto split: option.splits)
  have v: "view h (x # xs) = (x, ce_pl e) # view h xs" using e(1) by (simp add: view_def pl_of_def)
  show ?case
    using Cons.IH [OF e(3) n(2)] e(1,2) by (simp add: n(1) v split: prod.splits bool.splits)
qed

lemma list_scan_in: "list_scan test s ys = (Some p, s') \<Longrightarrow> p \<in> fst ` set ys"
  by (induction ys arbitrary: s) (force split: prod.splits bool.splits)+

definition move_front :: "'p option \<Rightarrow> 'p list \<Rightarrow> 'p list" where
  "move_front r xs = (case r of None \<Rightarrow> xs | Some p \<Rightarrow> p # remove1 p xs)"

lemma remove1_split: "p \<notin> set as \<Longrightarrow> remove1 p (as @ p # bs) = as @ bs"
  by (induction as) auto

lemma lookup_refines:
  assumes "dll h c xs" and "list_scan test s (view h xs) = (r, s')"
  obtains h' c' where "lookup_with mh h c test s = Some (r, s', h', c')"
    "dll h' c' (if mh then move_front r xs else xs)" "pl_of h' = pl_of h"
proof -
  have w: "plc_walk (nat (pc_count c)) h (pc_head c) test s = Some (r, s')"
    using assms walk_spec [of h None xs "length xs" test s] by (simp add: dll_def)
  show ?thesis
  proof (cases "r = None \<or> \<not> mh")
    case True
    with w assms(1) show ?thesis
      by (intro that [of h c]) (auto simp: lookup_with_def move_front_def split: option.splits)
  next
    case False
    then obtain p where r: "r = Some p" and mh: mh by auto
    have "p \<in> set xs" using list_scan_in assms(2) r by (fastforce simp: view_def)
    then obtain as bs where xs: "xs = as @ p # bs" "p \<notin> set as" by (metis split_list_first)
    obtain h' c' where "PLCache_make_head h c (Some p) = Some (h', c')" "dll h' c' (p # as @ bs)" "pl_of h' = pl_of h"
      using make_head_refines assms(1) unfolding xs(1) by blast
    with w r mh xs show ?thesis
      by (intro that [of h' c']) (auto simp: lookup_with_def move_front_def remove1_split)
  qed
qed

section \<open>The interface the server uses\<close>

text \<open>
  A most-recently-used store: \<open>rep s ys\<close> says that the state \<open>s\<close> stands for the entries \<open>ys\<close>.
\<close>

definition to_front :: "'p option \<Rightarrow> ('p \<times> 'e) list \<Rightarrow> ('p \<times> 'e) list" where
  "to_front r ys =
     (case r of None \<Rightarrow> ys
      | Some p \<Rightarrow> filter (\<lambda>y. fst y = p) ys @ filter (\<lambda>y. fst y \<noteq> p) ys)"

locale mru_store =
  fixes rep :: "'s \<Rightarrow> ('p \<times> 'e) list \<Rightarrow> bool"
    and lookup :: "('e \<Rightarrow> 'v \<Rightarrow> 'v \<times> bool) \<Rightarrow> 'v \<Rightarrow> 's \<Rightarrow> ('p option \<times> 'v \<times> 's) option"
    and del :: "'p \<Rightarrow> 's \<Rightarrow> 's option"
  assumes keys: "rep s ys \<Longrightarrow> distinct (map fst ys)"
    and lookup_law: "rep s ys \<Longrightarrow> list_scan test v ys = (r, v') \<Longrightarrow>
      \<exists>s'. lookup test v s = Some (r, v', s') \<and> rep s' (to_front r ys)"
    and del_law: "rep s ys \<Longrightarrow> p \<in> fst ` set ys \<Longrightarrow>
      \<exists>s'. del p s = Some s' \<and> rep s' (filter (\<lambda>y. fst y \<noteq> p) ys)"
begin

text \<open>An entry that is found is found again by the same search, without a second move.\<close>

lemma scan_front:
  assumes "list_scan test v ys = (Some p, v')" "distinct (map fst ys)"
    and pure: "\<And>e v. fst (test e v) = v"
  shows "list_scan test v (to_front (Some p) ys) = (Some p, v')"
proof -
  have "v' = v \<and> (\<exists>e. (p, e) \<in> set ys \<and> test e v = (v, True))"
    using assms(1)
  proof (induction ys)
    case Nil
    then show ?case by simp
  next
    case (Cons y ys)
    obtain q e where y: "y = (q, e)" by (cases y)
    obtain b where t: "test e v = (v, b)" using pure [of e v] by (metis prod.collapse)
    show ?case
    proof (cases b)
      case True
      with Cons.prems t show ?thesis by (auto simp: y)
    next
      case False
      with Cons t show ?thesis by (auto simp: y)
    qed
  qed
  then obtain e where e: "v' = v" "(p, e) \<in> set ys" "test e v = (v, True)" by auto
  have "filter (\<lambda>y. fst y = p) ys = [(p, e)]"
    using e(2) assms(2)
  proof (induction ys)
    case Nil
    then show ?case by simp
  next
    case (Cons y ys)
    show ?case
    proof (cases "y = (p, e)")
      case True
      then have "filter (\<lambda>y. fst y = p) ys = []"
        using Cons.prems(2) by (auto simp: filter_empty_conv)
      with True show ?thesis by simp
    next
      case False
      with Cons.prems have m: "(p, e) \<in> set ys" "distinct (map fst ys)" by auto
      then have "p \<in> set (map fst ys)" by force
      with Cons.prems(2) have "fst y \<noteq> p" by auto
      with Cons.IH [OF m] show ?thesis by simp
    qed
  qed
  with e show ?thesis by (simp add: to_front_def)
qed

lemma lookup_stable:
  assumes "rep s ys" "list_scan test v ys = (Some p, v')" and "\<And>e v. fst (test e v) = v"
  obtains s1 s2 where "lookup test v s = Some (Some p, v', s1)" "lookup test v s1 = Some (Some p, v', s2)"
    "rep s2 (to_front (Some p) (to_front (Some p) ys))"
  using lookup_law [OF assms(1,2)] lookup_law scan_front [OF assms(2) keys [OF assms(1)] assms(3)] by metis

text \<open>A deleted entry is not found any more.\<close>

lemma lookup_deleted:
  assumes "rep s ys" "p \<in> fst ` set ys"
  obtains s1 where "del p s = Some s1" "\<And>test v. \<exists>r v' s2. lookup test v s1 = Some (r, v', s2) \<and> r \<noteq> Some p"
proof -
  obtain s1 where s1: "del p s = Some s1" "rep s1 (filter (\<lambda>y. fst y \<noteq> p) ys)"
    using del_law [OF assms] by blast
  have "\<exists>r v' s2. lookup test v s1 = Some (r, v', s2) \<and> r \<noteq> Some p" for test v
  proof -
    obtain r v' where r: "list_scan test v (filter (\<lambda>y. fst y \<noteq> p) ys) = (r, v')" by fastforce
    then have "r \<noteq> Some p" using list_scan_in by fastforce
    with lookup_law [OF s1(2) r] show ?thesis by blast
  qed
  with s1(1) that show ?thesis by blast
qed

end

definition plc_rep :: "heap \<times> plcache \<Rightarrow> (eptr \<times> ni_proplist) list \<Rightarrow> bool" where
  "plc_rep s ys \<longleftrightarrow> (\<exists>xs. dll (fst s) (snd s) xs \<and> ys = view (fst s) xs)"

definition plc_lookup where
  "plc_lookup test v s = lookup_with True (fst s) (snd s) test v"

definition plc_delete :: "eptr \<Rightarrow> heap \<times> plcache \<Rightarrow> (heap \<times> plcache) option" where
  "plc_delete p s = PLCache_remove (fst s) (snd s) (Some p)"

lemma map_fst_view [simp]: "map fst (view h xs) = xs"
  by (simp add: view_def o_def)

lemma view_filter: "filter (\<lambda>y. fst y \<noteq> p) (view h xs) = view h (filter (\<lambda>x. x \<noteq> p) xs)"
  by (simp add: view_def filter_map o_def)

lemma view_front:
  assumes "distinct xs" "p \<in> set xs"
  shows "to_front (Some p) (view h xs) = view h (move_front (Some p) xs)"
proof -
  have "filter (\<lambda>x. x = p) xs = [p]"
    using assms by (induction xs) (auto simp: filter_empty_conv)
  moreover have "remove1 p xs = filter (\<lambda>x. x \<noteq> p) xs"
    using assms(1) by (simp add: distinct_remove1_removeAll removeAll_filter_not_eq neq_commute)
  ultimately show ?thesis
    by (simp add: to_front_def move_front_def view_def filter_map o_def)
qed

interpretation plc: mru_store plc_rep plc_lookup plc_delete
proof
  show "plc_rep s ys \<Longrightarrow> distinct (map fst ys)" for s ys
    by (auto simp: plc_rep_def dll_def)
next
  fix s :: "heap \<times> plcache" and ys and test :: "ni_proplist \<Rightarrow> 'v \<Rightarrow> 'v \<times> bool" and v r v'
  assume "plc_rep s ys" and scan: "list_scan test v ys = (r, v')"
  then obtain xs where xs: "dll (fst s) (snd s) xs" "ys = view (fst s) xs"
    by (auto simp: plc_rep_def)
  obtain h' c' where l: "lookup_with True (fst s) (snd s) test v = Some (r, v', h', c')"
      "dll h' c' (if True then move_front r xs else xs)" "pl_of h' = pl_of (fst s)"
    by (rule lookup_refines [OF xs(1) scan [unfolded xs(2)]])
  have "to_front r ys = view h' (move_front r xs)"
  proof (cases r)
    case None
    then show ?thesis using view_cong [OF l(3)] by (simp add: to_front_def move_front_def xs(2))
  next
    case (Some p)
    then have "p \<in> set xs" using list_scan_in scan xs(2) by (fastforce simp: view_def)
    with xs(1) show ?thesis
      using view_cong [OF l(3)] view_front [of xs p "fst s"] by (simp add: xs(2) Some dll_def)
  qed
  then show "\<exists>s'. plc_lookup test v s = Some (r, v', s') \<and> plc_rep s' (to_front r ys)"
    using l by (auto simp: plc_lookup_def plc_rep_def)
next
  fix s ys p
  assume "plc_rep s ys" and p: "p \<in> fst ` set ys"
  then obtain xs where xs: "dll (fst s) (snd s) xs" "ys = view (fst s) xs"
    by (auto simp: plc_rep_def)
  then have "p \<in> set xs" using p by (auto simp: view_def)
  then obtain as bs where ab: "xs = as @ p # bs" "p \<notin> set as" by (metis split_list_first)
  obtain h' c' where r: "PLCache_remove (fst s) (snd s) (Some p) = Some (h', c')" "dll h' c' (as @ bs)"
      "pl_of h' = pl_of (fst s)"
    using remove_refines xs(1) unfolding ab(1) by blast
  have "p \<notin> set bs" using xs(1) by (simp add: dll_def ab(1))
  then have "filter (\<lambda>x. x \<noteq> p) xs = as @ bs"
  proof -
    have "filter (\<lambda>x. x \<noteq> p) as = as" "filter (\<lambda>x. x \<noteq> p) bs = bs"
      using ab(2) \<open>p \<notin> set bs\<close> by (metis (mono_tags, lifting) filter_id_conv)+
    then show ?thesis by (simp add: ab(1))
  qed
  with r show "\<exists>s'. plc_delete p s = Some s' \<and> plc_rep s' (filter (\<lambda>y. fst y \<noteq> p) ys)"
    using view_cong [OF r(3)] by (auto simp: plc_delete_def plc_rep_def xs(2) view_filter intro!: exI [of _ "as @ bs"])
qed

section \<open>Properties\<close>

definition two_hosts :: heap where
  "two_hosts = [1 \<mapsto> \<lparr>ce_pl = [\<lparr>nip_name = NIPROP_IPADDR, nip_val = [''10.0.0.1'']\<rparr>], ce_next = Some 2, ce_prev = None\<rparr>,
                2 \<mapsto> \<lparr>ce_pl = [\<lparr>nip_name = NIPROP_IPADDR, nip_val = [''10.0.0.2'']\<rparr>], ce_next = None, ce_prev = Some 1\<rparr>]"

definition two_cache :: plcache where
  "two_cache = \<lparr>pc_head = Some 1, pc_tail = Some 2, pc_max_entries = 256, pc_count = 2\<rparr>"

lemma two_hosts_dll [simp]: "dll two_hosts two_cache [1, 2]"
  by (simp add: dll_def two_hosts_def two_cache_def)

text \<open>Looking up an address returns the first entry with that address, moves it to the front,
  and keeps the relative order and the properties of all other entries; the links stay those of a
  doubly linked list and no dangling or null pointer is followed.\<close>

theorem lookup_ip_finds_first:
  assumes "dll h c xs"
  shows "\<exists>r h' c'. PLCache_lookup_ip L h c ip = Some (r, (), h', c') \<and>
     r = map_option fst (find (\<lambda>(p, pl). snd (lookup_ip_test L ip pl ())) (view h xs)) \<and>
     dll h' c' (move_front r xs) \<and> pl_of h' = pl_of h"
proof -
  have scan: "list_scan (lookup_ip_test L ip) () ys =
      (map_option fst (find (\<lambda>(p, pl). snd (lookup_ip_test L ip pl ())) ys), ())" for ys :: "(eptr \<times> ni_proplist) list"
    by (induction ys) (auto simp: lookup_ip_test_def split: bool.splits)
  obtain h' c' where "lookup_with True h c (lookup_ip_test L ip) () =
        Some (map_option fst (find (\<lambda>(p, pl). snd (lookup_ip_test L ip pl ())) (view h xs)), (), h', c')"
      "dll h' c' (if True then move_front (map_option fst (find (\<lambda>(p, pl). snd (lookup_ip_test L ip pl ())) (view h xs))) xs else xs)"
      "pl_of h' = pl_of h"
    by (rule lookup_refines [OF assms scan])
  then show ?thesis by (auto simp: PLCache_lookup_ip_def)
qed

definition sample_netlib :: netlib where
  "sample_netlib = \<lparr>inet_aton = (\<lambda>s. if s = ''10.0.0.2'' then Some 0x0a000002 else None),
     inet_ntoa = (\<lambda>_. ''10.0.0.2''), ether_aton = (\<lambda>_. None), ether_ntoa = (\<lambda>_. [])\<rparr>"

theorem lookup_ip_finds_first_witness:
  "\<exists>h' c'. PLCache_lookup_ip sample_netlib two_hosts two_cache 0x0a000002 = Some (Some 2, (), h', c') \<and>
     dll h' c' [2, 1]"
  using lookup_ip_finds_first [OF two_hosts_dll, of sample_netlib "0x0a000002"]
  by (auto simp: view_def pl_of_def two_hosts_def lookup_ip_test_def ni_proplist_match_def ni_name_match_def
      vals_at_def sample_netlib_def move_front_def)

text \<open>Adding, removing and moving entries keep the list well formed and do what their names
  say: a new entry comes first, a removed one is gone, a moved one comes first and the others keep
  their order.\<close>

theorem cache_ops_refine:
  assumes "dll h c (as @ p # bs)" "h q = Some e" "q \<notin> set (as @ p # bs)"
  shows "(\<exists>h1 c1. PLCache_add h c (Some q) = Some (h1, c1) \<and> dll h1 c1 (q # as @ p # bs)) \<and>
    (\<exists>h1 c1. PLCache_append h c (Some q) = Some (h1, c1) \<and> dll h1 c1 (as @ p # bs @ [q])) \<and>
    (\<exists>h1 c1. PLCache_remove h c (Some p) = Some (h1, c1) \<and> dll h1 c1 (as @ bs)) \<and>
    (\<exists>h1 c1. PLCache_make_head h c (Some p) = Some (h1, c1) \<and> dll h1 c1 (p # as @ bs))"
proof (intro conjI)
  show "\<exists>h1 c1. PLCache_add h c (Some q) = Some (h1, c1) \<and> dll h1 c1 (q # as @ p # bs)"
    by (rule add_refines [OF assms]) blast
  show "\<exists>h1 c1. PLCache_append h c (Some q) = Some (h1, c1) \<and> dll h1 c1 (as @ p # bs @ [q])"
    by (rule append_refines [OF assms]) auto
  show "\<exists>h1 c1. PLCache_remove h c (Some p) = Some (h1, c1) \<and> dll h1 c1 (as @ bs)"
    by (rule remove_refines [OF assms(1)]) blast
  show "\<exists>h1 c1. PLCache_make_head h c (Some p) = Some (h1, c1) \<and> dll h1 c1 (p # as @ bs)"
    by (rule make_head_refines [OF assms(1)]) blast
qed

theorem cache_ops_refine_witness:
  "(\<exists>h1 c1. PLCache_add (two_hosts(3 \<mapsto> \<lparr>ce_pl = [], ce_next = None, ce_prev = None\<rparr>)) two_cache (Some 3) = Some (h1, c1) \<and>
      dll h1 c1 [3, 1, 2]) \<and>
   (\<exists>h1 c1. PLCache_remove (two_hosts(3 \<mapsto> \<lparr>ce_pl = [], ce_next = None, ce_prev = None\<rparr>)) two_cache (Some 2) = Some (h1, c1) \<and>
      dll h1 c1 [1])"
proof -
  have "dll (two_hosts(3 \<mapsto> \<lparr>ce_pl = [], ce_next = None, ce_prev = None\<rparr>)) two_cache ([1] @ 2 # [])"
    by (simp add: dll_def two_hosts_def two_cache_def)
  from cache_ops_refine [OF this, of 3] show ?thesis by simp
qed

text \<open>Setting the size of the cache drops the least recently used entries beyond it, never
  going below ten entries, and keeps the others in order.\<close>

theorem set_max_truncates:
  assumes "dll h c xs"
  shows "\<exists>h' c'. PLCache_set_max h c m = Some (h', c') \<and> dll h' c' (take (nat (max CACHE_MIN m)) xs) \<and>
     view h' (take (nat (max CACHE_MIN m)) xs) = take (nat (max CACHE_MIN m)) (view h xs)"
proof -
  obtain h' c' where r: "PLCache_set_max h c m = Some (h', c')" "dll h' c' (take (nat (max CACHE_MIN m)) xs)"
      "\<And>q. q \<in> set (take (nat (max CACHE_MIN m)) xs) \<Longrightarrow> pl_of h' q = pl_of h q"
    using set_max_refines [OF assms, of m] by blast
  then show ?thesis by (auto simp: view_def take_map)
qed

theorem set_max_truncates_witness:
  "\<exists>h' c'. PLCache_set_max two_hosts two_cache 1 = Some (h', c') \<and> dll h' c' [1, 2]"
  using set_max_truncates [OF two_hosts_dll, of 1] by (auto simp: CACHE_MIN_def)

end
