(* ===== verification/NICacheFile.thy ===== *)
theory NICacheFile
  imports NICache
begin

text \<open>
  Reading and writing the host cache (\<open>PLCache_read\<close> and \<open>PLCache_write\<close> of
  \<open>bootplib/NICache.c\<close>), which is how the server keeps its leases over a restart.

  A file is the string of its characters; opening, renaming and closing it is left out, and so are
  the messages on \<open>stderr\<close>.  The entries are the property lists in list order: reading passes each
  to \<open>PLCache_append\<close>, whose effect on the linked list is shown in theory NICacheFacts.
\<close>

section \<open>Reading (NICache.c)\<close>

abbreviation "NL \<equiv> CHR 0x0A"
abbreviation "TAB \<equiv> CHR 0x09"
abbreviation "NUL \<equiv> CHR 0x00"

text \<open>
  \<open>my_fgets\<close> with \<open>left\<close> characters of room: the line and the rest of the file.  The code returns
  null for an empty line.
\<close>

fun my_fgets :: "nat \<Rightarrow> string \<Rightarrow> string \<times> string" where
  "my_fgets left [] = ([], [])"
| "my_fgets left (c # cs) =
     (if c = NUL then ([], cs)
      else if c = NL then (if left > 0 then [c] else [], cs)
      else let (l, r) = my_fgets (left - 1) cs in (if left > 0 then c # l else l, r))"

datatype where_e = nowhere_e | start_e | body_e | end_e

definition sizeof_line :: nat where "sizeof_line = 1024"
definition sizeof_propname :: int where "sizeof_propname = 128"
definition sizeof_propval :: int where "sizeof_propval = 768"

definition is_space :: "char \<Rightarrow> bool" where
  "is_space c \<longleftrightarrow> c = CHR '' '' \<or> c = TAB \<or> c = NL"

text \<open>
  \<open>if (n >= sizeof(buf)) n = sizeof(buf) - 1\<close>: the comparison is unsigned, so a negative length
  is clamped as well.
\<close>

definition clamp :: "int \<Rightarrow> int \<Rightarrow> nat" where
  "clamp n buf_size = nat (if n < 0 \<or> n \<ge> buf_size then buf_size - 1 else n)"

text \<open>A line that is neither a brace nor blank: the property it adds.\<close>

definition read_property :: "string \<Rightarrow> ni_proplist \<Rightarrow> ni_proplist option" where
  "read_property line pl =
     (let len = int (length line);
          ws = length (takeWhile is_space line) in
      if CHR ''='' \<in> set line then
        let sep = length (takeWhile (\<lambda>c. c \<noteq> CHR ''='') line);
            nlen = int sep - int ws;
            vlen = len - int ws - nlen - 2;
            propname = take (clamp nlen sizeof_propname) (drop ws line);
            propval = take (clamp vlen sizeof_propval) (drop (sep + 1) line)
        in ni_proplist_insertprop pl propname (Some propval) None
      else
        let nlen = len - int ws - 1;
            propname = take (clamp nlen sizeof_propname) (drop ws line)
        in ni_proplist_insertprop pl propname None None)"

lemma my_fgets_shorter: "fst (my_fgets left cs) \<noteq> [] \<Longrightarrow> length (snd (my_fgets left cs)) < length cs"
proof -
  have le: "length (snd (my_fgets left cs)) \<le> length cs" for left cs
    by (induction left cs rule: my_fgets.induct) (auto simp: Let_def case_prod_unfold)
  then show "fst (my_fgets left cs) \<noteq> [] \<Longrightarrow> length (snd (my_fgets left cs)) < length cs"
    by (cases cs) (auto simp: Let_def case_prod_unfold le_imp_less_Suc)
qed

lemma my_fgets_dec:
  "x = my_fgets left cs \<Longrightarrow> (line, rest) = x \<Longrightarrow> line \<noteq> [] \<Longrightarrow> length rest < length cs"
  using my_fgets_shorter [of left cs] by (metis fst_conv snd_conv)

text \<open>
  The loop of \<open>PLCache_read\<close>: the rest of the file, \<open>where\<close>, the properties of the current host
  and the entries appended so far.
\<close>

function read_loop ::
  "string \<Rightarrow> where_e \<Rightarrow> ni_proplist \<Rightarrow> ni_proplist list \<Rightarrow> ni_proplist list option" where
  "read_loop file whr pl out =
     (let (line, rest) = my_fgets (sizeof_line - 1) file in
      if line = [] then Some out
      else if line = [CHR ''{'', NL] then
        if whr \<noteq> end_e \<and> whr \<noteq> nowhere_e then Some out
        else read_loop rest start_e pl out
      else if line = [CHR ''}'', NL] then
        if whr \<noteq> start_e \<and> whr \<noteq> body_e then Some out
        else if pl \<noteq> [] then read_loop rest end_e [] (out @ [pl])
        else read_loop rest end_e pl out
      else if list_all is_space line then read_loop rest whr pl out
      else do { pl' \<leftarrow> read_property line pl; read_loop rest body_e pl' out })"
  by pat_completeness auto
termination
proof (relation "measure (\<lambda>(file, _). length file)", goal_cases)
  case 1
  then show ?case by simp
qed (simp_all add: my_fgets_dec)

declare read_loop.simps [simp del]

definition PLCache_read :: "string \<Rightarrow> ni_proplist list option" where
  "PLCache_read file = read_loop file nowhere_e [] []"

section \<open>Writing (NICache.c)\<close>

definition write_prop :: "ni_property \<Rightarrow> string" where
  "write_prop prop =
     (case nip_val prop of
        [] \<Rightarrow> TAB # nip_name prop @ [NL]
      | v # _ \<Rightarrow> TAB # nip_name prop @ CHR ''='' # v @ [NL])"

definition write_entry :: "ni_proplist \<Rightarrow> string" where
  "write_entry pl = [CHR ''{'', NL] @ concat (map write_prop pl) @ [CHR ''}'', NL]"

definition PLCache_write :: "ni_proplist list \<Rightarrow> string" where
  "PLCache_write entries = concat (map write_entry entries)"

section \<open>Round trip\<close>

text \<open>
  What survives: names that fit and cannot be confused with the file's syntax, and at most one
  value, which is all that \<open>PLCache_write\<close> writes.
\<close>

definition clean :: "string \<Rightarrow> bool" where
  "clean s \<longleftrightarrow> NL \<notin> set s \<and> NUL \<notin> set s"

definition storable_prop :: "ni_property \<Rightarrow> bool" where
  "storable_prop p \<longleftrightarrow>
     (case nip_name p of [] \<Rightarrow> False | c # _ \<Rightarrow> \<not> is_space c) \<and> clean (nip_name p) \<and>
     CHR ''='' \<notin> set (nip_name p) \<and> length (nip_name p) < 128 \<and>
     (case nip_val p of [] \<Rightarrow> True | [v] \<Rightarrow> clean v \<and> length v < 768 | _ \<Rightarrow> False)"

definition storable :: "ni_proplist \<Rightarrow> bool" where
  "storable pl \<longleftrightarrow> pl \<noteq> [] \<and> list_all storable_prop pl"

lemma my_fgets_line:
  "clean s \<Longrightarrow> length s < left \<Longrightarrow> my_fgets left (s @ NL # rest) = (s @ [NL], rest)"
  by (induction s arbitrary: left) (auto simp: clean_def Let_def)

lemma insertprop_end: "ni_proplist_insertprop pl nm val None =
    Some (pl @ [\<lparr>nip_name = nm, nip_val = (case val of None \<Rightarrow> [] | Some v \<Rightarrow> [v])\<rparr>])"
  using insertprop_at [of None 0 pl nm val] by simp

lemma takeWhile_tab:
  "s \<noteq> [] \<Longrightarrow> \<not> is_space (hd s) \<Longrightarrow> takeWhile is_space (TAB # s @ t) = [TAB]"
  by (cases s) (auto simp: is_space_def)

lemma write_prop_line:
  assumes "storable_prop p"
  obtains s where "write_prop p = s @ [NL]" "clean s" "length s < 1023" "hd s = TAB" "\<not> list_all is_space (s @ [NL])"
proof -
  obtain c cs where nm: "nip_name p = c # cs" "\<not> is_space c" "clean (nip_name p)" "length (nip_name p) < 128"
    using assms by (auto simp: storable_prop_def split: list.splits)
  show ?thesis
  proof (cases "nip_val p")
    case Nil
    then show ?thesis using nm
      by (intro that [of "TAB # nip_name p"]) (simp_all add: write_prop_def clean_def)
  next
    case (Cons v vs)
    then have "clean v" "length v < 768" using assms by (auto simp: storable_prop_def split: list.splits)
    with Cons nm show ?thesis
      by (intro that [of "TAB # nip_name p @ CHR ''='' # v"]) (simp_all add: write_prop_def clean_def)
  qed
qed

lemma read_written_property:
  assumes "storable_prop p"
  shows "read_property (write_prop p) pl = Some (pl @ [p])"
proof -
  obtain c cs where nm: "nip_name p = c # cs" "\<not> is_space c" "CHR ''='' \<notin> set (nip_name p)" "length (nip_name p) < 128"
    using assms by (auto simp: storable_prop_def split: list.splits)
  have tw: "takeWhile is_space (TAB # nip_name p @ t) = [TAB]" for t
    using nm(1,2) by (simp add: is_space_def)
  show ?thesis
  proof (cases "nip_val p")
    case Nil
    have "nat (1 + int (length cs)) = Suc (length cs)" by linarith
    then have "read_property (write_prop p) pl = ni_proplist_insertprop pl (nip_name p) None None"
      using nm tw [of "[NL]"] Nil
      by (auto simp: read_property_def write_prop_def Let_def clamp_def sizeof_propname_def)
    also have "\<dots> = Some (pl @ [p])"
      unfolding insertprop_end using Nil by (cases p) simp
    finally show ?thesis .
  next
    case (Cons v vs)
    then have v: "nip_val p = [v]" "length v < 768" using assms by (auto simp: storable_prop_def split: list.splits)
    have sep: "takeWhile (\<lambda>c. c \<noteq> CHR ''='') (TAB # nip_name p @ CHR ''='' # v @ [NL]) = TAB # nip_name p"
      using nm(3) by (auto simp: takeWhile_append)
    have line: "write_prop p = TAB # nip_name p @ CHR ''='' # v @ [NL]"
      using v by (simp add: write_prop_def)
    have "read_property (write_prop p) pl = ni_proplist_insertprop pl (nip_name p) (Some v) None"
      unfolding line read_property_def Let_def sep tw
      using nm(4) v(2) by (simp add: clamp_def sizeof_propname_def sizeof_propval_def)
    also have "\<dots> = Some (pl @ [p])"
      unfolding insertprop_end using v(1) by (cases p) simp
    finally show ?thesis .
  qed
qed

lemma read_props:
  "list_all storable_prop ps \<Longrightarrow> whr = start_e \<or> whr = body_e \<Longrightarrow> pl @ ps \<noteq> [] \<Longrightarrow>
   read_loop (concat (map write_prop ps) @ [CHR ''}'', NL] @ rest) whr pl out =
   read_loop rest end_e [] (out @ [pl @ ps])"
proof (induction ps arbitrary: whr pl)
  case Nil
  then show ?case
    by (subst read_loop.simps) (auto simp: sizeof_line_def)
next
  case (Cons p ps)
  obtain s where s: "write_prop p = s @ [NL]" "clean s" "length s < 1023" "hd s = TAB" "\<not> list_all is_space (s @ [NL])"
    using write_prop_line Cons.prems(1) by auto
  let ?rest = "concat (map write_prop ps) @ [CHR ''}'', NL] @ rest"
  have f: "my_fgets (sizeof_line - 1) (concat (map write_prop (p # ps)) @ [CHR ''}'', NL] @ rest) = (write_prop p, ?rest)"
    using my_fgets_line [OF s(2), of 1023 ?rest] s(1,3) by (simp add: sizeof_line_def)
  have ne: "write_prop p \<noteq> []" "write_prop p \<noteq> [CHR ''{'', NL]" "write_prop p \<noteq> [CHR ''}'', NL]"
      "\<not> list_all is_space (write_prop p)"
    using s by (cases s; auto)+
  have "read_loop (concat (map write_prop (p # ps)) @ [CHR ''}'', NL] @ rest) whr pl out =
      read_loop ?rest body_e (pl @ [p]) out"
    using ne Cons.prems(1) by (subst read_loop.simps) (simp only: f, simp add: read_written_property)
  with Cons.IH [of body_e "pl @ [p]"] Cons.prems(1) show ?case by simp
qed

lemma read_entries:
  "list_all storable es \<Longrightarrow> whr = nowhere_e \<or> whr = end_e \<Longrightarrow>
   read_loop (PLCache_write es) whr [] out = Some (out @ es)"
proof (induction es arbitrary: whr out)
  case Nil
  then show ?case by (subst read_loop.simps) (simp add: PLCache_write_def)
next
  case (Cons pl es)
  have "read_loop (PLCache_write (pl # es)) whr [] out =
      read_loop (concat (map write_prop pl) @ [CHR ''}'', NL] @ PLCache_write es) start_e [] out"
    using Cons.prems(2)
    by (subst read_loop.simps) (auto simp: PLCache_write_def write_entry_def sizeof_line_def)
  also have "\<dots> = read_loop (PLCache_write es) end_e [] (out @ [[] @ pl])"
    using Cons.prems(1) by (intro read_props) (auto simp: storable_def)
  also have "\<dots> = Some (out @ pl # es)"
    using Cons.IH [of end_e] Cons.prems(1) by simp
  finally show ?case .
qed

text \<open>C31. A cache whose property names and values fit the file format is read back from the file
  as it was written: no entry, property or value is lost, merged or reordered.\<close>

theorem cache_file_roundtrip:
  assumes "list_all storable es"
  shows "PLCache_read (PLCache_write es) = Some es"
  using read_entries [OF assms, of nowhere_e "[]"] by (simp add: PLCache_read_def)

theorem cache_file_roundtrip_witness:
  "PLCache_read (PLCache_write [[\<lparr>nip_name = ''name'', nip_val = [''a=b'']\<rparr>, \<lparr>nip_name = ''x'', nip_val = []\<rparr>]]) =
   Some [[\<lparr>nip_name = ''name'', nip_val = [''a=b'']\<rparr>, \<lparr>nip_name = ''x'', nip_val = []\<rparr>]]"
  using cache_file_roundtrip [of "[[\<lparr>nip_name = ''name'', nip_val = [''a=b'']\<rparr>, \<lparr>nip_name = ''x'', nip_val = []\<rparr>]]"]
  by (simp add: storable_def storable_prop_def clean_def is_space_def)

end
