(* ===== verification/CLib.thy ===== *)
theory CLib
  imports Prelude
begin

text \<open>
  The functions of the C library that the string conversions of the program use: \<open>%x\<close> of
  \<open>printf\<close>, and \<open>strtol\<close> and \<open>strtoul\<close> as the C standard describes them for 64-bit \<open>long\<close>.
\<close>

section \<open>Hexadecimal numbers\<close>

definition hex_digit :: "nat \<Rightarrow> char" where
  "hex_digit n = ''0123456789abcdef'' ! n"

text \<open>The output of \<open>%x\<close> and \<open>%lx\<close>.\<close>

fun to_hex :: "nat \<Rightarrow> string" where
  "to_hex n = (if n < 16 then [hex_digit n] else to_hex (n div 16) @ [hex_digit (n mod 16)])"

declare to_hex.simps [simp del]

text \<open>\<open>snprintf (buf, n, ...)\<close> with the output \<open>s\<close>: the string left in \<open>buf\<close>.\<close>

definition snprintf :: "int \<Rightarrow> string \<Rightarrow> string" where
  "snprintf n s = take (nat (n - 1)) s"

definition strlcat :: "string \<Rightarrow> string \<Rightarrow> int \<Rightarrow> string" where
  "strlcat buf s n = (if int (length buf) < n then take (nat (n - 1)) (buf @ s) else buf)"

section \<open>strtol and strtoul\<close>

definition digit_val :: "char \<Rightarrow> nat option" where
  "digit_val c =
     (let n = of_char c :: nat in
      if 48 \<le> n \<and> n \<le> 57 then Some (n - 48)
      else if 97 \<le> n \<and> n \<le> 122 then Some (n - 87)
      else if 65 \<le> n \<and> n \<le> 90 then Some (n - 55)
      else None)"

definition is_digit :: "nat \<Rightarrow> char \<Rightarrow> bool" where
  "is_digit base c = (case digit_val c of None \<Rightarrow> False | Some d \<Rightarrow> d < base)"

definition isspace :: "char \<Rightarrow> bool" where
  "isspace c \<longleftrightarrow> c = CHR '' '' \<or> (9 \<le> (of_char c :: nat) \<and> (of_char c :: nat) \<le> 13)"

fun digits_val :: "nat \<Rightarrow> nat \<Rightarrow> string \<Rightarrow> nat" where
  "digits_val base acc [] = acc"
| "digits_val base acc (c # cs) =
     (case digit_val c of
        None \<Rightarrow> acc
      | Some d \<Rightarrow> if d < base then digits_val base (acc * base + d) cs else acc)"

text \<open>The sign and the magnitude of a number in base 16, or in base 0, which reads the prefix.\<close>

definition hex_prefix :: "string \<Rightarrow> bool" where
  "hex_prefix s \<longleftrightarrow>
     (case s of
        a # x # d # _ \<Rightarrow> a = CHR ''0'' \<and> (x = CHR ''x'' \<or> x = CHR ''X'') \<and> is_digit 16 d
      | _ \<Rightarrow> False)"

definition scan_number :: "nat \<Rightarrow> string \<Rightarrow> bool \<times> nat" where
  "scan_number base s =
     (let s1 = dropWhile isspace s;
          neg = (s1 \<noteq> [] \<and> hd s1 = CHR ''-'');
          s2 = (if s1 \<noteq> [] \<and> (hd s1 = CHR ''-'' \<or> hd s1 = CHR ''+'') then tl s1 else s1);
          hex = (base = 16 \<or> base = 0) \<and> hex_prefix s2;
          base' = (if hex then 16
                   else if base = 0 then (if s2 \<noteq> [] \<and> hd s2 = CHR ''0'' then 8 else 10)
                   else base);
          s3 = (if hex then drop 2 s2 else s2)
      in (neg, digits_val base' 0 s3))"

definition LONG_MAX :: int where "LONG_MAX = 2 ^ 63 - 1"
definition LONG_MIN :: int where "LONG_MIN = - (2 ^ 63)"

text \<open>\<open>strtol\<close> with the flag that says whether \<open>errno\<close> becomes \<open>ERANGE\<close>.\<close>

definition strtol :: "nat \<Rightarrow> string \<Rightarrow> int \<times> bool" where
  "strtol base s =
     (let (neg, m) = scan_number base s;
          v = (if neg then - int m else int m)
      in if v > LONG_MAX then (LONG_MAX, True)
         else if v < LONG_MIN then (LONG_MIN, True)
         else (v, False))"

definition strtoul :: "nat \<Rightarrow> string \<Rightarrow> nat" where
  "strtoul base s =
     (let (neg, m) = scan_number base s in
      if m \<ge> 2 ^ 64 then 2 ^ 64 - 1
      else if neg then nat ((- int m) mod 2 ^ 64)
      else m)"

section \<open>Printed numbers are read back\<close>

lemma digit_val_hex_digit: "n < 16 \<Longrightarrow> digit_val (hex_digit n) = Some n"
proof -
  assume "n < 16"
  then have "n \<in> set [0..<16]" by simp
  moreover have "\<forall>n \<in> set [0..<16]. digit_val (hex_digit n) = Some n"
    by (simp add: upt_rec hex_digit_def digit_val_def)
  ultimately show ?thesis by blast
qed

lemma digits_val_append:
  "\<forall>c \<in> set xs. is_digit base c \<Longrightarrow> digits_val base acc (xs @ ys) = digits_val base (digits_val base acc xs) ys"
  by (induction xs arbitrary: acc) (auto simp: is_digit_def split: option.splits)

lemma to_hex_digits: "\<forall>c \<in> set (to_hex n). is_digit 16 c"
proof (induction n rule: to_hex.induct)
  case (1 n)
  then show ?case
    by (subst to_hex.simps) (auto simp: is_digit_def digit_val_hex_digit)
qed

lemma digits_val_to_hex [simp]: "digits_val 16 0 (to_hex n) = n"
proof (induction n rule: to_hex.induct)
  case (1 n)
  show ?case
  proof (cases "n < 16")
    case True
    then show ?thesis by (subst to_hex.simps) (simp add: digit_val_hex_digit)
  next
    case False
    then have "digits_val 16 0 (to_hex n) = digits_val 16 (n div 16) [hex_digit (n mod 16)]"
      using 1 by (subst to_hex.simps) (simp add: digits_val_append to_hex_digits)
    then show ?thesis by (simp add: digit_val_hex_digit)
  qed
qed

lemma to_hex_not_Nil [simp]: "to_hex n \<noteq> []"
  by (subst to_hex.simps) simp

lemma hex_digit_char: "is_digit 16 c \<Longrightarrow> \<not> isspace c \<and> c \<noteq> CHR ''-'' \<and> c \<noteq> CHR ''+'' \<and> c \<noteq> CHR ''x'' \<and>
    c \<noteq> CHR ''X'' \<and> c \<noteq> CHR '':'' \<and> c \<noteq> CHR '','' \<and> c \<noteq> CHR 0x00"
  by (auto simp: is_digit_def digit_val_def isspace_def Let_def split: if_splits)

lemma length_to_hex: "n < 16 ^ Suc k \<Longrightarrow> length (to_hex n) \<le> Suc k"
proof (induction k arbitrary: n)
  case 0
  then show ?case by (subst to_hex.simps) simp
next
  case (Suc k)
  have "n div 16 < 16 ^ Suc k" using Suc.prems by (simp add: less_mult_imp_div_less)
  with Suc.IH show ?case by (subst to_hex.simps) simp
qed

text \<open>A number is read up to the first character that is neither a digit nor part of a prefix.\<close>

definition stops :: "string \<Rightarrow> bool" where
  "stops j \<longleftrightarrow> (case j of [] \<Rightarrow> True | c # _ \<Rightarrow> \<not> is_digit 16 c \<and> c \<noteq> CHR ''x'' \<and> c \<noteq> CHR ''X'')"

lemma digits_val_stops: "stops j \<Longrightarrow> digits_val 16 acc j = acc"
  by (cases j) (auto simp: stops_def is_digit_def split: option.splits)

lemma scan_hex_stops:
  assumes "stops j"
  shows "scan_number 16 (to_hex n @ j) = (False, n)"
proof -
  obtain c cs where c: "to_hex n = c # cs" using to_hex_not_Nil by (metis list.exhaust)
  have d: "\<forall>d \<in> set (c # cs). is_digit 16 d" using to_hex_digits [of n] by (simp add: c)
  then have nc: "\<not> isspace c" "c \<noteq> CHR ''-''" "c \<noteq> CHR ''+''" using hex_digit_char by auto
  have "\<not> hex_prefix (c # cs @ j)"
    using d assms hex_digit_char by (cases cs; cases j) (auto simp: hex_prefix_def stops_def split: list.splits)
  then have "scan_number 16 (to_hex n @ j) = (False, digits_val 16 0 (to_hex n @ j))"
    using nc by (simp add: scan_number_def Let_def c)
  then show ?thesis
    using digits_val_append [OF to_hex_digits, of 0 n j] digits_val_stops [OF assms] by simp
qed

lemma scan_hex: "scan_number 16 (to_hex n) = (False, n)"
  using scan_hex_stops [of "[]" n] by (simp add: stops_def)

lemma scan_0x: "scan_number 0 (''0x'' @ to_hex n) = (False, n)"
proof -
  obtain c cs where c: "to_hex n = c # cs" using to_hex_not_Nil by (metis list.exhaust)
  have "is_digit 16 c" using to_hex_digits [of n] by (simp add: c)
  then have "hex_prefix (''0x'' @ to_hex n)" by (simp add: hex_prefix_def c)
  then show ?thesis by (simp add: scan_number_def Let_def isspace_def)
qed

lemma strtoul_hex: "stops j \<Longrightarrow> n < 2 ^ 64 \<Longrightarrow> strtoul 16 (to_hex n @ j) = n"
  by (simp add: strtoul_def scan_hex_stops)

lemma strtol_hex: "int n \<le> LONG_MAX \<Longrightarrow> strtol 16 (to_hex n) = (int n, False)"
  by (auto simp: strtol_def scan_hex LONG_MIN_def Let_def)

lemma strtol_0x: "strtol 0 (''0x'' @ to_hex n) = (if int n \<le> LONG_MAX then (int n, False) else (LONG_MAX, True))"
  using scan_0x [of n] by (auto simp: strtol_def LONG_MIN_def Let_def)

end
