(* ===== verification/HostIdentifier.thy ===== *)
theory HostIdentifier
  imports CLib
begin

text \<open>
  Client identifiers as strings (\<open>bootplib/host_identifier.c\<close>): a lease is filed under
  \<open><type>,<byte>:<byte>:...\<close> in hexadecimal.

  Buffers are the strings they hold; allocation succeeds.  \<open>identifierFromString\<close> writes into a
  buffer of \<open>strlen(str) / 2 + 1\<close> bytes: the bound of its loop is kept, so the length of the result
  is the code's.
\<close>

section \<open>Encoding (host_identifier.c)\<close>

abbreviation "SEPARATOR \<equiv> CHR '',''"

definition BASE_16 :: nat where "BASE_16 = 16"

fun identifier_bytes :: "string \<Rightarrow> u8 list \<Rightarrow> nat \<Rightarrow> int \<Rightarrow> string" where
  "identifier_bytes buf [] i max_encoded_len = buf"
| "identifier_bytes buf (b # bs) i max_encoded_len =
     (let tmp = snprintf 4 ((if i > 0 then '':'' else []) @ to_hex (unat b))
      in identifier_bytes (strlcat buf tmp max_encoded_len) bs (i + 1) max_encoded_len)"

definition identifierToString :: "u8 \<Rightarrow> u8 list \<Rightarrow> string" where
  "identifierToString type identifier =
     (let max_encoded_len = 3 * (int (length identifier) + 1) + 1
      in identifier_bytes (snprintf max_encoded_len (to_hex (unat type) @ [SEPARATOR]))
           identifier 0 max_encoded_len)"

section \<open>Decoding (host_identifier.c)\<close>

text \<open>
  The loop over the fields: \<open>scan\<close> is what is left of the string, \<open>n\<close> the room left in the buffer.
  A field longer than three characters is an error.
\<close>

definition upto_char :: "char \<Rightarrow> string \<Rightarrow> string" where
  "upto_char c s = takeWhile (\<lambda>x. x \<noteq> c) s"

fun identifier_fields :: "nat \<Rightarrow> string \<Rightarrow> u8 list \<Rightarrow> u8 list option" where
  "identifier_fields 0 scan buf = Some buf"
| "identifier_fields (Suc n) scan buf =
     (let tmp = upto_char CHR '':'' scan;
          done = CHR '':'' \<notin> set scan
      in if length tmp > 3 then None
         else let buf' = buf @ [word_of_int (fst (strtol BASE_16 tmp))]
              in if done then Some buf'
                 else identifier_fields n (drop (length tmp + 1) scan) buf')"

definition identifierFromString :: "string \<Rightarrow> (u8 \<times> u8 list) option" where
  "identifierFromString str =
     (if SEPARATOR \<notin> set str then None
      else let sep = length (upto_char SEPARATOR str) in
        if sep > 3 then None
        else let type = word_of_nat (strtoul BASE_16 (take 3 str));
                 scan = drop (sep + 1) str
             in map_option (Pair type) (identifier_fields (length str div 2 + 1) scan []))"

section \<open>Round trip\<close>

definition colon_hex :: "u8 list \<Rightarrow> string" where
  "colon_hex bs = concat (map (\<lambda>b. CHR '':'' # to_hex (unat b)) bs)"

lemma to_hex_byte: "length (to_hex (unat (b :: u8))) \<le> 2"
proof -
  have "unat b < 16 ^ Suc 1" using unat_u8 [of b] by simp
  then show ?thesis using length_to_hex by (metis Suc_1)
qed

lemma identifier_bytes_eq:
  assumes "int (length buf + length (colon_hex bs)) < max_len" and "0 < i"
  shows "identifier_bytes buf bs i max_len = buf @ colon_hex bs"
  using assms
proof (induction bs arbitrary: buf i)
  case Nil
  then show ?case by (simp add: colon_hex_def)
next
  case (Cons b bs)
  have t: "snprintf 4 (CHR '':'' # to_hex (unat b)) = CHR '':'' # to_hex (unat b)"
    using to_hex_byte [of b] by (simp add: snprintf_def)
  have "int (length buf) < max_len" "length buf + Suc (length (to_hex (unat b))) \<le> nat (max_len - 1)"
    using Cons.prems(1) by (auto simp: colon_hex_def)
  then have "strlcat buf (CHR '':'' # to_hex (unat b)) max_len = buf @ CHR '':'' # to_hex (unat b)"
    by (simp add: strlcat_def)
  with Cons t show ?case by (simp add: colon_hex_def)
qed

lemma length_colon_hex: "length (colon_hex bs) \<le> 3 * length bs"
proof (induction bs)
  case Nil
  then show ?case by (simp add: colon_hex_def)
next
  case (Cons b bs)
  then show ?case using to_hex_byte [of b] by (simp add: colon_hex_def)
qed

lemma identifierToString_eq:
  "identifierToString type (b # bs) = to_hex (unat type) @ SEPARATOR # to_hex (unat b) @ colon_hex bs"
proof -
  let ?m = "3 * (int (length (b # bs)) + 1) + 1"
  let ?t = "to_hex (unat type) @ [SEPARATOR]"
  have t: "snprintf ?m ?t = ?t" using to_hex_byte [of type] by (simp add: snprintf_def)
  have b: "snprintf 4 (to_hex (unat b)) = to_hex (unat b)" using to_hex_byte [of b] by (simp add: snprintf_def)
  have c: "strlcat ?t (to_hex (unat b)) ?m = ?t @ to_hex (unat b)"
    using to_hex_byte [of type] to_hex_byte [of b] by (simp add: strlcat_def)
  have "identifier_bytes (?t @ to_hex (unat b)) bs 1 ?m = (?t @ to_hex (unat b)) @ colon_hex bs"
    using to_hex_byte [of type] to_hex_byte [of b] length_colon_hex [of bs]
    by (intro identifier_bytes_eq) simp_all
  then have "identifier_bytes (strlcat ?t (to_hex (unat b)) ?m) bs (0 + 1) ?m =
      to_hex (unat type) @ SEPARATOR # to_hex (unat b) @ colon_hex bs"
    unfolding c by simp
  moreover have "identifierToString type (b # bs) = identifier_bytes (strlcat ?t (to_hex (unat b)) ?m) bs (0 + 1) ?m"
    unfolding identifierToString_def Let_def t identifier_bytes.simps using b by simp
  ultimately show ?thesis by simp
qed

lemma to_hex_no: "CHR '':'' \<notin> set (to_hex n)" "SEPARATOR \<notin> set (to_hex n)"
  using to_hex_digits [of n] hex_digit_char by blast+

lemma upto_hex: "c = CHR '':'' \<or> c = SEPARATOR \<Longrightarrow> upto_char c (to_hex n @ c # rest) = to_hex n"
  using to_hex_no [of n] by (auto simp: upto_char_def takeWhile_append)

lemma byte_of_field [simp]: "word_of_int (fst (strtol BASE_16 (to_hex (unat b)))) = (b :: u8)"
proof -
  have "LONG_MAX = 9223372036854775807" by (simp add: LONG_MAX_def)
  then have "int (unat b) \<le> LONG_MAX" using unat_u8 [of b] by linarith
  then show ?thesis by (simp add: BASE_16_def strtol_hex)
qed

lemma identifier_fields_eq:
  "length bs < n \<Longrightarrow> identifier_fields n (to_hex (unat b) @ colon_hex bs) buf = Some (buf @ b # bs)"
proof (induction bs arbitrary: n b buf)
  case Nil
  then obtain k where n: "n = Suc k" by (cases n) auto
  have "upto_char CHR '':'' (to_hex (unat b)) = to_hex (unat b)"
    using to_hex_no [of "unat b"] by (simp add: upto_char_def) (metis takeWhile_eq_all_conv)
  then show ?case
    using to_hex_no [of "unat b"] to_hex_byte [of b] by (simp add: n colon_hex_def Let_def)
next
  case (Cons c bs)
  then obtain k where n: "n = Suc k" "length bs < k" by (cases n) auto
  have up: "upto_char CHR '':'' (to_hex (unat b) @ colon_hex (c # bs)) = to_hex (unat b)"
    by (simp add: colon_hex_def upto_hex)
  have dr: "drop (length (to_hex (unat b)) + 1) (to_hex (unat b) @ colon_hex (c # bs)) = to_hex (unat c) @ colon_hex bs"
    by (simp add: colon_hex_def)
  have col: "CHR '':'' \<in> set (to_hex (unat b) @ colon_hex (c # bs))" by (simp add: colon_hex_def)
  show ?case
    unfolding n(1) identifier_fields.simps Let_def up dr
    using col to_hex_byte [of b] Cons.IH [OF n(2)] by simp
qed

lemma colon_hex_length: "2 * length bs \<le> length (colon_hex bs)"
proof (induction bs)
  case Nil
  then show ?case by (simp add: colon_hex_def)
next
  case (Cons b bs)
  have "to_hex (unat b) \<noteq> []" by simp
  then have "1 \<le> length (to_hex (unat b))" by (cases "to_hex (unat b)") auto
  with Cons show ?case by (simp add: colon_hex_def)
qed

text \<open>The string of a type and a non-empty identifier of any length decodes to that type and
  that identifier, so distinct clients have distinct strings.\<close>

theorem identifier_roundtrip:
  assumes "identifier \<noteq> []"
  shows "identifierFromString (identifierToString type identifier) = Some (type, identifier)"
proof -
  obtain b bs where id: "identifier = b # bs" using assms by (cases "identifier") auto
  let ?rest = "to_hex (unat b) @ colon_hex bs"
  let ?str = "to_hex (unat type) @ SEPARATOR # ?rest"
  have up: "upto_char SEPARATOR ?str = to_hex (unat type)" by (rule upto_hex) simp
  have sep: "SEPARATOR \<in> set ?str" "length (to_hex (unat type)) \<le> 3" using to_hex_byte [of type] by auto
  have "take 3 ?str = to_hex (unat type) @ take (3 - length (to_hex (unat type))) (SEPARATOR # ?rest)"
    using to_hex_byte [of type] by simp
  moreover have "stops (take (3 - length (to_hex (unat type))) (SEPARATOR # ?rest))"
  proof -
    obtain k where "3 - length (to_hex (unat type)) = Suc k" using to_hex_byte [of type] by (cases "3 - length (to_hex (unat type))") auto
    then show ?thesis by (simp add: stops_def is_digit_def digit_val_def)
  qed
  moreover have "unat type < 2 ^ 64" using unat_u8 [of type] by simp
  ultimately have ty: "strtoul BASE_16 (take 3 ?str) = unat type"
    by (metis BASE_16_def strtoul_hex)
  have "length bs < length ?str div 2 + 1"
    using colon_hex_length [of bs] by simp
  then have "identifier_fields (length ?str div 2 + 1) ?rest [] = Some (b # bs)"
    using identifier_fields_eq [of bs "length ?str div 2 + 1" b "[]"] by simp
  moreover have "drop (length (to_hex (unat type)) + 1) ?str = ?rest" by simp
  ultimately show ?thesis
    unfolding id identifierToString_eq identifierFromString_def Let_def up ty using sep by simp
qed

theorem identifier_roundtrip_witness:
  "identifierFromString (identifierToString 1 [0, 0x1f, 0xa0]) = Some (1, [0, 0x1f, 0xa0])"
  using identifier_roundtrip [of "[0, 0x1f, 0xa0]" 1] by simp

end
