(* ===== verification/PtrList.thy ===== *)
theory PtrList
  imports Prelude
begin

text \<open>
  The growable pointer array of \<open>bootplib/ptrlist.c\<close>, which every list of the program is made
  of: \<open>dhcpol_t\<close>, \<open>dynarray_t\<close> and through it the subnet list and the interface addresses.

  The block the array points to is a list of slots; a slot that was never written is \<open>None\<close>.
  \<open>pl_array\<close> is \<open>None\<close> for the null pointer.  The argument \<open>ok\<close> of an operation that allocates
  says whether \<open>malloc\<close> or \<open>realloc\<close> succeeds.  Element pointers are values of any type, and a
  result \<open>None\<close> inside the outer option is \<open>NULL\<close>; the outer option is the memory access.
\<close>

section \<open>The array (ptrlist.c)\<close>

record 'a ptrlist =
  pl_array :: "'a option list option"
  pl_count :: nat
  pl_size :: nat

definition PTRLIST_NUMBER :: nat where
  "PTRLIST_NUMBER = 16"

definition malloc :: "bool \<Rightarrow> nat \<Rightarrow> 'a option list option" where
  "malloc ok n = (if ok then Some (replicate n None) else None)"

definition realloc :: "bool \<Rightarrow> 'a option list \<Rightarrow> nat \<Rightarrow> 'a option list option" where
  "realloc ok a n = (if ok then Some (take n a @ replicate (n - length a) None) else None)"

definition ptrlist_init :: "'a ptrlist" where
  "ptrlist_init = \<lparr>pl_array = None, pl_count = 0, pl_size = 0\<rparr>"

definition ptrlist_init_size :: "bool \<Rightarrow> int \<Rightarrow> 'a ptrlist" where
  "ptrlist_init_size ok n =
     (if n > 0 then
        (case malloc ok (nat n) of
           None \<Rightarrow> ptrlist_init
         | Some a \<Rightarrow> \<lparr>pl_array = Some a, pl_count = 0, pl_size = nat n\<rparr>)
      else ptrlist_init)"

definition ptrlist_free :: "'a ptrlist \<Rightarrow> 'a ptrlist" where
  "ptrlist_free l = ptrlist_init"

definition ptrlist_count :: "'a ptrlist \<Rightarrow> nat" where
  "ptrlist_count l = (case pl_array l of None \<Rightarrow> 0 | Some _ \<Rightarrow> pl_count l)"

text \<open>\<open>slot a i\<close> loads the pointer in slot \<open>i\<close>; a slot that was never written has no value.\<close>

definition slot :: "'a option list \<Rightarrow> int \<Rightarrow> 'a option" where
  "slot a i = (if i < 0 then None else Option.bind (rd a (nat i)) id)"

definition ptrlist_element :: "'a ptrlist \<Rightarrow> int \<Rightarrow> 'a option option" where
  "ptrlist_element l i =
     (case pl_array l of
        None \<Rightarrow> Some None
      | Some a \<Rightarrow> if i < int (pl_count l) then map_option Some (slot a i) else Some None)"

fun ptrlist_index_from :: "nat \<Rightarrow> 'a ptrlist \<Rightarrow> nat \<Rightarrow> 'a \<Rightarrow> int option" where
  "ptrlist_index_from 0 l i element = Some (-1)"
| "ptrlist_index_from (Suc n) l i element =
     do { e \<leftarrow> ptrlist_element l (int i);
          if e = Some element then Some (int i) else ptrlist_index_from n l (Suc i) element }"

definition ptrlist_index :: "'a ptrlist \<Rightarrow> 'a \<Rightarrow> int option" where
  "ptrlist_index l element = ptrlist_index_from (ptrlist_count l) l 0 element"

text \<open>The result of a removal: the removed element and the shorter list, \<open>None\<close> for \<open>FALSE\<close>.\<close>

definition ptrlist_remove :: "'a ptrlist \<Rightarrow> int \<Rightarrow> ('a \<times> 'a ptrlist) option option" where
  "ptrlist_remove l i =
     (case pl_array l of
        None \<Rightarrow> Some None
      | Some a \<Rightarrow>
          if i \<ge> int (pl_count l) \<or> i < 0 then Some None
          else do {
            ret \<leftarrow> slot a i;
            let nmove = int (pl_count l) - 1 - i;
            a' \<leftarrow> (if nmove > 0 then bmove a (nat i + 1) (nat i) (nat nmove) else Some a);
            Some (Some (ret, l\<lparr>pl_array := Some a', pl_count := pl_count l - 1\<rparr>)) })"

definition ptrlist_grow :: "bool \<Rightarrow> 'a ptrlist \<Rightarrow> bool \<times> 'a ptrlist" where
  "ptrlist_grow ok l =
     (let l' = (case pl_array l of
                  None \<Rightarrow>
                    let n = (if pl_size l = 0 then PTRLIST_NUMBER else pl_size l)
                    in \<lparr>pl_array = malloc ok n, pl_count = 0, pl_size = n\<rparr>
                | Some a \<Rightarrow>
                    if pl_size l = pl_count l
                    then l\<lparr>pl_size := pl_size l * 2, pl_array := realloc ok a (pl_size l * 2)\<rparr>
                    else l)
      in (pl_array l' \<noteq> None, l'))"

definition ptrlist_add :: "bool \<Rightarrow> 'a ptrlist \<Rightarrow> 'a \<Rightarrow> (bool \<times> 'a ptrlist) option" where
  "ptrlist_add ok l element =
     (let (grown, l') = ptrlist_grow ok l in
      case pl_array l' of
        None \<Rightarrow> Some (False, l')
      | Some a \<Rightarrow> do { a' \<leftarrow> wr a (pl_count l') (Some element);
                       Some (True, l'\<lparr>pl_array := Some a', pl_count := pl_count l' + 1\<rparr>) })"

definition ptrlist_insert ::
  "bool \<Rightarrow> 'a ptrlist \<Rightarrow> 'a \<Rightarrow> int \<Rightarrow> (bool \<times> 'a ptrlist) option" where
  "ptrlist_insert ok l element pos =
     (if pos < 0 then Some (False, l)
      else if pos \<ge> int (pl_count l) then ptrlist_add ok l element
      else let (grown, l') = ptrlist_grow ok l in
        case pl_array l' of
          None \<Rightarrow> Some (False, l')
        | Some a \<Rightarrow>
            let nmove = int (pl_count l') - pos in
            if nmove < 0 then None
            else do {
              a1 \<leftarrow> bmove a (nat pos) (nat pos + 1) (nat nmove);
              a2 \<leftarrow> wr a1 (nat pos) (Some element);
              Some (True, l'\<lparr>pl_array := Some a2, pl_count := pl_count l' + 1\<rparr>) })"

text \<open>
  \<open>ptrlist_dup\<close> and \<open>ptrlist_concat\<close> copy a whole run of slots between two blocks.
\<close>

definition ptrlist_dup :: "bool \<Rightarrow> 'a ptrlist \<Rightarrow> (bool \<times> 'a ptrlist) option" where
  "ptrlist_dup ok source =
     (let dest = \<lparr>pl_array = None, pl_count = pl_count source, pl_size = pl_count source\<rparr> in
      if pl_count source = 0 then Some (True, dest)
      else case malloc ok (pl_size dest) of
             None \<Rightarrow> Some (False, dest)
           | Some a \<Rightarrow> do {
               src \<leftarrow> pl_array source;
               xs \<leftarrow> rdn src 0 (pl_size dest);
               a' \<leftarrow> wrn a 0 xs;
               Some (True, dest\<lparr>pl_array := Some a'\<rparr>) })"

definition ptrlist_concat ::
  "bool \<Rightarrow> 'a ptrlist \<Rightarrow> 'a ptrlist \<Rightarrow> (bool \<times> 'a ptrlist) option" where
  "ptrlist_concat ok l extra =
     (if pl_count extra = 0 then Some (True, l)
      else let n = pl_count extra + pl_count l;
               l' = (if n > pl_size l
                     then l\<lparr>pl_size := n, pl_array := (case pl_array l of
                                                  None \<Rightarrow> malloc ok n
                                                | Some a \<Rightarrow> realloc ok a n)\<rparr>
                     else l)
      in case pl_array l' of
           None \<Rightarrow> Some (False, l')
         | Some a \<Rightarrow> do {
             src \<leftarrow> pl_array extra;
             xs \<leftarrow> rdn src 0 (pl_count extra);
             a' \<leftarrow> wrn a (pl_count l') xs;
             Some (True, l'\<lparr>pl_array := Some a', pl_count := pl_count l' + pl_count extra\<rparr>) })"

section \<open>What the array stands for\<close>

text \<open>
  A list in use holds exactly its first \<open>pl_count\<close> slots; an empty one may have no block yet.
\<close>

definition ptrlist_ok :: "'a ptrlist \<Rightarrow> bool" where
  "ptrlist_ok l \<longleftrightarrow>
     (case pl_array l of
        None \<Rightarrow> pl_count l = 0 \<and> pl_size l = 0
      | Some a \<Rightarrow> length a = pl_size l \<and> pl_count l \<le> pl_size l \<and> 0 < pl_size l
                  \<and> (\<forall>x \<in> set (take (pl_count l) a). x \<noteq> None))"

definition elems :: "'a ptrlist \<Rightarrow> 'a list" where
  "elems l = (case pl_array l of None \<Rightarrow> [] | Some a \<Rightarrow> map the (take (pl_count l) a))"

lemma ptrlist_ok_init [simp, wf]: "ptrlist_ok ptrlist_init"
  by (simp add: ptrlist_ok_def ptrlist_init_def)

lemma elems_init [simp]: "elems ptrlist_init = []"
  by (simp add: elems_def ptrlist_init_def)

lemma ptrlist_okE:
  assumes "ptrlist_ok l"
  obtains (null) "pl_array l = None" "pl_count l = 0" "pl_size l = 0" "elems l = []"
  | (block) a where "pl_array l = Some a" "length a = pl_size l" "pl_count l \<le> pl_size l" "0 < pl_size l"
      "take (pl_count l) a = map Some (elems l)" "length (elems l) = pl_count l"
proof (cases "pl_array l")
  case None
  with assms null show ?thesis by (simp add: ptrlist_ok_def elems_def)
next
  case (Some a)
  with assms have "take (pl_count l) a = map Some (map the (take (pl_count l) a))"
    by (auto simp: ptrlist_ok_def intro!: map_idI [symmetric])
  with assms Some block show ?thesis
    by (simp add: ptrlist_ok_def elems_def min_def)
qed

lemma ptrlist_okI:
  assumes "pl_array l = Some a" "length a = pl_size l" "0 < pl_size l"
    and "take (pl_count l) a = map Some xs" "pl_count l = length xs" "pl_count l \<le> pl_size l"
  shows "ptrlist_ok l" and "elems l = xs"
  using assms by (auto simp: ptrlist_ok_def elems_def o_def)

lemma ptrlist_count_ok: "ptrlist_ok l \<Longrightarrow> ptrlist_count l = length (elems l)"
  by (erule ptrlist_okE) (simp_all add: ptrlist_count_def)

lemma slot_take:
  assumes "take n a = map Some xs" and "length xs = n" and "0 \<le> i" and "nat i < length xs"
  shows "slot a i = Some (xs ! nat i)"
proof -
  have "length (take n a) = length xs" using assms(1) by simp
  then have "nat i < length a" using assms(4) by simp
  moreover have "a ! nat i = Some (xs ! nat i)"
    using assms by (metis nth_map nth_take)
  ultimately show ?thesis using assms(3) by (simp add: slot_def rd_def)
qed

section \<open>Every operation on the array is the list operation\<close>

lemma ptrlist_element_ok:
  assumes "ptrlist_ok l" and "0 \<le> i"
  shows "ptrlist_element l i = Some (if nat i < length (elems l) then Some (elems l ! nat i) else None)"
  using assms(1)
proof (cases rule: ptrlist_okE)
  case null
  then show ?thesis by (simp add: ptrlist_element_def)
next
  case (block a)
  show ?thesis
  proof (cases "nat i < length (elems l)")
    case True
    then have "slot a i = Some (elems l ! nat i)"
      by (rule slot_take [OF block(5,6) assms(2)])
    moreover have "i < int (pl_count l)" using True block(6) by linarith
    ultimately show ?thesis using True block(1) by (simp add: ptrlist_element_def)
  next
    case False
    then have "\<not> i < int (pl_count l)" using block(6) assms(2) by linarith
    with False block(1) show ?thesis by (simp add: ptrlist_element_def)
  qed
qed

lemma ptrlist_grow_ok:
  assumes "ptrlist_ok l"
  obtains l' a where "ptrlist_grow True l = (True, l')" "pl_array l' = Some a" "length a = pl_size l'"
    "pl_count l' = pl_count l" "pl_count l' < pl_size l'" "take (pl_count l') a = map Some (elems l)"
    "length (elems l) = pl_count l"
  using assms
proof (cases rule: ptrlist_okE)
  case null
  let ?n = "if pl_size l = 0 then PTRLIST_NUMBER else pl_size l"
  show ?thesis
    by (rule that [of "\<lparr>pl_array = Some (replicate ?n None), pl_count = 0, pl_size = ?n\<rparr>"
          "replicate ?n None"])
      (use null in \<open>simp_all add: ptrlist_grow_def malloc_def PTRLIST_NUMBER_def Let_def\<close>)
next
  case (block a)
  show ?thesis
  proof (cases "pl_size l = pl_count l")
    case True
    let ?b = "take (pl_size l * 2) a @ replicate (pl_size l * 2 - length a) None"
    show ?thesis
      by (rule that [of "l\<lparr>pl_size := pl_size l * 2, pl_array := Some ?b\<rparr>" ?b])
        (use True block in \<open>simp_all add: ptrlist_grow_def realloc_def\<close>)
  next
    case False
    show ?thesis
      by (rule that [of l a]) (use False block in \<open>simp_all add: ptrlist_grow_def\<close>)
  qed
qed

lemma ptrlist_add_ok:
  assumes "ptrlist_ok l"
  obtains l' where "ptrlist_add True l x = Some (True, l')" "ptrlist_ok l'" "elems l' = elems l @ [x]"
proof -
  from assms obtain l1 a where g: "ptrlist_grow True l = (True, l1)" "pl_array l1 = Some a"
    "length a = pl_size l1" "pl_count l1 = pl_count l" "pl_count l1 < pl_size l1"
    "take (pl_count l1) a = map Some (elems l)" "length (elems l) = pl_count l"
    by (rule ptrlist_grow_ok)
  let ?l = "l1\<lparr>pl_array := Some (a[pl_count l1 := Some x]), pl_count := pl_count l1 + 1\<rparr>"
  have t: "take (pl_count ?l) (a[pl_count l1 := Some x]) = map Some (elems l @ [x])"
    using g by (simp add: take_Suc_conv_app_nth)
  have "ptrlist_ok ?l" "elems ?l = elems l @ [x]"
    using g by (intro ptrlist_okI [OF _ _ _ t]; simp)+
  moreover have "ptrlist_add True l x = Some (True, ?l)"
    using g by (simp add: ptrlist_add_def mem)
  ultimately show ?thesis by (rule that [rotated])
qed

lemma bmove_down:
  assumes "i < n" "n \<le> length a" "take n a = map Some xs" "length xs = n"
  obtains a' where
    "(if int n - 1 - int i > 0 then bmove a (i + 1) i (nat (int n - 1 - int i)) else Some a) = Some a'"
    "length a' = length a" "take (n - 1) a' = map Some (take i xs @ drop (Suc i) xs)"
proof -
  let ?k = "nat (int n - 1 - int i)"
  have k: "?k = n - Suc i" by simp
  have drp: "take (n - Suc i) (drop (Suc i) a) = map Some (drop (Suc i) xs)"
    using assms by (metis drop_map drop_take)
  have tk: "take i a = map Some (take i xs)"
    using assms by (metis less_imp_le min.absorb1 take_map take_take)
  show ?thesis
  proof (cases "int n - 1 - int i > 0")
    case True
    let ?a = "take i a @ take (n - Suc i) (drop (Suc i) a) @ drop (i + (n - Suc i)) a"
    have "bmove a (i + 1) i ?k = Some ?a"
      using assms True by (simp add: bmove_def k mem)
    moreover have "take (n - 1) ?a = map Some (take i xs @ drop (Suc i) xs)"
      using assms by (simp add: drp tk)
    ultimately show ?thesis using True assms by (intro that [of ?a]) auto
  next
    case False
    with assms have "n = Suc i" by simp
    with assms False tk show ?thesis by (intro that [of a]) auto
  qed
qed

lemma ptrlist_remove_ok:
  assumes "ptrlist_ok l" and "0 \<le> i" and "nat i < length (elems l)"
  obtains l' where "ptrlist_remove l i = Some (Some (elems l ! nat i, l'))" "ptrlist_ok l'"
    "elems l' = take (nat i) (elems l) @ drop (Suc (nat i)) (elems l)"
  using assms(1)
proof (cases rule: ptrlist_okE)
  case null
  with assms show ?thesis by simp
next
  case (block a)
  have sl: "slot a i = Some (elems l ! nat i)"
    by (rule slot_take [OF block(5,6) assms(2,3)])
  from assms(2,3) block obtain a' where a':
    "(if int (pl_count l) - 1 - int (nat i) > 0 then bmove a (nat i + 1) (nat i) (nat (int (pl_count l) - 1 - int (nat i))) else Some a) = Some a'"
    "length a' = length a" "take (pl_count l - 1) a' = map Some (take (nat i) (elems l) @ drop (Suc (nat i)) (elems l))"
    by (metis bmove_down)
  let ?l = "l\<lparr>pl_array := Some a', pl_count := pl_count l - 1\<rparr>"
  have i: "int (nat i) = i" "\<not> (i \<ge> int (pl_count l) \<or> i < 0)"
    using assms(2,3) block(6) by linarith+
  have "ptrlist_remove l i = Some (Some (elems l ! nat i, ?l))"
    using a'(1) unfolding ptrlist_remove_def i(1) by (simp add: block(1) sl i(2))
  moreover have "ptrlist_ok ?l" "elems ?l = take (nat i) (elems l) @ drop (Suc (nat i)) (elems l)"
    using block a' assms(3)
    by (intro ptrlist_okI [where a = a' and
          xs = "take (nat i) (elems l) @ drop (Suc (nat i)) (elems l)"]; simp)+
  ultimately show ?thesis by (rule that)
qed

lemma ptrlist_remove_none:
  "ptrlist_ok l \<Longrightarrow> i < 0 \<or> length (elems l) \<le> nat i \<Longrightarrow> ptrlist_remove l i = Some None"
  by (erule ptrlist_okE) (auto simp: ptrlist_remove_def)

lemma bmove_up:
  assumes "i < n" "n < length a" "take n a = map Some xs" "length xs = n"
  obtains a1 where "bmove a i (i + 1) (n - i) = Some a1" "length a1 = length a"
    "take (n + 1) (a1[i := Some x]) = map Some (take i xs @ x # drop i xs)"
proof -
  let ?a1 = "take (i + 1) a @ take (n - i) (drop i a) @ drop (n + 1) a"
  have t: "take i a = map Some (take i xs)"
    using assms by (metis less_imp_le min.absorb1 take_map take_take)
  have d: "take (n - i) (drop i a) = map Some (drop i xs)"
    using assms(3) by (metis drop_map drop_take)
  have "take (i + 1) a = take i a @ [a ! i]"
    using assms by (simp add: take_Suc_conv_app_nth)
  then have a1: "?a1[i := Some x] = map Some (take i xs) @ Some x # map Some (drop i xs) @ drop (n + 1) a"
    using assms by (simp add: t d list_update_append)
  have "bmove a i (i + 1) (n - i) = Some ?a1"
    using assms by (simp add: bmove_def mem min_def)
  moreover have "length ?a1 = length a" using assms by simp
  moreover have "take (n + 1) (?a1[i := Some x]) = map Some (take i xs @ x # drop i xs)"
    unfolding a1 using assms by (simp add: Suc_diff_le)
  ultimately show ?thesis by (rule that)
qed

lemma ptrlist_insert_ok:
  assumes "ptrlist_ok l" and "0 \<le> i"
  obtains l' where "ptrlist_insert True l x i = Some (True, l')" "ptrlist_ok l'"
    "elems l' = take (nat i) (elems l) @ x # drop (nat i) (elems l)"
proof (cases "int (pl_count l) \<le> i")
  case True
  from assms(1) have n: "length (elems l) = pl_count l" by (rule ptrlist_okE) simp_all
  from assms(1) obtain l' where "ptrlist_add True l x = Some (True, l')" "ptrlist_ok l'"
    "elems l' = elems l @ [x]" by (rule ptrlist_add_ok)
  with True n assms(2) show ?thesis by (intro that) (auto simp: ptrlist_insert_def)
next
  case False
  from assms(1) obtain l1 a where g: "ptrlist_grow True l = (True, l1)" "pl_array l1 = Some a"
    "length a = pl_size l1" "pl_count l1 = pl_count l" "pl_count l1 < pl_size l1"
    "take (pl_count l1) a = map Some (elems l)" "length (elems l) = pl_count l"
    by (rule ptrlist_grow_ok)
  have i: "nat i < pl_count l1" "nat (int (pl_count l1) - i) = pl_count l1 - nat i"
    "\<not> int (pl_count l1) - i < 0" using False assms(2) g(4) by linarith+
  from i(1) g(3,5,6,7) g(4) obtain a1 where a1: "bmove a (nat i) (nat i + 1) (pl_count l1 - nat i) = Some a1"
    "length a1 = length a"
    "take (pl_count l1 + 1) (a1[nat i := Some x]) = map Some (take (nat i) (elems l) @ x # drop (nat i) (elems l))"
    by (metis bmove_up)
  let ?l = "l1\<lparr>pl_array := Some (a1[nat i := Some x]), pl_count := pl_count l1 + 1\<rparr>"
  have "ptrlist_insert True l x i = Some (True, ?l)"
    using False assms(2) g(1,2,3,5) i a1(1,2)
    by (simp add: ptrlist_insert_def Let_def wr_def)
  moreover have "ptrlist_ok ?l" "elems ?l = take (nat i) (elems l) @ x # drop (nat i) (elems l)"
    using g a1 i(1) by (intro ptrlist_okI [where a = "a1[nat i := Some x]" and
          xs = "take (nat i) (elems l) @ x # drop (nat i) (elems l)"]; simp)+
  ultimately show ?thesis by (rule that)
qed

lemma ptrlist_concat_ok:
  assumes "ptrlist_ok l" and "ptrlist_ok extra"
  obtains l' where "ptrlist_concat True l extra = Some (True, l')" "ptrlist_ok l'"
    "elems l' = elems l @ elems extra"
  using assms(2)
proof (cases rule: ptrlist_okE)
  case null
  then show ?thesis using assms(1) by (intro that [of l]) (simp_all add: ptrlist_concat_def)
next
  case (block b)
  show ?thesis
  proof (cases "pl_count extra = 0")
    case True
    with block show ?thesis using assms(1)
      by (intro that [of l]) (simp_all add: ptrlist_concat_def)
  next
    case False
    let ?n = "pl_count extra + pl_count l"
    obtain l1 a where l1: "(if ?n > pl_size l
        then l\<lparr>pl_size := ?n, pl_array := (case pl_array l of None \<Rightarrow> malloc True ?n | Some a \<Rightarrow> realloc True a ?n)\<rparr>
        else l) = l1" "pl_array l1 = Some a" "length a = pl_size l1" "pl_count l1 = pl_count l"
        "?n \<le> pl_size l1" "take (pl_count l) a = map Some (elems l)" "length (elems l) = pl_count l"
      using assms(1)
    proof (cases rule: ptrlist_okE)
      case null
      then show ?thesis
        by (intro that [of "l\<lparr>pl_size := ?n, pl_array := malloc True ?n\<rparr>" "replicate ?n None"])
          (use False in \<open>simp_all add: malloc_def\<close>)
    next
      case (block a)
      then show ?thesis
        by (cases "?n > pl_size l") (auto intro!: that simp: realloc_def)
    qed
    let ?a = "take (pl_count l) a @ take (pl_count extra) b @ drop ?n a"
    let ?l = "l1\<lparr>pl_array := Some ?a, pl_count := pl_count l1 + pl_count extra\<rparr>"
    have "ptrlist_concat True l extra = Some (True, ?l)"
      using False l1 block by (simp add: ptrlist_concat_def Let_def mem add.commute)
    moreover have "ptrlist_ok ?l" "elems ?l = elems l @ elems extra"
      using l1(2-) block False by (intro ptrlist_okI [where a = ?a and xs = "elems l @ elems extra"]; simp)+
    ultimately show ?thesis by (rule that)
  qed
qed

lemma ptrlist_dup_ok:
  assumes "ptrlist_ok source"
  obtains l' where "ptrlist_dup True source = Some (True, l')" "ptrlist_ok l'" "elems l' = elems source"
  using assms
proof (cases rule: ptrlist_okE)
  case null
  then show ?thesis
    by (intro that [of ptrlist_init]) (simp_all add: ptrlist_dup_def ptrlist_init_def elems_def ptrlist_ok_def)
next
  case (block b)
  show ?thesis
  proof (cases "pl_count source = 0")
    case True
    with block show ?thesis
      by (intro that [of ptrlist_init]) (simp_all add: ptrlist_dup_def ptrlist_init_def elems_def ptrlist_ok_def)
  next
    case False
    let ?n = "pl_count source"
    let ?l = "\<lparr>pl_array = Some (take ?n b), pl_count = ?n, pl_size = ?n\<rparr>"
    have "ptrlist_dup True source = Some (True, ?l)"
      using block False by (simp add: ptrlist_dup_def malloc_def Let_def mem)
    moreover have "ptrlist_ok ?l" "elems ?l = elems source"
      using block False by (intro ptrlist_okI [where a = "take ?n b" and xs = "elems source"]; simp)+
    ultimately show ?thesis by (rule that)
  qed
qed

lemma ptrlist_index_from_ok:
  assumes "ptrlist_ok l"
  shows "i + n = length (elems l) \<Longrightarrow> ptrlist_index_from n l i x =
    Some (case find (\<lambda>k. elems l ! k = x) [i..<i + n] of None \<Rightarrow> - 1 | Some k \<Rightarrow> int k)"
proof (induction n arbitrary: i)
  case 0
  then show ?case by simp
next
  case (Suc n)
  have up: "[i..<i + Suc n] = i # [Suc i..<Suc i + n]" by (simp add: upt_rec)
  show ?case
    using Suc.IH [of "Suc i"] Suc.prems unfolding up
    by (simp add: ptrlist_element_ok [OF assms] del: upt_Suc)
qed

lemma ptrlist_index_ok:
  "ptrlist_ok l \<Longrightarrow> ptrlist_index l x =
     Some (case find (\<lambda>k. elems l ! k = x) [0..<length (elems l)] of None \<Rightarrow> - 1 | Some k \<Rightarrow> int k)"
  using ptrlist_index_from_ok [of l 0 "length (elems l)" x]
  by (simp add: ptrlist_index_def ptrlist_count_ok)

text \<open>
  When the block cannot be grown the old block is gone too: \<open>realloc\<close>'s result overwrites the
  only pointer to it, so the list then reads as empty.
\<close>

lemma ptrlist_add_fails:
  assumes "ptrlist_ok l" and "length (elems l) = pl_size l"
  obtains l' where "ptrlist_add False l x = Some (False, l')" "ptrlist_count l' = 0"
  using assms(1)
proof (cases rule: ptrlist_okE)
  case null
  then show ?thesis
    by (simp add: that ptrlist_add_def ptrlist_grow_def malloc_def Let_def ptrlist_count_def)
next
  case (block a)
  with assms(2) show ?thesis
    by (simp add: that ptrlist_add_def ptrlist_grow_def realloc_def ptrlist_count_def)
qed

section \<open>The interface clients of the array use\<close>

text \<open>
  What the option list and \<open>dynarray\<close> rely on: a representation invariant and the list a
  representation stands for, with the laws of its creation, growth and reads.
\<close>

locale growable =
  fixes new :: 'l
    and add :: "'l \<Rightarrow> 'a \<Rightarrow> (bool \<times> 'l) option"
    and element :: "'l \<Rightarrow> int \<Rightarrow> 'a option option"
    and cnt :: "'l \<Rightarrow> nat"
    and inv :: "'l \<Rightarrow> bool"
    and abs :: "'l \<Rightarrow> 'a list"
  assumes new_inv: "inv new"
    and new_abs: "abs new = []"
    and add_law: "inv l \<Longrightarrow> \<exists>l'. add l x = Some (True, l') \<and> inv l' \<and> abs l' = abs l @ [x]"
    and element_law: "inv l \<Longrightarrow> 0 \<le> i \<Longrightarrow>
      element l i = Some (if nat i < length (abs l) then Some (abs l ! nat i) else None)"
    and cnt_law: "inv l \<Longrightarrow> cnt l = length (abs l)"
begin

lemma addE:
  assumes "inv l"
  obtains l' where "add l x = Some (True, l')" "inv l'" "abs l' = abs l @ [x]"
  using add_law [OF assms] by blast

lemma element_in: "inv l \<Longrightarrow> n < length (abs l) \<Longrightarrow> element l (int n) = Some (Some (abs l ! n))"
  using element_law [of l "int n"] by simp

text \<open>A loop that adds the image of each element of a list builds the mapped list.\<close>

lemma foldM_add:
  assumes "inv l"
  shows "\<exists>l'. foldM (\<lambda>l x. map_option snd (add l (f x))) l xs = Some l' \<and> inv l' \<and> abs l' = abs l @ map f xs"
  using assms
proof (induction xs arbitrary: l)
  case Nil
  then show ?case by simp
next
  case (Cons x xs)
  obtain l1 where "add l (f x) = Some (True, l1)" "inv l1" "abs l1 = abs l @ [f x]"
    using addE [OF Cons.prems] .
  with Cons.IH [of l1] show ?case by auto
qed

end

interpretation pl: growable ptrlist_init "ptrlist_add True" ptrlist_element ptrlist_count ptrlist_ok elems
  by unfold_locales
    (auto simp: ptrlist_element_ok ptrlist_count_ok elim: ptrlist_add_ok)

section \<open>The array refines the list\<close>

text \<open>Insertion at an index of a list in use: the element lands at that index (at the end
  for an index past it), everything from there on moves up by one, nothing is lost, and no slot
  outside the block is touched, whether or not the block had to be grown.\<close>

theorem ptrlist_insert_refines:
  assumes "ptrlist_ok l" and "0 \<le> i"
  shows "\<exists>l'. ptrlist_insert True l x i = Some (True, l') \<and> ptrlist_ok l' \<and>
           elems l' = take (nat i) (elems l) @ x # drop (nat i) (elems l)"
  using assms by (auto elim: ptrlist_insert_ok)

theorem ptrlist_insert_refines_witness:
  "\<exists>l'. ptrlist_insert True \<lparr>pl_array = Some [Some 1, Some (3::nat)], pl_count = 2, pl_size = 2\<rparr> 2 1 = Some (True, l')
      \<and> ptrlist_ok l' \<and> elems l' = [1, 2, 3]"
  using ptrlist_insert_refines [of "\<lparr>pl_array = Some [Some 1, Some (3::nat)], pl_count = 2, pl_size = 2\<rparr>" 1 2]
  by (simp add: ptrlist_ok_def elems_def)

end
