(* ===== verification/DynArray.thy ===== *)
theory DynArray
  imports PtrList
begin

text \<open>
  The owning array of \<open>bootplib/dynarray.c\<close>: a \<open>ptrlist_t\<close> whose elements are freed with
  \<open>free_func\<close> and duplicated with \<open>copy_func\<close>.  An element pointer is an option, \<open>None\<close> being
  a null pointer.  Freeing is observable: the operations return the pointers they passed to
  \<open>free_func\<close>, in order.
\<close>

section \<open>Operations (dynarray.c)\<close>

type_synonym 'p ptr = "'p option"

record 'p dynarray =
  da_list :: "'p ptr ptrlist"
  has_free_func :: bool
  copy_func :: "('p \<Rightarrow> 'p ptr) option"

definition dynarray_init :: "bool \<Rightarrow> ('p \<Rightarrow> 'p ptr) option \<Rightarrow> 'p dynarray" where
  "dynarray_init free_func copy =
     \<lparr>da_list = ptrlist_init, has_free_func = free_func, copy_func = copy\<rparr>"

definition freed :: "'p dynarray \<Rightarrow> 'p ptr \<Rightarrow> 'p list" where
  "freed d element = (case element of Some p \<Rightarrow> if has_free_func d then [p] else [] | None \<Rightarrow> [])"

text \<open>
  \<open>dynarray_free\<close> removes the first element until none is left; the number of rounds is
  bounded by the count, which the fuel repeats.
\<close>

fun free_loop :: "nat \<Rightarrow> 'p dynarray \<Rightarrow> 'p list \<Rightarrow> ('p list \<times> 'p dynarray) option" where
  "free_loop 0 d fs = None"
| "free_loop (Suc fuel) d fs =
     Option.bind (ptrlist_remove (da_list d) 0)
       (\<lambda>r. case r of
              None \<Rightarrow> Some (fs, d\<lparr>da_list := ptrlist_free (da_list d)\<rparr>)
            | Some (element, l) \<Rightarrow> free_loop fuel (d\<lparr>da_list := l\<rparr>) (fs @ freed d element))"

definition dynarray_free :: "'p dynarray \<Rightarrow> ('p list \<times> 'p dynarray) option" where
  "dynarray_free d = free_loop (Suc (ptrlist_count (da_list d))) d []"

definition dynarray_add :: "'p dynarray \<Rightarrow> 'p ptr \<Rightarrow> (bool \<times> 'p dynarray) option" where
  "dynarray_add d element = do {
     (ok, l) \<leftarrow> ptrlist_add True (da_list d) element;
     Some (ok, d\<lparr>da_list := l\<rparr>) }"

definition dynarray_insert :: "'p dynarray \<Rightarrow> 'p ptr \<Rightarrow> int \<Rightarrow> (bool \<times> 'p dynarray) option" where
  "dynarray_insert d element i = do {
     (ok, l) \<leftarrow> ptrlist_insert True (da_list d) element i;
     Some (ok, d\<lparr>da_list := l\<rparr>) }"

definition dynarray_remove :: "'p dynarray \<Rightarrow> int \<Rightarrow> ('p ptr \<times> 'p dynarray) option option" where
  "dynarray_remove d i =
     map_option (map_option (\<lambda>(e, l). (e, d\<lparr>da_list := l\<rparr>))) (ptrlist_remove (da_list d) i)"

definition dynarray_free_element :: "'p dynarray \<Rightarrow> int \<Rightarrow> (bool \<times> 'p list \<times> 'p dynarray) option" where
  "dynarray_free_element d i =
     map_option (\<lambda>r. case r of None \<Rightarrow> (False, [], d) | Some (p, d') \<Rightarrow> (True, freed d p, d'))
       (dynarray_remove d i)"

definition dynarray_count :: "'p dynarray \<Rightarrow> nat" where
  "dynarray_count d = ptrlist_count (da_list d)"

text \<open>A null element and a missing one both come back as the null pointer.\<close>

definition dynarray_element :: "'p dynarray \<Rightarrow> int \<Rightarrow> 'p ptr option" where
  "dynarray_element d i = map_option (\<lambda>e. Option.bind e id) (ptrlist_element (da_list d) i)"

definition dynarray_index :: "'p dynarray \<Rightarrow> 'p ptr \<Rightarrow> int option" where
  "dynarray_index d element = ptrlist_index (da_list d) element"

definition dup_element :: "('p \<Rightarrow> 'p ptr) option \<Rightarrow> 'p ptr \<Rightarrow> 'p ptr" where
  "dup_element copy element =
     (case (element, copy) of (Some p, Some f) \<Rightarrow> f p | _ \<Rightarrow> element)"

definition dynarray_dup :: "'p dynarray \<Rightarrow> 'p dynarray option" where
  "dynarray_dup source =
     map_option (\<lambda>l. source\<lparr>da_list := l\<rparr>)
       (foldM (\<lambda>l i. do {
           e \<leftarrow> ptrlist_element (da_list source) (int i);
           (_, l') \<leftarrow> ptrlist_add True l (dup_element (copy_func source) (Option.bind e id));
           Some l' }) ptrlist_init [0..<ptrlist_count (da_list source)])"

section \<open>The list of elements\<close>

definition dynarray_ok :: "'p dynarray \<Rightarrow> bool" where
  "dynarray_ok d \<longleftrightarrow> ptrlist_ok (da_list d)"

definition members :: "'p dynarray \<Rightarrow> 'p ptr list" where
  "members d = elems (da_list d)"

lemma dynarray_init_ok [simp]:
  "dynarray_ok (dynarray_init f c)" "members (dynarray_init f c) = []"
  by (simp_all add: dynarray_init_def dynarray_ok_def members_def)

lemma dynarray_addE:
  assumes "dynarray_ok d"
  obtains d' where "dynarray_add d e = Some (True, d')" "dynarray_ok d'" "members d' = members d @ [e]"
proof -
  obtain l where "ptrlist_add True (da_list d) e = Some (True, l)" "ptrlist_ok l" "elems l = members d @ [e]"
    using assms by (auto simp: dynarray_ok_def members_def elim: ptrlist_add_ok)
  then show ?thesis
    by (intro that [of "d\<lparr>da_list := l\<rparr>"]) (simp_all add: dynarray_add_def dynarray_ok_def members_def)
qed

lemma dynarray_insertE:
  assumes "dynarray_ok d" and "0 \<le> i"
  obtains d' where "dynarray_insert d e i = Some (True, d')" "dynarray_ok d'"
    "members d' = take (nat i) (members d) @ e # drop (nat i) (members d)"
proof -
  obtain l where "ptrlist_insert True (da_list d) e i = Some (True, l)" "ptrlist_ok l"
      "elems l = take (nat i) (members d) @ e # drop (nat i) (members d)"
    using assms ptrlist_insert_ok [of "da_list d" i e] by (auto simp: dynarray_ok_def members_def)
  then show ?thesis
    by (intro that [of "d\<lparr>da_list := l\<rparr>"]) (simp_all add: dynarray_insert_def dynarray_ok_def members_def)
qed

lemma dynarray_count_ok: "dynarray_ok d \<Longrightarrow> dynarray_count d = length (members d)"
  by (simp add: dynarray_ok_def members_def dynarray_count_def ptrlist_count_ok)

lemma dynarray_element_ok:
  "dynarray_ok d \<Longrightarrow> n < length (members d) \<Longrightarrow> dynarray_element d (int n) = Some (members d ! n)"
  by (simp add: dynarray_ok_def members_def dynarray_element_def pl.element_in)

lemma dynarray_element_beyond:
  "dynarray_ok d \<Longrightarrow> length (members d) \<le> n \<Longrightarrow> dynarray_element d (int n) = Some None"
  by (cases "pl_array (da_list d)")
     (auto simp: dynarray_ok_def members_def dynarray_element_def ptrlist_element_def ptrlist_ok_def elems_def)

text \<open>Freeing the array passes every non-null element to \<open>free_func\<close> once, in order.\<close>

lemma free_loop_ok:
  assumes "ptrlist_ok (da_list d)" and "length (elems (da_list d)) < fuel"
  shows "free_loop fuel d fs =
    Some (fs @ concat (map (freed d) (elems (da_list d))), d\<lparr>da_list := ptrlist_init\<rparr>)"
  using assms
proof (induction fuel arbitrary: d fs)
  case 0
  then show ?case by simp
next
  case (Suc fuel)
  show ?case
  proof (cases "elems (da_list d)")
    case Nil
    with Suc.prems show ?thesis by (simp add: ptrlist_remove_none ptrlist_free_def)
  next
    case (Cons e es)
    with Suc.prems obtain l where l: "ptrlist_remove (da_list d) 0 = Some (Some (e, l))"
      "ptrlist_ok l" "elems l = es"
      by (auto elim: ptrlist_remove_ok [where i = 0])
    have "freed (d\<lparr>da_list := l\<rparr>) = freed d" by (rule ext) (simp add: freed_def split: option.split)
    with Suc.IH [of "d\<lparr>da_list := l\<rparr>" "fs @ freed d e"] Suc.prems Cons l show ?thesis by simp
  qed
qed

lemma dynarray_free_ok:
  "dynarray_ok d \<Longrightarrow>
     dynarray_free d = Some (concat (map (freed d) (members d)), d\<lparr>da_list := ptrlist_init\<rparr>)"
  by (simp add: dynarray_free_def dynarray_ok_def members_def ptrlist_count_ok free_loop_ok del: free_loop.simps)

lemma dynarray_dup_ok:
  assumes "dynarray_ok d"
  obtains d' where "dynarray_dup d = Some d'" "dynarray_ok d'"
    "members d' = map (dup_element (copy_func d)) (members d)"
proof -
  let ?g = "\<lambda>i. dup_element (copy_func d) (elems (da_list d) ! i)"
  let ?f = "\<lambda>l i. do {
           e \<leftarrow> ptrlist_element (da_list d) (int i);
           (_, l') \<leftarrow> ptrlist_add True l (dup_element (copy_func d) (Option.bind e id));
           Some l' }"
  have ok: "ptrlist_ok (da_list d)" using assms by (simp add: dynarray_ok_def)
  have eq: "?f l i = map_option snd (ptrlist_add True l (?g i))" if "i < length (elems (da_list d))" for l i
    using ok that by (simp add: pl.element_in map_option_case split: option.split)
  have "foldM ?f l is = foldM (\<lambda>l i. map_option snd (ptrlist_add True l (?g i))) l is"
    if "\<forall>i \<in> set is. i < length (elems (da_list d))" for l "is"
    using that by (induction "is" arbitrary: l) (simp_all add: eq)
  moreover obtain l' where "foldM (\<lambda>l i. map_option snd (ptrlist_add True l (?g i))) ptrlist_init
      [0..<length (elems (da_list d))] = Some l'" "ptrlist_ok l'"
      "elems l' = map ?g [0..<length (elems (da_list d))]"
    using pl.foldM_add [of ptrlist_init ?g] by auto
  moreover have "map ?g [0..<length (elems (da_list d))] = map (dup_element (copy_func d)) (elems (da_list d))"
    by (rule nth_equalityI) simp_all
  ultimately have "dynarray_dup d = Some (d\<lparr>da_list := l'\<rparr>)" and "ptrlist_ok l'"
    and "elems l' = map (dup_element (copy_func d)) (elems (da_list d))"
    unfolding dynarray_dup_def ptrlist_count_ok [OF ok] by simp_all
  then show ?thesis
    by (intro that [of "d\<lparr>da_list := l'\<rparr>"]) (simp_all add: dynarray_ok_def members_def)
qed

end
