(* ===== verification/HostList.thy ===== *)
theory HostList
  imports Prelude
begin

text \<open>
  The host lists of the server (\<open>bootplib/hostlist.c\<close> and \<open>hostlist.h\<close>): the hosts of
  \<open>/etc/bootptab\<close> and the clients with a pending offer.

  A list is the Isabelle list of its hosts, front first; \<open>hp_id\<close> stands for the address of a host's
  record.  \<open>hp_haddr\<close> has the bytes that were copied into the union, \<open>hp_tv\<close> the seconds of \<open>tv\<close>.
\<close>

record hosts =
  hp_id :: nat
  hp_iaddr :: in_addr
  hp_htype :: u8
  hp_hlen :: u8
  hp_haddr :: "u8 list"
  hp_hostname :: "string option"
  hp_bootfile :: "string option"
  hp_tv :: int
  hp_lease :: nat

definition hostinsert :: "hosts list \<Rightarrow> hosts \<Rightarrow> hosts list" where
  "hostinsert hosts hp = hp # hosts"

fun hostremove :: "hosts list \<Rightarrow> nat \<Rightarrow> hosts list" where
  "hostremove [] p = []"
| "hostremove (hp # hosts) p = (if hp_id hp = p then hosts else hp # hostremove hosts p)"

definition hostfree :: "hosts list \<Rightarrow> hosts \<Rightarrow> hosts list" where
  "hostfree hosts hp = hostremove hosts (hp_id hp)"

definition sizeof_haddr :: nat where
  "sizeof_haddr = 256"

text \<open>
  \<open>hostadd\<close> with the address \<open>malloc\<close> returned, \<open>None\<close> when it failed.  The stored length is cut
  to eight bits before the copy is bounded.
\<close>

definition hostadd ::
  "hosts list \<Rightarrow> nat option \<Rightarrow> int option \<Rightarrow> u8 \<Rightarrow> u8 list \<Rightarrow> in_addr option \<Rightarrow> string option \<Rightarrow> string option \<Rightarrow>
   hosts list \<times> hosts option" where
  "hostadd hosts p tv htype haddr iaddr hostname bootfile =
     (case p of
        None \<Rightarrow> (hosts, None)
      | Some q \<Rightarrow>
          let hp = \<lparr>hp_id = q, hp_iaddr = (case iaddr of None \<Rightarrow> 0 | Some a \<Rightarrow> a), hp_htype = htype,
                hp_hlen = word_of_nat (length haddr), hp_haddr = take sizeof_haddr haddr,
                hp_hostname = hostname, hp_bootfile = bootfile,
                hp_tv = (case tv of None \<Rightarrow> 0 | Some t \<Rightarrow> t), hp_lease = 0\<rparr>
          in (hostinsert hosts hp, Some hp))"

fun hostbyip :: "hosts list \<Rightarrow> in_addr \<Rightarrow> hosts option" where
  "hostbyip [] iaddr = None"
| "hostbyip (hp # hosts) iaddr = (if iaddr = hp_iaddr hp then Some hp else hostbyip hosts iaddr)"

fun hostbyaddr ::
  "hosts list \<Rightarrow> u8 \<Rightarrow> u8 list \<Rightarrow> (in_addr \<Rightarrow> bool) option \<Rightarrow> hosts option" where
  "hostbyaddr [] hwtype hwaddr func = None"
| "hostbyaddr (hp # hosts) hwtype hwaddr func =
     (if hwtype = hp_htype hp \<and> length hwaddr = unat (hp_hlen hp) \<and> hwaddr = take (length hwaddr) (hp_haddr hp)
         \<and> (case func of None \<Rightarrow> True | Some f \<Rightarrow> f (hp_iaddr hp))
      then Some hp
      else hostbyaddr hosts hwtype hwaddr func)"

lemma hostbyip_Some: "hostbyip hosts ip = Some hp \<Longrightarrow> hp \<in> set hosts \<and> hp_iaddr hp = ip"
  by (induction hosts) (auto split: if_splits)

lemma hostbyip_None: "hostbyip hosts ip = None \<longleftrightarrow> ip \<notin> hp_iaddr ` set hosts"
  by (induction hosts) auto

lemma hostbyaddr_Some:
  "hostbyaddr hosts hwtype hwaddr func = Some hp \<Longrightarrow>
     hp \<in> set hosts \<and> hp_htype hp = hwtype \<and> unat (hp_hlen hp) = length hwaddr \<and>
     (\<forall>f. func = Some f \<longrightarrow> f (hp_iaddr hp))"
  by (induction hosts) (auto split: if_splits option.splits)

lemma hostremove_subset: "set (hostremove hosts p) \<subseteq> set hosts"
  by (induction hosts) auto

lemma hostremove_other: "hp \<in> set hosts \<Longrightarrow> hp_id hp \<noteq> p \<Longrightarrow> hp \<in> set (hostremove hosts p)"
  by (induction hosts) auto

text \<open>A host that was added is found by its hardware address and by its IP address.\<close>

lemma hostadd_found:
  assumes "hostadd hosts (Some p) tv htype haddr (Some ip) nm bf = (hosts', Some hp)" "length haddr < 256"
  shows "hostbyaddr hosts' htype haddr None = Some hp" "hostbyip hosts' ip = Some hp"
  using assms by (auto simp: hostadd_def hostinsert_def Let_def sizeof_haddr_def unat_of_nat take_bit_eq_mod)

end
