(* ===== verification/DhcpOptions.thy ===== *)
theory DhcpOptions
  imports PtrList
begin

text \<open>
  Parsing of DHCP option areas: the \<open>dhcpol_*\<close> half of \<open>bootplib/dhcp_options.c\<close>.

  An option list is a \<open>ptrlist_t\<close> of pointers to the options in the packet; a pointer is the
  list of bytes it can reach (theory Prelude).  The code's \<open>err\<close> strings are the values of
  \<open>dhcpo_err\<close>.  Lists never run out of memory here (\<open>ptrlist_add True\<close>); the failing
  allocation is treated in theory PtrList.
\<close>

section \<open>Tags and packets (gen_dhcp_tags.h, dhcp.h)\<close>

abbreviation (input) dhcptag_pad_e :: "'a::zero" where "dhcptag_pad_e \<equiv> 0"
abbreviation (input) dhcptag_subnet_mask_e :: "'a::one" where "dhcptag_subnet_mask_e \<equiv> 1"
abbreviation (input) dhcptag_router_e :: "'a::numeral" where "dhcptag_router_e \<equiv> 3"
abbreviation (input) dhcptag_domain_name_server_e :: "'a::numeral" where "dhcptag_domain_name_server_e \<equiv> 6"
abbreviation (input) dhcptag_host_name_e :: "'a::numeral" where "dhcptag_host_name_e \<equiv> 12"
abbreviation (input) dhcptag_domain_name_e :: "'a::numeral" where "dhcptag_domain_name_e \<equiv> 15"
abbreviation (input) dhcptag_vendor_specific_e :: "'a::numeral" where "dhcptag_vendor_specific_e \<equiv> 43"
abbreviation (input) dhcptag_requested_ip_address_e :: "'a::numeral" where "dhcptag_requested_ip_address_e \<equiv> 50"
abbreviation (input) dhcptag_lease_time_e :: "'a::numeral" where "dhcptag_lease_time_e \<equiv> 51"
abbreviation (input) dhcptag_option_overload_e :: "'a::numeral" where "dhcptag_option_overload_e \<equiv> 52"
abbreviation (input) dhcptag_dhcp_message_type_e :: "'a::numeral" where "dhcptag_dhcp_message_type_e \<equiv> 53"
abbreviation (input) dhcptag_server_identifier_e :: "'a::numeral" where "dhcptag_server_identifier_e \<equiv> 54"
abbreviation (input) dhcptag_parameter_request_list_e :: "'a::numeral" where "dhcptag_parameter_request_list_e \<equiv> 55"
abbreviation (input) dhcptag_message_e :: "'a::numeral" where "dhcptag_message_e \<equiv> 56"
abbreviation (input) dhcptag_max_dhcp_message_size_e :: "'a::numeral" where "dhcptag_max_dhcp_message_size_e \<equiv> 57"
abbreviation (input) dhcptag_renewal_t1_time_value_e :: "'a::numeral" where "dhcptag_renewal_t1_time_value_e \<equiv> 58"
abbreviation (input) dhcptag_rebinding_t2_time_value_e :: "'a::numeral" where "dhcptag_rebinding_t2_time_value_e \<equiv> 59"
abbreviation (input) dhcptag_client_identifier_e :: "'a::numeral" where "dhcptag_client_identifier_e \<equiv> 61"
abbreviation (input) dhcptag_ipv6_only_preferred_e :: "'a::numeral" where "dhcptag_ipv6_only_preferred_e \<equiv> 108"
abbreviation (input) dhcptag_domain_search_e :: "'a::numeral" where "dhcptag_domain_search_e \<equiv> 119"
abbreviation (input) dhcptag_classless_static_route_e :: "'a::numeral" where "dhcptag_classless_static_route_e \<equiv> 121"
abbreviation (input) dhcptag_end_e :: "'a::numeral" where "dhcptag_end_e \<equiv> 255"

text \<open>
  The fields of \<open>struct dhcp\<close>.  \<open>dp_secs\<close> and \<open>dp_flags\<close> are the values a little-endian load
  gives, so \<open>ntohs\<close> swaps them; \<open>dp_options\<close> is what the receive buffer holds after the
  fixed part.
\<close>

record dhcp =
  dp_op :: u8
  dp_htype :: u8
  dp_hlen :: u8
  dp_hops :: u8
  dp_xid :: u32
  dp_secs :: u16
  dp_flags :: u16
  dp_ciaddr :: in_addr
  dp_yiaddr :: in_addr
  dp_siaddr :: in_addr
  dp_giaddr :: in_addr
  dp_chaddr :: "u8 list"
  dp_sname :: "u8 list"
  dp_file :: "u8 list"
  dp_options :: "u8 list"

definition sizeof_dhcp :: int where
  "sizeof_dhcp = 236"

definition sizeof_sname :: int where
  "sizeof_sname = 64"

definition sizeof_file :: int where
  "sizeof_file = 128"

definition dhcp_layout :: "dhcp \<Rightarrow> bool" where
  "dhcp_layout pkt \<longleftrightarrow> length (dp_chaddr pkt) = 16 \<and> length (dp_sname pkt) = 64 \<and> length (dp_file pkt) = 128"

definition rfc_magic :: "u8 list" where
  "rfc_magic = [99, 130, 83, 99]"

definition RFC_MAGIC_SIZE :: nat where
  "RFC_MAGIC_SIZE = 4"

abbreviation (input) "DHCP_OVERLOAD_FILE \<equiv> (1 :: u8)"
abbreviation (input) "DHCP_OVERLOAD_SNAME \<equiv> (2 :: u8)"
abbreviation (input) "DHCP_OVERLOAD_BOTH \<equiv> (3 :: u8)"

text \<open>Message types and sizes of packets.\<close>

abbreviation (input) "dhcp_msgtype_none_e \<equiv> (0 :: u8)"
abbreviation (input) "dhcp_msgtype_discover_e \<equiv> (1 :: u8)"
abbreviation (input) "dhcp_msgtype_offer_e \<equiv> (2 :: u8)"
abbreviation (input) "dhcp_msgtype_request_e \<equiv> (3 :: u8)"
abbreviation (input) "dhcp_msgtype_decline_e \<equiv> (4 :: u8)"
abbreviation (input) "dhcp_msgtype_ack_e \<equiv> (5 :: u8)"
abbreviation (input) "dhcp_msgtype_nak_e \<equiv> (6 :: u8)"
abbreviation (input) "dhcp_msgtype_release_e \<equiv> (7 :: u8)"
abbreviation (input) "dhcp_msgtype_inform_e \<equiv> (8 :: u8)"

definition BOOTREQUEST :: u8 where "BOOTREQUEST = 1"
definition BOOTREPLY :: u8 where "BOOTREPLY = 2"
definition DHCP_PACKET_MIN :: int where "DHCP_PACKET_MIN = 236 + 312"
definition sizeof_bootp :: int where "sizeof_bootp = 300"

section \<open>Option lists (dhcp_options.c, dhcpol)\<close>

type_synonym bptr = "u8 list"
type_synonym dhcpol = "bptr ptrlist"

datatype dhcpo_err =
    ParseFailedNear u8
  | PacketTooShort int
  | MissingMagic
  | ConcatFailed nat
  | MissingVendorOptions

definition dhcpol_add :: "dhcpol \<Rightarrow> bptr \<Rightarrow> (bool \<times> dhcpol) option" where
  "dhcpol_add l element = ptrlist_add True l element"

definition dhcpol_count :: "dhcpol \<Rightarrow> nat" where
  "dhcpol_count l = ptrlist_count l"

definition dhcpol_element :: "dhcpol \<Rightarrow> int \<Rightarrow> bptr option option" where
  "dhcpol_element l i = ptrlist_element l i"

definition dhcpol_init :: dhcpol where
  "dhcpol_init = ptrlist_init"

definition dhcpol_free :: "dhcpol \<Rightarrow> dhcpol" where
  "dhcpol_free l = ptrlist_free l"

definition dhcpol_concat :: "dhcpol \<Rightarrow> dhcpol \<Rightarrow> (bool \<times> dhcpol) option" where
  "dhcpol_concat l extra = ptrlist_concat True l extra"

text \<open>
  The loop of \<open>dhcpol_parse_buffer\<close>: \<open>len\<close> and \<open>scan\<close> are the code's, \<open>tag\<close> the last tag read.
  The result is the list with the final \<open>len\<close> and \<open>tag\<close>.
\<close>

function dhcpol_parse_loop :: "dhcpol \<Rightarrow> bptr \<Rightarrow> int \<Rightarrow> u8 \<Rightarrow> (dhcpol \<times> int \<times> u8) option" where
  "dhcpol_parse_loop l scan len tag =
     (if tag \<noteq> dhcptag_end_e \<and> len > 0 then
        Option.bind (rd scan 0) (\<lambda>tag.
          if tag = dhcptag_end_e then
            Option.bind (dhcpol_add l scan) (\<lambda>(_, l').
              dhcpol_parse_loop l' (drop 1 scan) (len - 1) tag)
          else if tag = dhcptag_pad_e then
            dhcpol_parse_loop l (drop 1 scan) (len - 1) tag
          else if len > 1 then
            Option.bind (rd scan 1) (\<lambda>option_len.
              Option.bind (dhcpol_add l scan) (\<lambda>(_, l').
                dhcpol_parse_loop l' (drop (unat option_len + 2) scan)
                  (len - (uint option_len + 2)) tag))
          else dhcpol_parse_loop l scan (- 1) tag)
      else Some (l, len, tag))"
  by pat_completeness auto
termination
  by (relation "measure (\<lambda>(l, scan, len, tag). nat len)")
    (auto simp: nat_less_iff intro: le_less_trans [of _ 0])

declare dhcpol_parse_loop.simps [simp del]

definition dhcpol_parse_buffer :: "bptr \<Rightarrow> int \<Rightarrow> (dhcpo_err + dhcpol) option" where
  "dhcpol_parse_buffer buffer len = do {
     (l, left, tag) \<leftarrow> dhcpol_parse_loop dhcpol_init buffer len dhcptag_pad_e;
     Some (if left < 0 then Inl (ParseFailedNear tag) else Inr l) }"

text \<open>
  \<open>dhcpol_find\<close> from index \<open>start\<close> on.  A hit is the pointer to the option's data, its length
  and the index to start the next search at.  A call with a null \<open>len_p\<close> does not load the
  length byte; the model always does, which only adds an access.
\<close>

fun find_loop :: "nat \<Rightarrow> dhcpol \<Rightarrow> int \<Rightarrow> nat \<Rightarrow> (bptr \<times> int \<times> nat) option option" where
  "find_loop 0 l tag i = Some None"
| "find_loop (Suc n) l tag i = do {
     element \<leftarrow> dhcpol_element l (int i);
     option \<leftarrow> element;
     t \<leftarrow> rd option 0;
     if uint t = tag
     then do { len \<leftarrow> rd option 1; Some (Some (drop 2 option, uint len, i + 1)) }
     else find_loop n l tag (i + 1) }"

definition dhcpol_find :: "dhcpol \<Rightarrow> int \<Rightarrow> nat \<Rightarrow> (bptr \<times> int \<times> nat) option option" where
  "dhcpol_find l tag start =
     (if tag = dhcptag_end_e \<or> tag = dhcptag_pad_e then Some None
      else find_loop (dhcpol_count l - start) l tag start)"

definition dhcpol_find_with_length :: "dhcpol \<Rightarrow> int \<Rightarrow> int \<Rightarrow> bptr option option" where
  "dhcpol_find_with_length options tag min_length =
     map_option (\<lambda>r. case r of
         None \<Rightarrow> None
       | Some (val, real_length, _) \<Rightarrow> if real_length < min_length then None else Some val)
       (dhcpol_find options tag 0)"

text \<open>All occurrences of an option, concatenated; \<open>None\<close> for the null pointer.\<close>

fun copy_loop :: "nat \<Rightarrow> dhcpol \<Rightarrow> int \<Rightarrow> nat \<Rightarrow> u8 list option \<Rightarrow> u8 list option option" where
  "copy_loop 0 l tag i data = Some data"
| "copy_loop (Suc n) l tag i data = do {
     element \<leftarrow> dhcpol_element l (int i);
     option \<leftarrow> element;
     t \<leftarrow> rd option 0;
     if uint t = tag
     then do { len \<leftarrow> rd option 1;
               bytes \<leftarrow> rdn option 2 (unat len);
               copy_loop n l tag (i + 1)
                 (Some ((case data of None \<Rightarrow> [] | Some d \<Rightarrow> d) @ bytes)) }
     else copy_loop n l tag (i + 1) data }"

definition dhcpol_option_copy :: "dhcpol \<Rightarrow> int \<Rightarrow> u8 list option option" where
  "dhcpol_option_copy l tag =
     (if tag = dhcptag_end_e \<or> tag = dhcptag_pad_e then Some None
      else copy_loop (dhcpol_count l) l tag 0 None)"

text \<open>
  One overloaded area: parsed on its own, appended when it parses, ignored when it does not.
\<close>

definition parse_overload :: "dhcpol \<Rightarrow> bptr \<Rightarrow> int \<Rightarrow> dhcpol option" where
  "parse_overload options area area_size = do {
     r \<leftarrow> dhcpol_parse_buffer area area_size;
     case r of
       Inl _ \<Rightarrow> Some options
     | Inr extra \<Rightarrow> map_option snd (dhcpol_concat options extra) }"

text \<open>The option overload handling at the end of \<open>dhcpol_parse_packet\<close>.\<close>

definition parse_overloads :: "dhcp \<Rightarrow> dhcpol \<Rightarrow> dhcpol option" where
  "parse_overloads pkt options = do {
     found \<leftarrow> dhcpol_find options dhcptag_option_overload_e 0;
     case found of
       Some (overload, overload_len, _) \<Rightarrow>
         if overload_len = 1 then do {
           v \<leftarrow> rd overload 0;
           options1 \<leftarrow> (if v = DHCP_OVERLOAD_FILE \<or> v = DHCP_OVERLOAD_BOTH
              then parse_overload options (dp_file pkt @ dp_options pkt) sizeof_file
              else Some options);
           if v = DHCP_OVERLOAD_SNAME \<or> v = DHCP_OVERLOAD_BOTH
           then parse_overload options1 (dp_sname pkt @ dp_file pkt @ dp_options pkt) sizeof_sname
           else Some options1 }
         else Some options
     | None \<Rightarrow> Some options }"

definition dhcpol_parse_packet :: "dhcp \<Rightarrow> int \<Rightarrow> (dhcpo_err + dhcpol) option" where
  "dhcpol_parse_packet pkt len =
     (if 0 \<le> len \<and> len < sizeof_dhcp + int RFC_MAGIC_SIZE then Some (Inl (PacketTooShort len))
      else do {
        magic \<leftarrow> rdn (dp_options pkt) 0 RFC_MAGIC_SIZE;
        if magic \<noteq> rfc_magic then Some (Inl MissingMagic)
        else do {
          r \<leftarrow> dhcpol_parse_buffer (drop RFC_MAGIC_SIZE (dp_options pkt))
                 (len - sizeof_dhcp - int RFC_MAGIC_SIZE);
          case r of
            Inl e \<Rightarrow> Some (Inl e)
          | Inr options \<Rightarrow> map_option Inr (parse_overloads pkt options) } })"

text \<open>
  \<open>dhcpol_parse_vendor\<close>: the loop over the vendor-specific options, from index \<open>start\<close> on.
  A search restarts after the last hit, so the fuel \<open>dhcpol_count options + 1\<close> is enough
  (\<open>parse_vendor_loop_enough\<close>).
\<close>

fun parse_vendor_loop ::
  "nat \<Rightarrow> dhcpol \<Rightarrow> dhcpol \<Rightarrow> nat \<Rightarrow> bool \<Rightarrow> (dhcpo_err + dhcpol) option" where
  "parse_vendor_loop 0 options vendor start ret = None"
| "parse_vendor_loop (Suc fuel) options vendor start ret = do {
     found \<leftarrow> dhcpol_find options dhcptag_vendor_specific_e start;
     case found of
       None \<Rightarrow> Some (if ret then Inr vendor else Inl MissingVendorOptions)
     | Some (data, len, start') \<Rightarrow> do {
         r \<leftarrow> dhcpol_parse_buffer data len;
         case r of
           Inl e \<Rightarrow> Some (Inl e)
         | Inr extra \<Rightarrow> do {
             (ok, vendor') \<leftarrow> dhcpol_concat vendor extra;
             if ok then parse_vendor_loop fuel options vendor' start' True
             else Some (Inl (ConcatFailed start')) } } }"

definition dhcpol_parse_vendor :: "dhcpol \<Rightarrow> (dhcpo_err + dhcpol) option" where
  "dhcpol_parse_vendor options =
     parse_vendor_loop (Suc (dhcpol_count options)) options dhcpol_init 0 False"

fun dhcpol_count_params :: "dhcpol \<Rightarrow> u8 list \<Rightarrow> nat option" where
  "dhcpol_count_params options [] = Some 0"
| "dhcpol_count_params options (t # tags) = do {
     found \<leftarrow> dhcpol_find options (uint t) 0;
     n \<leftarrow> dhcpol_count_params options tags;
     Some ((if found \<noteq> None then 1 else 0) + n) }"

text \<open>\<open>is_dhcp_packet\<close> of \<open>bootplib/dhcplib.h\<close>: the message type, if there is one.\<close>

definition is_dhcp_packet :: "dhcpol \<Rightarrow> u8 option option" where
  "is_dhcp_packet options = do {
     found \<leftarrow> dhcpol_find options dhcptag_dhcp_message_type_e 0;
     case found of
       None \<Rightarrow> Some None
     | Some (opt, _, _) \<Rightarrow> map_option Some (rd opt 0) }"

end
