(* ===== verification/Subnets.thy ===== *)
theory Subnets
  imports DhcpOptions "HOL-Library.Multiset"
begin

text \<open>
  The subnets the server hands out addresses from (\<open>bootplib/subnets.c\<close>).

  A subnet list is the list of its subnets in order; the array that holds it is the one of theory
  DynArray.  A subnet is referred to by its index, which stands for the pointer the code passes
  around.  Creating a subnet from its property list is not modelled; \<open>subnet_ok\<close> states the checks
  \<open>SubnetCreateWithDictionary\<close> makes.

  Addresses are numbers (\<open>iptohl\<close>), so \<open>i++\<close> on an address is addition of 32-bit words and wraps
  around.  The test for an address in use is a callback that may change the server's state: it
  takes and returns a state of any type.
\<close>

section \<open>Subnets (subnets.c)\<close>

record ip_range =
  ir_start :: in_addr
  ir_end :: in_addr

record subnet =
  sn_name :: string
  sn_net_address :: in_addr
  sn_net_mask :: in_addr
  sn_net_range :: ip_range
  sn_allocate :: bool
  sn_lease_min :: u32
  sn_lease_max :: u32
  sn_nextip :: in_addr
  sn_supernet :: "string option"
  sn_options :: "(int \<times> u8 list) list"

type_synonym subnets = "subnet list"

definition DEFAULT_LEASE_MIN :: u32 where "DEFAULT_LEASE_MIN = 60 * 60"
definition DEFAULT_LEASE_MAX :: u32 where "DEFAULT_LEASE_MAX = 60 * 60 * 24"

text \<open>The result of the comparison and \<open>*overlap\<close>.\<close>

definition ip_range_compare :: "ip_range \<Rightarrow> ip_range \<Rightarrow> int \<times> bool" where
  "ip_range_compare a b =
     (if ir_start a = ir_start b then (0, True)
      else if ir_start a < ir_start b then (- 1, \<not> ir_end a < ir_start b)
      else (1, \<not> ir_end b < ir_start a))"

definition SubnetIsAddressOnSubnet :: "subnet \<Rightarrow> in_addr \<Rightarrow> bool" where
  "SubnetIsAddressOnSubnet s addr = in_subnet (sn_net_address s) (sn_net_mask s) addr"

definition SubnetIsAddressWithinRange :: "subnet \<Rightarrow> in_addr \<Rightarrow> bool" where
  "SubnetIsAddressWithinRange s ipaddr =
     (if \<not> SubnetIsAddressOnSubnet s ipaddr then False
      else if ipaddr < ir_start (sn_net_range s) \<or> ipaddr > ir_end (sn_net_range s) then False
      else True)"

definition SubnetCompareWithSubnet :: "subnet \<Rightarrow> subnet \<Rightarrow> int \<times> bool" where
  "SubnetCompareWithSubnet s1 s2 = ip_range_compare (sn_net_range s1) (sn_net_range s2)"

definition SubnetSameSupernetAsSubnet :: "subnet \<Rightarrow> subnet \<Rightarrow> bool" where
  "SubnetSameSupernetAsSubnet s1 s2 =
     (if sn_supernet s1 = None \<or> sn_supernet s2 = None then False
      else sn_supernet s1 = sn_supernet s2)"

definition SubnetDoesAllocate :: "subnet \<Rightarrow> bool" where
  "SubnetDoesAllocate s = sn_allocate s"

definition SubnetGetMaxLease :: "subnet \<Rightarrow> u32" where
  "SubnetGetMaxLease s = sn_lease_max s"

definition SubnetGetMinLease :: "subnet \<Rightarrow> u32" where
  "SubnetGetMinLease s = sn_lease_min s"

definition SubnetGetMask :: "subnet \<Rightarrow> in_addr" where
  "SubnetGetMask s = sn_net_mask s"

fun find_tlv :: "(int \<times> u8 list) list \<Rightarrow> int \<Rightarrow> u8 list option" where
  "find_tlv [] tag = None"
| "find_tlv ((t, v) # opts) tag = (if t = tag then Some v else find_tlv opts tag)"

text \<open>The pointer and length of an option's value: the bytes themselves.\<close>

definition SubnetGetOptionPtrAndLength :: "subnet \<Rightarrow> int \<Rightarrow> u8 list option" where
  "SubnetGetOptionPtrAndLength s tag =
     (if tag = dhcptag_subnet_mask_e then Some (net_uint32_bytes (sn_net_mask s))
      else find_tlv (sn_options s) tag)"

text \<open>
  \<open>SubnetSetLeaseMaxMin\<close> with the two numbers of the property list, \<open>None\<close> when one is missing or
  no number.
\<close>

definition SubnetSetLeaseMaxMin :: "subnet \<Rightarrow> u32 option \<Rightarrow> u32 option \<Rightarrow> subnet" where
  "SubnetSetLeaseMaxMin s lmax lmin =
     (let s1 = s\<lparr>sn_lease_max := (case lmax of Some l \<Rightarrow> l | None \<Rightarrow> DEFAULT_LEASE_MAX)\<rparr>;
          s2 = s1\<lparr>sn_lease_min := (case lmin of Some l \<Rightarrow> l | None \<Rightarrow> DEFAULT_LEASE_MIN)\<rparr>;
          s3 = (if sn_lease_min s2 \<le> 0 then s2\<lparr>sn_lease_min := DEFAULT_LEASE_MIN\<rparr> else s2)
      in if sn_lease_max s3 < sn_lease_min s3 then s3\<lparr>sn_lease_max := sn_lease_min s3\<rparr> else s3)"

section \<open>Acquiring an address (subnets.c)\<close>

text \<open>
  \<open>for (; i <= end; i++)\<close> with the callback.  The loop of the code does not end when every address
  up to 255.255.255.255 is in use, so it is a partial function: \<open>None\<close> is also the result of not
  returning.
\<close>

partial_function (option) acquire_loop ::
  "('s \<Rightarrow> in_addr \<Rightarrow> ('s \<times> bool) option) \<Rightarrow> 's \<Rightarrow> in_addr \<Rightarrow> in_addr \<Rightarrow> (in_addr option \<times> 's) option" where
  "acquire_loop func s i e =
     (if i \<le> e then
        Option.bind (func s i) (\<lambda>(s', used).
          if \<not> used then Some (Some i, s') else acquire_loop func s' (i + 1) e)
      else Some (None, s))"

declare acquire_loop.simps [code]

definition SubnetAcquireAddress ::
  "('s \<Rightarrow> in_addr \<Rightarrow> ('s \<times> bool) option) \<Rightarrow> 's \<Rightarrow> subnet \<Rightarrow> (in_addr option \<times> subnet \<times> 's) option" where
  "SubnetAcquireAddress func s sn =
     (if \<not> SubnetDoesAllocate sn then Some (None, sn, s)
      else
        let e = ir_end (sn_net_range sn);
            i = (if sn_nextip sn = e + 1 then ir_start (sn_net_range sn) else sn_nextip sn)
        in do {
          (r, s') \<leftarrow> acquire_loop func s i e;
          case r of
            Some ip \<Rightarrow> Some (Some ip, sn\<lparr>sn_nextip := ip\<rparr>, s')
          | None \<Rightarrow> Some (None, sn\<lparr>sn_nextip := e + 1\<rparr>, s') })"

section \<open>Subnet lists (subnets.c)\<close>

fun add_subnet_from :: "subnets \<Rightarrow> subnets \<Rightarrow> subnet \<Rightarrow> subnets option" where
  "add_subnet_from before [] new_entry = Some (before @ [new_entry])"
| "add_subnet_from before (entry # rest) new_entry =
     (let (c, overlap) = SubnetCompareWithSubnet new_entry entry in
      if overlap then None
      else if c < 0 then Some (before @ new_entry # entry # rest)
      else add_subnet_from (before @ [entry]) rest new_entry)"

definition SubnetListAddSubnet :: "subnets \<Rightarrow> subnet \<Rightarrow> subnets option" where
  "SubnetListAddSubnet subnets new_entry = add_subnet_from [] subnets new_entry"

fun find_index_from :: "nat \<Rightarrow> ('a \<Rightarrow> bool) \<Rightarrow> 'a list \<Rightarrow> nat option" where
  "find_index_from i P [] = None"
| "find_index_from i P (x # xs) = (if P x then Some i else find_index_from (i + 1) P xs)"

definition SubnetListGetSubnetForAddress :: "subnets \<Rightarrow> in_addr \<Rightarrow> bool \<Rightarrow> nat option" where
  "SubnetListGetSubnetForAddress subnets addr in_range =
     (let func = (if in_range then SubnetIsAddressWithinRange else SubnetIsAddressOnSubnet)
      in find_index_from 0 (\<lambda>entry. func entry addr) subnets)"

fun acquire_from ::
  "('s \<Rightarrow> in_addr \<Rightarrow> ('s \<times> bool) option) \<Rightarrow> 's \<Rightarrow> subnets \<Rightarrow> nat \<Rightarrow> in_addr \<Rightarrow> nat list \<Rightarrow>
   ((nat \<times> in_addr) option \<times> subnets \<times> 's) option" where
  "acquire_from func s subnets entry subnet_address [] = Some (None, subnets, s)"
| "acquire_from func s subnets entry subnet_address (i # is) =
     (let this_entry = subnets ! i in
      if i = entry \<or> SubnetIsAddressOnSubnet this_entry subnet_address
         \<or> SubnetSameSupernetAsSubnet this_entry (subnets ! entry)
      then do {
        (r, sn', s') \<leftarrow> SubnetAcquireAddress func s this_entry;
        case r of
          Some ip \<Rightarrow> Some (Some (i, ip), subnets[i := sn'], s')
        | None \<Rightarrow> acquire_from func s' (subnets[i := sn']) entry subnet_address is }
      else acquire_from func s subnets entry subnet_address is)"

text \<open>The result is the subnet and the address acquired from it.\<close>

definition SubnetListAcquireAddress ::
  "('s \<Rightarrow> in_addr \<Rightarrow> ('s \<times> bool) option) \<Rightarrow> 's \<Rightarrow> subnets \<Rightarrow> in_addr \<Rightarrow>
   ((nat \<times> in_addr) option \<times> subnets \<times> 's) option" where
  "SubnetListAcquireAddress func s subnets addr =
     (case SubnetListGetSubnetForAddress subnets addr False of
        None \<Rightarrow> Some (None, subnets, s)
      | Some entry \<Rightarrow> acquire_from func s subnets entry addr [0..<length subnets])"

definition SubnetListAreAddressesOnSameSupernet :: "subnets \<Rightarrow> in_addr \<Rightarrow> in_addr \<Rightarrow> bool" where
  "SubnetListAreAddressesOnSameSupernet subnets addr1 addr2 =
     (case (SubnetListGetSubnetForAddress subnets addr1 False,
            SubnetListGetSubnetForAddress subnets addr2 False) of
        (Some i, Some j) \<Rightarrow> i = j \<or> SubnetSameSupernetAsSubnet (subnets ! i) (subnets ! j)
      | _ \<Rightarrow> False)"

section \<open>What the callback keeps\<close>

text \<open>A property of its state that the callback keeps holds after the search.\<close>

lemma acquire_loop_keeps:
  assumes run: "acquire_loop func s i e = Some rs" and "P s"
    and keep: "\<And>s x s' u. P s \<Longrightarrow> func s x = Some (s', u) \<Longrightarrow> P s'"
  shows "P (snd rs)"
proof -
  define K where "K f s rs \<longleftrightarrow> ((\<forall>s x s' u. P s \<longrightarrow> f s x = Some (s', u) \<longrightarrow> P s') \<longrightarrow> P s \<longrightarrow> P (snd rs))"
    for f :: "'a \<Rightarrow> 32 word \<Rightarrow> ('a \<times> bool) option" and s and rs :: "32 word option \<times> 'a"
  have "K func s rs"
  proof (rule acquire_loop.raw_induct [of "\<lambda>f s i e rs. K f s rs", OF _ run])
    fix loop func s i e and rs :: "32 word option \<times> 'a"
    assume ih: "\<And>f s i e b. loop f s i e = Some b \<Longrightarrow> K f s b"
      and step: "(if i \<le> e
        then Option.bind (func s i) (\<lambda>(s', used). if \<not> used then Some (Some i, s') else loop func s' (i + 1) e)
        else Some (None, s)) = Some rs"
    show "K func s rs"
    proof (cases "i \<le> e")
      case False
      with step show ?thesis by (auto simp: K_def)
    next
      case True
      with step obtain s' used where f: "func s i = Some (s', used)"
        and r: "(if \<not> used then Some (Some i, s') else loop func s' (i + 1) e) = Some rs"
        by (auto simp: bind_eq_Some_conv)
      show ?thesis
      proof (cases used)
        case False
        with r have "snd rs = s'" by auto
        with f show ?thesis unfolding K_def by metis
      next
        case True
        with r have "K func s' rs" by (intro ih) simp
        with f show ?thesis unfolding K_def by blast
      qed
    qed
  qed
  then show ?thesis using assms(2) keep unfolding K_def by blast
qed

lemma SubnetAcquireAddress_keeps:
  assumes run: "SubnetAcquireAddress func s sn = Some (r, sn', s')" and P: "P s"
    and keep: "\<And>s x s' u. P s \<Longrightarrow> func s x = Some (s', u) \<Longrightarrow> P s'"
  shows "P s'"
proof (cases "SubnetDoesAllocate sn")
  case False
  with assms show ?thesis by (simp add: SubnetAcquireAddress_def)
next
  case True
  then obtain i e r0 where "acquire_loop func s i e = Some (r0, s')"
    using run unfolding SubnetAcquireAddress_def Let_def
    by (auto simp: bind_eq_Some_conv split: option.splits)
  from acquire_loop_keeps [of func s i e "(r0, s')" P, OF this P keep] show ?thesis by simp
qed

lemma acquire_from_keeps:
  assumes keep: "\<And>s x s' u. P s \<Longrightarrow> func s x = Some (s', u) \<Longrightarrow> P s'"
  shows "acquire_from func s subnets entry addr is = Some (r, subnets', s') \<Longrightarrow> P s \<Longrightarrow> P s'"
proof (induction "is" arbitrary: s subnets)
  case Nil
  then show ?case by simp
next
  case (Cons i "is")
  show ?case
  proof (cases "i = entry \<or> SubnetIsAddressOnSubnet (subnets ! i) addr \<or> SubnetSameSupernetAsSubnet (subnets ! i) (subnets ! entry)")
    case False
    with Cons show ?thesis by simp
  next
    case True
    with Cons.prems(1) obtain r0 sn' s1 where a: "SubnetAcquireAddress func s (subnets ! i) = Some (r0, sn', s1)"
      and rest: "(case r0 of Some ip \<Rightarrow> Some (Some (i, ip), subnets[i := sn'], s1)
        | None \<Rightarrow> acquire_from func s1 (subnets[i := sn']) entry addr is) = Some (r, subnets', s')"
      by (auto simp: Let_def bind_eq_Some_conv)
    have "P s1" using SubnetAcquireAddress_keeps [of func s "subnets ! i" r0 sn' s1 P, OF a Cons.prems(2) keep] .
    with rest Cons.IH show ?thesis by (cases r0) auto
  qed
qed

lemma SubnetListAcquireAddress_keeps:
  assumes keep: "\<And>s x s' u. P s \<Longrightarrow> func s x = Some (s', u) \<Longrightarrow> P s'"
    and run: "SubnetListAcquireAddress func s subnets addr = Some (r, subnets', s')" "P s"
  shows "P s'"
  using run acquire_from_keeps [of P func, OF keep]
  unfolding SubnetListAcquireAddress_def by (cases "SubnetListGetSubnetForAddress subnets addr False") auto

section \<open>Invariants\<close>

definition subnet_ok :: "subnet \<Rightarrow> bool" where
  "subnet_ok s \<longleftrightarrow>
     SubnetIsAddressOnSubnet s (ir_start (sn_net_range s)) \<and>
     SubnetIsAddressOnSubnet s (ir_end (sn_net_range s)) \<and>
     ir_start (sn_net_range s) \<le> ir_end (sn_net_range s) \<and>
     sn_lease_min s \<le> sn_lease_max s"

text \<open>Ranges in ascending order, none touching the next.\<close>

fun ranges_sorted :: "subnets \<Rightarrow> bool" where
  "ranges_sorted [] = True"
| "ranges_sorted (s # ss) =
     (list_all (\<lambda>t. ir_end (sn_net_range s) < ir_start (sn_net_range t)) ss \<and> ranges_sorted ss)"

definition range_le :: "subnet \<Rightarrow> bool" where
  "range_le s \<longleftrightarrow> ir_start (sn_net_range s) \<le> ir_end (sn_net_range s)"

lemma ranges_sorted_append:
  "ranges_sorted (xs @ ys) \<longleftrightarrow> ranges_sorted xs \<and> ranges_sorted ys \<and>
     (\<forall>x \<in> set xs. \<forall>y \<in> set ys. ir_end (sn_net_range x) < ir_start (sn_net_range y))"
  by (induction xs) (auto simp: list_all_iff)

lemma add_subnet_from_sorted:
  assumes "add_subnet_from before rest new = Some r" "ranges_sorted (before @ rest)" "range_le new" "list_all range_le (before @ rest)"
    and "\<forall>x \<in> set before. ir_end (sn_net_range x) < ir_start (sn_net_range new)"
  shows "ranges_sorted r \<and> mset r = add_mset new (mset (before @ rest)) \<and> list_all range_le r"
  using assms
proof (induction before rest new arbitrary: r rule: add_subnet_from.induct)
  case (1 before new)
  then show ?case by (auto simp: ranges_sorted_append)
next
  case (2 before entry rest new)
  obtain c overlap where co: "SubnetCompareWithSubnet new entry = (c, overlap)" by fastforce
  have no: "\<not> overlap" using 2(2) co by (auto split: if_splits)
  show ?case
  proof (cases "c < 0")
    case True
    then have r: "r = before @ new # entry # rest" using 2(2) co no by simp
    have lt: "ir_end (sn_net_range new) < ir_start (sn_net_range entry)"
      using co True no by (auto simp: SubnetCompareWithSubnet_def ip_range_compare_def split: if_splits)
    have "ir_end (sn_net_range new) < ir_start (sn_net_range t)" if "t \<in> set rest" for t
    proof -
      have "ir_end (sn_net_range entry) < ir_start (sn_net_range t)" "ir_start (sn_net_range entry) \<le> ir_end (sn_net_range entry)"
        using 2(3,5) that by (auto simp: ranges_sorted_append list_all_iff range_le_def)
      with lt show ?thesis by order
    qed
    with lt 2 show ?thesis by (auto simp: r ranges_sorted_append list_all_iff)
  next
    case False
    have lt: "ir_end (sn_net_range entry) < ir_start (sn_net_range new)"
      using co False no by (auto simp: SubnetCompareWithSubnet_def ip_range_compare_def split: if_splits)
    have "add_subnet_from (before @ [entry]) rest new = Some r" using 2(2) co no False by simp
    with 2(1) [OF co [symmetric] refl no False] 2(3-6) lt show ?thesis by simp
  qed
qed

section \<open>The search for a free address\<close>

text \<open>What a returned address satisfies, whatever the callback does.\<close>

definition sound_result ::
  "('s \<Rightarrow> in_addr \<Rightarrow> ('s \<times> bool) option) \<Rightarrow> in_addr \<Rightarrow> in_addr option \<times> 's \<Rightarrow> bool" where
  "sound_result func e rs \<longleftrightarrow>
     (case rs of
        (Some ip, s') \<Rightarrow> ip \<le> e \<and> (\<exists>s1. func s1 ip = Some (s', False))
      | (None, s') \<Rightarrow> \<exists>i. \<not> i \<le> e)"

lemma acquire_loop_sound:
  "acquire_loop func s i e = Some rs \<Longrightarrow> sound_result func e rs"
proof (rule acquire_loop.raw_induct [of "\<lambda>func s i e rs. sound_result func e rs"])
  fix loop func s i e rs
  assume ih: "\<And>f s i e b. loop f s i e = Some b \<Longrightarrow> sound_result f e b"
    and step: "(if i \<le> e
      then Option.bind (func s i) (\<lambda>(s', used). if \<not> used then Some (Some i, s') else loop func s' (i + 1) e)
      else Some (None, s)) = Some rs"
  show "sound_result func e rs"
  proof (cases "i \<le> e")
    case False
    with step show ?thesis by (auto simp: sound_result_def)
  next
    case True
    with step obtain s1 used where f: "func s i = Some (s1, used)"
        "(if \<not> used then Some (Some i, s1) else loop func s1 (i + 1) e) = Some rs"
      by (auto simp: bind_eq_Some_conv)
    show ?thesis
    proof (cases used)
      case True
      with f ih show ?thesis by simp
    next
      case False
      with f True show ?thesis by (auto simp: sound_result_def)
    qed
  qed
qed

lemma word_Suc_le:
  assumes "i \<le> (e :: u32)" "e < - 1"
  shows "i < i + 1" "unat (i + 1) = Suc (unat i)"
proof -
  have "i \<noteq> - 1" using assms by auto
  then have "1 + i \<noteq> 0" by (metis add.commute add_eq_0_iff)
  then show "unat (i + 1) = Suc (unat i)"
    by (metis add.commute unatSuc)
  then show "i < i + 1" by (simp add: word_less_nat_alt)
qed

text \<open>The loop ends when its bound is below 255.255.255.255, and then misses no address.\<close>

lemma acquire_loop_total:
  assumes total: "\<And>s x. func s x \<noteq> None" and e: "e < - 1"
  shows "\<exists>r s'. acquire_loop func s i e = Some (r, s') \<and>
     (r = None \<longrightarrow> (\<forall>x. i \<le> x \<and> x \<le> e \<longrightarrow> (\<exists>s1 s2. func s1 x = Some (s2, True)))) \<and>
     (\<forall>ip. r = Some ip \<longrightarrow> i \<le> ip)"
proof (induction "unat e + 1 - unat i" arbitrary: i s rule: less_induct)
  case less
  show ?case
  proof (cases "i \<le> e")
    case False
    then have "acquire_loop func s i e = Some (None, s)" by (subst acquire_loop.simps) simp
    with False show ?thesis by auto
  next
    case True
    obtain s1 used where f: "func s i = Some (s1, used)" using total by fastforce
    show ?thesis
    proof (cases used)
      case False
      with f True have "acquire_loop func s i e = Some (Some i, s1)" by (subst acquire_loop.simps) simp
      then show ?thesis by auto
    next
      case used: True
      have step: "acquire_loop func s i e = acquire_loop func s1 (i + 1) e"
        using f True used by (subst acquire_loop.simps) simp
      note w = word_Suc_le [OF True e]
      have "unat e + 1 - unat (i + 1) < unat e + 1 - unat i"
        using True w(2) by (simp add: word_le_nat_alt)
      from less [OF this, of s1] obtain r s' where ih: "acquire_loop func s1 (i + 1) e = Some (r, s')"
          "r = None \<Longrightarrow> \<forall>x. i + 1 \<le> x \<and> x \<le> e \<longrightarrow> (\<exists>s1 s2. func s1 x = Some (s2, True))"
          "\<And>ip. r = Some ip \<Longrightarrow> i + 1 \<le> ip"
        by blast
      have all: "\<exists>s1 s2. func s1 x = Some (s2, True)" if "r = None" "i \<le> x" "x \<le> e" for x
      proof (cases "x = i")
        case True
        then show ?thesis using f used by auto
      next
        case False
        then have "i + 1 \<le> x" using that(2) by (simp add: inc_le)
        with ih(2) that show ?thesis by blast
      qed
      have "i \<le> ip" if "r = Some ip" for ip
        using ih(3) [OF that] w(1) by order
      with all ih(1) step show ?thesis by auto
    qed
  qed
qed

text \<open>With the last address of all in range, a search that finds everything in use never ends.\<close>

lemma acquire_loop_diverges:
  assumes "\<And>s x. func s x = Some (g s x, True)"
  shows "acquire_loop func s i (- 1) = None"
proof (rule ccontr)
  assume "acquire_loop func s i (- 1) \<noteq> None"
  then obtain r s' where "acquire_loop func s i (- 1) = Some (r, s')" by fastforce
  from acquire_loop_sound [OF this] assms show False
    by (auto simp: sound_result_def split: option.splits)
qed

section \<open>Acquiring from a subnet and from a list\<close>

lemma SubnetAcquireAddress_ok:
  assumes total: "\<And>s x. func s x \<noteq> None" and ok: "subnet_ok sn" "ir_end (sn_net_range sn) < - 1"
    and nx: "ir_start (sn_net_range sn) \<le> sn_nextip sn"
  obtains r sn' s' where "SubnetAcquireAddress func s sn = Some (r, sn', s')"
    "sn_net_range sn' = sn_net_range sn" "sn_net_address sn' = sn_net_address sn" "sn_net_mask sn' = sn_net_mask sn"
    "subnet_ok sn'" "ir_start (sn_net_range sn') \<le> sn_nextip sn'"
    "\<And>ip. r = Some ip \<Longrightarrow> ir_start (sn_net_range sn) \<le> ip \<and> ip \<le> ir_end (sn_net_range sn) \<and>
       sn_allocate sn \<and> (\<exists>s1. func s1 ip = Some (s', False))"
    "r = None \<Longrightarrow> sn_allocate sn \<Longrightarrow> sn_nextip sn = ir_start (sn_net_range sn) \<or> sn_nextip sn = ir_end (sn_net_range sn) + 1 \<Longrightarrow>
       \<forall>x. ir_start (sn_net_range sn) \<le> x \<and> x \<le> ir_end (sn_net_range sn) \<longrightarrow> (\<exists>s1 s2. func s1 x = Some (s2, True))"
proof (cases "sn_allocate sn")
  case False
  with ok nx show ?thesis
    by (intro that [of None sn s]) (simp_all add: SubnetAcquireAddress_def SubnetDoesAllocate_def)
next
  case True
  let ?e = "ir_end (sn_net_range sn)" and ?b = "ir_start (sn_net_range sn)"
  let ?i = "if sn_nextip sn = ?e + 1 then ?b else sn_nextip sn"
  obtain r s' where l: "acquire_loop func s ?i ?e = Some (r, s')"
      "r = None \<Longrightarrow> \<forall>x. ?i \<le> x \<and> x \<le> ?e \<longrightarrow> (\<exists>s1 s2. func s1 x = Some (s2, True))"
      "\<And>ip. r = Some ip \<Longrightarrow> ?i \<le> ip"
    using acquire_loop_total [of func ?e s ?i, OF total ok(2)] by blast
  have bi: "?b \<le> ?i" using nx by auto
  have be: "?b \<le> ?e" using ok(1) by (simp add: subnet_ok_def)
  show ?thesis
  proof (cases r)
    case None
    have b1: "?b \<le> ?e + 1" using word_Suc_le(1) [OF order_refl ok(2)] be by order
    have all: "\<forall>x. ?b \<le> x \<and> x \<le> ?e \<longrightarrow> (\<exists>s1 s2. func s1 x = Some (s2, True))" if "sn_nextip sn = ?b \<or> sn_nextip sn = ?e + 1"
    proof -
      have "?i = ?b" using that by auto
      with l(2) [OF None] show ?thesis by simp
    qed
    have eq: "SubnetAcquireAddress func s sn = Some (None, sn\<lparr>sn_nextip := ?e + 1\<rparr>, s')"
      using None True l(1) by (simp add: SubnetAcquireAddress_def SubnetDoesAllocate_def Let_def)
    show ?thesis
      by (rule that [OF eq]) (use ok b1 all None in \<open>auto simp: subnet_ok_def SubnetIsAddressOnSubnet_def\<close>)
  next
    case (Some ip)
    from acquire_loop_sound [OF l(1)] have ip: "ip \<le> ?e" "\<exists>s1. func s1 ip = Some (s', False)"
      by (auto simp: sound_result_def Some)
    have "?b \<le> ip" using l(3) [OF Some] bi by order
    with Some True l(1) ok ip show ?thesis
      by (intro that [of "Some ip" "sn\<lparr>sn_nextip := ip\<rparr>" s'])
        (auto simp: SubnetAcquireAddress_def SubnetDoesAllocate_def Let_def subnet_ok_def SubnetIsAddressOnSubnet_def)
  qed
qed

text \<open>
  \<open>pool_ok\<close>: what the search needs of a subnet.  The position of the next address to try is never
  below the range, and the range does not include 255.255.255.255.
\<close>

definition pool_ok :: "subnet \<Rightarrow> bool" where
  "pool_ok sn \<longleftrightarrow> subnet_ok sn \<and> ir_end (sn_net_range sn) < - 1 \<and> ir_start (sn_net_range sn) \<le> sn_nextip sn"

definition same_net :: "subnets \<Rightarrow> nat \<Rightarrow> in_addr \<Rightarrow> nat \<Rightarrow> bool" where
  "same_net subnets entry addr i \<longleftrightarrow>
     i = entry \<or> SubnetIsAddressOnSubnet (subnets ! i) addr \<or> SubnetSameSupernetAsSubnet (subnets ! i) (subnets ! entry)"

text \<open>The parts of a subnet a search does not change.\<close>

definition fixed_part :: "subnet \<Rightarrow> subnet" where
  "fixed_part sn = sn\<lparr>sn_nextip := 0\<rparr>"

lemma SubnetAcquireAddress_fixed:
  "SubnetAcquireAddress func s sn = Some (r, sn', s') \<Longrightarrow> fixed_part sn' = fixed_part sn"
  by (auto simp: SubnetAcquireAddress_def Let_def fixed_part_def bind_eq_Some_conv split: if_splits option.splits)

lemma fixed_partD:
  assumes "fixed_part a = fixed_part b"
  shows "sn_net_range a = sn_net_range b" "sn_net_address a = sn_net_address b" "sn_net_mask a = sn_net_mask b"
    "sn_supernet a = sn_supernet b" "sn_allocate a = sn_allocate b" "sn_lease_max a = sn_lease_max b"
    "sn_lease_min a = sn_lease_min b" "sn_options a = sn_options b" "sn_name a = sn_name b"
  using assms by (cases a; cases b; simp add: fixed_part_def)+

lemma fixed_map_nth: "map fixed_part xs = map fixed_part ys \<Longrightarrow> i < length xs \<Longrightarrow> fixed_part (xs ! i) = fixed_part (ys ! i)"
  by (metis length_map nth_map)

lemma same_net_fixed:
  assumes "map fixed_part xs = map fixed_part ys" "i < length xs" "entry < length xs"
  shows "same_net xs entry addr i = same_net ys entry addr i"
  using fixed_partD [OF fixed_map_nth [OF assms(1,2)]] fixed_partD [OF fixed_map_nth [OF assms(1,3)]]
  by (simp add: same_net_def SubnetIsAddressOnSubnet_def SubnetSameSupernetAsSubnet_def)

lemma range_nonwrap: "ir_start r \<le> ip \<Longrightarrow> ip \<le> ir_end r \<Longrightarrow> \<not> (ip < ir_start r \<or> ip > ir_end r)"
  by auto

lemma acquire_from_ok:
  assumes total: "\<And>s x. func s x \<noteq> None"
  shows "list_all pool_ok subnets \<Longrightarrow> entry < length subnets \<Longrightarrow> \<forall>i \<in> set is. i < length subnets \<Longrightarrow>
    \<exists>r subnets' s'. acquire_from func s subnets entry addr is = Some (r, subnets', s') \<and>
      list_all pool_ok subnets' \<and> map fixed_part subnets' = map fixed_part subnets \<and>
      (\<forall>i ip. r = Some (i, ip) \<longrightarrow> i \<in> set is \<and> same_net subnets entry addr i \<and> sn_allocate (subnets ! i) \<and>
         ir_start (sn_net_range (subnets ! i)) \<le> ip \<and> ip \<le> ir_end (sn_net_range (subnets ! i)) \<and>
         (\<exists>s1. func s1 ip = Some (s', False)))"
proof (induction "is" arbitrary: s subnets)
  case Nil
  then show ?case by simp
next
  case (Cons i "is")
  have i: "i < length subnets" using Cons.prems(3) by simp
  show ?case
  proof (cases "same_net subnets entry addr i")
    case False
    then have "acquire_from func s subnets entry addr (i # is) = acquire_from func s subnets entry addr is"
      by (auto simp: same_net_def Let_def)
    moreover obtain r subnets' s' where "acquire_from func s subnets entry addr is = Some (r, subnets', s')"
        "list_all pool_ok subnets'" "map fixed_part subnets' = map fixed_part subnets"
        "\<forall>i ip. r = Some (i, ip) \<longrightarrow> i \<in> set is \<and> same_net subnets entry addr i \<and> sn_allocate (subnets ! i) \<and>
         ir_start (sn_net_range (subnets ! i)) \<le> ip \<and> ip \<le> ir_end (sn_net_range (subnets ! i)) \<and>
         (\<exists>s1. func s1 ip = Some (s', False))"
      using Cons.IH [of subnets s] Cons.prems by auto
    ultimately show ?thesis by auto
  next
    case True
    let ?sn = "subnets ! i"
    have "pool_ok ?sn" using Cons.prems(1) i by (simp add: list_all_length)
    then have p: "subnet_ok ?sn" "ir_end (sn_net_range ?sn) < - 1" "ir_start (sn_net_range ?sn) \<le> sn_nextip ?sn"
      by (auto simp: pool_ok_def)
    obtain r sn' s' where a: "SubnetAcquireAddress func s ?sn = Some (r, sn', s')"
        "sn_net_range sn' = sn_net_range ?sn" "subnet_ok sn'" "ir_start (sn_net_range sn') \<le> sn_nextip sn'"
        "\<And>ip. r = Some ip \<Longrightarrow> ir_start (sn_net_range ?sn) \<le> ip \<and> ip \<le> ir_end (sn_net_range ?sn) \<and>
           sn_allocate ?sn \<and> (\<exists>s1. func s1 ip = Some (s', False))"
      by (rule SubnetAcquireAddress_ok [of func ?sn s, OF total p]) blast
    let ?ss = "subnets[i := sn']"
    have fx: "map fixed_part ?ss = map fixed_part subnets"
      using SubnetAcquireAddress_fixed [OF a(1)] i by (simp add: map_update list_update_id nth_map) (metis list_update_id nth_map)
    have ok: "list_all pool_ok ?ss"
    proof -
      have "pool_ok sn'" using a p by (simp add: pool_ok_def)
      with Cons.prems(1) show ?thesis by (auto simp: list_all_iff dest: set_update_subset_insert [THEN subsetD])
    qed
    have step: "acquire_from func s subnets entry addr (i # is) =
        (case r of Some ip \<Rightarrow> Some (Some (i, ip), ?ss, s') | None \<Rightarrow> acquire_from func s' ?ss entry addr is)"
      using True a(1) by (simp add: same_net_def Let_def)
    show ?thesis
    proof (cases r)
      case (Some ip)
      with step ok fx a(5) True show ?thesis by simp
    next
      case None
      obtain r2 ss2 s2 where ih: "acquire_from func s' ?ss entry addr is = Some (r2, ss2, s2)"
          "list_all pool_ok ss2" "map fixed_part ss2 = map fixed_part ?ss"
          "\<forall>j ip. r2 = Some (j, ip) \<longrightarrow> j \<in> set is \<and> same_net ?ss entry addr j \<and> sn_allocate (?ss ! j) \<and>
           ir_start (sn_net_range (?ss ! j)) \<le> ip \<and> ip \<le> ir_end (sn_net_range (?ss ! j)) \<and>
           (\<exists>s1. func s1 ip = Some (s2, False))"
        using Cons.IH [of ?ss s'] ok Cons.prems by auto
      have same: "same_net ?ss entry addr j = same_net subnets entry addr j" "sn_allocate (?ss ! j) = sn_allocate (subnets ! j)"
          "sn_net_range (?ss ! j) = sn_net_range (subnets ! j)" if "j \<in> set is" for j
      proof -
        have j: "j < length ?ss" using Cons.prems(3) that by simp
        show "same_net ?ss entry addr j = same_net subnets entry addr j"
          using same_net_fixed [OF fx j] Cons.prems(2) by simp
        show "sn_allocate (?ss ! j) = sn_allocate (subnets ! j)" "sn_net_range (?ss ! j) = sn_net_range (subnets ! j)"
          using fixed_partD [OF fixed_map_nth [OF fx j]] by simp_all
      qed
      have res: "\<forall>j ip. r2 = Some (j, ip) \<longrightarrow> j \<in> set (i # is) \<and> same_net subnets entry addr j \<and> sn_allocate (subnets ! j) \<and>
           ir_start (sn_net_range (subnets ! j)) \<le> ip \<and> ip \<le> ir_end (sn_net_range (subnets ! j)) \<and>
           (\<exists>s1. func s1 ip = Some (s2, False))"
        using ih(4) same by (metis list.set_intros(2))
      show ?thesis
        using step None ih(1,2,3) fx res by (intro exI [of _ r2] exI [of _ ss2] exI [of _ s2]) simp
    qed
  qed
qed

lemma find_index_from_Some:
  "find_index_from k P xs = Some i \<longleftrightarrow> k \<le> i \<and> i < k + length xs \<and> P (xs ! (i - k)) \<and> (\<forall>j < i - k. \<not> P (xs ! j))"
proof (induction xs arbitrary: k)
  case Nil
  then show ?case by auto
next
  case (Cons x xs)
  show ?case
  proof (cases "P x")
    case True
    then show ?thesis
      by (auto; metis True not_gr_zero nth_Cons_0 diff_is_0_eq' le_antisym zero_less_diff nat_less_le)
  next
    case False
    have "k + 1 \<le> i \<and> i < k + 1 + length xs \<and> P (xs ! (i - (k + 1))) \<and> (\<forall>j < i - (k + 1). \<not> P (xs ! j)) \<longleftrightarrow>
       k \<le> i \<and> i < k + length (x # xs) \<and> P ((x # xs) ! (i - k)) \<and> (\<forall>j < i - k. \<not> P ((x # xs) ! j))"
    proof (cases "k < i")
      case True
      then obtain n where "i = k + Suc n" using less_imp_Suc_add by force
      with False show ?thesis by (auto simp: less_Suc_eq_0_disj)
    next
      case False': False
      with False show ?thesis by (cases "i = k") auto
    qed
    with Cons.IH [of "k + 1"] False show ?thesis by simp
  qed
qed

section \<open>Properties\<close>

lemma SubnetListAcquireAddress_ok:
  assumes "\<And>s x. func s x \<noteq> None" and "list_all pool_ok subnets"
  shows "\<exists>r subnets' s'. SubnetListAcquireAddress func s subnets addr = Some (r, subnets', s') \<and>
     list_all pool_ok subnets' \<and> map fixed_part subnets' = map fixed_part subnets \<and>
     (\<forall>i ip. r = Some (i, ip) \<longrightarrow>
        (\<exists>entry. SubnetListGetSubnetForAddress subnets addr False = Some entry \<and> same_net subnets entry addr i) \<and>
        i < length subnets \<and> sn_allocate (subnets ! i) \<and>
        ir_start (sn_net_range (subnets ! i)) \<le> ip \<and> ip \<le> ir_end (sn_net_range (subnets ! i)) \<and>
        (\<exists>s1. func s1 ip = Some (s', False)))"
proof (cases "SubnetListGetSubnetForAddress subnets addr False")
  case None
  then show ?thesis using assms(2) by (simp add: SubnetListAcquireAddress_def)
next
  case (Some entry)
  then have e: "entry < length subnets"
    by (auto simp: SubnetListGetSubnetForAddress_def find_index_from_Some)
  have "\<forall>i \<in> set [0..<length subnets]. i < length subnets" by simp
  from acquire_from_ok [where func = func and s = s and addr = addr, OF assms e this] obtain r subnets' s' where
      "acquire_from func s subnets entry addr [0..<length subnets] = Some (r, subnets', s')"
      "list_all pool_ok subnets'" "map fixed_part subnets' = map fixed_part subnets"
      "\<forall>i ip. r = Some (i, ip) \<longrightarrow> i \<in> set [0..<length subnets] \<and> same_net subnets entry addr i \<and> sn_allocate (subnets ! i) \<and>
         ir_start (sn_net_range (subnets ! i)) \<le> ip \<and> ip \<le> ir_end (sn_net_range (subnets ! i)) \<and>
         (\<exists>s1. func s1 ip = Some (s', False))"
    by blast
  with Some show ?thesis
    by (intro exI [of _ r] exI [of _ subnets'] exI [of _ s']) (simp add: SubnetListAcquireAddress_def)
qed

definition pool_a :: subnet where
  "pool_a = \<lparr>sn_name = ''a'', sn_net_address = 0x0a000000, sn_net_mask = 0xffffff00,
     sn_net_range = \<lparr>ir_start = 0x0a000005, ir_end = 0x0a000006\<rparr>, sn_allocate = True, sn_lease_min = 3600,
     sn_lease_max = 86400, sn_nextip = 0x0a000005, sn_supernet = None, sn_options = []\<rparr>"

definition pool_b :: subnet where
  "pool_b = \<lparr>sn_name = ''b'', sn_net_address = 0x0a000100, sn_net_mask = 0xffffff00,
     sn_net_range = \<lparr>ir_start = 0x0a000102, ir_end = 0x0a000103\<rparr>, sn_allocate = True, sn_lease_min = 3600,
     sn_lease_max = 86400, sn_nextip = 0x0a000102, sn_supernet = None, sn_options = []\<rparr>"

text \<open>C33. A list built by adding subnets stays sorted by range with no two ranges overlapping, and
  an addition keeps every subnet and adds the new one, or is refused.\<close>

theorem subnet_list_stays_sorted:
  assumes "SubnetListAddSubnet subnets new = Some subnets'" "ranges_sorted subnets" "list_all range_le subnets" "range_le new"
  shows "ranges_sorted subnets' \<and> mset subnets' = add_mset new (mset subnets) \<and> list_all range_le subnets'"
  using add_subnet_from_sorted [of "[]" subnets new subnets'] assms by (simp add: SubnetListAddSubnet_def)

theorem subnet_list_stays_sorted_witness:
  "ranges_sorted [pool_a, pool_b] \<and> mset [pool_a, pool_b] = add_mset pool_a (mset [pool_b])"
proof -
  have "SubnetListAddSubnet [pool_b] pool_a = Some [pool_a, pool_b]"
    by (simp add: SubnetListAddSubnet_def SubnetCompareWithSubnet_def ip_range_compare_def pool_a_def pool_b_def)
  moreover have "ranges_sorted [pool_b]" by simp
  moreover have "list_all range_le [pool_b]" "range_le pool_a" by (simp_all add: range_le_def pool_a_def pool_b_def)
  ultimately show ?thesis using subnet_list_stays_sorted by blast
qed

text \<open>C32. Acquiring an address ends, and the address it returns was reported free last, lies in the
  range of an allocating subnet of the same network or supernet, and every subnet keeps its range
  and settings.\<close>

theorem acquire_gives_free_address:
  assumes "\<And>s x. func s x \<noteq> None" and "list_all pool_ok subnets"
  shows "\<exists>r subnets' s'. SubnetListAcquireAddress func s subnets addr = Some (r, subnets', s') \<and>
     list_all pool_ok subnets' \<and> map fixed_part subnets' = map fixed_part subnets \<and>
     (\<forall>i ip. r = Some (i, ip) \<longrightarrow>
        (\<exists>entry. SubnetListGetSubnetForAddress subnets addr False = Some entry \<and> same_net subnets entry addr i) \<and>
        i < length subnets \<and> sn_allocate (subnets ! i) \<and>
        ir_start (sn_net_range (subnets ! i)) \<le> ip \<and> ip \<le> ir_end (sn_net_range (subnets ! i)) \<and>
        (\<exists>s1. func s1 ip = Some (s', False)))"
  using SubnetListAcquireAddress_ok [where func = func, OF assms] .

theorem acquire_gives_free_address_witness:
  "\<exists>r subnets' s'. SubnetListAcquireAddress (\<lambda>n x. Some (n + 1, x = 0x0a000005)) (0 :: nat) [pool_a, pool_b] 0x0a000000 =
      Some (r, subnets', s') \<and> list_all pool_ok subnets'"
proof -
  have "list_all pool_ok [pool_a, pool_b]"
    by (simp add: pool_ok_def subnet_ok_def SubnetIsAddressOnSubnet_def in_subnet_def pool_a_def pool_b_def)
  from acquire_gives_free_address [of "\<lambda>n x. Some (n + 1, x = 0x0a000005)", OF _ this, of "0 :: nat" "0x0a000000"]
  show ?thesis by blast
qed

text \<open>When a range ends at 255.255.255.255 and every address is in use, the search never
  returns: the loop variable wraps around to zero.\<close>

theorem acquire_wraps_forever:
  "\<exists>sn. subnet_ok sn \<and> sn_allocate sn \<and> SubnetAcquireAddress (\<lambda>s x. Some (s, True)) () sn = None"
proof -
  let ?sn = "pool_a\<lparr>sn_net_mask := 0, sn_net_address := 0, sn_net_range := \<lparr>ir_start = 0xfffffff0, ir_end = 0xffffffff\<rparr>,
     sn_nextip := 0xfffffff0\<rparr>"
  have "(- 1 :: u32) = 0xffffffff" by simp
  then have "acquire_loop (\<lambda>s x. Some (s, True)) () 0xfffffff0 0xffffffff = None"
    using acquire_loop_diverges [of "\<lambda>s x. Some (s, True)" "\<lambda>s x. s" "()" "0xfffffff0"] by metis
  then have "SubnetAcquireAddress (\<lambda>s x. Some (s, True)) () ?sn = None"
    by (simp add: SubnetAcquireAddress_def SubnetDoesAllocate_def pool_a_def)
  moreover have "subnet_ok ?sn" "sn_allocate ?sn"
    by (simp_all add: subnet_ok_def SubnetIsAddressOnSubnet_def in_subnet_def pool_a_def)
  ultimately show ?thesis by blast
qed

end
