(* ===== verification/Interfaces.thy ===== *)
theory Interfaces
  imports DynArray HostList Subnets
begin

text \<open>
  Network interfaces and the questions the server asks about them: the address list of
  \<open>bootplib/interfaces.c\<close>, \<open>ip_address_reachable\<close>, \<open>subnet_match\<close> and the service switches of
  \<open>bootpd.tproj/bootpd.c\<close>.

  An interface has the fields that are read; its addresses are a \<open>dynarray\<close> as in the code, and
  taking the first address of an interface that has none is a null dereference where the code does
  not check.  A route through a link has the index of its interface, one through a gateway has none.
\<close>

section \<open>Interfaces (interfaces.c)\<close>

record inet_addrinfo =
  ia_addr :: in_addr
  ia_mask :: in_addr
  ia_netaddr :: in_addr
  ia_broadcast :: in_addr

record intf =
  if_name :: string
  if_inet :: "inet_addrinfo dynarray"
  if_link_index :: nat
  if_user_defined :: u32

definition if_inet_count :: "intf \<Rightarrow> nat" where
  "if_inet_count ifp = dynarray_count (if_inet ifp)"

definition if_inet_valid :: "intf \<Rightarrow> bool" where
  "if_inet_valid ifp \<longleftrightarrow> dynarray_count (if_inet ifp) > 0"

definition if_inet_addr_at :: "intf \<Rightarrow> int \<Rightarrow> inet_addrinfo option option" where
  "if_inet_addr_at ifp i = dynarray_element (if_inet ifp) i"

definition if_inet_addr :: "intf \<Rightarrow> in_addr option" where
  "if_inet_addr ifp =
     map_option (\<lambda>info. case info of None \<Rightarrow> 0 | Some i \<Rightarrow> ia_addr i) (if_inet_addr_at ifp 0)"

definition if_inet_netmask :: "intf \<Rightarrow> in_addr option" where
  "if_inet_netmask ifp = do { info \<leftarrow> if_inet_addr_at ifp 0; map_option ia_mask info }"

definition if_inet_netaddr :: "intf \<Rightarrow> in_addr option" where
  "if_inet_netaddr ifp = do { info \<leftarrow> if_inet_addr_at ifp 0; map_option ia_netaddr info }"

definition if_inet_broadcast :: "intf \<Rightarrow> in_addr option" where
  "if_inet_broadcast ifp = do { info \<leftarrow> if_inet_addr_at ifp 0; map_option ia_broadcast info }"

fun match_subnet_from :: "nat \<Rightarrow> intf \<Rightarrow> in_addr \<Rightarrow> nat \<Rightarrow> nat option option" where
  "match_subnet_from 0 ifp match i = Some None"
| "match_subnet_from (Suc n) ifp match i = do {
     info \<leftarrow> if_inet_addr_at ifp (int i);
     a \<leftarrow> info;
     if in_subnet (ia_netaddr a) (ia_mask a) match then Some (Some i)
     else match_subnet_from n ifp match (i + 1) }"

text \<open>\<open>INDEX_BAD\<close> is \<open>None\<close>.\<close>

definition if_inet_match_subnet :: "intf \<Rightarrow> in_addr \<Rightarrow> nat option option" where
  "if_inet_match_subnet ifp match = match_subnet_from (if_inet_count ifp) ifp match 0"

definition if_inet_addr_best_match :: "intf \<Rightarrow> in_addr \<Rightarrow> in_addr option" where
  "if_inet_addr_best_match ifp match = do {
     whr \<leftarrow> if_inet_match_subnet ifp match;
     case whr of
       None \<Rightarrow> if_inet_addr ifp
     | Some i \<Rightarrow> do { info \<leftarrow> if_inet_addr_at ifp (int i); map_option ia_addr info } }"

fun has_ip :: "nat \<Rightarrow> intf \<Rightarrow> in_addr \<Rightarrow> nat \<Rightarrow> bool option" where
  "has_ip 0 ifp iaddr j = Some False"
| "has_ip (Suc n) ifp iaddr j = do {
     info \<leftarrow> if_inet_addr_at ifp (int j);
     a \<leftarrow> info;
     if ia_addr a = iaddr then Some True else has_ip n ifp iaddr (j + 1) }"

fun ifl_find_ip :: "intf list \<Rightarrow> in_addr \<Rightarrow> intf option option" where
  "ifl_find_ip [] iaddr = Some None"
| "ifl_find_ip (ifp # ifs) iaddr = do {
     b \<leftarrow> has_ip (if_inet_count ifp) ifp iaddr 0;
     if b then Some (Some ifp) else ifl_find_ip ifs iaddr }"

fun ifl_find_name :: "intf list \<Rightarrow> string \<Rightarrow> intf option" where
  "ifl_find_name [] nm = None"
| "ifl_find_name (ifp # ifs) nm = (if if_name ifp = nm then Some ifp else ifl_find_name ifs nm)"

section \<open>Reachability (bootpd.c)\<close>

record inetroute =
  ir_dest :: in_addr
  ir_mask :: in_addr
  ir_link :: "nat option"

text \<open>The server's tables: \<open>subnets\<close> (\<open>None\<close> when null) and the routes \<open>S_inetroutes\<close>.\<close>

fun route_match :: "inetroute list \<Rightarrow> nat \<Rightarrow> in_addr \<Rightarrow> bool" where
  "route_match [] if_index ip = False"
| "route_match (r # rs) if_index ip =
     (if ir_link r = Some if_index \<and> ir_mask r \<noteq> 0 \<and> in_subnet (ir_dest r) (ir_mask r) ip then True
      else route_match rs if_index ip)"

definition ip_address_reachable ::
  "subnets option \<Rightarrow> inetroute list \<Rightarrow> in_addr \<Rightarrow> in_addr \<Rightarrow> intf \<Rightarrow> bool option" where
  "ip_address_reachable subnets routes ip giaddr ifp =
     (if giaddr \<noteq> 0 then
        (case subnets of
           None \<Rightarrow> Some False
         | Some sns \<Rightarrow> Some (SubnetListAreAddressesOnSameSupernet sns ip giaddr))
      else do {
        m \<leftarrow> if_inet_match_subnet ifp ip;
        if m \<noteq> None then Some True else Some (route_match routes (if_link_index ifp) ip) })"

text \<open>
  \<open>subnet_match\<close> with the fields of its argument; the flag \<open>has_binding\<close> it also sets is used for
  a log message only.
\<close>

definition subnet_match ::
  "subnets option \<Rightarrow> inetroute list \<Rightarrow> in_addr \<Rightarrow> in_addr \<Rightarrow> intf \<Rightarrow> in_addr \<Rightarrow> bool option" where
  "subnet_match subnets routes giaddr ciaddr ifp iaddr =
     (if iaddr = 0 then Some False
      else if iaddr = ciaddr then Some True
      else ip_address_reachable subnets routes iaddr giaddr ifp)"

definition subnetAddressAndMask :: "subnets option \<Rightarrow> in_addr \<Rightarrow> intf \<Rightarrow> (in_addr \<times> in_addr) option option" where
  "subnetAddressAndMask subnets giaddr ifp =
     (if giaddr \<noteq> 0 then
        (case subnets of
           None \<Rightarrow> Some None
         | Some sns \<Rightarrow>
             (case SubnetListGetSubnetForAddress sns giaddr False of
                None \<Rightarrow> Some None
              | Some i \<Rightarrow> Some (Some (giaddr, SubnetGetMask (sns ! i)))))
      else do {
        addr \<leftarrow> if_inet_netaddr ifp;
        mask \<leftarrow> if_inet_netmask ifp;
        Some (Some (addr, mask)) })"

section \<open>Service switches (bootpd.c)\<close>

abbreviation "SERVICE_BOOTP \<equiv> (0x00000001 :: u32)"
abbreviation "SERVICE_DHCP \<equiv> (0x00000002 :: u32)"
abbreviation "SERVICE_RELAY \<equiv> (0x00000010 :: u32)"
abbreviation "SERVICE_ALL \<equiv> (0x0000001f :: u32)"
abbreviation "SERVICE_IGNORE_ALLOW_DENY \<equiv> (0x00000020 :: u32)"
abbreviation "SERVICE_DETECT_OTHER_DHCP_SERVER \<equiv> (0x00000040 :: u32)"
abbreviation "SERVICE_IPV6_ONLY_PREFERRED \<equiv> (0x00000080 :: u32)"
abbreviation "SERVICE_DHCP_DISABLED \<equiv> (0x80000000 :: u32)"

definition ignore_allow_deny :: "u32 \<Rightarrow> intf \<Rightarrow> bool" where
  "ignore_allow_deny which ifp \<longleftrightarrow> (which OR if_user_defined ifp) AND SERVICE_IGNORE_ALLOW_DENY \<noteq> 0"

definition detect_other_dhcp_server :: "u32 \<Rightarrow> intf \<Rightarrow> bool" where
  "detect_other_dhcp_server which ifp \<longleftrightarrow>
     (which OR if_user_defined ifp) AND SERVICE_DETECT_OTHER_DHCP_SERVER \<noteq> 0"

definition ipv6_only_preferred :: "u32 \<Rightarrow> intf \<Rightarrow> bool" where
  "ipv6_only_preferred which ifp \<longleftrightarrow> (which OR if_user_defined ifp) AND SERVICE_IPV6_ONLY_PREFERRED \<noteq> 0"

definition disable_dhcp_on_interface :: "intf \<Rightarrow> intf" where
  "disable_dhcp_on_interface ifp =
     (let u = if_user_defined ifp AND NOT SERVICE_DHCP
      in ifp\<lparr>if_user_defined := u OR SERVICE_DHCP_DISABLED\<rparr>)"

definition is_service_enabled :: "u32 \<Rightarrow> intf \<Rightarrow> u32 \<Rightarrow> u32 \<Rightarrow> bool" where
  "is_service_enabled which ifp service_flag service_disabled_flag =
     (if service_disabled_flag \<noteq> 0 \<and> if_user_defined ifp AND service_disabled_flag \<noteq> 0 then False
      else (which OR if_user_defined ifp) AND service_flag \<noteq> 0)"

definition bootp_enabled :: "u32 \<Rightarrow> intf \<Rightarrow> bool" where
  "bootp_enabled which ifp = is_service_enabled which ifp SERVICE_BOOTP 0"

definition dhcp_enabled :: "u32 \<Rightarrow> intf \<Rightarrow> bool" where
  "dhcp_enabled which ifp = is_service_enabled which ifp SERVICE_DHCP SERVICE_DHCP_DISABLED"

definition relay_enabled :: "u32 \<Rightarrow> intf \<Rightarrow> bool" where
  "relay_enabled which ifp = is_service_enabled which ifp SERVICE_RELAY 0"

text \<open>The allow and deny lists are sorted, so \<open>bsearch\<close> is membership; \<open>None\<close> is no list.\<close>

definition S_ok_to_respond ::
  "u32 \<Rightarrow> u8 list list option \<Rightarrow> u8 list list option \<Rightarrow> intf \<Rightarrow> u8 list \<Rightarrow> nat \<Rightarrow> bool" where
  "S_ok_to_respond which deny allow ifp hwaddr hwlen =
     (if hwlen \<noteq> 6 \<or> ignore_allow_deny which ifp then True
      else
        let respond = (case deny of None \<Rightarrow> True | Some d \<Rightarrow> take 6 hwaddr \<notin> set d)
        in (case allow of
              None \<Rightarrow> respond
            | Some a \<Rightarrow> if respond then take 6 hwaddr \<in> set a else respond))"

section \<open>Facts\<close>

definition intf_ok :: "intf \<Rightarrow> bool" where
  "intf_ok ifp \<longleftrightarrow> dynarray_ok (if_inet ifp) \<and> None \<notin> set (members (if_inet ifp))"

definition addrs :: "intf \<Rightarrow> inet_addrinfo list" where
  "addrs ifp = map the (members (if_inet ifp))"

lemma addr_at_ok:
  assumes "intf_ok ifp"
  shows "if_inet_addr_at ifp (int i) = Some (if i < length (addrs ifp) then Some (addrs ifp ! i) else None)"
proof -
  have "members (if_inet ifp) ! i \<noteq> None" if "i < length (members (if_inet ifp))"
    using assms that by (metis intf_ok_def nth_mem)
  then show ?thesis
    using assms
    by (cases "i < length (members (if_inet ifp))")
       (auto simp: if_inet_addr_at_def intf_ok_def addrs_def dynarray_element_ok dynarray_element_beyond)
qed

lemma inet_count_ok: "intf_ok ifp \<Longrightarrow> if_inet_count ifp = length (addrs ifp)"
  by (simp add: if_inet_count_def intf_ok_def addrs_def dynarray_count_ok)

lemma match_subnet_from_ok:
  assumes "intf_ok ifp"
  shows "n + i = length (addrs ifp) \<Longrightarrow> match_subnet_from n ifp match i =
    Some (find_index_from i (\<lambda>a. in_subnet (ia_netaddr a) (ia_mask a) match) (drop i (addrs ifp)))"
proof (induction n arbitrary: i)
  case 0
  then show ?case by simp
next
  case (Suc n)
  have "drop i (addrs ifp) = addrs ifp ! i # drop (Suc i) (addrs ifp)"
    using Suc.prems by (intro Cons_nth_drop_Suc [symmetric]) simp
  with Suc show ?case by (simp add: addr_at_ok [OF assms])
qed

lemma match_subnet_ok:
  "intf_ok ifp \<Longrightarrow> if_inet_match_subnet ifp match =
     Some (find_index_from 0 (\<lambda>a. in_subnet (ia_netaddr a) (ia_mask a) match) (addrs ifp))"
  using match_subnet_from_ok [of ifp "length (addrs ifp)" 0] by (simp add: if_inet_match_subnet_def inet_count_ok)

lemma match_subnet_total: "intf_ok ifp \<Longrightarrow> \<exists>r. if_inet_match_subnet ifp match = Some r"
  by (simp add: match_subnet_ok)

lemma inet_addr_ok:
  "intf_ok ifp \<Longrightarrow> if_inet_addr ifp = Some (case addrs ifp of [] \<Rightarrow> 0 | a # _ \<Rightarrow> ia_addr a)"
  using addr_at_ok [of ifp 0] by (cases "addrs ifp") (simp_all add: if_inet_addr_def)

lemma best_match_total: "intf_ok ifp \<Longrightarrow> \<exists>ip. if_inet_addr_best_match ifp match = Some ip"
proof -
  assume ok: "intf_ok ifp"
  show ?thesis
  proof (cases "find_index_from 0 (\<lambda>a. in_subnet (ia_netaddr a) (ia_mask a) match) (addrs ifp)")
    case None
    then show ?thesis using ok by (simp add: if_inet_addr_best_match_def match_subnet_ok inet_addr_ok)
  next
    case (Some i)
    then have "i < length (addrs ifp)" by (simp add: find_index_from_Some)
    with Some ok show ?thesis by (simp add: if_inet_addr_best_match_def match_subnet_ok addr_at_ok)
  qed
qed

lemma reachable_total: "intf_ok ifp \<Longrightarrow> \<exists>b. ip_address_reachable subnets routes ip giaddr ifp = Some b"
  by (auto simp: ip_address_reachable_def match_subnet_ok split: option.splits)

lemma subnet_match_total: "intf_ok ifp \<Longrightarrow> \<exists>b. subnet_match subnets routes giaddr ciaddr ifp ip = Some b"
  using reachable_total by (auto simp: subnet_match_def)

lemma subnet_match_nonzero: "subnet_match subnets routes giaddr ciaddr ifp ip = Some True \<Longrightarrow> ip \<noteq> 0"
  by (auto simp: subnet_match_def)

lemma disabled_is_disabled: "\<not> dhcp_enabled which (disable_dhcp_on_interface ifp)"
proof -
  let ?w = "((if_user_defined ifp AND NOT SERVICE_DHCP) OR SERVICE_DHCP_DISABLED) AND SERVICE_DHCP_DISABLED"
  have "?w = SERVICE_DHCP_DISABLED"
    by (rule bit_word_eqI) (auto simp: bit_simps)
  then have "?w \<noteq> 0" by simp
  then show ?thesis
    by (simp add: dhcp_enabled_def is_service_enabled_def disable_dhcp_on_interface_def Let_def)
qed

end
