(* ===== verification/DhcpLeases.thy ===== *)
theory DhcpLeases
  imports NICacheFacts NICacheFile HostIdentifier Interfaces
begin

text \<open>
  The server's memory of its clients (first half of \<open>bootpd.tproj/dhcpd.c\<close>): the leases and their
  file, the pending offers, and the search for an address that is free.

  The lease cache is the list of its entries, head first, each with the identity of its record:
  theory NICacheFacts shows that the linked list carries out \<open>list_scan\<close>, \<open>to_front\<close>, deletion and
  addition on that list.  An entry that is dereferenced after it left the list gives \<open>None\<close>.  A time is
  a number of seconds; \<open>long\<close> is 64 bits, and sums of times do not overflow.  Of \<open>errno\<close> only the value
  the call itself sets is seen.  Posting the change notification and logging are left out.
\<close>

section \<open>Configuration and state\<close>

type_synonym leases = "(eptr \<times> ni_proplist) list"

record config =
  cf_which_services :: u32
  cf_file_hosts :: "hosts list"
  cf_routes :: "inetroute list"
  cf_def_route :: "in_addr option"
  cf_reply_threshold :: u32
  cf_server_name :: string
  cf_ignore_client_identifier :: bool
  cf_supply_bootfile :: bool
  cf_use_server_config :: bool
  cf_dns_servers :: "in_addr list"
  cf_domain_name :: "string option"
  cf_domain_search :: "u8 list option"
  cf_ipv6_only_wait :: u32
  cf_extend_leases :: bool
  cf_relays :: "in_addr list option"
  cf_max_hops :: nat
  cf_if_list :: "string list"
  cf_deny :: "u8 list list option"
  cf_allow :: "u8 list list option"
  cf_netlib :: netlib
  cf_disk_ok :: bool
  cf_readable :: "string \<Rightarrow> bool"
  cf_tftp_dir :: string
  cf_noexist_reply :: bool
  cf_txbuf :: "u8 list"

text \<open>A packet handed to \<open>bootp_transmit\<close>.\<close>

record transmit =
  tx_if_name :: string
  tx_hwaddr :: "u8 list option"
  tx_dst :: in_addr
  tx_src :: in_addr
  tx_dest_port :: nat
  tx_src_port :: nat
  tx_pkt :: dhcp
  tx_size :: int

record server =
  sv_leases :: leases
  sv_next :: nat
  sv_file :: string
  sv_pending :: "hosts list"
  sv_subnets :: "subnets option"
  sv_interfaces :: "intf list"
  sv_sent :: "transmit list"

record request =
  rq_if :: nat
  rq_pkt :: dhcp
  rq_length :: int
  rq_options :: dhcpol
  rq_dstaddr :: "in_addr option"
  rq_time :: int

definition the_if :: "server \<Rightarrow> request \<Rightarrow> intf option" where
  "the_if s rq = rd (sv_interfaces s) (rq_if rq)"

section \<open>Leases (dhcpd.c)\<close>

definition DHCP_INFINITE_TIME :: int where
  "DHCP_INFINITE_TIME = - 1"

definition DHCP_INFINITE_LEASE :: u32 where
  "DHCP_INFINITE_LEASE = - 1"

text \<open>\<open>entry->pl\<close>, and an assignment to it.\<close>

definition entry_pl :: "leases \<Rightarrow> eptr \<Rightarrow> ni_proplist option" where
  "entry_pl ls p = map_of ls p"

definition set_pl :: "leases \<Rightarrow> eptr \<Rightarrow> ni_proplist \<Rightarrow> leases" where
  "set_pl ls p pl = map (\<lambda>(q, pl'). (q, if q = p then pl else pl')) ls"

definition del_entry :: "leases \<Rightarrow> eptr \<Rightarrow> leases" where
  "del_entry ls p = filter (\<lambda>y. fst y \<noteq> p) ls"

text \<open>\<open>%lx\<close> prints the two's complement of a negative number.\<close>

definition lease_string :: "int \<Rightarrow> int \<Rightarrow> string" where
  "lease_string buf_size t = snprintf buf_size (''0x'' @ to_hex (nat (t mod 2 ^ 64)))"

definition S_set_lease :: "ni_proplist \<Rightarrow> int \<Rightarrow> (ni_proplist \<times> bool) option" where
  "S_set_lease pl lease_time_expiry =
     ni_set_prop pl NIPROP_DHCP_LEASE (Some (lease_string 32 lease_time_expiry))"

definition S_lease_time_expiry :: "ni_proplist \<Rightarrow> int" where
  "S_lease_time_expiry pl =
     (case ni_valforprop pl NIPROP_DHCP_LEASE of
        None \<Rightarrow> DHCP_INFINITE_TIME
      | Some str \<Rightarrow>
          let (val, erange) = strtol 0 str
          in if val = LONG_MAX \<and> erange then 0 else val)"

text \<open>Writing the file, and its result.\<close>

definition S_commit_mods :: "config \<Rightarrow> server \<Rightarrow> server \<times> bool" where
  "S_commit_mods cf s =
     (if cf_disk_ok cf then (s\<lparr>sv_file := PLCache_write (map snd (sv_leases s))\<rparr>, True) else (s, False))"

definition S_remove_host :: "config \<Rightarrow> server \<Rightarrow> eptr \<Rightarrow> server" where
  "S_remove_host cf s p = fst (S_commit_mods cf (s\<lparr>sv_leases := del_entry (sv_leases s) p\<rparr>))"

definition DHCPLeases_ip_in_use :: "config \<Rightarrow> server \<Rightarrow> in_addr \<Rightarrow> server \<times> bool" where
  "DHCPLeases_ip_in_use cf s ip =
     (let r = fst (list_scan (lookup_ip_test (cf_netlib cf) ip) () (sv_leases s))
      in (s\<lparr>sv_leases := to_front r (sv_leases s)\<rparr>, r \<noteq> None))"

text \<open>
  \<open>dhcp_init\<close> with the contents of the file, \<open>None\<close> when it cannot be opened: nothing is changed
  then.  The entries get fresh records.
\<close>

definition dhcp_init :: "server \<Rightarrow> string option \<Rightarrow> server option" where
  "dhcp_init s contents =
     (case contents of
        None \<Rightarrow> Some s
      | Some f \<Rightarrow> do {
          es \<leftarrow> PLCache_read f;
          Some (s\<lparr>sv_leases := zip [sv_next s..<sv_next s + length es] es, sv_next := sv_next s + length es\<rparr>) })"

text \<open>
  The loop of \<open>DHCPLeases_reclaim\<close>, from the tail of the cache: what \<open>continue\<close> passes over, and the
  entry that is removed with its address.
\<close>

definition reclaimable ::
  "config \<Rightarrow> server \<Rightarrow> intf \<Rightarrow> in_addr \<Rightarrow> int \<Rightarrow> ni_proplist \<Rightarrow> in_addr option option" where
  "reclaimable cf s ifp giaddr now pl =
     (case ni_proplist_match pl NIPROP_IPADDR None of
        None \<Rightarrow> Some None
      | Some ip_index \<Rightarrow>
          (case vals_at pl ip_index of
             [] \<Rightarrow> Some None
           | ip_str # _ \<Rightarrow>
               (case inet_aton (cf_netlib cf) ip_str of
                  None \<Rightarrow> Some None
                | Some iaddr \<Rightarrow> do {
                    reachable \<leftarrow> ip_address_reachable (sv_subnets s) (cf_routes cf) iaddr giaddr ifp;
                    if \<not> reachable then Some None
                    else
                      (case ni_proplist_match pl NIPROP_DHCP_LEASE None of
                         None \<Rightarrow> Some (Some iaddr)
                       | Some lease_index \<Rightarrow>
                           (case vals_at pl lease_index of
                              [] \<Rightarrow> Some None
                            | lease_str # _ \<Rightarrow>
                                let (val, erange) = strtol 0 lease_str in
                                if val = LONG_MAX \<and> erange then Some None
                                else if now > val then Some (Some iaddr)
                                else Some None)) })))"

fun reclaim_scan ::
  "config \<Rightarrow> server \<Rightarrow> intf \<Rightarrow> in_addr \<Rightarrow> int \<Rightarrow> leases \<Rightarrow> (eptr \<times> in_addr) option option" where
  "reclaim_scan cf s ifp giaddr now [] = Some None"
| "reclaim_scan cf s ifp giaddr now ((p, pl) # ls) = do {
     r \<leftarrow> reclaimable cf s ifp giaddr now pl;
     case r of
       None \<Rightarrow> reclaim_scan cf s ifp giaddr now ls
     | Some iaddr \<Rightarrow> Some (Some (p, iaddr)) }"

definition DHCPLeases_reclaim ::
  "config \<Rightarrow> server \<Rightarrow> intf \<Rightarrow> in_addr \<Rightarrow> int \<Rightarrow> (in_addr option \<times> server) option" where
  "DHCPLeases_reclaim cf s ifp giaddr now = do {
     r \<leftarrow> reclaim_scan cf s ifp giaddr now (rev (sv_leases s));
     case r of
       None \<Rightarrow> Some (None, s)
     | Some (p, iaddr) \<Rightarrow> Some (Some iaddr, S_remove_host cf s p) }"

section \<open>Free addresses (dhcpd.c)\<close>

definition DEFAULT_PENDING_SECS :: int where
  "DEFAULT_PENDING_SECS = 60"

definition bootp_getbyip_file :: "config \<Rightarrow> in_addr \<Rightarrow> (string option \<times> string option) option" where
  "bootp_getbyip_file cf ciaddr =
     map_option (\<lambda>hp. (hp_hostname hp, hp_bootfile hp)) (hostbyip (cf_file_hosts cf) ciaddr)"

text \<open>The address, host name and boot file of the host with a hardware address.\<close>

definition bootp_getbyhw_file ::
  "config \<Rightarrow> u8 \<Rightarrow> u8 list \<Rightarrow> (in_addr \<Rightarrow> bool) option \<Rightarrow> (in_addr \<times> string option \<times> string option) option" where
  "bootp_getbyhw_file cf hwtype hwaddr func =
     map_option (\<lambda>hp. (hp_iaddr hp, hp_hostname hp, hp_bootfile hp))
       (hostbyaddr (cf_file_hosts cf) hwtype hwaddr func)"

text \<open>The age of a pending offer is an \<open>unsigned long\<close>.\<close>

definition S_ipinuse :: "config \<Rightarrow> int \<Rightarrow> server \<Rightarrow> in_addr \<Rightarrow> (server \<times> bool) option" where
  "S_ipinuse cf now s ip =
     (if bootp_getbyip_file cf ip \<noteq> None then Some (s, True)
      else
        let (s1, used) = DHCPLeases_ip_in_use cf s ip in
        if used then Some (s1, True)
        else
          (case hostbyip (sv_pending s1) ip of
             None \<Rightarrow> Some (s1, False)
           | Some hp \<Rightarrow>
               let pending_secs = (now - hp_tv hp) mod 2 ^ 64 in
               if pending_secs < DEFAULT_PENDING_SECS then Some (s1, True)
               else Some (s1\<lparr>sv_pending := hostfree (sv_pending s1) hp\<rparr>, False)))"

text \<open>\<open>SubnetListAcquireAddress\<close> on the server's subnets.\<close>

definition subnets_acquire ::
  "config \<Rightarrow> int \<Rightarrow> server \<Rightarrow> subnets \<Rightarrow> in_addr \<Rightarrow> ((nat \<times> in_addr) option \<times> server) option" where
  "subnets_acquire cf now s sns addr = do {
     (r, sns', s') \<leftarrow> SubnetListAcquireAddress (S_ipinuse cf now) s sns addr;
     Some (r, s'\<lparr>sv_subnets := Some sns'\<rparr>) }"

fun acquire_on_if :: "config \<Rightarrow> int \<Rightarrow> intf \<Rightarrow> nat \<Rightarrow> nat \<Rightarrow> server \<Rightarrow> ((nat \<times> in_addr) option \<times> server) option" where
  "acquire_on_if cf now ifp 0 i s = Some (None, s)"
| "acquire_on_if cf now ifp (Suc n) i s = do {
     info \<leftarrow> if_inet_addr_at ifp (int i);
     a \<leftarrow> info;
     sns \<leftarrow> sv_subnets s;
     (r, s') \<leftarrow> subnets_acquire cf now s sns (ia_netaddr a);
     if r \<noteq> None then Some (r, s') else acquire_on_if cf now ifp n (i + 1) s' }"

definition acquire_ip ::
  "config \<Rightarrow> in_addr \<Rightarrow> intf \<Rightarrow> int \<Rightarrow> server \<Rightarrow> ((nat \<times> in_addr) option \<times> server) option" where
  "acquire_ip cf giaddr ifp now s =
     (case sv_subnets s of
        None \<Rightarrow> Some (None, s)
      | Some sns \<Rightarrow>
          if giaddr \<noteq> 0 then subnets_acquire cf now s sns giaddr
          else acquire_on_if cf now ifp (if_inet_count ifp) 0 s)"

section \<open>New entries (dhcpd.c)\<close>

definition hostname_char :: "u8 \<Rightarrow> char" where
  "hostname_char b = (if b = 0 \<or> b = 10 then CHR ''.'' else char_of (unat b))"

text \<open>The hostname option is the pointer to its data and its length.\<close>

definition S_get_hostname :: "(bptr \<times> int) option \<Rightarrow> string option option" where
  "S_get_hostname hostname_opt =
     (case hostname_opt of
        Some (h, len) \<Rightarrow>
          if len > 0 then do { bs \<leftarrow> rdn h 0 (nat len); Some (Some (map hostname_char bs)) } else Some None
      | None \<Rightarrow> Some None)"

definition host_properties ::
  "config \<Rightarrow> string \<Rightarrow> string \<Rightarrow> in_addr \<Rightarrow> (bptr \<times> int) option \<Rightarrow> int \<Rightarrow> ni_proplist option" where
  "host_properties cf idstr hwstr iaddr hostname_opt lease_time_expiry = do {
     pl0 \<leftarrow> (if hostname_opt \<noteq> None
             then do { h \<leftarrow> S_get_hostname hostname_opt; ni_proplist_addprop [] NIPROP_NAME h }
             else Some []);
     pl1 \<leftarrow> ni_proplist_addprop pl0 NIPROP_IPADDR (Some (inet_ntoa (cf_netlib cf) iaddr));
     pl2 \<leftarrow> ni_proplist_addprop pl1 NIPROP_HWADDR (Some hwstr);
     pl3 \<leftarrow> ni_proplist_addprop pl2 NIPROP_IDENTIFIER (Some idstr);
     ni_proplist_addprop pl3 NIPROP_DHCP_LEASE (Some (lease_string 128 lease_time_expiry)) }"

definition S_create_host ::
  "config \<Rightarrow> server \<Rightarrow> string \<Rightarrow> string \<Rightarrow> in_addr \<Rightarrow> (bptr \<times> int) option \<Rightarrow> int \<Rightarrow> server option" where
  "S_create_host cf s idstr hwstr iaddr hostname_opt lease_time_expiry = do {
     pl \<leftarrow> host_properties cf idstr hwstr iaddr hostname_opt lease_time_expiry;
     Some (fst (S_commit_mods cf
       (s\<lparr>sv_leases := (sv_next s, pl) # sv_leases s, sv_next := sv_next s + 1\<rparr>))) }"

end
