(* ===== verification/DhcpOptionFacts.thy ===== *)
theory DhcpOptionFacts
  imports DhcpOptions
begin

text \<open>
  What the option parser of theory DhcpOptions computes.  The specification works on bytes alone:
  \<open>tlv_parse\<close> reads a run of tag/length/value fields as RFC 2132 lays them out.  The parser
  refines it, stays inside the buffer it is given, and the searches over its result are the
  list functions \<open>find\<close> and \<open>filter\<close> on the fields.
\<close>

section \<open>Fields of an option area\<close>

type_synonym field = "u8 \<times> u8 list"

fun tlv_parse :: "u8 list \<Rightarrow> field list option" where
  "tlv_parse [] = Some []"
| "tlv_parse (t # bs) =
     (if t = dhcptag_end_e then Some []
      else if t = dhcptag_pad_e then tlv_parse bs
      else case bs of
        [] \<Rightarrow> None
      | n # ds \<Rightarrow>
          if unat n \<le> length ds
          then map_option (Cons (t, take (unat n) ds)) (tlv_parse (drop (unat n) ds))
          else None)"

text \<open>An option pointer: at the end tag, or at a field that the object holds in full.\<close>

definition opt_ok :: "bptr \<Rightarrow> bool" where
  "opt_ok p \<longleftrightarrow> p \<noteq> [] \<and> p ! 0 \<noteq> dhcptag_pad_e \<and>
     (p ! 0 = dhcptag_end_e \<or> (1 < length p \<and> unat (p ! 1) + 2 \<le> length p))"

definition field_of :: "bptr \<Rightarrow> field" where
  "field_of p = (p ! 0, take (unat (p ! 1)) (drop 2 p))"

definition opts_of :: "bptr list \<Rightarrow> field list" where
  "opts_of ps = map field_of (filter (\<lambda>p. p ! 0 \<noteq> dhcptag_end_e) ps)"

definition dhcpol_ok :: "dhcpol \<Rightarrow> bool" where
  "dhcpol_ok l \<longleftrightarrow> ptrlist_ok l \<and> (\<forall>p \<in> set (elems l). opt_ok p)"

definition opts :: "dhcpol \<Rightarrow> field list" where
  "opts l = opts_of (elems l)"

lemma opts_of_simps [simp]:
  "opts_of [] = []"
  "opts_of (p # ps) = (if p ! 0 = dhcptag_end_e then opts_of ps else field_of p # opts_of ps)"
  "opts_of (ps @ qs) = opts_of ps @ opts_of qs"
  by (simp_all add: opts_of_def)

lemma dhcpol_ok_init [simp, wf]: "dhcpol_ok dhcpol_init" "opts dhcpol_init = []"
  by (simp_all add: dhcpol_ok_def dhcpol_init_def opts_def)

lemma dhcpol_count_eq [simp]: "dhcpol_ok l \<Longrightarrow> dhcpol_count l = length (elems l)"
  by (simp add: dhcpol_ok_def dhcpol_count_def ptrlist_count_ok)

lemma dhcpol_element_in:
  "dhcpol_ok l \<Longrightarrow> i < length (elems l) \<Longrightarrow> dhcpol_element l (int i) = Some (Some (elems l ! i))"
  by (simp add: dhcpol_ok_def dhcpol_element_def pl.element_in)

lemma dhcpol_add_ok:
  assumes "dhcpol_ok l" and "opt_ok p"
  obtains l' where "dhcpol_add l p = Some (True, l')" "dhcpol_ok l'" "opts l' = opts l @ opts_of [p]"
proof -
  obtain l' where "dhcpol_add l p = Some (True, l')" "ptrlist_ok l'" "elems l' = elems l @ [p]"
    using assms(1) by (auto simp: dhcpol_add_def dhcpol_ok_def elim: pl.addE)
  with assms show ?thesis
    by (intro that [of l']) (auto simp: dhcpol_ok_def opts_def)
qed

lemma dhcpol_concat_ok:
  assumes "dhcpol_ok l" and "dhcpol_ok extra"
  obtains l' where "dhcpol_concat l extra = Some (True, l')" "dhcpol_ok l'"
    "opts l' = opts l @ opts extra"
proof -
  obtain l' where "dhcpol_concat l extra = Some (True, l')" "ptrlist_ok l'"
      "elems l' = elems l @ elems extra"
    using assms by (auto simp: dhcpol_concat_def dhcpol_ok_def elim: ptrlist_concat_ok [of l extra])
  with assms show ?thesis
    by (intro that [of l']) (auto simp: dhcpol_ok_def opts_def)
qed

section \<open>The parser refines the field grammar\<close>

lemma parse_loop_stop [simp]:
  "tag = dhcptag_end_e \<or> len \<le> 0 \<Longrightarrow> dhcpol_parse_loop l scan len tag = Some (l, len, tag)"
  by (subst dhcpol_parse_loop.simps) auto

lemma uint_nat: "uint (w :: u8) = int (unat w)"
  by simp

lemma uint_nonneg: "0 \<le> uint (w :: u8)"
  by simp

lemma parse_loop_refines:
  assumes "dhcpol_ok l" and "tag \<noteq> dhcptag_end_e" and "0 \<le> len" and "nat len \<le> length scan"
  shows "\<exists>l' len' tag'. dhcpol_parse_loop l scan len tag = Some (l', len', tag') \<and>
     (case tlv_parse (take (nat len) scan) of
        None \<Rightarrow> len' < 0
      | Some fs \<Rightarrow> 0 \<le> len' \<and> dhcpol_ok l' \<and> opts l' = opts l @ fs)"
  using assms
proof (induction "nat len" arbitrary: l scan len tag rule: less_induct)
  case less
  show ?case
  proof (cases "len = 0")
    case True
    with less.prems show ?thesis by auto
  next
    case False
    with less.prems obtain t bs where scan: "scan = t # bs" and len: "0 < len"
      by (cases scan) auto
    have take: "take (nat len) scan = t # take (nat (len - 1)) bs"
      using len by (simp add: scan nat_diff_distrib take_Cons')
    have step: "dhcpol_parse_loop l scan len tag =
      (if t = dhcptag_end_e then Option.bind (dhcpol_add l scan) (\<lambda>(_, l'). dhcpol_parse_loop l' bs (len - 1) t)
       else if t = dhcptag_pad_e then dhcpol_parse_loop l bs (len - 1) t
       else if len > 1 then Option.bind (rd scan 1) (\<lambda>n. Option.bind (dhcpol_add l scan)
              (\<lambda>(_, l'). dhcpol_parse_loop l' (drop (unat n + 2) scan) (len - (uint n + 2)) t))
       else Some (l, - 1, t))"
      using less.prems(2) len
      by (subst dhcpol_parse_loop.simps) (simp add: scan rd_def)
    consider (fin) "t = 255" | (pad) "t = 0" | (short) "t \<noteq> 255" "t \<noteq> 0" "len = 1"
      | (opt) "t \<noteq> 255" "t \<noteq> 0" "1 < len"
      using len by fastforce
    then show ?thesis
    proof cases
      case fin
      have "opt_ok scan" using fin by (simp add: opt_ok_def scan)
      with less.prems(1) obtain l' where "dhcpol_add l scan = Some (True, l')" "dhcpol_ok l'"
          "opts l' = opts l @ opts_of [scan]"
        by (rule dhcpol_add_ok)
      with fin show ?thesis using len by (simp add: step take) (simp add: scan)
    next
      case pad
      have "\<exists>l' len' tag'. dhcpol_parse_loop l bs (len - 1) 0 = Some (l', len', tag') \<and>
         (case tlv_parse (take (nat (len - 1)) bs) of
            None \<Rightarrow> len' < 0
          | Some fs \<Rightarrow> 0 \<le> len' \<and> dhcpol_ok l' \<and> opts l' = opts l @ fs)"
        using less.prems len by (intro less.hyps) (auto simp: scan)
      with pad show ?thesis by (simp add: step take)
    next
      case short
      then show ?thesis using step take by simp
    next
      case opt
      with less.prems obtain n ds where bs: "bs = n # ds"
        by (cases bs) (auto simp: scan)
      have take2: "take (nat (len - 1)) bs = n # take (nat (len - 2)) ds"
      proof -
        have "nat (len - 1) = Suc (nat (len - 2))" using opt(3) by simp
        then show ?thesis by (simp only: bs take_Suc_Cons)
      qed
      have bound: "nat (len - 2) \<le> length ds"
        using less.prems(4) opt(3) by (simp add: scan bs)
      show ?thesis
      proof (cases "int (unat n) \<le> len - 2")
        case True
        then have fit: "unat n \<le> nat (len - 2)" by linarith
        have left: "nat (len - (uint n + 2)) = nat (len - 2) - unat n"
          using True uint_nat [of n] by linarith
        have "opt_ok scan" using opt fit bound by (simp add: opt_ok_def scan bs)
        with less.prems(1) obtain l1 where l1: "dhcpol_add l scan = Some (True, l1)" "dhcpol_ok l1"
            "opts l1 = opts l @ opts_of [scan]"
          by (rule dhcpol_add_ok)
        have fs: "opts l1 = opts l @ [(t, take (unat n) ds)]"
          using l1(3) opt(1) by (simp add: scan bs field_of_def)
        have "\<exists>l' len' tag'. dhcpol_parse_loop l1 (drop (unat n) ds) (len - (uint n + 2)) t = Some (l', len', tag') \<and>
           (case tlv_parse (take (nat (len - (uint n + 2))) (drop (unat n) ds)) of
              None \<Rightarrow> len' < 0
            | Some fs \<Rightarrow> 0 \<le> len' \<and> dhcpol_ok l' \<and> opts l' = opts l1 @ fs)"
        proof (rule less.hyps)
          show "nat (len - (uint n + 2)) < nat len" using len uint_nonneg [of n] by linarith
          show "dhcpol_ok l1" by fact
          show "t \<noteq> 255" by fact
          show "0 \<le> len - (uint n + 2)" using True by simp
          show "nat (len - (uint n + 2)) \<le> length (drop (unat n) ds)"
            using bound by (simp add: left)
        qed
        moreover have "tlv_parse (take (nat len) scan) =
            map_option (Cons (t, take (unat n) ds)) (tlv_parse (take (nat (len - (uint n + 2))) (drop (unat n) ds)))"
        proof -
          have "drop (unat n) (take (nat (len - 2)) ds) = take (nat (len - (uint n + 2))) (drop (unat n) ds)"
            by (simp add: left drop_take)
          with opt fit bound show ?thesis
            by (simp add: take take2 min_absorb2 min_absorb1)
        qed
        moreover have "dhcpol_parse_loop l scan len tag = dhcpol_parse_loop l1 (drop (unat n) ds) (len - (uint n + 2)) t"
          using opt l1(1) by (simp add: step rd_def) (simp add: scan bs)
        ultimately show ?thesis
          by (auto simp: fs split: option.splits)
      next
        case False
        have neg: "len - (uint n + 2) < 0" using False by simp
        obtain l1 where l1: "dhcpol_add l scan = Some (True, l1)"
          using less.prems(1) by (auto simp: dhcpol_add_def dhcpol_ok_def elim: pl.addE)
        have none: "tlv_parse (take (nat len) scan) = None"
        proof -
          have "\<not> unat n \<le> nat (len - 2)" using False opt(3) by linarith
          with opt show ?thesis by (simp add: take take2)
        qed
        have "dhcpol_parse_loop l scan len tag = Some (l1, len - (uint n + 2), t)"
          using opt l1 neg by (simp add: step rd_def) (simp add: scan bs)
        with none neg show ?thesis by simp
      qed
    qed
  qed
qed

lemma parse_buffer_refines:
  assumes "0 \<le> len" and "nat len \<le> length buf"
  shows "case tlv_parse (take (nat len) buf) of
           None \<Rightarrow> \<exists>t. dhcpol_parse_buffer buf len = Some (Inl (ParseFailedNear t))
         | Some fs \<Rightarrow> \<exists>l. dhcpol_parse_buffer buf len = Some (Inr l) \<and> dhcpol_ok l \<and> opts l = fs"
  using parse_loop_refines [of dhcpol_init dhcptag_pad_e len buf] assms
  by (auto simp: dhcpol_parse_buffer_def split: option.splits)

lemma parse_bufferE:
  assumes "0 \<le> len" and "nat len \<le> length buf"
  obtains (bad) t where "dhcpol_parse_buffer buf len = Some (Inl (ParseFailedNear t))"
      "tlv_parse (take (nat len) buf) = None"
  | (good) l where "dhcpol_parse_buffer buf len = Some (Inr l)" "dhcpol_ok l"
      "tlv_parse (take (nat len) buf) = Some (opts l)"
  using parse_buffer_refines [OF assms] by (auto split: option.splits)

section \<open>Searches\<close>

lemma opt_ok_access:
  assumes "opt_ok p"
  shows "rd p 0 = Some (p ! 0)"
    and "p ! 0 \<noteq> dhcptag_end_e \<Longrightarrow> rd p 1 = Some (p ! 1)"
    and "p ! 0 \<noteq> dhcptag_end_e \<Longrightarrow> rdn p 2 (unat (p ! 1)) = Some (snd (field_of p))"
    and "p ! 0 \<noteq> dhcptag_end_e \<Longrightarrow> length (snd (field_of p)) = unat (p ! 1)"
    and "p ! 0 \<noteq> dhcptag_end_e \<Longrightarrow> drop 2 p = snd (field_of p) @ drop (unat (p ! 1)) (drop 2 p)"
  using assms by (auto simp: opt_ok_def field_of_def rd_def rdn_def simp del: drop_drop)

lemma uint_tag: "tag \<noteq> dhcptag_end_e \<Longrightarrow> uint (t :: u8) = tag \<Longrightarrow> t \<noteq> dhcptag_end_e"
  by auto

text \<open>
  The first field with a tag, searched in the code's way: the option pointers from \<open>start\<close> on.
\<close>

lemma find_loop_spec:
  assumes "dhcpol_ok l" and "tag \<noteq> dhcptag_end_e"
  shows "n + i = length (elems l) \<Longrightarrow>
    (case find (\<lambda>(t, d). uint t = tag) (opts_of (drop i (elems l))) of
       None \<Rightarrow> find_loop n l tag i = Some None
     | Some (t, d) \<Rightarrow> \<exists>rest j. find_loop n l tag i = Some (Some (d @ rest, int (length d), j)) \<and>
         i < j \<and> j \<le> length (elems l) \<and>
         opts_of (drop j (elems l)) = tl (dropWhile (\<lambda>(t, d). uint t \<noteq> tag) (opts_of (drop i (elems l)))))"
proof (induction n arbitrary: i)
  case 0
  then show ?case by simp
next
  case (Suc n)
  let ?p = "elems l ! i"
  have i: "i < length (elems l)" using Suc.prems by simp
  have drop: "drop i (elems l) = ?p # drop (Suc i) (elems l)" using i by (rule Cons_nth_drop_Suc [symmetric])
  have el: "dhcpol_element l (int i) = Some (Some ?p)" using assms(1) i by (rule dhcpol_element_in)
  have ok: "opt_ok ?p" using assms(1) i by (simp add: dhcpol_ok_def)
  note acc = opt_ok_access [OF ok]
  have IH: "case find (\<lambda>(t, d). uint t = tag) (opts_of (drop (Suc i) (elems l))) of
       None \<Rightarrow> find_loop n l tag (Suc i) = Some None
     | Some (t, d) \<Rightarrow> \<exists>rest j. find_loop n l tag (Suc i) = Some (Some (d @ rest, int (length d), j)) \<and>
         Suc i < j \<and> j \<le> length (elems l) \<and>
         opts_of (drop j (elems l)) = tl (dropWhile (\<lambda>(t, d). uint t \<noteq> tag) (opts_of (drop (Suc i) (elems l))))"
    using Suc.prems by (intro Suc.IH) simp
  show ?case
  proof (cases "uint (?p ! 0) = tag")
    case True
    note nend = uint_tag [OF assms(2) True]
    have hd: "field_of ?p = (?p ! 0, snd (field_of ?p))" by (simp add: field_of_def)
    have fo: "find (\<lambda>(t, d). uint t = tag) (opts_of (drop i (elems l))) = Some (?p ! 0, snd (field_of ?p))"
      using True nend by (simp add: drop) (simp add: field_of_def)
    have dw: "tl (dropWhile (\<lambda>(t, d). uint t \<noteq> tag) (opts_of (drop i (elems l)))) = opts_of (drop (Suc i) (elems l))"
      using True nend by (simp add: drop) (simp add: field_of_def)
    have "find_loop (Suc n) l tag i =
        Some (Some (snd (field_of ?p) @ drop (unat (?p ! 1)) (drop 2 ?p), int (length (snd (field_of ?p))), i + 1))"
      using True acc(1) acc(2,4,5) [OF nend] el by (simp del: drop_drop)
    with fo dw i show ?thesis by auto
  next
    case False
    have "find_loop (Suc n) l tag i = find_loop n l tag (Suc i)"
      using False acc(1) el by simp
    moreover have "find (\<lambda>(t, d). uint t = tag) (opts_of (drop i (elems l))) =
        find (\<lambda>(t, d). uint t = tag) (opts_of (drop (Suc i) (elems l)))"
      using False by (simp add: drop field_of_def)
    moreover have "dropWhile (\<lambda>(t, d). uint t \<noteq> tag) (opts_of (drop i (elems l))) =
        dropWhile (\<lambda>(t, d). uint t \<noteq> tag) (opts_of (drop (Suc i) (elems l)))"
      using False by (simp add: drop field_of_def)
    ultimately show ?thesis
      using IH by (auto split: option.splits)
  qed
qed

lemma find_spec:
  assumes "dhcpol_ok l" and "start \<le> length (elems l)" and "tag \<noteq> dhcptag_end_e" "tag \<noteq> dhcptag_pad_e"
  shows "case find (\<lambda>(t, d). uint t = tag) (opts_of (drop start (elems l))) of
       None \<Rightarrow> dhcpol_find l tag start = Some None
     | Some (t, d) \<Rightarrow> \<exists>rest j. dhcpol_find l tag start = Some (Some (d @ rest, int (length d), j)) \<and>
         start < j \<and> j \<le> length (elems l) \<and>
         opts_of (drop j (elems l)) = tl (dropWhile (\<lambda>(t, d). uint t \<noteq> tag) (opts_of (drop start (elems l))))"
proof -
  have eq: "dhcpol_find l tag start = find_loop (length (elems l) - start) l tag start"
    using assms by (simp add: dhcpol_find_def)
  show ?thesis
    unfolding eq by (rule find_loop_spec [OF assms(1,3)]) (use assms(2) in simp)
qed

lemma find_cases:
  assumes "dhcpol_ok l" and "tag \<noteq> dhcptag_end_e" "tag \<noteq> dhcptag_pad_e"
  obtains (absent) "dhcpol_find l tag 0 = Some None" "find (\<lambda>(t, d). uint t = tag) (opts l) = None"
  | (present) t d rest j where "dhcpol_find l tag 0 = Some (Some (d @ rest, int (length d), j))"
      "find (\<lambda>(t, d). uint t = tag) (opts l) = Some (t, d)"
  using find_spec [OF assms(1) _ assms(2,3), of 0]
  by (auto simp: opts_def split: option.splits)

lemma find_defined: "dhcpol_ok l \<Longrightarrow> \<exists>r. dhcpol_find l tag 0 = Some r"
  by (cases "tag = dhcptag_end_e \<or> tag = dhcptag_pad_e")
    (auto simp: dhcpol_find_def [of _ 0] dhcpol_find_def [of _ 255] elim: find_cases [of l tag])

lemma copy_loop_spec:
  assumes "dhcpol_ok l" and "tag \<noteq> dhcptag_end_e"
  shows "n + i = length (elems l) \<Longrightarrow> copy_loop n l tag i data =
    (let ds = map snd (filter (\<lambda>(t, d). uint t = tag) (opts_of (drop i (elems l))))
     in Some (if ds = [] then data else Some ((case data of None \<Rightarrow> [] | Some d \<Rightarrow> d) @ concat ds)))"
proof (induction n arbitrary: i data)
  case 0
  then show ?case by simp
next
  case (Suc n)
  let ?p = "elems l ! i"
  have i: "i < length (elems l)" using Suc.prems by simp
  have drop: "drop i (elems l) = ?p # drop (Suc i) (elems l)" using i by (rule Cons_nth_drop_Suc [symmetric])
  have el: "dhcpol_element l (int i) = Some (Some ?p)" using assms(1) i by (rule dhcpol_element_in)
  have ok: "opt_ok ?p" using assms(1) i by (simp add: dhcpol_ok_def)
  note acc = opt_ok_access [OF ok]
  have IH: "\<And>data. copy_loop n l tag (Suc i) data =
    (let ds = map snd (filter (\<lambda>(t, d). uint t = tag) (opts_of (drop (Suc i) (elems l))))
     in Some (if ds = [] then data else Some ((case data of None \<Rightarrow> [] | Some d \<Rightarrow> d) @ concat ds)))"
    using Suc.prems by (intro Suc.IH) simp
  show ?case
  proof (cases "uint (?p ! 0) = tag")
    case True
    note nend = uint_tag [OF assms(2) True]
    have "copy_loop (Suc n) l tag i data =
        copy_loop n l tag (Suc i) (Some ((case data of None \<Rightarrow> [] | Some d \<Rightarrow> d) @ snd (field_of ?p)))"
      using True acc(1) acc(2,3) [OF nend] el by simp
    then show ?thesis
      using True nend unfolding IH by (simp add: drop Let_def) (simp add: field_of_def)
  next
    case False
    have "copy_loop (Suc n) l tag i data = copy_loop n l tag (Suc i) data"
      using False acc(1) el by simp
    then show ?thesis
      using False unfolding IH by (simp add: drop Let_def field_of_def)
  qed
qed

lemma option_copy_spec:
  assumes "dhcpol_ok l" and "tag \<noteq> dhcptag_end_e" "tag \<noteq> dhcptag_pad_e"
  shows "dhcpol_option_copy l tag =
    (let ds = map snd (filter (\<lambda>(t, d). uint t = tag) (opts l))
     in Some (if ds = [] then None else Some (concat ds)))"
  using copy_loop_spec [OF assms(1,2), of "length (elems l)" 0 None] assms
  by (simp add: dhcpol_option_copy_def opts_def)

lemma find_with_length_spec:
  assumes "dhcpol_ok l" and "tag \<noteq> dhcptag_end_e" "tag \<noteq> dhcptag_pad_e"
    and "dhcpol_find_with_length l tag m = Some (Some val)"
  shows "m \<le> int (length val)"
  by (rule find_cases [OF assms(1-3)])
    (use assms(4) in \<open>auto simp: dhcpol_find_with_length_def split: if_splits\<close>)

lemma count_params_spec:
  assumes "dhcpol_ok l"
  shows "dhcpol_count_params l tags =
    Some (length (filter (\<lambda>t. t \<noteq> dhcptag_pad_e \<and> t \<noteq> dhcptag_end_e \<and> t \<in> fst ` set (opts l)) tags))"
proof (induction tags)
  case Nil
  then show ?case by simp
next
  case (Cons t tags)
  show ?case
  proof (cases "t = 0 \<or> t = 255")
    case True
    then show ?thesis using Cons by (auto simp: dhcpol_find_def)
  next
    case False
    have "uint t = 255 \<longleftrightarrow> t = 255" "uint t = 0 \<longleftrightarrow> t = 0"
      by (auto simp: word_uint_eq_iff)
    then have nt: "uint t \<noteq> 255" "uint t \<noteq> 0" using False by auto
    show ?thesis
    proof (rule find_cases [OF assms nt])
      assume a: "dhcpol_find l (uint t) 0 = Some None"
        "find (\<lambda>(ta, d). uint ta = uint t) (opts l) = None"
      then have "t \<notin> fst ` set (opts l)" by (force simp: find_None_iff)
      with a(1) Cons show ?thesis by simp
    next
      fix ta d rest j
      assume a: "dhcpol_find l (uint t) 0 = Some (Some (d @ rest, int (length d), j))"
        "find (\<lambda>(ta, d). uint ta = uint t) (opts l) = Some (ta, d)"
      then have "(ta, d) \<in> set (opts l)" "uint ta = uint t" by (auto dest: find_SomeD)
      then have "t \<in> fst ` set (opts l)" by (force simp: word_uint_eq_iff)
      with a(1) Cons False show ?thesis by simp
    qed
  qed
qed

section \<open>Vendor options\<close>

text \<open>Every occurrence of option 43 is a field run of its own; the runs are concatenated.\<close>

fun vendor_fields :: "u8 list list \<Rightarrow> field list option" where
  "vendor_fields [] = Some []"
| "vendor_fields (v # vs) =
     (case tlv_parse v of
        None \<Rightarrow> None
      | Some fs \<Rightarrow> map_option ((@) fs) (vendor_fields vs))"

definition occurrences :: "int \<Rightarrow> field list \<Rightarrow> u8 list list" where
  "occurrences tag fs = map snd (filter (\<lambda>(t, d). uint t = tag) fs)"

lemma parse_vendor_loop_enough:
  assumes "dhcpol_ok options"
  shows "dhcpol_ok vendor \<Longrightarrow> start \<le> length (elems options) \<Longrightarrow> length (elems options) - start < fuel \<Longrightarrow>
    (let vs = occurrences dhcptag_vendor_specific_e (opts_of (drop start (elems options)));
         r = parse_vendor_loop fuel options vendor start ret in
     case vendor_fields vs of
       None \<Rightarrow> \<exists>t. r = Some (Inl (ParseFailedNear t))
     | Some fs \<Rightarrow>
         if ret \<or> vs \<noteq> [] then \<exists>l. r = Some (Inr l) \<and> dhcpol_ok l \<and> opts l = opts vendor @ fs
         else r = Some (Inl MissingVendorOptions))"
proof (induction fuel arbitrary: vendor start ret)
  case 0
  then show ?case by simp
next
  case (Suc fuel)
  let ?fs = "opts_of (drop start (elems options))"
  note fspec = find_spec [OF assms Suc.prems(2), of dhcptag_vendor_specific_e]
  show ?case
  proof (cases "find (\<lambda>(t, d). uint t = dhcptag_vendor_specific_e) ?fs")
    case None
    then have "dhcpol_find options dhcptag_vendor_specific_e start = Some None"
      using fspec by simp
    moreover have "occurrences dhcptag_vendor_specific_e ?fs = []"
      using None by (simp add: occurrences_def find_None_filter)
    ultimately show ?thesis using Suc.prems(1) by (simp add: Let_def)
  next
    case (Some f)
    obtain t d where f: "f = (t, d)" by (cases f)
    obtain rest j where j: "dhcpol_find options dhcptag_vendor_specific_e start = Some (Some (d @ rest, int (length d), j))"
        "start < j" "j \<le> length (elems options)"
        "opts_of (drop j (elems options)) = tl (dropWhile (\<lambda>(t, d). uint t \<noteq> dhcptag_vendor_specific_e) ?fs)"
      using fspec Some by (auto simp: f)
    have neq: "(\<lambda>(t :: u8, d :: u8 list). uint t \<noteq> dhcptag_vendor_specific_e) =
        (\<lambda>x. \<not> (case x of (t, d) \<Rightarrow> uint t = dhcptag_vendor_specific_e))"
      by auto
    have occ: "occurrences dhcptag_vendor_specific_e ?fs =
        d # occurrences dhcptag_vendor_specific_e (opts_of (drop j (elems options)))"
      using find_Some_filter [OF Some] unfolding j(4) neq by (simp add: occurrences_def f)
    have dlen: "0 \<le> int (length d)" "nat (int (length d)) \<le> length (d @ rest)" by auto
    show ?thesis
    proof (cases rule: parse_bufferE [OF dlen])
      case (1 e)
      then show ?thesis using j(1) by (simp add: occ Let_def)
    next
      case (2 extra)
      obtain vendor' where v: "dhcpol_concat vendor extra = Some (True, vendor')" "dhcpol_ok vendor'"
          "opts vendor' = opts vendor @ opts extra"
        using dhcpol_concat_ok [OF Suc.prems(1) 2(2)] .
      have "length (elems options) - j < fuel" using j(2,3) Suc.prems(3) by linarith
      note IH = Suc.IH [OF v(2) j(3) this, of True]
      have "parse_vendor_loop (Suc fuel) options vendor start ret = parse_vendor_loop fuel options vendor' j True"
        using j(1) 2(1) v(1) by simp
      with IH 2(3) show ?thesis
        by (simp add: occ Let_def v(3) split: option.splits)
    qed
  qed
qed

lemma parse_vendor_spec:
  assumes "dhcpol_ok options"
  shows "let vs = occurrences dhcptag_vendor_specific_e (opts options);
             r = dhcpol_parse_vendor options in
     case vendor_fields vs of
       None \<Rightarrow> \<exists>t. r = Some (Inl (ParseFailedNear t))
     | Some fs \<Rightarrow>
         if vs \<noteq> [] then \<exists>l. r = Some (Inr l) \<and> dhcpol_ok l \<and> opts l = fs
         else r = Some (Inl MissingVendorOptions)"
  using parse_vendor_loop_enough [OF assms dhcpol_ok_init(1), of 0 "Suc (dhcpol_count options)" False] assms
  by (simp add: dhcpol_parse_vendor_def opts_def [of options] Let_def del: parse_vendor_loop.simps
      split: option.splits if_splits)

section \<open>Packets\<close>

definition area_fields :: "u8 list \<Rightarrow> field list" where
  "area_fields area = (case tlv_parse area of None \<Rightarrow> [] | Some fs \<Rightarrow> fs)"

text \<open>
  The fields of a packet of \<open>len\<close> bytes: those after the magic number, then those of the
  \<open>file\<close> and \<open>sname\<close> areas when an overload option of length one says so.
\<close>

definition overload_fields :: "dhcp \<Rightarrow> field list \<Rightarrow> field list" where
  "overload_fields pkt fs =
     (case find (\<lambda>(t, d). uint t = dhcptag_option_overload_e) fs of
        Some (_, [v]) \<Rightarrow>
          (if v = DHCP_OVERLOAD_FILE \<or> v = DHCP_OVERLOAD_BOTH then area_fields (dp_file pkt) else []) @
          (if v = DHCP_OVERLOAD_SNAME \<or> v = DHCP_OVERLOAD_BOTH then area_fields (dp_sname pkt) else [])
      | _ \<Rightarrow> [])"

definition packet_fields :: "dhcp \<Rightarrow> nat \<Rightarrow> field list option" where
  "packet_fields pkt len =
     (if len < 240 \<or> take 4 (dp_options pkt) \<noteq> rfc_magic then None
      else map_option (\<lambda>fs. fs @ overload_fields pkt fs)
             (tlv_parse (take (len - 240) (drop 4 (dp_options pkt)))))"

lemma parse_overload_ok:
  assumes "dhcpol_ok l" and "0 \<le> n" and "nat n \<le> length area"
  obtains l' where "parse_overload l area n = Some l'" "dhcpol_ok l'"
    "opts l' = opts l @ area_fields (take (nat n) area)"
proof (cases rule: parse_bufferE [OF assms(2,3)])
  case (1 t)
  with assms show ?thesis
    by (intro that [of l]) (simp_all add: parse_overload_def area_fields_def)
next
  case (2 extra)
  obtain l' where "dhcpol_concat l extra = Some (True, l')" "dhcpol_ok l'" "opts l' = opts l @ opts extra"
    using dhcpol_concat_ok [OF assms(1) 2(2)] .
  with 2 show ?thesis
    by (intro that [of l']) (simp_all add: parse_overload_def area_fields_def)
qed

lemma overload_step:
  assumes "dhcpol_ok l" and "0 \<le> n" and "nat n \<le> length area"
  obtains l' where "(if b then parse_overload l area n else Some l) = Some l'" "dhcpol_ok l'"
    "opts l' = opts l @ (if b then area_fields (take (nat n) area) else [])"
proof (cases b)
  case True
  with parse_overload_ok [OF assms] show ?thesis by (metis that)
next
  case False
  with assms(1) show ?thesis by (intro that [of l]) simp_all
qed

lemma parse_overloads_ok:
  assumes "dhcp_layout pkt" and "dhcpol_ok l"
  obtains l' where "parse_overloads pkt l = Some l'" "dhcpol_ok l'"
    "opts l' = opts l @ overload_fields pkt (opts l)"
proof -
  have tags: "dhcptag_option_overload_e \<noteq> (dhcptag_end_e :: int)" "dhcptag_option_overload_e \<noteq> (dhcptag_pad_e :: int)"
    by auto
  show ?thesis
  proof (cases rule: find_cases [OF assms(2) tags])
    case 1
    with assms(2) show ?thesis
      by (intro that [of l]) (simp_all add: parse_overloads_def overload_fields_def)
  next
    case (2 t d rest j)
    show ?thesis
    proof (cases "length d = 1")
      case False
      then have "overload_fields pkt (opts l) = []"
        using 2(2) by (cases d rule: remdups_adj.cases) (auto simp: overload_fields_def)
      with False 2(1) assms(2) show ?thesis
        by (intro that [of l]) (auto simp: parse_overloads_def)
    next
      case True
      then obtain v where d: "d = [v]" by (cases d) auto
      have fl: "0 \<le> sizeof_file" "nat sizeof_file \<le> length (dp_file pkt @ dp_options pkt)"
          "take (nat sizeof_file) (dp_file pkt @ dp_options pkt) = dp_file pkt"
        using assms(1) by (simp_all add: sizeof_file_def dhcp_layout_def)
      have sname: "0 \<le> sizeof_sname" "nat sizeof_sname \<le> length (dp_sname pkt @ dp_file pkt @ dp_options pkt)"
          "take (nat sizeof_sname) (dp_sname pkt @ dp_file pkt @ dp_options pkt) = dp_sname pkt"
        using assms(1) by (simp_all add: sizeof_sname_def dhcp_layout_def)
      obtain l1 where l1: "(if v = DHCP_OVERLOAD_FILE \<or> v = DHCP_OVERLOAD_BOTH
            then parse_overload l (dp_file pkt @ dp_options pkt) sizeof_file else Some l) = Some l1" "dhcpol_ok l1"
          "opts l1 = opts l @ (if v = DHCP_OVERLOAD_FILE \<or> v = DHCP_OVERLOAD_BOTH then area_fields (dp_file pkt) else [])"
        using overload_step [OF assms(2) fl(1,2)] unfolding fl(3) .
      obtain l2 where l2: "(if v = DHCP_OVERLOAD_SNAME \<or> v = DHCP_OVERLOAD_BOTH
            then parse_overload l1 (dp_sname pkt @ dp_file pkt @ dp_options pkt) sizeof_sname else Some l1) = Some l2" "dhcpol_ok l2"
          "opts l2 = opts l1 @ (if v = DHCP_OVERLOAD_SNAME \<or> v = DHCP_OVERLOAD_BOTH then area_fields (dp_sname pkt) else [])"
        using overload_step [OF l1(2) sname(1,2)] unfolding sname(3) .
      have "parse_overloads pkt l = Some l2"
        using d 2(1) l1(1) l2(1) by (simp add: parse_overloads_def rd_def)
      moreover have "opts l2 = opts l @ overload_fields pkt (opts l)"
        using d 2(2) by (simp add: l2(3) l1(3) overload_fields_def)
      ultimately show ?thesis using l2(2) that by blast
    qed
  qed
qed

lemma parse_packet_spec:
  assumes "dhcp_layout pkt" and "0 \<le> len" and "nat len \<le> 236 + length (dp_options pkt)"
  shows "case packet_fields pkt (nat len) of
       None \<Rightarrow> \<exists>e. dhcpol_parse_packet pkt len = Some (Inl e)
     | Some fs \<Rightarrow> \<exists>l. dhcpol_parse_packet pkt len = Some (Inr l) \<and> dhcpol_ok l \<and> opts l = fs"
proof (cases "nat len < 240 \<or> take 4 (dp_options pkt) \<noteq> rfc_magic")
  case True
  with assms show ?thesis
    by (auto simp: packet_fields_def dhcpol_parse_packet_def sizeof_dhcp_def RFC_MAGIC_SIZE_def rdn_def)
next
  case False
  let ?area = "drop 4 (dp_options pkt)" and ?n = "len - 240"
  have len: "240 \<le> len" using False by linarith
  have n: "0 \<le> ?n" "nat ?n \<le> length ?area" using len assms(3) by auto
  have m: "rdn (dp_options pkt) 0 4 = Some rfc_magic"
    using False len assms(3) by (simp add: rdn_def)
  have eq: "dhcpol_parse_packet pkt len = Option.bind (dhcpol_parse_buffer ?area ?n)
      (\<lambda>r. case r of Inl e \<Rightarrow> Some (Inl e) | Inr options \<Rightarrow> map_option Inr (parse_overloads pkt options))"
    using len m by (simp add: dhcpol_parse_packet_def sizeof_dhcp_def RFC_MAGIC_SIZE_def)
  have nn: "nat len - 240 = nat ?n" using len by linarith
  have pf: "packet_fields pkt (nat len) =
      map_option (\<lambda>fs. fs @ overload_fields pkt fs) (tlv_parse (take (nat ?n) ?area))"
    using False by (simp add: packet_fields_def nn)
  show ?thesis
  proof (cases rule: parse_bufferE [OF n])
    case (1 t)
    then show ?thesis by (simp add: eq pf)
  next
    case (2 l)
    obtain l' where "parse_overloads pkt l = Some l'" "dhcpol_ok l'"
        "opts l' = opts l @ overload_fields pkt (opts l)"
      using parse_overloads_ok [OF assms(1) 2(2)] .
    with 2 show ?thesis by (simp add: eq pf)
  qed
qed

section \<open>Properties\<close>

text \<open>C26. Parsing a packet of \<open>len\<close> received bytes reads nothing outside the packet and gives the
  fields of the option area followed by those of the overloaded areas, or an error when the packet
  is too short, has no magic number or ends inside an option.\<close>

theorem parse_packet_refines:
  assumes "dhcp_layout pkt" and "0 \<le> len" and "nat len \<le> 236 + length (dp_options pkt)"
  shows "case packet_fields pkt (nat len) of
       None \<Rightarrow> \<exists>e. dhcpol_parse_packet pkt len = Some (Inl e)
     | Some fs \<Rightarrow> \<exists>l. dhcpol_parse_packet pkt len = Some (Inr l) \<and> dhcpol_ok l \<and> opts l = fs"
  using assms by (rule parse_packet_spec)

definition sample_dhcp :: dhcp where
  "sample_dhcp = \<lparr>dp_op = 1, dp_htype = 1, dp_hlen = 6, dp_hops = 0, dp_xid = 7, dp_secs = 0, dp_flags = 0,
     dp_ciaddr = 0, dp_yiaddr = 0, dp_siaddr = 0, dp_giaddr = 0, dp_chaddr = replicate 16 0,
     dp_sname = replicate 64 0, dp_file = [12, 1, 88, 255] @ replicate 124 0,
     dp_options = [99, 130, 83, 99, 53, 1, 1, 0, 52, 1, 1, 255]\<rparr>"

theorem parse_packet_refines_witness:
  "\<exists>l. dhcpol_parse_packet sample_dhcp 248 = Some (Inr l) \<and> dhcpol_ok l \<and>
     opts l = [(53, [1]), (52, [1]), (12, [88])]"
  using parse_packet_refines [of sample_dhcp 248]
  by (simp add: sample_dhcp_def dhcp_layout_def packet_fields_def rfc_magic_def overload_fields_def area_fields_def)

text \<open>All occurrences of the vendor-specific option are parsed and their options concatenated
  in order; one malformed occurrence makes the whole parse fail, and no occurrence is an error.\<close>

theorem parse_vendor_refines:
  assumes "dhcpol_ok options"
  shows "let vs = occurrences dhcptag_vendor_specific_e (opts options);
             r = dhcpol_parse_vendor options in
     case vendor_fields vs of
       None \<Rightarrow> \<exists>t. r = Some (Inl (ParseFailedNear t))
     | Some fs \<Rightarrow>
         if vs \<noteq> [] then \<exists>l. r = Some (Inr l) \<and> dhcpol_ok l \<and> opts l = fs
         else r = Some (Inl MissingVendorOptions)"
  using assms by (rule parse_vendor_spec)

definition two_vendor_options :: dhcpol where
  "two_vendor_options = \<lparr>pl_array = Some [Some [43, 3, 1, 1, 9, 43, 2, 2, 0, 255], Some [43, 2, 2, 0, 255], Some [255]],
     pl_count = 3, pl_size = 3\<rparr>"

theorem parse_vendor_refines_witness:
  "\<exists>l. dhcpol_parse_vendor two_vendor_options = Some (Inr l) \<and> opts l = [(1, [9]), (2, [])]"
proof -
  have "dhcpol_ok two_vendor_options"
    by (simp add: two_vendor_options_def dhcpol_ok_def ptrlist_ok_def elems_def opt_ok_def)
  from parse_vendor_refines [OF this] show ?thesis
    by (simp add: two_vendor_options_def opts_def elems_def field_of_def occurrences_def split: if_splits)
      blast
qed

text \<open>Searching a parsed list for a tag finds the data of the first option with that tag, and
  copying an option concatenates the data of all its occurrences (the encoding of long options);
  neither reads outside an option.\<close>

theorem find_and_copy:
  assumes "dhcpol_ok l" and "tag \<noteq> dhcptag_end_e" "tag \<noteq> dhcptag_pad_e"
  shows "case occurrences tag (opts l) of
      [] \<Rightarrow> dhcpol_find l tag 0 = Some None \<and> dhcpol_option_copy l tag = Some None
    | d # ds \<Rightarrow> (\<exists>rest j. dhcpol_find l tag 0 = Some (Some (d @ rest, int (length d), j))) \<and>
        dhcpol_option_copy l tag = Some (Some (d @ concat ds))"
proof (cases rule: find_cases [OF assms])
  case 1
  then have "occurrences tag (opts l) = []" by (simp add: occurrences_def find_None_filter)
  with 1 option_copy_spec [OF assms] show ?thesis by (simp add: occurrences_def)
next
  case (2 t d rest j)
  then obtain ds where ds: "occurrences tag (opts l) = d # ds"
    using find_Some_filter [OF 2(2)] by (simp add: occurrences_def)
  then have "dhcpol_option_copy l tag = Some (Some (concat (d # ds)))"
    using option_copy_spec [OF assms] by (simp add: occurrences_def Let_def)
  with 2 ds show ?thesis by simp
qed

theorem find_and_copy_witness:
  "(\<exists>rest j. dhcpol_find two_vendor_options 43 0 = Some (Some ([1, 1, 9] @ rest, 3, j))) \<and>
   dhcpol_option_copy two_vendor_options 43 = Some (Some [1, 1, 9, 2, 0])"
proof -
  have "dhcpol_ok two_vendor_options"
    by (simp add: two_vendor_options_def dhcpol_ok_def ptrlist_ok_def elems_def opt_ok_def)
  from find_and_copy [OF this, of 43] show ?thesis
    by (simp add: two_vendor_options_def opts_def elems_def field_of_def occurrences_def)
qed

end
