(* ===== verification/DhcpOptionArea.thy ===== *)
theory DhcpOptionArea
  imports DhcpOptionFacts
begin

text \<open>
  Building of DHCP option areas: the \<open>dhcpoa_*\<close> half of \<open>bootplib/dhcp_options.c\<close>, and the proof
  that what it writes is what the parser reads.

  The record has the fields of \<open>struct dhcpoa_s\<close>; \<open>oa_buffer\<close> is the object the buffer pointer
  points to, which may be longer than \<open>oa_size\<close>.  C's \<open>int\<close> is \<open>int\<close>: offsets are bounded by the
  area_size of a packet.  \<open>bzero\<close> and \<open>bcopy\<close> with a negative count, which C turns into a huge one,
  leave the buffer and have the result \<open>None\<close>.
\<close>

section \<open>The operations (dhcp_options.c, dhcpoa)\<close>

datatype oa_errstr =
    OptionTooLong int int
  | NotInitialized
  | AfterEndTag
  | CantAddEndTag int int
  | CantAddPadTag int int
  | CantAddTag int int int
  | VendorOption int int int

datatype dhcpoa_ret = dhcpoa_success_e | dhcpoa_failed_e | dhcpoa_full_e

record dhcpoa =
  oa_magic :: nat
  oa_buffer :: "u8 list"
  oa_size :: int
  oa_offset :: int
  oa_end_tag :: bool
  oa_last :: int
  oa_prev_last :: int
  oa_option_count :: int
  oa_err :: "oa_errstr option"
  oa_reserve :: int

definition DHCPOA_MAGIC :: nat where
  "DHCPOA_MAGIC = 0x11223344"

definition DHCP_OPTION_SIZE_MAX :: int where
  "DHCP_OPTION_SIZE_MAX = 255"

definition OPTION_OFFSET :: int where
  "OPTION_OFFSET = 2"

definition bzero :: "u8 list \<Rightarrow> int \<Rightarrow> u8 list option" where
  "bzero p n = (if n < 0 then None else wrn p 0 (replicate (nat n) 0))"

definition dhcpoa_init_common :: "u8 list \<Rightarrow> int \<Rightarrow> int \<Rightarrow> dhcpoa option" where
  "dhcpoa_init_common buffer area_size reserve = do {
     b \<leftarrow> bzero buffer area_size;
     Some \<lparr>oa_magic = DHCPOA_MAGIC, oa_buffer = b, oa_size = area_size, oa_offset = 0,
           oa_end_tag = False, oa_last = 0, oa_prev_last = 0, oa_option_count = 0,
           oa_err = None, oa_reserve = reserve\<rparr> }"

definition dhcpoa_init_no_end :: "u8 list \<Rightarrow> int \<Rightarrow> dhcpoa option" where
  "dhcpoa_init_no_end buffer area_size = dhcpoa_init_common buffer area_size 0"

definition dhcpoa_init :: "u8 list \<Rightarrow> int \<Rightarrow> dhcpoa option" where
  "dhcpoa_init buffer area_size = dhcpoa_init_common buffer area_size 1"

definition dhcpoa_size :: "dhcpoa \<Rightarrow> int" where
  "dhcpoa_size oa = oa_size oa"

definition dhcpoa_used :: "dhcpoa \<Rightarrow> int" where
  "dhcpoa_used oa = (if oa_magic oa \<noteq> DHCPOA_MAGIC then 0 else oa_offset oa)"

definition dhcpoa_freespace :: "dhcpoa \<Rightarrow> int" where
  "dhcpoa_freespace oa =
     (if oa_magic oa \<noteq> DHCPOA_MAGIC then 0
      else let freespace = oa_size oa - oa_offset oa - oa_reserve oa in
           if freespace < 0 then 0 else freespace)"

definition dhcpoa_count :: "dhcpoa \<Rightarrow> int" where
  "dhcpoa_count oa = (if oa_magic oa \<noteq> DHCPOA_MAGIC then 0 else oa_option_count oa)"

definition dhcpoa_buffer :: "dhcpoa \<Rightarrow> u8 list option" where
  "dhcpoa_buffer oa = (if oa_magic oa \<noteq> DHCPOA_MAGIC then None else Some (oa_buffer oa))"

text \<open>A store through \<open>oa_buffer\<close> at a signed index, and \<open>bcopy\<close> of \<open>len\<close> bytes to one.\<close>

definition put :: "u8 list \<Rightarrow> int \<Rightarrow> u8 \<Rightarrow> u8 list option" where
  "put b i x = (if i < 0 then None else wr b (nat i) x)"

definition bcopy_to :: "u8 list \<Rightarrow> u8 list \<Rightarrow> int \<Rightarrow> int \<Rightarrow> u8 list option" where
  "bcopy_to src b i len =
     (if len = 0 then Some b
      else if i < 0 \<or> len < 0 then None
      else do { xs \<leftarrow> rdn src 0 (nat len); wrn b (nat i) xs })"

definition fail :: "dhcpoa \<Rightarrow> oa_errstr \<Rightarrow> dhcpoa_ret \<Rightarrow> (dhcpoa_ret \<times> dhcpoa) option" where
  "fail oa e r = Some (r, oa\<lparr>oa_err := Some e\<rparr>)"

definition dhcpoa_add :: "dhcpoa \<Rightarrow> int \<Rightarrow> int \<Rightarrow> u8 list \<Rightarrow> (dhcpoa_ret \<times> dhcpoa) option" where
  "dhcpoa_add oa0 tag len option =
     (let oa = oa0\<lparr>oa_err := None\<rparr> in
      if len > DHCP_OPTION_SIZE_MAX then
        fail oa (OptionTooLong tag len) dhcpoa_failed_e
      else if oa_magic oa \<noteq> DHCPOA_MAGIC then fail oa NotInitialized dhcpoa_failed_e
      else if oa_end_tag oa then fail oa AfterEndTag dhcpoa_failed_e
      else if tag = dhcptag_end_e then
        if oa_offset oa + 1 > oa_size oa then
          fail oa (CantAddEndTag (oa_offset oa + oa_reserve oa) (oa_size oa)) dhcpoa_failed_e
        else do {
          b \<leftarrow> put (oa_buffer oa) (oa_offset oa) (word_of_int tag);
          Some (dhcpoa_success_e,
            oa\<lparr>oa_buffer := b, oa_offset := oa_offset oa + 1, oa_end_tag := True,
               oa_option_count := oa_option_count oa + 1\<rparr>) }
      else if tag = dhcptag_pad_e then
        if oa_offset oa + oa_reserve oa + 1 > oa_size oa then
          fail oa (CantAddPadTag (oa_offset oa + oa_reserve oa + 1) (oa_size oa)) dhcpoa_full_e
        else do {
          b \<leftarrow> put (oa_buffer oa) (oa_offset oa) (word_of_int tag);
          Some (dhcpoa_success_e,
            oa\<lparr>oa_buffer := b, oa_offset := oa_offset oa + 1,
               oa_option_count := oa_option_count oa + 1\<rparr>) }
      else
        if oa_offset oa + len + 2 + oa_reserve oa > oa_size oa then
          fail oa (CantAddTag tag (oa_offset oa + len + 2 + oa_reserve oa) (oa_size oa)) dhcpoa_full_e
        else do {
          b1 \<leftarrow> put (oa_buffer oa) (oa_offset oa) (word_of_int tag);
          b2 \<leftarrow> put b1 (oa_offset oa + 1) (word_of_int len);
          b3 \<leftarrow> bcopy_to option b2 (OPTION_OFFSET + oa_offset oa) len;
          Some (dhcpoa_success_e,
            oa\<lparr>oa_buffer := b3, oa_prev_last := oa_last oa, oa_last := oa_offset oa,
               oa_offset := oa_offset oa + (len + OPTION_OFFSET),
               oa_option_count := oa_option_count oa + 1\<rparr>) })"

definition dhcpoa_add_dhcpmsg :: "dhcpoa \<Rightarrow> u8 \<Rightarrow> (dhcpoa_ret \<times> dhcpoa) option" where
  "dhcpoa_add_dhcpmsg oa msgtype = dhcpoa_add oa dhcptag_dhcp_message_type_e 1 [msgtype]"

text \<open>
  \<open>dhcpoa_vendor_add\<close>: the result has the packet's area and the vendor area.  When the vendor
  area is full it is flushed into the packet and started again.
\<close>

definition dhcpoa_vendor_add ::
  "dhcpoa \<Rightarrow> dhcpoa \<Rightarrow> int \<Rightarrow> int \<Rightarrow> u8 list \<Rightarrow> (dhcpoa_ret \<times> dhcpoa \<times> dhcpoa) option" where
  "dhcpoa_vendor_add oa0 vendor tag len option =
     (let oa = oa0\<lparr>oa_err := None\<rparr> in
      if len > DHCP_OPTION_SIZE_MAX - OPTION_OFFSET then
        Some (dhcpoa_failed_e, oa,
          vendor\<lparr>oa_err := Some (VendorOption tag len (DHCP_OPTION_SIZE_MAX - OPTION_OFFSET))\<rparr>)
      else let freespace = dhcpoa_freespace vendor - OPTION_OFFSET in
        if freespace < len then do {
          b \<leftarrow> dhcpoa_buffer vendor;
          (ret, oa1) \<leftarrow> dhcpoa_add oa dhcptag_vendor_specific_e (dhcpoa_used vendor) b;
          if ret \<noteq> dhcpoa_success_e then
            Some (ret, oa1, vendor\<lparr>oa_err := Some (VendorOption tag len freespace)\<rparr>)
          else do {
            let free1 = dhcpoa_freespace oa1 - OPTION_OFFSET;
            let free2 = (if free1 > dhcpoa_size vendor then dhcpoa_size vendor else free1);
            vendor1 \<leftarrow> dhcpoa_init_no_end b free2;
            (ret2, vendor2) \<leftarrow> dhcpoa_add vendor1 tag len option;
            Some (ret2, oa1, vendor2) } }
        else do {
          (ret, vendor1) \<leftarrow> dhcpoa_add vendor tag len option;
          Some (ret, oa, vendor1) })"

section \<open>The invariant\<close>

text \<open>The area lies inside its buffer, and room for the end tag is kept until it is written.\<close>

definition oa_ok :: "dhcpoa \<Rightarrow> bool" where
  "oa_ok oa \<longleftrightarrow> oa_magic oa = DHCPOA_MAGIC \<and> 0 \<le> oa_offset oa \<and> (oa_reserve oa = 0 \<or> oa_reserve oa = 1) \<and>
     oa_size oa \<le> int (length (oa_buffer oa)) \<and>
     (if oa_end_tag oa then oa_offset oa \<le> oa_size oa else oa_offset oa + oa_reserve oa \<le> oa_size oa)"

text \<open>
  \<open>oa_holds oa fs\<close>: what is written so far is read as the fields \<open>fs\<close>, whatever follows it.
\<close>

definition written :: "dhcpoa \<Rightarrow> u8 list" where
  "written oa = take (nat (oa_offset oa)) (oa_buffer oa)"

definition oa_holds :: "dhcpoa \<Rightarrow> field list \<Rightarrow> bool" where
  "oa_holds oa fs \<longleftrightarrow> oa_ok oa \<and> \<not> oa_end_tag oa \<and>
     (\<forall>rest. tlv_parse (written oa @ rest) = map_option ((@) fs) (tlv_parse rest))"

lemma map_option_append_Nil: "map_option ((@) []) r = r"
  by (cases r) simp_all

lemma oa_init_holds:
  assumes "0 \<le> area_size" "nat area_size \<le> length buffer" "r = 0 \<or> r = 1" "r \<le> area_size"
  obtains oa where "dhcpoa_init_common buffer area_size r = Some oa" "oa_holds oa []" "oa_size oa = area_size"
    "oa_reserve oa = r" "oa_offset oa = 0" "length (oa_buffer oa) = length buffer"
proof -
  obtain b where "wrn buffer 0 (replicate (nat area_size) 0) = Some b" "length b = length buffer"
    using assms(2) by (auto simp: wrn_def)
  with assms show ?thesis
    by (intro that) (auto simp: dhcpoa_init_common_def bzero_def oa_holds_def oa_ok_def written_def map_option_append_Nil)
qed

lemma write_at:
  assumes "n + length xs \<le> length b"
  shows "take (n + length xs) (take n b @ xs @ drop (n + length xs) b) = take n b @ xs"
  using assms by simp

lemma put_put_copy:
  assumes "n + 2 + length d \<le> length b" "0 \<le> len" "length d = nat len" "nat len \<le> length opt" "d = take (nat len) opt"
  shows "do { b1 \<leftarrow> put b (int n) x; b2 \<leftarrow> put b1 (int n + 1) y; bcopy_to opt b2 (2 + int n) len } =
    Some (take n b @ (x # y # d) @ drop (n + 2 + length d) b)"
proof -
  have n1: "nat (int n + 1) = Suc n" "nat (2 + int n) = n + 2" by linarith+
  have upd: "b[n := x, Suc n := y] = take n b @ x # y # drop (n + 2) b"
  proof -
    have "drop (Suc n) b = b ! Suc n # drop (n + 2) b"
      using assms(1) Cons_nth_drop_Suc [of "Suc n" b] by simp
    then show ?thesis
      using assms(1) by (simp add: upd_conv_take_nth_drop [of n b x] list_update_append)
  qed
  show ?thesis
  proof (cases "len = 0")
    case True
    with assms show ?thesis by (simp add: put_def wr_def n1 bcopy_to_def upd)
  next
    case False
    have "rdn opt 0 (nat len) = Some d" using assms by (simp add: rdn_def)
    moreover have "wrn (b[n := x, Suc n := y]) (n + 2) d = Some (take n b @ (x # y # d) @ drop (n + 2 + length d) b)"
    proof -
      have l: "length (take n b) = n" "n + length d \<le> length b - 2" using assms(1) by auto
      then show ?thesis
        unfolding upd using assms(1) by (simp add: wrn_def min_absorb2 add.commute [of n])
    qed
    ultimately show ?thesis
      using False assms by (simp add: put_def wr_def n1 bcopy_to_def)
  qed
qed

section \<open>Every addition keeps the invariant\<close>

text \<open>An option that fits is written behind the ones before it, and read back as added.\<close>

lemma tlv_parse_option:
  assumes "t \<noteq> dhcptag_end_e" "t \<noteq> dhcptag_pad_e" "unat n = length d"
  shows "tlv_parse (t # n # d @ rest) = map_option (Cons (t, d)) (tlv_parse rest)"
  using assms by simp

lemma dhcpoa_add_option:
  assumes oa: "oa_holds oa fs" and tag: "0 < tag" "tag < dhcptag_end_e"
    and len: "0 \<le> len" "len \<le> DHCP_OPTION_SIZE_MAX" "nat len \<le> length opt"
    and fits: "oa_offset oa + len + 2 + oa_reserve oa \<le> oa_size oa"
  obtains oa' where "dhcpoa_add oa tag len opt = Some (dhcpoa_success_e, oa')"
    "oa_holds oa' (fs @ [(word_of_int tag, take (nat len) opt)])"
    "oa_offset oa' = oa_offset oa + len + 2" "oa_size oa' = oa_size oa" "oa_reserve oa' = oa_reserve oa"
    "length (oa_buffer oa') = length (oa_buffer oa)" "oa_option_count oa' = oa_option_count oa + 1"
proof -
  let ?n = "nat (oa_offset oa)" and ?d = "take (nat len) opt"
  let ?b = "take ?n (oa_buffer oa) @ (word_of_int tag # word_of_int len # ?d) @ drop (?n + 2 + length ?d) (oa_buffer oa)"
  let ?oa = "oa\<lparr>oa_err := None, oa_buffer := ?b, oa_prev_last := oa_last oa, oa_last := oa_offset oa,
               oa_offset := oa_offset oa + (len + 2), oa_option_count := oa_option_count oa + 1\<rparr>"
  have ok: "oa_ok oa" "\<not> oa_end_tag oa" using oa by (auto simp: oa_holds_def)
  have off: "int ?n = oa_offset oa" using ok by (simp add: oa_ok_def)
  have res: "0 \<le> oa_reserve oa" using ok by (auto simp: oa_ok_def)
  have dl: "length ?d = nat len" using len(3) by simp
  have room: "?n + 2 + length ?d \<le> length (oa_buffer oa)"
    using ok fits res len(1) off unfolding dl oa_ok_def by linarith
  note store = put_put_copy [OF room len(1) dl len(3) refl, of "word_of_int tag" "word_of_int len", unfolded off]
  have add: "dhcpoa_add oa tag len opt = Some (dhcpoa_success_e, ?oa)"
    using ok tag len fits
    unfolding dhcpoa_add_def Let_def OPTION_OFFSET_def
    by (simp add: oa_ok_def) (use store in \<open>auto simp: bind_eq_Some_conv\<close>)
  have wt: "(word_of_int tag :: u8) \<noteq> 255" "(word_of_int tag :: u8) \<noteq> 0"
    using tag by (auto simp: word_uint_eq_iff uint_word_of_int)
  have wl: "unat (word_of_int len :: u8) = nat len"
    using len by (simp add: unat_eq_nat_uint uint_word_of_int DHCP_OPTION_SIZE_MAX_def)
  have "nat (oa_offset oa + (len + 2)) = ?n + length (word_of_int tag # word_of_int len # ?d :: u8 list)"
  proof -
    have "length (word_of_int tag # word_of_int len # ?d :: u8 list) = nat len + 2" using dl by simp
    then show ?thesis using off len(1) by linarith
  qed
  then have wr: "written ?oa = written oa @ word_of_int tag # word_of_int len # ?d"
    unfolding written_def using room len(3) by (simp add: min_absorb2)
  have holds: "tlv_parse (written ?oa @ rest) = map_option ((@) (fs @ [(word_of_int tag, ?d)])) (tlv_parse rest)" for rest
  proof -
    have "tlv_parse (written ?oa @ rest) =
        map_option ((@) fs) (tlv_parse (word_of_int tag # word_of_int len # ?d @ rest))"
      using oa unfolding wr by (simp add: oa_holds_def)
    also have "\<dots> = map_option ((@) fs) (map_option (Cons (word_of_int tag, ?d)) (tlv_parse rest))"
      by (subst tlv_parse_option) (use wt wl dl in simp_all)
    finally show ?thesis by (cases "tlv_parse rest") simp_all
  qed
  have "oa_ok ?oa"
    using ok len(1) fits room by (auto simp: oa_ok_def)
  with holds ok add room show ?thesis
    by (intro that [of ?oa]) (simp_all add: oa_holds_def)
qed

lemma dhcpoa_add_full:
  assumes "oa_holds oa fs" "0 < tag" "tag < dhcptag_end_e" "len \<le> DHCP_OPTION_SIZE_MAX"
    and "oa_offset oa + len + 2 + oa_reserve oa > oa_size oa"
  obtains e where "dhcpoa_add oa tag len opt = Some (dhcpoa_full_e, oa\<lparr>oa_err := Some e\<rparr>)"
  using assms by (auto simp: dhcpoa_add_def oa_holds_def oa_ok_def fail_def Let_def)

lemma dhcpoa_add_too_long:
  "len > DHCP_OPTION_SIZE_MAX \<Longrightarrow>
   dhcpoa_add oa tag len opt = Some (dhcpoa_failed_e, oa\<lparr>oa_err := Some (OptionTooLong tag len)\<rparr>)"
  by (simp add: dhcpoa_add_def fail_def Let_def)

lemma oa_holds_err [simp]: "oa_holds (oa\<lparr>oa_err := e\<rparr>) fs = oa_holds oa fs"
  by (simp add: oa_holds_def oa_ok_def written_def)

text \<open>The end tag always fits when its room was reserved; the area is then read as its fields.\<close>

lemma dhcpoa_add_end:
  assumes oa: "oa_holds oa fs" and room: "oa_offset oa + 1 \<le> oa_size oa" and l: "len \<le> DHCP_OPTION_SIZE_MAX"
  obtains oa' where "dhcpoa_add oa dhcptag_end_e len opt = Some (dhcpoa_success_e, oa')"
    "oa_ok oa'" "oa_end_tag oa'" "\<And>rest. tlv_parse (written oa' @ rest) = Some fs" "oa_offset oa' = oa_offset oa + 1"
    "oa_size oa' = oa_size oa" "length (oa_buffer oa') = length (oa_buffer oa)"
proof -
  let ?n = "nat (oa_offset oa)"
  let ?b = "(oa_buffer oa)[?n := 255]"
  let ?oa = "oa\<lparr>oa_err := None, oa_buffer := ?b, oa_offset := oa_offset oa + 1, oa_end_tag := True,
               oa_option_count := oa_option_count oa + 1\<rparr>"
  have ok: "oa_ok oa" "\<not> oa_end_tag oa" using oa by (auto simp: oa_holds_def)
  have n: "?n < length (oa_buffer oa)" "nat (oa_offset oa + 1) = Suc ?n" "0 \<le> oa_offset oa"
    using ok room unfolding oa_ok_def by linarith+
  have add: "dhcpoa_add oa dhcptag_end_e len opt = Some (dhcpoa_success_e, ?oa)"
    using ok room l n by (simp add: dhcpoa_add_def Let_def oa_ok_def put_def wr_def)
  have "written ?oa = written oa @ [255]"
    using n by (simp add: written_def take_Suc_conv_app_nth)
  then have "tlv_parse (written ?oa @ rest) = Some fs" for rest
    using oa by (simp add: oa_holds_def)
  moreover have "oa_ok ?oa" using ok room by (auto simp: oa_ok_def)
  ultimately show ?thesis using add by (intro that [of ?oa]) simp_all
qed

section \<open>Whole areas\<close>

text \<open>
  A server builds an area by initialising it, adding its options and writing the end tag;
  \<open>add_all\<close> stops at the first option that is refused, as the callers do.
\<close>

fun add_all :: "dhcpoa \<Rightarrow> (int \<times> u8 list) list \<Rightarrow> (dhcpoa_ret \<times> dhcpoa) option" where
  "add_all oa [] = Some (dhcpoa_success_e, oa)"
| "add_all oa ((tag, d) # os) = do {
     (ret, oa') \<leftarrow> dhcpoa_add oa tag (int (length d)) d;
     if ret \<noteq> dhcpoa_success_e then Some (ret, oa') else add_all oa' os }"

definition build_area :: "u8 list \<Rightarrow> int \<Rightarrow> (int \<times> u8 list) list \<Rightarrow> (dhcpoa_ret \<times> dhcpoa) option" where
  "build_area buffer sz os = do {
     oa \<leftarrow> dhcpoa_init buffer sz;
     (ret, oa') \<leftarrow> add_all oa os;
     if ret \<noteq> dhcpoa_success_e then Some (ret, oa') else dhcpoa_add oa' dhcptag_end_e 0 [] }"

definition legal :: "int \<times> u8 list \<Rightarrow> bool" where
  "legal td \<longleftrightarrow> 0 < fst td \<and> fst td < dhcptag_end_e \<and> length (snd td) \<le> 255"

definition space :: "(int \<times> u8 list) list \<Rightarrow> int" where
  "space os = (\<Sum>(t, d) \<leftarrow> os. int (length d) + 2)"

definition as_field :: "int \<times> u8 list \<Rightarrow> field" where
  "as_field td = (word_of_int (fst td), snd td)"

lemma space_nonneg: "0 \<le> space os"
  unfolding space_def by (induction os) (auto simp: case_prod_unfold)

lemma space_Cons: "space ((t, d) # os) = int (length d) + 2 + space os"
  by (simp add: space_def)

lemma add_all_holds:
  assumes "oa_holds oa fs" and "\<forall>td \<in> set os. legal td"
  shows "if oa_offset oa + space os + oa_reserve oa \<le> oa_size oa
    then \<exists>oa'. add_all oa os = Some (dhcpoa_success_e, oa') \<and> oa_holds oa' (fs @ map as_field os) \<and>
           oa_offset oa' = oa_offset oa + space os \<and> oa_size oa' = oa_size oa \<and> oa_reserve oa' = oa_reserve oa \<and>
           length (oa_buffer oa') = length (oa_buffer oa)
    else \<exists>oa'. add_all oa os = Some (dhcpoa_full_e, oa')"
  using assms
proof (induction os arbitrary: oa fs)
  case Nil
  then show ?case by (auto simp: space_def oa_holds_def oa_ok_def)
next
  case (Cons td os)
  obtain t d where td: "td = (t, d)" by (cases td)
  have lg: "0 < t" "t < dhcptag_end_e" "0 \<le> int (length d)" "int (length d) \<le> DHCP_OPTION_SIZE_MAX"
      "nat (int (length d)) \<le> length d"
    using Cons.prems(2) by (auto simp: td legal_def DHCP_OPTION_SIZE_MAX_def)
  show ?case
  proof (cases "oa_offset oa + int (length d) + 2 + oa_reserve oa \<le> oa_size oa")
    case True
    obtain oa1 where oa1: "dhcpoa_add oa t (int (length d)) d = Some (dhcpoa_success_e, oa1)"
        "oa_holds oa1 (fs @ [as_field (t, d)])" "oa_offset oa1 = oa_offset oa + int (length d) + 2"
        "oa_size oa1 = oa_size oa" "oa_reserve oa1 = oa_reserve oa" "length (oa_buffer oa1) = length (oa_buffer oa)"
      using dhcpoa_add_option [OF Cons.prems(1) lg True] by (auto simp: as_field_def)
    have "add_all oa (td # os) = add_all oa1 os" using oa1(1) by (simp add: td)
    with Cons.IH [OF oa1(2)] Cons.prems(2) oa1(3-6) show ?thesis
      by (simp add: td space_Cons algebra_simps split: if_splits)
  next
    case False
    obtain e where "dhcpoa_add oa t (int (length d)) d = Some (dhcpoa_full_e, oa\<lparr>oa_err := Some e\<rparr>)"
      using dhcpoa_add_full [OF Cons.prems(1) lg(1,2,4)] False by (meson not_le)
    with False space_nonneg [of os] show ?thesis by (simp add: td space_Cons)
  qed
qed

lemma build_area_spec:
  assumes "1 \<le> sz" "nat sz \<le> length buffer" and "\<forall>td \<in> set os. legal td"
  shows "if space os + 1 \<le> sz
    then \<exists>oa. build_area buffer sz os = Some (dhcpoa_success_e, oa) \<and> dhcpoa_used oa = space os + 1 \<and>
           oa_ok oa \<and> length (oa_buffer oa) = length buffer \<and>
           (\<forall>rest. tlv_parse (written oa @ rest) = Some (map as_field os))
    else \<exists>oa. build_area buffer sz os = Some (dhcpoa_full_e, oa)"
proof -
  obtain oa where oa: "dhcpoa_init buffer sz = Some oa" "oa_holds oa []" "oa_size oa = sz"
      "oa_reserve oa = 1" "oa_offset oa = 0" "length (oa_buffer oa) = length buffer"
    using oa_init_holds [of sz buffer 1] assms by (auto simp: dhcpoa_init_def)
  show ?thesis
  proof (cases "space os + 1 \<le> sz")
    case True
    then obtain oa1 where oa1: "add_all oa os = Some (dhcpoa_success_e, oa1)" "oa_holds oa1 (map as_field os)"
        "oa_offset oa1 = space os" "oa_size oa1 = sz" "length (oa_buffer oa1) = length buffer"
      using add_all_holds [OF oa(2) assms(3)] oa(3-6) by auto
    have "0 \<le> DHCP_OPTION_SIZE_MAX" by (simp add: DHCP_OPTION_SIZE_MAX_def)
    from dhcpoa_add_end [OF oa1(2) _ this, of "[]"] True oa1
    obtain oa2 where "dhcpoa_add oa1 dhcptag_end_e 0 [] = Some (dhcpoa_success_e, oa2)"
        "oa_ok oa2" "\<And>rest. tlv_parse (written oa2 @ rest) = Some (map as_field os)" "oa_offset oa2 = space os + 1"
        "length (oa_buffer oa2) = length buffer"
      by auto
    moreover have "oa_magic oa2 = DHCPOA_MAGIC" using calculation(2) by (simp add: oa_ok_def)
    ultimately show ?thesis using True oa(1) oa1(1)
      by (simp add: build_area_def dhcpoa_used_def)
  next
    case False
    then obtain oa1 where "add_all oa os = Some (dhcpoa_full_e, oa1)"
      using add_all_holds [OF oa(2) assms(3)] oa(3-6) by auto
    with False oa(1) show ?thesis by (simp add: build_area_def)
  qed
qed

lemma parse_written:
  assumes "oa_ok oa" "\<And>rest. tlv_parse (written oa @ rest) = Some fs"
    and "oa_offset oa \<le> n" "nat n \<le> length (oa_buffer oa)"
  shows "\<exists>l. dhcpol_parse_buffer (oa_buffer oa) n = Some (Inr l) \<and> dhcpol_ok l \<and> opts l = fs"
proof -
  have n: "0 \<le> n" "nat (oa_offset oa) \<le> nat n" using assms by (auto simp: oa_ok_def)
  obtain k where k: "nat n = nat (oa_offset oa) + k" using n(2) le_Suc_ex by blast
  have "take (nat n) (oa_buffer oa) = written oa @ take k (drop (nat (oa_offset oa)) (oa_buffer oa))"
    by (simp add: k written_def take_add)
  with parse_buffer_refines [OF n(1) assms(4)] assms(2) show ?thesis by simp
qed

section \<open>Vendor options spread over several areas\<close>

text \<open>
  The stream of vendor options a receiver sees: those flushed into the packet so far, then those
  still in the vendor area.  An addition appends to the stream, provided a flush leaves two bytes
  of room in the packet; otherwise the new vendor area gets a negative size.
\<close>

lemma vendor_fields_append:
  "vendor_fields (xs @ ys) = Option.bind (vendor_fields xs) (\<lambda>a. map_option ((@) a) (vendor_fields ys))"
proof (induction xs)
  case Nil
  then show ?case by (cases "vendor_fields ys") simp_all
next
  case (Cons x xs)
  then show ?case
    by (cases "tlv_parse x"; cases "vendor_fields xs"; cases "vendor_fields ys") simp_all
qed

lemma occurrences_append: "occurrences tag (xs @ ys) = occurrences tag xs @ occurrences tag ys"
  by (simp add: occurrences_def)

lemma dhcpoa_add_total:
  assumes "oa_holds oa fs" "0 < tag" "tag < dhcptag_end_e" "0 \<le> len" "nat len \<le> length opt"
  obtains ret oa' where "dhcpoa_add oa tag len opt = Some (ret, oa')"
    "oa_holds oa' (fs @ (if ret = dhcpoa_success_e then [(word_of_int tag, take (nat len) opt)] else []))"
    "ret = dhcpoa_success_e \<longrightarrow> oa_offset oa' = oa_offset oa + len + 2 \<and> oa_size oa' = oa_size oa \<and> oa_reserve oa' = oa_reserve oa"
proof (cases "len \<le> DHCP_OPTION_SIZE_MAX")
  case False
  then show ?thesis using assms(1) that dhcpoa_add_too_long [of len oa tag opt] by fastforce
next
  case True
  show ?thesis
  proof (cases "oa_offset oa + len + 2 + oa_reserve oa \<le> oa_size oa")
    case True
    obtain oa' where "dhcpoa_add oa tag len opt = Some (dhcpoa_success_e, oa')"
        "oa_holds oa' (fs @ [(word_of_int tag, take (nat len) opt)])"
        "oa_offset oa' = oa_offset oa + len + 2" "oa_size oa' = oa_size oa" "oa_reserve oa' = oa_reserve oa"
      by (rule dhcpoa_add_option [OF assms(1-4) \<open>len \<le> DHCP_OPTION_SIZE_MAX\<close> assms(5) True])
    then show ?thesis by (intro that [of dhcpoa_success_e oa']) simp_all
  next
    case False
    then have "oa_offset oa + len + 2 + oa_reserve oa > oa_size oa" by simp
    from dhcpoa_add_full [OF assms(1-3) True this, of opt] assms(1) that show ?thesis by fastforce
  qed
qed

lemma vendor_add_stream:
  assumes oa: "oa_holds oa fs" and v: "oa_holds v vs"
    and tag: "0 < tag" "tag < dhcptag_end_e" and len: "0 \<le> len" "nat len \<le> length opt"
    and ws: "vendor_fields (occurrences dhcptag_vendor_specific_e fs) = Some ws"
    and room: "oa_offset oa + oa_offset v + 2 + oa_reserve oa \<le> oa_size oa \<Longrightarrow>
      oa_offset oa + oa_offset v + 4 + oa_reserve oa \<le> oa_size oa"
  shows "\<exists>ret oa' v' fs' vs' ws'. dhcpoa_vendor_add oa v tag len opt = Some (ret, oa', v') \<and>
     oa_holds oa' fs' \<and> oa_holds v' vs' \<and> vendor_fields (occurrences dhcptag_vendor_specific_e fs') = Some ws' \<and>
     ws' @ vs' = ws @ vs @ (if ret = dhcpoa_success_e then [(word_of_int tag, take (nat len) opt)] else [])"
proof -
  let ?oa = "oa\<lparr>oa_err := None\<rparr>"
  have magic: "oa_magic v = DHCPOA_MAGIC" "oa_magic oa = DHCPOA_MAGIC" using oa v by (auto simp: oa_holds_def oa_ok_def)
  have vo: "0 \<le> oa_offset v" "nat (oa_offset v) \<le> length (oa_buffer v)"
    using v by (auto simp: oa_holds_def oa_ok_def)
  have oa': "oa_holds ?oa fs" using oa by simp
  consider (long) "len > DHCP_OPTION_SIZE_MAX - OPTION_OFFSET"
    | (here) "len \<le> DHCP_OPTION_SIZE_MAX - OPTION_OFFSET" "len \<le> dhcpoa_freespace v - OPTION_OFFSET"
    | (flush) "len \<le> DHCP_OPTION_SIZE_MAX - OPTION_OFFSET" "dhcpoa_freespace v - OPTION_OFFSET < len"
    by linarith
  then show ?thesis
  proof cases
    case long
    then show ?thesis using oa' v ws by (auto simp: dhcpoa_vendor_add_def Let_def)
  next
    case here
    obtain ret v' where "dhcpoa_add v tag len opt = Some (ret, v')"
        "oa_holds v' (vs @ (if ret = dhcpoa_success_e then [(word_of_int tag, take (nat len) opt)] else []))"
      using dhcpoa_add_total [OF v tag len] by blast
    with here oa' ws show ?thesis by (auto simp: dhcpoa_vendor_add_def Let_def)
  next
    case flush
    have tag43: "(0 :: int) < dhcptag_vendor_specific_e" "dhcptag_vendor_specific_e < (dhcptag_end_e :: int)" by auto
    obtain ret oa1 where oa1: "dhcpoa_add ?oa dhcptag_vendor_specific_e (oa_offset v) (oa_buffer v) = Some (ret, oa1)"
        "oa_holds oa1 (fs @ (if ret = dhcpoa_success_e then [(word_of_int 43, take (nat (oa_offset v)) (oa_buffer v))] else []))"
        "ret = dhcpoa_success_e \<longrightarrow> oa_offset oa1 = oa_offset ?oa + oa_offset v + 2 \<and> oa_size oa1 = oa_size ?oa \<and>
           oa_reserve oa1 = oa_reserve ?oa"
      by (rule dhcpoa_add_total [OF oa' tag43 vo])
    then have holds1: "oa_holds oa1 (fs @ (if ret = dhcpoa_success_e then [(43, written v)] else []))"
      by (simp add: written_def split: if_splits)
    show ?thesis
    proof (cases "ret = dhcpoa_success_e")
      case False
      then have "dhcpoa_vendor_add oa v tag len opt = Some (ret, oa1, v\<lparr>oa_err := Some (VendorOption tag len (dhcpoa_freespace v - OPTION_OFFSET))\<rparr>)"
        using flush oa1(1) magic by (simp add: dhcpoa_vendor_add_def Let_def dhcpoa_buffer_def dhcpoa_used_def)
      with False holds1 v ws show ?thesis by (intro exI conjI) (auto)
    next
      case True
      let ?f = "let f = dhcpoa_freespace oa1 - OPTION_OFFSET in if f > dhcpoa_size v then dhcpoa_size v else f"
      have ok1: "oa_ok oa1" "\<not> oa_end_tag oa1" using holds1 by (auto simp: oa_holds_def)
      then have "oa_offset oa + oa_offset v + 2 + oa_reserve oa \<le> oa_size oa"
        using oa1(3) True by (simp add: oa_ok_def)
      from room [OF this] have "0 \<le> dhcpoa_freespace oa1 - OPTION_OFFSET"
        using ok1 oa1(3) True by (auto simp: dhcpoa_freespace_def Let_def oa_ok_def OPTION_OFFSET_def)
      moreover have "0 \<le> oa_size v" "nat (oa_size v) \<le> length (oa_buffer v)"
        using v by (auto simp: oa_holds_def oa_ok_def)
      ultimately have f: "0 \<le> ?f" "nat ?f \<le> length (oa_buffer v)"
        by (auto simp: Let_def dhcpoa_size_def)
      obtain v1 where v1: "dhcpoa_init_no_end (oa_buffer v) ?f = Some v1" "oa_holds v1 []"
        using oa_init_holds [OF f, of 0] f(1) by (auto simp: dhcpoa_init_no_end_def)
      obtain ret2 v2 where v2: "dhcpoa_add v1 tag len opt = Some (ret2, v2)"
          "oa_holds v2 ([] @ (if ret2 = dhcpoa_success_e then [(word_of_int tag, take (nat len) opt)] else []))"
        using dhcpoa_add_total [OF v1(2) tag len] by blast
      have "dhcpoa_vendor_add oa v tag len opt = Some (ret2, oa1, v2)"
        using flush oa1(1) v1(1) v2(1) magic True
        by (simp add: dhcpoa_vendor_add_def Let_def dhcpoa_buffer_def dhcpoa_used_def)
      moreover have "tlv_parse (written v) = Some vs"
        using v unfolding oa_holds_def by (metis append.right_neutral option.simps(9) tlv_parse.simps(1))
      then have "vendor_fields (occurrences dhcptag_vendor_specific_e (fs @ [(43, written v)])) = Some (ws @ vs)"
        using ws by (simp add: occurrences_append vendor_fields_append) (simp add: occurrences_def)
      ultimately show ?thesis
        using True holds1 v2(2)
        by (intro exI [of _ ret2] exI [of _ oa1] exI [of _ v2] exI [of _ "fs @ [(43, written v)]"]
            exI [of _ "if ret2 = dhcpoa_success_e then [(word_of_int tag, take (nat len) opt)] else []"]
            exI [of _ "ws @ vs"]) simp
    qed
  qed
qed

section \<open>Properties\<close>

text \<open>C27. Options written into an area and terminated are read back by the parser exactly as they
  were added, whatever follows the end tag; the area is refused as full exactly when the options
  and the end tag do not fit.\<close>

theorem option_area_roundtrip:
  assumes "1 \<le> sz" "nat sz \<le> length buffer" "\<forall>td \<in> set os. legal td"
  shows "if space os + 1 \<le> sz
    then \<exists>oa. build_area buffer sz os = Some (dhcpoa_success_e, oa) \<and> dhcpoa_used oa = space os + 1 \<and>
      (\<forall>n. dhcpoa_used oa \<le> n \<and> nat n \<le> length buffer \<longrightarrow>
        (\<exists>l. dhcpol_parse_buffer (oa_buffer oa) n = Some (Inr l) \<and> opts l = map as_field os))
    else \<exists>oa. build_area buffer sz os = Some (dhcpoa_full_e, oa)"
proof (cases "space os + 1 \<le> sz")
  case True
  then obtain oa where oa: "build_area buffer sz os = Some (dhcpoa_success_e, oa)" "dhcpoa_used oa = space os + 1"
      "oa_ok oa" "length (oa_buffer oa) = length buffer"
      "\<And>rest. tlv_parse (written oa @ rest) = Some (map as_field os)"
    using build_area_spec [OF assms] by auto
  have "dhcpoa_used oa = oa_offset oa" using oa(3) by (simp add: dhcpoa_used_def oa_ok_def)
  with parse_written [OF oa(3,5)] oa(4) have
    "\<forall>n. dhcpoa_used oa \<le> n \<and> nat n \<le> length buffer \<longrightarrow>
        (\<exists>l. dhcpol_parse_buffer (oa_buffer oa) n = Some (Inr l) \<and> opts l = map as_field os)"
    by fastforce
  with True oa(1,2) show ?thesis by auto
next
  case False
  then show ?thesis using build_area_spec [OF assms] by simp
qed

theorem option_area_roundtrip_witness:
  "\<exists>oa. build_area (replicate 20 7) 20 [(53, [5]), (51, [0, 0, 14, 16])] = Some (dhcpoa_success_e, oa) \<and>
     dhcpoa_used oa = 10 \<and>
     (\<exists>l. dhcpol_parse_buffer (oa_buffer oa) 20 = Some (Inr l) \<and> opts l = [(53, [5]), (51, [0, 0, 14, 16])])"
  using option_area_roundtrip [of 20 "replicate 20 7" "[(53, [5]), (51, [0, 0, 14, 16])]"]
  by (auto simp: legal_def space_def as_field_def)

text \<open>Adding a vendor option appends it to the stream of vendor options a receiver sees, the
  flushed ones and those still pending, or leaves the stream as it is when it is refused; nothing
  is lost by the flush, and no byte outside the two buffers is touched.\<close>

theorem vendor_add_appends:
  assumes "oa_holds oa fs" "oa_holds v vs" "0 < tag" "tag < dhcptag_end_e" "0 \<le> len" "nat len \<le> length opt"
    and "vendor_fields (occurrences dhcptag_vendor_specific_e fs) = Some ws"
    and "oa_offset oa + oa_offset v + 2 + oa_reserve oa \<le> oa_size oa \<Longrightarrow>
      oa_offset oa + oa_offset v + 4 + oa_reserve oa \<le> oa_size oa"
  shows "\<exists>ret oa' v' fs' vs' ws'. dhcpoa_vendor_add oa v tag len opt = Some (ret, oa', v') \<and>
     oa_holds oa' fs' \<and> oa_holds v' vs' \<and> vendor_fields (occurrences dhcptag_vendor_specific_e fs') = Some ws' \<and>
     ws' @ vs' = ws @ vs @ (if ret = dhcpoa_success_e then [(word_of_int tag, take (nat len) opt)] else [])"
  using assms by (rule vendor_add_stream)

lemma init_holds:
  "dhcpoa_init_common (replicate 20 0) 20 1 = Some oa \<Longrightarrow> oa_holds oa []"
  "dhcpoa_init_common (replicate 4 0) 4 0 = Some oa \<Longrightarrow> oa_holds oa []"
  using oa_init_holds [of 20 "replicate 20 0" 1] oa_init_holds [of 4 "replicate 4 0" 0] by force+

theorem vendor_add_appends_witness:
  "\<exists>oa v ret oa' v' fs' vs' ws'. dhcpoa_init (replicate 20 0) 20 = Some oa \<and> dhcpoa_init_no_end (replicate 4 0) 4 = Some v \<and>
     dhcpoa_vendor_add oa v 1 3 [7, 8, 9] = Some (ret, oa', v') \<and>
     oa_holds oa' fs' \<and> oa_holds v' vs' \<and> vendor_fields (occurrences dhcptag_vendor_specific_e fs') = Some ws' \<and>
     ws' @ vs' = (if ret = dhcpoa_success_e then [(1, [7, 8, 9])] else [])"
proof -
  obtain oa v where i: "dhcpoa_init_common (replicate 20 0) 20 1 = Some oa" "dhcpoa_init_common (replicate 4 0) 4 0 = Some v"
    by (simp add: dhcpoa_init_common_def bzero_def wrn_def)
  then have "oa_offset oa = 0" "oa_offset v = 0" "oa_reserve oa = 1" "oa_size oa = 20"
    by (auto simp: dhcpoa_init_common_def bzero_def wrn_def)
  with vendor_add_appends [OF init_holds(1) [OF i(1)] init_holds(2) [OF i(2)], of 1 3 "[7, 8, 9]" "[]"] i
  show ?thesis
    by (simp add: dhcpoa_init_def dhcpoa_init_no_end_def occurrences_def split: if_splits) metis
qed

text \<open>When a flush leaves less than two bytes of room in the packet, \<open>dhcpoa_vendor_add\<close> starts
  the new vendor area with a negative size and clears memory far outside it.\<close>

theorem vendor_add_flush_overrun:
  "\<exists>oa v v1. dhcpoa_init (replicate 8 0) 8 = Some oa \<and> dhcpoa_init_no_end (replicate 4 0) 4 = Some v \<and>
     dhcpoa_vendor_add oa v 1 2 [7, 8] = Some (dhcpoa_success_e, oa, v1) \<and>
     dhcpoa_vendor_add oa v1 2 0 [] = None"
  by (simp add: dhcpoa_init_def dhcpoa_init_no_end_def dhcpoa_init_common_def bzero_def wrn_def
      dhcpoa_vendor_add_def Let_def dhcpoa_freespace_def DHCPOA_MAGIC_def DHCP_OPTION_SIZE_MAX_def
      OPTION_OFFSET_def dhcpoa_add_def put_def wr_def bcopy_to_def rdn_def dhcpoa_buffer_def
      dhcpoa_used_def dhcpoa_size_def)

end
