(* ===== verification/BootpdReply.thy ===== *)
theory BootpdReply
  imports DhcpLeases DhcpOptionArea
begin

text \<open>
  What the server's two request handlers share (\<open>bootpd.tproj/bootpd.c\<close>): the options taken from the
  subnet and from the server's own configuration, the boot file, and where a reply is sent.

  \<open>bootp_transmit\<close> is outside the model; a packet handed to it is appended to \<open>sv_sent\<close>.
\<close>

section \<open>Strings in packets\<close>

text \<open>The C string that starts at a pointer; it must end inside the object.\<close>

definition c_string :: "u8 list \<Rightarrow> string option" where
  "c_string p = (if 0 \<in> set p then Some (map (\<lambda>b. char_of (unat b)) (takeWhile (\<lambda>b. b \<noteq> 0) p)) else None)"

text \<open>\<open>strlcpy\<close> into a field: the rest of the field keeps its contents.\<close>

definition strlcpy_field :: "u8 list \<Rightarrow> string \<Rightarrow> u8 list" where
  "strlcpy_field dst src =
     (let s = take (length dst - 1) (str_bytes src) in
      if dst = [] then [] else s @ 0 # drop (length s + 1) dst)"

definition strlcpy_buf :: "string \<Rightarrow> int \<Rightarrow> string" where
  "strlcpy_buf src n = take (nat (n - 1)) src"

section \<open>Options (bootpd.c)\<close>

definition default_tags :: "u8 list" where
  "default_tags = [dhcptag_subnet_mask_e, dhcptag_router_e, dhcptag_domain_name_server_e,
     dhcptag_domain_name_e, dhcptag_host_name_e]"

definition ignored_tags :: "u8 list" where
  "ignored_tags = [dhcptag_end_e, dhcptag_pad_e, dhcptag_requested_ip_address_e, dhcptag_lease_time_e,
     dhcptag_option_overload_e, dhcptag_dhcp_message_type_e, dhcptag_server_identifier_e,
     dhcptag_parameter_request_list_e, dhcptag_message_e, dhcptag_max_dhcp_message_size_e,
     dhcptag_renewal_t1_time_value_e, dhcptag_rebinding_t2_time_value_e, dhcptag_client_identifier_e]"

definition add_bytes :: "dhcpoa \<Rightarrow> u8 \<Rightarrow> u8 list \<Rightarrow> dhcpoa option" where
  "add_bytes oa tag bytes = map_option snd (dhcpoa_add oa (uint tag) (int (length bytes)) bytes)"

text \<open>The configuration of the subnet; the flag is \<open>handled\<close>.\<close>

definition add_configured :: "string option \<Rightarrow> subnet option \<Rightarrow> dhcpoa \<Rightarrow> u8 \<Rightarrow> (dhcpoa \<times> bool) option" where
  "add_configured hostname sn oa tag =
     (if tag = dhcptag_host_name_e then
        (case hostname of
           None \<Rightarrow> Some (oa, True)
         | Some h \<Rightarrow> map_option (\<lambda>oa'. (oa', True)) (add_bytes oa dhcptag_host_name_e (str_bytes h)))
      else
        (case sn of
           None \<Rightarrow> Some (oa, False)
         | Some subnet \<Rightarrow>
             (case SubnetGetOptionPtrAndLength subnet (uint tag) of
                None \<Rightarrow> Some (oa, False)
              | Some opt \<Rightarrow> map_option (\<lambda>oa'. (oa', True)) (add_bytes oa tag opt))))"

text \<open>The address of the interface on the client's subnet, \<open>None\<close> when there is none.\<close>

definition matching_addr :: "intf \<Rightarrow> in_addr \<Rightarrow> inet_addrinfo option option" where
  "matching_addr ifp iaddr = do {
     which_addr \<leftarrow> if_inet_match_subnet ifp iaddr;
     case which_addr of
       None \<Rightarrow> Some None
     | Some i \<Rightarrow> if_inet_addr_at ifp (int i) }"

definition add_default :: "config \<Rightarrow> intf \<Rightarrow> in_addr \<Rightarrow> dhcpoa \<Rightarrow> u8 \<Rightarrow> dhcpoa option" where
  "add_default cf ifp iaddr oa tag = do {
     info \<leftarrow> matching_addr ifp iaddr;
     if tag = dhcptag_subnet_mask_e then
       (case info of
          None \<Rightarrow> Some oa
        | Some a \<Rightarrow> add_bytes oa dhcptag_subnet_mask_e (net_uint32_bytes (ia_mask a)))
     else if tag = dhcptag_router_e then
       (case (cf_def_route cf, info) of
          (Some r, Some a) \<Rightarrow>
            if \<not> in_subnet (ia_netaddr a) (ia_mask a) r \<or> \<not> in_subnet (ia_netaddr a) (ia_mask a) iaddr
            then Some oa
            else add_bytes oa dhcptag_router_e (net_uint32_bytes r)
        | _ \<Rightarrow> Some oa)
     else if tag = dhcptag_domain_name_server_e then
       (if cf_dns_servers cf = [] then Some oa
        else add_bytes oa dhcptag_domain_name_server_e (concat (map net_uint32_bytes (cf_dns_servers cf))))
     else if tag = dhcptag_domain_name_e then
       (case cf_domain_name cf of
          None \<Rightarrow> Some oa
        | Some d \<Rightarrow> add_bytes oa dhcptag_domain_name_e (str_bytes d))
     else if tag = dhcptag_domain_search_e then
       (case cf_domain_search cf of
          None \<Rightarrow> Some oa
        | Some d \<Rightarrow> add_bytes oa dhcptag_domain_search_e d)
     else Some oa }"

definition add_tag ::
  "config \<Rightarrow> string option \<Rightarrow> subnet option \<Rightarrow> intf \<Rightarrow> in_addr \<Rightarrow> dhcpoa \<Rightarrow> u8 \<Rightarrow> dhcpoa option" where
  "add_tag cf hostname sn ifp iaddr oa tag =
     (if tag \<in> set ignored_tags then Some oa
      else do {
        (oa1, handled) \<leftarrow> add_configured hostname sn oa tag;
        oa2 \<leftarrow> (if \<not> handled \<and> cf_use_server_config cf then add_default cf ifp iaddr oa1 tag else Some oa1);
        if \<not> handled \<and> tag = dhcptag_ipv6_only_preferred_e \<and> ipv6_only_preferred (cf_which_services cf) ifp
        then add_bytes oa2 dhcptag_ipv6_only_preferred_e (net_uint32_bytes (cf_ipv6_only_wait cf))
        else Some oa2 })"

fun add_tags ::
  "config \<Rightarrow> string option \<Rightarrow> subnet option \<Rightarrow> intf \<Rightarrow> in_addr \<Rightarrow> dhcpoa \<Rightarrow> u8 list \<Rightarrow> dhcpoa option" where
  "add_tags cf hostname sn ifp iaddr oa [] = Some oa"
| "add_tags cf hostname sn ifp iaddr oa (t # ts) = do {
     oa' \<leftarrow> add_tag cf hostname sn ifp iaddr oa t;
     add_tags cf hostname sn ifp iaddr oa' ts }"

text \<open>The subnet of an address: the one with the address in its range, or else the one it is on.\<close>

definition subnet_for :: "subnets option \<Rightarrow> in_addr \<Rightarrow> subnet option" where
  "subnet_for subnets iaddr =
     (case subnets of
        None \<Rightarrow> None
      | Some sns \<Rightarrow>
          (case SubnetListGetSubnetForAddress sns iaddr True of
             Some i \<Rightarrow> Some (sns ! i)
           | None \<Rightarrow> map_option ((!) sns) (SubnetListGetSubnetForAddress sns iaddr False)))"

definition add_subnet_options ::
  "config \<Rightarrow> subnets option \<Rightarrow> string option \<Rightarrow> in_addr \<Rightarrow> intf \<Rightarrow> dhcpoa \<Rightarrow> u8 list option \<Rightarrow> dhcpoa option" where
  "add_subnet_options cf subnets hostname iaddr ifp options tags =
     add_tags cf hostname (subnet_for subnets iaddr) ifp iaddr options
       (case tags of None \<Rightarrow> default_tags | Some ts \<Rightarrow> ts)"

section \<open>Boot file (bootpd.c)\<close>

definition PATH_MAX :: int where
  "PATH_MAX = 1024"

text \<open>The result is \<open>None\<close> for \<open>FALSE\<close>, and else what is copied to the reply's file field, if anything.\<close>

definition bootp_add_bootfile ::
  "config \<Rightarrow> string \<Rightarrow> string option \<Rightarrow> string option \<Rightarrow> int \<Rightarrow> string option option" where
  "bootp_add_bootfile cf request_file hostname bootfile reply_file_size =
     (if request_file = [] \<and> (bootfile = None \<or> bootfile = Some []) then Some None
      else
        let file = strlcpy_buf (if request_file \<noteq> [] then request_file else the bootfile) PATH_MAX;
            path = (if hd file = CHR ''/'' then strlcpy_buf file PATH_MAX
                    else strlcat (strlcat (strlcpy_buf (cf_tftp_dir cf) PATH_MAX) ''/'' PATH_MAX) file PATH_MAX);
            host_path = (case hostname of
                           None \<Rightarrow> None
                         | Some h \<Rightarrow> Some (strlcat (strlcat path ''.'' PATH_MAX) h PATH_MAX));
            dothost = (case host_path of None \<Rightarrow> False | Some p \<Rightarrow> cf_readable cf p);
            path' = (if dothost then the host_path else path)
        in if \<not> dothost \<and> \<not> cf_readable cf path' \<and> \<not> cf_noexist_reply cf then None
           else if int (length path') \<ge> reply_file_size then Some None
           else Some (Some path'))"

section \<open>Sending (bootpd.c)\<close>

abbreviation "DHCP_FLAGS_BROADCAST \<equiv> (0x8000 :: u16)"
abbreviation "INADDR_BROADCAST \<equiv> (0xffffffff :: in_addr)"

definition IPPORT_BOOTPS :: nat where "IPPORT_BOOTPS = 67"
definition IPPORT_BOOTPC :: nat where "IPPORT_BOOTPC = 68"

text \<open>
  \<open>sendreply\<close>; the flags are set as the code sets them, with the byte swaps outside of the OR.
\<close>

definition sendreply :: "server \<Rightarrow> intf \<Rightarrow> dhcp \<Rightarrow> int \<Rightarrow> bool \<Rightarrow> in_addr option \<Rightarrow> server option" where
  "sendreply s ifp bp n broadcast dest_p =
     (let (dst, dest_port, src_port, hwaddr, bp') =
        (if dp_ciaddr bp \<noteq> 0 then (dp_ciaddr bp, IPPORT_BOOTPC, IPPORT_BOOTPS, None, bp)
         else if dp_giaddr bp \<noteq> 0 then
           (dp_giaddr bp, IPPORT_BOOTPS, IPPORT_BOOTPC, None,
            if broadcast then bp\<lparr>dp_flags := swap16 (swap16 (dp_flags bp OR DHCP_FLAGS_BROADCAST))\<rparr> else bp)
         else if broadcast \<or> swap16 (dp_flags bp) AND DHCP_FLAGS_BROADCAST \<noteq> 0 then
           (INADDR_BROADCAST, IPPORT_BOOTPC, IPPORT_BOOTPS, None, bp)
         else ((case dest_p of Some d \<Rightarrow> d | None \<Rightarrow> dp_yiaddr bp), IPPORT_BOOTPC, IPPORT_BOOTPS,
               Some (dp_chaddr bp), bp))
      in do {
        src \<leftarrow> if_inet_addr ifp;
        Some (s\<lparr>sv_sent := sv_sent s @
          [\<lparr>tx_if_name = if_name ifp, tx_hwaddr = hwaddr, tx_dst = dst, tx_src = src,
            tx_dest_port = dest_port, tx_src_port = src_port, tx_pkt = bp', tx_size = n\<rparr>]\<rparr>) })"

end
