(* ===== verification/DhcpServer.thy ===== *)
theory DhcpServer
  imports BootpdReply
begin

text \<open>
  The DHCP server's answer to a request (second half of \<open>bootpd.tproj/dhcpd.c\<close>), as built with
  \<open>MINIMAL_DHCP_SERVER\<close>: no NetBoot and no Open Directory.

  \<open>dhcp_request\<close> is one function of 760 lines in the code.  Here it is cut at its \<open>switch\<close>: who the
  client is, which binding it has, the lease that binding gives, one definition per message type, and
  the common end.  The locals that live across these parts are the fields of \<open>locals\<close>; \<open>goto no_reply\<close>
  and \<open>goto reply\<close> are the constructors of \<open>outcome\<close>.  \<open>None\<close> stands for leaving the bounds of a buffer,
  following a null or dangling pointer, or not returning.
\<close>

section \<open>Replies (dhcpd.c)\<close>

definition DHCP_PACKET_OVERHEAD :: int where "DHCP_PACKET_OVERHEAD = 28"
definition sizeof_txbuf :: int where "sizeof_txbuf = 1500"
definition DHCP_DECLINE_WAIT_SECS :: int where "DHCP_DECLINE_WAIT_SECS = 60 * 10"

definition dhcp_max_message_size :: "dhcpol \<Rightarrow> int option" where
  "dhcp_max_message_size options = do {
     found \<leftarrow> dhcpol_find options dhcptag_max_dhcp_message_size_e 0;
     case found of
       None \<Rightarrow> Some DHCP_PACKET_MIN
     | Some (opt, opt_len, _) \<Rightarrow>
         if opt_len = 2 then do {
           sval \<leftarrow> net_uint16_get opt;
           Some (if uint sval > DHCP_PACKET_MIN then uint sval else DHCP_PACKET_MIN) }
         else Some DHCP_PACKET_MIN }"

text \<open>
  \<open>buffer\<close> is the part of the transmit buffer after the fixed fields.  The options area starts after
  the magic number; the reply's own \<open>dp_options\<close> is filled in when it is sent.
\<close>

definition make_dhcp_reply ::
  "u8 list \<Rightarrow> int \<Rightarrow> in_addr \<Rightarrow> u8 \<Rightarrow> dhcp \<Rightarrow> (dhcp \<times> dhcpoa) option option" where
  "make_dhcp_reply buffer pkt_size server_id msg req =
     (let reply = req\<lparr>dp_siaddr := server_id, dp_hops := 0, dp_secs := 0, dp_op := BOOTREPLY\<rparr> in
      do {
        b \<leftarrow> wrn buffer 0 rfc_magic;
        options \<leftarrow> dhcpoa_init (drop RFC_MAGIC_SIZE b) (pkt_size - sizeof_dhcp - int RFC_MAGIC_SIZE);
        (r1, options1) \<leftarrow> dhcpoa_add_dhcpmsg options msg;
        if r1 \<noteq> dhcpoa_success_e then Some None
        else do {
          (r2, options2) \<leftarrow> dhcpoa_add options1 dhcptag_server_identifier_e 4 (net_uint32_bytes server_id);
          if r2 \<noteq> dhcpoa_success_e then Some None else Some (Some (reply, options2)) } })"

definition make_dhcp_nak ::
  "u8 list \<Rightarrow> int \<Rightarrow> in_addr \<Rightarrow> string option \<Rightarrow> dhcp \<Rightarrow> (dhcp \<times> dhcpoa) option option" where
  "make_dhcp_nak buffer pkt_size server_id nak_msg req = do {
     made \<leftarrow> make_dhcp_reply buffer pkt_size server_id dhcp_msgtype_nak_e req;
     case made of
       None \<Rightarrow> Some None
     | Some (reply, options) \<Rightarrow> do {
         (r1, options1) \<leftarrow> (case nak_msg of
            None \<Rightarrow> Some (dhcpoa_success_e, options)
          | Some m \<Rightarrow> dhcpoa_add options dhcptag_message_e (int (length m)) (str_bytes m));
         if r1 \<noteq> dhcpoa_success_e then Some None
         else do {
           (r2, options2) \<leftarrow> dhcpoa_add options1 dhcptag_end_e 0 [];
           if r2 \<noteq> dhcpoa_success_e then Some None
           else Some (Some (reply\<lparr>dp_ciaddr := 0, dp_yiaddr := 0\<rparr>, options2)) } } }"

definition is_requested_parameter :: "dhcpol \<Rightarrow> u8 \<Rightarrow> bool option" where
  "is_requested_parameter options tag = do {
     found \<leftarrow> dhcpol_find options dhcptag_parameter_request_list_e 0;
     case found of
       None \<Rightarrow> Some False
     | Some (opt, opt_len, _) \<Rightarrow> do {
         params \<leftarrow> rdn opt 0 (nat opt_len);
         Some (tag \<in> set params) } }"

definition client_prefers_ipv6_only :: "config \<Rightarrow> intf \<Rightarrow> dhcpol \<Rightarrow> bool option" where
  "client_prefers_ipv6_only cf ifp options =
     (if ipv6_only_preferred (cf_which_services cf) ifp
      then is_requested_parameter options dhcptag_ipv6_only_preferred_e else Some False)"

section \<open>The client (dhcpd.c, start of dhcp\_request)\<close>

datatype dhcp_binding = dhcp_binding_none_e | dhcp_binding_permanent_e | dhcp_binding_temporary_e

record locals =
  lc_max_packet :: int
  lc_cid_type :: u8
  lc_cid :: "u8 list"
  lc_idstr :: string
  lc_hwstr :: string
  lc_hostname_opt :: "(bptr \<times> int) option"
  lc_suggested_lease :: "bptr option"
  lc_binding :: dhcp_binding
  lc_entry :: "eptr option"
  lc_iaddr :: in_addr
  lc_lease :: u32
  lc_expiry :: int
  lc_subnet :: "nat option"
  lc_orphan :: bool
  lc_modified :: bool
  lc_hostname :: "string option"
  lc_bootfile :: "string option"

text \<open>\<open>dhcpol_find\<close> from the start: the pointer and the length.\<close>

definition find_option :: "dhcpol \<Rightarrow> int \<Rightarrow> (bptr \<times> int) option option" where
  "find_option options tag =
     map_option (map_option (\<lambda>(p, len, _). (p, len))) (dhcpol_find options tag 0)"

text \<open>
  The hardware address is read for \<open>dp_hlen\<close> bytes; a length above 16 reads on into the fields
  behind \<open>dp_chaddr\<close>.
\<close>

definition chaddr_bytes :: "dhcp \<Rightarrow> u8 list option" where
  "chaddr_bytes pkt =
     rdn (dp_chaddr pkt @ dp_sname pkt @ dp_file pkt @ dp_options pkt) 0 (unat (dp_hlen pkt))"

text \<open>The type and bytes of the client identifier; \<open>None\<close> inside when the length is 0.\<close>

definition client_id :: "config \<Rightarrow> request \<Rightarrow> (u8 \<times> u8 list) option option" where
  "client_id cf rq = do {
     found \<leftarrow> find_option (rq_options rq) dhcptag_client_identifier_e;
     let pkt = rq_pkt rq;
         use_hw = (case found of None \<Rightarrow> True | Some (_, len) \<Rightarrow> \<not> len > 1)
           \<or> cf_ignore_client_identifier cf \<and> dp_hlen pkt \<noteq> 0
     in if use_hw then do {
          bs \<leftarrow> chaddr_bytes pkt;
          Some (if bs = [] then None else Some (dp_htype pkt, bs)) }
        else (case found of
          None \<Rightarrow> None
        | Some (cid, cid_len) \<Rightarrow> do {
            type \<leftarrow> rd cid 0;
            bs \<leftarrow> rdn cid 1 (nat (cid_len - 1));
            Some (Some (type, bs)) }) }"

definition identify :: "config \<Rightarrow> request \<Rightarrow> locals option option" where
  "identify cf rq = do {
     max_size \<leftarrow> dhcp_max_message_size (rq_options rq);
     cid \<leftarrow> client_id cf rq;
     case cid of
       None \<Rightarrow> Some None
     | Some (cid_type, bytes) \<Rightarrow> do {
         let idstr = identifierToString cid_type bytes;
         hwstr \<leftarrow> (if cid_type = 0
                   then map_option (identifierToString (dp_htype (rq_pkt rq))) (chaddr_bytes (rq_pkt rq))
                   else Some idstr);
         hostname_opt \<leftarrow> find_option (rq_options rq) dhcptag_host_name_e;
         suggested \<leftarrow> find_option (rq_options rq) dhcptag_lease_time_e;
         Some (Some \<lparr>
           lc_max_packet = (if max_size > sizeof_txbuf then sizeof_txbuf else max_size) - DHCP_PACKET_OVERHEAD,
           lc_cid_type = cid_type, lc_cid = bytes, lc_idstr = idstr, lc_hwstr = hwstr,
           lc_hostname_opt = hostname_opt, lc_suggested_lease = map_option fst suggested,
           lc_binding = dhcp_binding_none_e, lc_entry = None, lc_iaddr = 0, lc_lease = 0, lc_expiry = 0,
           lc_subnet = None, lc_orphan = False, lc_modified = False, lc_hostname = None, lc_bootfile = None\<rparr>) } }"

section \<open>The binding (dhcpd.c)\<close>

text \<open>The subnet test as a callback; theory Interfaces shows that it never fails on a well-formed interface.\<close>

definition on_client_subnet :: "config \<Rightarrow> server \<Rightarrow> intf \<Rightarrow> in_addr \<Rightarrow> in_addr \<Rightarrow> in_addr \<Rightarrow> bool" where
  "on_client_subnet cf s ifp giaddr ciaddr ip =
     (subnet_match (sv_subnets s) (cf_routes cf) giaddr ciaddr ifp ip = Some True)"

definition subnet_at :: "server \<Rightarrow> nat option \<Rightarrow> subnet option" where
  "subnet_at s p = do { i \<leftarrow> p; sns \<leftarrow> sv_subnets s; rd sns i }"

definition lookup_subnet :: "server \<Rightarrow> in_addr \<Rightarrow> bool \<Rightarrow> nat option" where
  "lookup_subnet s iaddr in_range =
     (case sv_subnets s of
        None \<Rightarrow> None
      | Some sns \<Rightarrow> SubnetListGetSubnetForAddress sns iaddr in_range)"

definition permanent_binding :: "config \<Rightarrow> server \<Rightarrow> intf \<Rightarrow> dhcp \<Rightarrow> locals \<Rightarrow> locals" where
  "permanent_binding cf s ifp pkt lc =
     (if lc_cid_type lc = 0 then lc
      else
        (case bootp_getbyhw_file cf (lc_cid_type lc) (lc_cid lc)
                (Some (on_client_subnet cf s ifp (dp_giaddr pkt) (dp_ciaddr pkt))) of
           None \<Rightarrow> lc
         | Some (ip, hostname, bootfile) \<Rightarrow>
             lc\<lparr>lc_binding := dhcp_binding_permanent_e, lc_expiry := DHCP_INFINITE_TIME, lc_iaddr := ip,
                lc_hostname := hostname,
                lc_bootfile := (if cf_supply_bootfile cf then bootfile else None)\<rparr>))"

definition lookup_identifier ::
  "config \<Rightarrow> server \<Rightarrow> string \<Rightarrow> (in_addr \<Rightarrow> bool) \<Rightarrow> in_addr \<Rightarrow> eptr option \<times> in_addr \<times> server" where
  "lookup_identifier cf s idstr func iaddr =
     (let (r, ip, _) = list_scan (lookup_identifier_test (cf_netlib cf) idstr (Some func)) (Some iaddr, False)
                         (sv_leases s)
      in (r, the ip, s\<lparr>sv_leases := to_front r (sv_leases s)\<rparr>))"

definition lease_binding :: "config \<Rightarrow> server \<Rightarrow> intf \<Rightarrow> dhcp \<Rightarrow> locals \<Rightarrow> (locals \<times> server) option" where
  "lease_binding cf s ifp pkt lc =
     (if lc_binding lc \<noteq> dhcp_binding_none_e then Some (lc, s)
      else
        let (r, ip, s1) = lookup_identifier cf s (lc_idstr lc)
              (on_client_subnet cf s ifp (dp_giaddr pkt) (dp_ciaddr pkt)) (lc_iaddr lc);
            lc1 = lc\<lparr>lc_iaddr := ip\<rparr>
        in (case r of
              None \<Rightarrow> Some (lc1, s1)
            | Some p \<Rightarrow>
                let i = lookup_subnet s1 ip True in
                (case subnet_at s1 i of
                   Some sn \<Rightarrow>
                     if SubnetDoesAllocate sn then do {
                       pl \<leftarrow> entry_pl (sv_leases s1) p;
                       Some (lc1\<lparr>lc_binding := dhcp_binding_temporary_e, lc_entry := Some p, lc_subnet := i,
                                 lc_expiry := S_lease_time_expiry pl\<rparr>,
                             s1\<lparr>sv_leases := to_front (Some p) (sv_leases s1)\<rparr>) }
                     else Some (lc1\<lparr>lc_orphan := True, lc_subnet := i\<rparr>, S_remove_host cf s1 p)
                 | None \<Rightarrow> Some (lc1\<lparr>lc_orphan := True\<rparr>, S_remove_host cf s1 p))))"

text \<open>The lease the client asks for, within the limits of the subnet.\<close>

definition bounded_lease :: "bptr \<Rightarrow> u32 \<Rightarrow> u32 \<Rightarrow> u32 option" where
  "bounded_lease suggested min_lease max_lease = do {
     lease \<leftarrow> net_uint32_get suggested;
     Some (if lease > max_lease then max_lease else if lease < min_lease then min_lease else lease) }"

definition current_lease :: "request \<Rightarrow> server \<Rightarrow> locals \<Rightarrow> locals option" where
  "current_lease rq s lc =
     (if lc_binding lc = dhcp_binding_none_e then Some lc
      else if lc_expiry lc = DHCP_INFINITE_TIME then Some (lc\<lparr>lc_lease := DHCP_INFINITE_LEASE\<rparr>)
      else do {
        sn \<leftarrow> subnet_at s (lc_subnet lc);
        let max_lease = SubnetGetMaxLease sn;
            min_lease = SubnetGetMinLease sn
        in (case lc_suggested_lease lc of
              Some p \<Rightarrow> do { l \<leftarrow> bounded_lease p min_lease max_lease; Some (lc\<lparr>lc_lease := l\<rparr>) }
            | None \<Rightarrow>
                if rq_time rq + uint min_lease \<ge> lc_expiry lc then Some (lc\<lparr>lc_lease := min_lease\<rparr>)
                else Some (lc\<lparr>lc_lease := word_of_int (lc_expiry lc - rq_time rq)\<rparr>)) })"

section \<open>Messages (dhcpd.c, the cases of dhcp\_request)\<close>

text \<open>Where a case of the \<open>switch\<close> goes: the reply has its message type.\<close>

datatype outcome =
    No_reply server
  | Do_reply locals server "(dhcp \<times> dhcpoa \<times> u8) option" bool

datatype verdict =
    V_none server
  | V_ack locals server
  | V_nak locals server string bool

text \<open>\<open>reply->dp_file\<close> and the lease time option; \<open>None\<close> inside is \<open>goto no_reply\<close>.\<close>

definition add_lease :: "locals \<Rightarrow> dhcp \<Rightarrow> dhcpoa \<Rightarrow> (dhcp \<times> dhcpoa) option option" where
  "add_lease lc reply options =
     (let reply1 = (case lc_bootfile lc of
                      None \<Rightarrow> reply
                    | Some f \<Rightarrow> reply\<lparr>dp_file := strlcpy_field (dp_file reply) f\<rparr>)
      in do {
        (r, options1) \<leftarrow> dhcpoa_add options dhcptag_lease_time_e 4 (net_uint32_bytes (lc_lease lc));
        Some (if r \<noteq> dhcpoa_success_e then None else Some (reply1, options1)) })"

definition acquire_or_reclaim ::
  "config \<Rightarrow> in_addr \<Rightarrow> intf \<Rightarrow> int \<Rightarrow> server \<Rightarrow> ((nat \<times> in_addr) option \<times> server) option" where
  "acquire_or_reclaim cf giaddr ifp now s = do {
     (r, s1) \<leftarrow> acquire_ip cf giaddr ifp now s;
     case r of
       Some ia \<Rightarrow> Some (Some ia, s1)
     | None \<Rightarrow> do {
         (c, s2) \<leftarrow> DHCPLeases_reclaim cf s1 ifp giaddr now;
         case c of
           None \<Rightarrow> Some (None, s2)
         | Some ip \<Rightarrow> Some (map_option (\<lambda>i. (i, ip)) (lookup_subnet s2 ip True), s2) } }"

text \<open>A new address for a client without one; \<open>None\<close> inside when there is none.\<close>

definition choose_offer ::
  "config \<Rightarrow> request \<Rightarrow> intf \<Rightarrow> locals \<Rightarrow> server \<Rightarrow> (locals option \<times> server) option" where
  "choose_offer cf rq ifp lc s = do {
     (r, s1) \<leftarrow> acquire_or_reclaim cf (dp_giaddr (rq_pkt rq)) ifp (rq_time rq) s;
     case r of
       None \<Rightarrow> Some (None, s1)
     | Some (i, ip) \<Rightarrow> do {
         sn \<leftarrow> subnet_at s1 (Some i);
         l \<leftarrow> (case lc_suggested_lease lc of
                 Some p \<Rightarrow> bounded_lease p (SubnetGetMinLease sn) (SubnetGetMaxLease sn)
               | None \<Rightarrow> Some (SubnetGetMinLease sn));
         Some (Some (lc\<lparr>lc_iaddr := ip, lc_subnet := Some i, lc_lease := l\<rparr>), s1) } }"

definition send_offer :: "config \<Rightarrow> request \<Rightarrow> intf \<Rightarrow> locals \<Rightarrow> server \<Rightarrow> outcome option" where
  "send_offer cf rq ifp lc s = do {
     our_ip \<leftarrow> if_inet_addr_best_match ifp (lc_iaddr lc);
     made \<leftarrow> make_dhcp_reply (cf_txbuf cf) (lc_max_packet lc) our_ip dhcp_msgtype_offer_e (rq_pkt rq);
     case made of
       None \<Rightarrow> Some (No_reply s)
     | Some (reply, options) \<Rightarrow> do {
         r \<leftarrow> add_lease lc (reply\<lparr>dp_ciaddr := 0, dp_yiaddr := lc_iaddr lc\<rparr>) options;
         Some (case r of
                 None \<Rightarrow> No_reply s
               | Some (reply', options') \<Rightarrow> Do_reply lc s (Some (reply', options', dhcp_msgtype_offer_e)) False) } }"

definition forget_pending :: "locals \<Rightarrow> server \<Rightarrow> server" where
  "forget_pending lc s =
     (case hostbyaddr (sv_pending s) (lc_cid_type lc) (lc_cid lc) None of
        None \<Rightarrow> s
      | Some hp \<Rightarrow> s\<lparr>sv_pending := hostfree (sv_pending s) hp\<rparr>)"

text \<open>Remembering the offer: \<open>hostadd\<close>, then \<open>hp->lease = lease\<close> on the host at the front.\<close>

definition remember_offer :: "request \<Rightarrow> locals \<Rightarrow> server \<Rightarrow> server" where
  "remember_offer rq lc s =
     (let (hosts, _) = hostadd (sv_pending s) (Some (sv_next s)) (Some (rq_time rq)) (lc_cid_type lc) (lc_cid lc)
                         (Some (lc_iaddr lc)) None None;
          hosts' = (case hosts of [] \<Rightarrow> [] | hp # hs \<Rightarrow> hp\<lparr>hp_lease := unat (lc_lease lc)\<rparr> # hs)
      in s\<lparr>sv_pending := hosts', sv_next := sv_next s + 1\<rparr>)"

definition dhcp_discover ::
  "config \<Rightarrow> request \<Rightarrow> intf \<Rightarrow> bool \<Rightarrow> locals \<Rightarrow> server \<Rightarrow> outcome option" where
  "dhcp_discover cf rq ifp dhcp_allocate lc s0 =
     (let s = forget_pending lc s0 in do {
        prefers_ipv6_only \<leftarrow> client_prefers_ipv6_only cf ifp (rq_options rq);
        if prefers_ipv6_only then send_offer cf rq ifp (lc\<lparr>lc_iaddr := 0, lc_lease := 3600\<rparr>) s
        else do {
          (c, s1) \<leftarrow> (if lc_binding lc \<noteq> dhcp_binding_none_e then Some (Some lc, s)
                      else if dhcp_allocate then choose_offer cf rq ifp lc s
                      else Some (None, s));
          case c of
            None \<Rightarrow> Some (No_reply s1)
          | Some lc1 \<Rightarrow> send_offer cf rq ifp lc1 (remember_offer rq lc1 s1) } })"

text \<open>Changes of the client's entry; the flag \<open>modified\<close> is only ever set.\<close>

definition update_entry ::
  "locals \<Rightarrow> server \<Rightarrow> (ni_proplist \<Rightarrow> (ni_proplist \<times> bool) option) \<Rightarrow> (locals \<times> server) option" where
  "update_entry lc s f = do {
     p \<leftarrow> lc_entry lc;
     pl \<leftarrow> entry_pl (sv_leases s) p;
     (pl', m) \<leftarrow> f pl;
     Some (lc\<lparr>lc_modified := (lc_modified lc \<or> m)\<rparr>, s\<lparr>sv_leases := set_pl (sv_leases s) p pl'\<rparr>) }"

definition update_name :: "locals \<Rightarrow> server \<Rightarrow> (locals \<times> server) option" where
  "update_name lc s =
     (case lc_hostname_opt lc of
        None \<Rightarrow> Some (lc, s)
      | Some (_, len) \<Rightarrow>
          if len > 0 then do {
            h \<leftarrow> S_get_hostname (lc_hostname_opt lc);
            update_entry lc s (\<lambda>pl. ni_set_prop pl NIPROP_NAME h) }
          else Some (lc, s))"

definition update_lease :: "int \<Rightarrow> locals \<Rightarrow> server \<Rightarrow> (locals \<times> server) option" where
  "update_lease t lc s = update_entry lc s (\<lambda>pl. S_set_lease pl t)"

text \<open>REQUEST with a server identifier: the client selects an offer.\<close>

definition put_if :: "server \<Rightarrow> request \<Rightarrow> intf \<Rightarrow> server" where
  "put_if s rq ifp = s\<lparr>sv_interfaces := (sv_interfaces s)[rq_if rq := ifp]\<rparr>"

definition selected_other :: "config \<Rightarrow> request \<Rightarrow> intf \<Rightarrow> locals \<Rightarrow> server \<Rightarrow> server option" where
  "selected_other cf rq ifp lc s =
     (let s1 = forget_pending lc s in do {
        s2 \<leftarrow> (if lc_binding lc = dhcp_binding_temporary_e
               then map_option (S_remove_host cf s1) (lc_entry lc) else Some s1);
        Some (if detect_other_dhcp_server (cf_which_services cf) ifp
              then put_if s2 rq (disable_dhcp_on_interface ifp) else s2) })"

definition select_state :: "request \<Rightarrow> hosts option \<Rightarrow> locals \<Rightarrow> locals" where
  "select_state rq hp lc =
     (case hp of
        None \<Rightarrow> lc
      | Some h \<Rightarrow>
          lc\<lparr>lc_iaddr := hp_iaddr h,
             lc_expiry := (if hp_lease h = unat DHCP_INFINITE_LEASE then uint DHCP_INFINITE_LEASE
                           else int (hp_lease h) + rq_time rq),
             lc_lease := word_of_nat (hp_lease h)\<rparr>)"

definition dhcp_select ::
  "config \<Rightarrow> request \<Rightarrow> intf \<Rightarrow> locals \<Rightarrow> server \<Rightarrow> in_addr \<Rightarrow> in_addr \<Rightarrow> in_addr option \<Rightarrow> verdict option" where
  "dhcp_select cf rq ifp lc s our_ip server_id req_ip =
     (let hp = hostbyaddr (sv_pending s) (lc_cid_type lc) (lc_cid lc) None in
      if server_id \<noteq> our_ip then map_option V_none (selected_other cf rq ifp lc s)
      else if lc_binding lc = dhcp_binding_none_e \<and> hp = None then Some (V_none s)
      else
        let lc1 = select_state rq hp lc in
        if req_ip = None \<or> req_ip \<noteq> Some (lc_iaddr lc1)
        then Some (V_nak lc1 s ''protocol error in SELECT state'' True)
        else if lc_binding lc \<noteq> dhcp_binding_none_e then
          (if lc_binding lc = dhcp_binding_temporary_e then do {
             (lc2, s2) \<leftarrow> update_name lc1 s;
             (lc3, s3) \<leftarrow> update_lease (lc_expiry lc1) lc2 s2;
             Some (V_ack lc3 s3) }
           else Some (V_ack lc1 s))
        else
          (case lookup_subnet s (lc_iaddr lc1) True of
             None \<Rightarrow> Some (V_nak lc1 s ''unexpected server failure'' False)
           | Some i \<Rightarrow> do {
               s2 \<leftarrow> S_create_host cf s (lc_idstr lc) (lc_hwstr lc) (lc_iaddr lc1) (lc_hostname_opt lc) (lc_expiry lc1);
               Some (V_ack (lc1\<lparr>lc_subnet := Some i\<rparr>) s2) }))"

text \<open>
  REQUEST without one: whether an initial reboot, a renewal or a rebinding is answered, refused or
  ignored.  \<open>Inr\<close> is the binding with the address to confirm.
\<close>

definition check_reboot :: "locals \<Rightarrow> server \<Rightarrow> in_addr \<Rightarrow> verdict + locals" where
  "check_reboot lc s req_ip =
     (if lc_binding lc = dhcp_binding_none_e then
        (if \<not> lc_orphan lc then Inl (V_none s)
         else Inl (V_nak lc s ''requested address no longer available'' True))
      else if req_ip \<noteq> lc_iaddr lc then Inl (V_nak lc s ''requested address incorrect'' True)
      else Inr lc)"

definition check_renew :: "request \<Rightarrow> locals \<Rightarrow> server \<Rightarrow> verdict + locals" where
  "check_renew rq lc s =
     (if lc_binding lc = dhcp_binding_none_e then
        (if \<not> lc_orphan lc then Inl (V_none s)
         else Inl (V_nak lc s ''requested address no longer available'' True))
      else if rq_dstaddr rq = None \<or> rq_dstaddr rq = Some INADDR_BROADCAST \<or> dp_giaddr (rq_pkt rq) \<noteq> 0 then
        (if dp_ciaddr (rq_pkt rq) \<noteq> lc_iaddr lc then Inl (V_none s) else Inr lc)
      else if dp_ciaddr (rq_pkt rq) \<noteq> lc_iaddr lc then Inr (lc\<lparr>lc_iaddr := dp_ciaddr (rq_pkt rq)\<rparr>)
      else Inr lc)"

text \<open>The new lease; both limits are the subnet's maximum, as in the code.\<close>

definition extend_lease :: "config \<Rightarrow> request \<Rightarrow> locals \<Rightarrow> server \<Rightarrow> verdict option" where
  "extend_lease cf rq lc s =
     (if lc_binding lc = dhcp_binding_permanent_e then Some (V_ack (lc\<lparr>lc_lease := DHCP_INFINITE_LEASE\<rparr>) s)
      else do {
        (lc1, s1) \<leftarrow> update_name lc s;
        sn \<leftarrow> subnet_at s1 (lc_subnet lc1);
        let max_lease = SubnetGetMaxLease sn;
            min_lease = SubnetGetMaxLease sn;
            expired = lc_suggested_lease lc1 = None \<and> \<not> cf_extend_leases cf \<and> rq_time rq \<ge> lc_expiry lc1
        in if expired then Some (V_nak lc1 s1 ''lease expired'' False)
           else do {
             l \<leftarrow> (case lc_suggested_lease lc1 of
                     Some p \<Rightarrow> bounded_lease p min_lease max_lease
                   | None \<Rightarrow>
                       Some (if cf_extend_leases cf then min_lease
                             else word_of_int (lc_expiry lc1 - rq_time rq)));
             let t = (if l = DHCP_INFINITE_LEASE then DHCP_INFINITE_TIME else uint l + rq_time rq);
             (lc2, s2) \<leftarrow> update_lease t (lc1\<lparr>lc_lease := l, lc_expiry := t\<rparr>) s1;
             Some (V_ack lc2 s2) } })"

definition dhcp_renew ::
  "config \<Rightarrow> request \<Rightarrow> intf \<Rightarrow> locals \<Rightarrow> server \<Rightarrow> in_addr option \<Rightarrow> verdict option" where
  "dhcp_renew cf rq ifp lc s req_ip = do {
     prefers_ipv6_only \<leftarrow> client_prefers_ipv6_only cf ifp (rq_options rq);
     if prefers_ipv6_only then Some (V_ack (lc\<lparr>lc_iaddr := 0, lc_lease := 3600\<rparr>) s)
     else
       (case (case req_ip of
                Some a \<Rightarrow> check_reboot lc s a
              | None \<Rightarrow> if dp_ciaddr (rq_pkt rq) \<noteq> 0 then check_renew rq lc s else Inl (V_none s)) of
          Inl v \<Rightarrow> Some v
        | Inr lc1 \<Rightarrow> extend_lease cf rq lc1 s) }"

text \<open>The reply: an ACK's reply is used without a check for null.\<close>

definition send_verdict :: "config \<Rightarrow> request \<Rightarrow> in_addr \<Rightarrow> verdict \<Rightarrow> outcome option" where
  "send_verdict cf rq our_ip v =
     (case v of
        V_none s \<Rightarrow> Some (No_reply s)
      | V_nak lc s nak broadcast \<Rightarrow> do {
          made \<leftarrow> make_dhcp_nak (cf_txbuf cf) (lc_max_packet lc) our_ip (Some nak) (rq_pkt rq);
          Some (case made of
                  None \<Rightarrow> No_reply s
                | Some (reply, options) \<Rightarrow> Do_reply lc s (Some (reply, options, dhcp_msgtype_nak_e)) broadcast) }
      | V_ack lc s \<Rightarrow> do {
          made \<leftarrow> make_dhcp_reply (cf_txbuf cf) (lc_max_packet lc) our_ip dhcp_msgtype_ack_e (rq_pkt rq);
          (reply, options) \<leftarrow> made;
          r \<leftarrow> add_lease lc (reply\<lparr>dp_yiaddr := lc_iaddr lc\<rparr>) options;
          Some (case r of
                  None \<Rightarrow> No_reply s
                | Some (reply', options') \<Rightarrow> Do_reply lc s (Some (reply', options', dhcp_msgtype_ack_e)) False) })"

text \<open>The address in an option, read without looking at the option's length.\<close>

definition option_addr :: "dhcpol \<Rightarrow> int \<Rightarrow> in_addr option option" where
  "option_addr options tag = do {
     found \<leftarrow> find_option options tag;
     case found of None \<Rightarrow> Some None | Some (p, _) \<Rightarrow> map_option Some (net_uint32_get p) }"

definition dhcp_do_request :: "config \<Rightarrow> request \<Rightarrow> intf \<Rightarrow> locals \<Rightarrow> server \<Rightarrow> outcome option" where
  "dhcp_do_request cf rq ifp lc s = do {
     server_id \<leftarrow> option_addr (rq_options rq) dhcptag_server_identifier_e;
     req_ip \<leftarrow> option_addr (rq_options rq) dhcptag_requested_ip_address_e;
     our_ip \<leftarrow> if_inet_addr_best_match ifp (case req_ip of None \<Rightarrow> 0 | Some a \<Rightarrow> a);
     v \<leftarrow> (case server_id of
             Some sid \<Rightarrow> dhcp_select cf rq ifp lc s our_ip sid req_ip
           | None \<Rightarrow> dhcp_renew cf rq ifp lc s req_ip);
     send_verdict cf rq our_ip v }"

definition dhcp_decline :: "config \<Rightarrow> request \<Rightarrow> intf \<Rightarrow> locals \<Rightarrow> server \<Rightarrow> outcome option" where
  "dhcp_decline cf rq ifp lc s = do {
     server_id \<leftarrow> option_addr (rq_options rq) dhcptag_server_identifier_e;
     req_ip \<leftarrow> option_addr (rq_options rq) dhcptag_requested_ip_address_e;
     case (server_id, req_ip) of
       (Some sid, Some a) \<Rightarrow> do {
         our_ip \<leftarrow> if_inet_addr_best_match ifp a;
         if sid \<noteq> our_ip then Some (No_reply s)
         else if lc_binding lc = dhcp_binding_temporary_e \<and> lc_iaddr lc = a then do {
           (lc1, s1) \<leftarrow> update_entry lc s (\<lambda>pl. ni_delete_prop pl NIPROP_IDENTIFIER);
           (lc2, s2) \<leftarrow> update_lease (rq_time rq + DHCP_DECLINE_WAIT_SECS) lc1 s1;
           (lc3, s3) \<leftarrow> update_entry lc2 s2 (\<lambda>pl. ni_set_prop pl NIPROP_DHCP_DECLINED (Some (lc_idstr lc)));
           Some (Do_reply lc3 s3 None False) }
         else Some (Do_reply lc s None False) }
     | _ \<Rightarrow> Some (No_reply s) }"

definition dhcp_release :: "request \<Rightarrow> locals \<Rightarrow> server \<Rightarrow> outcome option" where
  "dhcp_release rq lc s =
     (if lc_binding lc = dhcp_binding_temporary_e then do {
        (lc1, s1) \<leftarrow> update_lease (rq_time rq) lc s;
        Some (Do_reply lc1 s1 None False) }
      else Some (Do_reply lc s None False))"

definition dhcp_inform :: "config \<Rightarrow> request \<Rightarrow> intf \<Rightarrow> locals \<Rightarrow> server \<Rightarrow> outcome option" where
  "dhcp_inform cf rq ifp lc s =
     (let lc1 = lc\<lparr>lc_iaddr := dp_ciaddr (rq_pkt rq)\<rparr> in do {
        our_ip \<leftarrow> if_inet_addr_best_match ifp (lc_iaddr lc1);
        made \<leftarrow> make_dhcp_reply (cf_txbuf cf) (lc_max_packet lc) our_ip dhcp_msgtype_ack_e (rq_pkt rq);
        Some (case made of
                None \<Rightarrow> No_reply s
              | Some (reply, options) \<Rightarrow> Do_reply lc1 s (Some (reply, options, dhcp_msgtype_ack_e)) False) })"

section \<open>The whole request (dhcpd.c)\<close>

text \<open>The fields and options every OFFER and ACK gets; \<open>None\<close> inside when the end tag does not fit.\<close>

definition complete_reply ::
  "config \<Rightarrow> request \<Rightarrow> intf \<Rightarrow> locals \<Rightarrow> server \<Rightarrow> dhcp \<Rightarrow> dhcpoa \<Rightarrow> (dhcp \<times> dhcpoa) option option" where
  "complete_reply cf rq ifp lc s reply options = do {
     params \<leftarrow> find_option (rq_options rq) dhcptag_parameter_request_list_e;
     let reply1 = (if lc_bootfile lc = None then reply\<lparr>dp_file := replicate 128 0\<rparr> else reply);
     let reply2 = reply1\<lparr>dp_sname := strlcpy_field (dp_sname reply1) (cf_server_name cf)\<rparr>;
     options1 \<leftarrow> (case params of
        None \<Rightarrow> Some options
      | Some (p, n) \<Rightarrow> do {
          tags \<leftarrow> rdn p 0 (nat n);
          add_subnet_options cf (sv_subnets s) (lc_hostname lc) (lc_iaddr lc) ifp options (Some tags) });
     (r, options2) \<leftarrow> dhcpoa_add options1 dhcptag_end_e 0 [];
     Some (if r \<noteq> dhcpoa_success_e then None else Some (reply2, options2)) }"

definition transmit_reply :: "intf \<Rightarrow> locals \<Rightarrow> server \<Rightarrow> bool \<Rightarrow> dhcp \<Rightarrow> dhcpoa \<Rightarrow> server option" where
  "transmit_reply ifp lc s broadcast reply options =
     (let used = sizeof_dhcp + int RFC_MAGIC_SIZE + dhcpoa_used options;
          n = (if used < sizeof_bootp then sizeof_bootp else used)
      in sendreply s ifp (reply\<lparr>dp_options := rfc_magic @ oa_buffer options\<rparr>) n broadcast (Some (lc_iaddr lc)))"

definition finish_request :: "config \<Rightarrow> request \<Rightarrow> intf \<Rightarrow> outcome \<Rightarrow> server option" where
  "finish_request cf rq ifp out =
     (case out of
        No_reply s \<Rightarrow> Some s
      | Do_reply lc s reply broadcast \<Rightarrow>
          let (s1, ok) = (if lc_binding lc = dhcp_binding_temporary_e \<and> lc_modified lc
                          then S_commit_mods cf s else (s, True)) in
          if \<not> ok then Some s1
          else if uint (swap16 (dp_secs (rq_pkt rq))) < uint (cf_reply_threshold cf) then Some s1
          else
            (case reply of
               None \<Rightarrow> Some s1
             | Some (rp, options, msgtype) \<Rightarrow>
                 if msgtype = dhcp_msgtype_ack_e \<or> msgtype = dhcp_msgtype_offer_e then do {
                   r \<leftarrow> complete_reply cf rq ifp lc s1 rp options;
                   case r of
                     None \<Rightarrow> Some s1
                   | Some (rp', options') \<Rightarrow> transmit_reply ifp lc s1 broadcast rp' options' }
                 else transmit_reply ifp lc s1 broadcast rp options))"

definition dhcp_message ::
  "config \<Rightarrow> request \<Rightarrow> intf \<Rightarrow> u8 \<Rightarrow> bool \<Rightarrow> locals \<Rightarrow> server \<Rightarrow> outcome option" where
  "dhcp_message cf rq ifp msgtype dhcp_allocate lc s =
     (if msgtype = dhcp_msgtype_discover_e then dhcp_discover cf rq ifp dhcp_allocate lc s
      else if msgtype = dhcp_msgtype_request_e then dhcp_do_request cf rq ifp lc s
      else if msgtype = dhcp_msgtype_decline_e then dhcp_decline cf rq ifp lc s
      else if msgtype = dhcp_msgtype_release_e then dhcp_release rq lc s
      else if msgtype = dhcp_msgtype_inform_e then dhcp_inform cf rq ifp lc s
      else Some (Do_reply lc s None False))"

definition dhcp_request :: "config \<Rightarrow> request \<Rightarrow> u8 \<Rightarrow> bool \<Rightarrow> server \<Rightarrow> server option" where
  "dhcp_request cf rq msgtype dhcp_allocate s = do {
     ifp \<leftarrow> the_if s rq;
     who \<leftarrow> identify cf rq;
     case who of
       None \<Rightarrow> Some s
     | Some lc0 \<Rightarrow> do {
         let lc1 = permanent_binding cf s ifp (rq_pkt rq) lc0;
         (lc2, s2) \<leftarrow> lease_binding cf s ifp (rq_pkt rq) lc1;
         lc3 \<leftarrow> current_lease rq s2 lc2;
         out \<leftarrow> dhcp_message cf rq ifp msgtype dhcp_allocate lc3 s2;
         finish_request cf rq ifp out } }"

end
