(* ===== verification/DhcpReplyFacts.thy ===== *)
theory DhcpReplyFacts
  imports DhcpServer
begin

text \<open>
  The replies of the server always fit, end with the end tag, and parse back: options are added to an
  area with one byte reserved, and an option that does not fit is left out.
\<close>

section \<open>Adding options\<close>

definition dims :: "dhcpoa \<Rightarrow> int \<times> int \<times> nat" where
  "dims oa = (oa_size oa, oa_reserve oa, length (oa_buffer oa))"

lemma dims_err [simp]: "dims (oa\<lparr>oa_err := e\<rparr>) = dims oa"
  by (simp add: dims_def)

text \<open>Adding an option succeeds and appends the field, or leaves what the area holds.\<close>

lemma add_option_cases:
  assumes "oa_holds oa fs" "0 < tag" "tag < dhcptag_end_e"
  obtains (added) oa' where "dhcpoa_add oa tag (int (length bs)) bs = Some (dhcpoa_success_e, oa')"
      "oa_holds oa' (fs @ [(word_of_int tag, bs)])" "dims oa' = dims oa"
      "oa_offset oa' = oa_offset oa + int (length bs) + 2"
      "length bs \<le> 255" "oa_offset oa + int (length bs) + 2 + oa_reserve oa \<le> oa_size oa"
  | (skipped) r oa' where "dhcpoa_add oa tag (int (length bs)) bs = Some (r, oa')" "r \<noteq> dhcpoa_success_e"
      "oa_holds oa' fs" "dims oa' = dims oa" "oa_offset oa' = oa_offset oa"
      "length bs > 255 \<or> oa_offset oa + int (length bs) + 2 + oa_reserve oa > oa_size oa"
proof (cases "length bs > 255")
  case True
  then have "dhcpoa_add oa tag (int (length bs)) bs =
      Some (dhcpoa_failed_e, oa\<lparr>oa_err := Some (OptionTooLong tag (int (length bs)))\<rparr>)"
    by (intro dhcpoa_add_too_long) (simp add: DHCP_OPTION_SIZE_MAX_def)
  with assms(1) True show ?thesis
    by (intro skipped [of dhcpoa_failed_e "oa\<lparr>oa_err := Some (OptionTooLong tag (int (length bs)))\<rparr>"]) auto
next
  case False
  then have l: "int (length bs) \<le> DHCP_OPTION_SIZE_MAX" by (simp add: DHCP_OPTION_SIZE_MAX_def)
  show ?thesis
  proof (cases "oa_offset oa + int (length bs) + 2 + oa_reserve oa \<le> oa_size oa")
    case True
    obtain oa' where "dhcpoa_add oa tag (int (length bs)) bs = Some (dhcpoa_success_e, oa')"
        "oa_holds oa' (fs @ [(word_of_int tag, take (nat (int (length bs))) bs)])"
        "oa_offset oa' = oa_offset oa + int (length bs) + 2" "oa_size oa' = oa_size oa" "oa_reserve oa' = oa_reserve oa"
        "length (oa_buffer oa') = length (oa_buffer oa)"
      by (rule dhcpoa_add_option [OF assms _ l _ True, of bs]) auto
    with False True show ?thesis by (intro added [of oa']) (simp_all add: dims_def)
  next
    case full: False
    then obtain e where "dhcpoa_add oa tag (int (length bs)) bs = Some (dhcpoa_full_e, oa\<lparr>oa_err := Some e\<rparr>)"
      using dhcpoa_add_full [OF assms l, of bs] by auto
    with assms(1) full show ?thesis
      by (intro skipped [of dhcpoa_full_e "oa\<lparr>oa_err := Some e\<rparr>"]) auto
  qed
qed

text \<open>Fields are only ever appended.\<close>

definition grows :: "field list \<Rightarrow> dhcpoa \<Rightarrow> dhcpoa \<Rightarrow> bool" where
  "grows fs oa oa' \<longleftrightarrow> dims oa' = dims oa \<and> (\<exists>gs. oa_holds oa' (fs @ gs))"

lemma grows_refl: "oa_holds oa fs \<Longrightarrow> grows fs oa oa"
  by (auto simp: grows_def intro: exI [of _ "[]"])

lemma add_bytes_grows:
  assumes "oa_holds oa (fs @ gs)" "tag \<noteq> dhcptag_pad_e" "tag \<noteq> dhcptag_end_e"
  obtains oa' where "add_bytes oa tag bs = Some oa'" "grows fs oa oa'"
proof -
  have "uint tag \<noteq> 0" "uint tag \<noteq> 255" using assms(2,3) by (auto simp: word_uint_eq_iff)
  moreover have "uint tag < 256" using uint_range_size [of tag] by (simp add: word_size)
  moreover have "0 \<le> uint tag" by simp
  ultimately have "0 < uint tag" "uint tag < 255" by linarith+
  from add_option_cases [OF assms(1) this, of bs] show ?thesis
    by (cases, auto simp: add_bytes_def grows_def intro!: that)
qed

lemma add_tag_grows:
  assumes "intf_ok ifp" "oa_holds oa (fs @ gs)"
  obtains oa' where "add_tag cf hostname sn ifp iaddr oa tag = Some oa'" "grows fs oa oa'"
proof (cases "tag \<in> set ignored_tags")
  case True
  with assms(2) show ?thesis by (intro that [of oa]) (auto simp: add_tag_def grows_def)
next
  case False
  then have t: "tag \<noteq> dhcptag_pad_e" "tag \<noteq> dhcptag_end_e" by (auto simp: ignored_tags_def)
  have step: "\<exists>oa'. add_bytes oa1 tg bs = Some oa' \<and> grows fs oa oa'"
    if g: "grows fs oa oa1" "tg \<noteq> 0" "tg \<noteq> 255" for oa1 tg bs
  proof -
    obtain gs1 where "oa_holds oa1 (fs @ gs1)" "dims oa1 = dims oa" using g(1) unfolding grows_def by blast
    then show ?thesis using add_bytes_grows [of oa1 fs gs1 tg bs] g by (auto simp: grows_def)
  qed
  have g0: "grows fs oa oa" using assms(2) by (auto simp: grows_def)
  obtain oa1 handled where c: "add_configured hostname sn oa tag = Some (oa1, handled)" "grows fs oa oa1"
  proof -
    have "\<exists>oa1 handled. add_configured hostname sn oa tag = Some (oa1, handled) \<and> grows fs oa oa1"
      using step [OF g0, of 12] step [OF g0 t] g0
      by (cases hostname; cases sn) (fastforce simp: add_configured_def split: option.splits)+
    then show ?thesis using that by blast
  qed
  obtain info where info: "matching_addr ifp iaddr = Some info"
  proof -
    have "\<exists>info. matching_addr ifp iaddr = Some info"
      using assms(1) by (auto simp: matching_addr_def match_subnet_ok addr_at_ok split: option.splits)
    then show ?thesis using that by blast
  qed
  have "\<exists>oa2. add_default cf ifp iaddr oa1 tag = Some oa2 \<and> grows fs oa oa2"
    using step [OF c(2), of 1] step [OF c(2), of 3] step [OF c(2), of 6] step [OF c(2), of 15] step [OF c(2), of 119] c(2)
    by (auto simp: add_default_def info split: option.splits)
  then have "\<exists>oa2. (if \<not> handled \<and> cf_use_server_config cf then add_default cf ifp iaddr oa1 tag else Some oa1) = Some oa2 \<and>
      grows fs oa oa2"
    using c(2) by auto
  then obtain oa2 where d: "(if \<not> handled \<and> cf_use_server_config cf then add_default cf ifp iaddr oa1 tag else Some oa1) = Some oa2"
      "grows fs oa oa2"
    by blast
  have "\<exists>oa'. add_tag cf hostname sn ifp iaddr oa tag = Some oa' \<and> grows fs oa oa'"
    using step [OF d(2), of 108] False c(1) d by (auto simp: add_tag_def)
  then show ?thesis using that by blast
qed

lemma add_tags_grows:
  assumes "intf_ok ifp"
  shows "grows fs oa0 oa \<Longrightarrow> \<exists>oa'. add_tags cf hostname sn ifp iaddr oa tags = Some oa' \<and> grows fs oa0 oa'"
proof (induction tags arbitrary: oa)
  case Nil
  then show ?case by simp
next
  case (Cons t ts)
  obtain gs where gs: "oa_holds oa (fs @ gs)" "dims oa = dims oa0" using Cons.prems by (auto simp: grows_def)
  obtain oa' where "add_tag cf hostname sn ifp iaddr oa t = Some oa'" "grows fs oa oa'"
    using add_tag_grows [OF assms gs(1)] .
  with Cons.IH [of oa'] gs show ?case by (simp add: grows_def)
qed

lemma add_subnet_options_grows:
  assumes "intf_ok ifp" "oa_holds oa fs"
  obtains oa' where "add_subnet_options cf sns hostname iaddr ifp oa tags = Some oa'" "grows fs oa oa'"
proof -
  have "\<exists>oa'. add_subnet_options cf sns hostname iaddr ifp oa tags = Some oa' \<and> grows fs oa oa'"
    unfolding add_subnet_options_def by (rule add_tags_grows [OF assms(1) grows_refl [OF assms(2)]])
  then show ?thesis using that by blast
qed

section \<open>Replies\<close>

definition reply_fields :: "u8 \<Rightarrow> in_addr \<Rightarrow> field list" where
  "reply_fields msg server_id =
     [(dhcptag_dhcp_message_type_e, [msg]), (dhcptag_server_identifier_e, net_uint32_bytes server_id)]"

text \<open>The limits \<open>dhcp_max_message_size\<close> and the transmit buffer give.\<close>

definition packet_size_ok :: "int \<Rightarrow> bool" where
  "packet_size_ok n \<longleftrightarrow> DHCP_PACKET_MIN - DHCP_PACKET_OVERHEAD \<le> n \<and> n \<le> sizeof_txbuf - DHCP_PACKET_OVERHEAD"

lemma make_reply_ok:
  assumes "length buffer = 1264" "packet_size_ok n"
  obtains reply oa where "make_dhcp_reply buffer n server_id msg req = Some (Some (reply, oa))"
    "reply = req\<lparr>dp_siaddr := server_id, dp_hops := 0, dp_secs := 0, dp_op := BOOTREPLY\<rparr>"
    "oa_holds oa (reply_fields msg server_id)" "oa_offset oa = 9" "dims oa = (n - 240, 1, 1260)"
proof -
  have n: "280 \<le> n - 240" "n - 240 \<le> 1232"
    using assms(2) by (simp_all add: packet_size_ok_def DHCP_PACKET_MIN_def DHCP_PACKET_OVERHEAD_def sizeof_txbuf_def)
  obtain b where b: "wrn buffer 0 rfc_magic = Some b" "length b = 1264"
    using assms(1) by (simp add: wrn_def rfc_magic_def)
  have "nat (n - 240) \<le> length (drop 4 b)" "0 \<le> n - 240" "1 \<le> n - 240" using n b(2) by auto
  then obtain oa0 where oa0: "dhcpoa_init_common (drop 4 b) (n - 240) 1 = Some oa0" "oa_holds oa0 []"
      "oa_size oa0 = n - 240" "oa_reserve oa0 = 1" "oa_offset oa0 = 0" "length (oa_buffer oa0) = length (drop 4 b)"
    using oa_init_holds [of "n - 240" "drop 4 b" 1] by auto
  have t: "0 < (53 :: int)" "(53 :: int) < 255" "0 < (54 :: int)" "(54 :: int) < 255" by auto
  obtain oa1 where oa1: "dhcpoa_add oa0 53 (int (length [msg])) [msg] = Some (dhcpoa_success_e, oa1)"
      "oa_holds oa1 ([] @ [(word_of_int 53, [msg])])" "dims oa1 = dims oa0" "oa_offset oa1 = 3"
    by (rule add_option_cases [OF oa0(2) t(1,2), of "[msg]"]) (use oa0 n in auto)
  obtain oa2 where oa2: "dhcpoa_add oa1 54 (int (length (net_uint32_bytes server_id))) (net_uint32_bytes server_id) =
        Some (dhcpoa_success_e, oa2)"
      "oa_holds oa2 (([] @ [(word_of_int 53, [msg])]) @ [(word_of_int 54, net_uint32_bytes server_id)])"
      "dims oa2 = dims oa1" "oa_offset oa2 = 9"
    by (rule add_option_cases [OF oa1(2) t(3,4), of "net_uint32_bytes server_id"]) (use oa0 oa1 n in \<open>auto simp: dims_def\<close>)
  show ?thesis
  proof (rule that [of "req\<lparr>dp_siaddr := server_id, dp_hops := 0, dp_secs := 0, dp_op := BOOTREPLY\<rparr>" oa2])
    show "make_dhcp_reply buffer n server_id msg req =
        Some (Some (req\<lparr>dp_siaddr := server_id, dp_hops := 0, dp_secs := 0, dp_op := BOOTREPLY\<rparr>, oa2))"
      using b(1) oa0(1) oa1(1) oa2(1)
      by (simp add: make_dhcp_reply_def Let_def dhcpoa_init_def dhcpoa_add_dhcpmsg_def sizeof_dhcp_def RFC_MAGIC_SIZE_def)
    show "oa_holds oa2 (reply_fields msg server_id)" using oa2(2) by (simp add: reply_fields_def)
    show "dims oa2 = (n - 240, 1, 1260)" using oa2(3) oa1(3) oa0(3,4,6) b(2) by (simp add: dims_def)
  qed (use oa2 in auto)
qed

text \<open>The last option: the area is complete and parses as the fields.\<close>

definition complete :: "dhcpoa \<Rightarrow> field list \<Rightarrow> bool" where
  "complete oa fs \<longleftrightarrow> oa_ok oa \<and> oa_end_tag oa \<and> oa_magic oa = DHCPOA_MAGIC \<and>
     (\<forall>rest. tlv_parse (written oa @ rest) = Some fs)"

lemma add_end_ok:
  assumes "oa_holds oa fs" "oa_reserve oa = 1"
  obtains oa' where "dhcpoa_add oa dhcptag_end_e 0 [] = Some (dhcpoa_success_e, oa')" "complete oa' fs"
    "oa_offset oa' = oa_offset oa + 1" "oa_size oa' = oa_size oa" "length (oa_buffer oa') = length (oa_buffer oa)"
proof -
  have "oa_offset oa + 1 \<le> oa_size oa" using assms by (auto simp: oa_holds_def oa_ok_def)
  then obtain oa' where "dhcpoa_add oa dhcptag_end_e 0 [] = Some (dhcpoa_success_e, oa')"
      "oa_ok oa'" "oa_end_tag oa'" "\<And>rest. tlv_parse (written oa' @ rest) = Some fs" "oa_offset oa' = oa_offset oa + 1"
      "oa_size oa' = oa_size oa" "length (oa_buffer oa') = length (oa_buffer oa)"
    by (rule dhcpoa_add_end [OF assms(1), where len = 0 and opt = "[]"]) (auto simp: DHCP_OPTION_SIZE_MAX_def)
  then show ?thesis by (intro that [of oa']) (auto simp: complete_def oa_ok_def)
qed

lemma make_nak_ok:
  assumes "length buffer = 1264" "packet_size_ok n" "length nak \<le> 200"
  obtains reply oa where "make_dhcp_nak buffer n server_id (Some nak) req = Some (Some (reply, oa))"
    "reply = req\<lparr>dp_siaddr := server_id, dp_hops := 0, dp_secs := 0, dp_op := BOOTREPLY, dp_ciaddr := 0, dp_yiaddr := 0\<rparr>"
    "complete oa (reply_fields dhcp_msgtype_nak_e server_id @ [(dhcptag_message_e, str_bytes nak)])"
    "oa_size oa = n - 240" "length (oa_buffer oa) = 1260"
proof -
  have n: "280 \<le> n - 240"
    using assms(2) by (simp_all add: packet_size_ok_def DHCP_PACKET_MIN_def DHCP_PACKET_OVERHEAD_def sizeof_txbuf_def)
  obtain reply oa where r: "make_dhcp_reply buffer n server_id dhcp_msgtype_nak_e req = Some (Some (reply, oa))"
      "reply = req\<lparr>dp_siaddr := server_id, dp_hops := 0, dp_secs := 0, dp_op := BOOTREPLY\<rparr>"
      "oa_holds oa (reply_fields dhcp_msgtype_nak_e server_id)" "oa_offset oa = 9" "dims oa = (n - 240, 1, 1260)"
    using make_reply_ok [OF assms(1,2)] .
  have t: "0 < (56 :: int)" "(56 :: int) < 255" by auto
  obtain oa1 where oa1: "dhcpoa_add oa 56 (int (length (str_bytes nak))) (str_bytes nak) = Some (dhcpoa_success_e, oa1)"
      "oa_holds oa1 (reply_fields dhcp_msgtype_nak_e server_id @ [(word_of_int 56, str_bytes nak)])" "dims oa1 = dims oa"
    by (rule add_option_cases [OF r(3) t, of "str_bytes nak"]) (use assms(3) n r(4,5) in \<open>auto simp: dims_def str_bytes_def\<close>)
  obtain oa2 where oa2: "dhcpoa_add oa1 dhcptag_end_e 0 [] = Some (dhcpoa_success_e, oa2)"
      "complete oa2 (reply_fields dhcp_msgtype_nak_e server_id @ [(word_of_int 56, str_bytes nak)])"
      "oa_offset oa2 = oa_offset oa1 + 1" "oa_size oa2 = oa_size oa1" "length (oa_buffer oa2) = length (oa_buffer oa1)"
    by (rule add_end_ok [OF oa1(2)]) (use oa1(3) r(5) in \<open>auto simp: dims_def\<close>)
  have "length (str_bytes nak) = length nak" by (simp add: str_bytes_def)
  with r oa1 oa2 show ?thesis
    by (intro that [of "reply\<lparr>dp_ciaddr := 0, dp_yiaddr := 0\<rparr>" oa2]) (simp_all add: make_dhcp_nak_def dims_def)
qed

lemma add_lease_ok:
  assumes "oa_holds oa fs" "oa_offset oa = 9" "dims oa = (n - 240, 1, 1260)" "packet_size_ok n"
  obtains reply' oa' where "add_lease lc reply oa = Some (Some (reply', oa'))"
    "reply' = reply\<lparr>dp_file := (case lc_bootfile lc of None \<Rightarrow> dp_file reply | Some f \<Rightarrow> strlcpy_field (dp_file reply) f)\<rparr>"
    "oa_holds oa' (fs @ [(dhcptag_lease_time_e, net_uint32_bytes (lc_lease lc))])" "dims oa' = (n - 240, 1, 1260)"
proof -
  have n: "280 \<le> n - 240"
    using assms(4) by (simp_all add: packet_size_ok_def DHCP_PACKET_MIN_def DHCP_PACKET_OVERHEAD_def sizeof_txbuf_def)
  have t: "0 < (51 :: int)" "(51 :: int) < 255" by auto
  obtain oa1 where oa1: "dhcpoa_add oa 51 (int (length (net_uint32_bytes (lc_lease lc)))) (net_uint32_bytes (lc_lease lc)) =
        Some (dhcpoa_success_e, oa1)"
      "oa_holds oa1 (fs @ [(word_of_int 51, net_uint32_bytes (lc_lease lc))])" "dims oa1 = dims oa"
    by (rule add_option_cases [OF assms(1) t, of "net_uint32_bytes (lc_lease lc)"]) (use assms n in \<open>auto simp: dims_def\<close>)
  then show ?thesis
    using assms(3)
    by (intro that [of "reply\<lparr>dp_file := (case lc_bootfile lc of None \<Rightarrow> dp_file reply | Some f \<Rightarrow> strlcpy_field (dp_file reply) f)\<rparr>" oa1])
      (simp_all add: add_lease_def Let_def split: option.split)
qed

end
