(* ===== verification/DhcpLeaseFacts.thy ===== *)
theory DhcpLeaseFacts
  imports DhcpLeases
begin

text \<open>
  Facts about the lease store: lease times survive being written into a property list, the search for
  an address keeps every lease, and what it returns is free.
\<close>

section \<open>Lease times\<close>

lemma lease_string_time:
  assumes "0 \<le> t" "t \<le> LONG_MAX" "32 \<le> b"
  shows "lease_string b t = ''0x'' @ to_hex (nat t)"
proof -
  have "nat t < 16 ^ Suc 15" using assms(1,2) by (simp add: LONG_MAX_def nat_less_iff)
  then have "length (to_hex (nat t)) \<le> 16" using length_to_hex [of "nat t" 15] by simp
  moreover have "t mod 2 ^ 64 = t" using assms(1,2) by (intro mod_pos_pos_trivial) (simp_all add: LONG_MAX_def)
  moreover have "16 + 2 \<le> nat (b - 1)" using assms(3) by linarith
  ultimately show ?thesis by (simp add: lease_string_def snprintf_def)
qed

lemma strtol_lease_string:
  "0 \<le> t \<Longrightarrow> t \<le> LONG_MAX \<Longrightarrow> 32 \<le> b \<Longrightarrow> strtol 0 (lease_string b t) = (t, False)"
  using strtol_0x [of "nat t"] by (simp add: lease_string_time)

definition single_valued :: "ni_proplist \<Rightarrow> bool" where
  "single_valued pl \<longleftrightarrow> (\<forall>p \<in> set pl. length (nip_val p) \<le> 1)"

lemma nlforprop_in: "ni_nlforprop pl nm = Some vs \<Longrightarrow> \<exists>p \<in> set pl. nip_name p = nm \<and> nip_val p = vs"
  by (induction pl) (auto split: if_splits)

lemma set_prop_val:
  assumes "single_valued pl" "ni_set_prop pl nm (Some v) = Some (pl', m)"
  shows "ni_valforprop pl' nm = Some v"
proof (cases m)
  case True
  then show ?thesis
    using set_prop_lookup [OF assms(2), of nm] by (simp add: ni_valforprop_def)
next
  case False
  with assms(2) have "ni_set_prop pl nm (Some v) = Some (pl', False)" by simp
  then obtain vs where vs: "pl' = pl" "ni_nlforprop pl nm = Some vs" "v \<in> set vs"
    by (elim set_prop_same) auto
  then obtain p where "p \<in> set pl" "nip_val p = vs" using nlforprop_in by blast
  with assms(1) vs(3) have "vs = [v]" unfolding single_valued_def by (cases vs) fastforce+
  with vs show ?thesis by (simp add: ni_valforprop_def)
qed

section \<open>Moving entries\<close>

lemma mset_to_front:
  "mset (to_front r ys) = mset ys"
  by (cases r) (simp_all add: to_front_def flip: multiset_partition)

lemma set_to_front [simp]: "set (to_front r ys) = set ys"
  by (cases r) (auto simp: to_front_def)

lemma distinct_to_front [simp]: "distinct (map fst ys) \<Longrightarrow> distinct (map fst (to_front r ys))"
  by (cases r) (auto simp: to_front_def distinct_map inj_on_def)

section \<open>The state the server keeps\<close>

definition sv_ok :: "server \<Rightarrow> bool" where
  "sv_ok s \<longleftrightarrow> distinct (map fst (sv_leases s)) \<and> (\<forall>y \<in> set (sv_leases s). fst y < sv_next s) \<and>
     (\<forall>sns. sv_subnets s = Some sns \<longrightarrow> list_all pool_ok sns) \<and>
     (\<forall>ifp \<in> set (sv_interfaces s). intf_ok ifp)"

text \<open>What the search for an address may change: the order of the leases, old offers and the cursors
  of the subnets.\<close>

definition same_subnets :: "subnets option \<Rightarrow> subnets option \<Rightarrow> bool" where
  "same_subnets a b \<longleftrightarrow> map_option (map fixed_part) a = map_option (map fixed_part) b"

definition quiet :: "server \<Rightarrow> server \<Rightarrow> bool" where
  "quiet s s' \<longleftrightarrow> mset (sv_leases s') = mset (sv_leases s) \<and> sv_next s' = sv_next s \<and> sv_file s' = sv_file s \<and>
     set (sv_pending s') \<subseteq> set (sv_pending s) \<and> same_subnets (sv_subnets s') (sv_subnets s) \<and>
     sv_interfaces s' = sv_interfaces s \<and> sv_sent s' = sv_sent s"

lemma quiet_refl [simp]: "quiet s s"
  by (simp add: quiet_def same_subnets_def)

lemma quiet_trans: "quiet a b \<Longrightarrow> quiet b c \<Longrightarrow> quiet a c"
  by (auto simp: quiet_def same_subnets_def)

lemma mset_distinct_fst: "mset xs = mset ys \<Longrightarrow> distinct (map fst xs) = distinct (map fst ys)"
  by (metis mset_eq_imp_distinct_iff mset_map)

lemma S_ipinuse_quiet:
  assumes "S_ipinuse cf now s ip = Some (s', used)" "distinct (map fst (sv_leases s))"
  shows "quiet s s'" "sv_subnets s' = sv_subnets s" "distinct (map fst (sv_leases s'))"
proof -
  have "quiet s s' \<and> sv_subnets s' = sv_subnets s"
    using assms(1)
    by (auto dest: subsetD [OF hostremove_subset] simp: S_ipinuse_def DHCPLeases_ip_in_use_def Let_def quiet_def same_subnets_def hostfree_def
        mset_to_front split: if_splits option.splits)
  then show "quiet s s'" "sv_subnets s' = sv_subnets s" "distinct (map fst (sv_leases s'))"
    using assms(2) mset_distinct_fst by (auto simp: quiet_def)
qed

lemma S_ipinuse_total: "S_ipinuse cf now s ip \<noteq> None"
  by (auto simp: S_ipinuse_def Let_def case_prod_unfold split: option.splits)

text \<open>An entry with an address, as the cache looks it up.\<close>

definition has_address :: "config \<Rightarrow> in_addr \<Rightarrow> ni_proplist \<Rightarrow> bool" where
  "has_address cf ip pl \<longleftrightarrow> snd (lookup_ip_test (cf_netlib cf) ip pl ())"

lemma scan_none: "fst (list_scan test () ys) = None \<longleftrightarrow> (\<forall>y \<in> set ys. \<not> snd (test (snd y) ()))"
proof (induction ys)
  case Nil
  then show ?case by simp
next
  case (Cons y ys)
  then show ?case by (cases y; cases "test (snd y) ()") (auto split: bool.splits)
qed

text \<open>No host of the table, no lease and no recent offer has the address.\<close>

definition free_address :: "config \<Rightarrow> int \<Rightarrow> server \<Rightarrow> in_addr \<Rightarrow> bool" where
  "free_address cf now s ip \<longleftrightarrow> bootp_getbyip_file cf ip = None \<and>
     (\<forall>y \<in> set (sv_leases s). \<not> has_address cf ip (snd y))"

lemma S_ipinuse_free:
  "S_ipinuse cf now s ip = Some (s', False) \<Longrightarrow> free_address cf now s' ip"
  by (cases "bootp_getbyip_file cf ip")
    (auto simp: S_ipinuse_def DHCPLeases_ip_in_use_def Let_def free_address_def has_address_def scan_none
      split: if_splits option.splits)

section \<open>Searching for an address\<close>

text \<open>An address the server may give out of its pool.\<close>

definition offerable :: "config \<Rightarrow> int \<Rightarrow> server \<Rightarrow> nat \<Rightarrow> in_addr \<Rightarrow> bool" where
  "offerable cf now s i ip \<longleftrightarrow>
     (\<exists>sns. sv_subnets s = Some sns \<and> i < length sns \<and> sn_allocate (sns ! i) \<and>
        ir_start (sn_net_range (sns ! i)) \<le> ip \<and> ip \<le> ir_end (sn_net_range (sns ! i))) \<and>
     free_address cf now s ip"

lemma sv_ok_quiet:
  assumes "sv_ok s" "quiet s s'" "\<And>sns. sv_subnets s' = Some sns \<Longrightarrow> list_all pool_ok sns"
  shows "sv_ok s'"
  using assms mset_distinct_fst [of "sv_leases s'" "sv_leases s"] mset_eq_setD [of "sv_leases s'" "sv_leases s"]
  by (simp add: sv_ok_def quiet_def)

lemma subnets_acquire_ok:
  assumes ok: "sv_ok s" "sv_subnets s = Some sns"
  shows "\<exists>r s'. subnets_acquire cf now s sns addr = Some (r, s') \<and> quiet s s' \<and> sv_ok s' \<and>
    (\<forall>i ip. r = Some (i, ip) \<longrightarrow> offerable cf now s' i ip)"
proof -
  have pools: "list_all pool_ok sns" using ok by (simp add: sv_ok_def)
  have d: "distinct (map fst (sv_leases s))" using ok by (simp add: sv_ok_def)
  from SubnetListAcquireAddress_ok [where func = "S_ipinuse cf now" and s = s and addr = addr, OF S_ipinuse_total pools]
  obtain r sns' s1 where run: "SubnetListAcquireAddress (S_ipinuse cf now) s sns addr = Some (r, sns', s1)"
    and sub: "list_all pool_ok sns'" "map fixed_part sns' = map fixed_part sns"
    and res: "\<And>i ip. r = Some (i, ip) \<Longrightarrow> i < length sns \<and> sn_allocate (sns ! i) \<and>
       ir_start (sn_net_range (sns ! i)) \<le> ip \<and> ip \<le> ir_end (sn_net_range (sns ! i)) \<and>
       (\<exists>s0. S_ipinuse cf now s0 ip = Some (s1, False))"
    by metis
  let ?P = "\<lambda>s'. quiet s s' \<and> distinct (map fst (sv_leases s'))"
  have "?P s1"
  proof (rule SubnetListAcquireAddress_keeps [where P = ?P, OF _ run])
    fix a x b u
    assume a: "?P a" "S_ipinuse cf now a x = Some (b, u)"
    show "?P b"
      using S_ipinuse_quiet [OF a(2)] a(1) quiet_trans by blast
  qed (use d in simp)
  then have q: "quiet s s1" by simp
  let ?s' = "s1\<lparr>sv_subnets := Some sns'\<rparr>"
  have q': "quiet s ?s'" using q sub ok(2) by (simp add: quiet_def same_subnets_def)
  have "sv_ok ?s'" using sub(1) by (intro sv_ok_quiet [OF ok(1) q']) simp
  moreover have "offerable cf now ?s' i ip" if "r = Some (i, ip)" for i ip
  proof -
    have i: "i < length sns" using res [OF that] by simp
    have "fixed_part (sns' ! i) = fixed_part (sns ! i)" using fixed_map_nth [OF sub(2)] i sub(2) by (metis length_map)
    moreover have "i < length sns'" using i sub(2) by (metis length_map)
    moreover have "free_address cf now ?s' ip"
      using res [OF that] S_ipinuse_free [of cf now _ ip s1] by (auto simp: free_address_def)
    ultimately show ?thesis
      using res [OF that] fixed_partD [of "sns' ! i" "sns ! i"] by (simp add: offerable_def)
  qed
  ultimately show ?thesis using run q' by (auto simp: subnets_acquire_def)
qed

lemma acquire_on_if_ok:
  assumes "intf_ok ifp" "sv_ok s" "sv_subnets s \<noteq> None" "n + i = length (addrs ifp)"
  shows "\<exists>r s'. acquire_on_if cf now ifp n i s = Some (r, s') \<and> quiet s s' \<and> sv_ok s' \<and>
    (\<forall>i ip. r = Some (i, ip) \<longrightarrow> offerable cf now s' i ip)"
  using assms(2-4)
proof (induction n arbitrary: i s)
  case 0
  then show ?case by simp
next
  case (Suc n)
  obtain sns where sns: "sv_subnets s = Some sns" using Suc.prems(2) by auto
  have a: "if_inet_addr_at ifp (int i) = Some (Some (addrs ifp ! i))"
    using addr_at_ok [OF assms(1)] Suc.prems(3) by simp
  obtain r s1 where run: "subnets_acquire cf now s sns (ia_netaddr (addrs ifp ! i)) = Some (r, s1)"
    and s1: "quiet s s1" "sv_ok s1" "\<forall>i ip. r = Some (i, ip) \<longrightarrow> offerable cf now s1 i ip"
    using subnets_acquire_ok [OF Suc.prems(1) sns] by blast
  show ?case
  proof (cases "r = None")
    case False
    with run s1 a sns show ?thesis by simp
  next
    case True
    have "sv_subnets s1 \<noteq> None" using s1(1) sns by (auto simp: quiet_def same_subnets_def)
    then obtain r' s2 where "acquire_on_if cf now ifp n (i + 1) s1 = Some (r', s2)" "quiet s1 s2" "sv_ok s2"
        "\<forall>i ip. r' = Some (i, ip) \<longrightarrow> offerable cf now s2 i ip"
      using Suc.IH [OF s1(2), of "i + 1"] Suc.prems(3) by auto
    with run s1 a sns True quiet_trans show ?thesis by auto
  qed
qed

lemma acquire_ip_ok:
  assumes "intf_ok ifp" "sv_ok s"
  obtains r s' where "acquire_ip cf giaddr ifp now s = Some (r, s')" "quiet s s'" "sv_ok s'"
    "\<And>i ip. r = Some (i, ip) \<Longrightarrow> offerable cf now s' i ip"
proof (cases "sv_subnets s")
  case None
  with assms show ?thesis by (intro that [of None s]) (simp_all add: acquire_ip_def)
next
  case (Some sns)
  have "\<exists>r s'. acquire_ip cf giaddr ifp now s = Some (r, s') \<and> quiet s s' \<and> sv_ok s' \<and>
      (\<forall>i ip. r = Some (i, ip) \<longrightarrow> offerable cf now s' i ip)"
  proof (cases "giaddr = 0")
    case True
    then have "acquire_ip cf giaddr ifp now s = acquire_on_if cf now ifp (length (addrs ifp)) 0 s"
      using Some by (simp add: acquire_ip_def inet_count_ok [OF assms(1)])
    with acquire_on_if_ok [OF assms, of "length (addrs ifp)" 0 cf now] Some show ?thesis by simp
  next
    case False
    then have "acquire_ip cf giaddr ifp now s = subnets_acquire cf now s sns giaddr"
      using Some by (simp add: acquire_ip_def)
    with subnets_acquire_ok [OF assms(2) Some] show ?thesis by simp
  qed
  then show ?thesis using that by blast
qed

section \<open>Expired leases\<close>

lemma reclaimable_total:
  assumes "intf_ok ifp"
  shows "reclaimable cf s ifp giaddr now pl \<noteq> None"
proof (cases "ni_proplist_match pl NIPROP_IPADDR None")
  case None
  then show ?thesis by (simp add: reclaimable_def)
next
  case (Some k)
  note k = this
  show ?thesis
  proof (cases "vals_at pl k")
    case Nil
    with k show ?thesis by (simp add: reclaimable_def)
  next
    case (Cons v vs)
    note v = this
    show ?thesis
    proof (cases "inet_aton (cf_netlib cf) v")
      case None
      with k v show ?thesis by (simp add: reclaimable_def)
    next
      case (Some ia)
      obtain b where "ip_address_reachable (sv_subnets s) (cf_routes cf) ia giaddr ifp = Some b"
        using reachable_total [OF assms] by blast
      with k v Some show ?thesis
        by (simp add: reclaimable_def Let_def case_prod_unfold split: option.split list.split)
    qed
  qed
qed

lemma reclaim_scan_ok:
  assumes "intf_ok ifp"
  shows "\<exists>r. reclaim_scan cf s ifp giaddr now ls = Some r \<and>
    (\<forall>p ip. r = Some (p, ip) \<longrightarrow> (\<exists>pl. (p, pl) \<in> set ls \<and> reclaimable cf s ifp giaddr now pl = Some (Some ip)))"
proof (induction ls)
  case Nil
  then show ?case by simp
next
  case (Cons y ls)
  obtain p pl where y: "y = (p, pl)" by (cases y)
  obtain r where r: "reclaimable cf s ifp giaddr now pl = Some r"
    using reclaimable_total [OF assms] by fastforce
  show ?case using Cons r by (cases r) (auto simp: y)
qed

lemma sv_ok_remove: "sv_ok s \<Longrightarrow> sv_ok (S_remove_host cf s p)"
  by (auto simp: sv_ok_def S_remove_host_def S_commit_mods_def del_entry_def distinct_map inj_on_def)

lemma reclaim_ok:
  assumes "intf_ok ifp" "sv_ok s"
  obtains r s' where "DHCPLeases_reclaim cf s ifp giaddr now = Some (r, s')" "sv_ok s'"
    "r = None \<longrightarrow> s' = s"
    "\<And>ip. r = Some ip \<Longrightarrow> \<exists>p pl. (p, pl) \<in> set (sv_leases s) \<and>
       reclaimable cf s ifp giaddr now pl = Some (Some ip) \<and> s' = S_remove_host cf s p"
proof -
  obtain r0 where run: "reclaim_scan cf s ifp giaddr now (rev (sv_leases s)) = Some r0"
    and r0: "\<And>p ip. r0 = Some (p, ip) \<Longrightarrow> \<exists>pl. (p, pl) \<in> set (sv_leases s) \<and> reclaimable cf s ifp giaddr now pl = Some (Some ip)"
    using reclaim_scan_ok [OF assms(1), of cf s giaddr now "rev (sv_leases s)"] by auto
  show ?thesis
  proof (cases r0)
    case None
    with run assms(2) show ?thesis by (intro that [of None s]) (simp_all add: DHCPLeases_reclaim_def)
  next
    case (Some pi)
    then obtain p ip where pi: "r0 = Some (p, ip)" by (cases pi) auto
    with run assms(2) r0 [OF pi] sv_ok_remove show ?thesis
      by (intro that [of "Some ip" "S_remove_host cf s p"]) (auto simp: DHCPLeases_reclaim_def)
  qed
qed

section \<open>What the file format can hold\<close>

lemma storable_prop_val:
  "storable_prop \<lparr>nip_name = nm, nip_val = [v]\<rparr> \<longleftrightarrow>
     (case nm of [] \<Rightarrow> False | c # _ \<Rightarrow> \<not> is_space c) \<and> clean nm \<and> CHR ''='' \<notin> set nm \<and> length nm < 128 \<and>
     clean v \<and> length v < 768"
  by (simp add: storable_prop_def)

lemma lease_props [simp]:
  "storable_prop \<lparr>nip_name = NIPROP_NAME, nip_val = [v]\<rparr> \<longleftrightarrow> clean v \<and> length v < 768"
  "storable_prop \<lparr>nip_name = NIPROP_NAME, nip_val = []\<rparr>"
  "storable_prop \<lparr>nip_name = NIPROP_IPADDR, nip_val = [v]\<rparr> \<longleftrightarrow> clean v \<and> length v < 768"
  "storable_prop \<lparr>nip_name = NIPROP_HWADDR, nip_val = [v]\<rparr> \<longleftrightarrow> clean v \<and> length v < 768"
  "storable_prop \<lparr>nip_name = NIPROP_IDENTIFIER, nip_val = [v]\<rparr> \<longleftrightarrow> clean v \<and> length v < 768"
  "storable_prop \<lparr>nip_name = NIPROP_DHCP_LEASE, nip_val = [v]\<rparr> \<longleftrightarrow> clean v \<and> length v < 768"
  "storable_prop \<lparr>nip_name = NIPROP_DHCP_DECLINED, nip_val = [v]\<rparr> \<longleftrightarrow> clean v \<and> length v < 768"
  by (simp_all add: storable_prop_def is_space_def clean_def)

lemma set_prop_storable:
  assumes "ni_set_prop pl nm (Some v) = Some (pl', m)" "list_all storable_prop pl"
    and "storable_prop \<lparr>nip_name = nm, nip_val = [v]\<rparr>"
  shows "list_all storable_prop pl'" "pl' \<noteq> []"
  using assms by (cases rule: set_prop_cases [of "Some v" pl nm]; fastforce)+

lemma delete_prop_storable:
  "ni_delete_prop pl nm = Some (pl', m) \<Longrightarrow> list_all storable_prop pl \<Longrightarrow> list_all storable_prop pl'"
  by (cases rule: delete_prop_cases [of nm pl]) auto

lemma clean_to_hex: "clean (to_hex n)"
proof -
  have "\<not> is_digit 16 NL" "\<not> is_digit 16 NUL" by (simp_all add: is_digit_def digit_val_def)
  then show ?thesis using to_hex_digits [of n] by (auto simp: clean_def)
qed

lemma clean_append [simp]: "clean (a @ b) \<longleftrightarrow> clean a \<and> clean b"
  by (auto simp: clean_def)

lemma clean_Cons [simp]: "clean (c # b) \<longleftrightarrow> c \<noteq> NL \<and> c \<noteq> NUL \<and> clean b"
  by (auto simp: clean_def)

lemma clean_Nil [simp]: "clean []"
  by (simp add: clean_def)

lemma clean_take: "clean s \<Longrightarrow> clean (take n s)"
  by (auto simp: clean_def dest: in_set_takeD)

lemma lease_string_text: "clean (lease_string b t) \<and> length (lease_string b t) \<le> nat (b - 1)"
  by (simp add: lease_string_def snprintf_def clean_take clean_to_hex)

lemma clean_colon_hex: "clean (colon_hex bs)"
  by (induction bs) (simp_all add: colon_hex_def clean_to_hex)

lemma identifier_text:
  assumes "bs \<noteq> []" "length bs \<le> 254"
  shows "clean (identifierToString t bs)" "length (identifierToString t bs) < 768"
proof -
  obtain b bs' where bs: "bs = b # bs'" using assms(1) by (cases bs) auto
  show "clean (identifierToString t bs)" by (simp add: bs identifierToString_eq clean_to_hex clean_colon_hex)
  show "length (identifierToString t bs) < 768"
    using to_hex_byte [of t] to_hex_byte [of b] length_colon_hex [of bs'] assms(2)
    by (simp add: bs identifierToString_eq)
qed

lemma hostname_text: "clean (map hostname_char bs)"
proof -
  have "hostname_char b \<noteq> NL \<and> hostname_char b \<noteq> NUL" for b
  proof (cases "b = 0 \<or> b = 10")
    case True
    then show ?thesis by (auto simp: hostname_char_def)
  next
    case False
    then have "unat b \<noteq> 0" "unat b \<noteq> 10"
      using word_unat_eq_iff [of b 0] word_unat_eq_iff [of b 10] by simp_all
    moreover have "of_char (char_of (unat b) :: char) = unat b" using unat_u8 [of b] by simp
    moreover have "of_char NL = (10 :: nat)" "of_char NUL = (0 :: nat)" by simp_all
    ultimately have "char_of (unat b) \<noteq> NL" "char_of (unat b) \<noteq> NUL" by metis+
    with False show ?thesis by (simp add: hostname_char_def)
  qed
  then show ?thesis unfolding clean_def by (metis (no_types) imageE set_map)
qed

section \<open>New entries\<close>

lemma addprop_end: "ni_proplist_addprop pl nm val =
    Some (pl @ [\<lparr>nip_name = nm, nip_val = (case val of None \<Rightarrow> [] | Some v \<Rightarrow> [v])\<rparr>])"
  using insertprop_at [of "Some (length pl)" "length pl" pl nm val] by (simp add: ni_proplist_addprop_def)

text \<open>A host name option the parser returned: its bytes are in the packet.\<close>

definition option_in_packet :: "(bptr \<times> int) option \<Rightarrow> bool" where
  "option_in_packet opt \<longleftrightarrow> (case opt of None \<Rightarrow> True | Some (p, len) \<Rightarrow> 0 \<le> len \<and> len \<le> 255 \<and> nat len \<le> length p)"

lemma get_hostname_ok:
  assumes "option_in_packet opt"
  obtains h where "S_get_hostname opt = Some h" "\<And>s. h = Some s \<Longrightarrow> clean s \<and> length s \<le> 255"
    "h \<noteq> None \<longleftrightarrow> (case opt of None \<Rightarrow> False | Some (_, len) \<Rightarrow> len > 0)"
proof (cases opt)
  case None
  then show ?thesis by (intro that [of None]) (simp_all add: S_get_hostname_def)
next
  case (Some pl)
  obtain p len where opt: "opt = Some (p, len)" using Some by (cases pl) auto
  have b: "0 \<le> len" "len \<le> 255" "nat len \<le> length p" using assms by (auto simp: opt option_in_packet_def)
  show ?thesis
  proof (cases "len > 0")
    case False
    then show ?thesis by (intro that [of None]) (simp_all add: S_get_hostname_def opt)
  next
    case True
    then have "S_get_hostname opt = Some (Some (map hostname_char (take (nat len) p)))"
      using b by (simp add: S_get_hostname_def opt rdn_def)
    then show ?thesis
      using True b hostname_text [of "take (nat len) p"]
      by (intro that [of "Some (map hostname_char (take (nat len) p))"]) (auto simp: opt)
  qed
qed

definition netlib_text :: "netlib \<Rightarrow> bool" where
  "netlib_text L \<longleftrightarrow> (\<forall>ip. clean (inet_ntoa L ip) \<and> length (inet_ntoa L ip) < 768)"

lemma host_properties_ok:
  assumes "option_in_packet opt"
  obtains pl where "host_properties cf idstr hwstr ip opt t = Some pl"
    "ni_nlforprop pl NIPROP_IPADDR = Some [inet_ntoa (cf_netlib cf) ip]"
    "ni_nlforprop pl NIPROP_IDENTIFIER = Some [idstr]"
    "ni_nlforprop pl NIPROP_DHCP_LEASE = Some [lease_string 128 t]"
    "single_valued pl" "distinct (names pl)"
    "netlib_text (cf_netlib cf) \<Longrightarrow> clean idstr \<and> length idstr < 768 \<Longrightarrow> clean hwstr \<and> length hwstr < 768 \<Longrightarrow> storable pl"
proof -
  obtain h where h: "S_get_hostname opt = Some h" "\<And>s. h = Some s \<Longrightarrow> clean s \<and> length s \<le> 255"
    using get_hostname_ok [OF assms] by metis
  define nm where "nm = (if opt = None then [] else [\<lparr>nip_name = NIPROP_NAME, nip_val = (case h of None \<Rightarrow> [] | Some v \<Rightarrow> [v])\<rparr>])"
  let ?pl = "nm @ [\<lparr>nip_name = NIPROP_IPADDR, nip_val = [inet_ntoa (cf_netlib cf) ip]\<rparr>,
    \<lparr>nip_name = NIPROP_HWADDR, nip_val = [hwstr]\<rparr>, \<lparr>nip_name = NIPROP_IDENTIFIER, nip_val = [idstr]\<rparr>,
    \<lparr>nip_name = NIPROP_DHCP_LEASE, nip_val = [lease_string 128 t]\<rparr>]"
  have "host_properties cf idstr hwstr ip opt t = Some ?pl"
    by (auto simp: host_properties_def addprop_end nm_def h)
  moreover have "list_all storable_prop nm"
    using h(2) by (cases h) (auto simp: nm_def)
  then have "storable ?pl"
    if "netlib_text (cf_netlib cf)" "clean idstr \<and> length idstr < 768" "clean hwstr \<and> length hwstr < 768"
    using that lease_string_text [of 128 t] by (auto simp: storable_def netlib_text_def)
  ultimately show ?thesis
    by (intro that [of ?pl]) (auto simp: nm_def single_valued_def split: option.splits)
qed

lemma sv_ok_create:
  assumes "sv_ok s"
  shows "sv_ok (fst (S_commit_mods cf (s\<lparr>sv_leases := (sv_next s, pl) # sv_leases s, sv_next := sv_next s + 1\<rparr>)))"
  using assms by (auto simp: sv_ok_def S_commit_mods_def less_Suc_eq)

text \<open>A time written into an entry is the time read from it, for every time a client can get.\<close>

theorem lease_time_roundtrip:
  assumes "0 \<le> t" "t \<le> LONG_MAX" "single_valued pl"
  shows "\<exists>pl' m. S_set_lease pl t = Some (pl', m) \<and> S_lease_time_expiry pl' = t \<and>
     (\<forall>nm. nm \<noteq> NIPROP_DHCP_LEASE \<longrightarrow> ni_nlforprop pl' nm = ni_nlforprop pl nm)"
proof -
  obtain pl' m where r: "S_set_lease pl t = Some (pl', m)"
    unfolding S_set_lease_def using set_prop_total by blast
  then have v: "ni_valforprop pl' NIPROP_DHCP_LEASE = Some (lease_string 32 t)"
    unfolding S_set_lease_def using set_prop_val [OF assms(3)] by blast
  have "ni_nlforprop pl' nm = ni_nlforprop pl nm" if "nm \<noteq> NIPROP_DHCP_LEASE" for nm
    using set_prop_lookup [of pl NIPROP_DHCP_LEASE _ pl' m nm] r that unfolding S_set_lease_def by simp
  with r v assms(1,2) show ?thesis
    by (intro exI [of _ pl'] exI [of _ m]) (simp add: S_lease_time_expiry_def strtol_lease_string)
qed

theorem lease_time_roundtrip_witness:
  "\<exists>pl' m. S_set_lease [\<lparr>nip_name = ''lease'', nip_val = [''0x0'']\<rparr>] 1700000000 = Some (pl', m) \<and>
     S_lease_time_expiry pl' = 1700000000"
  using lease_time_roundtrip [of 1700000000 "[\<lparr>nip_name = ''lease'', nip_val = [''0x0'']\<rparr>]"]
  by (auto simp: LONG_MAX_def single_valued_def)

text \<open>An infinite lease does not survive: \<open>-1\<close> is written as the largest unsigned number, which
  is out of range for \<open>strtol\<close>, and reading it back gives a lease that has expired.\<close>

theorem infinite_lease_expires:
  "\<exists>pl' m. S_set_lease [] DHCP_INFINITE_TIME = Some (pl', m) \<and> S_lease_time_expiry pl' = 0"
proof -
  have "length (to_hex (2 ^ 64 - 1)) \<le> Suc 15" by (rule length_to_hex) simp
  then have str: "lease_string 32 DHCP_INFINITE_TIME = ''0x'' @ to_hex (2 ^ 64 - 1)"
    by (simp add: lease_string_def snprintf_def DHCP_INFINITE_TIME_def)
  obtain pl' m where r: "S_set_lease [] DHCP_INFINITE_TIME = Some (pl', m)"
    unfolding S_set_lease_def using set_prop_total by blast
  then have "ni_valforprop pl' NIPROP_DHCP_LEASE = Some (''0x'' @ to_hex (2 ^ 64 - 1))"
    using set_prop_val [of "[]"] str by (simp add: S_set_lease_def single_valued_def)
  then have "S_lease_time_expiry pl' = 0"
    using strtol_0x [of "2 ^ 64 - 1"] by (simp add: S_lease_time_expiry_def LONG_MAX_def)
  with r show ?thesis by blast
qed

end
