(* ===== verification/DhcpServerFacts.thy ===== *)
theory DhcpServerFacts
  imports DhcpReplyFacts DhcpLeaseFacts
begin

text \<open>
  The DHCP server does not fail: no request makes it leave a buffer, follow a null or dangling
  pointer, or loop, and its state stays well-formed and in step with the file of leases.
\<close>

section \<open>Requests\<close>

text \<open>
  The options of a request, as the parser returns them.  The code reads four bytes of some options
  whatever their length is, so an option pointer must reach four bytes beyond its header; a packet
  that does not fill the receive buffer to its last four bytes has this property.
\<close>

definition options_ok :: "dhcpol \<Rightarrow> bool" where
  "options_ok l \<longleftrightarrow> dhcpol_ok l \<and> (\<forall>p \<in> set (elems l). p ! 0 = dhcptag_end_e \<or> 6 \<le> length p)"

definition request_ok :: "server \<Rightarrow> request \<Rightarrow> bool" where
  "request_ok s rq \<longleftrightarrow> rq_if rq < length (sv_interfaces s) \<and> dhcp_layout (rq_pkt rq) \<and>
     unat (dp_hlen (rq_pkt rq)) \<le> 16 \<and> options_ok (rq_options rq)"

definition config_ok :: "config \<Rightarrow> bool" where
  "config_ok cf \<longleftrightarrow> length (cf_txbuf cf) = 1264 \<and> netlib_text (cf_netlib cf)"

lemma find_loop_pointer:
  "dhcpol_ok l \<Longrightarrow> tag \<noteq> dhcptag_end_e \<Longrightarrow> n + i = length (elems l) \<Longrightarrow> find_loop n l tag i = Some (Some (q, len, j)) \<Longrightarrow>
   \<exists>p \<in> set (elems l). p ! 0 \<noteq> dhcptag_end_e \<and> q = drop 2 p \<and> len = uint (p ! 1)"
proof (induction n arbitrary: i)
  case 0
  then show ?case by simp
next
  case (Suc n)
  let ?p = "elems l ! i"
  have i: "i < length (elems l)" using Suc.prems by simp
  have el: "dhcpol_element l (int i) = Some (Some ?p)" using Suc.prems(1) i by (rule dhcpol_element_in)
  have ok: "opt_ok ?p" using Suc.prems(1) i by (simp add: dhcpol_ok_def)
  show ?case
  proof (cases "uint (?p ! 0) = tag")
    case True
    then have "?p ! 0 \<noteq> dhcptag_end_e" using Suc.prems(2) by auto
    with Suc.prems(4) True el opt_ok_access(1,2) [OF ok] i show ?thesis by (auto intro!: bexI [of _ ?p])
  next
    case False
    with Suc.prems el opt_ok_access(1) [OF ok] Suc.IH [of "Suc i"] show ?thesis by simp
  qed
qed

text \<open>What a search returns can be read: the option's bytes, and four bytes in any case.\<close>

lemma find_option_ok:
  assumes "options_ok l"
  obtains (absent) "find_option l tag = Some None"
  | (present) p len where "find_option l tag = Some (Some (p, len))" "0 \<le> len" "len \<le> 255"
      "nat len \<le> length p" "4 \<le> length p"
proof -
  have l: "dhcpol_ok l" using assms by (simp add: options_ok_def)
  obtain r where r: "dhcpol_find l tag 0 = Some r" using find_defined [OF l] by blast
  show ?thesis
  proof (cases r)
    case None
    with r show ?thesis by (intro absent) (simp add: find_option_def)
  next
    case (Some t)
    obtain q len j where t: "t = (q, len, j)" by (cases t)
    have nt: "tag \<noteq> 255" "tag \<noteq> 0" using r by (auto simp: dhcpol_find_def Some)
    have "find_loop (length (elems l)) l tag 0 = Some (Some (q, len, j))"
      using r nt l by (simp add: dhcpol_find_def Some t)
    then obtain p where p: "p \<in> set (elems l)" "p ! 0 \<noteq> dhcptag_end_e" "q = drop 2 p" "len = uint (p ! 1)"
      using find_loop_pointer [OF l nt(1), of "length (elems l)" 0] by auto
    have "opt_ok p" "6 \<le> length p" using assms p(1,2) by (auto simp: options_ok_def dhcpol_ok_def)
    moreover have "len \<le> 255" using uint_range_size [of "p ! 1"] by (simp add: p(4) word_size)
    ultimately show ?thesis
      using r p by (intro present [of q len]) (auto simp: find_option_def Some t opt_ok_def)
  qed
qed

lemma four_bytes: "4 \<le> length p \<Longrightarrow> \<exists>a b c d r. p = a # b # c # d # r"
  by (auto simp: Suc_le_length_iff numeral_eq_Suc)

lemma net_uint32_get_ok: "4 \<le> length p \<Longrightarrow> \<exists>v. net_uint32_get p = Some v"
  by (drule four_bytes) (auto simp: net_uint32_get_def rd_def)

lemma option_addr_ok: "options_ok l \<Longrightarrow> \<exists>a. option_addr l tag = Some a"
  by (erule find_option_ok [of _ tag]) (use net_uint32_get_ok in \<open>auto simp: option_addr_def\<close>)

lemma find_dhcpol: "dhcpol_find l tag 0 = Some r \<Longrightarrow> find_option l tag = Some (map_option (\<lambda>(p, n, _). (p, n)) r)"
  by (simp add: find_option_def)

lemma max_message_size_ok:
  assumes "options_ok l"
  obtains n where "dhcp_max_message_size l = Some n" "DHCP_PACKET_MIN \<le> n"
proof -
  obtain r where r: "dhcpol_find l dhcptag_max_dhcp_message_size_e 0 = Some r"
    using find_defined [of l] assms unfolding options_ok_def by blast
  have "\<exists>n. dhcp_max_message_size l = Some n \<and> DHCP_PACKET_MIN \<le> n"
  proof (rule find_option_ok [OF assms, of dhcptag_max_dhcp_message_size_e])
    assume "find_option l dhcptag_max_dhcp_message_size_e = Some None"
    then show ?thesis using r by (auto simp: find_option_def dhcp_max_message_size_def)
  next
    fix p len
    assume a: "find_option l dhcptag_max_dhcp_message_size_e = Some (Some (p, len))" "4 \<le> length p"
    then obtain j where j: "dhcpol_find l dhcptag_max_dhcp_message_size_e 0 = Some (Some (p, len, j))"
      by (auto simp: find_option_def)
    obtain v where "net_uint16_get p = Some v" using four_bytes [OF a(2)] by (auto simp: net_uint16_get_def rd_def)
    with j show ?thesis by (simp add: dhcp_max_message_size_def)
  qed
  then show ?thesis using that by blast
qed

lemma requested_parameter_ok:
  assumes "options_ok l"
  shows "\<exists>b. is_requested_parameter l tag = Some b"
proof -
  obtain r where r: "dhcpol_find l dhcptag_parameter_request_list_e 0 = Some r"
    using find_defined [of l] assms unfolding options_ok_def by blast
  show ?thesis
  proof (rule find_option_ok [OF assms, of dhcptag_parameter_request_list_e])
    assume "find_option l dhcptag_parameter_request_list_e = Some None"
    then show ?thesis using r by (auto simp: find_option_def is_requested_parameter_def)
  next
    fix p len
    assume a: "find_option l dhcptag_parameter_request_list_e = Some (Some (p, len))" "nat len \<le> length p"
    then obtain j where "dhcpol_find l dhcptag_parameter_request_list_e 0 = Some (Some (p, len, j))"
      by (auto simp: find_option_def)
    with a(2) show ?thesis by (simp add: is_requested_parameter_def rdn_def)
  qed
qed

lemma prefers_ipv6_ok: "options_ok l \<Longrightarrow> \<exists>b. client_prefers_ipv6_only cf ifp l = Some b"
  using requested_parameter_ok by (auto simp: client_prefers_ipv6_only_def)

section \<open>The client\<close>

text \<open>What holds of the locals from the start to the end of a request.\<close>

definition locals_ok :: "locals \<Rightarrow> bool" where
  "locals_ok lc \<longleftrightarrow> packet_size_ok (lc_max_packet lc) \<and> lc_cid lc \<noteq> [] \<and> length (lc_cid lc) \<le> 254 \<and>
     clean (lc_idstr lc) \<and> length (lc_idstr lc) < 768 \<and> clean (lc_hwstr lc) \<and> length (lc_hwstr lc) < 768 \<and>
     option_in_packet (lc_hostname_opt lc) \<and> (\<forall>p. lc_suggested_lease lc = Some p \<longrightarrow> 4 \<le> length p)"

lemma chaddr_ok:
  "dhcp_layout pkt \<Longrightarrow> unat (dp_hlen pkt) \<le> 16 \<Longrightarrow>
   chaddr_bytes pkt = Some (take (unat (dp_hlen pkt)) (dp_chaddr pkt))"
  by (simp add: chaddr_bytes_def rdn_def dhcp_layout_def)

lemma client_id_ok:
  assumes "request_ok s rq"
  obtains r where "client_id cf rq = Some r" "\<And>t bs. r = Some (t, bs) \<Longrightarrow> bs \<noteq> [] \<and> length bs \<le> 254"
proof -
  have l: "options_ok (rq_options rq)" and pkt: "dhcp_layout (rq_pkt rq)" "unat (dp_hlen (rq_pkt rq)) \<le> 16"
    using assms by (auto simp: request_ok_def)
  note hw = chaddr_ok [OF pkt]
  have "\<exists>r. client_id cf rq = Some r \<and> (\<forall>t bs. r = Some (t, bs) \<longrightarrow> bs \<noteq> [] \<and> length bs \<le> 254)"
  proof (rule find_option_ok [OF l, of dhcptag_client_identifier_e])
    assume "find_option (rq_options rq) dhcptag_client_identifier_e = Some None"
    then show ?thesis using hw pkt(2) by (auto simp: client_id_def Let_def)
  next
    fix p len
    assume a: "find_option (rq_options rq) dhcptag_client_identifier_e = Some (Some (p, len))"
      "0 \<le> len" "len \<le> 255" "nat len \<le> length p"
    have b: "1 + nat (len - 1) \<le> length p" "nat (len - 1) \<noteq> 0" "nat (len - 1) \<le> 254" "p \<noteq> []" if "len > 1"
      using a(3,4) that by auto
    show ?thesis
    proof (cases "len > 1 \<and> \<not> (cf_ignore_client_identifier cf \<and> dp_hlen (rq_pkt rq) \<noteq> 0)")
      case True
      then have "client_id cf rq = Some (Some (p ! 0, take (nat (len - 1)) (drop 1 p)))"
        using a(1) b by (auto simp: client_id_def Let_def rd_def rdn_def)
      then show ?thesis using b True by auto
    next
      case False
      then show ?thesis using a(1) hw pkt(2) by (auto simp: client_id_def Let_def)
    qed
  qed
  then show ?thesis using that by blast
qed

lemma identify_ok:
  assumes "request_ok s rq"
  obtains r where "identify cf rq = Some r"
    "\<And>lc. r = Some lc \<Longrightarrow> locals_ok lc \<and> lc_binding lc = dhcp_binding_none_e \<and> \<not> lc_modified lc"
proof -
  have l: "options_ok (rq_options rq)" and pkt: "dhcp_layout (rq_pkt rq)" "unat (dp_hlen (rq_pkt rq)) \<le> 16"
    using assms by (auto simp: request_ok_def)
  obtain n where n: "dhcp_max_message_size (rq_options rq) = Some n" "DHCP_PACKET_MIN \<le> n"
    using max_message_size_ok [OF l] .
  obtain c where c: "client_id cf rq = Some c" "\<And>t bs. c = Some (t, bs) \<Longrightarrow> bs \<noteq> [] \<and> length bs \<le> 254"
    using client_id_ok [OF assms] by metis
  show ?thesis
  proof (cases c)
    case None
    with n c(1) show ?thesis by (intro that [of None]) (simp_all add: identify_def)
  next
    case (Some tb)
    obtain t bs where tb: "c = Some (t, bs)" using Some by (cases tb) auto
    note bs = c(2) [OF tb]
    define hw where "hw = (if t = 0 then identifierToString (dp_htype (rq_pkt rq)) (take (unat (dp_hlen (rq_pkt rq))) (dp_chaddr (rq_pkt rq)))
      else identifierToString t bs)"
    obtain ho where ho: "find_option (rq_options rq) dhcptag_host_name_e = Some ho" "option_in_packet ho"
      by (rule find_option_ok [OF l, of dhcptag_host_name_e]) (auto simp: option_in_packet_def)
    obtain sg where sg: "find_option (rq_options rq) dhcptag_lease_time_e = Some sg"
        "\<And>p. map_option fst sg = Some p \<Longrightarrow> 4 \<le> length p"
      by (rule find_option_ok [OF l, of dhcptag_lease_time_e]) auto
    let ?lc = "\<lparr>lc_max_packet = (if n > sizeof_txbuf then sizeof_txbuf else n) - DHCP_PACKET_OVERHEAD,
           lc_cid_type = t, lc_cid = bs, lc_idstr = identifierToString t bs, lc_hwstr = hw,
           lc_hostname_opt = ho, lc_suggested_lease = map_option fst sg,
           lc_binding = dhcp_binding_none_e, lc_entry = None, lc_iaddr = 0, lc_lease = 0, lc_expiry = 0,
           lc_subnet = None, lc_orphan = False, lc_modified = False, lc_hostname = None, lc_bootfile = None\<rparr>"
    have run: "identify cf rq = Some (Some ?lc)"
      using n(1) c(1) ho(1) sg(1) chaddr_ok [OF pkt] by (simp add: identify_def tb hw_def Let_def)
    have ident: "clean (identifierToString u b) \<and> length (identifierToString u b) < 768" if "length b \<le> 254" for u b
    proof (cases "b = []")
      case True
      have "clean (to_hex (unat u) @ [SEPARATOR])" by (simp add: clean_to_hex)
      then show ?thesis using True to_hex_byte [of u]
        by (simp add: identifierToString_def Let_def snprintf_def clean_take)
    next
      case False
      with that show ?thesis using identifier_text by blast
    qed
    have "length (take (unat (dp_hlen (rq_pkt rq))) (dp_chaddr (rq_pkt rq))) \<le> 254" using pkt by simp
    then have "clean hw \<and> length hw < 768" using ident bs by (simp add: hw_def)
    moreover have "packet_size_ok (lc_max_packet ?lc)"
      using n(2) by (simp add: packet_size_ok_def sizeof_txbuf_def DHCP_PACKET_MIN_def DHCP_PACKET_OVERHEAD_def)
    ultimately have "locals_ok ?lc"
      using bs ident [of bs t] ho(2) sg(2) by (simp add: locals_ok_def)
    with run show ?thesis by (intro that [of "Some ?lc"]) auto
  qed
qed

section \<open>The store and its file\<close>

definition tidy :: "server \<Rightarrow> bool" where
  "tidy s \<longleftrightarrow> (\<forall>y \<in> set (sv_leases s). storable (snd y))"

definition synced :: "config \<Rightarrow> server \<Rightarrow> bool" where
  "synced cf s \<longleftrightarrow> cf_disk_ok cf \<longrightarrow>
     (\<exists>es. sv_file s = PLCache_write es \<and> mset es = mset (map snd (sv_leases s)))"

definition ready :: "config \<Rightarrow> server \<Rightarrow> server \<Rightarrow> bool" where
  "ready cf s0 s \<longleftrightarrow> sv_ok s \<and> tidy s \<and> synced cf s \<and> sv_sent s = sv_sent s0 \<and>
     map if_inet (sv_interfaces s) = map if_inet (sv_interfaces s0)"

lemma tidy_leases: "mset (sv_leases s') = mset (sv_leases s) \<Longrightarrow> tidy s \<Longrightarrow> tidy s'"
  using mset_eq_setD by (fastforce simp: tidy_def)

lemma synced_leases:
  "mset (sv_leases s') = mset (sv_leases s) \<Longrightarrow> sv_file s' = sv_file s \<Longrightarrow> synced cf s \<Longrightarrow> synced cf s'"
  by (simp add: synced_def)

lemma ready_quiet: "ready cf s0 s \<Longrightarrow> quiet s s' \<Longrightarrow> sv_ok s' \<Longrightarrow> ready cf s0 s'"
  using tidy_leases synced_leases by (auto simp: ready_def quiet_def)

lemma commit_simps [simp]:
  "sv_leases (fst (S_commit_mods cf s)) = sv_leases s" "sv_sent (fst (S_commit_mods cf s)) = sv_sent s"
  "sv_interfaces (fst (S_commit_mods cf s)) = sv_interfaces s" "sv_next (fst (S_commit_mods cf s)) = sv_next s"
  "sv_pending (fst (S_commit_mods cf s)) = sv_pending s" "sv_subnets (fst (S_commit_mods cf s)) = sv_subnets s"
  "snd (S_commit_mods cf s) = cf_disk_ok cf"
  by (simp_all add: S_commit_mods_def)

lemma commit_synced [simp]: "synced cf (fst (S_commit_mods cf s))"
  by (auto simp: synced_def S_commit_mods_def)

lemma commit_tidy [simp]: "tidy (fst (S_commit_mods cf s)) = tidy s"
  by (simp add: tidy_def)

lemma commit_ok [simp]: "sv_ok (fst (S_commit_mods cf s)) = sv_ok s"
  by (simp add: sv_ok_def)

lemma remove_ready: "ready cf s0 s \<Longrightarrow> ready cf s0 (S_remove_host cf s p)"
  using sv_ok_remove [of s cf p]
  by (auto simp: ready_def S_remove_host_def tidy_def del_entry_def)

lemma front_ready: "ready cf s0 s \<Longrightarrow> ready cf s0 (s\<lparr>sv_leases := to_front r (sv_leases s)\<rparr>)"
  by (auto simp: ready_def sv_ok_def tidy_def synced_def mset_to_front)

lemma pending_ready: "ready cf s0 s \<Longrightarrow> ready cf s0 (s\<lparr>sv_pending := ps\<rparr>)"
  by (simp add: ready_def sv_ok_def tidy_def synced_def)

lemma next_ready: "ready cf s0 s \<Longrightarrow> sv_next s \<le> n \<Longrightarrow> ready cf s0 (s\<lparr>sv_next := n\<rparr>)"
  by (force simp: ready_def sv_ok_def tidy_def synced_def)

lemma create_ready:
  assumes "config_ok cf" "ready cf s0 s" "option_in_packet opt" "clean idstr \<and> length idstr < 768" "clean hwstr \<and> length hwstr < 768"
  obtains s' pl where "S_create_host cf s idstr hwstr ip opt t = Some s'" "ready cf s0 s'"
    "host_properties cf idstr hwstr ip opt t = Some pl" "sv_leases s' = (sv_next s, pl) # sv_leases s"
    "sv_pending s' = sv_pending s" "sv_subnets s' = sv_subnets s"
proof -
  obtain pl where pl: "host_properties cf idstr hwstr ip opt t = Some pl" "storable pl"
    using host_properties_ok [OF assms(3), of cf idstr hwstr ip t] assms(1,4,5) by (auto simp: config_ok_def)
  let ?s = "s\<lparr>sv_leases := (sv_next s, pl) # sv_leases s, sv_next := sv_next s + 1\<rparr>"
  have "sv_ok (fst (S_commit_mods cf ?s))" using assms(2) sv_ok_create by (simp only: ready_def)
  with pl assms(2) show ?thesis
    by (intro that [of "fst (S_commit_mods cf ?s)" pl]) (auto simp: S_create_host_def ready_def tidy_def)
qed

section \<open>The binding\<close>

text \<open>A client with a lease has an entry in the cache and a subnet.\<close>

definition bound_ok :: "locals \<Rightarrow> server \<Rightarrow> bool" where
  "bound_ok lc s \<longleftrightarrow> locals_ok lc \<and>
     (lc_binding lc = dhcp_binding_permanent_e \<longrightarrow> lc_expiry lc = DHCP_INFINITE_TIME) \<and>
     (lc_binding lc = dhcp_binding_temporary_e \<longrightarrow>
        (\<exists>p pl sn. lc_entry lc = Some p \<and> (p, pl) \<in> set (sv_leases s) \<and> subnet_at s (lc_subnet lc) = Some sn))"

lemma entry_pl_Some: "sv_ok s \<Longrightarrow> (p, pl) \<in> set (sv_leases s) \<Longrightarrow> entry_pl (sv_leases s) p = Some pl"
  by (simp add: entry_pl_def sv_ok_def)

lemma permanent_binding_ok:
  assumes "locals_ok lc" "lc_binding lc = dhcp_binding_none_e" "\<not> lc_modified lc"
  shows "bound_ok (permanent_binding cf s ifp pkt lc) s" "\<not> lc_modified (permanent_binding cf s ifp pkt lc)"
  using assms by (auto simp: permanent_binding_def bound_ok_def locals_ok_def split: option.split)

lemma lease_binding_ok:
  assumes "ready cf s0 s" "bound_ok lc s" "\<not> lc_modified lc"
  obtains lc' s' where "lease_binding cf s ifp pkt lc = Some (lc', s')" "ready cf s0 s'" "bound_ok lc' s'"
    "\<not> lc_modified lc'"
proof (cases "lc_binding lc = dhcp_binding_none_e")
  case False
  with assms show ?thesis by (intro that [of lc s]) (simp_all add: lease_binding_def)
next
  case True
  obtain r ip hb where scan: "list_scan (lookup_identifier_test (cf_netlib cf) (lc_idstr lc)
      (Some (on_client_subnet cf s ifp (dp_giaddr pkt) (dp_ciaddr pkt)))) (Some (lc_iaddr lc), False) (sv_leases s) = (r, ip, hb)"
    by (metis prod_cases3)
  define s1 where "s1 = s\<lparr>sv_leases := to_front r (sv_leases s)\<rparr>"
  define lc1 where "lc1 = lc\<lparr>lc_iaddr := the ip\<rparr>"
  have look: "lookup_identifier cf s (lc_idstr lc) (on_client_subnet cf s ifp (dp_giaddr pkt) (dp_ciaddr pkt)) (lc_iaddr lc) =
      (r, the ip, s1)"
    by (simp add: lookup_identifier_def scan s1_def)
  have r1: "ready cf s0 s1" using front_ready [OF assms(1)] by (simp add: s1_def)
  have lc1: "locals_ok lc1" "lc_binding lc1 = dhcp_binding_none_e" "\<not> lc_modified lc1"
    using assms True by (auto simp: lc1_def bound_ok_def locals_ok_def)
  show ?thesis
  proof (cases r)
    case None
    with True look r1 lc1 show ?thesis
      by (intro that [of lc1 s1]) (auto simp: lease_binding_def lc1_def bound_ok_def)
  next
    case (Some p)
    note p = this
    have "p \<in> fst ` set (sv_leases s1)" using scan Some list_scan_in by (fastforce simp: s1_def)
    then obtain pl where pl: "(p, pl) \<in> set (sv_leases s1)" by auto
    have e: "entry_pl (sv_leases s1) p = Some pl" using pl r1 entry_pl_Some by (auto simp: ready_def)
    let ?i = "lookup_subnet s1 (the ip) True"
    have orphan: "bound_ok (lc1\<lparr>lc_orphan := True, lc_subnet := j\<rparr>) (S_remove_host cf s1 p)"
      "bound_ok (lc1\<lparr>lc_orphan := True\<rparr>) (S_remove_host cf s1 p)" for j
      using lc1 by (auto simp: bound_ok_def locals_ok_def)
    show ?thesis
    proof (cases "subnet_at s1 ?i")
      case None
      then have "lease_binding cf s ifp pkt lc = Some (lc1\<lparr>lc_orphan := True\<rparr>, S_remove_host cf s1 p)"
        using True look p by (simp add: lease_binding_def lc1_def)
      then show ?thesis by (rule that) (use orphan lc1 remove_ready [OF r1] in simp_all)
    next
      case (Some sn)
      show ?thesis
      proof (cases "SubnetDoesAllocate sn")
        case False
        then have "lease_binding cf s ifp pkt lc =
            Some (lc1\<lparr>lc_orphan := True, lc_subnet := ?i\<rparr>, S_remove_host cf s1 p)"
          using True look p Some by (simp add: lease_binding_def lc1_def)
        then show ?thesis by (rule that) (use orphan lc1 remove_ready [OF r1] in simp_all)
      next
        case alloc: True
        let ?lc = "lc1\<lparr>lc_binding := dhcp_binding_temporary_e, lc_entry := Some p, lc_subnet := ?i,
            lc_expiry := S_lease_time_expiry pl\<rparr>"
        let ?s = "s1\<lparr>sv_leases := to_front (Some p) (sv_leases s1)\<rparr>"
        have "bound_ok ?lc ?s"
          using lc1 pl Some by (auto simp: bound_ok_def locals_ok_def subnet_at_def)
        moreover have "lease_binding cf s ifp pkt lc = Some (?lc, ?s)"
          using True look p Some alloc e by (simp add: lease_binding_def lc1_def)
        ultimately show ?thesis using lc1 front_ready [OF r1] by (intro that [of ?lc ?s]) simp_all
      qed
    qed
  qed
qed

lemma bounded_lease_ok:
  assumes "4 \<le> length p"
  obtains l where "bounded_lease p min_lease max_lease = Some l" "min_lease \<le> max_lease \<longrightarrow> min_lease \<le> l \<and> l \<le> max_lease"
proof -
  obtain v where v: "net_uint32_get p = Some v" using net_uint32_get_ok [OF assms] by blast
  let ?l = "if v > max_lease then max_lease else if v < min_lease then min_lease else v"
  have "min_lease \<le> ?l \<and> ?l \<le> max_lease" if "min_lease \<le> max_lease" using that by auto
  with v show ?thesis by (intro that [of ?l]) (auto simp: bounded_lease_def)
qed

lemma current_lease_ok:
  assumes "bound_ok lc s"
  obtains lc' where "current_lease rq s lc = Some lc'" "bound_ok lc' s" "lc_modified lc' = lc_modified lc"
    "lc_binding lc' = lc_binding lc" "lc_iaddr lc' = lc_iaddr lc"
proof -
  have upd: "bound_ok (lc\<lparr>lc_lease := l\<rparr>) s" for l
    using assms by (auto simp: bound_ok_def locals_ok_def)
  note result = that
  have lease: ?thesis if "current_lease rq s lc = Some (lc\<lparr>lc_lease := l\<rparr>)" for l
    using that by (rule result) (simp_all add: upd)
  consider "lc_binding lc = dhcp_binding_none_e" | "lc_binding lc \<noteq> dhcp_binding_none_e" "lc_expiry lc = DHCP_INFINITE_TIME"
    | "lc_binding lc \<noteq> dhcp_binding_none_e" "lc_expiry lc \<noteq> DHCP_INFINITE_TIME" by blast
  then show ?thesis
  proof cases
    case 1
    then have "current_lease rq s lc = Some lc" by (simp add: current_lease_def)
    then show ?thesis by (rule result) (simp_all add: assms)
  next
    case 2
    then show ?thesis by (intro lease [of DHCP_INFINITE_LEASE]) (simp add: current_lease_def)
  next
    case 3
    then have "lc_binding lc = dhcp_binding_temporary_e"
      using assms by (cases "lc_binding lc") (auto simp: bound_ok_def)
    then obtain sn where sn: "subnet_at s (lc_subnet lc) = Some sn" using assms by (auto simp: bound_ok_def)
    show ?thesis
    proof (cases "lc_suggested_lease lc")
      case None
      with 3 sn show ?thesis
        by (intro lease [of "if rq_time rq + uint (SubnetGetMinLease sn) \<ge> lc_expiry lc then SubnetGetMinLease sn
            else word_of_int (lc_expiry lc - rq_time rq)"]) (simp add: current_lease_def)
    next
      case (Some p)
      then have "4 \<le> length p" using assms by (auto simp: bound_ok_def locals_ok_def)
      then obtain l where "bounded_lease p (SubnetGetMinLease sn) (SubnetGetMaxLease sn) = Some l"
        by (rule bounded_lease_ok)
      with 3 sn Some show ?thesis by (intro lease [of l]) (simp add: current_lease_def)
    qed
  qed
qed

section \<open>Replies\<close>

text \<open>A reply on its way: its options hold the message type and the server identifier first.\<close>

definition reply_ok :: "dhcp \<Rightarrow> dhcp \<times> dhcpoa \<times> u8 \<Rightarrow> bool" where
  "reply_ok pkt r \<longleftrightarrow>
     (case r of (rp, oa, mt) \<Rightarrow>
        dp_op rp = BOOTREPLY \<and> dp_xid rp = dp_xid pkt \<and> dp_chaddr rp = dp_chaddr pkt \<and>
        length (oa_buffer oa) = 1260 \<and> 280 \<le> oa_size oa \<and> oa_size oa \<le> 1232 \<and>
        (\<exists>sid gs. if mt = dhcp_msgtype_ack_e \<or> mt = dhcp_msgtype_offer_e
                  then oa_holds oa (reply_fields mt sid @ gs) \<and> oa_reserve oa = 1
                  else mt = dhcp_msgtype_nak_e \<and> complete oa (reply_fields mt sid @ gs)))"

definition outcome_ok :: "config \<Rightarrow> server \<Rightarrow> dhcp \<Rightarrow> outcome \<Rightarrow> bool" where
  "outcome_ok cf s0 pkt out \<longleftrightarrow>
     (case out of
        No_reply s \<Rightarrow> ready cf s0 s
      | Do_reply lc s r b \<Rightarrow>
          sv_ok s \<and> tidy s \<and> (lc_binding lc = dhcp_binding_temporary_e \<and> lc_modified lc \<or> synced cf s) \<and>
          sv_sent s = sv_sent s0 \<and> map if_inet (sv_interfaces s) = map if_inet (sv_interfaces s0) \<and>
          (\<forall>x. r = Some x \<longrightarrow> reply_ok pkt x))"

lemma size_bounds: "packet_size_ok n \<Longrightarrow> 280 \<le> n - 240 \<and> n - 240 \<le> 1232"
  by (simp add: packet_size_ok_def DHCP_PACKET_MIN_def DHCP_PACKET_OVERHEAD_def sizeof_txbuf_def)

lemma lease_reply_ok:
  assumes "config_ok cf" "packet_size_ok (lc_max_packet lc)" "mt = dhcp_msgtype_ack_e \<or> mt = dhcp_msgtype_offer_e"
  obtains rp0 oa0 rp oa where "make_dhcp_reply (cf_txbuf cf) (lc_max_packet lc) our_ip mt pkt = Some (Some (rp0, oa0))"
    "rp0 = pkt\<lparr>dp_siaddr := our_ip, dp_hops := 0, dp_secs := 0, dp_op := BOOTREPLY\<rparr>"
    "\<And>r. add_lease lc (r :: dhcp) oa0 =
       Some (Some (r\<lparr>dp_file := (case lc_bootfile lc of None \<Rightarrow> dp_file r | Some f \<Rightarrow> strlcpy_field (dp_file r) f)\<rparr>, oa))"
    "oa_holds oa (reply_fields mt our_ip @ [(dhcptag_lease_time_e, net_uint32_bytes (lc_lease lc))])"
    "oa_reserve oa = 1" "length (oa_buffer oa) = 1260" "oa_size oa = lc_max_packet lc - 240"
proof -
  have b: "length (cf_txbuf cf) = 1264" using assms(1) by (simp add: config_ok_def)
  obtain rp0 oa0 where m: "make_dhcp_reply (cf_txbuf cf) (lc_max_packet lc) our_ip mt pkt = Some (Some (rp0, oa0))"
      "rp0 = pkt\<lparr>dp_siaddr := our_ip, dp_hops := 0, dp_secs := 0, dp_op := BOOTREPLY\<rparr>"
      "oa_holds oa0 (reply_fields mt our_ip)" "oa_offset oa0 = 9" "dims oa0 = (lc_max_packet lc - 240, 1, 1260)"
    using make_reply_ok [OF b assms(2)] .
  obtain oa where l: "\<And>r. add_lease lc (r :: dhcp) oa0 =
       Some (Some (r\<lparr>dp_file := (case lc_bootfile lc of None \<Rightarrow> dp_file r | Some f \<Rightarrow> strlcpy_field (dp_file r) f)\<rparr>, oa))"
      "oa_holds oa (reply_fields mt our_ip @ [(dhcptag_lease_time_e, net_uint32_bytes (lc_lease lc))])"
      "dims oa = (lc_max_packet lc - 240, 1, 1260)"
  proof -
    obtain r1 oa1 where a: "add_lease lc pkt oa0 = Some (Some (r1, oa1))"
        "oa_holds oa1 (reply_fields mt our_ip @ [(dhcptag_lease_time_e, net_uint32_bytes (lc_lease lc))])"
        "dims oa1 = (lc_max_packet lc - 240, 1, 1260)"
      using add_lease_ok [OF m(3-5) assms(2), of lc pkt] by metis
    then have "dhcpoa_add oa0 dhcptag_lease_time_e 4 (net_uint32_bytes (lc_lease lc)) = Some (dhcpoa_success_e, oa1)"
      by (auto simp: add_lease_def Let_def bind_eq_Some_conv split: if_splits)
    then have "add_lease lc r oa0 =
       Some (Some (r\<lparr>dp_file := (case lc_bootfile lc of None \<Rightarrow> dp_file r | Some f \<Rightarrow> strlcpy_field (dp_file r) f)\<rparr>, oa1))"
      for r :: dhcp
      by (simp add: add_lease_def split: option.split)
    then show ?thesis using a(2,3) by (rule that)
  qed
  with m show ?thesis by (intro that [OF m(1,2) l(1,2)]) (simp_all add: dims_def)
qed

lemma send_offer_ok:
  assumes "config_ok cf" "intf_ok ifp" "packet_size_ok (lc_max_packet lc)"
  obtains rp oa our_ip where "send_offer cf rq ifp lc s = Some (Do_reply lc s (Some (rp, oa, dhcp_msgtype_offer_e)) False)"
    "reply_ok (rq_pkt rq) (rp, oa, dhcp_msgtype_offer_e)" "dp_yiaddr rp = lc_iaddr lc" "dp_ciaddr rp = 0"
    "oa_holds oa (reply_fields dhcp_msgtype_offer_e our_ip @ [(dhcptag_lease_time_e, net_uint32_bytes (lc_lease lc))])"
proof -
  obtain our_ip where ip: "if_inet_addr_best_match ifp (lc_iaddr lc) = Some our_ip"
    using best_match_total [OF assms(2)] by blast
  have mt: "dhcp_msgtype_offer_e = dhcp_msgtype_ack_e \<or> dhcp_msgtype_offer_e = dhcp_msgtype_offer_e" by simp
  obtain rp0 oa0 oa where r: "make_dhcp_reply (cf_txbuf cf) (lc_max_packet lc) our_ip dhcp_msgtype_offer_e (rq_pkt rq) = Some (Some (rp0, oa0))"
    "rp0 = (rq_pkt rq)\<lparr>dp_siaddr := our_ip, dp_hops := 0, dp_secs := 0, dp_op := BOOTREPLY\<rparr>"
    "\<And>r. add_lease lc (r :: dhcp) oa0 =
       Some (Some (r\<lparr>dp_file := (case lc_bootfile lc of None \<Rightarrow> dp_file r | Some f \<Rightarrow> strlcpy_field (dp_file r) f)\<rparr>, oa))"
    "oa_holds oa (reply_fields dhcp_msgtype_offer_e our_ip @ [(dhcptag_lease_time_e, net_uint32_bytes (lc_lease lc))])"
    "oa_reserve oa = 1" "length (oa_buffer oa) = 1260" "oa_size oa = lc_max_packet lc - 240"
    using lease_reply_ok [OF assms(1,3) mt, of our_ip "rq_pkt rq"] by metis
  let ?rp = "rp0\<lparr>dp_ciaddr := 0, dp_yiaddr := lc_iaddr lc,
     dp_file := (case lc_bootfile lc of None \<Rightarrow> dp_file rp0 | Some f \<Rightarrow> strlcpy_field (dp_file rp0) f)\<rparr>"
  have run: "send_offer cf rq ifp lc s = Some (Do_reply lc s (Some (?rp, oa, dhcp_msgtype_offer_e)) False)"
    using ip r(1,3) by (simp add: send_offer_def split: option.split)
  have "reply_ok (rq_pkt rq) (?rp, oa, dhcp_msgtype_offer_e)"
    unfolding reply_ok_def using r(2,4-7) size_bounds [OF assms(3)] by auto
  from that [OF run this _ _ r(4)] show ?thesis by simp
qed

section \<open>DISCOVER\<close>

lemma lookup_subnet_in:
  "lookup_subnet s ip b = Some i \<Longrightarrow> \<exists>sn. subnet_at s (Some i) = Some sn"
  by (auto simp: lookup_subnet_def subnet_at_def rd_def SubnetListGetSubnetForAddress_def Let_def find_index_from_Some
      split: option.splits)

text \<open>An address to offer is free, or was taken back from an expired lease.\<close>

definition fresh_address :: "config \<Rightarrow> request \<Rightarrow> intf \<Rightarrow> server \<Rightarrow> server \<Rightarrow> nat \<Rightarrow> in_addr \<Rightarrow> bool" where
  "fresh_address cf rq ifp s s' i ip \<longleftrightarrow>
     offerable cf (rq_time rq) s' i ip \<or>
     (\<exists>s1 p pl. mset (sv_leases s1) = mset (sv_leases s) \<and> (p, pl) \<in> set (sv_leases s) \<and>
        reclaimable cf s1 ifp (dp_giaddr (rq_pkt rq)) (rq_time rq) pl = Some (Some ip) \<and>
        s' = S_remove_host cf s1 p \<and> lookup_subnet s' ip True = Some i)"

lemma acquire_or_reclaim_ok:
  assumes "intf_ok ifp" "ready cf s0 s"
  obtains r s' where "acquire_or_reclaim cf (dp_giaddr (rq_pkt rq)) ifp (rq_time rq) s = Some (r, s')" "ready cf s0 s'"
    "\<And>i ip. r = Some (i, ip) \<Longrightarrow> fresh_address cf rq ifp s s' i ip \<and> (\<exists>sn. subnet_at s' (Some i) = Some sn)"
proof -
  let ?g = "dp_giaddr (rq_pkt rq)" and ?t = "rq_time rq"
  have ok: "sv_ok s" using assms(2) by (simp add: ready_def)
  obtain r s1 where a: "acquire_ip cf ?g ifp ?t s = Some (r, s1)" "quiet s s1" "sv_ok s1"
      "\<And>i ip. r = Some (i, ip) \<Longrightarrow> offerable cf ?t s1 i ip"
    using acquire_ip_ok [OF assms(1) ok] by metis
  have r1: "ready cf s0 s1" using ready_quiet [OF assms(2) a(2,3)] .
  show ?thesis
  proof (cases r)
    case (Some ia)
    obtain i ip where ia: "ia = (i, ip)" by (cases ia)
    then have off: "offerable cf ?t s1 i ip" using a(4) Some by simp
    then obtain sns where "sv_subnets s1 = Some sns" "i < length sns" by (auto simp: offerable_def)
    then have "subnet_at s1 (Some i) = Some (sns ! i)" by (simp add: subnet_at_def rd_def)
    with a(1) Some ia off r1 show ?thesis
      by (intro that [of r s1]) (auto simp: acquire_or_reclaim_def fresh_address_def)
  next
    case None
    obtain c s2 where c: "DHCPLeases_reclaim cf s1 ifp ?g ?t = Some (c, s2)" "c = None \<longrightarrow> s2 = s1"
        "\<And>ip. c = Some ip \<Longrightarrow> \<exists>p pl. (p, pl) \<in> set (sv_leases s1) \<and>
           reclaimable cf s1 ifp ?g ?t pl = Some (Some ip) \<and> s2 = S_remove_host cf s1 p"
      using reclaim_ok [OF assms(1) a(3), of cf ?g ?t] by metis
    have m: "mset (sv_leases s1) = mset (sv_leases s)" using a(2) by (simp add: quiet_def)
    show ?thesis
    proof (cases c)
      case None
      with a(1) c r1 \<open>r = None\<close> show ?thesis
        by (intro that [of None s2]) (auto simp: acquire_or_reclaim_def)
    next
      case (Some ip)
      then obtain p pl where p: "(p, pl) \<in> set (sv_leases s1)" "reclaimable cf s1 ifp ?g ?t pl = Some (Some ip)"
          "s2 = S_remove_host cf s1 p"
        using c(3) by blast
      have run: "acquire_or_reclaim cf ?g ifp ?t s = Some (map_option (\<lambda>i. (i, ip)) (lookup_subnet s2 ip True), s2)"
        using a(1) c(1) Some \<open>r = None\<close> by (simp add: acquire_or_reclaim_def)
      have "ready cf s0 s2" using remove_ready [OF r1] p(3) by simp
      moreover have "fresh_address cf rq ifp s s2 i jp \<and> (\<exists>sn. subnet_at s2 (Some i) = Some sn)"
        if "map_option (\<lambda>i. (i, ip)) (lookup_subnet s2 ip True) = Some (i, jp)" for i jp
      proof -
        have i: "lookup_subnet s2 ip True = Some i" "jp = ip" using that by auto
        have "(p, pl) \<in> set (sv_leases s)" using p(1) mset_eq_setD [OF m] by simp
        with i p m lookup_subnet_in [OF i(1)] show ?thesis unfolding fresh_address_def by blast
      qed
      ultimately show ?thesis using run by (intro that) auto
    qed
  qed
qed

lemma choose_offer_ok:
  assumes "intf_ok ifp" "ready cf s0 s" "locals_ok lc"
  obtains (none) s' where "choose_offer cf rq ifp lc s = Some (None, s')" "ready cf s0 s'"
  | (offer) i ip l s' where
      "choose_offer cf rq ifp lc s = Some (Some (lc\<lparr>lc_iaddr := ip, lc_subnet := Some i, lc_lease := l\<rparr>), s')"
      "ready cf s0 s'" "fresh_address cf rq ifp s s' i ip"
proof -
  obtain r s' where r: "acquire_or_reclaim cf (dp_giaddr (rq_pkt rq)) ifp (rq_time rq) s = Some (r, s')" "ready cf s0 s'"
    "\<And>i ip. r = Some (i, ip) \<Longrightarrow> fresh_address cf rq ifp s s' i ip \<and> (\<exists>sn. subnet_at s' (Some i) = Some sn)"
    using acquire_or_reclaim_ok [OF assms(1,2)] by metis
  show ?thesis
  proof (cases r)
    case None
    with r(1,2) show ?thesis by (intro none [of s']) (simp_all add: choose_offer_def)
  next
    case (Some ia)
    obtain i ip where ia: "r = Some (i, ip)" using Some by (cases ia) auto
    then obtain sn where sn: "subnet_at s' (Some i) = Some sn" "fresh_address cf rq ifp s s' i ip" using r(3) by blast
    obtain l where l: "(case lc_suggested_lease lc of
        Some p \<Rightarrow> bounded_lease p (SubnetGetMinLease sn) (SubnetGetMaxLease sn) | None \<Rightarrow> Some (SubnetGetMinLease sn)) = Some l"
    proof (cases "lc_suggested_lease lc")
      case None
      then show ?thesis using that by simp
    next
      case (Some p)
      then have "4 \<le> length p" using assms(3) by (auto simp: locals_ok_def)
      with Some that show ?thesis by (auto elim: bounded_lease_ok [of p])
    qed
    have "choose_offer cf rq ifp lc s = Some (Some (lc\<lparr>lc_iaddr := ip, lc_subnet := Some i, lc_lease := l\<rparr>), s')"
      using r(1) ia sn(1) l by (simp add: choose_offer_def)
    then show ?thesis using r(2) sn(2) by (rule offer)
  qed
qed

lemma forget_ready: "ready cf s0 s \<Longrightarrow> ready cf s0 (forget_pending lc s)"
  by (auto simp: forget_pending_def pending_ready split: option.split)

lemma remember_ready: "ready cf s0 s \<Longrightarrow> ready cf s0 (remember_offer rq lc s)"
  using pending_ready next_ready [of cf s0 _ "sv_next s + 1"]
  by (force simp: remember_offer_def Let_def case_prod_unfold ready_def sv_ok_def tidy_def synced_def)

lemma offer_outcome:
  assumes "config_ok cf" "intf_ok ifp" "ready cf s0 s" "locals_ok lc"
  shows "\<exists>out. send_offer cf rq ifp lc s = Some out \<and> outcome_ok cf s0 (rq_pkt rq) out"
proof -
  have "packet_size_ok (lc_max_packet lc)" using assms(4) by (simp add: locals_ok_def)
  then obtain rp oa where "send_offer cf rq ifp lc s = Some (Do_reply lc s (Some (rp, oa, dhcp_msgtype_offer_e)) False)"
      "reply_ok (rq_pkt rq) (rp, oa, dhcp_msgtype_offer_e)"
    using send_offer_ok [OF assms(1,2)] by metis
  with assms(3) show ?thesis by (simp add: outcome_ok_def ready_def)
qed

lemma discover_ok:
  assumes "config_ok cf" "intf_ok ifp" "ready cf s0 s" "locals_ok lc" "options_ok (rq_options rq)"
  shows "\<exists>out. dhcp_discover cf rq ifp allocate lc s = Some out \<and> outcome_ok cf s0 (rq_pkt rq) out"
proof -
  define s1 where "s1 = forget_pending lc s"
  have r1: "ready cf s0 s1" using forget_ready [OF assms(3)] by (simp add: s1_def)
  obtain b where b: "client_prefers_ipv6_only cf ifp (rq_options rq) = Some b" using prefers_ipv6_ok [OF assms(5)] by blast
  have upd: "locals_ok (lc\<lparr>lc_iaddr := a, lc_subnet := i, lc_lease := l\<rparr>)" "locals_ok (lc\<lparr>lc_iaddr := a, lc_lease := l\<rparr>)" for a i l
    using assms(4) by (auto simp: locals_ok_def)
  show ?thesis
  proof (cases b)
    case True
    then show ?thesis
      using b offer_outcome [OF assms(1,2) r1 upd(2)] by (simp add: dhcp_discover_def Let_def s1_def)
  next
    case False
    then have nb: "client_prefers_ipv6_only cf ifp (rq_options rq) = Some False" using b by simp
    consider "lc_binding lc \<noteq> dhcp_binding_none_e" | "lc_binding lc = dhcp_binding_none_e" "allocate"
      | "lc_binding lc = dhcp_binding_none_e" "\<not> allocate" by blast
    then show ?thesis
    proof cases
      case 1
      then show ?thesis
        using nb offer_outcome [OF assms(1,2) remember_ready [OF r1] assms(4)] by (simp add: dhcp_discover_def Let_def s1_def)
    next
      case 2
      show ?thesis
      proof (cases rule: choose_offer_ok [OF assms(2) r1 assms(4), of rq])
        case (1 s')
        with 2 nb show ?thesis by (simp add: dhcp_discover_def Let_def s1_def outcome_ok_def)
      next
        case (2 i ip l s')
        then show ?thesis
          using \<open>lc_binding lc = dhcp_binding_none_e\<close> \<open>allocate\<close> nb
            offer_outcome [OF assms(1,2) remember_ready [OF 2(2)] upd(1)]
          by (simp add: dhcp_discover_def Let_def s1_def)
      qed
    next
      case 3
      with nb r1 show ?thesis by (simp add: dhcp_discover_def Let_def s1_def outcome_ok_def)
    qed
  qed
qed

section \<open>Changing an entry\<close>

text \<open>The file is behind the store only while a change is marked.\<close>

definition tracked :: "config \<Rightarrow> server \<Rightarrow> locals \<Rightarrow> server \<Rightarrow> bool" where
  "tracked cf s0 lc s \<longleftrightarrow> sv_ok s \<and> tidy s \<and>
     (lc_binding lc = dhcp_binding_temporary_e \<and> lc_modified lc \<or> synced cf s) \<and>
     sv_sent s = sv_sent s0 \<and> map if_inet (sv_interfaces s) = map if_inet (sv_interfaces s0)"

lemma tracked_ready: "ready cf s0 s \<Longrightarrow> tracked cf s0 lc s"
  by (simp add: ready_def tracked_def)

lemma outcome_tracked:
  "outcome_ok cf s0 pkt (Do_reply lc s r b) \<longleftrightarrow> tracked cf s0 lc s \<and> (\<forall>x. r = Some x \<longrightarrow> reply_ok pkt x)"
  by (auto simp: outcome_ok_def tracked_def)

lemma fst_set_pl [simp]: "map fst (set_pl ls p pl) = map fst ls"
  by (simp add: set_pl_def case_prod_unfold o_def)

lemma set_pl_same: "distinct (map fst ls) \<Longrightarrow> (p, pl) \<in> set ls \<Longrightarrow> set_pl ls p pl = ls"
  unfolding set_pl_def by (intro map_idI) (auto simp: eq_key_imp_eq_value)

lemma in_set_pl: "(p, pl) \<in> set ls \<Longrightarrow> (p, pl') \<in> set (set_pl ls p pl')"
  by (force simp: set_pl_def)

lemma set_pl_elem: "y \<in> set (set_pl ls p pl') \<Longrightarrow> y \<in> set ls \<or> y = (p, pl')"
  by (auto simp: set_pl_def split: if_splits)

lemma sv_ok_set_pl:
  assumes "sv_ok s"
  shows "sv_ok (s\<lparr>sv_leases := set_pl (sv_leases s) p pl\<rparr>)"
proof -
  have "\<forall>y \<in> set (set_pl (sv_leases s) p pl). fst y < sv_next s"
    using assms by (auto simp: sv_ok_def set_pl_def)
  with assms show ?thesis by (simp add: sv_ok_def)
qed

lemma update_entry_ok:
  assumes "sv_ok s" "lc_entry lc = Some p" "(p, pl) \<in> set (sv_leases s)" "f pl = Some (pl', m)"
  shows "update_entry lc s f =
    Some (lc\<lparr>lc_modified := (lc_modified lc \<or> m)\<rparr>, s\<lparr>sv_leases := set_pl (sv_leases s) p pl'\<rparr>)"
  using entry_pl_Some [OF assms(1,3)] assms(2,4) by (simp add: update_entry_def)

lemma tracked_update:
  assumes t: "tracked cf s0 lc s" "bound_ok lc s" "lc_binding lc = dhcp_binding_temporary_e"
    and e: "lc_entry lc = Some p" "(p, pl) \<in> set (sv_leases s)"
    and f: "f pl = Some (pl', m)" "storable pl'" "\<not> m \<longrightarrow> pl' = pl"
  obtains lc' s' where "update_entry lc s f = Some (lc', s')" "lc' = lc\<lparr>lc_modified := (lc_modified lc \<or> m)\<rparr>"
    "s' = s\<lparr>sv_leases := set_pl (sv_leases s) p pl'\<rparr>"
    "tracked cf s0 lc' s'" "bound_ok lc' s'" "(p, pl') \<in> set (sv_leases s')"
proof -
  let ?lc = "lc\<lparr>lc_modified := (lc_modified lc \<or> m)\<rparr>" and ?s = "s\<lparr>sv_leases := set_pl (sv_leases s) p pl'\<rparr>"
  have ok: "sv_ok s" using t(1) by (simp add: tracked_def)
  have run: "update_entry lc s f = Some (?lc, ?s)" using update_entry_ok [where f = f, OF ok e f(1)] .
  have keep: "sv_leases ?s = sv_leases s" if "\<not> m"
    using set_pl_same [of "sv_leases s" p pl] e(2) f(3) that ok by (simp add: sv_ok_def)
  have "tidy ?s" using t(1) f(2) by (auto simp: tracked_def tidy_def dest: set_pl_elem)
  moreover have "m \<or> lc_modified lc \<or> synced cf ?s" using t(1) keep by (auto simp: tracked_def synced_def)
  ultimately have "tracked cf s0 ?lc ?s"
    using t sv_ok_set_pl [OF ok] by (auto simp: tracked_def)
  moreover have "bound_ok ?lc ?s"
    using t(2) t(3) e in_set_pl [OF e(2), of pl'] by (auto simp: bound_ok_def locals_ok_def subnet_at_def)
  ultimately show ?thesis
    using run in_set_pl [OF e(2), of pl'] by (intro that [of ?lc ?s]) simp_all
qed

lemma entry_of:
  assumes "tracked cf s0 lc s" "bound_ok lc s" "lc_binding lc = dhcp_binding_temporary_e"
  obtains p pl where "lc_entry lc = Some p" "(p, pl) \<in> set (sv_leases s)" "storable pl"
  using assms by (fastforce simp: bound_ok_def tracked_def tidy_def)

lemma set_prop_stored:
  assumes "ni_set_prop pl nm (Some v) = Some (pl', m)" "list_all storable_prop pl" "storable_prop \<lparr>nip_name = nm, nip_val = [v]\<rparr>"
  shows "storable pl'" "\<not> m \<longrightarrow> pl' = pl"
  using set_prop_storable [OF assms] assms(1) by (auto simp: storable_def elim: set_prop_same)

lemma update_lease_ok:
  assumes "tracked cf s0 lc s" "bound_ok lc s" "lc_binding lc = dhcp_binding_temporary_e"
  obtains m p pl pl' s' where "update_lease t lc s = Some (lc\<lparr>lc_modified := (lc_modified lc \<or> m)\<rparr>, s')"
    "tracked cf s0 (lc\<lparr>lc_modified := (lc_modified lc \<or> m)\<rparr>) s'" "bound_ok (lc\<lparr>lc_modified := (lc_modified lc \<or> m)\<rparr>) s'"
    "lc_entry lc = Some p" "(p, pl) \<in> set (sv_leases s)" "S_set_lease pl t = Some (pl', m)"
    "s' = s\<lparr>sv_leases := set_pl (sv_leases s) p pl'\<rparr>"
proof -
  obtain p pl where e: "lc_entry lc = Some p" "(p, pl) \<in> set (sv_leases s)" "storable pl" using entry_of [OF assms] .
  obtain pl' m where f: "S_set_lease pl t = Some (pl', m)" unfolding S_set_lease_def using set_prop_total by blast
  have "storable_prop \<lparr>nip_name = NIPROP_DHCP_LEASE, nip_val = [lease_string 32 t]\<rparr>"
    using lease_string_text [of 32 t] by simp
  with f e(3) have g: "storable pl'" "\<not> m \<longrightarrow> pl' = pl"
    unfolding S_set_lease_def using set_prop_stored by (auto simp: storable_def)
  obtain lc' s' where "update_entry lc s (\<lambda>pl. S_set_lease pl t) = Some (lc', s')" "lc' = lc\<lparr>lc_modified := (lc_modified lc \<or> m)\<rparr>"
    "s' = s\<lparr>sv_leases := set_pl (sv_leases s) p pl'\<rparr>" "tracked cf s0 lc' s'" "bound_ok lc' s'"
    by (rule tracked_update [where f = "\<lambda>pl. S_set_lease pl t", OF assms e(1,2) f g])
  with e f show ?thesis by (intro that [of m s' p pl pl']) (simp_all add: update_lease_def)
qed

lemma update_name_ok:
  assumes "tracked cf s0 lc s" "bound_ok lc s" "lc_binding lc = dhcp_binding_temporary_e"
  obtains m s' where "update_name lc s = Some (lc\<lparr>lc_modified := (lc_modified lc \<or> m)\<rparr>, s')"
    "tracked cf s0 (lc\<lparr>lc_modified := (lc_modified lc \<or> m)\<rparr>) s'" "bound_ok (lc\<lparr>lc_modified := (lc_modified lc \<or> m)\<rparr>) s'"
    "\<And>j. subnet_at s' j = subnet_at s j"
proof -
  have opt: "option_in_packet (lc_hostname_opt lc)" using assms(2) by (simp add: bound_ok_def locals_ok_def)
  obtain h where h: "S_get_hostname (lc_hostname_opt lc) = Some h" "\<And>s. h = Some s \<Longrightarrow> clean s \<and> length s \<le> 255"
    "h \<noteq> None \<longleftrightarrow> (case lc_hostname_opt lc of None \<Rightarrow> False | Some (_, len) \<Rightarrow> len > 0)"
    using get_hostname_ok [OF opt] by metis
  show ?thesis
  proof (cases h)
    case None
    then have "update_name lc s = Some (lc, s)"
      using h(3) by (auto simp: update_name_def split: option.splits)
    with assms show ?thesis by (intro that [of False s]) simp_all
  next
    case (Some v)
    obtain p pl where e: "lc_entry lc = Some p" "(p, pl) \<in> set (sv_leases s)" "storable pl" using entry_of [OF assms] .
    obtain pl' m where f: "ni_set_prop pl NIPROP_NAME (Some v) = Some (pl', m)" using set_prop_total by blast
    have "storable_prop \<lparr>nip_name = NIPROP_NAME, nip_val = [v]\<rparr>" using h(2) [OF Some] by simp
    with f e(3) have g: "storable pl'" "\<not> m \<longrightarrow> pl' = pl"
      using set_prop_stored by (auto simp: storable_def)
    obtain lc' s' where u: "update_entry lc s (\<lambda>pl. ni_set_prop pl NIPROP_NAME (Some v)) = Some (lc', s')"
      "lc' = lc\<lparr>lc_modified := (lc_modified lc \<or> m)\<rparr>"
      "s' = s\<lparr>sv_leases := set_pl (sv_leases s) p pl'\<rparr>" "tracked cf s0 lc' s'" "bound_ok lc' s'"
      by (rule tracked_update [where f = "\<lambda>pl. ni_set_prop pl NIPROP_NAME (Some v)", OF assms e(1,2) f g])
    have "update_name lc s = Some (lc', s')"
      using h(1,3) Some u(1) by (auto simp: update_name_def split: option.splits)
    with u show ?thesis by (intro that [of m s']) (simp_all add: subnet_at_def)
  qed
qed

section \<open>REQUEST\<close>

definition verdict_ok :: "config \<Rightarrow> server \<Rightarrow> verdict \<Rightarrow> bool" where
  "verdict_ok cf s0 v \<longleftrightarrow>
     (case v of
        V_none s \<Rightarrow> ready cf s0 s
      | V_ack lc s \<Rightarrow> tracked cf s0 lc s \<and> locals_ok lc
      | V_nak lc s nak b \<Rightarrow> tracked cf s0 lc s \<and> locals_ok lc \<and> length nak \<le> 200)"

lemma put_if_ready:
  assumes "ready cf s0 s" "the_if s rq = Some ifp" "if_inet ifp' = if_inet ifp"
  shows "ready cf s0 (put_if s rq ifp')"
proof -
  have i: "rq_if rq < length (sv_interfaces s)" "sv_interfaces s ! rq_if rq = ifp"
    using assms(2) by (auto simp: the_if_def rd_def split: if_splits)
  have m: "map if_inet ((sv_interfaces s)[rq_if rq := ifp']) = map if_inet (sv_interfaces s)"
    using i assms(3) by (simp add: list_eq_iff_nth_eq nth_list_update)
  have "intf_ok x" if "x \<in> set ((sv_interfaces s)[rq_if rq := ifp'])" for x
  proof -
    have "intf_ok ifp" using assms(1) i by (auto simp: ready_def sv_ok_def)
    then have "intf_ok ifp'" using assms(3) by (simp add: intf_ok_def)
    with that assms(1) set_update_subset_insert show ?thesis by (fastforce simp: ready_def sv_ok_def)
  qed
  with assms(1) m show ?thesis by (simp add: ready_def sv_ok_def put_if_def tidy_def synced_def)
qed

lemma selected_other_ok:
  assumes "ready cf s0 s" "bound_ok lc s" "the_if s rq = Some ifp"
  obtains s' where "selected_other cf rq ifp lc s = Some s'" "ready cf s0 s'"
proof -
  define s1 where "s1 = forget_pending lc s"
  have r1: "ready cf s0 s1" using forget_ready [OF assms(1)] by (simp add: s1_def)
  obtain s2 where s2: "(if lc_binding lc = dhcp_binding_temporary_e then map_option (S_remove_host cf s1) (lc_entry lc)
      else Some s1) = Some s2" "ready cf s0 s2" "sv_interfaces s2 = sv_interfaces s"
  proof -
    have i: "sv_interfaces s1 = sv_interfaces s" by (simp add: s1_def forget_pending_def split: option.split)
    show ?thesis
    proof (cases "lc_binding lc = dhcp_binding_temporary_e")
      case True
      then obtain p where "lc_entry lc = Some p" using assms(2) by (auto simp: bound_ok_def)
      with True i remove_ready [OF r1] show ?thesis
        by (intro that [of "S_remove_host cf s1 p"]) (simp_all add: S_remove_host_def)
    next
      case False
      with i r1 show ?thesis by (intro that [of s1]) simp_all
    qed
  qed
  have "the_if s2 rq = Some ifp" using assms(3) s2(3) by (simp add: the_if_def)
  then have "ready cf s0 (put_if s2 rq (disable_dhcp_on_interface ifp))"
    using put_if_ready [OF s2(2)] by (simp add: disable_dhcp_on_interface_def)
  moreover have "selected_other cf rq ifp lc s = Some (if detect_other_dhcp_server (cf_which_services cf) ifp
      then put_if s2 rq (disable_dhcp_on_interface ifp) else s2)"
    using s2(1) by (simp add: selected_other_def Let_def flip: s1_def)
  ultimately show ?thesis using s2(2) that by (auto split: if_splits)
qed

lemma select_state_ok: "locals_ok (select_state rq hp lc) = locals_ok lc"
    "bound_ok lc s \<Longrightarrow> lc_binding lc = dhcp_binding_temporary_e \<Longrightarrow> bound_ok (select_state rq hp lc) s"
    "lc_binding (select_state rq hp lc) = lc_binding lc" "lc_modified (select_state rq hp lc) = lc_modified lc"
  by (auto simp: select_state_def locals_ok_def bound_ok_def split: option.split)

lemma select_ok:
  assumes "config_ok cf" "ready cf s0 s" "bound_ok lc s" "\<not> lc_modified lc" "the_if s rq = Some ifp"
  shows "\<exists>v. dhcp_select cf rq ifp lc s our_ip sid req_ip = Some v \<and> verdict_ok cf s0 v"
proof -
  define hp where "hp = hostbyaddr (sv_pending s) (lc_cid_type lc) (lc_cid lc) None"
  define lc1 where "lc1 = select_state rq hp lc"
  define bad where "bad \<longleftrightarrow> req_ip = None \<or> req_ip \<noteq> Some (lc_iaddr lc1)"
  have l1: "locals_ok lc1" "lc_binding lc1 = lc_binding lc" using assms(3) by (simp_all add: lc1_def select_state_ok bound_ok_def)
  have t1: "tracked cf s0 lc1 s" using tracked_ready [OF assms(2)] .
  have eq: "dhcp_select cf rq ifp lc s our_ip sid req_ip =
     (if sid \<noteq> our_ip then map_option V_none (selected_other cf rq ifp lc s)
      else if lc_binding lc = dhcp_binding_none_e \<and> hp = None then Some (V_none s)
      else if bad
        then Some (V_nak lc1 s ''protocol error in SELECT state'' True)
      else if lc_binding lc \<noteq> dhcp_binding_none_e then
          (if lc_binding lc = dhcp_binding_temporary_e then do {
             (lc2, s2) \<leftarrow> update_name lc1 s;
             (lc3, s3) \<leftarrow> update_lease (lc_expiry lc1) lc2 s2;
             Some (V_ack lc3 s3) }
           else Some (V_ack lc1 s))
      else
          (case lookup_subnet s (lc_iaddr lc1) True of
             None \<Rightarrow> Some (V_nak lc1 s ''unexpected server failure'' False)
           | Some i \<Rightarrow> do {
               s2 \<leftarrow> S_create_host cf s (lc_idstr lc) (lc_hwstr lc) (lc_iaddr lc1) (lc_hostname_opt lc) (lc_expiry lc1);
               Some (V_ack (lc1\<lparr>lc_subnet := Some i\<rparr>) s2) }))"
    unfolding dhcp_select_def Let_def lc1_def hp_def bad_def by (rule refl)
  consider (other) "sid \<noteq> our_ip" | (unknown) "sid = our_ip" "lc_binding lc = dhcp_binding_none_e \<and> hp = None"
    | (wrong) "sid = our_ip" "\<not> (lc_binding lc = dhcp_binding_none_e \<and> hp = None)" "bad"
    | (temp) "sid = our_ip" "\<not> bad" "lc_binding lc = dhcp_binding_temporary_e"
    | (perm) "sid = our_ip" "\<not> bad" "lc_binding lc = dhcp_binding_permanent_e"
    | (new) "sid = our_ip" "hp \<noteq> None" "\<not> bad" "lc_binding lc = dhcp_binding_none_e"
    by (cases "lc_binding lc"; cases "sid = our_ip"; cases "hp = None"; cases bad) blast+
  then show ?thesis
  proof cases
    case other
    obtain s' where "selected_other cf rq ifp lc s = Some s'" "ready cf s0 s'"
      using selected_other_ok [OF assms(2,3,5)] .
    with other show ?thesis unfolding eq by (simp add: verdict_ok_def)
  next
    case unknown
    then show ?thesis using assms(2) unfolding eq by (auto simp add: verdict_ok_def)
  next
    case wrong
    then show ?thesis using t1 l1 assms(2) unfolding eq by (auto simp add: verdict_ok_def)
  next
    case temp
    have b1: "bound_ok lc1 s" "lc_binding lc1 = dhcp_binding_temporary_e"
      using assms(3) temp(3) by (simp_all add: lc1_def select_state_ok)
    obtain m s2 where n: "update_name lc1 s = Some (lc1\<lparr>lc_modified := (lc_modified lc1 \<or> m)\<rparr>, s2)"
      "tracked cf s0 (lc1\<lparr>lc_modified := (lc_modified lc1 \<or> m)\<rparr>) s2" "bound_ok (lc1\<lparr>lc_modified := (lc_modified lc1 \<or> m)\<rparr>) s2"
      using update_name_ok [OF t1 b1] by metis
    let ?lc2 = "lc1\<lparr>lc_modified := (lc_modified lc1 \<or> m)\<rparr>"
    have b2: "lc_binding ?lc2 = dhcp_binding_temporary_e" using b1(2) by simp
    obtain m' s3 where u: "update_lease (lc_expiry lc1) ?lc2 s2 = Some (?lc2\<lparr>lc_modified := (lc_modified ?lc2 \<or> m')\<rparr>, s3)"
      "tracked cf s0 (?lc2\<lparr>lc_modified := (lc_modified ?lc2 \<or> m')\<rparr>) s3"
      "bound_ok (?lc2\<lparr>lc_modified := (lc_modified ?lc2 \<or> m')\<rparr>) s3"
      using update_lease_ok [OF n(2,3) b2, of "lc_expiry lc1"] by metis
    have "dhcp_select cf rq ifp lc s our_ip sid req_ip = Some (V_ack (?lc2\<lparr>lc_modified := (lc_modified ?lc2 \<or> m')\<rparr>) s3)"
      using temp n(1) u(1) unfolding eq by simp
    with u(2,3) show ?thesis by (simp add: verdict_ok_def bound_ok_def)
  next
    case perm
    then show ?thesis using t1 l1 assms(2) unfolding eq by (auto simp add: verdict_ok_def)
  next
    case new
    show ?thesis
    proof (cases "lookup_subnet s (lc_iaddr lc1) True")
      case None
      with new show ?thesis using t1 l1 assms(2) unfolding eq by (auto simp add: verdict_ok_def)
    next
      case (Some i)
      have o: "option_in_packet (lc_hostname_opt lc)" "clean (lc_idstr lc) \<and> length (lc_idstr lc) < 768"
        "clean (lc_hwstr lc) \<and> length (lc_hwstr lc) < 768" using assms(3) by (auto simp: bound_ok_def locals_ok_def)
      obtain s2 where "S_create_host cf s (lc_idstr lc) (lc_hwstr lc) (lc_iaddr lc1) (lc_hostname_opt lc) (lc_expiry lc1) = Some s2"
          "ready cf s0 s2"
        using create_ready [OF assms(1,2) o, of "lc_iaddr lc1" "lc_expiry lc1"] by metis
      then have "dhcp_select cf rq ifp lc s our_ip sid req_ip = Some (V_ack (lc1\<lparr>lc_subnet := Some i\<rparr>) s2)"
        and "tracked cf s0 (lc1\<lparr>lc_subnet := Some i\<rparr>) s2"
        using new Some tracked_ready [of cf s0 s2] unfolding eq by simp_all
      moreover have "locals_ok (lc1\<lparr>lc_subnet := Some i\<rparr>)" using l1 by (simp add: locals_ok_def)
      ultimately show ?thesis by (simp add: verdict_ok_def)
    qed
  qed
qed

lemma bound_upd [simp]:
  "bound_ok (lc\<lparr>lc_iaddr := a\<rparr>) s = bound_ok lc s" "bound_ok (lc\<lparr>lc_lease := l\<rparr>) s = bound_ok lc s"
  "locals_ok (lc\<lparr>lc_iaddr := a\<rparr>) = locals_ok lc" "locals_ok (lc\<lparr>lc_lease := l\<rparr>) = locals_ok lc"
  "locals_ok (lc\<lparr>lc_expiry := t\<rparr>) = locals_ok lc" "locals_ok (lc\<lparr>lc_modified := b\<rparr>) = locals_ok lc"
  "tracked cf s0 (lc\<lparr>lc_iaddr := a\<rparr>) s = tracked cf s0 lc s" "tracked cf s0 (lc\<lparr>lc_lease := l\<rparr>) s = tracked cf s0 lc s"
  "tracked cf s0 (lc\<lparr>lc_expiry := t\<rparr>) s = tracked cf s0 lc s"
  by (simp_all add: bound_ok_def locals_ok_def tracked_def)

lemma bound_expiry: "bound_ok lc s \<Longrightarrow> lc_binding lc = dhcp_binding_temporary_e \<Longrightarrow> bound_ok (lc\<lparr>lc_expiry := t\<rparr>) s"
  by (simp add: bound_ok_def)

lemma extend_ok:
  assumes "tracked cf s0 lc s" "bound_ok lc s" "lc_binding lc \<noteq> dhcp_binding_none_e"
  shows "\<exists>v. extend_lease cf rq lc s = Some v \<and> verdict_ok cf s0 v"
proof (cases "lc_binding lc = dhcp_binding_permanent_e")
  case True
  with assms show ?thesis by (simp add: extend_lease_def verdict_ok_def bound_ok_def)
next
  case False
  then have temp: "lc_binding lc = dhcp_binding_temporary_e" using assms(3) by (cases "lc_binding lc") auto
  obtain m s1 where n: "update_name lc s = Some (lc\<lparr>lc_modified := (lc_modified lc \<or> m)\<rparr>, s1)"
    "tracked cf s0 (lc\<lparr>lc_modified := (lc_modified lc \<or> m)\<rparr>) s1" "bound_ok (lc\<lparr>lc_modified := (lc_modified lc \<or> m)\<rparr>) s1"
    using update_name_ok [OF assms(1,2) temp] by metis
  define lc1 where "lc1 = lc\<lparr>lc_modified := (lc_modified lc \<or> m)\<rparr>"
  have t1: "lc_binding lc1 = dhcp_binding_temporary_e" using temp by (simp add: lc1_def)
  have k: "tracked cf s0 lc1 s1" "bound_ok lc1 s1" "locals_ok lc1" using n(2,3) by (simp_all add: lc1_def bound_ok_def)
  obtain sn where sn: "subnet_at s1 (lc_subnet lc1) = Some sn" using k(2) t1 by (auto simp: bound_ok_def)
  define ex where "ex \<longleftrightarrow> lc_suggested_lease lc1 = None \<and> \<not> cf_extend_leases cf \<and> rq_time rq \<ge> lc_expiry lc1"
  obtain l where l: "(case lc_suggested_lease lc1 of Some p \<Rightarrow> bounded_lease p (SubnetGetMaxLease sn) (SubnetGetMaxLease sn)
      | None \<Rightarrow> Some (if cf_extend_leases cf then SubnetGetMaxLease sn else word_of_int (lc_expiry lc1 - rq_time rq))) = Some l"
  proof (cases "lc_suggested_lease lc1")
    case None
    then show ?thesis using that by simp
  next
    case (Some p)
    then have "4 \<le> length p" using k(3) by (auto simp: locals_ok_def)
    with Some that show ?thesis by (auto elim: bounded_lease_ok [of p])
  qed
  define t where "t = (if l = DHCP_INFINITE_LEASE then DHCP_INFINITE_TIME else uint l + rq_time rq)"
  define lc2 where "lc2 = lc1\<lparr>lc_lease := l, lc_expiry := t\<rparr>"
  have k2: "tracked cf s0 lc2 s1" "bound_ok lc2 s1" "lc_binding lc2 = dhcp_binding_temporary_e"
    using k t1 bound_expiry [of "lc1\<lparr>lc_lease := l\<rparr>" s1 t] by (simp_all add: lc2_def)
  obtain m' s2 where u: "update_lease t lc2 s1 = Some (lc2\<lparr>lc_modified := (lc_modified lc2 \<or> m')\<rparr>, s2)"
    "tracked cf s0 (lc2\<lparr>lc_modified := (lc_modified lc2 \<or> m')\<rparr>) s2" "bound_ok (lc2\<lparr>lc_modified := (lc_modified lc2 \<or> m')\<rparr>) s2"
    using update_lease_ok [OF k2, of t] by metis
  have "extend_lease cf rq lc s = (if ex then Some (V_nak lc1 s1 ''lease expired'' False)
      else Some (V_ack (lc2\<lparr>lc_modified := (lc_modified lc2 \<or> m')\<rparr>) s2))"
    using False n(1) sn l u(1) unfolding extend_lease_def Let_def
    by (simp flip: lc1_def ex_def t_def lc2_def)
  with k u(2,3) show ?thesis by (auto simp: verdict_ok_def bound_ok_def)
qed

lemma renew_ok:
  assumes "ready cf s0 s" "bound_ok lc s" "options_ok (rq_options rq)"
  shows "\<exists>v. dhcp_renew cf rq ifp lc s req_ip = Some v \<and> verdict_ok cf s0 v"
proof -
  obtain b where b: "client_prefers_ipv6_only cf ifp (rq_options rq) = Some b" using prefers_ipv6_ok [OF assms(3)] by blast
  have t: "tracked cf s0 lc s" using tracked_ready [OF assms(1)] .
  have l: "locals_ok lc" using assms(2) by (simp add: bound_ok_def)
  define c where "c = (case req_ip of Some a \<Rightarrow> check_reboot lc s a
      | None \<Rightarrow> if dp_ciaddr (rq_pkt rq) \<noteq> 0 then check_renew rq lc s else Inl (V_none s))"
  have inl: "verdict_ok cf s0 v" if "c = Inl v" for v
    using that assms(1) t l
    by (auto simp: c_def check_reboot_def check_renew_def verdict_ok_def split: option.splits if_splits)
  have inr: "\<exists>a. lc1 = lc\<lparr>lc_iaddr := a\<rparr> \<and> lc_binding lc \<noteq> dhcp_binding_none_e" if "c = Inr lc1" for lc1
    using that
    by (auto simp: c_def check_reboot_def check_renew_def split: option.splits if_splits intro: exI [of _ "lc_iaddr lc"])
  show ?thesis
  proof (cases b)
    case True
    then have "dhcp_renew cf rq ifp lc s req_ip = Some (V_ack (lc\<lparr>lc_iaddr := 0, lc_lease := 3600\<rparr>) s)"
      using b by (simp add: dhcp_renew_def)
    with t l show ?thesis by (simp add: verdict_ok_def)
  next
    case False
    then have eq: "dhcp_renew cf rq ifp lc s req_ip = (case c of Inl v \<Rightarrow> Some v | Inr lc1 \<Rightarrow> extend_lease cf rq lc1 s)"
      using b by (simp add: dhcp_renew_def c_def)
    show ?thesis
    proof (cases c)
      case (Inl v)
      with eq inl show ?thesis by simp
    next
      case (Inr lc1)
      with inr obtain a where a: "lc1 = lc\<lparr>lc_iaddr := a\<rparr>" "lc_binding lc \<noteq> dhcp_binding_none_e" by blast
      have "\<exists>v. extend_lease cf rq lc1 s = Some v \<and> verdict_ok cf s0 v"
        using extend_ok [of cf s0 lc1 s rq] t assms(2) a by simp
      with eq Inr show ?thesis by simp
    qed
  qed
qed

lemma send_verdict_ok:
  assumes "config_ok cf" "verdict_ok cf s0 v"
  shows "\<exists>out. send_verdict cf rq our_ip v = Some out \<and> outcome_ok cf s0 (rq_pkt rq) out"
proof (cases v)
  case (V_none s)
  with assms(2) show ?thesis by (simp add: send_verdict_def verdict_ok_def outcome_ok_def)
next
  case (V_ack lc s)
  have k: "tracked cf s0 lc s" "packet_size_ok (lc_max_packet lc)"
    using assms(2) V_ack by (auto simp: verdict_ok_def locals_ok_def)
  have mt: "dhcp_msgtype_ack_e = dhcp_msgtype_ack_e \<or> dhcp_msgtype_ack_e = dhcp_msgtype_offer_e" by simp
  obtain rp0 oa0 oa where r: "make_dhcp_reply (cf_txbuf cf) (lc_max_packet lc) our_ip dhcp_msgtype_ack_e (rq_pkt rq) = Some (Some (rp0, oa0))"
    "rp0 = (rq_pkt rq)\<lparr>dp_siaddr := our_ip, dp_hops := 0, dp_secs := 0, dp_op := BOOTREPLY\<rparr>"
    "\<And>r. add_lease lc (r :: dhcp) oa0 =
       Some (Some (r\<lparr>dp_file := (case lc_bootfile lc of None \<Rightarrow> dp_file r | Some f \<Rightarrow> strlcpy_field (dp_file r) f)\<rparr>, oa))"
    "oa_holds oa (reply_fields dhcp_msgtype_ack_e our_ip @ [(dhcptag_lease_time_e, net_uint32_bytes (lc_lease lc))])"
    "oa_reserve oa = 1" "length (oa_buffer oa) = 1260" "oa_size oa = lc_max_packet lc - 240"
    using lease_reply_ok [OF assms(1) k(2) mt, of our_ip "rq_pkt rq"] by metis
  define rp where "rp = rp0\<lparr>dp_yiaddr := lc_iaddr lc,
     dp_file := (case lc_bootfile lc of None \<Rightarrow> dp_file rp0 | Some f \<Rightarrow> strlcpy_field (dp_file rp0) f)\<rparr>"
  have "send_verdict cf rq our_ip v = Some (Do_reply lc s (Some (rp, oa, dhcp_msgtype_ack_e)) False)"
    using r(1,3) by (simp add: send_verdict_def V_ack rp_def split: option.split)
  moreover have "reply_ok (rq_pkt rq) (rp, oa, dhcp_msgtype_ack_e)"
    unfolding reply_ok_def using r(2,4-7) size_bounds [OF k(2)] by (auto simp: rp_def)
  ultimately show ?thesis using k(1) by (simp add: outcome_tracked)
next
  case (V_nak lc s nak b)
  have k: "tracked cf s0 lc s" "packet_size_ok (lc_max_packet lc)" "length nak \<le> 200"
    using assms(2) V_nak by (auto simp: verdict_ok_def locals_ok_def)
  have c: "length (cf_txbuf cf) = 1264" using assms(1) by (simp add: config_ok_def)
  obtain rp oa where r: "make_dhcp_nak (cf_txbuf cf) (lc_max_packet lc) our_ip (Some nak) (rq_pkt rq) = Some (Some (rp, oa))"
    "rp = (rq_pkt rq)\<lparr>dp_siaddr := our_ip, dp_hops := 0, dp_secs := 0, dp_op := BOOTREPLY, dp_ciaddr := 0, dp_yiaddr := 0\<rparr>"
    "complete oa (reply_fields dhcp_msgtype_nak_e our_ip @ [(dhcptag_message_e, str_bytes nak)])"
    "oa_size oa = lc_max_packet lc - 240" "length (oa_buffer oa) = 1260"
    using make_nak_ok [OF c k(2,3), of our_ip "rq_pkt rq"] .
  then have "send_verdict cf rq our_ip v = Some (Do_reply lc s (Some (rp, oa, dhcp_msgtype_nak_e)) b)"
    by (simp add: send_verdict_def V_nak)
  moreover have "reply_ok (rq_pkt rq) (rp, oa, dhcp_msgtype_nak_e)"
    unfolding reply_ok_def using r(2-5) size_bounds [OF k(2)] by auto
  ultimately show ?thesis using k(1) by (simp add: outcome_tracked)
qed

lemma do_request_ok:
  assumes "config_ok cf" "ready cf s0 s" "bound_ok lc s" "\<not> lc_modified lc" "the_if s rq = Some ifp" "intf_ok ifp"
    "options_ok (rq_options rq)"
  shows "\<exists>out. dhcp_do_request cf rq ifp lc s = Some out \<and> outcome_ok cf s0 (rq_pkt rq) out"
proof -
  obtain sid req_ip where o: "option_addr (rq_options rq) dhcptag_server_identifier_e = Some sid"
      "option_addr (rq_options rq) dhcptag_requested_ip_address_e = Some req_ip"
    using option_addr_ok [OF assms(7)] by metis
  obtain our_ip where ip: "if_inet_addr_best_match ifp (case req_ip of None \<Rightarrow> 0 | Some a \<Rightarrow> a) = Some our_ip"
    using best_match_total [OF assms(6)] by blast
  have "\<exists>v. (case sid of Some x \<Rightarrow> dhcp_select cf rq ifp lc s our_ip x req_ip
      | None \<Rightarrow> dhcp_renew cf rq ifp lc s req_ip) = Some v \<and> verdict_ok cf s0 v"
    using select_ok [OF assms(1-5)] renew_ok [OF assms(2,3,7)] by (cases sid) simp_all
  then obtain v where v: "(case sid of Some x \<Rightarrow> dhcp_select cf rq ifp lc s our_ip x req_ip
      | None \<Rightarrow> dhcp_renew cf rq ifp lc s req_ip) = Some v" "verdict_ok cf s0 v" by blast
  with o ip send_verdict_ok [OF assms(1) v(2), of rq our_ip] show ?thesis
    by (simp add: dhcp_do_request_def)
qed

section \<open>DECLINE, RELEASE and INFORM\<close>

text \<open>A declined address: the entry loses its identifier, so the client does not find it again.\<close>

lemma decline_updates:
  assumes "ready cf s0 s" "bound_ok lc s" "lc_binding lc = dhcp_binding_temporary_e"
  obtains lc1 s1 lc2 s2 lc3 s3 where "update_entry lc s (\<lambda>pl. ni_delete_prop pl NIPROP_IDENTIFIER) = Some (lc1, s1)"
    "update_lease t lc1 s1 = Some (lc2, s2)"
    "update_entry lc2 s2 (\<lambda>pl. ni_set_prop pl NIPROP_DHCP_DECLINED (Some (lc_idstr lc))) = Some (lc3, s3)"
    "tracked cf s0 lc3 s3"
proof -
  have tr: "tracked cf s0 lc s" using tracked_ready [OF assms(1)] .
  obtain p pl where e: "lc_entry lc = Some p" "(p, pl) \<in> set (sv_leases s)" "storable pl" using entry_of [OF tr assms(2,3)] .
  have ok: "sv_ok s" using assms(1) by (simp add: ready_def)
  obtain pl1 m1 where f1: "ni_delete_prop pl NIPROP_IDENTIFIER = Some (pl1, m1)" using delete_prop_total by blast
  define lc1 where "lc1 = lc\<lparr>lc_modified := (lc_modified lc \<or> m1)\<rparr>"
  define s1 where "s1 = s\<lparr>sv_leases := set_pl (sv_leases s) p pl1\<rparr>"
  have u1: "update_entry lc s (\<lambda>pl. ni_delete_prop pl NIPROP_IDENTIFIER) = Some (lc1, s1)"
    using update_entry_ok [where f = "\<lambda>pl. ni_delete_prop pl NIPROP_IDENTIFIER", OF ok e(1,2) f1] by (simp add: lc1_def s1_def)
  have ok1: "sv_ok s1" using sv_ok_set_pl [OF ok] by (simp add: s1_def)
  have e1: "lc_entry lc1 = Some p" "(p, pl1) \<in> set (sv_leases s1)"
    using e in_set_pl [OF e(2)] by (simp_all add: lc1_def s1_def)
  have p1: "list_all storable_prop pl1" using delete_prop_storable [OF f1] e(3) by (simp add: storable_def)
  obtain pl2 m2 where f2: "S_set_lease pl1 t = Some (pl2, m2)" unfolding S_set_lease_def using set_prop_total by blast
  have st2: "storable pl2"
    using set_prop_stored(1) [OF f2 [unfolded S_set_lease_def] p1] lease_string_text [of 32 t] by simp
  define lc2 where "lc2 = lc1\<lparr>lc_modified := (lc_modified lc1 \<or> m2)\<rparr>"
  define s2 where "s2 = s1\<lparr>sv_leases := set_pl (sv_leases s1) p pl2\<rparr>"
  have u2: "update_lease t lc1 s1 = Some (lc2, s2)"
    using update_entry_ok [where f = "\<lambda>pl. S_set_lease pl t", OF ok1 e1 f2] by (simp add: update_lease_def lc2_def s2_def)
  have e2: "(p, pl2) \<in> set (sv_leases s2)" using in_set_pl [OF e1(2)] by (simp add: s2_def)
  have "y \<in> set (sv_leases s) \<or> y = (p, pl2)" if "y \<in> set (sv_leases s2)" for y
  proof -
    have "y = (p, pl2) \<or> fst y \<noteq> p \<and> y \<in> set (sv_leases s1)"
      using that by (auto simp: s2_def set_pl_def split: if_splits)
    then show ?thesis by (auto simp: s1_def dest: set_pl_elem)
  qed
  then have td: "tidy s2" using tr st2 by (fastforce simp: tracked_def tidy_def)
  have "synced cf s2" if "\<not> (m1 \<or> m2)"
  proof -
    have n: "\<not> m1" "\<not> m2" using that by auto
    have "pl1 = pl" using f1 n(1) by (cases rule: delete_prop_cases [of NIPROP_IDENTIFIER pl]) auto
    moreover have "pl2 = pl1" using set_prop_stored(2) [OF f2 [unfolded S_set_lease_def] p1] n(2) lease_string_text [of 32 t] by simp
    ultimately have "sv_leases s2 = sv_leases s"
      using set_pl_same [of "sv_leases s" p pl] e(2) ok by (simp add: s1_def s2_def sv_ok_def)
    then show ?thesis using assms(1) by (simp add: ready_def synced_def s1_def s2_def)
  qed
  then have t2: "tracked cf s0 lc2 s2"
    using tr td assms(3) sv_ok_set_pl [OF ok1] by (auto simp: tracked_def lc1_def lc2_def s1_def s2_def)
  have b2: "bound_ok lc2 s2" "lc_binding lc2 = dhcp_binding_temporary_e" "lc_entry lc2 = Some p" "lc_idstr lc2 = lc_idstr lc"
    using assms(2,3) e e2 by (auto simp: bound_ok_def lc1_def lc2_def s1_def s2_def subnet_at_def)
  obtain pl3 m3 where f3: "ni_set_prop pl2 NIPROP_DHCP_DECLINED (Some (lc_idstr lc)) = Some (pl3, m3)"
    using set_prop_total by blast
  have "storable_prop \<lparr>nip_name = NIPROP_DHCP_DECLINED, nip_val = [lc_idstr lc]\<rparr>"
    using assms(2) by (simp add: bound_ok_def locals_ok_def)
  then have st3: "storable pl3" "\<not> m3 \<longrightarrow> pl3 = pl2"
    using set_prop_stored [OF f3] st2 by (auto simp: storable_def)
  obtain lc3 s3 where "update_entry lc2 s2 (\<lambda>pl. ni_set_prop pl NIPROP_DHCP_DECLINED (Some (lc_idstr lc))) = Some (lc3, s3)"
      "tracked cf s0 lc3 s3"
    by (rule tracked_update [where f = "\<lambda>pl. ni_set_prop pl NIPROP_DHCP_DECLINED (Some (lc_idstr lc))", OF t2 b2(1-3) e2 f3 st3])
  with u1 u2 show ?thesis by (rule that)
qed

lemma decline_ok:
  assumes "ready cf s0 s" "bound_ok lc s" "intf_ok ifp" "options_ok (rq_options rq)"
  shows "\<exists>out. dhcp_decline cf rq ifp lc s = Some out \<and> outcome_ok cf s0 (rq_pkt rq) out"
proof -
  obtain sid req_ip where o: "option_addr (rq_options rq) dhcptag_server_identifier_e = Some sid"
      "option_addr (rq_options rq) dhcptag_requested_ip_address_e = Some req_ip"
    using option_addr_ok [OF assms(4)] by metis
  have none: "outcome_ok cf s0 (rq_pkt rq) (No_reply s)" "outcome_ok cf s0 (rq_pkt rq) (Do_reply lc s None False)"
    using assms(1) tracked_ready [OF assms(1)] by (simp_all add: outcome_ok_def [of _ _ _ "No_reply s"] outcome_tracked)
  show ?thesis
  proof (cases "sid = None \<or> req_ip = None")
    case True
    with o none show ?thesis by (auto simp: dhcp_decline_def split: option.split)
  next
    case False
    then obtain x a where xa: "sid = Some x" "req_ip = Some a" by auto
    obtain our_ip where ip: "if_inet_addr_best_match ifp a = Some our_ip" using best_match_total [OF assms(3)] by blast
    show ?thesis
    proof (cases "x \<noteq> our_ip \<or> \<not> (lc_binding lc = dhcp_binding_temporary_e \<and> lc_iaddr lc = a)")
      case True
      with o xa ip none show ?thesis by (auto simp: dhcp_decline_def)
    next
      case False
      then have c: "x = our_ip" "lc_binding lc = dhcp_binding_temporary_e" "lc_iaddr lc = a" by auto
      obtain lc1 s1 lc2 s2 lc3 s3 where u: "update_entry lc s (\<lambda>pl. ni_delete_prop pl NIPROP_IDENTIFIER) = Some (lc1, s1)"
        "update_lease (rq_time rq + DHCP_DECLINE_WAIT_SECS) lc1 s1 = Some (lc2, s2)"
        "update_entry lc2 s2 (\<lambda>pl. ni_set_prop pl NIPROP_DHCP_DECLINED (Some (lc_idstr lc))) = Some (lc3, s3)"
        "tracked cf s0 lc3 s3"
        using decline_updates [OF assms(1,2) c(2)] .
      have "dhcp_decline cf rq ifp lc s = Some (Do_reply lc3 s3 None False)"
        using o xa ip c u(1-3) by (simp add: dhcp_decline_def)
      with u(4) show ?thesis by (simp add: outcome_tracked)
    qed
  qed
qed

lemma release_ok:
  assumes "ready cf s0 s" "bound_ok lc s"
  shows "\<exists>out. dhcp_release rq lc s = Some out \<and> outcome_ok cf s0 (rq_pkt rq) out"
proof (cases "lc_binding lc = dhcp_binding_temporary_e")
  case True
  obtain lc' s' where "update_lease (rq_time rq) lc s = Some (lc', s')" "tracked cf s0 lc' s'"
    using update_lease_ok [OF tracked_ready [OF assms(1)] assms(2) True, of "rq_time rq"] by metis
  with True show ?thesis by (simp add: dhcp_release_def outcome_tracked)
next
  case False
  with tracked_ready [OF assms(1)] show ?thesis by (simp add: dhcp_release_def outcome_tracked)
qed

lemma inform_ok:
  assumes "config_ok cf" "ready cf s0 s" "locals_ok lc" "intf_ok ifp"
  shows "\<exists>out. dhcp_inform cf rq ifp lc s = Some out \<and> outcome_ok cf s0 (rq_pkt rq) out"
proof -
  have c: "length (cf_txbuf cf) = 1264" "packet_size_ok (lc_max_packet lc)"
    using assms(1,3) by (simp_all add: config_ok_def locals_ok_def)
  obtain our_ip where ip: "if_inet_addr_best_match ifp (dp_ciaddr (rq_pkt rq)) = Some our_ip"
    using best_match_total [OF assms(4)] by blast
  obtain rp oa where r: "make_dhcp_reply (cf_txbuf cf) (lc_max_packet lc) our_ip dhcp_msgtype_ack_e (rq_pkt rq) = Some (Some (rp, oa))"
    "rp = (rq_pkt rq)\<lparr>dp_siaddr := our_ip, dp_hops := 0, dp_secs := 0, dp_op := BOOTREPLY\<rparr>"
    "oa_holds oa (reply_fields dhcp_msgtype_ack_e our_ip)" "dims oa = (lc_max_packet lc - 240, 1, 1260)"
    using make_reply_ok [OF c] by metis
  have "oa_holds oa (reply_fields dhcp_msgtype_ack_e our_ip @ [])" using r(3) by simp
  then have "reply_ok (rq_pkt rq) (rp, oa, dhcp_msgtype_ack_e)"
    unfolding reply_ok_def using r(2,4) size_bounds [OF c(2)] by (auto simp: dims_def simp del: append_Nil2)
  moreover have "dhcp_inform cf rq ifp lc s =
      Some (Do_reply (lc\<lparr>lc_iaddr := dp_ciaddr (rq_pkt rq)\<rparr>) s (Some (rp, oa, dhcp_msgtype_ack_e)) False)"
    using ip r(1) by (simp add: dhcp_inform_def Let_def)
  ultimately show ?thesis using tracked_ready [OF assms(2)] by (simp add: outcome_tracked)
qed

section \<open>The whole request\<close>

text \<open>A packet the server sends for a request: its options are read up to the end tag.\<close>

definition sent_ok :: "dhcp \<Rightarrow> transmit \<Rightarrow> bool" where
  "sent_ok pkt t \<longleftrightarrow> dp_op (tx_pkt t) = BOOTREPLY \<and> dp_xid (tx_pkt t) = dp_xid pkt \<and>
     dp_chaddr (tx_pkt t) = dp_chaddr pkt \<and> 300 \<le> tx_size t \<and> tx_size t \<le> 1472 \<and>
     take 4 (dp_options (tx_pkt t)) = rfc_magic \<and>
     (\<exists>mt sid gs. mt \<in> {dhcp_msgtype_offer_e, dhcp_msgtype_ack_e, dhcp_msgtype_nak_e} \<and>
        tlv_parse (take (nat (tx_size t) - 240) (drop 4 (dp_options (tx_pkt t)))) = Some (reply_fields mt sid @ gs))"

lemma complete_reply_ok:
  assumes "intf_ok ifp" "options_ok (rq_options rq)" "oa_holds oa fs" "oa_reserve oa = 1"
  obtains rp' oa' gs where "complete_reply cf rq ifp lc s rp oa = Some (Some (rp', oa'))"
    "complete oa' (fs @ gs)" "oa_size oa' = oa_size oa" "length (oa_buffer oa') = length (oa_buffer oa)"
    "dp_op rp' = dp_op rp" "dp_xid rp' = dp_xid rp" "dp_chaddr rp' = dp_chaddr rp"
proof -
  have grow: "\<exists>oa1. (case params of None \<Rightarrow> Some oa | Some (p, n) \<Rightarrow> do {
          tags \<leftarrow> rdn p 0 (nat n);
          add_subnet_options cf (sv_subnets s) (lc_hostname lc) (lc_iaddr lc) ifp oa (Some tags) }) = Some oa1 \<and> grows fs oa oa1"
    if "params = None \<or> (\<exists>p n. params = Some (p, n) \<and> nat n \<le> length p)" for params
    using that
  proof (elim disjE exE conjE)
    assume "params = None"
    then show ?thesis using grows_refl [OF assms(3)] by simp
  next
    fix p n
    assume pn: "params = Some (p, n)" "nat n \<le> length p"
    obtain oa1 where "add_subnet_options cf (sv_subnets s) (lc_hostname lc) (lc_iaddr lc) ifp oa (Some (take (nat n) p)) = Some oa1"
        "grows fs oa oa1"
      using add_subnet_options_grows [OF assms(1,3)] .
    with pn show ?thesis by (simp add: rdn_def)
  qed
  obtain params where params: "find_option (rq_options rq) dhcptag_parameter_request_list_e = Some params"
      "params = None \<or> (\<exists>p n. params = Some (p, n) \<and> nat n \<le> length p)"
    by (rule find_option_ok [OF assms(2), of dhcptag_parameter_request_list_e]) auto
  obtain oa1 where oa1: "(case params of None \<Rightarrow> Some oa | Some (p, n) \<Rightarrow> do {
          tags \<leftarrow> rdn p 0 (nat n);
          add_subnet_options cf (sv_subnets s) (lc_hostname lc) (lc_iaddr lc) ifp oa (Some tags) }) = Some oa1" "grows fs oa oa1"
    using grow [OF params(2)] by blast
  obtain gs where gs: "oa_holds oa1 (fs @ gs)" "dims oa1 = dims oa" using oa1(2) unfolding grows_def by blast
  have "oa_reserve oa1 = 1" using gs(2) assms(4) by (simp add: dims_def)
  then obtain oa2 where oa2: "dhcpoa_add oa1 dhcptag_end_e 0 [] = Some (dhcpoa_success_e, oa2)" "complete oa2 (fs @ gs)"
      "oa_size oa2 = oa_size oa1" "length (oa_buffer oa2) = length (oa_buffer oa1)"
    using add_end_ok [OF gs(1)] by metis
  let ?rp1 = "if lc_bootfile lc = None then rp\<lparr>dp_file := replicate 128 0\<rparr> else rp"
  let ?rp2 = "?rp1\<lparr>dp_sname := strlcpy_field (dp_sname ?rp1) (cf_server_name cf)\<rparr>"
  have "complete_reply cf rq ifp lc s rp oa = Some (Some (?rp2, oa2))"
    unfolding complete_reply_def Let_def using params(1) oa1(1) oa2(1) by simp
  then show ?thesis by (rule that) (use oa2 gs(2) in \<open>simp_all add: dims_def\<close>)
qed

lemma sendreply_ok:
  assumes "if_inet_addr ifp = Some src"
  shows "\<exists>t. sendreply s ifp bp n b d = Some (s\<lparr>sv_sent := sv_sent s @ [t]\<rparr>) \<and> tx_size t = n \<and>
     (\<exists>flags. tx_pkt t = bp\<lparr>dp_flags := flags\<rparr>)"
proof -
  have send: "\<exists>t. (case (dst, dp, sp, hw, bp\<lparr>dp_flags := f\<rparr>) of (dst, dest_port, src_port, hwaddr, bp') \<Rightarrow> do {
        src \<leftarrow> if_inet_addr ifp;
        Some (s\<lparr>sv_sent := sv_sent s @
          [\<lparr>tx_if_name = if_name ifp, tx_hwaddr = hwaddr, tx_dst = dst, tx_src = src,
            tx_dest_port = dest_port, tx_src_port = src_port, tx_pkt = bp', tx_size = n\<rparr>]\<rparr>) }) =
      Some (s\<lparr>sv_sent := sv_sent s @ [t]\<rparr>) \<and> tx_size t = n \<and> (\<exists>flags. tx_pkt t = bp\<lparr>dp_flags := flags\<rparr>)"
    for dst dp sp hw f
    using assms
    by (intro exI [of _ "\<lparr>tx_if_name = if_name ifp, tx_hwaddr = hw, tx_dst = dst, tx_src = src, tx_dest_port = dp,
        tx_src_port = sp, tx_pkt = bp\<lparr>dp_flags := f\<rparr>, tx_size = n\<rparr>"]) auto
  show ?thesis
    unfolding sendreply_def Let_def
    using send [of _ _ _ _ "dp_flags bp"] send [of _ _ _ _ "swap16 (swap16 (dp_flags bp OR DHCP_FLAGS_BROADCAST))"]
    by (cases "dp_ciaddr bp \<noteq> 0"; cases "dp_giaddr bp \<noteq> 0"; cases b) (simp_all del: split_paired_Ex)
qed

lemma transmit_ok:
  assumes "intf_ok ifp" "complete oa fs" "length (oa_buffer oa) = 1260" "280 \<le> oa_size oa" "oa_size oa \<le> 1232"
  obtains t where "transmit_reply ifp lc s b rp oa = Some (s\<lparr>sv_sent := sv_sent s @ [t]\<rparr>)"
    "300 \<le> tx_size t" "tx_size t \<le> 1472" "dp_op (tx_pkt t) = dp_op rp" "dp_xid (tx_pkt t) = dp_xid rp"
    "dp_chaddr (tx_pkt t) = dp_chaddr rp" "dp_options (tx_pkt t) = rfc_magic @ oa_buffer oa"
    "tlv_parse (take (nat (tx_size t) - 240) (oa_buffer oa)) = Some fs"
proof -
  have ok: "oa_magic oa = DHCPOA_MAGIC" "0 \<le> oa_offset oa" "oa_offset oa \<le> oa_size oa"
      "\<And>rest. tlv_parse (written oa @ rest) = Some fs"
    using assms(2) by (auto simp: complete_def oa_ok_def split: if_splits)
  define n where "n = (if 240 + oa_offset oa < 300 then 300 else 240 + oa_offset oa)"
  have n: "300 \<le> n" "n \<le> 1472" "oa_offset oa \<le> n - 240" using ok assms(5) by (auto simp: n_def)
  obtain src where src: "if_inet_addr ifp = Some src" using inet_addr_ok [OF assms(1)] by blast
  have eq: "transmit_reply ifp lc s b rp oa = sendreply s ifp (rp\<lparr>dp_options := rfc_magic @ oa_buffer oa\<rparr>) n b (Some (lc_iaddr lc))"
    using ok(1) by (simp add: transmit_reply_def Let_def dhcpoa_used_def sizeof_dhcp_def RFC_MAGIC_SIZE_def sizeof_bootp_def n_def)
  obtain t flags where t: "transmit_reply ifp lc s b rp oa = Some (s\<lparr>sv_sent := sv_sent s @ [t]\<rparr>)" "tx_size t = n"
      "tx_pkt t = rp\<lparr>dp_options := rfc_magic @ oa_buffer oa, dp_flags := flags\<rparr>"
    unfolding eq using sendreply_ok [OF src, of s "rp\<lparr>dp_options := rfc_magic @ oa_buffer oa\<rparr>" n b "Some (lc_iaddr lc)"] by blast
  have k: "nat (oa_offset oa) \<le> nat n - 240" using n ok(2) by linarith
  obtain j where j: "nat n - 240 = nat (oa_offset oa) + j" using le_Suc_ex [OF k] by blast
  have "take (nat n - 240) (oa_buffer oa) = written oa @ take j (drop (nat (oa_offset oa)) (oa_buffer oa))"
    unfolding written_def j by (rule take_add)
  then have "tlv_parse (take (nat n - 240) (oa_buffer oa)) = Some fs" using ok(4) by simp
  with t n show ?thesis by (intro that [of t]) simp_all
qed

definition served :: "config \<Rightarrow> server \<Rightarrow> dhcp \<Rightarrow> server \<Rightarrow> bool" where
  "served cf s0 pkt s \<longleftrightarrow> sv_ok s \<and> tidy s \<and> synced cf s \<and> map if_inet (sv_interfaces s) = map if_inet (sv_interfaces s0) \<and>
     (sv_sent s = sv_sent s0 \<or> (\<exists>t. sv_sent s = sv_sent s0 @ [t] \<and> sent_ok pkt t))"

lemma finish_ok:
  assumes "intf_ok ifp" "options_ok (rq_options rq)" "outcome_ok cf s0 (rq_pkt rq) out"
  shows "\<exists>s'. finish_request cf rq ifp out = Some s' \<and> served cf s0 (rq_pkt rq) s'"
proof (cases out)
  case (No_reply s)
  with assms(3) show ?thesis by (simp add: finish_request_def outcome_ok_def ready_def served_def)
next
  case (Do_reply lc s r b)
  have t: "tracked cf s0 lc s" and r: "\<And>x. r = Some x \<Longrightarrow> reply_ok (rq_pkt rq) x"
    using assms(3) by (simp_all add: Do_reply outcome_tracked)
  define c where "c = (if lc_binding lc = dhcp_binding_temporary_e \<and> lc_modified lc then S_commit_mods cf s else (s, True))"
  obtain s1 ok where c1: "c = (s1, ok)" by (cases c)
  have k: "sv_ok s1" "tidy s1" "synced cf s1" "sv_sent s1 = sv_sent s0"
      "map if_inet (sv_interfaces s1) = map if_inet (sv_interfaces s0)"
    using t c1 by (auto simp: c_def tracked_def split: if_splits)
      (metis commit_simps(1-6) commit_synced commit_ok commit_tidy fst_conv tidy_def)+
  have stop: "served cf s0 (rq_pkt rq) s1" using k by (simp add: served_def)
  have send: "\<exists>s'. transmit_reply ifp lc s1 b rp oa = Some s' \<and> served cf s0 (rq_pkt rq) s'"
    if pr: "complete oa (reply_fields mt sid @ gs)" "mt \<in> {dhcp_msgtype_offer_e, dhcp_msgtype_ack_e, dhcp_msgtype_nak_e}"
      "length (oa_buffer oa) = 1260" "280 \<le> oa_size oa" "oa_size oa \<le> 1232"
      "dp_op rp = BOOTREPLY" "dp_xid rp = dp_xid (rq_pkt rq)" "dp_chaddr rp = dp_chaddr (rq_pkt rq)" for rp oa mt sid gs
  proof -
    obtain t where t: "transmit_reply ifp lc s1 b rp oa = Some (s1\<lparr>sv_sent := sv_sent s1 @ [t]\<rparr>)"
      "300 \<le> tx_size t" "tx_size t \<le> 1472" "dp_op (tx_pkt t) = dp_op rp" "dp_xid (tx_pkt t) = dp_xid rp"
      "dp_chaddr (tx_pkt t) = dp_chaddr rp" "dp_options (tx_pkt t) = rfc_magic @ oa_buffer oa"
      "tlv_parse (take (nat (tx_size t) - 240) (oa_buffer oa)) = Some (reply_fields mt sid @ gs)"
      using transmit_ok [OF assms(1) pr(1,3-5)] .
    have "sent_ok (rq_pkt rq) t"
      unfolding sent_ok_def using t pr(2,6-8) by (auto simp: rfc_magic_def)
    with t(1) k show ?thesis
      by (auto simp: served_def sv_ok_def tidy_def synced_def)
  qed
  have eq: "finish_request cf rq ifp out = (if \<not> ok then Some s1
      else if uint (swap16 (dp_secs (rq_pkt rq))) < uint (cf_reply_threshold cf) then Some s1
      else (case r of None \<Rightarrow> Some s1
             | Some (rp, options, msgtype) \<Rightarrow>
                 if msgtype = dhcp_msgtype_ack_e \<or> msgtype = dhcp_msgtype_offer_e then do {
                   r \<leftarrow> complete_reply cf rq ifp lc s1 rp options;
                   case r of None \<Rightarrow> Some s1
                   | Some (rp', options') \<Rightarrow> transmit_reply ifp lc s1 b rp' options' }
                 else transmit_reply ifp lc s1 b rp options))"
    using c1 by (simp add: finish_request_def Do_reply Let_def flip: c_def)
  show ?thesis
  proof (cases r)
    case None
    then show ?thesis unfolding eq using stop by simp
  next
    case (Some x)
    obtain rp oa mt where x: "x = (rp, oa, mt)" by (cases x)
    from r [OF Some] obtain sid gs where o: "dp_op rp = BOOTREPLY" "dp_xid rp = dp_xid (rq_pkt rq)"
      "dp_chaddr rp = dp_chaddr (rq_pkt rq)" "length (oa_buffer oa) = 1260" "280 \<le> oa_size oa" "oa_size oa \<le> 1232"
      "if mt = dhcp_msgtype_ack_e \<or> mt = dhcp_msgtype_offer_e then oa_holds oa (reply_fields mt sid @ gs) \<and> oa_reserve oa = 1
       else mt = dhcp_msgtype_nak_e \<and> complete oa (reply_fields mt sid @ gs)"
      by (auto simp: reply_ok_def x)
    show ?thesis
    proof (cases "mt = dhcp_msgtype_ack_e \<or> mt = dhcp_msgtype_offer_e")
      case True
      then have h: "oa_holds oa (reply_fields mt sid @ gs)" "oa_reserve oa = 1" using o(7) by simp_all
      obtain rp' oa' hs where c: "complete_reply cf rq ifp lc s1 rp oa = Some (Some (rp', oa'))"
        "complete oa' ((reply_fields mt sid @ gs) @ hs)" "oa_size oa' = oa_size oa" "length (oa_buffer oa') = length (oa_buffer oa)"
        "dp_op rp' = dp_op rp" "dp_xid rp' = dp_xid rp" "dp_chaddr rp' = dp_chaddr rp"
        using complete_reply_ok [OF assms(1,2) h, of cf lc s1 rp] by metis
      have "\<exists>s'. transmit_reply ifp lc s1 b rp' oa' = Some s' \<and> served cf s0 (rq_pkt rq) s'"
        using send [of oa' mt sid "gs @ hs" rp'] c(2-7) o(1-6) True by auto
      then show ?thesis unfolding eq using True c(1) stop by (auto simp: Some x)
    next
      case False
      have "\<exists>s'. transmit_reply ifp lc s1 b rp oa = Some s' \<and> served cf s0 (rq_pkt rq) s'"
        using send [of oa mt sid gs rp] o False by auto
      then show ?thesis unfolding eq using False stop by (auto simp: Some x)
    qed
  qed
qed

lemma lease_binding_interfaces:
  "lease_binding cf s ifp pkt lc = Some (lc', s') \<Longrightarrow> sv_interfaces s' = sv_interfaces s"
  unfolding lease_binding_def lookup_identifier_def Let_def case_prod_unfold
  by (auto simp: S_remove_host_def bind_eq_Some_conv split: if_splits option.splits)

lemma message_ok:
  assumes "config_ok cf" "ready cf s0 s" "bound_ok lc s" "\<not> lc_modified lc" "the_if s rq = Some ifp" "intf_ok ifp"
    "options_ok (rq_options rq)"
  shows "\<exists>out. dhcp_message cf rq ifp msgtype alloc lc s = Some out \<and> outcome_ok cf s0 (rq_pkt rq) out"
proof -
  have l: "locals_ok lc" using assms(3) by (simp add: bound_ok_def)
  have "\<exists>out. (if msgtype = dhcp_msgtype_discover_e then dhcp_discover cf rq ifp alloc lc s
      else if msgtype = dhcp_msgtype_request_e then dhcp_do_request cf rq ifp lc s
      else if msgtype = dhcp_msgtype_decline_e then dhcp_decline cf rq ifp lc s
      else if msgtype = dhcp_msgtype_release_e then dhcp_release rq lc s
      else if msgtype = dhcp_msgtype_inform_e then dhcp_inform cf rq ifp lc s
      else Some (Do_reply lc s None False)) = Some out \<and> outcome_ok cf s0 (rq_pkt rq) out"
    using discover_ok [OF assms(1,6,2) l assms(7), of alloc] do_request_ok [OF assms]
      decline_ok [OF assms(2,3,6,7)] release_ok [OF assms(2,3), of rq] inform_ok [OF assms(1,2) l assms(6), of rq]
      tracked_ready [OF assms(2), of lc]
    by (simp add: outcome_tracked)
  then show ?thesis by (simp only: dhcp_message_def)
qed

definition stored :: "config \<Rightarrow> server \<Rightarrow> bool" where
  "stored cf s \<longleftrightarrow> sv_ok s \<and> tidy s \<and> synced cf s"

lemma dhcp_request_served:
  assumes "config_ok cf" "stored cf s" "request_ok s rq"
  shows "\<exists>s'. dhcp_request cf rq msgtype alloc s = Some s' \<and> served cf s (rq_pkt rq) s'"
proof -
  have i: "rq_if rq < length (sv_interfaces s)" and o: "options_ok (rq_options rq)" using assms(3) by (auto simp: request_ok_def)
  define ifp where "ifp = sv_interfaces s ! rq_if rq"
  have ifp: "the_if s rq = Some ifp" "intf_ok ifp"
    using i assms(2) by (auto simp: the_if_def rd_def ifp_def stored_def sv_ok_def)
  have r0: "ready cf s s" using assms(2) by (simp add: ready_def stored_def)
  obtain who where w: "identify cf rq = Some who"
    "\<And>lc. who = Some lc \<Longrightarrow> locals_ok lc \<and> lc_binding lc = dhcp_binding_none_e \<and> \<not> lc_modified lc"
    using identify_ok [OF assms(3)] by metis
  show ?thesis
  proof (cases who)
    case None
    with ifp w r0 show ?thesis by (simp add: dhcp_request_def served_def ready_def)
  next
    case (Some lc0)
    with w(2) have k0: "locals_ok lc0" "lc_binding lc0 = dhcp_binding_none_e" "\<not> lc_modified lc0" by auto
    define lc1 where "lc1 = permanent_binding cf s ifp (rq_pkt rq) lc0"
    have k1: "bound_ok lc1 s" "\<not> lc_modified lc1" using permanent_binding_ok [OF k0] by (simp_all add: lc1_def)
    obtain lc2 s2 where l2: "lease_binding cf s ifp (rq_pkt rq) lc1 = Some (lc2, s2)" "ready cf s s2" "bound_ok lc2 s2"
      "\<not> lc_modified lc2"
      using lease_binding_ok [OF r0 k1] .
    have if2: "the_if s2 rq = Some ifp" using ifp(1) lease_binding_interfaces [OF l2(1)] by (simp add: the_if_def)
    obtain lc3 where l3: "current_lease rq s2 lc2 = Some lc3" "bound_ok lc3 s2" "\<not> lc_modified lc3"
      using current_lease_ok [OF l2(3), of rq] l2(4) by metis
    obtain out where out: "dhcp_message cf rq ifp msgtype alloc lc3 s2 = Some out" "outcome_ok cf s (rq_pkt rq) out"
      using message_ok [OF assms(1) l2(2) l3(2,3) if2 ifp(2) o] by metis
    obtain s' where "finish_request cf rq ifp out = Some s'" "served cf s (rq_pkt rq) s'"
      using finish_ok [OF ifp(2) o out(2)] by metis
    then show ?thesis using ifp(1) w(1) l2(1) l3(1) out(1) by (simp add: dhcp_request_def Some flip: lc1_def)
  qed
qed

end
