(* ===== verification/Bootpd.thy ===== *)
theory Bootpd
  imports DhcpServer
begin

text \<open>
  The server's main path (\<open>bootpd.tproj/bootpd.c\<close>): a packet is received, dispatched to the DHCP or
  the BOOTP handler, and relayed.

  The receive buffer is the packet record; a handler that writes into it returns it changed, and the
  relay sees the change.  \<open>recvmsg\<close>, the reload of the configuration after \<open>SIGHUP\<close> and logging are
  left out.
\<close>

section \<open>BOOTP requests (bootpd.c)\<close>

definition sizeof_vend :: nat where
  "sizeof_vend = 64"

text \<open>The host a BOOTP request is about: its address, name, boot file and the reply's \<open>yiaddr\<close>.\<close>

definition bootp_host ::
  "config \<Rightarrow> server \<Rightarrow> intf \<Rightarrow> dhcp \<Rightarrow> (in_addr \<times> string option \<times> string option \<times> in_addr) option option" where
  "bootp_host cf s ifp pkt =
     (if dp_ciaddr pkt = 0 then do {
        hw \<leftarrow> chaddr_bytes pkt;
        Some (map_option (\<lambda>(ip, hostname, bootfile). (ip, hostname, bootfile, ip))
          (bootp_getbyhw_file cf (dp_htype pkt) hw (Some (on_client_subnet cf s ifp (dp_giaddr pkt) 0)))) }
      else
        Some (map_option (\<lambda>(hostname, bootfile). (dp_ciaddr pkt, hostname, bootfile, dp_yiaddr pkt))
          (bootp_getbyip_file cf (dp_ciaddr pkt))))"

text \<open>The vendor area of the reply.\<close>

definition bootp_vendor ::
  "config \<Rightarrow> server \<Rightarrow> intf \<Rightarrow> string option \<Rightarrow> in_addr \<Rightarrow> u8 list \<Rightarrow> u8 list option" where
  "bootp_vendor cf s ifp hostname iaddr vend =
     (if take RFC_MAGIC_SIZE vend = rfc_magic then do {
        oa \<leftarrow> dhcpoa_init (drop RFC_MAGIC_SIZE vend) (int sizeof_vend - int RFC_MAGIC_SIZE);
        oa1 \<leftarrow> add_subnet_options cf (sv_subnets s) hostname iaddr ifp oa None;
        (r, oa2) \<leftarrow> dhcpoa_add oa1 dhcptag_end_e 0 [];
        Some ((if r = dhcpoa_success_e then rfc_magic else take RFC_MAGIC_SIZE vend) @ oa_buffer oa2) }
      else Some vend)"

definition terminate_file :: "dhcp \<Rightarrow> dhcp" where
  "terminate_file pkt = pkt\<lparr>dp_file := (dp_file pkt)[127 := 0]\<rparr>"

text \<open>The result is the server and the receive buffer, in which the file name gets terminated.\<close>

definition bootp_request :: "config \<Rightarrow> request \<Rightarrow> server \<Rightarrow> (server \<times> dhcp) option" where
  "bootp_request cf rq s = do {
     ifp \<leftarrow> the_if s rq;
     let pkt = rq_pkt rq;
     if rq_length rq < sizeof_bootp then Some (s, pkt)
     else if uint (swap16 (dp_secs pkt)) < uint (cf_reply_threshold cf) then Some (s, pkt)
     else do {
       host \<leftarrow> bootp_host cf s ifp pkt;
       case host of
         None \<Rightarrow> Some (s, pkt)
       | Some (iaddr, hostname, bootfile, yiaddr) \<Rightarrow> do {
           let pkt' = terminate_file pkt;
           request_file \<leftarrow> c_string (dp_file pkt');
           case bootp_add_bootfile cf request_file hostname bootfile 128 of
             None \<Rightarrow> Some (s, pkt')
           | Some reply_file \<Rightarrow> do {
               vend0 \<leftarrow> rdn (dp_options pkt) 0 sizeof_vend;
               vend \<leftarrow> bootp_vendor cf s ifp hostname iaddr vend0;
               siaddr \<leftarrow> if_inet_addr ifp;
               s' \<leftarrow> sendreply s ifp (pkt\<lparr>dp_op := BOOTREPLY, dp_yiaddr := yiaddr, dp_siaddr := siaddr,
                        dp_sname := strlcpy_field (dp_sname pkt) (cf_server_name cf),
                        dp_file := (case reply_file of None \<Rightarrow> dp_file pkt | Some f \<Rightarrow> strlcpy_field (dp_file pkt) f),
                        dp_options := vend\<rparr>) sizeof_bootp False None;
               Some (s', pkt') } } } }"

section \<open>Relay agent (bootpd.c)\<close>

definition transmit_to ::
  "server \<Rightarrow> intf \<Rightarrow> u8 list option \<Rightarrow> in_addr \<Rightarrow> nat \<Rightarrow> nat \<Rightarrow> dhcp \<Rightarrow> int \<Rightarrow> server option" where
  "transmit_to s ifp hwaddr dst dest_port src_port bp n = do {
     src \<leftarrow> if_inet_addr ifp;
     Some (s\<lparr>sv_sent := sv_sent s @
       [\<lparr>tx_if_name = if_name ifp, tx_hwaddr = hwaddr, tx_dst = dst, tx_src = src,
         tx_dest_port = dest_port, tx_src_port = src_port, tx_pkt = bp, tx_size = n\<rparr>]\<rparr>) }"

fun relay_to :: "server \<Rightarrow> intf \<Rightarrow> dhcp \<Rightarrow> int \<Rightarrow> in_addr list \<Rightarrow> server option" where
  "relay_to s ifp bp n [] = Some s"
| "relay_to s ifp bp n (relay # relays) = do {
     broadcast \<leftarrow> if_inet_broadcast ifp;
     if relay = broadcast then relay_to s ifp bp n relays
     else do {
       s' \<leftarrow> transmit_to s ifp None relay IPPORT_BOOTPS IPPORT_BOOTPC bp n;
       relay_to s' ifp bp n relays } }"

definition relay_request :: "config \<Rightarrow> dhcp \<Rightarrow> int \<Rightarrow> intf \<Rightarrow> in_addr list \<Rightarrow> server \<Rightarrow> (server \<times> dhcp) option" where
  "relay_request cf bp n ifp relays s =
     (if unat (dp_hops bp) \<ge> cf_max_hops cf then Some (s, bp)
      else if uint (swap16 (dp_secs bp)) < uint (cf_reply_threshold cf) then Some (s, bp)
      else do {
        let clear_giaddr = (dp_giaddr bp = 0);
        bp1 \<leftarrow> (if clear_giaddr then do { g \<leftarrow> if_inet_addr ifp; Some (bp\<lparr>dp_giaddr := g\<rparr>) } else Some bp);
        let bp2 = bp1\<lparr>dp_hops := dp_hops bp1 + 1\<rparr>;
        s' \<leftarrow> relay_to s ifp bp2 n relays;
        let bp3 = (if clear_giaddr then bp2\<lparr>dp_giaddr := 0\<rparr> else bp2);
        Some (s', bp3\<lparr>dp_hops := dp_hops bp3 - 1\<rparr>) })"

definition relay_reply :: "dhcp \<Rightarrow> int \<Rightarrow> server \<Rightarrow> server option" where
  "relay_reply bp n s =
     (if dp_giaddr bp = 0 then Some s
      else do {
        found \<leftarrow> ifl_find_ip (sv_interfaces s) (dp_giaddr bp);
        case found of
          None \<Rightarrow> Some s
        | Some ifp \<Rightarrow>
            let dst = (if swap16 (dp_flags bp) AND DHCP_FLAGS_BROADCAST \<noteq> 0 then INADDR_BROADCAST else dp_yiaddr bp)
            in transmit_to s ifp (Some (dp_chaddr bp)) dst IPPORT_BOOTPC IPPORT_BOOTPS bp n })"

definition S_relay_packet :: "config \<Rightarrow> dhcp \<Rightarrow> int \<Rightarrow> intf \<Rightarrow> in_addr list \<Rightarrow> server \<Rightarrow> (server \<times> dhcp) option" where
  "S_relay_packet cf bp n ifp relays s =
     (if n < sizeof_bootp then Some (s, bp)
      else if dp_op bp = BOOTREQUEST then relay_request cf bp n ifp relays s
      else if dp_op bp = BOOTREPLY then map_option (\<lambda>s'. (s', bp)) (relay_reply bp n s)
      else Some (s, bp))"

section \<open>Dispatch (bootpd.c)\<close>

text \<open>\<open>strcmp\<close> with the field: it stops at the first difference, or at the end of \<open>s\<close>.\<close>

definition names_server :: "dhcp \<Rightarrow> string \<Rightarrow> bool" where
  "names_server bp s =
     (take (length s + 1) (dp_sname bp @ dp_file bp @ dp_options bp) = str_bytes s @ [0])"

definition for_this_server :: "config \<Rightarrow> intf \<Rightarrow> dhcp \<Rightarrow> bool option" where
  "for_this_server cf ifp bp = do {
     c \<leftarrow> rd (dp_sname bp) 0;
     if c \<noteq> 0 \<and> \<not> names_server bp (cf_server_name cf) then Some False
     else if dp_siaddr bp \<noteq> 0 then do {
       ip \<leftarrow> if_inet_addr ifp;
       Some (dp_siaddr bp = ip) }
     else Some True }"

text \<open>The options of the packet and its DHCP message type, when it is a DHCP packet.\<close>

definition packet_type :: "dhcp \<Rightarrow> int \<Rightarrow> (dhcpol \<times> u8 option) option" where
  "packet_type bp n = do {
     r \<leftarrow> dhcpol_parse_packet bp n;
     case r of
       Inl _ \<Rightarrow> Some (dhcpol_init, None)
     | Inr options \<Rightarrow> map_option (Pair options) (is_dhcp_packet options) }"

definition serve_request :: "config \<Rightarrow> request \<Rightarrow> server \<Rightarrow> (server \<times> dhcp) option" where
  "serve_request cf rq0 s = do {
     ifp \<leftarrow> the_if s rq0;
     (options, msgtype) \<leftarrow> packet_type (rq_pkt rq0) (rq_length rq0);
     ours \<leftarrow> for_this_server cf ifp (rq_pkt rq0);
     let rq = rq0\<lparr>rq_options := options\<rparr>;
     if \<not> ours then Some (s, rq_pkt rq)
     else
       (case (msgtype, dhcp_enabled (cf_which_services cf) ifp) of
          (Some t, True) \<Rightarrow> map_option (\<lambda>s'. (s', rq_pkt rq)) (dhcp_request cf rq t True s)
        | _ \<Rightarrow>
          if bootp_enabled (cf_which_services cf) ifp then bootp_request cf rq s
          else Some (s, rq_pkt rq)) }"

definition S_dispatch_request :: "config \<Rightarrow> request \<Rightarrow> server \<Rightarrow> server option" where
  "S_dispatch_request cf rq s = do {
     (s1, bp) \<leftarrow> (if dp_op (rq_pkt rq) = BOOTREQUEST then serve_request cf rq s else Some (s, rq_pkt rq));
     ifp \<leftarrow> the_if s1 rq;
     case cf_relays cf of
       None \<Rightarrow> Some s1
     | Some relays \<Rightarrow>
         if relay_enabled (cf_which_services cf) ifp
         then map_option fst (S_relay_packet cf bp (rq_length rq) ifp relays s1)
         else Some s1 }"

section \<open>Reception (bootpd.c)\<close>

definition usable_interface :: "config \<Rightarrow> intf \<Rightarrow> bool" where
  "usable_interface cf ifp =
     (if \<not> if_inet_valid ifp then False
      else if cf_if_list cf \<noteq> [] \<and> if_name ifp \<notin> set (cf_if_list cf) then False
      else is_service_enabled (cf_which_services cf) ifp SERVICE_ALL SERVICE_DHCP_DISABLED)"

text \<open>The first interface with the name the packet was received on.\<close>

definition S_which_interface :: "config \<Rightarrow> server \<Rightarrow> string option \<Rightarrow> nat option" where
  "S_which_interface cf s ifname = do {
     nm \<leftarrow> ifname;
     i \<leftarrow> find_index_from 0 (\<lambda>ifp. if_name ifp = nm) (sv_interfaces s);
     if usable_interface cf (sv_interfaces s ! i) then Some i else None }"

definition S_receive_packet ::
  "config \<Rightarrow> dhcp \<Rightarrow> int \<Rightarrow> string option \<Rightarrow> in_addr option \<Rightarrow> int \<Rightarrow> server \<Rightarrow> server option" where
  "S_receive_packet cf pkt n ifname dstaddr now s =
     (if n < sizeof_dhcp then Some s
      else if unat (dp_hlen pkt) > 16 then Some s
      else
        (case S_which_interface cf s ifname of
           None \<Rightarrow> Some s
         | Some i \<Rightarrow>
             if \<not> S_ok_to_respond (cf_which_services cf) (cf_deny cf) (cf_allow cf) (sv_interfaces s ! i)
                   (dp_chaddr pkt) (unat (dp_hlen pkt))
             then Some s
             else S_dispatch_request cf
                    \<lparr>rq_if = i, rq_pkt = pkt, rq_length = n, rq_options = dhcpol_init, rq_dstaddr = dstaddr, rq_time = now\<rparr> s))"

text \<open>A run of the server: packets in the order they arrive.\<close>

type_synonym arrival = "dhcp \<times> int \<times> string option \<times> in_addr option \<times> int"

fun serve :: "config \<Rightarrow> arrival list \<Rightarrow> server \<Rightarrow> server option" where
  "serve cf [] s = Some s"
| "serve cf ((pkt, n, ifname, dst, now) # arrivals) s = do {
     s' \<leftarrow> S_receive_packet cf pkt n ifname dst now s;
     serve cf arrivals s' }"

end
