(* ===== verification/BootpdFacts.thy ===== *)
theory BootpdFacts
  imports DhcpServerFacts Bootpd
begin

text \<open>
  The server's main path does not fail: whatever packets arrive, the receive buffer is not left, no
  null pointer is followed, and the state stays well-formed and in step with the file of leases.
\<close>

section \<open>Option pointers\<close>

text \<open>
  A packet that leaves the last four bytes of the receive buffer unused gives option pointers that
  can be read for four bytes beyond their header.
\<close>

definition six :: "dhcpol \<Rightarrow> bool" where
  "six l \<longleftrightarrow> ptrlist_ok l \<and> (\<forall>p \<in> set (elems l). p ! 0 = dhcptag_end_e \<or> 6 \<le> length p)"

lemma six_add:
  assumes "six l" "p ! 0 = dhcptag_end_e \<or> 6 \<le> length p" "dhcpol_add l p = Some (b, l')"
  shows "six l'"
proof -
  obtain l1 where "dhcpol_add l p = Some (True, l1)" "ptrlist_ok l1" "elems l1 = elems l @ [p]"
    using assms(1) by (auto simp: dhcpol_add_def six_def elim: pl.addE [of l p])
  with assms show ?thesis by (auto simp: six_def)
qed

lemma six_concat:
  assumes "six l" "six m" "dhcpol_concat l m = Some (b, l')"
  shows "six l'"
proof -
  obtain l1 where "dhcpol_concat l m = Some (True, l1)" "ptrlist_ok l1" "elems l1 = elems l @ elems m"
    using assms(1,2) by (auto simp: dhcpol_concat_def six_def elim: ptrlist_concat_ok [of l m])
  with assms show ?thesis by (auto simp: six_def)
qed

lemma parse_loop_six:
  "six l \<Longrightarrow> len + 4 \<le> int (length scan) \<Longrightarrow> dhcpol_parse_loop l scan len tag = Some (l', left, t') \<Longrightarrow> six l'"
proof (induction "nat len" arbitrary: l scan len tag rule: less_induct)
  case less
  show ?case
  proof (cases "tag \<noteq> dhcptag_end_e \<and> len > 0")
    case False
    with less.prems show ?thesis by auto
  next
    case True
    then obtain t bs where scan: "scan = t # bs" using less.prems(2) by (cases scan) auto
    have step: "dhcpol_parse_loop l scan len tag =
        (if t = dhcptag_end_e then Option.bind (dhcpol_add l scan) (\<lambda>(_, l'). dhcpol_parse_loop l' (drop 1 scan) (len - 1) t)
         else if t = dhcptag_pad_e then dhcpol_parse_loop l (drop 1 scan) (len - 1) t
         else if len > 1 then Option.bind (rd scan 1) (\<lambda>option_len. Option.bind (dhcpol_add l scan) (\<lambda>(_, l').
                dhcpol_parse_loop l' (drop (unat option_len + 2) scan) (len - (uint option_len + 2)) t))
         else dhcpol_parse_loop l scan (- 1) t)"
      using True by (subst dhcpol_parse_loop.simps) (simp add: scan rd_def)
    note run = less.prems(3) [unfolded step]
    consider (stop) "t = dhcptag_end_e" | (pad) "t = dhcptag_pad_e" | (opt) "t \<noteq> dhcptag_end_e" "t \<noteq> dhcptag_pad_e" "len > 1"
      | (short) "t \<noteq> dhcptag_end_e" "t \<noteq> dhcptag_pad_e" "\<not> len > 1"
      by blast
    then show ?thesis
    proof cases
      case stop
      then obtain b where a: "dhcpol_add l scan = Some (b, l')"
        using run by (auto simp: bind_eq_Some_conv)
      show ?thesis using six_add [OF less.prems(1) _ a] stop by (simp add: scan)
    next
      case pad
      then have "dhcpol_parse_loop l (drop 1 scan) (len - 1) t = Some (l', left, t')" using run by simp
      then show ?thesis by (rule less.hyps [rotated 3]) (use less.prems True in auto)
    next
      case short
      then show ?thesis using run less.prems(1) by simp
    next
      case opt
      then obtain n where n: "rd scan 1 = Some n" using run by (auto split: bind_splits)
      then obtain b l1 where a: "dhcpol_add l scan = Some (b, l1)"
        and r: "dhcpol_parse_loop l1 (drop (unat n + 2) scan) (len - (uint n + 2)) t = Some (l', left, t')"
        using run opt by (auto split: bind_splits)
      have "six l1" using six_add [OF less.prems(1) _ a] opt(3) less.prems(2) by simp
      moreover have "len - (uint n + 2) + 4 \<le> int (length (drop (unat n + 2) scan))"
      proof -
        have "int (length scan) - int (unat n + 2) \<le> int (length scan - (unat n + 2))" by linarith
        then show ?thesis using less.prems(2) unfolding length_drop uint_nat by linarith
      qed
      moreover have "nat (len - (uint n + 2)) < nat len" using True uint_nonneg [of n] by linarith
      ultimately show ?thesis using less.hyps r by blast
    qed
  qed
qed

lemma six_init: "six dhcpol_init"
  by (simp add: six_def dhcpol_init_def)

lemma parse_buffer_six:
  assumes "len + 4 \<le> int (length buf)" "dhcpol_parse_buffer buf len = Some (Inr l)"
  shows "six l"
  using parse_loop_six [OF six_init assms(1)] assms(2)
  by (auto simp: dhcpol_parse_buffer_def bind_eq_Some_conv split: if_splits)

lemma parse_overload_six:
  assumes "six l" "n + 4 \<le> int (length area)" "parse_overload l area n = Some l'"
  shows "six l'"
  using assms parse_buffer_six [OF assms(2)]
  by (auto simp: parse_overload_def split: bind_splits sum.splits dest: six_concat)

lemma parse_overloads_six:
  assumes "six l" "dhcp_layout pkt" "4 \<le> length (dp_options pkt)" "parse_overloads pkt l = Some l'"
  shows "six l'"
proof -
  have f: "sizeof_file + 4 \<le> int (length (dp_file pkt @ dp_options pkt))"
    and n: "sizeof_sname + 4 \<le> int (length (dp_sname pkt @ dp_file pkt @ dp_options pkt))"
    using assms(2,3) by (simp_all add: dhcp_layout_def sizeof_file_def sizeof_sname_def)
  have f1: "six l' \<or> \<not> six l" if "parse_overload l (dp_file pkt @ dp_options pkt) sizeof_file = Some l'" for l l'
    using parse_overload_six [OF _ f that] by blast
  have n1: "six l' \<or> \<not> six l" if "parse_overload l (dp_sname pkt @ dp_file pkt @ dp_options pkt) sizeof_sname = Some l'" for l l'
    using parse_overload_six [OF _ n that] by blast
  show ?thesis
    using assms(1,4) by (auto simp: parse_overloads_def split: bind_splits option.splits if_splits
      dest!: f1 n1)
qed

lemma parse_packet_six:
  assumes "dhcp_layout pkt" "n + 4 \<le> 236 + int (length (dp_options pkt))" "dhcpol_parse_packet pkt n = Some (Inr l)"
    "4 \<le> length (dp_options pkt)"
  shows "six l"
proof -
  obtain l0 where l0: "dhcpol_parse_buffer (drop 4 (dp_options pkt)) (n - 240) = Some (Inr l0)" "parse_overloads pkt l0 = Some l"
    using assms(3) by (auto simp: dhcpol_parse_packet_def sizeof_dhcp_def RFC_MAGIC_SIZE_def
      split: if_splits bind_splits sum.splits)
  have "six l0" using parse_buffer_six [OF _ l0(1)] assms(2,4) by simp
  then show ?thesis using parse_overloads_six [OF _ assms(1,4) l0(2)] by blast
qed

lemma packet_type_ok:
  assumes "dhcp_layout pkt" "0 \<le> n" "n + 4 \<le> 236 + int (length (dp_options pkt))" "4 \<le> length (dp_options pkt)"
  obtains l t where "packet_type pkt n = Some (l, t)" "options_ok l"
proof -
  have "nat n \<le> 236 + length (dp_options pkt)" using assms(3) by linarith
  note spec = parse_packet_spec [OF assms(1,2) this]
  show ?thesis
  proof (cases "packet_fields pkt (nat n)")
    case None
    then obtain e where "dhcpol_parse_packet pkt n = Some (Inl e)" using spec by auto
    then show ?thesis
      by (intro that [of dhcpol_init None]) (simp_all add: packet_type_def options_ok_def dhcpol_init_def dhcpol_ok_def)
  next
    case (Some fs)
    then obtain l where l: "dhcpol_parse_packet pkt n = Some (Inr l)" "dhcpol_ok l" using spec by auto
    have ok: "options_ok l" using parse_packet_six [OF assms(1,3) l(1) assms(4)] l(2) by (simp add: options_ok_def six_def)
    obtain t where "is_dhcp_packet l = Some t"
    proof (rule find_option_ok [OF ok, of dhcptag_dhcp_message_type_e])
      assume "find_option l dhcptag_dhcp_message_type_e = Some None"
      then have "dhcpol_find l dhcptag_dhcp_message_type_e 0 = Some None" by (auto simp: find_option_def)
      then show thesis by (intro that [of None]) (simp add: is_dhcp_packet_def)
    next
      fix p len
      assume "find_option l dhcptag_dhcp_message_type_e = Some (Some (p, len))" "4 \<le> length p"
      then obtain j where "dhcpol_find l dhcptag_dhcp_message_type_e 0 = Some (Some (p, len, j))" "0 < length p"
        by (force simp: find_option_def)
      then show thesis by (intro that [of "Some (p ! 0)"]) (simp add: is_dhcp_packet_def rd_def)
    qed
    with l(1) ok show ?thesis by (intro that [of l t]) (simp_all add: packet_type_def)
  qed
qed

section \<open>BOOTP replies\<close>

lemma vendor_ok:
  assumes "intf_ok ifp" "length vend = 64"
  obtains v where "bootp_vendor cf s ifp hostname iaddr vend = Some v" "length v = 64"
    "take 4 vend = rfc_magic \<Longrightarrow> take 4 v = rfc_magic \<and> tlv_parse (drop 4 v) \<noteq> None"
    "take 4 vend \<noteq> rfc_magic \<Longrightarrow> v = vend"
proof (cases "take 4 vend = rfc_magic")
  case False
  then show ?thesis using assms(2) by (intro that [of vend]) (simp_all add: bootp_vendor_def RFC_MAGIC_SIZE_def)
next
  case True
  obtain oa where oa: "dhcpoa_init (drop 4 vend) 60 = Some oa" "oa_holds oa []" "oa_size oa = 60" "oa_reserve oa = 1"
      "length (oa_buffer oa) = 60"
    unfolding dhcpoa_init_def by (rule oa_init_holds [of 60 "drop 4 vend" 1]) (use assms(2) in auto)
  obtain oa1 gs where oa1: "add_subnet_options cf (sv_subnets s) hostname iaddr ifp oa None = Some oa1"
      "oa_holds oa1 gs" "dims oa1 = dims oa"
    using add_subnet_options_grows [OF assms(1) oa(2)] unfolding grows_def by (metis append_Nil)
  have r1: "oa_reserve oa1 = 1" using oa1(3) oa(4) by (simp add: dims_def)
  obtain oa2 where oa2: "dhcpoa_add oa1 dhcptag_end_e 0 [] = Some (dhcpoa_success_e, oa2)" "complete oa2 gs"
      "length (oa_buffer oa2) = length (oa_buffer oa1)"
    using add_end_ok [OF oa1(2) r1] by metis
  have l: "length (oa_buffer oa2) = 60" using oa2(3) oa1(3) oa(5) by (simp add: dims_def)
  have "tlv_parse (oa_buffer oa2) = Some gs"
    using oa2(2) unfolding complete_def written_def by (metis append_take_drop_id)
  with True oa(1) oa1(1) oa2(1) l show ?thesis
    by (intro that [of "rfc_magic @ oa_buffer oa2"])
      (simp_all add: bootp_vendor_def RFC_MAGIC_SIZE_def sizeof_vend_def rfc_magic_def)
qed

text \<open>A reply to a BOOTP request.\<close>

definition bootp_reply :: "dhcp \<Rightarrow> transmit \<Rightarrow> bool" where
  "bootp_reply pkt t \<longleftrightarrow> dp_op (tx_pkt t) = BOOTREPLY \<and> dp_xid (tx_pkt t) = dp_xid pkt \<and>
     dp_chaddr (tx_pkt t) = dp_chaddr pkt \<and> tx_size t = 300 \<and> length (dp_options (tx_pkt t)) = 64 \<and>
     (take 4 (dp_options pkt) = rfc_magic \<longrightarrow> take 4 (dp_options (tx_pkt t)) = rfc_magic \<and>
        tlv_parse (drop 4 (dp_options (tx_pkt t))) \<noteq> None)"

lemma terminated: "length (dp_file pkt) = 128 \<Longrightarrow> \<exists>f. c_string (dp_file (terminate_file pkt)) = Some f"
proof -
  assume l: "length (dp_file pkt) = 128"
  then have "0 \<in> set ((dp_file pkt)[127 := 0])" by (intro set_update_memI) simp
  then show ?thesis by (simp add: c_string_def terminate_file_def)
qed

lemma bootp_host_total:
  assumes "dhcp_layout pkt" "unat (dp_hlen pkt) \<le> 16"
  shows "\<exists>h. bootp_host cf s ifp pkt = Some h"
  using chaddr_ok [OF assms] by (auto simp: bootp_host_def)

lemma bootp_request_ok:
  assumes "the_if s rq = Some ifp" "intf_ok ifp" "dhcp_layout (rq_pkt rq)" "unat (dp_hlen (rq_pkt rq)) \<le> 16"
    "64 \<le> length (dp_options (rq_pkt rq))"
  obtains ts pkt where "bootp_request cf rq s = Some (s\<lparr>sv_sent := sv_sent s @ ts\<rparr>, pkt)"
    "pkt = rq_pkt rq \<or> pkt = terminate_file (rq_pkt rq)" "ts = [] \<or> (\<exists>t. ts = [t] \<and> bootp_reply (rq_pkt rq) t)"
proof -
  let ?p = "rq_pkt rq"
  obtain h where h: "bootp_host cf s ifp ?p = Some h" using bootp_host_total [OF assms(3,4)] by blast
  obtain f where f: "c_string (dp_file (terminate_file ?p)) = Some f" using terminated assms(3) by (auto simp: dhcp_layout_def)
  define vend0 where "vend0 = take 64 (dp_options ?p)"
  have v0: "rdn (dp_options ?p) 0 sizeof_vend = Some vend0" "length vend0 = 64" "take 4 vend0 = take 4 (dp_options ?p)"
    using assms(5) by (simp_all add: rdn_def sizeof_vend_def vend0_def)
  obtain src where src: "if_inet_addr ifp = Some src" using inet_addr_ok [OF assms(2)] by blast
  define quit where "quit \<longleftrightarrow> rq_length rq < sizeof_bootp \<or> uint (swap16 (dp_secs ?p)) < uint (cf_reply_threshold cf)"
  show ?thesis
  proof (cases "quit \<or> h = None \<or> (\<exists>iaddr hn bf y. h = Some (iaddr, hn, bf, y) \<and> bootp_add_bootfile cf f hn bf 128 = None)")
    case True
    then have "bootp_request cf rq s = Some (s, ?p) \<or> bootp_request cf rq s = Some (s, terminate_file ?p)"
      using h f assms(1) by (auto simp: bootp_request_def quit_def Let_def)
    then show ?thesis
    proof
      assume "bootp_request cf rq s = Some (s, ?p)"
      then show thesis by (intro that [of "[]" ?p]) simp_all
    next
      assume "bootp_request cf rq s = Some (s, terminate_file ?p)"
      then show thesis by (intro that [of "[]" "terminate_file ?p"]) simp_all
    qed
  next
    case False
    then obtain iaddr hn bf y rf where host: "h = Some (iaddr, hn, bf, y)" "bootp_add_bootfile cf f hn bf 128 = Some rf" "\<not> quit"
      by (cases h) auto
    obtain v where v: "bootp_vendor cf s ifp hn iaddr vend0 = Some v" "length v = 64"
        "take 4 vend0 = rfc_magic \<Longrightarrow> take 4 v = rfc_magic \<and> tlv_parse (drop 4 v) \<noteq> None"
      using vendor_ok [OF assms(2) v0(2)] by metis
    let ?rp = "?p\<lparr>dp_op := BOOTREPLY, dp_yiaddr := y, dp_siaddr := src,
      dp_sname := strlcpy_field (dp_sname ?p) (cf_server_name cf),
      dp_file := (case rf of None \<Rightarrow> dp_file ?p | Some f \<Rightarrow> strlcpy_field (dp_file ?p) f), dp_options := v\<rparr>"
    obtain t fl where t: "sendreply s ifp ?rp sizeof_bootp False None = Some (s\<lparr>sv_sent := sv_sent s @ [t]\<rparr>)"
        "tx_size t = sizeof_bootp" "tx_pkt t = ?rp\<lparr>dp_flags := fl\<rparr>"
      using sendreply_ok [OF src, of s ?rp sizeof_bootp False None] by blast
    have "bootp_request cf rq s = Some (s\<lparr>sv_sent := sv_sent s @ [t]\<rparr>, terminate_file ?p)"
      using host h f v0(1) v(1) src t(1) assms(1) by (simp add: bootp_request_def quit_def Let_def)
    moreover have "bootp_reply ?p t" using t(2,3) v v0(3) by (simp add: bootp_reply_def sizeof_bootp_def)
    ultimately show ?thesis by (intro that [of "[t]" "terminate_file ?p"]) simp_all
  qed
qed

section \<open>Relaying\<close>

lemma broadcast_ok: "intf_ok ifp \<Longrightarrow> addrs ifp = a # as \<Longrightarrow> if_inet_broadcast ifp = Some (ia_broadcast a)"
  using addr_at_ok [of ifp 0] by (simp add: if_inet_broadcast_def)

text \<open>The copies that are sent: one to each relay but the interface's own broadcast address.\<close>

lemma relay_to_ok:
  assumes "intf_ok ifp" "addrs ifp = a # as"
  shows "\<exists>ts. relay_to s ifp bp n relays = Some (s\<lparr>sv_sent := sv_sent s @ ts\<rparr>) \<and>
     map tx_dst ts = filter (\<lambda>r. r \<noteq> ia_broadcast a) relays \<and>
     (\<forall>t \<in> set ts. tx_pkt t = bp \<and> tx_size t = n \<and> tx_src t = ia_addr a)"
proof (induction relays arbitrary: s)
  case Nil
  then show ?case by (intro exI [of _ "[]"]) simp
next
  case (Cons r relays)
  have src: "if_inet_addr ifp = Some (ia_addr a)" using inet_addr_ok [OF assms(1)] assms(2) by simp
  note b = broadcast_ok [OF assms]
  show ?case
  proof (cases "r = ia_broadcast a")
    case True
    with Cons b show ?thesis by simp
  next
    case False
    let ?t = "\<lparr>tx_if_name = if_name ifp, tx_hwaddr = None, tx_dst = r, tx_src = ia_addr a,
         tx_dest_port = IPPORT_BOOTPS, tx_src_port = IPPORT_BOOTPC, tx_pkt = bp, tx_size = n\<rparr>"
    obtain ts where ts: "relay_to (s\<lparr>sv_sent := sv_sent s @ [?t]\<rparr>) ifp bp n relays =
        Some (s\<lparr>sv_sent := sv_sent s @ ?t # ts\<rparr>)" "map tx_dst ts = filter (\<lambda>r. r \<noteq> ia_broadcast a) relays"
        "\<forall>t \<in> set ts. tx_pkt t = bp \<and> tx_size t = n \<and> tx_src t = ia_addr a"
      using Cons [of "s\<lparr>sv_sent := sv_sent s @ [?t]\<rparr>"] by auto
    have "relay_to s ifp bp n (r # relays) = Some (s\<lparr>sv_sent := sv_sent s @ ?t # ts\<rparr>)"
      using False b src ts(1) by (simp add: transmit_to_def)
    with False ts(2,3) show ?thesis by (intro exI [of _ "?t # ts"]) simp
  qed
qed

definition relayed_copy :: "dhcp \<Rightarrow> in_addr \<Rightarrow> dhcp" where
  "relayed_copy bp our_ip =
     bp\<lparr>dp_giaddr := (if dp_giaddr bp = 0 then our_ip else dp_giaddr bp), dp_hops := dp_hops bp + 1\<rparr>"

lemma relay_request_ok:
  assumes "intf_ok ifp" "addrs ifp = a # as"
  shows "\<exists>ts. relay_request cf bp n ifp relays s = Some (s\<lparr>sv_sent := sv_sent s @ ts\<rparr>, bp) \<and>
     map tx_dst ts = (if unat (dp_hops bp) < cf_max_hops cf \<and> uint (cf_reply_threshold cf) \<le> uint (swap16 (dp_secs bp))
        then filter (\<lambda>r. r \<noteq> ia_broadcast a) relays else []) \<and>
     (\<forall>t \<in> set ts. tx_pkt t = relayed_copy bp (ia_addr a) \<and> tx_size t = n)"
proof (cases "unat (dp_hops bp) < cf_max_hops cf \<and> uint (cf_reply_threshold cf) \<le> uint (swap16 (dp_secs bp))")
  case False
  then have "relay_request cf bp n ifp relays s = Some (s, bp)" by (auto simp: relay_request_def)
  with False show ?thesis by (intro exI [of _ "[]"]) auto
next
  case True
  have src: "if_inet_addr ifp = Some (ia_addr a)" using inet_addr_ok [OF assms(1)] assms(2) by simp
  obtain ts where ts: "relay_to s ifp (relayed_copy bp (ia_addr a)) n relays = Some (s\<lparr>sv_sent := sv_sent s @ ts\<rparr>)"
      "map tx_dst ts = filter (\<lambda>r. r \<noteq> ia_broadcast a) relays"
      "\<forall>t \<in> set ts. tx_pkt t = relayed_copy bp (ia_addr a) \<and> tx_size t = n"
    using relay_to_ok [OF assms, of s "relayed_copy bp (ia_addr a)" n relays] by blast
  have "relay_request cf bp n ifp relays s = Some (s\<lparr>sv_sent := sv_sent s @ ts\<rparr>, bp)"
    using True src ts(1) by (cases "dp_giaddr bp = 0") (simp_all add: relay_request_def relayed_copy_def Let_def)
  with True ts(2,3) show ?thesis by (intro exI [of _ ts]) simp
qed

lemma find_ip_total: "\<forall>ifp \<in> set ifs. intf_ok ifp \<Longrightarrow> \<exists>r. ifl_find_ip ifs ip = Some r \<and> (\<forall>ifp. r = Some ifp \<longrightarrow> ifp \<in> set ifs)"
proof (induction ifs)
  case Nil
  then show ?case by simp
next
  case (Cons ifp ifs)
  have ok: "intf_ok ifp" using Cons.prems by simp
  have hp: "n + j = length (addrs ifp) \<Longrightarrow> \<exists>b. has_ip n ifp ip j = Some b" for n j
  proof (induction n arbitrary: j)
    case 0
    then show ?case by auto
  next
    case (Suc n)
    then have "j < length (addrs ifp)" "\<exists>b. has_ip n ifp ip (j + 1) = Some b" by auto
    then show ?case by (auto simp: addr_at_ok [OF ok])
  qed
  obtain b where b: "has_ip (if_inet_count ifp) ifp ip 0 = Some b"
    using hp [of "length (addrs ifp)" 0] by (auto simp: inet_count_ok [OF ok])
  obtain r where "ifl_find_ip ifs ip = Some r" "\<forall>ifp. r = Some ifp \<longrightarrow> ifp \<in> set ifs"
    using Cons by (meson list.set_intros(2))
  with b show ?case by auto
qed

lemma relay_packet_ok:
  assumes "intf_ok ifp" "addrs ifp \<noteq> []" "\<forall>ifp \<in> set (sv_interfaces s). intf_ok ifp"
  obtains ts where "S_relay_packet cf bp n ifp relays s = Some (s\<lparr>sv_sent := sv_sent s @ ts\<rparr>, bp)"
proof -
  obtain a as where a: "addrs ifp = a # as" using assms(2) by (cases "addrs ifp") auto
  obtain ts where req: "relay_request cf bp n ifp relays s = Some (s\<lparr>sv_sent := sv_sent s @ ts\<rparr>, bp)"
    using relay_request_ok [OF assms(1) a, of cf bp n relays s] by blast
  obtain r where r: "ifl_find_ip (sv_interfaces s) (dp_giaddr bp) = Some r" "\<And>ifp. r = Some ifp \<Longrightarrow> intf_ok ifp"
    using find_ip_total [OF assms(3)] assms(3) by blast
  have "\<exists>us. relay_reply bp n s = Some (s\<lparr>sv_sent := sv_sent s @ us\<rparr>)"
  proof (cases "dp_giaddr bp = 0 \<or> r = None")
    case True
    then have "relay_reply bp n s = Some s" using r(1) by (auto simp: relay_reply_def)
    then show ?thesis by (intro exI [of _ "[]"]) simp
  next
    case False
    then obtain q where q: "r = Some q" "dp_giaddr bp \<noteq> 0" by auto
    then obtain src where "if_inet_addr q = Some src" using inet_addr_ok r(2) by blast
    with r(1) q show ?thesis by (auto simp: relay_reply_def transmit_to_def Let_def)
  qed
  then obtain us where rep: "relay_reply bp n s = Some (s\<lparr>sv_sent := sv_sent s @ us\<rparr>)" by blast
  consider (none) "n < sizeof_bootp \<or> dp_op bp \<noteq> BOOTREQUEST \<and> dp_op bp \<noteq> BOOTREPLY" | (req) "\<not> n < sizeof_bootp" "dp_op bp = BOOTREQUEST"
    | (rep) "\<not> n < sizeof_bootp" "dp_op bp = BOOTREPLY" by blast
  then show ?thesis
  proof cases
    case none
    then show ?thesis by (intro that [of "[]"]) (auto simp: S_relay_packet_def)
  next
    case req
    with \<open>relay_request cf bp n ifp relays s = _\<close> show ?thesis by (intro that [of ts]) (simp add: S_relay_packet_def)
  next
    case rep
    with \<open>relay_reply bp n s = _\<close> show ?thesis
      by (intro that [of us]) (simp add: S_relay_packet_def BOOTREQUEST_def BOOTREPLY_def)
  qed
qed

section \<open>Dispatch\<close>

definition answers :: "dhcp \<Rightarrow> transmit \<Rightarrow> bool" where
  "answers pkt t \<longleftrightarrow> sent_ok pkt t \<or> bootp_reply pkt t"

definition steady :: "config \<Rightarrow> server \<Rightarrow> server \<Rightarrow> transmit list \<Rightarrow> bool" where
  "steady cf s s' ts \<longleftrightarrow> stored cf s' \<and> map if_inet (sv_interfaces s') = map if_inet (sv_interfaces s) \<and>
     sv_sent s' = sv_sent s @ ts"

lemma stored_sent [simp]: "stored cf (s\<lparr>sv_sent := ts\<rparr>) = stored cf s"
  by (simp add: stored_def sv_ok_def tidy_def synced_def)

lemma steady_refl: "stored cf s \<Longrightarrow> steady cf s s []"
  by (simp add: steady_def)

lemma steady_sent: "stored cf s \<Longrightarrow> steady cf s (s\<lparr>sv_sent := sv_sent s @ ts\<rparr>) ts"
  by (simp add: steady_def)

lemma steady_trans: "steady cf s s1 ts \<Longrightarrow> steady cf s1 s2 us \<Longrightarrow> steady cf s s2 (ts @ us)"
  by (simp add: steady_def)

lemma for_this_server_total: "intf_ok ifp \<Longrightarrow> dhcp_layout pkt \<Longrightarrow> \<exists>b. for_this_server cf ifp pkt = Some b"
  using inet_addr_ok by (auto simp: for_this_server_def rd_def dhcp_layout_def)

text \<open>A request as the receiver hands it on.\<close>

definition arrived :: "server \<Rightarrow> request \<Rightarrow> bool" where
  "arrived s rq \<longleftrightarrow> rq_if rq < length (sv_interfaces s) \<and> dhcp_layout (rq_pkt rq) \<and> unat (dp_hlen (rq_pkt rq)) \<le> 16 \<and>
     length (dp_options (rq_pkt rq)) = 1812 \<and> 0 \<le> rq_length rq \<and> rq_length rq \<le> 2044"

lemma arrived_if: "arrived s rq \<Longrightarrow> stored cf s \<Longrightarrow> \<exists>ifp. the_if s rq = Some ifp \<and> intf_ok ifp"
  by (auto simp: arrived_def the_if_def rd_def stored_def sv_ok_def)

lemma serve_request_ok:
  assumes "config_ok cf" "stored cf s" "arrived s rq"
  obtains s' bp ts where "serve_request cf rq s = Some (s', bp)" "steady cf s s' ts"
    "bp = rq_pkt rq \<or> bp = terminate_file (rq_pkt rq)" "ts = [] \<or> (\<exists>t. ts = [t] \<and> answers (rq_pkt rq) t)"
proof -
  have lay: "dhcp_layout (rq_pkt rq)" using assms(3) by (simp add: arrived_def)
  obtain ifp where ifp: "the_if s rq = Some ifp" "intf_ok ifp" using arrived_if [OF assms(3,2)] by blast
  obtain l t where l: "packet_type (rq_pkt rq) (rq_length rq) = Some (l, t)" "options_ok l"
    by (rule packet_type_ok [OF lay, of "rq_length rq"]) (use assms(3) in \<open>auto simp: arrived_def\<close>)
  obtain ours where ours: "for_this_server cf ifp (rq_pkt rq) = Some ours" using for_this_server_total [OF ifp(2) lay] by blast
  let ?rq = "rq\<lparr>rq_options := l\<rparr>"
  have ok: "request_ok s ?rq" using assms(3) l(2) by (simp add: request_ok_def arrived_def)
  obtain s1 where s1: "\<And>mt. t = Some mt \<Longrightarrow> dhcp_request cf ?rq mt True s = Some s1 \<and> served cf s (rq_pkt rq) s1"
  proof -
    obtain s1 where "dhcp_request cf ?rq (the t) True s = Some s1 \<and> served cf s (rq_pkt rq) s1"
      using dhcp_request_served [OF assms(1,2) ok, of "the t" True] by auto
    then show thesis by (intro that [of s1]) simp
  qed
  have if': "the_if s ?rq = Some ifp" using ifp(1) by (simp add: the_if_def)
  obtain us bp where b: "bootp_request cf ?rq s = Some (s\<lparr>sv_sent := sv_sent s @ us\<rparr>, bp)"
      "bp = rq_pkt rq \<or> bp = terminate_file (rq_pkt rq)" "us = [] \<or> (\<exists>t. us = [t] \<and> bootp_reply (rq_pkt rq) t)"
  proof (rule bootp_request_ok [OF if' ifp(2), of cf])
    show "dhcp_layout (rq_pkt ?rq)" "unat (dp_hlen (rq_pkt ?rq)) \<le> 16" "64 \<le> length (dp_options (rq_pkt ?rq))"
      using assms(3) by (simp_all add: arrived_def)
  qed (use that in simp)
  have out: "serve_request cf rq s = (if \<not> ours then Some (s, rq_pkt rq)
     else case (t, dhcp_enabled (cf_which_services cf) ifp) of
          (Some t, True) \<Rightarrow> map_option (\<lambda>s'. (s', rq_pkt rq)) (dhcp_request cf ?rq t True s)
        | _ \<Rightarrow> if bootp_enabled (cf_which_services cf) ifp then bootp_request cf ?rq s else Some (s, rq_pkt rq))"
    using ifp(1) l(1) ours by (cases t) (simp_all add: serve_request_def Let_def split: bool.split)
  show ?thesis
  proof (cases "ours \<and> t \<noteq> None \<and> dhcp_enabled (cf_which_services cf) ifp")
    case True
    then obtain mt where mt: "t = Some mt" by auto
    have run: "serve_request cf rq s = Some (s1, rq_pkt rq)" and sv: "served cf s (rq_pkt rq) s1"
      using True s1 [OF mt] unfolding out by (simp_all add: mt)
    obtain vs where "sv_sent s1 = sv_sent s @ vs" "vs = [] \<or> (\<exists>t. vs = [t] \<and> sent_ok (rq_pkt rq) t)"
      using sv unfolding served_def by auto
    with sv show ?thesis
      by (intro that [OF run, of vs]) (auto simp: steady_def served_def stored_def answers_def)
  next
    case no_dhcp: False
    show ?thesis
    proof (cases "ours \<and> bootp_enabled (cf_which_services cf) ifp")
      case True
      then have run: "serve_request cf rq s = Some (s\<lparr>sv_sent := sv_sent s @ us\<rparr>, bp)"
        using no_dhcp b(1) unfolding out by (cases t) simp_all
      show ?thesis
        by (rule that [OF run steady_sent [OF assms(2)] b(2)]) (use b(3) in \<open>auto simp: answers_def\<close>)
    next
      case False
      then have "serve_request cf rq s = Some (s, rq_pkt rq)"
        using no_dhcp unfolding out by (cases t) auto
      then show ?thesis by (rule that [of s _ "[]"]) (simp_all add: steady_refl assms(2))
    qed
  qed
qed

lemma addrs_same: "map if_inet ifs = map if_inet ifs' \<Longrightarrow> i < length ifs \<Longrightarrow> addrs (ifs ! i) = addrs (ifs' ! i)"
  unfolding addrs_def by (metis length_map nth_map)

lemma dispatch_ok:
  assumes "config_ok cf" "stored cf s" "arrived s rq" "addrs (sv_interfaces s ! rq_if rq) \<noteq> []"
  obtains s' ts where "S_dispatch_request cf rq s = Some s'" "steady cf s s' ts"
proof -
  obtain s1 bp ts where s1: "(if dp_op (rq_pkt rq) = BOOTREQUEST then serve_request cf rq s else Some (s, rq_pkt rq)) = Some (s1, bp)"
      "steady cf s s1 ts"
  proof (cases "dp_op (rq_pkt rq) = BOOTREQUEST")
    case True
    with serve_request_ok [OF assms(1-3)] that show thesis by metis
  next
    case False
    with that steady_refl [OF assms(2)] show thesis by auto
  qed
  have m: "map if_inet (sv_interfaces s1) = map if_inet (sv_interfaces s)" and st: "stored cf s1"
    using s1(2) by (simp_all add: steady_def)
  have i: "rq_if rq < length (sv_interfaces s1)" using assms(3) m by (metis arrived_def length_map)
  define ifp where "ifp = sv_interfaces s1 ! rq_if rq"
  have ifp: "the_if s1 rq = Some ifp" "intf_ok ifp" "addrs ifp \<noteq> []"
    using i st assms(4) addrs_same [OF m i] by (auto simp: the_if_def rd_def ifp_def stored_def sv_ok_def)
  have all: "\<forall>ifp \<in> set (sv_interfaces s1). intf_ok ifp" using st by (simp add: stored_def sv_ok_def)
  show ?thesis
  proof (cases "\<exists>relays. cf_relays cf = Some relays \<and> relay_enabled (cf_which_services cf) ifp")
    case False
    then have "S_dispatch_request cf rq s = Some s1"
      using s1(1) ifp(1) by (auto simp: S_dispatch_request_def split: option.split)
    then show ?thesis using s1(2) by (rule that)
  next
    case True
    then obtain relays where r: "cf_relays cf = Some relays" "relay_enabled (cf_which_services cf) ifp" by blast
    obtain us where "S_relay_packet cf bp (rq_length rq) ifp relays s1 = Some (s1\<lparr>sv_sent := sv_sent s1 @ us\<rparr>, bp)"
      using relay_packet_ok [OF ifp(2,3) all] .
    then have "S_dispatch_request cf rq s = Some (s1\<lparr>sv_sent := sv_sent s1 @ us\<rparr>)"
      using s1(1) ifp(1) r by (simp add: S_dispatch_request_def)
    then show ?thesis by (rule that) (rule steady_trans [OF s1(2) steady_sent [OF st]])
  qed
qed

section \<open>Reception\<close>

text \<open>
  A packet in the receive buffer of 2048 bytes.  One of more than 2044 bytes can make the server read
  up to four bytes behind the buffer.
\<close>

definition arrival_ok :: "arrival \<Rightarrow> bool" where
  "arrival_ok a \<longleftrightarrow> (case a of (pkt, n, _) \<Rightarrow> dhcp_layout pkt \<and> length (dp_options pkt) = 1812 \<and> n \<le> 2044)"

lemma which_interface_ok:
  assumes "S_which_interface cf s ifname = Some i" "\<forall>ifp \<in> set (sv_interfaces s). intf_ok ifp"
  shows "i < length (sv_interfaces s)" "addrs (sv_interfaces s ! i) \<noteq> []"
proof -
  have i: "i < length (sv_interfaces s)" and u: "usable_interface cf (sv_interfaces s ! i)"
    using assms(1) by (auto simp: S_which_interface_def bind_eq_Some_conv find_index_from_Some split: if_splits)
  show "i < length (sv_interfaces s)" by (fact i)
  have "intf_ok (sv_interfaces s ! i)" using assms(2) i by simp
  then show "addrs (sv_interfaces s ! i) \<noteq> []"
    using u inet_count_ok by (fastforce simp: usable_interface_def if_inet_valid_def if_inet_count_def split: if_splits)
qed

lemma receive_ok:
  assumes "config_ok cf" "stored cf s" "arrival_ok (pkt, n, ifname, dst, now)"
  obtains s' ts where "S_receive_packet cf pkt n ifname dst now s = Some s'" "steady cf s s' ts"
proof -
  define drop where "drop \<longleftrightarrow> n < sizeof_dhcp \<or> unat (dp_hlen pkt) > 16 \<or> (case S_which_interface cf s ifname of None \<Rightarrow> True
     | Some i \<Rightarrow> \<not> S_ok_to_respond (cf_which_services cf) (cf_deny cf) (cf_allow cf) (sv_interfaces s ! i)
                   (dp_chaddr pkt) (unat (dp_hlen pkt)))"
  show ?thesis
  proof (cases drop)
    case True
    then have "S_receive_packet cf pkt n ifname dst now s = Some s"
      by (auto simp: S_receive_packet_def drop_def split: option.splits)
    then show ?thesis by (rule that) (rule steady_refl [OF assms(2)])
  next
    case False
    then obtain i where i: "S_which_interface cf s ifname = Some i" by (auto simp: drop_def split: option.splits)
    let ?rq = "\<lparr>rq_if = i, rq_pkt = pkt, rq_length = n, rq_options = dhcpol_init, rq_dstaddr = dst, rq_time = now\<rparr>"
    have all: "\<forall>ifp \<in> set (sv_interfaces s). intf_ok ifp" using assms(2) by (simp add: stored_def sv_ok_def)
    have "arrived s ?rq" and ne: "addrs (sv_interfaces s ! rq_if ?rq) \<noteq> []"
      using False assms(3) which_interface_ok [OF i all]
      by (auto simp: arrived_def arrival_ok_def drop_def sizeof_dhcp_def)
    then obtain s' ts where s': "S_dispatch_request cf ?rq s = Some s'" "steady cf s s' ts"
      using dispatch_ok [OF assms(1,2)] by blast
    have "S_receive_packet cf pkt n ifname dst now s = Some s'"
      using False i s'(1) by (simp add: S_receive_packet_def drop_def)
    then show ?thesis using s'(2) by (rule that)
  qed
qed

lemma serve_ok:
  "config_ok cf \<Longrightarrow> stored cf s \<Longrightarrow> list_all arrival_ok arrivals \<Longrightarrow> \<exists>s' ts. serve cf arrivals s = Some s' \<and> steady cf s s' ts"
proof (induction arrivals arbitrary: s)
  case Nil
  then show ?case using steady_refl by auto
next
  case (Cons a arrivals)
  obtain pkt n ifname dst now where a: "a = (pkt, n, ifname, dst, now)" by (cases a)
  have ok: "arrival_ok (pkt, n, ifname, dst, now)" using Cons.prems(3) a by simp
  obtain s1 ts where s1: "S_receive_packet cf pkt n ifname dst now s = Some s1" "steady cf s s1 ts"
    using receive_ok [OF Cons.prems(1,2) ok] .
  have st: "stored cf s1" using s1(2) by (simp add: steady_def)
  obtain s' us where s': "serve cf arrivals s1 = Some s'" "steady cf s1 s' us"
    using Cons.IH [OF Cons.prems(1) st] Cons.prems(3) by auto
  have "serve cf (a # arrivals) s = Some s'" using a s1(1) s'(1) by simp
  then show ?case using steady_trans [OF s1(2) s'(2)] by blast
qed

end
