(* ===== verification/ServerProps.thy ===== *)
theory ServerProps
  imports BootpdFacts
begin

text \<open>
  The properties of the server, over the facts of the theories it imports, and a small server on
  which they are applied.
\<close>

section \<open>A small server\<close>

definition hex_netlib :: netlib where
  "hex_netlib = \<lparr>inet_aton = (\<lambda>s. Some (word_of_nat (digits_val 16 0 s))), inet_ntoa = (\<lambda>ip. to_hex (unat ip)),
     ether_aton = (\<lambda>s. Some (map of_char s)), ether_ntoa = map (\<lambda>b. char_of (unat b))\<rparr>"

definition sample_config :: config where
  "sample_config = \<lparr>cf_which_services = SERVICE_DHCP OR SERVICE_BOOTP, cf_file_hosts = [], cf_routes = [], cf_def_route = None,
     cf_reply_threshold = 0, cf_server_name = ''server'', cf_ignore_client_identifier = False,
     cf_supply_bootfile = False, cf_use_server_config = True, cf_dns_servers = [], cf_domain_name = None,
     cf_domain_search = None, cf_ipv6_only_wait = 0, cf_extend_leases = True, cf_relays = None, cf_max_hops = 4,
     cf_if_list = [], cf_deny = None, cf_allow = None,
     cf_netlib = hex_netlib,
     cf_disk_ok = True, cf_readable = (\<lambda>_. False), cf_tftp_dir = ''/tftp'', cf_noexist_reply = True,
     cf_txbuf = replicate 1264 0\<rparr>"

definition sample_info :: inet_addrinfo where
  "sample_info = \<lparr>ia_addr = 0x0a000001, ia_mask = 0xffffff00, ia_netaddr = 0x0a000000, ia_broadcast = 0x0a0000ff\<rparr>"

definition sample_intf :: intf where
  "sample_intf = \<lparr>if_name = ''en0'',
     if_inet = \<lparr>da_list = \<lparr>pl_array = Some [Some (Some sample_info)], pl_count = 1, pl_size = 1\<rparr>,
       has_free_func = False, copy_func = None\<rparr>,
     if_link_index = 1, if_user_defined = 0\<rparr>"

definition sample_server :: server where
  "sample_server = \<lparr>sv_leases = [], sv_next = 0, sv_file = [], sv_pending = [], sv_subnets = Some [pool_a],
     sv_interfaces = [sample_intf], sv_sent = []\<rparr>"

definition sample_packet :: dhcp where
  "sample_packet = sample_dhcp\<lparr>dp_options := rfc_magic @ [53, 1, 1, 255] @ replicate 1804 0\<rparr>"

definition sample_request :: request where
  "sample_request = \<lparr>rq_if = 0, rq_pkt = sample_packet, rq_length = 300, rq_options = dhcpol_init, rq_dstaddr = None, rq_time = 1000\<rparr>"

lemma byte_char: "of_char (char_of (unat b)) = (b :: u8)"
proof -
  have "unat b < 256" using unsigned_less [of b] by simp
  then have "of_nat (of_char (char_of (unat b) :: char)) = b" by simp
  then show ?thesis by (simp only: of_nat_of_char)
qed

lemma hex_netlib_ok: "netlib_ok hex_netlib" "netlib_text hex_netlib"
proof -
  show "netlib_ok hex_netlib"
    by (auto simp: netlib_ok_def hex_netlib_def digits_val_to_hex o_def byte_char)
  have "length (to_hex (unat ip)) \<le> Suc 7" for ip :: in_addr
    using unsigned_less [of ip] by (intro length_to_hex) simp
  then have "length (to_hex (unat ip)) < 768" for ip :: in_addr
    using le_less_trans [of "length (to_hex (unat ip))" 8 768] by simp
  then show "netlib_text hex_netlib" by (simp add: netlib_text_def hex_netlib_def clean_to_hex)
qed

lemma sample_config_ok: "config_ok sample_config" "netlib_ok (cf_netlib sample_config)"
  using hex_netlib_ok by (simp_all add: config_ok_def sample_config_def)

lemma sample_intf_ok: "intf_ok sample_intf" "addrs sample_intf = [sample_info]"
  by (simp_all add: intf_ok_def addrs_def sample_intf_def dynarray_ok_def members_def ptrlist_ok_def elems_def)

lemma sample_pool_ok: "pool_ok pool_a"
  by (simp add: pool_ok_def pool_a_def subnet_ok_def SubnetIsAddressOnSubnet_def in_subnet_def)

lemma sample_stored: "stored sample_config sample_server"
  using sample_intf_ok sample_pool_ok
  by (auto simp: stored_def sv_ok_def sample_server_def tidy_def synced_def PLCache_write_def intro: exI [of _ "[]"])

lemma sample_layout: "dhcp_layout sample_packet" "length (dp_options sample_packet) = 1812" "dp_hlen sample_packet = 6"
  by (simp_all add: dhcp_layout_def sample_packet_def sample_dhcp_def rfc_magic_def)

lemma sample_request_ok: "request_ok sample_server sample_request"
  using sample_layout
  by (simp add: request_ok_def sample_request_def sample_server_def options_ok_def dhcpol_init_def dhcpol_ok_def)

section \<open>The server keeps running\<close>



text \<open>C5. A DHCP request of any type is answered with at most one packet; that packet is a reply to
  its sender of at most 1472 bytes whose options are well-formed and start with the message type and
  the server identifier, and the leases stay well-formed and in step with the file.\<close>

theorem dhcp_request_answers:
  assumes "config_ok cf" "stored cf s" "request_ok s rq"
  shows "\<exists>s'. dhcp_request cf rq msgtype alloc s = Some s' \<and> served cf s (rq_pkt rq) s'"
  using assms by (rule dhcp_request_served)

theorem dhcp_request_answers_witness:
  "\<exists>s'. dhcp_request sample_config sample_request 1 True sample_server = Some s' \<and>
     served sample_config sample_server sample_packet s'"
  using dhcp_request_answers [OF sample_config_ok(1) sample_stored sample_request_ok, of 1 True]
  by (simp add: sample_request_def)

section \<open>Restart\<close>

lemma stored_file: "stored cf s \<Longrightarrow> cf_disk_ok cf \<Longrightarrow>
   \<exists>es. PLCache_read (sv_file s) = Some es \<and> mset es = mset (map snd (sv_leases s))"
proof -
  assume "stored cf s" "cf_disk_ok cf"
  then obtain es where es: "sv_file s = PLCache_write es" "mset es = mset (map snd (sv_leases s))"
    by (auto simp: stored_def synced_def)
  have "list_all storable es"
    using \<open>stored cf s\<close> mset_eq_setD [OF es(2)] by (auto simp: stored_def tidy_def list_all_iff)
  then have "PLCache_read (sv_file s) = Some es"
    using read_entries [of es nowhere_e "[]"] es(1) by (simp add: PLCache_read_def)
  with es(2) show ?thesis by blast
qed

text \<open>C6. A server that is started again after serving any packets has the same leases it had
  before: none is lost, duplicated or changed.\<close>

theorem restart_keeps_leases:
  assumes "config_ok cf" "stored cf s" "cf_disk_ok cf" "list_all arrival_ok arrivals"
  shows "\<exists>s' s''. serve cf arrivals s = Some s' \<and> dhcp_init s0 (Some (sv_file s')) = Some s'' \<and>
     mset (map snd (sv_leases s'')) = mset (map snd (sv_leases s'))"
proof -
  obtain s' ts where s': "serve cf arrivals s = Some s'" "steady cf s s' ts" using serve_ok [OF assms(1,2,4)] by blast
  then have "stored cf s'" by (simp add: steady_def)
  then obtain es where "PLCache_read (sv_file s') = Some es" "mset es = mset (map snd (sv_leases s'))"
    using stored_file assms(3) by blast
  moreover have "map snd (zip [sv_next s0..<sv_next s0 + length es] es) = es" by simp
  ultimately show ?thesis using s'(1) by (simp add: dhcp_init_def flip: mset_map del: mset_map)
qed

theorem restart_keeps_leases_witness:
  "\<exists>s' s''. serve sample_config [(sample_packet, 300, Some ''en0'', None, 1000)] sample_server = Some s' \<and>
     dhcp_init sample_server (Some (sv_file s')) = Some s'' \<and>
     mset (map snd (sv_leases s'')) = mset (map snd (sv_leases s'))"
proof -
  have "cf_disk_ok sample_config" by (simp add: sample_config_def)
  then show ?thesis
    using sample_layout by (intro restart_keeps_leases [OF sample_config_ok(1) sample_stored]) (simp_all add: arrival_ok_def)
qed

section \<open>Allocation\<close>

lemma match_value:
  "ni_nlforprop pl nm = Some vs \<Longrightarrow> \<exists>k. ni_proplist_match pl nm None = Some k \<and> vals_at pl k = vs"
proof -
  assume v: "ni_nlforprop pl nm = Some vs"
  then have "nm \<in> set (names pl)" by (metis nlforprop_None option.distinct(1))
  then obtain k where k: "ni_proplist_match pl nm None = Some k"
    by (metis match_from_None ni_proplist_match_def option.exhaust)
  then obtain as p bs where "pl = as @ p # bs" "nip_name p = nm" "nm \<notin> set (names as)" "k = length as"
    using match_from_split [of pl nm 0 k] by (auto simp: ni_proplist_match_def)
  with v k show ?thesis using nlforprop_None [of as nm] by (auto simp: vals_at_def nlforprop_append)
qed

lemma has_address_value:
  "netlib_ok (cf_netlib cf) \<Longrightarrow> ni_nlforprop pl NIPROP_IPADDR = Some [inet_ntoa (cf_netlib cf) ip] \<Longrightarrow>
   has_address cf a pl \<longleftrightarrow> a = ip"
  using match_value [of pl NIPROP_IPADDR "[inet_ntoa (cf_netlib cf) ip]"]
  by (auto simp: has_address_def lookup_ip_test_def netlib_ok_def)

text \<open>C14. A new client is offered an address only if no configured host and no lease has it and it
  lies in an allocating pool, or if it was just taken back from a lease that could be reclaimed.\<close>

theorem offer_is_fresh:
  assumes "intf_ok ifp" "stored cf s" "locals_ok lc" "choose_offer cf rq ifp lc s = Some (Some lc', s')"
  shows "\<exists>i. lc_subnet lc' = Some i \<and> fresh_address cf rq ifp s s' i (lc_iaddr lc')"
proof -
  have "ready cf s s" using assms(2) by (simp add: ready_def stored_def)
  from choose_offer_ok [OF assms(1) this assms(3), of rq] assms(4) show ?thesis by fastforce
qed

text \<open>
  The client accepts an offer that is still pending: the acknowledgement has the offered address and
  lease time, and a new entry with the address and the client's identifier is made.
\<close>

lemma select_offered:
  assumes "config_ok cf" "netlib_ok (cf_netlib cf)" "stored cf s" "locals_ok lc" "lc_binding lc = dhcp_binding_none_e"
    and "hostbyaddr (sv_pending s) (lc_cid_type lc) (lc_cid lc) None = Some hp"
    and "lookup_subnet s (hp_iaddr hp) True = Some i"
  obtains lc' s' pl where "dhcp_select cf rq ifp lc s our_ip our_ip (Some (hp_iaddr hp)) = Some (V_ack lc' s')" "stored cf s'"
    "lc_iaddr lc' = hp_iaddr hp" "lc_lease lc' = word_of_nat (hp_lease hp)" "sv_leases s' = (sv_next s, pl) # sv_leases s"
    "sv_pending s' = sv_pending s" "sv_subnets s' = sv_subnets s" "\<And>a. has_address cf a pl \<longleftrightarrow> a = hp_iaddr hp"
    "ni_nlforprop pl NIPROP_IDENTIFIER = Some [lc_idstr lc]"
proof -
  define lc1 where "lc1 = select_state rq (Some hp) lc"
  have l1: "lc_iaddr lc1 = hp_iaddr hp" "lc_lease lc1 = word_of_nat (hp_lease hp)" by (simp_all add: lc1_def select_state_def)
  have o: "option_in_packet (lc_hostname_opt lc)" "clean (lc_idstr lc) \<and> length (lc_idstr lc) < 768"
    "clean (lc_hwstr lc) \<and> length (lc_hwstr lc) < 768" using assms(4) by (auto simp: locals_ok_def)
  have r: "ready cf s s" using assms(3) by (simp add: ready_def stored_def)
  obtain s' pl where c: "S_create_host cf s (lc_idstr lc) (lc_hwstr lc) (hp_iaddr hp) (lc_hostname_opt lc) (lc_expiry lc1) = Some s'"
      "ready cf s s'" "host_properties cf (lc_idstr lc) (lc_hwstr lc) (hp_iaddr hp) (lc_hostname_opt lc) (lc_expiry lc1) = Some pl"
      "sv_leases s' = (sv_next s, pl) # sv_leases s" "sv_pending s' = sv_pending s" "sv_subnets s' = sv_subnets s"
    using create_ready [OF assms(1) r o] by metis
  have pl: "ni_nlforprop pl NIPROP_IPADDR = Some [inet_ntoa (cf_netlib cf) (hp_iaddr hp)]"
      "ni_nlforprop pl NIPROP_IDENTIFIER = Some [lc_idstr lc]"
    using c(3) by (rule_tac host_properties_ok [OF o(1), of cf "lc_idstr lc" "lc_hwstr lc" "hp_iaddr hp" "lc_expiry lc1"]; simp)+
  have "dhcp_select cf rq ifp lc s our_ip our_ip (Some (hp_iaddr hp)) = Some (V_ack (lc1\<lparr>lc_subnet := Some i\<rparr>) s')"
    using assms(5-7) c(1) l1(1) unfolding dhcp_select_def Let_def assms(6) lc1_def [symmetric] by simp
  then show ?thesis
    by (rule that [OF _ _ _ _ c(4-6) has_address_value [OF assms(2) pl(1)] pl(2)])
      (use c(2) l1 in \<open>simp_all add: ready_def stored_def\<close>)
qed

text \<open>C13. A client that selects an offer still pending for it gets exactly the offered address and
  lease time, and exactly one entry is added to the leases: it has the offered address and the
  client's identifier.\<close>

theorem select_takes_offer:
  assumes "config_ok cf" "netlib_ok (cf_netlib cf)" "stored cf s" "locals_ok lc" "lc_binding lc = dhcp_binding_none_e"
    and "hostbyaddr (sv_pending s) (lc_cid_type lc) (lc_cid lc) None = Some hp"
    and "lookup_subnet s (hp_iaddr hp) True = Some i"
  shows "\<exists>lc' s' pl. dhcp_select cf rq ifp lc s our_ip our_ip (Some (hp_iaddr hp)) = Some (V_ack lc' s') \<and>
     lc_iaddr lc' = hp_iaddr hp \<and> lc_lease lc' = word_of_nat (hp_lease hp) \<and>
     sv_leases s' = (sv_next s, pl) # sv_leases s \<and> (\<forall>a. has_address cf a pl \<longleftrightarrow> a = hp_iaddr hp) \<and>
     ni_nlforprop pl NIPROP_IDENTIFIER = Some [lc_idstr lc]"
  using select_offered [OF assms, of rq ifp our_ip] by metis

definition sample_offer :: "nat \<Rightarrow> u8 \<Rightarrow> hosts" where
  "sample_offer q c = \<lparr>hp_id = q, hp_iaddr = 0x0a000005, hp_htype = 1, hp_hlen = 1, hp_haddr = [c], hp_hostname = None,
     hp_bootfile = None, hp_tv = 1000, hp_lease = 3600\<rparr>"

definition sample_locals :: "u8 \<Rightarrow> locals" where
  "sample_locals c = \<lparr>lc_max_packet = 520, lc_cid_type = 1, lc_cid = [c], lc_idstr = identifierToString 1 [c],
     lc_hwstr = identifierToString 1 [c], lc_hostname_opt = None, lc_suggested_lease = None,
     lc_binding = dhcp_binding_none_e, lc_entry = None, lc_iaddr = 0, lc_lease = 0, lc_expiry = 0,
     lc_subnet = None, lc_orphan = False, lc_modified = False, lc_hostname = None, lc_bootfile = None\<rparr>"

definition sample_offers :: server where
  "sample_offers = sample_server\<lparr>sv_pending := [sample_offer 1 1, sample_offer 2 2]\<rparr>"

lemma sample_locals_ok: "locals_ok (sample_locals c)" "lc_binding (sample_locals c) = dhcp_binding_none_e"
    "lc_cid_type (sample_locals c) = 1" "lc_cid (sample_locals c) = [c]"
  using identifier_text [of "[c]" 1]
  by (simp_all add: locals_ok_def sample_locals_def packet_size_ok_def option_in_packet_def DHCP_PACKET_MIN_def
      DHCP_PACKET_OVERHEAD_def sizeof_txbuf_def)

lemma sample_offers_stored: "stored sample_config sample_offers"
  using sample_stored by (simp add: sample_offers_def stored_def sv_ok_def tidy_def synced_def)

lemma sample_offered:
  "hostbyaddr (sv_pending sample_offers) 1 [1] None = Some (sample_offer 1 1)"
  "hostbyaddr (sv_pending sample_offers) 1 [2] None = Some (sample_offer 2 2)"
  by (simp_all add: sample_offers_def sample_offer_def)

lemma sample_lookup: "lookup_subnet sample_offers 0x0a000005 True = Some 0"
  by (simp add: lookup_subnet_def sample_offers_def sample_server_def SubnetListGetSubnetForAddress_def pool_a_def
      SubnetIsAddressWithinRange_def SubnetIsAddressOnSubnet_def in_subnet_def)

theorem select_takes_offer_witness:
  "\<exists>lc' s' pl. dhcp_select sample_config sample_request sample_intf (sample_locals 1) sample_offers 7 7 (Some 0x0a000005) =
      Some (V_ack lc' s') \<and> sv_leases s' = (0, pl) # []"
  using select_takes_offer [OF sample_config_ok sample_offers_stored sample_locals_ok(1,2), of 1 "sample_offer 1 1" 0
      sample_request sample_intf 7] sample_offered(1) sample_lookup
  by (auto simp: sample_locals_ok(3,4) sample_offer_def) (auto simp: sample_offers_def sample_server_def)

text \<open>Two clients that hold offers of one address both get it: neither acknowledgement looks at the
  leases, and the address ends up in two entries with different identifiers.  The server makes such
  offers itself, since taking back an expired lease does not look at the pending offers.\<close>

theorem two_offers_two_leases:
  assumes "config_ok cf" "netlib_ok (cf_netlib cf)" "stored cf s"
    and "locals_ok lcA" "lc_binding lcA = dhcp_binding_none_e" "locals_ok lcB" "lc_binding lcB = dhcp_binding_none_e"
    and "hostbyaddr (sv_pending s) (lc_cid_type lcA) (lc_cid lcA) None = Some hpA"
    and "hostbyaddr (sv_pending s) (lc_cid_type lcB) (lc_cid lcB) None = Some hpB"
    and "hp_iaddr hpA = ip" "hp_iaddr hpB = ip" "lookup_subnet s ip True = Some i"
  shows "\<exists>lcA' s1 lcB' s2 pA pB. dhcp_select cf rqA ifp lcA s our_ip our_ip (Some ip) = Some (V_ack lcA' s1) \<and>
     dhcp_select cf rqB ifp lcB s1 our_ip our_ip (Some ip) = Some (V_ack lcB' s2) \<and>
     lc_iaddr lcA' = ip \<and> lc_iaddr lcB' = ip \<and> map snd (sv_leases s2) = pB # pA # map snd (sv_leases s) \<and>
     has_address cf ip pA \<and> has_address cf ip pB \<and>
     ni_nlforprop pA NIPROP_IDENTIFIER = Some [lc_idstr lcA] \<and> ni_nlforprop pB NIPROP_IDENTIFIER = Some [lc_idstr lcB]"
proof -
  have iA: "lookup_subnet s (hp_iaddr hpA) True = Some i" using assms(10,12) by simp
  obtain lcA' s1 pA where A: "dhcp_select cf rqA ifp lcA s our_ip our_ip (Some (hp_iaddr hpA)) = Some (V_ack lcA' s1)"
      "stored cf s1" "lc_iaddr lcA' = hp_iaddr hpA" "sv_leases s1 = (sv_next s, pA) # sv_leases s"
      "sv_pending s1 = sv_pending s" "sv_subnets s1 = sv_subnets s" "has_address cf (hp_iaddr hpA) pA"
      "ni_nlforprop pA NIPROP_IDENTIFIER = Some [lc_idstr lcA]"
    using select_offered [OF assms(1-3) assms(4,5) assms(8) iA, of rqA ifp our_ip] by metis
  have pB: "hostbyaddr (sv_pending s1) (lc_cid_type lcB) (lc_cid lcB) None = Some hpB" using A(5) assms(9) by simp
  have iB: "lookup_subnet s1 (hp_iaddr hpB) True = Some i" using A(6) assms(11,12) by (simp add: lookup_subnet_def)
  obtain lcB' s2 pB where B: "dhcp_select cf rqB ifp lcB s1 our_ip our_ip (Some (hp_iaddr hpB)) = Some (V_ack lcB' s2)"
      "lc_iaddr lcB' = hp_iaddr hpB" "sv_leases s2 = (sv_next s1, pB) # sv_leases s1" "has_address cf (hp_iaddr hpB) pB"
      "ni_nlforprop pB NIPROP_IDENTIFIER = Some [lc_idstr lcB]"
    using select_offered [OF assms(1,2) A(2) assms(6,7) pB iB, of rqB ifp our_ip] by metis
  show ?thesis using A B unfolding assms(10,11) by auto
qed

theorem two_offers_two_leases_witness:
  "\<exists>lcA' s1 lcB' s2 pA pB. dhcp_select sample_config sample_request sample_intf (sample_locals 1) sample_offers 7 7 (Some 0x0a000005) =
      Some (V_ack lcA' s1) \<and>
     dhcp_select sample_config sample_request sample_intf (sample_locals 2) s1 7 7 (Some 0x0a000005) = Some (V_ack lcB' s2) \<and>
     map snd (sv_leases s2) = [pB, pA] \<and> has_address sample_config 0x0a000005 pA \<and> has_address sample_config 0x0a000005 pB"
proof -
  have ip: "hp_iaddr (sample_offer q c) = 0x0a000005" for q c by (simp add: sample_offer_def)
  have l: "sv_leases sample_offers = []" by (simp add: sample_offers_def sample_server_def)
  show ?thesis
    using two_offers_two_leases [OF sample_config_ok sample_offers_stored sample_locals_ok(1,2) [of 1] sample_locals_ok(1,2) [of 2]
        _ _ ip ip sample_lookup, unfolded sample_locals_ok, OF sample_offered, of sample_request sample_intf 7 sample_request] l
    by auto
qed

lemma reclaim_ignores_offers:
  "DHCPLeases_reclaim cf (s\<lparr>sv_pending := ps\<rparr>) ifp giaddr now =
     map_option (\<lambda>(r, s'). (r, s'\<lparr>sv_pending := ps\<rparr>)) (DHCPLeases_reclaim cf s ifp giaddr now)"
proof -
  have one: "reclaimable cf (s\<lparr>sv_pending := ps\<rparr>) ifp giaddr now pl = reclaimable cf s ifp giaddr now pl" for pl
    by (simp add: reclaimable_def cong: option.case_cong list.case_cong)
  have scan: "reclaim_scan cf (s\<lparr>sv_pending := ps\<rparr>) ifp giaddr now ls = reclaim_scan cf s ifp giaddr now ls" for ls
    by (induction ls) (auto simp: one)
  show ?thesis
    unfolding DHCPLeases_reclaim_def
    by (auto simp: scan S_remove_host_def S_commit_mods_def split: option.split bind_split)
qed

section \<open>Renewal\<close>

text \<open>A renewal that states a lease time, or any renewal when leases are extended, is given the
  subnet's longest lease: the time the client asks for has no effect.\<close>

theorem renewal_gives_maximum:
  assumes "stored cf s" "bound_ok lc s" "lc_binding lc = dhcp_binding_temporary_e" "subnet_at s (lc_subnet lc) = Some sn"
    and "lc_suggested_lease lc \<noteq> None \<or> cf_extend_leases cf"
  shows "\<exists>lc' s'. extend_lease cf rq lc s = Some (V_ack lc' s') \<and> lc_lease lc' = SubnetGetMaxLease sn \<and>
     lc_iaddr lc' = lc_iaddr lc"
proof -
  have tr: "tracked cf s lc s" using assms(1) by (simp add: tracked_ready ready_def stored_def)
  obtain m s1 where n: "update_name lc s = Some (lc\<lparr>lc_modified := (lc_modified lc \<or> m)\<rparr>, s1)"
    "tracked cf s (lc\<lparr>lc_modified := (lc_modified lc \<or> m)\<rparr>) s1" "bound_ok (lc\<lparr>lc_modified := (lc_modified lc \<or> m)\<rparr>) s1"
    "\<And>j. subnet_at s1 j = subnet_at s j"
    using update_name_ok [OF tr assms(2,3)] by metis
  let ?lc1 = "lc\<lparr>lc_modified := (lc_modified lc \<or> m)\<rparr>" and ?max = "SubnetGetMaxLease sn"
  define t where "t = (if ?max = DHCP_INFINITE_LEASE then DHCP_INFINITE_TIME else uint ?max + rq_time rq)"
  have sn: "subnet_at s1 (lc_subnet ?lc1) = Some sn" using n(4) assms(4) by simp
  have l: "(case lc_suggested_lease ?lc1 of Some p \<Rightarrow> bounded_lease p ?max ?max
      | None \<Rightarrow> Some (if cf_extend_leases cf then ?max else word_of_int (lc_expiry ?lc1 - rq_time rq))) = Some ?max"
  proof (cases "lc_suggested_lease lc")
    case None
    with assms(5) show ?thesis by simp
  next
    case (Some p)
    then have "4 \<le> length p" using assms(2) by (auto simp: bound_ok_def locals_ok_def)
    with Some show ?thesis by (auto simp: bounded_lease_def dest!: net_uint32_get_ok)
  qed
  let ?lc2 = "?lc1\<lparr>lc_lease := ?max, lc_expiry := t\<rparr>"
  have b2: "tracked cf s ?lc2 s1" "bound_ok ?lc2 s1" "lc_binding ?lc2 = dhcp_binding_temporary_e"
    using n(2,3) assms(3) bound_expiry [of "?lc1\<lparr>lc_lease := ?max\<rparr>" s1 t] by simp_all
  obtain m' s2 where u: "update_lease t ?lc2 s1 = Some (?lc2\<lparr>lc_modified := (lc_modified ?lc2 \<or> m')\<rparr>, s2)"
    using update_lease_ok [OF b2, of t] by metis
  have "\<not> (lc_suggested_lease ?lc1 = None \<and> \<not> cf_extend_leases cf \<and> rq_time rq \<ge> lc_expiry ?lc1)" using assms(5) by auto
  then have "extend_lease cf rq lc s = Some (V_ack (?lc2\<lparr>lc_modified := (lc_modified ?lc2 \<or> m')\<rparr>) s2)"
    using assms(3) n(1) sn l u unfolding extend_lease_def Let_def by (simp flip: t_def)
  then show ?thesis by simp
qed

section \<open>Relaying\<close>

text \<open>C17. A relayed request goes to every relay but the interface's own broadcast address, with the hop
  count increased and the gateway address filled in when it was empty; the receive buffer has its
  original contents again afterwards.\<close>

theorem relay_restores_request:
  assumes "intf_ok ifp" "addrs ifp = a # as" "dp_op bp = BOOTREQUEST" "sizeof_bootp \<le> n"
  shows "\<exists>ts. S_relay_packet cf bp n ifp relays s = Some (s\<lparr>sv_sent := sv_sent s @ ts\<rparr>, bp) \<and>
     map tx_dst ts = (if unat (dp_hops bp) < cf_max_hops cf \<and> uint (cf_reply_threshold cf) \<le> uint (swap16 (dp_secs bp))
        then filter (\<lambda>r. r \<noteq> ia_broadcast a) relays else []) \<and>
     (\<forall>t \<in> set ts. tx_pkt t = relayed_copy bp (ia_addr a) \<and> tx_size t = n)"
  using relay_request_ok [OF assms(1,2), of cf bp n relays s] assms(3,4) by (simp add: S_relay_packet_def)

theorem relay_restores_request_witness:
  "\<exists>ts. S_relay_packet sample_config sample_packet 300 sample_intf [0x0a0000ff, 0x0a000009] sample_server =
     Some (sample_server\<lparr>sv_sent := ts\<rparr>, sample_packet) \<and> map tx_dst ts = [0x0a000009]"
proof -
  have p: "dp_op sample_packet = BOOTREQUEST" "sizeof_bootp \<le> 300" "dp_hops sample_packet = 0"
    by (simp_all add: sample_packet_def sample_dhcp_def BOOTREQUEST_def sizeof_bootp_def)
  have c: "cf_max_hops sample_config = 4" "cf_reply_threshold sample_config = 0" "sv_sent sample_server = []"
    by (simp_all add: sample_config_def sample_server_def)
  show ?thesis
    using relay_restores_request [OF sample_intf_ok p(1,2), of sample_config "[0x0a0000ff, 0x0a000009]" sample_server]
    by (auto simp: p c sample_info_def)
qed

text \<open>When a refusal is sent through a relay, the broadcast flag that tells the relay to broadcast
  it is lost: the two byte swaps cancel out and another bit is set.\<close>

theorem broadcast_flag_lost:
  "\<exists>t. sendreply sample_server sample_intf (sample_packet\<lparr>dp_giaddr := 0x0a000002\<rparr>) 300 True None =
       Some (sample_server\<lparr>sv_sent := [t]\<rparr>) \<and> swap16 (dp_flags (tx_pkt t)) AND DHCP_FLAGS_BROADCAST = 0"
proof -
  have src: "if_inet_addr sample_intf = Some 0x0a000001"
    using inet_addr_ok [OF sample_intf_ok(1)] sample_intf_ok(2) by (simp add: sample_info_def)
  have p: "dp_ciaddr sample_packet = 0" "dp_flags sample_packet = 0" "sv_sent sample_server = []"
    by (simp_all add: sample_packet_def sample_dhcp_def sample_server_def)
  show ?thesis using src by (simp add: sendreply_def p swap16_def) (rule exI, rule conjI, rule refl, simp)
qed

section \<open>Renewal of a sample lease\<close>

definition sample_lease :: ni_proplist where
  "sample_lease = [\<lparr>nip_name = ''ip_address'', nip_val = [to_hex 0x0a000005]\<rparr>, \<lparr>nip_name = ''identifier'', nip_val = [''1/1'']\<rparr>,
     \<lparr>nip_name = ''lease'', nip_val = [''0x10'']\<rparr>]"

definition sample_leased :: server where
  "sample_leased = sample_server\<lparr>sv_leases := [(0, sample_lease)], sv_next := 1, sv_file := PLCache_write [sample_lease]\<rparr>"

definition sample_bound :: locals where
  "sample_bound = (sample_locals 1)\<lparr>lc_binding := dhcp_binding_temporary_e, lc_entry := Some 0, lc_iaddr := 0x0a000005,
     lc_subnet := Some 0, lc_suggested_lease := Some [0, 0, 0, 60]\<rparr>"

lemma sample_leased_stored: "stored sample_config sample_leased"
proof -
  have "storable sample_lease"
    using clean_to_hex length_to_hex [of "0x0a000005" 7]
    by (simp add: storable_def storable_prop_def sample_lease_def clean_def is_space_def)
  with sample_stored show ?thesis
    by (auto simp: sample_leased_def stored_def sv_ok_def tidy_def synced_def intro: exI [of _ "[sample_lease]"])
qed

lemma sample_bound_ok: "bound_ok sample_bound sample_leased" "lc_binding sample_bound = dhcp_binding_temporary_e"
    "subnet_at sample_leased (lc_subnet sample_bound) = Some pool_a"
proof -
  have "locals_ok sample_bound" using sample_locals_ok(1) [of 1] by (simp add: sample_bound_def locals_ok_def)
  then show "bound_ok sample_bound sample_leased"
    by (simp add: bound_ok_def sample_bound_def sample_leased_def subnet_at_def sample_server_def rd_def)
  show "lc_binding sample_bound = dhcp_binding_temporary_e" by (simp add: sample_bound_def)
  show "subnet_at sample_leased (lc_subnet sample_bound) = Some pool_a"
    by (simp add: sample_bound_def sample_leased_def subnet_at_def sample_server_def rd_def)
qed

theorem renewal_gives_maximum_witness:
  "\<exists>lc' s'. extend_lease sample_config sample_request sample_bound sample_leased = Some (V_ack lc' s') \<and> lc_lease lc' = 86400"
  using renewal_gives_maximum [OF sample_leased_stored sample_bound_ok, of sample_request]
  by (auto simp: sample_bound_def SubnetGetMaxLease_def pool_a_def)

section \<open>Reclaiming and declining\<close>

lemma match_value_iff:
  "ni_proplist_match pl nm None = (case ni_nlforprop pl nm of None \<Rightarrow> None | Some vs \<Rightarrow> ni_proplist_match pl nm None)"
  by (auto simp: nlforprop_None match_from_None ni_proplist_match_def split: option.split)

text \<open>What the loop removes: its address is the entry's, and its lease, if it has one, is over.\<close>

lemma reclaimable_expired:
  assumes "reclaimable cf s ifp giaddr now pl = Some (Some ip)"
  shows "has_address cf ip pl" "ni_valforprop pl NIPROP_DHCP_LEASE \<noteq> None \<Longrightarrow> S_lease_time_expiry pl < now"
proof -
  obtain k v vs where k: "ni_proplist_match pl NIPROP_IPADDR None = Some k" "vals_at pl k = v # vs"
      "inet_aton (cf_netlib cf) v = Some ip"
    and r: "(case ni_proplist_match pl NIPROP_DHCP_LEASE None of None \<Rightarrow> Some (Some ip)
             | Some lease_index \<Rightarrow>
                 (case vals_at pl lease_index of
                    [] \<Rightarrow> Some None
                  | lease_str # _ \<Rightarrow>
                      let (val, erange) = strtol 0 lease_str in
                      if val = LONG_MAX \<and> erange then Some None
                      else if now > val then Some (Some ip) else Some None)) = Some (Some ip)"
    using assms by (auto simp: reclaimable_def Let_def case_prod_unfold split: option.splits list.splits if_splits bind_splits)
  show "has_address cf ip pl" using k by (simp add: has_address_def lookup_ip_test_def)
  assume "ni_valforprop pl NIPROP_DHCP_LEASE \<noteq> None"
  then obtain l ls where "ni_nlforprop pl NIPROP_DHCP_LEASE = Some (l # ls)"
    by (auto simp: ni_valforprop_def split: option.splits list.splits)
  with match_value [OF this] r show "S_lease_time_expiry pl < now"
    by (auto simp: S_lease_time_expiry_def ni_valforprop_def Let_def case_prod_unfold split: if_splits)
qed

text \<open>C15. An address is only taken back from an entry that has it and whose lease, if it has one, ended
  before now; that entry and no other is removed.\<close>

theorem reclaim_takes_expired:
  assumes "intf_ok ifp" "sv_ok s" "DHCPLeases_reclaim cf s ifp giaddr now = Some (Some ip, s')"
  shows "\<exists>p pl. (p, pl) \<in> set (sv_leases s) \<and> has_address cf ip pl \<and> sv_leases s' = del_entry (sv_leases s) p \<and>
     (ni_valforprop pl NIPROP_DHCP_LEASE = None \<or> S_lease_time_expiry pl < now)"
proof -
  obtain r s1 where r: "DHCPLeases_reclaim cf s ifp giaddr now = Some (r, s1)"
    "\<And>ip. r = Some ip \<Longrightarrow> \<exists>p pl. (p, pl) \<in> set (sv_leases s) \<and>
       reclaimable cf s ifp giaddr now pl = Some (Some ip) \<and> s1 = S_remove_host cf s p"
    using reclaim_ok [OF assms(1,2), of cf giaddr now] by metis
  have "r = Some ip" "s1 = s'" using r(1) assms(3) by simp_all
  then obtain p pl where "(p, pl) \<in> set (sv_leases s)" "reclaimable cf s ifp giaddr now pl = Some (Some ip)" "s' = S_remove_host cf s p"
    using r(2) by blast
  moreover have "sv_leases s' = del_entry (sv_leases s) p" using calculation(3) by (simp add: S_remove_host_def)
  ultimately show ?thesis using reclaimable_expired [of cf s ifp giaddr now pl ip] by metis
qed

theorem reclaim_takes_expired_witness:
  "\<exists>s'. DHCPLeases_reclaim sample_config sample_leased sample_intf 0 1000 = Some (Some 0x0a000005, s') \<and> sv_leases s' = []"
proof -
  have m: "if_inet_match_subnet sample_intf 0x0a000005 = Some (Some 0)"
    using match_subnet_ok [OF sample_intf_ok(1)] sample_intf_ok(2) by (simp add: sample_info_def in_subnet_def)
  have d: "digits_val 16 0 ''10'' = 16" by (simp add: digit_val_def)
  have t: "strtol 0 ''0x10'' = (16, False)"
    by (simp add: strtol_def scan_number_def hex_prefix_def is_digit_def digit_val_def isspace_def Let_def LONG_MAX_def LONG_MIN_def)
  have "reclaimable sample_config sample_leased sample_intf 0 1000 sample_lease = Some (Some 0x0a000005)"
    by (simp add: reclaimable_def ni_proplist_match_def ni_name_match_def sample_lease_def vals_at_def sample_config_def
        hex_netlib_def ip_address_reachable_def m t LONG_MAX_def)
  then have run: "DHCPLeases_reclaim sample_config sample_leased sample_intf 0 1000 =
      Some (Some 0x0a000005, S_remove_host sample_config sample_leased 0)"
    by (simp add: DHCPLeases_reclaim_def sample_leased_def)
  have "sv_ok sample_leased" using sample_leased_stored by (simp add: stored_def)
  from reclaim_takes_expired [OF sample_intf_ok(1) this run] show ?thesis
    using run by (auto simp: sample_leased_def del_entry_def S_remove_host_def)
qed


lemma set_pl_twice [simp]: "set_pl (set_pl ls p a) p b = set_pl ls p b"
  by (simp add: set_pl_def o_def case_prod_unfold)





section \<open>Another server\<close>

text \<open>When a client selects another server and the interface is set to give way to other servers,
  the offer made to the client is dropped and DHCP is off on the interface from then on.\<close>

theorem other_server_disables_dhcp:
  assumes "stored cf s" "bound_ok lc s" "the_if s rq = Some ifp" "server_id \<noteq> our_ip"
    and "detect_other_dhcp_server (cf_which_services cf) ifp"
  shows "\<exists>s' ifp'. dhcp_select cf rq ifp lc s our_ip server_id req_ip = Some (V_none s') \<and> the_if s' rq = Some ifp' \<and>
     if_inet ifp' = if_inet ifp \<and> \<not> dhcp_enabled which ifp'"
proof -
  have r: "ready cf s s" using assms(1) by (simp add: ready_def stored_def)
  define s1 where "s1 = forget_pending lc s"
  have i1: "sv_interfaces s1 = sv_interfaces s" by (simp add: s1_def forget_pending_def split: option.split)
  obtain s2 where s2: "(if lc_binding lc = dhcp_binding_temporary_e then map_option (S_remove_host cf s1) (lc_entry lc)
      else Some s1) = Some s2" "sv_interfaces s2 = sv_interfaces s"
    using assms(2) i1 by (cases "lc_binding lc = dhcp_binding_temporary_e") (auto simp: bound_ok_def S_remove_host_def)
  have run: "selected_other cf rq ifp lc s = Some (put_if s2 rq (disable_dhcp_on_interface ifp))"
    using s2(1) assms(5) by (simp add: selected_other_def Let_def flip: s1_def)
  have i: "rq_if rq < length (sv_interfaces s2)" using assms(3) s2(2) by (auto simp: the_if_def rd_def split: if_splits)
  show ?thesis
    using run assms(4) i disabled_is_disabled [of which ifp]
    by (intro exI [of _ "put_if s2 rq (disable_dhcp_on_interface ifp)"] exI [of _ "disable_dhcp_on_interface ifp"])
      (simp add: dhcp_select_def Let_def the_if_def put_if_def rd_def disable_dhcp_on_interface_def)
qed

theorem other_server_disables_dhcp_witness:
  "\<exists>s' ifp'. dhcp_select (sample_config\<lparr>cf_which_services := SERVICE_DETECT_OTHER_DHCP_SERVER\<rparr>) sample_request sample_intf
     (sample_locals 1) sample_offers 7 8 None = Some (V_none s') \<and> the_if s' sample_request = Some ifp' \<and> \<not> dhcp_enabled SERVICE_DHCP ifp'"
proof -
  let ?cf = "sample_config\<lparr>cf_which_services := SERVICE_DETECT_OTHER_DHCP_SERVER\<rparr>"
  have st: "stored ?cf sample_offers" using sample_offers_stored by (simp add: stored_def synced_def sample_config_def)
  have b: "bound_ok (sample_locals 1) sample_offers"
    using sample_locals_ok(1,2) [of 1] by (simp add: bound_ok_def)
  have i: "the_if sample_offers sample_request = Some sample_intf"
    by (simp add: the_if_def rd_def sample_offers_def sample_server_def sample_request_def)
  have d: "detect_other_dhcp_server (cf_which_services ?cf) sample_intf"
    by (simp add: detect_other_dhcp_server_def)
  show ?thesis
    using other_server_disables_dhcp [OF st b i _ d, of 8 7 None SERVICE_DHCP] by auto
qed

section \<open>BOOTP\<close>

text \<open>C25. A BOOTP request is answered with at most one packet: a 300-byte reply to its sender whose
  vendor area, when the request has one with the magic number, parses to the end; nothing of the
  server's state changes.\<close>

theorem bootp_request_answers:
  assumes "the_if s rq = Some ifp" "intf_ok ifp" "dhcp_layout (rq_pkt rq)" "unat (dp_hlen (rq_pkt rq)) \<le> 16"
    "64 \<le> length (dp_options (rq_pkt rq))"
  shows "\<exists>ts pkt. bootp_request cf rq s = Some (s\<lparr>sv_sent := sv_sent s @ ts\<rparr>, pkt) \<and>
     (ts = [] \<or> (\<exists>t. ts = [t] \<and> bootp_reply (rq_pkt rq) t))"
  using bootp_request_ok [OF assms, of cf] by metis

theorem bootp_request_answers_witness:
  "\<exists>ts pkt. bootp_request sample_config sample_request sample_server = Some (sample_server\<lparr>sv_sent := ts\<rparr>, pkt) \<and> length ts \<le> 1"
proof -
  have i: "the_if sample_server sample_request = Some sample_intf"
    by (simp add: the_if_def rd_def sample_server_def sample_request_def)
  have p: "rq_pkt sample_request = sample_packet" "sv_sent sample_server = []"
    by (simp_all add: sample_request_def sample_server_def)
  show ?thesis
    using bootp_request_answers [OF i sample_intf_ok(1), of sample_config] sample_layout by (auto simp: p)
qed

text \<open>The first offer of the small server: the start of its range.\<close>

lemma sample_free: "S_ipinuse sample_config t sample_server ip = Some (sample_server, False)"
  by (simp add: S_ipinuse_def sample_config_def sample_server_def bootp_getbyip_file_def DHCPLeases_ip_in_use_def to_front_def)

lemma sample_pool_acquire:
  "SubnetAcquireAddress (S_ipinuse sample_config t) sample_server pool_a = Some (Some 0x0a000005, pool_a, sample_server)"
proof -
  have p: "SubnetDoesAllocate pool_a" "sn_nextip pool_a = 0x0a000005" "ir_end (sn_net_range pool_a) = 0x0a000006"
    "pool_a\<lparr>sn_nextip := 0x0a000005\<rparr> = pool_a"
    by (simp_all add: pool_a_def SubnetDoesAllocate_def)
  have "acquire_loop (S_ipinuse sample_config t) sample_server 0x0a000005 0x0a000006 = Some (Some 0x0a000005, sample_server)"
    by (subst acquire_loop.simps) (simp add: sample_free)
  with p show ?thesis by (simp add: SubnetAcquireAddress_def)
qed

lemma sample_choice:
  "\<exists>lc' s'. choose_offer sample_config sample_request sample_intf (sample_locals 1) sample_server = Some (Some lc', s') \<and>
     lc_iaddr lc' = 0x0a000005"
proof -
  have "SubnetListAcquireAddress (S_ipinuse sample_config 1000) sample_server [pool_a] 0x0a000000 =
      Some (Some (0, 0x0a000005), [pool_a], sample_server)"
    using sample_pool_acquire [of 1000]
    by (simp add: SubnetListAcquireAddress_def SubnetListGetSubnetForAddress_def)
      (simp add: pool_a_def SubnetIsAddressOnSubnet_def in_subnet_def)
  moreover have "if_inet_count sample_intf = 1" "if_inet_addr_at sample_intf 0 = Some (Some sample_info)" "sv_subnets sample_server = Some [pool_a]"
     "rq_time sample_request = 1000" "ia_netaddr sample_info = 0x0a000000" "dp_giaddr (rq_pkt sample_request) = 0" "lc_suggested_lease (sample_locals 1) = None"
    by (simp_all add: if_inet_count_def sample_intf_def dynarray_count_def if_inet_addr_at_def dynarray_element_def ptrlist_element_def
       ptrlist_count_def slot_def rd_def
       sample_server_def sample_request_def sample_info_def sample_packet_def sample_dhcp_def sample_locals_def)
  ultimately show ?thesis
    by (simp add: choose_offer_def acquire_or_reclaim_def acquire_ip_def subnets_acquire_def subnet_at_def rd_def)
qed
theorem offer_is_fresh_witness:
  "\<exists>lc' s' i. choose_offer sample_config sample_request sample_intf (sample_locals 1) sample_server = Some (Some lc', s') \<and>
     lc_iaddr lc' = 0x0a000005 \<and> lc_subnet lc' = Some i \<and>
     fresh_address sample_config sample_request sample_intf sample_server s' i 0x0a000005"
  using sample_choice offer_is_fresh [OF sample_intf_ok(1) sample_stored sample_locals_ok(1)] by metis

end
