(* ===== verification/InCksum.thy ===== *)
theory InCksum
  imports Prelude
begin

text \<open>
  The Internet checksum (\<open>bootplib/in_cksum.c\<close>), and its equivalence with the one's complement sum
  of RFC 1071.

  The code reads 16-bit words of a little-endian machine and adds them to a 32-bit signed \<open>sum\<close>;
  a sum out of the range of \<open>int\<close> has no result.  The loops over 32, 8 and 2 bytes are one
  definition with the number of words as a parameter.
\<close>

section \<open>The code\<close>

definition INT_MAX :: int where "INT_MAX = 2 ^ 31 - 1"

definition u_short_at :: "u8 list \<Rightarrow> nat \<Rightarrow> int option" where
  "u_short_at w i = do {
     lo \<leftarrow> rd w (2 * i);
     hi \<leftarrow> rd w (2 * i + 1);
     Some (uint lo + 256 * uint hi) }"

definition add_int :: "int \<Rightarrow> int \<Rightarrow> int option" where
  "add_int a b = (if - INT_MAX - 1 \<le> a + b \<and> a + b \<le> INT_MAX then Some (a + b) else None)"

text \<open>\<open>l_util.l = *sum\<close> puts the two halves of the sum, of 16 bits, into \<open>l_util.s[0]\<close> and \<open>s[1]\<close>.\<close>

definition reduce :: "int \<Rightarrow> int" where
  "reduce acc =
     (let acc' = acc mod 65536 + (acc div 65536) mod 65536
      in if acc' > 65535 then acc' - 65535 else acc')"

definition sum_words :: "nat \<Rightarrow> u8 list \<Rightarrow> int \<Rightarrow> int option" where
  "sum_words n w acc = foldM (\<lambda>s i. Option.bind (u_short_at w i) (add_int s)) acc [0..<n]"

text \<open>\<open>while ((len -= 2 * n) >= 0)\<close>: the result is the pointer, the length and the sum.\<close>

function sum_loop :: "nat \<Rightarrow> u8 list \<Rightarrow> int \<Rightarrow> int \<Rightarrow> (u8 list \<times> int \<times> int) option" where
  "sum_loop n w len acc =
     (if n = 0 \<or> len - 2 * int n < 0 then Some (w, len - 2 * int n, acc)
      else do {
        acc' \<leftarrow> sum_words n w acc;
        sum_loop n (drop (2 * n) w) (len - 2 * int n) acc' })"
  by pat_completeness auto
termination by (relation "measure (\<lambda>(n, w, len, acc). nat len)") auto

declare sum_loop.simps [simp del]

definition in_cksum :: "u8 list \<Rightarrow> int \<Rightarrow> u16 option" where
  "in_cksum pkt len0 = do {
     (w1, len1, sum1) \<leftarrow> sum_loop 16 pkt len0 0;
     (w2, len2, sum2) \<leftarrow> sum_loop 4 w1 (len1 + 32) sum1;
     (w3, len3, sum3) \<leftarrow> (if len2 + 8 \<noteq> 0 then sum_loop 1 w2 (len2 + 8) (reduce sum2)
                           else Some (w2, len2 + 8, sum2));
     sum4 \<leftarrow> (if len3 = -1 then do { c \<leftarrow> rd w3 0; add_int sum3 (uint c) } else Some sum3);
     Some (word_of_int (NOT (reduce sum4) AND 0xffff)) }"

section \<open>The reference\<close>

text \<open>The words of a buffer, the last padded with zero, and their one's complement sum.\<close>

fun words :: "u8 list \<Rightarrow> int list" where
  "words [] = []"
| "words [a] = [uint a]"
| "words (a # b # bs) = (uint a + 256 * uint b) # words bs"

definition ones_add :: "int \<Rightarrow> int \<Rightarrow> int" where
  "ones_add a b = (if a + b > 65535 then a + b - 65535 else a + b)"

definition ones_sum :: "int list \<Rightarrow> int" where
  "ones_sum ws = fold ones_add ws 0"

definition checksum :: "u8 list \<Rightarrow> u16" where
  "checksum bs = word_of_int (65535 - ones_sum (words bs))"

section \<open>Equivalence\<close>

text \<open>The only number with a given residue among the sums: zero is no sum of positive numbers.\<close>

definition ones :: "int \<Rightarrow> int" where
  "ones s = (if s = 0 then 0 else (s - 1) mod 65535 + 1)"

lemma words_range: "w \<in> set (words bs) \<Longrightarrow> 0 \<le> w \<and> w \<le> 65535"
proof (induction bs rule: words.induct)
  case (2 a)
  then show ?case using unsigned_less [of a, where ?'a = int] by simp
next
  case (3 a b bs)
  then show ?case
    using unsigned_less [of a, where ?'a = int] unsigned_less [of b, where ?'a = int] by auto
qed simp

lemma ones_step: "0 \<le> s \<Longrightarrow> 0 \<le> w \<Longrightarrow> w \<le> 65535 \<Longrightarrow> ones_add (ones s) w = ones (s + w)"
proof -
  assume a: "0 \<le> s" "0 \<le> w" "w \<le> 65535"
  show ?thesis
  proof (cases "s = 0 \<or> w = 0")
    case True
    have "(w - 1) mod 65535 = w - 1" if "w \<noteq> 0" using a that by (simp add: mod_pos_pos_trivial)
    moreover have "ones s \<le> 65535" using pos_mod_bound [of 65535 "s - 1"] by (auto simp: ones_def)
    ultimately show ?thesis using True a by (auto simp: ones_add_def ones_def)
  next
    case False
    define r where "r = (s - 1) mod 65535"
    have r: "0 \<le> r" "r < 65535" by (simp_all add: r_def)
    have "(s + w - 1) mod 65535 = (r + w) mod 65535" by (simp add: r_def mod_simps algebra_simps)
    also have "\<dots> = (if r + w < 65535 then r + w else r + w - 65535)"
    proof (cases "r + w < 65535")
      case True
      then show ?thesis using r a by (simp add: mod_pos_pos_trivial)
    next
      case no: False
      have "(r + w) mod 65535 = (r + w - 65535) mod 65535" by simp
      also have "\<dots> = r + w - 65535" using no r a by (intro mod_pos_pos_trivial) (auto simp: pos_imp_zdiv_nonneg_iff)
      finally show ?thesis using no by simp
    qed
    finally show ?thesis using False a r by (auto simp: ones_add_def ones_def simp flip: r_def)
  qed
qed

lemma ones_add_commute: "ones_add a b = ones_add b a"
  by (simp add: ones_add_def)

lemma ones_fold: "\<forall>w \<in> set ws. 0 \<le> w \<and> w \<le> 65535 \<Longrightarrow> 0 \<le> s \<Longrightarrow>
    fold ones_add ws (ones s) = ones (s + sum_list ws)"
proof (induction ws arbitrary: s)
  case (Cons w ws)
  then have "ones_add w (ones s) = ones (s + w)" by (simp add: ones_step ones_add_commute [of w])
  with Cons show ?case by (simp add: add.assoc)
qed simp

lemma ones_sum_words: "ones_sum (words bs) = ones (sum_list (words bs))"
  using ones_fold [of "words bs" 0] words_range [of _ bs] by (auto simp: ones_sum_def ones_def)

lemma reduce_ones: "0 \<le> s \<Longrightarrow> s \<le> INT_MAX \<Longrightarrow> reduce s = ones s"
proof -
  assume s: "0 \<le> s" "s \<le> INT_MAX"
  define l h where "l = s mod 65536" and "h = s div 65536"
  have r: "0 \<le> l" "l < 65536" "0 \<le> h" "h < 65536" using s by (auto simp: l_def h_def INT_MAX_def)
  have e: "s = l + 65536 * h" by (simp add: l_def h_def)
  have "reduce s = (if l + h > 65535 then l + h - 65535 else l + h)"
    using r by (simp add: reduce_def Let_def flip: l_def h_def)
  also have "\<dots> = ones s"
  proof (cases "s = 0")
    case True
    then show ?thesis by (simp add: l_def h_def ones_def)
  next
    case False
    have "h \<le> 32767" using s by (auto simp: h_def INT_MAX_def)
    have "s - 1 = l + h - 1 + 65535 * h" by (simp add: e)
    then have "(s - 1) mod 65535 = (l + h - 1) mod 65535" by (simp only: mod_mult_self2)
    also have "(l + h - 1) mod 65535 = (if l + h > 65535 then l + h - 65536 else l + h - 1)"
    proof (cases "l + h > 65535")
      case True
      have "(l + h - 1) mod 65535 = (l + h - 65536) mod 65535"
        using mod_add_self2 [of "l + h - 65536" 65535] by simp
      also have "\<dots> = l + h - 65536" using True r \<open>h \<le> 32767\<close> by (intro mod_pos_pos_trivial) (auto simp: pos_imp_zdiv_nonneg_iff)
      finally show ?thesis using True by simp
    next
      case no: False
      then show ?thesis using r False e by (simp add: mod_pos_pos_trivial)
    qed
    finally show ?thesis using False by (simp add: ones_def)
  qed
  finally show ?thesis .
qed

lemma ones_range: "0 \<le> s \<Longrightarrow> 0 \<le> ones s \<and> ones s \<le> 65535"
  using pos_mod_bound [of 65535 "s - 1"] by (auto simp: ones_def)

text \<open>The loops, over buffers long enough for them and sums small enough for an \<open>int\<close>.\<close>

lemma words_append: "even (length xs) \<Longrightarrow> words (xs @ ys) = words xs @ words ys"
  by (induction xs rule: words.induct) auto

lemma u_short_word:
  assumes "2 * i + 2 \<le> length w"
  shows "u_short_at w i = Some (uint (w ! (2 * i)) + 256 * uint (w ! (2 * i + 1)))"
    "words (take (2 * Suc i) w) = words (take (2 * i) w) @ [uint (w ! (2 * i)) + 256 * uint (w ! (2 * i + 1))]"
proof -
  show "u_short_at w i = Some (uint (w ! (2 * i)) + 256 * uint (w ! (2 * i + 1)))"
    using assms by (simp add: u_short_at_def mem)
  have "take (2 * Suc i) w = take (2 * i) w @ [w ! (2 * i), w ! (2 * i + 1)]"
    using assms by (simp add: take_Suc_conv_app_nth)
  then show "words (take (2 * Suc i) w) = words (take (2 * i) w) @ [uint (w ! (2 * i)) + 256 * uint (w ! (2 * i + 1))]"
    using assms by (simp add: words_append)
qed

lemma sum_range: "\<forall>w \<in> set ws. 0 \<le> w \<and> w \<le> 65535 \<Longrightarrow> 0 \<le> sum_list ws \<and> sum_list ws \<le> 65535 * int (length ws)"
  by (induction ws) auto

lemma words_sum_range: "0 \<le> sum_list (words bs)" "sum_list (words bs) \<le> 65535 * int (length (words bs))"
  using sum_range [of "words bs"] words_range [of _ bs] by blast+

lemma length_words: "length (words bs) = (length bs + 1) div 2"
  by (induction bs rule: words.induct) auto

lemma sum_words_ok:
  assumes "2 * n \<le> length w" "0 \<le> a" "a + 65535 * int n \<le> INT_MAX"
  shows "sum_words n w a = Some (a + sum_list (words (take (2 * n) w)))"
  using assms
proof (induction n)
  case 0
  then show ?case by (simp add: sum_words_def)
next
  case (Suc n)
  define v where "v = uint (w ! (2 * n)) + 256 * uint (w ! (2 * n + 1))"
  have u: "u_short_at w n = Some v" "words (take (2 * Suc n) w) = words (take (2 * n) w) @ [v]"
    using u_short_word [of n w] Suc.prems(1) by (simp_all add: v_def)
  have v: "0 \<le> v" "v \<le> 65535" using words_range [of v "take (2 * Suc n) w"] unfolding u(2) by simp_all
  have "sum_list (words (take (2 * n) w)) \<le> 65535 * int n"
    using words_sum_range(2) [of "take (2 * n) w"] Suc.prems(1) by (simp add: length_words)
  then have "add_int (a + sum_list (words (take (2 * n) w))) v = Some (a + sum_list (words (take (2 * n) w)) + v)"
    using v Suc.prems words_sum_range(1) [of "take (2 * n) w"] by (auto simp: add_int_def INT_MAX_def)
  moreover have "sum_words n w a = Some (a + sum_list (words (take (2 * n) w)))" using Suc by simp
  ultimately show ?case using u(1) unfolding u(2) by (simp add: sum_words_def foldM_append add.assoc)
qed

lemma sum_loop_ok:
  assumes "0 < n" "0 \<le> len" "len \<le> int (length w)" "0 \<le> a" "a + 65535 * (len div 2) \<le> INT_MAX"
  shows "\<exists>k. k \<le> nat len \<and> even k \<and> sum_loop n w len a = Some (drop k w, len - int k - 2 * int n, a + sum_list (words (take k w))) \<and>
     len - int k < 2 * int n"
  using assms
proof (induction n w len a rule: sum_loop.induct)
  case (1 n w len a)
  show ?case
  proof (cases "len - 2 * int n < 0")
    case True
    then show ?thesis by (intro exI [of _ 0]) (simp add: sum_loop.simps [of n w len a])
  next
    case False
    define s where "s = sum_list (words (take (2 * n) w))"
    have n: "2 * n \<le> length w" "2 * int n \<le> len" "int n \<le> len div 2" using False "1.prems" by auto
    have s: "0 \<le> s" "s \<le> 65535 * int n"
      using words_sum_range [of "take (2 * n) w"] n(1) by (simp_all add: s_def length_words)
    have b: "a + 65535 * int n \<le> INT_MAX" using "1.prems"(5) n(3) by simp
    have r: "sum_words n w a = Some (a + s)" using sum_words_ok [OF n(1) "1.prems"(4) b] by (simp add: s_def)
    have h: "(len - 2 * int n) div 2 = len div 2 - int n" by simp
    have "a + s + 65535 * ((len - 2 * int n) div 2) \<le> INT_MAX" using s(2) "1.prems"(5) by (simp add: h)
    then obtain k where k: "k \<le> nat (len - 2 * int n)" "even k"
        "sum_loop n (drop (2 * n) w) (len - 2 * int n) (a + s) =
           Some (drop k (drop (2 * n) w), len - 2 * int n - int k - 2 * int n, a + s + sum_list (words (take k (drop (2 * n) w))))"
        "len - 2 * int n - int k < 2 * int n"
      using "1.IH" [OF _ r] False "1.prems" n s by fastforce
    have "words (take (2 * n + k) w) = words (take (2 * n) w) @ words (take k (drop (2 * n) w))"
      using n(1) by (simp add: take_add words_append)
    then have "sum_loop n w len a =
        Some (drop (2 * n + k) w, len - int (2 * n + k) - 2 * int n, a + sum_list (words (take (2 * n + k) w)))"
      using False "1.prems"(1) r k(3) by (simp add: sum_loop.simps [of n w len a] s_def add.commute add.assoc)
    then show ?thesis using k n by (intro exI [of _ "2 * n + k"]) auto
  qed
qed

lemma ones_ones: "0 \<le> a \<Longrightarrow> 0 \<le> b \<Longrightarrow> ones (ones a + b) = ones (a + b)"
proof (cases "a = 0")
  case False
  assume "0 \<le> a" "0 \<le> b"
  have "((a - 1) mod 65535 + b) mod 65535 = (a + b - 1) mod 65535" by (simp add: mod_simps algebra_simps)
  moreover have "0 \<le> (a - 1) mod 65535" by simp
  ultimately show ?thesis using False \<open>0 \<le> a\<close> \<open>0 \<le> b\<close> by (auto simp: ones_def)
qed (simp add: ones_def)

lemma complement: "(word_of_int (NOT r AND 0xffff) :: u16) = word_of_int (65535 - r)"
proof -
  have "NOT r AND 0xffff = take_bit 16 (- r - 1)" by (simp add: take_bit_eq_mask mask_eq_exp_minus_1 not_int_def)
  moreover have "(word_of_int (take_bit 16 (- r - 1)) :: u16) = word_of_int (- r - 1)"
    by (simp add: word_of_int_eq_iff del: of_int_diff of_int_minus)
  ultimately have "(word_of_int (NOT r AND 0xffff) :: u16) = word_of_int (- r - 1)" by (simp only:)
  also have "\<dots> = word_of_int (65535 - r)" by (simp add: word_of_int_eq_iff take_bit_eq_mod mod_eq_dvd_iff)
  finally show ?thesis .
qed

text \<open>C36. For up to 65536 bytes inside the buffer the unrolled loops compute the one's complement sum of
  RFC 1071: no access is outside the buffer and the 32-bit sum does not overflow.\<close>

theorem in_cksum_is_checksum:
  assumes "0 \<le> len" "len \<le> 65536" "len \<le> int (length pkt)"
  shows "in_cksum pkt len = Some (checksum (take (nat len) pkt))"
proof -
  define S where "S k = sum_list (words (take k pkt))" for k
  have S: "0 \<le> S k" "S k \<le> 65535 * ((int k + 1) div 2)" for k
  proof -
    show "0 \<le> S k" using words_sum_range(1) by (simp add: S_def)
    have "(min (length pkt) k + 1) div 2 \<le> (k + 1) div 2" by (intro div_le_mono) simp
    then have "int (length (words (take k pkt))) \<le> (int k + 1) div 2" by (simp add: length_words zdiv_int min.commute)
    then show "S k \<le> 65535 * ((int k + 1) div 2)"
      using words_sum_range(2) [of "take k pkt"] by (simp add: S_def)
  qed
  have join: "S (j + k) = S j + sum_list (words (take k (drop j pkt)))" if "even j" "j \<le> length pkt" for j k
    using that by (simp add: S_def take_add words_append)
  have "65535 * (len div 2) \<le> INT_MAX" using assms(2) by (simp add: INT_MAX_def)
  then obtain k1 where k1: "k1 \<le> nat len" "even k1" "len - int k1 < 32"
      "sum_loop 16 pkt len 0 = Some (drop k1 pkt, len - int k1 - 32, S k1)"
    using sum_loop_ok [of 16 len pkt 0] assms(1,3) unfolding S_def by auto
  have l1: "k1 \<le> length pkt" "0 \<le> len - int k1" "len - int k1 \<le> int (length (drop k1 pkt))" using k1(1) assms by auto
  obtain b where b: "k1 = 2 * b" using k1(2) by (elim evenE)
  have "(len - int k1) div 2 = len div 2 - int b" by (simp add: b)
  then have "S k1 + 65535 * ((len - int k1) div 2) \<le> 65535 * (len div 2)" using S(2) [of k1] by (simp add: b)
  then have "S k1 + 65535 * ((len - int k1) div 2) \<le> INT_MAX" using assms(2) by (simp add: INT_MAX_def)
  then obtain k2 where k2: "k2 \<le> nat (len - int k1)" "even k2" "len - int k1 - int k2 < 8"
      "sum_loop 4 (drop k1 pkt) (len - int k1) (S k1) = Some (drop (k1 + k2) pkt, len - int k1 - int k2 - 8, S (k1 + k2))"
    using sum_loop_ok [of 4 "len - int k1" "drop k1 pkt" "S k1"] l1 S(1) [of k1] join [OF k1(2) l1(1)] by (auto simp: add.commute)
  define j where "j = k1 + k2"
  have j: "j \<le> nat len" "even j" "len - int j < 8" "len - int k1 - int k2 = len - int j" using k1 k2 l1 by (auto simp: j_def)
  have lj: "j \<le> length pkt" "0 \<le> len - int j" "len - int j \<le> int (length (drop j pkt))" using j assms by auto
  have Sj: "S j \<le> INT_MAX" using S(2) [of j] j(1) assms(2) by (auto simp: INT_MAX_def)
  have last: "S (nat len) = sum_list (words (take (nat len) pkt))" by (simp add: S_def)
  have fin: "(word_of_int (NOT (reduce a) AND 0xffff) :: u16) = checksum (take (nat len) pkt)"
    if "0 \<le> a" "a \<le> INT_MAX" "ones a = ones (S (nat len))" for a
    using that by (simp add: complement reduce_ones checksum_def ones_sum_words S_def)
  show ?thesis
  proof (cases "len = int j")
    case True
    then have "nat len = j" by simp
    then show ?thesis
      using k1(4) k2(4) True fin [of "S j"] S(1) [of j] Sj unfolding j_def [symmetric] j(4)
      by (simp add: in_cksum_def)
  next
    case False
    have o: "0 \<le> ones (S j)" "ones (S j) \<le> 65535" using ones_range S(1) by auto
    have "ones (S j) + 65535 * ((len - int j) div 2) \<le> INT_MAX" using o j(3) by (simp add: INT_MAX_def)
    then obtain k3 where k3: "k3 \<le> nat (len - int j)" "even k3" "len - int j - int k3 < 2"
        "sum_loop 1 (drop j pkt) (len - int j) (ones (S j)) =
           Some (drop (j + k3) pkt, len - int j - int k3 - 2, ones (S j) + sum_list (words (take k3 (drop j pkt))))"
      using sum_loop_ok [of 1 "len - int j" "drop j pkt" "ones (S j)"] lj o(1) by (auto simp: add.commute)
    define m T where "m = j + k3" and "T = sum_list (words (take k3 (drop j pkt)))"
    have m: "m \<le> nat len" "even m" "len - int m = 0 \<or> len - int m = 1" "S m = S j + T" "len - int j - int k3 = len - int m"
      using k3 j lj join [OF j(2) lj(1), of k3] by (auto simp: m_def T_def)
    have T: "0 \<le> T" "T \<le> 65535 * 4"
      using words_sum_range [of "take k3 (drop j pkt)"] k3(1) j(3) by (auto simp: T_def length_words)
    define c where "c = (if len - int m = 1 then uint (pkt ! m) else 0)"
    have c: "0 \<le> c" "c \<le> 255" using unsigned_less [of "pkt ! m", where ?'a = int] by (auto simp: c_def)
    have tl: "S (nat len) = S m + c"
    proof (cases "len - int m = 1")
      case True
      then have "nat len = m + 1" "take 1 (drop m pkt) = [pkt ! m]" "m \<le> length pkt"
        using assms by (auto simp: take_Suc_conv_app_nth [of 0, simplified] simp flip: hd_drop_conv_nth)
      then show ?thesis using join [OF m(2), of 1] by (simp add: c_def S_def True)
    next
      case F: False
      then have "nat len = m" using m(1,3) by auto
      then show ?thesis using F by (simp add: c_def)
    qed
    have a4: "0 \<le> ones (S j) + T + c" "ones (S j) + T + c \<le> INT_MAX" using o T c by (simp_all add: INT_MAX_def)
    have "ones (ones (S j) + (T + c)) = ones (S j + (T + c))" using S(1) T(1) c(1) by (intro ones_ones) simp_all
    then have e4: "ones (ones (S j) + T + c) = ones (S (nat len))" by (simp add: tl m(4) add.assoc)
    have run4: "(if len - int m - 2 = -1 then do { c \<leftarrow> rd (drop m pkt) 0; add_int (ones (S j) + T) (uint c) }
        else Some (ones (S j) + T)) = Some (ones (S j) + T + c)"
    proof (cases "len - int m = 1")
      case True
      then have "rd (drop m pkt) 0 = Some (pkt ! m)" using assms by (simp add: rd_def)
      then show ?thesis using True a4 by (simp add: c_def add_int_def INT_MAX_def)
    qed (simp add: c_def)
    have n: "len - int k1 - int k2 - 8 + 8 \<noteq> 0" using False j(4) by simp
    show ?thesis
      using k1(4) k2(4) k3(4) n run4 fin [OF a4 e4] S(1) [of j] Sj
      unfolding j_def [symmetric] j(4) m(5) T_def [symmetric] m_def [symmetric]
      by (simp add: in_cksum_def reduce_ones)
  qed
qed

theorem in_cksum_is_checksum_witness:
  "in_cksum [0x45, 0, 0xff, 0xff, 1] 5 = Some (checksum [0x45, 0, 0xff, 0xff, 1])"
  using in_cksum_is_checksum [of 5 "[0x45, 0, 0xff, 0xff, 1]"] by simp

section \<open>Checking a received checksum\<close>

lemma checksum_bytes: "uint (ucast (v :: u16) :: u8) + 256 * uint (ucast (drop_bit 8 v) :: u8) = uint v"
proof -
  have "uint v div 256 mod 256 = uint v div 256"
    using unsigned_less [of v, where ?'a = int] by (intro mod_pos_pos_trivial) (auto simp: pos_imp_zdiv_nonneg_iff)
  then have "uint v mod 256 + 256 * (uint v div 256 mod 256) = uint v" by simp
  then show ?thesis by (simp add: unsigned_ucast_eq uint_div_distrib drop_bit_eq_div take_bit_eq_mod unsigned_drop_bit_eq)
qed

text \<open>A packet whose checksum field, zero while the checksum was computed, is filled with the result in
  the machine's byte order has the checksum zero, which is what the receiver looks for.\<close>

theorem in_cksum_verifies:
  assumes "even (length xs)" "length xs + 2 + length ys \<le> 65536"
    and "in_cksum (xs @ [0, 0] @ ys) (int (length xs + 2 + length ys)) = Some c"
  shows "in_cksum (xs @ [ucast c, ucast (drop_bit 8 c)] @ ys) (int (length xs + 2 + length ys)) = Some 0"
proof -
  define S where "S = sum_list (words xs) + sum_list (words ys)"
  have S: "0 \<le> S" using words_sum_range(1) by (simp add: S_def)
  have w: "sum_list (words (xs @ [a, b] @ ys)) = S + (uint a + 256 * uint b)" for a b
    using assms(1) by (simp add: words_append S_def)
  have c: "c = word_of_int (65535 - ones S)"
    using assms in_cksum_is_checksum [of "int (length xs + 2 + length ys)" "xs @ [0, 0] @ ys"] w [of 0 0]
    by (simp add: checksum_def ones_sum_words)
  have r: "0 \<le> 65535 - ones S" "65535 - ones S < 2 ^ 16" using ones_range [OF S] by auto
  have "uint c = 65535 - ones S" unfolding c using r
    by (simp add: uint_word_of_int mod_pos_pos_trivial del: of_int_diff)
  then have "ones (S + uint c) = ones (S + (65535 - ones S))" by simp
  also have "\<dots> = 65535"
  proof (cases "S = 0")
    case False
    have "S + (65535 - ones S) - 1 = 65534 + (S - 1 - (S - 1) mod 65535)" using False by (simp add: ones_def)
    also have "S - 1 - (S - 1) mod 65535 = 65535 * ((S - 1) div 65535)" by (simp add: minus_mod_eq_mult_div)
    finally have "(S + (65535 - ones S) - 1) mod 65535 = 65534" by simp
    moreover have "S + (65535 - ones S) \<noteq> 0" using S r(1) False by linarith
    ultimately show ?thesis by (simp add: ones_def)
  qed (simp add: ones_def)
  finally have "ones (sum_list (words (xs @ [ucast c, ucast (drop_bit 8 c)] @ ys))) = 65535"
    by (simp only: w checksum_bytes)
  then show ?thesis
    using assms(2) in_cksum_is_checksum [of "int (length xs + 2 + length ys)" "xs @ [ucast c, ucast (drop_bit 8 c)] @ ys"]
    by (simp add: checksum_def ones_sum_words)
qed

theorem in_cksum_verifies_witness:
  "in_cksum [0x45, 0, 0, 0, 7] 5 = Some (word_of_int 65459) \<and>
   in_cksum ([0x45, 0] @ [ucast (word_of_int 65459 :: u16), ucast (drop_bit 8 (word_of_int 65459 :: u16))] @ [7]) 5 = Some 0"
proof -
  have "in_cksum ([0x45, 0] @ [0, 0] @ [7]) 5 = Some (word_of_int 65459)"
    using in_cksum_is_checksum [of 5 "[0x45, 0] @ [0, 0] @ [7]"] by (simp add: checksum_def ones_sum_def ones_add_def)
  then show ?thesis using in_cksum_verifies [of "[0x45, 0]" "[7]" "word_of_int 65459"] by simp
qed

end
