(* ===== verification/ByteBuffer.thy ===== *)
theory ByteBuffer
  imports Prelude
begin

text \<open>
  Buffers to which bytes are appended: \<open>DNSBuf\<close> of \<open>bootplib/DNSNameList.c\<close> and
  \<open>IPv4ClasslessRouteListBuf\<close> of \<open>bootplib/IPv4ClasslessRoute.c\<close>, which differ in the size of the
  array they start with.  A buffer supplied by the user does not grow; any other is moved to a larger
  block when it is full.

  Memory that \<open>malloc\<close> returns has unknown contents: the function \<open>junk\<close> gives its bytes.
  Allocation does not fail.
\<close>

section \<open>The code\<close>

text \<open>
  \<open>bb_buf\<close> is the block that the field points at, which without a user's buffer is an array of
  \<open>initial\<close> bytes in the structure itself.
\<close>

record byte_buf =
  bb_user_supplied :: bool
  bb_buf :: "u8 list"
  bb_used :: int
  bb_size :: int

definition buf_init :: "int \<Rightarrow> (u8 list \<times> int) option \<Rightarrow> byte_buf" where
  "buf_init initial buf =
     (case buf of
        Some (b, buf_size) \<Rightarrow>
          \<lparr>bb_user_supplied = True, bb_buf = b, bb_used = 0, bb_size = buf_size\<rparr>
      | None \<Rightarrow>
          \<lparr>bb_user_supplied = False, bb_buf = replicate (nat initial) 0,
             bb_used = 0, bb_size = initial\<rparr>)"

definition grow_by :: "int \<Rightarrow> (nat \<Rightarrow> u8) \<Rightarrow> byte_buf \<Rightarrow> int \<Rightarrow> byte_buf option" where
  "grow_by initial junk rb data_len =
     (let n = bb_size rb + (if data_len > initial then data_len else initial)
      in do {
        old \<leftarrow> rdn (bb_buf rb) 0 (nat (bb_used rb));
        new \<leftarrow> wrn (map junk [0..<nat n]) 0 old;
        Some (rb\<lparr>bb_buf := new, bb_size := n\<rparr>) })"

definition buf_add_data :: "int \<Rightarrow> (nat \<Rightarrow> u8) \<Rightarrow> byte_buf \<Rightarrow> u8 list \<Rightarrow> int \<Rightarrow> (bool \<times> byte_buf) option" where
  "buf_add_data initial junk rb data data_len =
     (if data_len > bb_size rb - bb_used rb \<and> bb_user_supplied rb then Some (False, rb)
      else do {
        rb1 \<leftarrow> (if data_len > bb_size rb - bb_used rb then grow_by initial junk rb data_len else Some rb);
        bs \<leftarrow> rdn data 0 (nat data_len);
        b \<leftarrow> wrn (bb_buf rb1) (nat (bb_used rb1)) bs;
        Some (True, rb1\<lparr>bb_buf := b, bb_used := bb_used rb1 + data_len\<rparr>) })"

section \<open>What a buffer holds\<close>

definition bb_holds :: "byte_buf \<Rightarrow> u8 list \<Rightarrow> bool" where
  "bb_holds rb bs \<longleftrightarrow> int (length (bb_buf rb)) = bb_size rb \<and> bb_used rb = int (length bs) \<and>
     take (length bs) (bb_buf rb) = bs"

lemma bb_holds_le: "bb_holds rb bs \<Longrightarrow> length bs \<le> length (bb_buf rb)"
  by (metis length_take min.cobounded1 bb_holds_def)

lemma grow_by_ok:
  assumes "bb_holds rb bs" "0 \<le> n" "0 \<le> initial"
  obtains rb' where "grow_by initial junk rb n = Some rb'" "bb_holds rb' bs" "bb_user_supplied rb' = bb_user_supplied rb"
    "n \<le> bb_size rb' - bb_used rb'"
proof -
  have le: "length bs \<le> length (bb_buf rb)" using assms(1) by (rule bb_holds_le)
  let ?n = "bb_size rb + (if n > initial then n else initial)"
  have "int (length bs) + n \<le> ?n" using le assms by (auto simp: bb_holds_def)
  moreover from this have "length bs \<le> nat ?n" using assms(2) by linarith
  ultimately show ?thesis
    using assms le
    by (intro that [of "rb\<lparr>bb_buf := bs @ drop (length bs) (map junk [0..<nat ?n]), bb_size := ?n\<rparr>"])
      (auto simp: grow_by_def bb_holds_def Let_def rdn_def wrn_def)
qed

lemma add_data_ok:
  assumes "0 \<le> initial" "bb_holds rb bs" "n \<le> length data"
  obtains (full) "buf_add_data initial junk rb data (int n) = Some (False, rb)" "bb_user_supplied rb" "length (bb_buf rb) < length bs + n"
  | (added) rb' where "buf_add_data initial junk rb data (int n) = Some (True, rb')" "bb_holds rb' (bs @ take n data)"
      "bb_user_supplied rb' = bb_user_supplied rb" "bb_user_supplied rb \<Longrightarrow> length (bb_buf rb') = length (bb_buf rb)"
proof (cases "int n > bb_size rb - bb_used rb \<and> bb_user_supplied rb")
  case True
  then show ?thesis using assms(2) by (intro full) (auto simp: buf_add_data_def bb_holds_def)
next
  case False
  obtain rb1 where rb1: "(if int n > bb_size rb - bb_used rb then grow_by initial junk rb (int n) else Some rb) = Some rb1"
      "bb_holds rb1 bs" "bb_user_supplied rb1 = bb_user_supplied rb" "int n \<le> bb_size rb1 - bb_used rb1"
      "bb_user_supplied rb \<Longrightarrow> rb1 = rb"
  proof (cases "int n > bb_size rb - bb_used rb")
    case True
    obtain rb' where "grow_by initial junk rb (int n) = Some rb'" "bb_holds rb' bs" "bb_user_supplied rb' = bb_user_supplied rb"
        "int n \<le> bb_size rb' - bb_used rb'"
      using grow_by_ok [OF assms(2) _ assms(1), of "int n" junk] by auto
    then show ?thesis using True False by (intro that [of rb']) auto
  next
    case f: False
    then show ?thesis using assms(2) by (intro that [of rb]) auto
  qed
  have "length bs + n \<le> length (bb_buf rb1)" using rb1(2,4) by (auto simp: bb_holds_def)
  then show ?thesis
    using False rb1 assms(3)
    by (intro added [of "rb1\<lparr>bb_buf := take (length bs) (bb_buf rb1) @ take n data @ drop (length bs + n) (bb_buf rb1),
        bb_used := bb_used rb1 + int n\<rparr>"])
      (auto simp: buf_add_data_def bb_holds_def rdn_def wrn_def)
qed

section \<open>The interface\<close>

text \<open>
  What a client relies on: \<open>holds\<close> are the bytes added so far, \<open>room\<close> is how many fit at most, for \<open>None\<close>
  any number.  Data is added as a whole or not at all.
\<close>

definition fits :: "nat option \<Rightarrow> nat \<Rightarrow> bool" where
  "fits r n = (case r of None \<Rightarrow> True | Some c \<Rightarrow> n \<le> c)"

lemma fits_mono: "fits r m \<Longrightarrow> n \<le> m \<Longrightarrow> fits r n"
  by (auto simp: fits_def split: option.splits)

text \<open>Adding one piece after another, up to the first that does not fit.\<close>

fun add_pieces :: "('b \<Rightarrow> u8 list \<Rightarrow> int \<Rightarrow> (bool \<times> 'b) option) \<Rightarrow> 'b \<Rightarrow> (u8 list \<times> nat) list \<Rightarrow> (bool \<times> 'b) option" where
  "add_pieces add b [] = Some (True, b)"
| "add_pieces add b ((data, n) # ps) = do {
     (ok, b') \<leftarrow> add b data (int n);
     if ok then add_pieces add b' ps else Some (False, b') }"

locale append_buffer =
  fixes add :: "'b \<Rightarrow> u8 list \<Rightarrow> int \<Rightarrow> (bool \<times> 'b) option"
    and holds :: "'b \<Rightarrow> u8 list \<Rightarrow> bool"
    and room :: "'b \<Rightarrow> nat option"
  assumes holds_fits: "holds b bs \<Longrightarrow> fits (room b) (length bs)"
    and add_fits: "holds b bs \<Longrightarrow> n \<le> length data \<Longrightarrow> fits (room b) (length bs + n) \<Longrightarrow>
      \<exists>b'. add b data (int n) = Some (True, b') \<and> holds b' (bs @ take n data) \<and> room b' = room b"
    and add_full: "holds b bs \<Longrightarrow> n \<le> length data \<Longrightarrow> \<not> fits (room b) (length bs + n) \<Longrightarrow>
      add b data (int n) = Some (False, b)"
begin

lemma add_pieces_fits:
  assumes "holds b bs" "\<forall>(data, n) \<in> set ps. n \<le> length data"
    and "fits (room b) (length bs + sum_list (map snd ps))"
  shows "\<exists>b'. add_pieces add b ps = Some (True, b') \<and> holds b' (bs @ concat (map (\<lambda>(data, n). take n data) ps)) \<and> room b' = room b"
  using assms
proof (induction ps arbitrary: b bs)
  case (Cons p ps)
  obtain data n where p: "p = (data, n)" by (cases p)
  have n: "n \<le> length data" "fits (room b) (length bs + n)" using Cons.prems p by (auto elim: fits_mono)
  obtain b' where b': "add b data (int n) = Some (True, b')" "holds b' (bs @ take n data)" "room b' = room b"
    using add_fits [OF Cons.prems(1) n] by blast
  with Cons.IH [OF b'(2)] Cons.prems p n(1) show ?case by (simp add: add.assoc)
qed simp

lemma add_pieces_full:
  assumes "holds b bs" "\<forall>(data, n) \<in> set ps. n \<le> length data"
    and "\<not> fits (room b) (length bs + sum_list (map snd ps))"
  shows "\<exists>b'. add_pieces add b ps = Some (False, b') \<and> (\<exists>cs. holds b' (bs @ cs)) \<and> room b' = room b"
  using assms
proof (induction ps arbitrary: b bs)
  case Nil
  then show ?case using holds_fits by auto
next
  case (Cons p ps)
  obtain data n where p: "p = (data, n)" by (cases p)
  have n: "n \<le> length data" using Cons.prems p by auto
  show ?case
  proof (cases "fits (room b) (length bs + n)")
    case True
    then obtain b' where b': "add b data (int n) = Some (True, b')" "holds b' (bs @ take n data)" "room b' = room b"
      using add_fits [OF Cons.prems(1) n] by blast
    with Cons.IH [OF b'(2)] Cons.prems p n show ?thesis by (auto simp: add.assoc)
  next
    case False
    then have "add b data (int n) = Some (False, b)" using add_full [OF Cons.prems(1) n] by blast
    then show ?thesis using Cons.prems(1) p by (auto intro!: exI [of _ "[]"])
  qed
qed

end

definition bb_room :: "byte_buf \<Rightarrow> nat option" where
  "bb_room rb = (if bb_user_supplied rb then Some (length (bb_buf rb)) else None)"

text \<open>The size of the first array is a number of bytes; 64 and 128 are those of the code.\<close>

lemma add_data_fits:
  assumes "0 \<le> initial" "bb_holds rb bs" "n \<le> length data" "fits (bb_room rb) (length bs + n)"
  shows "\<exists>rb'. buf_add_data initial junk rb data (int n) = Some (True, rb') \<and> bb_holds rb' (bs @ take n data) \<and> bb_room rb' = bb_room rb"
proof (cases rule: add_data_ok [OF assms(1-3), of junk])
  case 1
  then show ?thesis using assms(4) by (simp add: fits_def bb_room_def)
next
  case (2 rb')
  then show ?thesis by (auto simp: bb_room_def)
qed

lemma add_data_full:
  assumes "0 \<le> initial" "bb_holds rb bs" "n \<le> length data" "\<not> fits (bb_room rb) (length bs + n)"
  shows "buf_add_data initial junk rb data (int n) = Some (False, rb)"
proof (cases rule: add_data_ok [OF assms(1-3), of junk])
  case (2 rb')
  then show ?thesis using assms(4) bb_holds_le [of rb' "bs @ take n data"] assms(3)
    by (auto simp: fits_def bb_room_def split: if_splits)
qed

lemma bb_holds_fits: "bb_holds rb bs \<Longrightarrow> fits (bb_room rb) (length bs)"
  using bb_holds_le [of rb bs] by (simp add: bb_room_def fits_def)

interpretation bb64: append_buffer "buf_add_data 64 junk" bb_holds bb_room for junk
  by unfold_locales (use add_data_fits [of 64] add_data_full [of 64] bb_holds_fits in auto)

interpretation bb128: append_buffer "buf_add_data 128 junk" bb_holds bb_room for junk
  by unfold_locales (use add_data_fits [of 128] add_data_full [of 128] bb_holds_fits in auto)

lemma buf_init_holds:
  "0 \<le> initial \<Longrightarrow> bb_holds (buf_init initial None) [] \<and> bb_room (buf_init initial None) = None"
  "bb_holds (buf_init initial (Some (b, int (length b)))) [] \<and> bb_room (buf_init initial (Some (b, int (length b)))) = Some (length b)"
  by (simp_all add: buf_init_def bb_holds_def bb_room_def)

end
