(* ===== verification/IPv4ClasslessRoute.thy ===== *)
theory IPv4ClasslessRoute
  imports CLib ByteBuffer
begin

text \<open>
  Classless static routes of DHCP (\<open>bootplib/IPv4ClasslessRoute.c\<close>): the buffer they are written
  into, writing, parsing, and reading them from the strings of the configuration.

  Memory that \<open>malloc\<close> returns has unknown contents: the function \<open>junk\<close> gives its bytes.  Messages
  to the log are not modelled.
\<close>

section \<open>The buffer\<close>

record ipv4_route =
  rt_dest :: in_addr
  rt_prefix_length :: int
  rt_gate :: in_addr

definition N_BITS_PER_BYTE :: nat where "N_BITS_PER_BYTE = 8"

abbreviation "ROUTELIST_BUF_INITIAL_SIZE \<equiv> 64"

definition BufInit :: "(u8 list \<times> int) option \<Rightarrow> byte_buf" where
  "BufInit buf = buf_init ROUTELIST_BUF_INITIAL_SIZE buf"

definition BufAddData :: "(nat \<Rightarrow> u8) \<Rightarrow> byte_buf \<Rightarrow> u8 list \<Rightarrow> int \<Rightarrow> (bool \<times> byte_buf) option" where
  "BufAddData junk rb data data_len = buf_add_data ROUTELIST_BUF_INITIAL_SIZE junk rb data data_len"

definition prefix_bytes :: "u8 \<Rightarrow> nat" where
  "prefix_bytes prefix_length = (unat prefix_length + (N_BITS_PER_BYTE - 1)) div N_BITS_PER_BYTE"

text \<open>\<open>prefix_length\<close> is a \<open>uint8_t\<close>: the assignment keeps the low 8 bits of the element's \<open>int\<close>.\<close>

definition BufAddRoute :: "(nat \<Rightarrow> u8) \<Rightarrow> byte_buf \<Rightarrow> ipv4_route \<Rightarrow> (bool \<times> byte_buf) option" where
  "BufAddRoute junk rb element =
     (let prefix_length = (word_of_int (rt_prefix_length element) :: u8) in
      if prefix_length > 32 then Some (False, rb)
      else do {
        (added, rb1) \<leftarrow> BufAddData junk rb [prefix_length] 1;
        if \<not> added then Some (False, rb1)
        else do {
          (added1, rb2) \<leftarrow> (if prefix_length > 0
             then BufAddData junk rb1 (net_uint32_bytes (rt_dest element)) (int (prefix_bytes prefix_length))
             else Some (True, rb1));
          if \<not> added1 then Some (False, rb2)
          else BufAddData junk rb2 (net_uint32_bytes (rt_gate element)) 4 } })"

fun add_routes :: "(nat \<Rightarrow> u8) \<Rightarrow> byte_buf \<Rightarrow> ipv4_route list \<Rightarrow> (bool \<times> byte_buf) option" where
  "add_routes junk rb [] = Some (True, rb)"
| "add_routes junk rb (r # rs) = do {
     (added, rb') \<leftarrow> BufAddRoute junk rb r;
     if added then add_routes junk rb' rs else Some (False, rb') }"

text \<open>
  The result is the pointer that is returned and \<open>*buffer_size\<close>: without a user's buffer the pointer
  is a new block of just the bytes used.
\<close>

definition RouteListBufferCreate ::
  "(nat \<Rightarrow> u8) \<Rightarrow> ipv4_route list option \<Rightarrow> u8 list option \<Rightarrow> int \<Rightarrow> (u8 list option \<times> int) option" where
  "RouteListBufferCreate junk lst buffer buffer_size =
     (case lst of
        None \<Rightarrow> Some (buffer, 0)
      | Some [] \<Rightarrow> Some (buffer, 0)
      | Some rs \<Rightarrow>
          if buffer \<noteq> None \<and> buffer_size = 0 then Some (buffer, 0)
          else do {
            (added, rb) \<leftarrow> add_routes junk (BufInit (map_option (\<lambda>b. (b, buffer_size)) buffer)) rs;
            if \<not> added then Some (None, 0)
            else if buffer = None then do {
              bs \<leftarrow> rdn (bb_buf rb) 0 (nat (bb_used rb));
              Some (Some bs, bb_used rb) }
            else Some (Some (bb_buf rb), bb_used rb) })"

section \<open>Parsing\<close>

text \<open>
  The loop of \<open>IPv4ClasslessRouteListParse\<close>.  \<open>room\<close> is \<open>list_count\<close> when there is a list to fill;
  its elements are written in order, so it is the list of those written so far.
\<close>

function parse_routes :: "u8 list \<Rightarrow> int \<Rightarrow> int option \<Rightarrow> ipv4_route list \<Rightarrow> int \<Rightarrow> (int \<times> ipv4_route list) option" where
  "parse_routes scan left room filled count =
     (if left \<le> 0 then Some (count, filled)
      else do {
        prefix_length \<leftarrow> rd scan 0;
        if prefix_length > 32 then Some (0, filled)
        else
          let len = prefix_bytes prefix_length;
              needed = 1 + int len + 4 in
          if left < needed then Some (0, filled)
          else
            (case room of
               None \<Rightarrow> parse_routes (drop (nat needed) scan) (left - needed) room filled (count + 1)
             | Some list_count \<Rightarrow>
                 if count \<ge> list_count then Some (0, filled)
                 else do {
                   d \<leftarrow> rdn scan 1 len;
                   dest \<leftarrow> wrn [0, 0, 0, 0] 0 d;
                   gate \<leftarrow> rdn scan (1 + len) 4;
                   dest' \<leftarrow> net_uint32_get dest;
                   gate' \<leftarrow> net_uint32_get gate;
                   parse_routes (drop (nat needed) scan) (left - needed) room
                     (filled @ [\<lparr>rt_dest = dest', rt_prefix_length = uint prefix_length, rt_gate = gate'\<rparr>]) (count + 1) }) })"
  by pat_completeness auto
termination by (relation "measure (\<lambda>(scan, left, room, filled, count). nat left)") (auto simp: prefix_bytes_def)

declare parse_routes.simps [simp del]

definition RouteListParse :: "u8 list \<Rightarrow> int \<Rightarrow> int option \<Rightarrow> (int \<times> ipv4_route list) option" where
  "RouteListParse buffer buffer_size room = parse_routes buffer buffer_size room [] 0"

definition RouteListCreate :: "u8 list option \<Rightarrow> int \<Rightarrow> (ipv4_route list option \<times> int) option" where
  "RouteListCreate buffer buffer_size =
     (case buffer of
        None \<Rightarrow> Some (None, 0)
      | Some b \<Rightarrow>
          if buffer_size = 0 then Some (None, 0)
          else do {
            (count, _) \<leftarrow> RouteListParse b buffer_size None;
            if count \<noteq> 0 then do {
              (count', rs) \<leftarrow> RouteListParse b buffer_size (Some count);
              Some (if count' \<noteq> count then (None, 0) else (Some rs, count)) }
            else Some (None, 0) })"

section \<open>Writing\<close>

text \<open>The bytes of a route (RFC 3442), and the routes that have such bytes.\<close>

definition route_prefix :: "ipv4_route \<Rightarrow> u8" where
  "route_prefix r = word_of_int (rt_prefix_length r)"

definition route_bytes :: "ipv4_route \<Rightarrow> u8 list" where
  "route_bytes r = route_prefix r # take (prefix_bytes (route_prefix r)) (net_uint32_bytes (rt_dest r)) @ net_uint32_bytes (rt_gate r)"

definition routes_bytes :: "ipv4_route list \<Rightarrow> u8 list" where
  "routes_bytes rs = concat (map route_bytes rs)"

lemma prefix_bytes_le: "\<not> p > 32 \<Longrightarrow> prefix_bytes p \<le> 4"
  by (simp add: prefix_bytes_def N_BITS_PER_BYTE_def word_less_nat_alt)

text \<open>Adding a route adds its pieces, so the contract of the buffer says what happens.\<close>

definition route_pieces :: "ipv4_route \<Rightarrow> (u8 list \<times> nat) list" where
  "route_pieces r = ([route_prefix r], 1) #
     (if route_prefix r > 0 then [(net_uint32_bytes (rt_dest r), prefix_bytes (route_prefix r))] else []) @
     [(net_uint32_bytes (rt_gate r), 4)]"

lemma add_route_pieces: "BufAddRoute junk rb r =
    (if route_prefix r > 32 then Some (False, rb) else add_pieces (buf_add_data 64 junk) rb (route_pieces r))"
  by (auto simp: BufAddRoute_def BufAddData_def route_pieces_def Let_def simp flip: route_prefix_def split: bind_split)

lemma route_pieces_bytes:
  assumes "\<not> route_prefix r > 32"
  shows "concat (map (\<lambda>(data, n). take n data) (route_pieces r)) = route_bytes r"
    "sum_list (map snd (route_pieces r)) = length (route_bytes r)" "\<forall>(data, n) \<in> set (route_pieces r). n \<le> length data"
proof -
  have "prefix_bytes (route_prefix r) = 0" if "\<not> route_prefix r > 0"
    using that by (simp add: prefix_bytes_def N_BITS_PER_BYTE_def word_gt_0)
  then show "concat (map (\<lambda>(data, n). take n data) (route_pieces r)) = route_bytes r"
    "sum_list (map snd (route_pieces r)) = length (route_bytes r)" "\<forall>(data, n) \<in> set (route_pieces r). n \<le> length data"
    using prefix_bytes_le [OF assms] by (auto simp: route_pieces_def route_bytes_def)
qed

lemma add_route_ok:
  assumes "bb_holds rb bs"
  obtains (bad) "BufAddRoute junk rb r = Some (False, rb)" "route_prefix r > 32"
  | (full) rb' where "BufAddRoute junk rb r = Some (False, rb')" "\<not> fits (bb_room rb) (length bs + length (route_bytes r))"
      "\<not> route_prefix r > 32"
  | (all) rb' where "BufAddRoute junk rb r = Some (True, rb')" "bb_holds rb' (bs @ route_bytes r)" "bb_room rb' = bb_room rb"
      "fits (bb_room rb) (length bs + length (route_bytes r))" "\<not> route_prefix r > 32"
proof (cases "route_prefix r > 32")
  case False
  note p = route_pieces_bytes [OF False]
  show ?thesis
  proof (cases "fits (bb_room rb) (length bs + length (route_bytes r))")
    case True
    then show ?thesis
      using bb64.add_pieces_fits [OF assms p(3), of junk] p(1,2) False that(3) by (auto simp: add_route_pieces)
  next
    case no: False
    then show ?thesis
      using bb64.add_pieces_full [OF assms p(3), of junk] p(2) False that(2) by (auto simp: add_route_pieces)
  qed
qed (auto simp: add_route_pieces)

text \<open>The routes are written exactly when every prefix is at most 32 and a user's buffer has room.\<close>

definition writable :: "byte_buf \<Rightarrow> nat \<Rightarrow> ipv4_route list \<Rightarrow> bool" where
  "writable rb n rs \<longleftrightarrow> (\<forall>r \<in> set rs. \<not> route_prefix r > 32) \<and> fits (bb_room rb) (n + length (routes_bytes rs))"

lemma add_routes_ok:
  assumes "bb_holds rb bs"
  shows "\<exists>rb'. add_routes junk rb rs = Some (writable rb (length bs) rs, rb') \<and>
     (writable rb (length bs) rs \<longrightarrow> bb_holds rb' (bs @ routes_bytes rs) \<and> bb_room rb' = bb_room rb)"
  using assms
proof (induction rs arbitrary: rb bs)
  case Nil
  then show ?case using bb_holds_fits [of rb bs] by (simp add: writable_def routes_bytes_def)
next
  case (Cons r rs)
  show ?case
  proof (cases rule: add_route_ok [OF Cons.prems, of junk r])
    case 1
    then show ?thesis by (auto simp: writable_def)
  next
    case (2 rb')
    then have "\<not> writable rb (length bs) (r # rs)"
      by (auto simp: writable_def routes_bytes_def dest: fits_mono [of _ _ "length bs + length (route_bytes r)"])
    with 2 show ?thesis by simp
  next
    case (3 rb')
    have "writable rb (length bs) (r # rs) = writable rb' (length (bs @ route_bytes r)) rs"
      using 3 by (auto simp: writable_def routes_bytes_def add.assoc)
    with Cons.IH [OF 3(2)] 3 show ?thesis by (auto simp: routes_bytes_def)
  qed
qed

section \<open>Writing and parsing\<close>

text \<open>The routes that the bytes can express: no address bits after the last prefix byte.\<close>

definition route_ok :: "ipv4_route \<Rightarrow> bool" where
  "route_ok r \<longleftrightarrow> 0 \<le> rt_prefix_length r \<and> rt_prefix_length r \<le> 32 \<and>
     (let k = prefix_bytes (route_prefix r)
      in take k (net_uint32_bytes (rt_dest r)) @ replicate (4 - k) 0 = net_uint32_bytes (rt_dest r))"

lemma route_ok_prefix: "route_ok r \<Longrightarrow> uint (route_prefix r) = rt_prefix_length r \<and> \<not> route_prefix r > 32"
  by (auto simp: route_ok_def route_prefix_def uint_word_of_int word_less_def mod_pos_pos_trivial)

text \<open>One step of the parser over a route's bytes.\<close>

lemma parse_step:
  assumes "route_ok r"
  shows "parse_routes (route_bytes r @ rest) (int (length (route_bytes r)) + left) room filled count =
     (if 0 \<le> left then
        (case room of
           None \<Rightarrow> parse_routes rest left room filled (count + 1)
         | Some n \<Rightarrow> if count \<ge> n then Some (0, filled) else parse_routes rest left room (filled @ [r]) (count + 1))
      else parse_routes (route_bytes r @ rest) (int (length (route_bytes r)) + left) room filled count)"
proof (cases "0 \<le> left")
  case True
  let ?d = "net_uint32_bytes (rt_dest r)" and ?k = "prefix_bytes (route_prefix r)"
  note p = route_ok_prefix [OF assms]
  have k: "?k \<le> 4" using prefix_bytes_le p by blast
  then have len: "length (route_bytes r) = 5 + ?k" by (simp add: route_bytes_def)
  have hd: "rd (route_bytes r @ rest) 0 = Some (route_prefix r)" by (simp add: route_bytes_def rd_def)
  have d: "rdn (route_bytes r @ rest) 1 ?k = Some (take ?k ?d)" using k by (simp add: route_bytes_def rdn_def)
  have "[0, 0, 0, 0] = replicate 4 (0 :: u8)" by (simp add: numeral_eq_Suc)
  then have "wrn [0, 0, 0, 0] 0 (take ?k ?d) = Some (take ?k ?d @ replicate (4 - ?k) 0)"
    using k by (simp add: wrn_def del: replicate.simps)
  then have w: "wrn [0, 0, 0, 0] 0 (take ?k ?d) = Some ?d" using assms by (simp add: route_ok_def Let_def)
  have g: "rdn (route_bytes r @ rest) (1 + ?k) 4 = Some (net_uint32_bytes (rt_gate r))"
    using k by (simp add: route_bytes_def rdn_def)
  have r: "\<lparr>rt_dest = rt_dest r, rt_prefix_length = rt_prefix_length r, rt_gate = rt_gate r\<rparr> = r" by simp
  have n: "net_uint32_get (net_uint32_bytes v) = Some v" for v using net_uint32_get_bytes [of v "[]"] by simp
  have dr: "drop (nat (1 + int ?k + 4)) (route_bytes r @ rest) = rest" by (simp add: len nat_add_distrib)
  show ?thesis
    using True p w
    by (subst parse_routes.simps)
      (simp add: hd d g n r dr Let_def len del: One_nat_def split: option.split)
qed simp

lemma routes_parse_written:
  assumes "\<forall>r \<in> set rs. route_ok r"
  shows "parse_routes (routes_bytes rs @ rest) (int (length (routes_bytes rs))) None filled count = Some (count + int (length rs), filled)"
    and "count + int (length rs) \<le> n \<Longrightarrow>
      parse_routes (routes_bytes rs @ rest) (int (length (routes_bytes rs))) (Some n) filled count = Some (count + int (length rs), filled @ rs)"
  using assms
proof (induction rs arbitrary: filled count)
  case Nil
  {
    case 1
    then show ?case by (simp add: routes_bytes_def parse_routes.simps)
  next
    case 2
    then show ?case by (simp add: routes_bytes_def parse_routes.simps)
  }
next
  case (Cons r rs)
  have e: "routes_bytes (r # rs) = route_bytes r @ routes_bytes rs" by (simp add: routes_bytes_def)
  {
    case 1
    then show ?case using Cons.IH(1) parse_step [of r "routes_bytes rs @ rest" "int (length (routes_bytes rs))" None filled count]
      by (simp add: e)
  next
    case 2
    then show ?case using Cons.IH(2) [of "count + 1" "filled @ [r]"]
        parse_step [of r "routes_bytes rs @ rest" "int (length (routes_bytes rs))" "Some n" filled count]
      by (simp add: e)
  }
qed

text \<open>What the parser accepts is what the writer writes.\<close>

lemma bytes_be32: "length bs = 4 \<Longrightarrow> \<exists>v. net_uint32_get bs = Some v \<and> net_uint32_bytes v = bs"
proof -
  assume "length bs = 4"
  then obtain a b c d where bs: "bs = [a, b, c, d]" by (auto simp: numeral_eq_Suc length_Suc_conv)
  define v :: u32 where "v = push_bit 24 (ucast a) OR push_bit 16 (ucast b) OR push_bit 8 (ucast c) OR ucast d"
  have "ucast (drop_bit 24 v) = a" "ucast (drop_bit 16 v) = b" "ucast (drop_bit 8 v) = c" "ucast v = d"
    by (auto simp: v_def bit_eq_iff bit_simps dest: bit_imp_le_length)
  then show ?thesis by (intro exI [of _ v]) (simp add: bs net_uint32_get_def net_uint32_bytes_def rd_def v_def [symmetric])
qed

lemma parse_descriptor:
  assumes "0 < left" "left \<le> int (length scan)" "\<not> scan ! 0 > 32" "1 + int (prefix_bytes (scan ! 0)) + 4 \<le> left"
  obtains r where "route_ok r" "scan = route_bytes r @ drop (length (route_bytes r)) scan" "route_prefix r = scan ! 0"
    "length (route_bytes r) = 1 + prefix_bytes (scan ! 0) + 4"
proof -
  let ?k = "prefix_bytes (scan ! 0)"
  have k: "?k \<le> 4" "1 + ?k + 4 \<le> length scan" using prefix_bytes_le assms by auto
  obtain v where v: "net_uint32_get (take ?k (drop 1 scan) @ replicate (4 - ?k) 0) = Some v"
      "net_uint32_bytes v = take ?k (drop 1 scan) @ replicate (4 - ?k) 0"
    using bytes_be32 [of "take ?k (drop 1 scan) @ replicate (4 - ?k) 0"] k by auto
  obtain g where g: "net_uint32_bytes g = take 4 (drop (1 + ?k) scan)"
    using bytes_be32 [of "take 4 (drop (1 + ?k) scan)"] k by auto
  define r where "r = \<lparr>rt_dest = v, rt_prefix_length = uint (scan ! 0), rt_gate = g\<rparr>"
  have p: "route_prefix r = scan ! 0" by (simp add: route_prefix_def r_def)
  have "uint (scan ! 0) \<le> 32" using assms(3) by (simp add: word_less_def)
  then have ok: "route_ok r" using k p by (simp add: route_ok_def Let_def) (simp add: r_def v)
  have "scan = scan ! 0 # drop 1 scan" using assms(1,2) by (cases scan) auto
  also have "drop 1 scan = take ?k (drop 1 scan) @ take 4 (drop ?k (drop 1 scan)) @ drop 4 (drop ?k (drop 1 scan))"
    by (simp only: append_take_drop_id)
  also have "drop 4 (drop ?k (drop 1 scan)) = drop (1 + ?k + 4) scan" by (simp add: ac_simps)
  also have "drop ?k (drop 1 scan) = drop (1 + ?k) scan" by (simp add: ac_simps)
  finally have "scan = route_bytes r @ drop (1 + ?k + 4) scan"
    using k by (simp add: route_bytes_def p) (simp add: r_def v g)
  moreover have "length (route_bytes r) = 1 + ?k + 4" using k by (simp add: route_bytes_def p)
  ultimately show ?thesis using ok p by (intro that [of r]) simp_all
qed

lemma parse_total:
  assumes "left \<le> int (length scan)"
  shows "\<exists>c fs. parse_routes scan left room filled count = Some (c, fs) \<and>
     (c = 0 \<or> (\<exists>rs. fs = (if room = None then filled else filled @ rs) \<and> c = count + int (length rs) \<and>
        (\<forall>r \<in> set rs. route_ok r) \<and> take (nat left) scan = routes_bytes rs))"
  using assms
proof (induction "nat left" arbitrary: scan left filled count rule: less_induct)
  case less
  consider (over) "left \<le> 0" | (bad) "0 < left" "scan ! 0 > 32 \<or> left < 1 + int (prefix_bytes (scan ! 0)) + 4"
    | (descr) "0 < left" "\<not> scan ! 0 > 32" "1 + int (prefix_bytes (scan ! 0)) + 4 \<le> left" by fastforce
  then show ?case
  proof cases
    case over
    then show ?thesis by (subst parse_routes.simps) (auto simp: routes_bytes_def)
  next
    case bad
    then have "rd scan 0 = Some (scan ! 0)" using less.prems by (intro rd_Some) auto
    with bad show ?thesis by (subst parse_routes.simps) (auto simp: Let_def)
  next
    case descr
    obtain r where r: "route_ok r" "scan = route_bytes r @ drop (length (route_bytes r)) scan" "route_prefix r = scan ! 0"
        "length (route_bytes r) = 1 + prefix_bytes (scan ! 0) + 4"
      using parse_descriptor [OF descr(1) less.prems descr(2,3)] by blast
    let ?n = "length (route_bytes r)"
    define rest left' where "rest = drop ?n scan" and "left' = left - int ?n"
    have l: "0 \<le> left'" "nat left' < nat left" "left' \<le> int (length rest)" "left = int ?n + left'" "scan = route_bytes r @ rest"
      using descr r(2,4) less.prems by (auto simp: left'_def rest_def)
    have tk: "take (nat left) scan = route_bytes r @ take (nat left') rest" using l(1) by (simp add: l(4,5) nat_add_distrib)
    have step: "parse_routes scan left room filled count =
        (case room of
           None \<Rightarrow> parse_routes rest left' room filled (count + 1)
         | Some n \<Rightarrow> if count \<ge> n then Some (0, filled) else parse_routes rest left' room (filled @ [r]) (count + 1))"
      using parse_step [OF r(1), of rest left' room filled count] l(1) by (simp add: l(4,5))
    have rb: "routes_bytes (r # rs) = route_bytes r @ routes_bytes rs" for rs by (simp add: routes_bytes_def)
    have ext: "(\<exists>rs. fs = (if room = None then filled' else filled' @ rs) \<and> c = count + 1 + int (length rs) \<and>
          (\<forall>r \<in> set rs. route_ok r) \<and> take (nat left') rest = routes_bytes rs) \<Longrightarrow>
        filled' = (if room = None then filled else filled @ [r]) \<Longrightarrow>
        (\<exists>rs. fs = (if room = None then filled else filled @ rs) \<and> c = count + int (length rs) \<and>
          (\<forall>r \<in> set rs. route_ok r) \<and> take (nat left) scan = routes_bytes rs)" for fs c filled'
    proof (elim exE conjE)
      fix rs
      assume "fs = (if room = None then filled' else filled' @ rs)" "c = count + 1 + int (length rs)"
        "\<forall>r \<in> set rs. route_ok r" "take (nat left') rest = routes_bytes rs"
        "filled' = (if room = None then filled else filled @ [r])"
      then show ?thesis using r(1) tk by (intro exI [of _ "r # rs"]) (simp add: rb)
    qed
    show ?thesis
    proof (cases "\<exists>n. room = Some n \<and> n \<le> count")
      case True
      then show ?thesis by (auto simp: step)
    next
      case False
      define filled' where "filled' = (if room = None then filled else filled @ [r])"
      have same: "parse_routes scan left room filled count = parse_routes rest left' room filled' (count + 1)"
        using False by (auto simp: step filled'_def split: option.split)
      from less.hyps [OF l(2,3), of filled' "count + 1"] ext [OF _ filled'_def] show ?thesis
        unfolding same by (elim exE conjE disjE) (simp, metis)
    qed
  qed
qed

text \<open>The writer: all the bytes or, when a prefix is too long or the user's buffer too small, none.\<close>

lemma buffer_create:
  assumes "rs \<noteq> []" "\<And>b. buffer = Some b \<Longrightarrow> n = int (length b) \<and> b \<noteq> []"
  shows "(\<forall>r \<in> set rs. \<not> route_prefix r > 32) \<and> (\<forall>b. buffer = Some b \<longrightarrow> length (routes_bytes rs) \<le> length b) \<Longrightarrow>
      \<exists>b'. RouteListBufferCreate junk (Some rs) buffer n = Some (Some b', int (length (routes_bytes rs))) \<and>
        take (length (routes_bytes rs)) b' = routes_bytes rs \<and> length (routes_bytes rs) \<le> length b' \<and>
        length b' = (case buffer of None \<Rightarrow> length (routes_bytes rs) | Some b \<Rightarrow> length b)"
    and "\<not> ((\<forall>r \<in> set rs. \<not> route_prefix r > 32) \<and> (\<forall>b. buffer = Some b \<longrightarrow> length (routes_bytes rs) \<le> length b)) \<Longrightarrow>
      RouteListBufferCreate junk (Some rs) buffer n = Some (None, 0)"
proof -
  define rb where "rb = BufInit (map_option (\<lambda>b. (b, n)) buffer)"
  have h: "bb_holds rb []" "bb_room rb = map_option length buffer"
    using buf_init_holds assms(2) by (cases buffer; auto simp: rb_def BufInit_def)+
  have w: "writable rb 0 rs \<longleftrightarrow>
      (\<forall>r \<in> set rs. \<not> route_prefix r > 32) \<and> (\<forall>b. buffer = Some b \<longrightarrow> length (routes_bytes rs) \<le> length b)"
    using h(2) by (cases buffer) (auto simp: writable_def fits_def)
  obtain rb' where rb': "add_routes junk rb rs = Some (writable rb 0 rs, rb')"
      "writable rb 0 rs \<Longrightarrow> bb_holds rb' (routes_bytes rs) \<and> bb_room rb' = bb_room rb"
    using add_routes_ok [OF h(1), of junk rs] by auto
  have run: "RouteListBufferCreate junk (Some rs) buffer n =
      (if \<not> writable rb 0 rs then Some (None, 0)
       else if buffer = None then do {
         bs \<leftarrow> rdn (bb_buf rb') 0 (nat (bb_used rb'));
         Some (Some bs, bb_used rb') }
       else Some (Some (bb_buf rb'), bb_used rb'))"
    using assms rb'(1) by (cases rs) (auto simp: RouteListBufferCreate_def rb_def simp del: add_routes.simps)
  { assume "(\<forall>r \<in> set rs. \<not> route_prefix r > 32) \<and> (\<forall>b. buffer = Some b \<longrightarrow> length (routes_bytes rs) \<le> length b)"
    then have wr: "writable rb 0 rs" using w by blast
    note k = rb'(2) [OF wr]
    have le: "length (routes_bytes rs) \<le> length (bb_buf rb')" using k bb_holds_le by blast
    show "\<exists>b'. RouteListBufferCreate junk (Some rs) buffer n = Some (Some b', int (length (routes_bytes rs))) \<and>
        take (length (routes_bytes rs)) b' = routes_bytes rs \<and> length (routes_bytes rs) \<le> length b' \<and>
        length b' = (case buffer of None \<Rightarrow> length (routes_bytes rs) | Some b \<Rightarrow> length b)"
      unfolding run using k le wr h(2) by (cases buffer) (auto simp: bb_holds_def rdn_def bb_room_def split: if_splits) }
  { assume "\<not> ((\<forall>r \<in> set rs. \<not> route_prefix r > 32) \<and> (\<forall>b. buffer = Some b \<longrightarrow> length (routes_bytes rs) \<le> length b))"
    then show "RouteListBufferCreate junk (Some rs) buffer n = Some (None, 0)" using w run by simp }
qed

lemma create_written:
  assumes "rs \<noteq> []" "\<forall>r \<in> set rs. route_ok r"
  shows "RouteListCreate (Some (routes_bytes rs @ rest)) (int (length (routes_bytes rs))) = Some (Some rs, int (length rs))"
proof -
  have "routes_bytes rs \<noteq> []" using assms(1) by (cases rs) (auto simp: routes_bytes_def route_bytes_def)
  then show ?thesis
    using routes_parse_written(1) [OF assms(2), of rest "[]" 0] routes_parse_written(2) [OF assms(2), of 0 "int (length rs)" rest "[]"] assms(1)
    by (simp add: RouteListCreate_def RouteListParse_def)
qed

text \<open>Routes written for a DHCP option, into a new block or a user's buffer that has room for them,
  are parsed back to the same list.\<close>

theorem routes_roundtrip:
  assumes "rs \<noteq> []" "\<forall>r \<in> set rs. route_ok r"
    and "\<And>b. buffer = Some b \<Longrightarrow> n = int (length b) \<and> length (routes_bytes rs) \<le> length b"
  shows "\<exists>b k. RouteListBufferCreate junk (Some rs) buffer n = Some (Some b, k) \<and> k \<le> int (length b) \<and>
     RouteListCreate (Some b) k = Some (Some rs, int (length rs))"
proof -
  have ne: "routes_bytes rs \<noteq> []" using assms(1) by (cases rs) (auto simp: routes_bytes_def route_bytes_def)
  have "\<And>b. buffer = Some b \<Longrightarrow> n = int (length b) \<and> b \<noteq> []" using assms(3) ne by fastforce
  moreover have "(\<forall>r \<in> set rs. \<not> route_prefix r > 32) \<and> (\<forall>b. buffer = Some b \<longrightarrow> length (routes_bytes rs) \<le> length b)"
    using assms(2,3) route_ok_prefix by blast
  ultimately obtain b where b: "RouteListBufferCreate junk (Some rs) buffer n = Some (Some b, int (length (routes_bytes rs)))"
      "take (length (routes_bytes rs)) b = routes_bytes rs" "length (routes_bytes rs) \<le> length b"
    using buffer_create(1) [OF assms(1), of buffer n junk] by blast
  moreover have "b = routes_bytes rs @ drop (length (routes_bytes rs)) b" using b(2) by (metis append_take_drop_id)
  ultimately show ?thesis using create_written [OF assms(1,2), of "drop (length (routes_bytes rs)) b"]
    by (intro exI [of _ b] exI [of _ "int (length (routes_bytes rs))"]) simp
qed

definition sample_routes :: "ipv4_route list" where
  "sample_routes = [\<lparr>rt_dest = 0, rt_prefix_length = 0, rt_gate = 0x0a000001\<rparr>,
     \<lparr>rt_dest = 0xac100000, rt_prefix_length = 12, rt_gate = 0x0a000002\<rparr>]"

lemma sample_routes_ok: "\<forall>r \<in> set sample_routes. route_ok r" "sample_routes \<noteq> []"
proof -
  have "prefix_bytes 0 = 0" "prefix_bytes 12 = 2" by (simp_all add: prefix_bytes_def N_BITS_PER_BYTE_def)
  moreover have "net_uint32_bytes 0 = [0, 0, 0, 0]" "net_uint32_bytes 0xac100000 = [172, 16, 0, 0]"
    by (simp_all add: net_uint32_bytes_def)
  moreover have "replicate 4 (0 :: u8) = [0, 0, 0, 0]" "replicate 2 (0 :: u8) = [0, 0]" by (simp_all add: numeral_eq_Suc)
  ultimately show "\<forall>r \<in> set sample_routes. route_ok r"
    by (simp add: sample_routes_def route_ok_def route_prefix_def)
  show "sample_routes \<noteq> []" by (simp add: sample_routes_def)
qed

theorem routes_roundtrip_witness:
  "\<exists>b k. RouteListBufferCreate (\<lambda>_. 7) (Some sample_routes) None 0 = Some (Some b, k) \<and> k \<le> int (length b) \<and>
     RouteListCreate (Some b) k = Some (Some sample_routes, 2)"
  using routes_roundtrip [OF sample_routes_ok(2,1), of None 0 "\<lambda>_. 7"] by (simp add: sample_routes_def)

text \<open>Any bytes can be parsed: nothing outside them is read, and when routes are found they are
  those the bytes were written from, so that writing them gives the bytes again.\<close>

theorem routes_parse_inverse:
  "RouteListCreate (Some bs) (int (length bs)) = Some (None, 0) \<or>
   (\<exists>rs. RouteListCreate (Some bs) (int (length bs)) = Some (Some rs, int (length rs)) \<and> rs \<noteq> [] \<and>
      list_all route_ok rs \<and> RouteListBufferCreate junk (Some rs) None n = Some (Some bs, int (length bs)))"
proof -
  obtain c fs where c: "RouteListParse bs (int (length bs)) None = Some (c, fs)"
      "c = 0 \<or> (\<exists>rs. c = int (length rs) \<and> (\<forall>r \<in> set rs. route_ok r) \<and> bs = routes_bytes rs)"
    using parse_total [of "int (length bs)" bs None "[]" 0] by (auto simp: RouteListParse_def)
  show ?thesis
  proof (cases "c = 0 \<or> bs = []")
    case True
    then show ?thesis using c(1) by (auto simp: RouteListCreate_def)
  next
    case False
    then obtain rs where rs: "c = int (length rs)" "\<forall>r \<in> set rs. route_ok r" "bs = routes_bytes rs" "rs \<noteq> []"
      using c(2) by (auto simp: routes_bytes_def)
    have "\<forall>r \<in> set rs. \<not> route_prefix r > 32" using rs(2) route_ok_prefix by blast
    then obtain b where "RouteListBufferCreate junk (Some rs) None n = Some (Some b, int (length bs))" "b = bs"
      using buffer_create(1) [OF rs(4), of None n junk] rs(3) by auto
    then show ?thesis using create_written [OF rs(4,2), of "[]"] rs by (auto simp: list_all_iff)
  qed
qed

section \<open>Routes of the configuration\<close>

text \<open>
  \<open>inet_aton\<close> is a parameter.  The elements of the configuration's array are strings or, for \<open>None\<close>,
  something else.  A \<open>CFString\<close> is converted to ASCII, which fails when it has other characters, and
  ends at its first zero byte.
\<close>

definition ascii :: "string \<Rightarrow> string option" where
  "ascii s = (if list_all (\<lambda>c. (of_char c :: nat) < 128) s then Some (takeWhile (\<lambda>c. c \<noteq> CHR 0x00) s) else None)"

definition my_CFStringToIPAddress :: "(string \<Rightarrow> in_addr option) \<Rightarrow> string option \<Rightarrow> in_addr option" where
  "my_CFStringToIPAddress aton str = do {
     s \<leftarrow> str;
     buf \<leftarrow> (if length s < 64 then ascii s else None);
     aton buf }"

definition IN_CLASSA :: "u32 \<Rightarrow> bool" where
  "IN_CLASSA i \<longleftrightarrow> i AND 0x80000000 = 0"

definition IN_CLASSB :: "u32 \<Rightarrow> bool" where
  "IN_CLASSB i \<longleftrightarrow> i AND 0xc0000000 = 0x80000000"

definition parse_destination_descriptor :: "(string \<Rightarrow> in_addr option) \<Rightarrow> string \<Rightarrow> (in_addr \<times> int) option" where
  "parse_destination_descriptor aton str = do {
     descr \<leftarrow> ascii str;
     let addr = takeWhile (\<lambda>c. c \<noteq> CHR ''/'') descr;
     prefix_length \<leftarrow>
       (if CHR ''/'' \<in> set descr then
          let n = sint (word_of_nat (strtoul 0 (drop (length addr + 1) descr)) :: u32)
          in if n < 0 \<or> n > 32 then None else Some n
        else Some (-1));
     ip \<leftarrow> aton addr;
     let prefix_length = (if prefix_length = -1
                          then if IN_CLASSA ip then 8 else if IN_CLASSB ip then 16 else 24
                          else prefix_length);
     Some (if ip AND prefix_to_mask32 (nat prefix_length) = 0 then (0, 0) else (ip, prefix_length)) }"

text \<open>The loop: \<open>list[0]\<close>, once there is a default route, and the elements from \<open>list[1]\<close> up to \<open>scan\<close>.\<close>

fun array_routes :: "(string \<Rightarrow> in_addr option) \<Rightarrow> string option list \<Rightarrow> ipv4_route option \<Rightarrow> ipv4_route list \<Rightarrow>
    (ipv4_route option \<times> ipv4_route list) option" where
  "array_routes aton (dest # gate # strs) dflt rest = do {
     d \<leftarrow> dest;
     _ \<leftarrow> gate;
     (ip, prefix_length) \<leftarrow> parse_destination_descriptor aton d;
     g \<leftarrow> my_CFStringToIPAddress aton gate;
     let r = \<lparr>rt_dest = ip, rt_prefix_length = prefix_length, rt_gate = g\<rparr>;
     if ip = 0 \<and> dflt = None then array_routes aton strs (Some r) rest
     else array_routes aton strs dflt (rest @ [r]) }"
| "array_routes aton _ dflt rest = Some (dflt, rest)"

definition RouteListCreateWithArray :: "(string \<Rightarrow> in_addr option) \<Rightarrow> string option list \<Rightarrow> (ipv4_route list \<times> int) option" where
  "RouteListCreateWithArray aton strs =
     (if strs = [] \<or> odd (length strs) then None
      else
        (case array_routes aton strs None [] of
           None \<Rightarrow> None
         | Some (Some r, rest) \<Rightarrow> Some (r # rest, int (length strs div 2))
         | Some (None, rest) \<Rightarrow>
             Some (\<lparr>rt_dest = 0, rt_prefix_length = 0, rt_gate = 0\<rparr> # rest, int (length strs div 2) + 1)))"

fun RouteListGetDefault :: "ipv4_route list option \<Rightarrow> ipv4_route option" where
  "RouteListGetDefault None = None"
| "RouteListGetDefault (Some lst) = find (\<lambda>r. rt_dest r = 0) lst"

text \<open>The reference: the routes in the array's order, with the first default route moved to the front.\<close>

fun pair_routes :: "(string \<Rightarrow> in_addr option) \<Rightarrow> string option list \<Rightarrow> ipv4_route list option" where
  "pair_routes aton (Some d # Some g # strs) = do {
     (ip, prefix_length) \<leftarrow> parse_destination_descriptor aton d;
     gate \<leftarrow> my_CFStringToIPAddress aton (Some g);
     rs \<leftarrow> pair_routes aton strs;
     Some (\<lparr>rt_dest = ip, rt_prefix_length = prefix_length, rt_gate = gate\<rparr> # rs) }"
| "pair_routes aton [] = Some []"
| "pair_routes aton _ = None"

definition default_first :: "ipv4_route list \<Rightarrow> ipv4_route list" where
  "default_first rs =
     (case find (\<lambda>r. rt_dest r = 0) rs of
        Some d \<Rightarrow> d # remove1 d rs
      | None \<Rightarrow> \<lparr>rt_dest = 0, rt_prefix_length = 0, rt_gate = 0\<rparr> # rs)"

lemma array_routes_none [simp]: "odd (length va) \<Longrightarrow> array_routes aton (None # va) dflt rest = None"
  by (cases va) auto

lemma array_routes_found: "even (length strs) \<Longrightarrow>
    array_routes aton strs (Some r) rest = map_option (\<lambda>rs. (Some r, rest @ rs)) (pair_routes aton strs)"
  by (induction aton strs arbitrary: rest rule: pair_routes.induct)
    (auto split: bind_splits option.splits prod.splits simp: my_CFStringToIPAddress_def)

lemma array_routes_pairs: "even (length strs) \<Longrightarrow>
    array_routes aton strs None rest = map_option (\<lambda>rs.
      case find (\<lambda>r. rt_dest r = 0) rs of Some d \<Rightarrow> (Some d, rest @ remove1 d rs) | None \<Rightarrow> (None, rest @ rs)) (pair_routes aton strs)"
proof (induction aton strs arbitrary: rest rule: pair_routes.induct)
  case (1 aton d g strs)
  show ?case
  proof (cases "Option.bind (parse_destination_descriptor aton d) (\<lambda>p. map_option (Pair p) (my_CFStringToIPAddress aton (Some g)))")
    case None
    then show ?thesis by (auto split: bind_splits)
  next
    case (Some p)
    then obtain ip n gate where p: "parse_destination_descriptor aton d = Some (ip, n)"
        "my_CFStringToIPAddress aton (Some g) = Some gate"
      by (auto split: bind_splits)
    show ?thesis
      using p 1 array_routes_found [of strs aton "\<lparr>rt_dest = 0, rt_prefix_length = n, rt_gate = gate\<rparr>" rest]
      by (cases "pair_routes aton strs") (auto simp: Let_def split: option.split dest!: find_SomeD)
  qed
qed auto

text \<open>The routes of the configuration are those of its pairs of strings in order, with the first default
  route moved to the front, or a direct default route put there when there is none; a string that is
  not a route, an element that is no string and an odd number of elements give no list.\<close>

theorem array_default_first:
  "RouteListCreateWithArray aton strs =
     (if strs = [] then None else if odd (length strs) then None
      else map_option (\<lambda>rs. (default_first rs, int (length (default_first rs)))) (pair_routes aton strs))"
proof (cases "strs = [] \<or> odd (length strs)")
  case False
  have len: "pair_routes aton strs = Some rs \<Longrightarrow> length rs = length strs div 2" for rs
    by (induction aton strs arbitrary: rs rule: pair_routes.induct) (auto split: bind_splits)
  have "length (remove1 d rs) + 1 = length rs" if "find P rs = Some d" for P d and rs :: "ipv4_route list"
    using find_SomeD [OF that] length_pos_if_in_set [of d rs] by (simp add: length_remove1)
  then show ?thesis
    using False len array_routes_pairs [of strs aton "[]"]
    by (cases "pair_routes aton strs") (auto simp: RouteListCreateWithArray_def default_first_def split: option.split)
qed (auto simp: RouteListCreateWithArray_def)

lemma default_is_first: "RouteListGetDefault (Some (default_first rs)) = Some (hd (default_first rs))"
  by (auto simp: default_first_def split: option.split dest: find_SomeD)

end
