(* ===== verification/DNSNameList.thy ===== *)
theory DNSNameList
  imports ByteBuffer
begin

text \<open>
  Lists of domain names in the form of RFC 1035 (\<open>bootplib/DNSNameList.c\<close>): writing a list, with or
  without compression, and reading one.

  C strings are lists of bytes without their terminating zero, \<open>uint32_t\<close> positions in a buffer are
  \<open>nat\<close>: they are at most the size of the buffer, an \<open>int\<close>.  The growing arrays of offsets are lists, and
  allocation does not fail.  Messages on \<open>stderr\<close> are not modelled.
\<close>

section \<open>Constants and buffers\<close>

abbreviation DNS_PTR_PATTERN_BYTE_MASK :: u8 where "DNS_PTR_PATTERN_BYTE_MASK \<equiv> 0xc0"
abbreviation DNS_PTR_PATTERN_MASK :: u16 where "DNS_PTR_PATTERN_MASK \<equiv> 0xc000"
abbreviation DNS_PTR_VALUE_MASK :: u16 where "DNS_PTR_VALUE_MASK \<equiv> 0x3fff"
abbreviation "DNS_LABEL_LENGTH_MAX \<equiv> 63"
abbreviation "DNS_BUF_INITIAL_SIZE \<equiv> 128"
abbreviation dot :: u8 where "dot \<equiv> 46"

definition DNSBufInit :: "(u8 list \<times> int) option \<Rightarrow> byte_buf" where
  "DNSBufInit buf = buf_init DNS_BUF_INITIAL_SIZE buf"

definition DNSBufSetUsed :: "byte_buf \<Rightarrow> int \<Rightarrow> byte_buf" where
  "DNSBufSetUsed db used = (if bb_used db < 0 \<or> bb_used db > bb_size db then db else db\<lparr>bb_used := used\<rparr>)"

definition DNSBufAddData :: "(nat \<Rightarrow> u8) \<Rightarrow> byte_buf \<Rightarrow> u8 list \<Rightarrow> int \<Rightarrow> (bool \<times> byte_buf) option" where
  "DNSBufAddData junk db data data_len = buf_add_data DNS_BUF_INITIAL_SIZE junk db data data_len"

section \<open>A name\<close>

record dns_name =
  dn_offsets :: "nat list"
  dn_buf :: "u8 list"
  dn_buf_size :: nat

record name_state =
  ns_buf :: "u8 list"
  ns_offsets :: "nat list"
  ns_digits :: nat
  ns_size :: nat
  ns_start :: nat

datatype label_step = Too_long | End_label name_state | Next_label name_state

text \<open>What happens at a dot and at the end of the name.\<close>

definition close_label :: "nat \<Rightarrow> name_state \<Rightarrow> label_step option" where
  "close_label i st =
     (if ns_digits st = 0 then Some (End_label st)
      else if ns_digits st > DNS_LABEL_LENGTH_MAX then Some Too_long
      else do {
        b \<leftarrow> wr (ns_buf st) (ns_start st) (word_of_nat (ns_digits st));
        Some (Next_label (st\<lparr>ns_buf := b, ns_offsets := ns_offsets st @ [ns_start st],
          ns_size := ns_size st + (ns_digits st + 1), ns_digits := 0, ns_start := i + 1\<rparr>)) })"

fun label_loop :: "u8 list \<Rightarrow> nat \<Rightarrow> name_state \<Rightarrow> label_step option" where
  "label_loop [] i st = close_label i st"
| "label_loop (c # cs) i st =
     (if c = dot then do {
        r \<leftarrow> close_label i st;
        case r of Next_label st' \<Rightarrow> label_loop cs (i + 1) st' | _ \<Rightarrow> Some r }
      else do {
        b \<leftarrow> wr (ns_buf st) (1 + i) c;
        label_loop cs (i + 1) (st\<lparr>ns_buf := b, ns_digits := ns_digits st + 1\<rparr>) })"

text \<open>\<open>single\<close> and \<open>preserve\<close> are the flags \<open>kDNSFlagsSingleName\<close> and \<open>kDNSFlagsPreserveEndLabel\<close>.\<close>

definition finish_name :: "bool \<Rightarrow> bool \<Rightarrow> bool \<Rightarrow> name_state \<Rightarrow> dns_name option" where
  "finish_name single preserve end_label st =
     (if \<not> single \<or> end_label \<and> preserve
      then do {
        b \<leftarrow> wr (ns_buf st) (ns_size st) 0;
        Some \<lparr>dn_offsets = ns_offsets st, dn_buf = b, dn_buf_size = ns_size st + 1\<rparr> }
      else Some \<lparr>dn_offsets = ns_offsets st, dn_buf = ns_buf st, dn_buf_size = ns_size st\<rparr>)"

definition DNSNameCreate :: "(nat \<Rightarrow> u8) \<Rightarrow> u8 list \<Rightarrow> bool \<Rightarrow> bool \<Rightarrow> dns_name option option" where
  "DNSNameCreate junk dns_name single preserve = do {
     r \<leftarrow> label_loop dns_name 0
            \<lparr>ns_buf = map junk [0..<length dns_name + 2], ns_offsets = [], ns_digits = 0, ns_size = 0, ns_start = 0\<rparr>;
     case r of
       Too_long \<Rightarrow> Some None
     | End_label st \<Rightarrow> map_option Some (finish_name single preserve True st)
     | Next_label st \<Rightarrow> map_option Some (finish_name single preserve False st) }"

text \<open>The loop runs from the last labels to the first, so over the reversed lists of offsets.\<close>

fun match_loop :: "u8 list \<Rightarrow> nat list \<Rightarrow> u8 list \<Rightarrow> nat list \<Rightarrow> nat option" where
  "match_loop buf1 (o1 # os1) buf2 (o2 # os2) = do {
     nlen1 \<leftarrow> rd buf1 o1;
     nlen2 \<leftarrow> rd buf2 o2;
     if nlen1 \<noteq> nlen2 then Some 0
     else do {
       l1 \<leftarrow> rdn buf1 (o1 + 1) (unat nlen1);
       l2 \<leftarrow> rdn buf2 (o2 + 1) (unat nlen1);
       if l1 \<noteq> l2 then Some 0 else map_option Suc (match_loop buf1 os1 buf2 os2) } }"
| "match_loop buf1 _ buf2 _ = Some 0"

definition DNSNameMatch :: "u8 list \<Rightarrow> nat list \<Rightarrow> u8 list \<Rightarrow> nat list \<Rightarrow> nat option" where
  "DNSNameMatch buf1 offsets1 buf2 offsets2 = match_loop buf1 (rev offsets1) buf2 (rev offsets2)"

section \<open>Writing a list\<close>

record names_buf =
  dnb_buf :: byte_buf
  dnb_names :: "nat list list"
  dnb_compact :: bool

text \<open>The first of the names so far with the most labels in common with the end of the new one.\<close>

fun best_match :: "u8 list \<Rightarrow> dns_name \<Rightarrow> nat list list \<Rightarrow> nat \<Rightarrow> nat list option \<Rightarrow> (nat \<times> nat list option) option" where
  "best_match buf new_name [] best_matched best_name = Some (best_matched, best_name)"
| "best_match buf new_name (this_offset # names) best_matched best_name = do {
     matched \<leftarrow> DNSNameMatch buf this_offset (dn_buf new_name) (dn_offsets new_name);
     if matched > best_matched then best_match buf new_name names matched (Some this_offset)
     else best_match buf new_name names best_matched best_name }"

text \<open>The body of the loop over the labels of the new name; its result is the buffer and the offsets.\<close>

definition place_label ::
  "(nat \<Rightarrow> u8) \<Rightarrow> dns_name \<Rightarrow> nat \<Rightarrow> nat list option \<Rightarrow> nat \<Rightarrow> byte_buf \<Rightarrow> nat list \<Rightarrow> nat \<Rightarrow> (bool \<times> byte_buf \<times> nat list) option" where
  "place_label junk new_name best_matched best_name buf_offset db offsets i =
     (let start_count = length offsets - best_matched in
      if i \<ge> start_count then do {
        best \<leftarrow> best_name;
        best_offset \<leftarrow> rd best (length best - best_matched + (i - start_count));
        (ok, db') \<leftarrow>
          (if i = start_count
           then DNSBufAddData junk db (net_uint16_bytes (DNS_PTR_PATTERN_MASK OR word_of_nat best_offset)) 2
           else Some (True, db));
        Some (ok, db', if ok then offsets[i := best_offset] else offsets) }
      else do {
        name_offset \<leftarrow> rd offsets i;
        (ok, db') \<leftarrow>
          (if best_name \<noteq> None then do {
             n \<leftarrow> rd (dn_buf new_name) name_offset;
             DNSBufAddData junk db (drop name_offset (dn_buf new_name)) (uint n + 1) }
           else Some (True, db));
        Some (ok, db', if ok then offsets[i := name_offset + buf_offset] else offsets) })"

fun place_labels ::
  "(nat \<Rightarrow> u8) \<Rightarrow> dns_name \<Rightarrow> nat \<Rightarrow> nat list option \<Rightarrow> nat \<Rightarrow> byte_buf \<Rightarrow> nat list \<Rightarrow> nat list \<Rightarrow> (bool \<times> byte_buf \<times> nat list) option" where
  "place_labels junk new_name best_matched best_name buf_offset db offsets [] = Some (True, db, offsets)"
| "place_labels junk new_name best_matched best_name buf_offset db offsets (i # is) = do {
     (ok, db', offsets') \<leftarrow> place_label junk new_name best_matched best_name buf_offset db offsets i;
     if ok then place_labels junk new_name best_matched best_name buf_offset db' offsets' is
     else Some (False, db', offsets') }"

definition roll_back :: "names_buf \<Rightarrow> byte_buf \<Rightarrow> bool \<times> names_buf" where
  "roll_back nb db = (False, nb\<lparr>dnb_buf := DNSBufSetUsed db (bb_used (dnb_buf nb))\<rparr>)"

definition DNSNamesBufAddName ::
  "(nat \<Rightarrow> u8) \<Rightarrow> names_buf \<Rightarrow> u8 list \<Rightarrow> bool \<Rightarrow> bool \<Rightarrow> (bool \<times> names_buf) option" where
  "DNSNamesBufAddName junk nb dns_name single preserve =
     (let db = dnb_buf nb in do {
        created \<leftarrow> DNSNameCreate junk dns_name single preserve;
        case created of
          None \<Rightarrow> Some (roll_back nb db)
        | Some new_name \<Rightarrow>
            if \<not> dnb_compact nb then do {
              (ok, db') \<leftarrow> DNSBufAddData junk db (dn_buf new_name) (int (dn_buf_size new_name));
              Some (if ok then (True, nb\<lparr>dnb_buf := db'\<rparr>) else roll_back nb db') }
            else do {
              (best_matched, best_name) \<leftarrow> best_match (bb_buf db) new_name (dnb_names nb) 0 None;
              (ok, db1) \<leftarrow> (if best_name = None
                 then DNSBufAddData junk db (dn_buf new_name) (int (dn_buf_size new_name)) else Some (True, db));
              if \<not> ok then Some (roll_back nb db1)
              else do {
                (placed, db2, offsets) \<leftarrow> place_labels junk new_name best_matched best_name (nat (bb_used db)) db1
                   (dn_offsets new_name) [0..<length (dn_offsets new_name)];
                Some (if placed then (True, nb\<lparr>dnb_buf := db2, dnb_names := dnb_names nb @ [offsets]\<rparr>)
                      else roll_back nb db2) } } })"

fun add_names :: "(nat \<Rightarrow> u8) \<Rightarrow> names_buf \<Rightarrow> u8 list list \<Rightarrow> bool \<Rightarrow> bool \<Rightarrow> (bool \<times> names_buf) option" where
  "add_names junk nb [] single preserve = Some (True, nb)"
| "add_names junk nb (name # names) single preserve = do {
     (ok, nb') \<leftarrow> DNSNamesBufAddName junk nb name single preserve;
     if ok then add_names junk nb' names single preserve else Some (False, nb') }"

text \<open>The result is the pointer that is returned and \<open>*buffer_size\<close>.\<close>

definition DNSNameListBufferCreateCommon ::
  "(nat \<Rightarrow> u8) \<Rightarrow> u8 list list \<Rightarrow> u8 list option \<Rightarrow> int \<Rightarrow> bool \<Rightarrow> bool \<Rightarrow> bool \<Rightarrow> (u8 list option \<times> int) option" where
  "DNSNameListBufferCreateCommon junk names buffer buffer_size compact single preserve =
     (if names = [] \<or> buffer \<noteq> None \<and> buffer_size = 0 then Some (buffer, 0)
      else do {
        (ok, nb) \<leftarrow> add_names junk
           \<lparr>dnb_buf = DNSBufInit (map_option (\<lambda>b. (b, buffer_size)) buffer), dnb_names = [], dnb_compact = compact\<rparr>
           names single preserve;
        if \<not> ok then Some (None, if buffer \<noteq> None then bb_used (dnb_buf nb) else 0)
        else if buffer = None then do {
          bs \<leftarrow> rdn (bb_buf (dnb_buf nb)) 0 (nat (bb_used (dnb_buf nb)));
          Some (Some bs, bb_used (dnb_buf nb)) }
        else Some (Some (bb_buf (dnb_buf nb)), bb_used (dnb_buf nb)) })"

definition DNSNameListBufferCreate ::
  "(nat \<Rightarrow> u8) \<Rightarrow> u8 list list \<Rightarrow> u8 list option \<Rightarrow> int \<Rightarrow> bool \<Rightarrow> (u8 list option \<times> int) option" where
  "DNSNameListBufferCreate junk names buffer buffer_size compact =
     DNSNameListBufferCreateCommon junk names buffer buffer_size compact False False"

section \<open>Reading a list\<close>

record reader =
  dr_offsets :: "nat list"
  dr_last_completed_name :: nat
  dr_left :: nat
  dr_scan :: nat
  dr_read_head :: nat
  dr_name_buf :: byte_buf
  dr_list_count :: nat
  dr_first :: bool

datatype read_step = Failed | Stopped reader | Continue reader

text \<open>The result of \<open>DNSBufAddData\<close> is ignored here; the buffer is not a user's, so it has room.\<close>

definition add_text :: "(nat \<Rightarrow> u8) \<Rightarrow> u8 list \<Rightarrow> int \<Rightarrow> reader \<Rightarrow> reader option" where
  "add_text junk data n r = map_option (\<lambda>(_, db). r\<lparr>dr_name_buf := db\<rparr>) (DNSBufAddData junk (dr_name_buf r) data n)"

definition is_pointer :: "u8 \<Rightarrow> bool" where
  "is_pointer b \<longleftrightarrow> b AND DNS_PTR_PATTERN_BYTE_MASK = DNS_PTR_PATTERN_BYTE_MASK"

text \<open>Moving the scan point when the read head is there: \<open>None\<close> when fewer than \<open>n\<close> bytes are left.\<close>

definition advance :: "nat \<Rightarrow> reader \<Rightarrow> reader option" where
  "advance n r =
     (if dr_read_head r \<ge> dr_scan r
      then if dr_left r < n then None else Some (r\<lparr>dr_scan := dr_scan r + n, dr_left := dr_left r - n\<rparr>)
      else Some r)"

definition read_pointer :: "u8 list \<Rightarrow> bool \<Rightarrow> reader \<Rightarrow> read_step option" where
  "read_pointer buffer single r =
     (if single then Some Failed
      else
        (case advance 2 r of
           None \<Rightarrow> Some Failed
         | Some r1 \<Rightarrow> do {
             v \<leftarrow> net_uint16_get (drop (dr_read_head r) buffer);
             let ptr = unat (v AND DNS_PTR_VALUE_MASK);
             Some (if ptr \<ge> dr_read_head r then Failed
                   else if dr_last_completed_name r = 0 \<or> ptr \<ge> dr_last_completed_name r then Failed
                   else if ptr \<notin> set (dr_offsets r) then Failed
                   else Continue (r1\<lparr>dr_read_head := ptr\<rparr>)) }))"

definition read_end :: "(nat \<Rightarrow> u8) \<Rightarrow> bool \<Rightarrow> bool \<Rightarrow> reader \<Rightarrow> read_step option" where
  "read_end junk single preserve r = do {
     r1 \<leftarrow> (if preserve then add_text junk [dot] 1 r else Some r);
     r2 \<leftarrow> add_text junk [0] 1 r1;
     let r3 = r2\<lparr>dr_last_completed_name := dr_scan r2, dr_read_head := dr_scan r2,
                 dr_list_count := dr_list_count r2 + 1, dr_first := True\<rparr>;
     Some (if single then Stopped r3 else Continue r3) }"

definition read_label :: "(nat \<Rightarrow> u8) \<Rightarrow> u8 list \<Rightarrow> nat \<Rightarrow> reader \<Rightarrow> read_step option" where
  "read_label junk buffer len r =
     (let r1 = (if dr_read_head r \<in> set (dr_offsets r) then r
                else r\<lparr>dr_offsets := dr_offsets r @ [dr_read_head r]\<rparr>)
      in do {
        r2 \<leftarrow> (if dr_first r1 then Some (r1\<lparr>dr_first := False\<rparr>) else add_text junk [dot] 1 r1);
        r3 \<leftarrow> add_text junk (drop (dr_read_head r + 1) buffer) (int len) r2;
        Some (Continue (r3\<lparr>dr_read_head := dr_read_head r3 + (len + 1)\<rparr>)) })"

definition read_one :: "(nat \<Rightarrow> u8) \<Rightarrow> u8 list \<Rightarrow> bool \<Rightarrow> bool \<Rightarrow> reader \<Rightarrow> read_step option" where
  "read_one junk buffer single preserve r = do {
     b \<leftarrow> rd buffer (dr_read_head r);
     if is_pointer b then read_pointer buffer single r
     else if dr_read_head r \<ge> dr_scan r \<and> unat b > DNS_LABEL_LENGTH_MAX then Some Failed
     else
       (case advance (unat b + 1) r of
          None \<Rightarrow> Some Failed
        | Some r1 \<Rightarrow> if b = 0 then read_end junk single preserve r1 else read_label junk buffer (unat b) r1) }"

text \<open>The loop.  It has no bound of its own: a run that does not end has no result.\<close>

partial_function (option) read_loop ::
  "(nat \<Rightarrow> u8) \<Rightarrow> u8 list \<Rightarrow> bool \<Rightarrow> bool \<Rightarrow> reader \<Rightarrow> (bool \<times> reader) option" where
  "read_loop junk buffer single preserve r =
     (if dr_read_head r < length buffer then
        Option.bind (read_one junk buffer single preserve r) (\<lambda>s.
          case s of
            Failed \<Rightarrow> Some (False, r)
          | Stopped r' \<Rightarrow> Some (True, r')
          | Continue r' \<Rightarrow> read_loop junk buffer single preserve r')
      else Some (True, r))"

declare read_loop.simps [code]

text \<open>The result is the number of names and the buffer with their strings, 0 and no buffer for a failure.\<close>

definition DNSNameListCreateWithDNSBuf ::
  "(nat \<Rightarrow> u8) \<Rightarrow> u8 list option \<Rightarrow> byte_buf \<Rightarrow> bool \<Rightarrow> bool \<Rightarrow> (nat \<times> byte_buf option) option" where
  "DNSNameListCreateWithDNSBuf junk buffer name_buf single preserve =
     (case buffer of
        None \<Rightarrow> Some (0, None)
      | Some [] \<Rightarrow> Some (0, None)
      | Some b \<Rightarrow> do {
          (ok, r) \<leftarrow> read_loop junk b single preserve
             \<lparr>dr_offsets = [], dr_last_completed_name = 0, dr_left = length b, dr_scan = 0, dr_read_head = 0,
               dr_name_buf = name_buf, dr_list_count = 0, dr_first = True\<rparr>;
          if \<not> ok then Some (0, None)
          else if dr_list_count r = 0 then
            if bb_used (dr_name_buf r) \<noteq> 0 \<and> single then do {
              r' \<leftarrow> add_text junk [0] 1 r;
              Some (1, Some (dr_name_buf r')) }
            else Some (0, None)
          else Some (dr_list_count r, Some (dr_name_buf r)) })"

text \<open>The strings of the new block: each ends at the next zero byte, which has to be there.\<close>

fun c_strings :: "nat \<Rightarrow> u8 list \<Rightarrow> u8 list list option" where
  "c_strings 0 bs = Some []"
| "c_strings (Suc n) bs =
     (if 0 \<in> set bs
      then let s = takeWhile (\<lambda>b. b \<noteq> 0) bs in map_option (Cons s) (c_strings n (drop (length s + 1) bs))
      else None)"

definition DNSNameListCreate :: "(nat \<Rightarrow> u8) \<Rightarrow> u8 list option \<Rightarrow> bool \<Rightarrow> bool \<Rightarrow> u8 list list option option" where
  "DNSNameListCreate junk buffer single preserve = do {
     (list_count, name_buf) \<leftarrow> DNSNameListCreateWithDNSBuf junk buffer (DNSBufInit None) single preserve;
     if list_count = 0 then Some None
     else do {
       nb \<leftarrow> name_buf;
       bs \<leftarrow> rdn (bb_buf nb) 0 (nat (bb_used nb));
       map_option Some (c_strings list_count bs) } }"

end
