(* ===== verification/DNSNameFacts.thy ===== *)
theory DNSNameFacts
  imports DNSNameList
begin

text \<open>
  Facts about lists of domain names.  Reading: the positions the read head can reach from a position
  form a chain, and every known label starts one that ends, so that reading ends on any bytes.
  Writing: what a name and a list of names are written as, and that reading gives the names back.
\<close>

section \<open>Chains of labels\<close>

definition ptr_at :: "u8 list \<Rightarrow> nat \<Rightarrow> nat" where
  "ptr_at B p = unat ((push_bit 8 (ucast (B ! p)) OR ucast (B ! (p + 1)) :: u16) AND DNS_PTR_VALUE_MASK)"

text \<open>The size of what is at a position, and the position the read head goes to from there.\<close>

definition item_size :: "u8 list \<Rightarrow> nat \<Rightarrow> nat" where
  "item_size B p = (if is_pointer (B ! p) then 2 else unat (B ! p) + 1)"

definition next_item :: "u8 list \<Rightarrow> nat \<Rightarrow> nat option" where
  "next_item B p = (if is_pointer (B ! p) then Some (ptr_at B p) else if B ! p = 0 then None else Some (p + unat (B ! p) + 1))"

definition within :: "u8 list \<Rightarrow> nat \<Rightarrow> nat \<Rightarrow> bool" where
  "within B L p \<longleftrightarrow> p + item_size B p \<le> L"

text \<open>A chain of \<open>n\<close> steps below \<open>L\<close>, to an end label and to a position.\<close>

fun ends :: "u8 list \<Rightarrow> nat \<Rightarrow> nat \<Rightarrow> nat \<Rightarrow> bool" where
  "ends B L 0 p \<longleftrightarrow> within B L p \<and> next_item B p = None"
| "ends B L (Suc n) p \<longleftrightarrow> within B L p \<and> (\<exists>q. next_item B p = Some q \<and> ends B L n q)"

fun path :: "u8 list \<Rightarrow> nat \<Rightarrow> nat \<Rightarrow> nat \<Rightarrow> nat \<Rightarrow> bool" where
  "path B L 0 p q \<longleftrightarrow> p = q"
| "path B L (Suc n) p q \<longleftrightarrow> within B L p \<and> (\<exists>r. next_item B p = Some r \<and> path B L n r q)"

lemma item_size_pos: "0 < item_size B p"
  by (simp add: item_size_def)

lemma within_less: "within B L p \<Longrightarrow> p < L"
  using item_size_pos [of B p] by (simp add: within_def)

lemma within_mono: "within B L p \<Longrightarrow> L \<le> L' \<Longrightarrow> within B L' p"
  by (simp add: within_def)

lemma ends_mono: "ends B L n p \<Longrightarrow> L \<le> L' \<Longrightarrow> ends B L' n p"
  by (induction n arbitrary: p) (auto intro: within_mono)

lemma path_mono: "path B L n p q \<Longrightarrow> L \<le> L' \<Longrightarrow> path B L' n p q"
  by (induction n arbitrary: p) (auto intro: within_mono)

lemma path_ends: "path B L n p q \<Longrightarrow> ends B L m q \<Longrightarrow> ends B L (n + m) p"
  by (induction n arbitrary: p) auto

lemma path_step: "path B L n p q \<Longrightarrow> within B L q \<Longrightarrow> next_item B q = Some r \<Longrightarrow> path B L (Suc n) p r"
  by (induction n arbitrary: p) auto

lemma ends_within: "ends B L n p \<Longrightarrow> within B L p"
  by (cases n) auto

section \<open>Reading ends\<close>

text \<open>
  What holds while reading.  A known label is either part of a name that is complete, or belongs to the
  current name and has a chain to the read head; a read head before the scan point is on a chain of
  \<open>n - 1\<close> steps that ends.
\<close>

definition known :: "u8 list \<Rightarrow> reader \<Rightarrow> bool" where
  "known B r \<longleftrightarrow> (\<forall>l \<in> set (dr_offsets r).
     (\<exists>n. ends B (dr_last_completed_name r) n l) \<or>
     dr_last_completed_name r \<le> l \<and> (\<exists>n. path B (dr_scan r) n l (dr_read_head r)))"

definition texts :: "reader \<Rightarrow> u8 list \<Rightarrow> bool" where
  "texts r bs \<longleftrightarrow> bb_holds (dr_name_buf r) bs \<and> bb_room (dr_name_buf r) = None"

definition reading :: "u8 list \<Rightarrow> nat \<Rightarrow> reader \<Rightarrow> bool" where
  "reading B n r \<longleftrightarrow> dr_scan r + dr_left r = length B \<and> dr_last_completed_name r \<le> dr_scan r \<and> known B r \<and>
     (if n = 0 then dr_read_head r = dr_scan r
      else dr_read_head r < dr_scan r \<and> ends B (dr_last_completed_name r) (n - 1) (dr_read_head r)) \<and>
     (\<exists>bs. texts r bs \<and> dr_list_count r \<le> count_list bs 0)"

lemma add_text_ok:
  assumes "texts r bs" "n \<le> length data"
  obtains db where "add_text junk data (int n) r = Some (r\<lparr>dr_name_buf := db\<rparr>)" "texts (r\<lparr>dr_name_buf := db\<rparr>) (bs @ take n data)"
  using bb128.add_fits [of "dr_name_buf r" bs n data junk] assms
  by (auto simp: add_text_def DNSBufAddData_def texts_def fits_def)

lemma get_pointer: "p + 2 \<le> length B \<Longrightarrow>
    \<exists>v. net_uint16_get (drop p B) = Some v \<and> unat (v AND DNS_PTR_VALUE_MASK) = ptr_at B p"
  by (simp add: net_uint16_get_def rd_def ptr_at_def)

text \<open>The read head at an item that is inside the buffer; where it is depends on whether it is followed.\<close>

lemma advance_cases:
  assumes "reading B n r"
  obtains (short) "n = 0" "advance k r = None" "length B < dr_scan r + k"
  | (new) "n = 0" "advance k r = Some (r\<lparr>dr_scan := dr_scan r + k, dr_left := dr_left r - k\<rparr>)" "dr_scan r + k \<le> length B"
  | (old) m where "n = Suc m" "advance k r = Some r" "ends B (dr_last_completed_name r) m (dr_read_head r)"
proof (cases n)
  case 0
  then show ?thesis using assms short new by (cases "dr_left r < k") (auto simp: reading_def advance_def)
next
  case (Suc m)
  then show ?thesis using assms by (intro old [of m]) (auto simp: reading_def advance_def)
qed

lemma known_move:
  assumes "known B r" "dr_scan r \<le> S" "within B S (dr_read_head r)" "next_item B (dr_read_head r) = Some q"
    and "dr_offsets r' = dr_offsets r" "dr_last_completed_name r' = dr_last_completed_name r" "dr_scan r' = S" "dr_read_head r' = q"
  shows "known B r'"
  unfolding known_def assms(5-8)
proof
  fix l assume "l \<in> set (dr_offsets r)"
  then consider n where "ends B (dr_last_completed_name r) n l"
    | n where "dr_last_completed_name r \<le> l" "path B (dr_scan r) n l (dr_read_head r)"
    using assms(1) by (auto simp: known_def)
  then show "(\<exists>n. ends B (dr_last_completed_name r) n l) \<or> dr_last_completed_name r \<le> l \<and> (\<exists>n. path B S n l q)"
  proof cases
    case (2 n)
    then have "path B S (Suc n) l q" using path_step path_mono assms(2-4) by blast
    with 2(1) show ?thesis by blast
  qed blast
qed

lemma known_done:
  assumes "known B r" "dr_last_completed_name r \<le> S" "dr_scan r \<le> S" "within B S (dr_read_head r)"
    and "next_item B (dr_read_head r) = None" "dr_offsets r' = dr_offsets r" "dr_last_completed_name r' = S"
  shows "known B r'"
  unfolding known_def assms(6,7)
proof
  fix l assume "l \<in> set (dr_offsets r)"
  then consider n where "ends B (dr_last_completed_name r) n l" | n where "path B (dr_scan r) n l (dr_read_head r)"
    using assms(1) by (auto simp: known_def)
  then have "\<exists>n. ends B S n l"
  proof cases
    case 1
    then show ?thesis using ends_mono assms(2) by blast
  next
    case (2 n)
    moreover have "ends B S 0 (dr_read_head r)" using assms(4,5) by simp
    ultimately show ?thesis using path_ends path_mono [OF _ assms(3)] by blast
  qed
  then show "(\<exists>n. ends B S n l) \<or> S \<le> l \<and> (\<exists>n. path B (dr_scan r') n l (dr_read_head r'))" ..
qed

lemma known_insert:
  assumes "known B r" "dr_last_completed_name r \<le> dr_read_head r \<or> (\<exists>n. ends B (dr_last_completed_name r) n (dr_read_head r))"
  shows "known B (r\<lparr>dr_offsets := dr_offsets r @ [dr_read_head r]\<rparr>)"
proof -
  have "\<exists>n. path B (dr_scan r) n (dr_read_head r) (dr_read_head r)" by (rule exI [of _ 0]) simp
  then show ?thesis using assms unfolding known_def by auto
qed

definition progress :: "u8 list \<Rightarrow> nat \<Rightarrow> reader \<Rightarrow> read_step \<Rightarrow> bool" where
  "progress B n r s \<longleftrightarrow>
     (case s of
        Failed \<Rightarrow> True
      | Stopped r' \<Rightarrow> \<exists>m. reading B m r'
      | Continue r' \<Rightarrow> \<exists>m. reading B m r' \<and> (dr_scan r < dr_scan r' \<or> dr_scan r = dr_scan r' \<and> m < n))"

lemma pointer_ok:
  assumes "reading B n r" "dr_read_head r < length B" "is_pointer (B ! dr_read_head r)"
  shows "\<exists>s. read_pointer B single r = Some s \<and> progress B n r s"
proof -
  let ?p = "dr_read_head r"
  have sz: "item_size B ?p = 2" "next_item B ?p = Some (ptr_at B ?p)" using assms(3) by (simp_all add: item_size_def next_item_def)
  have k: "known B r" using assms(1) by (simp add: reading_def)
  show ?thesis
  proof (cases rule: advance_cases [OF assms(1), of 2])
    case 1
    then show ?thesis by (auto simp: read_pointer_def progress_def)
  next
    case 2
    let ?r = "r\<lparr>dr_scan := dr_scan r + 2, dr_left := dr_left r - 2\<rparr>"
    have rh: "?p = dr_scan r" using 2 assms(1) by (simp add: reading_def)
    obtain v where v: "net_uint16_get (drop ?p B) = Some v" "unat (v AND DNS_PTR_VALUE_MASK) = ptr_at B ?p"
      using get_pointer [of ?p B] 2(3) rh by auto
    have "\<exists>m. reading B m (?r\<lparr>dr_read_head := ptr_at B ?p\<rparr>)"
      if q: "ptr_at B ?p < ?p" "ptr_at B ?p < dr_last_completed_name r" "ptr_at B ?p \<in> set (dr_offsets r)"
    proof -
      obtain m where "ends B (dr_last_completed_name r) m (ptr_at B ?p)" using k q by (force simp: known_def)
      moreover have "known B (?r\<lparr>dr_read_head := ptr_at B ?p\<rparr>)"
        by (rule known_move [OF k, of "dr_scan r + 2" "ptr_at B ?p"]) (use sz rh in \<open>simp_all add: within_def\<close>)
      ultimately have "reading B (Suc m) (?r\<lparr>dr_read_head := ptr_at B ?p\<rparr>)"
        using assms(1) 2 rh q(1) by (auto simp: reading_def texts_def)
      then show ?thesis ..
    qed
    then show ?thesis using 2 v by (auto simp: read_pointer_def progress_def Let_def)
  next
    case (3 m)
    have in_: "within B (dr_last_completed_name r) ?p" using 3(3) by (rule ends_within)
    have le: "dr_last_completed_name r \<le> dr_scan r" "dr_scan r \<le> length B" using assms(1) by (auto simp: reading_def)
    obtain v where v: "net_uint16_get (drop ?p B) = Some v" "unat (v AND DNS_PTR_VALUE_MASK) = ptr_at B ?p"
      using get_pointer [of ?p B] in_ le sz by (auto simp: within_def)
    have "\<exists>j. reading B j (r\<lparr>dr_read_head := ptr_at B ?p\<rparr>) \<and> j < n"
      if q: "ptr_at B ?p < ?p"
    proof -
      obtain j where j: "m = Suc j" "ends B (dr_last_completed_name r) j (ptr_at B ?p)" using 3(3) sz by (cases m) auto
      moreover have "known B (r\<lparr>dr_read_head := ptr_at B ?p\<rparr>)"
        by (rule known_move [OF k, of "dr_scan r" "ptr_at B ?p"]) (use sz in_ le in \<open>auto intro: within_mono\<close>)
      ultimately have "reading B (Suc j) (r\<lparr>dr_read_head := ptr_at B ?p\<rparr>)"
        using assms(1) 3 q by (auto simp: reading_def texts_def)
      then show ?thesis using 3(1) j(1) by blast
    qed
    then show ?thesis using 3 v by (auto simp: read_pointer_def progress_def Let_def)
  qed
qed

lemma end_ok:
  assumes "reading B n r" "dr_read_head r < length B" "\<not> is_pointer (B ! dr_read_head r)" "B ! dr_read_head r = 0"
    and "advance 1 r = Some r1"
  shows "\<exists>s. read_end junk single preserve r1 = Some s \<and> progress B n r s"
proof -
  let ?p = "dr_read_head r"
  have sz: "item_size B ?p = 1" "next_item B ?p = None" using assms(3,4) by (simp_all add: item_size_def next_item_def)
  have k: "known B r" and le: "dr_last_completed_name r \<le> dr_scan r" using assms(1) by (simp_all add: reading_def)
  have r1: "dr_scan r1 + dr_left r1 = length B" "dr_scan r \<le> dr_scan r1" "within B (dr_scan r1) ?p"
      "dr_offsets r1 = dr_offsets r" "dr_last_completed_name r1 = dr_last_completed_name r" "dr_read_head r1 = ?p"
      "dr_scan r < dr_scan r1 \<or> dr_scan r = dr_scan r1 \<and> 0 < n" "dr_name_buf r1 = dr_name_buf r" "dr_list_count r1 = dr_list_count r"
  proof -
    have "?p = dr_scan r" if "n = 0" using assms(1) that by (simp add: reading_def)
    moreover have "within B (dr_scan r) ?p" if "ends B (dr_last_completed_name r) m ?p" for m
      using ends_within [OF that] le by (rule within_mono)
    ultimately show "dr_scan r1 + dr_left r1 = length B" "dr_scan r \<le> dr_scan r1" "within B (dr_scan r1) ?p"
        "dr_offsets r1 = dr_offsets r" "dr_last_completed_name r1 = dr_last_completed_name r" "dr_read_head r1 = ?p"
        "dr_scan r < dr_scan r1 \<or> dr_scan r = dr_scan r1 \<and> 0 < n" "dr_name_buf r1 = dr_name_buf r" "dr_list_count r1 = dr_list_count r"
      using assms(1,5) sz by (cases rule: advance_cases [OF assms(1), of 1]; auto simp: reading_def within_def)+
  qed
  obtain bs where bs: "texts r bs" "dr_list_count r \<le> count_list bs 0" using assms(1) by (auto simp: reading_def)
  have t1: "texts r1 bs" using bs r1(8) by (simp add: texts_def)
  obtain db cs where db: "(if preserve then add_text junk [dot] 1 r1 else Some r1) = Some (r1\<lparr>dr_name_buf := db\<rparr>)"
      "texts (r1\<lparr>dr_name_buf := db\<rparr>) (bs @ cs)"
  proof (cases preserve)
    case True
    show ?thesis using add_text_ok [OF t1, of 1 "[dot]" junk] True that by auto
  next
    case False
    then show ?thesis using t1 by (intro that [of "dr_name_buf r1" "[]"]) simp_all
  qed
  obtain db' where db': "add_text junk [0] 1 (r1\<lparr>dr_name_buf := db\<rparr>) = Some (r1\<lparr>dr_name_buf := db'\<rparr>)"
      "texts (r1\<lparr>dr_name_buf := db'\<rparr>) (bs @ cs @ [0])"
    using add_text_ok [OF db(2), of 1 "[0]" junk] by auto
  let ?r = "r1\<lparr>dr_name_buf := db', dr_last_completed_name := dr_scan r1, dr_read_head := dr_scan r1,
              dr_list_count := dr_list_count r1 + 1, dr_first := True\<rparr>"
  have run: "read_end junk single preserve r1 = Some (if single then Stopped ?r else Continue ?r)"
    using db(1) db'(1) by (simp add: read_end_def Let_def)
  have "known B ?r"
    by (rule known_done [OF k, of "dr_scan r1"]) (use r1 le sz in simp_all)
  then have "reading B 0 ?r"
    using r1 bs db'(2) by (auto simp: reading_def texts_def intro!: exI [of _ "bs @ cs @ [0]"])
  then show ?thesis using r1(7) run by (auto simp: progress_def)
qed

lemma label_ok:
  assumes "reading B n r" "dr_read_head r < length B" "\<not> is_pointer (B ! dr_read_head r)" "B ! dr_read_head r \<noteq> 0"
    and "advance (unat (B ! dr_read_head r) + 1) r = Some r1"
  shows "\<exists>s. read_label junk B (unat (B ! dr_read_head r)) r1 = Some s \<and> progress B n r s"
proof -
  let ?p = "dr_read_head r" and ?len = "unat (B ! dr_read_head r)"
  have sz: "item_size B ?p = ?len + 1" "next_item B ?p = Some (?p + ?len + 1)" using assms(3,4) by (simp_all add: item_size_def next_item_def)
  have k: "known B r" and le: "dr_last_completed_name r \<le> dr_scan r" "dr_scan r \<le> length B" using assms(1) by (auto simp: reading_def)
  have rh: "?p = dr_scan r" if "n = 0" using assms(1) that by (simp add: reading_def)
  have wi: "within B (dr_last_completed_name r) ?p" "within B (dr_scan r) ?p" if "ends B (dr_last_completed_name r) m ?p" for m
    using ends_within [OF that] le(1) by (auto intro: within_mono)
  have "dr_scan r1 + dr_left r1 = length B \<and> dr_scan r \<le> dr_scan r1 \<and> within B (dr_scan r1) ?p \<and>
      dr_offsets r1 = dr_offsets r \<and> dr_last_completed_name r1 = dr_last_completed_name r \<and> dr_read_head r1 = ?p \<and>
      dr_name_buf r1 = dr_name_buf r \<and> dr_list_count r1 = dr_list_count r"
  proof (cases rule: advance_cases [OF assms(1), of "?len + 1"])
    case 1
    then show ?thesis using assms(5) by simp
  next
    case 2
    moreover have "dr_scan r + dr_left r = length B" using assms(1) by (simp add: reading_def)
    ultimately show ?thesis using assms(5) sz(1) rh by (auto simp: within_def)
  next
    case (3 m)
    then show ?thesis using assms(1,5) wi(2) [OF 3(3)] by (auto simp: reading_def)
  qed
  then have r1: "dr_scan r1 + dr_left r1 = length B" "dr_scan r \<le> dr_scan r1" "within B (dr_scan r1) ?p"
      "dr_offsets r1 = dr_offsets r" "dr_last_completed_name r1 = dr_last_completed_name r" "dr_read_head r1 = ?p"
      "dr_name_buf r1 = dr_name_buf r" "dr_list_count r1 = dr_list_count r" by blast+
  have cs: "n = 0 \<and> dr_scan r < dr_scan r1 \<and> ?p = dr_scan r \<and> dr_scan r1 = ?p + ?len + 1 \<or>
      (\<exists>m. n = Suc (Suc m) \<and> dr_scan r1 = dr_scan r \<and> within B (dr_last_completed_name r) ?p \<and>
         ends B (dr_last_completed_name r) m (?p + ?len + 1))"
  proof (cases rule: advance_cases [OF assms(1), of "?len + 1"])
    case (3 m)
    then obtain j where "m = Suc j" "ends B (dr_last_completed_name r) j (?p + ?len + 1)" using sz by (cases m) auto
    then show ?thesis using 3 assms(5) wi by auto
  qed (use assms(5) rh in auto)
  have L: "dr_last_completed_name r \<le> ?p \<or> (\<exists>n. ends B (dr_last_completed_name r) n ?p)"
    using cs sz le(1) by (metis ends.simps(2))
  define r2 where "r2 = (if ?p \<in> set (dr_offsets r) then r1 else r1\<lparr>dr_offsets := dr_offsets r @ [?p]\<rparr>)"
  have k2: "known B (r\<lparr>dr_offsets := dr_offsets r2\<rparr>)"
    using k known_insert [OF k L] r1(4) by (simp add: r2_def)
  obtain bs where bs: "texts r bs" "dr_list_count r \<le> count_list bs 0" using assms(1) by (auto simp: reading_def)
  have t2: "texts (r2\<lparr>dr_first := False\<rparr>) bs" "texts r2 bs" using bs r1(7) by (simp_all add: texts_def r2_def)
  obtain db cs' where db: "(if dr_first r2 then Some (r2\<lparr>dr_first := False\<rparr>) else add_text junk [dot] 1 r2) =
        Some (r2\<lparr>dr_name_buf := db, dr_first := False\<rparr>)" "texts (r2\<lparr>dr_name_buf := db, dr_first := False\<rparr>) (bs @ cs')"
  proof (cases "dr_first r2")
    case True
    then show ?thesis using t2 by (intro that [of "dr_name_buf r2" "[]"]) (simp_all add: texts_def)
  next
    case False
    have e: "r2\<lparr>dr_name_buf := d, dr_first := False\<rparr> = r2\<lparr>dr_name_buf := d\<rparr>" for d using False by (cases r2) simp
    obtain d where "add_text junk [dot] (int 1) r2 = Some (r2\<lparr>dr_name_buf := d\<rparr>)" "texts (r2\<lparr>dr_name_buf := d\<rparr>) (bs @ take 1 [dot])"
      by (rule add_text_ok [OF t2(2), of 1 "[dot]" junk]) auto
    then show ?thesis using False by (intro that [of d "[dot]"]) (simp_all add: e)
  qed
  let ?r2 = "r2\<lparr>dr_name_buf := db, dr_first := False\<rparr>"
  have in_: "?len \<le> length (drop (?p + 1) B)" using r1(1,3) sz by (simp add: within_def)
  obtain db' where "add_text junk (drop (?p + 1) B) (int ?len) ?r2 = Some (?r2\<lparr>dr_name_buf := db'\<rparr>)"
      "texts (?r2\<lparr>dr_name_buf := db'\<rparr>) ((bs @ cs') @ take ?len (drop (?p + 1) B))"
    by (rule add_text_ok [OF db(2) in_])
  then have db': "add_text junk (drop (?p + 1) B) (int ?len) ?r2 = Some (r2\<lparr>dr_first := False, dr_name_buf := db'\<rparr>)"
      "texts (r2\<lparr>dr_first := False, dr_name_buf := db'\<rparr>) (bs @ cs' @ take ?len (drop (?p + 1) B))" by simp_all
  let ?r = "r2\<lparr>dr_first := False, dr_name_buf := db', dr_read_head := ?p + ?len + 1\<rparr>"
  have rh2: "dr_read_head r2 = ?p" using r1(6) by (simp add: r2_def)
  have "read_label junk B ?len r1 = (do {
        r3 \<leftarrow> (if dr_first r2 then Some (r2\<lparr>dr_first := False\<rparr>) else add_text junk [dot] 1 r2);
        r4 \<leftarrow> add_text junk (drop (?p + 1) B) (int ?len) r3;
        Some (Continue (r4\<lparr>dr_read_head := dr_read_head r4 + (?len + 1)\<rparr>)) })"
    unfolding read_label_def r1(4,6) r2_def [symmetric] Let_def by (rule refl)
  then have run: "read_label junk B ?len r1 = Some (Continue ?r)"
    using rh2 db'(1) unfolding db(1) by (simp add: add.assoc)
  have kn: "known B ?r"
    by (rule known_move [OF k2, of "dr_scan r1" "?p + ?len + 1"]) (use r1 sz in \<open>simp_all add: r2_def\<close>)
  have b2: "dr_scan ?r = dr_scan r1" "dr_left ?r = dr_left r1" "dr_last_completed_name ?r = dr_last_completed_name r"
      "dr_list_count ?r = dr_list_count r" using r1 by (simp_all add: r2_def)
  have tx: "\<exists>bs. texts ?r bs \<and> dr_list_count ?r \<le> count_list bs 0"
    using db'(2) bs(2) b2(4) by (intro exI [of _ "bs @ cs' @ take ?len (drop (?p + 1) B)"]) (simp add: texts_def)
  have "\<exists>m. reading B m ?r \<and> (dr_scan r < dr_scan ?r \<or> dr_scan r = dr_scan ?r \<and> m < n)"
    using cs
  proof (elim disjE conjE exE)
    assume "n = 0" "dr_scan r < dr_scan r1" "dr_scan r1 = ?p + ?len + 1"
    then have "reading B 0 ?r" unfolding reading_def b2 using kn tx r1(1,2) le b2(4) by simp
    then show ?thesis using b2(1) \<open>dr_scan r < dr_scan r1\<close> by metis
  next
    fix m assume m: "n = Suc (Suc m)" "dr_scan r1 = dr_scan r" "ends B (dr_last_completed_name r) m (?p + ?len + 1)"
    then have "?p + ?len + 1 < dr_scan r1" using within_less [OF ends_within] le(1) by force
    then have "reading B (Suc m) ?r" unfolding reading_def b2 using kn tx r1(1,2) le m b2(4) by simp
    then show ?thesis using m b2(1) by (metis lessI)
  qed
  then show ?thesis using run by (auto simp: progress_def)
qed

lemma read_one_ok:
  assumes "reading B n r" "dr_read_head r < length B"
  shows "\<exists>s. read_one junk B single preserve r = Some s \<and> progress B n r s"
proof (cases "is_pointer (B ! dr_read_head r)")
  case True
  then show ?thesis using pointer_ok [OF assms] assms(2) by (simp add: read_one_def mem)
next
  case False
  show ?thesis
  proof (cases "dr_read_head r \<ge> dr_scan r \<and> unat (B ! dr_read_head r) > DNS_LABEL_LENGTH_MAX \<or>
      advance (unat (B ! dr_read_head r) + 1) r = None")
    case True
    then show ?thesis using False assms(2) by (auto simp: read_one_def mem progress_def)
  next
    case ok: False
    then obtain r1 where "advance (unat (B ! dr_read_head r) + 1) r = Some r1" by auto
    then show ?thesis
      using ok False assms(2) end_ok [OF assms False, of r1 junk single preserve] label_ok [OF assms False, of r1 junk]
      by (cases "B ! dr_read_head r = 0") (auto simp: read_one_def mem)
  qed
qed

text \<open>The loop ends: either the scan point moves on or the chain that is followed gets shorter.\<close>

lemma read_loop_ok:
  assumes "reading B n r" "length B - dr_scan r = d"
  shows "\<exists>ok r'. read_loop junk B single preserve r = Some (ok, r') \<and> (\<exists>m. reading B m r')"
  using assms
proof (induction d arbitrary: n r rule: less_induct)
  case (less d)
  note scan_moves = less.IH
  show ?case
    using less.prems
  proof (induction n arbitrary: r rule: less_induct)
    case (less n)
    show ?case
    proof (cases "dr_read_head r < length B")
      case False
      then show ?thesis using less.prems(1) by (subst read_loop.simps) auto
    next
      case True
      obtain s where s: "read_one junk B single preserve r = Some s" "progress B n r s"
        using read_one_ok [OF less.prems(1) True] by blast
      show ?thesis
      proof (cases s)
        case (Continue r')
        then obtain m where m: "reading B m r'" "dr_scan r < dr_scan r' \<or> dr_scan r = dr_scan r' \<and> m < n"
          using s(2) by (auto simp: progress_def)
        have "dr_scan r' \<le> length B" using m(1) by (auto simp: reading_def)
        then have "\<exists>ok r''. read_loop junk B single preserve r' = Some (ok, r'') \<and> (\<exists>m. reading B m r'')"
          using m less.IH [of m r'] scan_moves [of "length B - dr_scan r'" m r'] less.prems(2) by fastforce
        then show ?thesis using s(1) True Continue by (subst read_loop.simps) auto
      next
        case Failed
        then show ?thesis using less.prems(1) s True by (subst read_loop.simps) auto
      next
        case (Stopped r')
        then show ?thesis using s True by (subst read_loop.simps) (auto simp: progress_def)
      qed
    qed
  qed
qed

lemma c_strings_ok: "n \<le> count_list bs 0 \<Longrightarrow> \<exists>ss. c_strings n bs = Some ss \<and> length ss = n"
proof (induction n arbitrary: bs)
  case (Suc n)
  then have in_: "0 \<in> set bs" by (metis count_list_0_iff not_less_eq_eq zero_le)
  then obtain as cs where bs: "bs = as @ 0 # cs" "0 \<notin> set as" by (metis split_list_first)
  then have "n \<le> count_list cs 0" "takeWhile (\<lambda>b. b \<noteq> 0) bs = as" using Suc.prems by (auto simp: takeWhile_append)
  then show ?case using Suc.IH [of cs] in_ bs by (auto simp: Let_def)
qed simp

text \<open>Reading into an empty buffer: no name, or a block in use that holds as many strings as names.\<close>

lemma names_buf_read:
  obtains n nb where "DNSNameListCreateWithDNSBuf junk (Some B) (DNSBufInit None) single preserve = Some (n, nb)"
    "n \<noteq> 0 \<longrightarrow> (\<exists>b cs. nb = Some b \<and> rdn (bb_buf b) 0 (nat (bb_used b)) = Some cs \<and> n \<le> count_list cs 0)"
proof (cases "B = []")
  case True
  then show ?thesis by (intro that [of 0 None]) (simp_all add: DNSNameListCreateWithDNSBuf_def)
next
  case False
  let ?r = "\<lparr>dr_offsets = [], dr_last_completed_name = 0, dr_left = length B, dr_scan = 0, dr_read_head = 0,
     dr_name_buf = DNSBufInit None, dr_list_count = 0, dr_first = True\<rparr>"
  have "reading B 0 ?r" using buf_init_holds(1) [of 128]
    by (auto simp: reading_def known_def texts_def DNSBufInit_def intro!: exI [of _ "[]"])
  from read_loop_ok [OF this refl] obtain ok r m where r: "read_loop junk B single preserve ?r = Some (ok, r)" "reading B m r" by blast
  obtain bs where bs: "texts r bs" "dr_list_count r \<le> count_list bs 0" using r(2) by (auto simp: reading_def)
  obtain db where db: "add_text junk [0] 1 r = Some (r\<lparr>dr_name_buf := db\<rparr>)" "texts (r\<lparr>dr_name_buf := db\<rparr>) (bs @ [0])"
    using add_text_ok [OF bs(1), of 1 "[0]" junk] by auto
  have "\<exists>n nb. DNSNameListCreateWithDNSBuf junk (Some B) (DNSBufInit None) single preserve = Some (n, nb) \<and>
      (n \<noteq> 0 \<longrightarrow> (\<exists>b cs. nb = Some b \<and> bb_holds b cs \<and> n \<le> count_list cs 0))"
    using False r(1) db bs by (cases B) (auto simp: DNSNameListCreateWithDNSBuf_def texts_def)
  then obtain n nb where n: "DNSNameListCreateWithDNSBuf junk (Some B) (DNSBufInit None) single preserve = Some (n, nb)"
      "n \<noteq> 0 \<Longrightarrow> \<exists>b cs. nb = Some b \<and> bb_holds b cs \<and> n \<le> count_list cs 0" by blast
  have "rdn (bb_buf b) 0 (nat (bb_used b)) = Some cs" if "bb_holds b cs" for b cs
    using that bb_holds_le [OF that] by (simp add: bb_holds_def rdn_def)
  then show ?thesis using n by (intro that [of n nb]) blast+
qed

text \<open>C34. Any bytes can be read as a list of domain names: reading ends, whatever the pointers in them, it
  never looks outside the bytes, and it gives an error or at least one name.\<close>

theorem names_read_safely:
  "\<exists>out. DNSNameListCreate junk (Some B) single preserve = Some out \<and> out \<noteq> Some []"
proof -
  obtain n nb where n: "DNSNameListCreateWithDNSBuf junk (Some B) (DNSBufInit None) single preserve = Some (n, nb)"
    "n \<noteq> 0 \<longrightarrow> (\<exists>b cs. nb = Some b \<and> rdn (bb_buf b) 0 (nat (bb_used b)) = Some cs \<and> n \<le> count_list cs 0)"
    by (rule names_buf_read)
  show ?thesis
  proof (cases "n = 0")
    case False
    then obtain b cs where b: "nb = Some b" "rdn (bb_buf b) 0 (nat (bb_used b)) = Some cs" "n \<le> count_list cs 0" using n(2) by blast
    then show ?thesis using c_strings_ok [OF b(3)] n(1) False by (auto simp: DNSNameListCreate_def)
  qed (simp add: n(1) DNSNameListCreate_def)
qed

end
