(* ===== verification/DNSServers.thy ===== *)
theory DNSServers
  imports DNSNameFacts
begin

text \<open>
  Encrypted DNS servers (\<open>bootplib/DNSEncryptedServers.c\<close>), as DHCP, DHCPv6 and router advertisements
  carry them: parsing an instance, the entry of the configuration made of it, and lists of entries.

  \<open>names_env\<close> holds what the code takes from its surroundings: the contents of memory that \<open>malloc\<close>
  returns, whether \<open>CFStringCreateWithCString\<close> accepts bytes as UTF-8, the text of an address, and
  \<open>CFArraySortValues\<close> with the comparison by priority.  An address is the list of its bytes.
\<close>

record server_entry =
  se_priority :: int
  se_adn :: "u8 list"
  se_addresses :: "string list"
  se_params :: "u8 list"

record names_env =
  ne_junk :: "nat \<Rightarrow> u8"
  ne_utf8 :: "u8 list \<Rightarrow> bool"
  ne_ntop :: "u8 list \<Rightarrow> string"
  ne_sort :: "server_entry list \<Rightarrow> server_entry list"

section \<open>One name as a string (DNSNameList.c)\<close>

definition DNSNameStringCreate :: "names_env \<Rightarrow> u8 list \<Rightarrow> bool \<Rightarrow> u8 list option option" where
  "DNSNameStringCreate env buffer preserve_end_label = do {
     (list_count, name_buf) \<leftarrow>
       DNSNameListCreateWithDNSBuf (ne_junk env) (Some buffer) (DNSBufInit None) True preserve_end_label;
     if list_count = 0 then Some None
     else do {
       nb \<leftarrow> name_buf;
       bs \<leftarrow> rdn (bb_buf nb) 0 (nat (bb_used nb));
       ss \<leftarrow> c_strings 1 bs;
       Some (if ne_utf8 env (hd ss) then Some (hd ss) else None) } }"

section \<open>Parsing an instance\<close>

datatype dnr_type = DNRInstanceTypeDHCPv4 | DNRInstanceTypeDHCPv6 | DNRInstanceTypeRA

record encrypted_server =
  es_type :: dnr_type
  es_service_priority :: u16
  es_adn :: "u8 list"
  es_addr_list :: "u8 list list"
  es_svc_params :: "u8 list"

definition ADN_LEN_MIN :: int where "ADN_LEN_MIN = 1"
definition ADN_LEN_MAX :: int where "ADN_LEN_MAX = 255"

definition DNR_INSTANCE_MIN_LEN_dhcpv4 :: int where "DNR_INSTANCE_MIN_LEN_dhcpv4 = 2 + 1 + ADN_LEN_MIN + 1 + 4"
definition DNR_INSTANCE_MIN_LEN_dhcpv6 :: int where "DNR_INSTANCE_MIN_LEN_dhcpv6 = 2 + 2 + ADN_LEN_MIN + 2 + 16"
definition DNR_INSTANCE_MIN_LEN_ra :: int where "DNR_INSTANCE_MIN_LEN_ra = 2 + 4 + 2 + ADN_LEN_MIN + 2 + 16 + 2"

text \<open>Addresses that are left out: unspecified, broadcast, loopback and multicast ones.\<close>

definition ignored_v4 :: "u8 list \<Rightarrow> bool" where
  "ignored_v4 ip \<longleftrightarrow> ip = [0, 0, 0, 0] \<or> ip = [255, 255, 255, 255] \<or> ip = [127, 0, 0, 1] \<or> hd ip AND 0xf0 = 0xe0"

definition ignored_v6 :: "u8 list \<Rightarrow> bool" where
  "ignored_v6 ip \<longleftrightarrow> ip = replicate 16 0 \<or> hd ip = 0xff \<or> ip = replicate 15 0 @ [1]"

fun addr_loop :: "nat \<Rightarrow> (u8 list \<Rightarrow> bool) \<Rightarrow> nat \<Rightarrow> u8 list \<Rightarrow> u8 list list option" where
  "addr_loop sz ignored 0 scan = Some []"
| "addr_loop sz ignored (Suc n) scan = do {
     ip \<leftarrow> rdn scan 0 sz;
     ips \<leftarrow> addr_loop sz ignored n (drop sz scan);
     Some (if ignored ip then ips else ip # ips) }"

text \<open>
  The steps the three parsers share: the authentication domain name of \<open>adn_len\<close> bytes and the
  \<open>addr_len\<close> bytes of addresses at \<open>scan\<close>, where \<open>left\<close> bytes of the instance remain.  \<open>Some None\<close>
  is the way to \<open>done\<close> without success.
\<close>

definition read_adn :: "names_env \<Rightarrow> u8 list \<Rightarrow> int \<Rightarrow> int \<Rightarrow> u8 list option option" where
  "read_adn env scan left adn_len =
     (if adn_len < ADN_LEN_MIN \<or> adn_len > ADN_LEN_MAX then Some None
      else if left < adn_len then Some None
      else do { name \<leftarrow> rdn scan 0 (nat adn_len); DNSNameStringCreate env name False })"

definition read_addrs :: "nat \<Rightarrow> (u8 list \<Rightarrow> bool) \<Rightarrow> u8 list \<Rightarrow> int \<Rightarrow> nat \<Rightarrow> u8 list list option option" where
  "read_addrs sz ignored scan left addr_len =
     (if left < int addr_len \<or> addr_len mod sz \<noteq> 0 then Some None
      else if left < int (addr_len div sz * sz) then Some None
      else do {
        ips \<leftarrow> addr_loop sz ignored (addr_len div sz) scan;
        Some (if ips = [] then None else Some ips) })"

text \<open>The result of the first is the instance and the new value of \<open>*offset_p\<close>.\<close>

definition DNSEncryptedServerCreateWithDHCPv4Data ::
  "names_env \<Rightarrow> u8 list \<Rightarrow> int \<Rightarrow> int \<Rightarrow> (encrypted_server \<times> int) option option" where
  "DNSEncryptedServerCreateWithDHCPv4Data env dnr_data dnr_data_len offset =
     (if offset < 0 \<or> offset \<ge> dnr_data_len then Some None
      else if dnr_data_len - offset < DNR_INSTANCE_MIN_LEN_dhcpv4 then Some None
      else do {
        let p = drop (nat offset) dnr_data;
        instance_len \<leftarrow> net_uint16_get p;
        if dnr_data_len - offset < uint instance_len + 2 then Some None
        else if uint instance_len < 3 then Some None
        else do {
          service_priority \<leftarrow> net_uint16_get (drop 2 p);
          adn_len \<leftarrow> rd p 4;
          let left = uint instance_len - 3;
          name \<leftarrow> read_adn env (drop 5 p) left (uint adn_len);
          (case name of
             None \<Rightarrow> Some None
           | Some adn \<Rightarrow>
               let p1 = drop (5 + unat adn_len) p; left1 = left - uint adn_len in
               if left1 < 1 then Some None
               else do {
                 addr_len \<leftarrow> rd p1 0;
                 let left2 = left1 - 1;
                 addrs \<leftarrow> read_addrs 4 ignored_v4 (drop 1 p1) left2 (unat addr_len);
                 (case addrs of
                    None \<Rightarrow> Some None
                  | Some addr_list \<Rightarrow> do {
                      let used = int (unat addr_len div 4 * 4);
                      let svc_params_data_len = (word_of_int (left2 - used) :: u16);
                      params \<leftarrow> rdn p1 (1 + nat used) (unat svc_params_data_len);
                      Some (Some
                        (\<lparr>es_type = DNRInstanceTypeDHCPv4, es_service_priority = service_priority, es_adn = adn,
                          es_addr_list = addr_list, es_svc_params = params\<rparr>,
                         offset + 5 + uint adn_len + 1 + used + uint svc_params_data_len)) }) }) } })"

text \<open>\<open>addr_len\<close> is a \<open>uint8_t\<close> here: it keeps the low byte of the length in the packet.\<close>

definition DNSEncryptedServerCreateWithDHCPv6Data :: "names_env \<Rightarrow> u8 list \<Rightarrow> int \<Rightarrow> encrypted_server option option" where
  "DNSEncryptedServerCreateWithDHCPv6Data env dnr_data dnr_data_len =
     (if dnr_data_len < DNR_INSTANCE_MIN_LEN_dhcpv6 then Some None
      else do {
        service_priority \<leftarrow> net_uint16_get dnr_data;
        adn_len \<leftarrow> net_uint16_get (drop 2 dnr_data);
        let left = dnr_data_len - 4;
        name \<leftarrow> read_adn env (drop 4 dnr_data) left (uint adn_len);
        (case name of
           None \<Rightarrow> Some None
         | Some adn \<Rightarrow>
             let p1 = drop (4 + unat adn_len) dnr_data; left1 = left - uint adn_len in
             if left1 < 2 then Some None
             else do {
               addr_len16 \<leftarrow> net_uint16_get p1;
               let addr_len = unat (ucast addr_len16 :: u8);
               let left2 = left1 - 2;
               addrs \<leftarrow> read_addrs 16 ignored_v6 (drop 2 p1) left2 addr_len;
               (case addrs of
                  None \<Rightarrow> Some None
                | Some addr_list \<Rightarrow> do {
                    let used = int (addr_len div 16 * 16);
                    let svc_params_data_len = (word_of_int (left2 - used) :: u16);
                    params \<leftarrow> rdn p1 (2 + nat used) (unat svc_params_data_len);
                    Some (Some
                      \<lparr>es_type = DNRInstanceTypeDHCPv6, es_service_priority = service_priority, es_adn = adn,
                       es_addr_list = addr_list, es_svc_params = params\<rparr>) }) }) })"

definition DNSEncryptedServerCreateWithRAData :: "names_env \<Rightarrow> u8 list \<Rightarrow> int \<Rightarrow> encrypted_server option option" where
  "DNSEncryptedServerCreateWithRAData env dnr_data dnr_data_len =
     (if dnr_data_len < DNR_INSTANCE_MIN_LEN_ra then Some None
      else do {
        service_priority \<leftarrow> net_uint16_get dnr_data;
        let left = dnr_data_len - 8;
        adn_len \<leftarrow> net_uint16_get (drop 6 dnr_data);
        name \<leftarrow> read_adn env (drop 8 dnr_data) left (uint adn_len);
        (case name of
           None \<Rightarrow> Some None
         | Some adn \<Rightarrow>
             let p1 = drop (8 + unat adn_len) dnr_data; left1 = left - uint adn_len in
             if left1 < 2 then Some None
             else do {
               addr_len16 \<leftarrow> net_uint16_get p1;
               let addr_len = unat (ucast addr_len16 :: u8);
               let left2 = left1 - 2;
               addrs \<leftarrow> read_addrs 16 ignored_v6 (drop 2 p1) left2 addr_len;
               (case addrs of
                  None \<Rightarrow> Some None
                | Some addr_list \<Rightarrow>
                    let used = int (addr_len div 16 * 16); left3 = left2 - used in
                    if left3 < 2 then Some None
                    else do {
                      svc_params_data_len \<leftarrow> net_uint16_get (drop (2 + nat used) p1);
                      if uint svc_params_data_len > left3 - 2 then Some None
                      else do {
                        params \<leftarrow> rdn p1 (4 + nat used) (unat svc_params_data_len);
                        Some (Some
                          \<lparr>es_type = DNRInstanceTypeRA, es_service_priority = service_priority, es_adn = adn,
                           es_addr_list = addr_list, es_svc_params = params\<rparr>) } }) }) })"

section \<open>Entries and lists of entries\<close>

text \<open>The priority is stored as a \<open>kCFNumberShortType\<close>, which is signed.\<close>

definition DNSEncryptedServerEntryCreate :: "names_env \<Rightarrow> encrypted_server \<Rightarrow> server_entry" where
  "DNSEncryptedServerEntryCreate env dnr_instance =
     \<lparr>se_priority = sint (es_service_priority dnr_instance), se_adn = es_adn dnr_instance,
      se_addresses = map (ne_ntop env) (es_addr_list dnr_instance), se_params = es_svc_params dnr_instance\<rparr>"

text \<open>
  Entries are dictionaries with all four keys, so a comparison only says whether they are equal: the
  name, the priority, the addresses as a set when there are equally many, and the parameters.
\<close>

definition DNSEncryptedServerListCompareEntries :: "server_entry \<Rightarrow> server_entry \<Rightarrow> bool" where
  "DNSEncryptedServerListCompareEntries d1 d2 \<longleftrightarrow>
     se_adn d1 = se_adn d2 \<and> se_priority d1 = se_priority d2 \<and>
     length (se_addresses d1) = length (se_addresses d2) \<and>
     list_all (\<lambda>s2. s2 \<in> set (se_addresses d1)) (se_addresses d2) \<and>
     se_params d1 = se_params d2"

definition my_CFMutableArrayMergeArray :: "'a list \<Rightarrow> 'a list \<Rightarrow> ('a \<Rightarrow> 'a \<Rightarrow> bool) \<Rightarrow> 'a list" where
  "my_CFMutableArrayMergeArray merge lst equal_to =
     (if merge = [] then lst
      else if lst = [] then merge
      else merge @ filter (\<lambda>list_val. \<not> list_ex (\<lambda>merge_val. equal_to merge_val list_val) merge) lst)"

definition DNSEncryptedServerListAppendUniqueEntry :: "server_entry list \<Rightarrow> server_entry \<Rightarrow> server_entry list" where
  "DNSEncryptedServerListAppendUniqueEntry server_entries encrypted_server =
     my_CFMutableArrayMergeArray server_entries [encrypted_server] DNSEncryptedServerListCompareEntries"

definition DNSEncryptedServerListSortByServicePriority :: "server_entry \<Rightarrow> server_entry \<Rightarrow> bool" where
  "DNSEncryptedServerListSortByServicePriority entry1 entry2 \<longleftrightarrow> se_priority entry1 \<le> se_priority entry2"

definition DNSEncryptedServerEntryCreateWithDHCPv6Data :: "names_env \<Rightarrow> u8 list \<Rightarrow> int \<Rightarrow> server_entry option option" where
  "DNSEncryptedServerEntryCreateWithDHCPv6Data env opt_dnr_data opt_dnr_data_len =
     map_option (map_option (DNSEncryptedServerEntryCreate env))
       (DNSEncryptedServerCreateWithDHCPv6Data env opt_dnr_data opt_dnr_data_len)"

definition DNSEncryptedServerEntryCreateWithRAData :: "names_env \<Rightarrow> u8 list \<Rightarrow> int \<Rightarrow> server_entry option option" where
  "DNSEncryptedServerEntryCreateWithRAData env opt_dnr_data opt_dnr_data_len =
     map_option (map_option (DNSEncryptedServerEntryCreate env))
       (DNSEncryptedServerCreateWithRAData env opt_dnr_data opt_dnr_data_len)"

text \<open>
  The loop over the instances of a DHCP option.  An instance that is created moves the offset on; the
  fuel is the number of bytes.  The result has the list and the last value of \<open>success\<close>.
\<close>

fun dhcpv4_loop :: "nat \<Rightarrow> names_env \<Rightarrow> u8 list \<Rightarrow> int \<Rightarrow> int \<Rightarrow> bool \<Rightarrow> server_entry list \<Rightarrow> (bool \<times> server_entry list) option" where
  "dhcpv4_loop 0 env dnr_data dnr_data_len offset success entries = None"
| "dhcpv4_loop (Suc n) env dnr_data dnr_data_len offset success entries =
     (if dnr_data_len - offset > 0 then do {
        r \<leftarrow> DNSEncryptedServerCreateWithDHCPv4Data env dnr_data dnr_data_len offset;
        (case r of
           None \<Rightarrow> Some (False, entries)
         | Some (dnr_instance, offset') \<Rightarrow>
             dhcpv4_loop n env dnr_data dnr_data_len offset' True
               (DNSEncryptedServerListAppendUniqueEntry entries (DNSEncryptedServerEntryCreate env dnr_instance))) }
      else Some (success, entries))"

declare dhcpv4_loop.simps [simp del]

definition DNSEncryptedServerListCreateWithDHCPv4Data :: "names_env \<Rightarrow> u8 list \<Rightarrow> int \<Rightarrow> server_entry list option option" where
  "DNSEncryptedServerListCreateWithDHCPv4Data env opt_dnr_data opt_dnr_data_len = do {
     (success, entries) \<leftarrow> dhcpv4_loop (nat opt_dnr_data_len + 1) env opt_dnr_data opt_dnr_data_len 0 False [];
     Some (if success then Some (ne_sort env entries) else None) }"

end
