(* ===== verification/RouterAdv.thy ===== *)
theory RouterAdv
  imports Complex_Main DNSServers PtrList
begin

text \<open>
  Router advertisements (\<open>bootplib/RouterAdvertisement.c\<close>) and their arrival
  (\<open>IPConfiguration.bproj/RTADVSocket.c\<close>): a packet is copied and its options are found once; every
  function that is asked for something looks through the options.

  A pointer to an option is the rest of the packet from there on, and the offsets of the fields are
  those of the structures in \<open>netinet/icmp6.h\<close> (RFC 4861, 8106, 8781, 8801, 8910).  An in6_addr is the
  list of its 16 bytes.  Times are seconds as real numbers.
\<close>

section \<open>The options of a packet\<close>

type_synonym nd_opt = "u8 list"
type_synonym nd_opts = "nd_opt ptrlist"

definition ND_OPT_ALIGN :: int where "ND_OPT_ALIGN = 8"
definition sizeof_nd_opt_hdr :: int where "sizeof_nd_opt_hdr = 2"
definition sizeof_nd_router_advert :: int where "sizeof_nd_router_advert = 16"

abbreviation "ND_OPT_SOURCE_LINKADDR \<equiv> (1 :: u8)"
abbreviation "ND_OPT_PREFIX_INFORMATION \<equiv> (3 :: u8)"
abbreviation "ND_OPT_PVD \<equiv> (21 :: u8)"
abbreviation "ND_OPT_RDNSS \<equiv> (25 :: u8)"
abbreviation "ND_OPT_DNSSL \<equiv> (31 :: u8)"
abbreviation "ND_OPT_CAPTIVE_PORTAL \<equiv> (37 :: u8)"
abbreviation "ND_OPT_PREF64 \<equiv> (38 :: u8)"
abbreviation "ND_OPT_DNR \<equiv> (144 :: u8)"

text \<open>
  The loop of \<open>parse_nd_options\<close>.  \<open>left\<close> is an \<open>int\<close> that is compared with a \<open>size_t\<close>, so that a
  negative one is large.
\<close>

function parse_nd_loop :: "nd_opts \<Rightarrow> u8 list \<Rightarrow> int \<Rightarrow> (bool \<times> nd_opts) option" where
  "parse_nd_loop options scan left =
     (if left < 0 \<or> left \<ge> sizeof_nd_opt_hdr then do {
        nd_opt_len \<leftarrow> rd scan 1;
        let opt_len = uint nd_opt_len * ND_OPT_ALIGN;
        if opt_len = 0 \<or> opt_len > left then Some (False, ptrlist_free options)
        else do {
          (_, options') \<leftarrow> ptrlist_add True options scan;
          parse_nd_loop options' (drop (nat opt_len) scan) (left - opt_len) } }
      else Some (True, options))"
  by pat_completeness auto
termination
  by (relation "measure (\<lambda>(options, scan, left). nat left)") (auto simp: ND_OPT_ALIGN_def sizeof_nd_opt_hdr_def uint_nat simp del: of_nat_unat)

declare parse_nd_loop.simps [simp del]

definition parse_nd_options :: "u8 list \<Rightarrow> int \<Rightarrow> (bool \<times> nd_opts) option" where
  "parse_nd_options buf len = parse_nd_loop ptrlist_init buf len"

text \<open>
  \<open>for (; i < count; i++)\<close> over the options: the body looks at an option and goes on, or leaves the
  loop with a result.  \<open>n\<close> is \<open>count - i\<close>.
\<close>

datatype 'r step = Next | Leave 'r

fun for_options :: "nat \<Rightarrow> nat \<Rightarrow> nd_opts \<Rightarrow> (nat \<Rightarrow> nd_opt \<Rightarrow> 'r step option) \<Rightarrow> 'r \<Rightarrow> 'r option" where
  "for_options 0 i options body r = Some r"
| "for_options (Suc n) i options body r = do {
     e \<leftarrow> ptrlist_element options (int i);
     opt \<leftarrow> e;
     s \<leftarrow> body i opt;
     (case s of Next \<Rightarrow> for_options n (Suc i) options body r | Leave r' \<Rightarrow> Some r') }"

definition each_option :: "nd_opts \<Rightarrow> (nd_opt \<Rightarrow> 'r step option) \<Rightarrow> 'r \<Rightarrow> 'r option" where
  "each_option options body r = for_options (ptrlist_count options) 0 options (\<lambda>i. body) r"

text \<open>The body of a loop for options of one type; \<open>f\<close> gets the option and its length.\<close>

definition for_type :: "u8 \<Rightarrow> (nd_opt \<Rightarrow> int \<Rightarrow> 'r step option) \<Rightarrow> nd_opt \<Rightarrow> 'r step option" where
  "for_type nd_type f opt = do {
     t \<leftarrow> rd opt 0;
     if t \<noteq> nd_type then Some Next
     else do { nd_len \<leftarrow> rd opt 1; f opt (uint nd_len * ND_OPT_ALIGN) } }"

section \<open>Finding things in the options\<close>

text \<open>The link-layer address and its length.\<close>

definition find_source_link_address :: "nd_opts \<Rightarrow> (u8 list \<times> int) option option" where
  "find_source_link_address options =
     each_option options (for_type ND_OPT_SOURCE_LINKADDR (\<lambda>opt opt_len.
       if opt_len < 2 + 6 then Some (Leave None)
       else Some (Leave (Some (drop 2 opt, opt_len - 2))))) None"

text \<open>The addresses, their number and the lifetime.\<close>

definition find_rdnss :: "nd_opts \<Rightarrow> (u8 list option \<times> int \<times> u32) option" where
  "find_rdnss options =
     each_option options (for_type ND_OPT_RDNSS (\<lambda>opt opt_len.
       if opt_len < 24 then Some (Leave (None, 0, 0))
       else do {
         lifetime \<leftarrow> net_uint32_get (drop 4 opt);
         Some (if lifetime = 0 then Next
               else Leave (Some (drop 8 opt), (opt_len - 8) div 16, lifetime)) })) (None, 0, 0)"

text \<open>Removing all but the last trailing nul.\<close>

fun strip_nuls :: "u8 list \<Rightarrow> nat \<Rightarrow> nat option" where
  "strip_nuls bs (Suc (Suc n)) = do {
     b \<leftarrow> rd bs n;
     if b = 0 then strip_nuls bs (Suc n) else Some (Suc (Suc n)) }"
| "strip_nuls bs n = Some n"

definition get_dnssl_domains :: "nd_opt \<Rightarrow> int \<Rightarrow> (u8 list option \<times> int) option" where
  "get_dnssl_domains dnssl opt_len = do {
     domains_length \<leftarrow> strip_nuls (drop 8 dnssl) (nat (opt_len - 8));
     Some (if domains_length = 0 then None else Some (drop 8 dnssl), int domains_length) }"

definition find_dnssl :: "nd_opts \<Rightarrow> (u8 list option \<times> int \<times> u32) option" where
  "find_dnssl options =
     each_option options (for_type ND_OPT_DNSSL (\<lambda>opt opt_len.
       if opt_len < 16 then Some (Leave (None, 0, 0))
       else do {
         lifetime \<leftarrow> net_uint32_get (drop 4 opt);
         if lifetime = 0 then Some Next
         else do {
           (domains, domains_length) \<leftarrow> get_dnssl_domains opt opt_len;
           Some (Leave (domains, domains_length, lifetime)) } })) (None, 0, 0)"

text \<open>
  The data of the next DNR option from \<open>start_index\<close> on, its length, the lifetime and the index after
  it.  The length of the option and of its data are \<open>uint8_t\<close>.
\<close>

definition find_dnr_option :: "nd_opts \<Rightarrow> nat \<Rightarrow> (u8 list \<times> u8 \<times> u32 \<times> nat) option option" where
  "find_dnr_option options start_index =
     for_options (ptrlist_count options - start_index) start_index options (\<lambda>i.
       for_type ND_OPT_DNR (\<lambda>opt opt_len.
         if (word_of_int opt_len :: u8) < 10 then Some (Leave None)
         else do {
           lifetime \<leftarrow> net_uint32_get (drop 4 opt);
           Some (Leave (Some (drop 2 opt, word_of_int (opt_len - 2), lifetime, Suc i))) })) None"

record pvd_flags_delay =
  pvd_http :: bool
  pvd_legacy :: bool
  pvd_ra :: bool
  pvd_delay :: u8

text \<open>The identifier, its length, the sequence number and the flags; here too the length is a \<open>uint8_t\<close>.\<close>

definition get_pvd_option :: "nd_opt \<Rightarrow> (u8 list \<times> int \<times> u16 \<times> pvd_flags_delay) option option" where
  "get_pvd_option opt = do {
     nd_len \<leftarrow> rd opt 1;
     let opt_len = (word_of_int (uint nd_len * ND_OPT_ALIGN) :: u8);
     if opt_len < 6 then Some None
     else do {
       flags \<leftarrow> rd opt 2;
       delay \<leftarrow> rd opt 3;
       pvd_seq \<leftarrow> net_uint16_get (drop 4 opt);
       Some (Some (drop 6 opt, uint opt_len - 6, pvd_seq,
         \<lparr>pvd_http = flags AND 0x80 \<noteq> 0, pvd_legacy = flags AND 0x40 \<noteq> 0, pvd_ra = flags AND 0x20 \<noteq> 0,
          pvd_delay = delay AND 0x0f\<rparr>)) } }"

definition find_pvd_options :: "nd_opts \<Rightarrow> (u8 list \<times> int \<times> u16 \<times> pvd_flags_delay) option option" where
  "find_pvd_options options =
     each_option options (for_type ND_OPT_PVD (\<lambda>opt opt_len. map_option Leave (get_pvd_option opt))) None"

text \<open>The prefixes as strings and their lengths, from option \<open>i\<close> on; \<open>None\<close> when no array was made.\<close>

fun prefixes_from :: "names_env \<Rightarrow> nat \<Rightarrow> nat \<Rightarrow> nd_opts \<Rightarrow> (string list \<times> int list) option \<Rightarrow> (string list \<times> int list) option option" where
  "prefixes_from env 0 i options arrays = Some arrays"
| "prefixes_from env (Suc n) i options arrays = do {
     e \<leftarrow> ptrlist_element options (int i);
     pio \<leftarrow> e;
     t \<leftarrow> rd pio 0;
     if t \<noteq> ND_OPT_PREFIX_INFORMATION then prefixes_from env n (Suc i) options arrays
     else do {
       nd_len \<leftarrow> rd pio 1;
       if (word_of_int (uint nd_len * ND_OPT_ALIGN) :: u8) < 32 then Some None
       else do {
         let (prefixes, prefix_lengths) = (case arrays of None \<Rightarrow> ([], []) | Some a \<Rightarrow> a);
         prefix \<leftarrow> rdn pio 16 16;
         prefix_length \<leftarrow> rd pio 2;
         prefixes_from env n (Suc i) options
           (Some (prefixes @ [ne_ntop env prefix], prefix_lengths @ [uint prefix_length])) } } }"

definition copy_prefixes_array :: "names_env \<Rightarrow> nd_opts \<Rightarrow> (string list \<times> int list) option option" where
  "copy_prefixes_array env options = prefixes_from env (ptrlist_count options) 0 options None"

definition get_captive_portal :: "nd_opt \<Rightarrow> int \<Rightarrow> (u8 list \<times> int) option option" where
  "get_captive_portal opt opt_len =
     (if opt_len \<le> sizeof_nd_opt_hdr then Some None
      else do {
        let uri = drop 2 opt;
        b \<leftarrow> rd uri 0;
        if b = 0 then Some None
        else do {
          uri_length \<leftarrow> strip_nuls uri (nat (opt_len - sizeof_nd_opt_hdr));
          Some (Some (uri, int uri_length)) } })"

definition find_captive_portal :: "nd_opts \<Rightarrow> (u8 list \<times> int) option option" where
  "find_captive_portal options =
     each_option options (for_type ND_OPT_CAPTIVE_PORTAL (\<lambda>opt opt_len.
       map_option Leave (get_captive_portal opt opt_len))) None"

text \<open>The preferred and the valid lifetime.\<close>

definition find_prefix_lifetimes :: "nd_opts \<Rightarrow> (u32 \<times> u32) option" where
  "find_prefix_lifetimes options =
     each_option options (for_type ND_OPT_PREFIX_INFORMATION (\<lambda>opt opt_len.
       if opt_len < 32 then Some (Leave (0, 0))
       else do {
         valid_time \<leftarrow> net_uint32_get (drop 4 opt);
         preferred_time \<leftarrow> net_uint32_get (drop 8 opt);
         Some (if valid_time = 0 \<or> preferred_time = 0 then Next else Leave (preferred_time, valid_time)) })) (0, 0)"

definition pref64_plc_get_prefix_length :: "u8 \<Rightarrow> u8 option" where
  "pref64_plc_get_prefix_length plc =
     (if plc = 0 then Some 96 else if plc = 1 then Some 64 else if plc = 2 then Some 56
      else if plc = 3 then Some 48 else if plc = 4 then Some 40 else if plc = 5 then Some 32 else None)"

text \<open>The prefix, its length and the lifetime.\<close>

definition get_pref64 :: "nd_opt \<Rightarrow> int \<Rightarrow> (u8 list \<times> u8 \<times> u16) option option" where
  "get_pref64 opt opt_len =
     (if opt_len < 16 then Some None
      else do {
        lifetime_plc \<leftarrow> net_uint16_get (drop 2 opt);
        (case pref64_plc_get_prefix_length (ucast (lifetime_plc AND 0x0007)) of
           None \<Rightarrow> Some None
         | Some prefix_length \<Rightarrow> do {
             let prefix_length_bytes = unat prefix_length div 8;
             prefix \<leftarrow> rdn opt 4 prefix_length_bytes;
             Some (Some (prefix @ replicate (16 - prefix_length_bytes) 0, prefix_length, lifetime_plc AND 0xfff8)) }) })"

definition find_pref64 :: "nd_opts \<Rightarrow> (u8 list \<times> u8 \<times> u16) option option" where
  "find_pref64 options =
     each_option options (for_type ND_OPT_PREF64 (\<lambda>opt opt_len. do {
       r \<leftarrow> get_pref64 opt opt_len;
       Some (if r = None then Next else Leave r) })) None"

section \<open>The object\<close>

record router_advertisement =
  ra_source_ip :: "u8 list"
  ra_source_ip_str :: string
  ra_receive_time :: real
  ra_options :: nd_opts
  ra_ndra_length :: nat
  ra_ndra_buf :: "u8 list"

text \<open>The length of the options goes through an \<open>int\<close>.  The inner \<open>None\<close> is \<open>NULL\<close>.\<close>

definition RouterAdvertisementCreate ::
  "names_env \<Rightarrow> u8 list \<Rightarrow> nat \<Rightarrow> u8 list \<Rightarrow> real \<Rightarrow> router_advertisement option option" where
  "RouterAdvertisementCreate env ndra ndra_length source_ip receive_time = do {
     buf \<leftarrow> rdn ndra 0 ndra_length;
     let len = sint (word_of_int (int ndra_length - sizeof_nd_router_advert) :: u32);
     (success, options) \<leftarrow> parse_nd_options (drop (nat sizeof_nd_router_advert) buf) len;
     Some (if success
       then Some \<lparr>ra_source_ip = source_ip, ra_source_ip_str = ne_ntop env source_ip, ra_receive_time = receive_time,
                  ra_options = options, ra_ndra_length = ndra_length, ra_ndra_buf = buf\<rparr>
       else None) }"

definition RouterAdvertisementGetFlags :: "router_advertisement \<Rightarrow> u8 option" where
  "RouterAdvertisementGetFlags ra = rd (ra_ndra_buf ra) 5"

definition RouterAdvertisementGetRouterLifetime :: "router_advertisement \<Rightarrow> u16 option" where
  "RouterAdvertisementGetRouterLifetime ra = net_uint16_get (drop 6 (ra_ndra_buf ra))"

abbreviation "RA_OPT_INFINITE_LIFETIME \<equiv> (0xffffffff :: u32)"

definition RouterAdvertisementLifetimeHasExpired :: "router_advertisement \<Rightarrow> real \<Rightarrow> u32 \<Rightarrow> bool" where
  "RouterAdvertisementLifetimeHasExpired ra now lifetime =
     (if lifetime = 0 then True
      else if lifetime = RA_OPT_INFINITE_LIFETIME then False
      else if ra_receive_time ra > now then True
      else now - ra_receive_time ra \<ge> real (unat lifetime))"

text \<open>
  The loop of \<open>RouterAdvertisementCopyAllDNSEncryptedServers\<close> from option \<open>i\<close> on; \<open>now i\<close> is the time
  there, \<open>n\<close> bounds the number of options.  The result has the last value of \<open>success\<close> and the entries.
\<close>

fun dnr_loop :: "nat \<Rightarrow> names_env \<Rightarrow> (nat \<Rightarrow> real) \<Rightarrow> router_advertisement \<Rightarrow> nat \<Rightarrow> bool \<Rightarrow> server_entry list \<Rightarrow> (bool \<times> server_entry list) option" where
  "dnr_loop 0 env now ra i success entries = None"
| "dnr_loop (Suc n) env now ra i success entries =
     (if i < ptrlist_count (ra_options ra) then do {
        dnr \<leftarrow> find_dnr_option (ra_options ra) i;
        (case dnr of
           None \<Rightarrow> Some (False, entries)
         | Some (dnr_data, dnr_data_len, lifetime, i') \<Rightarrow>
             if dnr_data_len = 0 then Some (False, entries)
             else if RouterAdvertisementLifetimeHasExpired ra (now i) lifetime then Some (False, entries)
             else do {
               encrypted_server \<leftarrow> DNSEncryptedServerEntryCreateWithRAData env dnr_data (uint dnr_data_len);
               (case encrypted_server of
                  None \<Rightarrow> Some (False, entries)
                | Some e \<Rightarrow> dnr_loop n env now ra i' True (DNSEncryptedServerListAppendUniqueEntry entries e)) }) }
      else Some (success, entries))"

definition RouterAdvertisementCopyAllDNSEncryptedServers ::
  "names_env \<Rightarrow> (nat \<Rightarrow> real) \<Rightarrow> router_advertisement \<Rightarrow> server_entry list option option" where
  "RouterAdvertisementCopyAllDNSEncryptedServers env now ra = do {
     (success, server_entries) \<leftarrow> dnr_loop (Suc (ptrlist_count (ra_options ra))) env now ra 0 False [];
     Some (if success then Some (ne_sort env server_entries) else None) }"

text \<open>The expiration, whether there are servers, and whether they have expired.\<close>

definition RouterAdvertisementGetDNSExpirationTime :: "router_advertisement \<Rightarrow> real \<Rightarrow> (real \<times> bool \<times> bool) option" where
  "RouterAdvertisementGetDNSExpirationTime ra now = do {
     (rdnss, _, rdnss_lifetime) \<leftarrow> find_rdnss (ra_options ra);
     if rdnss = None then Some (0, False, False)
     else if RouterAdvertisementLifetimeHasExpired ra now rdnss_lifetime then Some (0, True, True)
     else do {
       (dnssl, _, dnssl_lifetime) \<leftarrow> find_dnssl (ra_options ra);
       let lifetime = (if dnssl \<noteq> None \<and> \<not> RouterAdvertisementLifetimeHasExpired ra now dnssl_lifetime
                          \<and> dnssl_lifetime < rdnss_lifetime
                       then dnssl_lifetime else rdnss_lifetime);
       Some (if lifetime \<noteq> RA_OPT_INFINITE_LIFETIME then ra_receive_time ra + real (unat lifetime) else 0,
             True, False) } }"

text \<open>
  The dictionary that keeps an advertisement; a value that is missing or of another type is \<open>None\<close>.
  \<open>pton\<close> is \<open>my_CFStringToIPv6Address\<close>.
\<close>

record ra_dictionary =
  rd_packet :: "u8 list option"
  rd_source_ip :: "string option"
  rd_receive_date :: "real option"

definition RouterAdvertisementCopyDictionary :: "router_advertisement \<Rightarrow> ra_dictionary option" where
  "RouterAdvertisementCopyDictionary ra = do {
     packet \<leftarrow> rdn (ra_ndra_buf ra) 0 (ra_ndra_length ra);
     Some \<lparr>rd_packet = Some packet, rd_source_ip = Some (ra_source_ip_str ra), rd_receive_date = Some (ra_receive_time ra)\<rparr> }"

definition RouterAdvertisementCreateWithDictionary ::
  "names_env \<Rightarrow> (string \<Rightarrow> u8 list option) \<Rightarrow> ra_dictionary \<Rightarrow> router_advertisement option option" where
  "RouterAdvertisementCreateWithDictionary env pton dict =
     (case rd_packet dict of
        None \<Rightarrow> Some None
      | Some packet \<Rightarrow>
          if int (length packet) < sizeof_nd_router_advert then Some None
          else do {
            icmp6_type \<leftarrow> rd packet 0;
            icmp6_code \<leftarrow> rd packet 1;
            if icmp6_type \<noteq> 134 \<or> icmp6_code \<noteq> 0 then Some None
            else
              (case (rd_receive_date dict, rd_source_ip dict) of
                 (Some receive_date, Some source_ip_str) \<Rightarrow>
                   (case pton source_ip_str of
                      None \<Rightarrow> Some None
                    | Some source_ip \<Rightarrow> RouterAdvertisementCreate env packet (length packet) source_ip receive_date)
               | _ \<Rightarrow> Some None) })"

section \<open>Receiving (RTADVSocket.c)\<close>

text \<open>Control messages of a received packet; others are skipped, and so are those that are too short.\<close>

datatype cmsg = CM_Pktinfo nat | CM_Hoplimit int | CM_Other

fun scan_cmsgs :: "cmsg list \<Rightarrow> nat option \<Rightarrow> int option \<Rightarrow> nat option \<times> int option" where
  "scan_cmsgs [] pktinfo hop_limit = (pktinfo, hop_limit)"
| "scan_cmsgs (CM_Pktinfo ifindex # cms) pktinfo hop_limit = scan_cmsgs cms (Some ifindex) hop_limit"
| "scan_cmsgs (CM_Hoplimit h # cms) pktinfo hop_limit = scan_cmsgs cms pktinfo (Some h)"
| "scan_cmsgs (CM_Other # cms) pktinfo hop_limit = scan_cmsgs cms pktinfo hop_limit"

definition is_linklocal :: "u8 list \<Rightarrow> bool" where
  "is_linklocal a \<longleftrightarrow> a ! 0 = 0xfe \<and> a ! 1 AND 0xc0 = 0x80"

text \<open>
  One call of \<open>RTADVSocketRead\<close> with the \<open>n\<close> bytes that \<open>recvmsg\<close> put at the start of \<open>receive_buf\<close>:
  the interface and the advertisement that \<open>RTADVSocketDemux\<close> hands to its receiver.
  \<open>has_receiver\<close> says whether a socket with a receive function belongs to an interface.
\<close>

definition RTADVSocketRead ::
  "names_env \<Rightarrow> (nat \<Rightarrow> bool) \<Rightarrow> real \<Rightarrow> int \<Rightarrow> u8 list \<Rightarrow> u8 list \<Rightarrow> cmsg list \<Rightarrow> (nat \<times> router_advertisement) option option" where
  "RTADVSocketRead env has_receiver now n receive_buf from cms =
     (if n \<le> 0 \<or> n < sizeof_nd_router_advert then Some None
      else if \<not> is_linklocal from then Some None
      else
        (case scan_cmsgs cms None None of
           (Some ifindex, Some hop_limit) \<Rightarrow> do {
             icmp6_type \<leftarrow> rd receive_buf 0;
             icmp6_code \<leftarrow> rd receive_buf 1;
             if icmp6_type \<noteq> 134 \<or> icmp6_code \<noteq> 0 \<or> hop_limit \<noteq> 255 then Some None
             else if has_receiver ifindex then
               map_option (map_option (Pair ifindex)) (RouterAdvertisementCreate env receive_buf (nat n) from now)
             else Some None }
         | _ \<Rightarrow> Some None))"

end
