(* ===== verification/DNSNameRoundtrip.thy ===== *)
theory DNSNameRoundtrip
  imports DNSNameFacts
begin

text \<open>
  A list of domain names that was written, compressed or not, is read back.  The first part is what
  \<open>DNSNameCreate\<close> makes of a name, the second how a name that is in a buffer is read, the third that
  the writer leaves a buffer from which the names are read.
\<close>

section \<open>The labels of a name\<close>

text \<open>A name ends at its first empty label.\<close>

fun labels_from :: "u8 list \<Rightarrow> u8 list \<Rightarrow> u8 list list" where
  "labels_from acc [] = (if acc = [] then [] else [acc])"
| "labels_from acc (c # cs) =
     (if c = dot then (if acc = [] then [] else acc # labels_from [] cs) else labels_from (acc @ [c]) cs)"

definition labels :: "u8 list \<Rightarrow> u8 list list" where
  "labels name = labels_from [] name"

definition label_bytes :: "u8 list \<Rightarrow> u8 list" where
  "label_bytes l = word_of_nat (length l) # l"

definition labels_bytes :: "u8 list list \<Rightarrow> u8 list" where
  "labels_bytes ls = concat (map label_bytes ls)"

fun label_starts :: "nat \<Rightarrow> u8 list list \<Rightarrow> nat list" where
  "label_starts p [] = []"
| "label_starts p (l # ls) = p # label_starts (p + length l + 1) ls"

definition fit :: "u8 list list \<Rightarrow> bool" where
  "fit ls \<longleftrightarrow> (\<forall>l \<in> set ls. length l \<le> DNS_LABEL_LENGTH_MAX)"

definition short :: "u8 list \<Rightarrow> bool" where
  "short l \<longleftrightarrow> l \<noteq> [] \<and> length l \<le> DNS_LABEL_LENGTH_MAX"

lemma length_label_bytes [simp]: "length (label_bytes l) = length l + 1"
  by (simp add: label_bytes_def)

lemma labels_bytes_simps [simp]:
  "labels_bytes [] = []" "labels_bytes (l # ls) = label_bytes l @ labels_bytes ls"
  "labels_bytes (ls @ ls') = labels_bytes ls @ labels_bytes ls'"
  by (simp_all add: labels_bytes_def)

lemma label_starts_append: "label_starts p (ls @ ls') = label_starts p ls @ label_starts (p + length (labels_bytes ls)) ls'"
  by (induction ls arbitrary: p) (simp_all add: add.assoc)

lemma length_label_starts [simp]: "length (label_starts p ls) = length ls"
  by (induction ls arbitrary: p) simp_all

lemma label_starts_shift: "label_starts (p + d) ls = map (\<lambda>o'. o' + d) (label_starts p ls)"
proof (induction ls arbitrary: p)
  case (Cons l ls)
  then show ?case using Cons [of "p + length l + 1"] by (simp add: add.commute add.left_commute)
qed simp

lemma labels_from_nonempty: "l \<in> set (labels_from acc cs) \<Longrightarrow> l \<noteq> []"
  by (induction acc cs rule: labels_from.induct) (auto split: if_splits)

text \<open>The loop over the characters: what is in the buffer while it runs.\<close>

definition naming :: "nat \<Rightarrow> u8 list list \<Rightarrow> u8 list \<Rightarrow> nat \<Rightarrow> name_state \<Rightarrow> bool" where
  "naming n ls cur i st \<longleftrightarrow> length (ns_buf st) = n + 2 \<and> ns_offsets st = label_starts 0 ls \<and>
     ns_size st = length (labels_bytes ls) \<and> ns_start st = ns_size st \<and> ns_digits st = length cur \<and>
     i = ns_size st + length cur \<and> take (ns_size st) (ns_buf st) = labels_bytes ls \<and>
     take (length cur) (drop (ns_size st + 1) (ns_buf st)) = cur"

lemma naming_close:
  assumes "naming n ls cur i st" "i \<le> n" "short cur"
  obtains st' where "close_label i st = Some (Next_label st')" "naming n (ls @ [cur]) [] (i + 1) st'"
proof -
  let ?k = "ns_size st" and ?c = "length cur"
  have n: "length (ns_buf st) = n + 2" "i = ?k + ?c" "take ?k (ns_buf st) = labels_bytes ls"
    "take ?c (drop (?k + 1) (ns_buf st)) = cur" "ns_start st = ?k" "ns_digits st = ?c"
    "ns_offsets st = label_starts 0 ls" "?k = length (labels_bytes ls)"
    using assms(1) unfolding naming_def by blast+
  let ?b = "(ns_buf st)[?k := word_of_nat ?c]"
  have "take (?k + ?c + 1) ?b = take ?k ?b @ ?b ! ?k # take ?c (drop (?k + 1) ?b)"
  proof -
    have "?k < length ?b" using n assms(2) by simp
    then have "?b = take ?k ?b @ ?b ! ?k # drop (?k + 1) ?b" by (metis Suc_eq_plus1 id_take_nth_drop)
    then have "take (?k + ?c + 1) ?b = take (?k + ?c + 1) (take ?k ?b @ ?b ! ?k # drop (?k + 1) ?b)" by simp
    also have "\<dots> = take ?k ?b @ ?b ! ?k # take ?c (drop (?k + 1) ?b)" using n assms(2) by (simp add: min_def)
    finally show ?thesis .
  qed
  also have "\<dots> = labels_bytes ls @ label_bytes cur" using n assms(2) by (simp add: label_bytes_def)
  finally have b: "take (?k + (?c + 1)) ?b = labels_bytes ls @ label_bytes cur" by simp
  show ?thesis
    using n assms(2,3) b
    by (intro that [of "st\<lparr>ns_buf := ?b, ns_offsets := ns_offsets st @ [?k], ns_size := ?k + (?c + 1), ns_digits := 0, ns_start := i + 1\<rparr>"])
      (auto simp: close_label_def wr_def naming_def label_starts_append short_def)
qed

definition named :: "nat \<Rightarrow> u8 list list \<Rightarrow> name_state \<Rightarrow> bool" where
  "named n ls st \<longleftrightarrow> ns_offsets st = label_starts 0 ls \<and> length (ns_buf st) = n + 2 \<and>
     ns_size st = length (labels_bytes ls) \<and> ns_size st \<le> n + 1 \<and> take (ns_size st) (ns_buf st) = labels_bytes ls"

lemma naming_named: "naming n ls cur i st \<Longrightarrow> i \<le> n + 1 \<Longrightarrow> named n ls st"
  by (auto simp: naming_def named_def)

lemma naming_put:
  assumes "naming n ls cur i st" "i < n"
  obtains b where "wr (ns_buf st) (1 + i) c = Some b" "naming n ls (cur @ [c]) (i + 1) (st\<lparr>ns_buf := b, ns_digits := ns_digits st + 1\<rparr>)"
proof -
  let ?k = "ns_size st" and ?c = "length cur"
  have n: "length (ns_buf st) = n + 2" "i = ?k + ?c" "take ?k (ns_buf st) = labels_bytes ls"
    "take ?c (drop (?k + 1) (ns_buf st)) = cur" "ns_start st = ?k" "ns_digits st = ?c"
    "ns_offsets st = label_starts 0 ls" "?k = length (labels_bytes ls)"
    using assms(1) unfolding naming_def by blast+
  let ?b = "(ns_buf st)[1 + i := c]"
  have "take (?c + 1) (drop (?k + 1) ?b) = take ?c (drop (?k + 1) ?b) @ [?b ! (?k + 1 + ?c)]"
    using n assms(2) by (simp add: take_Suc_conv_app_nth)
  also have "\<dots> = cur @ [c]" using n assms(2) by (simp add: drop_update_swap)
  finally show ?thesis
    using n assms(2) by (intro that [of ?b]) (auto simp: wr_def naming_def)
qed

lemma label_loop_ok:
  assumes "naming n ls cur i st" "i + length cs = n"
  shows "(fit (labels_from cur cs) \<longrightarrow> (\<exists>st'. label_loop cs i st \<in> {Some (End_label st'), Some (Next_label st')} \<and>
       named n (ls @ labels_from cur cs) st')) \<and>
     (\<not> fit (labels_from cur cs) \<longrightarrow> label_loop cs i st = Some Too_long)"
  using assms
proof (induction cs arbitrary: ls cur i st)
  case Nil
  show ?case
  proof (cases "cur = []")
    case True
    then show ?thesis using Nil naming_named [OF Nil(1)] by (simp add: close_label_def naming_def fit_def)
  next
    case False
    show ?thesis
    proof (cases "length cur \<le> 63")
      case True
      then obtain st' where "close_label i st = Some (Next_label st')" "naming n (ls @ [cur]) [] (i + 1) st'"
        using naming_close [OF Nil(1)] Nil(2) False by (auto simp: short_def)
      then show ?thesis using False True Nil(2) naming_named by (auto simp: fit_def)
    next
      case long: False
      then show ?thesis using False Nil by (simp add: close_label_def naming_def fit_def)
    qed
  qed
next
  case (Cons c cs)
  have i: "i < n" using Cons.prems(2) by simp
  show ?case
  proof (cases "c = dot")
    case False
    obtain b where "wr (ns_buf st) (1 + i) c = Some b" "naming n ls (cur @ [c]) (i + 1) (st\<lparr>ns_buf := b, ns_digits := ns_digits st + 1\<rparr>)"
      using naming_put [OF Cons.prems(1) i] .
    then show ?thesis using Cons.IH [of ls "cur @ [c]" "i + 1"] Cons.prems(2) False by simp
  next
    case True
    consider "cur = []" | "cur \<noteq> []" "length cur \<le> 63" | "cur \<noteq> []" "length cur > 63" by linarith
    then show ?thesis
    proof cases
      case 1
      then show ?thesis using True Cons.prems naming_named [OF Cons.prems(1)] by (simp add: close_label_def naming_def fit_def)
    next
      case 2
      then obtain st' where st': "close_label i st = Some (Next_label st')" "naming n (ls @ [cur]) [] (i + 1) st'"
        using naming_close [OF Cons.prems(1)] i by (auto simp: short_def)
      then show ?thesis using Cons.IH [OF st'(2)] Cons.prems(2) True 2 by (simp add: fit_def)
    next
      case 3
      then show ?thesis using True Cons.prems(1) by (simp add: close_label_def naming_def fit_def)
    qed
  qed
qed

text \<open>The name of a list always has its end label.\<close>

lemma name_create:
  shows "fit (labels name) \<Longrightarrow> \<exists>dn. DNSNameCreate junk name False preserve = Some (Some dn) \<and> dn_offsets dn = label_starts 0 (labels name) \<and>
       dn_buf_size dn = length (labels_bytes (labels name)) + 1 \<and> dn_buf_size dn \<le> length (dn_buf dn) \<and>
       take (dn_buf_size dn) (dn_buf dn) = labels_bytes (labels name) @ [0]"
    and "\<not> fit (labels name) \<Longrightarrow> DNSNameCreate junk name False preserve = Some None"
proof -
  let ?st = "\<lparr>ns_buf = map junk [0..<length name + 2], ns_offsets = [], ns_digits = 0, ns_size = 0, ns_start = 0\<rparr>"
  have "naming (length name) [] [] 0 ?st" by (simp add: naming_def)
  then have l: "fit (labels name) \<Longrightarrow> \<exists>st'. label_loop name 0 ?st \<in> {Some (End_label st'), Some (Next_label st')} \<and>
       named (length name) (labels name) st'"
      "\<not> fit (labels name) \<Longrightarrow> label_loop name 0 ?st = Some Too_long"
    using label_loop_ok [of "length name" "[]" "[]" 0 ?st name] unfolding labels_def append_Nil by simp_all
  have fin: "\<exists>dn. finish_name False preserve e st = Some dn \<and> dn_offsets dn = label_starts 0 ls \<and>
       dn_buf_size dn = length (labels_bytes ls) + 1 \<and> dn_buf_size dn \<le> length (dn_buf dn) \<and>
       take (dn_buf_size dn) (dn_buf dn) = labels_bytes ls @ [0]" if "named (length name) ls st" for e ls st
    using that by (auto simp: finish_name_def named_def wr_def take_Suc_conv_app_nth)
  { assume "fit (labels name)"
    then obtain st where st: "label_loop name 0 ?st \<in> {Some (End_label st), Some (Next_label st)}"
        "named (length name) (labels name) st" using l by blast
    obtain dn where "finish_name False preserve True st = Some dn" "finish_name False preserve False st = Some dn"
        "dn_offsets dn = label_starts 0 (labels name)" "dn_buf_size dn = length (labels_bytes (labels name)) + 1"
        "dn_buf_size dn \<le> length (dn_buf dn)" "take (dn_buf_size dn) (dn_buf dn) = labels_bytes (labels name) @ [0]"
      using fin [OF st(2), of True] by (auto simp: finish_name_def)
    then show "\<exists>dn. DNSNameCreate junk name False preserve = Some (Some dn) \<and> dn_offsets dn = label_starts 0 (labels name) \<and>
       dn_buf_size dn = length (labels_bytes (labels name)) + 1 \<and> dn_buf_size dn \<le> length (dn_buf dn) \<and>
       take (dn_buf_size dn) (dn_buf dn) = labels_bytes (labels name) @ [0]"
      using st(1) by (auto simp: DNSNameCreate_def simp del: upt_Suc) }
  { assume "\<not> fit (labels name)"
    then show "DNSNameCreate junk name False preserve = Some None" using l by (auto simp: DNSNameCreate_def simp del: upt_Suc) }
qed

section \<open>Reading a name that is in a buffer\<close>

text \<open>
  \<open>spells\<close>: from a known label in a complete name the read head goes through the labels \<open>ls\<close>.
  \<open>own\<close>: a name starts at \<open>p\<close> with \<open>k\<close> labels of its own, which become known; it has the labels \<open>ls\<close>
  and the next name starts at \<open>p'\<close>.
\<close>

fun spells :: "u8 list \<Rightarrow> nat \<Rightarrow> nat set \<Rightarrow> nat \<Rightarrow> nat \<Rightarrow> u8 list list \<Rightarrow> bool" where
  "spells B L S 0 p ls \<longleftrightarrow> within B L p \<and> \<not> is_pointer (B ! p) \<and> B ! p = 0 \<and> ls = []"
| "spells B L S (Suc n) p ls \<longleftrightarrow> within B L p \<and>
     (if is_pointer (B ! p)
      then ptr_at B p < p \<and> ptr_at B p \<in> S \<and> spells B L S n (ptr_at B p) ls
      else B ! p \<noteq> 0 \<and> p \<in> S \<and>
        (\<exists>ls'. ls = take (unat (B ! p)) (drop (p + 1) B) # ls' \<and> spells B L S n (p + unat (B ! p) + 1) ls'))"

fun own :: "u8 list \<Rightarrow> nat \<Rightarrow> nat set \<Rightarrow> nat \<Rightarrow> nat \<Rightarrow> u8 list list \<Rightarrow> nat \<Rightarrow> nat set \<Rightarrow> bool" where
  "own B L S 0 p ls p' S' \<longleftrightarrow> S' = S \<and> within B (length B) p \<and>
     (if is_pointer (B ! p)
      then p' = p + 2 \<and> ptr_at B p < p \<and> ptr_at B p < L \<and> ptr_at B p \<in> S \<and> (\<exists>n. spells B L S n (ptr_at B p) ls)
      else B ! p = 0 \<and> p' = p + 1 \<and> ls = [])"
| "own B L S (Suc k) p ls p' S' \<longleftrightarrow> within B (length B) p \<and> \<not> is_pointer (B ! p) \<and> B ! p \<noteq> 0 \<and>
     unat (B ! p) \<le> DNS_LABEL_LENGTH_MAX \<and>
     (\<exists>ls'. ls = take (unat (B ! p)) (drop (p + 1) B) # ls' \<and>
        own B L (insert p S) k (p + unat (B ! p) + 1) ls' p' S')"

text \<open>The text of a name: its labels with a dot before each but the first.\<close>

fun text_of :: "bool \<Rightarrow> u8 list list \<Rightarrow> u8 list" where
  "text_of first_label [] = []"
| "text_of first_label (l # ls) = (if first_label then [] else [dot]) @ l @ text_of False ls"

text \<open>A reader at \<open>p\<close> that has read the text \<open>bs\<close>.\<close>

definition at :: "u8 list \<Rightarrow> nat \<Rightarrow> nat set \<Rightarrow> nat \<Rightarrow> nat \<Rightarrow> nat \<Rightarrow> bool \<Rightarrow> u8 list \<Rightarrow> reader \<Rightarrow> bool" where
  "at B L S sc p c f bs r \<longleftrightarrow> dr_last_completed_name r = L \<and> set (dr_offsets r) = S \<and> dr_scan r = sc \<and>
     dr_left r = length B - sc \<and> sc \<le> length B \<and> dr_read_head r = p \<and> dr_list_count r = c \<and> dr_first r = f \<and> texts r bs"

lemma at_advance:
  assumes "at B L S sc p c f bs r" "p + n \<le> length B" "p \<le> sc"
  obtains r1 where "advance n r = Some r1" "at B L S (if p < sc then sc else p + n) p c f bs r1"
proof (cases "p < sc")
  case True
  then show ?thesis using assms by (intro that [of r]) (auto simp: at_def advance_def)
next
  case False
  then show ?thesis using assms
    by (intro that [of "r\<lparr>dr_scan := dr_scan r + n, dr_left := dr_left r - n\<rparr>"]) (auto simp: at_def advance_def texts_def)
qed

lemma at_text:
  assumes "at B L S sc p c f bs r" "n \<le> length data"
  obtains r' where "add_text junk data (int n) r = Some r'" "at B L S sc p c f (bs @ take n data) r'"
proof -
  have "texts r bs" using assms(1) by (simp add: at_def)
  from add_text_ok [OF this assms(2), of junk] obtain db where "add_text junk data (int n) r = Some (r\<lparr>dr_name_buf := db\<rparr>)"
      "texts (r\<lparr>dr_name_buf := db\<rparr>) (bs @ take n data)" .
  then show ?thesis using assms(1) by (intro that [of "r\<lparr>dr_name_buf := db\<rparr>"]) (simp_all add: at_def)
qed

lemma at_label:
  assumes "at B L S sc p c f bs r" "within B (length B) p" "\<not> is_pointer (B ! p)" "B ! p \<noteq> 0"
    and "p < sc \<or> p = sc \<and> unat (B ! p) \<le> DNS_LABEL_LENGTH_MAX"
  obtains r' where "read_one junk B single False r = Some (Continue r')"
    "at B L (insert p S) (if p < sc then sc else p + unat (B ! p) + 1) (p + unat (B ! p) + 1) c False
       (bs @ (if f then [] else [dot]) @ take (unat (B ! p)) (drop (p + 1) B)) r'"
proof -
  let ?len = "unat (B ! p)" and ?sc = "if p < sc then sc else p + unat (B ! p) + 1"
  have b: "p + (?len + 1) \<le> length B" "rd B p = Some (B ! p)" "dr_read_head r = p" "dr_scan r = sc"
    using assms by (auto simp: within_def item_size_def rd_def at_def)
  have psc: "p \<le> sc" using assms(5) by auto
  obtain r1 where r1: "advance (?len + 1) r = Some r1" "at B L S (if p < sc then sc else p + (?len + 1)) p c f bs r1"
    by (rule at_advance [OF assms(1) b(1) psc])
  define r2 where "r2 = (if p \<in> set (dr_offsets r1) then r1 else r1\<lparr>dr_offsets := dr_offsets r1 @ [p]\<rparr>)"
  have r2: "at B L (insert p S) ?sc p c f bs r2" using r1(2) by (auto simp: r2_def at_def texts_def)
  obtain r3 where r3: "(if dr_first r2 then Some (r2\<lparr>dr_first := False\<rparr>) else add_text junk [dot] 1 r2) = Some r3"
      "at B L (insert p S) ?sc p c False (bs @ (if f then [] else [dot])) r3"
  proof (cases f)
    case True
    then show ?thesis using r2 by (intro that [of "r2\<lparr>dr_first := False\<rparr>"]) (auto simp: at_def texts_def)
  next
    case False
    obtain r3 where "add_text junk [dot] (int 1) r2 = Some r3" "at B L (insert p S) ?sc p c f (bs @ take 1 [dot]) r3"
      by (rule at_text [OF r2, of 1 "[dot]" junk]) simp_all
    then show ?thesis using r2 False by (intro that [of r3]) (simp_all add: at_def)
  qed
  have len: "?len \<le> length (drop (p + 1) B)" using b(1) by simp
  obtain r4 where r4: "add_text junk (drop (p + 1) B) (int ?len) r3 = Some r4"
      "at B L (insert p S) ?sc p c False ((bs @ (if f then [] else [dot])) @ take ?len (drop (p + 1) B)) r4"
    by (rule at_text [OF r3(2) len])
  have rh: "dr_read_head r1 = p" "dr_read_head r4 = p" using r1(2) r4(2) by (simp_all add: at_def)
  have "read_label junk B ?len r1 = Some (Continue (r4\<lparr>dr_read_head := p + (?len + 1)\<rparr>))"
    unfolding read_label_def rh(1) r2_def [symmetric] Let_def r3(1) using r4(1) rh(2) by (simp del: of_nat_unat)
  then have "read_one junk B single False r = Some (Continue (r4\<lparr>dr_read_head := p + (?len + 1)\<rparr>))"
    using assms(3-5) b r1(1) by (auto simp: read_one_def)
  moreover have "at B L (insert p S) ?sc (p + ?len + 1) c False (bs @ (if f then [] else [dot]) @ take ?len (drop (p + 1) B))
      (r4\<lparr>dr_read_head := p + (?len + 1)\<rparr>)"
    using r4(2) by (simp add: at_def texts_def)
  ultimately show ?thesis by (rule that)
qed

lemma at_end:
  assumes "at B L S sc p c f bs r" "within B (length B) p" "\<not> is_pointer (B ! p)" "B ! p = 0" "p \<le> sc"
  obtains r' where "read_one junk B False False r = Some (Continue r')"
    "at B (max sc (p + 1)) S (max sc (p + 1)) (max sc (p + 1)) (c + 1) True (bs @ [0]) r'"
proof -
  have b: "p + 1 \<le> length B" "rd B p = Some 0" "dr_read_head r = p" "dr_scan r = sc"
    using assms by (auto simp: within_def item_size_def rd_def at_def)
  obtain r1 where r1: "advance 1 r = Some r1" "at B L S (if p < sc then sc else p + 1) p c f bs r1"
    using at_advance [OF assms(1) b(1) assms(5)] .
  have sc: "(if p < sc then sc else p + 1) = max sc (p + 1)" using assms(5) by auto
  obtain r2 where r2: "add_text junk [0] (int 1) r1 = Some r2" "at B L S (max sc (p + 1)) p c f (bs @ take 1 [0]) r2"
    by (rule at_text [OF r1(2) [unfolded sc], of 1 "[0]" junk]) simp_all
  let ?r = "r2\<lparr>dr_last_completed_name := dr_scan r2, dr_read_head := dr_scan r2, dr_list_count := dr_list_count r2 + 1, dr_first := True\<rparr>"
  have "read_end junk False False r1 = Some (Continue ?r)" using r2(1) by (simp add: read_end_def)
  then have "read_one junk B False False r = Some (Continue ?r)"
    using b r1(1) assms(3,4) by (simp add: read_one_def)
  moreover have "at B (max sc (p + 1)) S (max sc (p + 1)) (max sc (p + 1)) (c + 1) True (bs @ [0]) ?r"
    using r2(2) by (simp add: at_def texts_def)
  ultimately show ?thesis by (rule that)
qed

lemma at_pointer:
  assumes "at B L S sc p c f bs r" "within B (length B) p" "is_pointer (B ! p)" "p \<le> sc"
    and "ptr_at B p < p" "ptr_at B p < L" "ptr_at B p \<in> S"
  obtains r' where "read_one junk B False False r = Some (Continue r')"
    "at B L S (if p < sc then sc else p + 2) (ptr_at B p) c f bs r'"
proof -
  have b: "p + 2 \<le> length B" "rd B p = Some (B ! p)" "dr_read_head r = p"
    using assms by (auto simp: within_def item_size_def rd_def at_def)
  obtain r1 where r1: "advance 2 r = Some r1" "at B L S (if p < sc then sc else p + 2) p c f bs r1"
    using at_advance [OF assms(1) b(1) assms(4)] .
  obtain v where v: "net_uint16_get (drop p B) = Some v" "unat (v AND DNS_PTR_VALUE_MASK) = ptr_at B p"
    using get_pointer [OF b(1)] by blast
  have "read_one junk B False False r = Some (Continue (r1\<lparr>dr_read_head := ptr_at B p\<rparr>))"
    using assms b r1(1) v by (auto simp: read_one_def read_pointer_def Let_def at_def)
  moreover have "at B L S (if p < sc then sc else p + 2) (ptr_at B p) c f bs (r1\<lparr>dr_read_head := ptr_at B p\<rparr>)"
    using r1(2) by (simp add: at_def texts_def)
  ultimately show ?thesis by (rule that)
qed

lemma at_loop:
  assumes "at B L S sc p c f bs r" "p < length B" "read_one junk B False False r = Some (Continue r')"
  shows "read_loop junk B False False r = read_loop junk B False False r'"
  using assms by (subst read_loop.simps) (simp add: at_def)

text \<open>Following a pointer: the known labels stay the same and the scan point does not move.\<close>

lemma spells_within: "spells B L S n p ls \<Longrightarrow> within B L p"
  by (cases n) auto

lemma read_spells:
  assumes "spells B L S n p ls" "at B L S sc p c f bs r" "L \<le> sc"
  obtains r' where "read_loop junk B False False r = read_loop junk B False False r'"
    "at B sc S sc sc (c + 1) True (bs @ text_of f ls @ [0]) r'"
  using assms
proof (induction n arbitrary: p ls f bs r thesis)
  case 0
  have w: "within B L p" "p < L" using 0(2) within_less [of B L p] by auto
  have le: "L \<le> length B" "p \<le> sc" "p < length B" using 0(3,4) w(2) by (auto simp: at_def)
  have wi: "within B (length B) p" using w(1) le(1) by (rule within_mono)
  have np: "\<not> is_pointer (B ! p)" "B ! p = 0" "ls = []" using 0(2) by auto
  obtain r' where r': "read_one junk B False False r = Some (Continue r')"
      "at B (max sc (p + 1)) S (max sc (p + 1)) (max sc (p + 1)) (c + 1) True (bs @ [0]) r'"
    by (rule at_end [OF 0(3) wi np(1,2) le(2)])
  have "max sc (p + 1) = sc" using w(2) 0(4) by simp
  with r' np(3) show ?case using at_loop [OF 0(3) le(3) r'(1)] by (intro 0(1) [of r']) simp_all
next
  case (Suc n)
  have w: "within B L p" "p < L" using Suc.prems(2) within_less [of B L p] by auto
  have le: "L \<le> length B" "p < sc" "p < length B" using Suc.prems(3,4) w(2) by (auto simp: at_def)
  have wi: "within B (length B) p" using w(1) le(1) by (rule within_mono)
  show ?case
  proof (cases "is_pointer (B ! p)")
    case True
    then have q: "ptr_at B p < p" "ptr_at B p \<in> S" "spells B L S n (ptr_at B p) ls" using Suc.prems(2) by auto
    have qL: "ptr_at B p < L" using within_less [OF spells_within [OF q(3)]] .
    obtain r1 where r1: "read_one junk B False False r = Some (Continue r1)" "at B L S (if p < sc then sc else p + 2) (ptr_at B p) c f bs r1"
      by (rule at_pointer [OF Suc.prems(3) wi True less_imp_le [OF le(2)] q(1) qL q(2)])
    have "at B L S sc (ptr_at B p) c f bs r1" using r1(2) le(2) by simp
    from Suc.IH [OF _ q(3) this Suc.prems(4)] obtain r' where "read_loop junk B False False r1 = read_loop junk B False False r'"
        "at B sc S sc sc (c + 1) True (bs @ text_of f ls @ [0]) r'" .
    then show ?thesis using at_loop [OF Suc.prems(3) le(3) r1(1)] by (intro Suc.prems(1) [of r']) simp_all
  next
    case False
    then obtain ls' where l: "B ! p \<noteq> 0" "p \<in> S" "ls = take (unat (B ! p)) (drop (p + 1) B) # ls'"
        "spells B L S n (p + unat (B ! p) + 1) ls'" using Suc.prems(2) by auto
    have or: "p < sc \<or> p = sc \<and> unat (B ! p) \<le> DNS_LABEL_LENGTH_MAX" using le(2) by simp
    obtain r1 where r1: "read_one junk B False False r = Some (Continue r1)"
        "at B L (insert p S) (if p < sc then sc else p + unat (B ! p) + 1) (p + unat (B ! p) + 1) c False
          (bs @ (if f then [] else [dot]) @ take (unat (B ! p)) (drop (p + 1) B)) r1"
      by (rule at_label [OF Suc.prems(3) wi False l(1) or])
    have "at B L S sc (p + unat (B ! p) + 1) c False (bs @ (if f then [] else [dot]) @ take (unat (B ! p)) (drop (p + 1) B)) r1"
      using r1(2) le(2) l(2) by (simp add: insert_absorb)
    from Suc.IH [OF _ l(4) this Suc.prems(4)] obtain r' where "read_loop junk B False False r1 = read_loop junk B False False r'"
        "at B sc S sc sc (c + 1) True ((bs @ (if f then [] else [dot]) @ take (unat (B ! p)) (drop (p + 1) B)) @ text_of False ls' @ [0]) r'" .
    then show ?thesis using at_loop [OF Suc.prems(3) le(3) r1(1)] l(3) by (intro Suc.prems(1) [of r']) simp_all
  qed
qed

text \<open>A whole name.\<close>

lemma read_own:
  assumes "own B L S k p ls p' S'" "at B L S p p c f bs r" "L \<le> p"
  obtains r' where "read_loop junk B False False r = read_loop junk B False False r'"
    "at B p' S' p' p' (c + 1) True (bs @ text_of f ls @ [0]) r'"
  using assms
proof (induction k arbitrary: p ls f bs r S thesis)
  case 0
  have w: "within B (length B) p" "p < length B" "S' = S" using 0(2) within_less [of B "length B" p] by auto
  show ?case
  proof (cases "is_pointer (B ! p)")
    case True
    then obtain n where q: "p' = p + 2" "ptr_at B p < p" "ptr_at B p < L" "ptr_at B p \<in> S" "spells B L S n (ptr_at B p) ls"
      using 0(2) by auto
    obtain r1 where r1: "read_one junk B False False r = Some (Continue r1)" "at B L S (if p < p then p else p + 2) (ptr_at B p) c f bs r1"
      by (rule at_pointer [OF 0(3) w(1) True order_refl q(2-4)])
    have at1: "at B L S (p + 2) (ptr_at B p) c f bs r1" and le: "L \<le> p + 2" using r1(2) 0(4) by simp_all
    obtain r' where "read_loop junk B False False r1 = read_loop junk B False False r'"
        "at B (p + 2) S (p + 2) (p + 2) (c + 1) True (bs @ text_of f ls @ [0]) r'"
      by (rule read_spells [OF q(5) at1 le])
    then show ?thesis using at_loop [OF 0(3) w(2) r1(1)] q(1) w(3) by (intro 0(1) [of r']) simp_all
  next
    case False
    then have e: "B ! p = 0" "p' = p + 1" "ls = []" using 0(2) by auto
    obtain r' where r': "read_one junk B False False r = Some (Continue r')"
        "at B (max p (p + 1)) S (max p (p + 1)) (max p (p + 1)) (c + 1) True (bs @ [0]) r'"
      by (rule at_end [OF 0(3) w(1) False e(1) order_refl])
    then show ?thesis using at_loop [OF 0(3) w(2) r'(1)] e w(3) by (intro 0(1) [of r']) simp_all
  qed
next
  case (Suc k)
  have w: "within B (length B) p" "p < length B" "\<not> is_pointer (B ! p)" "B ! p \<noteq> 0"
    using Suc.prems(2) within_less [of B "length B" p] by auto
  obtain ls' where l: "unat (B ! p) \<le> DNS_LABEL_LENGTH_MAX" "ls = take (unat (B ! p)) (drop (p + 1) B) # ls'"
      "own B L (insert p S) k (p + unat (B ! p) + 1) ls' p' S'" using Suc.prems(2) by auto
  have or: "p < p \<or> p = p \<and> unat (B ! p) \<le> DNS_LABEL_LENGTH_MAX" using l(1) by simp
  obtain r1 where r1: "read_one junk B False False r = Some (Continue r1)"
      "at B L (insert p S) (if p < p then p else p + unat (B ! p) + 1) (p + unat (B ! p) + 1) c False
        (bs @ (if f then [] else [dot]) @ take (unat (B ! p)) (drop (p + 1) B)) r1"
    by (rule at_label [OF Suc.prems(3) w(1,3,4) or])
  have at1: "at B L (insert p S) (p + unat (B ! p) + 1) (p + unat (B ! p) + 1) c False
      (bs @ (if f then [] else [dot]) @ take (unat (B ! p)) (drop (p + 1) B)) r1" and le: "L \<le> p + unat (B ! p) + 1"
    using r1(2) Suc.prems(4) by simp_all
  from Suc.IH [OF _ l(3) at1 le] obtain r' where "read_loop junk B False False r1 = read_loop junk B False False r'"
      "at B p' S' p' p' (c + 1) True ((bs @ (if f then [] else [dot]) @ take (unat (B ! p)) (drop (p + 1) B)) @ text_of False ls' @ [0]) r'" .
  then show ?case using at_loop [OF Suc.prems(3) w(2) r1(1)] l(2) by (intro Suc.prems(1) [of r']) simp_all
qed

text \<open>The names of a buffer, from a position at which one starts.\<close>

fun names_at :: "u8 list \<Rightarrow> nat \<Rightarrow> nat set \<Rightarrow> u8 list list list \<Rightarrow> nat \<Rightarrow> nat set \<Rightarrow> bool" where
  "names_at B p S [] q S' \<longleftrightarrow> p = q \<and> S = S'"
| "names_at B p S (ls # lss) q S' \<longleftrightarrow> (\<exists>k p1 S1. own B p S k p ls p1 S1 \<and> names_at B p1 S1 lss q S')"

definition names_text :: "u8 list list list \<Rightarrow> u8 list" where
  "names_text lss = concat (map (\<lambda>ls. text_of True ls @ [0]) lss)"

lemma read_names:
  assumes "names_at B p S lss (length B) S'" "at B p S p p c True bs r"
  shows "\<exists>r'. read_loop junk B False False r = Some (True, r') \<and> dr_list_count r' = c + length lss \<and>
     texts r' (bs @ names_text lss)"
  using assms
proof (induction lss arbitrary: p S c bs r)
  case Nil
  then show ?case by (subst read_loop.simps) (auto simp: at_def names_text_def)
next
  case (Cons ls lss)
  then obtain k p1 S1 where o: "own B p S k p ls p1 S1" "names_at B p1 S1 lss (length B) S'" by auto
  obtain r1 where r1: "read_loop junk B False False r = read_loop junk B False False r1"
      "at B p1 S1 p1 p1 (c + 1) True (bs @ text_of True ls @ [0]) r1"
    by (rule read_own [OF o(1) Cons.prems(2) order_refl])
  show ?case using Cons.IH [OF o(2) r1(2)] by (simp add: r1(1) names_text_def)
qed

section \<open>What the writer leaves\<close>

text \<open>Adding bytes keeps what is there.\<close>

lemma within_append: "within bs (length bs) p \<Longrightarrow> within (bs @ cs) (length bs) p"
  using within_less [of bs "length bs" p] by (simp add: within_def item_size_def nth_append split: if_splits)

lemma item_append:
  assumes "within bs L p" "L \<le> length bs"
  shows "(bs @ cs) ! p = bs ! p" "within (bs @ cs) L p" "is_pointer (bs ! p) \<Longrightarrow> ptr_at (bs @ cs) p = ptr_at bs p"
    "\<not> is_pointer (bs ! p) \<Longrightarrow> take (unat (bs ! p)) (drop (p + 1) (bs @ cs)) = take (unat (bs ! p)) (drop (p + 1) bs)"
proof -
  have p: "p < length bs" using within_less [OF assms(1)] assms(2) by simp
  then show "(bs @ cs) ! p = bs ! p" "within (bs @ cs) L p" using assms by (simp_all add: nth_append within_def item_size_def split: if_splits)
  have sz: "p + item_size bs p \<le> length bs" using assms by (simp add: within_def)
  then show "is_pointer (bs ! p) \<Longrightarrow> ptr_at (bs @ cs) p = ptr_at bs p" by (simp add: ptr_at_def nth_append item_size_def)
  show "\<not> is_pointer (bs ! p) \<Longrightarrow> take (unat (bs ! p)) (drop (p + 1) (bs @ cs)) = take (unat (bs ! p)) (drop (p + 1) bs)"
    using sz by (simp add: item_size_def)
qed

lemma spells_append:
  "spells bs L S n p ls \<Longrightarrow> L \<le> length bs \<Longrightarrow> L \<le> L' \<Longrightarrow> S \<subseteq> S' \<Longrightarrow> spells (bs @ cs) L' S' n p ls"
proof (induction n arbitrary: p ls)
  case 0
  then have w: "within bs L p" by simp
  show ?case using 0 item_append [OF w] by (auto intro: within_mono)
next
  case (Suc n)
  then have w: "within bs L p" by simp
  note i = item_append [OF w Suc.prems(2), of cs]
  have w': "within (bs @ cs) L' p" using i(2) Suc.prems(3) by (rule within_mono)
  show ?case
  proof (cases "is_pointer (bs ! p)")
    case True
    then show ?thesis using Suc.prems Suc.IH [OF _ Suc.prems(2-4)] i w' by auto
  next
    case False
    then obtain ls' where "bs ! p \<noteq> 0" "p \<in> S" "ls = take (unat (bs ! p)) (drop (p + 1) bs) # ls'"
        "spells bs L S n (p + unat (bs ! p) + 1) ls'" using Suc.prems(1) by auto
    then show ?thesis using False Suc.IH [OF _ Suc.prems(2-4)] Suc.prems(4) i(1,4) w' by auto
  qed
qed

lemma own_append: "own bs L S k p ls p' S' \<Longrightarrow> L \<le> length bs \<Longrightarrow> own (bs @ cs) L S k p ls p' S'"
proof (induction k arbitrary: S p ls)
  case 0
  then have w: "within bs (length bs) p" by simp
  note i = item_append [OF w order_refl, of cs]
  have "within (bs @ cs) (length (bs @ cs)) p" using i(2) by (rule within_mono) simp
  then show ?case using 0 i spells_append [of bs L S _ _ ls L S cs] by (cases "is_pointer (bs ! p)") auto
next
  case (Suc k)
  then have w: "within bs (length bs) p" by simp
  note i = item_append [OF w order_refl, of cs]
  have "within (bs @ cs) (length (bs @ cs)) p" using i(2) by (rule within_mono) simp
  then show ?case using Suc i by auto
qed

lemma own_moves: "own B L S k p ls p' S' \<Longrightarrow> p < p' \<and> p' \<le> length B \<and> S \<subseteq> S'"
proof (induction k arbitrary: S p ls)
  case 0
  then show ?case by (auto simp: within_def item_size_def split: if_splits)
next
  case (Suc k)
  then show ?case by fastforce
qed

lemma names_append: "names_at bs p S lss q S' \<Longrightarrow> p \<le> length bs \<Longrightarrow> names_at (bs @ cs) p S lss q S'"
proof (induction lss arbitrary: p S)
  case (Cons ls lss)
  then obtain k p1 S1 where o: "own bs p S k p ls p1 S1" "names_at bs p1 S1 lss q S'" by auto
  then show ?case using own_append [OF o(1) Cons.prems(2)] own_moves [OF o(1)] Cons.IH [OF o(2)] by auto
qed simp

lemma names_snoc: "names_at B p S lss q S1 \<Longrightarrow> own B q S1 k q ls q' S' \<Longrightarrow> names_at B p S (lss @ [ls]) q' S'"
  by (induction lss arbitrary: p S) (auto, blast)

text \<open>From a name's own labels the read head spells the rest of the name, once the name is complete.\<close>

lemma own_spells: "own B L S k p ls p' S' \<Longrightarrow> L \<le> p' \<Longrightarrow> \<exists>n. spells B p' S' n p ls"
proof (induction k arbitrary: S p ls)
  case 0
  show ?case
  proof (cases "is_pointer (B ! p)")
    case True
    then obtain n where q: "p' = p + 2" "ptr_at B p < p" "ptr_at B p \<in> S" "spells B L S n (ptr_at B p) ls" "S' = S"
        "within B (length B) p" using 0 by auto
    have "L \<le> length B" using 0 own_moves [OF 0(1)] by linarith
    then have "spells B p' S n (ptr_at B p) ls" using spells_append [OF q(4), of p' S "[]"] 0(2) by simp
    then have "spells B p' S' (Suc n) p ls" using True q by (simp add: within_def item_size_def)
    then show ?thesis ..
  next
    case False
    then have "spells B p' S' 0 p ls" using 0 by (auto simp: within_def item_size_def)
    then show ?thesis ..
  qed
next
  case (Suc k)
  then obtain ls' where l: "\<not> is_pointer (B ! p)" "B ! p \<noteq> 0" "ls = take (unat (B ! p)) (drop (p + 1) B) # ls'"
      "own B L (insert p S) k (p + unat (B ! p) + 1) ls' p' S'" by auto
  obtain n where n: "spells B p' S' n (p + unat (B ! p) + 1) ls'" using Suc.IH [OF l(4) Suc.prems(2)] by blast
  have "p + unat (B ! p) + 1 \<le> p'" "p \<in> S'" using own_moves [OF l(4)] by auto
  then have "spells B p' S' (Suc n) p ls" using l n by (auto simp: within_def item_size_def)
  then show ?case ..
qed

text \<open>A label at an offset, and the labels of a name at its offsets.\<close>

definition label_in :: "u8 list \<Rightarrow> nat \<Rightarrow> u8 list \<Rightarrow> bool" where
  "label_in B p l \<longleftrightarrow> take (length l + 1) (drop p B) = label_bytes l"

lemma label_in_append: "label_in bs p l \<Longrightarrow> label_in (bs @ cs) p l"
proof -
  assume a: "label_in bs p l"
  then have "length (take (length l + 1) (drop p bs)) = length l + 1" by (simp add: label_in_def)
  then have "p + length l + 1 \<le> length bs" by auto
  with a show ?thesis by (simp add: label_in_def)
qed

lemma label_in_item:
  assumes "label_in B p l" "short l"
  shows "p + length l + 1 \<le> length B" "B ! p = word_of_nat (length l)" "unat (B ! p) = length l"
    "take (length l) (drop (p + 1) B) = l" "\<not> is_pointer (B ! p)" "B ! p \<noteq> 0"
proof -
  have "length (take (length l + 1) (drop p B)) = length l + 1" using assms(1) by (simp add: label_in_def)
  then show le: "p + length l + 1 \<le> length B" by auto
  then have "drop p B = B ! p # drop (p + 1) B" by (simp add: Cons_nth_drop_Suc)
  then have "B ! p # take (length l) (drop (p + 1) B) = label_bytes l" using assms(1) by (simp add: label_in_def)
  then show b: "B ! p = word_of_nat (length l)" "take (length l) (drop (p + 1) B) = l" by (simp_all add: label_bytes_def)
  have len: "0 < length l" "length l \<le> 63" using assms(2) by (auto simp: short_def)
  then show u: "unat (B ! p) = length l" unfolding b(1) by (simp add: unat_of_nat take_bit_nat_eq_self_iff)
  then show "B ! p \<noteq> 0" using len by auto
  have "take_bit 6 (B ! p) = B ! p" using u len by (simp add: word_unat_eq_iff unsigned_take_bit_eq take_bit_nat_eq_self_iff)
  then have "(B ! p) AND 0xc0 = (B ! p) AND (mask 6 AND 0xc0)" by (metis and.assoc take_bit_eq_mask)
  then show "\<not> is_pointer (B ! p)" by (simp add: is_pointer_def mask_eq_exp_minus_1)
qed

lemma labels_in_starts: "list_all2 (label_in (pre @ labels_bytes ls @ post)) (label_starts (length pre) ls) ls"
proof (induction ls arbitrary: pre)
  case (Cons l ls)
  have "label_in (pre @ labels_bytes (l # ls) @ post) (length pre) l" by (simp add: label_in_def)
  moreover have "list_all2 (label_in (pre @ labels_bytes (l # ls) @ post)) (label_starts (length pre + length l + 1) ls) ls"
    using Cons [of "pre @ label_bytes l"] by simp
  ultimately show ?case by simp
qed simp

lemma pointer_word:
  assumes "k < 0x4000"
  shows "is_pointer (ucast (drop_bit 8 (DNS_PTR_PATTERN_MASK OR word_of_nat k :: u16)))"
    "unat ((DNS_PTR_PATTERN_MASK OR word_of_nat k :: u16) AND DNS_PTR_VALUE_MASK) = k"
proof -
  have "(ucast (drop_bit 8 (DNS_PTR_PATTERN_MASK OR word_of_nat k :: u16)) :: u8) = 0xc0 OR ucast (drop_bit 8 (word_of_nat k :: u16))"
    by (simp add: drop_bit_or unsigned_or_eq)
  then show "is_pointer (ucast (drop_bit 8 (DNS_PTR_PATTERN_MASK OR word_of_nat k :: u16)))"
    by (simp add: is_pointer_def bit.conj_disj_distrib2 or.commute and.commute or.assoc)
  have "(0x3fff :: u16) = mask 14" by (simp add: mask_eq_exp_minus_1)
  moreover have "(DNS_PTR_PATTERN_MASK OR word_of_nat k :: u16) AND DNS_PTR_VALUE_MASK = word_of_nat k AND DNS_PTR_VALUE_MASK"
    by (simp add: bit.conj_disj_distrib2)
  ultimately have "(DNS_PTR_PATTERN_MASK OR word_of_nat k :: u16) AND DNS_PTR_VALUE_MASK = take_bit 14 (word_of_nat k)"
    by (simp add: take_bit_eq_mask)
  then show "unat ((DNS_PTR_PATTERN_MASK OR word_of_nat k :: u16) AND DNS_PTR_VALUE_MASK) = k"
    using assms by (simp add: unsigned_take_bit_eq unat_of_nat take_bit_nat_eq_self_iff)
qed

text \<open>Labels put behind each other are a name's own, whatever the name ends with.\<close>

lemma own_build:
  assumes "\<forall>l \<in> set ls1. short l" "B = pre @ labels_bytes ls1 @ t"
    and "own B L (S \<union> set (label_starts (length pre) ls1)) 0 (length pre + length (labels_bytes ls1)) ls2 p' S'"
  shows "own B L S (length ls1) (length pre) (ls1 @ ls2) p' S'"
  using assms
proof (induction ls1 arbitrary: pre S)
  case (Cons l ls1)
  have "label_in B (length pre) l" using Cons.prems(2) by (simp add: label_in_def)
  note i = label_in_item [OF this]
  have sh: "short l" using Cons.prems(1) by simp
  have "own B L (insert (length pre) S) (length ls1) (length (pre @ label_bytes l)) (ls1 @ ls2) p' S'"
    using Cons.prems by (intro Cons.IH) (simp_all add: add.assoc del: own.simps)
  then show ?case using i sh by (simp add: short_def within_def item_size_def)
qed simp

lemma match_loop_ok:
  assumes "list_all2 (label_in B1) os1 ls1" "list_all2 (label_in B2) os2 ls2" "\<forall>l \<in> set ls1 \<union> set ls2. short l"
  shows "\<exists>m. match_loop B1 os1 B2 os2 = Some m \<and> m \<le> length ls1 \<and> m \<le> length ls2 \<and> take m ls1 = take m ls2"
  using assms
proof (induction B1 os1 B2 os2 arbitrary: ls1 ls2 rule: match_loop.induct)
  case (1 B1 o1 os1 B2 o2 os2)
  obtain l1 ls1' l2 ls2' where l: "ls1 = l1 # ls1'" "ls2 = l2 # ls2'" "label_in B1 o1 l1" "label_in B2 o2 l2"
      "list_all2 (label_in B1) os1 ls1'" "list_all2 (label_in B2) os2 ls2'" "short l1" "short l2"
    using "1.prems" by (auto simp: list_all2_Cons1)
  note i1 = label_in_item [OF l(3,7)] and i2 = label_in_item [OF l(4,8)]
  have r: "rd B1 o1 = Some (B1 ! o1)" "rd B2 o2 = Some (B2 ! o2)" using i1(1) i2(1) by (simp_all add: rd_def)
  show ?case
  proof (cases "B1 ! o1 = B2 ! o2")
    case False
    then show ?thesis using r by simp
  next
    case True
    then have len: "length l1 = length l2" using i1(3) i2(3) by metis
    have c: "rdn B1 (o1 + 1) (unat (B1 ! o1)) = Some l1" "rdn B2 (o2 + 1) (unat (B1 ! o1)) = Some l2"
      using i1 i2 len True by (simp_all add: rdn_def)
    show ?thesis
    proof (cases "l1 = l2")
      case False
      then show ?thesis using r c True by simp
    next
      case same: True
      obtain m where "match_loop B1 os1 B2 os2 = Some m" "m \<le> length ls1'" "m \<le> length ls2'" "take m ls1' = take m ls2'"
        using "1.IH" [OF r _ c _ l(5,6)] True same l(1,2) "1.prems"(3) by auto
      then show ?thesis using r c True same l(1,2) by (intro exI [of _ "Suc m"]) simp
    qed
  qed
qed auto

lemma name_match:
  assumes "list_all2 (label_in B1) os1 ls1" "list_all2 (label_in B2) os2 ls2" "\<forall>l \<in> set ls1 \<union> set ls2. short l"
  shows "\<exists>m. DNSNameMatch B1 os1 B2 os2 = Some m \<and> m \<le> length ls1 \<and> m \<le> length ls2 \<and>
     drop (length ls1 - m) ls1 = drop (length ls2 - m) ls2"
proof -
  obtain m where m: "match_loop B1 (rev os1) B2 (rev os2) = Some m" "m \<le> length (rev ls1)" "m \<le> length (rev ls2)"
      "take m (rev ls1) = take m (rev ls2)"
    using match_loop_ok [of B1 "rev os1" "rev ls1" B2 "rev os2" "rev ls2"] assms by auto
  have "drop (length ls1 - m) ls1 = drop (length ls2 - m) ls2"
    using m(4) by (simp add: take_rev)
  then show ?thesis using m by (auto simp: DNSNameMatch_def)
qed

text \<open>The best match is no match, or a name with the same last labels.\<close>

lemma best_match_ok:
  assumes "list_all2 (\<lambda>offs ls. list_all2 (label_in B) offs ls \<and> (\<forall>l \<in> set ls. short l)) names lss"
    and "list_all2 (label_in (dn_buf dn)) (dn_offsets dn) ls" "\<forall>l \<in> set ls. short l"
    and "m0 = 0 \<and> b0 = None \<or> P m0 b0"
    and "\<And>offs ls' m. (offs, ls') \<in> set (zip names lss) \<Longrightarrow> 0 < m \<Longrightarrow> m \<le> length ls' \<Longrightarrow> m \<le> length ls \<Longrightarrow>
      drop (length ls' - m) ls' = drop (length ls - m) ls \<Longrightarrow> P m (Some offs)"
  shows "\<exists>m b. best_match B dn names m0 b0 = Some (m, b) \<and> (m = 0 \<and> b = None \<or> P m b)"
  using assms(1,4,5)
proof (induction names arbitrary: lss m0 b0)
  case (Cons offs names)
  then obtain ls' lss' where l: "lss = ls' # lss'" "list_all2 (label_in B) offs ls'" "\<forall>l \<in> set ls'. short l"
      "list_all2 (\<lambda>offs ls. list_all2 (label_in B) offs ls \<and> (\<forall>l \<in> set ls. short l)) names lss'"
    by (auto simp: list_all2_Cons1)
  obtain m where m: "DNSNameMatch B offs (dn_buf dn) (dn_offsets dn) = Some m" "m \<le> length ls'" "m \<le> length ls"
      "drop (length ls' - m) ls' = drop (length ls - m) ls"
    using name_match [OF l(2) assms(2)] l(3) assms(3) by auto
  have rest: "0 < m \<Longrightarrow> m \<le> length ls' \<Longrightarrow> m \<le> length ls \<Longrightarrow> drop (length ls' - m) ls' = drop (length ls - m) ls \<Longrightarrow> P m (Some offs)"
    if "(offs, ls') \<in> set (zip names lss')" for offs ls' m
    using Cons.prems(3) [of offs ls' m] that l(1) by simp
  show ?case
  proof (cases "m > m0")
    case True
    have "P m (Some offs)" using Cons.prems(3) [of offs ls' m] m True l(1) by simp
    then show ?thesis using Cons.IH [OF l(4), of m "Some offs"] rest m(1) True by simp
  next
    case False
    then show ?thesis using Cons.IH [OF l(4) Cons.prems(2)] rest m(1) by simp
  qed
qed simp

section \<open>Adding a name\<close>

text \<open>
  The buffer \<open>bs\<close> has the names \<open>lss\<close>, with the known labels \<open>S\<close>; the offsets of a name are those of its
  labels, from each of which the rest of the name is spelled.
\<close>

definition offsets_ok :: "u8 list \<Rightarrow> nat set \<Rightarrow> nat list \<Rightarrow> u8 list list \<Rightarrow> bool" where
  "offsets_ok bs S offs ls \<longleftrightarrow> list_all2 (label_in bs) offs ls \<and> (\<forall>l \<in> set ls. short l) \<and> set offs \<subseteq> S \<and>
     (\<forall>i < length ls. \<exists>n. spells bs (length bs) S n (offs ! i) (drop i ls))"

lemma offsets_ok_append: "offsets_ok bs S offs ls \<Longrightarrow> S \<subseteq> S' \<Longrightarrow> offsets_ok (bs @ cs) S' offs ls"
  unfolding offsets_ok_def
  by (auto intro: list_all2_mono label_in_append) (metis le_add1 length_append order_refl spells_append)

lemma label_starts_nth: "i < length ls \<Longrightarrow> label_starts p ls ! i = p + length (labels_bytes (take i ls))"
proof (induction ls arbitrary: i p)
  case (Cons l ls)
  then show ?case by (cases i) (simp_all add: add.assoc)
qed simp

lemma label_starts_less: "p' \<in> set (label_starts p ls) \<Longrightarrow> p \<le> p' \<and> p' < p + length (labels_bytes ls)"
  by (induction ls arbitrary: p) force+

text \<open>A new name: labels of its own, then its end label or a pointer to the labels \<open>ls2\<close> of another.\<close>

lemma new_name:
  assumes "\<forall>l \<in> set ls1. short l" "B = bs @ labels_bytes ls1 @ t" "length B = length (bs @ labels_bytes ls1) + length t"
    and "own B (length bs) (S \<union> set (label_starts (length bs) ls1)) 0 (length (bs @ labels_bytes ls1)) ls2 (length B) S1"
    and "i \<le> length ls1"
  shows "own B (length bs) (S \<union> set (label_starts (length bs) (take i ls1))) (length ls1 - i)
      (length bs + length (labels_bytes (take i ls1))) (drop i ls1 @ ls2) (length B) S1"
proof -
  have b: "labels_bytes ls1 = labels_bytes (take i ls1) @ labels_bytes (drop i ls1)"
    by (simp flip: labels_bytes_simps(3))
  have st: "label_starts (length bs) ls1 = label_starts (length bs) (take i ls1) @
      label_starts (length bs + length (labels_bytes (take i ls1))) (drop i ls1)"
    using label_starts_append [of "length bs" "take i ls1" "drop i ls1"] by simp
  have "own B (length bs) (S \<union> set (label_starts (length bs) (take i ls1))) (length (drop i ls1))
      (length (bs @ labels_bytes (take i ls1))) (drop i ls1 @ ls2) (length B) S1"
  proof (rule own_build)
    show "\<forall>l \<in> set (drop i ls1). short l" using assms(1) by (meson in_set_dropD)
    show "B = (bs @ labels_bytes (take i ls1)) @ labels_bytes (drop i ls1) @ t" using assms(2) b by simp
    show "own B (length bs) (S \<union> set (label_starts (length bs) (take i ls1)) \<union>
        set (label_starts (length (bs @ labels_bytes (take i ls1))) (drop i ls1))) 0
        (length (bs @ labels_bytes (take i ls1)) + length (labels_bytes (drop i ls1))) ls2 (length B) S1"
      using assms(4) b st by (simp add: Un_assoc add.assoc del: own.simps)
  qed
  then show ?thesis by simp
qed

lemma new_name_ok:
  assumes "names_at bs 0 {} lss (length bs) S" "\<forall>l \<in> set ls1. short l" "B = bs @ labels_bytes ls1 @ t" "t \<noteq> []"
    and "own B (length bs) (S \<union> set (label_starts (length bs) ls1)) 0 (length (bs @ labels_bytes ls1)) ls2 (length B)
      (S \<union> set (label_starts (length bs) ls1))"
    and "ls2 = [] \<and> offs2 = [] \<or> offsets_ok bs S offs2 ls2"
  defines "S1 \<equiv> S \<union> set (label_starts (length bs) ls1)"
  shows "names_at B 0 {} (lss @ [ls1 @ ls2]) (length B) S1" "offsets_ok B S1 (label_starts (length bs) ls1 @ offs2) (ls1 @ ls2)"
proof -
  have len: "length B = length (bs @ labels_bytes ls1) + length t" using assms(3) by simp
  note n = new_name [OF assms(2,3) len assms(5), folded S1_def]
  have "names_at B 0 {} lss (length bs) S" using names_append [OF assms(1)] assms(3) by simp
  then show "names_at B 0 {} (lss @ [ls1 @ ls2]) (length B) S1"
    using n [of 0] by (intro names_snoc) (simp_all del: own.simps)
  have o2: "offsets_ok B S1 offs2 ls2"
    using assms(6) offsets_ok_append [of bs S offs2 ls2 S1 "labels_bytes ls1 @ t"] assms(3)
    by (auto simp: S1_def offsets_ok_def)
  have sp: "\<exists>n. spells B (length B) S1 n ((label_starts (length bs) ls1 @ offs2) ! i) (drop i (ls1 @ ls2))"
    if "i < length (ls1 @ ls2)" for i
  proof (cases "i < length ls1")
    case True
    then show ?thesis using own_spells [OF n [of i]] len by (simp add: label_starts_nth nth_append)
  next
    case False
    then show ?thesis using o2 that by (simp add: offsets_ok_def nth_append)
  qed
  have "list_all2 (label_in B) (label_starts (length bs) ls1) ls1" using labels_in_starts [of bs ls1 t] assms(3) by simp
  then show "offsets_ok B S1 (label_starts (length bs) ls1 @ offs2) (ls1 @ ls2)"
    using o2 sp assms(2) unfolding offsets_ok_def by (auto simp: S1_def intro: list_all2_appendI)
qed

lemma place_labels_append: "place_labels junk dn m b p db offs (is @ js) =
    (case place_labels junk dn m b p db offs is of
       None \<Rightarrow> None
     | Some (ok, db', offs') \<Rightarrow> if ok then place_labels junk dn m b p db' offs' js else Some (False, db', offs'))"
  by (induction "is" arbitrary: db offs) (auto split: bind_split option.splits)

text \<open>The labels of its own: they are added to the buffer if they are not there with the whole name.\<close>

lemma place_own:
  assumes "list_all2 (label_in (dn_buf dn)) (label_starts 0 ls) ls" "\<forall>l \<in> set ls. short l"
    and "bb_holds db bs" "bb_room db = None" "j \<le> length ls - m"
  shows "\<exists>db'. place_labels junk dn m best p db (label_starts 0 ls) [0..<j] =
        Some (True, db', take j (label_starts p ls) @ drop j (label_starts 0 ls)) \<and>
      bb_holds db' (bs @ (if best = None then [] else labels_bytes (take j ls))) \<and> bb_room db' = None"
  using assms(5)
proof (induction j)
  case 0
  then show ?case using assms(3,4) by simp
next
  case (Suc j)
  let ?offs = "take j (label_starts p ls) @ drop j (label_starts 0 ls)"
  obtain db' where db': "place_labels junk dn m best p db (label_starts 0 ls) [0..<j] = Some (True, db', ?offs)"
      "bb_holds db' (bs @ (if best = None then [] else labels_bytes (take j ls)))" "bb_room db' = None"
    using Suc.IH Suc.prems by auto
  have j: "j < length ls" "j < length ls - m" using Suc.prems by auto
  let ?o = "label_starts 0 ls ! j"
  have inn: "label_in (dn_buf dn) ?o (ls ! j)" "short (ls ! j)" using assms(1,2) j(1) by (auto simp: list_all2_conv_all_nth)
  note it = label_in_item [OF inn]
  have rdo: "rd ?offs j = Some ?o" using j(1) by (simp add: rd_def nth_append min_def)
  have upd: "?offs[j := ?o + p] = take (Suc j) (label_starts p ls) @ drop (Suc j) (label_starts 0 ls)"
  proof -
    have "label_starts p ls ! j = ?o + p" using j(1) by (simp add: label_starts_nth)
    then have t: "take (Suc j) (label_starts p ls) = take j (label_starts p ls) @ [?o + p]" using j(1) by (simp add: take_Suc_conv_app_nth)
    have "drop j (label_starts 0 ls) = ?o # drop (Suc j) (label_starts 0 ls)" using j(1) by (simp add: Cons_nth_drop_Suc)
    then show ?thesis unfolding t using j(1) by (simp add: list_update_append)
  qed
  have len: "length ?offs = length ls" using j(1) by simp
  have tk: "labels_bytes (take (Suc j) ls) = labels_bytes (take j ls) @ label_bytes (ls ! j)"
    using j(1) by (simp add: take_Suc_conv_app_nth)
  obtain db'' where st: "(if best \<noteq> None then do {
             n \<leftarrow> rd (dn_buf dn) ?o;
             DNSBufAddData junk db' (drop ?o (dn_buf dn)) (uint n + 1) }
           else Some (True, db')) = Some (True, db'')"
      "bb_holds db'' (bs @ (if best = None then [] else labels_bytes (take (Suc j) ls)))" "bb_room db'' = None"
  proof (cases best)
    case None
    then show ?thesis using db' by (intro that [of db']) simp_all
  next
    case (Some b)
    have "uint (dn_buf dn ! ?o) + 1 = int (length (ls ! j) + 1)" using it(3) by (metis of_nat_1 of_nat_add of_nat_unat)
    moreover have "length (ls ! j) + 1 \<le> length (drop ?o (dn_buf dn))" using it(1) by simp
    moreover have "take (length (ls ! j) + 1) (drop ?o (dn_buf dn)) = label_bytes (ls ! j)" using inn(1) by (simp add: label_in_def)
    ultimately obtain db'' where "DNSBufAddData junk db' (drop ?o (dn_buf dn)) (uint (dn_buf dn ! ?o) + 1) = Some (True, db'')"
        "bb_holds db'' ((bs @ labels_bytes (take j ls)) @ label_bytes (ls ! j))" "bb_room db'' = None"
      using bb128.add_fits [of db' "bs @ labels_bytes (take j ls)" "length (ls ! j) + 1" "drop ?o (dn_buf dn)" junk] db'(2,3) Some
      by (auto simp: DNSBufAddData_def fits_def)
    then show ?thesis using it(1) Some tk by (intro that [of db'']) (simp_all add: rd_def)
  qed
  have "place_label junk dn m best p db' ?offs j = Some (True, db'', ?offs[j := ?o + p])"
    unfolding place_label_def len Let_def rdo using j(2) st(1) by simp
  then show ?case using db'(1) st(2,3) upd by (auto simp: place_labels_append)
qed

text \<open>The labels it has in common with the best match: a pointer to the first of them.\<close>

lemma place_shared:
  assumes "length own_offs = s" "length old = s + m" "m \<le> length b" "j < m" "bb_holds db bs" "bb_room db = None"
  shows "\<exists>db'. place_labels junk dn m (Some b) p db (own_offs @ drop s old) [s..<s + Suc j] =
        Some (True, db', own_offs @ take (Suc j) (drop (length b - m) b) @ drop (s + Suc j) old) \<and>
      bb_holds db' (bs @ net_uint16_bytes (DNS_PTR_PATTERN_MASK OR word_of_nat (b ! (length b - m)))) \<and> bb_room db' = None"
  using assms(4)
proof (induction j)
  case 0
  let ?o = "b ! (length b - m)" and ?offs = "own_offs @ drop s old"
  have len: "length ?offs = s + m" using assms(1,2) by simp
  have o: "rd b (length b - m + (s - s)) = Some ?o" using assms(3) 0 by (simp add: rd_def)
  obtain db' where db': "DNSBufAddData junk db (net_uint16_bytes (DNS_PTR_PATTERN_MASK OR word_of_nat ?o)) 2 = Some (True, db')"
      "bb_holds db' (bs @ net_uint16_bytes (DNS_PTR_PATTERN_MASK OR word_of_nat ?o))" "bb_room db' = None"
    using bb128.add_fits [OF assms(5), of 2 "net_uint16_bytes (DNS_PTR_PATTERN_MASK OR word_of_nat ?o)" junk] assms(6)
    by (auto simp: DNSBufAddData_def fits_def)
  have "drop s old = old ! s # drop (Suc s) old" using assms(2) 0 by (simp add: Cons_nth_drop_Suc)
  moreover have "take (Suc 0) (drop (length b - m) b) = [?o]" using assms(3) 0 by (simp add: take_Suc_conv_app_nth)
  ultimately have u: "?offs[s := ?o] = own_offs @ take (Suc 0) (drop (length b - m) b) @ drop (s + Suc 0) old"
    using assms(1) by (simp add: list_update_append)
  have "place_label junk dn m (Some b) p db ?offs s = Some (True, db', ?offs[s := ?o])"
    unfolding place_label_def len Let_def using o db'(1) by simp
  then show ?case using db'(2,3) u by simp
next
  case (Suc j)
  let ?offs = "own_offs @ take (Suc j) (drop (length b - m) b) @ drop (s + Suc j) old" and ?o = "b ! (length b - m + Suc j)"
  obtain db' where db': "place_labels junk dn m (Some b) p db (own_offs @ drop s old) [s..<s + Suc j] = Some (True, db', ?offs)"
      "bb_holds db' (bs @ net_uint16_bytes (DNS_PTR_PATTERN_MASK OR word_of_nat (b ! (length b - m))))" "bb_room db' = None"
    using Suc by auto
  have len: "length ?offs = s + m" using assms(1-3) Suc.prems by simp
  have o: "rd b (length b - m + (s + Suc j - s)) = Some ?o" using assms(3) Suc.prems by (simp add: rd_def)
  have "drop (s + Suc j) old = old ! (s + Suc j) # drop (s + Suc (Suc j)) old" using assms(2) Suc.prems by (simp add: Cons_nth_drop_Suc)
  moreover have "take (Suc (Suc j)) (drop (length b - m) b) = take (Suc j) (drop (length b - m) b) @ [?o]"
    using assms(3) Suc.prems by (simp add: take_Suc_conv_app_nth)
  moreover have "length (take (Suc j) (drop (length b - m) b)) = Suc j" using assms(3) Suc.prems by simp
  ultimately have u: "?offs[s + Suc j := ?o] = own_offs @ take (Suc (Suc j)) (drop (length b - m) b) @ drop (s + Suc (Suc j)) old"
    using assms(1) by (simp add: list_update_append)
  have "place_label junk dn m (Some b) p db' ?offs (s + Suc j) = Some (True, db', ?offs[s + Suc j := ?o])"
    unfolding place_label_def len Let_def using o by simp
  moreover have "[s..<s + Suc (Suc j)] = [s..<s + Suc j] @ [s + Suc j]" by simp
  ultimately show ?case using db' u by (simp add: place_labels_append del: upt_Suc)
qed

text \<open>All the labels of a new name.\<close>

lemma length_labels: "length (labels_bytes (labels_from acc cs)) \<le> length acc + length cs + 1"
  by (induction acc cs rule: labels_from.induct) (auto intro: order_trans)

lemma shared_offsets:
  assumes "offsets_ok bs S offs ls'" "0 < m" "m \<le> length ls'" "m \<le> length ls" "drop (length ls' - m) ls' = drop (length ls - m) ls"
  shows "offsets_ok bs S (drop (length offs - m) offs) (drop (length ls - m) ls)" "length offs = length ls'"
    "offs ! (length offs - m) \<in> S" "offs ! (length offs - m) < length bs"
    "\<exists>n. spells bs (length bs) S n (offs ! (length offs - m)) (drop (length ls - m) ls)"
proof -
  let ?k = "length ls' - m"
  show len: "length offs = length ls'" using assms(1) by (auto simp: offsets_ok_def dest: list_all2_lengthD)
  have k: "?k < length ls'" using assms(2,3) by simp
  have "list_all2 (label_in bs) (drop ?k offs) (drop ?k ls')" using assms(1) by (simp add: offsets_ok_def list_all2_dropI)
  moreover have "\<exists>n. spells bs (length bs) S n (drop ?k offs ! i) (drop i (drop ?k ls'))" if "i < length (drop ?k ls')" for i
  proof -
    have "?k + i < length ls'" using that by simp
    then have "\<exists>n. spells bs (length bs) S n (offs ! (?k + i)) (drop (?k + i) ls')" using assms(1) by (simp add: offsets_ok_def)
    then show ?thesis using len that by (simp add: add.commute)
  qed
  ultimately have "offsets_ok bs S (drop ?k offs) (drop ?k ls')"
    using assms(1) set_drop_subset [of ?k offs] unfolding offsets_ok_def by (auto dest: in_set_dropD)
  then show ok: "offsets_ok bs S (drop (length offs - m) offs) (drop (length ls - m) ls)" using assms(5) len by simp
  show "offs ! (length offs - m) \<in> S" using assms(1) k len by (auto simp: offsets_ok_def)
  show sp: "\<exists>n. spells bs (length bs) S n (offs ! (length offs - m)) (drop (length ls - m) ls)"
  proof -
    have "\<exists>n. spells bs (length bs) S n (offs ! ?k) (drop ?k ls')" using assms(1) k by (simp add: offsets_ok_def)
    then show ?thesis using assms(5) len by simp
  qed
  then show "offs ! (length offs - m) < length bs" using within_less spells_within by blast
qed

text \<open>What is in the buffer of names: the bytes \<open>bs\<close>, with the names \<open>lss\<close>.\<close>

definition holds_names :: "names_buf \<Rightarrow> u8 list \<Rightarrow> u8 list list list \<Rightarrow> bool" where
  "holds_names nb bs lss \<longleftrightarrow> bb_holds (dnb_buf nb) bs \<and> bb_room (dnb_buf nb) = None \<and>
     (\<exists>S. names_at bs 0 {} lss (length bs) S \<and> (dnb_compact nb \<longrightarrow> list_all2 (offsets_ok bs S) (dnb_names nb) lss))"

declare own.simps [simp del] spells.simps [simp del]

lemma end_own: "own (bs @ [0]) L S 0 (length bs) [] (length bs + 1) S"
  by (simp add: own.simps within_def item_size_def is_pointer_def)

lemma pointer_own:
  assumes "k < 0x4000" "k < length bs" "k < L" "k \<in> S" "spells bs L S n k ls" "L \<le> length bs" "length bs = p"
  shows "own (bs @ net_uint16_bytes (DNS_PTR_PATTERN_MASK OR word_of_nat k)) L S 0 p ls (p + 2) S"
proof -
  let ?v = "DNS_PTR_PATTERN_MASK OR word_of_nat k :: u16" and ?B = "bs @ net_uint16_bytes (DNS_PTR_PATTERN_MASK OR word_of_nat k)"
  have b: "?B ! p = ucast (drop_bit 8 ?v)" "?B ! (p + 1) = ucast ?v"
    using assms(7) by (simp_all add: net_uint16_bytes_def nth_append)
  have ip: "is_pointer (?B ! p)" using pointer_word(1) [OF assms(1)] b(1) by simp
  have pt: "ptr_at ?B p = k" unfolding ptr_at_def b be16_join using pointer_word(2) [OF assms(1)] .
  have "spells ?B L S n k ls" using spells_append [OF assms(5,6) order_refl order_refl] .
  then have sp: "\<exists>n. spells ?B L S n (ptr_at ?B p) ls" unfolding pt ..
  have w: "within ?B (length ?B) p" using ip assms(7) by (simp add: within_def item_size_def)
  have lt: "ptr_at ?B p < p" "ptr_at ?B p < L" "ptr_at ?B p \<in> S" unfolding pt using assms(2-4,7) by simp_all
  show ?thesis unfolding own.simps if_P [OF ip] using w lt sp by blast
qed

lemma add_name_plain:
  assumes "holds_names nb bs lss" "fit (labels name)" "\<not> dnb_compact nb"
  shows "\<exists>nb' bs'. DNSNamesBufAddName junk nb name False False = Some (True, nb') \<and> holds_names nb' bs' (lss @ [labels name]) \<and>
     \<not> dnb_compact nb'"
proof -
  let ?ls = "labels name" and ?bs = "bs @ labels_bytes (labels name) @ [0]"
  obtain dn where dn: "DNSNameCreate junk name False False = Some (Some dn)" "dn_buf_size dn = length (labels_bytes ?ls) + 1"
      "dn_buf_size dn \<le> length (dn_buf dn)" "take (dn_buf_size dn) (dn_buf dn) = labels_bytes ?ls @ [0]"
    using name_create(1) [OF assms(2), of junk False] by blast
  obtain S where S: "bb_holds (dnb_buf nb) bs" "bb_room (dnb_buf nb) = None" "names_at bs 0 {} lss (length bs) S"
    using assms(1) by (auto simp: holds_names_def)
  have "fits (bb_room (dnb_buf nb)) (length bs + dn_buf_size dn)" by (simp add: S(2) fits_def)
  from bb128.add_fits [OF S(1) dn(3) this, of junk] obtain db where
      db: "DNSBufAddData junk (dnb_buf nb) (dn_buf dn) (int (dn_buf_size dn)) = Some (True, db)" "bb_holds db ?bs" "bb_room db = None"
    unfolding DNSBufAddData_def dn(4) S(2) by blast
  have sh: "\<forall>l \<in> set ?ls. short l" using assms(2) labels_from_nonempty by (auto simp: labels_def short_def fit_def)
  have e: "own ?bs (length bs) (S \<union> set (label_starts (length bs) ?ls)) 0 (length (bs @ labels_bytes ?ls)) [] (length ?bs)
      (S \<union> set (label_starts (length bs) ?ls))"
    using end_own [of "bs @ labels_bytes ?ls"] by simp
  have "names_at ?bs 0 {} (lss @ [?ls]) (length ?bs) (S \<union> set (label_starts (length bs) ?ls))"
    using new_name_ok(1) [OF S(3) sh refl, of "[0]" "[]" "[]"] e by (simp del: own.simps)
  then have "holds_names (nb\<lparr>dnb_buf := db\<rparr>) ?bs (lss @ [?ls])" using db assms(3) by (auto simp: holds_names_def)
  then show ?thesis using dn(1) db(1) assms(3)
    by (intro exI [of _ "nb\<lparr>dnb_buf := db\<rparr>"] exI [of _ ?bs]) (simp add: DNSNamesBufAddName_def Let_def)
qed

lemma offsets_ok_labels: "offsets_ok bs S offs ls \<Longrightarrow> list_all2 (label_in (bs @ cs)) offs ls \<and> (\<forall>l \<in> set ls. short l)"
  by (auto simp: offsets_ok_def intro: list_all2_mono label_in_append)

text \<open>A new name without a match, and one that shares the last \<open>m\<close> labels of a name that is there.\<close>

lemma compact_new:
  assumes "dn_offsets dn = label_starts 0 ls" "list_all2 (label_in (dn_buf dn)) (label_starts 0 ls) ls" "\<forall>l \<in> set ls. short l"
    and "dn_buf_size dn \<le> length (dn_buf dn)" "take (dn_buf_size dn) (dn_buf dn) = labels_bytes ls @ [0]"
    and "bb_holds db bs" "bb_room db = None" "names_at bs 0 {} lss (length bs) S"
  obtains db1 db2 S' where "DNSBufAddData junk db (dn_buf dn) (int (dn_buf_size dn)) = Some (True, db1)"
    "place_labels junk dn 0 None (length bs) db1 (dn_offsets dn) [0..<length (dn_offsets dn)] = Some (True, db2, label_starts (length bs) ls)"
    "bb_holds db2 (bs @ labels_bytes ls @ [0])" "bb_room db2 = None" "S \<subseteq> S'"
    "names_at (bs @ labels_bytes ls @ [0]) 0 {} (lss @ [ls]) (length (bs @ labels_bytes ls @ [0])) S'"
    "offsets_ok (bs @ labels_bytes ls @ [0]) S' (label_starts (length bs) ls) ls"
proof -
  let ?B = "bs @ labels_bytes ls @ [0]" and ?S = "S \<union> set (label_starts (length bs) ls)"
  have "fits (bb_room db) (length bs + dn_buf_size dn)" by (simp add: assms(7) fits_def)
  from bb128.add_fits [OF assms(6,4) this, of junk] obtain db1 where
      db1: "DNSBufAddData junk db (dn_buf dn) (int (dn_buf_size dn)) = Some (True, db1)" "bb_holds db1 ?B" "bb_room db1 = None"
    unfolding DNSBufAddData_def assms(5,7) by blast
  obtain db2 where db2: "place_labels junk dn 0 None (length bs) db1 (label_starts 0 ls) [0..<length ls] =
        Some (True, db2, take (length ls) (label_starts (length bs) ls) @ drop (length ls) (label_starts 0 ls))"
      "bb_holds db2 (?B @ [])" "bb_room db2 = None"
    using place_own [OF assms(2,3) db1(2,3), of "length ls" 0 junk None "length bs"] by auto
  have e: "own ?B (length bs) ?S 0 (length (bs @ labels_bytes ls)) [] (length ?B) ?S"
    using end_own [of "bs @ labels_bytes ls"] by simp
  note n = new_name_ok [OF assms(8,3) refl _ e, of "[]"]
  show ?thesis
    using db1(1) db2 n assms(1) by (intro that [of db1 db2 ?S]) simp_all
qed

lemma compact_shared:
  assumes "dn_offsets dn = label_starts 0 ls" "list_all2 (label_in (dn_buf dn)) (label_starts 0 ls) ls" "\<forall>l \<in> set ls. short l"
    and "bb_holds db bs" "bb_room db = None" "names_at bs 0 {} lss (length bs) S" "length bs \<le> 0x4000"
    and "offsets_ok bs S offs ls'" "0 < m" "m \<le> length ls'" "m \<le> length ls" "drop (length ls' - m) ls' = drop (length ls - m) ls"
  obtains db2 S' offs' t where
    "place_labels junk dn m (Some offs) (length bs) db (dn_offsets dn) [0..<length (dn_offsets dn)] = Some (True, db2, offs')"
    "bb_holds db2 (bs @ labels_bytes (take (length ls - m) ls) @ t)" "bb_room db2 = None" "S \<subseteq> S'" "length t = 2"
    "names_at (bs @ labels_bytes (take (length ls - m) ls) @ t) 0 {} (lss @ [ls]) (length (bs @ labels_bytes (take (length ls - m) ls) @ t)) S'"
    "offsets_ok (bs @ labels_bytes (take (length ls - m) ls) @ t) S' offs' ls"
proof -
  define s k where "s = length ls - m" and "k = offs ! (length offs - m)"
  define t where "t = net_uint16_bytes (DNS_PTR_PATTERN_MASK OR word_of_nat k)"
  let ?ls1 = "take s ls" and ?ls2 = "drop s ls" and ?p = "length bs"
  let ?B = "bs @ labels_bytes ?ls1 @ t" and ?S = "S \<union> set (label_starts ?p ?ls1)" and ?offs2 = "drop (length offs - m) offs"
  note sh = shared_offsets [OF assms(8-12), folded s_def k_def]
  have s: "s \<le> length ls" "length ls = s + m" using assms(11) by (simp_all add: s_def)
  obtain db1 where db1: "place_labels junk dn m (Some offs) ?p db (label_starts 0 ls) [0..<s] =
        Some (True, db1, take s (label_starts ?p ls) @ drop s (label_starts 0 ls))"
      "bb_holds db1 (bs @ labels_bytes ?ls1)" "bb_room db1 = None"
  proof -
    have "s \<le> length ls - m" by (simp add: s_def)
    from place_own [OF assms(2-5) this, of junk "Some offs" ?p] show thesis using that by (auto simp only: option.distinct if_False)
  qed
  have own_: "take s (label_starts ?p ls) = label_starts ?p ?ls1"
    using label_starts_append [of ?p ?ls1 ?ls2] s by (simp add: min_def)
  have a: "length (label_starts ?p ?ls1) = s" "length (label_starts 0 ls) = s + m" "m \<le> length offs" "m - 1 < m"
    using s assms(9,10) sh(2) by simp_all
  obtain db2 where db2: "place_labels junk dn m (Some offs) ?p db1 (label_starts ?p ?ls1 @ drop s (label_starts 0 ls)) [s..<s + Suc (m - 1)] =
        Some (True, db2, label_starts ?p ?ls1 @ take (Suc (m - 1)) ?offs2 @ drop (s + Suc (m - 1)) (label_starts 0 ls))"
      "bb_holds db2 ((bs @ labels_bytes ?ls1) @ t)" "bb_room db2 = None"
    using place_shared [OF a db1(2,3), of junk dn ?p] unfolding k_def [symmetric] t_def [symmetric] by blast
  have m: "Suc (m - 1) = m" using assms(9) by simp
  have o2: "take m ?offs2 = ?offs2" "drop (s + m) (label_starts 0 ls) = []" using a by simp_all
  have ix: "[0..<length (dn_offsets dn)] = [0..<s] @ [s..<s + m]" using s(2) upt_add_eq_append [of 0 s m] by (simp add: assms(1))
  have run: "place_labels junk dn m (Some offs) ?p db (dn_offsets dn) [0..<length (dn_offsets dn)] = Some (True, db2, label_starts ?p ?ls1 @ ?offs2)"
    using db1(1) db2(1) unfolding ix place_labels_append own_ m o2 append_Nil2 by (simp add: assms(1))
  have sh1: "\<forall>l \<in> set ?ls1. short l" using assms(3) by (meson in_set_takeD)
  obtain n where "spells bs ?p S n k ?ls2" using sh(5) by blast
  then have sp: "spells (bs @ labels_bytes ?ls1) ?p ?S n k ?ls2" by (rule spells_append) simp_all
  have e: "own ?B ?p ?S 0 (length (bs @ labels_bytes ?ls1)) ?ls2 (length ?B) ?S"
    using pointer_own [of k "bs @ labels_bytes ?ls1" ?p ?S n ?ls2 "length (bs @ labels_bytes ?ls1)"] sh(3,4) sp assms(7)
    by (simp add: t_def)
  have tt: "t \<noteq> []" "length t = 2" by (simp_all add: t_def net_uint16_bytes_def)
  note nn = new_name_ok [OF assms(6) sh1 refl tt(1) e disjI2 [OF sh(1)]]
  show ?thesis
    using db2(2,3) nn tt(2) s_def by (intro that [OF run _ db2(3), of t ?S]) simp_all
qed

lemma add_name_compact:
  assumes "holds_names nb bs lss" "fit (labels name)" "dnb_compact nb" "length bs \<le> 0x4000"
  shows "\<exists>nb' bs'. DNSNamesBufAddName junk nb name False False = Some (True, nb') \<and> holds_names nb' bs' (lss @ [labels name]) \<and>
     dnb_compact nb' \<and> length bs' \<le> length bs + (length name + 2)"
proof -
  let ?ls = "labels name" and ?db = "dnb_buf nb"
  obtain dn where dn: "DNSNameCreate junk name False False = Some (Some dn)" "dn_offsets dn = label_starts 0 ?ls"
      "dn_buf_size dn = length (labels_bytes ?ls) + 1" "dn_buf_size dn \<le> length (dn_buf dn)"
      "take (dn_buf_size dn) (dn_buf dn) = labels_bytes ?ls @ [0]"
    using name_create(1) [OF assms(2), of junk False] by blast
  obtain S where S: "bb_holds ?db bs" "bb_room ?db = None" "names_at bs 0 {} lss (length bs) S" "list_all2 (offsets_ok bs S) (dnb_names nb) lss"
    using assms(1,3) by (auto simp: holds_names_def)
  have sh: "\<forall>l \<in> set ?ls. short l" using assms(2) labels_from_nonempty by (auto simp: labels_def short_def fit_def)
  have nl: "length (labels_bytes ?ls) \<le> length name + 1" using length_labels [of "[]" name] by (simp add: labels_def)
  have "dn_buf dn = labels_bytes ?ls @ [0] @ drop (dn_buf_size dn) (dn_buf dn)" using dn(5) by (metis append.assoc append_take_drop_id)
  then have li: "list_all2 (label_in (dn_buf dn)) (label_starts 0 ?ls) ?ls"
    using labels_in_starts [of "[]" ?ls "[0] @ drop (dn_buf_size dn) (dn_buf dn)"] by simp
  have used: "nat (bb_used ?db) = length bs" using S(1) by (simp add: bb_holds_def)
  have "bb_buf ?db = bs @ drop (length bs) (bb_buf ?db)" using S(1) by (metis append_take_drop_id bb_holds_def)
  then have la: "list_all2 (\<lambda>offs ls. list_all2 (label_in (bb_buf ?db)) offs ls \<and> (\<forall>l \<in> set ls. short l)) (dnb_names nb) lss"
    using S(4) offsets_ok_labels [of bs S _ _ "drop (length bs) (bb_buf ?db)"] by (auto elim!: list_all2_mono)
  obtain m b where b: "best_match (bb_buf ?db) dn (dnb_names nb) 0 None = Some (m, b)"
      "m = 0 \<and> b = None \<or> (\<exists>offs ls'. b = Some offs \<and> (offs, ls') \<in> set (zip (dnb_names nb) lss) \<and> 0 < m \<and> m \<le> length ls' \<and>
         m \<le> length ?ls \<and> drop (length ls' - m) ls' = drop (length ?ls - m) ?ls)"
    using best_match_ok [OF la, of dn ?ls 0 None "\<lambda>m b. \<exists>offs ls'. b = Some offs \<and> (offs, ls') \<in> set (zip (dnb_names nb) lss) \<and>
         0 < m \<and> m \<le> length ls' \<and> m \<le> length ?ls \<and> drop (length ls' - m) ls' = drop (length ?ls - m) ?ls"] li sh
    by (auto simp: dn(2))
  have done_: "\<exists>nb' bs'. DNSNamesBufAddName junk nb name False False = Some (True, nb') \<and> holds_names nb' bs' (lss @ [?ls]) \<and>
        dnb_compact nb' \<and> length bs' \<le> length bs + (length name + 2)"
    if "(if b = None then DNSBufAddData junk ?db (dn_buf dn) (int (dn_buf_size dn)) else Some (True, ?db)) = Some (True, db1)"
      "place_labels junk dn m b (length bs) db1 (dn_offsets dn) [0..<length (dn_offsets dn)] = Some (True, db2, offs')"
      "bb_holds db2 (bs @ cs)" "bb_room db2 = None" "S \<subseteq> S'" "names_at (bs @ cs) 0 {} (lss @ [?ls]) (length (bs @ cs)) S'"
      "offsets_ok (bs @ cs) S' offs' ?ls" "length cs \<le> length name + 2" for db1 db2 offs' cs S'
  proof -
    let ?nb = "nb\<lparr>dnb_buf := db2, dnb_names := dnb_names nb @ [offs']\<rparr>"
    have "DNSNamesBufAddName junk nb name False False = Some (True, ?nb)"
      unfolding DNSNamesBufAddName_def Let_def dn(1) using assms(3) b(1) that(1,2) used by simp
    moreover have "list_all2 (offsets_ok (bs @ cs) S') (dnb_names nb) lss"
      using S(4) offsets_ok_append [OF _ that(5)] by (auto elim!: list_all2_mono)
    then have "holds_names ?nb (bs @ cs) (lss @ [?ls])"
      unfolding holds_names_def using that(3,4,6,7) by (auto intro!: exI [of _ S'] list_all2_appendI)
    ultimately show ?thesis using assms(3) that(8) by (intro exI [of _ ?nb] exI [of _ "bs @ cs"]) simp
  qed
  from b(2) show ?thesis
  proof (elim disjE exE conjE)
    assume mb: "m = 0" "b = None"
    obtain db1 db2 S' where "DNSBufAddData junk ?db (dn_buf dn) (int (dn_buf_size dn)) = Some (True, db1)"
      "place_labels junk dn 0 None (length bs) db1 (dn_offsets dn) [0..<length (dn_offsets dn)] = Some (True, db2, label_starts (length bs) ?ls)"
      "bb_holds db2 (bs @ labels_bytes ?ls @ [0])" "bb_room db2 = None" "S \<subseteq> S'"
      "names_at (bs @ labels_bytes ?ls @ [0]) 0 {} (lss @ [?ls]) (length (bs @ labels_bytes ?ls @ [0])) S'"
      "offsets_ok (bs @ labels_bytes ?ls @ [0]) S' (label_starts (length bs) ?ls) ?ls"
      by (rule compact_new [OF dn(2) li sh dn(4,5) S(1-3)])
    then show ?thesis using mb nl by (intro done_ [of db1 db2 "label_starts (length bs) ?ls" "labels_bytes ?ls @ [0]" S']) simp_all
  next
    fix offs ls'
    assume mb: "b = Some offs" "(offs, ls') \<in> set (zip (dnb_names nb) lss)" "0 < m" "m \<le> length ls'" "m \<le> length ?ls"
      "drop (length ls' - m) ls' = drop (length ?ls - m) ?ls"
    have ok: "offsets_ok bs S offs ls'" using S(4) mb(2) by (auto simp: list_all2_iff)
    obtain db2 S' offs' t where p: "place_labels junk dn m (Some offs) (length bs) ?db (dn_offsets dn) [0..<length (dn_offsets dn)] =
          Some (True, db2, offs')" "bb_holds db2 (bs @ labels_bytes (take (length ?ls - m) ?ls) @ t)" "bb_room db2 = None" "S \<subseteq> S'"
        "length t = 2" "names_at (bs @ labels_bytes (take (length ?ls - m) ?ls) @ t) 0 {} (lss @ [?ls])
          (length (bs @ labels_bytes (take (length ?ls - m) ?ls) @ t)) S'"
        "offsets_ok (bs @ labels_bytes (take (length ?ls - m) ?ls) @ t) S' offs' ?ls"
      by (rule compact_shared [OF dn(2) li sh S(1-3) assms(4) ok mb(3-6)])
    have "labels_bytes ?ls = labels_bytes (take (length ?ls - m) ?ls) @ labels_bytes (drop (length ?ls - m) ?ls)"
      by (simp flip: labels_bytes_simps(3))
    then have "length (labels_bytes (take (length ?ls - m) ?ls) @ t) \<le> length name + 2"
    proof -
      assume e: "labels_bytes ?ls = labels_bytes (take (length ?ls - m) ?ls) @ labels_bytes (drop (length ?ls - m) ?ls)"
      have "drop (length ?ls - m) ?ls \<noteq> []" using mb(3,5) by simp
      then have "1 \<le> length (labels_bytes (drop (length ?ls - m) ?ls))" by (cases "drop (length ?ls - m) ?ls") auto
      then show ?thesis using nl p(5) arg_cong [OF e, of length] by simp
    qed
    then show ?thesis using mb(1) p
      by (intro done_ [of ?db db2 offs' "labels_bytes (take (length ?ls - m) ?ls) @ t" S']) simp_all
  qed
qed

section \<open>Lists of names\<close>

lemma add_names_plain:
  assumes "holds_names nb bs lss" "\<forall>name \<in> set names. fit (labels name)" "\<not> dnb_compact nb"
  shows "\<exists>nb' bs'. add_names junk nb names False False = Some (True, nb') \<and> holds_names nb' bs' (lss @ map labels names)"
  using assms
proof (induction names arbitrary: nb bs lss)
  case (Cons name names)
  obtain nb' bs' where n: "DNSNamesBufAddName junk nb name False False = Some (True, nb')" "holds_names nb' bs' (lss @ [labels name])"
      "\<not> dnb_compact nb'"
    using add_name_plain [OF Cons.prems(1) _ Cons.prems(3), of name junk] Cons.prems(2) by auto
  then show ?case using Cons.IH [OF n(2) _ n(3)] Cons.prems(2) by simp
qed auto

lemma add_names_compact:
  assumes "holds_names nb bs lss" "\<forall>name \<in> set names. fit (labels name)" "dnb_compact nb"
    and "length bs + (\<Sum>name \<leftarrow> names. length name + 2) \<le> 0x4000"
  shows "\<exists>nb' bs'. add_names junk nb names False False = Some (True, nb') \<and> holds_names nb' bs' (lss @ map labels names)"
  using assms
proof (induction names arbitrary: nb bs lss)
  case (Cons name names)
  have le: "length bs \<le> 0x4000" using Cons.prems(4) by simp
  obtain nb' bs' where n: "DNSNamesBufAddName junk nb name False False = Some (True, nb')" "holds_names nb' bs' (lss @ [labels name])"
      "dnb_compact nb'" "length bs' \<le> length bs + (length name + 2)"
    using add_name_compact [OF Cons.prems(1) _ Cons.prems(3) le, of name junk] Cons.prems(2) by auto
  have "length bs' + (\<Sum>name \<leftarrow> names. length name + 2) \<le> 0x4000" using n(4) Cons.prems(4) by simp
  then show ?case using n(1) Cons.IH [OF n(2) _ n(3)] Cons.prems(2) by simp
qed auto

lemma labels_from_clean: "0 \<notin> set acc \<Longrightarrow> 0 \<notin> set cs \<Longrightarrow> l \<in> set (labels_from acc cs) \<Longrightarrow> 0 \<notin> set l"
  by (induction acc cs rule: labels_from.induct) (auto split: if_splits)

lemma text_clean: "\<forall>l \<in> set ls. 0 \<notin> set l \<Longrightarrow> 0 \<notin> set (text_of f ls)"
  by (induction f ls rule: text_of.induct) auto

lemma c_strings_names: "\<forall>ls \<in> set lss. 0 \<notin> set (text_of True ls) \<Longrightarrow>
    c_strings (length lss) (names_text lss @ rest) = Some (map (text_of True) lss)"
proof (induction lss)
  case (Cons ls lss)
  then have t: "0 \<notin> set (text_of True ls)" by simp
  then have "takeWhile (\<lambda>b. b \<noteq> 0) (text_of True ls @ 0 # names_text lss @ rest) = text_of True ls"
    by (subst takeWhile_append2) auto
  with Cons show ?case by (simp add: names_text_def Let_def)
qed simp

text \<open>A name that is a row of labels has these labels, so nothing of it is lost.\<close>

lemma labels_from_dotless: "dot \<notin> set l \<Longrightarrow> labels_from acc (l @ cs) = labels_from (acc @ l) cs"
  by (induction l arbitrary: acc) auto

lemma labels_text: "\<forall>l \<in> set ls. l \<noteq> [] \<and> dot \<notin> set l \<Longrightarrow> labels (text_of True ls) = ls"
proof -
  have tl: "\<forall>l \<in> set ls. l \<noteq> [] \<and> dot \<notin> set l \<Longrightarrow> acc \<noteq> [] \<Longrightarrow> labels_from acc (text_of False ls) = acc # ls" for acc
  proof (induction ls arbitrary: acc)
    case (Cons l ls)
    then show ?case using labels_from_dotless [of l "[]" "text_of False ls"] by simp
  qed simp
  assume a: "\<forall>l \<in> set ls. l \<noteq> [] \<and> dot \<notin> set l"
  show ?thesis
  proof (cases ls)
    case (Cons l ls')
    then show ?thesis using a tl [of "l"] labels_from_dotless [of l "[]" "text_of False ls'"]
      by (simp add: labels_def)
  qed (simp add: labels_def)
qed

lemma read_written:
  assumes "holds_names nb bs lss" "lss \<noteq> []" "\<forall>ls \<in> set lss. \<forall>l \<in> set ls. 0 \<notin> set l"
  shows "DNSNameListCreate junk (Some bs) False False = Some (Some (map (text_of True) lss))"
proof -
  obtain S where S: "names_at bs 0 {} lss (length bs) S" using assms(1) by (auto simp: holds_names_def)
  have ne: "bs \<noteq> []"
  proof -
    obtain ls k p1 S1 where "own bs 0 {} k 0 ls p1 S1" using S assms(2) by (cases lss) auto
    then show ?thesis using own_moves by fastforce
  qed
  let ?r = "\<lparr>dr_offsets = [], dr_last_completed_name = 0, dr_left = length bs, dr_scan = 0, dr_read_head = 0,
     dr_name_buf = DNSBufInit None, dr_list_count = 0, dr_first = True\<rparr>"
  have "at bs 0 {} 0 0 0 True [] ?r" using buf_init_holds(1) [of 128] by (simp add: at_def texts_def DNSBufInit_def)
  from read_names [OF S this] obtain r where r: "read_loop junk bs False False ?r = Some (True, r)" "dr_list_count r = length lss"
      "texts r (names_text lss)" by fastforce
  have nb: "bb_holds (dr_name_buf r) (names_text lss)" using r(3) by (simp add: texts_def)
  have "DNSNameListCreateWithDNSBuf junk (Some bs) (DNSBufInit None) False False = Some (length lss, Some (dr_name_buf r))"
    using ne r(1,2) assms(2) by (cases bs) (simp_all add: DNSNameListCreateWithDNSBuf_def)
  moreover have "rdn (bb_buf (dr_name_buf r)) 0 (nat (bb_used (dr_name_buf r))) = Some (names_text lss)"
    using nb bb_holds_le [OF nb] by (simp add: bb_holds_def rdn_def)
  moreover have "c_strings (length lss) (names_text lss) = Some (map (text_of True) lss)"
    using c_strings_names [of lss "[]"] assms(3) text_clean by auto
  ultimately show ?thesis using assms(2) by (simp add: DNSNameListCreate_def)
qed

text \<open>
  Why compression needs the bound: the pointer to a label at an offset of 0x4000 or more loses the
  offset's high bits, and is a pointer to somewhere else.
\<close>

lemma large_offset_lost:
  assumes "0x4000 \<le> k"
  shows "unat ((DNS_PTR_PATTERN_MASK OR word_of_nat k :: u16) AND DNS_PTR_VALUE_MASK) \<noteq> k"
proof -
  have "(DNS_PTR_PATTERN_MASK OR word_of_nat k :: u16) AND DNS_PTR_VALUE_MASK \<le> DNS_PTR_VALUE_MASK"
    by (rule word_and_le1)
  then have "unat ((DNS_PTR_PATTERN_MASK OR word_of_nat k :: u16) AND DNS_PTR_VALUE_MASK) \<le> 0x3fff"
    by (simp add: word_le_nat_alt)
  with assms show ?thesis by linarith
qed

text \<open>C35. A list of domain names with labels of at most 63 bytes is written, and what was written is read as
  the same names, each up to its first empty label; with compression this holds for lists whose
  names have at most 16384 bytes, two more for each name included.\<close>

theorem names_roundtrip:
  assumes "names \<noteq> []" "\<forall>name \<in> set names. fit (labels name) \<and> 0 \<notin> set name"
    and "compact \<Longrightarrow> (\<Sum>name \<leftarrow> names. length name + 2) \<le> 0x4000"
  shows "\<exists>bs. DNSNameListBufferCreate junk names None n compact = Some (Some bs, int (length bs)) \<and>
     DNSNameListCreate junk' (Some bs) False False = Some (Some (map (\<lambda>name. text_of True (labels name)) names))"
proof -
  let ?nb = "\<lparr>dnb_buf = DNSBufInit None, dnb_names = [], dnb_compact = compact\<rparr>"
  have h: "holds_names ?nb [] []" using buf_init_holds(1) [of 128] by (auto simp: holds_names_def DNSBufInit_def)
  have fits: "\<forall>name \<in> set names. fit (labels name)" using assms(2) by blast
  obtain nb bs where nb: "add_names junk ?nb names False False = Some (True, nb)" "holds_names nb bs (map labels names)"
  proof (cases compact)
    case True
    then show ?thesis using add_names_compact [OF h fits, of junk] assms(3) that by auto
  next
    case False
    then show ?thesis using add_names_plain [OF h fits, of junk] that by auto
  qed
  have b: "bb_holds (dnb_buf nb) bs" using nb(2) by (simp add: holds_names_def)
  have "rdn (bb_buf (dnb_buf nb)) 0 (nat (bb_used (dnb_buf nb))) = Some bs" "bb_used (dnb_buf nb) = int (length bs)"
    using b bb_holds_le [OF b] by (simp_all add: bb_holds_def rdn_def)
  then have "DNSNameListBufferCreate junk names None n compact = Some (Some bs, int (length bs))"
    using assms(1) nb(1) by (simp add: DNSNameListBufferCreate_def DNSNameListBufferCreateCommon_def)
  moreover have "\<forall>ls \<in> set (map labels names). \<forall>l \<in> set ls. 0 \<notin> set l"
    using assms(2) labels_from_clean [of "[]"] by (auto simp: labels_def)
  then have "DNSNameListCreate junk' (Some bs) False False = Some (Some (map (\<lambda>name. text_of True (labels name)) names))"
    using read_written [OF nb(2), of junk'] assms(1) by (simp add: o_def)
  ultimately show ?thesis by blast
qed

definition sample_names :: "u8 list list" where
  "sample_names = [[97, 46, 99, 111], [98, 46, 99, 111]]"

theorem names_roundtrip_witness:
  "\<exists>bs. DNSNameListBufferCreate (\<lambda>_. 7) sample_names None 0 True = Some (Some bs, int (length bs)) \<and>
     DNSNameListCreate (\<lambda>_. 9) (Some bs) False False = Some (Some sample_names)"
proof -
  have l: "labels [97, 46, 99, 111] = [[97], [99, 111]]" "labels [98, 46, 99, 111] = [[98], [99, 111]]" by (simp_all add: labels_def)
  have "sample_names \<noteq> []" "\<forall>name \<in> set sample_names. fit (labels name) \<and> 0 \<notin> set name"
    "(\<Sum>name \<leftarrow> sample_names. length name + 2) \<le> 0x4000" "map (\<lambda>name. text_of True (labels name)) sample_names = sample_names"
    using l by (simp_all add: sample_names_def fit_def)
  then show ?thesis using names_roundtrip [of sample_names True "\<lambda>_. 7" 0 "\<lambda>_. 9"] by simp
qed

end
