(* ===== verification/DNSServerFacts.thy ===== *)
theory DNSServerFacts
  imports DNSServers DNSNameRoundtrip
begin

text \<open>
  Parsing encrypted DNS servers stays inside the bytes and ends, and a server written the way RFC 9463
  lays it out is parsed to that server.
\<close>

section \<open>Parsing stays inside the bytes\<close>

lemma name_string_ok [mem]: "\<exists>out. DNSNameStringCreate env buffer preserve = Some out"
proof -
  obtain n nb where n: "DNSNameListCreateWithDNSBuf (ne_junk env) (Some buffer) (DNSBufInit None) True preserve = Some (n, nb)"
    "n \<noteq> 0 \<longrightarrow> (\<exists>b cs. nb = Some b \<and> rdn (bb_buf b) 0 (nat (bb_used b)) = Some cs \<and> n \<le> count_list cs 0)"
    by (rule names_buf_read)
  show ?thesis
  proof (cases "n = 0")
    case False
    then obtain b cs where b: "nb = Some b" "rdn (bb_buf b) 0 (nat (bb_used b)) = Some cs" "1 \<le> count_list cs 0"
      using n(2) by fastforce
    obtain ss where ss: "c_strings 1 cs = Some ss" using c_strings_ok [OF b(3)] by blast
    show ?thesis using ss b(1,2) n(1) False by (simp add: DNSNameStringCreate_def del: c_strings.simps)
  qed (simp add: n(1) DNSNameStringCreate_def)
qed

text \<open>The addresses at \<open>scan\<close>, in pieces of \<open>sz\<close> bytes.\<close>

fun pieces :: "nat \<Rightarrow> nat \<Rightarrow> 'a list \<Rightarrow> 'a list list" where
  "pieces sz 0 bs = []"
| "pieces sz (Suc n) bs = take sz bs # pieces sz n (drop sz bs)"

lemma addr_loop_eq: "n * sz \<le> length scan \<Longrightarrow>
    addr_loop sz ignored n scan = Some (filter (\<lambda>ip. \<not> ignored ip) (pieces sz n scan))"
proof (induction n arbitrary: scan)
  case (Suc n)
  then have "n * sz \<le> length (drop sz scan)" "rdn scan 0 sz = Some (take sz scan)" by (auto simp: rdn_def)
  with Suc.IH show ?case by (simp del: length_drop)
qed simp

lemma read_adn_ok: "left \<le> int (length scan) \<Longrightarrow> \<exists>out. read_adn env scan left n = Some out \<and> (out \<noteq> None \<longrightarrow> 1 \<le> n \<and> n \<le> left)"
  using name_string_ok by (auto simp: read_adn_def mem ADN_LEN_MIN_def)

lemma read_addrs_ok:
  assumes "left \<le> int (length scan)" "0 < sz"
  shows "\<exists>out. read_addrs sz ignored scan left n = Some out \<and> (out \<noteq> None \<longrightarrow> int n \<le> left)"
proof (cases "left < int n \<or> n mod sz \<noteq> 0 \<or> left < int (n div sz * sz)")
  case False
  then have "n div sz * sz \<le> length scan" using assms by linarith
  then show ?thesis using False by (simp add: read_addrs_def addr_loop_eq)
qed (auto simp: read_addrs_def)

lemma used_le: "int n \<le> left \<Longrightarrow> int (n div sz * sz) \<le> left"
  using div_times_less_eq_dividend [of n sz] by linarith

lemma trunc16_small:
  assumes "0 \<le> k" "k < 65536"
  shows "uint (word_of_int k :: u16) = k" "unat (word_of_int k :: u16) = nat k"
proof -
  show u: "uint (word_of_int k :: u16) = k" using assms by (simp add: uint_word_of_int mod_pos_pos_trivial)
  show "unat (word_of_int k :: u16) = nat k" by (simp only: unat_eq_nat_uint u)
qed

lemma trunc16_le: "0 \<le> k \<Longrightarrow> unat (word_of_int k :: u16) \<le> nat k"
  by (simp only: unat_eq_nat_uint uint_word_of_int nat_mono zmod_le_nonneg_dividend)

lemma v4_ok:
  assumes "len \<le> int (length data)"
  shows "\<exists>out. DNSEncryptedServerCreateWithDHCPv4Data env data len offset = Some out \<and>
    (\<forall>es offset'. out = Some (es, offset') \<longrightarrow> offset < offset' \<and> offset' \<le> len)"
proof (cases "offset < 0 \<or> offset \<ge> len \<or> len - offset < DNR_INSTANCE_MIN_LEN_dhcpv4")
  case True
  then show ?thesis by (auto simp: DNSEncryptedServerCreateWithDHCPv4Data_def)
next
  case start: False
  define p where "p = drop (nat offset) data"
  have l: "len - offset \<le> int (length p)" "9 \<le> len - offset"
    using assms start by (auto simp: p_def DNR_INSTANCE_MIN_LEN_dhcpv4_def ADN_LEN_MIN_def)
  obtain il where il: "net_uint16_get p = Some il" using net_uint16_get_defined [of p] l by auto
  have s1: "\<not> (offset < 0 \<or> offset \<ge> len)" "\<not> len - offset < DNR_INSTANCE_MIN_LEN_dhcpv4" using start by auto
  note unf = DNSEncryptedServerCreateWithDHCPv4Data_def Let_def if_not_P [OF s1(1)] if_not_P [OF s1(2)] p_def [symmetric] il bind.bind_lunit
  show ?thesis
  proof (cases "len - offset < uint il + 2 \<or> uint il < 3")
    case True
    then show ?thesis by (auto simp: unf)
  next
    case c: False
    have "2 \<le> length (drop 2 p)" "4 < length p" using l by auto
    then obtain pr al where pr: "net_uint16_get (drop 2 p) = Some pr" and al: "rd p 4 = Some al"
      using net_uint16_get_defined by (metis rd_Some)
    have len5: "uint il - 3 \<le> int (length (drop 5 p))" using l c by auto
    obtain nm where nm: "read_adn env (drop 5 p) (uint il - 3) (uint al) = Some nm" "nm \<noteq> None \<longrightarrow> 1 \<le> uint al \<and> uint al \<le> uint il - 3"
      using read_adn_ok [OF len5] by blast
    have c': "\<not> len - offset < uint il + 2" "\<not> uint il < 3" using c by auto
    note unf = unf if_not_P [OF c'(1)] if_not_P [OF c'(2)] pr al nm(1)
    show ?thesis
    proof (cases "nm = None \<or> uint il - 3 - uint al < 1")
      case True
      then show ?thesis by (cases nm) (simp_all add: unf del: drop_drop)
    next
      case d: False
      then obtain adn where adn: "nm = Some adn" by (cases nm) auto
      define q where "q = drop (5 + unat al) p"
      define k where "k = uint il - 3 - uint al - 1"
      have u: "uint al = int (unat al)" by simp
      have d': "\<not> uint il - 3 - uint al < 1" using d by blast
      have lq: "k + 1 \<le> int (length q)" "0 \<le> k" "uint al + 4 + k = uint il" 
      proof -
        have "int (length (drop 5 p)) - uint al \<le> int (length q)"
          using u len5 unfolding q_def length_drop by linarith
        then show "k + 1 \<le> int (length q)" using len5 unfolding k_def by linarith
        show "0 \<le> k" using d' unfolding k_def by linarith
        show "uint al + 4 + k = uint il" unfolding k_def by linarith
      qed
      have q0: "0 < length q" using lq(1,2) by linarith
      obtain ad where ad: "rd q 0 = Some ad" using rd_Some [OF q0] by blast
      have l1: "k \<le> int (length (drop 1 q))" using lq by auto
      obtain aa where aa: "read_addrs 4 ignored_v4 (drop 1 q) k (unat ad) = Some aa" "aa \<noteq> None \<longrightarrow> int (unat ad) \<le> k"
        using read_addrs_ok [OF l1 zero_less_numeral] by blast
      note unf = unf adn option.case if_not_P [OF d'] q_def [symmetric] k_def [symmetric] ad aa(1)
      show ?thesis
      proof (cases aa)
        case None
        then show ?thesis by (simp only: unf bind.bind_lunit option.case) simp
      next
        case (Some addrs)
        define m where "m = unat ad div 4 * 4"
        have "int (unat ad) \<le> k" using aa(2) Some by blast
        from used_le [OF this, of 4] have us: "0 \<le> k - int m" unfolding m_def by linarith
        have "1 \<le> uint al" using nm(2) adn by blast
        moreover have "uint il < 65536" using uint_lt2p [of il] by simp
        ultimately have sm: "k - int m < 65536" using lq(3) by linarith
        have sv: "uint (word_of_int (k - int m) :: u16) = k - int m" "unat (word_of_int (k - int m) :: u16) = nat (k - int m)"
          by (rule trunc16_small [OF us sm])+
        have "1 + m + nat (k - int m) \<le> length q" using lq us by linarith
        then have r: "rdn q (1 + m) (nat (k - int m)) = Some (take (nat (k - int m)) (drop (1 + m) q))" by (simp only: rdn_Some)
        have "offset + 5 + uint al + 1 + int m + (k - int m) = offset + 2 + uint il" using lq by simp
        then show ?thesis using c'
          by (simp only: unf Some m_def [symmetric] bind.bind_lunit option.case sv r nat_int) simp
      qed
    qed
  qed
qed

lemma v6_ok:
  assumes "len \<le> int (length data)"
  shows "\<exists>out. DNSEncryptedServerCreateWithDHCPv6Data env data len = Some out"
proof (cases "len < DNR_INSTANCE_MIN_LEN_dhcpv6")
  case True
  then show ?thesis by (simp add: DNSEncryptedServerCreateWithDHCPv6Data_def)
next
  case s1: False
  have l: "23 \<le> len" using s1 by (simp add: DNR_INSTANCE_MIN_LEN_dhcpv6_def ADN_LEN_MIN_def)
  have l3: "2 \<le> length data" "2 \<le> length (drop 2 data)" using assms l by auto
  obtain pr al where pr: "net_uint16_get data = Some pr" and al: "net_uint16_get (drop 2 data) = Some al"
    using net_uint16_get_defined [OF l3(1)] net_uint16_get_defined [OF l3(2)] by blast
  have len5: "len - 4 \<le> int (length (drop 4 data))" using assms by simp
  obtain nm where nm: "read_adn env (drop 4 data) (len - 4) (uint al) = Some nm" "nm \<noteq> None \<longrightarrow> 1 \<le> uint al \<and> uint al \<le> len - 4"
    using read_adn_ok [OF len5] by blast
  note unf = DNSEncryptedServerCreateWithDHCPv6Data_def Let_def if_not_P [OF s1] pr al nm(1) bind.bind_lunit
  show ?thesis
  proof (cases "nm = None \<or> len - 4 - uint al < 2")
    case True
    then show ?thesis by (cases nm) (simp_all add: unf del: drop_drop)
  next
    case d: False
    then obtain adn where adn: "nm = Some adn" by (cases nm) auto
    define q where "q = drop (4 + unat al) data"
    define k where "k = len - 4 - uint al - 2"
    have d': "\<not> len - 4 - uint al < 2" using d by blast
    have u: "int (unat al) = uint al" by simp
    have lq: "k + 2 \<le> int (length q)" "0 \<le> k"
    proof -
      have "int (length (drop 4 data)) - uint al \<le> int (length q)"
        using u len5 unfolding q_def length_drop by linarith
      then show "k + 2 \<le> int (length q)" using len5 unfolding k_def by linarith
      show "0 \<le> k" using d' unfolding k_def by linarith
    qed
    have q0: "2 \<le> length q" using lq by linarith
    obtain ad where ad: "net_uint16_get q = Some ad" using net_uint16_get_defined [OF q0] by blast
    have l1: "k \<le> int (length (drop 2 q))" using lq by auto
    define n where "n = unat (ucast ad :: u8)"
    obtain aa where aa: "read_addrs 16 ignored_v6 (drop 2 q) k n = Some aa" "aa \<noteq> None \<longrightarrow> int n \<le> k"
      using read_addrs_ok [OF l1 zero_less_numeral] by blast
    note unf = unf adn option.case if_not_P [OF d'] q_def [symmetric] k_def [symmetric] ad n_def [symmetric] aa(1)
    show ?thesis
    proof (cases aa)
      case None
      then show ?thesis by (simp only: unf bind.bind_lunit option.case) simp
    next
      case (Some addrs)
      define m where "m = n div 16 * 16"
      have "int n \<le> k" using aa(2) Some by blast
      from used_le [OF this, of 16] have us: "0 \<le> k - int m" unfolding m_def by linarith
      have "2 + m + unat (word_of_int (k - int m) :: u16) \<le> length q" using lq us trunc16_le [OF us] by linarith
      then obtain ps where r: "rdn q (2 + m) (unat (word_of_int (k - int m) :: u16)) = Some ps" by (simp only: rdn_Some)
      show ?thesis
        by (simp only: unf Some m_def [symmetric] bind.bind_lunit option.case r nat_int) simp
    qed
  qed
qed

lemma ra_ok:
  assumes "len \<le> int (length data)"
  shows "\<exists>out. DNSEncryptedServerCreateWithRAData env data len = Some out"
proof (cases "len < DNR_INSTANCE_MIN_LEN_ra")
  case True
  then show ?thesis by (simp add: DNSEncryptedServerCreateWithRAData_def)
next
  case s1: False
  have l: "29 \<le> len" using s1 by (simp add: DNR_INSTANCE_MIN_LEN_ra_def ADN_LEN_MIN_def)
  have l3: "2 \<le> length data" "2 \<le> length (drop 6 data)" using assms l by auto
  obtain pr al where pr: "net_uint16_get data = Some pr" and al: "net_uint16_get (drop 6 data) = Some al"
    using net_uint16_get_defined [OF l3(1)] net_uint16_get_defined [OF l3(2)] by blast
  have len5: "len - 8 \<le> int (length (drop 8 data))" using assms by simp
  obtain nm where nm: "read_adn env (drop 8 data) (len - 8) (uint al) = Some nm" "nm \<noteq> None \<longrightarrow> 1 \<le> uint al \<and> uint al \<le> len - 8"
    using read_adn_ok [OF len5] by blast
  note unf = DNSEncryptedServerCreateWithRAData_def Let_def if_not_P [OF s1] pr al nm(1) bind.bind_lunit
  show ?thesis
  proof (cases "nm = None \<or> len - 8 - uint al < 2")
    case True
    then show ?thesis by (cases nm) (simp_all add: unf del: drop_drop)
  next
    case d: False
    then obtain adn where adn: "nm = Some adn" by (cases nm) auto
    define q where "q = drop (8 + unat al) data"
    define k where "k = len - 8 - uint al - 2"
    have d': "\<not> len - 8 - uint al < 2" using d by blast
    have u: "int (unat al) = uint al" by simp
    have lq: "k + 2 \<le> int (length q)" "0 \<le> k"
    proof -
      have "int (length (drop 8 data)) - uint al \<le> int (length q)"
        using u len5 unfolding q_def length_drop by linarith
      then show "k + 2 \<le> int (length q)" using len5 unfolding k_def by linarith
      show "0 \<le> k" using d' unfolding k_def by linarith
    qed
    have q0: "2 \<le> length q" using lq by linarith
    obtain ad where ad: "net_uint16_get q = Some ad" using net_uint16_get_defined [OF q0] by blast
    have l1: "k \<le> int (length (drop 2 q))" using lq by auto
    define n where "n = unat (ucast ad :: u8)"
    obtain aa where aa: "read_addrs 16 ignored_v6 (drop 2 q) k n = Some aa" "aa \<noteq> None \<longrightarrow> int n \<le> k"
      using read_addrs_ok [OF l1 zero_less_numeral] by blast
    note unf = unf adn option.case if_not_P [OF d'] q_def [symmetric] k_def [symmetric] ad n_def [symmetric] aa(1)
    show ?thesis
    proof (cases aa)
      case None
      then show ?thesis by (simp only: unf bind.bind_lunit option.case) simp
    next
      case (Some addrs)
      define m where "m = n div 16 * 16"
      have "int n \<le> k" using aa(2) Some by blast
      from used_le [OF this, of 16] have us: "0 \<le> k - int m" unfolding m_def by linarith
      note unf = unf Some option.case m_def [symmetric] nat_int bind.bind_lunit
      show ?thesis
      proof (cases "k - int m < 2")
        case True
        then show ?thesis by (simp only: unf if_P) simp
      next
        case k2: False
        then have l4: "2 \<le> length (drop (2 + m) q)" using lq unfolding length_drop by linarith
        then obtain sl where sl: "net_uint16_get (drop (2 + m) q) = Some sl" using net_uint16_get_defined by blast
        note unf = unf if_not_P [OF k2] sl
        show ?thesis
        proof (cases "uint sl > k - int m - 2")
          case True
          then show ?thesis by (simp only: unf bind.bind_lunit if_P) simp
        next
          case False
          have "int (unat sl) = uint sl" by simp
          then have "4 + m + unat sl \<le> length q" using False lq k2 by linarith
          then obtain ps where r: "rdn q (4 + m) (unat sl) = Some ps" by (simp only: rdn_Some)
          show ?thesis by (simp only: unf if_not_P [OF False] r bind.bind_lunit) simp
        qed
      qed
    qed
  qed
qed

text \<open>The loop over the instances of a DHCP option ends: each instance moves on.\<close>

lemma dhcpv4_loop_ok:
  assumes "len \<le> int (length data)" "len - offset < int n" "offset \<le> len"
  shows "\<exists>out. dhcpv4_loop n env data len offset success entries = Some out"
  using assms(2,3)
proof (induction n arbitrary: offset success entries)
  case 0
  then show ?case by simp
next
  case (Suc n)
  obtain out where out: "DNSEncryptedServerCreateWithDHCPv4Data env data len offset = Some out"
    "\<And>es offset'. out = Some (es, offset') \<Longrightarrow> offset < offset' \<and> offset' \<le> len"
    using v4_ok [OF assms(1)] by blast
  show ?case
  proof (cases out)
    case (Some eo)
    obtain es offset' where "eo = (es, offset')" by (cases eo)
    then show ?thesis using Suc.IH [of offset'] Suc.prems out(1) out(2) [of es offset'] Some by (auto simp: dhcpv4_loop.simps)
  qed (use out in \<open>simp add: dhcpv4_loop.simps exI [of Not False]\<close>)
qed

section \<open>Reading one name\<close>

lemma drop_ConsD:
  assumes "drop p B = x # xs"
  shows "p < length B" "B ! p = x" "drop (p + 1) B = xs"
proof -
  show p: "p < length B" using assms by (metis drop_all list.simps(3) not_le)
  from Cons_nth_drop_Suc [OF p] assms show "B ! p = x" "drop (p + 1) B = xs" by simp_all
qed

lemma end_not_pointer: "\<not> is_pointer 0"
  by (simp add: is_pointer_def)

lemma read_single:
  assumes "at B L S p p c f bs r" "drop p B = labels_bytes ls @ [0]" "\<forall>l \<in> set ls. short l"
  shows "\<exists>r'. read_loop junk B True False r = Some (True, r') \<and> dr_list_count r' = c + 1 \<and> texts r' (bs @ text_of f ls @ [0])"
  using assms
proof (induction ls arbitrary: p S f bs r)
  case Nil
  then have b: "p < length B" "B ! p = 0" using drop_ConsD [of p B 0 "[]"] by simp_all
  have rh: "dr_read_head r = p" "dr_list_count r = c" using Nil.prems(1) by (simp_all add: at_def)
  obtain r1 where r1: "advance 1 r = Some r1" "at B L S (p + 1) p c f bs r1"
    using at_advance [OF Nil.prems(1), of 1] b(1) by auto
  obtain r2 where r2: "add_text junk [0] (int 1) r1 = Some r2" "at B L S (p + 1) p c f (bs @ take 1 [0]) r2"
    by (rule at_text [OF r1(2), of 1 "[0]" junk]) simp_all
  let ?r = "r2\<lparr>dr_last_completed_name := dr_scan r2, dr_read_head := dr_scan r2, dr_list_count := dr_list_count r2 + 1, dr_first := True\<rparr>"
  have "read_one junk B True False r = Some (Stopped ?r)"
    using b r1(1) r2(1) rh by (simp add: end_not_pointer read_one_def read_end_def rd_def)
  then have "read_loop junk B True False r = Some (True, ?r)" using b rh by (subst read_loop.simps) simp
  moreover have "dr_list_count ?r = c + 1" "texts ?r (bs @ [0])" using r2(2) by (simp_all add: at_def texts_def)
  ultimately show ?case by auto
next
  case (Cons l ls)
  have d: "drop p B = label_bytes l @ labels_bytes ls @ [0]" using Cons.prems(2) by simp
  then have "label_in B p l" by (simp add: label_in_def)
  note l = label_in_item [OF this] and sh = Cons.prems(3) [simplified, THEN conjunct1]
  have w: "within B (length B) p" using l [OF sh] by (simp add: within_def item_size_def)
  have len: "unat (B ! p) \<le> DNS_LABEL_LENGTH_MAX" using l(3) [OF sh] sh by (simp add: short_def)
  obtain r' where r': "read_one junk B True False r = Some (Continue r')"
    "at B L (insert p S) (p + length l + 1) (p + length l + 1) c False (bs @ (if f then [] else [dot]) @ l) r'"
    using at_label [OF Cons.prems(1) w l(5) [OF sh] l(6) [OF sh], of junk True] l(3,4) [OF sh] len by auto
  have "drop (p + length l + 1) B = drop (length (label_bytes l)) (drop p B)" by (simp add: add.commute add.left_commute)
  also have "\<dots> = labels_bytes ls @ [0]" unfolding d by (simp del: length_label_bytes)
  finally have "drop (p + length l + 1) B = labels_bytes ls @ [0]" .
  then obtain r'' where "read_loop junk B True False r' = Some (True, r'')" "dr_list_count r'' = c + 1"
      "texts r'' ((bs @ (if f then [] else [dot]) @ l) @ text_of False ls @ [0])"
    using Cons.IH [OF r'(2)] Cons.prems(3) by auto
  moreover have "read_loop junk B True False r = read_loop junk B True False r'"
    using r'(1) l(1) [OF sh] Cons.prems(1) by (subst read_loop.simps) (simp add: at_def)
  ultimately show ?case by auto
qed

lemma name_string_wire:
  assumes "\<forall>l \<in> set ls. short l \<and> 0 \<notin> set l"
  shows "DNSNameStringCreate env (labels_bytes ls @ [0]) False =
    Some (if ne_utf8 env (text_of True ls) then Some (text_of True ls) else None)"
proof -
  let ?B = "labels_bytes ls @ [0]" and ?t = "text_of True ls"
  let ?r = "\<lparr>dr_offsets = [], dr_last_completed_name = 0, dr_left = length ?B, dr_scan = 0, dr_read_head = 0,
     dr_name_buf = DNSBufInit None, dr_list_count = 0, dr_first = True\<rparr>"
  have "at ?B 0 {} 0 0 0 True [] ?r" using buf_init_holds(1) [of 128] by (simp add: at_def texts_def DNSBufInit_def)
  from read_single [OF this, of ls "ne_junk env"] obtain r where r: "read_loop (ne_junk env) ?B True False ?r = Some (True, r)"
      "dr_list_count r = 1" "texts r (?t @ [0])" using assms by auto
  have nb: "bb_holds (dr_name_buf r) (?t @ [0])" using r(3) by (simp add: texts_def)
  have rd: "rdn (bb_buf (dr_name_buf r)) 0 (nat (bb_used (dr_name_buf r))) = Some (?t @ [0])"
    using nb bb_holds_le [OF nb] by (simp add: bb_holds_def rdn_def del: length_append) 
  obtain b B where B: "?B = b # B" by (cases ?B) auto
  have list: "DNSNameListCreateWithDNSBuf (ne_junk env) (Some ?B) (DNSBufInit None) True False = Some (1, Some (dr_name_buf r))"
    using r(1,2) unfolding B by (simp add: DNSNameListCreateWithDNSBuf_def)
  have "0 \<notin> set ?t" using text_clean assms by blast
  then have "c_strings 1 (?t @ [0]) = Some [?t]" using c_strings_names [of "[ls]" "[]"] by (simp add: names_text_def)
  then show ?thesis using list rd by (simp add: DNSNameStringCreate_def)
qed

section \<open>Servers on the wire (RFC 9463)\<close>

record dnr =
  d_priority :: u16
  d_name :: "u8 list list"
  d_addrs :: "u8 list list"
  d_params :: "u8 list"

definition wire_name :: "dnr \<Rightarrow> u8 list" where
  "wire_name d = labels_bytes (d_name d) @ [0]"

definition body_v4 :: "dnr \<Rightarrow> u8 list" where
  "body_v4 d = net_uint16_bytes (d_priority d) @ word_of_nat (length (wire_name d)) # wire_name d @
     word_of_nat (4 * length (d_addrs d)) # concat (d_addrs d) @ d_params d"

definition wire_v4 :: "dnr \<Rightarrow> u8 list" where
  "wire_v4 d = net_uint16_bytes (word_of_nat (length (body_v4 d))) @ body_v4 d"

definition named_dnr :: "names_env \<Rightarrow> dnr \<Rightarrow> bool" where
  "named_dnr env d \<longleftrightarrow> (\<forall>l \<in> set (d_name d). short l \<and> 0 \<notin> set l) \<and> ne_utf8 env (text_of True (d_name d)) \<and>
     length (wire_name d) \<le> 255"

definition legal_v4 :: "names_env \<Rightarrow> dnr \<Rightarrow> bool" where
  "legal_v4 env d \<longleftrightarrow> named_dnr env d \<and> (\<forall>a \<in> set (d_addrs d). length a = 4) \<and> (\<exists>a \<in> set (d_addrs d). \<not> ignored_v4 a) \<and>
     4 * length (d_addrs d) \<le> 255 \<and> length (body_v4 d) < 65536"

definition parsed_v4 :: "dnr \<Rightarrow> encrypted_server" where
  "parsed_v4 d = \<lparr>es_type = DNRInstanceTypeDHCPv4, es_service_priority = d_priority d, es_adn = text_of True (d_name d),
     es_addr_list = filter (\<lambda>a. \<not> ignored_v4 a) (d_addrs d), es_svc_params = d_params d\<rparr>"

lemma pieces_concat: "\<forall>a \<in> set as. length a = sz \<Longrightarrow> pieces sz (length as) (concat as @ rest) = as"
  by (induction as) auto

lemma length_concat_addrs: "\<forall>a \<in> set as. length a = sz \<Longrightarrow> length (concat as) = sz * length as"
  by (induction as) auto

lemma uint_of_nat_u8: "n \<le> 255 \<Longrightarrow> uint (word_of_nat n :: u8) = int n" "n \<le> 255 \<Longrightarrow> unat (word_of_nat n :: u8) = n"
  by (simp_all add: uint_nat unat_of_nat)

lemma uint_of_nat_u16: "n < 65536 \<Longrightarrow> uint (word_of_nat n :: u16) = int n" "n < 65536 \<Longrightarrow> unat (word_of_nat n :: u16) = n"
  by (simp_all add: uint_nat unat_of_nat)

lemma read_adn_wire:
  assumes "named_dnr env d" "int (length (wire_name d)) \<le> left"
  shows "read_adn env (wire_name d @ rest) left (int (length (wire_name d))) = Some (Some (text_of True (d_name d)))"
proof -
  have "rdn (wire_name d @ rest) 0 (length (wire_name d)) = Some (wire_name d)" by (simp add: rdn_def)
  moreover have "DNSNameStringCreate env (wire_name d) False = Some (Some (text_of True (d_name d)))"
    using assms(1) name_string_wire [of "d_name d" env] by (simp add: named_dnr_def wire_name_def)
  moreover have "wire_name d \<noteq> []" by (simp add: wire_name_def)
  ultimately show ?thesis using assms by (simp add: read_adn_def ADN_LEN_MIN_def ADN_LEN_MAX_def named_dnr_def)
qed

lemma read_addrs_wire:
  assumes "\<forall>a \<in> set as. length a = sz" "0 < sz" "int (sz * length as) \<le> left"
  shows "read_addrs sz ignored (concat as @ rest) left (sz * length as) =
    Some (if \<exists>a \<in> set as. \<not> ignored a then Some (filter (\<lambda>a. \<not> ignored a) as) else None)"
proof -
  have "length as * sz \<le> length (concat as @ rest)" using length_concat_addrs [OF assms(1)] by simp
  from addr_loop_eq [OF this, of ignored] have
    "addr_loop sz ignored (length as) (concat as @ rest) = Some (filter (\<lambda>a. \<not> ignored a) as)"
    by (simp only: pieces_concat [OF assms(1)])
  then show ?thesis using assms by (auto simp: read_addrs_def filter_empty_conv mult.commute)
qed

lemma rdn_at: "rdn (xs @ ys @ zs) (length xs) (length ys) = Some ys"
  by (simp add: rdn_def)

lemma v4_wire:
  assumes "legal_v4 env d"
  shows "DNSEncryptedServerCreateWithDHCPv4Data env (pre @ wire_v4 d @ rest) (int (length (pre @ wire_v4 d @ rest))) (int (length pre)) =
    Some (Some (parsed_v4 d, int (length (pre @ wire_v4 d))))"
proof -
  let ?n = "wire_name d" and ?as = "d_addrs d" and ?ps = "d_params d"
  have nd: "named_dnr env d" and a4: "\<forall>a \<in> set ?as. length a = 4" and ex: "\<exists>a \<in> set ?as. \<not> ignored_v4 a"
    and al: "4 * length ?as \<le> 255" and bl: "length (body_v4 d) < 65536" using assms by (auto simp: legal_v4_def)
  have nl: "length ?n \<le> 255" "1 \<le> length ?n" using nd by (simp_all add: named_dnr_def wire_name_def)
  have "?as \<noteq> []" using ex by auto
  then have as1: "4 \<le> 4 * length ?as" by (cases ?as) auto
  have lb: "length (body_v4 d) = 4 + length ?n + 4 * length ?as + length ?ps"
    using length_concat_addrs [OF a4] by (simp add: body_v4_def)
  have lw: "length (wire_v4 d) = 2 + length (body_v4 d)" by (simp add: wire_v4_def)
  define data where "data = pre @ wire_v4 d @ rest"
  have dr: "drop (length pre) data = wire_v4 d @ rest" by (simp add: data_def)
  have len: "int (length data) - int (length pre) = 2 + int (length (body_v4 d)) + int (length rest)" by (simp add: data_def lw)
  define q where "q = word_of_nat (4 * length ?as) # concat ?as @ ?ps @ rest"
  have g: "net_uint16_get (wire_v4 d @ rest) = Some (word_of_nat (length (body_v4 d)))" by (simp add: wire_v4_def)
  have d2: "drop 2 (wire_v4 d @ rest) = net_uint16_bytes (d_priority d) @ word_of_nat (length ?n) # ?n @ q"
    by (simp add: wire_v4_def body_v4_def q_def)
  have pr: "net_uint16_get (drop 2 (wire_v4 d @ rest)) = Some (d_priority d)" by (simp only: d2 net_uint16_get_bytes)
  have d5: "drop 5 (wire_v4 d @ rest) = ?n @ q"
  proof -
    have "drop 5 x = drop 3 (drop 2 x)" for x :: "u8 list" by simp
    then have "drop 5 (wire_v4 d @ rest) = drop 3 (drop 2 (wire_v4 d @ rest))" .
    also have "\<dots> = ?n @ q" unfolding d2 by simp
    finally show ?thesis .
  qed
  have dq: "drop (5 + length ?n) (wire_v4 d @ rest) = q"
  proof -
    have "drop (5 + n) x = drop n (drop 5 x)" for n and x :: "u8 list" by (simp add: add.commute)
    then have "drop (5 + length ?n) (wire_v4 d @ rest) = drop (length ?n) (drop 5 (wire_v4 d @ rest))" .
    also have "\<dots> = q" unfolding d5 by simp
    finally show ?thesis .
  qed
  have r4: "rd (wire_v4 d @ rest) 4 = Some (word_of_nat (length ?n))"
    by (simp add: wire_v4_def body_v4_def rd_def net_uint16_bytes_def)
  define left where "left = int (length (body_v4 d)) - 3"
  define left2 where "left2 = left - int (length ?n) - 1"
  have l2: "left2 = int (4 * length ?as) + int (length ?ps)" by (simp add: left2_def left_def lb)
  have adn: "read_adn env (?n @ q) left (int (length ?n)) = Some (Some (text_of True (d_name d)))"
    by (rule read_adn_wire [OF nd]) (simp add: left_def lb)
  have addrs: "read_addrs 4 ignored_v4 (drop 1 q) left2 (4 * length ?as) = Some (Some (filter (\<lambda>a. \<not> ignored_v4 a) ?as))"
    using read_addrs_wire [OF a4, of left2 ignored_v4 "?ps @ rest"] ex l2 by (simp add: q_def)
  have m: "4 * length ?as div 4 * 4 = 4 * length ?as" by simp
  have ps: "left2 - int (4 * length ?as) = int (length ?ps)" using l2 by simp
  have pl: "length ?ps < 65536" using bl lb by simp
  have params: "rdn q (1 + 4 * length ?as) (length ?ps) = Some ?ps"
    using rdn_at [of "word_of_nat (4 * length ?as) # concat ?as" ?ps rest] length_concat_addrs [OF a4] by (simp add: q_def)
  have q0: "rd q 0 = Some (word_of_nat (4 * length ?as))" by (simp add: q_def rd_def)
  note u = uint_of_nat_u16 [OF bl] uint_of_nat_u8 [OF nl(1)] uint_of_nat_u8 [OF al] uint_of_nat_u16 [OF pl]
  have c: "\<not> (int (length pre) < 0 \<or> int (length pre) \<ge> int (length data))"
    "\<not> int (length data) - int (length pre) < DNR_INSTANCE_MIN_LEN_dhcpv4"
    "\<not> int (length data) - int (length pre) < int (length (body_v4 d)) + 2" "\<not> int (length (body_v4 d)) < 3"
    "\<not> left - int (length ?n) < 1"
    using len lb as1 nl(2) l2 by (simp_all add: DNR_INSTANCE_MIN_LEN_dhcpv4_def ADN_LEN_MIN_def left2_def)
  have end_: "int (length pre) + 5 + int (length ?n) + 1 + int (4 * length ?as) + int (length ?ps) = int (length (pre @ wire_v4 d))"
    by (simp add: lw lb)
  have w: "(word_of_int (int (length ?ps)) :: u16) = word_of_nat (length ?ps)" by simp
  have "DNSEncryptedServerCreateWithDHCPv4Data env data (int (length data)) (int (length pre)) =
      Some (Some (parsed_v4 d, int (length (pre @ wire_v4 d))))"
    unfolding DNSEncryptedServerCreateWithDHCPv4Data_def Let_def if_not_P [OF c(1)] if_not_P [OF c(2)] dr g bind.bind_lunit u
      if_not_P [OF c(3)] if_not_P [OF c(4)] r4 d5 left_def [symmetric] adn option.case if_not_P [OF c(5)] dq q0
      left2_def [symmetric] addrs m ps w nat_int params end_ parsed_v4_def pr
    by simp
  then show ?thesis by (simp only: data_def)
qed

text \<open>The option of a list of servers, and the entries that come of it.\<close>

definition entries_of :: "names_env \<Rightarrow> server_entry list \<Rightarrow> dnr list \<Rightarrow> server_entry list" where
  "entries_of env = foldl (\<lambda>es d. DNSEncryptedServerListAppendUniqueEntry es (DNSEncryptedServerEntryCreate env (parsed_v4 d)))"

lemma dhcpv4_loop_wire:
  assumes "\<forall>d \<in> set ds. legal_v4 env d" "length ds < n"
  shows "dhcpv4_loop n env (pre @ concat (map wire_v4 ds)) (int (length (pre @ concat (map wire_v4 ds)))) (int (length pre)) success es =
    Some (ds \<noteq> [] \<or> success, entries_of env es ds)"
  using assms
proof (induction ds arbitrary: n pre success es)
  case Nil
  then show ?case by (cases n) (auto simp: entries_of_def dhcpv4_loop.simps)
next
  case (Cons d ds)
  then obtain k where n: "n = Suc k" by (cases n) auto
  let ?rest = "concat (map wire_v4 ds)" and ?data = "pre @ concat (map wire_v4 (d # ds))"
  have v: "DNSEncryptedServerCreateWithDHCPv4Data env ?data (int (length ?data)) (int (length pre)) =
      Some (Some (parsed_v4 d, int (length (pre @ wire_v4 d))))"
    using v4_wire [of env d pre ?rest] Cons.prems(1) by simp
  have "length (wire_v4 d) > 0" by (simp add: wire_v4_def)
  then have pos: "int (length ?data) - int (length pre) > 0" by (simp del: length_greater_0_conv)
  have "dhcpv4_loop k env ?data (int (length ?data)) (int (length (pre @ wire_v4 d))) True
      (DNSEncryptedServerListAppendUniqueEntry es (DNSEncryptedServerEntryCreate env (parsed_v4 d))) =
      Some (True, entries_of env es (d # ds))"
    using Cons.IH [of k "pre @ wire_v4 d"] Cons.prems n by (simp add: entries_of_def)
  then show ?case using v pos by (simp add: n dhcpv4_loop.simps)
qed

text \<open>Any bytes of a DHCP option can be read as encrypted servers: reading ends and stays inside them.\<close>

theorem encrypted_servers_read_safely:
  "\<exists>out. DNSEncryptedServerListCreateWithDHCPv4Data env data (int (length data)) = Some out"
  using dhcpv4_loop_ok [of "int (length data)" data 0 "Suc (length data)" env False "[]"]
  by (auto split: prod.split simp: DNSEncryptedServerListCreateWithDHCPv4Data_def)

text \<open>C40. A DHCP option with legal servers gives exactly the entries of these servers, without the addresses
  that no host can have and without servers that are there twice, sorted by priority.\<close>

theorem encrypted_servers_roundtrip:
  assumes "\<forall>d \<in> set ds. legal_v4 env d" "ds \<noteq> []"
  shows "DNSEncryptedServerListCreateWithDHCPv4Data env (concat (map wire_v4 ds)) (int (length (concat (map wire_v4 ds)))) =
    Some (Some (ne_sort env (entries_of env [] ds)))"
proof -
  have "length ds \<le> length (concat (map wire_v4 ds))"
    by (induction ds) (auto simp: wire_v4_def simp del: length_0_conv)
  then have "length ds < Suc (length (concat (map wire_v4 ds)))" by simp
  from dhcpv4_loop_wire [OF assms(1) this, of "[]" False "[]"] assms(2) show ?thesis
    by (simp add: DNSEncryptedServerListCreateWithDHCPv4Data_def)
qed

definition sample_env :: names_env where
  "sample_env = \<lparr>ne_junk = (\<lambda>_. 7), ne_utf8 = list_all (\<lambda>b. b < 128),
     ne_ntop = map (\<lambda>b. char_of (unat b)), ne_sort = sort_key se_priority\<rparr>"

definition sample_dnr :: "u16 \<Rightarrow> dnr" where
  "sample_dnr p = \<lparr>d_priority = p, d_name = [[97], [99, 111]], d_addrs = [[10, 0, 0, 1], [0, 0, 0, 0]], d_params = [9, 9]\<rparr>"

lemma sample_legal: "legal_v4 sample_env (sample_dnr p)"
  by (simp add: legal_v4_def named_dnr_def sample_dnr_def sample_env_def wire_name_def labels_bytes_def label_bytes_def
      body_v4_def short_def ignored_v4_def)

theorem encrypted_servers_roundtrip_witness:
  "let data = concat (map wire_v4 [sample_dnr 2, sample_dnr 1, sample_dnr 2]) in
   DNSEncryptedServerListCreateWithDHCPv4Data sample_env data (int (length data)) =
     Some (Some (map (\<lambda>p. DNSEncryptedServerEntryCreate sample_env (parsed_v4 (sample_dnr p))) [1, 2]))"
proof -
  have "entries_of sample_env [] [sample_dnr 2, sample_dnr 1, sample_dnr 2] =
      map (\<lambda>p. DNSEncryptedServerEntryCreate sample_env (parsed_v4 (sample_dnr p))) [2, 1]"
    by (simp add: entries_of_def DNSEncryptedServerListAppendUniqueEntry_def my_CFMutableArrayMergeArray_def
        DNSEncryptedServerListCompareEntries_def DNSEncryptedServerEntryCreate_def parsed_v4_def sample_dnr_def)
  then show ?thesis
    using encrypted_servers_roundtrip [of "[sample_dnr 2, sample_dnr 1, sample_dnr 2]" sample_env] sample_legal
    by (simp add: Let_def sample_env_def sample_dnr_def DNSEncryptedServerEntryCreate_def parsed_v4_def)
qed

section \<open>DHCPv6\<close>

definition wire_v6 :: "dnr \<Rightarrow> u8 list" where
  "wire_v6 d = net_uint16_bytes (d_priority d) @ net_uint16_bytes (word_of_nat (length (wire_name d))) @ wire_name d @
     net_uint16_bytes (word_of_nat (16 * length (d_addrs d))) @ concat (d_addrs d) @ d_params d"

definition legal_v6 :: "names_env \<Rightarrow> dnr \<Rightarrow> bool" where
  "legal_v6 env d \<longleftrightarrow> named_dnr env d \<and> (\<forall>a \<in> set (d_addrs d). length a = 16) \<and> (\<exists>a \<in> set (d_addrs d). \<not> ignored_v6 a) \<and>
     length (wire_v6 d) < 65536"

text \<open>The server that is parsed when the first \<open>k\<close> addresses are taken for all of them.\<close>

definition parsed_v6 :: "nat \<Rightarrow> dnr \<Rightarrow> encrypted_server option" where
  "parsed_v6 k d =
     (let as = filter (\<lambda>a. \<not> ignored_v6 a) (take k (d_addrs d)) in
      if as = [] then None
      else Some \<lparr>es_type = DNRInstanceTypeDHCPv6, es_service_priority = d_priority d, es_adn = text_of True (d_name d),
                 es_addr_list = as, es_svc_params = concat (drop k (d_addrs d)) @ d_params d\<rparr>)"

lemma low_byte: "n < 65536 \<Longrightarrow> unat (ucast (word_of_nat n :: u16) :: u8) = n mod 256"
  by (simp add: unsigned_ucast_eq take_bit_eq_mod unat_of_nat)

lemma v6_wire:
  assumes "legal_v6 env d"
  shows "DNSEncryptedServerCreateWithDHCPv6Data env (wire_v6 d) (int (length (wire_v6 d))) =
    Some (parsed_v6 (length (d_addrs d) mod 16) d)"
proof -
  let ?n = "wire_name d" and ?as = "d_addrs d" and ?ps = "d_params d"
  define k where "k = length ?as mod 16"
  have nd: "named_dnr env d" and a16: "\<forall>a \<in> set ?as. length a = 16" and ex: "\<exists>a \<in> set ?as. \<not> ignored_v6 a"
    and wl: "length (wire_v6 d) < 65536" using assms by (auto simp: legal_v6_def)
  have nl: "length ?n < 65536" "1 \<le> length ?n" using nd by (simp_all add: named_dnr_def wire_name_def)
  have "?as \<noteq> []" using ex by auto
  then have as1: "16 \<le> 16 * length ?as" by (cases ?as) auto
  have lw: "length (wire_v6 d) = 6 + length ?n + 16 * length ?as + length ?ps"
    using length_concat_addrs [OF a16] by (simp add: wire_v6_def)
  have al: "16 * length ?as < 65536" using lw wl by simp
  have kl: "k \<le> length ?as" by (simp add: k_def)
  have am: "16 * length ?as mod 256 = 16 * k" using mod_mult_mult1 [of 16 "length ?as" 16] by (simp add: k_def)
  define ps where "ps = concat (drop k ?as) @ ?ps"
  have cs: "concat ?as @ ?ps = concat (take k ?as) @ ps"
    by (metis append.assoc append_take_drop_id concat_append ps_def)
  have tk: "\<forall>a \<in> set (take k ?as). length a = 16" "length (take k ?as) = k" using a16 kl by (auto dest: in_set_takeD)
  have lps: "length (concat ?as @ ?ps) = 16 * k + length ps"
    unfolding cs using length_concat_addrs [OF tk(1)] tk(2) by simp
  then have lps': "16 * length ?as + length ?ps = 16 * k + length ps" using length_concat_addrs [OF a16] by simp
  define q where "q = net_uint16_bytes (word_of_nat (16 * length ?as)) @ concat (take k ?as) @ ps"
  have w: "wire_v6 d = net_uint16_bytes (d_priority d) @ net_uint16_bytes (word_of_nat (length ?n)) @ ?n @ q"
    by (simp add: wire_v6_def q_def cs [symmetric])
  have g: "net_uint16_get (wire_v6 d) = Some (d_priority d)"
    "net_uint16_get (drop 2 (wire_v6 d)) = Some (word_of_nat (length ?n))"
    "drop 4 (wire_v6 d) = ?n @ q" "drop (4 + length ?n) (wire_v6 d) = q" by (simp_all add: w)
  define left where "left = int (length (wire_v6 d)) - 4"
  define left2 where "left2 = left - int (length ?n) - 2"
  have l2: "left2 = int (16 * k) + int (length ps)" using lps' by (simp add: left2_def left_def lw)
  have adn: "read_adn env (?n @ q) left (int (length ?n)) = Some (Some (text_of True (d_name d)))"
    by (rule read_adn_wire [OF nd]) (simp add: left_def lw)
  have q2: "net_uint16_get q = Some (word_of_nat (16 * length ?as))" "drop 2 q = concat (take k ?as) @ ps" by (simp_all add: q_def)
  have addrs: "read_addrs 16 ignored_v6 (concat (take k ?as) @ ps) left2 (16 * k) =
      Some (if \<exists>a \<in> set (take k ?as). \<not> ignored_v6 a then Some (filter (\<lambda>a. \<not> ignored_v6 a) (take k ?as)) else None)"
    using read_addrs_wire [OF tk(1), of left2 ignored_v6 ps] l2 tk(2) by simp
  have m: "16 * k div 16 * 16 = 16 * k" by simp
  have psl: "left2 - int (16 * k) = int (length ps)" using l2 by simp
  have pl: "length ps < 65536" using wl lw lps' by simp
  have "rdn ((net_uint16_bytes (word_of_nat (16 * length ?as)) @ concat (take k ?as)) @ ps @ [])
      (length (net_uint16_bytes (word_of_nat (16 * length ?as)) @ concat (take k ?as))) (length ps) = Some ps" by (rule rdn_at)
  then have params: "rdn q (2 + 16 * k) (length ps) = Some ps"
    using length_concat_addrs [OF tk(1)] tk(2) by (simp add: q_def)
  note u = uint_of_nat_u16 [OF nl(1)] uint_of_nat_u16 [OF pl] low_byte [OF al] am
  have c: "\<not> int (length (wire_v6 d)) < DNR_INSTANCE_MIN_LEN_dhcpv6" "\<not> left - int (length ?n) < 2"
    using lw as1 nl(2) l2 by (simp_all add: DNR_INSTANCE_MIN_LEN_dhcpv6_def ADN_LEN_MIN_def left2_def)
  have wi: "(word_of_int (int (length ps)) :: u16) = word_of_nat (length ps)" by simp
  show ?thesis
    unfolding DNSEncryptedServerCreateWithDHCPv6Data_def Let_def if_not_P [OF c(1)] g bind.bind_lunit u left_def [symmetric]
      adn option.case if_not_P [OF c(2)] q2 left2_def [symmetric] addrs m psl wi nat_int params k_def [symmetric]
    by (auto simp: parsed_v6_def ps_def filter_empty_conv)
qed

text \<open>A DHCPv6 option of a legal server with at most 15 addresses is parsed to that server.\<close>

theorem dhcpv6_server_roundtrip:
  assumes "legal_v6 env d" "length (d_addrs d) < 16"
  shows "\<exists>es. DNSEncryptedServerCreateWithDHCPv6Data env (wire_v6 d) (int (length (wire_v6 d))) = Some (Some es) \<and>
    es_service_priority es = d_priority d \<and> es_adn es = text_of True (d_name d) \<and>
    es_addr_list es = filter (\<lambda>a. \<not> ignored_v6 a) (d_addrs d) \<and> es_svc_params es = d_params d"
  using v6_wire [OF assms(1)] assms by (auto simp: parsed_v6_def legal_v6_def filter_empty_conv)

text \<open>The length of the addresses is kept in a byte, so a server with 16 addresses has none.\<close>

theorem sixteen_addresses_lost:
  assumes "legal_v6 env d" "16 dvd length (d_addrs d)"
  shows "DNSEncryptedServerCreateWithDHCPv6Data env (wire_v6 d) (int (length (wire_v6 d))) = Some None"
  using v6_wire [OF assms(1)] assms(2) by (simp add: parsed_v6_def)

definition sample_v6 :: "nat \<Rightarrow> dnr" where
  "sample_v6 n = \<lparr>d_priority = 5, d_name = [[97], [99, 111]], d_addrs = replicate n (0x20 # replicate 14 0 @ [53]), d_params = [7]\<rparr>"

lemma sample_kept: "\<not> ignored_v6 (0x20 # replicate 14 0 @ [53])"
proof -
  have "replicate 16 (0 :: u8) = 0 # replicate 15 0" "replicate 15 (0 :: u8) = 0 # replicate 14 0"
    using replicate_Suc [of 15 "0 :: u8"] replicate_Suc [of 14 "0 :: u8"] by simp_all
  then show ?thesis by (simp add: ignored_v6_def)
qed

lemma sample_v6_legal: "0 < n \<Longrightarrow> n < 100 \<Longrightarrow> legal_v6 sample_env (sample_v6 n)"
  by (simp add: legal_v6_def named_dnr_def sample_v6_def sample_env_def wire_name_def labels_bytes_def label_bytes_def
      wire_v6_def short_def sample_kept length_concat_addrs [where sz = 16])

theorem dhcpv6_server_roundtrip_witness:
  "\<exists>es. DNSEncryptedServerCreateWithDHCPv6Data sample_env (wire_v6 (sample_v6 2)) (int (length (wire_v6 (sample_v6 2)))) = Some (Some es) \<and>
    es_service_priority es = 5 \<and> es_adn es = [97, 46, 99, 111] \<and>
    es_addr_list es = replicate 2 (0x20 # replicate 14 0 @ [53]) \<and> es_svc_params es = [7]"
proof -
  have "length (d_addrs (sample_v6 2)) < 16" by (simp add: sample_v6_def)
  from dhcpv6_server_roundtrip [OF sample_v6_legal [of 2] this] show ?thesis
    by (simp add: sample_v6_def sample_kept)
qed

theorem sixteen_addresses_lost_witness:
  "length (d_addrs (sample_v6 16)) = 16 \<and>
   DNSEncryptedServerCreateWithDHCPv6Data sample_env (wire_v6 (sample_v6 16)) (int (length (wire_v6 (sample_v6 16)))) = Some None"
proof -
  have "length (d_addrs (sample_v6 16)) = 16" by (simp add: sample_v6_def)
  then show ?thesis using sixteen_addresses_lost [OF sample_v6_legal [of 16]] by simp
qed

end
