(* ===== verification/RouterAdvFacts.thy ===== *)
theory RouterAdvFacts
  imports RouterAdv DNSServerFacts
begin

text \<open>
  What parsing a router advertisement gives, that everything that is asked of it stays inside the
  packet, and what becomes of encrypted DNS servers and of lifetimes.
\<close>

section \<open>Options\<close>

definition nd_option :: "u8 list \<Rightarrow> bool" where
  "nd_option p \<longleftrightarrow> 2 \<le> length p \<and> 0 < p ! 1 \<and> length p = 8 * unat (p ! 1)"

text \<open>A pointer to an option that is in the packet as a whole, and the bytes of that option.\<close>

definition opt_ok :: "nd_opt \<Rightarrow> bool" where
  "opt_ok p \<longleftrightarrow> 2 \<le> length p \<and> 0 < p ! 1 \<and> 8 * unat (p ! 1) \<le> length p"

definition whole :: "nd_opt \<Rightarrow> u8 list" where
  "whole p = take (8 * unat (p ! 1)) p"

definition opts_ok :: "nd_opts \<Rightarrow> bool" where
  "opts_ok options \<longleftrightarrow> ptrlist_ok options \<and> (\<forall>p \<in> set (elems options). opt_ok p)"

fun pointers :: "u8 list \<Rightarrow> u8 list list \<Rightarrow> nd_opt list" where
  "pointers scan [] = []"
| "pointers scan (b # bs) = scan # pointers (drop (length b) scan) bs"

lemma nd_option_ok: "nd_option b \<Longrightarrow> opt_ok (b @ rest)"
  by (auto simp: nd_option_def opt_ok_def nth_append)

lemma whole_append: "nd_option b \<Longrightarrow> whole (b @ rest) = b"
  by (simp add: nd_option_def whole_def nth_append)

lemma pointers_ok: "\<forall>b \<in> set bs. nd_option b \<Longrightarrow>
    (\<forall>p \<in> set (pointers (concat bs @ rest) bs). opt_ok p) \<and> map whole (pointers (concat bs @ rest) bs) = bs"
  by (induction bs) (simp_all add: nd_option_ok whole_append)

lemma unat_pos_8: "0 < (b :: u8) \<Longrightarrow> 0 < unat b"
  by (simp add: word_less_nat_alt)

lemma opt_len: "uint (b :: u8) * ND_OPT_ALIGN = int (8 * unat b)"
  by (simp add: ND_OPT_ALIGN_def)

lemma parse_nd_unfold:
  assumes "2 \<le> length scan" "2 \<le> left"
  shows "parse_nd_loop options scan left =
    (let n = 8 * unat (scan ! 1) in
     if n = 0 \<or> int n > left then Some (False, ptrlist_free options)
     else do { (_, options') \<leftarrow> ptrlist_add True options scan; parse_nd_loop options' (drop n scan) (left - int n) })"
proof -
  have "rd scan 1 = Some (scan ! 1)" "left < 0 \<or> left \<ge> sizeof_nd_opt_hdr" using assms by (simp_all add: rd_def sizeof_nd_opt_hdr_def)
  then show ?thesis
    by (subst parse_nd_loop.simps) (simp only: if_True Let_def bind.bind_lunit opt_len nat_int of_nat_eq_0_iff)
qed

lemma parse_nd_step:
  assumes "nd_option b" "ptrlist_ok options" "int (length b) \<le> left"
  obtains options' where "parse_nd_loop options (b @ rest) left = parse_nd_loop options' rest (left - int (length b))"
    "ptrlist_ok options'" "elems options' = elems options @ [b @ rest]"
proof -
  have b: "2 \<le> length b" "0 < unat (b ! 1)" "length b = 8 * unat (b ! 1)" using assms(1) unat_pos_8 by (auto simp: nd_option_def)
  obtain l' where l': "ptrlist_add True options (b @ rest) = Some (True, l')" "ptrlist_ok l'" "elems l' = elems options @ [b @ rest]"
    by (rule ptrlist_add_ok [OF assms(2)])
  have n: "(b @ rest) ! 1 = b ! 1" "2 \<le> length (b @ rest)" "2 \<le> left" using b(1) assms(3) by (simp_all add: nth_append)
  have "parse_nd_loop options (b @ rest) left = parse_nd_loop l' (drop (length b) (b @ rest)) (left - int (length b))"
    using b(1,2) assms(3) l'(1) unfolding parse_nd_unfold [OF n(2,3)] n(1) b(3) [symmetric] Let_def by auto
  then show ?thesis using l'(2,3) that by simp
qed

lemma parse_nd_complete:
  assumes "\<forall>b \<in> set bs. nd_option b" "length tail \<le> 1" "ptrlist_ok options"
  shows "\<exists>options'. parse_nd_loop options (concat bs @ tail) (int (length (concat bs @ tail))) = Some (True, options') \<and>
    ptrlist_ok options' \<and> elems options' = elems options @ pointers (concat bs @ tail) bs"
  using assms
proof (induction bs arbitrary: options)
  case Nil
  then show ?case by (subst parse_nd_loop.simps) (auto simp: sizeof_nd_opt_hdr_def)
next
  case (Cons b bs)
  have b: "nd_option b" "int (length b) \<le> int (length (concat (b # bs) @ tail))" using Cons.prems(1) by simp_all
  obtain options1 where o1: "parse_nd_loop options (b @ concat bs @ tail) (int (length (concat (b # bs) @ tail))) =
      parse_nd_loop options1 (concat bs @ tail) (int (length (concat (b # bs) @ tail)) - int (length b))"
    "ptrlist_ok options1" "elems options1 = elems options @ [b @ concat bs @ tail]"
    by (rule parse_nd_step [OF b(1) Cons.prems(3) b(2)])
  then show ?case using Cons.IH [OF _ Cons.prems(2) o1(2)] Cons.prems(1) by auto
qed

lemma parse_nd_sound:
  assumes "ptrlist_ok options"
  shows "\<exists>success options'. parse_nd_loop options scan (int (length scan)) = Some (success, options') \<and>
    (success \<longrightarrow> (\<exists>bs tail. scan = concat bs @ tail \<and> length tail \<le> 1 \<and> (\<forall>b \<in> set bs. nd_option b)))"
  using assms
proof (induction "length scan" arbitrary: scan options rule: less_induct)
  case less
  show ?case
  proof (cases "length scan < 2")
    case True
    then have "parse_nd_loop options scan (int (length scan)) = Some (True, options)"
      by (subst parse_nd_loop.simps) (simp add: sizeof_nd_opt_hdr_def)
    moreover have "scan = concat [] @ scan \<and> length scan \<le> 1 \<and> (\<forall>b \<in> set []. nd_option b)" using True by simp
    ultimately show ?thesis by blast
  next
    case False
    then have l: "2 \<le> length scan" "2 \<le> int (length scan)" by simp_all
    note u = parse_nd_unfold [OF l]
    show ?thesis
    proof (cases "scan ! 1 = 0 \<or> 8 * unat (scan ! 1) > length scan")
      case True
      then have "8 * unat (scan ! 1) = 0 \<or> int (8 * unat (scan ! 1)) > int (length scan)"
        by (elim disjE) (simp_all only: unat_0 mult_0_right of_nat_less_iff simp_thms)
      then have "parse_nd_loop options scan (int (length scan)) = Some (False, ptrlist_free options)"
        unfolding u Let_def by (simp only: if_True)
      then show ?thesis by blast
    next
      case c: False
      define b where "b = take (8 * unat (scan ! 1)) scan"
      define rest where "rest = drop (8 * unat (scan ! 1)) scan"
      have s: "scan = b @ rest" by (simp add: b_def rest_def)
      have pos: "0 < unat (scan ! 1)" using c unat_pos_8 word_neq_0_conv by blast
      have b: "nd_option b" using False c pos by (auto simp: nd_option_def b_def word_neq_0_conv)
      have lb: "int (length b) \<le> int (length scan)" by (simp add: b_def)
      obtain options1 where o1: "parse_nd_loop options (b @ rest) (int (length scan)) = parse_nd_loop options1 rest (int (length scan) - int (length b))"
        "ptrlist_ok options1" by (rule parse_nd_step [OF b less.prems lb, of rest])
      have "length rest < length scan" using pos False by (simp add: rest_def)
      from less.hyps [OF this o1(2)] obtain success options' where p: "parse_nd_loop options1 rest (int (length rest)) = Some (success, options')"
        "success \<longrightarrow> (\<exists>bs tail. rest = concat bs @ tail \<and> length tail \<le> 1 \<and> (\<forall>b \<in> set bs. nd_option b))" by blast
      have "int (length scan) - int (length b) = int (length rest)" by (subst s) simp
      then have "parse_nd_loop options scan (int (length scan)) = Some (success, options')" using o1(1) p(1) s by simp
      moreover have "\<exists>bs tail. scan = concat bs @ tail \<and> length tail \<le> 1 \<and> (\<forall>b \<in> set bs. nd_option b)" if success
      proof -
        obtain bs tail where "rest = concat bs @ tail" "length tail \<le> 1" "\<forall>b \<in> set bs. nd_option b" using p(2) \<open>success\<close> by blast
        then have "scan = concat (b # bs) @ tail \<and> length tail \<le> 1 \<and> (\<forall>b' \<in> set (b # bs). nd_option b')" using s b by simp
        then show ?thesis by blast
      qed
      ultimately show ?thesis by blast
    qed
  qed
qed

text \<open>Creating an advertisement of a packet that \<open>recvmsg\<close> can give.\<close>

lemma options_length: "16 \<le> n \<Longrightarrow> n < 2 ^ 31 \<Longrightarrow> sint (word_of_int (int n - sizeof_nd_router_advert) :: u32) = int n - 16"
proof -
  have k: "sint (word_of_int k :: u32) = k" if "- (2 ^ 31) \<le> k" "k < 2 ^ 31" for k
    using that by (simp add: signed_of_int signed_take_bit_int_eq_self)
  assume "16 \<le> n" "n < 2 ^ 31"
  then have "- (2 ^ 31) \<le> int n - 16" "int n - 16 < 2 ^ 31" by simp_all
  from k [OF this] show ?thesis by (simp only: sizeof_nd_router_advert_def)
qed

lemma create_unfold:
  assumes "16 \<le> length pkt" "length pkt < 2 ^ 31"
  shows "RouterAdvertisementCreate env pkt (length pkt) from t = do {
     (success, options) \<leftarrow> parse_nd_loop ptrlist_init (drop 16 pkt) (int (length (drop 16 pkt)));
     Some (if success
       then Some \<lparr>ra_source_ip = from, ra_source_ip_str = ne_ntop env from, ra_receive_time = t,
                  ra_options = options, ra_ndra_length = length pkt, ra_ndra_buf = pkt\<rparr>
       else None) }"
proof -
  have l: "int (length pkt) - 16 = int (length (drop 16 pkt))" using assms(1) by simp
  have r: "rdn pkt 0 (length pkt) = Some pkt" by (simp add: rdn_def)
  have n: "nat sizeof_nd_router_advert = 16" by (simp add: sizeof_nd_router_advert_def)
  show ?thesis
    unfolding RouterAdvertisementCreate_def parse_nd_options_def r bind.bind_lunit Let_def options_length [OF assms] l n by (rule refl)
qed

lemma create_complete:
  assumes "16 \<le> length pkt" "length pkt < 2 ^ 31" "drop 16 pkt = concat bs @ tail" "length tail \<le> 1" "\<forall>b \<in> set bs. nd_option b"
  obtains options where "RouterAdvertisementCreate env pkt (length pkt) from t = Some (Some
      \<lparr>ra_source_ip = from, ra_source_ip_str = ne_ntop env from, ra_receive_time = t,
       ra_options = options, ra_ndra_length = length pkt, ra_ndra_buf = pkt\<rparr>)"
    "opts_ok options" "elems options = pointers (drop 16 pkt) bs" "map whole (elems options) = bs"
proof -
  obtain options where p: "parse_nd_loop ptrlist_init (drop 16 pkt) (int (length (drop 16 pkt))) = Some (True, options)"
    "ptrlist_ok options" "elems options = pointers (drop 16 pkt) bs"
    using parse_nd_complete [OF assms(5,4), of ptrlist_init] by (auto simp: assms(3))
  then show ?thesis using that [of options] pointers_ok [OF assms(5), of tail] create_unfold [OF assms(1,2)]
    by (simp add: opts_ok_def assms(3))
qed

lemma create_sound:
  assumes "16 \<le> length pkt" "length pkt < 2 ^ 31"
  obtains (bad) "RouterAdvertisementCreate env pkt (length pkt) from t = Some None"
  | (good) options bs tail where "RouterAdvertisementCreate env pkt (length pkt) from t = Some (Some
      \<lparr>ra_source_ip = from, ra_source_ip_str = ne_ntop env from, ra_receive_time = t,
       ra_options = options, ra_ndra_length = length pkt, ra_ndra_buf = pkt\<rparr>)"
    "drop 16 pkt = concat bs @ tail" "length tail \<le> 1" "\<forall>b \<in> set bs. nd_option b"
    "opts_ok options" "map whole (elems options) = bs"
proof -
  obtain success options where p: "parse_nd_loop ptrlist_init (drop 16 pkt) (int (length (drop 16 pkt))) = Some (success, options)"
    "success \<longrightarrow> (\<exists>bs tail. drop 16 pkt = concat bs @ tail \<and> length tail \<le> 1 \<and> (\<forall>b \<in> set bs. nd_option b))"
    using parse_nd_sound [of ptrlist_init "drop 16 pkt"] by auto
  show ?thesis
  proof (cases success)
    case True
    then obtain bs tail where bt: "drop 16 pkt = concat bs @ tail" "length tail \<le> 1" "\<forall>b \<in> set bs. nd_option b" using p(2) by blast
    show ?thesis by (rule create_complete [OF assms bt, of env "from" t]) (rule good, assumption, rule bt, rule bt, rule bt, assumption+)
  next
    case False
    then show ?thesis using bad p(1) create_unfold [OF assms] by simp
  qed
qed

section \<open>Looking through the options\<close>

lemma opts_element: "opts_ok options \<Longrightarrow> i < length (elems options) \<Longrightarrow>
    ptrlist_element options (int i) = Some (Some (elems options ! i))"
  by (simp add: opts_ok_def ptrlist_element_ok)

lemma opts_count: "opts_ok options \<Longrightarrow> ptrlist_count options = length (elems options)"
  by (simp add: opts_ok_def ptrlist_count_ok)

lemma for_options_ok:
  assumes "opts_ok options" "P r0" "i + n \<le> length (elems options)"
    and "\<And>j. i \<le> j \<Longrightarrow> j < length (elems options) \<Longrightarrow> opt_ok (elems options ! j) \<Longrightarrow>
      \<exists>s. body j (elems options ! j) = Some s \<and> (\<forall>r. s = Leave r \<longrightarrow> P r)"
  shows "\<exists>r. for_options n i options body r0 = Some r \<and> P r"
  using assms(3,4)
proof (induction n arbitrary: i)
  case 0
  then show ?case using assms(2) by simp
next
  case (Suc n)
  let ?p = "elems options ! i"
  have i: "i < length (elems options)" using Suc.prems(1) by simp
  then have "opt_ok ?p" using assms(1) by (simp add: opts_ok_def)
  then obtain s where s: "body i ?p = Some s" "\<forall>r. s = Leave r \<longrightarrow> P r" using Suc.prems(2) i by blast
  have "\<exists>r. for_options n (Suc i) options body r0 = Some r \<and> P r"
    using Suc.IH [of "Suc i"] Suc.prems by simp
  then show ?case using s opts_element [OF assms(1) i] by (cases s) auto
qed


lemma for_type_ok:
  assumes "opt_ok p" "\<And>n. int n \<le> int (length p) \<Longrightarrow> 8 \<le> n \<Longrightarrow> \<exists>s. f p (int n) = Some s \<and> (\<forall>r. s = Leave r \<longrightarrow> P r)"
  shows "\<exists>s. for_type nd_type f p = Some s \<and> (\<forall>r. s = Leave r \<longrightarrow> P r)"
proof -
  have p: "rd p 0 = Some (p ! 0)" "rd p 1 = Some (p ! 1)" using assms(1) by (auto simp: opt_ok_def rd_def)
  have n: "int (8 * unat (p ! 1)) \<le> int (length p)" "8 \<le> 8 * unat (p ! 1)"
    using assms(1) unat_pos_8 [of "p ! 1"] unfolding opt_ok_def of_nat_le_iff by auto
  show ?thesis
  proof (cases "p ! 0 = nd_type")
    case True
    then show ?thesis using assms(2) [OF n] unfolding for_type_def p bind.bind_lunit opt_len by simp
  qed (simp add: for_type_def p(1))
qed


text \<open>A pointer with a length that lies in the packet.\<close>

definition held :: "u8 list \<Rightarrow> int \<Rightarrow> bool" where
  "held p n \<longleftrightarrow> 0 \<le> n \<and> n \<le> int (length p)"







lemma trunc8_le: "0 \<le> k \<Longrightarrow> uint (word_of_int k :: u8) \<le> k"
  by (simp only: uint_word_of_int zmod_le_nonneg_dividend)

lemma dnr_option_ok:
  assumes "opts_ok options" "i \<le> length (elems options)"
  shows "\<exists>r. find_dnr_option options i = Some r \<and>
    (case r of None \<Rightarrow> True | Some (a, n, _, i') \<Rightarrow>
       held a (uint n) \<and> i < i' \<and> i' \<le> length (elems options) \<and> elems options ! (i' - 1) ! 0 = ND_OPT_DNR)"
    (is "\<exists>r. _ \<and> ?P r")
  unfolding find_dnr_option_def opts_count [OF assms(1)]
proof (rule for_options_ok [where P = ?P, OF assms(1)])
  fix j assume j: "i \<le> j" "j < length (elems options)" and ok: "opt_ok (elems options ! j)"
  define p where "p = elems options ! j"
  define f where "f = (\<lambda>opt opt_len. if (word_of_int opt_len :: u8) < 10 then Some (Leave None)
         else do {
           lifetime \<leftarrow> net_uint32_get (drop 4 opt);
           Some (Leave (Some (drop 2 opt, word_of_int (opt_len - 2) :: u8, lifetime, Suc j))) })"
  show "\<exists>s. for_type ND_OPT_DNR f p = Some s \<and> (\<forall>r. s = Leave r \<longrightarrow> ?P r)"
  proof (cases "p ! 0 = ND_OPT_DNR")
    case False
    then show ?thesis using ok by (auto simp: for_type_def rd_def opt_ok_def p_def)
  next
    case True
    show ?thesis
    proof (rule for_type_ok [OF ok [folded p_def]])
      fix n assume n: "int n \<le> int (length p)" "8 \<le> n"
      then have "4 \<le> length (drop 4 p)" by simp
      then obtain lt where "net_uint32_get (drop 4 p) = Some lt" using net_uint32_get_defined by blast
      moreover have "held (drop 2 p) (uint (word_of_int (int n - 2) :: u8))"
        using trunc8_le [of "int n - 2"] n by (auto simp: held_def)
      ultimately show "\<exists>s. f p (int n) = Some s \<and> (\<forall>r. s = Leave r \<longrightarrow> ?P r)"
        using j True by (auto simp: f_def p_def simp del: drop_drop)
    qed
  qed
qed (use assms in auto)









lemma dnr_loop_ok:
  assumes "opts_ok (ra_options ra)" "i \<le> length (elems (ra_options ra))" "length (elems (ra_options ra)) < i + n"
  shows "\<exists>r. dnr_loop n env now ra i success es = Some r \<and>
    (elems (ra_options ra) \<noteq> [] \<and> last (elems (ra_options ra)) ! 0 \<noteq> ND_OPT_DNR \<and> i < length (elems (ra_options ra)) \<longrightarrow> \<not> fst r)"
  using assms(2,3)
proof (induction n arbitrary: i success es)
  case (Suc n)
  let ?os = "elems (ra_options ra)"
  show ?case
  proof (cases "i < length ?os")
    case False
    then show ?thesis by (auto simp: opts_count [OF assms(1)])
  next
    case True
    obtain r where r: "find_dnr_option (ra_options ra) i = Some r" "case r of None \<Rightarrow> True | Some (a, n, _, i') \<Rightarrow>
       held a (uint n) \<and> i < i' \<and> i' \<le> length ?os \<and> ?os ! (i' - 1) ! 0 = ND_OPT_DNR"
      using dnr_option_ok [OF assms(1) Suc.prems(1)] by blast
    show ?thesis
    proof (cases r)
      case None
      then show ?thesis using r True by (auto simp: opts_count [OF assms(1)])
    next
      case (Some rr)
      obtain a m lt i' where rr: "rr = (a, m, lt, i')" by (cases rr)
      have i': "held a (uint m)" "i < i'" "i' \<le> length ?os" "?os ! (i' - 1) ! 0 = ND_OPT_DNR" using r(2) Some rr by auto
      have last: "last ?os ! 0 \<noteq> ND_OPT_DNR \<longrightarrow> i' < length ?os"
        using i' by (metis last_conv_nth le_neq_implies_less length_greater_0_conv less_le_trans zero_less_iff_neq_zero not_less_zero gr_implies_not_zero)
      have "uint m \<le> int (length a)" using i'(1) by (simp add: held_def)
      then obtain e where e: "DNSEncryptedServerCreateWithRAData env a (uint m) = Some e" using ra_ok by blast
      have l: "length ?os < i' + n" using Suc.prems(2) i'(2) by simp
      note IH = Suc.IH [OF i'(3) l]
      show ?thesis
      proof (cases "m = 0 \<or> RouterAdvertisementLifetimeHasExpired ra (now i) lt \<or> e = None")
        case True
        then show ?thesis using r(1) Some rr e \<open>i < length ?os\<close>
          by (auto simp: opts_count [OF assms(1)] DNSEncryptedServerEntryCreateWithRAData_def)
      next
        case False
        then obtain es' where es': "e = Some es'" by blast
        then show ?thesis using r(1) Some rr e False \<open>i < length ?os\<close> last
            IH [of True "DNSEncryptedServerListAppendUniqueEntry es (DNSEncryptedServerEntryCreate env es')"]
          by (auto simp: opts_count [OF assms(1)] DNSEncryptedServerEntryCreateWithRAData_def)
      qed
    qed
  qed
qed simp

declare dnr_loop.simps [simp del]

lemma copy_all_ok:
  assumes "opts_ok (ra_options ra)"
  shows "\<exists>r. RouterAdvertisementCopyAllDNSEncryptedServers env now ra = Some r \<and>
    (elems (ra_options ra) \<noteq> [] \<and> last (elems (ra_options ra)) ! 0 \<noteq> ND_OPT_DNR \<longrightarrow> r = None)"
proof -
  obtain success es where "dnr_loop (Suc (length (elems (ra_options ra)))) env now ra 0 False [] = Some (success, es)"
    "elems (ra_options ra) \<noteq> [] \<and> last (elems (ra_options ra)) ! 0 \<noteq> ND_OPT_DNR \<longrightarrow> \<not> success"
    using dnr_loop_ok [OF assms, of 0 "Suc (length (elems (ra_options ra)))" env now False "[]"] by auto
  then show ?thesis by (simp add: RouterAdvertisementCopyAllDNSEncryptedServers_def opts_count [OF assms])
qed

section \<open>Advertisements\<close>

text \<open>C37. A packet becomes an advertisement exactly when its body is a row of whole options, with at most
  one byte after them, and its options are those of the packet, in their order.\<close>

theorem advertisement_options:
  assumes "16 \<le> length pkt" "length pkt < 2 ^ 31"
  shows "(\<exists>ra. RouterAdvertisementCreate env pkt (length pkt) from t = Some (Some ra) \<and> map whole (elems (ra_options ra)) = bs) \<longleftrightarrow>
    (\<exists>tail. drop 16 pkt = concat bs @ tail \<and> length tail \<le> 1 \<and> (\<forall>b \<in> set bs. nd_option b))"
    (is "?l \<longleftrightarrow> ?r")
proof
  assume ?l
  then obtain ra where ra: "RouterAdvertisementCreate env pkt (length pkt) from t = Some (Some ra)" "map whole (elems (ra_options ra)) = bs" by blast
  show ?r by (rule create_sound [OF assms, of env "from" t]) (use ra in auto)
next
  assume ?r
  then obtain tail where "drop 16 pkt = concat bs @ tail" "length tail \<le> 1" "\<forall>b \<in> set bs. nd_option b" by blast
  from create_complete [OF assms this, of env "from" t] show ?l by fastforce
qed

definition sample_options :: "u8 list list" where
  "sample_options = [[1, 1, 2, 3, 4, 5, 6, 7], [5, 1, 0, 0, 0, 0, 5, 220]]"

definition sample_packet :: "u8 list" where
  "sample_packet = [134, 0, 0, 0, 64, 0, 7, 8, 0, 0, 0, 0, 0, 0, 0, 0] @ concat sample_options"

lemma sample_packet_simps:
  "16 \<le> length sample_packet" "length sample_packet < 2 ^ 31" "drop 16 sample_packet = concat sample_options @ []"
  "length ([] :: u8 list) \<le> 1" "\<forall>b \<in> set sample_options. nd_option b"
  by (simp_all add: sample_packet_def sample_options_def nd_option_def)

theorem advertisement_options_witness:
  "\<exists>ra. RouterAdvertisementCreate sample_env sample_packet (length sample_packet) [] 5 = Some (Some ra) \<and>
     map whole (elems (ra_options ra)) = sample_options"
  by (rule iffD2 [OF advertisement_options]) (use sample_packet_simps in auto)



text \<open>C39. When the last option of a packet is not an encrypted DNS server, none of the servers in it is used.\<close>

theorem servers_need_last_option:
  assumes "16 \<le> length pkt" "length pkt < 2 ^ 31" "drop 16 pkt = concat bs @ tail" "length tail \<le> 1" "\<forall>b \<in> set bs. nd_option b"
    and "bs \<noteq> []" "last bs ! 0 \<noteq> ND_OPT_DNR"
  shows "\<exists>ra. RouterAdvertisementCreate env pkt (length pkt) from t = Some (Some ra) \<and>
    RouterAdvertisementCopyAllDNSEncryptedServers env now ra = Some None"
proof (rule create_complete [OF assms(1-5), of env "from" t])
  fix options
  let ?ra = "\<lparr>ra_source_ip = from, ra_source_ip_str = ne_ntop env from, ra_receive_time = t,
       ra_options = options, ra_ndra_length = length pkt, ra_ndra_buf = pkt\<rparr>"
  assume c: "RouterAdvertisementCreate env pkt (length pkt) from t = Some (Some ?ra)" and o: "opts_ok options"
    and w: "map whole (elems options) = bs"
  have ne: "elems options \<noteq> []" using w assms(6) by auto
  then have ok: "opt_ok (last (elems options))" using o by (simp add: opts_ok_def)
  have "last bs = whole (last (elems options))" using w ne by (metis last_map)
  then have "last (elems options) ! 0 = last bs ! 0" using ok unat_pos_8 [of "last (elems options) ! 1"] by (simp add: whole_def opt_ok_def)
  then show ?thesis using copy_all_ok [of ?ra env now] o ne assms(7) c by auto
qed

definition dnr_bytes :: "u8 list" where
  "dnr_bytes = [144, 5, 0, 1, 255, 255, 255, 255, 0, 6, 1, 97, 2, 99, 111, 0, 0, 16, 32, 0, 0, 0, 0, 0, 0, 0, 0, 0, 0, 0, 0, 0, 0, 53,
     0, 0, 0, 0, 0, 0]"

definition mtu_bytes :: "u8 list" where
  "mtu_bytes = [5, 1, 0, 0, 0, 0, 5, 220]"

definition dnr_packet :: "u8 list list \<Rightarrow> u8 list" where
  "dnr_packet bs = [134, 0, 0, 0, 64, 0, 7, 8, 0, 0, 0, 0, 0, 0, 0, 0] @ concat bs"

definition servers_of :: "u8 list \<Rightarrow> server_entry list option option" where
  "servers_of pkt = do {
     r \<leftarrow> RouterAdvertisementCreate sample_env pkt (length pkt) [] 5;
     ra \<leftarrow> r;
     RouterAdvertisementCopyAllDNSEncryptedServers sample_env (\<lambda>_. 6) ra }"

lemma dnr_alone: "map_option (map_option (map se_params)) (servers_of (dnr_packet [mtu_bytes, dnr_bytes])) = Some (Some [[]])"
  by code_simp

text \<open>The packet with the server last gives it; with the MTU after it there is none.\<close>

theorem servers_need_last_option_witness:
  "map_option (map_option (map se_params)) (servers_of (dnr_packet [mtu_bytes, dnr_bytes])) = Some (Some [[]]) \<and>
   servers_of (dnr_packet [dnr_bytes, mtu_bytes]) = Some None"
proof -
  let ?bs = "[dnr_bytes, mtu_bytes]"
  have "16 \<le> length (dnr_packet ?bs)" "length (dnr_packet ?bs) < 2 ^ 31" "drop 16 (dnr_packet ?bs) = concat ?bs @ []"
    "length ([] :: u8 list) \<le> 1" "\<forall>b \<in> set ?bs. nd_option b" "?bs \<noteq> []" "last ?bs ! 0 \<noteq> ND_OPT_DNR"
    by (simp_all add: dnr_packet_def dnr_bytes_def mtu_bytes_def nd_option_def)
  from servers_need_last_option [OF this, of sample_env "[]" 5 "\<lambda>_. 6"]
  have "servers_of (dnr_packet ?bs) = Some None" by (auto simp: servers_of_def)
  with dnr_alone show ?thesis by blast
qed

text \<open>An advertisement that is kept in a dictionary is read back from it.\<close>

theorem advertisement_dictionary_roundtrip:
  assumes "16 \<le> length pkt" "length pkt < 2 ^ 31" "pkt ! 0 = 134" "pkt ! 1 = 0" "pton (ne_ntop env from) = Some from"
    and "RouterAdvertisementCreate env pkt (length pkt) from t = Some (Some ra)"
  shows "\<exists>dict. RouterAdvertisementCopyDictionary ra = Some dict \<and>
    RouterAdvertisementCreateWithDictionary env pton dict = Some (Some ra)"
proof (rule create_sound [OF assms(1,2), of env "from" t])
  fix options
  assume c: "RouterAdvertisementCreate env pkt (length pkt) from t = Some (Some
      \<lparr>ra_source_ip = from, ra_source_ip_str = ne_ntop env from, ra_receive_time = t,
       ra_options = options, ra_ndra_length = length pkt, ra_ndra_buf = pkt\<rparr>)"
  have r: "rd pkt 0 = Some 134" "rd pkt 1 = Some 0" "rdn pkt 0 (length pkt) = Some pkt"
    using assms(1,3,4) by (auto simp: rd_def rdn_def)
  have "\<not> int (length pkt) < sizeof_nd_router_advert" using assms(1) by (simp add: sizeof_nd_router_advert_def)
  then show ?thesis
    using r assms(5,6) c by (auto simp: RouterAdvertisementCopyDictionary_def RouterAdvertisementCreateWithDictionary_def)
qed (use assms in simp)

theorem advertisement_dictionary_roundtrip_witness:
  "\<exists>ra dict. RouterAdvertisementCreate sample_env sample_packet (length sample_packet) [] 5 = Some (Some ra) \<and>
     RouterAdvertisementCopyDictionary ra = Some dict \<and>
     RouterAdvertisementCreateWithDictionary sample_env (\<lambda>s. Some (map (\<lambda>c. word_of_nat (of_char c)) s)) dict = Some (Some ra)"
proof -
  obtain ra where ra: "RouterAdvertisementCreate sample_env sample_packet (length sample_packet) [] 5 = Some (Some ra)"
    using create_complete [OF sample_packet_simps] by blast
  have "sample_packet ! 0 = 134" "sample_packet ! 1 = 0" by (simp_all add: sample_packet_def)
  from advertisement_dictionary_roundtrip [OF sample_packet_simps(1,2) this _ ra, of "\<lambda>s. Some (map (\<lambda>c. word_of_nat (of_char c)) s)"]
  show ?thesis using ra by (auto simp: sample_env_def)
qed

text \<open>The time at which the DNS servers of an advertisement expire lies ahead, and no later than the
  lifetime of the servers allows.\<close>

theorem dns_expiration_ahead:
  assumes "RouterAdvertisementGetDNSExpirationTime ra now = Some (expiration, has_rdnss, has_expired)"
    and "has_rdnss" "\<not> has_expired" "expiration \<noteq> 0"
  shows "\<exists>a count lifetime. find_rdnss (ra_options ra) = Some (a, count, lifetime) \<and>
    now < expiration \<and> expiration \<le> ra_receive_time ra + real (unat lifetime)"
proof -
  obtain a count lifetime where r: "find_rdnss (ra_options ra) = Some (a, count, lifetime)"
    using assms(1) by (cases "find_rdnss (ra_options ra)") (auto simp: RouterAdvertisementGetDNSExpirationTime_def)
  have alive: "now < ra_receive_time ra + real (unat l)"
    if "\<not> RouterAdvertisementLifetimeHasExpired ra now l" "l \<noteq> RA_OPT_INFINITE_LIFETIME" for l
    using that by (auto simp: RouterAdvertisementLifetimeHasExpired_def split: if_splits)
  have less: "real (unat l) \<le> real (unat lifetime)" if "l < lifetime" for l
    using that by (simp only: word_less_nat_alt of_nat_le_iff less_imp_le)
  show ?thesis
    using assms r alive less
    by (auto simp: RouterAdvertisementGetDNSExpirationTime_def Let_def bind_eq_Some_conv split: if_splits)
qed

end
