(* ===== verification/Timer.thy ===== *)
theory Timer
  imports Complex_Main Prelude
begin

text \<open>
  Time and timers of the client daemon (\<open>IPConfiguration.bproj/timer.c\<close>), and what its components see of
  the system.

  \<open>absolute_time_t\<close> is a \<open>double\<close> of seconds; it is a rational number here, so that the rounding of
  floating point is not modelled.  A timer fires when a clock that nobody can set, \<open>w_mono\<close>, reaches
  its deadline; the time of day is that clock and an offset that changes when the date is set.

  The outcome of a call of the system that can fail is the next entry of \<open>w_outcome\<close>, a random number
  the next entry of \<open>w_random\<close>: nothing is assumed about them.
\<close>

type_synonym absolute_time = rat

record world =
  w_mono :: rat
  w_offset :: rat
  w_time_generation :: u32
  w_clock_set :: bool
  w_outcome :: "nat \<Rightarrow> bool"
  w_random :: "nat \<Rightarrow> nat"
  w_calls :: nat

definition timer_current_secs :: "world \<Rightarrow> absolute_time" where
  "timer_current_secs w = w_mono w + w_offset w"

text \<open>The outcome of the next call that can fail.\<close>

definition next_outcome :: "world \<Rightarrow> bool \<times> world" where
  "next_outcome w = (w_outcome w (w_calls w), w\<lparr>w_calls := w_calls w + 1\<rparr>)"

text \<open>\<open>random_range\<close> of \<open>util.c\<close> on the range from 0 to \<open>biggest\<close>.\<close>

definition random_upto :: "nat \<Rightarrow> world \<Rightarrow> nat \<times> world" where
  "random_upto biggest w = (w_random w (w_calls w) mod (biggest + 1), w\<lparr>w_calls := w_calls w + 1\<rparr>)"

section \<open>Callouts (timer.c)\<close>

text \<open>
  \<open>tm_func\<close> is the function a callout calls together with its arguments; \<open>tm_deadline\<close> is what the
  dispatch source was set to.
\<close>

record 'f timer_callout =
  tm_func :: "'f option"
  tm_deadline :: rat
  tm_generation :: u32
  tm_enabled :: bool

definition timer_callout_init :: "world \<Rightarrow> 'f timer_callout" where
  "timer_callout_init w = \<lparr>tm_func = None, tm_deadline = 0, tm_generation = w_time_generation w, tm_enabled = False\<rparr>"

definition timer_cancel_common :: "world \<Rightarrow> 'f timer_callout \<Rightarrow> 'f timer_callout" where
  "timer_cancel_common w tm = tm\<lparr>tm_func := None, tm_generation := w_time_generation w, tm_enabled := False\<rparr>"

definition timer_cancel :: "world \<Rightarrow> 'f timer_callout \<Rightarrow> 'f timer_callout" where
  "timer_cancel w tm = timer_cancel_common w tm"

text \<open>The relative time is cut to nanoseconds.\<close>

definition NSEC_PER_SEC :: int where
  "NSEC_PER_SEC = 1000000000"

definition timer_callout_set :: "world \<Rightarrow> 'f timer_callout \<Rightarrow> rat \<Rightarrow> 'f \<Rightarrow> 'f timer_callout" where
  "timer_callout_set w tm relative_time func =
     (timer_cancel_common w tm)\<lparr>tm_func := Some func, tm_enabled := True, tm_generation := w_time_generation w,
        tm_deadline := w_mono w + of_int \<lfloor>relative_time * of_int NSEC_PER_SEC\<rfloor> / of_int NSEC_PER_SEC\<rparr>"

definition USECS_PER_SEC :: int where
  "USECS_PER_SEC = 1000000"

text \<open>A time of seconds and microseconds; negative seconds become one microsecond.\<close>

definition timer_set_relative :: "world \<Rightarrow> 'f timer_callout \<Rightarrow> int \<Rightarrow> int \<Rightarrow> 'f \<Rightarrow> 'f timer_callout" where
  "timer_set_relative w tm tv_sec tv_usec func =
     (let (tv_sec, tv_usec) = (if tv_sec < 0 then (0, 1) else (tv_sec, tv_usec)) in
      timer_callout_set w tm (of_int tv_sec + of_int tv_usec / of_int USECS_PER_SEC) func)"

text \<open>What is called when the deadline has come: nothing, if the callout is not enabled.\<close>

definition timer_callout_process :: "'f timer_callout \<Rightarrow> 'f option \<times> 'f timer_callout" where
  "timer_callout_process tm =
     (if tm_func tm \<noteq> None \<and> tm_enabled tm then (tm_func tm, tm\<lparr>tm_enabled := False\<rparr>) else (None, tm))"

definition timer_still_pending :: "'f timer_callout \<Rightarrow> bool" where
  "timer_still_pending tm \<longleftrightarrow> tm_enabled tm"

definition timer_notify_check :: "world \<Rightarrow> world" where
  "timer_notify_check w =
     (if w_clock_set w then w\<lparr>w_time_generation := w_time_generation w + 1, w_clock_set := False\<rparr> else w)"

definition timer_time_changed :: "world \<Rightarrow> 'f timer_callout \<Rightarrow> bool \<times> world" where
  "timer_time_changed w tm =
     (let w' = timer_notify_check w in (tm_generation tm \<noteq> w_time_generation w', w'))"

text \<open>A cast of a \<open>double\<close> to an integer type drops the fraction.\<close>

definition trunc :: "rat \<Rightarrow> int" where
  "trunc r = (if r < 0 then - \<lfloor>- r\<rfloor> else \<lfloor>r\<rfloor>)"

section \<open>Facts\<close>

named_theorems timer

lemma timer_cancel_simps [timer, simp]:
  "tm_func (timer_cancel w tm) = None" "tm_enabled (timer_cancel w tm) = False"
  by (simp_all add: timer_cancel_def timer_cancel_common_def)

lemma timer_callout_set_simps [timer, simp]:
  "tm_func (timer_callout_set w tm r f) = Some f" "tm_enabled (timer_callout_set w tm r f)"
  by (simp_all add: timer_callout_set_def timer_cancel_common_def)

lemma timer_set_relative_simps [timer, simp]:
  "tm_func (timer_set_relative w tm sec usec f) = Some f" "tm_enabled (timer_set_relative w tm sec usec f)"
  by (simp_all add: timer_set_relative_def split: prod.split)

text \<open>A callout set to whole seconds fires exactly then.\<close>

lemma timer_deadline_secs:
  "0 \<le> sec \<Longrightarrow> tm_deadline (timer_set_relative w tm sec 0 f) = w_mono w + of_int sec"
proof -
  have "\<lfloor>of_int sec * 1000000000 :: rat\<rfloor> = sec * 1000000000"
    using floor_of_int [of "sec * 1000000000", where ?'a = rat] by simp
  then show "0 \<le> sec \<Longrightarrow> ?thesis"
    by (simp add: timer_set_relative_def timer_callout_set_def NSEC_PER_SEC_def)
qed

lemma next_outcome_simps [simp]:
  "w_mono (snd (next_outcome w)) = w_mono w" "w_offset (snd (next_outcome w)) = w_offset w"
  by (simp_all add: next_outcome_def)

lemma trunc_of_int [simp]: "trunc (of_int n) = n"
  by (simp add: trunc_def floor_minus)

lemma trunc_le: "0 \<le> r \<Longrightarrow> of_int (trunc r) \<le> r"
  by (simp add: trunc_def)

end
