(* ===== verification/DHCPv6Options.thy ===== *)
theory DHCPv6Options
  imports DNSServers PtrList
begin

text \<open>
  Packets and options of DHCPv6 (\<open>bootplib/DHCPv6.c\<close>, \<open>DHCPv6Options.c\<close>, \<open>DHCPv6Options.h\<close>) and client
  identifiers (\<open>DHCPDUID.c\<close>, \<open>DHCPDUID.h\<close>).

  A pointer to a packet, an option or its data is the list of bytes from there to the end of the
  object.  The texts that are made for the log when an option has no room or is truncated are left out.
\<close>

section \<open>Packets (DHCPv6.c)\<close>

abbreviation "kDHCPv6MessageNone \<equiv> (0 :: u8)"
abbreviation "kDHCPv6MessageSOLICIT \<equiv> (1 :: u8)"
abbreviation "kDHCPv6MessageADVERTISE \<equiv> (2 :: u8)"
abbreviation "kDHCPv6MessageREQUEST \<equiv> (3 :: u8)"
abbreviation "kDHCPv6MessageCONFIRM \<equiv> (4 :: u8)"
abbreviation "kDHCPv6MessageRENEW \<equiv> (5 :: u8)"
abbreviation "kDHCPv6MessageREBIND \<equiv> (6 :: u8)"
abbreviation "kDHCPv6MessageREPLY \<equiv> (7 :: u8)"
abbreviation "kDHCPv6MessageRELEASE \<equiv> (8 :: u8)"
abbreviation "kDHCPv6MessageDECLINE \<equiv> (9 :: u8)"
abbreviation "kDHCPv6MessageRECONFIGURE \<equiv> (10 :: u8)"
abbreviation "kDHCPv6MessageINFORMATION_REQUEST \<equiv> (11 :: u8)"
abbreviation "kDHCPv6MessageRELAY_FORW \<equiv> (12 :: u8)"
abbreviation "kDHCPv6MessageRELAY_REPL \<equiv> (13 :: u8)"

definition DHCPv6MessageTypeName :: "u8 \<Rightarrow> string" where
  "DHCPv6MessageTypeName message_type =
     (if message_type = kDHCPv6MessageNone then ''None''
      else if message_type = kDHCPv6MessageSOLICIT then ''SOLICIT''
      else if message_type = kDHCPv6MessageADVERTISE then ''ADVERTISE''
      else if message_type = kDHCPv6MessageREQUEST then ''REQUEST''
      else if message_type = kDHCPv6MessageCONFIRM then ''CONFIRM''
      else if message_type = kDHCPv6MessageRENEW then ''RENEW''
      else if message_type = kDHCPv6MessageREBIND then ''REBIND''
      else if message_type = kDHCPv6MessageREPLY then ''REPLY''
      else if message_type = kDHCPv6MessageRELEASE then ''RELEASE''
      else if message_type = kDHCPv6MessageDECLINE then ''DECLINE''
      else if message_type = kDHCPv6MessageRECONFIGURE then ''RECONFIGURE''
      else if message_type = kDHCPv6MessageINFORMATION_REQUEST then ''INFORMATION_REQUEST''
      else if message_type = kDHCPv6MessageRELAY_FORW then ''RELAY_FORW''
      else if message_type = kDHCPv6MessageRELAY_REPL then ''RELAY_REPL''
      else ''<unknown'')"

definition DHCPV6_PACKET_HEADER_LENGTH :: int where "DHCPV6_PACKET_HEADER_LENGTH = 4"

definition DHCPv6PacketSetMessageType :: "u8 list \<Rightarrow> u8 \<Rightarrow> u8 list option" where
  "DHCPv6PacketSetMessageType pkt msg_type = wr pkt 0 msg_type"

definition DHCPv6PacketSetTransactionID :: "u8 list \<Rightarrow> u32 \<Rightarrow> u8 list option" where
  "DHCPv6PacketSetTransactionID pkt transaction_id = wrn pkt 1 (drop 1 (net_uint32_bytes transaction_id))"

definition DHCPv6PacketGetTransactionID :: "u8 list \<Rightarrow> u32 option" where
  "DHCPv6PacketGetTransactionID pkt = do {
     v1 \<leftarrow> rd pkt 1; v2 \<leftarrow> rd pkt 2; v3 \<leftarrow> rd pkt 3;
     net_uint32_get [0, v1, v2, v3] }"

section \<open>Codes, types and names of options\<close>

abbreviation "kDHCPv6OPTION_NONE \<equiv> (0 :: u16)"
abbreviation "kDHCPv6OPTION_CLIENTID \<equiv> (1 :: u16)"
abbreviation "kDHCPv6OPTION_SERVERID \<equiv> (2 :: u16)"
abbreviation "kDHCPv6OPTION_IA_NA \<equiv> (3 :: u16)"
abbreviation "kDHCPv6OPTION_IA_TA \<equiv> (4 :: u16)"
abbreviation "kDHCPv6OPTION_IAADDR \<equiv> (5 :: u16)"
abbreviation "kDHCPv6OPTION_ORO \<equiv> (6 :: u16)"
abbreviation "kDHCPv6OPTION_PREFERENCE \<equiv> (7 :: u16)"
abbreviation "kDHCPv6OPTION_ELAPSED_TIME \<equiv> (8 :: u16)"
abbreviation "kDHCPv6OPTION_RELAY_MSG \<equiv> (9 :: u16)"
abbreviation "kDHCPv6OPTION_AUTH \<equiv> (11 :: u16)"
abbreviation "kDHCPv6OPTION_UNICAST \<equiv> (12 :: u16)"
abbreviation "kDHCPv6OPTION_STATUS_CODE \<equiv> (13 :: u16)"
abbreviation "kDHCPv6OPTION_RAPID_COMMIT \<equiv> (14 :: u16)"
abbreviation "kDHCPv6OPTION_USER_CLASS \<equiv> (15 :: u16)"
abbreviation "kDHCPv6OPTION_VENDOR_CLASS \<equiv> (16 :: u16)"
abbreviation "kDHCPv6OPTION_VENDOR_OPTS \<equiv> (17 :: u16)"
abbreviation "kDHCPv6OPTION_INTERFACE_ID \<equiv> (18 :: u16)"
abbreviation "kDHCPv6OPTION_RECONF_MSG \<equiv> (19 :: u16)"
abbreviation "kDHCPv6OPTION_RECONF_ACCEPT \<equiv> (20 :: u16)"
abbreviation "kDHCPv6OPTION_SIP_SERVER_D \<equiv> (21 :: u16)"
abbreviation "kDHCPv6OPTION_SIP_SERVER_A \<equiv> (22 :: u16)"
abbreviation "kDHCPv6OPTION_DNS_SERVERS \<equiv> (23 :: u16)"
abbreviation "kDHCPv6OPTION_DOMAIN_LIST \<equiv> (24 :: u16)"
abbreviation "kDHCPv6OPTION_IA_PD \<equiv> (25 :: u16)"
abbreviation "kDHCPv6OPTION_IAPREFIX \<equiv> (26 :: u16)"
abbreviation "kDHCPv6OPTION_CLIENT_FQDN \<equiv> (39 :: u16)"
abbreviation "kDHCPv6OPTION_POSIX_TIMEZONE \<equiv> (41 :: u16)"
abbreviation "kDHCPv6OPTION_TZDB_TIMEZONE \<equiv> (42 :: u16)"
abbreviation "kDHCPv6OPTION_CAPTIVE_PORTAL_URL \<equiv> (103 :: u16)"
abbreviation "kDHCPv6OPTION_V6_DNR \<equiv> (144 :: u16)"

datatype option_type6 =
    kDHCPv6OptionTypeNone | kDHCPv6OptionTypeUnknown | kDHCPv6OptionTypeDUID | kDHCPv6OptionTypeUInt16
  | kDHCPv6OptionTypeUInt32 | kDHCPv6OptionTypeIPv6Address | kDHCPv6OptionTypeDNSNameList | kDHCPv6OptionTypeIA_NA
  | kDHCPv6OptionTypeIAADDR | kDHCPv6OptionTypeStatusCode | kDHCPv6OptionTypeString | kDHCPv6OptionTypeIA_PD
  | kDHCPv6OptionTypeIAPREFIX | kDHCPv6OptionTypeDNSEncryptedServer | kDHCPv6OptionTypeClientFQDN

definition DHCPv6OptionCodeGetType :: "u16 \<Rightarrow> option_type6" where
  "DHCPv6OptionCodeGetType option_code =
     (if option_code \<in> {kDHCPv6OPTION_CLIENTID, kDHCPv6OPTION_SERVERID} then kDHCPv6OptionTypeDUID
      else if option_code \<in> {kDHCPv6OPTION_ORO, kDHCPv6OPTION_ELAPSED_TIME} then kDHCPv6OptionTypeUInt16
      else if option_code = kDHCPv6OPTION_UNICAST then kDHCPv6OptionTypeIPv6Address
      else if option_code = kDHCPv6OPTION_RAPID_COMMIT then kDHCPv6OptionTypeNone
      else if option_code \<in> {kDHCPv6OPTION_SIP_SERVER_A, kDHCPv6OPTION_DNS_SERVERS} then kDHCPv6OptionTypeIPv6Address
      else if option_code = kDHCPv6OPTION_V6_DNR then kDHCPv6OptionTypeDNSEncryptedServer
      else if option_code \<in> {kDHCPv6OPTION_SIP_SERVER_D, kDHCPv6OPTION_DOMAIN_LIST} then kDHCPv6OptionTypeDNSNameList
      else if option_code = kDHCPv6OPTION_IA_NA then kDHCPv6OptionTypeIA_NA
      else if option_code = kDHCPv6OPTION_IA_PD then kDHCPv6OptionTypeIA_PD
      else if option_code = kDHCPv6OPTION_IAADDR then kDHCPv6OptionTypeIAADDR
      else if option_code = kDHCPv6OPTION_IAPREFIX then kDHCPv6OptionTypeIAPREFIX
      else if option_code = kDHCPv6OPTION_CLIENT_FQDN then kDHCPv6OptionTypeClientFQDN
      else if option_code = kDHCPv6OPTION_STATUS_CODE then kDHCPv6OptionTypeStatusCode
      else if option_code \<in> {kDHCPv6OPTION_POSIX_TIMEZONE, kDHCPv6OPTION_TZDB_TIMEZONE, kDHCPv6OPTION_CAPTIVE_PORTAL_URL}
        then kDHCPv6OptionTypeString
      else kDHCPv6OptionTypeUnknown)"

definition option_code_names :: "(u16 \<times> string) list" where
  "option_code_names =
     [(kDHCPv6OPTION_DNS_SERVERS, ''DNS_SERVERS''),
      (kDHCPv6OPTION_DOMAIN_LIST, ''DOMAIN_LIST''),
      (kDHCPv6OPTION_POSIX_TIMEZONE, ''POSIX_TIMEZONE''),
      (kDHCPv6OPTION_TZDB_TIMEZONE, ''TZDB_TIMEZONE''),
      (kDHCPv6OPTION_CAPTIVE_PORTAL_URL, ''CAPTIVE_PORTAL_URL''),
      (kDHCPv6OPTION_V6_DNR, ''DNS_ENCRYPTED_SERVERS''),
      (kDHCPv6OPTION_CLIENT_FQDN, ''CLIENT_FQDN'')]"

text \<open>\<open>strcasecmp\<close> compares the characters as \<open>tolower\<close> gives them in the C locale.\<close>

definition tolower :: "char \<Rightarrow> char" where
  "tolower c = (if of_char c \<in> {65 .. 90 :: nat} then char_of (of_char c + 32 :: nat) else c)"

definition same_nocase :: "string \<Rightarrow> string \<Rightarrow> bool" where
  "same_nocase a b \<longleftrightarrow> map tolower a = map tolower b"

definition DHCPv6OptionNameGetCode :: "string \<Rightarrow> u16" where
  "DHCPv6OptionNameGetCode name =
     (case find (\<lambda>(code, n). same_nocase name n) option_code_names of
        Some (code, n) \<Rightarrow> code
      | None \<Rightarrow> kDHCPv6OPTION_NONE)"

definition option_code_texts :: "(u16 \<times> string) list" where
  "option_code_texts =
     [(kDHCPv6OPTION_CLIENTID, ''CLIENTID''), (kDHCPv6OPTION_SERVERID, ''SERVERID''),
      (kDHCPv6OPTION_IA_NA, ''IA_NA''), (kDHCPv6OPTION_IA_TA, ''IA_TA''), (kDHCPv6OPTION_IAADDR, ''IAADDR''),
      (kDHCPv6OPTION_ORO, ''ORO''), (kDHCPv6OPTION_PREFERENCE, ''PREFERENCE''),
      (kDHCPv6OPTION_ELAPSED_TIME, ''ELAPSED_TIME''), (kDHCPv6OPTION_RELAY_MSG, ''RELAY_MSG''),
      (kDHCPv6OPTION_AUTH, ''AUTH''), (kDHCPv6OPTION_UNICAST, ''UNICAST''),
      (kDHCPv6OPTION_CLIENT_FQDN, ''CLIENT_FQDN''), (kDHCPv6OPTION_STATUS_CODE, ''STATUS_CODE''),
      (kDHCPv6OPTION_RAPID_COMMIT, ''RAPID_COMMIT''), (kDHCPv6OPTION_USER_CLASS, ''USER_CLASS''),
      (kDHCPv6OPTION_VENDOR_CLASS, ''VENDOR_CLASS''), (kDHCPv6OPTION_VENDOR_OPTS, ''VENDOR_OPTS''),
      (kDHCPv6OPTION_INTERFACE_ID, ''INTERFACE_ID''), (kDHCPv6OPTION_RECONF_MSG, ''RECONF_MSG''),
      (kDHCPv6OPTION_RECONF_ACCEPT, ''RECONF_ACCEPT''), (kDHCPv6OPTION_SIP_SERVER_D, ''SIP_SERVER_D''),
      (kDHCPv6OPTION_SIP_SERVER_A, ''SIP_SERVER_A''), (kDHCPv6OPTION_DNS_SERVERS, ''DNS_SERVERS''),
      (kDHCPv6OPTION_DOMAIN_LIST, ''DOMAIN_LIST''), (kDHCPv6OPTION_V6_DNR, ''DNS_ENCRYPTED_SERVERS''),
      (kDHCPv6OPTION_POSIX_TIMEZONE, ''POSIX_TIMEZONE''), (kDHCPv6OPTION_TZDB_TIMEZONE, ''TZDB_TIMEZONE''),
      (kDHCPv6OPTION_CAPTIVE_PORTAL_URL, ''CAPTIVE_PORTAL_URL''), (kDHCPv6OPTION_IA_PD, ''IA_PD''),
      (kDHCPv6OPTION_IAPREFIX, ''IAPREFIX'')]"

definition DHCPv6OptionCodeGetName :: "u16 \<Rightarrow> string" where
  "DHCPv6OptionCodeGetName code = (case map_of option_code_texts code of Some str \<Rightarrow> str | None \<Rightarrow> ''<unknown>'')"

section \<open>One option\<close>

definition DHCPV6_OPTION_HEADER_SIZE :: int where "DHCPV6_OPTION_HEADER_SIZE = 4"

definition DHCPv6OptionGetCode :: "u8 list \<Rightarrow> u16 option" where
  "DHCPv6OptionGetCode option = net_uint16_get option"

definition DHCPv6OptionGetLength :: "u8 list \<Rightarrow> u16 option" where
  "DHCPv6OptionGetLength option = net_uint16_get (drop 2 option)"

definition DHCPv6OptionGetData :: "u8 list \<Rightarrow> u8 list" where
  "DHCPv6OptionGetData option = drop 4 option"

section \<open>Option areas\<close>

record option_area6 =
  oa6_buf :: "u8 list"
  oa6_size :: int
  oa6_used :: int

definition DHCPv6OptionAreaInit :: "u8 list \<Rightarrow> int \<Rightarrow> option_area6" where
  "DHCPv6OptionAreaInit buf n = \<lparr>oa6_buf = buf, oa6_size = n, oa6_used = 0\<rparr>"

definition DHCPv6OptionAreaGetUsedLength :: "option_area6 \<Rightarrow> int" where
  "DHCPv6OptionAreaGetUsedLength oa = oa6_used oa"

definition DHCPv6OptionAreaAddOption :: "option_area6 \<Rightarrow> u16 \<Rightarrow> u16 \<Rightarrow> u8 list \<Rightarrow> (bool \<times> option_area6) option" where
  "DHCPv6OptionAreaAddOption oa option_code option_len option_data =
     (let left = oa6_size oa - oa6_used oa; required_space = DHCPV6_OPTION_HEADER_SIZE + uint option_len;
          opt = nat (oa6_used oa)
      in if left < required_space then Some (False, oa)
         else do {
           b1 \<leftarrow> wrn (oa6_buf oa) opt (net_uint16_bytes option_code);
           b2 \<leftarrow> wrn b1 (opt + 2) (net_uint16_bytes option_len);
           b3 \<leftarrow> (if option_len > 0 then do { data \<leftarrow> rdn option_data 0 (unat option_len); wrn b2 (opt + 4) data }
                  else Some b2);
           Some (True, oa\<lparr>oa6_buf := b3, oa6_used := oa6_used oa + required_space\<rparr>) })"

text \<open>The length is the size of the array, cut to 16 bits by the parameter.\<close>

definition DHCPv6OptionAreaAddOptionRequestOption :: "option_area6 \<Rightarrow> u16 list \<Rightarrow> (bool \<times> option_area6) option" where
  "DHCPv6OptionAreaAddOptionRequestOption oa requested_opts =
     DHCPv6OptionAreaAddOption oa kDHCPv6OPTION_ORO (word_of_nat (2 * length requested_opts))
       (concat (map net_uint16_bytes requested_opts))"

section \<open>Option lists\<close>

type_synonym opts6 = "u8 list ptrlist"

text \<open>
  The loop of \<open>DHCPv6OptionListParse\<close>; the comparison of \<open>left\<close> with the header size is one of \<open>size_t\<close>,
  the others are of \<open>int\<close>.
\<close>

function parse6_loop :: "opts6 \<Rightarrow> u8 list \<Rightarrow> int \<Rightarrow> (bool \<times> opts6) option" where
  "parse6_loop options scan left =
     (if 0 \<le> left \<and> left < DHCPV6_OPTION_HEADER_SIZE then
        Some (if left = 0 then (True, options) else (False, ptrlist_free options))
      else do {
        option_code \<leftarrow> DHCPv6OptionGetCode scan;
        option_len \<leftarrow> DHCPv6OptionGetLength scan;
        let option_need = DHCPV6_OPTION_HEADER_SIZE + uint option_len;
        if left < option_need then Some (False, ptrlist_free options)
        else do {
          (_, options') \<leftarrow> ptrlist_add True options scan;
          parse6_loop options' (drop (nat option_need) scan) (left - option_need) } })"
  by pat_completeness auto
termination
  by (relation "measure (\<lambda>(options, scan, left). nat left)") (auto simp: DHCPV6_OPTION_HEADER_SIZE_def uint_nat simp del: of_nat_unat)

declare parse6_loop.simps [simp del]

definition DHCPv6OptionListParse :: "u8 list \<Rightarrow> int \<Rightarrow> (bool \<times> opts6) option" where
  "DHCPv6OptionListParse buf buf_size = parse6_loop ptrlist_init buf buf_size"

definition DHCPv6OptionListCreate :: "u8 list \<Rightarrow> int \<Rightarrow> opts6 option option" where
  "DHCPv6OptionListCreate buf buf_size = do {
     (success, options) \<leftarrow> DHCPv6OptionListParse buf buf_size;
     Some (if success then Some options else None) }"

definition DHCPv6OptionListCreateWithPacket :: "u8 list \<Rightarrow> int \<Rightarrow> opts6 option option" where
  "DHCPv6OptionListCreateWithPacket pkt pkt_len =
     (if pkt_len < DHCPV6_PACKET_HEADER_LENGTH then Some None
      else DHCPv6OptionListCreate (drop 4 pkt) (pkt_len - DHCPV6_PACKET_HEADER_LENGTH))"

definition DHCPv6OptionListGetCount :: "opts6 \<Rightarrow> nat" where
  "DHCPv6OptionListGetCount options = ptrlist_count options"

definition DHCPv6OptionListGetOptionAtIndex :: "opts6 \<Rightarrow> int \<Rightarrow> u8 list option option" where
  "DHCPv6OptionListGetOptionAtIndex options i = ptrlist_element options i"

text \<open>
  From index \<open>i\<close> on, with \<open>n\<close> options left: the data, its length, and the index after the option, which
  is stored in \<open>*start_index\<close> when there is one.  The index starts at 0 without \<open>start_index\<close>.
\<close>

fun option6_from :: "nat \<Rightarrow> nat \<Rightarrow> opts6 \<Rightarrow> u16 \<Rightarrow> (u8 list \<times> int \<times> nat) option option" where
  "option6_from 0 i options option_code = Some None"
| "option6_from (Suc n) i options option_code = do {
     e \<leftarrow> DHCPv6OptionListGetOptionAtIndex options (int i);
     option \<leftarrow> e;
     code \<leftarrow> DHCPv6OptionGetCode option;
     if code = option_code then do {
       len \<leftarrow> DHCPv6OptionGetLength option;
       Some (Some (DHCPv6OptionGetData option, uint len, Suc i)) }
     else option6_from n (Suc i) options option_code }"

definition DHCPv6OptionListGetOptionDataAndLength :: "opts6 \<Rightarrow> u16 \<Rightarrow> nat \<Rightarrow> (u8 list \<times> int \<times> nat) option option" where
  "DHCPv6OptionListGetOptionDataAndLength options option_code start_index =
     option6_from (DHCPv6OptionListGetCount options - start_index) start_index options option_code"

section \<open>Particular options\<close>

text \<open>IA_NA and IA_PD have the same layout: an identifier, T1 and T2, then options.\<close>

definition DHCPv6OptionIA_NA_MIN_LENGTH :: int where "DHCPv6OptionIA_NA_MIN_LENGTH = 12"
definition DHCPv6OptionIA_PD_MIN_LENGTH :: int where "DHCPv6OptionIA_PD_MIN_LENGTH = 12"
definition DHCPv6OptionIA_NAGetIAID :: "u8 list \<Rightarrow> u32 option" where "DHCPv6OptionIA_NAGetIAID ia_na = net_uint32_get ia_na"
definition DHCPv6OptionIA_NAGetT1 :: "u8 list \<Rightarrow> u32 option" where "DHCPv6OptionIA_NAGetT1 ia_na = net_uint32_get (drop 4 ia_na)"
definition DHCPv6OptionIA_NAGetT2 :: "u8 list \<Rightarrow> u32 option" where "DHCPv6OptionIA_NAGetT2 ia_na = net_uint32_get (drop 8 ia_na)"
definition DHCPv6OptionIA_PDGetIAID :: "u8 list \<Rightarrow> u32 option" where "DHCPv6OptionIA_PDGetIAID ia_pd = net_uint32_get ia_pd"
definition DHCPv6OptionIA_PDGetT1 :: "u8 list \<Rightarrow> u32 option" where "DHCPv6OptionIA_PDGetT1 ia_pd = net_uint32_get (drop 4 ia_pd)"
definition DHCPv6OptionIA_PDGetT2 :: "u8 list \<Rightarrow> u32 option" where "DHCPv6OptionIA_PDGetT2 ia_pd = net_uint32_get (drop 8 ia_pd)"

definition DHCPv6OptionIAADDR_MIN_LENGTH :: int where "DHCPv6OptionIAADDR_MIN_LENGTH = 24"
definition DHCPv6OptionIAADDRGetAddress :: "u8 list \<Rightarrow> u8 list option" where
  "DHCPv6OptionIAADDRGetAddress ia_addr = rdn ia_addr 0 16"
definition DHCPv6OptionIAADDRGetPreferredLifetime :: "u8 list \<Rightarrow> u32 option" where
  "DHCPv6OptionIAADDRGetPreferredLifetime ia_addr = net_uint32_get (drop 16 ia_addr)"
definition DHCPv6OptionIAADDRGetValidLifetime :: "u8 list \<Rightarrow> u32 option" where
  "DHCPv6OptionIAADDRGetValidLifetime ia_addr = net_uint32_get (drop 20 ia_addr)"

definition DHCPv6OptionIAPREFIX_MIN_LENGTH :: int where "DHCPv6OptionIAPREFIX_MIN_LENGTH = 25"
definition DHCPv6OptionIAPREFIXGetPreferredLifetime :: "u8 list \<Rightarrow> u32 option" where
  "DHCPv6OptionIAPREFIXGetPreferredLifetime ia_prefix = net_uint32_get ia_prefix"
definition DHCPv6OptionIAPREFIXGetValidLifetime :: "u8 list \<Rightarrow> u32 option" where
  "DHCPv6OptionIAPREFIXGetValidLifetime ia_prefix = net_uint32_get (drop 4 ia_prefix)"
definition DHCPv6OptionIAPREFIXGetPrefixLength :: "u8 list \<Rightarrow> u8 option" where
  "DHCPv6OptionIAPREFIXGetPrefixLength ia_prefix = rd ia_prefix 8"
definition DHCPv6OptionIAPREFIXGetPrefix :: "u8 list \<Rightarrow> u8 list option" where
  "DHCPv6OptionIAPREFIXGetPrefix ia_prefix = rdn ia_prefix 9 16"

text \<open>What the client builds with the functions that set these fields, in the order of the fields.\<close>

definition ia_bytes :: "u32 \<Rightarrow> u32 \<Rightarrow> u32 \<Rightarrow> u8 list" where
  "ia_bytes iaid t1 t2 = net_uint32_bytes iaid @ net_uint32_bytes t1 @ net_uint32_bytes t2"

definition iaaddr_bytes :: "u8 list \<Rightarrow> u32 \<Rightarrow> u32 \<Rightarrow> u8 list" where
  "iaaddr_bytes address preferred_lifetime valid_lifetime =
     address @ net_uint32_bytes preferred_lifetime @ net_uint32_bytes valid_lifetime"

definition iaprefix_bytes :: "u32 \<Rightarrow> u32 \<Rightarrow> u8 \<Rightarrow> u8 list \<Rightarrow> u8 list" where
  "iaprefix_bytes preferred_lifetime valid_lifetime prefix_length prefix =
     net_uint32_bytes preferred_lifetime @ net_uint32_bytes valid_lifetime @ prefix_length # prefix"

definition DHCPv6OptionSTATUS_CODE_MIN_LENGTH :: int where "DHCPv6OptionSTATUS_CODE_MIN_LENGTH = 2"
definition DHCPv6OptionSTATUS_CODEGetCode :: "u8 list \<Rightarrow> u16 option" where
  "DHCPv6OptionSTATUS_CODEGetCode status_p = net_uint16_get status_p"

abbreviation "kDHCPv6StatusCodeSuccess \<equiv> (0 :: u16)"
abbreviation "kDHCPv6StatusCodeFailure \<equiv> (1 :: u16)"
abbreviation "kDHCPv6StatusCodeNoAddrsAvail \<equiv> (2 :: u16)"
abbreviation "kDHCPv6StatusCodeNoBinding \<equiv> (3 :: u16)"
abbreviation "kDHCPv6StatusCodeNotOnLink \<equiv> (4 :: u16)"
abbreviation "kDHCPv6StatusCodeNoPrefixAvail \<equiv> (6 :: u16)"

text \<open>The names, in the order of the codes from 0 on.\<close>

definition status_code_texts :: "string list" where
  "status_code_texts =
     [''Success'', ''Failure'', ''NoAddrsAvail'', ''NoBinding'', ''NotOnLink'', ''UseMulticast'', ''NoPrefixAvail'',
      ''UnknownQueryType'', ''MalformedQuery'', ''NotConfigured'', ''NotAllowed'', ''QueryTerminated'', ''DataMissing'',
      ''CatchUpComplete'', ''NotSupported'', ''TLSConnectionRefused'', ''AddressInUse'', ''ConfigurationConflict'',
      ''MissingBindingInformation'', ''OutdatedBindingInformation'', ''ServerShuttingDown'', ''DNSUpdateNotSupported'',
      ''ExcessiveTimeSkew'']"

definition DHCPv6StatusCodeGetName :: "u16 \<Rightarrow> string" where
  "DHCPv6StatusCodeGetName code =
     (if unat code < length status_code_texts then status_code_texts ! unat code else ''<unknown>'')"

text \<open>Success, the code, and the message with its length.\<close>

definition DHCPv6OptionListGetStatusCode :: "opts6 \<Rightarrow> (bool \<times> u16 \<times> u8 list option \<times> int) option" where
  "DHCPv6OptionListGetStatusCode options = do {
     status_code \<leftarrow> DHCPv6OptionListGetOptionDataAndLength options kDHCPv6OPTION_STATUS_CODE 0;
     (case status_code of
        None \<Rightarrow> Some (True, kDHCPv6StatusCodeSuccess, None, 0)
      | Some (status_p, option_len, _) \<Rightarrow>
          if option_len \<ge> DHCPv6OptionSTATUS_CODE_MIN_LENGTH then do {
            code \<leftarrow> DHCPv6OptionSTATUS_CODEGetCode status_p;
            Some (True, code, Some (drop 2 status_p), option_len - DHCPv6OptionSTATUS_CODE_MIN_LENGTH) }
          else Some (False, kDHCPv6StatusCodeFailure, None, 0)) }"

fun dnr6_loop :: "nat \<Rightarrow> names_env \<Rightarrow> opts6 \<Rightarrow> nat \<Rightarrow> bool \<Rightarrow> server_entry list \<Rightarrow> (bool \<times> server_entry list) option" where
  "dnr6_loop 0 env options i success entries = None"
| "dnr6_loop (Suc n) env options i success entries =
     (if i < DHCPv6OptionListGetCount options then do {
        dnr \<leftarrow> DHCPv6OptionListGetOptionDataAndLength options kDHCPv6OPTION_V6_DNR i;
        (case dnr of
           None \<Rightarrow> Some (False, entries)
         | Some (dnr_data, dnr_data_len, i') \<Rightarrow>
             if dnr_data_len \<le> 0 then Some (False, entries)
             else do {
               encrypted_server \<leftarrow> DNSEncryptedServerEntryCreateWithDHCPv6Data env dnr_data dnr_data_len;
               (case encrypted_server of
                  None \<Rightarrow> Some (False, entries)
                | Some e \<Rightarrow> dnr6_loop n env options i' True (DNSEncryptedServerListAppendUniqueEntry entries e)) }) }
      else Some (success, entries))"

declare dnr6_loop.simps [simp del]

definition DHCPv6OptionDNRCopyAllDNSEncryptedServers :: "names_env \<Rightarrow> opts6 \<Rightarrow> server_entry list option option" where
  "DHCPv6OptionDNRCopyAllDNSEncryptedServers env options = do {
     (success, server_entries) \<leftarrow> dnr6_loop (Suc (DHCPv6OptionListGetCount options)) env options 0 False [];
     Some (if success then Some (ne_sort env server_entries) else None) }"

section \<open>Client identifiers (DHCPDUID.c, DHCPDUID.h)\<close>

abbreviation "kDHCPDUIDTypeLLT \<equiv> (1 :: u16)"
abbreviation "kDHCPDUIDTypeEN \<equiv> (2 :: u16)"
abbreviation "kDHCPDUIDTypeLL \<equiv> (3 :: u16)"
abbreviation "kDHCPDUIDTypeUUID \<equiv> (4 :: u16)"

definition DHCPDUIDTypeToString :: "u16 \<Rightarrow> string" where
  "DHCPDUIDTypeToString t =
     (let str = [''none'', ''LLT'', ''EN'', ''LL'', ''UUID''] in if unat t < length str then str ! unat t else ''<unknown>'')"

definition DHCPDUIDGetType :: "u8 list \<Rightarrow> u16 option" where "DHCPDUIDGetType duid = net_uint16_get duid"

text \<open>The lengths are the offsets of the last member, with one byte of it: 8, 6, 4, and 18 for a UUID.\<close>

definition DHCPDUIDIsValid :: "u8 list \<Rightarrow> int \<Rightarrow> bool option" where
  "DHCPDUIDIsValid duid duid_len =
     (if duid_len < 2 then Some False
      else do {
        t \<leftarrow> DHCPDUIDGetType duid;
        Some (if t = kDHCPDUIDTypeLLT then duid_len \<ge> 9
              else if t = kDHCPDUIDTypeEN then duid_len \<ge> 7
              else if t = kDHCPDUIDTypeLL then duid_len \<ge> 5
              else if t = kDHCPDUIDTypeUUID then duid_len \<ge> 18
              else False) })"

definition DHCPDUID_LLDataCreate :: "u8 list \<Rightarrow> nat \<Rightarrow> int \<Rightarrow> u8 list option" where
  "DHCPDUID_LLDataCreate ll_addr ll_len ll_type = do {
     addr \<leftarrow> rdn ll_addr 0 ll_len;
     Some (net_uint16_bytes kDHCPDUIDTypeLL @ net_uint16_bytes (word_of_int ll_type) @ addr) }"

text \<open>\<open>secs\<close> is the time since 2000.\<close>

definition DHCPDUID_LLTDataCreate :: "u8 list \<Rightarrow> nat \<Rightarrow> int \<Rightarrow> u32 \<Rightarrow> u8 list option" where
  "DHCPDUID_LLTDataCreate ll_addr ll_len ll_type secs = do {
     addr \<leftarrow> rdn ll_addr 0 ll_len;
     Some (net_uint16_bytes kDHCPDUIDTypeLLT @ net_uint16_bytes (word_of_int ll_type) @ net_uint32_bytes secs @ addr) }"

definition DHCPDUID_UUIDDataCreate :: "u8 list \<Rightarrow> u8 list" where
  "DHCPDUID_UUIDDataCreate uuid = net_uint16_bytes kDHCPDUIDTypeUUID @ uuid"

text \<open>The number is read as 32 bits and returned as 16.\<close>

definition DHCPDUID_ENGetEnterpriseNumber :: "u8 list \<Rightarrow> u16 option" where
  "DHCPDUID_ENGetEnterpriseNumber en = map_option ucast (net_uint32_get (drop 2 en))"

end
