(* ===== verification/DHCPv6OptionFacts.thy ===== *)
theory DHCPv6OptionFacts
  imports DHCPv6Options DNSServerFacts
begin

text \<open>
  What parsing DHCPv6 options gives, what looking for an option gives, and what an option area holds.
  A field is the code of an option with its data; \<open>wires\<close> is how fields are sent.
\<close>

section \<open>Fields and how they are sent\<close>

type_synonym field6 = "u16 \<times> u8 list"

definition wire6 :: "field6 \<Rightarrow> u8 list" where
  "wire6 f = net_uint16_bytes (fst f) @ net_uint16_bytes (word_of_nat (length (snd f))) @ snd f"

abbreviation wires :: "field6 list \<Rightarrow> u8 list" where
  "wires fs \<equiv> concat (map wire6 fs)"

definition field_ok :: "field6 \<Rightarrow> bool" where
  "field_ok f \<longleftrightarrow> length (snd f) < 65536"

text \<open>A pointer to a whole option, and the field there.\<close>

definition code6 :: "u8 list \<Rightarrow> u16" where
  "code6 p = the (DHCPv6OptionGetCode p)"

definition len6 :: "u8 list \<Rightarrow> nat" where
  "len6 p = unat (the (DHCPv6OptionGetLength p))"

definition opt6_ok :: "u8 list \<Rightarrow> bool" where
  "opt6_ok p \<longleftrightarrow> 4 + len6 p \<le> length p"

definition field6 :: "u8 list \<Rightarrow> field6" where
  "field6 p = (code6 p, take (len6 p) (drop 4 p))"

definition opts6_ok :: "opts6 \<Rightarrow> bool" where
  "opts6_ok options \<longleftrightarrow> ptrlist_ok options \<and> (\<forall>p \<in> set (elems options). opt6_ok p)"

definition fields6 :: "opts6 \<Rightarrow> field6 list" where
  "fields6 options = map field6 (elems options)"

lemma header6:
  assumes "4 \<le> length p"
  shows "DHCPv6OptionGetCode p = Some (code6 p)" "DHCPv6OptionGetLength p = Some (word_of_nat (len6 p))"
proof -
  have "2 \<le> length p" "2 \<le> length (drop 2 p)" using assms by simp_all
  then show "DHCPv6OptionGetCode p = Some (code6 p)" "DHCPv6OptionGetLength p = Some (word_of_nat (len6 p))"
    using net_uint16_get_defined [of p] net_uint16_get_defined [of "drop 2 p"]
    by (auto simp: code6_def len6_def DHCPv6OptionGetCode_def DHCPv6OptionGetLength_def)
qed

lemma opt6_header:
  assumes "opt6_ok p"
  shows "DHCPv6OptionGetCode p = Some (code6 p)" "DHCPv6OptionGetLength p = Some (word_of_nat (len6 p))"
  using header6 [of p] assms by (simp_all add: opt6_ok_def)

lemma len6_less: "len6 p < 65536"
  using unat_u16 by (simp add: len6_def)

lemma wire6_ptr:
  assumes "field_ok f"
  shows "opt6_ok (wire6 f @ rest)" "field6 (wire6 f @ rest) = f" "length (wire6 f) = 4 + length (snd f)"
    "len6 (wire6 f @ rest) = length (snd f)"
proof -
  have c: "code6 (wire6 f @ rest) = fst f" by (simp add: code6_def DHCPv6OptionGetCode_def wire6_def)
  show l: "len6 (wire6 f @ rest) = length (snd f)"
    using assms uint_of_nat_u16(2) by (simp add: len6_def DHCPv6OptionGetLength_def wire6_def field_ok_def)
  show "length (wire6 f) = 4 + length (snd f)" by (simp add: wire6_def)
  show "opt6_ok (wire6 f @ rest)" by (simp add: opt6_ok_def l) (simp add: wire6_def)
  show "field6 (wire6 f @ rest) = f" using c l by (simp add: field6_def) (simp add: wire6_def)
qed

lemma field6_len: "opt6_ok p \<Longrightarrow> length (snd (field6 p)) = len6 p"
  by (simp add: field6_def opt6_ok_def)

lemma opt6_wire:
  assumes "opt6_ok p"
  shows "p = wire6 (field6 p) @ drop (4 + len6 p) p" "field_ok (field6 p)"
proof -
  have l: "4 \<le> length p" "len6 p \<le> length (drop 4 p)" using assms by (simp_all add: opt6_ok_def)
  obtain a b c d rest where p: "p = a # b # c # d # rest"
    using l(1) by (auto simp: numeral_eq_Suc Suc_le_length_iff)
  have j: "net_uint16_bytes (push_bit 8 (ucast x) OR ucast y) = [x, y]" for x y :: u8
    unfolding net_uint16_bytes_def
    by (intro list.rel_eq [THEN fun_cong, THEN fun_cong, THEN iffD1] list.rel_intros bit_word_eqI) (auto simp: bit_simps dest: bit_imp_le_length)
  have "code6 p = push_bit 8 (ucast a) OR ucast b" "the (DHCPv6OptionGetLength p) = push_bit 8 (ucast c) OR ucast d"
    by (simp_all add: code6_def DHCPv6OptionGetCode_def DHCPv6OptionGetLength_def net_uint16_get_def rd_def p)
  moreover have "word_of_nat (len6 p) = the (DHCPv6OptionGetLength p)" by (simp add: len6_def)
  ultimately have "net_uint16_bytes (code6 p) = [a, b]" "net_uint16_bytes (word_of_nat (len6 p)) = [c, d]" using j by simp_all
  moreover have d4: "drop 4 p = rest" by (simp add: p)
  moreover have d: "drop (4 + len6 p) p = drop (len6 p) rest" using drop_drop [of "len6 p" 4 p] d4 by (simp add: add.commute)
  ultimately show "p = wire6 (field6 p) @ drop (4 + len6 p) p" using l(2) d4 unfolding d by (simp add: wire6_def field6_def min_absorb2) (simp add: p)
  show "field_ok (field6 p)" using len6_less [of p] by (simp add: field_ok_def field6_def)
qed

section \<open>Parsing\<close>

fun pointers6 :: "u8 list \<Rightarrow> field6 list \<Rightarrow> u8 list list" where
  "pointers6 scan [] = []"
| "pointers6 scan (f # fs) = scan # pointers6 (drop (length (wire6 f)) scan) fs"

lemma pointers6_ok: "\<forall>f \<in> set fs. field_ok f \<Longrightarrow>
    (\<forall>p \<in> set (pointers6 (wires fs @ rest) fs). opt6_ok p) \<and> map field6 (pointers6 (wires fs @ rest) fs) = fs"
  by (induction fs) (simp_all add: wire6_ptr)

lemma parse6_unfold:
  assumes "4 \<le> left" "4 \<le> length scan"
  shows "parse6_loop options scan left =
    (if left < int (4 + len6 scan) then Some (False, ptrlist_free options)
     else do { (_, options') \<leftarrow> ptrlist_add True options scan;
       parse6_loop options' (drop (4 + len6 scan) scan) (left - int (4 + len6 scan)) })"
proof -
  have c: "\<not> (0 \<le> left \<and> left < DHCPV6_OPTION_HEADER_SIZE)" using assms by (simp add: DHCPV6_OPTION_HEADER_SIZE_def)
  have n: "DHCPV6_OPTION_HEADER_SIZE + uint (word_of_nat (len6 scan) :: u16) = int (4 + len6 scan)"
    unfolding uint_of_nat_u16(1) [OF len6_less] DHCPV6_OPTION_HEADER_SIZE_def by simp
  show ?thesis
    by (subst parse6_loop.simps) (simp only: if_not_P [OF c] header6 [OF assms(2)] bind.bind_lunit Let_def n nat_int)
qed

lemma parse6_complete:
  assumes "\<forall>f \<in> set fs. field_ok f" "ptrlist_ok options"
  shows "\<exists>options'. parse6_loop options (wires fs @ rest) (int (length (wires fs))) = Some (True, options') \<and>
    ptrlist_ok options' \<and> elems options' = elems options @ pointers6 (wires fs @ rest) fs"
  using assms
proof (induction fs arbitrary: options)
  case Nil
  then show ?case by (subst parse6_loop.simps) (simp add: DHCPV6_OPTION_HEADER_SIZE_def)
next
  case (Cons f fs)
  let ?scan = "wire6 f @ wires fs @ rest"
  have f: "field_ok f" using Cons.prems(1) by simp
  note w = wire6_ptr(3) [OF f] wire6_ptr(4) [OF f, of "wires fs @ rest"]
  obtain o1 where o1: "ptrlist_add True options ?scan = Some (True, o1)" "ptrlist_ok o1" "elems o1 = elems options @ [?scan]"
    by (rule ptrlist_add_ok [OF Cons.prems(2)])
  have l: "4 \<le> int (length (wires (f # fs)))" "4 \<le> length ?scan" using w(1) by simp_all
  have d: "drop (4 + len6 ?scan) ?scan = wires fs @ rest" using w by simp
  have k: "int (length (wires (f # fs))) - int (4 + len6 ?scan) = int (length (wires fs))" using w by simp
  have c: "\<not> int (length (wires (f # fs))) < int (4 + len6 ?scan)" using w by simp
  have "parse6_loop options (wires (f # fs) @ rest) (int (length (wires (f # fs)))) = parse6_loop o1 (wires fs @ rest) (int (length (wires fs)))"
    using parse6_unfold [OF l, of options] unfolding if_not_P [OF c] o1(1) d k by simp
  then show ?case using Cons.IH [of o1] Cons.prems(1) o1(2,3) w(1) by auto
qed

lemma parse6_sound:
  assumes "ptrlist_ok options" "n \<le> length scan"
  shows "\<exists>success options'. parse6_loop options scan (int n) = Some (success, options') \<and>
    (success \<longrightarrow> (\<exists>fs. take n scan = wires fs \<and> (\<forall>f \<in> set fs. field_ok f)))"
  using assms
proof (induction n arbitrary: scan options rule: less_induct)
  case (less n)
  consider "n = 0" | "0 < n" "n < 4" | "4 \<le> n" by linarith
  then show ?case
  proof cases
    case 1
    have "take n scan = wires [] \<and> (\<forall>f \<in> set []. field_ok f)" using 1 by simp
    moreover have "parse6_loop options scan (int n) = Some (True, options)"
      using 1 by (subst parse6_loop.simps) (simp add: DHCPV6_OPTION_HEADER_SIZE_def)
    ultimately show ?thesis by blast
  next
    case 2
    then have "parse6_loop options scan (int n) = Some (False, ptrlist_free options)"
      by (subst parse6_loop.simps) (simp add: DHCPV6_OPTION_HEADER_SIZE_def)
    then show ?thesis by blast
  next
    case 3
    have l: "4 \<le> int n" "4 \<le> length scan" using 3 less.prems(2) by simp_all
    note u = parse6_unfold [OF l, of options]
    show ?thesis
    proof (cases "n < 4 + len6 scan")
      case True
      then have "parse6_loop options scan (int n) = Some (False, ptrlist_free options)" using u by simp
      then show ?thesis by blast
    next
      case False
      let ?k = "4 + len6 scan"
      have ok: "opt6_ok scan" using False less.prems(2) by (simp add: opt6_ok_def)
      obtain o1 where o1: "ptrlist_add True options scan = Some (True, o1)" "ptrlist_ok o1"
        by (rule ptrlist_add_ok [OF less.prems(1)])
      have c: "\<not> int n < int ?k" and k: "int n - int ?k = int (n - ?k)" using False by auto
      have e: "parse6_loop options scan (int n) = parse6_loop o1 (drop ?k scan) (int (n - ?k))"
        using u unfolding if_not_P [OF c] o1(1) k by simp
      have "n - ?k < n" "n - ?k \<le> length (drop ?k scan)" using False less.prems(2) by auto
      from less.IH [OF this(1) o1(2) this(2)] obtain success options' where
        p: "parse6_loop o1 (drop ?k scan) (int (n - ?k)) = Some (success, options')"
        "success \<longrightarrow> (\<exists>fs. take (n - ?k) (drop ?k scan) = wires fs \<and> (\<forall>f \<in> set fs. field_ok f))" by blast
      have w: "length (wire6 (field6 scan)) = ?k"
        using wire6_ptr(3) [OF opt6_wire(2) [OF ok]] field6_len [OF ok] by simp
      have t: "take n scan = wire6 (field6 scan) @ take (n - ?k) (drop ?k scan)"
        using arg_cong [OF opt6_wire(1) [OF ok], of "take n"] False w by simp
      have "\<exists>fs. take n scan = wires fs \<and> (\<forall>f \<in> set fs. field_ok f)" if s: success
      proof -
        obtain fs where "take (n - ?k) (drop ?k scan) = wires fs" "\<forall>f \<in> set fs. field_ok f" using p(2) s by blast
        then have "take n scan = wires (field6 scan # fs) \<and> (\<forall>f \<in> set (field6 scan # fs). field_ok f)"
          using t opt6_wire(2) [OF ok] by simp
        then show ?thesis by blast
      qed
      then show ?thesis using e p(1) by auto
    qed
  qed
qed

text \<open>Creating a list of the first \<open>n\<close> bytes at \<open>buf\<close>.\<close>

lemma list_create:
  assumes "n \<le> length buf"
  obtains (bad) "DHCPv6OptionListCreate buf (int n) = Some None" "\<nexists>fs. take n buf = wires fs \<and> (\<forall>f \<in> set fs. field_ok f)"
  | (good) options fs where "DHCPv6OptionListCreate buf (int n) = Some (Some options)" "opts6_ok options" "fields6 options = fs"
      "take n buf = wires fs" "\<forall>f \<in> set fs. field_ok f" "elems options = pointers6 buf fs"
proof (cases "\<exists>fs. take n buf = wires fs \<and> (\<forall>f \<in> set fs. field_ok f)")
  case True
  then obtain fs where fs: "take n buf = wires fs" "\<forall>f \<in> set fs. field_ok f" by blast
  have b: "buf = wires fs @ drop n buf" using fs(1) by (metis append_take_drop_id)
  have n: "int n = int (length (wires fs))" using arg_cong [OF fs(1), of length] assms by simp
  obtain options where "parse6_loop ptrlist_init buf (int n) = Some (True, options)" "ptrlist_ok options" "elems options = pointers6 buf fs"
    using parse6_complete [OF fs(2) ptrlist_ok_init, of "drop n buf"] n b by auto
  moreover have "(\<forall>p \<in> set (pointers6 buf fs). opt6_ok p) \<and> map field6 (pointers6 buf fs) = fs"
    using pointers6_ok [OF fs(2), of "drop n buf"] b by simp
  ultimately show ?thesis
    using good [of options fs] fs by (simp add: DHCPv6OptionListCreate_def DHCPv6OptionListParse_def opts6_ok_def fields6_def)
next
  case False
  then show ?thesis
    using bad parse6_sound [OF ptrlist_ok_init assms] by (auto simp: DHCPv6OptionListCreate_def DHCPv6OptionListParse_def)
qed

lemma wires_inj:
  "wires fs = wires gs \<Longrightarrow> \<forall>f \<in> set fs. field_ok f \<Longrightarrow> \<forall>g \<in> set gs. field_ok g \<Longrightarrow> fs = gs"
proof (induction fs arbitrary: gs)
  case Nil
  then show ?case by (cases gs) (simp_all add: wire6_def net_uint16_bytes_def)
next
  case (Cons f fs)
  obtain g gs' where g: "gs = g # gs'" using Cons.prems by (cases gs) (simp_all add: wire6_def net_uint16_bytes_def)
  have e: "wire6 f @ wires fs = wire6 g @ wires gs'" using Cons.prems(1) g by simp
  have "f = g"
    using wire6_ptr(2) [of f "wires fs"] wire6_ptr(2) [of g "wires gs'"] Cons.prems(2,3) e g by simp
  then show ?case using Cons.IH [of gs'] Cons.prems e g by simp
qed

section \<open>Looking for an option\<close>

fun pick6 :: "nat \<Rightarrow> u8 list list \<Rightarrow> u16 \<Rightarrow> (u8 list \<times> int \<times> nat) option" where
  "pick6 i [] code = None"
| "pick6 i (p # ps) code = (if code6 p = code then Some (drop 4 p, int (len6 p), Suc i) else pick6 (Suc i) ps code)"

lemma opts6_count: "opts6_ok options \<Longrightarrow> DHCPv6OptionListGetCount options = length (elems options)"
  by (simp add: opts6_ok_def ptrlist_count_ok DHCPv6OptionListGetCount_def)

lemma option6_from_ok:
  assumes "opts6_ok options"
  shows "n + i = length (elems options) \<Longrightarrow> option6_from n i options code = Some (pick6 i (drop i (elems options)) code)"
proof (induction n arbitrary: i)
  case (Suc n)
  have i: "i < length (elems options)" using Suc.prems by simp
  let ?p = "elems options ! i"
  have ok: "opt6_ok ?p" using assms i by (simp add: opts6_ok_def)
  have e: "DHCPv6OptionListGetOptionAtIndex options (int i) = Some (Some ?p)"
    using assms i by (simp add: DHCPv6OptionListGetOptionAtIndex_def opts6_ok_def ptrlist_element_ok)
  have d: "drop i (elems options) = ?p # drop (Suc i) (elems options)" using i by (simp add: Cons_nth_drop_Suc)
  show ?case
    unfolding option6_from.simps e bind.bind_lunit opt6_header [OF ok] d pick6.simps DHCPv6OptionGetData_def uint_of_nat_u16(1) [OF len6_less]
    using Suc.IH [of "Suc i"] Suc.prems by simp
qed simp

lemma get_option:
  assumes "opts6_ok options" "start \<le> length (elems options)"
  shows "DHCPv6OptionListGetOptionDataAndLength options code start = Some (pick6 start (drop start (elems options)) code)"
  using option6_from_ok [OF assms(1), of "length (elems options) - start" start] assms
  by (simp add: DHCPv6OptionListGetOptionDataAndLength_def opts6_count)

lemma get_option_end:
  assumes "opts6_ok options" "length (elems options) \<le> start"
  shows "DHCPv6OptionListGetOptionDataAndLength options code start = Some None"
  using assms by (simp add: DHCPv6OptionListGetOptionDataAndLength_def opts6_count)

lemma pick6_some:
  assumes "pick6 i ps code = Some (d, n, j)" "\<forall>p \<in> set ps. opt6_ok p"
  shows "i < j \<and> j \<le> i + length ps \<and> 0 \<le> n \<and> n \<le> int (length d) \<and> n < 65536 \<and>
    field6 (ps ! (j - Suc i)) = (code, take (nat n) d) \<and> (\<forall>k < j - Suc i. code6 (ps ! k) \<noteq> code)"
  using assms
proof (induction ps arbitrary: i)
  case (Cons p ps)
  show ?case
  proof (cases "code6 p = code")
    case True
    then show ?thesis using Cons.prems len6_less [of p] by (auto simp: opt6_ok_def field6_def)
  next
    case False
    then have r: "pick6 (Suc i) ps code = Some (d, n, j)" using Cons.prems(1) by simp
    note h = Cons.IH [OF r]
    then have "j - Suc i = Suc (j - Suc (Suc i))" using Cons.prems(2) by auto
    then show ?thesis using h Cons.prems(2) False by (auto simp: less_Suc_eq_0_disj)
  qed
qed simp

lemma pick6_map_of: "\<forall>p \<in> set ps. opt6_ok p \<Longrightarrow>
    map_option (\<lambda>(d, n, j). take (nat n) d) (pick6 i ps code) = map_of (map field6 ps) code"
  by (induction ps arbitrary: i) (auto simp: field6_def)

text \<open>The option that is found is the first field with the code.\<close>

lemma get_option_first:
  assumes "opts6_ok options"
  obtains r where "DHCPv6OptionListGetOptionDataAndLength options code 0 = Some r"
    "map_option (\<lambda>(d, n, j). take (nat n) d) r = map_of (fields6 options) code"
    "\<And>d n j. r = Some (d, n, j) \<Longrightarrow> 0 \<le> n \<and> n \<le> int (length d) \<and> n < 65536"
proof (rule that [of "pick6 0 (elems options) code"])
  show "DHCPv6OptionListGetOptionDataAndLength options code 0 = Some (pick6 0 (elems options) code)"
    using get_option [OF assms, of 0] by simp
  have ok: "\<forall>p \<in> set (elems options). opt6_ok p" using assms by (simp add: opts6_ok_def)
  show "map_option (\<lambda>(d, n, j). take (nat n) d) (pick6 0 (elems options) code) = map_of (fields6 options) code"
    using pick6_map_of [OF ok] by (simp add: fields6_def)
  show "0 \<le> n \<and> n \<le> int (length d) \<and> n < 65536" if "pick6 0 (elems options) code = Some (d, n, j)" for d n j
    using pick6_some [OF that ok] by simp
qed

lemma status_code:
  assumes "opts6_ok options"
  shows "\<exists>success code msg n. DHCPv6OptionListGetStatusCode options = Some (success, code, msg, n) \<and>
    (map_of (fields6 options) kDHCPv6OPTION_STATUS_CODE = None \<longrightarrow> success \<and> code = kDHCPv6StatusCodeSuccess)"
proof (rule get_option_first [OF assms, of kDHCPv6OPTION_STATUS_CODE])
  fix r
  assume r: "DHCPv6OptionListGetOptionDataAndLength options kDHCPv6OPTION_STATUS_CODE 0 = Some r"
    "map_option (\<lambda>(d, n, j). take (nat n) d) r = map_of (fields6 options) kDHCPv6OPTION_STATUS_CODE"
    "\<And>d n j. r = Some (d, n, j) \<Longrightarrow> 0 \<le> n \<and> n \<le> int (length d) \<and> n < 65536"
  show ?thesis
  proof (cases r)
    case None
    then show ?thesis using r(1) by (auto simp: DHCPv6OptionListGetStatusCode_def)
  next
    case (Some x)
    obtain d n j where x: "r = Some (d, n, j)" using Some by (cases x) auto
    then have "2 \<le> n \<Longrightarrow> 2 \<le> length d" using r(3) by fastforce
    then have "2 \<le> n \<Longrightarrow> \<exists>c. net_uint16_get d = Some c" using net_uint16_get_defined by blast
    moreover have "map_of (fields6 options) kDHCPv6OPTION_STATUS_CODE = Some (take (nat n) d)" using r(2) x by simp
    ultimately show ?thesis using r(1) x
      by (auto simp: DHCPv6OptionListGetStatusCode_def DHCPv6OptionSTATUS_CODE_MIN_LENGTH_def DHCPv6OptionSTATUS_CODEGetCode_def
          exI [of "\<lambda>a. a" True])
  qed
qed

section \<open>Areas\<close>

definition area6_holds :: "option_area6 \<Rightarrow> field6 list \<Rightarrow> bool" where
  "area6_holds oa fs \<longleftrightarrow> (\<forall>f \<in> set fs. field_ok f) \<and> oa6_used oa = int (length (wires fs)) \<and>
     oa6_size oa = int (length (oa6_buf oa)) \<and> length (wires fs) \<le> length (oa6_buf oa) \<and>
     take (length (wires fs)) (oa6_buf oa) = wires fs"

lemma area6_init: "area6_holds (DHCPv6OptionAreaInit buf (int (length buf))) []"
  by (simp add: area6_holds_def DHCPv6OptionAreaInit_def)

lemma wrn_end: "i = length pre \<Longrightarrow> length xs \<le> length rest \<Longrightarrow> wrn (pre @ rest) i xs = Some ((pre @ xs) @ drop (length xs) rest)"
  by (simp add: wrn_def)

text \<open>An option is added behind the others when there is room, and nothing changes when there is not.\<close>

lemma area6_add:
  assumes "area6_holds oa fs" "length data < 65536" "n = length data"
  shows "DHCPv6OptionAreaAddOption oa code (word_of_nat n) data =
    Some (if length (wires fs) + 4 + n \<le> length (oa6_buf oa)
      then (True, oa\<lparr>oa6_buf := wires (fs @ [(code, data)]) @ drop (length (wires fs) + 4 + n) (oa6_buf oa),
                     oa6_used := int (length (wires fs) + 4 + n)\<rparr>)
      else (False, oa))"
proof -
  let ?w = "length (wires fs)"
  have b: "oa6_buf oa = wires fs @ drop ?w (oa6_buf oa)" and u: "oa6_used oa = int ?w" and s: "oa6_size oa = int (length (oa6_buf oa))"
    using assms(1) by (simp_all add: area6_holds_def) (metis append_take_drop_id)
  have n: "uint (word_of_nat n :: u16) = int n" "unat (word_of_nat n :: u16) = n" using uint_of_nat_u16 assms(2,3) by simp_all
  show ?thesis
  proof (cases "?w + 4 + n \<le> length (oa6_buf oa)")
    case False
    then have "oa6_size oa - oa6_used oa < DHCPV6_OPTION_HEADER_SIZE + int n" by (simp add: s u DHCPV6_OPTION_HEADER_SIZE_def)
    then show ?thesis using False by (simp add: DHCPv6OptionAreaAddOption_def n)
  next
    case True
    have nl: "\<not> oa6_size oa - oa6_used oa < DHCPV6_OPTION_HEADER_SIZE + int n" using True by (simp add: s u DHCPV6_OPTION_HEADER_SIZE_def)
    define rest where "rest = drop ?w (oa6_buf oa)"
    have r: "4 + n \<le> length rest" using True by (simp add: rest_def)
    let ?c = "net_uint16_bytes code" and ?l = "net_uint16_bytes (word_of_nat n)"
    have w1: "wrn (oa6_buf oa) ?w ?c = Some ((wires fs @ ?c) @ drop 2 rest)"
      by (subst b) (use wrn_end [of ?w "wires fs" ?c rest] r in \<open>simp add: rest_def\<close>)
    have w2: "wrn ((wires fs @ ?c) @ drop 2 rest) (?w + 2) ?l = Some ((wires fs @ ?c @ ?l) @ drop 4 rest)"
      using wrn_end [of "?w + 2" "wires fs @ ?c" ?l "drop 2 rest"] r by simp
    have w3: "wrn ((wires fs @ ?c @ ?l) @ drop 4 rest) (?w + 4) data = Some (wires (fs @ [(code, data)]) @ drop (4 + n) rest)"
      using wrn_end [of "?w + 4" "wires fs @ ?c @ ?l" data "drop 4 rest"] r assms(3) by (simp add: wire6_def add.commute)
    have d: "rdn data 0 n = Some data" using assms(3) by (simp add: rdn_def)
    have z: "(word_of_nat n :: u16) > 0 \<longleftrightarrow> 0 < n" by (simp only: word_less_nat_alt unat_0 n)
    have b3: "(if (word_of_nat n :: u16) > 0 then do { x \<leftarrow> rdn data 0 n; wrn ((wires fs @ ?c @ ?l) @ drop 4 rest) (?w + 4) x }
        else Some ((wires fs @ ?c @ ?l) @ drop 4 rest)) = Some (wires (fs @ [(code, data)]) @ drop (4 + n) rest)"
      using z d w3 assms(3) by (cases "n = 0") (auto simp: wire6_def)
    have k: "nat (oa6_used oa) = ?w" by (simp add: u)
    have e: "oa6_used oa + (DHCPV6_OPTION_HEADER_SIZE + int n) = int (?w + 4 + n)" by (simp add: u DHCPV6_OPTION_HEADER_SIZE_def)
    have dr: "drop (4 + n) rest = drop (?w + 4 + n) (oa6_buf oa)" by (simp add: rest_def add.commute add.left_commute)
    show ?thesis
      unfolding DHCPv6OptionAreaAddOption_def Let_def n if_not_P [OF nl] k w1 w2 bind.bind_lunit b3 e dr using True by simp
  qed
qed

lemma area6_add_cases:
  assumes "area6_holds oa fs" "length data < 65536" "n = length data"
  obtains (added) oa' where "DHCPv6OptionAreaAddOption oa code (word_of_nat n) data = Some (True, oa')" "area6_holds oa' (fs @ [(code, data)])"
    "length (oa6_buf oa') = length (oa6_buf oa)" "length (wires fs) + 4 + n \<le> length (oa6_buf oa)"
  | (full) "DHCPv6OptionAreaAddOption oa code (word_of_nat n) data = Some (False, oa)" "length (oa6_buf oa) < length (wires fs) + 4 + n"
proof (cases "length (wires fs) + 4 + n \<le> length (oa6_buf oa)")
  case True
  let ?oa = "oa\<lparr>oa6_buf := wires (fs @ [(code, data)]) @ drop (length (wires fs) + 4 + n) (oa6_buf oa),
     oa6_used := int (length (wires fs) + 4 + n)\<rparr>"
  have l: "length (wire6 (code, data)) = 4 + n" using assms(3) by (simp add: wire6_def)
  have "area6_holds ?oa (fs @ [(code, data)])"
    using assms True l by (auto simp: area6_holds_def field_ok_def)
  moreover have "length (oa6_buf ?oa) = length (oa6_buf oa)" using True l by simp
  ultimately show ?thesis using added [of ?oa] area6_add [OF assms, of code] True by simp
next
  case False
  then show ?thesis using full area6_add [OF assms, of code] by simp
qed

section \<open>Encrypted DNS servers\<close>

lemma dnr6_loop_ok:
  assumes "opts6_ok options" "i \<le> length (elems options)" "length (elems options) < i + n"
  shows "\<exists>r. dnr6_loop n env options i success es = Some r \<and>
    (elems options \<noteq> [] \<and> code6 (last (elems options)) \<noteq> kDHCPv6OPTION_V6_DNR \<and> i < length (elems options) \<longrightarrow> \<not> fst r)"
  using assms(2,3)
proof (induction n arbitrary: i success es)
  case (Suc n)
  let ?os = "elems options"
  note u = dnr6_loop.simps(2) [of n env options i success es] opts6_count [OF assms(1)]
  show ?case
  proof (cases "i < length ?os")
    case False
    then show ?thesis by (auto simp: u)
  next
    case True
    have g: "DHCPv6OptionListGetOptionDataAndLength options kDHCPv6OPTION_V6_DNR i = Some (pick6 i (drop i ?os) kDHCPv6OPTION_V6_DNR)"
      using get_option [OF assms(1) Suc.prems(1)] .
    show ?thesis
    proof (cases "pick6 i (drop i ?os) kDHCPv6OPTION_V6_DNR")
      case None
      then show ?thesis using g True by (auto simp: u)
    next
      case (Some x)
      obtain d m j where x: "pick6 i (drop i ?os) kDHCPv6OPTION_V6_DNR = Some (d, m, j)" using Some by (cases x) auto
      have "\<forall>p \<in> set (drop i ?os). opt6_ok p" using assms(1) by (auto simp: opts6_ok_def dest: in_set_dropD)
      from pick6_some [OF x this] True have j: "i < j" "j \<le> length ?os" "0 \<le> m" "m \<le> int (length d)"
        "field6 (drop i ?os ! (j - Suc i)) = (kDHCPv6OPTION_V6_DNR, take (nat m) d)" by auto
      have c: "code6 (?os ! (j - 1)) = kDHCPv6OPTION_V6_DNR" using j(1,2,5) True by (simp add: field6_def)
      have lst: "j < length ?os" if "code6 (last ?os) \<noteq> kDHCPv6OPTION_V6_DNR"
      proof (rule ccontr)
        assume "\<not> j < length ?os"
        moreover have "?os \<noteq> []" using True by auto
        ultimately have "last ?os = ?os ! (j - 1)" using j(2) by (simp add: last_conv_nth)
        then show False using c that by simp
      qed
      obtain e where e: "DNSEncryptedServerEntryCreateWithDHCPv6Data env d m = Some e"
        using v6_ok [OF j(4), of env] by (auto simp: DNSEncryptedServerEntryCreateWithDHCPv6Data_def)
      show ?thesis
      proof (cases "m \<le> 0 \<or> e = None")
        case True
        then show ?thesis using g x e \<open>i < length ?os\<close> by (auto simp: u)
      next
        case False
        then obtain e' where e': "e = Some e'" by blast
        have "length ?os < j + n" using Suc.prems(2) j(1) by simp
        from Suc.IH [OF j(2) this, of True "DNSEncryptedServerListAppendUniqueEntry es e'"]
        show ?thesis using g x e e' False \<open>i < length ?os\<close> lst by (auto simp: u)
      qed
    qed
  qed
qed simp

lemma dnr6_ok:
  assumes "opts6_ok options"
  shows "\<exists>r. DHCPv6OptionDNRCopyAllDNSEncryptedServers env options = Some r \<and>
    (elems options \<noteq> [] \<and> code6 (last (elems options)) \<noteq> kDHCPv6OPTION_V6_DNR \<longrightarrow> r = None)"
proof -
  obtain success es where "dnr6_loop (Suc (length (elems options))) env options 0 False [] = Some (success, es)"
    "elems options \<noteq> [] \<and> code6 (last (elems options)) \<noteq> kDHCPv6OPTION_V6_DNR \<longrightarrow> \<not> success"
    using dnr6_loop_ok [OF assms, of 0 "Suc (length (elems options))" env False "[]"] by auto
  then show ?thesis by (simp add: DHCPv6OptionDNRCopyAllDNSEncryptedServers_def opts6_count [OF assms])
qed

section \<open>Properties of options and packets\<close>

text \<open>What the parser makes of any bytes: whole options, or nothing.\<close>

lemma parsed_fields:
  assumes "n \<le> length buf"
  shows "\<exists>r. DHCPv6OptionListCreate buf (int n) = Some r \<and> (\<forall>options. r = Some options \<longrightarrow> opts6_ok options) \<and>
    ((\<exists>options. r = Some options \<and> fields6 options = fs) \<longleftrightarrow> take n buf = wires fs \<and> (\<forall>f \<in> set fs. field_ok f))"
  using assms
proof (cases rule: list_create)
  case bad
  then show ?thesis by auto
next
  case (good options gs)
  then show ?thesis using wires_inj [of fs gs] by auto
qed

text \<open>C28. Any bytes can be parsed: the result is a list exactly when the bytes are a row of whole options,
  and then it has these options in their order.\<close>

theorem options6_refine:
  assumes "n \<le> length buf"
  shows "\<exists>r. DHCPv6OptionListCreate buf (int n) = Some r \<and> (\<forall>options. r = Some options \<longrightarrow> opts6_ok options) \<and>
    ((\<exists>options. r = Some options \<and> fields6 options = fs) \<longleftrightarrow> take n buf = wires fs \<and> (\<forall>f \<in> set fs. field_ok f))"
  using assms by (rule parsed_fields)

theorem options6_refine_witness:
  "\<exists>r. DHCPv6OptionListCreate [0, 8, 0, 2, 1, 2, 9] (int 6) = Some r \<and> (\<exists>options. r = Some options \<and> fields6 options = [(8, [1, 2])])"
proof -
  have "take 6 [0, 8, 0, 2, 1, 2, 9] = wires [(8, [1, 2])]" "\<forall>f \<in> set [(8 :: u16, [1, 2 :: u8])]. field_ok f"
    by (simp_all add: wire6_def net_uint16_bytes_def field_ok_def)
  then show ?thesis using options6_refine [of 6 "[0, 8, 0, 2, 1, 2, 9]" "[(8, [1, 2])]"] by auto
qed

fun add_fields6 :: "option_area6 \<Rightarrow> field6 list \<Rightarrow> option_area6 option" where
  "add_fields6 oa [] = Some oa"
| "add_fields6 oa (f # fs) = do {
     (ok, oa') \<leftarrow> DHCPv6OptionAreaAddOption oa (fst f) (word_of_nat (length (snd f))) (snd f);
     if ok then add_fields6 oa' fs else None }"

lemma add_fields6_ok:
  assumes "area6_holds oa gs" "\<forall>f \<in> set fs. field_ok f" "length (wires (gs @ fs)) \<le> length (oa6_buf oa)"
  shows "\<exists>oa'. add_fields6 oa fs = Some oa' \<and> area6_holds oa' (gs @ fs) \<and> length (oa6_buf oa') = length (oa6_buf oa)"
  using assms
proof (induction fs arbitrary: oa gs)
  case (Cons f fs)
  have f: "length (snd f) < 65536" "length (wire6 f) = 4 + length (snd f)" using Cons.prems(2) wire6_ptr(3) by (auto simp: field_ok_def)
  from Cons.prems(1) f(1) refl show ?case
  proof (cases rule: area6_add_cases [where code = "fst f"])
    case (added oa')
    then have "length (wires ((gs @ [f]) @ fs)) \<le> length (oa6_buf oa')" using Cons.prems(3) by simp
    with Cons.IH [of oa' "gs @ [f]"] Cons.prems(2) added show ?thesis by auto
  next
    case full
    then show ?thesis using Cons.prems(3) f(2) by simp
  qed
qed simp

text \<open>C29. What was written into an area is read back from the bytes that are used.\<close>

theorem option_area6_roundtrip:
  assumes "\<forall>f \<in> set fs. field_ok f" "length (wires fs) \<le> length buf"
  shows "\<exists>oa options. add_fields6 (DHCPv6OptionAreaInit buf (int (length buf))) fs = Some oa \<and>
    DHCPv6OptionListCreate (oa6_buf oa) (DHCPv6OptionAreaGetUsedLength oa) = Some (Some options) \<and> fields6 options = fs"
proof -
  obtain oa where oa: "add_fields6 (DHCPv6OptionAreaInit buf (int (length buf))) fs = Some oa" "area6_holds oa fs"
    using add_fields6_ok [OF area6_init assms(1), of buf] assms(2) by (auto simp: DHCPv6OptionAreaInit_def)
  have l: "length (wires fs) \<le> length (oa6_buf oa)" and t: "take (length (wires fs)) (oa6_buf oa) = wires fs"
    and u: "DHCPv6OptionAreaGetUsedLength oa = int (length (wires fs))"
    using oa(2) by (simp_all add: area6_holds_def DHCPv6OptionAreaGetUsedLength_def)
  from parsed_fields [OF l, of fs] t assms(1) show ?thesis using oa(1) by (auto simp: u)
qed

theorem option_area6_roundtrip_witness:
  "\<exists>oa options. add_fields6 (DHCPv6OptionAreaInit (replicate 20 0) 20) [(1, [7, 8]), (8, [])] = Some oa \<and>
    DHCPv6OptionListCreate (oa6_buf oa) (DHCPv6OptionAreaGetUsedLength oa) = Some (Some options) \<and> fields6 options = [(1, [7, 8]), (8, [])]"
proof -
  have "\<forall>f \<in> set [(1 :: u16, [7, 8 :: u8]), (8, [])]. field_ok f" "length (wires [(1, [7, 8]), (8, [])]) \<le> length (replicate 20 (0 :: u8))"
    by (simp_all add: field_ok_def wire6_def)
  from option_area6_roundtrip [OF this] show ?thesis by simp
qed

theorem transaction_id_roundtrip:
  assumes "4 \<le> length pkt"
  shows "\<exists>pkt'. DHCPv6PacketSetTransactionID pkt xid = Some pkt' \<and> length pkt' = length pkt \<and> pkt' ! 0 = pkt ! 0 \<and>
    drop 4 pkt' = drop 4 pkt \<and> DHCPv6PacketGetTransactionID pkt' = Some (xid AND 0xffffff)"
proof -
  obtain a b c d rest where p: "pkt = a # b # c # d # rest"
    using assms by (auto simp: numeral_eq_Suc Suc_le_length_iff)
  have x: "push_bit 16 (ucast (ucast (drop_bit 16 xid) :: u8)) OR (push_bit 8 (ucast (ucast (drop_bit 8 xid) :: u8)) OR ucast (ucast xid :: u8))
      = xid AND (0xffffff :: u32)"
  proof (rule bit_word_eqI)
    fix n :: nat assume n: "n < LENGTH(32)"
    have "bit (0xffffff :: u32) n \<longleftrightarrow> n < 24"
    proof -
      have m: "(0xffffff :: u32) = mask 24" by (simp add: mask_eq_exp_minus_1)
      show ?thesis unfolding m bit_mask_iff using n by simp
    qed
    then show "bit (push_bit 16 (ucast (ucast (drop_bit 16 xid) :: u8)) OR (push_bit 8 (ucast (ucast (drop_bit 8 xid) :: u8)) OR ucast (ucast xid :: u8)) :: u32) n
        \<longleftrightarrow> bit (xid AND 0xffffff) n"
      using n by (cases "n < 8"; cases "n < 16"; cases "n < 24") (auto simp: bit_simps)
  qed
  show ?thesis using x
    by (simp add: p DHCPv6PacketSetTransactionID_def DHCPv6PacketGetTransactionID_def wrn_def rd_def net_uint32_bytes_def net_uint32_get_def)
qed

text \<open>The identifiers that are made are valid.\<close>

theorem made_duids_valid:
  assumes "0 < ll_len" "ll_len \<le> length ll_addr"
  shows "\<exists>d. DHCPDUID_LLDataCreate ll_addr ll_len ll_type = Some d \<and> DHCPDUIDIsValid d (int (length d)) = Some True"
    "\<exists>d. DHCPDUID_LLTDataCreate ll_addr ll_len ll_type secs = Some d \<and> DHCPDUIDIsValid d (int (length d)) = Some True"
    "length uuid = 16 \<Longrightarrow> DHCPDUIDIsValid (DHCPDUID_UUIDDataCreate uuid) (int (length (DHCPDUID_UUIDDataCreate uuid))) = Some True"
  using assms
  by (auto simp: DHCPDUID_LLDataCreate_def DHCPDUID_LLTDataCreate_def DHCPDUID_UUIDDataCreate_def DHCPDUIDIsValid_def
      DHCPDUIDGetType_def rdn_def Suc_le_eq)

end
