(* ===== verification/DHCPv6Socket.thy ===== *)
theory DHCPv6Socket
  imports Timer DHCPv6OptionFacts
begin

text \<open>
  The sockets of DHCPv6 clients (\<open>IPConfiguration.bproj/DHCPv6Socket.c\<close>).  All of them share one file
  descriptor: it is opened for the first that needs it, and closed a second after the last is done.  Closing
  takes two steps, because the dispatch source must be cancelled before.

  \<open>sg_read_fd\<close> is whether \<open>read_fd\<close> is not null; following it when it is null has no result.  The function
  that a socket calls with a packet is a value of any type.  Whether a socket can be opened is the next
  outcome of the world.
\<close>

section \<open>State\<close>

record socket_globals =
  sg_read_fd :: bool
  sg_read_fd_refcount :: int
  sg_timer_callout :: "unit timer_callout"
  sg_cancel_pending :: bool

record 'f dhcpv6_socket =
  sk_if_index :: nat
  sk_fd_open :: bool
  sk_transaction_id :: u32
  sk_receive_func :: "'f option"

text \<open>What the functions work on: the world, the globals and one socket.\<close>

record 'f sock_ctx =
  sx_world :: world
  sx_globals :: socket_globals
  sx_sock :: "'f dhcpv6_socket"

definition DHCPv6SocketCreateGlobals :: "world \<Rightarrow> socket_globals" where
  "DHCPv6SocketCreateGlobals w =
     \<lparr>sg_read_fd = False, sg_read_fd_refcount = 0, sg_timer_callout = timer_callout_init w, sg_cancel_pending = False\<rparr>"

definition DHCPv6SocketCreate :: "nat \<Rightarrow> 'f dhcpv6_socket" where
  "DHCPv6SocketCreate if_index = \<lparr>sk_if_index = if_index, sk_fd_open = False, sk_transaction_id = 0, sk_receive_func = None\<rparr>"

section \<open>The descriptor\<close>

definition DHCPv6SocketScheduleClose :: "socket_globals \<Rightarrow> socket_globals" where
  "DHCPv6SocketScheduleClose g =
     (if sg_cancel_pending g then g else g\<lparr>sg_cancel_pending := True, sg_read_fd := False\<rparr>)"

text \<open>The function of the timer.\<close>

definition DHCPv6SocketDelayedClose :: "socket_globals \<Rightarrow> socket_globals" where
  "DHCPv6SocketDelayedClose g =
     (if \<not> sg_read_fd g then g
      else if sg_read_fd_refcount g > 0 then g
      else DHCPv6SocketScheduleClose g)"

definition DHCPv6SocketEnableReceiveCallBack :: "socket_globals \<Rightarrow> socket_globals" where
  "DHCPv6SocketEnableReceiveCallBack g = g\<lparr>sg_read_fd := True\<rparr>"

text \<open>Called when the dispatch source has been cancelled.\<close>

definition DHCPv6SocketFDComplete :: "socket_globals \<Rightarrow> socket_globals" where
  "DHCPv6SocketFDComplete g =
     (let g = g\<lparr>sg_cancel_pending := False\<rparr>
      in if sg_read_fd_refcount g > 0 then DHCPv6SocketEnableReceiveCallBack g else g)"

definition DHCPv6SocketCloseSocket :: "'f sock_ctx \<Rightarrow> 'f sock_ctx" where
  "DHCPv6SocketCloseSocket x =
     (let g = sx_globals x in
      if \<not> sk_fd_open (sx_sock x) then x
      else if sg_read_fd_refcount g \<le> 0 then x
      else
        let g1 = g\<lparr>sg_read_fd_refcount := sg_read_fd_refcount g - 1\<rparr>;
            g2 = (if sg_read_fd_refcount g1 = 0
                  then g1\<lparr>sg_timer_callout := timer_set_relative (sx_world x) (sg_timer_callout g1) 1 0 ()\<rparr>
                  else g1)
        in x\<lparr>sx_sock := (sx_sock x)\<lparr>sk_fd_open := False\<rparr>, sx_globals := g2\<rparr>)"

text \<open>The first part of the result is whether there was no error.\<close>

definition DHCPv6SocketOpenSocketFD :: "'f sock_ctx \<Rightarrow> bool \<times> 'f sock_ctx" where
  "DHCPv6SocketOpenSocketFD x =
     (if sg_cancel_pending (sx_globals x) then (True, x)
      else let (ok, w) = next_outcome (sx_world x) in
        if ok then (True, x\<lparr>sx_world := w, sx_globals := DHCPv6SocketEnableReceiveCallBack (sx_globals x)\<rparr>)
        else (False, x\<lparr>sx_world := w\<rparr>))"

definition DHCPv6SocketOpenSocket :: "'f sock_ctx \<Rightarrow> bool \<times> 'f sock_ctx" where
  "DHCPv6SocketOpenSocket x =
     (if sk_fd_open (sx_sock x) then (True, x)
      else
        let g = sx_globals x;
            g1 = g\<lparr>sg_timer_callout := timer_cancel (sx_world x) (sg_timer_callout g),
                   sg_read_fd_refcount := sg_read_fd_refcount g + 1\<rparr>;
            x1 = x\<lparr>sx_globals := g1, sx_sock := (sx_sock x)\<lparr>sk_fd_open := True\<rparr>\<rparr>
        in if sg_read_fd_refcount g1 > 1 then (True, x1)
           else if sg_read_fd g1 then (True, x1)
           else let (ok, x2) = DHCPv6SocketOpenSocketFD x1 in
             if ok then (True, x2) else (False, DHCPv6SocketCloseSocket x2))"

section \<open>Receiving and sending\<close>

definition DHCPv6SocketEnableReceive :: "u32 \<Rightarrow> 'f \<Rightarrow> 'f sock_ctx \<Rightarrow> 'f sock_ctx" where
  "DHCPv6SocketEnableReceive transaction_id func x =
     snd (DHCPv6SocketOpenSocket
       (x\<lparr>sx_sock := (sx_sock x)\<lparr>sk_receive_func := Some func, sk_transaction_id := transaction_id\<rparr>\<rparr>))"

definition DHCPv6SocketReceiveIsEnabled :: "'f dhcpv6_socket \<Rightarrow> bool" where
  "DHCPv6SocketReceiveIsEnabled sock \<longleftrightarrow> sk_receive_func sock \<noteq> None"

definition DHCPv6SocketDisableReceive :: "'f sock_ctx \<Rightarrow> 'f sock_ctx" where
  "DHCPv6SocketDisableReceive x = DHCPv6SocketCloseSocket (x\<lparr>sx_sock := (sx_sock x)\<lparr>sk_receive_func := None\<rparr>\<rparr>)"

text \<open>The first part of the result is whether the packet was handed to the descriptor.\<close>

definition DHCPv6SocketTransmit :: "'f sock_ctx \<Rightarrow> (bool \<times> 'f sock_ctx) option" where
  "DHCPv6SocketTransmit x =
     (if \<not> sg_read_fd (sx_globals x) \<and> sg_cancel_pending (sx_globals x) then Some (False, x)
      else
        let (ok, x1) = (if sk_fd_open (sx_sock x) then (True, x) else DHCPv6SocketOpenSocket x);
            needs_close = \<not> sk_fd_open (sx_sock x)
        in if \<not> ok then Some (False, x1)
           else if \<not> sg_read_fd (sx_globals x1) then None
           else Some (True, if needs_close then DHCPv6SocketCloseSocket x1 else x1))"

text \<open>
  \<open>DHCPv6SocketDemux\<close>: the function of the socket that gets the packet, with the options.  The first
  socket on the interface that has the transaction id is the only one that is looked at.
\<close>

definition DHCPv6SocketDemux :: "'f dhcpv6_socket list \<Rightarrow> nat \<Rightarrow> u8 list \<Rightarrow> int \<Rightarrow> ('f \<times> opts6) option option" where
  "DHCPv6SocketDemux sockets if_index pkt pkt_len =
     (if pkt_len < DHCPV6_PACKET_HEADER_LENGTH then Some None
      else do {
        l \<leftarrow> DHCPv6OptionListCreateWithPacket pkt pkt_len;
        (case l of
           None \<Rightarrow> Some None
         | Some options \<Rightarrow> do {
             xid \<leftarrow> DHCPv6PacketGetTransactionID pkt;
             (case find (\<lambda>s. sk_if_index s = if_index \<and> sk_transaction_id s = xid) sockets of
                None \<Rightarrow> Some None
              | Some s \<Rightarrow> Some (map_option (\<lambda>f. (f, options)) (sk_receive_func s))) }) })"

section \<open>The descriptor is there when it is needed\<close>

text \<open>
  What holds between calls, for one socket: a socket that is open is counted, and when any is, there is a
  descriptor or there will be one; an unused descriptor has the timer that closes it.
\<close>

definition sockets_ok :: "'f sock_ctx \<Rightarrow> bool" where
  "sockets_ok x \<longleftrightarrow> (let g = sx_globals x in
     0 \<le> sg_read_fd_refcount g \<and> (sk_fd_open (sx_sock x) \<longrightarrow> 0 < sg_read_fd_refcount g) \<and>
     (0 < sg_read_fd_refcount g \<longrightarrow> sg_read_fd g \<or> sg_cancel_pending g) \<and>
     (sg_cancel_pending g \<longrightarrow> \<not> sg_read_fd g) \<and>
     (sg_read_fd_refcount g = 0 \<and> sg_read_fd g \<longrightarrow> tm_enabled (sg_timer_callout g)))"

lemma sockets_ok_receive [simp]:
  "sockets_ok (x\<lparr>sx_sock := (sx_sock x)\<lparr>sk_receive_func := f, sk_transaction_id := i\<rparr>\<rparr>) = sockets_ok x"
  "sockets_ok (x\<lparr>sx_sock := (sx_sock x)\<lparr>sk_receive_func := f\<rparr>\<rparr>) = sockets_ok x"
  by (simp_all add: sockets_ok_def)

lemma close_ok: "sockets_ok x \<Longrightarrow> sockets_ok (DHCPv6SocketCloseSocket x)"
  by (auto simp: DHCPv6SocketCloseSocket_def sockets_ok_def Let_def)

lemma open_ok:
  assumes "sockets_ok x" "DHCPv6SocketOpenSocket x = (ok, y)"
  shows "sockets_ok y \<and> (ok \<longrightarrow> sk_fd_open (sx_sock y)) \<and>
    (ok \<and> \<not> sg_cancel_pending (sx_globals x) \<longrightarrow> sg_read_fd (sx_globals y))"
  using assms
  by (auto simp: DHCPv6SocketOpenSocket_def DHCPv6SocketOpenSocketFD_def DHCPv6SocketCloseSocket_def
      DHCPv6SocketEnableReceiveCallBack_def sockets_ok_def Let_def split: if_splits prod.splits)

lemma enable_receive_ok: "sockets_ok x \<Longrightarrow> sockets_ok (DHCPv6SocketEnableReceive xid f x)"
  using open_ok [of "x\<lparr>sx_sock := (sx_sock x)\<lparr>sk_receive_func := Some f, sk_transaction_id := xid\<rparr>\<rparr>"]
  by (auto simp: DHCPv6SocketEnableReceive_def) (metis prod.collapse)

lemma disable_receive_ok: "sockets_ok x \<Longrightarrow> sockets_ok (DHCPv6SocketDisableReceive x)"
  by (simp add: DHCPv6SocketDisableReceive_def close_ok)

lemma socket_transmit_ok:
  assumes "sockets_ok x"
  shows "\<exists>sent y. DHCPv6SocketTransmit x = Some (sent, y) \<and> sockets_ok y"
proof (cases "\<not> sg_read_fd (sx_globals x) \<and> sg_cancel_pending (sx_globals x)")
  case True
  then show ?thesis using assms by (simp add: DHCPv6SocketTransmit_def exI [of Not False])
next
  case nc: False
  show ?thesis
  proof (cases "sk_fd_open (sx_sock x)")
    case True
    then have "sg_read_fd (sx_globals x)" using assms nc by (auto simp: sockets_ok_def Let_def)
    then show ?thesis using assms True by (simp add: DHCPv6SocketTransmit_def exI [of "\<lambda>b. b" True])
  next
    case False
    obtain ok y where o1: "DHCPv6SocketOpenSocket x = (ok, y)" by fastforce
    have "\<not> sg_cancel_pending (sx_globals x)" using assms nc by (auto simp: sockets_ok_def Let_def)
    then show ?thesis using open_ok [OF assms o1] False o1 close_ok [of y] by (auto simp: DHCPv6SocketTransmit_def)
  qed
qed

section \<open>All sockets\<close>

text \<open>The sockets of the daemon and what can happen to them.\<close>

record 'f socket_world =
  sw_world :: world
  sw_globals :: socket_globals
  sw_sockets :: "'f dhcpv6_socket list"

definition on_socket :: "nat \<Rightarrow> ('f sock_ctx \<Rightarrow> 'f sock_ctx) \<Rightarrow> 'f socket_world \<Rightarrow> 'f socket_world" where
  "on_socket i f s =
     (let x = f \<lparr>sx_world = sw_world s, sx_globals = sw_globals s, sx_sock = sw_sockets s ! i\<rparr>
      in s\<lparr>sw_world := sx_world x, sw_globals := sx_globals x, sw_sockets := (sw_sockets s)[i := sx_sock x]\<rparr>)"

inductive socket_step :: "'f socket_world \<Rightarrow> 'f socket_world \<Rightarrow> bool" where
  create: "socket_step s (s\<lparr>sw_sockets := sw_sockets s @ [DHCPv6SocketCreate if_index]\<rparr>)"
| enable: "i < length (sw_sockets s) \<Longrightarrow> socket_step s (on_socket i (DHCPv6SocketEnableReceive xid f) s)"
| disable: "i < length (sw_sockets s) \<Longrightarrow> socket_step s (on_socket i DHCPv6SocketDisableReceive s)"
| transmit: "i < length (sw_sockets s) \<Longrightarrow>
    DHCPv6SocketTransmit \<lparr>sx_world = sw_world s, sx_globals = sw_globals s, sx_sock = sw_sockets s ! i\<rparr> = Some (sent, x) \<Longrightarrow>
    socket_step s (s\<lparr>sw_world := sx_world x, sw_globals := sx_globals x, sw_sockets := (sw_sockets s)[i := sx_sock x]\<rparr>)"
| release: "i < length (sw_sockets s) \<Longrightarrow> t = on_socket i DHCPv6SocketDisableReceive s \<Longrightarrow>
    socket_step s (t\<lparr>sw_sockets := take i (sw_sockets t) @ drop (Suc i) (sw_sockets t)\<rparr>)"
| delayed_close: "timer_callout_process (sg_timer_callout (sw_globals s)) = (Some (), tm) \<Longrightarrow>
    socket_step s (s\<lparr>sw_globals := DHCPv6SocketDelayedClose ((sw_globals s)\<lparr>sg_timer_callout := tm\<rparr>)\<rparr>)"
| complete: "sg_cancel_pending (sw_globals s) \<Longrightarrow> socket_step s (s\<lparr>sw_globals := DHCPv6SocketFDComplete (sw_globals s)\<rparr>)"
| not_connected: "sg_read_fd (sw_globals s) \<Longrightarrow> socket_step s (s\<lparr>sw_globals := DHCPv6SocketScheduleClose (sw_globals s)\<rparr>)"
| time: "socket_step s (s\<lparr>sw_world := w\<rparr>)"

inductive socket_steps :: "'f socket_world \<Rightarrow> 'f socket_world \<Rightarrow> bool" for s where
  none: "socket_steps s s"
| one: "socket_steps s t \<Longrightarrow> socket_step t u \<Longrightarrow> socket_steps s u"

definition open_count :: "'f dhcpv6_socket list \<Rightarrow> int" where
  "open_count sockets = int (length (filter sk_fd_open sockets))"

definition descriptor_ok :: "socket_globals \<Rightarrow> int \<Rightarrow> bool" where
  "descriptor_ok g n \<longleftrightarrow> sg_read_fd_refcount g = n \<and> (0 < n \<longrightarrow> sg_read_fd g \<or> sg_cancel_pending g) \<and>
     (sg_cancel_pending g \<longrightarrow> \<not> sg_read_fd g) \<and> (n = 0 \<and> sg_read_fd g \<longrightarrow> tm_enabled (sg_timer_callout g))"

definition own_count :: "'f dhcpv6_socket \<Rightarrow> int" where
  "own_count s = (if sk_fd_open s then 1 else 0)"

lemma open_count_append [simp]: "open_count (xs @ ys) = open_count xs + open_count ys"
  by (simp add: open_count_def)

lemma open_count_Cons [simp]: "open_count (x # xs) = own_count x + open_count xs"
  by (simp add: open_count_def own_count_def)

lemma open_count_nonneg: "0 \<le> open_count xs"
  by (simp add: open_count_def)

lemma open_count_split:
  assumes "i < length xs"
  shows "open_count xs = own_count (xs ! i) + open_count (take i xs @ drop (Suc i) xs)"
    "open_count (xs[i := y]) = own_count y + open_count (take i xs @ drop (Suc i) xs)"
proof -
  show "open_count xs = own_count (xs ! i) + open_count (take i xs @ drop (Suc i) xs)"
    by (subst id_take_nth_drop [OF assms]) simp
  show "open_count (xs[i := y]) = own_count y + open_count (take i xs @ drop (Suc i) xs)"
    using upd_conv_take_nth_drop [OF assms, of y] by simp
qed

text \<open>One socket and the others: \<open>m\<close> of the others are open.\<close>

definition counted :: "'f sock_ctx \<Rightarrow> int \<Rightarrow> bool" where
  "counted x m \<longleftrightarrow> 0 \<le> m \<and> descriptor_ok (sx_globals x) (own_count (sx_sock x) + m)"

lemma counted_sockets_ok: "counted x m \<Longrightarrow> sockets_ok x"
  by (auto simp: counted_def descriptor_ok_def sockets_ok_def own_count_def Let_def)

lemma counted_receive [simp]:
  "counted (x\<lparr>sx_sock := (sx_sock x)\<lparr>sk_receive_func := f, sk_transaction_id := i\<rparr>\<rparr>) m = counted x m"
  "counted (x\<lparr>sx_sock := (sx_sock x)\<lparr>sk_receive_func := f\<rparr>\<rparr>) m = counted x m"
  by (simp_all add: counted_def own_count_def)

lemma close_counted: "counted x m \<Longrightarrow> counted (DHCPv6SocketCloseSocket x) m"
  by (auto simp: DHCPv6SocketCloseSocket_def counted_def descriptor_ok_def own_count_def Let_def)

lemma open_counted: "counted x m \<Longrightarrow> counted (snd (DHCPv6SocketOpenSocket x)) m"
  by (auto simp: DHCPv6SocketOpenSocket_def DHCPv6SocketOpenSocketFD_def DHCPv6SocketCloseSocket_def
      DHCPv6SocketEnableReceiveCallBack_def counted_def descriptor_ok_def own_count_def Let_def split: prod.splits)

lemma transmit_counted:
  assumes "counted x m" "DHCPv6SocketTransmit x = Some (sent, y)"
  shows "counted y m"
proof (cases "sk_fd_open (sx_sock x)")
  case True
  then show ?thesis using assms by (auto simp: DHCPv6SocketTransmit_def split: if_splits)
next
  case False
  obtain ok z where o1: "DHCPv6SocketOpenSocket x = (ok, z)" by fastforce
  then have "counted z m" using open_counted [OF assms(1)] by simp
  then show ?thesis using assms False o1 close_counted [of z] by (auto simp: DHCPv6SocketTransmit_def split: if_splits)
qed

definition socket_world_ok :: "'f socket_world \<Rightarrow> bool" where
  "socket_world_ok s \<longleftrightarrow> descriptor_ok (sw_globals s) (open_count (sw_sockets s))"

lemma world_counted:
  assumes "socket_world_ok s" "i < length (sw_sockets s)"
  shows "counted \<lparr>sx_world = sw_world s, sx_globals = sw_globals s, sx_sock = sw_sockets s ! i\<rparr>
    (open_count (take i (sw_sockets s) @ drop (Suc i) (sw_sockets s)))"
  using assms open_count_split(1) [OF assms(2)] open_count_nonneg [of "take i (sw_sockets s) @ drop (Suc i) (sw_sockets s)"]
  by (simp add: counted_def socket_world_ok_def)

lemma counted_world:
  assumes "counted x (open_count (take i socks @ drop (Suc i) socks))" "i < length socks"
  shows "descriptor_ok (sx_globals x) (open_count (socks[i := sx_sock x]))"
  using assms(1) open_count_split(2) [OF assms(2), of "sx_sock x"] by (simp add: counted_def)

lemma on_socket_ok:
  assumes "socket_world_ok s" "i < length (sw_sockets s)" "\<And>x m. counted x m \<Longrightarrow> counted (f x) m"
  shows "socket_world_ok (on_socket i f s)"
  using counted_world [OF assms(3) [OF world_counted [OF assms(1,2)]] assms(2)]
  by (simp add: on_socket_def socket_world_ok_def Let_def)

lemma disable_counted:
  assumes "counted x m"
  shows "counted (DHCPv6SocketDisableReceive x) m"
  unfolding DHCPv6SocketDisableReceive_def
  by (rule close_counted) (use assms in simp)

lemma disable_closes: "counted x m \<Longrightarrow> own_count (sx_sock (DHCPv6SocketDisableReceive x)) = 0"
  by (auto simp: DHCPv6SocketDisableReceive_def DHCPv6SocketCloseSocket_def counted_def descriptor_ok_def own_count_def Let_def)

lemma socket_release_ok:
  assumes "socket_world_ok s" "i < length (sw_sockets s)"
  shows "socket_world_ok ((on_socket i DHCPv6SocketDisableReceive s)\<lparr>sw_sockets :=
    take i (sw_sockets (on_socket i DHCPv6SocketDisableReceive s)) @ drop (Suc i) (sw_sockets (on_socket i DHCPv6SocketDisableReceive s))\<rparr>)"
proof -
  let ?x = "\<lparr>sx_world = sw_world s, sx_globals = sw_globals s, sx_sock = sw_sockets s ! i\<rparr>"
  note c = world_counted [OF assms]
  have "counted (DHCPv6SocketDisableReceive ?x) (open_count (take i (sw_sockets s) @ drop (Suc i) (sw_sockets s)))"
    by (rule disable_counted [OF c])
  then show ?thesis using disable_closes [OF c]
    by (simp add: on_socket_def socket_world_ok_def Let_def counted_def)
qed

lemma socket_step_ok:
  assumes "socket_step s t" "socket_world_ok s"
  shows "socket_world_ok t"
  using assms
proof cases
  case (enable i xid f)
  show ?thesis unfolding enable(1)
    by (rule on_socket_ok [OF assms(2) enable(2)]) (simp add: DHCPv6SocketEnableReceive_def open_counted)
next
  case (disable i)
  show ?thesis unfolding disable(1)
    by (rule on_socket_ok [OF assms(2) disable(2)]) (rule disable_counted)
next
  case (transmit i sent x)
  then show ?thesis
    using counted_world [OF transmit_counted [OF world_counted [OF assms(2)] transmit(3)]] by (simp add: socket_world_ok_def)
next
  case (release i)
  then show ?thesis using socket_release_ok [OF assms(2)] by simp
qed (auto simp: socket_world_ok_def descriptor_ok_def DHCPv6SocketCreate_def own_count_def open_count_def DHCPv6SocketDelayedClose_def
    DHCPv6SocketScheduleClose_def DHCPv6SocketFDComplete_def DHCPv6SocketEnableReceiveCallBack_def Let_def)

text \<open>C30. The sockets share one descriptor without losing it: however they are created, opened, closed, used and
  freed, and however often the descriptor goes away, every open socket is counted once, a packet can be sent on
  any of them without following a null descriptor, the descriptor is there or will be as long as one is open,
  and the timer that closes it is set when none is.\<close>

theorem descriptor_is_shared:
  assumes "socket_steps \<lparr>sw_world = w, sw_globals = DHCPv6SocketCreateGlobals w, sw_sockets = []\<rparr> s"
  shows "sg_read_fd_refcount (sw_globals s) = int (length (filter sk_fd_open (sw_sockets s))) \<and>
    (\<forall>i < length (sw_sockets s). \<exists>r.
       DHCPv6SocketTransmit \<lparr>sx_world = sw_world s, sx_globals = sw_globals s, sx_sock = sw_sockets s ! i\<rparr> = Some r) \<and>
    ((\<exists>k \<in> set (sw_sockets s). sk_fd_open k) \<longrightarrow> sg_read_fd (sw_globals s) \<or> sg_cancel_pending (sw_globals s)) \<and>
    ((\<forall>k \<in> set (sw_sockets s). \<not> sk_fd_open k) \<and> sg_read_fd (sw_globals s) \<longrightarrow> timer_still_pending (sg_timer_callout (sw_globals s)))"
proof -
  have ok: "socket_world_ok s" using assms
  proof induction
    case none
    then show ?case by (simp add: socket_world_ok_def descriptor_ok_def DHCPv6SocketCreateGlobals_def open_count_def)
  next
    case (one t u)
    then show ?case using socket_step_ok by blast
  qed
  have 1: "sg_read_fd_refcount (sw_globals s) = int (length (filter sk_fd_open (sw_sockets s)))"
    using ok by (simp add: socket_world_ok_def descriptor_ok_def open_count_def)
  have 2: "\<forall>i < length (sw_sockets s). \<exists>r.
       DHCPv6SocketTransmit \<lparr>sx_world = sw_world s, sx_globals = sw_globals s, sx_sock = sw_sockets s ! i\<rparr> = Some r"
    using socket_transmit_ok [OF counted_sockets_ok [OF world_counted [OF ok]]] by blast
  have 3: "sg_read_fd (sw_globals s) \<or> sg_cancel_pending (sw_globals s)" if "\<exists>k \<in> set (sw_sockets s). sk_fd_open k"
    using ok that by (auto simp: socket_world_ok_def descriptor_ok_def open_count_def filter_empty_conv)
  have 4: "timer_still_pending (sg_timer_callout (sw_globals s))"
    if "\<forall>k \<in> set (sw_sockets s). \<not> sk_fd_open k" "sg_read_fd (sw_globals s)"
    using ok that by (auto simp: socket_world_ok_def descriptor_ok_def open_count_def timer_still_pending_def)
  show ?thesis using 1 2 3 4 by blast
qed

text \<open>Two sockets: both are opened, the first is closed.\<close>

definition sample_sockets :: "world \<Rightarrow> unit socket_world" where
  "sample_sockets w = on_socket 0 DHCPv6SocketDisableReceive (on_socket 1 (DHCPv6SocketEnableReceive 7 ()) (on_socket 0 (DHCPv6SocketEnableReceive 5 ())
     \<lparr>sw_world = w, sw_globals = DHCPv6SocketCreateGlobals w, sw_sockets = [DHCPv6SocketCreate 4, DHCPv6SocketCreate 5]\<rparr>))"

lemma on_socket_length [simp]: "length (sw_sockets (on_socket i f s)) = length (sw_sockets s)"
  by (simp add: on_socket_def Let_def)

lemma sample_sockets_steps: "socket_steps \<lparr>sw_world = w, sw_globals = DHCPv6SocketCreateGlobals w, sw_sockets = []\<rparr> (sample_sockets w)"
proof -
  let ?s = "\<lambda>socks. \<lparr>sw_world = w, sw_globals = DHCPv6SocketCreateGlobals w, sw_sockets = socks\<rparr> :: unit socket_world"
  have "socket_step (?s []) (?s [DHCPv6SocketCreate 4])" using socket_step.create [of "?s []" 4] by simp
  with socket_steps.none have 1: "socket_steps (?s []) (?s [DHCPv6SocketCreate 4])" by (rule socket_steps.one)
  have "socket_step (?s [DHCPv6SocketCreate 4]) (?s [DHCPv6SocketCreate 4, DHCPv6SocketCreate 5])"
    using socket_step.create [of "?s [DHCPv6SocketCreate 4]" 5] by simp
  with 1 have 2: "socket_steps (?s []) (?s [DHCPv6SocketCreate 4, DHCPv6SocketCreate 5])" by (rule socket_steps.one)
  show ?thesis unfolding sample_sockets_def
    by (rule socket_steps.one [OF socket_steps.one [OF socket_steps.one [OF 2 socket_step.enable] socket_step.enable] socket_step.disable]) simp_all
qed

definition world6 :: world where
  "world6 = \<lparr>w_mono = 1000, w_offset = 0, w_time_generation = 0, w_clock_set = False, w_outcome = (\<lambda>_. True),
     w_random = (\<lambda>_. 5), w_calls = 0\<rparr>"

theorem descriptor_is_shared_witness:
  "sg_read_fd_refcount (sw_globals (sample_sockets world6)) = int (length (filter sk_fd_open (sw_sockets (sample_sockets world6))))
   \<and> length (sw_sockets (sample_sockets world6)) = 2"
  using descriptor_is_shared [OF sample_sockets_steps [of world6]] by (simp add: sample_sockets_def)

end
