(* ===== verification/ClientOptions.thy ===== *)
theory ClientOptions
  imports Timer DhcpOptionArea IPv4ClasslessRoute
begin

text \<open>
  What the DHCP client reads from the options of a packet and what it writes into its own
  (\<open>IPConfiguration.bproj/dhcp.c\<close>, with \<open>dhcp_packet_match\<close> of \<open>bootplib/dhcplib.c\<close> and the address
  classes of \<open>bootplib/util.h\<close>).

  \<open>dp_xid\<close> is the number of the field in network order, so \<open>htonl\<close> and \<open>ntohl\<close> do not appear.  The buffer a
  request is built in is the record's \<open>dp_options\<close>: the magic number and then the option area.
\<close>

section \<open>Settings (ipconfigd.c)\<close>

text \<open>
  The variables \<open>G_...\<close> and \<open>S_...\<close> that the client reads, \<open>dhcp_params\<close> and \<open>dhcp_default_params\<close>, and what
  the functions outside of it answer: the host's names, the netboot
  address, how an address is printed, what is in new memory at a time.
\<close>

record client_globals =
  G_must_broadcast :: bool
  G_initial_wait_secs :: int
  G_max_wait_secs :: int
  G_max_retries :: int
  G_gather_secs :: int
  G_router_arp :: bool
  G_router_arp_wifi_lease_start_threshold_secs :: int
  G_dhcp_router_arp_at_retry_count :: int
  G_dhcp_allocate_linklocal_at_retry_count :: int
  G_dhcp_generate_failure_symptom_at_retry_count :: int
  G_dhcp_failure_configures_linklocal :: bool
  G_dhcp_success_deconfigures_linklocal :: bool
  G_dhcp_init_reboot_retry_count :: int
  G_dhcp_select_retry_count :: int
  G_dhcp_lease_write_t1_threshold_secs :: int
  G_discover_and_publish_router_mac_address :: bool
  G_wake_skew_secs :: int
  G_min_wake_interval_secs :: int
  G_min_short_wake_interval_secs :: int
  S_discover_router_mac_address_secs :: u32
  S_defend_ip_address_interval_secs :: int
  S_defend_ip_address_count :: int
  G_on_osx :: bool
  dhcp_params :: "u8 list"
  dhcp_ipv6_only_preferred :: bool
  dhcp_hostname :: "string option"
  device_type :: "string option"
  netboot_ip :: in_addr
  ip_to_string :: "in_addr \<Rightarrow> string"
  new_memory :: "nat \<Rightarrow> nat \<Rightarrow> u8"

section \<open>Classes of addresses (util.h, ipconfigd_threads.h)\<close>

definition ip_is_private :: "in_addr \<Rightarrow> bool" where
  "ip_is_private val \<longleftrightarrow>
     val AND 0xff000000 = 0x0a000000 \<or> val AND 0xfff00000 = 0xac100000 \<or> val AND 0xffff0000 = 0xc0a80000"

definition ip_is_linklocal :: "in_addr \<Rightarrow> bool" where
  "ip_is_linklocal val \<longleftrightarrow> val AND 0xffff0000 = 0xa9fe0000"

definition ip_valid :: "in_addr \<Rightarrow> bool" where
  "ip_valid ip \<longleftrightarrow> \<not> (ip = 0 \<or> ip = 0xffffffff)"

definition get_rating_for_ip_address :: "in_addr \<Rightarrow> nat" where
  "get_rating_for_ip_address iaddr =
     (if ip_is_private iaddr then 100 else if ip_is_linklocal iaddr then 0 else 1000)"

definition DHCP_ADDRESS_RATING_GOOD :: nat where
  "DHCP_ADDRESS_RATING_GOOD = 1000"

section \<open>Received packets\<close>

record bootp_receive_data =
  rd_data :: dhcp
  rd_size :: int
  rd_options :: dhcpol

text \<open>An option of at least four bytes, as a number.\<close>

definition find_u32 :: "dhcpol \<Rightarrow> int \<Rightarrow> u32 option option" where
  "find_u32 options tag = do {
     found \<leftarrow> dhcpol_find_with_length options tag 4;
     case found of
       None \<Rightarrow> Some None
     | Some p \<Rightarrow> map_option Some (net_uint32_get p) }"

definition get_server_identifier :: "dhcpol \<Rightarrow> in_addr option option" where
  "get_server_identifier options = find_u32 options dhcptag_server_identifier_e"

text \<open>\<open>bcmp\<close> of the hardware address reads \<open>check_len\<close> bytes of both.\<close>

definition dhcp_packet_match :: "dhcp \<Rightarrow> u32 \<Rightarrow> u8 \<Rightarrow> u8 list \<Rightarrow> bool option" where
  "dhcp_packet_match packet xid hwtype hwaddr =
     (let check_len = (if hwtype = 24 then 0 else length hwaddr) in
      if dp_op packet \<noteq> BOOTREPLY \<or> dp_xid packet \<noteq> xid \<or> dp_htype packet \<noteq> hwtype \<or>
         unat (dp_hlen packet) \<noteq> check_len
      then Some False
      else do {
        chaddr \<leftarrow> rdn (dp_chaddr packet) 0 check_len;
        Some (\<not> (check_len \<noteq> 0 \<and> chaddr \<noteq> take check_len hwaddr)) })"

text \<open>A matching packet gives its message type and its server, 0 for none.\<close>

definition verify_packet :: "bootp_receive_data \<Rightarrow> u32 \<Rightarrow> u8 \<Rightarrow> u8 list \<Rightarrow> (u8 \<times> in_addr) option option" where
  "verify_packet pkt xid hwtype hwaddr = do {
     matches \<leftarrow> dhcp_packet_match (rd_data pkt) xid hwtype hwaddr;
     if \<not> matches then Some None
     else do {
       msgtype \<leftarrow> is_dhcp_packet (rd_options pkt);
       case msgtype of
         None \<Rightarrow> Some None
       | Some m \<Rightarrow>
           if m = dhcp_msgtype_discover_e \<or> m = dhcp_msgtype_request_e \<or> m = dhcp_msgtype_inform_e then Some None
           else do {
             server \<leftarrow> get_server_identifier (rd_options pkt);
             Some (Some (m, case server of None \<Rightarrow> 0 | Some ip \<Rightarrow> ip)) } } }"

definition options_get_ipv6_wait_time :: "dhcpol \<Rightarrow> u32 option option" where
  "options_get_ipv6_wait_time options = do {
     found \<leftarrow> dhcpol_find options dhcptag_ipv6_only_preferred_e 0;
     case found of
       None \<Rightarrow> Some None
     | Some (opt, opt_len, _) \<Rightarrow> if opt_len \<noteq> 4 then Some None else map_option Some (net_uint32_get opt) }"

section \<open>Lease times (dhcp.c)\<close>

definition DHCP_INFINITE_LEASE :: u32 where "DHCP_INFINITE_LEASE = 0xffffffff"
definition DEFAULT_LEASE_LENGTH :: u32 where "DEFAULT_LEASE_LENGTH = 60 * 60"
definition MIN_LEASE_LENGTH :: u32 where "MIN_LEASE_LENGTH = 3"
definition MIN_T1_VAL :: u32 where "MIN_T1_VAL = 2"
definition MIN_T2_VAL :: u32 where "MIN_T2_VAL = 2"

definition at_least :: "u32 \<Rightarrow> u32 option \<Rightarrow> u32 option" where
  "at_least minimum opt = map_option (\<lambda>v. if v < minimum then minimum else v) opt"

text \<open>The lease, T1 and T2; 7/8 of a 32-bit number is exact as a \<open>double\<close> and then cut.\<close>

definition lease_times :: "u32 option \<Rightarrow> u32 option \<Rightarrow> u32 option \<Rightarrow> u32 \<times> u32 \<times> u32" where
  "lease_times lease_opt t1_opt t2_opt =
     (let lease = (case lease_opt of
                     Some l \<Rightarrow> l
                   | None \<Rightarrow> (case t1_opt of
                                Some t1 \<Rightarrow> t1
                              | None \<Rightarrow> (case t2_opt of Some t2 \<Rightarrow> t2 | None \<Rightarrow> DEFAULT_LEASE_LENGTH)));
          by_lease = (lease, lease div 2, word_of_int (uint lease * 7 div 8))
      in if lease = DHCP_INFINITE_LEASE then (lease, 0, 0)
         else case (t1_opt, t2_opt) of
           (Some t1, Some t2) \<Rightarrow>
             if t1 \<ge> lease \<or> t2 \<ge> lease \<or> t2 < t1 then by_lease else (lease, t1, t2)
         | _ \<Rightarrow> by_lease)"

definition dhcp_get_lease_from_options :: "dhcpol \<Rightarrow> (u32 \<times> u32 \<times> u32) option" where
  "dhcp_get_lease_from_options options = do {
     lease_opt \<leftarrow> find_u32 options dhcptag_lease_time_e;
     t1_opt \<leftarrow> find_u32 options dhcptag_renewal_t1_time_value_e;
     t2_opt \<leftarrow> find_u32 options dhcptag_rebinding_t2_time_value_e;
     Some (lease_times (at_least MIN_LEASE_LENGTH lease_opt) (at_least MIN_T1_VAL t1_opt) (at_least MIN_T2_VAL t2_opt)) }"

section \<open>The router (dhcp.c)\<close>

definition ROUTER_INVALID :: in_addr where
  "ROUTER_INVALID = 0xffffffff"

definition router_is_valid :: "in_addr \<Rightarrow> bool" where
  "router_is_valid router \<longleftrightarrow> router \<noteq> ROUTER_INVALID \<and> router \<noteq> 0"

definition dhcp_copy_classless_routes :: "dhcpol \<Rightarrow> ipv4_route list option option" where
  "dhcp_copy_classless_routes options = do {
     routes_buf \<leftarrow> dhcpol_option_copy options dhcptag_classless_static_route_e;
     case routes_buf of
       None \<Rightarrow> Some None
     | Some b \<Rightarrow> map_option fst (RouteListCreate (Some b) (int (length b))) }"

definition dhcp_get_router_from_options :: "dhcpol \<Rightarrow> in_addr \<Rightarrow> in_addr option" where
  "dhcp_get_router_from_options options our_ip = do {
     found \<leftarrow> find_u32 options dhcptag_router_e;
     case found of
       Some router \<Rightarrow> Some (if router = our_ip then 0 else router)
     | None \<Rightarrow> do {
         routes \<leftarrow> dhcp_copy_classless_routes options;
         Some (case routes of
                 None \<Rightarrow> ROUTER_INVALID
               | Some rs \<Rightarrow> (case RouteListGetDefault (Some rs) of
                               None \<Rightarrow> ROUTER_INVALID
                             | Some def_route \<Rightarrow> rt_gate def_route)) } }"

definition dhcp_get_router_address :: "dhcpol \<Rightarrow> in_addr \<Rightarrow> in_addr option option" where
  "dhcp_get_router_address options our_ip = do {
     router \<leftarrow> dhcp_get_router_from_options options our_ip;
     other \<leftarrow> (if router = 0 then find_u32 options dhcptag_domain_name_server_e
               else if router = ROUTER_INVALID then find_u32 options dhcptag_server_identifier_e
               else Some None);
     let router = (case other of None \<Rightarrow> router | Some r \<Rightarrow> r);
     Some (if router_is_valid router then Some router else None) }"

section \<open>Requested parameters (dhcp.c)\<close>

text \<open>\<open>S_merge_parameters\<close>: the default parameters and the new ones that are not yet in the list.\<close>

fun merge_loop :: "u8 list \<Rightarrow> u8 list \<Rightarrow> u8 list" where
  "merge_loop new [] = new"
| "merge_loop new (p # params) = merge_loop (if p \<in> set new then new else new @ [p]) params"

definition S_merge_parameters :: "u8 list \<Rightarrow> u8 list \<Rightarrow> u8 list" where
  "S_merge_parameters defaults params =
     (if params = [] then defaults
      else let new = merge_loop defaults params in
        if length new > length defaults then new else defaults)"

definition dhcp_parameter_is_ok :: "client_globals \<Rightarrow> u8 \<Rightarrow> bool" where
  "dhcp_parameter_is_ok g param \<longleftrightarrow>
     param \<in> {dhcptag_lease_time_e, dhcptag_dhcp_message_type_e, dhcptag_server_identifier_e, dhcptag_message_e,
              dhcptag_renewal_t1_time_value_e, dhcptag_rebinding_t2_time_value_e, 60, dhcptag_client_identifier_e} \<or>
     param \<in> set (dhcp_params g)"

definition dhcp_set_default_parameters :: "u8 list \<Rightarrow> u8 list \<Rightarrow> client_globals \<Rightarrow> client_globals" where
  "dhcp_set_default_parameters static_params params g =
     (let g' = g\<lparr>dhcp_params := (if params \<noteq> [] then params else static_params)\<rparr> in
      g'\<lparr>dhcp_ipv6_only_preferred := dhcp_parameter_is_ok g' dhcptag_ipv6_only_preferred_e\<rparr>)"

definition dhcp_set_additional_parameters :: "u8 list \<Rightarrow> u8 list \<Rightarrow> client_globals \<Rightarrow> client_globals" where
  "dhcp_set_additional_parameters defaults params g = g\<lparr>dhcp_params := S_merge_parameters defaults params\<rparr>"

section \<open>Building a request (dhcp.c)\<close>

text \<open>
  The area and whether the option was added.  The assertion that the filtered list is not empty has no
  result when it fails.
\<close>

definition add_option :: "dhcpoa \<Rightarrow> int \<Rightarrow> u8 list \<Rightarrow> (bool \<times> dhcpoa) option" where
  "add_option oa tag d =
     map_option (\<lambda>(r, oa'). (r = dhcpoa_success_e, oa')) (dhcpoa_add oa tag (int (length d)) d)"

definition add_parameter_request_list :: "client_globals \<Rightarrow> bool \<Rightarrow> dhcpoa \<Rightarrow> (bool \<times> dhcpoa) option" where
  "add_parameter_request_list g ipv6_only_preferred oa =
     (if \<not> ipv6_only_preferred \<and> dhcp_parameter_is_ok g dhcptag_ipv6_only_preferred_e then
        let params = filter (\<lambda>p. p \<noteq> dhcptag_ipv6_only_preferred_e) (dhcp_params g) in
        if params = [] then None else add_option oa dhcptag_parameter_request_list_e params
      else add_option oa dhcptag_parameter_request_list_e (dhcp_params g))"

text \<open>
  \<open>make_dhcp_request\<close> fills \<open>request\<close>, a packet of \<open>pkt_size\<close> bytes; \<open>options\<close> is the area in it that the
  caller adds to.  The flag is whether it succeeded.
\<close>

definition with_options :: "dhcp \<Rightarrow> dhcpoa \<Rightarrow> dhcp" where
  "with_options request oa = request\<lparr>dp_options := rfc_magic @ oa_buffer oa\<rparr>"

definition cleared_request :: "int \<Rightarrow> dhcp" where
  "cleared_request pkt_size =
     \<lparr>dp_op = 0, dp_htype = 0, dp_hlen = 0, dp_hops = 0, dp_xid = 0, dp_secs = 0, dp_flags = 0, dp_ciaddr = 0,
      dp_yiaddr = 0, dp_siaddr = 0, dp_giaddr = 0, dp_chaddr = replicate 16 0, dp_sname = replicate 64 0,
      dp_file = replicate 128 0, dp_options = replicate (nat (pkt_size - sizeof_dhcp)) 0\<rparr>"

definition request_header :: "int \<Rightarrow> u8 \<Rightarrow> u8 list \<Rightarrow> bool \<Rightarrow> dhcp option" where
  "request_header pkt_size hwtype hwaddr broadcast =
     (let request = (cleared_request pkt_size)\<lparr>dp_htype := hwtype, dp_op := BOOTREQUEST,
                       dp_flags := (if broadcast then swap16 0x8000 else 0)\<rparr> in
      if hwtype = 24 then Some request
      else do {
        chaddr \<leftarrow> wrn (dp_chaddr request) 0 hwaddr;
        Some (request\<lparr>dp_hlen := word_of_nat (length hwaddr), dp_chaddr := chaddr\<rparr>) })"

text \<open>The client identifier with its type in front: the hardware address when none is given.\<close>

definition client_identifier :: "u8 \<Rightarrow> u8 list \<Rightarrow> u8 list option \<Rightarrow> u8 list" where
  "client_identifier hwtype hwaddr cid =
     (case cid of
        Some (b # bs) \<Rightarrow> 0 # b # bs
      | _ \<Rightarrow> (if hwtype = 24 then 27 else hwtype) # hwaddr)"

definition make_dhcp_request ::
  "client_globals \<Rightarrow> int \<Rightarrow> u8 \<Rightarrow> u8 list \<Rightarrow> u8 \<Rightarrow> u8 list option \<Rightarrow> bool \<Rightarrow> bool \<Rightarrow> (bool \<times> dhcp \<times> dhcpoa) option" where
  "make_dhcp_request g pkt_size msg hwaddr hwtype cid must_broadcast ipv6_only_preferred = do {
     request \<leftarrow> request_header pkt_size hwtype hwaddr (must_broadcast \<or> G_must_broadcast g);
     whole \<leftarrow> wrn (dp_options request) 0 rfc_magic;
     options \<leftarrow> dhcpoa_init (drop RFC_MAGIC_SIZE whole) (pkt_size - sizeof_dhcp - int RFC_MAGIC_SIZE);
     (r1, oa1) \<leftarrow> dhcpoa_add_dhcpmsg options msg;
     if r1 \<noteq> dhcpoa_success_e then Some (False, with_options request oa1, oa1)
     else do {
       (ok, oa2) \<leftarrow>
         (if msg \<noteq> dhcp_msgtype_decline_e \<and> msg \<noteq> dhcp_msgtype_release_e then do {
            (ok, oa) \<leftarrow> add_parameter_request_list g ipv6_only_preferred oa1;
            if \<not> ok then Some (False, oa)
            else add_option oa dhcptag_max_dhcp_message_size_e (net_uint16_bytes 1500) }
          else Some (True, oa1));
       if \<not> ok then Some (False, with_options request oa2, oa2)
       else do {
         (ok', oa3) \<leftarrow> add_option oa2 dhcptag_client_identifier_e (client_identifier hwtype hwaddr cid);
         Some (ok', with_options request oa3, oa3) } } }"

text \<open>
  What the handlers add to a request before they send it: some options that must fit, then the host
  name, which need not, and the end tag.  The result is the packet and, when all went well, its size.
\<close>

fun add_all :: "dhcpoa \<Rightarrow> (int \<times> u8 list) list \<Rightarrow> (bool \<times> dhcpoa) option" where
  "add_all oa [] = Some (True, oa)"
| "add_all oa ((tag, d) # fs) = do {
     (ok, oa') \<leftarrow> add_option oa tag d;
     if ok then add_all oa' fs else Some (False, oa') }"

definition add_host_name :: "string option \<Rightarrow> dhcpoa \<Rightarrow> dhcpoa option" where
  "add_host_name name oa =
     (case name of
        None \<Rightarrow> Some oa
      | Some n \<Rightarrow> map_option snd (add_option oa dhcptag_host_name_e (str_bytes n)))"

definition request_size_of :: "dhcpoa \<Rightarrow> int" where
  "request_size_of oa =
     (let n = sizeof_dhcp + int RFC_MAGIC_SIZE + dhcpoa_used oa in if n < sizeof_bootp then sizeof_bootp else n)"

definition finish_request :: "(int \<times> u8 list) list \<Rightarrow> string option \<Rightarrow> dhcp \<Rightarrow> dhcpoa \<Rightarrow> (dhcp \<times> int option) option" where
  "finish_request fs name request oa = do {
     (ok, oa1) \<leftarrow> add_all oa fs;
     if \<not> ok then Some (with_options request oa1, None)
     else do {
       oa2 \<leftarrow> add_host_name name oa1;
       (ok', oa3) \<leftarrow> add_option oa2 dhcptag_end_e [];
       Some (with_options request oa3, if ok' then Some (request_size_of oa3) else None) } }"

end
