(* ===== verification/ArpSession.thy ===== *)
theory ArpSession
  imports Timer
begin

text \<open>
  ARP clients of the daemon (\<open>IPConfiguration.bproj/arp_session.c\<close>): probing an address before it is used,
  announcing and defending it, resolving a router and detecting which of several routers is there.

  A client's callback is an element of a type \<open>'f\<close> that stands for the function and its two arguments.
  Results are never returned from inside a call: \<open>arp_client_schedule_callback\<close> marks the client, and
  \<open>arp_client_do_callback\<close> gives the callback and the result it is called with when the dispatch queue
  gets to it.  A null pointer that is called or followed has no result.

  Opening the packet filter and writing to it are calls whose outcome the world decides; frames that
  were written are appended to \<open>is_sent\<close>.
\<close>

section \<open>Data (arp_session.c, arp_session.h)\<close>

definition ARPHRD_ETHER :: nat where "ARPHRD_ETHER = 1"
definition ARPHRD_IEEE1394 :: nat where "ARPHRD_IEEE1394 = 24"
definition ARPOP_REQUEST :: nat where "ARPOP_REQUEST = 1"
definition ARPOP_REPLY :: nat where "ARPOP_REPLY = 2"
definition ETHERTYPE_IP :: nat where "ETHERTYPE_IP = 0x800"

record arp_address_info =
  ai_sender_ip :: in_addr
  ai_target_ip :: in_addr
  ai_target_hardware :: "u8 list"

record arp_result =
  ar_error :: bool
  ar_in_use :: bool
  ar_addr :: arp_address_info

record probe_info =
  pi_retry_interval :: rat
  pi_probe_count :: int
  pi_gratuitous_count :: int
  pi_skip_first :: bool

record arp_session =
  se_default_probe_info :: probe_info
  se_default_detect_count :: int
  se_default_detect_retry :: rat
  se_default_conflict_retry_count :: int
  se_default_conflict_delay :: rat
  se_is_our_address :: "nat \<Rightarrow> u8 list \<Rightarrow> bool"

text \<open>A frame: its destination and source on the link, and the addresses of the ARP request in it.\<close>

record arp_frame =
  af_dhost :: "u8 list"
  af_shost :: "u8 list"
  af_sha :: "u8 list"
  af_spa :: in_addr
  af_tpa :: in_addr

record arp_if_session =
  is_session :: arp_session
  is_arptype :: nat
  is_link_address :: "u8 list"
  is_fw_addr :: "u8 list"
  is_read_fd :: bool
  is_read_fd_refcount :: int
  is_sent :: "arp_frame list"

datatype arp_client_command =
  arp_client_command_none_e | arp_client_command_probe_e | arp_client_command_resolve_e | arp_client_command_detect_e

datatype arp_status =
  arp_status_none_e | arp_status_not_in_use_e | arp_status_in_use_e | arp_status_error_e | arp_status_unknown_e

datatype arp_timer = ArpProbeStart | ArpProbeRetransmit | ArpResolveRetransmit | ArpDetectRetransmit

record 'f arp_client =
  ac_command :: arp_client_command
  ac_command_status :: arp_status
  ac_fd_open :: bool
  ac_func :: "'f option"
  ac_sender_ip :: in_addr
  ac_target_ip :: in_addr
  ac_try :: int
  ac_conflict_count :: int
  ac_timer :: "arp_timer timer_callout"
  ac_in_use_addr :: arp_address_info
  ac_probe_info :: probe_info
  ac_probes_are_collisions :: bool
  ac_resolve_secs :: u32
  ac_detect_list :: "arp_address_info list option"
  ac_detect_list_count :: nat
  ac_callback_source :: bool

text \<open>What an operation on a client works on: the world, the session of its interface, the client.\<close>

record 'f arp_ctx =
  x_world :: world
  x_if :: arp_if_session
  x_client :: "'f arp_client"

abbreviation "set_client f x \<equiv> x_client_update f x"

section \<open>Set-up (arp_session.c)\<close>

definition default_arp_session :: arp_session where
  "default_arp_session =
     \<lparr>se_default_probe_info = \<lparr>pi_retry_interval = 32 / 100, pi_probe_count = 3, pi_gratuitous_count = 2, pi_skip_first = False\<rparr>,
      se_default_detect_count = 6, se_default_detect_retry = 2 / 100,
      se_default_conflict_retry_count = 2, se_default_conflict_delay = 75 / 100,
      se_is_our_address = (\<lambda>_ _. False)\<rparr>"

record arp_session_values =
  sv_probe_count :: "int option"
  sv_probe_gratuitous_count :: "int option"
  sv_probe_interval :: "rat option"
  sv_detect_count :: "int option"
  sv_detect_interval :: "rat option"
  sv_conflict_retry_count :: "int option"
  sv_conflict_delay_interval :: "rat option"

text \<open>\<open>arp_is_our_address\<close>: the hardware type and address are those of the interface.\<close>

definition arp_is_our_address :: "nat \<Rightarrow> u8 list \<Rightarrow> nat \<Rightarrow> u8 list \<Rightarrow> bool" where
  "arp_is_our_address arptype link_address hwtype hwaddr \<longleftrightarrow>
     length hwaddr = length link_address \<and> hwtype = arptype \<and> hwaddr = link_address"

definition arp_session_init :: "nat \<Rightarrow> u8 list \<Rightarrow> (nat \<Rightarrow> u8 list \<Rightarrow> bool) option \<Rightarrow> arp_session_values \<Rightarrow> arp_session" where
  "arp_session_init arptype link_address func v =
     (let d = default_arp_session;
          set = (\<lambda>x y. case x of None \<Rightarrow> y | Some z \<Rightarrow> z);
          rset = (\<lambda>x y. case x of None \<Rightarrow> y | Some z \<Rightarrow> z)
      in \<lparr>se_default_probe_info =
            \<lparr>pi_retry_interval = rset (sv_probe_interval v) (pi_retry_interval (se_default_probe_info d)),
             pi_probe_count = set (sv_probe_count v) (pi_probe_count (se_default_probe_info d)),
             pi_gratuitous_count = set (sv_probe_gratuitous_count v) (pi_gratuitous_count (se_default_probe_info d)),
             pi_skip_first = False\<rparr>,
          se_default_detect_count = set (sv_detect_count v) (se_default_detect_count d),
          se_default_detect_retry = rset (sv_detect_interval v) (se_default_detect_retry d),
          se_default_conflict_retry_count = set (sv_conflict_retry_count v) (se_default_conflict_retry_count d),
          se_default_conflict_delay = rset (sv_conflict_delay_interval v) (se_default_conflict_delay d),
          se_is_our_address = (case func of None \<Rightarrow> arp_is_our_address arptype link_address | Some f \<Rightarrow> f)\<rparr>)"

definition no_address_info :: arp_address_info where
  "no_address_info = \<lparr>ai_sender_ip = 0, ai_target_ip = 0, ai_target_hardware = replicate 16 0\<rparr>"

definition arp_if_session_new_client :: "world \<Rightarrow> arp_if_session \<Rightarrow> 'f arp_client" where
  "arp_if_session_new_client w s =
     \<lparr>ac_command = arp_client_command_none_e, ac_command_status = arp_status_none_e, ac_fd_open = False,
      ac_func = None, ac_sender_ip = 0, ac_target_ip = 0, ac_try = 0, ac_conflict_count = 0,
      ac_timer = timer_callout_init w, ac_in_use_addr = no_address_info,
      ac_probe_info = se_default_probe_info (is_session s), ac_probes_are_collisions = False,
      ac_resolve_secs = 0, ac_detect_list = None, ac_detect_list_count = 0, ac_callback_source = False\<rparr>"

definition arp_client_set_probes_are_collisions :: "bool \<Rightarrow> 'f arp_client \<Rightarrow> 'f arp_client" where
  "arp_client_set_probes_are_collisions b c = c\<lparr>ac_probes_are_collisions := b\<rparr>"

section \<open>Opening and closing, callbacks (arp_session.c)\<close>

text \<open>The packet filter is shared by the clients of an interface and counted.\<close>

definition arp_client_close_fd :: "'f arp_ctx \<Rightarrow> 'f arp_ctx" where
  "arp_client_close_fd x =
     (if \<not> ac_fd_open (x_client x) \<or> is_read_fd_refcount (x_if x) \<le> 0 then x
      else let n = is_read_fd_refcount (x_if x) - 1 in
        x\<lparr>x_if := (x_if x)\<lparr>is_read_fd_refcount := n, is_read_fd := (if n = 0 then False else is_read_fd (x_if x))\<rparr>,
          x_client := (x_client x)\<lparr>ac_fd_open := False\<rparr>\<rparr>)"

definition arp_client_is_active :: "'f arp_client \<Rightarrow> bool" where
  "arp_client_is_active c \<longleftrightarrow> ac_func c \<noteq> None"

definition arp_client_cancel_callback :: "'f arp_client \<Rightarrow> 'f arp_client" where
  "arp_client_cancel_callback c = c\<lparr>ac_callback_source := False\<rparr>"

definition arp_client_schedule_callback :: "'f arp_client \<Rightarrow> 'f arp_client" where
  "arp_client_schedule_callback c = (arp_client_cancel_callback c)\<lparr>ac_callback_source := True\<rparr>"

definition result_of :: "'f arp_client \<Rightarrow> arp_result" where
  "result_of c =
     (case ac_command_status c of
        arp_status_error_e \<Rightarrow> \<lparr>ar_error = True, ar_in_use = False, ar_addr = no_address_info\<rparr>
      | arp_status_in_use_e \<Rightarrow> \<lparr>ar_error = False, ar_in_use = True, ar_addr = ac_in_use_addr c\<rparr>
      | _ \<Rightarrow> \<lparr>ar_error = False, ar_in_use = False, ar_addr = no_address_info\<rparr>)"

definition cancel_timer :: "'f arp_ctx \<Rightarrow> 'f arp_ctx" where
  "cancel_timer x = set_client (\<lambda>c. c\<lparr>ac_timer := timer_cancel (x_world x) (ac_timer c)\<rparr>) x"

definition arp_client_callback :: "'f arp_ctx \<Rightarrow> ('f \<times> arp_result \<times> 'f arp_ctx) option" where
  "arp_client_callback x = do {
     func \<leftarrow> ac_func (x_client x);
     let x1 = cancel_timer (arp_client_close_fd (set_client (ac_func_update (\<lambda>_. None)) x));
     Some (func, result_of (x_client x1), x1) }"

definition arp_client_do_callback :: "'f arp_ctx \<Rightarrow> ('f \<times> arp_result \<times> 'f arp_ctx) option" where
  "arp_client_do_callback x = arp_client_callback (set_client arp_client_cancel_callback x)"

definition arp_client_open_fd :: "'f arp_ctx \<Rightarrow> bool \<times> 'f arp_ctx" where
  "arp_client_open_fd x =
     (if ac_fd_open (x_client x) then (True, x)
      else
        let x1 = x\<lparr>x_if := (x_if x)\<lparr>is_read_fd_refcount := is_read_fd_refcount (x_if x) + 1\<rparr>,
                   x_client := (x_client x)\<lparr>ac_fd_open := True\<rparr>\<rparr>
        in if is_read_fd_refcount (x_if x1) > 1 then (True, x1)
           else let (opened, w) = next_outcome (x_world x1); x2 = x1\<lparr>x_world := w\<rparr>
                in if opened then (True, x2\<lparr>x_if := (x_if x2)\<lparr>is_read_fd := True\<rparr>\<rparr>)
                   else (False, arp_client_close_fd x2))"

definition arp_client_cancel :: "'f arp_ctx \<Rightarrow> 'f arp_ctx" where
  "arp_client_cancel x =
     (let x1 = set_client (\<lambda>c. c\<lparr>ac_func := None, ac_command_status := arp_status_none_e\<rparr>) x;
          x2 = cancel_timer (arp_client_close_fd x1)
      in set_client (\<lambda>c. arp_client_cancel_callback (c\<lparr>ac_detect_list := None\<rparr>)) x2)"

section \<open>Sending (arp_session.c)\<close>

text \<open>
  The frame: to the host of \<open>info\<close> alone, or to all hosts with the client's addresses.  A gratuitous
  frame of a client without a sender has its target as the sender.
\<close>

definition arp_frame_of :: "arp_if_session \<Rightarrow> 'f arp_client \<Rightarrow> bool \<Rightarrow> arp_address_info option \<Rightarrow> arp_frame" where
  "arp_frame_of s c send_gratuitous info =
     (let hwlen = (if is_arptype s = ARPHRD_ETHER then 6 else 8) in
      \<lparr>af_dhost = (case info of Some i \<Rightarrow> take hwlen (ai_target_hardware i) | None \<Rightarrow> replicate hwlen 0xff),
       af_shost = take hwlen (is_link_address s),
       af_sha = (if is_arptype s = ARPHRD_ETHER then take hwlen (is_link_address s) else is_fw_addr s),
       af_spa = (case info of
                   Some i \<Rightarrow> ai_sender_ip i
                 | None \<Rightarrow> if send_gratuitous \<and> ac_sender_ip c = 0 then ac_target_ip c else ac_sender_ip c),
       af_tpa = (case info of Some i \<Rightarrow> ai_target_ip i | None \<Rightarrow> ac_target_ip c)\<rparr>)"

definition arp_client_transmit :: "bool \<Rightarrow> arp_address_info option \<Rightarrow> 'f arp_ctx \<Rightarrow> bool \<times> 'f arp_ctx" where
  "arp_client_transmit send_gratuitous info x =
     (if is_arptype (x_if x) \<noteq> ARPHRD_ETHER \<and> is_arptype (x_if x) \<noteq> ARPHRD_IEEE1394 then (False, x)
      else
        let (ok, w) = next_outcome (x_world x); x1 = x\<lparr>x_world := w\<rparr> in
        if ok then (True, x1\<lparr>x_if := (x_if x1)\<lparr>is_sent := is_sent (x_if x1) @
                       [arp_frame_of (x_if x1) (x_client x1) send_gratuitous info]\<rparr>\<rparr>)
        else (False, x1))"

definition finish_with :: "arp_status \<Rightarrow> 'f arp_ctx \<Rightarrow> 'f arp_ctx" where
  "finish_with status x =
     set_client (\<lambda>c. arp_client_schedule_callback (c\<lparr>ac_command_status := status\<rparr>)) x"

definition set_timer :: "rat \<Rightarrow> arp_timer \<Rightarrow> 'f arp_ctx \<Rightarrow> 'f arp_ctx" where
  "set_timer secs func x = set_client (\<lambda>c. c\<lparr>ac_timer := timer_callout_set (x_world x) (ac_timer c) secs func\<rparr>) x"

definition arp_client_probe_retransmit :: "'f arp_ctx \<Rightarrow> 'f arp_ctx" where
  "arp_client_probe_retransmit x =
     (let c = x_client x; info = ac_probe_info c;
          tries_left = pi_probe_count info + pi_gratuitous_count info - ac_try c
      in if tries_left \<le> 0 then finish_with arp_status_not_in_use_e x
         else
           let x1 = set_client (ac_try_update (\<lambda>n. n + 1)) x;
               (ok, x2) = (if pi_skip_first info then (True, x1)
                           else arp_client_transmit (tries_left \<le> pi_gratuitous_count info) None x1)
           in if ok then
                set_client (ac_probe_info_update (pi_skip_first_update (\<lambda>_. False)))
                  (set_timer (pi_retry_interval info) ArpProbeRetransmit x2)
              else finish_with arp_status_error_e x2)"

definition arp_client_probe_start :: "'f arp_ctx \<Rightarrow> 'f arp_ctx" where
  "arp_client_probe_start x =
     arp_client_probe_retransmit
       (set_client (\<lambda>c. c\<lparr>ac_try := 0, ac_command_status := arp_status_unknown_e\<rparr>) x)"

definition arp_client_resolve_retransmit :: "'f arp_ctx \<Rightarrow> 'f arp_ctx" where
  "arp_client_resolve_retransmit x =
     (let c = x_client x; tries_left = sint (ac_resolve_secs c - word_of_int (ac_try c)) in
      if tries_left \<le> 0 then finish_with arp_status_not_in_use_e x
      else
        let (ok, x1) = arp_client_transmit False None (set_client (ac_try_update (\<lambda>n. n + 1)) x)
        in if ok then set_timer 1 ArpResolveRetransmit x1 else finish_with arp_status_error_e x1)"

fun transmit_all :: "arp_address_info list \<Rightarrow> 'f arp_ctx \<Rightarrow> bool \<times> 'f arp_ctx" where
  "transmit_all [] x = (True, x)"
| "transmit_all (i # infos) x =
     (let (ok, x1) = arp_client_transmit False (Some i) x in if ok then transmit_all infos x1 else (False, x1))"

text \<open>The list is read up to its count, so it must not be a null pointer when the count is positive.\<close>

definition detect_list :: "'f arp_client \<Rightarrow> arp_address_info list option" where
  "detect_list c =
     (if ac_detect_list_count c = 0 then Some []
      else do { l \<leftarrow> ac_detect_list c; rdn l 0 (ac_detect_list_count c) })"

definition backoff :: "int \<Rightarrow> int" where
  "backoff n = (if n < 2 then 1 else 2 * 2 ^ nat (n - 2))"

definition arp_client_detect_retransmit :: "'f arp_ctx \<Rightarrow> 'f arp_ctx option" where
  "arp_client_detect_retransmit x =
     (let session = is_session (x_if x); tries_left = se_default_detect_count session - ac_try (x_client x) in
      if tries_left \<le> 0 then Some (finish_with arp_status_not_in_use_e x)
      else do {
        let x1 = set_client (ac_try_update (\<lambda>n. n + 1)) x;
        infos \<leftarrow> detect_list (x_client x1);
        let (keep_going, x2) = transmit_all infos x1;
        Some (if keep_going
              then set_timer (se_default_detect_retry session * of_int (backoff (ac_try (x_client x2))))
                     ArpDetectRetransmit x2
              else finish_with arp_status_error_e x2) })"

section \<open>Requests (arp_session.c)\<close>

definition start_request :: "'f \<Rightarrow> 'f arp_ctx \<Rightarrow> 'f arp_ctx" where
  "start_request func x =
     set_client (\<lambda>c. c\<lparr>ac_func := Some func, ac_try := 0, ac_conflict_count := 0\<rparr>) (arp_client_cancel x)"

definition set_addresses :: "in_addr \<Rightarrow> in_addr \<Rightarrow> 'f arp_ctx \<Rightarrow> 'f arp_ctx" where
  "set_addresses sender_ip target_ip x = set_client (\<lambda>c. c\<lparr>ac_sender_ip := sender_ip, ac_target_ip := target_ip\<rparr>) x"

definition arp_client_setup_context :: "'f \<Rightarrow> in_addr \<Rightarrow> in_addr \<Rightarrow> bool \<Rightarrow> 'f arp_ctx \<Rightarrow> 'f arp_ctx" where
  "arp_client_setup_context func sender_ip target_ip skip x =
     set_client (ac_probe_info_update (pi_skip_first_update (\<lambda>_. skip)))
       (set_addresses sender_ip target_ip (start_request func x))"

text \<open>A command runs once the packet filter is open; else the error is reported.\<close>

definition begin_command :: "arp_client_command \<Rightarrow> 'f arp_ctx \<Rightarrow> 'f arp_ctx" where
  "begin_command command x =
     set_client (\<lambda>c. c\<lparr>ac_command_status := arp_status_unknown_e, ac_command := command\<rparr>) x"

definition arp_client_announce :: "'f \<Rightarrow> in_addr \<Rightarrow> in_addr \<Rightarrow> bool \<Rightarrow> 'f arp_ctx \<Rightarrow> 'f arp_ctx" where
  "arp_client_announce func sender_ip target_ip skip x =
     (let x1 = set_client (\<lambda>c. c\<lparr>ac_try := pi_probe_count (ac_probe_info c)\<rparr>)
                 (arp_client_setup_context func sender_ip target_ip skip x);
          (opened, x2) = arp_client_open_fd x1
      in if opened then arp_client_probe_retransmit (begin_command arp_client_command_probe_e x2)
         else finish_with arp_status_error_e x2)"

definition arp_client_probe :: "'f \<Rightarrow> in_addr \<Rightarrow> in_addr \<Rightarrow> 'f arp_ctx \<Rightarrow> 'f arp_ctx" where
  "arp_client_probe func sender_ip target_ip x =
     (let (opened, x1) = arp_client_open_fd (arp_client_setup_context func sender_ip target_ip False x)
      in if opened then arp_client_probe_retransmit (begin_command arp_client_command_probe_e x1)
         else finish_with arp_status_error_e x1)"

definition arp_client_resolve :: "'f \<Rightarrow> in_addr \<Rightarrow> in_addr \<Rightarrow> u32 \<Rightarrow> 'f arp_ctx \<Rightarrow> 'f arp_ctx" where
  "arp_client_resolve func sender_ip target_ip resolve_secs x =
     (let (opened, x1) = arp_client_open_fd (set_addresses sender_ip target_ip (start_request func x))
      in if opened then
           arp_client_resolve_retransmit (begin_command arp_client_command_resolve_e
             (set_client (\<lambda>c. c\<lparr>ac_resolve_secs := (if resolve_secs > 0 then resolve_secs else 16)\<rparr>) x1))
         else finish_with arp_status_error_e x1)"

definition arp_client_detect :: "'f \<Rightarrow> arp_address_info list \<Rightarrow> 'f arp_ctx \<Rightarrow> 'f arp_ctx option" where
  "arp_client_detect func infos x =
     (let x1 = start_request func x in
      if infos = [] then Some (finish_with arp_status_error_e x1)
      else
        let (opened, x2) = arp_client_open_fd x1
        in if opened then
             arp_client_detect_retransmit (begin_command arp_client_command_detect_e
               (set_client (\<lambda>c. c\<lparr>ac_detect_list := Some infos, ac_detect_list_count := length infos\<rparr>) x2))
           else Some (finish_with arp_status_error_e x2))"

definition arp_client_defend :: "in_addr \<Rightarrow> 'f arp_ctx \<Rightarrow> bool \<times> 'f arp_ctx" where
  "arp_client_defend our_ip x =
     (let (opened, x1) = arp_client_open_fd (arp_client_cancel x)
      in if opened then
           let (defended, x2) = arp_client_transmit False None (set_addresses our_ip our_ip x1)
           in (defended, arp_client_close_fd x2)
         else (False, x1))"

text \<open>The client's timer fires.\<close>

definition arp_timer_fires :: "'f arp_ctx \<Rightarrow> 'f arp_ctx option" where
  "arp_timer_fires x =
     (let (func, tm) = timer_callout_process (ac_timer (x_client x));
          x1 = set_client (ac_timer_update (\<lambda>_. tm)) x
      in case func of
           None \<Rightarrow> Some x1
         | Some ArpProbeStart \<Rightarrow> Some (arp_client_probe_start x1)
         | Some ArpProbeRetransmit \<Rightarrow> Some (arp_client_probe_retransmit x1)
         | Some ArpResolveRetransmit \<Rightarrow> Some (arp_client_resolve_retransmit x1)
         | Some ArpDetectRetransmit \<Rightarrow> arp_client_detect_retransmit x1)"

section \<open>Receiving (arp_session.c)\<close>

record arp_packet =
  ap_caplen :: nat
  ap_hrd :: nat
  ap_pro :: nat
  ap_hln :: nat
  ap_op :: nat
  ap_sha :: "u8 list"
  ap_spa :: in_addr
  ap_tpa :: in_addr

text \<open>The sizes of the headers; a FireWire address has the bytes that \<open>is_fw_addr\<close> was read with.\<close>

definition arp_hwlen :: "arp_if_session \<Rightarrow> nat" where
  "arp_hwlen s = (if is_arptype s = ARPHRD_IEEE1394 then length (is_fw_addr s) else 6)"

definition link_header_size :: "arp_if_session \<Rightarrow> nat" where
  "link_header_size s = (if is_arptype s = ARPHRD_IEEE1394 then 18 else 14)"

definition link_arp_size :: "arp_if_session \<Rightarrow> nat" where
  "link_arp_size s = (if is_arptype s = ARPHRD_IEEE1394 then 16 + arp_hwlen s else 28)"

definition packet_ok :: "arp_if_session \<Rightarrow> arp_packet \<Rightarrow> bool" where
  "packet_ok s p \<longleftrightarrow>
     \<not> (ap_caplen p < link_header_size s + link_arp_size s \<or> ap_hln p \<noteq> arp_hwlen s \<or>
        (ap_op p \<noteq> ARPOP_REPLY \<and> ap_op p \<noteq> ARPOP_REQUEST) \<or> ap_hrd p \<noteq> is_arptype s \<or> ap_pro p \<noteq> ETHERTYPE_IP)"

text \<open>The address that matched; \<open>bcopy\<close> of the hardware address keeps the rest of the field.\<close>

definition in_use_by :: "arp_if_session \<Rightarrow> 'f arp_client \<Rightarrow> arp_packet \<Rightarrow> arp_address_info" where
  "in_use_by s c p =
     (let n = length (is_link_address s) in
      \<lparr>ai_sender_ip = ac_sender_ip c, ai_target_ip = ac_target_ip c,
       ai_target_hardware = take n (ap_sha p) @ drop n (ai_target_hardware (ac_in_use_addr c))\<rparr>)"

text \<open>Whether a packet answers the client, and with which address.\<close>

definition match_packet :: "arp_if_session \<Rightarrow> 'f arp_client \<Rightarrow> arp_packet \<Rightarrow> arp_address_info option option" where
  "match_packet s c p =
     (let n = length (is_link_address s);
          is_our_address = se_is_our_address (is_session s) (is_arptype s) (take n (ap_sha p))
      in case ac_command c of
           arp_client_command_none_e \<Rightarrow> Some None
         | arp_client_command_probe_e \<Rightarrow>
             Some (if is_our_address then None
                   else if ac_target_ip c = ap_spa p \<or>
                          (ac_probes_are_collisions c \<and> ap_op p = ARPOP_REQUEST \<and> ap_spa p = 0 \<and> ac_target_ip c = ap_tpa p)
                   then Some (in_use_by s c p) else None)
         | arp_client_command_resolve_e \<Rightarrow>
             Some (if ac_target_ip c = ap_spa p \<and> ap_op p = ARPOP_REPLY then Some (in_use_by s c p) else None)
         | arp_client_command_detect_e \<Rightarrow>
             if ap_op p \<noteq> ARPOP_REPLY then Some None
             else do {
               infos \<leftarrow> detect_list c;
               Some (find (\<lambda>i. ai_sender_ip i = ap_tpa p \<and> ai_target_ip i = ap_spa p \<and>
                            take n (ai_target_hardware i) = take n (ap_sha p)) infos) })"

text \<open>
  One client and one packet; the flag says that the packet is not offered to further clients, which
  happens when a probe meets a conflict and is started again.
\<close>

definition client_packet :: "world \<Rightarrow> arp_if_session \<Rightarrow> arp_packet \<Rightarrow> 'f arp_client \<Rightarrow> (bool \<times> 'f arp_client) option" where
  "client_packet w s p c =
     (if ac_func c = None \<or> ac_command_status c = arp_status_in_use_e then Some (False, c)
      else do {
        found \<leftarrow> match_packet s c p;
        case found of
          None \<Rightarrow> Some (False, c)
        | Some info \<Rightarrow>
            let c1 = c\<lparr>ac_in_use_addr := info, ac_command_status := arp_status_in_use_e\<rparr> in
            Some (if ac_command c1 = arp_client_command_probe_e \<and> \<not> ac_probes_are_collisions c1 then
                    let c2 = c1\<lparr>ac_conflict_count := ac_conflict_count c1 + 1\<rparr> in
                    if ac_conflict_count c2 \<le> se_default_conflict_retry_count (is_session s)
                    then (True, c2\<lparr>ac_timer := timer_callout_set w (ac_timer c2)
                                    (se_default_conflict_delay (is_session s)) ArpProbeStart\<rparr>)
                    else (False, arp_client_schedule_callback c2)
                  else (False, arp_client_schedule_callback c1)) })"

fun packet_to_clients :: "world \<Rightarrow> arp_if_session \<Rightarrow> arp_packet \<Rightarrow> 'f arp_client list \<Rightarrow> 'f arp_client list option" where
  "packet_to_clients w s p [] = Some []"
| "packet_to_clients w s p (c # cs) = do {
     (next_packet, c') \<leftarrow> client_packet w s p c;
     if next_packet then Some (c' # cs)
     else map_option ((#) c') (packet_to_clients w s p cs) }"

datatype arp_read = ReadAgain | ReadFailed | ReadPackets "arp_packet list"

definition client_error :: "'f arp_client \<Rightarrow> 'f arp_client" where
  "client_error c =
     (if ac_func c = None then c
      else arp_client_schedule_callback (c\<lparr>ac_command_status := arp_status_error_e\<rparr>))"

definition arp_if_session_read ::
  "world \<Rightarrow> arp_if_session \<Rightarrow> arp_read \<Rightarrow> 'f arp_client list \<Rightarrow> 'f arp_client list option" where
  "arp_if_session_read w s r clients =
     (if is_read_fd_refcount s = 0 then Some clients
      else case r of
        ReadAgain \<Rightarrow> Some clients
      | ReadFailed \<Rightarrow> Some (map client_error clients)
      | ReadPackets ps \<Rightarrow>
          foldM (\<lambda>cs p. if packet_ok s p then packet_to_clients w s p cs else Some cs) clients ps)"

text \<open>The addresses of a packet are read with the length of the interface's address.\<close>

definition arp_packet_ok :: "arp_if_session \<Rightarrow> arp_packet \<Rightarrow> bool" where
  "arp_packet_ok s p \<longleftrightarrow> length (is_link_address s) \<le> length (ap_sha p)"

end
