(* ===== verification/ClientLease.thy ===== *)
theory ClientLease
  imports ClientOptions ArpSession
begin

text \<open>
  The leases a DHCP client remembers for the networks it was on, and the file that keeps the last one
  (\<open>IPConfiguration.bproj/DHCPLease.c\<close>).

  The list is the Isabelle list of its leases (theory DynArray shows that a \<open>dynarray_t\<close> is one), the most
  recently used one last.  An entry that is changed in place is replaced.  Core Foundation values are the
  constructors of \<open>cf_value\<close>, a property list is a map from its keys.
\<close>

section \<open>Packets as bytes\<close>

text \<open>The bytes of \<open>struct dhcp\<close>; \<open>dp_secs\<close> and \<open>dp_flags\<close> are as a little-endian machine stores them.\<close>

definition le16_bytes :: "u16 \<Rightarrow> u8 list" where
  "le16_bytes v = [ucast v, ucast (drop_bit 8 v)]"

definition packet_bytes :: "dhcp \<Rightarrow> u8 list" where
  "packet_bytes p = [dp_op p, dp_htype p, dp_hlen p, dp_hops p] @ net_uint32_bytes (dp_xid p) @
     le16_bytes (dp_secs p) @ le16_bytes (dp_flags p) @ net_uint32_bytes (dp_ciaddr p) @
     net_uint32_bytes (dp_yiaddr p) @ net_uint32_bytes (dp_siaddr p) @ net_uint32_bytes (dp_giaddr p) @
     dp_chaddr p @ dp_sname p @ dp_file p @ dp_options p"

definition le16_at :: "u8 list \<Rightarrow> nat \<Rightarrow> u16" where
  "le16_at b i = ucast (b ! i) OR push_bit 8 (ucast (b ! (i + 1)))"

definition be32_at :: "u8 list \<Rightarrow> nat \<Rightarrow> u32" where
  "be32_at b i = push_bit 24 (ucast (b ! i)) OR push_bit 16 (ucast (b ! (i + 1))) OR
     push_bit 8 (ucast (b ! (i + 2))) OR ucast (b ! (i + 3))"

definition packet_of_bytes :: "u8 list \<Rightarrow> dhcp option" where
  "packet_of_bytes b =
     (if length b < nat sizeof_dhcp then None
      else Some \<lparr>dp_op = b ! 0, dp_htype = b ! 1, dp_hlen = b ! 2, dp_hops = b ! 3, dp_xid = be32_at b 4,
        dp_secs = le16_at b 8, dp_flags = le16_at b 10, dp_ciaddr = be32_at b 12, dp_yiaddr = be32_at b 16,
        dp_siaddr = be32_at b 20, dp_giaddr = be32_at b 24, dp_chaddr = take 16 (drop 28 b),
        dp_sname = take 64 (drop 44 b), dp_file = take 128 (drop 108 b), dp_options = drop 236 b\<rparr>)"

text \<open>Copying \<open>pkt_len\<close> bytes out of a packet, and bytes over the first ones of a packet.\<close>

definition bytes_of_packet :: "dhcp \<Rightarrow> int \<Rightarrow> u8 list option" where
  "bytes_of_packet p pkt_len = rdn (packet_bytes p) 0 (nat pkt_len)"

definition overwrite_packet :: "dhcp \<Rightarrow> u8 list \<Rightarrow> dhcp option" where
  "overwrite_packet p bytes = do { b \<leftarrow> wrn (packet_bytes p) 0 bytes; packet_of_bytes b }"

text \<open>A list that cannot be parsed is empty.\<close>

definition parsed_options :: "dhcp \<Rightarrow> int \<Rightarrow> dhcpol option" where
  "parsed_options pkt len = do {
     r \<leftarrow> dhcpol_parse_packet pkt len;
     Some (case r of Inl _ \<Rightarrow> dhcpol_init | Inr l \<Rightarrow> l) }"

section \<open>Leases (DHCPLease.h, DHCPLease.c)\<close>

definition MAX_LINK_ADDR_LEN :: nat where
  "MAX_LINK_ADDR_LEN = 16"

text \<open>\<open>ls_pkt\<close> are the bytes of the packet; \<open>pkt_length\<close> is their number.\<close>

record dhcp_lease =
  ls_tentative :: bool
  ls_nak :: bool
  ls_our_ip :: in_addr
  ls_lease_start :: absolute_time
  ls_lease_length :: u32
  ls_router_ip :: in_addr
  ls_router_hwaddr :: "u8 list"
  ls_router_hwaddr_length :: nat
  ls_wifi_mac :: "u8 list"
  ls_wifi_mac_is_set :: bool
  ls_ssid :: "string option"
  ls_networkID :: "string option"
  ls_pkt :: "u8 list"

definition DHCPLeaseSetNAK :: "bool \<Rightarrow> dhcp_lease \<Rightarrow> dhcp_lease" where
  "DHCPLeaseSetNAK nak l = l\<lparr>ls_nak := nak\<rparr>"

text \<open>At most sixteen bytes of the router's hardware address are kept.\<close>

definition hwaddr_field :: "u8 list \<Rightarrow> nat \<Rightarrow> (u8 list \<times> nat) option" where
  "hwaddr_field hwaddr len =
     (let n = min len MAX_LINK_ADDR_LEN in
      do { b \<leftarrow> rdn hwaddr 0 n; Some (b @ replicate (MAX_LINK_ADDR_LEN - n) 0, n) })"

definition DHCPLeaseCreate ::
  "in_addr \<Rightarrow> in_addr \<Rightarrow> (u8 list \<times> nat) option \<Rightarrow> absolute_time \<Rightarrow> u32 \<Rightarrow> dhcp \<Rightarrow> int \<Rightarrow>
   string option \<Rightarrow> string option \<Rightarrow> dhcp_lease option" where
  "DHCPLeaseCreate our_ip router_ip router_hwaddr lease_start lease_length pkt pkt_size ssid networkID = do {
     bytes \<leftarrow> bytes_of_packet pkt pkt_size;
     (hwaddr, hwlen) \<leftarrow>
       (case router_hwaddr of
          None \<Rightarrow> Some (replicate MAX_LINK_ADDR_LEN 0, 0)
        | Some (b, n) \<Rightarrow> hwaddr_field b n);
     Some \<lparr>ls_tentative = False, ls_nak = False, ls_our_ip = our_ip, ls_lease_start = lease_start,
       ls_lease_length = lease_length, ls_router_ip = router_ip, ls_router_hwaddr = hwaddr,
       ls_router_hwaddr_length = hwlen, ls_wifi_mac = replicate 6 0, ls_wifi_mac_is_set = False,
       ls_ssid = ssid, ls_networkID = (if ssid = None then None else networkID),
       ls_pkt = bytes\<rparr> }"

section \<open>The lease as a property list (DHCPLease.c)\<close>

datatype cf_value = CFData "u8 list" | CFDate absolute_time | CFString string | CFNumber u32

type_synonym cf_dictionary = "string \<rightharpoonup> cf_value"

fun isA_CFData :: "cf_value option \<Rightarrow> u8 list option" where
  "isA_CFData (Some (CFData b)) = Some b"
| "isA_CFData _ = None"

fun isA_CFDate :: "cf_value option \<Rightarrow> absolute_time option" where
  "isA_CFDate (Some (CFDate t)) = Some t"
| "isA_CFDate _ = None"

fun isA_CFString :: "cf_value option \<Rightarrow> string option" where
  "isA_CFString (Some (CFString s)) = Some s"
| "isA_CFString _ = None"

text \<open>
  Whether the identifier in the file is the client's; the second flag is \<open>is_laa\<close>, for a locally
  administered Ethernet address that is not the present one.
\<close>

definition client_id_data_matches :: "u8 list option \<Rightarrow> u8 \<Rightarrow> u8 list \<Rightarrow> bool \<times> bool" where
  "client_id_data_matches client_id cid_type cid =
     (case client_id of
        None \<Rightarrow> (False, False)
      | Some bytes \<Rightarrow>
          if cid = [] \<or> length bytes \<noteq> length cid + 1 \<or> hd bytes \<noteq> cid_type then (False, False)
          else if tl bytes = cid then (True, False)
          else if cid_type = 1 \<and> length cid = 6 \<and> tl bytes ! 0 AND 2 \<noteq> 0 then (True, True)
          else (False, False))"

definition client_id_data_create :: "u8 \<Rightarrow> u8 list \<Rightarrow> u8 list" where
  "client_id_data_create cid_type cid = cid_type # cid"

text \<open>\<open>aton\<close> prints an address as \<open>CFStringCreateWithFormat\<close> does; the printed addresses are never read.\<close>

definition DHCPLeaseCopyDictionary :: "(in_addr \<Rightarrow> string) \<Rightarrow> dhcp_lease \<Rightarrow> u8 \<Rightarrow> u8 list \<Rightarrow> cf_dictionary" where
  "DHCPLeaseCopyDictionary ntoa l cid_type cid =
     [''ClientIdentifier'' \<mapsto> CFData (client_id_data_create cid_type cid),
      ''IPAddress'' \<mapsto> CFString (ntoa (ls_our_ip l)),
      ''LeaseStartDate'' \<mapsto> CFDate (ls_lease_start l),
      ''LeaseLength'' \<mapsto> CFNumber (ls_lease_length l),
      ''PacketData'' \<mapsto> CFData (ls_pkt l)]
     ++ (case ls_ssid l of
           None \<Rightarrow> Map.empty
         | Some s \<Rightarrow> [''SSID'' \<mapsto> CFString s] ++
             (case ls_networkID l of None \<Rightarrow> Map.empty | Some i \<Rightarrow> [''NetworkID'' \<mapsto> CFString i]))
     ++ (if ls_router_ip l = 0 then Map.empty
         else [''RouterIPAddress'' \<mapsto> CFString (ntoa (ls_router_ip l))] ++
           (if ls_router_hwaddr_length l = 0 then Map.empty
            else [''RouterHardwareAddress'' \<mapsto> CFData (take (ls_router_hwaddr_length l) (ls_router_hwaddr l))]))"

text \<open>\<open>None\<close> inside the result: the dictionary does not hold a lease for this client.\<close>

definition lease_from_packet :: "u8 list \<Rightarrow> absolute_time \<Rightarrow> u8 list option \<Rightarrow> dhcp_lease option" where
  "lease_from_packet bytes start_date hwaddr_data = do {
     pkt \<leftarrow> packet_of_bytes bytes;
     options \<leftarrow> parsed_options pkt (int (length bytes));
     (lease_time, _, _) \<leftarrow> dhcp_get_lease_from_options options;
     router \<leftarrow> dhcp_get_router_address options (dp_yiaddr pkt);
     (hwaddr, hwlen) \<leftarrow>
       (case (router, hwaddr_data) of
          (Some _, Some b) \<Rightarrow> hwaddr_field b (length b)
        | _ \<Rightarrow> Some (replicate MAX_LINK_ADDR_LEN 0, 0));
     Some \<lparr>ls_tentative = False, ls_nak = False, ls_our_ip = dp_yiaddr pkt, ls_lease_start = start_date,
       ls_lease_length = lease_time, ls_router_ip = (case router of None \<Rightarrow> 0 | Some r \<Rightarrow> r),
       ls_router_hwaddr = hwaddr, ls_router_hwaddr_length = hwlen, ls_wifi_mac = replicate 6 0,
       ls_wifi_mac_is_set = False, ls_ssid = None, ls_networkID = None,
       ls_pkt = bytes\<rparr> }"

definition DHCPLeaseCreateWithDictionary ::
  "cf_dictionary \<Rightarrow> u8 \<Rightarrow> u8 list \<Rightarrow> bool \<Rightarrow> dhcp_lease option option" where
  "DHCPLeaseCreateWithDictionary dict cid_type cid is_wifi =
     (let client_id = isA_CFData (dict ''ClientIdentifier'');
          (matches, is_laa) = client_id_data_matches client_id cid_type cid;
          ssid = isA_CFString (dict ''SSID''); networkID = isA_CFString (dict ''NetworkID'')
      in if \<not> matches \<or> (is_laa \<and> \<not> is_wifi) then Some None
         else case (isA_CFDate (dict ''LeaseStartDate''), isA_CFData (dict ''PacketData'')) of
           (Some start_date, Some bytes) \<Rightarrow>
             if is_wifi \<and> (ssid = None \<or> (dict ''NetworkID'' \<noteq> None \<and> networkID = None)) then Some None
             else if int (length bytes) < sizeof_dhcp then Some None
             else do {
               l \<leftarrow> lease_from_packet bytes start_date (isA_CFData (dict ''RouterHardwareAddress''));
               Some (Some (l\<lparr>ls_ssid := (if is_wifi then ssid else None),
                            ls_networkID := (if is_wifi then networkID else None),
                            ls_wifi_mac := (case client_id of
                                              Some b \<Rightarrow> if is_laa then take 6 (tl b) else ls_wifi_mac l
                                            | None \<Rightarrow> ls_wifi_mac l),
                            ls_wifi_mac_is_set := is_laa\<rparr>)) }
         | _ \<Rightarrow> Some None)"

section \<open>Lists of leases (DHCPLease.c)\<close>

type_synonym lease_list = "dhcp_lease list"

definition remove_at :: "nat \<Rightarrow> 'a list \<Rightarrow> 'a list" where
  "remove_at i xs = take i xs @ drop (Suc i) xs"

definition lease_is_stale :: "absolute_time \<Rightarrow> dhcp_lease \<Rightarrow> bool" where
  "lease_is_stale now l \<longleftrightarrow>
     ls_lease_length l \<noteq> DHCP_INFINITE_LEASE \<and> now \<ge> ls_lease_start l + of_int (uint (ls_lease_length l))"

function stale_loop :: "absolute_time \<Rightarrow> nat \<Rightarrow> lease_list \<Rightarrow> lease_list" where
  "stale_loop now i leases =
     (if i < length leases then
        if lease_is_stale now (leases ! i) then stale_loop now i (remove_at i leases)
        else stale_loop now (i + 1) leases
      else leases)"
  by pat_completeness auto
termination
  by (relation "measure (\<lambda>(now, i, leases). length leases - i)") (auto simp: remove_at_def)

declare stale_loop.simps [simp del]

definition DHCPLeaseListRemoveStaleLeases :: "absolute_time \<Rightarrow> lease_list \<Rightarrow> lease_list" where
  "DHCPLeaseListRemoveStaleLeases now leases = stale_loop now 0 leases"

text \<open>The list read from the file, and the address that no service uses any more, if any.\<close>

definition DHCPLeaseListRead ::
  "absolute_time \<Rightarrow> cf_dictionary option \<Rightarrow> bool \<Rightarrow> u8 \<Rightarrow> u8 list \<Rightarrow> (lease_list \<times> in_addr option) option" where
  "DHCPLeaseListRead now lease_dict is_wifi cid_type cid =
     (case lease_dict of
        None \<Rightarrow> Some ([], None)
      | Some dict \<Rightarrow> do {
          lease \<leftarrow> DHCPLeaseCreateWithDictionary dict cid_type cid is_wifi;
          case lease of
            None \<Rightarrow> Some ([], None)
          | Some l \<Rightarrow>
              let leases = DHCPLeaseListRemoveStaleLeases now [l\<lparr>ls_tentative := True\<rparr>]
              in Some (leases, if leases = [] then Some (ls_our_ip l) else None) })"

text \<open>The list and the file after writing; \<open>ok\<close> is whether the file could be written.\<close>

definition DHCPLeaseListWrite ::
  "(in_addr \<Rightarrow> string) \<Rightarrow> absolute_time \<Rightarrow> bool \<Rightarrow> u8 \<Rightarrow> u8 list \<Rightarrow> lease_list \<Rightarrow> cf_dictionary option \<Rightarrow>
   lease_list \<times> cf_dictionary option" where
  "DHCPLeaseListWrite ntoa now ok cid_type cid leases file =
     (let leases' = DHCPLeaseListRemoveStaleLeases now leases in
      (leases',
       if leases' = [] then None
       else if ok then Some (DHCPLeaseCopyDictionary ntoa (last leases') cid_type cid)
       else file))"

definition my_CFStringEqual :: "string option \<Rightarrow> string option \<Rightarrow> bool" where
  "my_CFStringEqual s1 s2 = (case (s1, s2) of (Some a, Some b) \<Rightarrow> a = b | _ \<Rightarrow> False)"

text \<open>Which leases can be looked for with ARP, and what the request for one is.\<close>

definition on_network :: "string option \<Rightarrow> string option \<Rightarrow> dhcp_lease \<Rightarrow> bool" where
  "on_network ssid networkID l =
     (case ssid of
        None \<Rightarrow> True
      | Some s \<Rightarrow> (case ls_ssid l of None \<Rightarrow> False | Some t \<Rightarrow> t = s \<or> my_CFStringEqual networkID (ls_networkID l)))"

definition arp_candidate :: "string option \<Rightarrow> string option \<Rightarrow> absolute_time option \<Rightarrow> bool \<Rightarrow> dhcp_lease \<Rightarrow> bool" where
  "arp_candidate ssid networkID start_threshold tentative_ok l \<longleftrightarrow>
     on_network ssid networkID l \<and> \<not> (ls_router_ip l = 0 \<or> ls_router_hwaddr_length l = 0) \<and>
     \<not> (ls_tentative l \<and> \<not> tentative_ok) \<and>
     (case start_threshold of None \<Rightarrow> True | Some t \<Rightarrow> \<not> ls_lease_start l < t)"

text \<open>The array is not cleared: bytes after a hardware address are those of \<open>junk\<close>.\<close>

definition arp_info_of :: "(nat \<Rightarrow> u8) \<Rightarrow> dhcp_lease \<Rightarrow> arp_address_info" where
  "arp_info_of junk l =
     \<lparr>ai_sender_ip = ls_our_ip l, ai_target_ip = ls_router_ip l,
      ai_target_hardware = take (ls_router_hwaddr_length l) (ls_router_hwaddr l) @
        map junk [ls_router_hwaddr_length l..<MAX_LINK_ADDR_LEN]\<rparr>"

definition DHCPLeaseListCopyARPAddressInfo ::
  "(nat \<Rightarrow> u8) \<Rightarrow> absolute_time \<Rightarrow> string option \<Rightarrow> string option \<Rightarrow> absolute_time option \<Rightarrow> bool \<Rightarrow> lease_list \<Rightarrow>
   arp_address_info list \<times> lease_list" where
  "DHCPLeaseListCopyARPAddressInfo junk now ssid networkID start_threshold tentative_ok leases =
     (let leases' = DHCPLeaseListRemoveStaleLeases now leases in
      (map (arp_info_of junk) (filter (arp_candidate ssid networkID start_threshold tentative_ok) leases'), leases'))"

text \<open>
  The lease for an address.  A public address is enough; for a private one the router decides.  Both
  hardware addresses are fields of sixteen bytes.
\<close>

definition lease_matches :: "in_addr \<Rightarrow> in_addr \<Rightarrow> u8 list option \<Rightarrow> nat \<Rightarrow> dhcp_lease \<Rightarrow> bool" where
  "lease_matches our_ip router_ip router_hwaddr router_hwaddr_length l \<longleftrightarrow>
     ls_our_ip l = our_ip \<and>
     (\<not> ip_is_private our_ip \<or>
      ls_router_ip l = router_ip \<and>
      (router_ip = 0 \<or>
       ls_router_hwaddr_length l = router_hwaddr_length \<and>
       (case router_hwaddr of
          None \<Rightarrow> True
        | Some h \<Rightarrow> router_hwaddr_length = 0 \<or>
            take router_hwaddr_length (ls_router_hwaddr l) = take router_hwaddr_length h)))"

fun find_index :: "('a \<Rightarrow> bool) \<Rightarrow> 'a list \<Rightarrow> nat option" where
  "find_index P [] = None"
| "find_index P (x # xs) = (if P x then Some 0 else map_option Suc (find_index P xs))"

definition DHCPLeaseListFindLease :: "lease_list \<Rightarrow> in_addr \<Rightarrow> in_addr \<Rightarrow> u8 list option \<Rightarrow> nat \<Rightarrow> nat option" where
  "DHCPLeaseListFindLease leases our_ip router_ip router_hwaddr router_hwaddr_length =
     find_index (lease_matches our_ip router_ip router_hwaddr router_hwaddr_length) leases"

text \<open>The last lease of a Wi-Fi network: the scan goes from the end of the list.\<close>

definition is_for_wifi :: "string \<Rightarrow> string option \<Rightarrow> dhcp_lease \<Rightarrow> bool" where
  "is_for_wifi ssid networkID l =
     (case ls_ssid l of None \<Rightarrow> False | Some s \<Rightarrow> s = ssid \<or> my_CFStringEqual networkID (ls_networkID l))"

fun wifi_scan :: "nat \<Rightarrow> lease_list \<Rightarrow> string \<Rightarrow> string option \<Rightarrow> nat option" where
  "wifi_scan 0 leases ssid networkID = None"
| "wifi_scan (Suc i) leases ssid networkID =
     (if is_for_wifi ssid networkID (leases ! i) then Some i else wifi_scan i leases ssid networkID)"

definition DHCPLeaseListFindLeaseForWiFi :: "lease_list \<Rightarrow> string \<Rightarrow> string option \<Rightarrow> nat option" where
  "DHCPLeaseListFindLeaseForWiFi leases ssid networkID = wifi_scan (length leases) leases ssid networkID"

lemma wifi_scan_less: "wifi_scan n leases ssid networkID = Some i \<Longrightarrow> i < n"
  by (induction n) (auto split: if_splits)

function DHCPLeaseListRemoveLeaseForWiFi :: "lease_list \<Rightarrow> string \<Rightarrow> string option \<Rightarrow> lease_list" where
  "DHCPLeaseListRemoveLeaseForWiFi leases ssid networkID =
     (case DHCPLeaseListFindLeaseForWiFi leases ssid networkID of
        None \<Rightarrow> leases
      | Some i \<Rightarrow> DHCPLeaseListRemoveLeaseForWiFi (remove_at i leases) ssid networkID)"
  by pat_completeness auto
termination
  by (relation "measure (\<lambda>(leases, ssid, networkID). length leases)")
    (auto simp: remove_at_def DHCPLeaseListFindLeaseForWiFi_def dest!: wifi_scan_less)

declare DHCPLeaseListRemoveLeaseForWiFi.simps [simp del]

text \<open>
  Whether a lease goes when a new one is added, and the lease if it stays: the mark of a NAK is taken
  off, or it counts.
\<close>

definition nak_counts :: "dhcp_lease \<Rightarrow> dhcp_lease \<Rightarrow> bool \<Rightarrow> bool" where
  "nak_counts existing new private_ip \<longleftrightarrow>
     \<not> (ip_is_private (ls_our_ip existing) \<noteq> private_ip) \<and>
     \<not> (ls_router_hwaddr_length new \<noteq> 0 \<and>
        take (ls_router_hwaddr_length existing) (ls_router_hwaddr existing) \<noteq>
        take (ls_router_hwaddr_length existing) (ls_router_hwaddr new))"

definition same_router :: "dhcp_lease \<Rightarrow> dhcp_lease \<Rightarrow> bool" where
  "same_router existing new \<longleftrightarrow>
     ls_router_ip new = ls_router_ip existing \<and>
     take (ls_router_hwaddr_length new) (ls_router_hwaddr new) =
     take (ls_router_hwaddr_length new) (ls_router_hwaddr existing)"

definition DHCPLeaseShouldBeRemoved :: "dhcp_lease \<Rightarrow> dhcp_lease \<Rightarrow> bool \<Rightarrow> bool \<times> dhcp_lease" where
  "DHCPLeaseShouldBeRemoved existing new private_ip =
     (if ls_router_ip existing = 0 \<or> ls_router_hwaddr_length existing = 0 then (True, existing)
      else
        let e = existing\<lparr>ls_nak := False\<rparr> in
        if ls_nak existing \<and> nak_counts existing new private_ip then (True, e)
        else if \<not> private_ip \<and> ls_our_ip new = ls_our_ip e then (True, e)
        else if ls_router_ip new = 0 \<or> ls_router_hwaddr_length new = 0 then (False, e)
        else (same_router e new, e))"

function update_loop :: "dhcp_lease \<Rightarrow> bool \<Rightarrow> nat \<Rightarrow> lease_list \<Rightarrow> lease_list" where
  "update_loop new private_ip i leases =
     (if i < length leases then
        let (remove, e) = DHCPLeaseShouldBeRemoved (leases ! i) new private_ip in
        if remove then update_loop new private_ip i (remove_at i leases)
        else update_loop new private_ip (i + 1) (leases[i := e])
      else leases)"
  by pat_completeness auto
termination
  by (relation "measure (\<lambda>(new, private_ip, i, leases). length leases - i)") (auto simp: remove_at_def)

declare update_loop.simps [simp del]

definition DHCPLeaseListUpdateLease :: "lease_list \<Rightarrow> dhcp_lease \<Rightarrow> lease_list" where
  "DHCPLeaseListUpdateLease leases new = update_loop new (ip_is_private (ls_our_ip new)) 0 leases @ [new]"

definition DHCPLeaseListRemoveLease :: "lease_list \<Rightarrow> in_addr \<Rightarrow> in_addr \<Rightarrow> u8 list option \<Rightarrow> nat \<Rightarrow> lease_list" where
  "DHCPLeaseListRemoveLease leases our_ip router_ip router_hwaddr router_hwaddr_length =
     (case DHCPLeaseListFindLease leases our_ip router_ip router_hwaddr router_hwaddr_length of
        None \<Rightarrow> leases
      | Some i \<Rightarrow> remove_at i leases)"

end
