(* ===== verification/ClientService.thy ===== *)
theory ClientService
  imports ClientLease
begin

text \<open>
  The state of the DHCP client and the service it runs for: \<open>Service_dhcp_t\<close> of
  \<open>IPConfiguration.bproj/dhcp.c\<close>, the IPv4 part of \<open>struct ServiceInfo\<close> of \<open>ipconfigd.c\<close>, and the functions of
  \<open>ipconfigd.c\<close> that the client calls.

  What the daemon tells the kernel, the network and the rest of the system is appended to \<open>s_actions\<close>.
  The publishing of a service builds dictionaries for the dynamic store; here it is one action.
\<close>

section \<open>Types (dhcp.h, ipconfig_types.h, ipconfigd_threads.h)\<close>

datatype dhcp_cstate =
  dhcp_cstate_inactive_e | dhcp_cstate_decline_e | dhcp_cstate_unbound_e | dhcp_cstate_init_e | dhcp_cstate_select_e
  | dhcp_cstate_bound_e | dhcp_cstate_init_reboot_e | dhcp_cstate_renew_e | dhcp_cstate_rebind_e

datatype ipconfig_status =
  ipconfig_status_success_e | ipconfig_status_invalid_operation_e | ipconfig_status_allocation_failed_e
  | ipconfig_status_internal_error_e | ipconfig_status_address_in_use_e | ipconfig_status_no_server_e
  | ipconfig_status_server_not_responding_e | ipconfig_status_lease_terminated_e | ipconfig_status_media_inactive_e
  | ipconfig_status_server_error_e | ipconfig_status_network_changed_e | ipconfig_status_lease_expired_e
  | ipconfig_status_dhcp_waiting_e

text \<open>The events the handlers of the client are called with.\<close>

datatype event_id =
  IFEventID_start_e | IFEventID_timeout_e | IFEventID_link_status_changed_e | IFEventID_renew_e | IFEventID_wake_e
  | IFEventID_arp_e | IFEventID_forget_ssid_e

text \<open>The functions, with their event, that the client's timer, its socket and its ARP client call.\<close>

datatype dhcp_timer =
  T_delayed_start | T_init event_id | T_init_reboot | T_select | T_renew_rebind event_id | T_wait
  | T_check_link event_id | T_resolve_router_retry

datatype dhcp_receiver = R_init | R_init_reboot | R_select | R_renew_rebind

datatype dhcp_arp_func = A_arp_router | A_bound | A_check_router | A_resolve_router

record link_status =
  lk_valid :: bool
  lk_active :: bool
  lk_wake_on_same_network :: bool

definition link_status_is_active :: "link_status \<Rightarrow> bool" where
  "link_status_is_active l \<longleftrightarrow> \<not> lk_valid l \<or> lk_active l"

definition link_status_is_inactive :: "link_status \<Rightarrow> bool" where
  "link_status_is_inactive l \<longleftrightarrow> \<not> link_status_is_active l"

record wifi_info =
  wi_ssid :: "string option"
  wi_networkID :: "string option"
  wi_open :: bool
  wi_allow_sharing_device_type :: bool

text \<open>
  The interface and its \<open>struct IFState\<close>: \<open>ci_services_v6\<close> has for each IPv6 service whether its method is
  automatic or \<open>rtadv\<close>, \<open>ci_other_ips\<close> the addresses of the interface's other IPv4 services.
\<close>

record client_if =
  ci_loopback :: bool
  ci_link_type :: nat
  ci_arptype :: u8
  ci_link_address :: "u8 list"
  ci_link_address_is_private :: bool
  ci_is_wireless :: bool
  ci_is_expensive :: bool
  ci_is_carplay :: bool
  ci_link_status :: link_status
  ci_netboot :: bool
  ci_wifi :: "wifi_info option"
  ci_services_v6 :: "bool list"
  ci_other_ips :: "in_addr list"

datatype client_action =
    Transmit in_addr in_addr dhcp int
  | AddAddress in_addr in_addr in_addr
  | RemoveAddress in_addr
  | FlushRoutes in_addr in_addr
  | SetAutoaddr bool
  | LinklocalChange bool
  | LinklocalNeedsAttention
  | PublishSuccess dhcp int absolute_time absolute_time
  | PublishFailure ipconfig_status bool
  | ReportConflict in_addr
  | Busy bool
  | SleepNeedsAttention
  | FailureSymptom
  | ArpDefense in_addr
  | RequestWake absolute_time int
  | CancelWake absolute_time

record router_info =
  ri_flags :: u32
  ri_iaddr :: in_addr
  ri_hwaddr :: "u8 list"

record service_ipv4 =
  v4_addr :: in_addr
  v4_mask :: in_addr
  v4_netaddr :: in_addr
  v4_broadcast :: in_addr
  v4_router :: router_info
  v4_ip_assigned_time :: absolute_time
  v4_ip_conflict_time :: absolute_time
  v4_ip_conflict_count :: int

section \<open>The client's data (dhcp.c, dhcp_thread.h)\<close>

record saved_pkt =
  sp_options :: dhcpol
  sp_pkt :: dhcp
  sp_pkt_size :: int
  sp_rating :: nat
  sp_our_ip :: in_addr
  sp_server_ip :: in_addr

record lease_info =
  li_valid :: bool
  li_expiration :: absolute_time
  li_length :: u32
  li_start :: absolute_time
  li_t1 :: absolute_time
  li_t2 :: absolute_time
  li_wifi_mac :: "u8 list"
  li_wifi_mac_is_set :: bool
  li_needs_write :: bool
  li_ssid :: "string option"
  li_networkID :: "string option"

text \<open>
  \<open>dh_request\<close> is whether the pointer \<open>request\<close> to \<open>txbuf\<close> is not null.  \<open>dh_receive\<close> is the receive function
  of the client's socket.
\<close>

record service_dhcp =
  dh_allow_wake_with_short_lease :: bool
  dh_arp :: "dhcp_arp_func arp_client"
  dh_receive :: "dhcp_receiver option"
  dh_client_id :: "u8 list option"
  dh_conflicting_address :: in_addr
  dh_disable_arp_collision_detection :: bool
  dh_gathering :: bool
  dh_got_nak :: bool
  dh_lease :: lease_info
  dh_lease_list :: lease_list
  dh_must_broadcast :: bool
  dh_request :: bool
  dh_txbuf :: dhcp
  dh_request_size :: int
  dh_renew_rebind_time :: absolute_time
  dh_resolve_router_timed_out :: bool
  dh_saved :: saved_pkt
  dh_state :: dhcp_cstate
  dh_start_secs :: absolute_time
  dh_timer :: "dhcp_timer timer_callout"
  dh_try :: int
  dh_trying_since_secs :: absolute_time
  dh_xid :: u32
  dh_user_warned :: bool
  dh_wait_secs :: int
  dh_wake_time :: absolute_time

text \<open>\<open>s_private\<close> is whether the client's data is allocated, \<open>s_lease_file\<close> the interface's lease file.\<close>

record service =
  s_world :: world
  s_globals :: client_globals
  s_if :: client_if
  s_arp_if :: arp_if_session
  s_lease_file :: "cf_dictionary option"
  s_status :: ipconfig_status
  s_ready :: bool
  s_busy :: bool
  s_address_acquisition_failure :: bool
  s_v4 :: service_ipv4
  s_private :: bool
  s_dhcp :: service_dhcp
  s_actions :: "client_action list"

abbreviation "upd f s \<equiv> s_dhcp_update f s"

definition act :: "client_action \<Rightarrow> service \<Rightarrow> service" where
  "act a s = s\<lparr>s_actions := s_actions s @ [a]\<rparr>"

definition now :: "service \<Rightarrow> absolute_time" where
  "now s = timer_current_secs (s_world s)"

text \<open>Calls that can fail, and operations of the ARP client.\<close>

definition try_call :: "service \<Rightarrow> bool \<times> service" where
  "try_call s = (let (ok, w) = next_outcome (s_world s) in (ok, s\<lparr>s_world := w\<rparr>))"

definition arp_ctx_of :: "service \<Rightarrow> dhcp_arp_func arp_ctx" where
  "arp_ctx_of s = \<lparr>x_world = s_world s, x_if = s_arp_if s, x_client = dh_arp (s_dhcp s)\<rparr>"

definition put_arp :: "dhcp_arp_func arp_ctx \<Rightarrow> service \<Rightarrow> service" where
  "put_arp x s = upd (\<lambda>d. d\<lparr>dh_arp := x_client x\<rparr>) (s\<lparr>s_world := x_world x, s_arp_if := x_if x\<rparr>)"

definition arp_do :: "(dhcp_arp_func arp_ctx \<Rightarrow> dhcp_arp_func arp_ctx) \<Rightarrow> service \<Rightarrow> service" where
  "arp_do f s = put_arp (f (arp_ctx_of s)) s"

section \<open>Accessors (ipconfigd.c)\<close>

definition ServiceGetSSID :: "service \<Rightarrow> string option" where
  "ServiceGetSSID s = Option.bind (ci_wifi (s_if s)) wi_ssid"

definition ServiceGetNetworkID :: "service \<Rightarrow> string option" where
  "ServiceGetNetworkID s = Option.bind (ci_wifi (s_if s)) wi_networkID"

definition ServiceIsNetBoot :: "service \<Rightarrow> bool" where
  "ServiceIsNetBoot s = ci_netboot (s_if s)"

definition ServiceIsPublished :: "service \<Rightarrow> bool" where
  "ServiceIsPublished s \<longleftrightarrow> s_ready s \<and> s_status s = ipconfig_status_success_e"

definition ServiceGetActiveIPAddress :: "service \<Rightarrow> in_addr" where
  "ServiceGetActiveIPAddress s = v4_addr (s_v4 s)"

definition ServiceGetActiveSubnetMask :: "service \<Rightarrow> in_addr" where
  "ServiceGetActiveSubnetMask s = v4_mask (s_v4 s)"

definition service_link_status :: "service \<Rightarrow> link_status" where
  "service_link_status s = ci_link_status (s_if s)"

definition ServiceSetStatus :: "ipconfig_status \<Rightarrow> service \<Rightarrow> service" where
  "ServiceSetStatus status s = s\<lparr>s_status := status\<rparr>"

definition ServiceSetBusy :: "bool \<Rightarrow> service \<Rightarrow> service" where
  "ServiceSetBusy busy s = (if s_busy s \<noteq> busy then act (Busy busy) (s\<lparr>s_busy := busy\<rparr>) else s)"

definition ServiceCanDoIPv6OnlyPreferred :: "service \<Rightarrow> bool" where
  "ServiceCanDoIPv6OnlyPreferred s = list_ex id (ci_services_v6 (s_if s))"

text \<open>Whether privacy is required, and whether the type of the device may still be given.\<close>

definition ServiceIsPrivacyRequired :: "service \<Rightarrow> bool \<times> bool" where
  "ServiceIsPrivacyRequired s =
     (if \<not> ci_is_wireless (s_if s) then (False, False)
      else case ci_wifi (s_if s) of
        None \<Rightarrow> (True, False)
      | Some info \<Rightarrow>
          if wi_open info then (True, False)
          else if ci_link_address_is_private (s_if s) then (True, wi_allow_sharing_device_type info)
          else (False, False))"

definition ServiceGenerateFailureSymptom :: "service \<Rightarrow> service" where
  "ServiceGenerateFailureSymptom s = act FailureSymptom (s\<lparr>s_address_acquisition_failure := True\<rparr>)"

definition ServiceSetActiveDuringSleepNeedsAttention :: "service \<Rightarrow> service" where
  "ServiceSetActiveDuringSleepNeedsAttention s = act SleepNeedsAttention s"

definition linklocal_set_needs_attention :: "service \<Rightarrow> service" where
  "linklocal_set_needs_attention s = act LinklocalNeedsAttention s"

definition linklocal_service_change :: "bool \<Rightarrow> service \<Rightarrow> service" where
  "linklocal_service_change allocate s = act (LinklocalChange allocate) s"

definition service_enable_autoaddr :: "service \<Rightarrow> service" where
  "service_enable_autoaddr s = act (SetAutoaddr True) s"

definition service_disable_autoaddr :: "service \<Rightarrow> service" where
  "service_disable_autoaddr s = act (SetAutoaddr False) (act (FlushRoutes 0 0) s)"

definition ServicePublishSuccessIPv4 :: "dhcp \<Rightarrow> int \<Rightarrow> absolute_time \<Rightarrow> absolute_time \<Rightarrow> service \<Rightarrow> service" where
  "ServicePublishSuccessIPv4 pkt pkt_size lease_start lease_expiration s =
     act (PublishSuccess pkt pkt_size lease_start lease_expiration)
       (s\<lparr>s_ready := True, s_status := ipconfig_status_success_e\<rparr>)"

definition service_publish_failure_sync :: "ipconfig_status \<Rightarrow> bool \<Rightarrow> service \<Rightarrow> service" where
  "service_publish_failure_sync status sync s = act (PublishFailure status sync) (s\<lparr>s_ready := True, s_status := status\<rparr>)"

definition service_publish_failure :: "ipconfig_status \<Rightarrow> service \<Rightarrow> service" where
  "service_publish_failure status s = service_publish_failure_sync status True s"

section \<open>The router (ipconfigd.c)\<close>

definition RIFLAGS_IADDR_VALID :: u32 where "RIFLAGS_IADDR_VALID = 1"
definition RIFLAGS_HWADDR_VALID :: u32 where "RIFLAGS_HWADDR_VALID = 2"
definition RIFLAGS_ARP_VERIFIED :: u32 where "RIFLAGS_ARP_VERIFIED = 4"
definition RIFLAGS_RESOLVE_IN_PROGRESS :: u32 where "RIFLAGS_RESOLVE_IN_PROGRESS = 8"
definition RIFLAGS_RESOLVE_TIMED_OUT :: u32 where "RIFLAGS_RESOLVE_TIMED_OUT = 16"

definition RIFLAGS_ALL_VALID :: u32 where
  "RIFLAGS_ALL_VALID = RIFLAGS_IADDR_VALID OR RIFLAGS_HWADDR_VALID OR RIFLAGS_ARP_VERIFIED"

abbreviation "router s \<equiv> v4_router (s_v4 s)"

definition upd_router :: "(router_info \<Rightarrow> router_info) \<Rightarrow> service \<Rightarrow> service" where
  "upd_router f s = s_v4_update (v4_router_update f) s"

definition service_router_flags_set_specific :: "u32 \<Rightarrow> service \<Rightarrow> service" where
  "service_router_flags_set_specific flags s = upd_router (ri_flags_update (\<lambda>f. f OR flags)) s"

definition service_router_flags_clear_specific :: "u32 \<Rightarrow> service \<Rightarrow> service" where
  "service_router_flags_clear_specific flags s = upd_router (ri_flags_update (\<lambda>f. f AND NOT flags)) s"

definition service_router_flags_are_set :: "u32 \<Rightarrow> service \<Rightarrow> bool" where
  "service_router_flags_are_set flags s \<longleftrightarrow> ri_flags (router s) AND flags = flags"

definition service_router_all_valid :: "service \<Rightarrow> bool" where
  "service_router_all_valid s = service_router_flags_are_set RIFLAGS_ALL_VALID s"

definition service_router_set_all_valid :: "service \<Rightarrow> service" where
  "service_router_set_all_valid s = service_router_flags_set_specific RIFLAGS_ALL_VALID s"

definition service_router_clear :: "service \<Rightarrow> service" where
  "service_router_clear s = upd_router (ri_flags_update (\<lambda>_. 0)) s"

definition service_router_is_iaddr_valid :: "service \<Rightarrow> bool" where
  "service_router_is_iaddr_valid s = service_router_flags_are_set RIFLAGS_IADDR_VALID s"

definition service_router_is_hwaddr_valid :: "service \<Rightarrow> bool" where
  "service_router_is_hwaddr_valid s = service_router_flags_are_set RIFLAGS_HWADDR_VALID s"

definition service_router_is_arp_verified :: "service \<Rightarrow> bool" where
  "service_router_is_arp_verified s = service_router_flags_are_set RIFLAGS_ARP_VERIFIED s"

definition service_router_clear_arp_verified :: "service \<Rightarrow> service" where
  "service_router_clear_arp_verified s = service_router_flags_clear_specific RIFLAGS_ARP_VERIFIED s"

definition service_router_set_iaddr :: "in_addr \<Rightarrow> service \<Rightarrow> service" where
  "service_router_set_iaddr iaddr s =
     service_router_flags_set_specific RIFLAGS_IADDR_VALID (upd_router (ri_iaddr_update (\<lambda>_. iaddr)) s)"

text \<open>\<open>bcopy\<close> of a hardware address into the field.\<close>

definition copy_hwaddr :: "u8 list \<Rightarrow> nat \<Rightarrow> service \<Rightarrow> service option" where
  "copy_hwaddr hwaddr n s = do {
     b \<leftarrow> rdn hwaddr 0 n;
     h \<leftarrow> wrn (ri_hwaddr (router s)) 0 b;
     Some (upd_router (ri_hwaddr_update (\<lambda>_. h)) s) }"

text \<open>
  Resolving the router's address with ARP: the flag is whether that was started.  The callback, when it
  comes, is one of three results, and the state it is handed to the client with.
\<close>

datatype router_arp_status = router_arp_status_failed_e | router_arp_status_success_e | router_arp_status_no_response_e

definition service_resolve_router :: "in_addr \<Rightarrow> service \<Rightarrow> bool \<times> service" where
  "service_resolve_router our_ip s =
     (if \<not> G_discover_and_publish_router_mac_address (s_globals s) then (False, s)
      else
        let s1 = service_router_clear_arp_verified s in
        if \<not> service_router_is_iaddr_valid s1 then (False, s1)
        else
          let s2 = service_router_flags_clear_specific RIFLAGS_RESOLVE_TIMED_OUT
                     (service_router_flags_set_specific RIFLAGS_RESOLVE_IN_PROGRESS s1)
          in (True, arp_do (arp_client_resolve A_resolve_router our_ip (ri_iaddr (router s2))
                              (S_discover_router_mac_address_secs (s_globals s2))) s2))"

definition service_resolve_router_complete :: "arp_result \<Rightarrow> service \<Rightarrow> (router_arp_status \<times> service) option" where
  "service_resolve_router_complete result s =
     (let s1 = service_router_flags_clear_specific RIFLAGS_RESOLVE_IN_PROGRESS s in
      if ar_error result then Some (router_arp_status_failed_e, s1)
      else if ar_in_use result then do {
        s2 \<leftarrow> copy_hwaddr (ai_target_hardware (ar_addr result)) (length (ci_link_address (s_if s1))) s1;
        Some (router_arp_status_success_e, service_router_set_all_valid s2) }
      else Some (router_arp_status_no_response_e, service_router_flags_set_specific RIFLAGS_RESOLVE_TIMED_OUT s1))"

definition service_populate_router_arpinfo :: "service \<Rightarrow> arp_address_info option \<times> service" where
  "service_populate_router_arpinfo s =
     (if \<not> G_discover_and_publish_router_mac_address (s_globals s) then (None, s)
      else
        let s1 = service_router_clear_arp_verified s in
        if \<not> service_router_is_iaddr_valid s1 then (None, s1)
        else (Some \<lparr>ai_sender_ip = 0, ai_target_ip = ri_iaddr (router s1), ai_target_hardware = ri_hwaddr (router s1)\<rparr>, s1))"

definition service_update_router_address :: "dhcpol \<Rightarrow> in_addr \<Rightarrow> service \<Rightarrow> (bool \<times> service) option" where
  "service_update_router_address options our_ip s = do {
     found \<leftarrow> dhcp_get_router_address options our_ip;
     Some (case found of
             None \<Rightarrow> (False, service_router_clear s)
           | Some r \<Rightarrow>
               if service_router_all_valid s \<and> r = ri_iaddr (router s) then (False, s)
               else (True, service_router_set_iaddr r (service_router_clear s))) }"

section \<open>The address of the interface (ipconfigd.c)\<close>

definition remove_ip :: "in_addr \<Rightarrow> service \<Rightarrow> service" where
  "remove_ip ip s = (if ip \<in> set (ci_other_ips (s_if s)) then s else act (RemoveAddress ip) s)"

definition service_remove_address :: "service \<Rightarrow> service" where
  "service_remove_address s =
     (let v = s_v4 s;
          s1 = (if v4_addr v \<noteq> 0 then
                  act (FlushRoutes (v4_addr v) (v4_broadcast v))
                    (remove_ip (v4_addr v) (s\<lparr>s_v4 := v\<lparr>v4_addr := 0, v4_mask := 0, v4_netaddr := 0, v4_broadcast := 0\<rparr>\<rparr>))
                else s)
      in linklocal_set_needs_attention s1)"

definition default_mask :: "in_addr \<Rightarrow> in_addr" where
  "default_mask addr = (if IN_CLASSA addr then 0xff000000 else if IN_CLASSB addr then 0xffff0000 else 0xffffff00)"

definition service_set_address :: "in_addr \<Rightarrow> in_addr \<Rightarrow> in_addr \<Rightarrow> service \<Rightarrow> service" where
  "service_set_address addr netmask broadcast s =
     (let s1 = (if v4_addr (s_v4 s) \<noteq> 0 \<and> v4_addr (s_v4 s) \<noteq> addr then service_remove_address s else s);
          netmask = (if netmask = 0 then default_mask addr else netmask);
          broadcast = (if broadcast = 0 then addr OR NOT netmask else broadcast);
          s2 = act (AddAddress addr netmask broadcast) s1;
          s3 = s2\<lparr>s_v4 := (s_v4 s2)\<lparr>v4_addr := addr, v4_mask := netmask, v4_netaddr := addr AND netmask,
                            v4_broadcast := broadcast, v4_ip_assigned_time := now s2, v4_ip_conflict_count := 0\<rparr>\<rparr>
      in linklocal_set_needs_attention (act (FlushRoutes 0 broadcast) s3))"

text \<open>
  \<open>remove_unused_ip\<close>, called while leases are read: the address of a service that does not use it.
\<close>

definition remove_unused_ip :: "in_addr \<Rightarrow> service \<Rightarrow> service" where
  "remove_unused_ip ip s = (if v4_addr (s_v4 s) = ip then s else remove_ip ip s)"

text \<open>
  Defending an address: whether that was done.  A new ARP client sends the packet; that it could be
  made and the packet sent is one call.  The record for the sleep proxy is not modelled.
\<close>

definition ServiceDefendIPv4Address :: "bool \<Rightarrow> service \<Rightarrow> bool \<times> service" where
  "ServiceDefendIPv4Address is_sleep_proxy s =
     (let g = s_globals s; v = s_v4 s; interval = of_int (S_defend_ip_address_interval_secs g) in
      if \<not> (is_sleep_proxy \<or> now s - v4_ip_assigned_time v > interval) then (False, s)
      else
        let count = (if v4_ip_conflict_count v > 0 \<and> now s - v4_ip_conflict_time v > interval then 0
                     else v4_ip_conflict_count v);
            s1 = s\<lparr>s_v4 := v\<lparr>v4_ip_conflict_time := now s, v4_ip_conflict_count := count + 1\<rparr>\<rparr>
        in if count + 1 > S_defend_ip_address_count g then (False, s1)
           else let (ok, s2) = try_call s1 in
             if ok then (True, act (ArpDefense (v4_addr v)) s2) else (False, s2))"

end
