(* ===== verification/DHCPv6Client.thy ===== *)
theory DHCPv6Client
  imports DHCPv6Socket ClientService
begin

text \<open>
  The data of a DHCPv6 client and the packets it makes and keeps (first half of
  \<open>IPConfiguration.bproj/DHCPv6Client.c\<close>).

  A pointer into the saved packet (\<open>c6_server_id\<close>, \<open>c6_ia_na_pd\<close>, \<open>c6_addr_prefix\<close>) is the list of bytes
  from there to the end of the packet, \<open>None\<close> when it is null; following a null pointer has no result.  An
  IPv6 address is its 16 bytes.  Times are rational numbers as in theory Timer.  A \<open>double\<close> that is
  converted to 32 bits becomes the nearest number there is, as on the processors the daemon runs on.

  What the client sees of the system is the record \<open>env6\<close>, which may change between events; what it tells
  the system is appended to \<open>c6_actions\<close>.
\<close>

section \<open>Types\<close>

datatype client6_mode =
  kDHCPv6ClientModeNone | kDHCPv6ClientModeStateless | kDHCPv6ClientModeStatefulAddress | kDHCPv6ClientModeStatefulPrefix

datatype client6_state =
    kDHCPv6ClientStateInactive | kDHCPv6ClientStateSolicit | kDHCPv6ClientStateRequest | kDHCPv6ClientStateBound
  | kDHCPv6ClientStateRenew | kDHCPv6ClientStateRebind | kDHCPv6ClientStateConfirm | kDHCPv6ClientStateRelease
  | kDHCPv6ClientStateUnbound | kDHCPv6ClientStateDecline | kDHCPv6ClientStateInform | kDHCPv6ClientStateInformComplete

definition S_dhcp_state_is_bound_renew_or_rebind :: "client6_state \<Rightarrow> bool" where
  "S_dhcp_state_is_bound_renew_or_rebind state \<longleftrightarrow>
     state \<in> {kDHCPv6ClientStateBound, kDHCPv6ClientStateRenew, kDHCPv6ClientStateRebind}"

text \<open>The functions, with their event, that the timer calls, and those that the socket calls with a packet.\<close>

datatype client6_func = F_Inform | F_Decline | F_RenewRebind event_id | F_Confirm | F_Request | F_Solicit

datatype client6_receiver = RF_Inform | RF_Decline | RF_RenewRebind | RF_Confirm | RF_Request | RF_Solicit

record lease_info6 =
  l6_start :: absolute_time
  l6_t1 :: u32
  l6_t2 :: u32
  l6_valid_lifetime :: u32
  l6_preferred_lifetime :: u32
  l6_valid :: bool
  l6_ssid :: "string option"

record dhcpv6_info =
  i6_pkt :: "u8 list option"
  i6_pkt_len :: int
  i6_options :: "opts6 option"

text \<open>
  \<open>e6_duid\<close> is what \<open>DHCPDUIDEstablishAndGet\<close> returns, \<open>e6_link_duid\<close> what \<open>DHCPDUIDCopy\<close> does;
  \<open>e6_addrs\<close> are the addresses of the interface with their flags, \<open>e6_prefix_length\<close> is
  \<open>inet6_get_prefix_length\<close>, \<open>e6_junk\<close> what new memory contains.
\<close>

record env6 =
  e6_link_status :: link_status
  e6_wireless :: bool
  e6_cellular :: bool
  e6_ssid :: "string option"
  e6_duid :: "u8 list option"
  e6_link_duid :: "u8 list"
  e6_iaid :: u32
  e6_privacy_required :: bool
  e6_hostname :: "u8 list option"
  e6_addrs :: "(u8 list \<times> u32) list"
  e6_prefix_length :: "u8 list \<Rightarrow> int"
  e6_junk :: "nat \<Rightarrow> u8"
  e6_requested_options :: "u16 list"
  e6_wake_skew_secs :: int
  e6_published :: bool

record info6 =
  in_pkt :: "u8 list"
  in_pkt_len :: int
  in_options :: opts6
  in_is_stateful :: bool
  in_lease_start :: absolute_time
  in_lease_expiration :: absolute_time
  in_prefix :: "u8 list"
  in_prefix_length :: u8
  in_prefix_valid_lifetime :: u32
  in_prefix_preferred_lifetime :: u32

datatype action6 =
    Transmit6 "u8 list"
  | AddAddress6 "u8 list" int u32 u32
  | RemoveAddress6 "u8 list"
  | Notify6
  | Symptom6
  | PublishSuccess6 info6
  | PublishFailure6

record client6 =
  c6_world :: world
  c6_env :: env6
  c6_globals :: socket_globals
  c6_actions :: "action6 list"
  c6_private :: bool
  c6_callback :: bool
  c6_our_ip :: "u8 list"
  c6_our_prefix_length :: int
  c6_delegated_prefix :: "u8 list"
  c6_delegated_prefix_length :: u8
  c6_requested_prefix :: "u8 list"
  c6_requested_prefix_length :: u8
  c6_mode :: client6_mode
  c6_cstate :: client6_state
  c6_sock :: "client6_receiver dhcpv6_socket"
  c6_timer :: "client6_func timer_callout"
  c6_transaction_id :: u32
  c6_try :: int
  c6_start_time :: absolute_time
  c6_retransmit_time :: rat
  c6_saved :: dhcpv6_info
  c6_lease :: lease_info6
  c6_private_address :: bool
  c6_duid :: "u8 list option"
  c6_renew_rebind_time :: absolute_time
  c6_saved_mode :: client6_mode
  c6_server_id :: "u8 list option"
  c6_ia_na_pd :: "u8 list option"
  c6_addr_prefix :: "u8 list option"

text \<open>What \<open>DHCPv6SocketReceiveData\<close> has: the receive buffer, the length of the packet, its options.\<close>

record receive6 =
  rv_pkt :: "u8 list"
  rv_pkt_len :: int
  rv_options :: opts6

section \<open>The client and its surroundings\<close>

definition no_addr :: "u8 list" where
  "no_addr = replicate 16 0"

definition now6 :: "client6 \<Rightarrow> absolute_time" where
  "now6 c = timer_current_secs (c6_world c)"

definition act6 :: "action6 \<Rightarrow> client6 \<Rightarrow> client6" where
  "act6 a c = c\<lparr>c6_actions := c6_actions c @ [a]\<rparr>"

definition sock_ctx_of :: "client6 \<Rightarrow> client6_receiver sock_ctx" where
  "sock_ctx_of c = \<lparr>sx_world = c6_world c, sx_globals = c6_globals c, sx_sock = c6_sock c\<rparr>"

definition put_sock :: "client6_receiver sock_ctx \<Rightarrow> client6 \<Rightarrow> client6" where
  "put_sock x c = c\<lparr>c6_world := sx_world x, c6_globals := sx_globals x, c6_sock := sx_sock x\<rparr>"

definition enable_receive :: "client6_receiver \<Rightarrow> client6 \<Rightarrow> client6" where
  "enable_receive f c = put_sock (DHCPv6SocketEnableReceive (c6_transaction_id c) f (sock_ctx_of c)) c"

definition disable_receive :: "client6 \<Rightarrow> client6" where
  "disable_receive c = put_sock (DHCPv6SocketDisableReceive (sock_ctx_of c)) c"

definition transmit6 :: "u8 list \<Rightarrow> client6 \<Rightarrow> client6 option" where
  "transmit6 pkt c = do {
     (sent, x) \<leftarrow> DHCPv6SocketTransmit (sock_ctx_of c);
     Some (if sent then act6 (Transmit6 pkt) (put_sock x c) else put_sock x c) }"

definition set_timer6 :: "rat \<Rightarrow> client6_func \<Rightarrow> client6 \<Rightarrow> client6" where
  "set_timer6 relative_time f c = c\<lparr>c6_timer := timer_callout_set (c6_world c) (c6_timer c) relative_time f\<rparr>"

definition cancel_timer6 :: "client6 \<Rightarrow> client6" where
  "cancel_timer6 c = c\<lparr>c6_timer := timer_cancel (c6_world c) (c6_timer c)\<rparr>"

text \<open>\<open>arc4random\<close>.\<close>

definition arc4random :: "client6 \<Rightarrow> u32 \<times> client6" where
  "arc4random c = (let w = c6_world c in (word_of_nat (w_random w (w_calls w)), c\<lparr>c6_world := w\<lparr>w_calls := w_calls w + 1\<rparr>\<rparr>))"

definition random_double_in_range :: "rat \<Rightarrow> rat \<Rightarrow> client6 \<Rightarrow> rat \<times> client6" where
  "random_double_in_range bottom top' c =
     (let (n, c') = arc4random c; r = of_nat (unat n) / 4294967295 in (bottom + (top' - bottom) * r, c'))"

definition u32_of_time :: "rat \<Rightarrow> u32" where
  "u32_of_time r = (if r \<le> 0 then 0 else if 4294967295 \<le> r then 0xffffffff else word_of_int (trunc r))"

definition DHCPv6ClientSavedInfoValid :: "client6 \<Rightarrow> bool" where
  "DHCPv6ClientSavedInfoValid c \<longleftrightarrow> c6_saved_mode c = c6_mode c"

definition DHCPv6ClientVerifyModeIsNone :: "client6 \<Rightarrow> bool" where
  "DHCPv6ClientVerifyModeIsNone c \<longleftrightarrow> c6_mode c = kDHCPv6ClientModeNone"

definition DHCPv6RequestedOptionsStatic :: "u16 list" where
  "DHCPv6RequestedOptionsStatic =
     [kDHCPv6OPTION_DNS_SERVERS, kDHCPv6OPTION_DOMAIN_LIST, kDHCPv6OPTION_CAPTIVE_PORTAL_URL, kDHCPv6OPTION_V6_DNR,
      kDHCPv6OPTION_CLIENT_FQDN]"

text \<open>The options that are requested once the settings have been read.\<close>

definition DHCPv6ClientSetRequestedOptions :: "u16 list option \<Rightarrow> u16 list" where
  "DHCPv6ClientSetRequestedOptions requested_options =
     (case requested_options of
        None \<Rightarrow> DHCPv6RequestedOptionsStatic
      | Some opts' \<Rightarrow> if opts' \<noteq> [] then opts' else DHCPv6RequestedOptionsStatic)"

definition DHCPv6ClientOptionIsOK :: "u16 list \<Rightarrow> int \<Rightarrow> bool" where
  "DHCPv6ClientOptionIsOK requested code \<longleftrightarrow>
     code \<in> {1, 2, 6, 8, 12, 14, 3, 5, 13, 4, 7, 9, 11, 15, 16, 17, 18, 19, 20, 25, 26} \<or>
     list_ex (\<lambda>o'. uint o' = code) requested"

definition S_get_prefix_length :: "client6 \<Rightarrow> u8 list \<Rightarrow> int" where
  "S_get_prefix_length c addr = (let n = e6_prefix_length (c6_env c) addr in if n = 0 then 128 else n)"

section \<open>Identifiers\<close>

definition DHCPv6ClientGetDUID :: "client6 \<Rightarrow> u8 list option \<times> client6" where
  "DHCPv6ClientGetDUID c =
     (if c6_private_address c then
        (case c6_duid c of
           None \<Rightarrow> (Some (e6_link_duid (c6_env c)), c\<lparr>c6_duid := Some (e6_link_duid (c6_env c))\<rparr>)
         | Some d \<Rightarrow> (Some d, c))
      else (e6_duid (c6_env c), c))"

definition DHCPv6ClientGetIAID :: "client6 \<Rightarrow> u32" where
  "DHCPv6ClientGetIAID c = (if c6_private_address c then 0 else e6_iaid (c6_env c))"

definition S_insert_duid :: "client6 \<Rightarrow> option_area6 \<Rightarrow> (bool \<times> client6 \<times> option_area6) option" where
  "S_insert_duid c oa =
     (let (data, c') = DHCPv6ClientGetDUID c in
      case data of
        None \<Rightarrow> Some (False, c', oa)
      | Some d \<Rightarrow> do {
          (ok, oa') \<leftarrow> DHCPv6OptionAreaAddOption oa kDHCPv6OPTION_CLIENTID (word_of_nat (length d)) d;
          Some (ok, c', oa') })"

definition S_duid_matches :: "client6 \<Rightarrow> opts6 \<Rightarrow> (bool \<times> client6) option" where
  "S_duid_matches c options = do {
     let (data, c') = DHCPv6ClientGetDUID c;
     r \<leftarrow> DHCPv6OptionListGetOptionDataAndLength options kDHCPv6OPTION_CLIENTID 0;
     (case r of
        None \<Rightarrow> Some (False, c')
      | Some (duid, option_len, _) \<Rightarrow> do {
          d \<leftarrow> data;
          if int (length d) \<noteq> option_len then Some (False, c')
          else do { bytes \<leftarrow> rdn duid 0 (nat option_len); Some (bytes = d, c') } }) }"

section \<open>Looking into received options\<close>

definition ia_code :: "bool \<Rightarrow> u16" where
  "ia_code get_ia_na = (if get_ia_na then kDHCPv6OPTION_IA_NA else kDHCPv6OPTION_IA_PD)"

definition ia_min_length :: "bool \<Rightarrow> int" where
  "ia_min_length get_ia_na = (if get_ia_na then DHCPv6OptionIA_NA_MIN_LENGTH else DHCPv6OptionIA_PD_MIN_LENGTH)"

definition addr_code :: "bool \<Rightarrow> u16" where
  "addr_code get_ia_na = (if get_ia_na then kDHCPv6OPTION_IAADDR else kDHCPv6OPTION_IAPREFIX)"

definition addr_min_length :: "bool \<Rightarrow> int" where
  "addr_min_length get_ia_na = (if get_ia_na then DHCPv6OptionIAADDR_MIN_LENGTH else DHCPv6OptionIAPREFIX_MIN_LENGTH)"

definition addr_valid :: "bool \<Rightarrow> u8 list \<Rightarrow> u32 option" where
  "addr_valid get_ia_na p = (if get_ia_na then DHCPv6OptionIAADDRGetValidLifetime p else DHCPv6OptionIAPREFIXGetValidLifetime p)"

definition addr_preferred :: "bool \<Rightarrow> u8 list \<Rightarrow> u32 option" where
  "addr_preferred get_ia_na p =
     (if get_ia_na then DHCPv6OptionIAADDRGetPreferredLifetime p else DHCPv6OptionIAPREFIXGetPreferredLifetime p)"

definition ia_t1 :: "bool \<Rightarrow> u8 list \<Rightarrow> u32 option" where
  "ia_t1 get_ia_na p = (if get_ia_na then DHCPv6OptionIA_NAGetT1 p else DHCPv6OptionIA_PDGetT1 p)"

definition ia_t2 :: "bool \<Rightarrow> u8 list \<Rightarrow> u32 option" where
  "ia_t2 get_ia_na p = (if get_ia_na then DHCPv6OptionIA_NAGetT2 p else DHCPv6OptionIA_PDGetT2 p)"

text \<open>
  The search for the first address or prefix with lifetimes that are not 0.  The index is incremented by the
  loop although it already is the one after the option that was found.
\<close>

fun find_addr_prefix :: "nat \<Rightarrow> bool \<Rightarrow> opts6 \<Rightarrow> nat \<Rightarrow> u8 list option option" where
  "find_addr_prefix 0 get_ia_na sub_options start_index = None"
| "find_addr_prefix (Suc n) get_ia_na sub_options start_index = do {
     r \<leftarrow> DHCPv6OptionListGetOptionDataAndLength sub_options (addr_code get_ia_na) start_index;
     (case r of
        None \<Rightarrow> Some None
      | Some (apu, option_len, start_index') \<Rightarrow>
          if option_len < addr_min_length get_ia_na then Some None
          else do {
            valid \<leftarrow> addr_valid get_ia_na apu;
            preferred \<leftarrow> addr_preferred get_ia_na apu;
            if valid = 0 \<or> preferred = 0 then find_addr_prefix n get_ia_na sub_options (start_index' + 1)
            else if preferred > valid then Some None
            else Some (Some apu) }) }"

declare find_addr_prefix.simps [simp del]

text \<open>The IA_NA or IA_PD, the address or prefix in it, and the status code.\<close>

definition get_ia_na_pd_code :: "bool \<Rightarrow> opts6 \<Rightarrow> (u8 list option \<times> u8 list option \<times> u16) option" where
  "get_ia_na_pd_code get_ia_na options = do {
     r \<leftarrow> DHCPv6OptionListGetOptionDataAndLength options (ia_code get_ia_na) 0;
     (case r of
        None \<Rightarrow> Some (None, None, kDHCPv6StatusCodeSuccess)
      | Some (ia, option_len, _) \<Rightarrow>
          if option_len \<le> ia_min_length get_ia_na then Some (None, None, kDHCPv6StatusCodeSuccess)
          else do {
            t1 \<leftarrow> ia_t1 get_ia_na ia;
            t2 \<leftarrow> ia_t2 get_ia_na ia;
            if t1 \<noteq> 0 \<and> t2 \<noteq> 0 \<and> t1 > t2 then Some (None, None, kDHCPv6StatusCodeSuccess)
            else do {
              l \<leftarrow> DHCPv6OptionListCreate (drop 12 ia) (option_len - ia_min_length get_ia_na);
              (case l of
                 None \<Rightarrow> Some (None, None, kDHCPv6StatusCodeSuccess)
               | Some sub_options \<Rightarrow> do {
                   (success, status_code, _, _) \<leftarrow> DHCPv6OptionListGetStatusCode sub_options;
                   if \<not> success then Some (None, None, status_code)
                   else do {
                     ap \<leftarrow> find_addr_prefix (DHCPv6OptionListGetCount sub_options + 1) get_ia_na sub_options 0;
                     Some (if ap = None then None else Some ia, ap, status_code) } }) } }) }"

definition get_ia_na_pd :: "bool \<Rightarrow> opts6 \<Rightarrow> (u8 list option \<times> u8 list option) option" where
  "get_ia_na_pd get_ia_na options = do {
     (ia, ap, _) \<leftarrow> get_ia_na_pd_code get_ia_na options;
     Some (ia, ap) }"

definition get_preference_value_from_options :: "opts6 \<Rightarrow> u8 option" where
  "get_preference_value_from_options options = do {
     r \<leftarrow> DHCPv6OptionListGetOptionDataAndLength options kDHCPv6OPTION_PREFERENCE 0;
     (case r of
        None \<Rightarrow> Some 0
      | Some (pref, option_len, _) \<Rightarrow> if option_len \<ge> 1 then rd pref 0 else Some 0) }"

text \<open>The length of an option is in the two bytes before its data, which lies in \<open>pkt\<close>.\<close>

definition option_data_get_length :: "u8 list \<Rightarrow> u8 list \<Rightarrow> u16 option" where
  "option_data_get_length pkt option_data =
     (if length pkt < length option_data + 2 then None
      else net_uint16_get (drop (length pkt - length option_data - 2) pkt))"

section \<open>Times\<close>

definition DHCPv6_RAND :: "client6 \<Rightarrow> rat \<times> client6" where
  "DHCPv6_RAND c = random_double_in_range (- (1 / 10)) (1 / 10) c"

definition DHCPv6SubsequentTimeout :: "rat \<Rightarrow> rat \<Rightarrow> client6 \<Rightarrow> rat \<times> client6" where
  "DHCPv6SubsequentTimeout RTprev MRT c =
     (let (r, c1) = DHCPv6_RAND c; RT = 2 * RTprev + r * RTprev
      in if MRT \<noteq> 0 \<and> RT > MRT then (let (r', c2) = DHCPv6_RAND c1 in (MRT + r' * MRT, c2)) else (RT, c1))"

definition DHCPv6InitialTimeout :: "rat \<Rightarrow> client6 \<Rightarrow> rat \<times> client6" where
  "DHCPv6InitialTimeout IRT c = (let (r, c1) = DHCPv6_RAND c in (IRT + r * IRT, c1))"

text \<open>The two bytes of the elapsed time as they are sent.\<close>

definition get_elapsed_time :: "client6 \<Rightarrow> u8 list" where
  "get_elapsed_time c =
     (if c6_try c = 1 then [0, 0]
      else let elapsed = u32_of_time ((now6 c - c6_start_time c) * 100)
        in if elapsed > 0xffff then [0xff, 0xff] else net_uint16_bytes (ucast elapsed))"

definition DHCPv6ClientSetNewTransactionID :: "client6 \<Rightarrow> client6" where
  "DHCPv6ClientSetNewTransactionID c = (let (r, c') = arc4random c in c'\<lparr>c6_transaction_id := r AND 0x00ffffff\<rparr>)"

definition DHCPv6ClientClearRetransmit :: "client6 \<Rightarrow> client6" where
  "DHCPv6ClientClearRetransmit c = c\<lparr>c6_try := 0\<rparr>"

definition DHCPv6ClientNextRetransmit :: "rat \<Rightarrow> rat \<Rightarrow> client6 \<Rightarrow> rat \<times> client6" where
  "DHCPv6ClientNextRetransmit IRT MRT c =
     (let c1 = c\<lparr>c6_try := c6_try c + 1\<rparr>;
          (rt, c2) = (if c6_try c1 = 1 then DHCPv6InitialTimeout IRT c1
                      else DHCPv6SubsequentTimeout (c6_retransmit_time c1) MRT c1)
      in (rt, c2\<lparr>c6_retransmit_time := rt\<rparr>))"

section \<open>Small steps\<close>

definition DHCPv6ClientSetState :: "client6_state \<Rightarrow> client6 \<Rightarrow> client6" where
  "DHCPv6ClientSetState cstate c = c\<lparr>c6_cstate := cstate\<rparr>"

definition DHCPv6ClientRemoveAddress :: "client6 \<Rightarrow> client6" where
  "DHCPv6ClientRemoveAddress c =
     (if c6_our_ip c = no_addr then c
      else (act6 (RemoveAddress6 (c6_our_ip c)) c)\<lparr>c6_our_ip := no_addr, c6_our_prefix_length := 0\<rparr>)"

definition DHCPv6ClientPostNotification :: "client6 \<Rightarrow> client6" where
  "DHCPv6ClientPostNotification c = (if c6_callback c then act6 Notify6 c else c)"

definition DHCPv6ClientCancelPendingEvents :: "client6 \<Rightarrow> client6" where
  "DHCPv6ClientCancelPendingEvents c = cancel_timer6 (disable_receive c)"

definition no_lease6 :: lease_info6 where
  "no_lease6 = \<lparr>l6_start = 0, l6_t1 = 0, l6_t2 = 0, l6_valid_lifetime = 0, l6_preferred_lifetime = 0, l6_valid = False, l6_ssid = None\<rparr>"

definition DHCPv6ClientClearLease :: "client6 \<Rightarrow> client6" where
  "DHCPv6ClientClearLease c = c\<lparr>c6_lease := no_lease6\<rparr>"

definition DHCPv6ClientClearPacket :: "client6 \<Rightarrow> client6" where
  "DHCPv6ClientClearPacket c =
     (DHCPv6ClientClearLease c)\<lparr>c6_saved := \<lparr>i6_pkt = None, i6_pkt_len = 0, i6_options = None\<rparr>,
        c6_server_id := None, c6_ia_na_pd := None, c6_addr_prefix := None, c6_saved_mode := kDHCPv6ClientModeNone\<rparr>"

definition DHCPv6ClientInactive :: "client6 \<Rightarrow> client6" where
  "DHCPv6ClientInactive c =
     DHCPv6ClientPostNotification (DHCPv6ClientRemoveAddress (DHCPv6ClientClearPacket (DHCPv6ClientCancelPendingEvents c)))"

definition DHCPv6ClientLeaseOnSameNetwork :: "client6 \<Rightarrow> bool" where
  "DHCPv6ClientLeaseOnSameNetwork c \<longleftrightarrow>
     (if \<not> e6_wireless (c6_env c) then True
      else (case (e6_ssid (c6_env c), l6_ssid (c6_lease c)) of
              (Some ssid, Some lease_ssid) \<Rightarrow> ssid = lease_ssid
            | _ \<Rightarrow> False))"

text \<open>The lease that has ended is dropped with its packet.\<close>

definition DHCPv6ClientLeaseStillValid :: "absolute_time \<Rightarrow> client6 \<Rightarrow> bool \<times> client6" where
  "DHCPv6ClientLeaseStillValid current_time c =
     (let l = c6_lease c;
          c' = (if \<not> l6_valid l then c
                else if l6_valid_lifetime l = DHCP_INFINITE_LEASE then c
                else if current_time < l6_start l then DHCPv6ClientClearPacket c
                else if current_time - l6_start l \<ge> of_nat (unat (l6_valid_lifetime l)) then DHCPv6ClientClearPacket c
                else c)
      in (l6_valid (c6_lease c'), c'))"

text \<open>The times of a lease: T1, T2, the preferred and the valid lifetime.\<close>

definition lease_times6 :: "u32 \<Rightarrow> u32 \<Rightarrow> u32 \<Rightarrow> u32 \<Rightarrow> u32 \<times> u32 \<times> u32 \<times> u32" where
  "lease_times6 t1 t2 preferred_lifetime valid_lifetime =
     (let preferred_lifetime = (if preferred_lifetime = 0 then valid_lifetime else preferred_lifetime);
          (t1, t2, preferred_lifetime, valid_lifetime) =
            (if t1 = 0 \<or> t2 = 0 then
               (if preferred_lifetime = DHCP_INFINITE_LEASE then (0, 0, preferred_lifetime, valid_lifetime)
                else (word_of_nat (unat preferred_lifetime div 2), word_of_nat (unat preferred_lifetime * 4 div 5),
                      preferred_lifetime, valid_lifetime))
             else if t1 = DHCP_INFINITE_LEASE \<or> t2 = DHCP_INFINITE_LEASE then (0, 0, DHCP_INFINITE_LEASE, DHCP_INFINITE_LEASE)
             else (t1, t2, preferred_lifetime, valid_lifetime))
      in if valid_lifetime = DHCP_INFINITE_LEASE then (0, 0, DHCP_INFINITE_LEASE, valid_lifetime)
         else (t1, t2, preferred_lifetime, valid_lifetime))"

definition DHCPv6ClientSavePacket :: "receive6 \<Rightarrow> client6 \<Rightarrow> client6 option" where
  "DHCPv6ClientSavePacket data c = do {
     let current_time = now6 c;
     let c1 = DHCPv6ClientClearPacket c;
     let c2 = c1\<lparr>c6_lease := (c6_lease c1)\<lparr>l6_ssid := e6_ssid (c6_env c1)\<rparr>\<rparr>;
     pkt \<leftarrow> rdn (rv_pkt data) 0 (nat (rv_pkt_len data));
     options \<leftarrow> DHCPv6OptionListCreateWithPacket pkt (rv_pkt_len data);
     let c3 = c2\<lparr>c6_saved := \<lparr>i6_pkt = Some pkt, i6_pkt_len = rv_pkt_len data, i6_options = options\<rparr>\<rparr>;
     l \<leftarrow> options;
     server_id \<leftarrow> DHCPv6OptionListGetOptionDataAndLength l kDHCPv6OPTION_SERVERID 0;
     let c4 = c3\<lparr>c6_server_id := map_option fst server_id\<rparr>;
     if c6_mode c \<noteq> kDHCPv6ClientModeStatefulAddress \<and> c6_mode c \<noteq> kDHCPv6ClientModeStatefulPrefix
     then Some (c4\<lparr>c6_saved_mode := c6_mode c\<rparr>)
     else do {
       let get_ia_na = (c6_mode c = kDHCPv6ClientModeStatefulAddress);
       (ia, ap) \<leftarrow> get_ia_na_pd get_ia_na l;
       let c5 = c4\<lparr>c6_ia_na_pd := ia, c6_addr_prefix := ap\<rparr>;
       (case ia of
          None \<Rightarrow> Some c5
        | Some ia' \<Rightarrow> do {
            t1 \<leftarrow> ia_t1 get_ia_na ia';
            t2 \<leftarrow> ia_t2 get_ia_na ia';
            ap' \<leftarrow> ap;
            valid_lifetime \<leftarrow> addr_valid get_ia_na ap';
            preferred_lifetime \<leftarrow> addr_preferred get_ia_na ap';
            let (t1, t2, preferred, valid) = lease_times6 t1 t2 preferred_lifetime valid_lifetime;
            Some (c5\<lparr>c6_lease := (c6_lease c5)\<lparr>l6_start := current_time, l6_t1 := t1, l6_t2 := t2,
                       l6_preferred_lifetime := preferred, l6_valid_lifetime := valid\<rparr>,
                     c6_saved_mode := c6_mode c\<rparr>) }) } }"

section \<open>Packets\<close>

definition fqdn_message_type_ok :: "u8 \<Rightarrow> bool" where
  "fqdn_message_type_ok message_type \<longleftrightarrow>
     message_type \<in> {kDHCPv6MessageSOLICIT, kDHCPv6MessageREQUEST, kDHCPv6MessageRENEW, kDHCPv6MessageREBIND}"

definition oro_message_type_ok :: "u8 \<Rightarrow> bool" where
  "oro_message_type_ok message_type \<longleftrightarrow>
     message_type \<in> {kDHCPv6MessageSOLICIT, kDHCPv6MessageREQUEST, kDHCPv6MessageRENEW, kDHCPv6MessageREBIND,
       kDHCPv6MessageINFORMATION_REQUEST}"

text \<open>\<open>DNSNameListDataCreateWithCString\<close> of \<open>DNSNameList.c\<close>.\<close>

definition DNSNameListDataCreateWithCString :: "(nat \<Rightarrow> u8) \<Rightarrow> u8 list \<Rightarrow> u8 list option option" where
  "DNSNameListDataCreateWithCString junk str = do {
     (encoded, encoded_length) \<leftarrow> DNSNameListBufferCreateCommon junk [str] None 0 False True True;
     (case encoded of
        None \<Rightarrow> Some None
      | Some e \<Rightarrow> do { data \<leftarrow> rdn e 0 (nat encoded_length); Some (Some data) }) }"

definition kDHCPv6OptionCLIENT_FQDNFlags_S :: u8 where
  "kDHCPv6OptionCLIENT_FQDNFlags_S = 0x01"

definition DHCPv6ClientAddFQDNOption :: "client6 \<Rightarrow> option_area6 \<Rightarrow> (bool \<times> option_area6) option" where
  "DHCPv6ClientAddFQDNOption c oa =
     (if e6_privacy_required (c6_env c) then Some (False, oa)
      else (case e6_hostname (c6_env c) of
         None \<Rightarrow> Some (False, oa)
       | Some hostname \<Rightarrow> do {
           b \<leftarrow> DNSNameListDataCreateWithCString (e6_junk (c6_env c)) hostname;
           (case b of
              None \<Rightarrow> Some (False, oa)
            | Some dns_name_buffer \<Rightarrow>
                DHCPv6OptionAreaAddOption oa kDHCPv6OPTION_CLIENT_FQDN (word_of_nat (1 + length dns_name_buffer))
                  (kDHCPv6OptionCLIENT_FQDNFlags_S # dns_name_buffer)) }))"

definition DHCPv6ClientAddOptionRequestOption :: "client6 \<Rightarrow> option_area6 \<Rightarrow> bool \<Rightarrow> (bool \<times> option_area6) option" where
  "DHCPv6ClientAddOptionRequestOption c oa fqdn_ok =
     DHCPv6OptionAreaAddOptionRequestOption oa
       (if fqdn_ok then e6_requested_options (c6_env c)
        else filter (\<lambda>o'. o' \<noteq> kDHCPv6OPTION_CLIENT_FQDN) (e6_requested_options (c6_env c)))"

text \<open>The header of the packet and the area of its options; \<open>None\<close> inside is the null pointer.\<close>

definition DHCPv6ClientMakePacket ::
  "u8 \<Rightarrow> u8 list \<Rightarrow> int \<Rightarrow> client6 \<Rightarrow> ((u8 list \<times> option_area6) option \<times> client6) option" where
  "DHCPv6ClientMakePacket message_type buf buf_size c = do {
     b1 \<leftarrow> DHCPv6PacketSetMessageType buf message_type;
     pkt \<leftarrow> DHCPv6PacketSetTransactionID b1 (c6_transaction_id c);
     let oa = DHCPv6OptionAreaInit (drop 4 pkt) (buf_size - DHCPV6_PACKET_HEADER_LENGTH);
     (duid_ok, c1, oa1) \<leftarrow> S_insert_duid c oa;
     if \<not> duid_ok then Some (None, c1)
     else do {
       (fqdn_ok, oa2) \<leftarrow>
         (if c6_mode c1 = kDHCPv6ClientModeStatefulAddress \<and> fqdn_message_type_ok message_type
          then DHCPv6ClientAddFQDNOption c1 oa1 else Some (False, oa1));
       (oro_ok, oa3) \<leftarrow>
         (if c6_mode c1 \<noteq> kDHCPv6ClientModeStatefulPrefix \<and> oro_message_type_ok message_type
          then DHCPv6ClientAddOptionRequestOption c1 oa2 fqdn_ok else Some (True, oa2));
       if \<not> oro_ok then Some (None, c1)
       else do {
         (time_ok, oa4) \<leftarrow> DHCPv6OptionAreaAddOption oa3 kDHCPv6OPTION_ELAPSED_TIME 2 (get_elapsed_time c1);
         Some (if time_ok then Some (take 4 pkt, oa4) else None, c1) } } }"

definition add_ia_na_option :: "client6 \<Rightarrow> bool \<Rightarrow> option_area6 \<Rightarrow> (bool \<times> option_area6) option" where
  "add_ia_na_option c is_solicit oa = do {
     let ia = ia_bytes (DHCPv6ClientGetIAID c) 0 0;
     data \<leftarrow> (if is_solicit then Some ia
       else do {
         iaaddr \<leftarrow> c6_addr_prefix c;
         addr \<leftarrow> DHCPv6OptionIAADDRGetAddress iaaddr;
         Some (ia @ net_uint16_bytes kDHCPv6OPTION_IAADDR @ net_uint16_bytes 24 @ iaaddr_bytes addr 0 0) });
     DHCPv6OptionAreaAddOption oa kDHCPv6OPTION_IA_NA (word_of_nat (length data)) data }"

definition add_ia_pd_option :: "client6 \<Rightarrow> bool \<Rightarrow> option_area6 \<Rightarrow> (bool \<times> option_area6) option" where
  "add_ia_pd_option c is_solicit oa = do {
     let ia = ia_bytes (DHCPv6ClientGetIAID c) 0 0;
     data \<leftarrow> (if is_solicit \<and> c6_requested_prefix_length c = 0 then Some ia
       else do {
         (addr, prefix_length) \<leftarrow>
           (if is_solicit then Some (c6_requested_prefix c, c6_requested_prefix_length c)
            else do {
              saved_iaprefix \<leftarrow> c6_addr_prefix c;
              addr \<leftarrow> DHCPv6OptionIAPREFIXGetPrefix saved_iaprefix;
              prefix_length \<leftarrow> DHCPv6OptionIAPREFIXGetPrefixLength saved_iaprefix;
              Some (addr, prefix_length) });
         Some (ia @ net_uint16_bytes kDHCPv6OPTION_IAPREFIX @ net_uint16_bytes 25 @ iaprefix_bytes 0 0 prefix_length addr) });
     DHCPv6OptionAreaAddOption oa kDHCPv6OPTION_IA_PD (word_of_nat (length data)) data }"

text \<open>The bytes that are sent.\<close>

definition packet6 :: "u8 list \<Rightarrow> option_area6 \<Rightarrow> u8 list option" where
  "packet6 hdr oa = rdn (hdr @ oa6_buf oa) 0 (nat (DHCPV6_PACKET_HEADER_LENGTH + DHCPv6OptionAreaGetUsedLength oa))"

definition stack_buf :: "client6 \<Rightarrow> u8 list" where
  "stack_buf c = map (e6_junk (c6_env c)) [0..<1500]"

definition DHCPv6ClientSendInform :: "client6 \<Rightarrow> client6 option" where
  "DHCPv6ClientSendInform c = do {
     (pkt, c1) \<leftarrow> DHCPv6ClientMakePacket kDHCPv6MessageINFORMATION_REQUEST (stack_buf c) 1500 c;
     (case pkt of
        None \<Rightarrow> Some c1
      | Some (hdr, oa) \<Rightarrow> do { bytes \<leftarrow> packet6 hdr oa; transmit6 bytes c1 }) }"

definition DHCPv6ClientSendSolicit :: "client6 \<Rightarrow> client6 option" where
  "DHCPv6ClientSendSolicit c = do {
     (pkt, c1) \<leftarrow> DHCPv6ClientMakePacket kDHCPv6MessageSOLICIT (stack_buf c) 1500 c;
     (case pkt of
        None \<Rightarrow> Some c1
      | Some (hdr, oa) \<Rightarrow> do {
          (ok, oa') \<leftarrow>
            (if c6_mode c1 = kDHCPv6ClientModeStatefulAddress then add_ia_na_option c1 True oa
             else if c6_mode c1 = kDHCPv6ClientModeStatefulPrefix then add_ia_pd_option c1 True oa
             else Some (False, oa));
          if \<not> ok then Some c1
          else do { bytes \<leftarrow> packet6 hdr oa'; transmit6 bytes c1 } }) }"

definition message_type_of :: "client6 \<Rightarrow> u8 option" where
  "message_type_of c =
     (case c6_cstate c of
        kDHCPv6ClientStateRequest \<Rightarrow> Some kDHCPv6MessageREQUEST
      | kDHCPv6ClientStateRenew \<Rightarrow> Some kDHCPv6MessageRENEW
      | kDHCPv6ClientStateRebind \<Rightarrow> Some kDHCPv6MessageREBIND
      | kDHCPv6ClientStateRelease \<Rightarrow> Some kDHCPv6MessageRELEASE
      | kDHCPv6ClientStateConfirm \<Rightarrow>
          Some (if c6_mode c = kDHCPv6ClientModeStatefulPrefix then kDHCPv6MessageREBIND else kDHCPv6MessageCONFIRM)
      | kDHCPv6ClientStateDecline \<Rightarrow> Some kDHCPv6MessageDECLINE
      | _ \<Rightarrow> None)"

definition add_server_id :: "client6 \<Rightarrow> u8 \<Rightarrow> u8 list \<Rightarrow> option_area6 \<Rightarrow> (bool \<times> option_area6) option" where
  "add_server_id c message_type server_id oa =
     (if message_type \<in> {kDHCPv6MessageREBIND, kDHCPv6MessageCONFIRM} then Some (True, oa)
      else do {
        pkt \<leftarrow> i6_pkt (c6_saved c);
        len \<leftarrow> option_data_get_length pkt server_id;
        DHCPv6OptionAreaAddOption oa kDHCPv6OPTION_SERVERID len server_id })"

definition DHCPv6ClientSendPacket :: "client6 \<Rightarrow> client6 option" where
  "DHCPv6ClientSendPacket c =
     (if c6_mode c \<noteq> kDHCPv6ClientModeStatefulAddress \<and> c6_mode c \<noteq> kDHCPv6ClientModeStatefulPrefix then Some c
      else if \<not> DHCPv6ClientSavedInfoValid c then Some c
      else
        (case (c6_server_id c, c6_ia_na_pd c, message_type_of c) of
           (Some server_id, Some _, Some message_type) \<Rightarrow> do {
             (pkt, c1) \<leftarrow> DHCPv6ClientMakePacket message_type (stack_buf c) 1500 c;
             (case pkt of
                None \<Rightarrow> Some c1
              | Some (hdr, oa) \<Rightarrow> do {
                  (ok, oa1) \<leftarrow> add_server_id c1 message_type server_id oa;
                  if \<not> ok then Some c1
                  else do {
                    (ok', oa2) \<leftarrow>
                      (if c6_mode c1 = kDHCPv6ClientModeStatefulAddress then add_ia_na_option c1 False oa1
                       else add_ia_pd_option c1 False oa1);
                    if \<not> ok' then Some c1
                    else do { bytes \<leftarrow> packet6 hdr oa2; transmit6 bytes c1 } } }) }
         | _ \<Rightarrow> Some c))"

end
