(* ===== verification/DHCPv6States.thy ===== *)
theory DHCPv6States
  imports DHCPv6Client
begin

text \<open>
  The states of the DHCPv6 client and the events that drive it (second half of
  \<open>IPConfiguration.bproj/DHCPv6Client.c\<close>).

  Each function of the source that handles a state is one definition for each event it is called with:
  \<open>_start\<close>, \<open>_timeout\<close> and \<open>_data\<close>.  \<open>_start\<close> of a state that sends at once goes on with the code of
  \<open>_timeout\<close>, as the source falls through.
\<close>

section \<open>What the states share\<close>

text \<open>
  The checks that every state makes of a packet: its type, our identifier, and a valid identifier of the
  server.  The result says whether the packet is looked at further.
\<close>

definition from_server :: "u8 \<Rightarrow> receive6 \<Rightarrow> client6 \<Rightarrow> (bool \<times> client6) option" where
  "from_server msg_type data c = do {
     t \<leftarrow> rd (rv_pkt data) 0;
     if t \<noteq> msg_type then Some (False, c)
     else do {
       (matches, c1) \<leftarrow> S_duid_matches c (rv_options data);
       if \<not> matches then Some (False, c1)
       else do {
         server_id \<leftarrow> DHCPv6OptionListGetOptionDataAndLength (rv_options data) kDHCPv6OPTION_SERVERID 0;
         (case server_id of
            None \<Rightarrow> Some (False, c1)
          | Some (duid, option_len, _) \<Rightarrow> do {
              valid \<leftarrow> DHCPDUIDIsValid duid option_len;
              Some (valid, c1) }) } } }"

text \<open>A new transaction, and packets for it.\<close>

definition new_transaction :: "client6_receiver \<Rightarrow> client6 \<Rightarrow> client6" where
  "new_transaction f c = enable_receive f (DHCPv6ClientSetNewTransactionID c)"

text \<open>The next try: the timer is set to when it times out.\<close>

definition retransmit_timer :: "rat \<Rightarrow> rat \<Rightarrow> client6_func \<Rightarrow> client6 \<Rightarrow> client6" where
  "retransmit_timer IRT MRT f c = (let (rt, c') = DHCPv6ClientNextRetransmit IRT MRT c in set_timer6 rt f c')"

definition random_timer :: "client6_func \<Rightarrow> client6 \<Rightarrow> client6" where
  "random_timer f c = (let (r, c') = random_double_in_range 0 1 c in set_timer6 r f c')"

definition DHCPv6_DEC_MAX_RC :: int where "DHCPv6_DEC_MAX_RC = 5"
definition DHCPv6_REQ_MAX_RC :: int where "DHCPv6_REQ_MAX_RC = 10"
definition DHCPv6_CNF_MAX_RD :: rat where "DHCPv6_CNF_MAX_RD = 10"

section \<open>Solicit, Request and Unbound: starting\<close>

definition Solicit_start :: "client6 \<Rightarrow> client6" where
  "Solicit_start c =
     random_timer F_Solicit (new_transaction RF_Solicit
       (DHCPv6ClientClearPacket (DHCPv6ClientClearRetransmit (DHCPv6ClientSetState kDHCPv6ClientStateSolicit c))))"

definition Request_timeout :: "client6 \<Rightarrow> client6 option" where
  "Request_timeout c =
     (if c6_try c \<ge> DHCPv6_REQ_MAX_RC then Some (Solicit_start c)
      else DHCPv6ClientSendPacket (retransmit_timer 1 30 F_Request c))"

definition Request_start :: "client6 \<Rightarrow> client6 option" where
  "Request_start c =
     (let c1 = DHCPv6ClientSetNewTransactionID (DHCPv6ClientClearRetransmit (DHCPv6ClientSetState kDHCPv6ClientStateRequest c));
          c2 = c1\<lparr>c6_start_time := now6 c1\<rparr>
      in Request_timeout (enable_receive RF_Request c2))"

definition Unbound_start :: "client6 \<Rightarrow> client6" where
  "Unbound_start c =
     Solicit_start (DHCPv6ClientPostNotification (DHCPv6ClientClearPacket (DHCPv6ClientRemoveAddress
       (DHCPv6ClientCancelPendingEvents (DHCPv6ClientSetState kDHCPv6ClientStateUnbound c)))))"

section \<open>Decline\<close>

definition Decline_timeout :: "client6 \<Rightarrow> client6 option" where
  "Decline_timeout c =
     (if c6_try c \<ge> DHCPv6_DEC_MAX_RC then Some (Solicit_start c)
      else DHCPv6ClientSendPacket (retransmit_timer 1 0 F_Decline c))"

definition Decline_start :: "client6 \<Rightarrow> client6 option" where
  "Decline_start c =
     (let c1 = DHCPv6ClientCancelPendingEvents (DHCPv6ClientRemoveAddress (DHCPv6ClientSetState kDHCPv6ClientStateDecline c));
          c2 = DHCPv6ClientClearRetransmit (DHCPv6ClientPostNotification (DHCPv6ClientClearLease c1))
      in Decline_timeout (new_transaction RF_Decline c2))"

definition Decline_data :: "receive6 \<Rightarrow> client6 \<Rightarrow> client6 option" where
  "Decline_data data c = do {
     (ok, c1) \<leftarrow> from_server kDHCPv6MessageREPLY data c;
     Some (if ok then Solicit_start c1 else c1) }"

section \<open>Bound\<close>

abbreviation "IN6_IFF_TENTATIVE \<equiv> (0x0002 :: u32)"
abbreviation "IN6_IFF_DUPLICATED \<equiv> (0x0004 :: u32)"

text \<open>The first of the interface's addresses that is ours decides.\<close>

definition DHCPv6ClientHandleAddressChanged :: "(u8 list \<times> u32) list \<Rightarrow> client6 \<Rightarrow> client6 option" where
  "DHCPv6ClientHandleAddressChanged addr_list c =
     (if addr_list = [] then Some c
      else if c6_cstate c \<noteq> kDHCPv6ClientStateBound then Some c
      else (case find (\<lambda>(addr, flags). addr = c6_our_ip c) addr_list of
         None \<Rightarrow> Some c
       | Some (addr, flags) \<Rightarrow>
           if flags AND IN6_IFF_DUPLICATED \<noteq> 0 then Decline_start c
           else if flags AND IN6_IFF_TENTATIVE \<noteq> 0 then Some c
           else Some (DHCPv6ClientPostNotification c)))"

definition DHCPv6ClientSimulateAddressChanged :: "client6 \<Rightarrow> client6 option" where
  "DHCPv6ClientSimulateAddressChanged c = DHCPv6ClientHandleAddressChanged (e6_addrs (c6_env c)) c"

definition DHCPv6ClientBoundAddress :: "u32 \<Rightarrow> u32 \<Rightarrow> client6 \<Rightarrow> client6 option" where
  "DHCPv6ClientBoundAddress valid_lifetime preferred_lifetime c = do {
     iaaddr \<leftarrow> c6_addr_prefix c;
     our_ip \<leftarrow> DHCPv6OptionIAADDRGetAddress iaaddr;
     let c1 = (if c6_our_ip c \<noteq> no_addr \<and> c6_our_ip c \<noteq> our_ip then act6 (RemoveAddress6 (c6_our_ip c)) c else c);
     let prefix_length = S_get_prefix_length c our_ip;
     let c2 = DHCPv6ClientPostNotification (act6 (AddAddress6 our_ip prefix_length valid_lifetime preferred_lifetime) c1);
     DHCPv6ClientSimulateAddressChanged (c2\<lparr>c6_our_ip := our_ip, c6_our_prefix_length := prefix_length\<rparr>) }"

definition DHCPv6ClientBoundPrefix :: "client6 \<Rightarrow> client6 option" where
  "DHCPv6ClientBoundPrefix c = do {
     iaprefix \<leftarrow> c6_addr_prefix c;
     prefix \<leftarrow> DHCPv6OptionIAPREFIXGetPrefix iaprefix;
     prefix_length \<leftarrow> DHCPv6OptionIAPREFIXGetPrefixLength iaprefix;
     Some (DHCPv6ClientPostNotification (c\<lparr>c6_delegated_prefix := prefix, c6_delegated_prefix_length := prefix_length\<rparr>)) }"

text \<open>The timer for the renewal; \<open>valid_lifetime\<close> is what is left of it.\<close>

definition set_renew_timer :: "absolute_time \<Rightarrow> u32 \<Rightarrow> u32 \<Rightarrow> client6 \<Rightarrow> client6" where
  "set_renew_timer current_time time_since_start valid_lifetime c =
     (if valid_lifetime \<noteq> DHCP_INFINITE_LEASE then
        (let t1 = (if time_since_start < l6_t1 (c6_lease c) then l6_t1 (c6_lease c) - time_since_start else 10)
         in set_timer6 (of_nat (unat t1)) (F_RenewRebind IFEventID_start_e)
              (c\<lparr>c6_renew_rebind_time := current_time + of_nat (unat t1)\<rparr>))
      else c)"

definition Bound_start :: "client6 \<Rightarrow> client6 option" where
  "Bound_start c =
     (let current_time = now6 c;
          c1 = DHCPv6ClientSetState kDHCPv6ClientStateBound c;
          c2 = DHCPv6ClientCancelPendingEvents (c1\<lparr>c6_lease := (c6_lease c1)\<lparr>l6_valid := True\<rparr>\<rparr>);
          l = c6_lease c2;
          since = (if l6_valid_lifetime l = DHCP_INFINITE_LEASE then 0 else u32_of_time (current_time - l6_start l))
      in if l6_valid_lifetime l \<noteq> DHCP_INFINITE_LEASE \<and>
            (current_time < l6_start l \<or> since \<ge> l6_valid_lifetime l)
         then Some (Unbound_start c2)
         else do {
           let (valid_lifetime, preferred_lifetime) =
             (if l6_valid_lifetime l = DHCP_INFINITE_LEASE then (l6_valid_lifetime l, l6_preferred_lifetime l)
              else (l6_valid_lifetime l - since,
                    if since < l6_preferred_lifetime l then l6_preferred_lifetime l - since else 0));
           c3 \<leftarrow> (if c6_mode c2 = kDHCPv6ClientModeStatefulAddress
                  then DHCPv6ClientBoundAddress valid_lifetime preferred_lifetime c2
                  else DHCPv6ClientBoundPrefix c2);
           Some (set_renew_timer current_time since valid_lifetime c3) })"

section \<open>Renew and Rebind\<close>

text \<open>The wait until the next try, at most until T2 or the end of the lease.\<close>

definition renew_wait :: "u32 \<Rightarrow> client6 \<Rightarrow> rat \<times> client6" where
  "renew_wait since c =
     (let (wait_time, c1) = DHCPv6ClientNextRetransmit 10 600 c;
          time_until_t2 = of_nat (unat (l6_t2 (c6_lease c) - since))
      in (if wait_time > time_until_t2 then time_until_t2 else wait_time, c1))"

definition rebind_wait :: "absolute_time \<Rightarrow> u32 \<Rightarrow> client6 \<Rightarrow> rat \<times> client6" where
  "rebind_wait current_time since c =
     (let c1 = (if c6_cstate c \<noteq> kDHCPv6ClientStateRebind then
                  DHCPv6ClientClearRetransmit (DHCPv6ClientSetState kDHCPv6ClientStateRebind
                    ((new_transaction RF_RenewRebind c)\<lparr>c6_start_time := current_time\<rparr>))
                else c);
          (wait_time, c2) = DHCPv6ClientNextRetransmit 10 600 c1;
          time_until_expiration = of_nat (unat (l6_valid_lifetime (c6_lease c) - since))
      in (if wait_time > time_until_expiration then time_until_expiration else wait_time, c2))"

definition RenewRebind_timeout :: "client6 \<Rightarrow> client6 option" where
  "RenewRebind_timeout c =
     (let current_time = now6 c;
          (valid, c1) = DHCPv6ClientLeaseStillValid current_time c
      in if \<not> valid then Some (Unbound_start c1)
         else
           let since = u32_of_time (current_time - l6_start (c6_lease c1));
               (wait_time, c2) = (if since < l6_t2 (c6_lease c1) then renew_wait since c1
                                  else rebind_wait current_time since c1)
           in DHCPv6ClientSendPacket (set_timer6 wait_time (F_RenewRebind IFEventID_timeout_e)
                (c2\<lparr>c6_renew_rebind_time := current_time + wait_time\<rparr>)))"

definition RenewRebind_start :: "client6 \<Rightarrow> client6 option" where
  "RenewRebind_start c =
     (let c1 = DHCPv6ClientClearRetransmit (DHCPv6ClientCancelPendingEvents (DHCPv6ClientSetState kDHCPv6ClientStateRenew c));
          c2 = c1\<lparr>c6_start_time := now6 c1\<rparr>
      in RenewRebind_timeout (new_transaction RF_RenewRebind c2))"

definition RenewRebind_data :: "receive6 \<Rightarrow> client6 \<Rightarrow> client6 option" where
  "RenewRebind_data data c = do {
     (ok, c1) \<leftarrow> from_server kDHCPv6MessageREPLY data c;
     if \<not> ok then Some c1
     else do {
       (success, code, _, _) \<leftarrow> DHCPv6OptionListGetStatusCode (rv_options data);
       if \<not> success then Some c1
       else if code \<noteq> kDHCPv6StatusCodeSuccess then Some (Unbound_start c1)
       else do {
         (ia, ap) \<leftarrow> get_ia_na_pd (c6_mode c1 = kDHCPv6ClientModeStatefulAddress) (rv_options data);
         if ia = None then Some (Unbound_start c1)
         else do { c2 \<leftarrow> DHCPv6ClientSavePacket data c1; Bound_start c2 } } } }"

section \<open>Confirm\<close>

definition Confirm_start :: "client6 \<Rightarrow> client6" where
  "Confirm_start c =
     random_timer F_Confirm (new_transaction RF_Confirm (DHCPv6ClientClearRetransmit
       (DHCPv6ClientCancelPendingEvents (DHCPv6ClientSetState kDHCPv6ClientStateConfirm c))))"

definition Confirm_timeout :: "client6 \<Rightarrow> client6 option" where
  "Confirm_timeout c =
     (let current_time = now6 c;
          send = (\<lambda>c. DHCPv6ClientSendPacket (retransmit_timer 1 4 F_Confirm c))
      in if c6_try c = 0 then send (c\<lparr>c6_start_time := current_time\<rparr>)
         else if link_status_is_inactive (e6_link_status (c6_env c)) then Some (DHCPv6ClientInactive c)
         else if current_time > c6_start_time c \<and> current_time - c6_start_time c < DHCPv6_CNF_MAX_RD then send c
         else let (valid, c1) = DHCPv6ClientLeaseStillValid current_time c
           in if valid then Bound_start c1 else Some (Solicit_start c1))"

definition Confirm_data :: "receive6 \<Rightarrow> client6 \<Rightarrow> client6 option" where
  "Confirm_data data c = do {
     (ok, c1) \<leftarrow> from_server kDHCPv6MessageREPLY data c;
     if \<not> ok then Some c1
     else do {
       (success, code, _, _) \<leftarrow> DHCPv6OptionListGetStatusCode (rv_options data);
       if \<not> success then Some c1
       else if code \<noteq> kDHCPv6StatusCodeSuccess then Some (Unbound_start c1)
       else do {
         c2 \<leftarrow> (if c6_mode c1 = kDHCPv6ClientModeStatefulPrefix then do {
                   (ia, ap) \<leftarrow> get_ia_na_pd False (rv_options data);
                   if ia \<noteq> None then DHCPv6ClientSavePacket data c1 else Some c1 }
                else Some c1);
         Bound_start c2 } } }"

section \<open>Solicit and Request: answers\<close>

definition Request_data :: "receive6 \<Rightarrow> client6 \<Rightarrow> client6 option" where
  "Request_data data c = do {
     (ok, c1) \<leftarrow> from_server kDHCPv6MessageREPLY data c;
     if \<not> ok then Some c1
     else do {
       (success, code, _, _) \<leftarrow> DHCPv6OptionListGetStatusCode (rv_options data);
       if \<not> success then Some c1
       else if code = kDHCPv6StatusCodeNoAddrsAvail \<or> code = kDHCPv6StatusCodeNoPrefixAvail then Some c1
       else do {
         (ia, ap, code') \<leftarrow> get_ia_na_pd_code (c6_mode c1 = kDHCPv6ClientModeStatefulAddress) (rv_options data);
         if code' = kDHCPv6StatusCodeNotOnLink then Some (Solicit_start (DHCPv6ClientRemoveAddress c1))
         else if ia = None then Some c1
         else do { c2 \<leftarrow> DHCPv6ClientSavePacket data c1; Bound_start c2 } } } }"

definition GENERATE_SYMPTOM_AT_TRY :: int where "GENERATE_SYMPTOM_AT_TRY = 6"

definition Solicit_timeout :: "client6 \<Rightarrow> client6 option" where
  "Solicit_timeout c =
     (if c6_try c \<noteq> 0 \<and> link_status_is_inactive (e6_link_status (c6_env c)) then Some (DHCPv6ClientInactive c)
      else
        let c1 = (if c6_try c = 0 then c\<lparr>c6_start_time := now6 c\<rparr> else c)
        in if i6_pkt_len (c6_saved c1) \<noteq> 0 then Request_start c1
           else do {
             c2 \<leftarrow> DHCPv6ClientSendSolicit (retransmit_timer 1 3600 F_Solicit c1);
             if c6_mode c2 = kDHCPv6ClientModeStatefulAddress \<and> c6_try c2 \<ge> GENERATE_SYMPTOM_AT_TRY then
               (if c6_callback c2 then Some (act6 Symptom6 c2) else None)
             else Some c2 })"

definition Solicit_data :: "receive6 \<Rightarrow> client6 \<Rightarrow> client6 option" where
  "Solicit_data data c = do {
     (ok, c1) \<leftarrow> from_server kDHCPv6MessageADVERTISE data c;
     if \<not> ok then Some c1
     else do {
       (success, code, _, _) \<leftarrow> DHCPv6OptionListGetStatusCode (rv_options data);
       if \<not> success then Some c1
       else if code = kDHCPv6StatusCodeNoAddrsAvail \<or> code = kDHCPv6StatusCodeNoPrefixAvail then Some c1
       else if c6_mode c1 \<noteq> kDHCPv6ClientModeStatefulAddress \<and> c6_mode c1 \<noteq> kDHCPv6ClientModeStatefulPrefix then Some c1
       else do {
         (ia, ap) \<leftarrow> get_ia_na_pd (c6_mode c1 = kDHCPv6ClientModeStatefulAddress) (rv_options data);
         if ia = None then Some c1
         else do {
           pref \<leftarrow> get_preference_value_from_options (rv_options data);
           keep \<leftarrow> (case i6_options (c6_saved c1) of
                      None \<Rightarrow> Some False
                    | Some saved_options \<Rightarrow> do {
                        saved_pref \<leftarrow> get_preference_value_from_options saved_options;
                        Some (saved_pref \<ge> pref) });
           if keep then Some c1
           else do {
             c2 \<leftarrow> DHCPv6ClientSavePacket data c1;
             if c6_try c2 > 1 \<or> pref = 255 then Request_start c2 else Some c2 } } } } }"

section \<open>Inform and Release\<close>

definition InformComplete_start :: "client6 \<Rightarrow> client6" where
  "InformComplete_start c = DHCPv6ClientCancelPendingEvents (DHCPv6ClientSetState kDHCPv6ClientStateInformComplete c)"

definition Inform_timeout :: "client6 \<Rightarrow> client6 option" where
  "Inform_timeout c =
     (let l = e6_link_status (c6_env c) in
      if c6_try c \<noteq> 0 \<and> lk_valid l \<and> \<not> lk_active l then Some (DHCPv6ClientInactive c)
      else DHCPv6ClientSendInform (retransmit_timer 1 3600 F_Inform
             (if c6_try c = 0 then c\<lparr>c6_start_time := now6 c\<rparr> else c)))"

definition Inform_start :: "client6 \<Rightarrow> client6 option" where
  "Inform_start c =
     (let c1 = new_transaction RF_Inform (DHCPv6ClientClearRetransmit (DHCPv6ClientClearPacket
                 (DHCPv6ClientSetState kDHCPv6ClientStateInform c)))
      in if \<not> e6_cellular (c6_env c1) then Some (random_timer F_Inform c1) else Inform_timeout c1)"

definition Inform_data :: "receive6 \<Rightarrow> client6 \<Rightarrow> client6 option" where
  "Inform_data data c = do {
     (ok, c1) \<leftarrow> from_server kDHCPv6MessageREPLY data c;
     if \<not> ok then Some c1
     else do {
       c2 \<leftarrow> DHCPv6ClientSavePacket data c1;
       Some (InformComplete_start (DHCPv6ClientPostNotification c2)) } }"

definition Release_start :: "client6 \<Rightarrow> client6 option" where
  "Release_start c =
     DHCPv6ClientSendPacket (DHCPv6ClientSetNewTransactionID (DHCPv6ClientClearRetransmit
       (DHCPv6ClientCancelPendingEvents (DHCPv6ClientRemoveAddress (DHCPv6ClientSetState kDHCPv6ClientStateRelease c)))))"

section \<open>Starting and stopping\<close>

text \<open>What is allocated and cleared for a new client.\<close>

definition DHCPv6ClientCreate :: "nat \<Rightarrow> client6 \<Rightarrow> client6" where
  "DHCPv6ClientCreate if_index c =
     \<lparr>c6_world = c6_world c, c6_env = c6_env c, c6_globals = c6_globals c, c6_actions = c6_actions c,
      c6_private = True, c6_callback = False, c6_our_ip = no_addr, c6_our_prefix_length = 0,
      c6_delegated_prefix = no_addr, c6_delegated_prefix_length = 0, c6_requested_prefix = no_addr,
      c6_requested_prefix_length = 0, c6_mode = kDHCPv6ClientModeNone, c6_cstate = kDHCPv6ClientStateInactive,
      c6_sock = DHCPv6SocketCreate if_index, c6_timer = timer_callout_init (c6_world c), c6_transaction_id = 0,
      c6_try = 0, c6_start_time = 0, c6_retransmit_time = 0,
      c6_saved = \<lparr>i6_pkt = None, i6_pkt_len = 0, i6_options = None\<rparr>, c6_lease = no_lease6, c6_private_address = False,
      c6_duid = None, c6_renew_rebind_time = 0, c6_saved_mode = kDHCPv6ClientModeNone, c6_server_id = None,
      c6_ia_na_pd = None, c6_addr_prefix = None\<rparr>"

definition DHCPv6ClientStart :: "client6 \<Rightarrow> client6 option" where
  "DHCPv6ClientStart c =
     (if c6_mode c = kDHCPv6ClientModeStateless then Inform_start c
      else if c6_mode c = kDHCPv6ClientModeStatefulPrefix \<or> c6_mode c = kDHCPv6ClientModeStatefulAddress then
        (let current_time = now6 c in
         if \<not> DHCPv6ClientSavedInfoValid c then Some (Solicit_start c)
         else let (valid, c1) = DHCPv6ClientLeaseStillValid current_time c
           in if valid \<and> DHCPv6ClientLeaseOnSameNetwork c1 then Some (Confirm_start c1) else Some (Solicit_start c1))
      else Some c)"

definition DHCPv6ClientSetMode :: "client6_mode \<Rightarrow> client6 \<Rightarrow> client6" where
  "DHCPv6ClientSetMode mode c =
     (if c6_mode c = mode then c else if DHCPv6ClientVerifyModeIsNone c then c\<lparr>c6_mode := mode\<rparr> else c)"

definition DHCPv6ClientSetUsePrivateAddress :: "bool \<Rightarrow> client6 \<Rightarrow> client6" where
  "DHCPv6ClientSetUsePrivateAddress use_private_address c =
     (if DHCPv6ClientVerifyModeIsNone c then c\<lparr>c6_private_address := use_private_address\<rparr> else c)"

definition DHCPv6ClientDiscardInformation :: "client6 \<Rightarrow> client6" where
  "DHCPv6ClientDiscardInformation c = (if DHCPv6ClientVerifyModeIsNone c then DHCPv6ClientClearPacket c else c)"

definition DHCPv6ClientSetRequestedPrefixLength :: "u8 \<Rightarrow> client6 \<Rightarrow> client6" where
  "DHCPv6ClientSetRequestedPrefixLength prefix_length c =
     (if c6_mode c \<noteq> kDHCPv6ClientModeStatefulPrefix then c else c\<lparr>c6_requested_prefix_length := prefix_length\<rparr>)"

definition DHCPv6ClientSetRequestedPrefix :: "u8 list \<Rightarrow> client6 \<Rightarrow> client6" where
  "DHCPv6ClientSetRequestedPrefix prefix c =
     (if c6_mode c \<noteq> kDHCPv6ClientModeStatefulPrefix then c else c\<lparr>c6_requested_prefix := prefix\<rparr>)"

definition DHCPv6ClientStop :: "client6 \<Rightarrow> client6" where
  "DHCPv6ClientStop c =
     (let c1 = DHCPv6ClientCancelPendingEvents (DHCPv6ClientRemoveAddress c);
          c2 = DHCPv6ClientSetState kDHCPv6ClientStateInactive (c1\<lparr>c6_delegated_prefix := no_addr, c6_delegated_prefix_length := 0\<rparr>)
      in DHCPv6ClientPostNotification (c2\<lparr>c6_mode := kDHCPv6ClientModeNone, c6_duid := None\<rparr>))"

definition DHCPv6ClientSendRelease :: "client6 \<Rightarrow> client6 option" where
  "DHCPv6ClientSendRelease c =
     (if link_status_is_active (e6_link_status (c6_env c)) then
        (let (valid, c1) = DHCPv6ClientLeaseStillValid (now6 c) c in if valid then Release_start c1 else Some c1)
      else Some c)"

text \<open>The client is freed: its timer does not fire any more, its socket is gone.\<close>

definition DHCPv6ClientRelease :: "client6 \<Rightarrow> client6 option" where
  "DHCPv6ClientRelease c = do {
     c1 \<leftarrow> (if c6_mode c = kDHCPv6ClientModeStatefulAddress \<or> c6_mode c = kDHCPv6ClientModeStatefulPrefix
            then DHCPv6ClientSendRelease c else Some c);
     let c2 = DHCPv6ClientClearPacket (disable_receive (cancel_timer6 c1));
     Some (c2\<lparr>c6_callback := False, c6_duid := None, c6_private := False\<rparr>) }"

section \<open>What is asked of the client\<close>

definition DHCPv6ClientIsActive :: "client6 \<Rightarrow> bool" where
  "DHCPv6ClientIsActive c = DHCPv6SocketReceiveIsEnabled (c6_sock c)"

text \<open>Whether there are servers, and whether there are domains to search.\<close>

definition DHCPv6ClientHasDNS :: "client6 \<Rightarrow> (bool \<times> bool) option" where
  "DHCPv6ClientHasDNS c =
     (case i6_options (c6_saved c) of
        None \<Rightarrow> Some (False, False)
      | Some options \<Rightarrow> do {
          search \<leftarrow> DHCPv6OptionListGetOptionDataAndLength options kDHCPv6OPTION_DOMAIN_LIST 0;
          servers \<leftarrow> DHCPv6OptionListGetOptionDataAndLength options kDHCPv6OPTION_DNS_SERVERS 0;
          Some (case servers of None \<Rightarrow> False | Some (_, servers_len, _) \<Rightarrow> servers_len div 16 \<noteq> 0,
                case search of None \<Rightarrow> False | Some (_, search_len, _) \<Rightarrow> search_len > 0) })"

text \<open>
  The information of the lease; fields that the source leaves as the caller cleared them are 0.  The source
  sets \<open>pkt\<close> to the saved packet, which is there when the options are.
\<close>

definition DHCPv6ClientGetInfo :: "client6 \<Rightarrow> info6 option option" where
  "DHCPv6ClientGetInfo c =
     (case i6_options (c6_saved c) of
        None \<Rightarrow> Some None
      | Some options \<Rightarrow>
          if \<not> DHCPv6ClientSavedInfoValid c \<or> i6_pkt_len (c6_saved c) = 0 then Some None
          else do {
            pkt \<leftarrow> i6_pkt (c6_saved c);
            let l = c6_lease c;
            let info = \<lparr>in_pkt = pkt, in_pkt_len = i6_pkt_len (c6_saved c), in_options = options, in_is_stateful = False,
                        in_lease_start = 0, in_lease_expiration = 0, in_prefix = no_addr, in_prefix_length = 0,
                        in_prefix_valid_lifetime = 0, in_prefix_preferred_lifetime = 0\<rparr>;
            let info1 = (if c6_mode c = kDHCPv6ClientModeStatefulPrefix
              then info\<lparr>in_prefix := c6_delegated_prefix c, in_prefix_length := c6_delegated_prefix_length c,
                     in_prefix_valid_lifetime := l6_valid_lifetime l, in_prefix_preferred_lifetime := l6_preferred_lifetime l\<rparr>
              else info);
            Some (Some (if c6_mode c = kDHCPv6ClientModeStatefulPrefix \<or> c6_mode c = kDHCPv6ClientModeStatefulAddress
              then info1\<lparr>in_is_stateful := True, in_lease_start := l6_start l,
                     in_lease_expiration := (if l6_valid_lifetime l \<noteq> DHCP_INFINITE_LEASE
                                             then l6_start l + of_nat (unat (l6_valid_lifetime l)) else 0)\<rparr>
              else info1)) })"

definition DHCPv6ClientCopyAddresses :: "client6 \<Rightarrow> (u8 list \<times> int) list" where
  "DHCPv6ClientCopyAddresses c = (if c6_our_ip c = no_addr then [] else [(c6_our_ip c, c6_our_prefix_length c)])"

section \<open>Events\<close>

datatype link_info = kLinkInfoNone | kLinkInfoNetworkChanged | kLinkInfoBSSIDChanged

text \<open>\<open>the_time\<close> is at least \<open>time_interval\<close> ahead.\<close>

definition S_time_in_future :: "absolute_time \<Rightarrow> absolute_time \<Rightarrow> rat \<Rightarrow> bool" where
  "S_time_in_future current_time the_time time_interval \<longleftrightarrow>
     current_time < the_time \<and> the_time - current_time \<ge> time_interval"

definition wake_moved :: "link_info \<Rightarrow> link_status \<Rightarrow> client6 \<Rightarrow> bool" where
  "wake_moved info link_status c \<longleftrightarrow>
     link_status_is_inactive link_status
     \<or> e6_wireless (c6_env c) \<and> info = kLinkInfoNetworkChanged
     \<or> \<not> e6_wireless (c6_env c) \<and> \<not> lk_wake_on_same_network link_status"

definition DHCPv6ClientHandleWake :: "link_info \<Rightarrow> link_status \<Rightarrow> client6 \<Rightarrow> client6 option" where
  "DHCPv6ClientHandleWake info link_status c =
     (if wake_moved info link_status c then
        (let c1 = DHCPv6ClientRemoveAddress c in
         if link_status_is_inactive link_status then Some c1
         else if c6_cstate c1 \<noteq> kDHCPv6ClientStateSolicit then Some (Solicit_start c1)
         else Some c1)
      else
        let current_time = now6 c;
            (valid, c1) = DHCPv6ClientLeaseStillValid current_time c
        in if \<not> valid then
             Some (if c6_cstate c1 \<noteq> kDHCPv6ClientStateSolicit then Unbound_start c1 else c1)
           else if \<not> S_dhcp_state_is_bound_renew_or_rebind (c6_cstate c1) \<or> info = kLinkInfoBSSIDChanged then
             Some (Confirm_start c1)
           else if l6_valid_lifetime (c6_lease c1) = DHCP_INFINITE_LEASE then Some c1
           else if S_time_in_future current_time (c6_renew_rebind_time c1) (of_int (e6_wake_skew_secs (c6_env c1))) then
             Some (set_timer6 (c6_renew_rebind_time c1 - current_time) (F_RenewRebind IFEventID_start_e) c1)
           else RenewRebind_start c1)"

definition DHCPv6ClientHandleLinkStatusRenew :: "link_status \<Rightarrow> client6 \<Rightarrow> client6 option" where
  "DHCPv6ClientHandleLinkStatusRenew link_status c =
     (if link_status_is_active link_status then DHCPv6ClientStart c else Some c)"

definition DHCPv6ClientHandleRoam :: "client6 \<Rightarrow> client6 option" where
  "DHCPv6ClientHandleRoam c =
     (let (valid, c1) = DHCPv6ClientLeaseStillValid (now6 c) c
      in Some (if valid \<and> S_dhcp_state_is_bound_renew_or_rebind (c6_cstate c1) then Confirm_start c1 else c1))"

text \<open>The events of the daemon; \<open>E6_other\<close> stands for those that the client ignores.\<close>

datatype daemon_event6 =
    E6_address_changed "(u8 list \<times> u32) list"
  | E6_wake link_info link_status
  | E6_renew link_status
  | E6_link_status_changed link_status
  | E6_bssid_changed
  | E6_other

definition DHCPv6ClientHandleEvent :: "daemon_event6 \<Rightarrow> client6 \<Rightarrow> client6 option" where
  "DHCPv6ClientHandleEvent event c =
     (if c6_mode c \<noteq> kDHCPv6ClientModeStatefulAddress then Some c
      else (case event of
         E6_address_changed addr_list \<Rightarrow> DHCPv6ClientHandleAddressChanged addr_list c
       | E6_wake info link_status \<Rightarrow> DHCPv6ClientHandleWake info link_status c
       | E6_renew link_status \<Rightarrow> DHCPv6ClientHandleLinkStatusRenew link_status c
       | E6_link_status_changed link_status \<Rightarrow> DHCPv6ClientHandleLinkStatusRenew link_status c
       | E6_bssid_changed \<Rightarrow> DHCPv6ClientHandleRoam c
       | E6_other \<Rightarrow> Some c))"

text \<open>The timer's function, and a packet that the socket's function is called with.\<close>

definition call_func6 :: "client6_func \<Rightarrow> client6 \<Rightarrow> client6 option" where
  "call_func6 f c = (case f of
     F_Inform \<Rightarrow> Inform_timeout c
   | F_Decline \<Rightarrow> Decline_timeout c
   | F_RenewRebind ev \<Rightarrow> (if ev = IFEventID_start_e then RenewRebind_start c else RenewRebind_timeout c)
   | F_Confirm \<Rightarrow> Confirm_timeout c
   | F_Request \<Rightarrow> Request_timeout c
   | F_Solicit \<Rightarrow> Solicit_timeout c)"

definition timer_fires6 :: "client6 \<Rightarrow> client6 option" where
  "timer_fires6 c =
     (let (f, tm) = timer_callout_process (c6_timer c); c1 = c\<lparr>c6_timer := tm\<rparr>
      in case f of None \<Rightarrow> Some c1 | Some f' \<Rightarrow> call_func6 f' c1)"

definition call_receiver6 :: "client6_receiver \<Rightarrow> receive6 \<Rightarrow> client6 \<Rightarrow> client6 option" where
  "call_receiver6 f data c = (case f of
     RF_Inform \<Rightarrow> Inform_data data c
   | RF_Decline \<Rightarrow> Decline_data data c
   | RF_RenewRebind \<Rightarrow> RenewRebind_data data c
   | RF_Confirm \<Rightarrow> Confirm_data data c
   | RF_Request \<Rightarrow> Request_data data c
   | RF_Solicit \<Rightarrow> Solicit_data data c)"

text \<open>A datagram of \<open>n\<close> bytes at the start of the receive buffer, from the interface of the client's socket.\<close>

definition packet_arrives6 :: "u8 list \<Rightarrow> nat \<Rightarrow> client6 \<Rightarrow> client6 option" where
  "packet_arrives6 receive_buf n c = do {
     r \<leftarrow> DHCPv6SocketDemux [c6_sock c] (sk_if_index (c6_sock c)) receive_buf (int n);
     (case r of
        None \<Rightarrow> Some c
      | Some (f, options) \<Rightarrow>
          call_receiver6 f \<lparr>rv_pkt = receive_buf, rv_pkt_len = int n, rv_options = options\<rparr> c) }"

section \<open>Prefix delegation as a service\<close>

definition dhcpv6_pd_notify :: "client6 \<Rightarrow> client6 option" where
  "dhcpv6_pd_notify c = do {
     info \<leftarrow> DHCPv6ClientGetInfo c;
     Some (case info of
        Some i \<Rightarrow> act6 (PublishSuccess6 i) c
      | None \<Rightarrow> if e6_published (c6_env c) then act6 PublishFailure6 c else c) }"

text \<open>\<open>requested\<close> is the prefix and its length of the method data.\<close>

definition dhcpv6_pd_start :: "nat \<Rightarrow> (u8 list \<times> u8) option \<Rightarrow> client6 \<Rightarrow> client6 option" where
  "dhcpv6_pd_start if_index requested c =
     (let c1 = DHCPv6ClientSetMode kDHCPv6ClientModeStatefulPrefix (DHCPv6ClientCreate if_index c);
          c2 = (case requested of
                  None \<Rightarrow> c1
                | Some (prefix, prefix_length) \<Rightarrow>
                    if prefix_length \<noteq> 0
                    then DHCPv6ClientSetRequestedPrefix prefix (DHCPv6ClientSetRequestedPrefixLength prefix_length c1)
                    else c1);
          c3 = c2\<lparr>c6_callback := True\<rparr>
      in if link_status_is_active (e6_link_status (c6_env c3)) then DHCPv6ClientStart c3 else Some c3)"

datatype pd_event =
    PD_start nat "(u8 list \<times> u8) option"
  | PD_stop
  | PD_change "(u8 list \<times> u8) option"
  | PD_renew link_status
  | PD_link_status_changed link_status
  | PD_link_timer_expired
  | PD_wake link_info link_status
  | PD_bssid_changed

text \<open>
  The status, whether the method must be stopped for a change, and the client.  A client that is not there
  is a null pointer.
\<close>

definition dhcpv6_pd_thread :: "pd_event \<Rightarrow> client6 \<Rightarrow> (ipconfig_status \<times> bool \<times> client6) option" where
  "dhcpv6_pd_thread event c =
     (let ok = map_option (\<lambda>c'. (ipconfig_status_success_e, False, c')) in
      case event of
        PD_start if_index requested \<Rightarrow>
          if c6_private c then Some (ipconfig_status_internal_error_e, False, c)
          else ok (dhcpv6_pd_start if_index requested c)
      | PD_stop \<Rightarrow>
          if \<not> c6_private c then Some (ipconfig_status_internal_error_e, False, c)
          else ok (DHCPv6ClientRelease c)
      | PD_change requested \<Rightarrow>
          (case requested of
             None \<Rightarrow> Some (ipconfig_status_success_e, False, c)
           | Some (prefix, prefix_length) \<Rightarrow>
               if \<not> c6_private c then None
               else Some (ipconfig_status_success_e,
                      c6_requested_prefix_length c \<noteq> prefix_length \<or> prefix \<noteq> c6_requested_prefix c, c))
      | PD_renew link_status \<Rightarrow>
          if \<not> c6_private c then None
          else ok (DHCPv6ClientHandleLinkStatusRenew link_status (DHCPv6ClientSetMode kDHCPv6ClientModeStatefulPrefix c))
      | PD_link_status_changed link_status \<Rightarrow>
          if \<not> c6_private c then None
          else ok (DHCPv6ClientHandleLinkStatusRenew link_status (DHCPv6ClientSetMode kDHCPv6ClientModeStatefulPrefix c))
      | PD_link_timer_expired \<Rightarrow> if \<not> c6_private c then None else ok (Some (DHCPv6ClientStop c))
      | PD_wake info link_status \<Rightarrow> if \<not> c6_private c then None else ok (DHCPv6ClientHandleWake info link_status c)
      | PD_bssid_changed \<Rightarrow> if \<not> c6_private c then None else ok (DHCPv6ClientHandleRoam c))"

end
