(* ===== verification/ArpFacts.thy ===== *)
theory ArpFacts
  imports ArpSession
begin

text \<open>
  Every operation of an ARP client returns and keeps its invariant: what is pending has a callback, and a
  client that looks for routers has the list of them as long as its packets are read.

  \<open>returns P r\<close> is the statement that a computation ends with a result that has the property \<open>P\<close>.
\<close>

section \<open>Computations that return\<close>

definition returns :: "('a \<Rightarrow> bool) \<Rightarrow> 'a option \<Rightarrow> bool" where
  "returns P r \<longleftrightarrow> (\<exists>x. r = Some x \<and> P x)"

named_theorems returns

lemma returns_Some [simp]: "returns P (Some x) \<longleftrightarrow> P x"
  by (simp add: returns_def)

lemma returns_None [simp]: "\<not> returns P None"
  by (simp add: returns_def)

lemma returns_map [simp]: "returns P (map_option f r) \<longleftrightarrow> returns (\<lambda>x. P (f x)) r"
  by (cases r) simp_all

lemma returns_bind: "returns Q r \<Longrightarrow> (\<And>x. Q x \<Longrightarrow> returns P (f x)) \<Longrightarrow> returns P (Option.bind r f)"
  by (auto simp: returns_def)

lemma returns_mono: "returns Q r \<Longrightarrow> (\<And>x. Q x \<Longrightarrow> P x) \<Longrightarrow> returns P r"
  by (auto simp: returns_def)

lemma returns_obtain: "returns P r \<Longrightarrow> \<exists>x. r = Some x \<and> P x"
  by (simp add: returns_def)

section \<open>The invariant\<close>

definition detect_ok :: "'f arp_client \<Rightarrow> bool" where
  "detect_ok c \<longleftrightarrow>
     (\<exists>l. ac_detect_list c = Some l \<and> ac_detect_list_count c \<le> length l \<and>
          list_all (\<lambda>i. length (ai_target_hardware i) = 16) l)"

definition arp_client_ok :: "'f arp_client \<Rightarrow> bool" where
  "arp_client_ok c \<longleftrightarrow>
     length (ai_target_hardware (ac_in_use_addr c)) = 16 \<and>
     (ac_callback_source c \<or> tm_enabled (ac_timer c) \<longrightarrow> ac_func c \<noteq> None) \<and>
     (tm_enabled (ac_timer c) \<and> tm_func (ac_timer c) = Some ArpDetectRetransmit \<longrightarrow> detect_ok c) \<and>
     (ac_func c \<noteq> None \<and> ac_fd_open c \<and> ac_command c = arp_client_command_detect_e \<longrightarrow> detect_ok c)"

definition arp_if_ok :: "arp_if_session \<Rightarrow> bool \<Rightarrow> bool" where
  "arp_if_ok s fd_open \<longleftrightarrow>
     length (is_link_address s) \<le> 16 \<and> is_read_fd_refcount s = (if fd_open then 1 else 0)"

definition arp_ok :: "'f arp_ctx \<Rightarrow> bool" where
  "arp_ok x \<longleftrightarrow> arp_client_ok (x_client x) \<and> arp_if_ok (x_if x) (ac_fd_open (x_client x))"

lemmas arp_ok_defs = arp_ok_def arp_client_ok_def arp_if_ok_def

section \<open>Parts of operations\<close>

lemma cancel_ok:
  assumes "arp_ok x"
  shows "arp_ok (arp_client_cancel x)" "ac_func (x_client (arp_client_cancel x)) = None"
    "is_link_address (x_if (arp_client_cancel x)) = is_link_address (x_if x)"
    "x_world (arp_client_cancel x) = x_world x" "\<not> tm_enabled (ac_timer (x_client (arp_client_cancel x)))"
    "\<not> ac_fd_open (x_client (arp_client_cancel x))" "\<not> ac_callback_source (x_client (arp_client_cancel x))"
  using assms
  by (auto simp: arp_ok_defs arp_client_cancel_def arp_client_close_fd_def cancel_timer_def
      arp_client_cancel_callback_def Let_def split: if_splits)

text \<open>A request that was started: the client has its callback and nothing is pending.\<close>

definition started :: "'f \<Rightarrow> 'f arp_ctx \<Rightarrow> bool" where
  "started f x \<longleftrightarrow> ac_func (x_client x) = Some f \<and> length (ai_target_hardware (ac_in_use_addr (x_client x))) = 16 \<and>
     \<not> tm_enabled (ac_timer (x_client x)) \<and> arp_if_ok (x_if x) (ac_fd_open (x_client x))"

lemma start_request_started:
  assumes "arp_ok x"
  shows "started f (start_request f x)" "\<not> ac_fd_open (x_client (start_request f x))"
  using cancel_ok [OF assms] by (auto simp: start_request_def started_def arp_ok_defs)

lemma set_addresses_started [simp]:
  "started f (set_addresses a b x) = started f x" "ac_fd_open (x_client (set_addresses a b x)) = ac_fd_open (x_client x)"
  by (simp_all add: set_addresses_def started_def)

lemma setup_started:
  assumes "arp_ok x"
  shows "started f (arp_client_setup_context f a b skip x)" "\<not> ac_fd_open (x_client (arp_client_setup_context f a b skip x))"
  using start_request_started [OF assms, of f]
  by (simp_all add: arp_client_setup_context_def started_def set_addresses_def)

lemma open_started:
  assumes "started f x" "\<not> ac_fd_open (x_client x)" "arp_client_open_fd x = (opened, y)"
  shows "started f y" "ac_fd_open (x_client y) = opened"
  using assms by (auto simp: started_def arp_client_open_fd_def arp_if_ok_def arp_client_close_fd_def Let_def
      split: if_splits prod.splits)

lemma arp_finish_ok: "started f x \<Longrightarrow> \<not> ac_fd_open (x_client x) \<Longrightarrow> arp_ok (finish_with st x) \<and> ac_func (x_client (finish_with st x)) = Some f"
  by (auto simp: started_def finish_with_def arp_ok_defs arp_client_schedule_callback_def arp_client_cancel_callback_def)

lemma finish_running_ok: "arp_ok x \<Longrightarrow> ac_func (x_client x) \<noteq> None \<Longrightarrow> arp_ok (finish_with st x)"
  by (auto simp: finish_with_def arp_ok_defs arp_client_schedule_callback_def arp_client_cancel_callback_def detect_ok_def)

lemma finish_func [simp]: "ac_func (x_client (finish_with st x)) = ac_func (x_client x)"
  by (simp add: finish_with_def arp_client_schedule_callback_def arp_client_cancel_callback_def)

text \<open>Sending changes the world and the frames that were sent.\<close>

lemma transmit_frame:
  "arp_client_transmit g i x = (ok, y) \<Longrightarrow> x_client y = x_client x \<and> (arp_if_ok (x_if y) b \<longleftrightarrow> arp_if_ok (x_if x) b) \<and>
     is_session (x_if y) = is_session (x_if x) \<and> is_link_address (x_if y) = is_link_address (x_if x)"
  by (auto simp: arp_client_transmit_def arp_if_ok_def Let_def split: if_splits prod.splits)

lemma transmit_sound: "arp_client_transmit g i x = (ok, y) \<Longrightarrow> x_client y = x_client x \<and> (arp_ok y \<longleftrightarrow> arp_ok x)"
  by (drule transmit_frame) (auto simp: arp_ok_def)

lemma transmit_all_frame: "transmit_all infos x = (ok, y) \<Longrightarrow> x_client y = x_client x \<and> (arp_ok y \<longleftrightarrow> arp_ok x)"
  by (induction infos arbitrary: x) (auto split: prod.splits if_splits dest!: transmit_sound)

lemma set_timer_ok:
  "arp_ok x \<Longrightarrow> ac_func (x_client x) \<noteq> None \<Longrightarrow> (func = ArpDetectRetransmit \<longrightarrow> detect_ok (x_client x)) \<Longrightarrow> arp_ok (set_timer secs func x)"
  by (auto simp: set_timer_def arp_ok_defs detect_ok_def)

lemma set_timer_simps [simp]:
  "ac_func (x_client (set_timer secs func x)) = ac_func (x_client x)"
  by (simp add: set_timer_def)

lemma arp_ok_update [simp]:
  "arp_ok (set_client (ac_try_update f) x) = arp_ok x"
  "arp_ok (set_client (ac_probe_info_update g) x) = arp_ok x"
  by (simp_all add: arp_ok_defs detect_ok_def)

section \<open>Probing, resolving, detecting\<close>

lemma probe_retransmit_ok:
  assumes "arp_ok x" "ac_func (x_client x) = Some f"
  shows "arp_ok (arp_client_probe_retransmit x) \<and> ac_func (x_client (arp_client_probe_retransmit x)) = Some f"
  using assms
  by (auto simp: arp_client_probe_retransmit_def Let_def finish_running_ok set_timer_ok
      split: prod.splits dest!: transmit_sound)

lemma probe_start_ok:
  assumes "arp_ok x" "ac_func (x_client x) = Some f"
  shows "arp_ok (arp_client_probe_start x) \<and> ac_func (x_client (arp_client_probe_start x)) = Some f"
  unfolding arp_client_probe_start_def
  by (rule probe_retransmit_ok) (use assms in \<open>auto simp: arp_ok_defs detect_ok_def\<close>)

lemma resolve_retransmit_ok:
  assumes "arp_ok x" "ac_func (x_client x) = Some f"
  shows "arp_ok (arp_client_resolve_retransmit x) \<and> ac_func (x_client (arp_client_resolve_retransmit x)) = Some f"
  using assms
  by (auto simp: arp_client_resolve_retransmit_def Let_def finish_running_ok set_timer_ok
      split: prod.splits dest!: transmit_sound)

lemma detect_list_ok:
  assumes "detect_ok c"
  shows "\<exists>l. detect_list c = Some l \<and> list_all (\<lambda>i. length (ai_target_hardware i) = 16) l"
proof -
  obtain l where l: "ac_detect_list c = Some l" "ac_detect_list_count c \<le> length l"
      "list_all (\<lambda>i. length (ai_target_hardware i) = 16) l"
    using assms by (auto simp: detect_ok_def)
  then show ?thesis
    by (auto simp: detect_list_def rdn_def list_all_iff dest!: in_set_takeD)
qed

lemma detect_retransmit_ok:
  assumes "arp_ok x" "ac_func (x_client x) = Some f" "detect_ok (x_client x)"
  shows "returns (\<lambda>y. arp_ok y \<and> ac_func (x_client y) = Some f) (arp_client_detect_retransmit x)"
proof (cases "se_default_detect_count (is_session (x_if x)) - ac_try (x_client x) \<le> 0")
  case True
  with assms show ?thesis by (simp add: arp_client_detect_retransmit_def Let_def finish_running_ok)
next
  case False
  let ?x = "set_client (ac_try_update (\<lambda>n. n + 1)) x"
  have d: "detect_ok (x_client ?x)" using assms(3) by (simp add: detect_ok_def)
  obtain l where l: "detect_list (x_client ?x) = Some l" using detect_list_ok [OF d] by blast
  obtain ok y where y: "transmit_all l ?x = (ok, y)" by (cases "transmit_all l ?x")
  have "x_client y = x_client ?x" "arp_ok y" using transmit_all_frame [OF y] assms(1) by auto
  then show ?thesis using False assms(2) d l y
    by (auto simp: arp_client_detect_retransmit_def Let_def finish_running_ok set_timer_ok)
qed

lemma begin_command_ok:
  assumes "started f x" "ac_fd_open (x_client x)" "command = arp_client_command_detect_e \<Longrightarrow> detect_ok (x_client x)"
  shows "arp_ok (begin_command command x)" "ac_func (x_client (begin_command command x)) = Some f"
    "detect_ok (x_client x) \<Longrightarrow> detect_ok (x_client (begin_command command x))"
  using assms by (auto simp: begin_command_def started_def arp_ok_defs detect_ok_def)

section \<open>Requests\<close>

lemma probe_ok:
  assumes "arp_ok x"
  shows "arp_ok (arp_client_probe f a b x) \<and> ac_func (x_client (arp_client_probe f a b x)) = Some f"
proof -
  note st = setup_started [OF assms, of f a b False]
  obtain opened y where y: "arp_client_open_fd (arp_client_setup_context f a b False x) = (opened, y)"
    by (cases "arp_client_open_fd (arp_client_setup_context f a b False x)")
  note op = open_started [OF st y]
  show ?thesis
    using op arp_finish_ok [OF op(1)] probe_retransmit_ok [OF begin_command_ok(1,2) [OF op(1)], of arp_client_command_probe_e]
    by (cases opened) (auto simp: arp_client_probe_def y)
qed

lemma announce_ok:
  assumes "arp_ok x"
  shows "arp_ok (arp_client_announce f a b skip x) \<and> ac_func (x_client (arp_client_announce f a b skip x)) = Some f"
proof -
  let ?x = "set_client (\<lambda>c. c\<lparr>ac_try := pi_probe_count (ac_probe_info c)\<rparr>) (arp_client_setup_context f a b skip x)"
  have st: "started f ?x" "\<not> ac_fd_open (x_client ?x)"
    using setup_started [OF assms, of f a b skip] by (simp_all add: started_def)
  obtain opened y where y: "arp_client_open_fd ?x = (opened, y)" by (cases "arp_client_open_fd ?x")
  note op = open_started [OF st y]
  show ?thesis
    using op arp_finish_ok [OF op(1)] probe_retransmit_ok [OF begin_command_ok(1,2) [OF op(1)], of arp_client_command_probe_e]
    by (cases opened) (auto simp: arp_client_announce_def Let_def y)
qed

lemma resolve_ok:
  assumes "arp_ok x"
  shows "arp_ok (arp_client_resolve f a b secs x) \<and> ac_func (x_client (arp_client_resolve f a b secs x)) = Some f"
proof -
  let ?x = "set_addresses a b (start_request f x)"
  obtain opened y where y: "arp_client_open_fd ?x = (opened, y)" by (cases "arp_client_open_fd ?x")
  have st: "started f ?x" "\<not> ac_fd_open (x_client ?x)" using start_request_started [OF assms, of f] by simp_all
  note op = open_started [OF st y]
  let ?y = "set_client (\<lambda>c. c\<lparr>ac_resolve_secs := (if secs > 0 then secs else 16)\<rparr>) y"
  have st': "started f ?y" "ac_fd_open (x_client ?y) = opened" using op by (simp_all add: started_def)
  show ?thesis
    using op st' arp_finish_ok [OF op(1)] resolve_retransmit_ok [OF begin_command_ok(1,2) [OF st'(1)], of arp_client_command_resolve_e]
    by (cases opened) (auto simp: arp_client_resolve_def Let_def y)
qed

lemma detect_ok:
  assumes "arp_ok x" "list_all (\<lambda>i. length (ai_target_hardware i) = 16) infos"
  shows "returns (\<lambda>y. arp_ok y \<and> ac_func (x_client y) = Some f) (arp_client_detect f infos x)"
proof -
  note st = start_request_started [OF assms(1), of f]
  obtain opened y where y: "arp_client_open_fd (start_request f x) = (opened, y)"
    by (cases "arp_client_open_fd (start_request f x)")
  note op = open_started [OF st y]
  let ?y = "set_client (\<lambda>c. c\<lparr>ac_detect_list := Some infos, ac_detect_list_count := length infos\<rparr>) y"
  have st': "started f ?y" "ac_fd_open (x_client ?y) = opened" "detect_ok (x_client ?y)"
    using op assms(2) by (simp_all add: started_def detect_ok_def)
  have "returns (\<lambda>y. arp_ok y \<and> ac_func (x_client y) = Some f)
      (arp_client_detect_retransmit (begin_command arp_client_command_detect_e ?y))" if opened
    by (rule detect_retransmit_ok) (use begin_command_ok [OF st'(1)] st' that in auto)
  then show ?thesis
    using op arp_finish_ok [OF st] arp_finish_ok [OF op(1)] by (auto simp: arp_client_detect_def Let_def y)
qed

section \<open>Timers, callbacks, packets\<close>

lemma arp_timer_ok:
  assumes "arp_ok x" "tm_enabled (ac_timer (x_client x))"
  shows "returns (\<lambda>y. arp_ok y \<and> ac_func (x_client y) = ac_func (x_client x)) (arp_timer_fires x)"
proof -
  obtain f where f: "ac_func (x_client x) = Some f" using assms by (auto simp: arp_ok_defs)
  let ?x = "set_client (ac_timer_update (\<lambda>_. (ac_timer (x_client x))\<lparr>tm_enabled := False\<rparr>)) x"
  have ok: "arp_ok ?x" "ac_func (x_client ?x) = Some f" using assms(1) f by (auto simp: arp_ok_defs detect_ok_def)
  have d: "tm_func (ac_timer (x_client x)) = Some ArpDetectRetransmit \<Longrightarrow> detect_ok (x_client ?x)"
    using assms by (auto simp: arp_ok_defs detect_ok_def)
  note ops = probe_start_ok [OF ok] probe_retransmit_ok [OF ok] resolve_retransmit_ok [OF ok]
  show ?thesis
  proof (cases "tm_func (ac_timer (x_client x))")
    case None
    then show ?thesis using assms(1) by (simp add: arp_timer_fires_def timer_callout_process_def arp_ok_defs detect_ok_def)
  next
    case (Some t)
    then show ?thesis using ops d detect_retransmit_ok [OF ok] f assms(2)
      by (cases t) (auto simp: arp_timer_fires_def timer_callout_process_def)
  qed
qed

lemma callback_ok:
  assumes "arp_ok x" "ac_callback_source (x_client x)"
  obtains f result y where "arp_client_do_callback x = Some (f, result, y)" "arp_ok y"
    "ac_func (x_client x) = Some f" "ac_func (x_client y) = None" "length (ai_target_hardware (ar_addr result)) = 16"
    "x_world y = x_world x" "is_link_address (x_if y) = is_link_address (x_if x)"
proof -
  obtain f where f: "ac_func (x_client x) = Some f" using assms by (auto simp: arp_ok_defs)
  let ?y = "cancel_timer (arp_client_close_fd (set_client (ac_func_update (\<lambda>_. None)) (set_client arp_client_cancel_callback x)))"
  have cb: "arp_client_do_callback x = Some (f, result_of (x_client ?y), ?y)"
    using f by (simp add: arp_client_do_callback_def arp_client_callback_def arp_client_cancel_callback_def Let_def)
  have y: "arp_ok ?y" "ac_func (x_client ?y) = None" "x_world ?y = x_world x"
      "is_link_address (x_if ?y) = is_link_address (x_if x)"
    using assms(1) by (auto simp: arp_ok_defs cancel_timer_def arp_client_close_fd_def arp_client_cancel_callback_def
        detect_ok_def Let_def split: if_splits)
  then have "length (ai_target_hardware (ar_addr (result_of (x_client ?y)))) = 16"
    by (auto simp: result_of_def arp_ok_defs no_address_info_def split: arp_status.split)
  with cb y f show ?thesis by (intro that)
qed

lemma match_packet_ok:
  assumes "arp_ok x" "arp_packet_ok (x_if x) p" "ac_func (x_client x) \<noteq> None" "is_read_fd_refcount (x_if x) \<noteq> 0"
  shows "returns (\<lambda>r. \<forall>i. r = Some i \<longrightarrow> length (ai_target_hardware i) = 16) (match_packet (x_if x) (x_client x) p)"
proof -
  have l: "length (ai_target_hardware (in_use_by (x_if x) (x_client x) p)) = 16"
    using assms(1,2) by (simp add: in_use_by_def Let_def arp_ok_defs arp_packet_ok_def)
  show ?thesis
  proof (cases "ac_command (x_client x)")
    case arp_client_command_detect_e
    then have "detect_ok (x_client x)" using assms by (auto simp: arp_ok_defs split: if_splits)
    then obtain infos where "detect_list (x_client x) = Some infos" "list_all (\<lambda>i. length (ai_target_hardware i) = 16) infos"
      using detect_list_ok by blast
    with arp_client_command_detect_e show ?thesis
      by (auto simp: match_packet_def Let_def list_all_iff dest: find_SomeD)
  qed (use l in \<open>auto simp: match_packet_def Let_def\<close>)
qed

lemma client_packet_ok:
  assumes "arp_ok x" "arp_packet_ok (x_if x) p" "is_read_fd_refcount (x_if x) \<noteq> 0"
  shows "returns (\<lambda>(n, c). arp_ok (x\<lparr>x_client := c\<rparr>) \<and> ac_func c = ac_func (x_client x) \<and> is_link_address (x_if x) = is_link_address (x_if x))
    (client_packet w (x_if x) p (x_client x))"
proof (cases "ac_func (x_client x) = None \<or> ac_command_status (x_client x) = arp_status_in_use_e")
  case True
  with assms(1) show ?thesis by (simp add: client_packet_def)
next
  case False
  then obtain r where r: "match_packet (x_if x) (x_client x) p = Some r" "\<forall>i. r = Some i \<longrightarrow> length (ai_target_hardware i) = 16"
    using match_packet_ok [OF assms(1,2) _ assms(3)] by (auto simp: returns_def)
  show ?thesis
  proof (cases r)
    case None
    with False r assms(1) show ?thesis by (simp add: client_packet_def)
  next
    case (Some i)
    with False r assms(1) show ?thesis
      by (auto simp: client_packet_def Let_def arp_ok_defs arp_client_schedule_callback_def
          arp_client_cancel_callback_def detect_ok_def)
  qed
qed

text \<open>A client that is alone on its interface reads packets.\<close>

lemma read_packets_ok:
  assumes "arp_ok x" "\<forall>p \<in> set ps. arp_packet_ok (x_if x) p" "is_read_fd_refcount (x_if x) \<noteq> 0"
  shows "\<exists>cs. foldM (\<lambda>cs p. if packet_ok (x_if x) p then packet_to_clients w (x_if x) p cs else Some cs) [x_client x] ps = Some cs \<and>
    (\<exists>c. cs = [c] \<and> arp_ok (x\<lparr>x_client := c\<rparr>) \<and> ac_func c = ac_func (x_client x))"
proof (rule foldM_inv)
  fix cs p
  assume cs: "\<exists>c. cs = [c] \<and> arp_ok (x\<lparr>x_client := c\<rparr>) \<and> ac_func c = ac_func (x_client x)" and p: "p \<in> set ps"
  then obtain c where c: "cs = [c]" "arp_ok (x\<lparr>x_client := c\<rparr>)" "ac_func c = ac_func (x_client x)" by blast
  have "returns (\<lambda>(n, c'). arp_ok (x\<lparr>x_client := c'\<rparr>) \<and> ac_func c' = ac_func c) (client_packet w (x_if x) p c)"
    using client_packet_ok [of "x\<lparr>x_client := c\<rparr>" p w] c(2) assms(2,3) p by simp
  then obtain n c' where "client_packet w (x_if x) p c = Some (n, c')" "arp_ok (x\<lparr>x_client := c'\<rparr>)" "ac_func c' = ac_func c"
    by (auto simp: returns_def)
  with c show "\<exists>cs'. (if packet_ok (x_if x) p then packet_to_clients w (x_if x) p cs else Some cs) = Some cs' \<and>
      (\<exists>c. cs' = [c] \<and> arp_ok (x\<lparr>x_client := c\<rparr>) \<and> ac_func c = ac_func (x_client x))"
    by auto
next
  show "\<exists>c. [x_client x] = [c] \<and> arp_ok (x\<lparr>x_client := c\<rparr>) \<and> ac_func c = ac_func (x_client x)"
    using assms(1) by simp
qed

lemma session_read_ok:
  assumes "arp_ok x" "\<And>ps. r = ReadPackets ps \<Longrightarrow> \<forall>p \<in> set ps. arp_packet_ok (x_if x) p"
  shows "returns (\<lambda>cs. \<exists>c. cs = [c] \<and> arp_ok (x\<lparr>x_client := c\<rparr>) \<and> ac_func c = ac_func (x_client x))
    (arp_if_session_read w (x_if x) r [x_client x])"
proof (cases "is_read_fd_refcount (x_if x) = 0")
  case True
  with assms(1) show ?thesis by (simp add: arp_if_session_read_def)
next
  case False
  have e: "arp_ok (x\<lparr>x_client := client_error (x_client x)\<rparr>) \<and> ac_func (client_error (x_client x)) = ac_func (x_client x)"
    using assms(1) by (auto simp: client_error_def arp_ok_defs arp_client_schedule_callback_def
        arp_client_cancel_callback_def detect_ok_def)
  show ?thesis
  proof (cases r)
    case (ReadPackets ps)
    with read_packets_ok [OF assms(1) assms(2) False] False show ?thesis
      by (simp add: arp_if_session_read_def returns_def)
  qed (use False assms(1) e in \<open>auto simp: arp_if_session_read_def\<close>)
qed

end
