(* ===== verification/DHCPv6ClientFacts.thy ===== *)
theory DHCPv6ClientFacts
  imports DHCPv6States ArpFacts
begin

text \<open>
  What the DHCPv6 client reads in a packet is inside it, the packets it makes fit, and its small steps keep
  the invariant \<open>inv6\<close>: the saved packet is a whole packet, what the client keeps of it lies in it, and
  there is a lease only with an address or prefix of the right kind.
\<close>

section \<open>Options of a packet\<close>

lemma option_found:
  assumes "opts6_ok l"
  shows "returns (\<lambda>r. \<forall>d n j. r = Some (d, n, j) \<longrightarrow> 0 \<le> n \<and> n \<le> int (length d)) (DHCPv6OptionListGetOptionDataAndLength l code 0)"
  by (rule get_option_first [OF assms, of code]) (auto simp: returns_def)

lemma pick6_in: "pick6 i ps code = Some (d, n, j) \<Longrightarrow> \<exists>p \<in> set ps. d = drop 4 p \<and> n = int (len6 p) \<and> code6 p = code"
  by (induction ps arbitrary: i) (auto split: if_splits)

lemma pointers6_drop: "p \<in> set (pointers6 scan fs) \<Longrightarrow> \<exists>k. p = drop k scan"
proof (induction fs arbitrary: scan)
  case (Cons f fs)
  then have "p = scan \<or> p \<in> set (pointers6 (drop (length (wire6 f)) scan) fs)" by simp
  then show ?case
  proof
    assume "p = scan"
    then show ?thesis by (metis drop0)
  next
    assume "p \<in> set (pointers6 (drop (length (wire6 f)) scan) fs)"
    from Cons.IH [OF this] obtain k where "p = drop k (drop (length (wire6 f)) scan)" by blast
    then have "p = drop (k + length (wire6 f)) scan" by simp
    then show ?thesis by blast
  qed
qed simp

definition opts6_in :: "u8 list \<Rightarrow> opts6 \<Rightarrow> bool" where
  "opts6_in pkt l \<longleftrightarrow> opts6_ok l \<and> (\<forall>p \<in> set (elems l). \<exists>k. p = drop k pkt)"

definition server_id_ok :: "u8 list \<Rightarrow> u8 list \<Rightarrow> bool" where
  "server_id_ok pkt s \<longleftrightarrow> (\<exists>len. option_data_get_length pkt s = Some len \<and> unat len \<le> length s)"

text \<open>The length that is read before the data of an option in the packet is that of the option.\<close>

lemma option_data_length:
  assumes "opt6_ok p" "p = drop k pkt"
  shows "option_data_get_length pkt (drop 4 p) = Some (word_of_nat (len6 p))"
proof -
  have l: "4 \<le> length p" "length p = length pkt - k" using assms by (simp_all add: opt6_ok_def)
  then have k: "length pkt - length (drop 4 p) - 2 = k + 2" and s: "\<not> length pkt < length (drop 4 p) + 2" by simp_all
  have "DHCPv6OptionGetLength p = net_uint16_get (drop (k + 2) pkt)"
    using assms(2) by (simp add: DHCPv6OptionGetLength_def add.commute)
  then show ?thesis unfolding option_data_get_length_def if_not_P [OF s] k using opt6_header(2) [OF assms(1)] by simp
qed

lemma server_id_found:
  assumes "opts6_in pkt l"
  shows "returns (\<lambda>r. \<forall>d n j. r = Some (d, n, j) \<longrightarrow> server_id_ok pkt d) (DHCPv6OptionListGetOptionDataAndLength l code 0)"
proof -
  have ok: "opts6_ok l" "\<forall>p \<in> set (elems l). opt6_ok p" using assms by (simp_all add: opts6_in_def opts6_ok_def)
  have "server_id_ok pkt d" if found: "pick6 0 (elems l) code = Some (d, n, j)" for d n j
  proof -
    obtain p where p: "p \<in> set (elems l)" "d = drop 4 p" using pick6_in [OF found] by blast
    moreover obtain k where "p = drop k pkt" using assms p(1) by (auto simp: opts6_in_def)
    ultimately have "option_data_get_length pkt d = Some (word_of_nat (len6 p))" using option_data_length ok(2) by blast
    moreover have "len6 p \<le> length d" using ok(2) p by (auto simp: opt6_ok_def)
    ultimately show ?thesis using uint_of_nat_u16(2) [OF len6_less [of p]] by (auto simp: server_id_ok_def)
  qed
  then show ?thesis using get_option [OF ok(1), of 0 code] by auto
qed

section \<open>Addresses and prefixes\<close>

definition addr_ok :: "bool \<Rightarrow> u8 list \<Rightarrow> bool" where
  "addr_ok get_ia_na p \<longleftrightarrow> addr_min_length get_ia_na \<le> int (length p)"

lemma addr_ok_address: "addr_ok True p \<Longrightarrow> DHCPv6OptionIAADDRGetAddress p = Some (take 16 p)"
  by (simp add: addr_ok_def addr_min_length_def DHCPv6OptionIAADDR_MIN_LENGTH_def DHCPv6OptionIAADDRGetAddress_def rdn_def)

lemma addr_ok_prefix:
  assumes "addr_ok False p"
  shows "DHCPv6OptionIAPREFIXGetPrefix p = Some (take 16 (drop 9 p))" "DHCPv6OptionIAPREFIXGetPrefixLength p = Some (p ! 8)"
  using assms by (simp_all add: addr_ok_def addr_min_length_def DHCPv6OptionIAPREFIX_MIN_LENGTH_def DHCPv6OptionIAPREFIXGetPrefix_def
      DHCPv6OptionIAPREFIXGetPrefixLength_def rdn_def rd_def)

lemma addr_ok_lifetimes:
  assumes "addr_ok b p"
  obtains v q where "addr_valid b p = Some v" "addr_preferred b p = Some q"
proof -
  have "4 \<le> length p" "8 \<le> length p" "b \<longrightarrow> 24 \<le> length p"
    using assms by (auto simp: addr_ok_def addr_min_length_def DHCPv6OptionIAPREFIX_MIN_LENGTH_def DHCPv6OptionIAADDR_MIN_LENGTH_def split: if_splits)
  then have "\<exists>v. addr_valid b p = Some v" "\<exists>q. addr_preferred b p = Some q"
    by (cases b; simp add: addr_valid_def addr_preferred_def DHCPv6OptionIAADDRGetValidLifetime_def DHCPv6OptionIAADDRGetPreferredLifetime_def
        DHCPv6OptionIAPREFIXGetValidLifetime_def DHCPv6OptionIAPREFIXGetPreferredLifetime_def net_uint32_get_defined)+
  then show ?thesis using that by blast
qed

text \<open>The search returns: the index only grows.\<close>

lemma find_addr_prefix_ok:
  assumes "opts6_ok l"
  shows "length (elems l) < start + n \<Longrightarrow> 0 < n \<Longrightarrow>
    returns (\<lambda>r. \<forall>p. r = Some p \<longrightarrow> addr_ok b p) (find_addr_prefix n b l start)"
proof (induction n arbitrary: start)
  case (Suc n)
  note u = find_addr_prefix.simps(2) [of n b l start]
  have ok: "\<forall>p \<in> set (drop start (elems l)). opt6_ok p" using assms by (auto simp: opts6_ok_def dest: in_set_dropD)
  show ?case
  proof (cases "start < length (elems l)")
    case False
    then show ?thesis using get_option_end [OF assms, of start] by (simp add: u)
  next
    case True
    have g: "DHCPv6OptionListGetOptionDataAndLength l (addr_code b) start = Some (pick6 start (drop start (elems l)) (addr_code b))"
      using get_option [OF assms, of start] True by simp
    show ?thesis
    proof (cases "pick6 start (drop start (elems l)) (addr_code b)")
      case None
      then show ?thesis using g by (simp add: u)
    next
      case (Some x)
      obtain p m j where x: "x = (p, m, j)" by (cases x)
      from pick6_some [OF Some [unfolded x] ok] have j: "start < j" "m \<le> int (length p)" by simp_all
      show ?thesis
      proof (cases "m < addr_min_length b")
        case True
        then show ?thesis using g Some x by (simp add: u)
      next
        case False
        then have ap: "addr_ok b p" using j(2) by (simp add: addr_ok_def)
        obtain v q where "addr_valid b p = Some v" "addr_preferred b p = Some q" using addr_ok_lifetimes [OF ap] by blast
        moreover have "returns (\<lambda>r. \<forall>p. r = Some p \<longrightarrow> addr_ok b p) (find_addr_prefix n b l (j + 1))"
          by (rule Suc.IH) (use Suc.prems True j in auto)
        ultimately show ?thesis using g Some x False ap by (simp add: u)
      qed
    qed
  qed
qed simp

definition ia_found :: "bool \<Rightarrow> u8 list option \<Rightarrow> u8 list option \<Rightarrow> bool" where
  "ia_found b ia ap \<longleftrightarrow>
     (\<forall>i. ia = Some i \<longrightarrow> 12 \<le> length i \<and> (\<exists>p. ap = Some p \<and> addr_ok b p)) \<and> (ia = None \<longrightarrow> ap = None)"

lemma ia_times:
  assumes "12 \<le> length i"
  obtains t1 t2 where "ia_t1 b i = Some t1" "ia_t2 b i = Some t2"
proof -
  have "\<exists>t1. ia_t1 b i = Some t1" "\<exists>t2. ia_t2 b i = Some t2"
    using assms net_uint32_get_defined [of "drop 4 i"] net_uint32_get_defined [of "drop 8 i"]
    by (simp_all add: ia_t1_def ia_t2_def DHCPv6OptionIA_NAGetT1_def DHCPv6OptionIA_NAGetT2_def DHCPv6OptionIA_PDGetT1_def
        DHCPv6OptionIA_PDGetT2_def)
  then show ?thesis using that by blast
qed

lemma get_ia_code_ok:
  assumes "opts6_ok l"
  shows "returns (\<lambda>(ia, ap, _). ia_found b ia ap) (get_ia_na_pd_code b l)"
proof -
  obtain r where r: "DHCPv6OptionListGetOptionDataAndLength l (ia_code b) 0 = Some r"
    "\<And>d n j. r = Some (d, n, j) \<Longrightarrow> n \<le> int (length d)"
    using option_found [OF assms, of "ia_code b"] by (auto simp: returns_def)
  show ?thesis
  proof (cases r)
    case None
    then show ?thesis unfolding get_ia_na_pd_code_def r(1) by (simp add: ia_found_def)
  next
    case (Some x)
    obtain ia n j where x: "r = Some (ia, n, j)" using Some by (cases x) simp
    show ?thesis
    proof (cases "n \<le> ia_min_length b")
      case True
      then show ?thesis unfolding get_ia_na_pd_code_def r(1) x by (simp add: ia_found_def)
    next
      case False
      have m: "ia_min_length b = 12" by (simp add: ia_min_length_def DHCPv6OptionIA_NA_MIN_LENGTH_def DHCPv6OptionIA_PD_MIN_LENGTH_def)
      have i: "12 < length ia" "nat (n - 12) \<le> length (drop 12 ia)" "int (nat (n - 12)) = n - 12" using False r(2) [OF x] m by auto
      obtain t1 t2 where t: "ia_t1 b ia = Some t1" "ia_t2 b ia = Some t2" using ia_times [of ia b] i(1) by auto
      have nl: "\<not> n \<le> 12" using False m by simp
      note unf = get_ia_na_pd_code_def r(1) x bind.bind_lunit option.case prod.case m if_not_P [OF nl] t
      show ?thesis
      proof (cases "t1 \<noteq> 0 \<and> t2 \<noteq> 0 \<and> t1 > t2")
        case True
        then show ?thesis unfolding unf by (simp add: ia_found_def)
      next
        case nt: False
        obtain l' where l': "DHCPv6OptionListCreate (drop 12 ia) (n - 12) = Some l'" "\<And>o'. l' = Some o' \<Longrightarrow> opts6_ok o'"
          using parsed_fields [OF i(2)] unfolding i(3) by blast
        show ?thesis
        proof (cases l')
          case None
          then show ?thesis unfolding unf if_not_P [OF nt] l'(1) by (simp add: ia_found_def)
        next
          case s: (Some sub)
          note ok = l'(2) [OF s]
          obtain success code msg k where sc: "DHCPv6OptionListGetStatusCode sub = Some (success, code, msg, k)"
            using status_code [OF ok] by blast
          have "returns (\<lambda>r. \<forall>p. r = Some p \<longrightarrow> addr_ok b p) (find_addr_prefix (DHCPv6OptionListGetCount sub + 1) b sub 0)"
            by (rule find_addr_prefix_ok [OF ok]) (simp_all add: opts6_count [OF ok])
          then obtain ap where ap: "find_addr_prefix (DHCPv6OptionListGetCount sub + 1) b sub 0 = Some ap" "\<And>p. ap = Some p \<Longrightarrow> addr_ok b p"
            by (auto simp: returns_def)
          show ?thesis unfolding unf if_not_P [OF nt] l'(1) s sc ap(1) using ap(2) i(1)
            by (cases success; cases ap) (simp_all add: ia_found_def)
        qed
      qed
    qed
  qed
qed

lemma get_ia_ok:
  assumes "opts6_ok l"
  shows "returns (\<lambda>(ia, ap). ia_found b ia ap) (get_ia_na_pd b l)"
  unfolding get_ia_na_pd_def by (rule returns_bind [OF get_ia_code_ok [OF assms]]) auto

lemma preference_ok:
  assumes "opts6_ok l"
  shows "returns (\<lambda>_. True) (get_preference_value_from_options l)"
  unfolding get_preference_value_from_options_def
  by (rule returns_bind [OF option_found [OF assms]]) (auto simp: rd_def split: option.split)

section \<open>Option areas that have room\<close>

definition room6 :: "option_area6 \<Rightarrow> bool" where
  "room6 oa \<longleftrightarrow> 0 \<le> oa6_used oa \<and> oa6_used oa \<le> int (length (oa6_buf oa)) \<and> oa6_size oa = int (length (oa6_buf oa))"

lemma add_option_room:
  assumes "room6 oa" "unat len \<le> length data"
  shows "returns (\<lambda>(ok, oa'). room6 oa') (DHCPv6OptionAreaAddOption oa code len data)"
proof (cases "oa6_size oa - oa6_used oa < 4 + uint len")
  case True
  then show ?thesis using assms(1) by (simp add: DHCPv6OptionAreaAddOption_def DHCPV6_OPTION_HEADER_SIZE_def Let_def)
next
  case False
  define u where "u = nat (oa6_used oa)"
  have u: "oa6_used oa = int u" using assms(1) by (simp add: u_def room6_def)
  have n: "uint len = int (unat len)" by simp
  have fit: "u + 4 + unat len \<le> length (oa6_buf oa)" using False assms(1) u n unfolding room6_def by linarith
  obtain b1 where b1: "wrn (oa6_buf oa) u (net_uint16_bytes code) = Some b1" "length b1 = length (oa6_buf oa)"
    using fit length_wrn by (auto simp: wrn_def)
  obtain b2 where b2: "wrn b1 (u + 2) (net_uint16_bytes len) = Some b2" "length b2 = length (oa6_buf oa)"
    using fit b1(2) by (auto simp: wrn_def)
  have "\<exists>b3. (if len > 0 then do { data \<leftarrow> rdn data 0 (unat len); wrn b2 (u + 4) data } else Some b2) = Some b3 \<and> length b3 = length (oa6_buf oa)"
    using fit b2(2) assms(2) by (auto simp: rdn_def wrn_def min_absorb2)
  then obtain b3 where b3: "(if len > 0 then do { data \<leftarrow> rdn data 0 (unat len); wrn b2 (u + 4) data } else Some b2) = Some b3"
    "length b3 = length (oa6_buf oa)" by blast
  have r: "DHCPv6OptionAreaAddOption oa code len data = Some (True, oa\<lparr>oa6_buf := b3, oa6_used := int u + (4 + uint len)\<rparr>)"
    unfolding DHCPv6OptionAreaAddOption_def Let_def DHCPV6_OPTION_HEADER_SIZE_def if_not_P [OF False [unfolded u]] u nat_int b1(1) b2(1) b3(1) bind.bind_lunit by simp
  show ?thesis unfolding r using fit b3(2) assms(1) by (simp add: room6_def n del: of_nat_unat uint_nat)
qed

lemma add_option_whole:
  assumes "room6 oa"
  shows "returns (\<lambda>(ok, oa'). room6 oa') (DHCPv6OptionAreaAddOption oa code (word_of_nat (length data)) data)"
  by (rule add_option_room [OF assms]) (simp add: unsigned_of_nat take_bit_nat_def)

lemma add_option_len:
  "room6 oa \<Longrightarrow> len = word_of_nat (length data) \<Longrightarrow> returns (\<lambda>(ok, oa'). room6 oa') (DHCPv6OptionAreaAddOption oa code len data)"
  using add_option_whole by simp

section \<open>The name of the host\<close>

definition label_ok :: "nat \<Rightarrow> nat \<Rightarrow> name_state \<Rightarrow> bool" where
  "label_ok n i st \<longleftrightarrow> length (ns_buf st) = n + 2 \<and> ns_start st + ns_digits st = i \<and> ns_size st = ns_start st \<and> i \<le> n"

definition step_ok :: "nat \<Rightarrow> label_step \<Rightarrow> bool" where
  "step_ok n r \<longleftrightarrow> (\<forall>st. r = End_label st \<or> r = Next_label st \<longrightarrow> length (ns_buf st) = n + 2 \<and> ns_size st \<le> n + 1)"

lemma label_loop_total: "label_ok n i st \<Longrightarrow> i + length cs = n \<Longrightarrow> returns (step_ok n) (label_loop cs i st)"
proof (induction cs arbitrary: i st)
  case Nil
  then show ?case by (auto simp: close_label_def label_ok_def step_ok_def wr_def)
next
  case (Cons x cs)
  show ?case
  proof (cases "x = dot")
    case False
    then have "returns (step_ok n) (label_loop cs (i + 1) (st\<lparr>ns_buf := (ns_buf st)[1 + i := x], ns_digits := ns_digits st + 1\<rparr>))"
      using Cons.prems by (intro Cons.IH) (auto simp: label_ok_def)
    then show ?thesis using False Cons.prems by (simp add: wr_def label_ok_def)
  next
    case True
    consider "ns_digits st = 0" | "ns_digits st > 63" | "0 < ns_digits st" "ns_digits st \<le> 63" by linarith
    then show ?thesis
    proof cases
      case 3
      let ?st = "st\<lparr>ns_buf := (ns_buf st)[ns_start st := word_of_nat (ns_digits st)], ns_offsets := ns_offsets st @ [ns_start st],
          ns_size := ns_size st + (ns_digits st + 1), ns_digits := 0, ns_start := i + 1\<rparr>"
      have "close_label i st = Some (Next_label ?st)" using 3 Cons.prems by (auto simp: close_label_def label_ok_def wr_def)
      moreover have "returns (step_ok n) (label_loop cs (i + 1) ?st)" using Cons.prems by (intro Cons.IH) (auto simp: label_ok_def)
      ultimately show ?thesis using True by simp
    qed (use True Cons.prems in \<open>auto simp: close_label_def label_ok_def step_ok_def\<close>)
  qed
qed

lemma name_create_total: "returns (\<lambda>r. \<forall>d. r = Some d \<longrightarrow> dn_buf_size d \<le> length (dn_buf d)) (DNSNameCreate junk name single preserve)"
proof -
  let ?st = "\<lparr>ns_buf = map junk [0..<length name + 2], ns_offsets = [], ns_digits = 0, ns_size = 0, ns_start = 0\<rparr>"
  have "returns (step_ok (length name)) (label_loop name 0 ?st)" by (rule label_loop_total) (simp_all add: label_ok_def)
  then obtain r where r: "label_loop name 0 ?st = Some r" "step_ok (length name) r" by (auto simp: returns_def)
  have f: "returns (\<lambda>d. dn_buf_size d \<le> length (dn_buf d)) (finish_name single preserve e st)"
    if "length (ns_buf st) = length name + 2 \<and> ns_size st \<le> length name + 1" for e st
    using that by (auto simp: finish_name_def wr_def)
  have "returns (\<lambda>r. \<forall>d. r = Some d \<longrightarrow> dn_buf_size d \<le> length (dn_buf d))
      (case r of Too_long \<Rightarrow> Some None | End_label st \<Rightarrow> map_option Some (finish_name single preserve True st)
       | Next_label st \<Rightarrow> map_option Some (finish_name single preserve False st))"
    using r(2) f by (cases r) (auto simp: step_ok_def)
  then show ?thesis unfolding DNSNameCreate_def r(1) by simp
qed

lemma host_name_total: "returns (\<lambda>_. True) (DNSNameListDataCreateWithCString junk name)"
proof -
  let ?nb = "\<lparr>dnb_buf = DNSBufInit None, dnb_names = [], dnb_compact = False\<rparr>"
  have h: "bb_holds (DNSBufInit None) []" using buf_init_holds(1) [of 128] by (simp add: DNSBufInit_def)
  have add: "returns (\<lambda>(ok, nb). ok \<longrightarrow> (\<exists>bs. bb_holds (dnb_buf nb) bs)) (DNSNamesBufAddName junk ?nb name True True)"
  proof -
    obtain r where r: "DNSNameCreate junk name True True = Some r" "\<And>d. r = Some d \<Longrightarrow> dn_buf_size d \<le> length (dn_buf d)"
      using name_create_total [of junk name True True] by (auto simp: returns_def)
    show ?thesis
    proof (cases r)
      case None
      then show ?thesis by (simp add: DNSNamesBufAddName_def r(1) roll_back_def)
    next
      case (Some d)
      from h r(2) [OF Some] show ?thesis
        by (cases rule: add_data_ok [where initial = 128 and junk = junk, OF _ h r(2) [OF Some]])
          (auto simp: DNSNamesBufAddName_def r(1) Some roll_back_def DNSBufAddData_def Let_def)
    qed
  qed
  then obtain ok nb where nb: "DNSNamesBufAddName junk ?nb name True True = Some (ok, nb)" "ok \<Longrightarrow> \<exists>bs. bb_holds (dnb_buf nb) bs"
    by (auto simp: returns_def)
  show ?thesis
  proof (cases ok)
    case False
    then show ?thesis using nb(1) by (simp add: DNSNameListDataCreateWithCString_def DNSNameListBufferCreateCommon_def)
  next
    case True
    then obtain bs where "bb_holds (dnb_buf nb) bs" using nb(2) by blast
    then have "length bs \<le> length (bb_buf (dnb_buf nb))" "bb_used (dnb_buf nb) = int (length bs)"
      using bb_holds_le by (auto simp: bb_holds_def)
    then show ?thesis using nb(1) True
      by (simp add: DNSNameListDataCreateWithCString_def DNSNameListBufferCreateCommon_def rdn_def)
  qed
qed

section \<open>The invariant\<close>

definition fd_ok :: "socket_globals \<Rightarrow> 'f dhcpv6_socket \<Rightarrow> bool" where
  "fd_ok g s \<longleftrightarrow> 0 \<le> sg_read_fd_refcount g \<and> (sk_fd_open s \<longrightarrow> 0 < sg_read_fd_refcount g) \<and>
     (0 < sg_read_fd_refcount g \<longrightarrow> sg_read_fd g \<or> sg_cancel_pending g) \<and>
     (sg_cancel_pending g \<longrightarrow> \<not> sg_read_fd g) \<and>
     (sg_read_fd_refcount g = 0 \<and> sg_read_fd g \<longrightarrow> tm_enabled (sg_timer_callout g))"

lemma sockets_ok_fd: "sockets_ok x = fd_ok (sx_globals x) (sx_sock x)"
  by (simp add: fd_ok_def sockets_ok_def Let_def)

text \<open>The packet that is kept, its options, and the pointer to the identifier of the server.\<close>

definition kept_ok :: "dhcpv6_info \<Rightarrow> u8 list option \<Rightarrow> bool" where
  "kept_ok info server_id \<longleftrightarrow>
     (case i6_options info of
        None \<Rightarrow> server_id = None
      | Some l \<Rightarrow> opts6_ok l \<and> (\<exists>pkt. i6_pkt info = Some pkt \<and> (\<forall>s. server_id = Some s \<longrightarrow> server_id_ok pkt s)))"

text \<open>An IA or a lease is kept with an address or prefix, of the kind that the client asked for.\<close>

definition given_ok :: "client6_mode \<Rightarrow> u8 list option \<Rightarrow> u8 list option \<Rightarrow> u32 \<Rightarrow> bool" where
  "given_ok mode ia ap valid_lifetime \<longleftrightarrow>
     (ia \<noteq> None \<or> valid_lifetime \<noteq> 0 \<longrightarrow>
        (mode = kDHCPv6ClientModeStatefulAddress \<or> mode = kDHCPv6ClientModeStatefulPrefix)
        \<and> (\<exists>p. ap = Some p \<and> addr_ok (mode = kDHCPv6ClientModeStatefulAddress) p))"

text \<open>
  A client asks for prefixes (\<open>pd\<close>), or it is the one of the router advertisement method, that asks for
  addresses or other settings and is told of changes.
\<close>

definition mode_ok :: "bool \<Rightarrow> client6_mode \<Rightarrow> bool" where
  "mode_ok pd mode \<longleftrightarrow>
     (if pd then mode \<in> {kDHCPv6ClientModeNone, kDHCPv6ClientModeStatefulPrefix} else mode \<noteq> kDHCPv6ClientModeStatefulPrefix)"

definition inv6 :: "bool \<Rightarrow> client6_mode \<Rightarrow> client6 \<Rightarrow> bool" where
  "inv6 pd m c \<longleftrightarrow> c6_mode c = m \<and> mode_ok pd m \<and> mode_ok pd (c6_saved_mode c) \<and> (pd \<or> c6_callback c) \<and>
     fd_ok (c6_globals c) (c6_sock c) \<and> kept_ok (c6_saved c) (c6_server_id c) \<and>
     given_ok (c6_saved_mode c) (c6_ia_na_pd c) (c6_addr_prefix c) (l6_valid_lifetime (c6_lease c))"

section \<open>Small steps\<close>

lemma inv6_fields [simp]:
  "inv6 pd m (c\<lparr>c6_world := w\<rparr>) = inv6 pd m c" "inv6 pd m (c\<lparr>c6_env := e\<rparr>) = inv6 pd m c"
  "inv6 pd m (c\<lparr>c6_actions := a\<rparr>) = inv6 pd m c" "inv6 pd m (c\<lparr>c6_duid := d\<rparr>) = inv6 pd m c"
  "inv6 pd m (c\<lparr>c6_timer := t\<rparr>) = inv6 pd m c" "inv6 pd m (c\<lparr>c6_transaction_id := x\<rparr>) = inv6 pd m c"
  "inv6 pd m (c\<lparr>c6_try := n\<rparr>) = inv6 pd m c" "inv6 pd m (c\<lparr>c6_start_time := r\<rparr>) = inv6 pd m c"
  "inv6 pd m (c\<lparr>c6_retransmit_time := r\<rparr>) = inv6 pd m c" "inv6 pd m (c\<lparr>c6_cstate := st\<rparr>) = inv6 pd m c"
  "inv6 pd m (c\<lparr>c6_our_ip := ip, c6_our_prefix_length := k\<rparr>) = inv6 pd m c"
  "inv6 pd m (c\<lparr>c6_our_ip := ip\<rparr>) = inv6 pd m c"
  "inv6 pd m (c\<lparr>c6_delegated_prefix := ip, c6_delegated_prefix_length := b\<rparr>) = inv6 pd m c"
  "inv6 pd m (c\<lparr>c6_requested_prefix := ip\<rparr>) = inv6 pd m c" "inv6 pd m (c\<lparr>c6_requested_prefix_length := b\<rparr>) = inv6 pd m c"
  "inv6 pd m (c\<lparr>c6_renew_rebind_time := r\<rparr>) = inv6 pd m c" "inv6 pd m (c\<lparr>c6_private_address := q\<rparr>) = inv6 pd m c"
  "inv6 pd m (c\<lparr>c6_lease := l6_valid_update g (c6_lease c)\<rparr>) = inv6 pd m c"
  "inv6 pd m (c\<lparr>c6_lease := l6_ssid_update h (c6_lease c)\<rparr>) = inv6 pd m c"
  by (simp_all add: inv6_def)

lemma inv6_simple [simp]:
  "inv6 pd m (act6 a c) = inv6 pd m c" "inv6 pd m (set_timer6 r f c) = inv6 pd m c"
  "inv6 pd m (cancel_timer6 c) = inv6 pd m c" "inv6 pd m (DHCPv6ClientSetState st c) = inv6 pd m c"
  "inv6 pd m (DHCPv6ClientClearRetransmit c) = inv6 pd m c" "inv6 pd m (DHCPv6ClientSetNewTransactionID c) = inv6 pd m c"
  "inv6 pd m (DHCPv6ClientRemoveAddress c) = inv6 pd m c" "inv6 pd m (DHCPv6ClientPostNotification c) = inv6 pd m c"
  "inv6 pd m (snd (arc4random c)) = inv6 pd m c" "inv6 pd m (snd (random_double_in_range x y c)) = inv6 pd m c"
  by (simp_all add: act6_def set_timer6_def cancel_timer6_def DHCPv6ClientSetState_def DHCPv6ClientClearRetransmit_def
      DHCPv6ClientSetNewTransactionID_def DHCPv6ClientRemoveAddress_def DHCPv6ClientPostNotification_def arc4random_def
      random_double_in_range_def Let_def)

lemma inv6_put_sock: "inv6 pd m c \<Longrightarrow> sockets_ok x \<Longrightarrow> inv6 pd m (put_sock x c)"
  by (simp add: inv6_def put_sock_def sockets_ok_fd)

lemma inv6_sock: "inv6 pd m c \<Longrightarrow> sockets_ok (sock_ctx_of c)"
  by (simp add: inv6_def sock_ctx_of_def sockets_ok_fd)

lemma inv6_receive [simp]:
  assumes "inv6 pd m c"
  shows "inv6 pd m (enable_receive f c)" "inv6 pd m (disable_receive c)"
  using inv6_put_sock [OF assms] enable_receive_ok [OF inv6_sock [OF assms]] disable_receive_ok [OF inv6_sock [OF assms]]
  by (simp_all add: enable_receive_def disable_receive_def)

lemma transmit6_keeps: "inv6 pd m c \<Longrightarrow> returns (inv6 pd m) (transmit6 b c)"
  using socket_transmit_ok [OF inv6_sock] inv6_put_sock by (fastforce simp: transmit6_def)

lemma inv6_cancel [simp]: "inv6 pd m c \<Longrightarrow> inv6 pd m (DHCPv6ClientCancelPendingEvents c)"
  by (simp add: DHCPv6ClientCancelPendingEvents_def)

lemma inv6_clear [simp]:
  assumes "inv6 pd m c"
  shows "inv6 pd m (DHCPv6ClientClearLease c)" "inv6 pd m (DHCPv6ClientClearPacket c)"
  using assms by (auto simp: inv6_def DHCPv6ClientClearLease_def DHCPv6ClientClearPacket_def no_lease6_def given_ok_def kept_ok_def mode_ok_def)

lemma inv6_inactive [simp]: "inv6 pd m c \<Longrightarrow> inv6 pd m (DHCPv6ClientInactive c)"
  by (simp add: DHCPv6ClientInactive_def)

lemma inv6_lease_valid: "inv6 pd m c \<Longrightarrow> DHCPv6ClientLeaseStillValid t c = (v, c') \<Longrightarrow> inv6 pd m c'"
  by (auto simp: DHCPv6ClientLeaseStillValid_def Let_def split: if_splits)

lemma inv6_next_retransmit: "inv6 pd m c \<Longrightarrow> DHCPv6ClientNextRetransmit IRT MRT c = (rt, c') \<Longrightarrow> inv6 pd m c'"
  by (auto simp: DHCPv6ClientNextRetransmit_def DHCPv6InitialTimeout_def DHCPv6SubsequentTimeout_def DHCPv6_RAND_def
      random_double_in_range_def arc4random_def Let_def split: if_splits)

lemma inv6_timers [simp]:
  assumes "inv6 pd m c"
  shows "inv6 pd m (new_transaction f c)" "inv6 pd m (random_timer g c)" "inv6 pd m (retransmit_timer IRT MRT g c)"
  using assms inv6_next_retransmit [OF assms, of IRT MRT]
  by (auto simp: new_transaction_def random_timer_def retransmit_timer_def random_double_in_range_def arc4random_def Let_def split: prod.split)

lemma inv6_starts [simp]:
  assumes "inv6 pd m c"
  shows "inv6 pd m (Solicit_start c)" "inv6 pd m (Confirm_start c)" "inv6 pd m (InformComplete_start c)"
    "inv6 pd m (Unbound_start c)"
  using assms by (simp_all add: Solicit_start_def Confirm_start_def InformComplete_start_def Unbound_start_def)

end
