(* ===== verification/DHCPv6Safety.thy ===== *)
theory DHCPv6Safety
  imports DHCPv6ClientFacts
begin

text \<open>
  Every function of the DHCPv6 client that handles a state returns and keeps the invariant of theory
  DHCPv6ClientFacts, and so does every event of the two services that use the client.
\<close>

lemma returns_if: "(b \<Longrightarrow> returns P x) \<Longrightarrow> (\<not> b \<Longrightarrow> returns P y) \<Longrightarrow> returns P (if b then x else y)"
  by simp

section \<open>Packets\<close>

lemma get_duid:
  obtains data d where "DHCPv6ClientGetDUID c = (data, c\<lparr>c6_duid := d\<rparr>)"
proof (cases "c6_private_address c \<and> c6_duid c = None")
  case True
  then show ?thesis using that [of "Some (e6_link_duid (c6_env c))" "Some (e6_link_duid (c6_env c))"] by (simp add: DHCPv6ClientGetDUID_def)
next
  case False
  have "\<exists>data. DHCPv6ClientGetDUID c = (data, c)" using False by (auto simp: DHCPv6ClientGetDUID_def split: option.split)
  then show ?thesis using that [of _ "c6_duid c"] by auto
qed

lemma insert_duid_room:
  assumes "room6 oa"
  shows "returns (\<lambda>(ok, c', oa'). (\<exists>d. c' = c\<lparr>c6_duid := d\<rparr>) \<and> room6 oa') (S_insert_duid c oa)"
proof -
  obtain data d where g: "DHCPv6ClientGetDUID c = (data, c\<lparr>c6_duid := d\<rparr>)" by (rule get_duid)
  have "returns (\<lambda>(ok, c', oa'). (\<exists>d. c' = c\<lparr>c6_duid := d\<rparr>) \<and> room6 oa')
      (do { (ok, oa') \<leftarrow> DHCPv6OptionAreaAddOption oa kDHCPv6OPTION_CLIENTID (word_of_nat (length b)) b; Some (ok, c\<lparr>c6_duid := d\<rparr>, oa') })" for b
    by (rule returns_bind [OF add_option_whole [OF assms]]) auto
  then show ?thesis using assms unfolding S_insert_duid_def g Let_def prod.case by (cases data) auto
qed

lemma fqdn_room:
  assumes "room6 oa"
  shows "returns (\<lambda>(ok, oa'). room6 oa') (DHCPv6ClientAddFQDNOption c oa)"
proof -
  show ?thesis unfolding DHCPv6ClientAddFQDNOption_def
    by (auto simp: assms split: option.split intro!: returns_bind [OF host_name_total] add_option_len)
qed

lemma length_requested: "length (concat (map net_uint16_bytes os)) = 2 * length os"
  by (induction os) simp_all

lemma oro_room:
  assumes "room6 oa"
  shows "returns (\<lambda>(ok, oa'). room6 oa') (DHCPv6ClientAddOptionRequestOption c oa b)"
  using add_option_whole [OF assms, of kDHCPv6OPTION_ORO "concat (map net_uint16_bytes os)" for os]
  by (simp add: DHCPv6ClientAddOptionRequestOption_def DHCPv6OptionAreaAddOptionRequestOption_def length_requested)

lemma make_packet_room:
  assumes "4 \<le> length buf"
  shows "returns (\<lambda>(r, c'). (\<exists>d. c' = c\<lparr>c6_duid := d\<rparr>) \<and> (\<forall>hdr oa. r = Some (hdr, oa) \<longrightarrow> length hdr = 4 \<and> room6 oa))
    (DHCPv6ClientMakePacket t buf (int (length buf)) c)"
proof -
  obtain b1 where b1: "DHCPv6PacketSetMessageType buf t = Some b1" "length b1 = length buf"
    using assms by (cases buf) (auto simp: DHCPv6PacketSetMessageType_def wr_def)
  obtain pkt where pkt: "DHCPv6PacketSetTransactionID b1 (c6_transaction_id c) = Some pkt" "length pkt = length buf"
    using assms b1(2) by (auto simp: DHCPv6PacketSetTransactionID_def wrn_def)
  let ?oa = "DHCPv6OptionAreaInit (drop 4 pkt) (int (length buf) - DHCPV6_PACKET_HEADER_LENGTH)"
  have oa: "room6 ?oa" using pkt(2) assms by (simp add: room6_def DHCPv6OptionAreaInit_def DHCPV6_PACKET_HEADER_LENGTH_def)
  have hdr: "length (take 4 pkt) = 4" using pkt(2) assms by simp
  have e: "length (get_elapsed_time c') = 2" for c' by (simp add: get_elapsed_time_def Let_def)
  have el: "returns (\<lambda>(ok, oa'). room6 oa') (DHCPv6OptionAreaAddOption oa kDHCPv6OPTION_ELAPSED_TIME 2 (get_elapsed_time c'))"
    if "room6 oa" for oa c' using add_option_whole [OF that, of kDHCPv6OPTION_ELAPSED_TIME "get_elapsed_time c'"] e by simp
  have fq: "returns (\<lambda>(ok, oa'). room6 oa') (if p then DHCPv6ClientAddFQDNOption c' oa else Some (False, oa))"
    if "room6 oa" for p oa c' using fqdn_room [OF that] that by simp
  have ro: "returns (\<lambda>(ok, oa'). room6 oa') (if p then DHCPv6ClientAddOptionRequestOption c' oa b else Some (True, oa))"
    if "room6 oa" for p oa c' b using oro_room [OF that] that by simp
  show ?thesis
    unfolding DHCPv6ClientMakePacket_def b1(1) pkt(1) bind.bind_lunit Let_def
    apply (rule returns_bind [OF insert_duid_room [OF oa]])
    apply (clarsimp split del: if_split)
    apply (rule if_split [THEN iffD2])
    apply (intro conjI impI)
     apply force
    apply (rule returns_bind [OF fq], assumption)
    apply (clarsimp split del: if_split)
    apply (rule returns_bind [OF ro], assumption)
    apply (clarsimp split del: if_split)
    apply (rule if_split [THEN iffD2])
    apply (intro conjI impI)
     apply force
    apply (rule returns_bind [OF el], assumption)
    subgoal using hdr by (auto simp del: length_take)
    done
qed

lemma packet6_room: "length hdr = 4 \<Longrightarrow> room6 oa \<Longrightarrow> returns (\<lambda>_. True) (packet6 hdr oa)"
  by (auto simp: packet6_def room6_def rdn_def DHCPv6OptionAreaGetUsedLength_def DHCPV6_PACKET_HEADER_LENGTH_def)

lemma send_keeps:
  assumes "inv6 pd m c" "length hdr = 4" "room6 oa"
  shows "returns (inv6 pd m) (do { bytes \<leftarrow> packet6 hdr oa; transmit6 bytes c })"
  by (rule returns_bind [OF packet6_room [OF assms(2,3)]]) (rule transmit6_keeps [OF assms(1)])

lemma stack_buf: "length (stack_buf c) = 1500"
  by (simp add: stack_buf_def)

lemma make_packet_keeps:
  assumes "inv6 pd m c"
    and "\<And>d hdr oa. length hdr = 4 \<Longrightarrow> room6 oa \<Longrightarrow> returns (inv6 pd m) (f (c\<lparr>c6_duid := d\<rparr>) hdr oa)"
  shows "returns (inv6 pd m) (do { (pkt, c1) \<leftarrow> DHCPv6ClientMakePacket t (stack_buf c) 1500 c;
    (case pkt of None \<Rightarrow> Some c1 | Some (hdr, oa) \<Rightarrow> f c1 hdr oa) })"
proof -
  have "returns (\<lambda>(r, c'). (\<exists>d. c' = c\<lparr>c6_duid := d\<rparr>) \<and> (\<forall>hdr oa. r = Some (hdr, oa) \<longrightarrow> length hdr = 4 \<and> room6 oa))
      (DHCPv6ClientMakePacket t (stack_buf c) 1500 c)"
    using make_packet_room [of "stack_buf c" c t] by (simp add: stack_buf)
  from returns_obtain [OF this] obtain r d where r: "DHCPv6ClientMakePacket t (stack_buf c) 1500 c = Some (r, c\<lparr>c6_duid := d\<rparr>)"
    "\<And>hdr oa. r = Some (hdr, oa) \<Longrightarrow> length hdr = 4 \<and> room6 oa" by auto
  show ?thesis using assms r(2) unfolding r(1) by (cases r) auto
qed

lemma ia_na_room:
  assumes "room6 oa" "is_solicit \<or> (\<exists>p. c6_addr_prefix c = Some p \<and> addr_ok True p)"
  shows "returns (\<lambda>(ok, oa'). room6 oa') (add_ia_na_option c is_solicit oa)"
  using assms addr_ok_address by (auto simp: add_ia_na_option_def Let_def intro!: add_option_len)

lemma ia_pd_room:
  assumes "room6 oa" "is_solicit \<or> (\<exists>p. c6_addr_prefix c = Some p \<and> addr_ok False p)"
  shows "returns (\<lambda>(ok, oa'). room6 oa') (add_ia_pd_option c is_solicit oa)"
  using assms addr_ok_prefix by (auto simp: add_ia_pd_option_def Let_def intro!: add_option_len)

lemma send_inform_keeps:
  assumes "inv6 pd m c"
  shows "returns (inv6 pd m) (DHCPv6ClientSendInform c)"
  unfolding DHCPv6ClientSendInform_def by (rule make_packet_keeps [OF assms]) (simp add: send_keeps assms)

lemma send_solicit_keeps:
  assumes "inv6 pd m c"
  shows "returns (inv6 pd m) (DHCPv6ClientSendSolicit c)"
  unfolding DHCPv6ClientSendSolicit_def
proof (rule make_packet_keeps [OF assms])
  fix d and hdr :: "u8 list" and oa assume hdr: "length hdr = 4" "room6 oa"
  let ?c = "c\<lparr>c6_duid := d\<rparr>"
  have "returns (\<lambda>(ok, oa'). room6 oa')
      (if c6_mode ?c = kDHCPv6ClientModeStatefulAddress then add_ia_na_option ?c True oa
       else if c6_mode ?c = kDHCPv6ClientModeStatefulPrefix then add_ia_pd_option ?c True oa else Some (False, oa))"
    using ia_na_room [OF hdr(2)] ia_pd_room [OF hdr(2)] hdr(2) by simp
  then show "returns (inv6 pd m) (do { (ok, oa') \<leftarrow>
      (if c6_mode ?c = kDHCPv6ClientModeStatefulAddress then add_ia_na_option ?c True oa
       else if c6_mode ?c = kDHCPv6ClientModeStatefulPrefix then add_ia_pd_option ?c True oa else Some (False, oa));
      if \<not> ok then Some ?c else do { bytes \<leftarrow> packet6 hdr oa'; transmit6 bytes ?c } })"
    by (rule returns_bind) (use send_keeps [of pd m ?c hdr] hdr(1) assms in auto)
qed

lemma server_id_room:
  assumes "room6 oa" "kept_ok (c6_saved c) (Some s)"
  shows "returns (\<lambda>(ok, oa'). room6 oa') (add_server_id c t s oa)"
  using assms add_option_room [OF assms(1)] by (auto simp: add_server_id_def kept_ok_def server_id_ok_def split: option.splits)

text \<open>What is sent for a lease is there, because the guards of the function let it through.\<close>

lemma send_packet_keeps:
  assumes "inv6 pd m c"
  shows "returns (inv6 pd m) (DHCPv6ClientSendPacket c)"
proof (cases "(c6_mode c = kDHCPv6ClientModeStatefulAddress \<or> c6_mode c = kDHCPv6ClientModeStatefulPrefix) \<and> DHCPv6ClientSavedInfoValid c
    \<and> c6_server_id c \<noteq> None \<and> c6_ia_na_pd c \<noteq> None \<and> message_type_of c \<noteq> None")
  case False
  then show ?thesis using assms by (auto simp: DHCPv6ClientSendPacket_def split: option.splits)
next
  case True
  then obtain s ia t where some: "c6_server_id c = Some s" "c6_ia_na_pd c = Some ia" "message_type_of c = Some t" by auto
  have modes: "\<not> (c6_mode c \<noteq> kDHCPv6ClientModeStatefulAddress \<and> c6_mode c \<noteq> kDHCPv6ClientModeStatefulPrefix)"
    "\<not> \<not> DHCPv6ClientSavedInfoValid c" using True by simp_all
  have kept: "kept_ok (c6_saved c) (Some s)" using assms some by (simp add: inv6_def)
  have "given_ok (c6_mode c) (Some ia) (c6_addr_prefix c) (l6_valid_lifetime (c6_lease c))"
    using assms True some by (simp add: inv6_def DHCPv6ClientSavedInfoValid_def)
  then obtain p where p: "c6_addr_prefix c = Some p" "addr_ok (c6_mode c = kDHCPv6ClientModeStatefulAddress) p"
    by (auto simp: given_ok_def)
  show ?thesis
    unfolding DHCPv6ClientSendPacket_def if_not_P [OF modes(1)] if_not_P [OF modes(2)] some prod.case option.case
  proof (rule make_packet_keeps [OF assms])
    fix d and hdr :: "u8 list" and oa assume hdr: "length hdr = 4" "room6 oa"
    let ?c = "c\<lparr>c6_duid := d\<rparr>"
    have c: "inv6 pd m ?c" using assms by simp
    have ia: "returns (\<lambda>(ok, oa'). room6 oa')
        (if c6_mode ?c = kDHCPv6ClientModeStatefulAddress then add_ia_na_option ?c False oa' else add_ia_pd_option ?c False oa')"
      if "room6 oa'" for oa' using ia_na_room [OF that] ia_pd_room [OF that] p by auto
    show "returns (inv6 pd m) (do { (ok, oa1) \<leftarrow> add_server_id ?c t s oa;
        if \<not> ok then Some ?c else do { (ok', oa2) \<leftarrow>
          (if c6_mode ?c = kDHCPv6ClientModeStatefulAddress then add_ia_na_option ?c False oa1 else add_ia_pd_option ?c False oa1);
          if \<not> ok' then Some ?c else do { bytes \<leftarrow> packet6 hdr oa2; transmit6 bytes ?c } } })"
    proof (rule returns_bind [OF server_id_room [OF hdr(2)]], goal_cases)
      case 1
      show ?case using kept by simp
    next
      case (2 x)
      obtain a b where x: "x = (a, b)" "room6 b" using 2 by (cases x) simp
      show ?case
      proof (cases a)
        case False
        then show ?thesis using x c by simp
      next
        case True
        then have a: "\<not> \<not> a" by simp
        have nf: "returns (inv6 pd m) (case y of (ok', oa2) \<Rightarrow> if \<not> ok' then Some ?c else do { bytes \<leftarrow> packet6 hdr oa2; transmit6 bytes ?c })"
          if "case y of (ok, oa') \<Rightarrow> room6 oa'" for y using send_keeps [OF c hdr(1)] c that by (cases y) simp
        show ?thesis unfolding x(1) prod.case if_not_P [OF a] by (rule returns_bind [OF ia [OF x(2)]]) (rule nf)
      qed
    qed
  qed
qed

section \<open>A received packet\<close>

text \<open>The packet is in the receive buffer, and its options are those that the parser found there.\<close>

definition receive_ok :: "receive6 \<Rightarrow> bool" where
  "receive_ok data \<longleftrightarrow> (\<exists>n fs. rv_pkt_len data = int n \<and> 4 \<le> n \<and> n \<le> length (rv_pkt data) \<and> opts6_ok (rv_options data) \<and>
     fields6 (rv_options data) = fs \<and> take (n - 4) (drop 4 (rv_pkt data)) = wires fs \<and> (\<forall>f \<in> set fs. field_ok f))"

definition has_duid :: "client6 \<Rightarrow> bool" where
  "has_duid c \<longleftrightarrow> c6_private_address c \<or> e6_duid (c6_env c) \<noteq> None"

lemma create_with_packet:
  assumes "4 \<le> n" "n \<le> length pkt" "take (n - 4) (drop 4 pkt) = wires fs" "\<forall>f \<in> set fs. field_ok f"
  obtains l where "DHCPv6OptionListCreateWithPacket pkt (int n) = Some (Some l)" "opts6_in pkt l"
proof -
  have n: "int n - DHCPV6_PACKET_HEADER_LENGTH = int (n - 4)" "\<not> int n < DHCPV6_PACKET_HEADER_LENGTH"
    using assms(1) by (simp_all add: DHCPV6_PACKET_HEADER_LENGTH_def)
  have le: "n - 4 \<le> length (drop 4 pkt)" using assms(2) by simp
  show ?thesis
  proof (cases rule: list_create [OF le])
    case 1
    then show ?thesis using assms(3,4) by blast
  next
    case (2 l gs)
    have "\<exists>k. p = drop k pkt" if "p \<in> set (elems l)" for p
      using pointers6_drop [of p "drop 4 pkt" gs] that 2 by auto
    then show ?thesis using that [of l] 2 n by (simp add: DHCPv6OptionListCreateWithPacket_def opts6_in_def)
  qed
qed

lemma duid_matches_returns:
  assumes "receive_ok data" "has_duid c"
  shows "returns (\<lambda>(b, c'). \<exists>d. c' = c\<lparr>c6_duid := d\<rparr>) (S_duid_matches c (rv_options data))"
proof -
  obtain r d where g: "DHCPv6ClientGetDUID c = (r, c\<lparr>c6_duid := d\<rparr>)" by (rule get_duid)
  have "fst (DHCPv6ClientGetDUID c) \<noteq> None" using assms(2) by (auto simp: DHCPv6ClientGetDUID_def has_duid_def split: option.split)
  then obtain b where b: "r = Some b" unfolding g by auto
  have ok: "opts6_ok (rv_options data)" using assms(1) by (auto simp: receive_ok_def)
  show ?thesis unfolding S_duid_matches_def g Let_def prod.case
  proof (rule returns_bind [OF option_found [OF ok]])
    fix x :: "(u8 list \<times> int \<times> nat) option" assume "\<forall>d n j. x = Some (d, n, j) \<longrightarrow> 0 \<le> n \<and> n \<le> int (length d)"
    then show "returns (\<lambda>(b, c'). \<exists>d. c' = c\<lparr>c6_duid := d\<rparr>)
        (case x of None \<Rightarrow> Some (False, c\<lparr>c6_duid := d\<rparr>)
         | Some (duid, option_len, _) \<Rightarrow> do { d' \<leftarrow> r; if int (length d') \<noteq> option_len then Some (False, c\<lparr>c6_duid := d\<rparr>)
             else do { bytes \<leftarrow> rdn duid 0 (nat option_len); Some (bytes = d', c\<lparr>c6_duid := d\<rparr>) } })"
      using b by (auto simp: rdn_def split: option.split)
  qed
qed

lemma duid_valid_returns:
  assumes "n \<le> int (length d)"
  shows "returns (\<lambda>_. True) (DHCPDUIDIsValid d n)"
proof (cases "n < 2")
  case False
  then have "\<exists>t. DHCPDUIDGetType d = Some t" using net_uint16_get_defined [of d] assms by (simp add: DHCPDUIDGetType_def)
  then show ?thesis using False by (auto simp: DHCPDUIDIsValid_def)
qed (simp add: DHCPDUIDIsValid_def)

lemma from_server_returns:
  assumes "receive_ok data" "has_duid c"
  shows "returns (\<lambda>(b, c'). \<exists>d. c' = c\<lparr>c6_duid := d\<rparr>) (from_server t data c)"
proof -
  have len: "0 < length (rv_pkt data)" and ok: "opts6_ok (rv_options data)" using assms(1) by (auto simp: receive_ok_def)
  have self: "\<exists>d. c = c\<lparr>c6_duid := d\<rparr>" by (rule exI [of _ "c6_duid c"]) simp
  obtain x where x: "rd (rv_pkt data) 0 = Some x" using len by (simp add: rd_def)
  show ?thesis
  proof (cases "x \<noteq> t")
    case True
    then show ?thesis using self by (simp add: from_server_def x)
  next
    case same: False
    obtain b d where m: "S_duid_matches c (rv_options data) = Some (b, c\<lparr>c6_duid := d\<rparr>)"
      using duid_matches_returns [OF assms] by (auto simp: returns_def)
    note unf = from_server_def x bind.bind_lunit if_not_P [OF same] m prod.case
    show ?thesis
    proof (cases "\<not> b")
      case True
      then show ?thesis unfolding unf by auto
    next
      case False
      show ?thesis unfolding unf if_not_P [OF False]
      proof (rule returns_bind [OF option_found [OF ok]])
        fix y :: "(u8 list \<times> int \<times> nat) option" assume y: "\<forall>d n j. y = Some (d, n, j) \<longrightarrow> 0 \<le> n \<and> n \<le> int (length d)"
        show "returns (\<lambda>(b, c'). \<exists>d. c' = c\<lparr>c6_duid := d\<rparr>) (case y of None \<Rightarrow> Some (False, c\<lparr>c6_duid := d\<rparr>)
            | Some (duid, option_len, _) \<Rightarrow> do { valid \<leftarrow> DHCPDUIDIsValid duid option_len; Some (valid, c\<lparr>c6_duid := d\<rparr>) })"
        proof (cases y)
          case (Some z)
          obtain duid k j where z: "z = (duid, k, j)" by (cases z)
          then obtain v where "DHCPDUIDIsValid duid k = Some v" using y Some duid_valid_returns [of k duid] by (auto simp: returns_def)
          then show ?thesis by (auto simp: Some z)
        qed auto
      qed
    qed
  qed
qed

lemma from_server_keeps:
  assumes "receive_ok data" "has_duid c" "inv6 pd m c" "\<And>c1. inv6 pd m c1 \<Longrightarrow> returns (inv6 pd m) (f c1)"
  shows "returns (inv6 pd m) (do { (ok, c1) \<leftarrow> from_server t data c; if \<not> ok then Some c1 else f c1 })"
  by (rule returns_bind [OF from_server_returns [OF assms(1,2)]]) (use assms(3,4) in auto)

lemma status_returns:
  assumes "receive_ok data"
  obtains success code msg n where "DHCPv6OptionListGetStatusCode (rv_options data) = Some (success, code, msg, n)"
  using status_code [of "rv_options data"] assms by (auto simp: receive_ok_def)

lemma ia_returns:
  assumes "receive_ok data"
  shows "\<exists>ia ap code. get_ia_na_pd_code b (rv_options data) = Some (ia, ap, code)"
    "\<exists>ia ap. get_ia_na_pd b (rv_options data) = Some (ia, ap)"
proof -
  have ok: "opts6_ok (rv_options data)" using assms by (auto simp: receive_ok_def)
  show "\<exists>ia ap code. get_ia_na_pd_code b (rv_options data) = Some (ia, ap, code)"
    using returns_obtain [OF get_ia_code_ok [OF ok, of b]] by auto
  show "\<exists>ia ap. get_ia_na_pd b (rv_options data) = Some (ia, ap)"
    using returns_obtain [OF get_ia_ok [OF ok, of b]] by auto
qed

lemma save_packet6_keeps:
  assumes "inv6 pd m c" "receive_ok data"
  shows "returns (inv6 pd m) (DHCPv6ClientSavePacket data c)"
proof -
  obtain n fs where n: "rv_pkt_len data = int n" "4 \<le> n" "n \<le> length (rv_pkt data)"
    "take (n - 4) (drop 4 (rv_pkt data)) = wires fs" "\<forall>f \<in> set fs. field_ok f"
    using assms(2) by (auto simp: receive_ok_def)
  let ?pkt = "take n (rv_pkt data)"
  have pkt: "rdn (rv_pkt data) 0 n = Some ?pkt" using n(3) by (simp add: rdn_def)
  have t: "take (n - 4) (drop 4 ?pkt) = wires fs" using n(4) drop_take [of 4 n "rv_pkt data"] by (metis take_all_iff length_take min.cobounded2)
  have le: "n \<le> length ?pkt" using n(3) by simp
  obtain l where l: "DHCPv6OptionListCreateWithPacket ?pkt (int n) = Some (Some l)" "opts6_in ?pkt l"
    by (rule create_with_packet [OF n(2) le t n(5)])
  have ok: "opts6_ok l" using l(2) by (simp add: opts6_in_def)
  obtain srv where srv: "DHCPv6OptionListGetOptionDataAndLength l kDHCPv6OPTION_SERVERID 0 = Some srv"
    "\<And>s. map_option fst srv = Some s \<Longrightarrow> server_id_ok ?pkt s"
    using server_id_found [OF l(2), of kDHCPv6OPTION_SERVERID] by (fastforce simp: returns_def)
  define c3 where "c3 = (DHCPv6ClientClearPacket c)\<lparr>c6_lease := (c6_lease (DHCPv6ClientClearPacket c))\<lparr>l6_ssid :=
      e6_ssid (c6_env (DHCPv6ClientClearPacket c))\<rparr>, c6_saved := \<lparr>i6_pkt = Some ?pkt, i6_pkt_len = int n, i6_options = Some l\<rparr>,
      c6_server_id := map_option fst srv\<rparr>"
  have kept: "kept_ok (c6_saved c3) (c6_server_id c3)" using srv(2) ok by (simp add: c3_def kept_ok_def)
  have c: "c6_mode c = m" "mode_ok pd m" "pd \<or> c6_callback c" "fd_ok (c6_globals c) (c6_sock c)" using assms(1) by (simp_all add: inv6_def)
  have c3: "c6_mode c3 = m" "c6_saved_mode c3 = kDHCPv6ClientModeNone" "pd \<or> c6_callback c3" "fd_ok (c6_globals c3) (c6_sock c3)"
    "c6_ia_na_pd c3 = None" "l6_valid_lifetime (c6_lease c3) = 0"
    using c by (simp_all add: c3_def DHCPv6ClientClearPacket_def DHCPv6ClientClearLease_def no_lease6_def)
  have none: "mode_ok pd kDHCPv6ClientModeNone" by (simp add: mode_ok_def)
  have unf: "DHCPv6ClientSavePacket data c =
     (if m \<noteq> kDHCPv6ClientModeStatefulAddress \<and> m \<noteq> kDHCPv6ClientModeStatefulPrefix then Some (c3\<lparr>c6_saved_mode := m\<rparr>)
      else do {
       (ia, ap) \<leftarrow> get_ia_na_pd (m = kDHCPv6ClientModeStatefulAddress) l;
       let c5 = c3\<lparr>c6_ia_na_pd := ia, c6_addr_prefix := ap\<rparr>;
       (case ia of
          None \<Rightarrow> Some c5
        | Some ia' \<Rightarrow> do {
            t1 \<leftarrow> ia_t1 (m = kDHCPv6ClientModeStatefulAddress) ia';
            t2 \<leftarrow> ia_t2 (m = kDHCPv6ClientModeStatefulAddress) ia';
            ap' \<leftarrow> ap;
            valid_lifetime \<leftarrow> addr_valid (m = kDHCPv6ClientModeStatefulAddress) ap';
            preferred_lifetime \<leftarrow> addr_preferred (m = kDHCPv6ClientModeStatefulAddress) ap';
            let (t1, t2, preferred, valid) = lease_times6 t1 t2 preferred_lifetime valid_lifetime;
            Some (c5\<lparr>c6_lease := (c6_lease c5)\<lparr>l6_start := now6 c, l6_t1 := t1, l6_t2 := t2,
                       l6_preferred_lifetime := preferred, l6_valid_lifetime := valid\<rparr>,
                     c6_saved_mode := m\<rparr>) }) })"
    unfolding DHCPv6ClientSavePacket_def c3_def Let_def n(1) nat_int pkt bind.bind_lunit l(1) srv(1) c(1) by simp
  show ?thesis
  proof (cases "m \<noteq> kDHCPv6ClientModeStatefulAddress \<and> m \<noteq> kDHCPv6ClientModeStatefulPrefix")
    case True
    then show ?thesis unfolding unf using kept c c3 by (simp add: inv6_def given_ok_def)
  next
    case False
    let ?b = "m = kDHCPv6ClientModeStatefulAddress"
    obtain ia ap where ia: "get_ia_na_pd ?b l = Some (ia, ap)" "ia_found ?b ia ap"
      using get_ia_ok [OF ok, of ?b] by (auto simp: returns_def)
    show ?thesis
    proof (cases ia)
      case None
      then show ?thesis unfolding unf if_not_P [OF False] ia(1) using kept c c3 none by (simp add: inv6_def given_ok_def)
    next
      case (Some i)
      then obtain p where p: "12 \<le> length i" "ap = Some p" "addr_ok ?b p" using ia(2) by (auto simp: ia_found_def)
      obtain t1 t2 where ts: "ia_t1 ?b i = Some t1" "ia_t2 ?b i = Some t2" by (rule ia_times [OF p(1)])
      obtain v q where vq: "addr_valid ?b p = Some v" "addr_preferred ?b p = Some q" by (rule addr_ok_lifetimes [OF p(3)])
      obtain a1 a2 a3 a4 where lt: "lease_times6 t1 t2 q v = (a1, a2, a3, a4)" by (cases "lease_times6 t1 t2 q v")
      show ?thesis unfolding unf if_not_P [OF False] ia(1) Some p(2) bind.bind_lunit prod.case Let_def option.case ts vq lt
        using kept c c3 p(3) False by (simp add: inv6_def given_ok_def)
    qed
  qed
qed

section \<open>The states\<close>

text \<open>A client in these modes can get bound.\<close>

definition drives :: "bool \<Rightarrow> client6_mode \<Rightarrow> bool" where
  "drives pd m \<longleftrightarrow> pd \<or> m = kDHCPv6ClientModeStatefulAddress"

lemma decline_keeps:
  assumes "inv6 pd m c"
  shows "returns (inv6 pd m) (Decline_timeout c)" "returns (inv6 pd m) (Decline_start c)"
  using assms by (simp_all add: Decline_timeout_def Decline_start_def Let_def send_packet_keeps)

lemma address_changed_keeps:
  assumes "inv6 pd m c"
  shows "returns (inv6 pd m) (DHCPv6ClientHandleAddressChanged l c)"
  using assms decline_keeps by (auto simp: DHCPv6ClientHandleAddressChanged_def split: option.split)

lemma lease_has_address:
  assumes "inv6 pd m c" "drives pd m" "l6_valid_lifetime (c6_lease c) \<noteq> 0"
  shows "\<exists>p. c6_addr_prefix c = Some p \<and> addr_ok (m = kDHCPv6ClientModeStatefulAddress) p"
  using assms by (cases pd) (auto simp: inv6_def drives_def given_ok_def mode_ok_def)

lemma bound_start_keeps:
  assumes "inv6 pd m c" "drives pd m"
  shows "returns (inv6 pd m) (Bound_start c)"
proof -
  let ?c1 = "DHCPv6ClientSetState kDHCPv6ClientStateBound c"
  define c2 where "c2 = DHCPv6ClientCancelPendingEvents (?c1\<lparr>c6_lease := (c6_lease ?c1)\<lparr>l6_valid := True\<rparr>\<rparr>)"
  have c2: "inv6 pd m c2" using assms(1) by (simp add: c2_def)
  let ?l = "c6_lease c2"
  define since where "since = (if l6_valid_lifetime ?l = DHCP_INFINITE_LEASE then 0 else u32_of_time (now6 c - l6_start ?l))"
  define ended where "ended \<longleftrightarrow> l6_valid_lifetime ?l \<noteq> DHCP_INFINITE_LEASE \<and> (now6 c < l6_start ?l \<or> since \<ge> l6_valid_lifetime ?l)"
  define left where "left = (if l6_valid_lifetime ?l = DHCP_INFINITE_LEASE then (l6_valid_lifetime ?l, l6_preferred_lifetime ?l)
      else (l6_valid_lifetime ?l - since, if since < l6_preferred_lifetime ?l then l6_preferred_lifetime ?l - since else 0))"
  have unf: "Bound_start c = (if ended then Some (Unbound_start c2) else do {
      c3 \<leftarrow> (if c6_mode c2 = kDHCPv6ClientModeStatefulAddress then DHCPv6ClientBoundAddress (fst left) (snd left) c2
             else DHCPv6ClientBoundPrefix c2);
      Some (set_renew_timer (now6 c) since (fst left) c3) })"
    unfolding Bound_start_def Let_def c2_def [symmetric] since_def [symmetric] ended_def [symmetric] left_def [symmetric]
    by (simp add: case_prod_beta)
  have m: "c6_mode c2 = m" using c2 by (simp add: inv6_def)
  have set_keeps: "inv6 pd m (set_renew_timer t a b c3)" if "inv6 pd m c3" for t a b c3
    using that by (simp add: set_renew_timer_def Let_def)
  show ?thesis
  proof (cases ended)
    case True
    then show ?thesis using c2 by (simp add: unf)
  next
    case False
    have "l6_valid_lifetime ?l \<noteq> 0"
    proof
      assume z: "l6_valid_lifetime ?l = 0"
      then have "l6_valid_lifetime ?l \<noteq> DHCP_INFINITE_LEASE" by (simp add: DHCP_INFINITE_LEASE_def)
      then show False using False z by (simp add: ended_def)
    qed
    then obtain p where p: "c6_addr_prefix c2 = Some p" "addr_ok (m = kDHCPv6ClientModeStatefulAddress) p"
      using lease_has_address [OF c2 assms(2)] by blast
    have "returns (inv6 pd m) (if m = kDHCPv6ClientModeStatefulAddress then DHCPv6ClientBoundAddress (fst left) (snd left) c2
             else DHCPv6ClientBoundPrefix c2)"
      using p c2 address_changed_keeps by (auto simp: DHCPv6ClientBoundAddress_def DHCPv6ClientBoundPrefix_def
          addr_ok_address addr_ok_prefix Let_def DHCPv6ClientSimulateAddressChanged_def)
    then show ?thesis unfolding unf m using False set_keeps by (auto intro!: returns_bind split del: if_split)
  qed
qed

lemma renew_wait_keeps:
  assumes "inv6 pd m c"
  shows "inv6 pd m (snd (renew_wait since c))" "inv6 pd m (snd (rebind_wait t since c))"
proof -
  show "inv6 pd m (snd (renew_wait since c))"
    using inv6_next_retransmit [OF assms] by (cases "DHCPv6ClientNextRetransmit 10 600 c") (auto simp: renew_wait_def Let_def)
  let ?c1 = "if c6_cstate c \<noteq> kDHCPv6ClientStateRebind then DHCPv6ClientClearRetransmit (DHCPv6ClientSetState kDHCPv6ClientStateRebind
      ((new_transaction RF_RenewRebind c)\<lparr>c6_start_time := t\<rparr>)) else c"
  have "inv6 pd m ?c1" using assms by simp
  from inv6_next_retransmit [OF this] show "inv6 pd m (snd (rebind_wait t since c))"
    by (cases "DHCPv6ClientNextRetransmit 10 600 ?c1") (auto simp: rebind_wait_def Let_def)
qed

lemma renew_rebind_keeps:
  assumes "inv6 pd m c"
  shows "returns (inv6 pd m) (RenewRebind_timeout c)"
proof -
  obtain valid c1 where v: "DHCPv6ClientLeaseStillValid (now6 c) c = (valid, c1)" by fastforce
  have c1: "inv6 pd m c1" by (rule inv6_lease_valid [OF assms v])
  let ?s = "u32_of_time (now6 c - l6_start (c6_lease c1))"
  let ?p = "if ?s < l6_t2 (c6_lease c1) then renew_wait ?s c1 else rebind_wait (now6 c) ?s c1"
  obtain wait c2 where p: "?p = (wait, c2)" by fastforce
  have "inv6 pd m (snd ?p)" using renew_wait_keeps [OF c1] by simp
  then have c2: "inv6 pd m c2" unfolding p by simp
  show ?thesis unfolding RenewRebind_timeout_def Let_def v prod.case p using c1 c2 send_packet_keeps by simp
qed

lemma renew_start_keeps: "inv6 pd m c \<Longrightarrow> returns (inv6 pd m) (RenewRebind_start c)"
  unfolding RenewRebind_start_def Let_def by (rule renew_rebind_keeps) simp

lemma confirm_timeout_keeps:
  assumes "inv6 pd m c" "drives pd m"
  shows "returns (inv6 pd m) (Confirm_timeout c)"
proof -
  obtain valid c1 where v: "DHCPv6ClientLeaseStillValid (now6 c) c = (valid, c1)" by fastforce
  have c1: "inv6 pd m c1" by (rule inv6_lease_valid [OF assms(1) v])
  show ?thesis unfolding Confirm_timeout_def Let_def v prod.case using assms c1 bound_start_keeps send_packet_keeps by auto
qed

lemma request_keeps:
  assumes "inv6 pd m c"
  shows "returns (inv6 pd m) (Request_timeout c)" "returns (inv6 pd m) (Request_start c)"
  using assms by (simp_all add: Request_timeout_def Request_start_def Let_def send_packet_keeps)

lemma inform_keeps:
  assumes "inv6 pd m c"
  shows "returns (inv6 pd m) (Inform_timeout c)" "returns (inv6 pd m) (Inform_start c)"
  using assms by (simp_all add: Inform_timeout_def Inform_start_def Let_def send_inform_keeps)

lemma solicit_timeout_keeps:
  assumes "inv6 pd m c"
  shows "returns (inv6 pd m) (Solicit_timeout c)"
proof -
  let ?c1 = "if c6_try c = 0 then c\<lparr>c6_start_time := now6 c\<rparr> else c"
  have c1: "inv6 pd m ?c1" using assms by simp
  have send: "returns (inv6 pd m) (do { c2 \<leftarrow> DHCPv6ClientSendSolicit (retransmit_timer 1 3600 F_Solicit ?c1);
      if c6_mode c2 = kDHCPv6ClientModeStatefulAddress \<and> c6_try c2 \<ge> GENERATE_SYMPTOM_AT_TRY then
        (if c6_callback c2 then Some (act6 Symptom6 c2) else None) else Some c2 })"
  proof (rule returns_bind [OF send_solicit_keeps [of pd m]], goal_cases)
    case 1
    show ?case using c1 by simp
  next
    case (2 c2)
    then have "c6_mode c2 = kDHCPv6ClientModeStatefulAddress \<longrightarrow> c6_callback c2" by (cases pd) (auto simp: inv6_def mode_ok_def)
    then show ?case using 2 by simp
  qed
  show ?thesis unfolding Solicit_timeout_def Let_def
    by (intro returns_if) (simp_all only: returns_Some inv6_inactive [OF assms] request_keeps(2) [OF c1] send)
qed

section \<open>Answers\<close>

lemma decline_data_keeps:
  assumes "inv6 pd m c" "receive_ok data" "has_duid c"
  shows "returns (inv6 pd m) (Decline_data data c)"
  unfolding Decline_data_def
  by (rule returns_bind [OF from_server_returns [OF assms(2,3)]]) (use assms(1) in auto)

lemma save_and_bind_keeps:
  assumes "inv6 pd m c" "drives pd m" "receive_ok data"
  shows "returns (inv6 pd m) (do { c2 \<leftarrow> DHCPv6ClientSavePacket data c; Bound_start c2 })"
  by (rule returns_bind [OF save_packet6_keeps [OF assms(1,3)]]) (rule bound_start_keeps [OF _ assms(2)])

lemma renew_data_keeps:
  assumes "inv6 pd m c" "drives pd m" "receive_ok data" "has_duid c"
  shows "returns (inv6 pd m) (RenewRebind_data data c)"
  unfolding RenewRebind_data_def
proof (rule from_server_keeps [OF assms(3,4,1)])
  fix c1 assume c1: "inv6 pd m c1"
  obtain success code msg n where s: "DHCPv6OptionListGetStatusCode (rv_options data) = Some (success, code, msg, n)"
    by (rule status_returns [OF assms(3)])
  have ok: "opts6_ok (rv_options data)" using assms(3) by (auto simp: receive_ok_def)
  obtain ia ap where "get_ia_na_pd (c6_mode c1 = kDHCPv6ClientModeStatefulAddress) (rv_options data) = Some (ia, ap)"
    using ia_returns(2) [OF assms(3)] by blast
  then show "returns (inv6 pd m) (do { (success, code, _, _) \<leftarrow> DHCPv6OptionListGetStatusCode (rv_options data);
       if \<not> success then Some c1
       else if code \<noteq> kDHCPv6StatusCodeSuccess then Some (Unbound_start c1)
       else do {
         (ia, ap) \<leftarrow> get_ia_na_pd (c6_mode c1 = kDHCPv6ClientModeStatefulAddress) (rv_options data);
         if ia = None then Some (Unbound_start c1)
         else do { c2 \<leftarrow> DHCPv6ClientSavePacket data c1; Bound_start c2 } } })"
    using c1 save_and_bind_keeps [OF c1 assms(2,3)] by (simp add: s)
qed

lemma confirm_data_keeps:
  assumes "inv6 pd m c" "drives pd m" "receive_ok data" "has_duid c"
  shows "returns (inv6 pd m) (Confirm_data data c)"
  unfolding Confirm_data_def
proof (rule from_server_keeps [OF assms(3,4,1)])
  fix c1 assume c1: "inv6 pd m c1"
  obtain success code msg n where s: "DHCPv6OptionListGetStatusCode (rv_options data) = Some (success, code, msg, n)"
    by (rule status_returns [OF assms(3)])
  have ok: "opts6_ok (rv_options data)" using assms(3) by (auto simp: receive_ok_def)
  obtain ia ap where "get_ia_na_pd False (rv_options data) = Some (ia, ap)" using ia_returns(2) [OF assms(3)] by blast
  then have save: "returns (inv6 pd m) (if c6_mode c1 = kDHCPv6ClientModeStatefulPrefix then do {
       (ia, ap) \<leftarrow> get_ia_na_pd False (rv_options data);
       if ia \<noteq> None then DHCPv6ClientSavePacket data c1 else Some c1 } else Some c1)"
    using c1 save_packet6_keeps [OF c1 assms(3)] by simp
  show "returns (inv6 pd m)
      (do { (success, code, _, _) \<leftarrow> DHCPv6OptionListGetStatusCode (rv_options data);
       if \<not> success then Some c1
       else if code \<noteq> kDHCPv6StatusCodeSuccess then Some (Unbound_start c1)
       else do {
         c2 \<leftarrow> (if c6_mode c1 = kDHCPv6ClientModeStatefulPrefix then do {
                   (ia, ap) \<leftarrow> get_ia_na_pd False (rv_options data);
                   if ia \<noteq> None then DHCPv6ClientSavePacket data c1 else Some c1 }
                else Some c1);
         Bound_start c2 } })"
    unfolding s bind.bind_lunit prod.case
    by (intro returns_if) (simp_all only: returns_Some c1 inv6_starts returns_bind [OF save bound_start_keeps [OF _ assms(2)]])
qed

lemma request_data_keeps:
  assumes "inv6 pd m c" "drives pd m" "receive_ok data" "has_duid c"
  shows "returns (inv6 pd m) (Request_data data c)"
  unfolding Request_data_def
proof (rule from_server_keeps [OF assms(3,4,1)])
  fix c1 assume c1: "inv6 pd m c1"
  obtain success code msg n where s: "DHCPv6OptionListGetStatusCode (rv_options data) = Some (success, code, msg, n)"
    by (rule status_returns [OF assms(3)])
  have ok: "opts6_ok (rv_options data)" using assms(3) by (auto simp: receive_ok_def)
  obtain ia ap code' where "get_ia_na_pd_code (c6_mode c1 = kDHCPv6ClientModeStatefulAddress) (rv_options data) = Some (ia, ap, code')"
    using ia_returns(1) [OF assms(3)] by blast
  then show "returns (inv6 pd m) (do { (success, code, _, _) \<leftarrow> DHCPv6OptionListGetStatusCode (rv_options data);
       if \<not> success then Some c1
       else if code = kDHCPv6StatusCodeNoAddrsAvail \<or> code = kDHCPv6StatusCodeNoPrefixAvail then Some c1
       else do {
         (ia, ap, code') \<leftarrow> get_ia_na_pd_code (c6_mode c1 = kDHCPv6ClientModeStatefulAddress) (rv_options data);
         if code' = kDHCPv6StatusCodeNotOnLink then Some (Solicit_start (DHCPv6ClientRemoveAddress c1))
         else if ia = None then Some c1
         else do { c2 \<leftarrow> DHCPv6ClientSavePacket data c1; Bound_start c2 } } })"
    using c1 save_and_bind_keeps [OF c1 assms(2,3)] by (simp add: s)
qed

lemma solicit_data_keeps:
  assumes "inv6 pd m c" "receive_ok data" "has_duid c"
  shows "returns (inv6 pd m) (Solicit_data data c)"
  unfolding Solicit_data_def
proof (rule from_server_keeps [OF assms(2,3,1)])
  fix c1 assume c1: "inv6 pd m c1"
  obtain success code msg n where s: "DHCPv6OptionListGetStatusCode (rv_options data) = Some (success, code, msg, n)"
    by (rule status_returns [OF assms(2)])
  have ok: "opts6_ok (rv_options data)" using assms(2) by (auto simp: receive_ok_def)
  obtain ia ap where ia: "get_ia_na_pd (c6_mode c1 = kDHCPv6ClientModeStatefulAddress) (rv_options data) = Some (ia, ap)"
    using ia_returns(2) [OF assms(2)] by blast
  obtain pref where pref: "get_preference_value_from_options (rv_options data) = Some pref"
    using preference_ok [OF ok] by (auto simp: returns_def)
  have sv: "i6_options (c6_saved c1) = Some l \<Longrightarrow> opts6_ok l" for l using c1 by (simp add: inv6_def kept_ok_def)
  have "\<exists>keep. (case i6_options (c6_saved c1) of None \<Rightarrow> Some False
      | Some saved_options \<Rightarrow> do { saved_pref \<leftarrow> get_preference_value_from_options saved_options; Some (saved_pref \<ge> pref) }) = Some keep"
    using preference_ok [OF sv] by (cases "i6_options (c6_saved c1)") (auto simp: returns_def)
  then obtain keep where keep: "(case i6_options (c6_saved c1) of None \<Rightarrow> Some False
      | Some saved_options \<Rightarrow> do { saved_pref \<leftarrow> get_preference_value_from_options saved_options; Some (saved_pref \<ge> pref) }) = Some keep" by blast
  have rest: "returns (inv6 pd m) (do { c2 \<leftarrow> DHCPv6ClientSavePacket data c1; if c6_try c2 > 1 \<or> pref = 255 then Request_start c2 else Some c2 })"
    by (rule returns_bind [OF save_packet6_keeps [OF c1 assms(2)]]) (simp add: request_keeps)
  show "returns (inv6 pd m) (do { (success, code, _, _) \<leftarrow> DHCPv6OptionListGetStatusCode (rv_options data);
       if \<not> success then Some c1
       else if code = kDHCPv6StatusCodeNoAddrsAvail \<or> code = kDHCPv6StatusCodeNoPrefixAvail then Some c1
       else if c6_mode c1 \<noteq> kDHCPv6ClientModeStatefulAddress \<and> c6_mode c1 \<noteq> kDHCPv6ClientModeStatefulPrefix then Some c1
       else do {
         (ia, ap) \<leftarrow> get_ia_na_pd (c6_mode c1 = kDHCPv6ClientModeStatefulAddress) (rv_options data);
         if ia = None then Some c1
         else do {
           pref \<leftarrow> get_preference_value_from_options (rv_options data);
           keep \<leftarrow> (case i6_options (c6_saved c1) of
                      None \<Rightarrow> Some False
                    | Some saved_options \<Rightarrow> do {
                        saved_pref \<leftarrow> get_preference_value_from_options saved_options;
                        Some (saved_pref \<ge> pref) });
           if keep then Some c1
           else do {
             c2 \<leftarrow> DHCPv6ClientSavePacket data c1;
             if c6_try c2 > 1 \<or> pref = 255 then Request_start c2 else Some c2 } } } })"
    unfolding s ia pref bind.bind_lunit prod.case keep
    by (intro returns_if) (simp_all only: returns_Some c1 rest)
qed

lemma inform_data_keeps:
  assumes "inv6 pd m c" "receive_ok data" "has_duid c"
  shows "returns (inv6 pd m) (Inform_data data c)"
  unfolding Inform_data_def
  by (rule from_server_keeps [OF assms(2,3,1)]) (rule returns_bind [OF save_packet6_keeps [OF _ assms(2)]], assumption, simp)

end
