(* ===== verification/DHCPv6Events.thy ===== *)
theory DHCPv6Events
  imports DHCPv6Safety
begin

text \<open>
  What can happen to a DHCPv6 client, in either of its two uses: as the prefix delegation method
  (\<open>pd\<close>), and as the client of the router advertisement method, which sets its mode, starts and stops it and
  passes events on.  Every step returns and keeps the invariant \<open>good6\<close>.
\<close>

section \<open>Steps\<close>

datatype stimulus6 =
    Timer6
  | Receives6 "u8 list" nat
  | Pd6 pd_event
  | Pd_notified
  | Create6 nat
  | Private6 bool
  | Mode6 client6_mode
  | Start6
  | Stop6
  | Discard6
  | Event6 daemon_event6
  | Release6
  | Around6 world env6 socket_globals

text \<open>\<open>Around6\<close> is everything around the client: time, the link, other clients that use the descriptor.\<close>

definition step6 :: "stimulus6 \<Rightarrow> client6 \<Rightarrow> client6 option" where
  "step6 s c = (case s of
     Timer6 \<Rightarrow> timer_fires6 c
   | Receives6 buf n \<Rightarrow> packet_arrives6 buf n c
   | Pd6 event \<Rightarrow> map_option (\<lambda>(status, needs_stop, c'). c') (dhcpv6_pd_thread event c)
   | Pd_notified \<Rightarrow> dhcpv6_pd_notify c
   | Create6 if_index \<Rightarrow> Some ((DHCPv6ClientCreate if_index c)\<lparr>c6_callback := True\<rparr>)
   | Private6 b \<Rightarrow> Some (DHCPv6ClientSetUsePrivateAddress b c)
   | Mode6 mode \<Rightarrow> Some (DHCPv6ClientSetMode mode c)
   | Start6 \<Rightarrow> DHCPv6ClientStart c
   | Stop6 \<Rightarrow> Some (DHCPv6ClientStop c)
   | Discard6 \<Rightarrow> Some (DHCPv6ClientDiscardInformation c)
   | Event6 event \<Rightarrow> DHCPv6ClientHandleEvent event c
   | Release6 \<Rightarrow> DHCPv6ClientRelease c
   | Around6 w e g \<Rightarrow> Some (c\<lparr>c6_world := w, c6_env := e, c6_globals := g\<rparr>))"

text \<open>
  When each can happen.  A datagram is not longer than the buffer, and the daemon has an identifier before one
  is received: it sends nothing without.
\<close>

definition possible6 :: "bool \<Rightarrow> stimulus6 \<Rightarrow> client6 \<Rightarrow> bool" where
  "possible6 pd s c = (case s of
     Timer6 \<Rightarrow> c6_private c \<and> tm_enabled (c6_timer c) \<and> tm_deadline (c6_timer c) \<le> w_mono (c6_world c)
   | Receives6 buf n \<Rightarrow> c6_private c \<and> n \<le> length buf \<and> has_duid c
   | Pd6 event \<Rightarrow> pd \<and> (c6_private c \<or> (\<exists>i requested. event = PD_start i requested) \<or> event = PD_stop)
   | Pd_notified \<Rightarrow> pd \<and> c6_private c
   | Create6 _ \<Rightarrow> \<not> pd \<and> \<not> c6_private c
   | Mode6 mode \<Rightarrow> \<not> pd \<and> c6_private c \<and> mode \<noteq> kDHCPv6ClientModeStatefulPrefix
   | Around6 w e g \<Rightarrow> sockets_ok \<lparr>sx_world = w, sx_globals = g, sx_sock = c6_sock c\<rparr>
   | _ \<Rightarrow> \<not> pd \<and> c6_private c)"

inductive steps6 :: "bool \<Rightarrow> client6 \<Rightarrow> stimulus6 list \<Rightarrow> client6 \<Rightarrow> bool" for pd where
  start6: "steps6 pd c [] c"
| more6: "steps6 pd c es c1 \<Longrightarrow> possible6 pd e c1 \<Longrightarrow> step6 e c1 = Some c2 \<Longrightarrow> steps6 pd c (es @ [e]) c2"

section \<open>A client that only informs itself\<close>

text \<open>While the mode is not one of those that ask for leases, timer and socket only know the functions for Inform.\<close>

definition quiet6 :: "client6 \<Rightarrow> bool" where
  "quiet6 c \<longleftrightarrow> tm_func (c6_timer c) \<in> {None, Some F_Inform} \<and> sk_receive_func (c6_sock c) \<in> {None, Some RF_Inform}"

lemma socket_receive_func:
  "sk_receive_func (sx_sock (DHCPv6SocketCloseSocket x)) = sk_receive_func (sx_sock x)"
  "sk_receive_func (sx_sock (snd (DHCPv6SocketOpenSocket x))) = sk_receive_func (sx_sock x)"
  "sk_receive_func (sx_sock (DHCPv6SocketEnableReceive xid f x)) = Some f"
  "sk_receive_func (sx_sock (DHCPv6SocketDisableReceive x)) = None"
proof -
  have close: "sk_receive_func (sx_sock (DHCPv6SocketCloseSocket y)) = sk_receive_func (sx_sock y)" for y :: "'a sock_ctx"
    by (simp add: DHCPv6SocketCloseSocket_def Let_def)
  then show "sk_receive_func (sx_sock (DHCPv6SocketCloseSocket x)) = sk_receive_func (sx_sock x)" .
  have opened: "sk_receive_func (sx_sock (snd (DHCPv6SocketOpenSocket y))) = sk_receive_func (sx_sock y)" for y :: "'a sock_ctx"
    by (auto simp: DHCPv6SocketOpenSocket_def DHCPv6SocketOpenSocketFD_def close Let_def split: prod.split)
  then show "sk_receive_func (sx_sock (snd (DHCPv6SocketOpenSocket x))) = sk_receive_func (sx_sock x)" .
  show "sk_receive_func (sx_sock (DHCPv6SocketEnableReceive xid f x)) = Some f"
    by (simp add: DHCPv6SocketEnableReceive_def opened)
  show "sk_receive_func (sx_sock (DHCPv6SocketDisableReceive x)) = None"
    by (simp add: DHCPv6SocketDisableReceive_def close)
qed

lemma quiet6_fields [simp]:
  "quiet6 (c\<lparr>c6_duid := d\<rparr>) = quiet6 c" "quiet6 (c\<lparr>c6_start_time := t\<rparr>) = quiet6 c" "quiet6 (act6 a c) = quiet6 c"
  "quiet6 (DHCPv6ClientSetNewTransactionID c) = quiet6 c" "quiet6 (DHCPv6ClientClearRetransmit c) = quiet6 c"
  "quiet6 (DHCPv6ClientClearPacket c) = quiet6 c" "quiet6 (DHCPv6ClientSetState st c) = quiet6 c"
  "quiet6 (DHCPv6ClientRemoveAddress c) = quiet6 c" "quiet6 (DHCPv6ClientPostNotification c) = quiet6 c"
  by (simp_all add: quiet6_def act6_def DHCPv6ClientSetNewTransactionID_def DHCPv6ClientClearRetransmit_def DHCPv6ClientClearPacket_def
      DHCPv6ClientClearLease_def DHCPv6ClientSetState_def DHCPv6ClientRemoveAddress_def DHCPv6ClientPostNotification_def
      arc4random_def Let_def)

lemma quiet6_cancel [simp]: "quiet6 (DHCPv6ClientCancelPendingEvents c)"
  by (simp add: DHCPv6ClientCancelPendingEvents_def quiet6_def cancel_timer6_def disable_receive_def put_sock_def socket_receive_func)

lemma quiet6_stops [simp]: "quiet6 (DHCPv6ClientInactive c)" "quiet6 (InformComplete_start c)" "quiet6 (DHCPv6ClientStop c)"
  by (simp_all add: DHCPv6ClientInactive_def InformComplete_start_def DHCPv6ClientStop_def Let_def)
    (simp add: quiet6_def DHCPv6ClientSetState_def DHCPv6ClientPostNotification_def act6_def DHCPv6ClientCancelPendingEvents_def
      cancel_timer6_def disable_receive_def put_sock_def socket_receive_func)

lemma quiet6_next_retransmit: "quiet6 c \<Longrightarrow> DHCPv6ClientNextRetransmit IRT MRT c = (rt, c') \<Longrightarrow> quiet6 c'"
  by (auto simp: quiet6_def DHCPv6ClientNextRetransmit_def DHCPv6InitialTimeout_def DHCPv6SubsequentTimeout_def DHCPv6_RAND_def
      random_double_in_range_def arc4random_def Let_def split: if_splits)

lemma quiet6_set_timer: "quiet6 c \<Longrightarrow> quiet6 (set_timer6 t F_Inform c)"
  by (simp add: quiet6_def set_timer6_def)

lemma quiet6_timers [simp]:
  assumes "quiet6 c"
  shows "quiet6 (new_transaction RF_Inform c)" "quiet6 (random_timer F_Inform c)" "quiet6 (retransmit_timer IRT MRT F_Inform c)"
proof -
  show "quiet6 (new_transaction RF_Inform c)" using assms
    by (simp add: new_transaction_def enable_receive_def put_sock_def quiet6_def socket_receive_func DHCPv6ClientSetNewTransactionID_def
        arc4random_def Let_def)
  show "quiet6 (random_timer F_Inform c)" using assms
    by (simp add: random_timer_def random_double_in_range_def arc4random_def Let_def) (simp add: quiet6_def set_timer6_def)
  show "quiet6 (retransmit_timer IRT MRT F_Inform c)"
    using quiet6_next_retransmit [OF assms, of IRT MRT] by (auto simp: retransmit_timer_def quiet6_set_timer split: prod.split)
qed

lemma transmit6_quiet:
  assumes "quiet6 c" "transmit6 b c = Some c'"
  shows "quiet6 c'"
proof -
  obtain sent x where x: "DHCPv6SocketTransmit (sock_ctx_of c) = Some (sent, x)" "c' = put_sock x c \<or> c' = act6 (Transmit6 b) (put_sock x c)"
    using assms(2) by (auto simp: transmit6_def split: Option.bind_splits)
  have "sk_receive_func (sx_sock x) = sk_receive_func (c6_sock c)"
  proof (cases "DHCPv6SocketOpenSocket (sock_ctx_of c)")
    case (Pair ok y)
    then have "sk_receive_func (sx_sock y) = sk_receive_func (c6_sock c)"
      using socket_receive_func(2) [of "sock_ctx_of c"] by (simp add: sock_ctx_of_def)
    then show ?thesis using x(1) Pair
      by (auto simp: DHCPv6SocketTransmit_def sock_ctx_of_def socket_receive_func(1) split: if_splits)
  qed
  then show ?thesis using x(2) assms(1) by (auto simp: quiet6_def put_sock_def act6_def)
qed

lemma send_inform_quiet:
  assumes "quiet6 c" "DHCPv6ClientSendInform c = Some c'"
  shows "quiet6 c'"
proof -
  obtain r d where r: "DHCPv6ClientMakePacket kDHCPv6MessageINFORMATION_REQUEST (stack_buf c) 1500 c = Some (r, c\<lparr>c6_duid := d\<rparr>)"
    using returns_obtain [OF make_packet_room [of "stack_buf c" c kDHCPv6MessageINFORMATION_REQUEST]] by (auto simp: stack_buf)
  show ?thesis using assms r transmit6_quiet [of "c\<lparr>c6_duid := d\<rparr>"]
    by (auto simp: DHCPv6ClientSendInform_def split: Option.bind_splits option.splits)
qed

lemma returns_both: "returns P r \<Longrightarrow> (\<And>x. r = Some x \<Longrightarrow> Q x) \<Longrightarrow> returns (\<lambda>x. P x \<and> Q x) r"
  by (auto simp: returns_def)

lemma inform_quiet:
  assumes "quiet6 c"
  shows "Inform_timeout c = Some c' \<Longrightarrow> quiet6 c'" "Inform_start c = Some c' \<Longrightarrow> quiet6 c'"
proof -
  have t: "Inform_timeout c = Some c' \<Longrightarrow> quiet6 c'" if "quiet6 c" for c c'
  proof -
    assume e: "Inform_timeout c = Some c'"
    have s: "quiet6 c'" if "quiet6 c1" "DHCPv6ClientSendInform (retransmit_timer 1 3600 F_Inform c1) = Some c'" for c1
      using send_inform_quiet [OF quiet6_timers(3) that(2)] that(1) by simp
    show "quiet6 c'" using e that s [of c] s [of "c\<lparr>c6_start_time := now6 c\<rparr>"] by (auto simp: Inform_timeout_def Let_def split: if_splits)
  qed
  then show "Inform_timeout c = Some c' \<Longrightarrow> quiet6 c'" using assms by blast
  show "Inform_start c = Some c' \<Longrightarrow> quiet6 c'"
  proof -
    let ?c = "new_transaction RF_Inform (DHCPv6ClientClearRetransmit (DHCPv6ClientClearPacket (DHCPv6ClientSetState kDHCPv6ClientStateInform c)))"
    assume e: "Inform_start c = Some c'"
    have q: "quiet6 ?c" using assms by simp
    show "quiet6 c'" using e q t [OF q] by (auto simp: Inform_start_def Let_def split: if_splits)
  qed
qed

lemma inform_data_quiet:
  assumes "quiet6 c" "receive_ok data" "has_duid c" "Inform_data data c = Some c'"
  shows "quiet6 c'"
  using returns_obtain [OF from_server_returns [OF assms(2,3), of kDHCPv6MessageREPLY]] assms(1,4)
  by (auto simp: Inform_data_def split: Option.bind_splits if_splits)

section \<open>The functions of the client\<close>

lemma inv6_mode: "inv6 pd m c \<Longrightarrow> c6_mode c = m"
  by (simp add: inv6_def)

lemma start_keeps:
  assumes "inv6 pd m c"
  shows "returns (inv6 pd m) (DHCPv6ClientStart c)"
proof -
  obtain v c1 where v: "DHCPv6ClientLeaseStillValid (now6 c) c = (v, c1)" by fastforce
  show ?thesis unfolding DHCPv6ClientStart_def Let_def v prod.case
    by (intro returns_if) (simp_all only: returns_Some inv6_starts [OF assms] inv6_starts [OF inv6_lease_valid [OF assms v]]
        inform_keeps [OF assms] assms)
qed

lemma roam_keeps:
  assumes "inv6 pd m c"
  shows "returns (inv6 pd m) (DHCPv6ClientHandleRoam c)"
proof -
  obtain v c1 where v: "DHCPv6ClientLeaseStillValid (now6 c) c = (v, c1)" by fastforce
  show ?thesis using inv6_lease_valid [OF assms v] by (simp add: DHCPv6ClientHandleRoam_def v)
qed

lemma wake_keeps:
  assumes "inv6 pd m c"
  shows "returns (inv6 pd m) (DHCPv6ClientHandleWake info l c)"
proof -
  obtain v c1 where v: "DHCPv6ClientLeaseStillValid (now6 c) c = (v, c1)" by fastforce
  have c1: "inv6 pd m c1" by (rule inv6_lease_valid [OF assms v])
  have t: "inv6 pd m (set_timer6 t f c1)" for t f using c1 by simp
  have r: "inv6 pd m (DHCPv6ClientRemoveAddress c)" using assms by simp
  have u: "inv6 pd m (if b then Unbound_start c1 else c1)" for b using c1 by simp
  show ?thesis unfolding DHCPv6ClientHandleWake_def Let_def v prod.case
    by (intro returns_if) (simp_all only: returns_Some c1 t r u inv6_starts [OF r] inv6_starts [OF c1] renew_start_keeps [OF c1])
qed

lemma link_renew_keeps: "inv6 pd m c \<Longrightarrow> returns (inv6 pd m) (DHCPv6ClientHandleLinkStatusRenew l c)"
  using start_keeps by (simp add: DHCPv6ClientHandleLinkStatusRenew_def)

lemma event_keeps:
  assumes "inv6 pd m c"
  shows "returns (inv6 pd m) (DHCPv6ClientHandleEvent event c)"
  using assms address_changed_keeps wake_keeps link_renew_keeps roam_keeps
  by (simp add: DHCPv6ClientHandleEvent_def split: daemon_event6.split)

lemma send_release_keeps:
  assumes "inv6 pd m c"
  shows "returns (inv6 pd m) (DHCPv6ClientSendRelease c)"
proof -
  obtain v c1 where v: "DHCPv6ClientLeaseStillValid (now6 c) c = (v, c1)" by fastforce
  have c1: "inv6 pd m c1" by (rule inv6_lease_valid [OF assms v])
  have "returns (inv6 pd m) (Release_start c1)" unfolding Release_start_def by (rule send_packet_keeps) (use c1 in simp)
  then show ?thesis using c1 assms by (simp add: DHCPv6ClientSendRelease_def v)
qed

text \<open>After the release, the client is not there any more, and the socket is closed.\<close>

lemma release_closes:
  assumes "inv6 pd m c"
  shows "returns (\<lambda>c'. \<not> c6_private c' \<and> fd_ok (c6_globals c') (c6_sock c')) (DHCPv6ClientRelease c)"
proof -
  have "returns (inv6 pd m) (if c6_mode c = kDHCPv6ClientModeStatefulAddress \<or> c6_mode c = kDHCPv6ClientModeStatefulPrefix
      then DHCPv6ClientSendRelease c else Some c)"
    using send_release_keeps [OF assms] assms by simp
  then show ?thesis unfolding DHCPv6ClientRelease_def Let_def
  proof (rule returns_bind)
    fix c1 assume "inv6 pd m c1"
    then have "inv6 pd m (DHCPv6ClientClearPacket (disable_receive (cancel_timer6 c1)))" by simp
    then show "returns (\<lambda>c'. \<not> c6_private c' \<and> fd_ok (c6_globals c') (c6_sock c'))
        (Some ((DHCPv6ClientClearPacket (disable_receive (cancel_timer6 c1)))\<lparr>c6_callback := False, c6_duid := None, c6_private := False\<rparr>))"
      by (simp add: inv6_def)
  qed
qed

lemma has_dns_returns:
  assumes "inv6 pd m c"
  shows "returns (\<lambda>_. True) (DHCPv6ClientHasDNS c)"
proof (cases "i6_options (c6_saved c)")
  case (Some l)
  then have "opts6_ok l" using assms by (simp add: inv6_def kept_ok_def)
  from option_found [OF this, of kDHCPv6OPTION_DOMAIN_LIST] option_found [OF this, of kDHCPv6OPTION_DNS_SERVERS]
  show ?thesis by (auto simp: DHCPv6ClientHasDNS_def Some returns_def)
qed (simp add: DHCPv6ClientHasDNS_def)

lemma get_info_returns:
  assumes "inv6 pd m c"
  shows "returns (\<lambda>_. True) (DHCPv6ClientGetInfo c)"
  using assms by (auto simp: DHCPv6ClientGetInfo_def inv6_def kept_ok_def Let_def split: option.splits)

lemma pd_notify_keeps: "inv6 pd m c \<Longrightarrow> returns (inv6 pd m) (dhcpv6_pd_notify c)"
  unfolding dhcpv6_pd_notify_def by (rule returns_bind [OF get_info_returns]) (auto split: option.split)

section \<open>Every step\<close>

definition good6 :: "bool \<Rightarrow> client6 \<Rightarrow> bool" where
  "good6 pd c \<longleftrightarrow> fd_ok (c6_globals c) (c6_sock c) \<and>
     (c6_private c \<longrightarrow> inv6 pd (c6_mode c) c \<and> (drives pd (c6_mode c) \<or> quiet6 c))"

lemma good6_intro: "inv6 pd m c \<Longrightarrow> drives pd m \<or> quiet6 c \<Longrightarrow> good6 pd c"
  by (auto simp: good6_def inv6_def)

lemma returns_good6: "returns (inv6 pd m) r \<Longrightarrow> drives pd m \<Longrightarrow> returns (good6 pd) r"
  by (erule returns_mono) (simp add: good6_intro)

lemma returns_good6_quiet: "returns (inv6 pd m) r \<Longrightarrow> (\<And>c'. r = Some c' \<Longrightarrow> quiet6 c') \<Longrightarrow> returns (good6 pd) r"
  by (auto simp: returns_def intro: good6_intro)

lemma timer_good6:
  assumes "inv6 pd m c" "drives pd m \<or> quiet6 c"
  shows "returns (good6 pd) (timer_fires6 c)"
proof -
  obtain f tm where p: "timer_callout_process (c6_timer c) = (f, tm)" by fastforce
  let ?c = "c\<lparr>c6_timer := tm\<rparr>"
  have c: "inv6 pd m ?c" using assms(1) by simp
  have f: "f = None \<or> f = tm_func (c6_timer c)" "tm_func tm = tm_func (c6_timer c)"
    using p by (auto simp: timer_callout_process_def split: if_splits)
  have q: "quiet6 ?c" if "quiet6 c" using that f by (simp add: quiet6_def)
  show ?thesis
  proof (cases "drives pd m")
    case True
    have "returns (inv6 pd m) (call_func6 g ?c)" for g
      using inform_keeps [OF c] decline_keeps [OF c] renew_rebind_keeps [OF c] renew_start_keeps [OF c]
        confirm_timeout_keeps [OF c True] request_keeps [OF c] solicit_timeout_keeps [OF c]
      by (cases g) (simp_all add: call_func6_def)
    from returns_good6 [OF this True] show ?thesis using c True by (cases f) (auto simp: timer_fires6_def p intro: good6_intro)
  next
    case False
    then have q: "quiet6 c" using assms(2) by simp
    then have "f = None \<or> f = Some F_Inform" using f by (auto simp: quiet6_def)
    then show ?thesis
    proof
      assume "f = None"
      then show ?thesis using c q \<open>quiet6 c \<Longrightarrow> quiet6 ?c\<close> by (auto simp: timer_fires6_def p intro: good6_intro)
    next
      assume "f = Some F_Inform"
      then show ?thesis
        using returns_good6_quiet [OF inform_keeps(1) [OF c] inform_quiet(1) [OF \<open>quiet6 c \<Longrightarrow> quiet6 ?c\<close> [OF q]]]
        by (simp add: timer_fires6_def p call_func6_def)
    qed
  qed
qed

text \<open>What the socket hands to the client is a packet as the client expects it.\<close>

lemma demux_ok:
  assumes "n \<le> length buf"
  shows "returns (\<lambda>r. \<forall>f l. r = Some (f, l) \<longrightarrow> receive_ok \<lparr>rv_pkt = buf, rv_pkt_len = int n, rv_options = l\<rparr> \<and> sk_receive_func s = Some f)
    (DHCPv6SocketDemux [s] i buf (int n))"
proof (cases "int n < DHCPV6_PACKET_HEADER_LENGTH")
  case True
  then show ?thesis by (simp add: DHCPv6SocketDemux_def)
next
  case False
  then have n: "4 \<le> n" "int n - DHCPV6_PACKET_HEADER_LENGTH = int (n - 4)" by (simp_all add: DHCPV6_PACKET_HEADER_LENGTH_def)
  have le: "n - 4 \<le> length (drop 4 buf)" using assms by simp
  obtain xid where xid: "DHCPv6PacketGetTransactionID buf = Some xid"
    using n(1) assms net_uint32_get_defined [of "[0, x, y, z]" for x y z] by (simp add: DHCPv6PacketGetTransactionID_def rd_def) blast
  show ?thesis
  proof (cases rule: list_create [OF le])
    case 1
    then show ?thesis using False n(2) by (simp add: DHCPv6SocketDemux_def DHCPv6OptionListCreateWithPacket_def)
  next
    case (2 l fs)
    then have "receive_ok \<lparr>rv_pkt = buf, rv_pkt_len = int n, rv_options = l\<rparr>" using n(1) assms by (auto simp: receive_ok_def)
    then show ?thesis using False n(2) 2 xid by (simp add: DHCPv6SocketDemux_def DHCPv6OptionListCreateWithPacket_def)
  qed
qed

lemma packet_good6:
  assumes "inv6 pd m c" "drives pd m \<or> quiet6 c" "n \<le> length buf" "has_duid c"
  shows "returns (good6 pd) (packet_arrives6 buf n c)"
proof -
  obtain r where r: "DHCPv6SocketDemux [c6_sock c] (sk_if_index (c6_sock c)) buf (int n) = Some r"
    "\<And>f l. r = Some (f, l) \<Longrightarrow> receive_ok \<lparr>rv_pkt = buf, rv_pkt_len = int n, rv_options = l\<rparr> \<and> sk_receive_func (c6_sock c) = Some f"
    using demux_ok [OF assms(3), of "c6_sock c" "sk_if_index (c6_sock c)"] by (auto simp: returns_def)
  show ?thesis
  proof (cases r)
    case None
    then show ?thesis using r(1) assms(1,2) by (simp add: packet_arrives6_def good6_intro)
  next
    case (Some x)
    obtain f l where x: "r = Some (f, l)" using Some by (cases x) simp
    let ?d = "\<lparr>rv_pkt = buf, rv_pkt_len = int n, rv_options = l\<rparr>"
    have d: "receive_ok ?d" and f: "sk_receive_func (c6_sock c) = Some f" using r(2) [OF x] by simp_all
    show ?thesis
    proof (cases "drives pd m")
      case True
      have "returns (inv6 pd m) (call_receiver6 f ?d c)"
        using inform_data_keeps [OF assms(1) d assms(4)] decline_data_keeps [OF assms(1) d assms(4)]
          renew_data_keeps [OF assms(1) True d assms(4)] confirm_data_keeps [OF assms(1) True d assms(4)]
          request_data_keeps [OF assms(1) True d assms(4)] solicit_data_keeps [OF assms(1) d assms(4)]
        by (cases f) (simp_all add: call_receiver6_def)
      from returns_good6 [OF this True] show ?thesis using r(1) x by (simp add: packet_arrives6_def)
    next
      case False
      then have q: "quiet6 c" using assms(2) by simp
      then have "f = RF_Inform" using f by (simp add: quiet6_def)
      then show ?thesis
        using r(1) x returns_good6_quiet [OF inform_data_keeps [OF assms(1) d assms(4)] inform_data_quiet [OF q d assms(4)]]
        by (simp add: packet_arrives6_def call_receiver6_def)
    qed
  qed
qed

lemma create_inv6:
  assumes "fd_ok (c6_globals c) (c6_sock c)"
  shows "inv6 True kDHCPv6ClientModeNone (DHCPv6ClientCreate i c)"
    "inv6 False kDHCPv6ClientModeNone ((DHCPv6ClientCreate i c)\<lparr>c6_callback := True\<rparr>)"
  using assms by (auto simp: inv6_def DHCPv6ClientCreate_def mode_ok_def kept_ok_def given_ok_def no_lease6_def fd_ok_def DHCPv6SocketCreate_def)

lemma create_quiet6: "quiet6 (DHCPv6ClientCreate i c)"
  by (simp add: quiet6_def DHCPv6ClientCreate_def DHCPv6SocketCreate_def timer_callout_init_def)

text \<open>Setting a mode only does something when there is none.\<close>

lemma set_mode_keeps:
  assumes "inv6 pd m c" "mode_ok pd mode"
  shows "inv6 pd (c6_mode (DHCPv6ClientSetMode mode c)) (DHCPv6ClientSetMode mode c)"
  using assms by (auto simp: DHCPv6ClientSetMode_def inv6_def)

lemma stop_keeps:
  assumes "inv6 pd m c"
  shows "inv6 pd kDHCPv6ClientModeNone (DHCPv6ClientStop c)"
proof -
  have "inv6 pd m (DHCPv6ClientCancelPendingEvents (DHCPv6ClientRemoveAddress c))" using assms by simp
  then have "inv6 pd kDHCPv6ClientModeNone ((DHCPv6ClientCancelPendingEvents (DHCPv6ClientRemoveAddress c))\<lparr>c6_mode := kDHCPv6ClientModeNone\<rparr>)"
    by (auto simp: inv6_def mode_ok_def)
  then show ?thesis by (auto simp: DHCPv6ClientStop_def Let_def DHCPv6ClientSetState_def inv6_def DHCPv6ClientPostNotification_def act6_def)
qed

lemma pd_start_keeps:
  assumes "fd_ok (c6_globals c) (c6_sock c)"
  shows "returns (inv6 True kDHCPv6ClientModeStatefulPrefix) (dhcpv6_pd_start i requested c)"
proof -
  let ?c1 = "DHCPv6ClientSetMode kDHCPv6ClientModeStatefulPrefix (DHCPv6ClientCreate i c)"
  have c1: "inv6 True kDHCPv6ClientModeStatefulPrefix ?c1"
    using create_inv6(1) [OF assms] by (auto simp: DHCPv6ClientSetMode_def DHCPv6ClientVerifyModeIsNone_def inv6_def mode_ok_def)
  define c3 where "c3 = (case requested of None \<Rightarrow> ?c1
      | Some (prefix, prefix_length) \<Rightarrow> if prefix_length \<noteq> 0
          then DHCPv6ClientSetRequestedPrefix prefix (DHCPv6ClientSetRequestedPrefixLength prefix_length ?c1) else ?c1)\<lparr>c6_callback := True\<rparr>"
  have "inv6 True kDHCPv6ClientModeStatefulPrefix c3" unfolding c3_def using c1
    by (auto simp: inv6_def DHCPv6ClientSetRequestedPrefix_def DHCPv6ClientSetRequestedPrefixLength_def split: option.split)
  then show ?thesis unfolding dhcpv6_pd_start_def Let_def c3_def [symmetric] using start_keeps by simp
qed

lemma map_Some_returns: "returns P r \<Longrightarrow> returns P (map_option (\<lambda>(status, needs_stop, c'). c') (map_option (\<lambda>c'. (ipconfig_status_success_e, False, c')) r))"
  by (auto simp: returns_def)

lemma pd_thread_good6:
  assumes "good6 True c" "c6_private c \<or> (\<exists>i requested. event = PD_start i requested) \<or> event = PD_stop"
  shows "returns (good6 True) (map_option (\<lambda>(status, needs_stop, c'). c') (dhcpv6_pd_thread event c))"
proof -
  have d: "drives True m" for m by (simp add: drives_def)
  have fd: "fd_ok (c6_globals c) (c6_sock c)" using assms(1) by (simp add: good6_def)
  note good = returns_good6 [OF _ d]
  show ?thesis
  proof (cases "c6_private c")
    case False
    note start = map_Some_returns [OF good [OF pd_start_keeps [OF fd]]]
    from False assms(2) consider i requested where "event = PD_start i requested" | "event = PD_stop" by blast
    then show ?thesis by cases (use False assms(1) start in \<open>simp_all add: dhcpv6_pd_thread_def\<close>)
  next
    case True
    then have c: "inv6 True (c6_mode c) c" using assms(1) by (simp add: good6_def)
    let ?c = "DHCPv6ClientSetMode kDHCPv6ClientModeStatefulPrefix c"
    have s: "inv6 True (c6_mode ?c) ?c" by (rule set_mode_keeps [OF c]) (simp add: mode_ok_def)
    have rel: "returns (good6 True) (DHCPv6ClientRelease c)" by (rule returns_mono [OF release_closes [OF c]]) (simp add: good6_def)
    have stp: "good6 True (DHCPv6ClientStop c)" by (rule good6_intro [OF stop_keeps [OF c]]) (simp add: d)
    note all = map_Some_returns [OF rel] map_Some_returns [OF good [OF link_renew_keeps [OF s]]]
      map_Some_returns [OF good [OF wake_keeps [OF c]]] map_Some_returns [OF good [OF roam_keeps [OF c]]]
    show ?thesis
      by (cases event) (use True assms(1) all stp in \<open>simp_all add: dhcpv6_pd_thread_def split: option.split\<close>)
  qed
qed

lemma step6_good6:
  assumes "good6 pd c" "possible6 pd e c"
  shows "returns (good6 pd) (step6 e c)"
proof (cases "\<exists>w v g. e = Around6 w v g")
  case True
  then obtain w v g where e: "e = Around6 w v g" by blast
  have "fd_ok g (c6_sock c)" using assms(2) by (simp add: e possible6_def sockets_ok_fd)
  then show ?thesis using assms(1) by (auto simp: e step6_def good6_def inv6_def quiet6_def)
next
  case not_around: False
  show ?thesis
  proof (cases "c6_private c")
    case False
    then consider (pd) event where "e = Pd6 event" "pd" "(\<exists>i requested. event = PD_start i requested) \<or> event = PD_stop"
      | (create) i where "e = Create6 i" "\<not> pd"
      using assms(2) not_around by (cases e) (auto simp: possible6_def)
    then show ?thesis
    proof cases
      case pd
      then show ?thesis using pd_thread_good6 [of c event] assms(1) by (simp add: step6_def)
    next
      case (create i)
      have fd: "fd_ok (c6_globals c) (c6_sock c)" using assms(1) by (simp add: good6_def)
      have "quiet6 ((DHCPv6ClientCreate i c)\<lparr>c6_callback := True\<rparr>)" using create_quiet6 [of i c] by (simp add: quiet6_def)
      then show ?thesis using create good6_intro [OF create_inv6(2) [OF fd]] by (simp add: step6_def)
    qed
  next
    case True
    then have c: "inv6 pd (c6_mode c) c" "drives pd (c6_mode c) \<or> quiet6 c" using assms(1) by (simp_all add: good6_def)
    have nd: "drives pd (c6_mode c) \<or> quiet6 c" "c6_mode c = kDHCPv6ClientModeStatefulAddress \<Longrightarrow> drives pd (c6_mode c)"
      using c(2) by (simp_all add: drives_def)
    show ?thesis
    proof (cases e)
      case Timer6
      then show ?thesis using timer_good6 [OF c] by (simp add: step6_def)
    next
      case (Receives6 buf n)
      then show ?thesis using packet_good6 [OF c, of n buf] assms(2) by (simp add: step6_def possible6_def)
    next
      case (Pd6 event)
      then show ?thesis using pd_thread_good6 [of c event] assms by (simp add: step6_def possible6_def)
    next
      case Pd_notified
      then have "drives pd (c6_mode c)" using assms(2) by (simp add: possible6_def drives_def)
      from returns_good6 [OF pd_notify_keeps [OF c(1)] this] show ?thesis by (simp add: Pd_notified step6_def)
    next
      case (Create6 i)
      then show ?thesis using assms(2) True by (simp add: possible6_def)
    next
      case (Private6 b)
      have "inv6 pd (c6_mode c) (DHCPv6ClientSetUsePrivateAddress b c)" "quiet6 (DHCPv6ClientSetUsePrivateAddress b c) = quiet6 c"
        using c(1) by (simp_all add: DHCPv6ClientSetUsePrivateAddress_def quiet6_def)
      then show ?thesis using c(2) by (simp add: Private6 step6_def good6_intro)
    next
      case (Mode6 mode)
      have pd: "\<not> pd" "mode_ok pd mode" using assms(2) by (simp_all add: Mode6 possible6_def mode_ok_def)
      let ?c = "DHCPv6ClientSetMode mode c"
      have "inv6 pd (c6_mode ?c) ?c" by (rule set_mode_keeps [OF c(1) pd(2)])
      moreover have "drives pd (c6_mode ?c) \<or> quiet6 ?c"
        using c(2) pd(1) by (auto simp: DHCPv6ClientSetMode_def DHCPv6ClientVerifyModeIsNone_def quiet6_def drives_def)
      ultimately show ?thesis by (simp add: Mode6 step6_def good6_intro)
    next
      case Start6
      show ?thesis
      proof (cases "drives pd (c6_mode c)")
        case True
        from returns_good6 [OF start_keeps [OF c(1)] True] show ?thesis by (simp add: Start6 step6_def)
      next
        case False
        then have q: "quiet6 c" "\<not> pd" "c6_mode c \<noteq> kDHCPv6ClientModeStatefulAddress" using c(2) by (auto simp: drives_def)
        then have m: "c6_mode c \<noteq> kDHCPv6ClientModeStatefulPrefix" using c(1) by (auto simp: inv6_def mode_ok_def)
        have "quiet6 c'" if "DHCPv6ClientStart c = Some c'" for c'
          using that m q inform_quiet(2) [OF q(1)] by (auto simp: DHCPv6ClientStart_def split: if_splits)
        from returns_good6_quiet [OF start_keeps [OF c(1)] this] show ?thesis by (simp add: Start6 step6_def)
      qed
    next
      case Stop6
      then show ?thesis using good6_intro [OF stop_keeps [OF c(1)]] by (simp add: step6_def)
    next
      case Discard6
      have "inv6 pd (c6_mode c) (DHCPv6ClientDiscardInformation c)" "quiet6 (DHCPv6ClientDiscardInformation c) = quiet6 c"
        using c(1) by (simp_all add: DHCPv6ClientDiscardInformation_def)
      then show ?thesis using c(2) by (simp add: Discard6 step6_def good6_intro)
    next
      case (Event6 event)
      show ?thesis
      proof (cases "c6_mode c = kDHCPv6ClientModeStatefulAddress")
        case True
        from returns_good6 [OF event_keeps [OF c(1)] nd(2) [OF True]] show ?thesis by (simp add: Event6 step6_def)
      next
        case False
        then show ?thesis using assms(1) by (simp add: Event6 step6_def DHCPv6ClientHandleEvent_def)
      qed
    next
      case Release6
      have "returns (good6 pd) (DHCPv6ClientRelease c)" by (rule returns_mono [OF release_closes [OF c(1)]]) (simp add: good6_def)
      then show ?thesis by (simp add: Release6 step6_def)
    next
      case (Around6 w v g)
      then show ?thesis using not_around by blast
    qed
  qed
qed

lemma steps6_good6: "steps6 pd c es c' \<Longrightarrow> good6 pd c \<Longrightarrow> good6 pd c'"
proof (induction rule: steps6.induct)
  case (more6 c es c1 e c2)
  from step6_good6 [OF more6.IH [OF more6.prems] more6.hyps(2)] more6.hyps(3) show ?case by simp
qed

text \<open>The client is not there yet; the descriptor may be in use by others.\<close>

definition absent6 :: "client6 \<Rightarrow> bool" where
  "absent6 c \<longleftrightarrow> \<not> c6_private c \<and> sockets_ok (sock_ctx_of c)"

lemma absent6_good6: "absent6 c \<Longrightarrow> good6 pd c"
  by (simp add: absent6_def good6_def sockets_ok_fd sock_ctx_of_def)

end
