(* ===== verification/DHCPv6Messages.thy ===== *)
theory DHCPv6Messages
  imports DHCPv6Events
begin

text \<open>
  What the packets of the DHCPv6 client contain, and what it does with the answers: the packets are read back
  with the parser of theory DHCPv6Options.
\<close>

section \<open>Making a packet\<close>

lemma area_add_field:
  assumes "area6_holds oa fs" "field_ok (code, data)" "len = word_of_nat (length data)"
    "length (wires (fs @ [(code, data)])) \<le> length (oa6_buf oa)"
  shows "\<exists>oa'. DHCPv6OptionAreaAddOption oa code len data = Some (True, oa') \<and> area6_holds oa' (fs @ [(code, data)]) \<and>
    length (oa6_buf oa') = length (oa6_buf oa)"
proof -
  have l: "length data < 65536" "length (wire6 (code, data)) = 4 + length data"
    using assms(2) wire6_ptr(3) [OF assms(2)] by (simp_all add: field_ok_def)
  from assms(1) l(1) refl show ?thesis
  proof (cases rule: area6_add_cases [where code = code])
    case (added oa')
    then show ?thesis using assms(3) by simp
  next
    case full
    then show ?thesis using assms(4) l(2) by simp
  qed
qed

text \<open>The name of the host, with the flag that asks the server to register it.\<close>

definition fqdn_fields :: "u8 \<Rightarrow> client6 \<Rightarrow> field6 list" where
  "fqdn_fields t c =
     (if c6_mode c = kDHCPv6ClientModeStatefulAddress \<and> fqdn_message_type_ok t \<and> \<not> e6_privacy_required (c6_env c) then
        (case e6_hostname (c6_env c) of
           None \<Rightarrow> []
         | Some h \<Rightarrow> (case DNSNameListDataCreateWithCString (e6_junk (c6_env c)) h of
             Some (Some b) \<Rightarrow> [(kDHCPv6OPTION_CLIENT_FQDN, kDHCPv6OptionCLIENT_FQDNFlags_S # b)]
           | _ \<Rightarrow> []))
      else [])"

text \<open>The requested options, without that for the name when it is not sent.\<close>

definition oro_fields :: "u8 \<Rightarrow> client6 \<Rightarrow> field6 list" where
  "oro_fields t c =
     (if c6_mode c \<noteq> kDHCPv6ClientModeStatefulPrefix \<and> oro_message_type_ok t then
        [(kDHCPv6OPTION_ORO, concat (map net_uint16_bytes
           (if fqdn_fields t c \<noteq> [] then e6_requested_options (c6_env c)
            else filter (\<lambda>o'. o' \<noteq> kDHCPv6OPTION_CLIENT_FQDN) (e6_requested_options (c6_env c)))))]
      else [])"

definition common_fields :: "u8 \<Rightarrow> u8 list \<Rightarrow> client6 \<Rightarrow> field6 list" where
  "common_fields t duid c =
     (kDHCPv6OPTION_CLIENTID, duid) # fqdn_fields t c @ oro_fields t c @ [(kDHCPv6OPTION_ELAPSED_TIME, get_elapsed_time c)]"

lemma fqdn_added:
  assumes "area6_holds oa fs" "\<forall>f \<in> set (fqdn_fields t c). field_ok f" "length (wires (fs @ fqdn_fields t c)) \<le> length (oa6_buf oa)"
  shows "\<exists>oa'. (if c6_mode c = kDHCPv6ClientModeStatefulAddress \<and> fqdn_message_type_ok t then DHCPv6ClientAddFQDNOption c oa
      else Some (False, oa)) = Some (fqdn_fields t c \<noteq> [], oa') \<and> area6_holds oa' (fs @ fqdn_fields t c) \<and>
    length (oa6_buf oa') = length (oa6_buf oa)"
proof (cases "c6_mode c = kDHCPv6ClientModeStatefulAddress \<and> fqdn_message_type_ok t \<and> \<not> e6_privacy_required (c6_env c)")
  case False
  then show ?thesis using assms(1) by (auto simp: fqdn_fields_def DHCPv6ClientAddFQDNOption_def)
next
  case True
  show ?thesis
  proof (cases "e6_hostname (c6_env c)")
    case None
    then show ?thesis using True assms(1) by (simp add: fqdn_fields_def DHCPv6ClientAddFQDNOption_def)
  next
    case (Some h)
    obtain b where b: "DNSNameListDataCreateWithCString (e6_junk (c6_env c)) h = Some b"
      using host_name_total [of "e6_junk (c6_env c)" h] by (auto simp: returns_def)
    show ?thesis
    proof (cases b)
      case None
      then show ?thesis using True assms(1) Some b by (simp add: fqdn_fields_def DHCPv6ClientAddFQDNOption_def)
    next
      case (Some x)
      let ?d = "kDHCPv6OptionCLIENT_FQDNFlags_S # x"
      have f: "fqdn_fields t c = [(kDHCPv6OPTION_CLIENT_FQDN, ?d)]"
        using True b Some \<open>e6_hostname (c6_env c) = Some h\<close> by (simp add: fqdn_fields_def)
      have "\<exists>oa'. DHCPv6OptionAreaAddOption oa kDHCPv6OPTION_CLIENT_FQDN (word_of_nat (1 + length x)) ?d = Some (True, oa') \<and>
          area6_holds oa' (fs @ [(kDHCPv6OPTION_CLIENT_FQDN, ?d)]) \<and> length (oa6_buf oa') = length (oa6_buf oa)"
        by (rule area_add_field [OF assms(1)]) (use assms(2,3) f in simp_all)
      then show ?thesis unfolding f using True b Some \<open>e6_hostname (c6_env c) = Some h\<close> by (simp add: DHCPv6ClientAddFQDNOption_def)
    qed
  qed
qed

lemma oro_added:
  assumes "area6_holds oa fs" "\<forall>f \<in> set (oro_fields t c). field_ok f" "length (wires (fs @ oro_fields t c)) \<le> length (oa6_buf oa)"
  shows "\<exists>oa'. (if c6_mode c \<noteq> kDHCPv6ClientModeStatefulPrefix \<and> oro_message_type_ok t
      then DHCPv6ClientAddOptionRequestOption c oa (fqdn_fields t c \<noteq> []) else Some (True, oa)) = Some (True, oa') \<and>
    area6_holds oa' (fs @ oro_fields t c) \<and> length (oa6_buf oa') = length (oa6_buf oa)"
proof (cases "c6_mode c \<noteq> kDHCPv6ClientModeStatefulPrefix \<and> oro_message_type_ok t")
  case False
  then show ?thesis using assms(1) by (auto simp: oro_fields_def)
next
  case True
  let ?os = "if fqdn_fields t c \<noteq> [] then e6_requested_options (c6_env c)
     else filter (\<lambda>o'. o' \<noteq> kDHCPv6OPTION_CLIENT_FQDN) (e6_requested_options (c6_env c))"
  have f: "oro_fields t c = [(kDHCPv6OPTION_ORO, concat (map net_uint16_bytes ?os))]" unfolding oro_fields_def if_P [OF True] ..
  have "\<exists>oa'. DHCPv6OptionAreaAddOption oa kDHCPv6OPTION_ORO (word_of_nat (2 * length ?os)) (concat (map net_uint16_bytes ?os)) = Some (True, oa') \<and>
      area6_holds oa' (fs @ [(kDHCPv6OPTION_ORO, concat (map net_uint16_bytes ?os))]) \<and> length (oa6_buf oa') = length (oa6_buf oa)"
    by (rule area_add_field [OF assms(1)]) (use assms(2,3) f length_requested [of ?os] in simp_all)
  then show ?thesis unfolding f if_P [OF True] DHCPv6ClientAddOptionRequestOption_def DHCPv6OptionAreaAddOptionRequestOption_def .
qed

lemma same_but_duid [simp]:
  "fqdn_fields t (c\<lparr>c6_duid := d\<rparr>) = fqdn_fields t c" "oro_fields t (c\<lparr>c6_duid := d\<rparr>) = oro_fields t c"
  "get_elapsed_time (c\<lparr>c6_duid := d\<rparr>) = get_elapsed_time c" "DHCPv6ClientGetIAID (c\<lparr>c6_duid := d\<rparr>) = DHCPv6ClientGetIAID c"
proof -
  have e: "c6_env (c\<lparr>c6_duid := d\<rparr>) = c6_env c" "c6_mode (c\<lparr>c6_duid := d\<rparr>) = c6_mode c" by simp_all
  show f: "fqdn_fields t (c\<lparr>c6_duid := d\<rparr>) = fqdn_fields t c" unfolding fqdn_fields_def e ..
  show "oro_fields t (c\<lparr>c6_duid := d\<rparr>) = oro_fields t c" unfolding oro_fields_def f e ..
qed (simp_all add: get_elapsed_time_def now6_def DHCPv6ClientGetIAID_def)

lemma length_get_elapsed_time [simp]: "length (get_elapsed_time c) = 2"
  by (simp add: get_elapsed_time_def Let_def)

definition header6_ok :: "u8 \<Rightarrow> u32 \<Rightarrow> u8 list \<Rightarrow> bool" where
  "header6_ok t xid hdr \<longleftrightarrow> length hdr = 4 \<and> hdr ! 0 = t \<and> (\<forall>rest. DHCPv6PacketGetTransactionID (hdr @ rest) = Some (xid AND 0xffffff))"

lemma made_packet:
  assumes "fst (DHCPv6ClientGetDUID c) = Some duid" "\<forall>f \<in> set (common_fields t duid c). field_ok f"
    "length (wires (common_fields t duid c)) \<le> 1496"
  obtains hdr oa d where "DHCPv6ClientMakePacket t (stack_buf c) 1500 c = Some (Some (hdr, oa), c\<lparr>c6_duid := d\<rparr>)"
    "area6_holds oa (common_fields t duid c)" "length (oa6_buf oa) = 1496" "header6_ok t (c6_transaction_id c) hdr"
proof -
  obtain r d where g: "DHCPv6ClientGetDUID c = (r, c\<lparr>c6_duid := d\<rparr>)" by (rule get_duid)
  then have r: "r = Some duid" using assms(1) by simp
  let ?c = "c\<lparr>c6_duid := d\<rparr>"
  define b1 where "b1 = (stack_buf c)[0 := t]"
  have b1: "DHCPv6PacketSetMessageType (stack_buf c) t = Some b1" "length b1 = 1500" "b1 ! 0 = t"
    by (simp_all add: b1_def DHCPv6PacketSetMessageType_def wr_def stack_buf)
  obtain pkt where pkt: "DHCPv6PacketSetTransactionID b1 (c6_transaction_id c) = Some pkt" "length pkt = 1500" "pkt ! 0 = t"
    "DHCPv6PacketGetTransactionID pkt = Some (c6_transaction_id c AND 0xffffff)"
    using transaction_id_roundtrip [of b1 "c6_transaction_id c"] b1 by auto
  have hdr: "header6_ok t (c6_transaction_id c) (take 4 pkt)"
  proof -
    have "DHCPv6PacketGetTransactionID (take 4 pkt @ rest) = DHCPv6PacketGetTransactionID pkt" for rest
      using pkt(2) by (simp add: DHCPv6PacketGetTransactionID_def rd_def nth_append)
    then show ?thesis using pkt by (simp add: header6_ok_def)
  qed
  let ?oa = "DHCPv6OptionAreaInit (drop 4 pkt) (1500 - DHCPV6_PACKET_HEADER_LENGTH)"
  have oa: "area6_holds ?oa []" "length (oa6_buf ?oa) = 1496"
    using area6_init [of "drop 4 pkt"] pkt(2) by (simp_all add: DHCPV6_PACKET_HEADER_LENGTH_def DHCPv6OptionAreaInit_def)
  note fields = assms(2,3) [unfolded common_fields_def]
  obtain oa1 where oa1: "DHCPv6OptionAreaAddOption ?oa kDHCPv6OPTION_CLIENTID (word_of_nat (length duid)) duid = Some (True, oa1)"
    "area6_holds oa1 [(kDHCPv6OPTION_CLIENTID, duid)]" "length (oa6_buf oa1) = 1496"
    using area_add_field [OF oa(1) _ refl, of kDHCPv6OPTION_CLIENTID duid] fields oa(2) by auto
  have ins: "S_insert_duid c ?oa = Some (True, ?c, oa1)" by (simp add: S_insert_duid_def g r oa1(1))
  obtain oa2 where oa2: "(if c6_mode ?c = kDHCPv6ClientModeStatefulAddress \<and> fqdn_message_type_ok t then DHCPv6ClientAddFQDNOption ?c oa1
      else Some (False, oa1)) = Some (fqdn_fields t ?c \<noteq> [], oa2)" "area6_holds oa2 ([(kDHCPv6OPTION_CLIENTID, duid)] @ fqdn_fields t ?c)"
    "length (oa6_buf oa2) = 1496"
    using fqdn_added [OF oa1(2), of t ?c] fields oa1(3) by auto
  obtain oa3 where oa3: "(if c6_mode ?c \<noteq> kDHCPv6ClientModeStatefulPrefix \<and> oro_message_type_ok t
      then DHCPv6ClientAddOptionRequestOption ?c oa2 (fqdn_fields t ?c \<noteq> []) else Some (True, oa2)) = Some (True, oa3)"
    "area6_holds oa3 (([(kDHCPv6OPTION_CLIENTID, duid)] @ fqdn_fields t ?c) @ oro_fields t ?c)" "length (oa6_buf oa3) = 1496"
    using oro_added [OF oa2(2), of t ?c] fields oa2(3) by auto
  obtain oa4 where oa4: "DHCPv6OptionAreaAddOption oa3 kDHCPv6OPTION_ELAPSED_TIME 2 (get_elapsed_time ?c) = Some (True, oa4)"
    "area6_holds oa4 ((([(kDHCPv6OPTION_CLIENTID, duid)] @ fqdn_fields t ?c) @ oro_fields t ?c) @ [(kDHCPv6OPTION_ELAPSED_TIME, get_elapsed_time ?c)])"
    "length (oa6_buf oa4) = 1496"
    using area_add_field [OF oa3(2), of kDHCPv6OPTION_ELAPSED_TIME "get_elapsed_time ?c" 2] fields oa3(3) by auto
  have nf: "\<not> \<not> True" by simp
  have made: "DHCPv6ClientMakePacket t (stack_buf c) 1500 c = Some (Some (take 4 pkt, oa4), ?c)"
    unfolding DHCPv6ClientMakePacket_def b1(1) pkt(1) bind.bind_lunit Let_def ins prod.case if_not_P [OF nf] oa2(1) oa3(1) oa4(1) by simp
  have "area6_holds oa4 (common_fields t duid c)" using oa4(2) by (simp add: common_fields_def)
  then show ?thesis using that [OF made _ oa4(3) hdr] by blast
qed

section \<open>Sending it\<close>

text \<open>The fields, read back from the bytes that are sent.\<close>

definition sent_fields :: "u8 \<Rightarrow> u32 \<Rightarrow> field6 list \<Rightarrow> u8 list \<Rightarrow> bool" where
  "sent_fields t xid fs b \<longleftrightarrow> rd b 0 = Some t \<and> DHCPv6PacketGetTransactionID b = Some (xid AND 0xffffff) \<and>
     (\<exists>options. DHCPv6OptionListCreateWithPacket b (int (length b)) = Some (Some options) \<and> fields6 options = fs)"

lemma packet_sent:
  assumes "area6_holds oa fs" "header6_ok t xid hdr"
  shows "packet6 hdr oa = Some (hdr @ wires fs)" "sent_fields t xid fs (hdr @ wires fs)"
proof -
  have oa: "oa6_used oa = int (length (wires fs))" "length (wires fs) \<le> length (oa6_buf oa)" "take (length (wires fs)) (oa6_buf oa) = wires fs"
    "\<forall>f \<in> set fs. field_ok f" using assms(1) by (simp_all add: area6_holds_def)
  have h: "length hdr = 4" "hdr ! 0 = t" "DHCPv6PacketGetTransactionID (hdr @ wires fs) = Some (xid AND 0xffffff)"
    using assms(2) by (simp_all add: header6_ok_def)
  have n: "nat (DHCPV6_PACKET_HEADER_LENGTH + int (length (wires fs))) = 4 + length (wires fs)" by (simp add: DHCPV6_PACKET_HEADER_LENGTH_def)
  show "packet6 hdr oa = Some (hdr @ wires fs)"
    unfolding packet6_def DHCPv6OptionAreaGetUsedLength_def oa(1) n using h(1) oa(2,3) by (simp add: rdn_def)
  have c: "DHCPv6OptionListCreateWithPacket (hdr @ wires fs) (int (length (hdr @ wires fs))) = DHCPv6OptionListCreate (wires fs) (int (length (wires fs)))"
    using h(1) by (simp add: DHCPv6OptionListCreateWithPacket_def DHCPV6_PACKET_HEADER_LENGTH_def)
  obtain options where "DHCPv6OptionListCreate (wires fs) (int (length (wires fs))) = Some (Some options)" "fields6 options = fs"
    using parsed_fields [of "length (wires fs)" "wires fs" fs] oa(4) by auto
  then show "sent_fields t xid fs (hdr @ wires fs)" using c h by (cases hdr) (simp_all add: sent_fields_def rd_def)
qed

text \<open>A socket that is open sends.\<close>

definition can_send :: "client6 \<Rightarrow> bool" where
  "can_send c \<longleftrightarrow> sk_fd_open (c6_sock c) \<and> sg_read_fd (c6_globals c)"

lemma transmit6_sent:
  assumes "can_send c"
  shows "transmit6 b c = Some (act6 (Transmit6 b) c)"
  using assms by (simp add: transmit6_def DHCPv6SocketTransmit_def sock_ctx_of_def can_send_def put_sock_def act6_def)

definition solicit_ia :: "client6 \<Rightarrow> field6" where
  "solicit_ia c =
     (if c6_mode c = kDHCPv6ClientModeStatefulAddress then (kDHCPv6OPTION_IA_NA, ia_bytes (DHCPv6ClientGetIAID c) 0 0)
      else (kDHCPv6OPTION_IA_PD, ia_bytes (DHCPv6ClientGetIAID c) 0 0 @
        (if c6_requested_prefix_length c = 0 then []
         else wires [(kDHCPv6OPTION_IAPREFIX, iaprefix_bytes 0 0 (c6_requested_prefix_length c) (c6_requested_prefix c))])))"

definition solicit_fields :: "u8 list \<Rightarrow> client6 \<Rightarrow> field6 list" where
  "solicit_fields duid c = common_fields kDHCPv6MessageSOLICIT duid c @ [solicit_ia c]"

definition asks_for_lease :: "client6 \<Rightarrow> bool" where
  "asks_for_lease c \<longleftrightarrow> (c6_mode c = kDHCPv6ClientModeStatefulAddress \<or> c6_mode c = kDHCPv6ClientModeStatefulPrefix) \<and>
     length (c6_requested_prefix c) = 16"

lemma ia_added:
  assumes "area6_holds oa fs" "field_ok (code, data)" "length (wires (fs @ [(code, data)])) \<le> length (oa6_buf oa)"
    "add = DHCPv6OptionAreaAddOption oa code (word_of_nat (length data)) data"
  shows "\<exists>oa'. add = Some (True, oa') \<and> area6_holds oa' (fs @ [(code, data)])"
  using area_add_field [OF assms(1,2) refl assms(3)] assms(4) by auto

lemma solicit_sends:
  assumes "asks_for_lease c" "can_send c" "fst (DHCPv6ClientGetDUID c) = Some duid"
    "\<forall>f \<in> set (solicit_fields duid c). field_ok f" "length (wires (solicit_fields duid c)) \<le> 1496"
  shows "\<exists>b d. DHCPv6ClientSendSolicit c = Some (act6 (Transmit6 b) (c\<lparr>c6_duid := d\<rparr>)) \<and>
    sent_fields kDHCPv6MessageSOLICIT (c6_transaction_id c) (solicit_fields duid c) b"
proof -
  let ?t = kDHCPv6MessageSOLICIT
  have f: "\<forall>f \<in> set (common_fields ?t duid c). field_ok f" "length (wires (common_fields ?t duid c)) \<le> 1496"
    using assms(4,5) by (simp_all add: solicit_fields_def)
  obtain hdr oa d where m: "DHCPv6ClientMakePacket ?t (stack_buf c) 1500 c = Some (Some (hdr, oa), c\<lparr>c6_duid := d\<rparr>)"
    "area6_holds oa (common_fields ?t duid c)" "length (oa6_buf oa) = 1496" "header6_ok ?t (c6_transaction_id c) hdr"
    by (rule made_packet [OF assms(3) f])
  let ?c = "c\<lparr>c6_duid := d\<rparr>"
  have "\<exists>oa'. (if c6_mode ?c = kDHCPv6ClientModeStatefulAddress then add_ia_na_option ?c True oa
         else if c6_mode ?c = kDHCPv6ClientModeStatefulPrefix then add_ia_pd_option ?c True oa else Some (False, oa)) = Some (True, oa') \<and>
      area6_holds oa' (common_fields ?t duid c @ [(fst (solicit_ia c), snd (solicit_ia c))])"
  proof (rule ia_added [OF m(2)])
    show "field_ok (fst (solicit_ia c), snd (solicit_ia c))" using assms(4) by (simp add: solicit_fields_def)
    show "length (wires (common_fields ?t duid c @ [(fst (solicit_ia c), snd (solicit_ia c))])) \<le> length (oa6_buf oa)"
      using assms(5) m(3) by (simp add: solicit_fields_def)
    have w: "wires [(kDHCPv6OPTION_IAPREFIX, iaprefix_bytes 0 0 l p)] = net_uint16_bytes kDHCPv6OPTION_IAPREFIX @ net_uint16_bytes 25 @ iaprefix_bytes 0 0 l p"
      if "length p = 16" for l p using that by (simp add: wire6_def iaprefix_bytes_def)
    show "(if c6_mode ?c = kDHCPv6ClientModeStatefulAddress then add_ia_na_option ?c True oa
         else if c6_mode ?c = kDHCPv6ClientModeStatefulPrefix then add_ia_pd_option ?c True oa else Some (False, oa)) =
      DHCPv6OptionAreaAddOption oa (fst (solicit_ia c)) (word_of_nat (length (snd (solicit_ia c)))) (snd (solicit_ia c))"
      using assms(1) w [of "c6_requested_prefix c"]
      by (auto simp: asks_for_lease_def solicit_ia_def add_ia_na_option_def add_ia_pd_option_def Let_def add.left_commute)
  qed
  then obtain oa' where oa': "(if c6_mode ?c = kDHCPv6ClientModeStatefulAddress then add_ia_na_option ?c True oa
         else if c6_mode ?c = kDHCPv6ClientModeStatefulPrefix then add_ia_pd_option ?c True oa else Some (False, oa)) = Some (True, oa')"
    "area6_holds oa' (solicit_fields duid c)" by (auto simp: solicit_fields_def)
  have s: "can_send ?c" using assms(2) by (simp add: can_send_def)
  have nf: "\<not> \<not> True" by simp
  have "DHCPv6ClientSendSolicit c = Some (act6 (Transmit6 (hdr @ wires (solicit_fields duid c))) ?c)"
    unfolding DHCPv6ClientSendSolicit_def m(1) bind.bind_lunit prod.case option.case oa'(1) if_not_P [OF nf]
      packet_sent(1) [OF oa'(2) m(4)] transmit6_sent [OF s] ..
  then show ?thesis using packet_sent(2) [OF oa'(2) m(4)] by blast
qed

end
