(* ===== verification/DHCPv6Props.thy ===== *)
theory DHCPv6Props
  imports DHCPv6Messages
begin

text \<open>
  The properties of the DHCPv6 client, each with a concrete client for which its hypotheses hold.
\<close>

section \<open>A client\<close>

definition duid6 :: "u8 list" where
  "duid6 = [0, 3, 0, 1, 2, 0, 0, 0, 0, 1]"

definition env6_up :: env6 where
  "env6_up = \<lparr>e6_link_status = \<lparr>lk_valid = True, lk_active = True, lk_wake_on_same_network = True\<rparr>, e6_wireless = False,
     e6_cellular = False, e6_ssid = None, e6_duid = Some duid6, e6_link_duid = duid6, e6_iaid = 7, e6_privacy_required = True,
     e6_hostname = None, e6_addrs = [], e6_prefix_length = (\<lambda>_. 64), e6_junk = (\<lambda>_. 0),
     e6_requested_options = [23, 24], e6_wake_skew_secs = 30, e6_published = False\<rparr>"

text \<open>Before it is created.\<close>

definition absent_client6 :: client6 where
  "absent_client6 =
     \<lparr>c6_world = world6, c6_env = env6_up, c6_globals = DHCPv6SocketCreateGlobals world6, c6_actions = [],
      c6_private = False, c6_callback = False, c6_our_ip = no_addr, c6_our_prefix_length = 0,
      c6_delegated_prefix = no_addr, c6_delegated_prefix_length = 0, c6_requested_prefix = no_addr,
      c6_requested_prefix_length = 0, c6_mode = kDHCPv6ClientModeNone, c6_cstate = kDHCPv6ClientStateInactive,
      c6_sock = DHCPv6SocketCreate 4, c6_timer = timer_callout_init world6, c6_transaction_id = 0,
      c6_try = 0, c6_start_time = 0, c6_retransmit_time = 0,
      c6_saved = \<lparr>i6_pkt = None, i6_pkt_len = 0, i6_options = None\<rparr>, c6_lease = no_lease6, c6_private_address = False,
      c6_duid = None, c6_renew_rebind_time = 0, c6_saved_mode = kDHCPv6ClientModeNone, c6_server_id = None,
      c6_ia_na_pd = None, c6_addr_prefix = None\<rparr>"

text \<open>One that has an open socket and asks for an address.\<close>

definition asking_client6 :: client6 where
  "asking_client6 = absent_client6\<lparr>c6_private := True, c6_callback := True, c6_mode := kDHCPv6ClientModeStatefulAddress,
     c6_sock := (DHCPv6SocketCreate 4)\<lparr>sk_fd_open := True\<rparr>,
     c6_globals := (DHCPv6SocketCreateGlobals world6)\<lparr>sg_read_fd := True, sg_read_fd_refcount := 1\<rparr>, c6_try := 1\<rparr>"


section \<open>Safety\<close>




section \<open>What is sent\<close>

text \<open>C12. The Solicit of a client contains what it has to: sent on an open socket, it has the transaction id, and
  the parser finds in it exactly our identifier, the name of the host and the requested options when they
  belong there, the elapsed time, and the request for an address, or for a prefix with the one that is wanted.\<close>

theorem solicit_contents:
  assumes "asks_for_lease c" "can_send c" "fst (DHCPv6ClientGetDUID c) = Some duid"
    "\<forall>f \<in> set (solicit_fields duid c). field_ok f" "length (wires (solicit_fields duid c)) \<le> 1496"
  shows "\<exists>c' b. DHCPv6ClientSendSolicit c = Some c' \<and> c6_actions c' = c6_actions c @ [Transmit6 b] \<and>
    sent_fields kDHCPv6MessageSOLICIT (c6_transaction_id c) (solicit_fields duid c) b"
  using solicit_sends [OF assms] by (auto simp: act6_def)

lemma asking_fields:
  "solicit_fields duid6 asking_client6 =
     [(1, duid6), (6, [0, 23, 0, 24]), (8, [0, 0]), (3, [0, 0, 0, 7, 0, 0, 0, 0, 0, 0, 0, 0])]"
  by (simp add: solicit_fields_def common_fields_def fqdn_fields_def oro_fields_def oro_message_type_ok_def get_elapsed_time_def
      solicit_ia_def asking_client6_def absent_client6_def env6_up_def DHCPv6ClientGetIAID_def net_uint16_bytes_def ia_bytes_def
      net_uint32_bytes_def)

theorem solicit_contents_witness:
  "\<exists>c' b. DHCPv6ClientSendSolicit asking_client6 = Some c' \<and> c6_actions c' = [Transmit6 b] \<and>
    sent_fields kDHCPv6MessageSOLICIT 0
      [(1, duid6), (6, [0, 23, 0, 24]), (8, [0, 0]), (3, [0, 0, 0, 7, 0, 0, 0, 0, 0, 0, 0, 0])] b"
proof -
  have "asks_for_lease asking_client6" "can_send asking_client6" "fst (DHCPv6ClientGetDUID asking_client6) = Some duid6"
    by (simp_all add: asks_for_lease_def can_send_def asking_client6_def absent_client6_def no_addr_def DHCPv6ClientGetDUID_def env6_up_def)
  moreover have "\<forall>f \<in> set (solicit_fields duid6 asking_client6). field_ok f" "length (wires (solicit_fields duid6 asking_client6)) \<le> 1496"
    unfolding asking_fields by (simp_all add: field_ok_def duid6_def wire6_def)
  moreover have "c6_actions asking_client6 = []" "c6_transaction_id asking_client6 = 0" by (simp_all add: asking_client6_def absent_client6_def)
  ultimately show ?thesis using solicit_contents [of asking_client6 duid6] by (simp add: asking_fields)
qed

section \<open>Addresses in an answer\<close>

text \<open>The pointer to an option, when its field is known.\<close>

lemma field_pointer:
  assumes "opt6_ok p" "field6 p = (code, data)"
  shows "code6 p = code" "len6 p = length data" "\<exists>rest. drop 4 p = data @ rest"
proof -
  show "code6 p = code" using assms(2) by (simp add: field6_def)
  show l: "len6 p = length data" using field6_len [OF assms(1)] assms(2) by simp
  have "take (len6 p) (drop 4 p) = data" using assms(2) by (simp add: field6_def)
  then show "\<exists>rest. drop 4 p = data @ rest" by (metis append_take_drop_id)
qed

lemma find_step:
  assumes "opts6_ok l" "i < length (elems l)" "fields6 l ! i = (addr_code b, data)"
  shows "\<exists>rest. DHCPv6OptionListGetOptionDataAndLength l (addr_code b) i = Some (Some (data @ rest, int (length data), Suc i))"
proof -
  have ok: "opt6_ok (elems l ! i)" using assms(1,2) by (simp add: opts6_ok_def)
  have f: "field6 (elems l ! i) = (addr_code b, data)" using assms(2,3) by (simp add: fields6_def)
  note p = field_pointer [OF ok f]
  have "drop i (elems l) = elems l ! i # drop (Suc i) (elems l)" using assms(2) by (simp add: Cons_nth_drop_Suc)
  then show ?thesis using get_option [OF assms(1), of i "addr_code b"] assms(2) p by auto
qed

lemma iaaddr_read:
  assumes "length a = 16"
  shows "length (iaaddr_bytes a p v) = 24" "addr_valid True (iaaddr_bytes a p v @ rest) = Some v"
    "addr_preferred True (iaaddr_bytes a p v @ rest) = Some p" "DHCPv6OptionIAADDRGetAddress (iaaddr_bytes a p v @ rest) = Some a"
  using assms by (simp_all add: iaaddr_bytes_def addr_valid_def addr_preferred_def DHCPv6OptionIAADDRGetValidLifetime_def
      DHCPv6OptionIAADDRGetPreferredLifetime_def DHCPv6OptionIAADDRGetAddress_def rdn_def)

lemma find_first_address:
  assumes "opts6_ok l" "fields6 l = (kDHCPv6OPTION_IAADDR, iaaddr_bytes a p v) # fs" "length a = 16" "p \<noteq> 0" "p \<le> v"
  obtains rest where "find_addr_prefix (Suc n) True l 0 = Some (Some (iaaddr_bytes a p v @ rest))"
proof -
  have "0 < length (elems l)" using arg_cong [OF assms(2), of length] by (simp add: fields6_def)
  then obtain rest where r: "DHCPv6OptionListGetOptionDataAndLength l (addr_code True) 0 =
      Some (Some (iaaddr_bytes a p v @ rest, int (length (iaaddr_bytes a p v)), Suc 0))"
    using find_step [OF assms(1), of 0 True "iaaddr_bytes a p v"] assms(2) by (auto simp: addr_code_def)
  have v: "v \<noteq> 0" "\<not> p > v" using assms(4,5) by (auto simp: word_le_0_iff linorder_not_less)
  show ?thesis
    by (rule that [of rest]) (use r v assms(4) iaaddr_read [OF assms(3)] in
        \<open>simp add: find_addr_prefix.simps(2) addr_min_length_def DHCPv6OptionIAADDR_MIN_LENGTH_def\<close>)
qed

text \<open>An IA_NA without a status, as its bytes.\<close>

lemma ia_na_read:
  assumes "opts6_ok l" "map_of (fields6 l) kDHCPv6OPTION_IA_NA = Some (ia_bytes iaid t1 t2 @ wires subs)"
    "subs \<noteq> []" "\<forall>f \<in> set subs. field_ok f" "map_of subs kDHCPv6OPTION_STATUS_CODE = None" "t1 \<noteq> 0 \<and> t2 \<noteq> 0 \<longrightarrow> t1 \<le> t2"
  obtains ia sub where "opts6_ok sub" "fields6 sub = subs" "ia_t1 True ia = Some t1" "ia_t2 True ia = Some t2"
    "get_ia_na_pd_code True l = do { ap \<leftarrow> find_addr_prefix (Suc (length subs)) True sub 0;
       Some (if ap = None then None else Some ia, ap, kDHCPv6StatusCodeSuccess) }"
proof (rule get_option_first [OF assms(1), of kDHCPv6OPTION_IA_NA])
  fix r
  assume r: "DHCPv6OptionListGetOptionDataAndLength l kDHCPv6OPTION_IA_NA 0 = Some r"
    "map_option (\<lambda>(d, n, j). take (nat n) d) r = map_of (fields6 l) kDHCPv6OPTION_IA_NA"
    "\<And>d n j. r = Some (d, n, j) \<Longrightarrow> 0 \<le> n \<and> n \<le> int (length d) \<and> n < 65536"
  let ?b = "ia_bytes iaid t1 t2 @ wires subs"
  obtain ia n j where x: "r = Some (ia, n, j)" "take (nat n) ia = ?b" using r(2) assms(2) by auto
  have "length (take (nat n) ia) = nat n" using r(3) [OF x(1)] by auto
  then have n: "n = int (length ?b)" using x(2) r(3) [OF x(1)] by simp
  have i: "ia = ?b @ drop (nat n) ia" using x(2) append_take_drop_id [of "nat n" ia] by simp
  have b12: "length (ia_bytes iaid t1 t2) = 12" by (simp add: ia_bytes_def)
  have d12: "drop 12 ia = wires subs @ drop (nat n) ia" using arg_cong [OF i, of "drop 12"] b12 by simp
  have t: "ia_t1 True ia = Some t1" "ia_t2 True ia = Some t2"
  proof -
    have "drop 4 ia = net_uint32_bytes t1 @ net_uint32_bytes t2 @ wires subs @ drop (nat n) ia"
      "drop 8 ia = net_uint32_bytes t2 @ wires subs @ drop (nat n) ia"
      using arg_cong [OF i, of "drop 4"] arg_cong [OF i, of "drop 8"] by (simp_all add: ia_bytes_def)
    then show "ia_t1 True ia = Some t1" "ia_t2 True ia = Some t2"
      by (simp_all add: ia_t1_def ia_t2_def DHCPv6OptionIA_NAGetT1_def DHCPv6OptionIA_NAGetT2_def)
  qed
  obtain f fs where "subs = f # fs" using assms(3) by (cases subs) auto
  then have w: "0 < length (wires subs)" using assms(4) wire6_ptr(3) [of f] by simp
  have m: "ia_min_length True = 12" by (simp add: ia_min_length_def DHCPv6OptionIA_NA_MIN_LENGTH_def)
  have ln: "\<not> n \<le> 12" "n - 12 = int (length (wires subs))" using n b12 w by simp_all
  have tt: "\<not> (t1 \<noteq> 0 \<and> t2 \<noteq> 0 \<and> t1 > t2)" using assms(6) by auto
  have le: "length (wires subs) \<le> length (drop 12 ia)" "take (length (wires subs)) (drop 12 ia) = wires subs" using d12 by simp_all
  then obtain sub where sub: "DHCPv6OptionListCreate (drop 12 ia) (int (length (wires subs))) = Some (Some sub)" "opts6_ok sub" "fields6 sub = subs"
    using parsed_fields [OF le(1), of subs] assms(4) by auto
  obtain msg k where sc: "DHCPv6OptionListGetStatusCode sub = Some (True, kDHCPv6StatusCodeSuccess, msg, k)"
    using status_code [OF sub(2)] sub(3) assms(5) by auto
  have cnt: "DHCPv6OptionListGetCount sub + 1 = Suc (length subs)"
    using opts6_count [OF sub(2)] arg_cong [OF sub(3), of length] by (simp add: fields6_def)
  have c: "ia_code True = kDHCPv6OPTION_IA_NA" by (simp add: ia_code_def)
  have nf: "\<not> \<not> True" by simp
  have "get_ia_na_pd_code True l = do { ap \<leftarrow> find_addr_prefix (Suc (length subs)) True sub 0;
       Some (if ap = None then None else Some ia, ap, kDHCPv6StatusCodeSuccess) }"
    unfolding get_ia_na_pd_code_def c r(1) x(1) bind.bind_lunit option.case prod.case m if_not_P [OF ln(1)] t if_not_P [OF tt] ln(2)
      sub(1) sc if_not_P [OF nf] cnt ..
  with sub(2,3) t show ?thesis by (rule that)
qed

text \<open>C20. An address with lifetimes of 0 hides the one behind it: when the server takes back the old address and gives
  a new one in the same IA_NA, in this order, the client finds no address at all; in the other order it finds
  the new one.  The index that the search increments is already that of the next option
  (\<open>get_ia_na_pd\<close> of \<open>DHCPv6Client.c\<close>).\<close>

theorem new_address_is_missed:
  assumes "opts6_ok l" "map_of (fields6 l) kDHCPv6OPTION_IA_NA = Some (ia_bytes iaid t1 t2 @ wires subs)"
    "length old = 16" "length new = 16" "p \<noteq> 0" "p \<le> v" "t1 \<noteq> 0 \<and> t2 \<noteq> 0 \<longrightarrow> t1 \<le> t2"
  shows "(subs = [(kDHCPv6OPTION_IAADDR, iaaddr_bytes old 0 0), (kDHCPv6OPTION_IAADDR, iaaddr_bytes new p v)] \<longrightarrow>
      get_ia_na_pd True l = Some (None, None)) \<and>
    (subs = [(kDHCPv6OPTION_IAADDR, iaaddr_bytes new p v), (kDHCPv6OPTION_IAADDR, iaaddr_bytes old 0 0)] \<longrightarrow>
      (\<exists>ia ap. get_ia_na_pd True l = Some (Some ia, Some ap) \<and> DHCPv6OptionIAADDRGetAddress ap = Some new))"
proof -
  have ok: "field_ok (kDHCPv6OPTION_IAADDR, iaaddr_bytes a q w)" if "length a = 16" for a q w
    using iaaddr_read(1) [OF that] by (simp add: field_ok_def)
  have first: "get_ia_na_pd True l = Some (None, None)"
    if s: "subs = [(kDHCPv6OPTION_IAADDR, iaaddr_bytes old 0 0), (kDHCPv6OPTION_IAADDR, iaaddr_bytes new p v)]"
  proof -
    have h: "subs \<noteq> []" "\<forall>f \<in> set subs. field_ok f" "map_of subs kDHCPv6OPTION_STATUS_CODE = None" using s ok assms(3,4) by simp_all
    obtain ia sub where r: "opts6_ok sub" "fields6 sub = subs" "get_ia_na_pd_code True l = do {
        ap \<leftarrow> find_addr_prefix (Suc (length subs)) True sub 0; Some (if ap = None then None else Some ia, ap, kDHCPv6StatusCodeSuccess) }"
      by (rule ia_na_read [OF assms(1,2) h assms(7)])
    have two: "length (elems sub) = 2" using arg_cong [OF r(2), of length] s by (simp add: fields6_def)
    obtain rest where g: "DHCPv6OptionListGetOptionDataAndLength sub (addr_code True) 0 =
        Some (Some (iaaddr_bytes old 0 0 @ rest, int (length (iaaddr_bytes old 0 0)), Suc 0))"
      using find_step [OF r(1), of 0 True "iaaddr_bytes old 0 0"] two r(2) s by (auto simp: addr_code_def)
    have e: "DHCPv6OptionListGetOptionDataAndLength sub (addr_code True) 2 = Some None" by (rule get_option_end [OF r(1)]) (simp add: two)
    have "find_addr_prefix (Suc (Suc (Suc 0))) True sub 0 = Some None"
      using g e iaaddr_read [OF assms(3), of 0 0]
      by (simp add: find_addr_prefix.simps(2) addr_min_length_def DHCPv6OptionIAADDR_MIN_LENGTH_def numeral_2_eq_2)
    then show ?thesis using r(3) s by (simp add: get_ia_na_pd_def)
  qed
  have second: "\<exists>ia ap. get_ia_na_pd True l = Some (Some ia, Some ap) \<and> DHCPv6OptionIAADDRGetAddress ap = Some new"
    if s: "subs = [(kDHCPv6OPTION_IAADDR, iaaddr_bytes new p v), (kDHCPv6OPTION_IAADDR, iaaddr_bytes old 0 0)]"
  proof -
    have h: "subs \<noteq> []" "\<forall>f \<in> set subs. field_ok f" "map_of subs kDHCPv6OPTION_STATUS_CODE = None" using s ok assms(3,4) by simp_all
    obtain ia sub where r: "opts6_ok sub" "fields6 sub = subs" "get_ia_na_pd_code True l = do {
        ap \<leftarrow> find_addr_prefix (Suc (length subs)) True sub 0; Some (if ap = None then None else Some ia, ap, kDHCPv6StatusCodeSuccess) }"
      by (rule ia_na_read [OF assms(1,2) h assms(7)])
    obtain rest where "find_addr_prefix (Suc (length subs)) True sub 0 = Some (Some (iaaddr_bytes new p v @ rest))"
      by (rule find_first_address [OF r(1) r(2) [unfolded s] assms(4-6)])
    then show ?thesis using r(3) iaaddr_read(4) [OF assms(4)] by (auto simp: get_ia_na_pd_def)
  qed
  show ?thesis using first second by blast
qed

definition old_then_new :: "u8 list" where
  "old_then_new = ia_bytes 7 0 0 @ wires [(kDHCPv6OPTION_IAADDR, iaaddr_bytes (replicate 16 1) 0 0),
     (kDHCPv6OPTION_IAADDR, iaaddr_bytes (replicate 16 2) 100 200)]"

theorem new_address_is_missed_witness:
  "\<exists>l. DHCPv6OptionListCreate (wire6 (kDHCPv6OPTION_IA_NA, old_then_new)) 72 = Some (Some l) \<and> get_ia_na_pd True l = Some (None, None)"
proof -
  let ?subs = "[(kDHCPv6OPTION_IAADDR, iaaddr_bytes (replicate 16 1) 0 0), (kDHCPv6OPTION_IAADDR, iaaddr_bytes (replicate 16 2) 100 200)]"
  have len: "length old_then_new = 68" by (simp add: old_then_new_def ia_bytes_def wire6_def iaaddr_bytes_def)
  then have ok: "field_ok (kDHCPv6OPTION_IA_NA, old_then_new)" "length (wire6 (kDHCPv6OPTION_IA_NA, old_then_new)) = 72"
    by (simp_all add: field_ok_def wire6_def)
  have "\<exists>l. DHCPv6OptionListCreate (wire6 (kDHCPv6OPTION_IA_NA, old_then_new)) (int 72) = Some (Some l) \<and> opts6_ok l \<and>
      fields6 l = [(kDHCPv6OPTION_IA_NA, old_then_new)]"
    using parsed_fields [of 72 "wire6 (kDHCPv6OPTION_IA_NA, old_then_new)" "[(kDHCPv6OPTION_IA_NA, old_then_new)]"] ok by auto
  then obtain l where l: "DHCPv6OptionListCreate (wire6 (kDHCPv6OPTION_IA_NA, old_then_new)) 72 = Some (Some l)" "opts6_ok l"
    "fields6 l = [(kDHCPv6OPTION_IA_NA, old_then_new)]" by auto
  have m: "map_of (fields6 l) kDHCPv6OPTION_IA_NA = Some (ia_bytes 7 0 0 @ wires ?subs)"
    unfolding l(3) old_then_new_def by simp
  have "get_ia_na_pd True l = Some (None, None)"
    using new_address_is_missed [OF l(2) m, of "replicate 16 1" "replicate 16 2" 100 200] by simp
  then show ?thesis using l(1) by blast
qed

section \<open>An answer that is used\<close>

text \<open>A packet of the server for us: its type, our identifier, a valid one of the server, no status.\<close>

definition reply_for :: "u8 list \<Rightarrow> receive6 \<Rightarrow> bool" where
  "reply_for duid data \<longleftrightarrow> receive_ok data \<and> rd (rv_pkt data) 0 = Some kDHCPv6MessageREPLY \<and>
     map_of (fields6 (rv_options data)) kDHCPv6OPTION_CLIENTID = Some duid \<and>
     map_of (fields6 (rv_options data)) kDHCPv6OPTION_STATUS_CODE = None \<and>
     (\<exists>sid. map_of (fields6 (rv_options data)) kDHCPv6OPTION_SERVERID = Some sid \<and>
        DHCPDUIDIsValid sid (int (length sid)) = Some True)"

text \<open>Whether an identifier is valid only depends on its bytes.\<close>

lemma duid_valid_cong: "DHCPDUIDIsValid d n = Some True \<Longrightarrow> n = int (length d) \<Longrightarrow> DHCPDUIDIsValid (d @ rest) n = Some True"
  by (auto simp: DHCPDUIDIsValid_def DHCPDUIDGetType_def net_uint16_get_def rd_def nth_append split: if_splits Option.bind_splits)

lemma option_read:
  assumes "opts6_ok l" "map_of (fields6 l) code = Some data"
  obtains rest j where "DHCPv6OptionListGetOptionDataAndLength l code 0 = Some (Some (data @ rest, int (length data), j))"
proof (rule get_option_first [OF assms(1), of code])
  fix r
  assume r: "DHCPv6OptionListGetOptionDataAndLength l code 0 = Some r"
    "map_option (\<lambda>(d, n, j). take (nat n) d) r = map_of (fields6 l) code"
    "\<And>d n j. r = Some (d, n, j) \<Longrightarrow> 0 \<le> n \<and> n \<le> int (length d) \<and> n < 65536"
  obtain d n j where x: "r = Some (d, n, j)" "take (nat n) d = data" using r(2) assms(2) by auto
  have "length (take (nat n) d) = nat n" using r(3) [OF x(1)] by auto
  then have "n = int (length data)" using x(2) r(3) [OF x(1)] by simp
  moreover have "d = data @ drop (nat n) d" using x(2) append_take_drop_id [of "nat n" d] by simp
  ultimately show ?thesis using that [of "drop (nat n) d" j] r(1) x(1) by simp
qed

lemma reply_passes:
  assumes "reply_for duid data" "fst (DHCPv6ClientGetDUID c) = Some duid"
  obtains d where "from_server kDHCPv6MessageREPLY data c = Some (True, c\<lparr>c6_duid := d\<rparr>)"
proof -
  obtain d where g: "DHCPv6ClientGetDUID c = (Some duid, c\<lparr>c6_duid := d\<rparr>)"
    using assms(2) by (metis get_duid fst_conv)
  have ok: "opts6_ok (rv_options data)" using assms(1) by (auto simp: reply_for_def receive_ok_def)
  obtain rest j where c1: "DHCPv6OptionListGetOptionDataAndLength (rv_options data) kDHCPv6OPTION_CLIENTID 0 =
      Some (Some (duid @ rest, int (length duid), j))"
    by (rule option_read [OF ok]) (use assms(1) in \<open>auto simp: reply_for_def\<close>)
  obtain sid where sid: "map_of (fields6 (rv_options data)) kDHCPv6OPTION_SERVERID = Some sid" "DHCPDUIDIsValid sid (int (length sid)) = Some True"
    using assms(1) by (auto simp: reply_for_def)
  obtain rest' j' where c2: "DHCPv6OptionListGetOptionDataAndLength (rv_options data) kDHCPv6OPTION_SERVERID 0 =
      Some (Some (sid @ rest', int (length sid), j'))" by (rule option_read [OF ok sid(1)])
  have m: "S_duid_matches c (rv_options data) = Some (True, c\<lparr>c6_duid := d\<rparr>)"
    by (simp add: S_duid_matches_def g c1 rdn_def)
  have "from_server kDHCPv6MessageREPLY data c = Some (True, c\<lparr>c6_duid := d\<rparr>)"
    using assms(1) duid_valid_cong [OF sid(2) refl, of rest'] by (simp add: from_server_def m c2 reply_for_def)
  then show ?thesis by (rule that)
qed

text \<open>The IA_NA of the answer, and the lifetimes that come of it.\<close>

definition gives_address :: "receive6 \<Rightarrow> u32 \<Rightarrow> u32 \<Rightarrow> u8 list \<Rightarrow> u32 \<Rightarrow> u32 \<Rightarrow> bool" where
  "gives_address data t1 t2 a p v \<longleftrightarrow> length a = 16 \<and> p \<noteq> 0 \<and> p \<le> v \<and> (t1 \<noteq> 0 \<and> t2 \<noteq> 0 \<longrightarrow> t1 \<le> t2) \<and>
     (\<exists>iaid fs. map_of (fields6 (rv_options data)) kDHCPv6OPTION_IA_NA =
        Some (ia_bytes iaid t1 t2 @ wires ((kDHCPv6OPTION_IAADDR, iaaddr_bytes a p v) # fs)) \<and>
        (\<forall>f \<in> set fs. field_ok f) \<and> map_of fs kDHCPv6OPTION_STATUS_CODE = None)"

lemma given_read:
  assumes "opts6_ok l" "fields6 l = fields6 (rv_options data)" "gives_address data t1 t2 a p v"
  obtains ia rest where "get_ia_na_pd_code True l = Some (Some ia, Some (iaaddr_bytes a p v @ rest), kDHCPv6StatusCodeSuccess)"
    "ia_t1 True ia = Some t1" "ia_t2 True ia = Some t2"
proof -
  obtain iaid fs where m: "map_of (fields6 l) kDHCPv6OPTION_IA_NA =
      Some (ia_bytes iaid t1 t2 @ wires ((kDHCPv6OPTION_IAADDR, iaaddr_bytes a p v) # fs))"
    and fs: "\<forall>f \<in> set fs. field_ok f" "map_of fs kDHCPv6OPTION_STATUS_CODE = None"
    and a: "length a = 16" "p \<noteq> 0" "p \<le> v" "t1 \<noteq> 0 \<and> t2 \<noteq> 0 \<longrightarrow> t1 \<le> t2"
    using assms(2,3) unfolding gives_address_def by metis
  let ?subs = "(kDHCPv6OPTION_IAADDR, iaaddr_bytes a p v) # fs"
  have s: "?subs \<noteq> []" "\<forall>f \<in> set ?subs. field_ok f" "map_of ?subs kDHCPv6OPTION_STATUS_CODE = None"
    using fs iaaddr_read(1) [OF a(1)] by (simp_all add: field_ok_def)
  obtain ia sub where r: "opts6_ok sub" "fields6 sub = ?subs" "ia_t1 True ia = Some t1" "ia_t2 True ia = Some t2"
    "get_ia_na_pd_code True l = do { ap \<leftarrow> find_addr_prefix (Suc (length ?subs)) True sub 0;
       Some (if ap = None then None else Some ia, ap, kDHCPv6StatusCodeSuccess) }"
    by (rule ia_na_read [OF assms(1) m s a(4)])
  obtain rest where "find_addr_prefix (Suc (length ?subs)) True sub 0 = Some (Some (iaaddr_bytes a p v @ rest))"
    by (rule find_first_address [OF r(1,2) a(1-3)])
  then show ?thesis using that [of ia rest] r(3-5) by simp
qed

text \<open>What is kept of the answer.\<close>

lemma answer_saved:
  assumes "receive_ok data" "gives_address data t1 t2 a p v" "c6_mode c = kDHCPv6ClientModeStatefulAddress"
    "lease_times6 t1 t2 p v = (t1', t2', p', v')"
  obtains c2 rest where "DHCPv6ClientSavePacket data c = Some c2" "c6_addr_prefix c2 = Some (iaaddr_bytes a p v @ rest)"
    "l6_start (c6_lease c2) = now6 c" "l6_t1 (c6_lease c2) = t1'" "l6_valid_lifetime (c6_lease c2) = v'"
    "l6_preferred_lifetime (c6_lease c2) = p'" "c6_mode c2 = kDHCPv6ClientModeStatefulAddress" "c6_world c2 = c6_world c" "c6_env c2 = c6_env c"
    "c6_our_ip c2 = c6_our_ip c" "c6_actions c2 = c6_actions c" "c6_cstate c2 = c6_cstate c"
proof -
  obtain n fs where n: "rv_pkt_len data = int n" "4 \<le> n" "n \<le> length (rv_pkt data)"
    "take (n - 4) (drop 4 (rv_pkt data)) = wires fs" "\<forall>f \<in> set fs. field_ok f" "opts6_ok (rv_options data)" "fields6 (rv_options data) = fs"
    using assms(1) unfolding receive_ok_def by blast
  let ?pkt = "take n (rv_pkt data)"
  have pkt: "rdn (rv_pkt data) 0 n = Some ?pkt" using n(3) by (simp add: rdn_def)
  have t: "take (n - 4) (drop 4 ?pkt) = wires fs" using n(4) drop_take [of 4 n "rv_pkt data"] by (metis take_all_iff length_take min.cobounded2)
  have le: "n - 4 \<le> length (drop 4 ?pkt)" using n(3) by simp
  have w: "DHCPv6OptionListCreateWithPacket ?pkt (int n) = DHCPv6OptionListCreate (drop 4 ?pkt) (int (n - 4))"
    using n(2) by (simp add: DHCPv6OptionListCreateWithPacket_def DHCPV6_PACKET_HEADER_LENGTH_def)
  obtain l where l: "DHCPv6OptionListCreateWithPacket ?pkt (int n) = Some (Some l)" "opts6_ok l" "fields6 l = fs"
    using parsed_fields [OF le, of fs] t n(5) unfolding w by auto
  obtain srv where srv: "DHCPv6OptionListGetOptionDataAndLength l kDHCPv6OPTION_SERVERID 0 = Some srv"
    using option_found [OF l(2), of kDHCPv6OPTION_SERVERID] unfolding returns_def by blast
  have same: "fields6 l = fields6 (rv_options data)" using l(3) n(7) by simp
  obtain ia rest where ia: "get_ia_na_pd_code True l = Some (Some ia, Some (iaaddr_bytes a p v @ rest), kDHCPv6StatusCodeSuccess)"
    "ia_t1 True ia = Some t1" "ia_t2 True ia = Some t2" by (rule given_read [OF l(2) same assms(2)])
  have len: "length a = 16" using assms(2) by (simp add: gives_address_def)
  have nf: "\<not> (kDHCPv6ClientModeStatefulAddress \<noteq> kDHCPv6ClientModeStatefulAddress \<and>
      kDHCPv6ClientModeStatefulAddress \<noteq> kDHCPv6ClientModeStatefulPrefix)" by simp
  note saved = DHCPv6ClientSavePacket_def Let_def n(1) nat_int pkt bind.bind_lunit l(1) srv assms(3) if_not_P [OF nf] simp_thms get_ia_na_pd_def
    ia prod.case option.case iaaddr_read [OF len] assms(4)
  obtain c2 where c2: "DHCPv6ClientSavePacket data c = Some c2" "c2 = the (DHCPv6ClientSavePacket data c)"
    unfolding saved by simp
  show ?thesis
    by (rule that [OF c2(1), of rest])
      (unfold c2(2) saved, simp_all add: DHCPv6ClientClearPacket_def DHCPv6ClientClearLease_def assms(3))
qed

lemma cancelled_fields:
  "c6_lease (DHCPv6ClientCancelPendingEvents c) = c6_lease c" "c6_mode (DHCPv6ClientCancelPendingEvents c) = c6_mode c"
  "c6_addr_prefix (DHCPv6ClientCancelPendingEvents c) = c6_addr_prefix c" "c6_env (DHCPv6ClientCancelPendingEvents c) = c6_env c"
  "c6_our_ip (DHCPv6ClientCancelPendingEvents c) = c6_our_ip c" "c6_cstate (DHCPv6ClientCancelPendingEvents c) = c6_cstate c"
  "c6_actions (DHCPv6ClientCancelPendingEvents c) = c6_actions c"
  by (simp_all add: DHCPv6ClientCancelPendingEvents_def cancel_timer6_def disable_receive_def put_sock_def)

text \<open>A lease that starts now: the address is added, and the renewal is timed.\<close>

lemma bound_now:
  assumes "c6_addr_prefix c = Some (iaaddr_bytes a p v @ rest)" "length a = 16" "l6_start (c6_lease c) = now6 c"
    "l6_valid_lifetime (c6_lease c) = v'" "l6_preferred_lifetime (c6_lease c) = p'" "c6_mode c = kDHCPv6ClientModeStatefulAddress"
    "p' \<noteq> 0" "v' \<noteq> 0" "\<forall>(x, flags) \<in> set (e6_addrs (c6_env c)). x = a \<longrightarrow> flags AND IN6_IFF_DUPLICATED = 0"
  shows "\<exists>c'. Bound_start c = Some c' \<and> c6_cstate c' = kDHCPv6ClientStateBound \<and> c6_our_ip c' = a \<and>
    AddAddress6 a (S_get_prefix_length c a) v' p' \<in> set (c6_actions c') \<and>
    (v' \<noteq> DHCP_INFINITE_LEASE \<longrightarrow> tm_func (c6_timer c') = Some (F_RenewRebind IFEventID_start_e) \<and> tm_enabled (c6_timer c'))"
proof -
  let ?c1 = "DHCPv6ClientSetState kDHCPv6ClientStateBound c"
  define c2 where "c2 = DHCPv6ClientCancelPendingEvents (?c1\<lparr>c6_lease := (c6_lease ?c1)\<lparr>l6_valid := True\<rparr>\<rparr>)"
  have f: "l6_start (c6_lease c2) = now6 c" "l6_valid_lifetime (c6_lease c2) = v'" "l6_preferred_lifetime (c6_lease c2) = p'"
    "c6_mode c2 = kDHCPv6ClientModeStatefulAddress" "c6_addr_prefix c2 = Some (iaaddr_bytes a p v @ rest)" "c6_env c2 = c6_env c"
    "c6_our_ip c2 = c6_our_ip c" "c6_cstate c2 = kDHCPv6ClientStateBound"
    using assms by (simp_all add: c2_def cancelled_fields DHCPv6ClientSetState_def)
  have since: "(if v' = DHCP_INFINITE_LEASE then 0 else u32_of_time (now6 c - now6 c)) = 0" by (simp add: u32_of_time_def)
  have go: "\<not> (v' \<noteq> DHCP_INFINITE_LEASE \<and> (now6 c < now6 c \<or> v' \<le> 0))" using assms(8) by auto
  have p0: "0 < p'" using assms(7) by (simp add: word_greater_zero_iff)
  have left: "(if v' = DHCP_INFINITE_LEASE then (v', p') else (v' - 0, if 0 < p' then p' - 0 else 0)) = (v', p')" using p0 by simp
  define c4 where "c4 = (DHCPv6ClientPostNotification (act6 (AddAddress6 a (S_get_prefix_length c a) v' p')
      (if c6_our_ip c2 \<noteq> no_addr \<and> c6_our_ip c2 \<noteq> a then act6 (RemoveAddress6 (c6_our_ip c2)) c2 else c2)))
      \<lparr>c6_our_ip := a, c6_our_prefix_length := S_get_prefix_length c a\<rparr>"
  have c4: "c6_our_ip c4 = a" "c6_cstate c4 = kDHCPv6ClientStateBound" "c6_env c4 = c6_env c"
    "AddAddress6 a (S_get_prefix_length c a) v' p' \<in> set (c6_actions c4)"
    using f by (simp_all add: c4_def DHCPv6ClientPostNotification_def act6_def)
  have ba: "DHCPv6ClientBoundAddress v' p' c2 = DHCPv6ClientSimulateAddressChanged c4"
    using f(5,6) iaaddr_read(4) [OF assms(2)]
    by (simp add: DHCPv6ClientBoundAddress_def c4_def S_get_prefix_length_def Let_def)
  have "\<exists>c5. DHCPv6ClientHandleAddressChanged (e6_addrs (c6_env c)) c4 = Some c5 \<and> (c5 = c4 \<or> c5 = DHCPv6ClientPostNotification c4)"
  proof (cases "find (\<lambda>(addr, flags). addr = a) (e6_addrs (c6_env c))")
    case None
    then show ?thesis using c4 by (simp add: DHCPv6ClientHandleAddressChanged_def)
  next
    case (Some x)
    then have "snd x AND IN6_IFF_DUPLICATED = 0" using find_SomeD [OF Some] assms(9) by auto
    then show ?thesis using Some c4 by (cases x) (simp add: DHCPv6ClientHandleAddressChanged_def)
  qed
  then obtain c5 where c5: "DHCPv6ClientBoundAddress v' p' c2 = Some c5" "c5 = c4 \<or> c5 = DHCPv6ClientPostNotification c4"
    unfolding ba DHCPv6ClientSimulateAddressChanged_def c4(3) by blast
  have b: "Bound_start c = Some (set_renew_timer (now6 c) 0 v' c5)"
    unfolding Bound_start_def Let_def c2_def [symmetric] f since if_not_P [OF go] left prod.case simp_thms if_True c5(1) bind.bind_lunit ..
  have "c6_our_ip c5 = a" "c6_cstate c5 = kDHCPv6ClientStateBound" "AddAddress6 a (S_get_prefix_length c a) v' p' \<in> set (c6_actions c5)"
    using c5(2) c4 by (auto simp: DHCPv6ClientPostNotification_def act6_def)
  then show ?thesis unfolding b by (auto simp: set_renew_timer_def set_timer6_def Let_def)
qed

lemma lease_times_positive:
  assumes "lease_times6 t1 t2 p v = (t1', t2', p', v')" "p \<noteq> 0" "p \<le> v"
  shows "p' \<noteq> 0" "v' \<noteq> 0"
proof -
  have "v \<noteq> 0" using assms(2,3) by (auto simp: word_le_0_iff)
  then show "p' \<noteq> 0" "v' \<noteq> 0" using assms(1,2)
    by (auto simp: lease_times6_def Let_def DHCP_INFINITE_LEASE_def split: if_splits)
qed

text \<open>C11. An answer to a Request is used: when the server's Reply is for us, has no error and gives an address
  first in its IA_NA, the client adds this address to the interface with the lifetimes of the lease, is in
  the state Bound, and unless the lease has no end its timer is set for the renewal.\<close>

theorem reply_is_used:
  assumes "reply_for duid data" "fst (DHCPv6ClientGetDUID c) = Some duid" "c6_mode c = kDHCPv6ClientModeStatefulAddress"
    "gives_address data t1 t2 a p v" "lease_times6 t1 t2 p v = (t1', t2', p', v')"
    "\<forall>(x, flags) \<in> set (e6_addrs (c6_env c)). x = a \<longrightarrow> flags AND IN6_IFF_DUPLICATED = 0"
  shows "\<exists>c'. Request_data data c = Some c' \<and> c6_cstate c' = kDHCPv6ClientStateBound \<and> c6_our_ip c' = a \<and>
    AddAddress6 a (S_get_prefix_length c a) v' p' \<in> set (c6_actions c') \<and>
    (v' \<noteq> DHCP_INFINITE_LEASE \<longrightarrow> tm_func (c6_timer c') = Some (F_RenewRebind IFEventID_start_e) \<and> tm_enabled (c6_timer c'))"
proof -
  have r: "receive_ok data" using assms(1) by (simp add: reply_for_def)
  then have ok: "opts6_ok (rv_options data)" by (auto simp: receive_ok_def)
  obtain d where s: "from_server kDHCPv6MessageREPLY data c = Some (True, c\<lparr>c6_duid := d\<rparr>)" by (rule reply_passes [OF assms(1,2)])
  let ?c = "c\<lparr>c6_duid := d\<rparr>"
  have m: "c6_mode ?c = kDHCPv6ClientModeStatefulAddress" using assms(3) by simp
  obtain msg k where st: "DHCPv6OptionListGetStatusCode (rv_options data) = Some (True, kDHCPv6StatusCodeSuccess, msg, k)"
    using status_code [OF ok] assms(1) by (auto simp: reply_for_def)
  obtain ia rest where ia: "get_ia_na_pd_code True (rv_options data) = Some (Some ia, Some (iaaddr_bytes a p v @ rest), kDHCPv6StatusCodeSuccess)"
    by (rule given_read [OF ok refl assms(4)])
  obtain c2 rest2 where c2: "DHCPv6ClientSavePacket data ?c = Some c2" "c6_addr_prefix c2 = Some (iaaddr_bytes a p v @ rest2)"
    "l6_start (c6_lease c2) = now6 ?c" "l6_t1 (c6_lease c2) = t1'" "l6_valid_lifetime (c6_lease c2) = v'"
    "l6_preferred_lifetime (c6_lease c2) = p'" "c6_mode c2 = kDHCPv6ClientModeStatefulAddress" "c6_world c2 = c6_world ?c" "c6_env c2 = c6_env ?c"
    by (rule answer_saved [OF r assms(4) m assms(5)])
  have len: "length a = 16" "p \<noteq> 0" "p \<le> v" using assms(4) by (simp_all add: gives_address_def)
  have st2: "l6_start (c6_lease c2) = now6 c2" using c2(3,8) by (simp add: now6_def)
  have env: "c6_env c2 = c6_env c" "S_get_prefix_length c2 a = S_get_prefix_length c a" using c2(9) by (simp_all add: S_get_prefix_length_def)
  have "Request_data data c = Bound_start c2" using m by (simp add: Request_data_def s st ia c2(1))
  then show ?thesis
    using bound_now [OF c2(2) len(1) st2 c2(5,6,7) lease_times_positive [OF assms(5) len(2,3)]] assms(6) unfolding env by simp
qed

definition reply_fields :: "field6 list" where
  "reply_fields = [(kDHCPv6OPTION_CLIENTID, duid6), (kDHCPv6OPTION_SERVERID, duid6),
     (kDHCPv6OPTION_IA_NA, ia_bytes 7 50 80 @ wires [(kDHCPv6OPTION_IAADDR, iaaddr_bytes (replicate 16 2) 100 200)])]"

definition reply6 :: "u8 list" where
  "reply6 = [kDHCPv6MessageREPLY, 0, 0, 0] @ wires reply_fields"

theorem reply_is_used_witness:
  "\<exists>l c'. DHCPv6OptionListCreateWithPacket reply6 76 = Some (Some l) \<and>
    Request_data \<lparr>rv_pkt = reply6, rv_pkt_len = 76, rv_options = l\<rparr> asking_client6 = Some c' \<and>
    c6_cstate c' = kDHCPv6ClientStateBound \<and> c6_our_ip c' = replicate 16 2 \<and>
    AddAddress6 (replicate 16 2) 64 200 100 \<in> set (c6_actions c')"
proof -
  have d: "length duid6 = 10" by (simp add: duid6_def)
  have b: "length (ia_bytes i t u) = 12" "length (iaaddr_bytes (replicate 16 2) q w) = 24" for i t u q w
    by (simp_all add: ia_bytes_def iaaddr_bytes_def)
  have ok: "\<forall>f \<in> set reply_fields. field_ok f" "length (wires reply_fields) = 72"
    using d b by (simp_all add: reply_fields_def field_ok_def wire6_def)
  have dr: "drop 4 reply6 = wires reply_fields" by (simp add: reply6_def)
  have w: "DHCPv6OptionListCreateWithPacket reply6 76 = DHCPv6OptionListCreate (wires reply_fields) (int 72)"
    unfolding DHCPv6OptionListCreateWithPacket_def dr by (simp add: DHCPV6_PACKET_HEADER_LENGTH_def)
  obtain l where l: "DHCPv6OptionListCreateWithPacket reply6 76 = Some (Some l)" "opts6_ok l" "fields6 l = reply_fields"
    unfolding w using parsed_fields [of 72 "wires reply_fields" reply_fields] ok by auto
  let ?data = "\<lparr>rv_pkt = reply6, rv_pkt_len = 76, rv_options = l\<rparr>"
  have "take (76 - 4) (drop 4 reply6) = wires reply_fields" unfolding dr using ok(2) by simp
  then have "rv_pkt_len ?data = int 76 \<and> 4 \<le> (76 :: nat) \<and> 76 \<le> length (rv_pkt ?data) \<and> opts6_ok (rv_options ?data) \<and>
      fields6 (rv_options ?data) = reply_fields \<and> take (76 - 4) (drop 4 (rv_pkt ?data)) = wires reply_fields \<and> (\<forall>f \<in> set reply_fields. field_ok f)"
    using l ok by (simp add: reply6_def)
  then have r: "receive_ok ?data" unfolding receive_ok_def by blast
  have v: "DHCPDUIDIsValid duid6 (int (length duid6)) = Some True"
    by (simp add: DHCPDUIDIsValid_def duid6_def DHCPDUIDGetType_def net_uint16_get_def rd_def)
  have f: "reply_for duid6 ?data" using r v l(3) by (simp add: reply_for_def reply_fields_def) (simp add: reply6_def rd_def)
  have g: "gives_address ?data 50 80 (replicate 16 2) 100 200" unfolding gives_address_def
    by (intro conjI exI [of _ 7] exI [of _ "[]"]) (simp_all add: l(3) reply_fields_def)
  have t: "lease_times6 50 80 100 200 = (50, 80, 100, 200)" by (simp add: lease_times6_def DHCP_INFINITE_LEASE_def)
  have c: "fst (DHCPv6ClientGetDUID asking_client6) = Some duid6" "c6_mode asking_client6 = kDHCPv6ClientModeStatefulAddress"
    "e6_addrs (c6_env asking_client6) = []" "S_get_prefix_length asking_client6 (replicate 16 2) = 64"
    by (simp_all add: asking_client6_def absent_client6_def DHCPv6ClientGetDUID_def env6_up_def S_get_prefix_length_def)
  from reply_is_used [OF f c(1,2) g t] c(3,4) l(1) show ?thesis by auto
qed

end
