(* ===== verification/ClientDataFacts.thy ===== *)
theory ClientDataFacts
  imports ArpFacts ClientLease BootpdFacts
begin

text \<open>
  What the DHCP client reads and writes stays inside its buffers: packets as bytes, the options it looks
  for, the requests it builds.
\<close>

section \<open>Packets as bytes\<close>

definition pkt_ok :: "nat \<Rightarrow> dhcp \<Rightarrow> bool" where
  "pkt_ok n p \<longleftrightarrow> dhcp_layout p \<and> length (dp_options p) = n"

lemma length_packet_bytes: "pkt_ok n p \<Longrightarrow> length (packet_bytes p) = 236 + n"
  by (simp add: pkt_ok_def dhcp_layout_def packet_bytes_def le16_bytes_def)

lemma packet_of_bytes_ok:
  "length b = 236 + n \<Longrightarrow> returns (pkt_ok n) (packet_of_bytes b)"
  by (simp add: packet_of_bytes_def sizeof_dhcp_def pkt_ok_def dhcp_layout_def)

lemma pkt_ok_update [simp]:
  "pkt_ok n (p\<lparr>dp_xid := x, dp_secs := y\<rparr>) = pkt_ok n p" "pkt_ok n (p\<lparr>dp_xid := x\<rparr>) = pkt_ok n p"
  "pkt_ok n (p\<lparr>dp_ciaddr := a\<rparr>) = pkt_ok n p" "pkt_ok n (p\<lparr>dp_xid := x, dp_ciaddr := a\<rparr>) = pkt_ok n p"
  by (simp_all add: pkt_ok_def dhcp_layout_def)

lemma bytes_of_packet_ok:
  "pkt_ok n p \<Longrightarrow> 0 \<le> len \<Longrightarrow> len \<le> 236 + int n \<Longrightarrow> returns (\<lambda>b. int (length b) = len) (bytes_of_packet p len)"
  by (auto simp: bytes_of_packet_def rdn_def length_packet_bytes)

lemma overwrite_packet_ok:
  assumes "pkt_ok n p" "length b \<le> 236 + n"
  shows "returns (pkt_ok n) (overwrite_packet p b)"
proof -
  obtain c where c: "wrn (packet_bytes p) 0 b = Some c"
    using assms by (simp add: wrn_def length_packet_bytes)
  then have "length c = 236 + n" using length_wrn [OF c] length_packet_bytes [OF assms(1)] by simp
  with c show ?thesis by (simp add: overwrite_packet_def packet_of_bytes_ok)
qed

text \<open>What was written over a packet is read back.\<close>

lemma le16_join: "ucast (ucast (v :: u16) :: u8) OR push_bit 8 (ucast (ucast (drop_bit 8 v) :: u8)) = v"
  by (rule bit_word_eqI) (auto simp: bit_simps)

lemma le16_at_bytes [simp]: "le16_at (le16_bytes v) 0 = v"
  by (simp add: le16_at_def le16_bytes_def le16_join)

lemma packet_of_bytes_inverse:
  assumes "pkt_ok n p"
  shows "packet_of_bytes (packet_bytes p) = Some p"
proof -
  have l: "length (dp_chaddr p) = 16" "length (dp_sname p) = 64" "length (dp_file p) = 128"
    using assms by (simp_all add: pkt_ok_def dhcp_layout_def)
  then show ?thesis
    using length_packet_bytes [OF assms]
    by (simp add: packet_of_bytes_def sizeof_dhcp_def packet_bytes_def be32_at_def le16_at_def net_uint32_bytes_def
        le16_bytes_def be32_join le16_join)
qed

section \<open>Options that are looked for\<close>

lemma find_u32_ok:
  assumes "dhcpol_ok l" "tag \<noteq> dhcptag_end_e" "tag \<noteq> dhcptag_pad_e"
  obtains r where "find_u32 l tag = Some r"
proof -
  obtain f where f: "dhcpol_find_with_length l tag 4 = Some f"
    using find_defined [OF assms(1), of tag] by (auto simp: dhcpol_find_with_length_def)
  show ?thesis
  proof (cases f)
    case None
    with f show ?thesis by (intro that [of None]) (simp add: find_u32_def)
  next
    case (Some v)
    with find_with_length_spec [OF assms, of 4 v] f have "4 \<le> length v" by simp
    then obtain x where "net_uint32_get v = Some x" using net_uint32_get_defined by blast
    with f Some show ?thesis by (intro that [of "Some x"]) (simp add: find_u32_def)
  qed
qed

lemma find_u32_returns:
  "dhcpol_ok l \<Longrightarrow> tag \<noteq> dhcptag_end_e \<Longrightarrow> tag \<noteq> dhcptag_pad_e \<Longrightarrow> returns (\<lambda>_. True) (find_u32 l tag)"
  by (metis find_u32_ok returns_Some)

lemma server_identifier_ok: "dhcpol_ok l \<Longrightarrow> returns (\<lambda>_. True) (get_server_identifier l)"
  by (simp add: get_server_identifier_def find_u32_returns)

lemma lease_from_options_ok: "dhcpol_ok l \<Longrightarrow> returns (\<lambda>_. True) (dhcp_get_lease_from_options l)"
  unfolding dhcp_get_lease_from_options_def
  by (rule returns_bind [where Q = "\<lambda>_. True"]) (auto intro!: find_u32_returns returns_bind [where Q = "\<lambda>_. True"])

lemma ipv6_wait_ok:
  assumes "dhcpol_ok l"
  shows "returns (\<lambda>_. True) (options_get_ipv6_wait_time l)"
proof (rule find_cases [OF assms, of dhcptag_ipv6_only_preferred_e])
  fix t d rest j
  assume a: "dhcpol_find l dhcptag_ipv6_only_preferred_e 0 = Some (Some (d @ rest, int (length d), j))"
  show ?thesis
  proof (cases "length d = 4")
    case True
    then obtain v where "net_uint32_get (d @ rest) = Some v" using net_uint32_get_defined [of "d @ rest"] by auto
    with a True show ?thesis by (simp add: options_get_ipv6_wait_time_def)
  qed (use a in \<open>simp add: options_get_ipv6_wait_time_def\<close>)
qed (simp_all add: options_get_ipv6_wait_time_def)

lemma classless_routes_ok:
  assumes "dhcpol_ok l"
  shows "returns (\<lambda>_. True) (dhcp_copy_classless_routes l)"
proof -
  obtain b where b: "dhcpol_option_copy l dhcptag_classless_static_route_e = Some b"
    using option_copy_spec [OF assms, of dhcptag_classless_static_route_e] by (auto simp: Let_def)
  show ?thesis
  proof (cases b)
    case (Some bs)
    have parse: "\<exists>a b. RouteListParse bs (int (length bs)) room = Some (a, b)" for room
      unfolding RouteListParse_def using parse_total [of "int (length bs)" bs room "[]" 0] by auto
    obtain ok n where first: "RouteListParse bs (int (length bs)) None = Some (ok, n)" using parse by blast
    have "returns (\<lambda>_. True) (RouteListCreate (Some bs) (int (length bs)))"
      using first parse [of "Some ok"] by (auto simp: RouteListCreate_def split: bind_splits)
    with b Some show ?thesis by (simp add: dhcp_copy_classless_routes_def)
  qed (use b in \<open>simp add: dhcp_copy_classless_routes_def\<close>)
qed

lemma router_from_options_ok: "dhcpol_ok l \<Longrightarrow> returns (\<lambda>_. True) (dhcp_get_router_from_options l ip)"
  unfolding dhcp_get_router_from_options_def
  by (rule returns_bind [OF find_u32_returns]) (auto intro!: returns_bind [OF classless_routes_ok] split: option.split)

lemma router_address_ok: "dhcpol_ok l \<Longrightarrow> returns (\<lambda>_. True) (dhcp_get_router_address l ip)"
  unfolding dhcp_get_router_address_def Let_def
  by (rule returns_bind [OF router_from_options_ok])
    (auto intro!: returns_bind [where Q = "\<lambda>_. True"] find_u32_returns)

section \<open>Received packets\<close>

lemma parsed_options_ok:
  assumes "pkt_ok n p" "0 \<le> len" "len \<le> 236 + int n"
  shows "returns dhcpol_ok (parsed_options p len)"
proof -
  have "dhcp_layout p" "nat len \<le> 236 + length (dp_options p)" using assms by (auto simp: pkt_ok_def)
  from parse_packet_spec [OF this(1) assms(2) this(2)] show ?thesis
    by (auto simp: parsed_options_def split: option.splits)
qed

lemma no_options: "is_dhcp_packet dhcpol_init = Some None"
  by (simp add: is_dhcp_packet_def dhcpol_find_def dhcpol_init_def dhcpol_count_def ptrlist_count_def ptrlist_init_def)

text \<open>A received packet leaves some bytes of its buffer free, so that empty options can be read.\<close>

lemma received_options_ok:
  assumes "pkt_ok n p" "0 \<le> len" "len + 4 \<le> 236 + int n" "4 \<le> n"
  shows "returns (\<lambda>l. dhcpol_ok l \<and> (\<exists>t. is_dhcp_packet l = Some t)) (parsed_options p len)"
proof -
  have l: "dhcp_layout p" "len + 4 \<le> 236 + int (length (dp_options p))" "4 \<le> length (dp_options p)"
    using assms by (auto simp: pkt_ok_def)
  obtain l t where "packet_type p len = Some (l, t)" "options_ok l"
    using packet_type_ok [OF l(1) assms(2) l(2,3)] .
  then show ?thesis
    by (auto simp: packet_type_def parsed_options_def options_ok_def no_options split: bind_splits sum.splits)
qed

definition received_ok :: "bootp_receive_data \<Rightarrow> bool" where
  "received_ok r \<longleftrightarrow> pkt_ok 1264 (rd_data r) \<and> 0 \<le> rd_size r \<and> rd_size r \<le> 1500 \<and> dhcpol_ok (rd_options r) \<and>
     (\<exists>t. is_dhcp_packet (rd_options r) = Some t)"

lemma packet_match_ok: "pkt_ok n p \<Longrightarrow> length hwaddr \<le> 16 \<Longrightarrow> returns (\<lambda>_. True) (dhcp_packet_match p xid hwtype hwaddr)"
  by (auto simp: dhcp_packet_match_def pkt_ok_def dhcp_layout_def rdn_def Let_def)

lemma verify_packet_ok:
  assumes "received_ok r" "length hwaddr \<le> 16"
  shows "returns (\<lambda>_. True) (verify_packet r xid hwtype hwaddr)"
  unfolding verify_packet_def
proof (rule returns_bind [OF packet_match_ok [OF _ assms(2)]])
  show "pkt_ok 1264 (rd_data r)" using assms(1) by (simp add: received_ok_def)
next
  fix m
  obtain t where "is_dhcp_packet (rd_options r) = Some t" using assms(1) by (auto simp: received_ok_def)
  moreover have "returns (\<lambda>_. True) (get_server_identifier (rd_options r))"
    using assms(1) by (simp add: received_ok_def server_identifier_ok)
  ultimately show "returns (\<lambda>_. True) (if \<not> m then Some None else do {
       msgtype \<leftarrow> is_dhcp_packet (rd_options r);
       case msgtype of
         None \<Rightarrow> Some None
       | Some m \<Rightarrow>
           if m = dhcp_msgtype_discover_e \<or> m = dhcp_msgtype_request_e \<or> m = dhcp_msgtype_inform_e then Some None
           else do {
             server \<leftarrow> get_server_identifier (rd_options r);
             Some (Some (m, case server of None \<Rightarrow> 0 | Some ip \<Rightarrow> ip)) } })"
    by (auto split: option.split intro: returns_bind)
qed

section \<open>Requests that are built\<close>

text \<open>An option area of \<open>n\<close> bytes that is not yet ended.\<close>

definition area_ok :: "int \<Rightarrow> dhcpoa \<Rightarrow> bool" where
  "area_ok n oa \<longleftrightarrow> (\<exists>fs. oa_holds oa fs) \<and> oa_reserve oa = 1 \<and> oa_size oa = n \<and> int (length (oa_buffer oa)) = n"

lemma put_length: "put b i x = Some c \<Longrightarrow> length c = length b"
  by (auto simp: put_def wr_def split: if_splits)

lemma bcopy_to_length: "bcopy_to src b i len = Some c \<Longrightarrow> length c = length b"
  by (auto simp: bcopy_to_def split: if_splits bind_splits dest: length_wrn)

lemma dhcpoa_add_frame:
  "dhcpoa_add oa tag len opt = Some (r, oa') \<Longrightarrow>
   length (oa_buffer oa') = length (oa_buffer oa) \<and> oa_reserve oa' = oa_reserve oa \<and> oa_size oa' = oa_size oa"
  by (auto simp: dhcpoa_add_def fail_def Let_def split: if_splits bind_splits dest!: put_length bcopy_to_length)

lemma add_option_ok:
  assumes "area_ok n oa" "0 < tag" "tag < dhcptag_end_e"
  shows "returns (\<lambda>(ok, oa'). area_ok n oa') (add_option oa tag d)"
proof -
  obtain fs where fs: "oa_holds oa fs" using assms(1) by (auto simp: area_ok_def)
  obtain r oa' where a: "dhcpoa_add oa tag (int (length d)) d = Some (r, oa')" "\<exists>fs'. oa_holds oa' fs'"
    by (rule dhcpoa_add_total [OF fs assms(2,3), of "int (length d)" d]) auto
  with dhcpoa_add_frame [OF a(1)] assms(1) show ?thesis by (simp add: add_option_def area_ok_def)
qed

lemma end_tag_ok:
  assumes "area_ok n oa"
  shows "returns (\<lambda>(ok, oa'). ok \<and> int (length (oa_buffer oa')) = n \<and> 0 \<le> dhcpoa_used oa' \<and> dhcpoa_used oa' \<le> n) (add_option oa dhcptag_end_e [])"
proof -
  obtain fs where fs: "oa_holds oa fs" using assms(1) by (auto simp: area_ok_def)
  have room: "oa_offset oa + 1 \<le> oa_size oa" using fs assms by (auto simp: oa_holds_def oa_ok_def area_ok_def)
  have l: "0 \<le> DHCP_OPTION_SIZE_MAX" by (simp add: DHCP_OPTION_SIZE_MAX_def)
  obtain oa' where "dhcpoa_add oa dhcptag_end_e 0 [] = Some (dhcpoa_success_e, oa')" "oa_ok oa'" "oa_size oa' = oa_size oa"
      "length (oa_buffer oa') = length (oa_buffer oa)" "oa_end_tag oa'"
    by (rule dhcpoa_add_end [OF fs room l, of "[]"]) simp
  then show ?thesis using assms by (simp add: add_option_def area_ok_def oa_ok_def dhcpoa_used_def)
qed

definition globals_ok :: "client_globals \<Rightarrow> bool" where
  "globals_ok g \<longleftrightarrow> (dhcptag_ipv6_only_preferred_e \<in> set (dhcp_params g) \<longrightarrow>
     (\<exists>p \<in> set (dhcp_params g). p \<noteq> dhcptag_ipv6_only_preferred_e))"

lemma parameter_list_ok:
  assumes "globals_ok g" "area_ok n oa"
  shows "returns (\<lambda>(ok, oa'). area_ok n oa') (add_parameter_request_list g ipv6 oa)"
proof -
  have "filter (\<lambda>p. p \<noteq> dhcptag_ipv6_only_preferred_e) (dhcp_params g) \<noteq> []"
    if "dhcp_parameter_is_ok g dhcptag_ipv6_only_preferred_e"
    using that assms(1) by (auto simp: globals_ok_def dhcp_parameter_is_ok_def filter_empty_conv)
  then show ?thesis
    unfolding add_parameter_request_list_def Let_def
    using add_option_ok [OF assms(2), of dhcptag_parameter_request_list_e] by simp
qed

lemma add_all_ok:
  assumes "area_ok n oa" "\<forall>f \<in> set fs. 0 < fst f \<and> fst f < dhcptag_end_e"
  shows "returns (\<lambda>(ok, oa'). area_ok n oa') (ClientOptions.add_all oa fs)"
  using assms
proof (induction fs arbitrary: oa)
  case (Cons f fs)
  obtain tag d where f: "f = (tag, d)" by (cases f)
  obtain ok oa' where "add_option oa tag d = Some (ok, oa')" "area_ok n oa'"
    using add_option_ok [OF Cons.prems(1), of tag d] Cons.prems(2) f by (auto simp: returns_def)
  with Cons.IH [of oa'] Cons.prems(2) f show ?case by simp
qed simp

lemma host_name_ok: "area_ok n oa \<Longrightarrow> returns (area_ok n) (add_host_name name oa)"
  by (auto simp: add_host_name_def split: option.split intro!: returns_mono [OF add_option_ok [of n oa dhcptag_host_name_e]])

definition request_area_size :: int where
  "request_area_size = DHCP_PACKET_MIN - sizeof_dhcp - int RFC_MAGIC_SIZE"

lemma with_options_ok:
  "pkt_ok m p \<Longrightarrow> int (length (oa_buffer oa)) = request_area_size \<Longrightarrow> pkt_ok 312 (with_options p oa)"
  by (auto simp: pkt_ok_def dhcp_layout_def with_options_def request_area_size_def DHCP_PACKET_MIN_def sizeof_dhcp_def
      RFC_MAGIC_SIZE_def rfc_magic_def)

lemma finish_request_ok:
  assumes "pkt_ok m p" "area_ok request_area_size oa" "\<forall>f \<in> set fs. 0 < fst f \<and> fst f < dhcptag_end_e"
  shows "returns (\<lambda>(p', n). pkt_ok 312 p' \<and> (\<forall>k. n = Some k \<longrightarrow> 300 \<le> k \<and> k \<le> 548)) (ClientOptions.finish_request fs name p oa)"
proof -
  obtain ok oa1 where oa1: "ClientOptions.add_all oa fs = Some (ok, oa1)" "area_ok request_area_size oa1"
    using add_all_ok [OF assms(2,3)] by (auto simp: returns_def)
  obtain oa2 where oa2: "add_host_name name oa1 = Some oa2" "area_ok request_area_size oa2"
    using host_name_ok [OF oa1(2), of name] by (auto simp: returns_def)
  obtain oa3 where oa3: "add_option oa2 dhcptag_end_e [] = Some (True, oa3)" "int (length (oa_buffer oa3)) = request_area_size"
      "0 \<le> dhcpoa_used oa3" "dhcpoa_used oa3 \<le> request_area_size"
    using end_tag_ok [OF oa2(2)] by (auto simp: returns_def)
  have "pkt_ok 312 (with_options p oa1)" "pkt_ok 312 (with_options p oa3)"
    using with_options_ok [OF assms(1)] oa1(2) oa3(2) by (auto simp: area_ok_def)
  then show ?thesis using oa1 oa2 oa3
    by (auto simp: ClientOptions.finish_request_def request_size_of_def request_area_size_def DHCP_PACKET_MIN_def sizeof_dhcp_def
        RFC_MAGIC_SIZE_def sizeof_bootp_def Let_def)
qed

lemma request_header_ok:
  assumes "length hwaddr \<le> 16"
  shows "returns (pkt_ok 312) (request_header DHCP_PACKET_MIN hwtype hwaddr broadcast)"
proof -
  have c: "pkt_ok 312 ((cleared_request DHCP_PACKET_MIN)\<lparr>dp_htype := hwtype, dp_op := BOOTREQUEST, dp_flags := f\<rparr>)" for f
    by (simp add: cleared_request_def pkt_ok_def dhcp_layout_def DHCP_PACKET_MIN_def sizeof_dhcp_def)
  obtain c where "wrn (replicate 16 0) 0 hwaddr = Some c" "length c = 16"
    using assms by (auto simp: wrn_def)
  then show ?thesis
    using c by (auto simp: request_header_def Let_def pkt_ok_def dhcp_layout_def cleared_request_def)
qed

lemma make_dhcp_request_ok:
  assumes "globals_ok g" "length hwaddr \<le> 16"
  shows "returns (\<lambda>(ok, p, oa). pkt_ok 312 p \<and> area_ok request_area_size oa)
    (make_dhcp_request g DHCP_PACKET_MIN msg hwaddr hwtype cid must_broadcast ipv6)"
proof -
  obtain p where p: "request_header DHCP_PACKET_MIN hwtype hwaddr (must_broadcast \<or> G_must_broadcast g) = Some p" "pkt_ok 312 p"
    using request_header_ok [OF assms(2)] by (auto simp: returns_def)
  obtain w where w: "wrn (dp_options p) 0 rfc_magic = Some w" "length w = 312"
    using p(2) by (auto simp: wrn_def pkt_ok_def rfc_magic_def)
  have sz: "DHCP_PACKET_MIN - sizeof_dhcp - int RFC_MAGIC_SIZE = request_area_size" "request_area_size = 308"
    by (simp_all add: request_area_size_def DHCP_PACKET_MIN_def sizeof_dhcp_def RFC_MAGIC_SIZE_def)
  obtain oa where oa: "dhcpoa_init (drop RFC_MAGIC_SIZE w) request_area_size = Some oa" "area_ok request_area_size oa"
    by (rule oa_init_holds [of request_area_size "drop RFC_MAGIC_SIZE w" 1])
      (use w(2) in \<open>auto simp: dhcpoa_init_def area_ok_def sz(2) RFC_MAGIC_SIZE_def\<close>)
  obtain r1 oa1 where oa1: "dhcpoa_add_dhcpmsg oa msg = Some (r1, oa1)" "area_ok request_area_size oa1"
    using add_option_ok [OF oa(2), of dhcptag_dhcp_message_type_e "[msg]"]
    by (auto simp: returns_def dhcpoa_add_dhcpmsg_def add_option_def)
  let ?mid = "if msg \<noteq> dhcp_msgtype_decline_e \<and> msg \<noteq> dhcp_msgtype_release_e then do {
            (ok, oa) \<leftarrow> add_parameter_request_list g ipv6 oa1;
            if \<not> ok then Some (False, oa)
            else add_option oa dhcptag_max_dhcp_message_size_e (net_uint16_bytes 1500) }
          else Some (True, oa1)"
  have "returns (\<lambda>(ok, oa'). area_ok request_area_size oa') ?mid"
    using oa1(2) by (auto intro!: returns_bind [OF parameter_list_ok [OF assms(1) oa1(2)]] add_option_ok)
  then obtain ok2 oa2 where oa2: "?mid = Some (ok2, oa2)" "area_ok request_area_size oa2"
    by (auto simp: returns_def)
  obtain ok3 oa3 where oa3: "add_option oa2 dhcptag_client_identifier_e (client_identifier hwtype hwaddr cid) = Some (ok3, oa3)"
      "area_ok request_area_size oa3"
    using add_option_ok [OF oa2(2), of dhcptag_client_identifier_e "client_identifier hwtype hwaddr cid"] by (auto simp: returns_def)
  have "pkt_ok 312 (with_options p x)" if "area_ok request_area_size x" for x
    using with_options_ok [OF p(2)] that by (simp add: area_ok_def)
  then show ?thesis
    unfolding make_dhcp_request_def p(1) w(1) sz(1) oa(1) oa1(1) bind.bind_lunit prod.case oa2(1) using oa1(2) oa2(2) oa3 by simp
qed

end
