(* ===== verification/ClientActions.thy ===== *)
theory ClientActions
  imports ClientService
begin

text \<open>
  The parts of the DHCP client (\<open>IPConfiguration.bproj/dhcp.c\<close>) that its states share: its lease and the
  leases it remembers, building and sending requests, and the ends of a state that do not lead into
  another one at once.

  A null pointer that is followed, an access outside a buffer and a failed assertion have no result.
\<close>

text \<open>Statements one after another.\<close>

fun run :: "('s \<Rightarrow> 's) list \<Rightarrow> 's \<Rightarrow> 's" where
  "run [] s = s"
| "run (f # fs) s = run fs (f s)"

abbreviation "dh s \<equiv> s_dhcp s"
abbreviation "lease s \<equiv> dh_lease (s_dhcp s)"
abbreviation "saved s \<equiv> dh_saved (s_dhcp s)"

abbreviation "upd_lease f s \<equiv> upd (dh_lease_update f) s"
abbreviation "upd_saved f s \<equiv> upd (dh_saved_update f) s"

section \<open>States, timers, events (dhcp.c)\<close>

definition dhcp_set_state :: "dhcp_cstate \<Rightarrow> service \<Rightarrow> service" where
  "dhcp_set_state state s = upd (dh_state_update (\<lambda>_. state)) s"

definition S_time_in_future :: "absolute_time \<Rightarrow> absolute_time \<Rightarrow> int \<Rightarrow> bool" where
  "S_time_in_future current_time the_time time_interval \<longleftrightarrow>
     current_time < the_time \<and> the_time - current_time \<ge> of_int time_interval"

definition S_min_wake_ok :: "service \<Rightarrow> absolute_time \<Rightarrow> bool" where
  "S_min_wake_ok s the_time = S_time_in_future (now s) the_time (G_min_wake_interval_secs (s_globals s))"

definition S_short_wake_ok :: "service \<Rightarrow> absolute_time \<Rightarrow> bool" where
  "S_short_wake_ok s the_time = S_time_in_future (now s) the_time (G_min_short_wake_interval_secs (s_globals s))"

definition set_relative :: "int \<Rightarrow> int \<Rightarrow> dhcp_timer \<Rightarrow> service \<Rightarrow> service" where
  "set_relative tv_sec tv_usec func s =
     upd (\<lambda>d. d\<lparr>dh_timer := timer_set_relative (s_world s) (dh_timer d) tv_sec tv_usec func\<rparr>) s"

definition bootp_client_enable_receive :: "dhcp_receiver \<Rightarrow> service \<Rightarrow> service" where
  "bootp_client_enable_receive func s = upd (dh_receive_update (\<lambda>_. Some func)) s"

definition bootp_client_disable_receive :: "service \<Rightarrow> service" where
  "bootp_client_disable_receive s = upd (dh_receive_update (\<lambda>_. None)) s"

definition dhcp_cancel_pending_events :: "service \<Rightarrow> service" where
  "dhcp_cancel_pending_events s =
     run [\<lambda>s. upd (\<lambda>d. d\<lparr>dh_timer := timer_cancel (s_world s) (dh_timer d)\<rparr>) s,
          bootp_client_disable_receive,
          arp_do arp_client_cancel] s"

definition dhcp_publish_success :: "service \<Rightarrow> service" where
  "dhcp_publish_success s =
     ServicePublishSuccessIPv4 (sp_pkt (saved s)) (sp_pkt_size (saved s)) (li_start (lease s)) (li_expiration (lease s)) s"

definition free_options :: "service \<Rightarrow> service" where
  "free_options s = upd_saved (sp_options_update dhcpol_free) s"

definition dhcp_failed :: "ipconfig_status \<Rightarrow> service \<Rightarrow> service" where
  "dhcp_failed status s =
     run [dhcp_cancel_pending_events,
          service_disable_autoaddr,
          free_options,
          service_remove_address,
          service_publish_failure status,
          dhcp_set_state dhcp_cstate_inactive_e,
          upd (dh_allow_wake_with_short_lease_update (\<lambda>_. False)),
          ServiceSetBusy False] s"

definition dhcp_inactive :: "service \<Rightarrow> service" where
  "dhcp_inactive s =
     run [dhcp_cancel_pending_events,
          ServiceSetStatus ipconfig_status_media_inactive_e,
          service_remove_address,
          service_disable_autoaddr,
          service_publish_failure ipconfig_status_media_inactive_e,
          dhcp_set_state dhcp_cstate_inactive_e,
          upd (dh_allow_wake_with_short_lease_update (\<lambda>_. False)),
          ServiceSetBusy False,
          upd (dh_trying_since_secs_update (\<lambda>_. 0))] s"

section \<open>The lease (dhcp.c)\<close>

definition dhcp_set_lease_params :: "absolute_time \<Rightarrow> u32 \<times> u32 \<times> u32 \<Rightarrow> service \<Rightarrow> service" where
  "dhcp_set_lease_params lease_start ts s =
     (let (length, t1, t2) = ts in
      if length = DHCP_INFINITE_LEASE then
        upd_lease (\<lambda>l. l\<lparr>li_start := lease_start, li_length := length, li_t1 := 0, li_t2 := 0, li_expiration := 0\<rparr>) s
      else
        upd_lease (\<lambda>l. l\<lparr>li_start := lease_start, li_length := length,
            li_expiration := lease_start + of_int (uint length),
            li_t1 := lease_start + of_int (uint t1), li_t2 := lease_start + of_int (uint t2)\<rparr>) s)"

definition dhcp_adjust_lease_info :: "absolute_time \<Rightarrow> service \<Rightarrow> service" where
  "dhcp_adjust_lease_info delta s =
     upd_lease (\<lambda>l. l\<lparr>li_expiration := li_expiration l + delta, li_start := li_start l + delta,
                       li_t1 := li_t1 l + delta, li_t2 := li_t2 l + delta\<rparr>) s"

text \<open>The client identifier with its type in front.\<close>

definition get_client_id :: "service \<Rightarrow> u8 \<times> u8 list" where
  "get_client_id s =
     (case dh_client_id (dh s) of
        Some cid \<Rightarrow> (0, cid)
      | None \<Rightarrow> (ci_arptype (s_if s), ci_link_address (s_if s)))"

definition dhcp_lease_set_ssid :: "string option \<Rightarrow> service \<Rightarrow> service" where
  "dhcp_lease_set_ssid ssid s = upd_lease (li_ssid_update (\<lambda>_. ssid)) s"

definition dhcp_lease_set_networkID :: "string option \<Rightarrow> service \<Rightarrow> service" where
  "dhcp_lease_set_networkID networkID s = upd_lease (li_networkID_update (\<lambda>_. networkID)) s"

definition dhcp_invalidate_lease :: "service \<Rightarrow> service" where
  "dhcp_invalidate_lease s =
     run [upd_lease (li_valid_update (\<lambda>_. False)), dhcp_lease_set_ssid None, dhcp_lease_set_networkID None] s"

text \<open>The router that identifies the network, and its hardware address, as far as they are valid.\<close>

definition known_router :: "service \<Rightarrow> in_addr \<times> (u8 list \<times> nat) option" where
  "known_router s =
     (if service_router_is_iaddr_valid s then
        (ri_iaddr (router s),
         if service_router_is_hwaddr_valid s then Some (ri_hwaddr (router s), length (ci_link_address (s_if s))) else None)
      else (0, None))"

definition write_leases :: "service \<Rightarrow> service" where
  "write_leases s =
     (let (ok, s1) = try_call s; (cid_type, cid) = get_client_id s1;
          (leases, file) = DHCPLeaseListWrite (ip_to_string (s_globals s1)) (now s1) ok cid_type cid
                             (dh_lease_list (dh s1)) (s_lease_file s1)
      in upd (dh_lease_list_update (\<lambda>_. leases)) (s1\<lparr>s_lease_file := file\<rparr>))"

definition dhcp_lease_save :: "bool \<Rightarrow> service \<Rightarrow> service option" where
  "dhcp_lease_save write_lease s = do {
     let (router_ip, router_hwaddr) = known_router s;
     l \<leftarrow> DHCPLeaseCreate (sp_our_ip (saved s)) router_ip router_hwaddr (li_start (lease s)) (li_length (lease s))
           (sp_pkt (saved s)) (sp_pkt_size (saved s)) (li_ssid (lease s)) (li_networkID (lease s));
     let s1 = upd (dh_lease_list_update (\<lambda>ls. DHCPLeaseListUpdateLease ls l)) s;
     Some (if write_lease then write_leases s1 else s1) }"

definition dhcp_lease_clear :: "bool \<Rightarrow> service \<Rightarrow> service" where
  "dhcp_lease_clear nak s =
     (let (router_ip, hw) = known_router s;
          router_hwaddr = map_option fst hw;
          n = (case hw of None \<Rightarrow> 0 | Some (_, n) \<Rightarrow> n)
      in if \<not> nak \<or> router_ip = 0 \<or> n = 0 then
           write_leases (upd (dh_lease_list_update (\<lambda>ls.
             DHCPLeaseListRemoveLease ls (sp_our_ip (saved s)) router_ip router_hwaddr n)) s)
         else
           (case DHCPLeaseListFindLease (dh_lease_list (dh s)) (sp_our_ip (saved s)) router_ip router_hwaddr n of
              None \<Rightarrow> s
            | Some i \<Rightarrow> upd (dh_lease_list_update (\<lambda>ls. ls[i := DHCPLeaseSetNAK True (ls ! i)])) s))"

definition sizeof_saved_pkt :: int where
  "sizeof_saved_pkt = 1500"

text \<open>The bytes of a packet become the saved packet; \<open>our_ip\<close> and \<open>server_ip\<close> are set by the caller.\<close>

definition save_packet :: "u8 list \<Rightarrow> nat \<Rightarrow> service \<Rightarrow> service option" where
  "save_packet bytes rating s = do {
     p \<leftarrow> overwrite_packet (sp_pkt (saved s)) bytes;
     options \<leftarrow> parsed_options p (int (length bytes));
     Some (upd_saved (\<lambda>sp. sp\<lparr>sp_options := options, sp_pkt := p, sp_pkt_size := int (length bytes), sp_rating := rating\<rparr>) s) }"

definition is_current_lease :: "dhcp_lease \<Rightarrow> service \<Rightarrow> bool" where
  "is_current_lease l s \<longleftrightarrow>
     ls_our_ip l = sp_our_ip (saved s) \<and>
     (\<not> ip_is_private (ls_our_ip l) \<or>
      service_router_is_iaddr_valid s \<and> service_router_is_hwaddr_valid s \<and> ls_router_ip l = ri_iaddr (router s) \<and>
      take (length (ci_link_address (s_if s))) (ls_router_hwaddr l) =
        take (length (ci_link_address (s_if s))) (ri_hwaddr (router s)))"

text \<open>The router of a lease becomes the service's router.\<close>

definition use_lease_router :: "dhcp_lease \<Rightarrow> service \<Rightarrow> service option" where
  "use_lease_router l s =
     (if ls_router_ip l = 0 then Some s
      else
        let s1 = service_router_set_iaddr (ls_router_ip l) s in
        if ls_router_hwaddr_length l > 0 then do {
          s2 \<leftarrow> copy_hwaddr (ls_router_hwaddr l) (min (ls_router_hwaddr_length l) MAX_LINK_ADDR_LEN) s1;
          Some (service_router_flags_set_specific RIFLAGS_HWADDR_VALID s2) }
        else Some s1)"

definition switch_to_lease :: "dhcp_lease \<Rightarrow> bool \<Rightarrow> service \<Rightarrow> (bool \<times> service) option" where
  "switch_to_lease l is_load s =
     (if is_current_lease l s then Some (False, s)
      else do {
        s1 \<leftarrow> save_packet (take (nat sizeof_saved_pkt) (ls_pkt l)) 0 (service_remove_address s);
        ts \<leftarrow> dhcp_get_lease_from_options (sp_options (saved s1));
        server \<leftarrow> get_server_identifier (sp_options (saved s1));
        let s2 = run [dhcp_set_lease_params (ls_lease_start l) ts,
                      upd_lease (li_valid_update (\<lambda>_. True)),
                      upd_saved (\<lambda>sp. sp\<lparr>sp_our_ip := ls_our_ip l,
                        sp_server_ip := (case server of Some ip \<Rightarrow> ip | None \<Rightarrow> sp_server_ip sp)\<rparr>),
                      dhcp_lease_set_ssid (ls_ssid l),
                      dhcp_lease_set_networkID (ls_networkID l),
                      service_router_clear,
                      upd_lease (\<lambda>i. if is_load \<and> ls_wifi_mac_is_set l
                                      then i\<lparr>li_wifi_mac_is_set := True, li_wifi_mac := ls_wifi_mac l\<rparr>
                                      else i\<lparr>li_wifi_mac_is_set := False\<rparr>)] s1;
        s3 \<leftarrow> use_lease_router l s2;
        Some (True, s3) })"

definition recover_lease :: "service \<Rightarrow> service option" where
  "recover_lease s = do {
     let (cid_type, cid) = get_client_id s;
     (leases, unused) \<leftarrow> DHCPLeaseListRead (now s) (s_lease_file s) (ci_is_wireless (s_if s)) cid_type cid;
     let s1 = (case unused of None \<Rightarrow> s | Some ip \<Rightarrow> remove_unused_ip ip s);
     let s2 = upd (dh_lease_list_update (\<lambda>_. leases)) s1;
     if leases = [] then Some s2 else map_option snd (switch_to_lease (last leases) True s2) }"

text \<open>An expired lease is given up; the flag is whether the lease is valid.\<close>

definition dhcp_check_lease :: "service \<Rightarrow> bool \<times> service" where
  "dhcp_check_lease s =
     (let s1 = (if li_valid (lease s) \<and> li_length (lease s) \<noteq> DHCP_INFINITE_LEASE \<and> now s \<ge> li_expiration (lease s)
                then run [dhcp_invalidate_lease, service_router_clear, service_remove_address,
                          service_publish_failure ipconfig_status_lease_expired_e] s
                else s)
      in (li_valid (lease s1), s1))"

section \<open>Requests (dhcp.c, bootp_session.c)\<close>

definition SUGGESTED_LEASE_LENGTH :: u32 where
  "SUGGESTED_LEASE_LENGTH = 60 * 60 * 24 * 30 * 3"

definition lease_option :: "int \<times> u8 list" where
  "lease_option = (dhcptag_lease_time_e, net_uint32_bytes SUGGESTED_LEASE_LENGTH)"

definition requested_ip_option :: "in_addr \<Rightarrow> int \<times> u8 list" where
  "requested_ip_option ip = (dhcptag_requested_ip_address_e, net_uint32_bytes ip)"

definition server_id_option :: "in_addr \<Rightarrow> int \<times> u8 list" where
  "server_id_option ip = (dhcptag_server_identifier_e, net_uint32_bytes ip)"

text \<open>The name a client gives: none, the host's, or the type of the device when that is all it may give.\<close>

definition name_to_supply :: "service \<Rightarrow> string option" where
  "name_to_supply s =
     (let (privacy_required, share_device_type) = ServiceIsPrivacyRequired s in
      if \<not> privacy_required then dhcp_hostname (s_globals s)
      else if share_device_type then device_type (s_globals s)
      else None)"

definition make_request :: "u8 \<Rightarrow> bool \<Rightarrow> bool \<Rightarrow> service \<Rightarrow> (bool \<times> dhcpoa \<times> service) option" where
  "make_request msg must_broadcast ipv6_only_preferred s = do {
     (ok, request, oa) \<leftarrow> make_dhcp_request (s_globals s) DHCP_PACKET_MIN msg (ci_link_address (s_if s))
        (ci_arptype (s_if s)) (dh_client_id (dh s)) must_broadcast ipv6_only_preferred;
     Some (ok, oa, upd (\<lambda>d. d\<lparr>dh_request := ok, dh_txbuf := request\<rparr>) s) }"

text \<open>The options that follow; \<open>request_size\<close> is only set where the code sets it.\<close>

definition complete_request :: "(int \<times> u8 list) list \<Rightarrow> string option \<Rightarrow> bool \<Rightarrow> dhcpoa \<Rightarrow> service \<Rightarrow> (bool \<times> service) option" where
  "complete_request options name set_size oa s = do {
     (request, pkt_size) \<leftarrow> finish_request options name (dh_txbuf (dh s)) oa;
     Some (pkt_size \<noteq> None,
       upd (\<lambda>d. d\<lparr>dh_txbuf := request,
                    dh_request_size := (case pkt_size of Some n \<Rightarrow> if set_size then n else dh_request_size d
                                         | None \<Rightarrow> dh_request_size d)\<rparr>) s) }"

definition build_request ::
  "u8 \<Rightarrow> bool \<Rightarrow> (int \<times> u8 list) list \<Rightarrow> service \<Rightarrow> (bool \<times> service) option" where
  "build_request msg must_broadcast options s = do {
     (ok, oa, s1) \<leftarrow> make_request msg must_broadcast (ServiceCanDoIPv6OnlyPreferred s) s;
     if ok then complete_request options (name_to_supply s1) True oa s1 else Some (False, s1) }"

definition upd_request :: "(dhcp \<Rightarrow> dhcp) \<Rightarrow> service \<Rightarrow> service option" where
  "upd_request f s = (if dh_request (dh s) then Some (upd (dh_txbuf_update f) s) else None)"

definition bootp_client_transmit :: "in_addr \<Rightarrow> in_addr \<Rightarrow> service \<Rightarrow> (bool \<times> service) option" where
  "bootp_client_transmit dest_ip src_ip s =
     (if \<not> dh_request (dh s) then None
      else let (ok, s1) = try_call s in
        Some (ok, if ok then act (Transmit dest_ip src_ip (dh_txbuf (dh s1)) (dh_request_size (dh s1))) s1 else s1))"

abbreviation "G_ip_broadcast \<equiv> (0xffffffff :: in_addr)"
abbreviation "G_ip_zeroes \<equiv> (0 :: in_addr)"

text \<open>A request is sent with the transaction and the seconds since \<open>start_secs\<close>.\<close>

definition send_request :: "in_addr \<Rightarrow> in_addr \<Rightarrow> service \<Rightarrow> service option" where
  "send_request dest_ip src_ip s = do {
     s1 \<leftarrow> upd_request (\<lambda>p. p\<lparr>dp_xid := dh_xid (dh s),
            dp_secs := swap16 (word_of_int (trunc (now s - dh_start_secs (dh s))))\<rparr>) s;
     (_, s2) \<leftarrow> bootp_client_transmit dest_ip src_ip s1;
     Some s2 }"

text \<open>The wait for an answer, and twice as long the next time.\<close>

definition double_wait :: "service \<Rightarrow> service" where
  "double_wait s =
     upd (\<lambda>d. d\<lparr>dh_wait_secs := (let n = dh_wait_secs d * 2 in
                  if n > G_max_wait_secs (s_globals s) then G_max_wait_secs (s_globals s) else n)\<rparr>) s"

definition wait_for_response :: "bool \<Rightarrow> dhcp_timer \<Rightarrow> service \<Rightarrow> service" where
  "wait_for_response with_random func s =
     (let (usec, w) = (if with_random then random_upto (nat (USECS_PER_SEC - 1)) (s_world s) else (0, s_world s));
          s1 = s\<lparr>s_world := w\<rparr>
      in double_wait (set_relative (dh_wait_secs (dh s1)) (int usec) func s1))"

section \<open>States that wait for a timer (dhcp.c)\<close>

definition DHCP_MIN_V6ONLY_WAIT :: u32 where
  "DHCP_MIN_V6ONLY_WAIT = 300"

definition dhcp_wait_start :: "u32 \<Rightarrow> service \<Rightarrow> service" where
  "dhcp_wait_start wait_time s =
     (let wait_time = (if wait_time < DHCP_MIN_V6ONLY_WAIT then DHCP_MIN_V6ONLY_WAIT else wait_time) in
      set_relative (uint wait_time) 0 T_wait (dhcp_failed ipconfig_status_dhcp_waiting_e s))"

definition interface_is_isolated :: "service \<Rightarrow> bool" where
  "interface_is_isolated s \<longleftrightarrow> ci_is_expensive (s_if s) \<or> ci_is_carplay (s_if s)"

definition dhcp_no_server :: "service \<Rightarrow> service" where
  "dhcp_no_server s =
     run [\<lambda>s. if G_dhcp_failure_configures_linklocal (s_globals s) then linklocal_service_change True s else s,
          dhcp_cancel_pending_events,
          service_publish_failure ipconfig_status_no_server_e,
          ServiceSetBusy False,
          set_relative 60 0 (T_init IFEventID_start_e)] s"

definition dhcp_decline :: "service \<Rightarrow> service option" where
  "dhcp_decline s0 = do {
     let s = run [dhcp_set_state dhcp_cstate_decline_e, dhcp_cancel_pending_events] s0;
     (made, oa, s1) \<leftarrow> make_request dhcp_msgtype_decline_e False False s;
     if \<not> made then Some (dhcp_failed ipconfig_status_allocation_failed_e s1)
     else do {
       (ok, s2) \<leftarrow> complete_request [requested_ip_option (sp_our_ip (saved s1)), server_id_option (sp_server_ip (saved s1))]
                      None False oa s1;
       if \<not> ok then Some (dhcp_failed ipconfig_status_allocation_failed_e s2)
       else do {
         (_, s3) \<leftarrow> bootp_client_transmit G_ip_broadcast G_ip_zeroes s2;
         Some (run [service_remove_address,
                    upd_saved (sp_our_ip_update (\<lambda>_. 0)),
                    dhcp_invalidate_lease,
                    service_router_clear,
                    service_disable_autoaddr,
                    ServiceSetBusy False,
                    \<lambda>s. set_relative (if interface_is_isolated s then 1 else 10) 0 (T_init IFEventID_start_e) s] s3) } } }"

definition dhcp_unbound :: "bool \<Rightarrow> service \<Rightarrow> service" where
  "dhcp_unbound nak s =
     run [dhcp_set_state dhcp_cstate_unbound_e,
          dhcp_cancel_pending_events,
          dhcp_lease_clear nak,
          service_remove_address,
          upd_saved (sp_our_ip_update (\<lambda>_. 0)),
          dhcp_invalidate_lease,
          upd (dh_got_nak_update (\<lambda>_. False)),
          service_router_clear,
          ServiceSetBusy False,
          set_relative 0 1000 (T_init IFEventID_start_e)] s"

text \<open>The address that a release waits to be resolved by ARP; the wait itself has no effect on the client.\<close>

definition arp_wait_address :: "service \<Rightarrow> in_addr option" where
  "arp_wait_address s =
     (let our_mask = ServiceGetActiveSubnetMask s; server_ip = sp_server_ip (saved s) in
      if in_subnet (sp_our_ip (saved s) AND our_mask) our_mask server_ip then Some server_ip
      else do {
        router \<leftarrow> dhcp_get_router_from_options (sp_options (saved s)) (sp_our_ip (saved s));
        Some (if router_is_valid router then router else server_ip) })"

definition dhcp_release :: "service \<Rightarrow> service option" where
  "dhcp_release s =
     (if \<not> li_valid (lease s) then Some s
      else do {
        let s1 = run [dhcp_lease_clear False, dhcp_invalidate_lease, service_router_clear, dhcp_cancel_pending_events] s;
        let link_status = service_link_status s1;
        if lk_valid link_status \<and> \<not> lk_active link_status then Some s1
        else do {
          (made, oa, s2) \<leftarrow> make_request dhcp_msgtype_release_e False False s1;
          if \<not> made then Some s2
          else do {
            let s3 = upd (dh_xid_update (\<lambda>x. x + 1)) s2;
            s4 \<leftarrow> upd_request (\<lambda>p. p\<lparr>dp_xid := dh_xid (dh s3), dp_ciaddr := sp_our_ip (saved s3)\<rparr>) s3;
            (ok, s5) \<leftarrow> complete_request [server_id_option (sp_server_ip (saved s4))] None False oa s4;
            if \<not> ok then Some s5
            else do {
              (sent, s6) \<leftarrow> bootp_client_transmit (sp_server_ip (saved s5)) (sp_our_ip (saved s5)) s5;
              if \<not> sent then Some s6
              else do {
                _ \<leftarrow> arp_wait_address s6;
                Some (upd_saved (sp_our_ip_update (\<lambda>_. 0)) s6) } } } } })"

end
