(* ===== verification/DhcpClient.thy ===== *)
theory DhcpClient
  imports ClientActions
begin

text \<open>
  The states of the DHCP client (\<open>IPConfiguration.bproj/dhcp.c\<close>).

  A handler of the source is a function of the service and of an event; here it is one definition for
  each event, and a case that falls through into the next one calls it.  \<open>current_time\<close>, read at the entry
  of a handler, is \<open>now\<close>: no time passes inside of a handler.  The definitions stand in the order of
  their calls, so the handlers that others end in come first.
\<close>

definition arp_do_opt :: "(dhcp_arp_func arp_ctx \<Rightarrow> dhcp_arp_func arp_ctx option) \<Rightarrow> service \<Rightarrow> service option" where
  "arp_do_opt f s = map_option (\<lambda>x. put_arp x s) (f (arp_ctx_of s))"

definition upd_try :: "(int \<Rightarrow> int) \<Rightarrow> service \<Rightarrow> service" where
  "upd_try f s = upd (dh_try_update f) s"

section \<open>Looking for a known router (dhcp_arp_router)\<close>

definition arp_router_detect ::
  "string option \<Rightarrow> string option \<Rightarrow> absolute_time option \<Rightarrow> bool \<Rightarrow> service \<Rightarrow> service option" where
  "arp_router_detect ssid networkID start_time_threshold tentative_ok s =
     (let (infos, leases) = DHCPLeaseListCopyARPAddressInfo (new_memory (s_globals s) (w_calls (s_world s))) (now s)
                              ssid networkID start_time_threshold tentative_ok (dh_lease_list (dh s));
          s1 = upd (dh_lease_list_update (\<lambda>_. leases)) s
      in if infos = [] then Some s1 else arp_do_opt (arp_client_detect A_arp_router infos) s1)"

definition arp_router_start :: "service \<Rightarrow> service option" where
  "arp_router_start s =
     (if \<not> G_router_arp (s_globals s) \<or> service_router_is_arp_verified s then Some s
      else
        let tentative_ok = (if G_on_osx (s_globals s) then dh_state (dh s) = dhcp_cstate_init_e else True) in
        if ci_is_wireless (s_if s) then
          (case ServiceGetSSID s of
             None \<Rightarrow> Some s
           | Some ssid \<Rightarrow>
               arp_router_detect (Some ssid) (ServiceGetNetworkID s)
                 (Some (now s - of_int (G_router_arp_wifi_lease_start_threshold_secs (s_globals s)))) tentative_ok s)
        else arp_router_detect None None None tentative_ok s)"

section \<open>BOUND (dhcp_bound)\<close>

definition should_write_lease :: "service \<Rightarrow> bool" where
  "should_write_lease s \<longleftrightarrow>
     \<not> li_t1 (lease s) < now s \<and>
     li_t1 (lease s) - now s > of_int (G_dhcp_lease_write_t1_threshold_secs (s_globals s))"

definition saved_subnet_mask :: "service \<Rightarrow> in_addr option" where
  "saved_subnet_mask s =
     map_option (\<lambda>m. case m of None \<Rightarrow> 0 | Some m \<Rightarrow> m) (find_u32 (sp_options (saved s)) dhcptag_subnet_mask_e)"

text \<open>The timer for RENEW; the flag is whether the router is to be resolved now.\<close>

definition schedule_renewal :: "service \<Rightarrow> bool \<times> service" where
  "schedule_renewal s =
     (if li_length (lease s) = DHCP_INFINITE_LEASE then (True, s)
      else
        let past = li_t1 (lease s) < now s;
            (tv_sec, tv_usec) = (if past then (0, 1) else (trunc (li_t1 (lease s) - now s), 0))
        in (\<not> past, set_relative tv_sec tv_usec (T_renew_rebind IFEventID_start_e)
                       (upd (dh_renew_rebind_time_update (\<lambda>_. li_t1 (lease s))) s)))"

text \<open>The router's address is resolved, or the lease is saved and published at once.\<close>

definition save_and_publish :: "service \<Rightarrow> service option" where
  "save_and_publish s = do {
     s1 \<leftarrow> dhcp_lease_save (li_needs_write (lease s)) s;
     Some (run [upd_lease (li_needs_write_update (\<lambda>_. False)), dhcp_publish_success] s1) }"

definition resolve_bound_router :: "bool \<Rightarrow> service \<Rightarrow> (bool \<times> service) option" where
  "resolve_bound_router do_arp s =
     (if \<not> do_arp then Some (False, s)
      else do {
        (changed, s1) \<leftarrow> service_update_router_address (sp_options (saved s)) (sp_our_ip (saved s)) s;
        Some (if changed then service_resolve_router (sp_our_ip (saved s1)) s1 else (False, s1)) })"

definition set_bound_address :: "in_addr \<Rightarrow> service \<Rightarrow> service" where
  "set_bound_address netmask s =
     (if sp_our_ip (saved s) \<noteq> ServiceGetActiveIPAddress s \<or> netmask \<noteq> ServiceGetActiveSubnetMask s
      then service_set_address (sp_our_ip (saved s)) netmask 0 s else s)"

definition stop_linklocal :: "service \<Rightarrow> service" where
  "stop_linklocal s =
     (if G_dhcp_success_deconfigures_linklocal (s_globals s) then linklocal_service_change False s else s)"

definition allow_warning :: "service \<Rightarrow> service" where
  "allow_warning s = upd (\<lambda>d. d\<lparr>dh_conflicting_address := 0, dh_user_warned := False\<rparr>) s"

definition bound_finish :: "service \<Rightarrow> service option" where
  "bound_finish s = do {
     let s1 = run [upd_lease (li_valid_update (\<lambda>_. True)),
                   \<lambda>s. dhcp_lease_set_ssid (ServiceGetSSID s) s,
                   \<lambda>s. dhcp_lease_set_networkID (ServiceGetNetworkID s) s,
                   allow_warning] s;
     m \<leftarrow> saved_subnet_mask s1;
     let s2 = run [set_bound_address m, stop_linklocal, upd (dh_disable_arp_collision_detection_update (\<lambda>_. False))] s1;
     let (do_arp, s3) = schedule_renewal s2;
     (started, s4) \<leftarrow> resolve_bound_router do_arp (upd (dh_resolve_router_timed_out_update (\<lambda>_. False)) s3);
     if started then Some s4 else map_option (ServiceSetBusy False) (save_and_publish s4) }"

definition bound_start :: "service \<Rightarrow> service option" where
  "bound_start s =
     (let prev_state = dh_state (dh s);
          s1 = run [dhcp_set_state dhcp_cstate_bound_e,
                    upd_lease (li_needs_write_update (\<lambda>_. True)),
                    upd (\<lambda>d. d\<lparr>dh_disable_arp_collision_detection := True, dh_trying_since_secs := 0\<rparr>),
                    dhcp_cancel_pending_events] s;
          renewed = (prev_state = dhcp_cstate_renew_e \<or> prev_state = dhcp_cstate_rebind_e);
          s2 = (if renewed then upd_lease (li_needs_write_update (\<lambda>_. should_write_lease s1)) s1
                else service_disable_autoaddr s1)
      in if renewed \<or> ServiceIsNetBoot s2 then bound_finish s2
         else if \<not> interface_is_isolated s2 \<and> prev_state = dhcp_cstate_select_e then
           Some (arp_do (arp_client_probe A_bound G_ip_zeroes (sp_our_ip (saved s2))) s2)
         else if ServiceGetActiveIPAddress s2 = sp_our_ip (saved s2) \<and>
                 (prev_state = dhcp_cstate_init_reboot_e \<or> prev_state = dhcp_cstate_init_e) then
           Some (arp_do (arp_client_announce A_bound G_ip_zeroes (sp_our_ip (saved s2)) True) s2)
         else bound_finish s2)"

text \<open>The address is used by another host: the user is told, at most once for an address.\<close>

definition report_conflict :: "service \<Rightarrow> service" where
  "report_conflict s =
     (let our_ip = sp_our_ip (saved s);
          s1 = (if dh_conflicting_address (dh s) \<noteq> our_ip then upd (dh_user_warned_update (\<lambda>_. False)) s
                else if \<not> dh_user_warned (dh s) then upd (dh_user_warned_update (\<lambda>_. True)) (act (ReportConflict our_ip) s)
                else s)
      in upd (dh_conflicting_address_update (\<lambda>_. our_ip)) s1)"

definition bound_arp :: "arp_result \<Rightarrow> service \<Rightarrow> service option" where
  "bound_arp result s =
     (if ar_error result then Some (dhcp_failed ipconfig_status_internal_error_e s)
      else if ar_in_use result then
        dhcp_decline (run [report_conflict, dhcp_lease_clear False, dhcp_invalidate_lease, service_router_clear,
                           service_publish_failure ipconfig_status_address_in_use_e] s)
      else bound_finish (dhcp_cancel_pending_events s))"

section \<open>INIT (dhcp_init)\<close>

text \<open>A link that went away is noticed at the second try.\<close>

definition link_is_lost :: "service \<Rightarrow> bool" where
  "link_is_lost s \<longleftrightarrow> dh_try (dh s) > 1 \<and> lk_valid (service_link_status s) \<and> \<not> lk_active (service_link_status s)"

definition init_give_up_on_router :: "service \<Rightarrow> service" where
  "init_give_up_on_router s =
     (if service_router_all_valid s then s
      else
        let g = s_globals s;
            s1 = (if dh_try (dh s) \<ge> G_dhcp_allocate_linklocal_at_retry_count g + 1 \<and> G_dhcp_failure_configures_linklocal g
                  then linklocal_service_change True (ServiceSetStatus ipconfig_status_no_server_e s) else s)
        in if dh_try (dh s) \<ge> G_dhcp_generate_failure_symptom_at_retry_count g + 1
           then ServiceGenerateFailureSymptom s1 else s1)"

definition init_attempt :: "service \<Rightarrow> service option" where
  "init_attempt s0 =
     (let s = upd_try (\<lambda>n. n + 1) s0; g = s_globals s in
      if link_is_lost s then Some (dhcp_inactive s)
      else do {
        s1 \<leftarrow> (if dh_try (dh s) \<ge> G_dhcp_router_arp_at_retry_count g + 1 \<and> \<not> service_router_all_valid s
               then arp_router_start s else Some s);
        let s2 = init_give_up_on_router s1;
        if dh_try (dh s2) > G_max_retries g + 1 then
          (if service_router_all_valid s2 then bound_start s2 else Some (dhcp_no_server s2))
        else do {
          s3 \<leftarrow> send_request G_ip_broadcast G_ip_zeroes s2;
          Some (wait_for_response True (T_init IFEventID_timeout_e) s3) } })"

definition start_trying :: "service \<Rightarrow> service" where
  "start_trying s =
     (if dh_trying_since_secs (dh s) = 0 then upd (dh_trying_since_secs_update (\<lambda>_. now s)) s else s)"

text \<open>The variables of a state that has just formed its request.\<close>

definition begin_init :: "dhcp_cstate \<Rightarrow> service \<Rightarrow> service" where
  "begin_init prev_state s =
     run [\<lambda>s. if prev_state \<noteq> dhcp_cstate_init_reboot_e then upd (dh_start_secs_update (\<lambda>_. now s)) s else s,
          \<lambda>s. upd (\<lambda>d. d\<lparr>dh_wait_secs := G_initial_wait_secs (s_globals s), dh_try := 0, dh_xid := dh_xid d + 1,
                          dh_gathering := False, dh_got_nak := False\<rparr>) s,
          upd_saved (sp_rating_update (\<lambda>_. 0)),
          service_enable_autoaddr,
          bootp_client_enable_receive R_init,
          ServiceSetBusy True] s"

definition init_start :: "service \<Rightarrow> service option" where
  "init_start s = do {
     let prev_state = dh_state (dh s);
     let s1 = run [upd_lease (li_wifi_mac_is_set_update (\<lambda>_. False)),
                   dhcp_set_state dhcp_cstate_init_e,
                   upd (\<lambda>d. d\<lparr>dh_allow_wake_with_short_lease := True, dh_resolve_router_timed_out := False\<rparr>),
                   dhcp_cancel_pending_events,
                   start_trying] s;
     (ok, s2) \<leftarrow> build_request dhcp_msgtype_discover_e (dh_must_broadcast (dh s1)) [lease_option] s1;
     if \<not> ok then Some (dhcp_failed ipconfig_status_allocation_failed_e s2)
     else init_attempt (begin_init prev_state s2) }"

section \<open>SELECT (dhcp_select)\<close>

definition select_attempt :: "service \<Rightarrow> service option" where
  "select_attempt s0 =
     (let s = upd_try (\<lambda>n. n + 1) s0 in
      if dh_try (dh s) > G_dhcp_select_retry_count (s_globals s) + 1 then init_start s
      else do {
        s1 \<leftarrow> send_request G_ip_broadcast G_ip_zeroes s;
        Some (wait_for_response False T_select s1) })"

definition select_start :: "service \<Rightarrow> service option" where
  "select_start s = do {
     let s1 = run [dhcp_set_state dhcp_cstate_select_e, dhcp_cancel_pending_events] s;
     (ok, s2) \<leftarrow> build_request dhcp_msgtype_request_e (dh_must_broadcast (dh s1))
       [requested_ip_option (sp_our_ip (saved s1)), server_id_option (sp_server_ip (saved s1))] s1;
     if \<not> ok then Some (dhcp_failed ipconfig_status_allocation_failed_e s2)
     else select_attempt
       (bootp_client_enable_receive R_select
         (upd (\<lambda>d. d\<lparr>dh_try := 0, dh_gathering := False, dh_wait_secs := G_initial_wait_secs (s_globals s2)\<rparr>) s2)) }"

text \<open>What the servers answered: the message type and the server, if the packet is for this client.\<close>

definition verify_reply :: "bootp_receive_data \<Rightarrow> service \<Rightarrow> (u8 \<times> in_addr) option option" where
  "verify_reply pkt s = verify_packet pkt (dh_xid (dh s)) (ci_arptype (s_if s)) (ci_link_address (s_if s))"

text \<open>An accepted packet becomes the saved one, with its address, server and lease.\<close>

definition accept_packet ::
  "bootp_receive_data \<Rightarrow> nat \<Rightarrow> in_addr \<Rightarrow> u32 \<times> u32 \<times> u32 \<Rightarrow> service \<Rightarrow> service option" where
  "accept_packet pkt rating server_ip lease_len s = do {
     bytes \<leftarrow> bytes_of_packet (rd_data pkt) (rd_size pkt);
     s1 \<leftarrow> save_packet bytes rating s;
     Some (dhcp_set_lease_params (now s) lease_len
       (upd_saved (\<lambda>sp. sp\<lparr>sp_our_ip := dp_yiaddr (rd_data pkt), sp_server_ip := server_ip\<rparr>) s1)) }"

definition select_nak :: "in_addr \<Rightarrow> service \<Rightarrow> service" where
  "select_nak server_ip s =
     (if server_ip = 0 \<or> server_ip \<noteq> sp_server_ip (saved s) then s
      else set_relative 10 0 (T_init IFEventID_start_e) (dhcp_cancel_pending_events s))"

definition select_data :: "bootp_receive_data \<Rightarrow> service \<Rightarrow> service option" where
  "select_data pkt s = do {
     reply \<leftarrow> verify_reply pkt s;
     case reply of
       None \<Rightarrow> Some s
     | Some (reply_msgtype, server_ip) \<Rightarrow>
         if reply_msgtype = dhcp_msgtype_nak_e then Some (select_nak server_ip s)
         else if reply_msgtype \<noteq> dhcp_msgtype_ack_e \<or> \<not> ip_valid (dp_yiaddr (rd_data pkt)) then Some s
         else do {
           lease_len \<leftarrow> dhcp_get_lease_from_options (rd_options pkt);
           s1 \<leftarrow> accept_packet pkt 0 (if server_ip \<noteq> 0 then server_ip else sp_server_ip (saved s)) lease_len s;
           bound_start s1 } }"

section \<open>INIT: gathering offers (dhcp_init)\<close>

definition init_timeout :: "service \<Rightarrow> service option" where
  "init_timeout s = (if dh_gathering (dh s) then select_start s else init_attempt s)"

definition begin_gathering :: "dhcp_timer \<Rightarrow> service \<Rightarrow> service" where
  "begin_gathering func s =
     (if dh_gathering (dh s) then s
      else upd (\<lambda>d. d\<lparr>dh_gathering := True,
             dh_timer := timer_callout_set (s_world s) (dh_timer d) (of_int (G_gather_secs (s_globals s))) func\<rparr>) s)"

text \<open>A server says that IPv6 is enough: the time to wait.\<close>

definition ipv6_only_wait :: "bootp_receive_data \<Rightarrow> service \<Rightarrow> u32 option option" where
  "ipv6_only_wait pkt s =
     (if dhcp_ipv6_only_preferred (s_globals s) \<and> ServiceCanDoIPv6OnlyPreferred s \<and> \<not> dh_gathering (dh s)
      then options_get_ipv6_wait_time (rd_options pkt) else Some None)"

definition is_better :: "nat \<Rightarrow> service \<Rightarrow> bool" where
  "is_better rating s \<longleftrightarrow> sp_pkt_size (saved s) = 0 \<or> rating > sp_rating (saved s)"

definition offer_rating :: "bootp_receive_data \<Rightarrow> service \<Rightarrow> nat option" where
  "offer_rating pkt s =
     map_option (\<lambda>n. n + get_rating_for_ip_address (dp_yiaddr (rd_data pkt)))
       (dhcpol_count_params (rd_options pkt) (dhcp_params (s_globals s)))"

definition init_offer :: "bootp_receive_data \<Rightarrow> in_addr \<Rightarrow> service \<Rightarrow> service option" where
  "init_offer pkt server_ip s = do {
     lease_len \<leftarrow> dhcp_get_lease_from_options (rd_options pkt);
     rating \<leftarrow> offer_rating pkt s;
     if \<not> is_better rating s then Some s
     else do {
       s1 \<leftarrow> accept_packet pkt rating server_ip lease_len (service_router_clear s);
       if rating = length (dhcp_params (s_globals s)) + DHCP_ADDRESS_RATING_GOOD \<or> interface_is_isolated s1
       then select_start s1
       else Some (begin_gathering (T_init IFEventID_timeout_e) s1) } }"

definition init_data :: "bootp_receive_data \<Rightarrow> service \<Rightarrow> service option" where
  "init_data pkt s = do {
     reply \<leftarrow> verify_reply pkt s;
     case reply of
       None \<Rightarrow> Some s
     | Some (reply_msgtype, server_ip) \<Rightarrow>
         if server_ip = 0 \<or> reply_msgtype \<noteq> dhcp_msgtype_offer_e then Some s
         else do {
           ipv6_wait \<leftarrow> ipv6_only_wait pkt s;
           case ipv6_wait of
             Some wait_time \<Rightarrow> Some (dhcp_wait_start wait_time s)
           | None \<Rightarrow> if ip_valid (dp_yiaddr (rd_data pkt)) then init_offer pkt server_ip s else Some s } }"

section \<open>INIT-REBOOT (dhcp_init_reboot)\<close>

definition source_ip :: "service \<Rightarrow> in_addr" where
  "source_ip s = (if ServiceIsNetBoot s then netboot_ip (s_globals s) else G_ip_zeroes)"

definition init_reboot_give_up_on_router :: "service \<Rightarrow> service" where
  "init_reboot_give_up_on_router s =
     (if \<not> service_router_all_valid s \<and>
         dh_try (dh s) \<ge> G_dhcp_allocate_linklocal_at_retry_count (s_globals s) + 1 \<and>
         G_dhcp_failure_configures_linklocal (s_globals s)
      then linklocal_service_change True (ServiceSetStatus ipconfig_status_no_server_e s) else s)"

definition init_reboot_attempt :: "service \<Rightarrow> service option" where
  "init_reboot_attempt s0 =
     (let s = upd_try (\<lambda>n. n + 1) s0 in
      if link_is_lost s then Some (dhcp_inactive s)
      else do {
        s1 \<leftarrow> arp_router_start s;
        let s2 = init_reboot_give_up_on_router s1;
        if dh_try (dh s2) > G_dhcp_init_reboot_retry_count (s_globals s2) + 1 then
          init_start (run [service_remove_address,
                           service_publish_failure_sync ipconfig_status_server_not_responding_e False,
                           upd_try (\<lambda>n. n - 1)] s2)
        else do {
          s3 \<leftarrow> send_request G_ip_broadcast (source_ip s2) s2;
          Some (wait_for_response True T_init_reboot s3) } })"

definition init_reboot_start :: "in_addr \<Rightarrow> service \<Rightarrow> service option" where
  "init_reboot_start ip s = do {
     let our_ip = (if source_ip s = 0 then ip else source_ip s);
     let s1 = run [upd_lease (li_wifi_mac_is_set_update (\<lambda>_. False)),
                   dhcp_set_state dhcp_cstate_init_reboot_e,
                   \<lambda>s. upd (\<lambda>d. d\<lparr>dh_resolve_router_timed_out := False, dh_allow_wake_with_short_lease := True,
                                   dh_start_secs := now s\<rparr>) s,
                   start_trying,
                   upd (\<lambda>d. d\<lparr>dh_try := 0, dh_wait_secs := G_initial_wait_secs (s_globals s)\<rparr>),
                   dhcp_cancel_pending_events] s;
     (ok, s2) \<leftarrow> build_request dhcp_msgtype_request_e (dh_must_broadcast (dh s1))
       [requested_ip_option our_ip, lease_option] s1;
     if \<not> ok then Some (dhcp_failed ipconfig_status_allocation_failed_e s2)
     else init_reboot_attempt
       (run [upd (\<lambda>d. d\<lparr>dh_got_nak := False, dh_gathering := False, dh_xid := dh_xid d + 1\<rparr>),
             upd_saved (\<lambda>sp. sp\<lparr>sp_our_ip := our_ip, sp_rating := 0\<rparr>),
             service_enable_autoaddr,
             bootp_client_enable_receive R_init_reboot,
             ServiceSetBusy True] s2) }"

definition init_reboot_timeout :: "service \<Rightarrow> service option" where
  "init_reboot_timeout s = (if dh_gathering (dh s) then bound_start s else init_reboot_attempt s)"

definition init_reboot_better :: "bootp_receive_data \<Rightarrow> nat \<Rightarrow> in_addr \<Rightarrow> u32 \<times> u32 \<times> u32 \<Rightarrow> service \<Rightarrow> service option" where
  "init_reboot_better pkt rating server_ip lease_len s = do {
     s1 \<leftarrow> accept_packet pkt rating server_ip lease_len (service_router_clear s);
     if interface_is_isolated s1 \<or>
        (rating = length (dhcp_params (s_globals s1)) \<and> service_router_all_valid s1)
     then bound_start s1
     else Some (begin_gathering T_init_reboot s1) }"

definition init_reboot_ack :: "bootp_receive_data \<Rightarrow> in_addr \<Rightarrow> service \<Rightarrow> service option" where
  "init_reboot_ack pkt server_ip s = do {
     ipv6_wait \<leftarrow> ipv6_only_wait pkt s;
     case ipv6_wait of
       Some wait_time \<Rightarrow> Some (dhcp_wait_start wait_time s)
     | None \<Rightarrow>
         if dp_yiaddr (rd_data pkt) \<noteq> sp_our_ip (saved s) then Some s
         else do {
           lease_len \<leftarrow> dhcp_get_lease_from_options (rd_options pkt);
           rating \<leftarrow> dhcpol_count_params (rd_options pkt) (dhcp_params (s_globals s));
           if is_better rating s then init_reboot_better pkt rating server_ip lease_len s else Some s } }"

text \<open>A NAK counts at once, unless ARP is still looking for the router.\<close>

definition init_reboot_data :: "bootp_receive_data \<Rightarrow> service \<Rightarrow> service option" where
  "init_reboot_data pkt s = do {
     reply \<leftarrow> verify_reply pkt s;
     case reply of
       None \<Rightarrow> Some s
     | Some (reply_msgtype, server_ip) \<Rightarrow>
         if \<not> ServiceIsNetBoot s \<and> reply_msgtype = dhcp_msgtype_nak_e then
           (if arp_client_is_active (dh_arp (dh s)) then Some (upd (dh_got_nak_update (\<lambda>_. True)) s)
            else Some (dhcp_unbound True (service_publish_failure ipconfig_status_lease_terminated_e s)))
         else if server_ip = 0 \<or> reply_msgtype \<noteq> dhcp_msgtype_ack_e then Some s
         else init_reboot_ack pkt server_ip s }"

section \<open>RENEW and REBIND (dhcp_renew_rebind)\<close>

text \<open>The time was set while the timer was pending: the lease moves with it.\<close>

definition adjust_for_time_change :: "service \<Rightarrow> service" where
  "adjust_for_time_change s =
     (if timer_still_pending (dh_timer (dh s)) then s
      else let (changed, w) = timer_time_changed (s_world s) (dh_timer (dh s)); s1 = s\<lparr>s_world := w\<rparr> in
        if changed then dhcp_adjust_lease_info (now s1 - dh_renew_rebind_time (dh s1)) s1 else s1)"

definition RENEW_REBIND_MIN_WAIT_SECS :: int where
  "RENEW_REBIND_MIN_WAIT_SECS = 60"

definition renew_rebind_wait :: "absolute_time \<Rightarrow> service \<Rightarrow> service" where
  "renew_rebind_wait wakeup_time s =
     (let soon = wakeup_time - now s < of_int RENEW_REBIND_MIN_WAIT_SECS;
          tv_sec = (if soon then RENEW_REBIND_MIN_WAIT_SECS else trunc (wakeup_time - now s));
          s1 = upd (dh_renew_rebind_time_update (\<lambda>_. if soon then now s + of_int tv_sec else wakeup_time)) s;
          s2 = set_relative tv_sec 0 (T_renew_rebind IFEventID_timeout_e) s1;
          wake_time = dh_wake_time (dh s2)
      in if wake_time = 0 \<or> now s2 > wake_time \<or> wake_time - now s2 < of_int (G_wake_skew_secs (s_globals s2))
         then ServiceSetActiveDuringSleepNeedsAttention s2 else s2)"

definition renew_rebind_attempt :: "service \<Rightarrow> service option" where
  "renew_rebind_attempt s0 =
     (let s = adjust_for_time_change s0; current_time = now s in
      if current_time \<ge> li_expiration (lease s) then
        Some (dhcp_unbound False (service_publish_failure ipconfig_status_server_not_responding_e s))
      else
        let renew = (current_time < li_t2 (lease s));
            s1 = upd (dh_xid_update (\<lambda>x. x + 1))
                   (dhcp_set_state (if renew then dhcp_cstate_renew_e else dhcp_cstate_rebind_e) s);
            wakeup_time = current_time + ((if renew then li_t2 (lease s) else li_expiration (lease s)) - current_time) / 2
        in do {
          s2 \<leftarrow> send_request (if renew then sp_server_ip (saved s1) else G_ip_broadcast) (sp_our_ip (saved s1)) s1;
          Some (renew_rebind_wait wakeup_time s2) })"

definition renew_rebind_start :: "service \<Rightarrow> service option" where
  "renew_rebind_start s = do {
     let s1 = run [dhcp_cancel_pending_events,
                   \<lambda>s. upd (\<lambda>d. d\<lparr>dh_allow_wake_with_short_lease := False, dh_start_secs := now s\<rparr>) s,
                   start_trying,
                   dhcp_set_state dhcp_cstate_renew_e] s;
     (made, oa, s2) \<leftarrow> make_request dhcp_msgtype_request_e False (ServiceCanDoIPv6OnlyPreferred s1) s1;
     if \<not> made then Some (dhcp_failed ipconfig_status_allocation_failed_e s2)
     else do {
       s3 \<leftarrow> upd_request (\<lambda>p. p\<lparr>dp_ciaddr := sp_our_ip (saved s2)\<rparr>) (upd_try (\<lambda>_. 0) s2);
       (ok, s4) \<leftarrow> complete_request [lease_option] (name_to_supply s3) False oa s3;
       if \<not> ok then Some (dhcp_failed ipconfig_status_allocation_failed_e s4)
       else renew_rebind_attempt (bootp_client_enable_receive R_renew_rebind s4) } }"

definition terminate_lease :: "ipconfig_status \<Rightarrow> service \<Rightarrow> service" where
  "terminate_lease status s = dhcp_unbound False (service_publish_failure status s)"

definition renew_rebind_data :: "bootp_receive_data \<Rightarrow> service \<Rightarrow> service option" where
  "renew_rebind_data pkt s = do {
     reply \<leftarrow> verify_reply pkt s;
     case reply of
       None \<Rightarrow> Some s
     | Some (reply_msgtype, server_ip) \<Rightarrow>
         if reply_msgtype = dhcp_msgtype_nak_e then Some (terminate_lease ipconfig_status_lease_terminated_e s)
         else if reply_msgtype \<noteq> dhcp_msgtype_ack_e \<or> server_ip = 0 \<or> \<not> ip_valid (dp_yiaddr (rd_data pkt)) then Some s
         else do {
           lease_len \<leftarrow> dhcp_get_lease_from_options (rd_options pkt);
           if dp_yiaddr (rd_data pkt) \<noteq> sp_our_ip (saved s)
           then Some (terminate_lease ipconfig_status_server_error_e s)
           else do { s1 \<leftarrow> accept_packet pkt 0 server_ip lease_len s; bound_start s1 } } }"

section \<open>The known router answers, or not (dhcp_arp_router)\<close>

text \<open>
  The address in the request that is being sent: the option is found through a pointer into the packet,
  whose fields are one block of memory.
\<close>

definition put_requested_ip :: "in_addr \<Rightarrow> dhcp \<Rightarrow> (bool \<times> dhcp) option" where
  "put_requested_ip ip p = do {
     options \<leftarrow> parsed_options p DHCP_PACKET_MIN;
     found \<leftarrow> dhcpol_find_with_length options dhcptag_requested_ip_address_e 4;
     case found of
       None \<Rightarrow> Some (False, p)
     | Some req_ip \<Rightarrow> do {
         let whole = dp_sname p @ dp_file p @ dp_options p;
         bytes \<leftarrow> wrn whole (length whole - length req_ip) (net_uint32_bytes ip);
         let m = length (dp_sname p);
         let n = m + length (dp_file p);
         Some (True, p\<lparr>dp_sname := take m bytes, dp_file := take (n - m) (drop m bytes), dp_options := drop n bytes\<rparr>) } }"

definition retarget_request :: "in_addr \<Rightarrow> service \<Rightarrow> service option" where
  "retarget_request ip s = do {
     let s1 = upd (dh_xid_update (\<lambda>x. x + 1)) s;
     s2 \<leftarrow> upd_request (\<lambda>p. p\<lparr>dp_xid := dh_xid (dh s1)\<rparr>) s1;
     (found, p) \<leftarrow> put_requested_ip ip (dh_txbuf (dh s2));
     Some (if found then upd (\<lambda>d. d\<lparr>dh_txbuf := p, dh_try := 0\<rparr>) s2 else s2) }"

definition use_router :: "service \<Rightarrow> service option" where
  "use_router s = do {
     let s1 = service_router_set_all_valid s;
     m \<leftarrow> saved_subnet_mask s1;
     Some (run [allow_warning,
                \<lambda>s. service_set_address (sp_our_ip (saved s)) m 0 s,
                dhcp_publish_success,
                stop_linklocal] s1) }"

definition drop_nak :: "bool \<Rightarrow> service \<Rightarrow> service" where
  "drop_nak nak s =
     (if dh_got_nak (dh s) then dhcp_unbound nak (service_publish_failure ipconfig_status_lease_terminated_e s) else s)"

definition router_answered :: "dhcp_lease \<Rightarrow> service \<Rightarrow> service option" where
  "router_answered l s =
     (if dh_gathering (dh s) then
        if ls_our_ip l \<noteq> sp_our_ip (saved s) then Some s
        else do {
          r \<leftarrow> dhcp_get_router_address (sp_options (saved s)) (sp_our_ip (saved s));
          if r = Some (ls_router_ip l) then use_router s else Some s }
      else do {
        (switched, s1) \<leftarrow> switch_to_lease l False s;
        if switched then do { s2 \<leftarrow> retarget_request (ls_our_ip l) s1; use_router s2 }
        else if dh_got_nak (dh s1) then Some (drop_nak False s1)
        else use_router s1 })"

definition arp_router_arp :: "arp_result \<Rightarrow> service \<Rightarrow> service option" where
  "arp_router_arp result s =
     (if ar_error result \<or> \<not> ar_in_use result then Some (drop_nak True s)
      else
        let info = ar_addr result in
        case DHCPLeaseListFindLease (dh_lease_list (dh s)) (ai_sender_ip info) (ai_target_ip info)
               (Some (ai_target_hardware info)) (length (ci_link_address (s_if s))) of
          None \<Rightarrow> Some (drop_nak False s)
        | Some i \<Rightarrow>
            let l = dh_lease_list (dh s) ! i in
            if dh_state (dh s) = dhcp_cstate_init_e then
              (if dh_gathering (dh s) then Some s
               else map_option (\<lambda>(_, s). service_router_set_all_valid s) (switch_to_lease l False s))
            else if dh_state (dh s) \<noteq> dhcp_cstate_init_reboot_e then Some s
            else router_answered l s)"

section \<open>Resolving the router of the lease (dhcp_resolve_router_callback)\<close>

definition resolve_router_retry :: "service \<Rightarrow> service" where
  "resolve_router_retry s = snd (service_resolve_router (sp_our_ip (saved s)) s)"

definition resolve_router_callback :: "router_arp_status \<Rightarrow> service \<Rightarrow> service option" where
  "resolve_router_callback status s0 =
     (let s = ServiceSetBusy False s0 in
      case status of
        router_arp_status_no_response_e \<Rightarrow>
          let s1 = set_relative 60 0 T_resolve_router_retry s in
          if dh_resolve_router_timed_out (dh s1) then Some s1
          else dhcp_lease_save True
                 (dhcp_publish_success (upd (dh_resolve_router_timed_out_update (\<lambda>_. True)) s1))
      | router_arp_status_success_e \<Rightarrow> save_and_publish s
      | router_arp_status_failed_e \<Rightarrow> Some s)"

definition resolve_router_arp :: "arp_result \<Rightarrow> service \<Rightarrow> service option" where
  "resolve_router_arp result s = do {
     (status, s1) \<leftarrow> service_resolve_router_complete result s;
     resolve_router_callback status s1 }"

section \<open>Links (dhcp_check_link_with_status)\<close>

definition give_up_address :: "service \<Rightarrow> service" where
  "give_up_address s = run [dhcp_invalidate_lease, service_router_clear, service_remove_address, upd_try (\<lambda>_. 0)] s"

text \<open>The lease is of another Wi-Fi network, or of another hardware address.\<close>

definition check_network :: "service \<Rightarrow> service option" where
  "check_network s =
     (case (ServiceGetSSID s, li_valid (lease s) \<and> li_ssid (lease s) \<noteq> None) of
        (Some ssid, True) \<Rightarrow>
          if \<not> my_CFStringEqual (li_ssid (lease s)) (Some ssid) \<and>
             \<not> my_CFStringEqual (li_networkID (lease s)) (ServiceGetNetworkID s)
          then
            (case DHCPLeaseListFindLeaseForWiFi (dh_lease_list (dh s)) ssid (ServiceGetNetworkID s) of
               Some i \<Rightarrow> map_option (\<lambda>(_, s). upd_try (\<lambda>_. 0) s) (switch_to_lease (dh_lease_list (dh s) ! i) False s)
             | None \<Rightarrow> Some (give_up_address s))
          else if li_wifi_mac_is_set (lease s) then
            let other_mac = (li_wifi_mac (lease s) \<noteq> take 6 (ci_link_address (s_if s) @ replicate 16 0)) in
            Some (upd_lease (li_wifi_mac_is_set_update (\<lambda>_. False)) (if other_mac then give_up_address s else s))
          else Some s
      | _ \<Rightarrow> Some s)"

definition check_link_with_status :: "event_id \<Rightarrow> link_status \<Rightarrow> service \<Rightarrow> service option" where
  "check_link_with_status evid ls s =
     (if (if ci_is_wireless (s_if s) then \<not> lk_valid ls \<or> \<not> lk_active ls else link_status_is_inactive ls) then
        Some (dhcp_cancel_pending_events (upd (\<lambda>d. d\<lparr>dh_try := 0, dh_state := dhcp_cstate_inactive_e\<rparr>) s))
      else do {
        s1 \<leftarrow> check_network (allow_warning s);
        let (valid, s2) = dhcp_check_lease s1;
        let d = dh s2;
        if valid then
          (if evid = IFEventID_renew_e \<or> dh_state d \<noteq> dhcp_cstate_init_reboot_e \<or> dh_try d \<noteq> 1
           then init_reboot_start (sp_our_ip (saved s2)) s2 else Some s2)
        else if evid = IFEventID_renew_e \<or> dh_state d \<noteq> dhcp_cstate_init_e \<or> dh_try d \<noteq> 1
        then init_start s2 else Some s2 })"

definition dhcp_check_link :: "event_id \<Rightarrow> service \<Rightarrow> service option" where
  "dhcp_check_link evid s = check_link_with_status evid (service_link_status s) s"

definition dhcp_delayed_start :: "service \<Rightarrow> service option" where
  "dhcp_delayed_start s = (if ServiceIsNetBoot s then init_reboot_start 0 s else dhcp_check_link IFEventID_start_e s)"

section \<open>Checking the router after roaming (dhcp_check_router)\<close>

definition check_router_start :: "arp_address_info \<Rightarrow> service \<Rightarrow> service option" where
  "check_router_start info s0 =
     (let s = ServiceSetBusy True s0 in
      arp_do_opt (arp_client_detect A_check_router [info\<lparr>ai_sender_ip := sp_our_ip (saved s)\<rparr>]) s)"

text \<open>The timer is set for the time of the next renewal, or the renewal begins.\<close>

definition resume_renewal :: "bool \<Rightarrow> service \<Rightarrow> service option" where
  "resume_renewal in_future s =
     (if li_length (lease s) = DHCP_INFINITE_LEASE then Some s
      else if in_future then
        Some (set_relative (trunc (dh_renew_rebind_time (dh s) - now s)) 0 (T_renew_rebind IFEventID_start_e) s)
      else renew_rebind_start s)"

definition check_router_arp :: "arp_result \<Rightarrow> service \<Rightarrow> service option" where
  "check_router_arp result s0 =
     (let s = ServiceSetBusy False s0 in
      if ar_error result \<or> \<not> ar_in_use result then dhcp_check_link IFEventID_arp_e s
      else resume_renewal (now s < dh_renew_rebind_time (dh s)) s)"

end
