(* ===== verification/DhcpThread.thy ===== *)
theory DhcpThread
  imports DhcpClient
begin

text \<open>
  The DHCP client as a method of the daemon: \<open>dhcp_thread\<close> of \<open>IPConfiguration.bproj/dhcp.c\<close>, which starts,
  stops and informs it, the \<open>config_method_...\<close> functions of \<open>ipconfigd.c\<close> that call it, and everything else
  that can happen to it: its timer, its ARP client, packets, time.

  One client is modelled with the interface it runs on; other clients of the ARP session on the same
  interface are not.  A client that is not started must not be told of events that it does not expect.
\<close>

section \<open>Starting (dhcp.c)\<close>

definition cleared_packet :: "int \<Rightarrow> dhcp" where
  "cleared_packet n = cleared_request n"

definition cleared_lease :: lease_info where
  "cleared_lease = \<lparr>li_valid = False, li_expiration = 0, li_length = 0, li_start = 0, li_t1 = 0, li_t2 = 0,
     li_wifi_mac = replicate 6 0, li_wifi_mac_is_set = False, li_needs_write = False, li_ssid = None, li_networkID = None\<rparr>"

definition cleared_saved :: saved_pkt where
  "cleared_saved = \<lparr>sp_options = dhcpol_init, sp_pkt = cleared_packet sizeof_saved_pkt, sp_pkt_size = 0, sp_rating = 0,
     sp_our_ip = 0, sp_server_ip = 0\<rparr>"

text \<open>\<open>bzero\<close>, then the timer, the client and the ARP client.\<close>

definition new_dhcp :: "service \<Rightarrow> service_dhcp" where
  "new_dhcp s =
     \<lparr>dh_allow_wake_with_short_lease = False, dh_arp = arp_if_session_new_client (s_world s) (s_arp_if s),
      dh_receive = None, dh_client_id = None, dh_conflicting_address = 0,
      dh_disable_arp_collision_detection = False, dh_gathering = False, dh_got_nak = False, dh_lease = cleared_lease,
      dh_lease_list = [], dh_must_broadcast = (ci_arptype (s_if s) = 24), dh_request = False,
      dh_txbuf = cleared_packet DHCP_PACKET_MIN, dh_request_size = 0, dh_renew_rebind_time = 0,
      dh_resolve_router_timed_out = False, dh_saved = cleared_saved, dh_state = dhcp_cstate_inactive_e,
      dh_start_secs = 0, dh_timer = timer_callout_init (s_world s), dh_try = 0, dh_trying_since_secs = 0, dh_xid = 0,
      dh_user_warned = False, dh_wait_secs = 0, dh_wake_time = 0\<rparr>"

definition IFT_ETHER :: nat where "IFT_ETHER = 6"
definition IFT_L2VLAN :: nat where "IFT_L2VLAN = 0x87"
definition IFT_IEEE8023ADLAG :: nat where "IFT_IEEE8023ADLAG = 0x88"
definition IFT_IEEE1394 :: nat where "IFT_IEEE1394 = 0x90"

text \<open>Whether there is an ARP client for the interface; the address of a FireWire interface may be missing.\<close>

definition arp_client_init :: "service \<Rightarrow> bool \<times> service" where
  "arp_client_init s =
     (if ci_link_type (s_if s) \<in> {IFT_ETHER, IFT_L2VLAN, IFT_IEEE8023ADLAG} then (True, s)
      else if ci_link_type (s_if s) = IFT_IEEE1394 then try_call s
      else (False, s))"

definition dhcp_start :: "service \<Rightarrow> service option" where
  "dhcp_start s = do {
     let (xid, w) = random_upto 0xffffffff (s_world s);
     let s1 = upd (\<lambda>d. d\<lparr>dh_lease_list := [], dh_xid := word_of_nat xid\<rparr>) (s\<lparr>s_world := w\<rparr>);
     s2 \<leftarrow> (if ServiceIsNetBoot s1 then Some s1 else recover_lease s1);
     Some (set_relative 0 0 T_delayed_start s2) }"

text \<open>
  The failure of \<open>arp_client_init\<close> has no result: the clean-up at \<open>stop:\<close> cancels the ARP client through a
  null pointer.
\<close>

definition thread_start :: "u8 list option \<Rightarrow> service \<Rightarrow> (ipconfig_status \<times> service) option" where
  "thread_start client_id s =
     (if ci_loopback (s_if s) then Some (ipconfig_status_invalid_operation_e, s)
      else if s_private s then Some (ipconfig_status_internal_error_e, s)
      else
        let s1 = run [\<lambda>s. s\<lparr>s_private := True, s_dhcp := new_dhcp s\<rparr>, dhcp_invalidate_lease, service_router_clear,
                      service_enable_autoaddr] s;
            (ok, s2) = arp_client_init s1
        in if \<not> ok then None
           else map_option (Pair ipconfig_status_success_e)
             (dhcp_start (upd (dh_client_id_update (\<lambda>_. if client_id = Some [] then None else client_id)) s2)))"

section \<open>Stopping and changing (dhcp.c)\<close>

definition thread_stop :: "service \<Rightarrow> (ipconfig_status \<times> service) option" where
  "thread_stop s =
     (if \<not> s_private s then Some (ipconfig_status_internal_error_e, s)
      else do {
        s1 \<leftarrow> dhcp_release s;
        Some (ipconfig_status_success_e,
              (dhcp_failed ipconfig_status_media_inactive_e s1)\<lparr>s_private := False\<rparr>) })"

definition thread_change :: "u8 list option \<Rightarrow> service \<Rightarrow> bool" where
  "thread_change client_id s =
     (case client_id of
        Some (b # bs) \<Rightarrow> dh_client_id (dh s) \<noteq> Some (b # bs)
      | _ \<Rightarrow> dh_client_id (dh s) \<noteq> None)"

section \<open>Conflicts, links, sleep (dhcp.c)\<close>

definition thread_arp_collision :: "in_addr \<Rightarrow> bool \<Rightarrow> service \<Rightarrow> service option" where
  "thread_arp_collision ip_addr is_sleep_proxy s =
     (if dh_disable_arp_collision_detection (dh s) \<or> ServiceGetActiveIPAddress s \<noteq> sp_our_ip (saved s) \<or>
         ip_addr \<noteq> sp_our_ip (saved s)
      then Some s
      else let (defended, s1) = ServiceDefendIPv4Address is_sleep_proxy s in
        if defended then Some s1
        else dhcp_decline (service_publish_failure ipconfig_status_address_in_use_e (dhcp_lease_clear False s1)))"

datatype link_info = kLinkInfoNone | kLinkInfoNetworkChanged | kLinkInfoBSSIDChanged

definition network_changed :: "service \<Rightarrow> service" where
  "network_changed s = service_publish_failure ipconfig_status_network_changed_e (service_remove_address s)"

definition thread_link_changed :: "event_id \<Rightarrow> link_info \<Rightarrow> link_status \<Rightarrow> service \<Rightarrow> service option" where
  "thread_link_changed evid info ls s =
     check_link_with_status evid ls
       (if info = kLinkInfoNetworkChanged then linklocal_service_change False (network_changed s) else s)"

definition thread_sleep :: "service \<Rightarrow> service option" where
  "thread_sleep s = (if li_valid (lease s) then dhcp_lease_save True s else Some s)"

definition S_dhcp_cstate_is_bound_renew_or_rebind :: "dhcp_cstate \<Rightarrow> bool" where
  "S_dhcp_cstate_is_bound_renew_or_rebind state \<longleftrightarrow>
     state = dhcp_cstate_bound_e \<or> state = dhcp_cstate_renew_e \<or> state = dhcp_cstate_rebind_e"

definition moved_while_asleep :: "link_info \<Rightarrow> link_status \<Rightarrow> service \<Rightarrow> bool" where
  "moved_while_asleep info ls s \<longleftrightarrow>
     link_status_is_inactive ls \<or> (ci_is_wireless (s_if s) \<and> info = kLinkInfoNetworkChanged) \<or>
     (\<not> ci_is_wireless (s_if s) \<and> \<not> lk_wake_on_same_network ls)"

definition wake_with_lease :: "link_info \<Rightarrow> service \<Rightarrow> service option" where
  "wake_with_lease info s =
     (if \<not> S_dhcp_cstate_is_bound_renew_or_rebind (dh_state (dh s)) \<or> \<not> ServiceIsPublished s \<or>
         dh_resolve_router_timed_out (dh s)
      then init_reboot_start (sp_our_ip (saved s)) s
      else
        let (arpinfo, s1) = (if info = kLinkInfoBSSIDChanged then service_populate_router_arpinfo s else (None, s)) in
        case arpinfo of
          Some i \<Rightarrow> check_router_start i s1
        | None \<Rightarrow> resume_renewal
            (S_time_in_future (now s1) (dh_renew_rebind_time (dh s1)) (G_wake_skew_secs (s_globals s1))) s1)"

definition thread_wake :: "link_info \<Rightarrow> link_status \<Rightarrow> service \<Rightarrow> service option" where
  "thread_wake info ls s =
     (if ServiceIsNetBoot s then Some s
      else if moved_while_asleep info ls s then check_link_with_status IFEventID_wake_e ls (network_changed s)
      else let (valid, s1) = dhcp_check_lease s in
        if \<not> valid then init_start s1 else wake_with_lease info s1)"

definition thread_bssid_changed :: "service \<Rightarrow> service option" where
  "thread_bssid_changed s =
     (if \<not> S_dhcp_cstate_is_bound_renew_or_rebind (dh_state (dh s)) \<or> \<not> ServiceIsPublished s then Some s
      else let (arpinfo, s1) = service_populate_router_arpinfo s in
        case arpinfo of None \<Rightarrow> Some s1 | Some i \<Rightarrow> check_router_start i s1)"

text \<open>\<open>DHCPLeaseListRemoveLeaseForWiFi\<close> without a network identifier.\<close>

definition thread_forget_ssid :: "string \<Rightarrow> service \<Rightarrow> service option" where
  "thread_forget_ssid ssid s =
     (let s1 = upd (dh_lease_list_update (\<lambda>ls. DHCPLeaseListRemoveLeaseForWiFi ls ssid None)) s in
      if li_ssid (lease s1) \<noteq> Some ssid then Some s1
      else do {
        s2 \<leftarrow> dhcp_release s1;
        Some (run [service_remove_address,
                   service_publish_failure ipconfig_status_lease_terminated_e,
                   free_options,
                   dhcp_lease_set_ssid None,
                   dhcp_lease_set_networkID None,
                   ServiceSetBusy False,
                   set_relative 0 (USECS_PER_SEC div 2) (T_check_link IFEventID_forget_ssid_e)] s2) })"

section \<open>Waking the system for a renewal (dhcp_handle_active_during_sleep)\<close>

text \<open>When to wake, 0 for never, and the leeway.\<close>

definition next_wake :: "service \<Rightarrow> absolute_time \<times> int" where
  "next_wake s =
     (let l = lease s; t2 = li_t2 l; renew_rebind_time = dh_renew_rebind_time (dh s);
          half = (\<lambda>a b. if a > b then trunc ((a - b) / 2) else 0)
      in if now s \<ge> li_expiration l then (0, 0)
         else if S_min_wake_ok s renew_rebind_time then (renew_rebind_time, half t2 renew_rebind_time)
         else if S_min_wake_ok s t2 then (t2, half (li_expiration l) t2)
         else if dh_allow_wake_with_short_lease (dh s) \<and> S_short_wake_ok s t2 then (t2, 0)
         else if S_min_wake_ok s (li_expiration l) then (now s + of_int (G_min_wake_interval_secs (s_globals s)), 0)
         else (0, 0))"

definition can_wake :: "bool \<Rightarrow> service \<Rightarrow> bool" where
  "can_wake requested s \<longleftrightarrow>
     requested \<and> ServiceGetActiveIPAddress s \<noteq> 0 \<and> li_valid (lease s) \<and> li_expiration (lease s) \<noteq> 0"

definition cancel_wake :: "service \<Rightarrow> service" where
  "cancel_wake s = (if dh_wake_time (dh s) \<noteq> 0 then act (CancelWake (dh_wake_time (dh s))) s else s)"

definition dhcp_handle_active_during_sleep :: "bool \<Rightarrow> bool \<Rightarrow> service \<Rightarrow> bool \<times> service" where
  "dhcp_handle_active_during_sleep requested supported s =
     (let (wake_time, leeway) = (if can_wake requested s then next_wake s else (0, 0));
          supported = (if can_wake requested s \<and> wake_time = 0 then False else supported)
      in if wake_time \<noteq> 0 then
           if wake_time = dh_wake_time (dh s) then (supported, s)
           else
             let (ok, s1) = try_call (cancel_wake s) in
             if ok then (supported, upd (dh_wake_time_update (\<lambda>_. wake_time)) (act (RequestWake wake_time leeway) s1))
             else (False, upd (dh_wake_time_update (\<lambda>_. 0)) s1)
         else (supported, upd (dh_wake_time_update (\<lambda>_. 0)) (cancel_wake s)))"

section \<open>Questions (dhcp.c)\<close>

record dhcp_info =
  in_pkt :: dhcp
  in_pkt_size :: int
  in_lease_start :: absolute_time
  in_lease_expiration :: absolute_time

definition get_dhcp_info :: "service \<Rightarrow> dhcp_info option" where
  "get_dhcp_info s =
     (if ServiceGetActiveIPAddress s = 0 \<or> sp_pkt_size (saved s) = 0 then None
      else Some \<lparr>in_pkt = sp_pkt (saved s), in_pkt_size = sp_pkt_size (saved s), in_lease_start = li_start (lease s),
                 in_lease_expiration = li_expiration (lease s)\<rparr>)"

text \<open>The summary: the state, and the lease or the seconds spent trying; the packet's description is text.\<close>

datatype summary =
    LeaseIsInfinite absolute_time | LeaseUntil absolute_time absolute_time | ElapsedTime int | NoLease

definition dhcp_provide_summary :: "service \<Rightarrow> dhcp_cstate \<times> summary" where
  "dhcp_provide_summary s =
     (let d = dh s; l = lease s in
      (dh_state d,
       if ServiceGetActiveIPAddress s \<noteq> 0 \<and> li_valid l then
         (if li_length l = DHCP_INFINITE_LEASE then LeaseIsInfinite (li_start l) else LeaseUntil (li_start l) (li_expiration l))
       else if dh_state d \<in> {dhcp_cstate_init_e, dhcp_cstate_select_e, dhcp_cstate_init_reboot_e} \<and>
               dh_trying_since_secs d \<noteq> 0 \<and> now s > dh_trying_since_secs d
       then ElapsedTime (trunc (now s - dh_trying_since_secs d))
       else NoLease))"

section \<open>The method (dhcp_thread, config_method_...)\<close>

datatype thread_event =
    StartEvent "u8 list option"
  | StopEvent
  | ChangeEvent "u8 list option"
  | ArpCollisionEvent in_addr bool
  | RenewEvent link_info link_status
  | LinkStatusChangedEvent link_info link_status
  | LinkTimerExpiredEvent
  | PowerOffEvent
  | SleepEvent
  | WakeEvent link_info link_status
  | GetDhcpInfoEvent
  | BssidChangedEvent
  | ActiveDuringSleepEvent bool bool
  | ForgetSsidEvent string
  | ProvideSummaryEvent

datatype thread_answer = NoAnswer | NeedsStop bool | DhcpInfo "dhcp_info option" | Supported bool | Summary "dhcp_cstate \<times> summary"

definition succeed :: "service option \<Rightarrow> (ipconfig_status \<times> thread_answer \<times> service) option" where
  "succeed r = map_option (\<lambda>s. (ipconfig_status_success_e, NoAnswer, s)) r"

definition plain :: "(ipconfig_status \<times> service) option \<Rightarrow> (ipconfig_status \<times> thread_answer \<times> service) option" where
  "plain r = map_option (\<lambda>(status, s). (status, NoAnswer, s)) r"

text \<open>Events that check whether the client is started, and those that follow its pointer.\<close>

definition if_started ::
  "service \<Rightarrow> (ipconfig_status \<times> thread_answer \<times> service) option \<Rightarrow> (ipconfig_status \<times> thread_answer \<times> service) option" where
  "if_started s r = (if s_private s then r else Some (ipconfig_status_internal_error_e, NoAnswer, s))"

definition must_be_started :: "service \<Rightarrow> 'a option \<Rightarrow> 'a option" where
  "must_be_started s r = (if s_private s then r else None)"

fun dhcp_thread :: "thread_event \<Rightarrow> service \<Rightarrow> (ipconfig_status \<times> thread_answer \<times> service) option" where
  "dhcp_thread (StartEvent client_id) s = plain (thread_start client_id s)"
| "dhcp_thread StopEvent s = plain (thread_stop s)"
| "dhcp_thread (ChangeEvent client_id) s =
     if_started s (Some (ipconfig_status_success_e, NeedsStop (thread_change client_id s), s))"
| "dhcp_thread (ArpCollisionEvent ip_addr is_sleep_proxy) s =
     if_started s (succeed (thread_arp_collision ip_addr is_sleep_proxy s))"
| "dhcp_thread (RenewEvent info ls) s = if_started s (succeed (thread_link_changed IFEventID_renew_e info ls s))"
| "dhcp_thread (LinkStatusChangedEvent info ls) s =
     if_started s (succeed (thread_link_changed IFEventID_link_status_changed_e info ls s))"
| "dhcp_thread LinkTimerExpiredEvent s = must_be_started s (succeed (Some (dhcp_inactive s)))"
| "dhcp_thread PowerOffEvent s = if_started s (succeed (thread_sleep s))"
| "dhcp_thread SleepEvent s = if_started s (succeed (thread_sleep s))"
| "dhcp_thread (WakeEvent info ls) s = must_be_started s (succeed (thread_wake info ls s))"
| "dhcp_thread GetDhcpInfoEvent s =
     must_be_started s (Some (ipconfig_status_success_e, DhcpInfo (get_dhcp_info s), s))"
| "dhcp_thread BssidChangedEvent s = must_be_started s (succeed (thread_bssid_changed s))"
| "dhcp_thread (ActiveDuringSleepEvent requested supported) s =
     must_be_started s (let (b, s') = dhcp_handle_active_during_sleep requested supported s
                        in Some (ipconfig_status_success_e, Supported b, s'))"
| "dhcp_thread (ForgetSsidEvent ssid) s = must_be_started s (succeed (thread_forget_ssid ssid s))"
| "dhcp_thread ProvideSummaryEvent s =
     must_be_started s (Some (ipconfig_status_success_e, Summary (dhcp_provide_summary s), s))"

text \<open>The daemon makes the client look for the router again when the link may have changed.\<close>

fun config_method :: "thread_event \<Rightarrow> service \<Rightarrow> (ipconfig_status \<times> thread_answer \<times> service) option" where
  "config_method (LinkStatusChangedEvent info ls) s =
     dhcp_thread (LinkStatusChangedEvent info ls) (service_router_clear_arp_verified s)"
| "config_method BssidChangedEvent s = dhcp_thread BssidChangedEvent (service_router_clear_arp_verified s)"
| "config_method (RenewEvent info ls) s = dhcp_thread (RenewEvent info ls) (service_router_clear_arp_verified s)"
| "config_method e s = dhcp_thread e s"

section \<open>Timers, callbacks, packets (timer.c, arp_session.c, bootp_session.c)\<close>

fun call_timer :: "dhcp_timer \<Rightarrow> service \<Rightarrow> service option" where
  "call_timer T_delayed_start s = dhcp_delayed_start s"
| "call_timer (T_init evid) s = (if evid = IFEventID_start_e then init_start s else init_timeout s)"
| "call_timer T_init_reboot s = init_reboot_timeout s"
| "call_timer T_select s = select_attempt s"
| "call_timer (T_renew_rebind evid) s = (if evid = IFEventID_start_e then renew_rebind_start s else renew_rebind_attempt s)"
| "call_timer T_wait s = dhcp_check_link IFEventID_start_e s"
| "call_timer (T_check_link evid) s = dhcp_check_link evid s"
| "call_timer T_resolve_router_retry s = Some (resolve_router_retry s)"

definition timer_fires :: "service \<Rightarrow> service option" where
  "timer_fires s =
     (let (func, tm) = timer_callout_process (dh_timer (dh s));
          s1 = upd (dh_timer_update (\<lambda>_. tm)) s
      in case func of None \<Rightarrow> Some s1 | Some f \<Rightarrow> call_timer f s1)"

fun call_arp :: "dhcp_arp_func \<Rightarrow> arp_result \<Rightarrow> service \<Rightarrow> service option" where
  "call_arp A_arp_router result s = arp_router_arp result s"
| "call_arp A_bound result s = bound_arp result s"
| "call_arp A_check_router result s = check_router_arp result s"
| "call_arp A_resolve_router result s = resolve_router_arp result s"

definition arp_delivers :: "service \<Rightarrow> service option" where
  "arp_delivers s = do {
     (func, result, x) \<leftarrow> arp_client_do_callback (arp_ctx_of s);
     call_arp func result (put_arp x s) }"

definition arp_reads :: "arp_read \<Rightarrow> service \<Rightarrow> service option" where
  "arp_reads r s = do {
     clients \<leftarrow> arp_if_session_read (s_world s) (s_arp_if s) r [dh_arp (dh s)];
     Some (upd (dh_arp_update (\<lambda>_. hd clients)) s) }"

fun call_receive :: "dhcp_receiver \<Rightarrow> bootp_receive_data \<Rightarrow> service \<Rightarrow> service option" where
  "call_receive R_init pkt s = init_data pkt s"
| "call_receive R_init_reboot pkt s = init_reboot_data pkt s"
| "call_receive R_select pkt s = select_data pkt s"
| "call_receive R_renew_rebind pkt s = renew_rebind_data pkt s"

definition sizeof_receive_buf :: nat where
  "sizeof_receive_buf = 1500"

text \<open>\<open>recvmsg\<close> cuts a datagram to the buffer; \<open>junk\<close> is what the rest of the buffer holds.\<close>

definition bootp_session_deliver :: "u8 list \<Rightarrow> u8 list \<Rightarrow> service \<Rightarrow> service option" where
  "bootp_session_deliver datagram junk s =
     (let n = min (length datagram) sizeof_receive_buf;
          receive_buf = take n datagram @ take (sizeof_receive_buf - n) junk
      in if int n < sizeof_dhcp then Some s
         else do {
           pkt \<leftarrow> packet_of_bytes receive_buf;
           options \<leftarrow> parsed_options pkt (int n);
           case dh_receive (dh s) of
             None \<Rightarrow> Some s
           | Some f \<Rightarrow> call_receive f \<lparr>rd_data = pkt, rd_size = int n, rd_options = options\<rparr> s })"

section \<open>Steps\<close>

text \<open>
  What happens to a client.  A timer that is due may fire late.  The clock may be set, settings of the
  interface may change, time passes.
\<close>

datatype stimulus =
    Method thread_event
  | TimerFires
  | ArpTimerFires
  | ArpDelivers
  | ArpReads arp_read
  | Receives "u8 list" "u8 list"
  | TimePasses rat
  | ClockSet rat
  | IfChanges client_if

fun client_step :: "stimulus \<Rightarrow> service \<Rightarrow> service option" where
  "client_step (Method e) s = map_option (snd \<circ> snd) (config_method e s)"
| "client_step TimerFires s = timer_fires s"
| "client_step ArpTimerFires s = arp_do_opt arp_timer_fires s"
| "client_step ArpDelivers s = arp_delivers s"
| "client_step (ArpReads r) s = arp_reads r s"
| "client_step (Receives datagram junk) s = bootp_session_deliver datagram junk s"
| "client_step (TimePasses t) s = Some (s\<lparr>s_world := (s_world s)\<lparr>w_mono := w_mono (s_world s) + t\<rparr>\<rparr>)"
| "client_step (ClockSet t) s = Some (s\<lparr>s_world := (s_world s)\<lparr>w_offset := t, w_clock_set := True\<rparr>\<rparr>)"
| "client_step (IfChanges i) s = Some (s\<lparr>s_if := i\<rparr>)"

text \<open>When it can happen.\<close>

fun enabled :: "stimulus \<Rightarrow> service \<Rightarrow> bool" where
  "enabled (Method e) s \<longleftrightarrow> s_private s \<or> e = StopEvent \<or> (\<exists>cid. e = StartEvent cid)"
| "enabled TimerFires s \<longleftrightarrow>
     s_private s \<and> tm_enabled (dh_timer (dh s)) \<and> tm_deadline (dh_timer (dh s)) \<le> w_mono (s_world s)"
| "enabled ArpTimerFires s \<longleftrightarrow>
     s_private s \<and> tm_enabled (ac_timer (dh_arp (dh s))) \<and> tm_deadline (ac_timer (dh_arp (dh s))) \<le> w_mono (s_world s)"
| "enabled ArpDelivers s \<longleftrightarrow> s_private s \<and> ac_callback_source (dh_arp (dh s))"
| "enabled (ArpReads r) s \<longleftrightarrow> s_private s \<and> is_read_fd (s_arp_if s)"
| "enabled (Receives datagram junk) s \<longleftrightarrow> s_private s \<and> length junk = sizeof_receive_buf"
| "enabled (TimePasses t) s \<longleftrightarrow> 0 \<le> t"
| "enabled (ClockSet t) s \<longleftrightarrow> True"
| "enabled (IfChanges i) s \<longleftrightarrow> length (ci_link_address i) = length (ci_link_address (s_if s)) \<and> ci_arptype i = ci_arptype (s_if s)"

text \<open>
  What is assumed of it besides: a client is started on a link that ARP knows, a datagram leaves the last
  four bytes of the receive buffer free, an ARP packet is as long as the interface's addresses need.
\<close>

fun foreseen :: "stimulus \<Rightarrow> service \<Rightarrow> bool" where
  "foreseen (Method (StartEvent cid)) s \<longleftrightarrow> ci_link_type (s_if s) \<in> {IFT_ETHER, IFT_L2VLAN, IFT_IEEE8023ADLAG}"
| "foreseen (ArpReads (ReadPackets ps)) s \<longleftrightarrow> list_all (arp_packet_ok (s_arp_if s)) ps"
| "foreseen (Receives datagram junk) s \<longleftrightarrow> length datagram + 4 \<le> sizeof_receive_buf"
| "foreseen e s \<longleftrightarrow> True"

inductive client_steps :: "service \<Rightarrow> stimulus list \<Rightarrow> service \<Rightarrow> bool" where
  no_step: "client_steps s [] s"
| more_steps:
    "client_steps s es s1 \<Longrightarrow> enabled e s1 \<Longrightarrow> foreseen e s1 \<Longrightarrow> client_step e s1 = Some s2 \<Longrightarrow> client_steps s (es @ [e]) s2"

end
