(* ===== verification/ClientFacts.thy ===== *)
theory ClientFacts
  imports ClientDataFacts DhcpThread
begin

text \<open>
  Every step of the DHCP client returns: whatever timers, packets, ARP results and events of the daemon
  come, in any order, the client stays inside its buffers, follows no null pointer and ends.

  The invariant is \<open>client_ok\<close> (the client's data and its ARP client are well-formed) with \<open>pending_ok\<close> (what is
  pending and uses the request finds one).
\<close>

section \<open>The invariant\<close>

definition saved_ok :: "saved_pkt \<Rightarrow> bool" where
  "saved_ok sp \<longleftrightarrow> pkt_ok 1264 (sp_pkt sp) \<and> dhcpol_ok (sp_options sp) \<and> 0 \<le> sp_pkt_size sp \<and> sp_pkt_size sp \<le> 1500"

definition lease_ok :: "dhcp_lease \<Rightarrow> bool" where
  "lease_ok l \<longleftrightarrow> length (ls_router_hwaddr l) = 16 \<and> ls_router_hwaddr_length l \<le> 16"

definition client_ok :: "service \<Rightarrow> bool" where
  "client_ok s \<longleftrightarrow>
     s_private s \<and> globals_ok (s_globals s) \<and> length (ci_link_address (s_if s)) \<le> 16 \<and> length (ri_hwaddr (router s)) = 16 \<and>
     arp_client_ok (dh_arp (dh s)) \<and> arp_if_ok (s_arp_if s) (ac_fd_open (dh_arp (dh s))) \<and>
     pkt_ok 312 (dh_txbuf (dh s)) \<and> saved_ok (dh_saved (dh s)) \<and> list_all lease_ok (dh_lease_list (dh s))"

text \<open>The functions of the timer that send the request that was built before.\<close>

fun needs_request :: "dhcp_timer \<Rightarrow> bool" where
  "needs_request (T_init evid) = (evid \<noteq> IFEventID_start_e)"
| "needs_request T_init_reboot = True"
| "needs_request T_select = True"
| "needs_request (T_renew_rebind evid) = (evid \<noteq> IFEventID_start_e)"
| "needs_request _ = False"

definition pending_ok :: "service \<Rightarrow> bool" where
  "pending_ok s \<longleftrightarrow>
     dh_request (dh s) \<or>
     (\<not> (\<exists>f. tm_enabled (dh_timer (dh s)) \<and> tm_func (dh_timer (dh s)) = Some f \<and> needs_request f) \<and>
      ac_func (dh_arp (dh s)) \<noteq> Some A_arp_router \<and> dh_receive (dh s) = None)"

definition good :: "service \<Rightarrow> bool" where
  "good s \<longleftrightarrow> client_ok s \<and> pending_ok s"

text \<open>Nothing is pending.\<close>

definition resting :: "service \<Rightarrow> bool" where
  "resting s \<longleftrightarrow> \<not> tm_enabled (dh_timer (dh s)) \<and> ac_func (dh_arp (dh s)) = None \<and> dh_receive (dh s) = None"

lemma resting_pending: "resting s \<Longrightarrow> pending_ok s"
  by (simp add: resting_def pending_ok_def)

lemma request_pending: "dh_request (dh s) \<Longrightarrow> pending_ok s"
  by (simp add: pending_ok_def)

section \<open>What most operations leave alone\<close>

definition view :: "service \<Rightarrow> bool \<times> client_globals \<times> client_if \<times> arp_if_session \<times> nat \<times> service_dhcp" where
  "view s = (s_private s, s_globals s, s_if s, s_arp_if s, length (ri_hwaddr (router s)), s_dhcp s)"

lemma viewD:
  assumes "view s = view t"
  shows "s_private s = s_private t" "s_globals s = s_globals t" "s_if s = s_if t" "s_arp_if s = s_arp_if t"
    "length (ri_hwaddr (router s)) = length (ri_hwaddr (router t))" "s_dhcp s = s_dhcp t"
  using assms by (simp_all add: view_def)

lemma view_client_ok: "view s = view t \<Longrightarrow> client_ok s = client_ok t"
  by (simp add: client_ok_def viewD [of s t])

lemma view_router [simp]:
  "view (service_router_flags_set_specific f s) = view s" "view (service_router_flags_clear_specific f s) = view s"
  "view (service_router_set_all_valid s) = view s" "view (service_router_clear s) = view s"
  "view (service_router_clear_arp_verified s) = view s" "view (service_router_set_iaddr ip s) = view s"
  by (simp_all add: view_def service_router_flags_set_specific_def service_router_flags_clear_specific_def
      service_router_set_all_valid_def service_router_clear_def service_router_clear_arp_verified_def
      service_router_set_iaddr_def upd_router_def)

lemma view_act [simp]: "view (act a s) = view s"
  by (simp add: act_def view_def)

lemma view_publish [simp]:
  "view (ServiceSetStatus st s) = view s" "view (ServiceSetBusy b s) = view s" "view (ServiceGenerateFailureSymptom s) = view s"
  "view (ServiceSetActiveDuringSleepNeedsAttention s) = view s" "view (linklocal_set_needs_attention s) = view s"
  "view (linklocal_service_change b s) = view s" "view (service_enable_autoaddr s) = view s"
  "view (service_disable_autoaddr s) = view s" "view (ServicePublishSuccessIPv4 p n a e s) = view s"
  "view (service_publish_failure_sync st b s) = view s" "view (service_publish_failure st s) = view s"
  "view (dhcp_publish_success s) = view s"
  by (simp_all add: ServiceSetStatus_def ServiceSetBusy_def ServiceGenerateFailureSymptom_def
      ServiceSetActiveDuringSleepNeedsAttention_def linklocal_set_needs_attention_def linklocal_service_change_def
      service_enable_autoaddr_def service_disable_autoaddr_def ServicePublishSuccessIPv4_def
      service_publish_failure_sync_def service_publish_failure_def dhcp_publish_success_def view_def act_def)

lemma view_address [simp]:
  "view (remove_ip ip s) = view s" "view (service_remove_address s) = view s" "view (remove_unused_ip ip s) = view s"
  "view (service_set_address ip m b s) = view s"
  by (simp_all add: remove_ip_def service_remove_address_def remove_unused_ip_def service_set_address_def
      linklocal_set_needs_attention_def act_def view_def Let_def)

lemma view_try_call: "try_call s = (ok, t) \<Longrightarrow> view t = view s"
  by (auto simp: try_call_def view_def split: prod.splits)

lemma view_defend: "ServiceDefendIPv4Address b s = (ok, t) \<Longrightarrow> view t = view s"
  by (auto simp: ServiceDefendIPv4Address_def view_def act_def try_call_def Let_def split: if_splits prod.splits)

lemma view_more [simp]:
  "view (stop_linklocal s) = view s" "view (set_bound_address m s) = view s" "view (init_give_up_on_router s) = view s"
  "view (init_reboot_give_up_on_router s) = view s" "view (network_changed s) = view s"
  by (simp_all add: stop_linklocal_def set_bound_address_def init_give_up_on_router_def
      init_reboot_give_up_on_router_def network_changed_def Let_def)

lemmas view_rules = view_router view_act view_publish view_address view_more

lemmas view_fields [simp] =
  viewD [OF view_router(1)] viewD [OF view_router(2)] viewD [OF view_router(3)] viewD [OF view_router(4)]
  viewD [OF view_router(5)] viewD [OF view_router(6)] viewD [OF view_act]
  viewD [OF view_publish(1)] viewD [OF view_publish(2)] viewD [OF view_publish(3)] viewD [OF view_publish(4)]
  viewD [OF view_publish(5)] viewD [OF view_publish(6)] viewD [OF view_publish(7)] viewD [OF view_publish(8)]
  viewD [OF view_publish(9)] viewD [OF view_publish(10)] viewD [OF view_publish(11)] viewD [OF view_publish(12)]
  viewD [OF view_address(1)] viewD [OF view_address(2)] viewD [OF view_address(3)] viewD [OF view_address(4)]
  viewD [OF view_more(1)] viewD [OF view_more(2)] viewD [OF view_more(3)] viewD [OF view_more(4)] viewD [OF view_more(5)]

lemma client_ok_view [simp]:
  "client_ok (act a s) = client_ok s" "client_ok (service_remove_address s) = client_ok s"
  "client_ok (service_router_clear s) = client_ok s" "client_ok (service_publish_failure st s) = client_ok s"
  "client_ok (ServiceSetBusy b s) = client_ok s" "client_ok (service_disable_autoaddr s) = client_ok s"
  by (rule view_client_ok, simp)+

lemma client_ok_world [simp]: "client_ok (s\<lparr>s_world := w\<rparr>) = client_ok s"
  by (simp add: client_ok_def)

section \<open>The ARP client\<close>

lemma client_ok_arp: "client_ok s \<Longrightarrow> arp_ok (arp_ctx_of s)"
  by (simp add: client_ok_def arp_ctx_of_def arp_ok_def)

lemma put_arp_fields [simp]:
  "dh (put_arp x s) = (dh s)\<lparr>dh_arp := x_client x\<rparr>" "s_if (put_arp x s) = s_if s" "s_globals (put_arp x s) = s_globals s"
  "s_v4 (put_arp x s) = s_v4 s" "s_private (put_arp x s) = s_private s" "s_arp_if (put_arp x s) = x_if x"
  "s_status (put_arp x s) = s_status s" "s_ready (put_arp x s) = s_ready s" "s_world (put_arp x s) = x_world x"
  by (simp_all add: put_arp_def)

lemma put_arp_ok: "client_ok s \<Longrightarrow> arp_ok x \<Longrightarrow> client_ok (put_arp x s)"
  by (simp add: client_ok_def arp_ok_def)

text \<open>A command of the ARP client was started.\<close>

definition arp_started :: "dhcp_arp_func \<Rightarrow> service \<Rightarrow> service \<Rightarrow> bool" where
  "arp_started f s t \<longleftrightarrow> client_ok t \<and> (\<exists>c. dh t = (dh s)\<lparr>dh_arp := c\<rparr> \<and> ac_func c = Some f)"

lemma arp_do_started:
  assumes "client_ok s" "\<And>x. arp_ok x \<Longrightarrow> arp_ok (f x) \<and> ac_func (x_client (f x)) = Some a"
  shows "arp_started a s (arp_do f s)"
  using assms(2) [OF client_ok_arp [OF assms(1)]] put_arp_ok [OF assms(1)]
  by (auto simp: arp_started_def arp_do_def)

lemma probe_started: "client_ok s \<Longrightarrow> arp_started f s (arp_do (arp_client_probe f a b) s)"
  by (erule arp_do_started) (erule probe_ok)

lemma announce_started: "client_ok s \<Longrightarrow> arp_started f s (arp_do (arp_client_announce f a b skip) s)"
  by (erule arp_do_started) (erule announce_ok)

lemma resolve_started: "client_ok s \<Longrightarrow> arp_started f s (arp_do (arp_client_resolve f a b secs) s)"
  by (erule arp_do_started) (erule resolve_ok)

lemma detect_started:
  assumes "client_ok s" "list_all (\<lambda>i. length (ai_target_hardware i) = 16) infos"
  shows "returns (arp_started f s) (arp_do_opt (arp_client_detect f infos) s)"
proof -
  obtain y where "arp_client_detect f infos (arp_ctx_of s) = Some y" "arp_ok y" "ac_func (x_client y) = Some f"
    using detect_ok [OF client_ok_arp [OF assms(1)] assms(2), of f] by (auto simp: returns_def)
  then show ?thesis using put_arp_ok [OF assms(1)] by (auto simp: arp_do_opt_def arp_started_def)
qed

lemma cancel_pending:
  assumes "client_ok s"
  shows "client_ok (dhcp_cancel_pending_events s)" "resting (dhcp_cancel_pending_events s)"
proof -
  let ?s = "bootp_client_disable_receive (upd (\<lambda>d. d\<lparr>dh_timer := timer_cancel (s_world s) (dh_timer d)\<rparr>) s)"
  have ok: "client_ok ?s" using assms by (simp add: client_ok_def bootp_client_disable_receive_def)
  note c = cancel_ok [OF client_ok_arp [OF ok]]
  show "client_ok (dhcp_cancel_pending_events s)"
    using put_arp_ok [OF ok c(1)] by (simp add: dhcp_cancel_pending_events_def arp_do_def)
  show "resting (dhcp_cancel_pending_events s)"
    using c(2) by (simp add: dhcp_cancel_pending_events_def arp_do_def resting_def bootp_client_disable_receive_def)
qed

lemma cancel_pending_fields [simp]:
  "dh_request (dh (dhcp_cancel_pending_events s)) = dh_request (dh s)"
  "dh_state (dh (dhcp_cancel_pending_events s)) = dh_state (dh s)"
  "dh_saved (dh (dhcp_cancel_pending_events s)) = dh_saved (dh s)"
  "dh_lease (dh (dhcp_cancel_pending_events s)) = dh_lease (dh s)"
  "dh_lease_list (dh (dhcp_cancel_pending_events s)) = dh_lease_list (dh s)"
  "dh_try (dh (dhcp_cancel_pending_events s)) = dh_try (dh s)"
  "dh_txbuf (dh (dhcp_cancel_pending_events s)) = dh_txbuf (dh s)"
  "dh_gathering (dh (dhcp_cancel_pending_events s)) = dh_gathering (dh s)"
  "s_if (dhcp_cancel_pending_events s) = s_if s" "s_globals (dhcp_cancel_pending_events s) = s_globals s"
  "s_v4 (dhcp_cancel_pending_events s) = s_v4 s" "s_private (dhcp_cancel_pending_events s) = s_private s"
  by (simp_all add: dhcp_cancel_pending_events_def arp_do_def bootp_client_disable_receive_def)

section \<open>Operations that change the client's data\<close>

text \<open>\<open>t\<close> is well-formed and has the pending things, the request and the state of \<open>s\<close>.\<close>

definition keeps :: "service \<Rightarrow> service \<Rightarrow> bool" where
  "keeps s t \<longleftrightarrow> client_ok t \<and> dh_request (dh t) = dh_request (dh s) \<and> dh_timer (dh t) = dh_timer (dh s) \<and>
     dh_arp (dh t) = dh_arp (dh s) \<and> dh_receive (dh t) = dh_receive (dh s) \<and> dh_state (dh t) = dh_state (dh s)"

lemma keeps_refl: "client_ok s \<Longrightarrow> keeps s s"
  by (simp add: keeps_def)

lemma keepsD:
  "keeps s t \<Longrightarrow> client_ok t" "keeps s t \<Longrightarrow> resting t = resting s" "keeps s t \<Longrightarrow> pending_ok t = pending_ok s"
  "keeps s t \<Longrightarrow> dh_request (dh t) = dh_request (dh s)" "keeps s t \<Longrightarrow> dh_state (dh t) = dh_state (dh s)"
  by (simp_all add: keeps_def resting_def pending_ok_def)

lemma keeps_trans: "keeps s t \<Longrightarrow> keeps t u \<Longrightarrow> keeps s u"
  by (simp add: keeps_def)

lemma keeps_view: "view u = view t \<Longrightarrow> keeps s u = keeps s t"
  by (simp add: keeps_def view_client_ok [of u t] viewD(6) [of u t])

text \<open>What \<open>client_ok\<close> does not look at.\<close>

lemma client_ok_upd [simp]:
  "client_ok (set_relative a b f s) = client_ok s" "client_ok (dhcp_set_state st s) = client_ok s"
  "client_ok (upd (dh_lease_update l) s) = client_ok s" "client_ok (dhcp_invalidate_lease s) = client_ok s"
  "client_ok (dhcp_lease_set_ssid x s) = client_ok s" "client_ok (dhcp_lease_set_networkID x s) = client_ok s"
  "client_ok (bootp_client_enable_receive r s) = client_ok s" "client_ok (upd_try n s) = client_ok s"
  "client_ok (dhcp_set_lease_params t ts s) = client_ok s" "client_ok (dhcp_adjust_lease_info t s) = client_ok s"
  "client_ok (allow_warning s) = client_ok s" "client_ok (start_trying s) = client_ok s"
  by (simp_all add: client_ok_def set_relative_def dhcp_set_state_def dhcp_invalidate_lease_def dhcp_lease_set_ssid_def
      dhcp_lease_set_networkID_def bootp_client_enable_receive_def upd_try_def dhcp_set_lease_params_def
      dhcp_adjust_lease_info_def allow_warning_def start_trying_def split: prod.split)

lemmas upd_defs = set_relative_def dhcp_set_state_def dhcp_invalidate_lease_def dhcp_lease_set_ssid_def
  dhcp_lease_set_networkID_def bootp_client_enable_receive_def upd_try_def dhcp_adjust_lease_info_def
  allow_warning_def start_trying_def

lemma keeps_upd [simp]:
  "keeps s (upd (dh_lease_update l) t) = keeps s t" "keeps s (dhcp_invalidate_lease t) = keeps s t"
  "keeps s (dhcp_lease_set_ssid x t) = keeps s t" "keeps s (dhcp_lease_set_networkID x t) = keeps s t"
  "keeps s (upd_try n t) = keeps s t"
  "keeps s (dhcp_set_lease_params a ts t) = keeps s t" "keeps s (dhcp_adjust_lease_info a t) = keeps s t"
  "keeps s (allow_warning t) = keeps s t" "keeps s (start_trying t) = keeps s t"
  by (simp_all add: keeps_def) (simp_all add: upd_defs dhcp_set_lease_params_def split: prod.split)

lemma keeps_neutral [simp]:
  "keeps s (act a t) = keeps s t" "keeps s (service_remove_address t) = keeps s t"
  "keeps s (service_router_clear t) = keeps s t" "keeps s (service_publish_failure st t) = keeps s t"
  "keeps s (ServiceSetBusy b t) = keeps s t" "keeps s (service_disable_autoaddr t) = keeps s t"
  "keeps s (service_enable_autoaddr t) = keeps s t" "keeps s (remove_unused_ip ip t) = keeps s t"
  "keeps s (service_router_set_iaddr ip t) = keeps s t" "keeps s (service_router_flags_set_specific fl t) = keeps s t"
  "keeps s (service_router_set_all_valid t) = keeps s t" "keeps s (dhcp_publish_success t) = keeps s t"
  "keeps s (service_set_address ip m bc t) = keeps s t" "keeps s (stop_linklocal t) = keeps s t"
  "keeps s (set_bound_address m t) = keeps s t"
  by (rule keeps_view, simp)+

lemma set_relative_good:
  "client_ok s \<Longrightarrow> resting s \<or> dh_request (dh s) \<Longrightarrow> \<not> needs_request f \<or> dh_request (dh s) \<Longrightarrow> good (set_relative a b f s)"
  by (auto simp: good_def) (auto simp: pending_ok_def resting_def set_relative_def)

lemma resting_good: "client_ok s \<Longrightarrow> resting s \<Longrightarrow> good s"
  by (simp add: good_def resting_pending)

lemma resting_view: "view s = view t \<Longrightarrow> resting s = resting t"
  by (simp add: resting_def viewD(6) [of s t])

lemma good_view: "view s = view t \<Longrightarrow> good s = good t"
  by (simp add: good_def pending_ok_def viewD(6) [of s t] view_client_ok [of s t])

lemma good_neutral [simp]:
  "good (act a t) = good t" "good (service_remove_address t) = good t"
  "good (service_router_clear t) = good t" "good (service_publish_failure st t) = good t"
  "good (ServiceSetBusy b t) = good t" "good (service_disable_autoaddr t) = good t"
  by (rule good_view, simp)+

lemma resting_neutral [simp]:
  "resting (act a t) = resting t" "resting (service_remove_address t) = resting t"
  "resting (service_router_clear t) = resting t" "resting (service_publish_failure st t) = resting t"
  "resting (ServiceSetBusy b t) = resting t" "resting (service_disable_autoaddr t) = resting t"
  by (rule resting_view, simp)+

lemma dhcpol_free_ok [simp]: "dhcpol_ok (dhcpol_free l)"
  by (simp add: dhcpol_free_def dhcpol_ok_def ptrlist_free_def)

lemma free_options_ok [simp]: "client_ok s \<Longrightarrow> client_ok (free_options s)" "resting (free_options s) = resting s"
  "dh_request (dh (free_options s)) = dh_request (dh s)"
  by (simp_all add: free_options_def client_ok_def saved_ok_def resting_def)

lemma failed_ok:
  assumes "client_ok s"
  shows "client_ok (dhcp_failed st s)" "resting (dhcp_failed st s)" "dh_state (dh (dhcp_failed st s)) = dhcp_cstate_inactive_e"
  using cancel_pending [OF assms]
  by (simp_all add: dhcp_failed_def client_ok_def resting_def free_options_def dhcp_set_state_def saved_ok_def)

lemma failed_good: "client_ok s \<Longrightarrow> good (dhcp_failed st s)"
  by (simp add: failed_ok resting_good)

lemma inactive_good:
  assumes "client_ok s"
  shows "good (dhcp_inactive s)" "resting (dhcp_inactive s)"
proof -
  show q: "resting (dhcp_inactive s)" using cancel_pending(2) [OF assms]
    by (simp add: dhcp_inactive_def resting_def dhcp_set_state_def)
  have "client_ok (dhcp_inactive s)" using cancel_pending(1) [OF assms]
    by (simp add: dhcp_inactive_def client_ok_def dhcp_set_state_def)
  with q show "good (dhcp_inactive s)" by (simp add: resting_good)
qed

section \<open>Leases\<close>

lemma stale_loop_subset: "set (stale_loop n i ls) \<subseteq> set ls"
proof (induction n i ls rule: stale_loop.induct)
  case (1 n i ls)
  have "set (remove_at i ls) \<subseteq> set ls" by (auto simp: remove_at_def dest: in_set_takeD in_set_dropD)
  with 1 show ?case by (subst stale_loop.simps) auto
qed

lemma remove_stale_ok: "list_all lease_ok ls \<Longrightarrow> list_all lease_ok (DHCPLeaseListRemoveStaleLeases n ls)"
  using stale_loop_subset [of n 0 ls] by (auto simp: DHCPLeaseListRemoveStaleLeases_def list_all_iff)

lemma remove_at_ok: "list_all P ls \<Longrightarrow> list_all P (remove_at i ls)"
  by (auto simp: remove_at_def list_all_iff dest: in_set_takeD in_set_dropD)

lemma should_be_removed_ok: "DHCPLeaseShouldBeRemoved e new p = (r, e') \<Longrightarrow> lease_ok e' = lease_ok e"
  by (auto simp: DHCPLeaseShouldBeRemoved_def lease_ok_def Let_def split: if_splits)

lemma update_loop_ok: "list_all lease_ok ls \<Longrightarrow> list_all lease_ok (update_loop new p i ls)"
proof (induction new p i ls rule: update_loop.induct)
  case (1 new p i ls)
  show ?case
  proof (cases "i < length ls")
    case True
    obtain r e where re: "DHCPLeaseShouldBeRemoved (ls ! i) new p = (r, e)" by fastforce
    then have "lease_ok e" using should_be_removed_ok [OF re] True "1.prems" by (simp add: list_all_length)
    then have "list_all lease_ok (ls[i := e])" using "1.prems" by (auto simp: list_all_iff dest!: subsetD [OF set_update_subset_insert])
    with 1 True re show ?thesis by (subst update_loop.simps) (simp add: remove_at_ok)
  next
    case False
    with "1.prems" show ?thesis by (subst update_loop.simps) simp
  qed
qed

lemma replaced_lease_ok:
  "list_all lease_ok ls \<Longrightarrow> lease_ok l \<Longrightarrow> list_all lease_ok (DHCPLeaseListUpdateLease ls l)"
  by (simp add: DHCPLeaseListUpdateLease_def update_loop_ok)

lemma remove_wifi_ok: "list_all lease_ok ls \<Longrightarrow> list_all lease_ok (DHCPLeaseListRemoveLeaseForWiFi ls x y)"
  by (induction ls x y rule: DHCPLeaseListRemoveLeaseForWiFi.induct)
    (subst DHCPLeaseListRemoveLeaseForWiFi.simps, auto split: option.split intro: remove_at_ok)

lemma find_index_less: "find_index P xs = Some i \<Longrightarrow> i < length xs \<and> P (xs ! i)"
  by (induction xs arbitrary: i) (auto split: if_splits)

lemma hwaddr_field_ok:
  "n \<le> length b \<Longrightarrow> returns (\<lambda>(h, m). length h = 16 \<and> m \<le> 16) (hwaddr_field b n)"
  by (auto simp: hwaddr_field_def MAX_LINK_ADDR_LEN_def rdn_def Let_def)

lemma lease_create_ok:
  assumes "pkt_ok 1264 p" "0 \<le> n" "n \<le> 1500" "\<And>b m. hw = Some (b, m) \<Longrightarrow> m \<le> length b"
  shows "returns lease_ok (DHCPLeaseCreate ip r hw t len p n ssid nid)"
proof -
  obtain b where b: "bytes_of_packet p n = Some b"
    using bytes_of_packet_ok [OF assms(1,2)] assms(3) by (auto simp: returns_def)
  have "returns (\<lambda>(h, m). length h = 16 \<and> m \<le> 16) (case hw of None \<Rightarrow> Some (replicate MAX_LINK_ADDR_LEN 0, 0) | Some (b, n) \<Rightarrow> hwaddr_field b n)"
    using assms(4) by (auto simp: MAX_LINK_ADDR_LEN_def split: option.split intro: hwaddr_field_ok)
  then show ?thesis unfolding DHCPLeaseCreate_def b bind.bind_lunit
    by (rule returns_bind) (auto simp: lease_ok_def)
qed

lemma write_leases_keeps: "client_ok s \<Longrightarrow> keeps s (write_leases s)"
  by (auto simp: write_leases_def DHCPLeaseListWrite_def Let_def keeps_def client_ok_def try_call_def remove_stale_ok
      split: prod.split)

lemma known_router_ok:
  "client_ok s \<Longrightarrow> snd (known_router s) = Some (b, m) \<Longrightarrow> m \<le> length b"
  by (auto simp: known_router_def client_ok_def split: if_splits)

lemma lease_save_keeps:
  assumes "client_ok s"
  shows "returns (keeps s) (dhcp_lease_save w s)"
proof -
  obtain r hw where kr: "known_router s = (r, hw)" by fastforce
  have "saved_ok (saved s)" using assms by (simp add: client_ok_def)
  then obtain l where l: "DHCPLeaseCreate (sp_our_ip (saved s)) r hw (li_start (lease s)) (li_length (lease s))
           (sp_pkt (saved s)) (sp_pkt_size (saved s)) (li_ssid (lease s)) (li_networkID (lease s)) = Some l" "lease_ok l"
    using lease_create_ok [of "sp_pkt (saved s)" "sp_pkt_size (saved s)" hw] known_router_ok [OF assms] kr
    by (fastforce simp: returns_def saved_ok_def)
  let ?s = "upd (dh_lease_list_update (\<lambda>ls. DHCPLeaseListUpdateLease ls l)) s"
  have k: "keeps s ?s" using assms l(2) by (simp add: keeps_def client_ok_def replaced_lease_ok)
  from keeps_trans [OF this write_leases_keeps [OF keepsD(1) [OF this]]] k l kr show ?thesis
    by (simp add: dhcp_lease_save_def Let_def)
qed

lemma lease_clear_keeps:
  assumes "client_ok s"
  shows "keeps s (dhcp_lease_clear nak s)"
proof -
  have rm: "keeps s (upd (dh_lease_list_update (\<lambda>ls. DHCPLeaseListRemoveLease ls a b c n)) s)" for a b c n
    using assms by (auto simp: keeps_def client_ok_def DHCPLeaseListRemoveLease_def remove_at_ok split: option.split)
  have mark: "keeps s (upd (dh_lease_list_update (\<lambda>ls. ls[i := DHCPLeaseSetNAK True (ls ! i)])) s)"
    if "DHCPLeaseListFindLease (dh_lease_list (dh s)) a b c n = Some i" for a b c n i
  proof -
    have "i < length (dh_lease_list (dh s))" using that find_index_less by (auto simp: DHCPLeaseListFindLease_def)
    then show ?thesis using assms
      by (auto simp: keeps_def client_ok_def list_all_length nth_list_update DHCPLeaseSetNAK_def lease_ok_def)
  qed
  show ?thesis
    using keeps_trans [OF rm write_leases_keeps [OF keepsD(1) [OF rm]]] mark keeps_refl [OF assms]
    by (auto simp: dhcp_lease_clear_def Let_def split: prod.split option.split)
qed

end
