(* ===== verification/ClientSafety.thy ===== *)
theory ClientSafety
  imports ClientFacts
begin

text \<open>
  Every handler of the DHCP client returns and keeps the invariant of theory ClientFacts; then every step
  does.
\<close>

section \<open>The saved packet and the lease\<close>

lemma keeps_left [simp]:
  "keeps (act a s) t = keeps s t" "keeps (service_remove_address s) t = keeps s t"
  "keeps (service_router_clear s) t = keeps s t" "keeps (service_publish_failure st s) t = keeps s t"
  "keeps (ServiceSetBusy b s) t = keeps s t" "keeps (service_disable_autoaddr s) t = keeps s t"
  "keeps (service_enable_autoaddr s) t = keeps s t" "keeps (remove_unused_ip ip s) t = keeps s t"
  "keeps (service_router_set_iaddr ip s) t = keeps s t" "keeps (service_router_flags_set_specific fl s) t = keeps s t"
  "keeps (service_router_set_all_valid s) t = keeps s t" "keeps (dhcp_publish_success s) t = keeps s t"
  "keeps (service_set_address ip m bc s) t = keeps s t" "keeps (stop_linklocal s) t = keeps s t"
  "keeps (set_bound_address m s) t = keeps s t"
  by (simp_all add: keeps_def)

lemma keeps_left_upd [simp]:
  "keeps (upd (dh_lease_update l) s) t = keeps s t" "keeps (dhcp_invalidate_lease s) t = keeps s t"
  "keeps (dhcp_lease_set_ssid x s) t = keeps s t" "keeps (dhcp_lease_set_networkID x s) t = keeps s t"
  "keeps (upd_try n s) t = keeps s t"
  "keeps (dhcp_set_lease_params a ts s) t = keeps s t" "keeps (dhcp_adjust_lease_info a s) t = keeps s t"
  "keeps (allow_warning s) t = keeps s t" "keeps (start_trying s) t = keeps s t"
  by (simp_all add: keeps_def) (simp_all add: upd_defs dhcp_set_lease_params_def split: prod.split)

lemma keeps_saved [simp]:
  "keeps s (upd_saved (\<lambda>sp. sp\<lparr>sp_our_ip := a, sp_server_ip := f sp\<rparr>) t) = keeps s t"
  "keeps (upd_saved (\<lambda>sp. sp\<lparr>sp_our_ip := a, sp_server_ip := f sp\<rparr>) s) t = keeps s t"
  "keeps s (upd_saved (sp_our_ip_update g) t) = keeps s t"
  "keeps (upd_saved (sp_our_ip_update g) s) t = keeps s t"
  "keeps s (upd_saved (sp_rating_update h) t) = keeps s t"
  by (simp_all add: keeps_def client_ok_def saved_ok_def)

lemma save_packet_keeps:
  assumes "client_ok s" "length b \<le> 1500"
  shows "returns (keeps s) (save_packet b r s)"
proof -
  have sv: "saved_ok (saved s)" using assms by (simp add: client_ok_def)
  obtain p where p: "overwrite_packet (sp_pkt (saved s)) b = Some p" "pkt_ok 1264 p"
    using overwrite_packet_ok [of 1264 "sp_pkt (saved s)" b] sv assms(2) by (auto simp: returns_def saved_ok_def)
  obtain l where "parsed_options p (int (length b)) = Some l" "dhcpol_ok l"
    using parsed_options_ok [OF p(2), of "int (length b)"] assms(2) by (auto simp: returns_def)
  with p sv assms show ?thesis by (simp add: save_packet_def keeps_def client_ok_def saved_ok_def)
qed

lemma copy_hwaddr_keeps:
  assumes "client_ok s" "n \<le> length h" "n \<le> 16"
  shows "returns (keeps s) (copy_hwaddr h n s)"
proof -
  have "length (ri_hwaddr (router s)) = 16" using assms(1) by (simp add: client_ok_def)
  then obtain c where "wrn (ri_hwaddr (router s)) 0 (take n h) = Some c" "length c = 16"
    using assms by (auto simp: wrn_def)
  then show ?thesis using assms by (simp add: copy_hwaddr_def rdn_def keeps_def client_ok_def upd_router_def)
qed

lemma use_lease_router_keeps:
  assumes "client_ok s" "lease_ok l"
  shows "returns (keeps s) (use_lease_router l s)"
proof (cases "ls_router_ip l = 0 \<or> ls_router_hwaddr_length l = 0")
  case True
  with assms(1) show ?thesis by (auto simp: use_lease_router_def Let_def keeps_refl)
next
  case False
  let ?s = "service_router_set_iaddr (ls_router_ip l) s"
  have k: "keeps s ?s" using assms(1) by (simp add: keeps_refl)
  have "returns (keeps ?s) (copy_hwaddr (ls_router_hwaddr l) (min (ls_router_hwaddr_length l) MAX_LINK_ADDR_LEN) ?s)"
    by (rule copy_hwaddr_keeps [OF keepsD(1) [OF k]]) (use assms(2) in \<open>simp_all add: lease_ok_def MAX_LINK_ADDR_LEN_def\<close>)
  then show ?thesis using False k
    by (auto simp: use_lease_router_def Let_def intro!: returns_bind dest: keeps_trans)
qed

lemma switch_to_lease_keeps:
  assumes "client_ok s" "lease_ok l"
  shows "returns (\<lambda>(b, t). keeps s t) (switch_to_lease l load s)"
proof (cases "is_current_lease l s")
  case True
  with assms show ?thesis by (simp add: switch_to_lease_def keeps_refl)
next
  case False
  have r: "client_ok (service_remove_address s)" using assms(1) by simp
  obtain s1 where s1: "save_packet (take (nat sizeof_saved_pkt) (ls_pkt l)) 0 (service_remove_address s) = Some s1"
      "keeps (service_remove_address s) s1"
    using save_packet_keeps [OF r, of "take (nat sizeof_saved_pkt) (ls_pkt l)" 0] by (auto simp: returns_def sizeof_saved_pkt_def)
  have k1: "keeps s s1" using s1(2) by (simp add: keeps_def)
  have sv: "dhcpol_ok (sp_options (saved s1))" using keepsD(1) [OF k1] by (simp add: client_ok_def saved_ok_def)
  obtain ts where ts: "dhcp_get_lease_from_options (sp_options (saved s1)) = Some ts"
    using lease_from_options_ok [OF sv] by (auto simp: returns_def)
  obtain sid where sid: "get_server_identifier (sp_options (saved s1)) = Some sid"
    using server_identifier_ok [OF sv] by (auto simp: returns_def)
  show ?thesis
  proof -
    let ?s2 = "run [dhcp_set_lease_params (ls_lease_start l) ts,
                      upd_lease (li_valid_update (\<lambda>_. True)),
                      upd_saved (\<lambda>sp. sp\<lparr>sp_our_ip := ls_our_ip l,
                        sp_server_ip := (case sid of Some ip \<Rightarrow> ip | None \<Rightarrow> sp_server_ip sp)\<rparr>),
                      dhcp_lease_set_ssid (ls_ssid l),
                      dhcp_lease_set_networkID (ls_networkID l),
                      service_router_clear,
                      upd_lease (\<lambda>i. if load \<and> ls_wifi_mac_is_set l
                                      then i\<lparr>li_wifi_mac_is_set := True, li_wifi_mac := ls_wifi_mac l\<rparr>
                                      else i\<lparr>li_wifi_mac_is_set := False\<rparr>)] s1"
    have k2: "keeps s ?s2" using k1
      by (auto simp: keeps_def client_ok_def saved_ok_def upd_defs dhcp_set_lease_params_def split: prod.split)
    obtain s3 where "use_lease_router l ?s2 = Some s3" "keeps ?s2 s3"
      using use_lease_router_keeps [OF keepsD(1) [OF k2] assms(2)] by (auto simp: returns_def)
    with k2 False s1(1) ts sid show ?thesis
      by (auto simp: switch_to_lease_def Let_def dest: keeps_trans)
  qed
qed

text \<open>Fields that neither the invariant nor what is pending looks at.\<close>

lemma harmless [simp]:
  "client_ok (upd (dh_disable_arp_collision_detection_update g0) s) = client_ok s" "keeps s (upd (dh_disable_arp_collision_detection_update g0) t) = keeps s t"
  "resting (upd (dh_disable_arp_collision_detection_update g0) s) = resting s" "good (upd (dh_disable_arp_collision_detection_update g0) s) = good s"
  "client_ok (upd (dh_resolve_router_timed_out_update g1) s) = client_ok s" "keeps s (upd (dh_resolve_router_timed_out_update g1) t) = keeps s t"
  "resting (upd (dh_resolve_router_timed_out_update g1) s) = resting s" "good (upd (dh_resolve_router_timed_out_update g1) s) = good s"
  "client_ok (upd (dh_gathering_update g2) s) = client_ok s" "keeps s (upd (dh_gathering_update g2) t) = keeps s t"
  "resting (upd (dh_gathering_update g2) s) = resting s" "good (upd (dh_gathering_update g2) s) = good s"
  "client_ok (upd (dh_got_nak_update g3) s) = client_ok s" "keeps s (upd (dh_got_nak_update g3) t) = keeps s t"
  "resting (upd (dh_got_nak_update g3) s) = resting s" "good (upd (dh_got_nak_update g3) s) = good s"
  "client_ok (upd (dh_xid_update g4) s) = client_ok s" "keeps s (upd (dh_xid_update g4) t) = keeps s t"
  "resting (upd (dh_xid_update g4) s) = resting s" "good (upd (dh_xid_update g4) s) = good s"
  "client_ok (upd (dh_try_update g5) s) = client_ok s" "keeps s (upd (dh_try_update g5) t) = keeps s t"
  "resting (upd (dh_try_update g5) s) = resting s" "good (upd (dh_try_update g5) s) = good s"
  "client_ok (upd (dh_start_secs_update g6) s) = client_ok s" "keeps s (upd (dh_start_secs_update g6) t) = keeps s t"
  "resting (upd (dh_start_secs_update g6) s) = resting s" "good (upd (dh_start_secs_update g6) s) = good s"
  "client_ok (upd (dh_wait_secs_update g7) s) = client_ok s" "keeps s (upd (dh_wait_secs_update g7) t) = keeps s t"
  "resting (upd (dh_wait_secs_update g7) s) = resting s" "good (upd (dh_wait_secs_update g7) s) = good s"
  "client_ok (upd (dh_renew_rebind_time_update g8) s) = client_ok s" "keeps s (upd (dh_renew_rebind_time_update g8) t) = keeps s t"
  "resting (upd (dh_renew_rebind_time_update g8) s) = resting s" "good (upd (dh_renew_rebind_time_update g8) s) = good s"
  "client_ok (upd (dh_user_warned_update g9) s) = client_ok s" "keeps s (upd (dh_user_warned_update g9) t) = keeps s t"
  "resting (upd (dh_user_warned_update g9) s) = resting s" "good (upd (dh_user_warned_update g9) s) = good s"
  by (simp_all add: client_ok_def keeps_def resting_def good_def pending_ok_def)

lemma resting_upd [simp]:
  "resting (upd_lease g s) = resting s" "resting (upd_try n s) = resting s" "resting (start_trying s) = resting s"
  "resting (allow_warning s) = resting s"
  "resting (dhcp_set_state st s) = resting s" "resting (service_enable_autoaddr s) = resting s"
  by (simp_all add: resting_def upd_defs)

lemma lease_from_packet_ok:
  assumes "sizeof_dhcp \<le> int (length b)"
  shows "returns lease_ok (lease_from_packet b d hw)"
proof -
  have n: "length b = 236 + (length b - 236)" using assms by (simp add: sizeof_dhcp_def)
  obtain p where p: "packet_of_bytes b = Some p" "pkt_ok (length b - 236) p"
    using packet_of_bytes_ok [OF n] by (auto simp: returns_def)
  obtain l where l: "parsed_options p (int (length b)) = Some l" "dhcpol_ok l"
    using parsed_options_ok [OF p(2), of "int (length b)"] n by (auto simp: returns_def)
  obtain a b1 c where t: "dhcp_get_lease_from_options l = Some (a, b1, c)"
    using lease_from_options_ok [OF l(2)] by (auto simp: returns_def)
  obtain r where r: "dhcp_get_router_address l (dp_yiaddr p) = Some r"
    using router_address_ok [OF l(2)] by (auto simp: returns_def)
  have "returns (\<lambda>(h, m). length h = 16 \<and> m \<le> 16)
      (case (r, hw) of (Some _, Some b) \<Rightarrow> hwaddr_field b (length b) | _ \<Rightarrow> Some (replicate MAX_LINK_ADDR_LEN 0, 0))"
    by (auto simp: MAX_LINK_ADDR_LEN_def hwaddr_field_ok split: option.split)
  then show ?thesis unfolding lease_from_packet_def p(1) l(1) t r bind.bind_lunit prod.case
    by (rule returns_bind) (auto simp: lease_ok_def)
qed

lemma lease_list_read_ok:
  "returns (\<lambda>(ls, ip). list_all lease_ok ls) (DHCPLeaseListRead n d w ct cid)"
proof -
  have "returns (\<lambda>l. \<forall>x. l = Some x \<longrightarrow> lease_ok x) (DHCPLeaseCreateWithDictionary dict ct cid w)" for dict
    unfolding DHCPLeaseCreateWithDictionary_def Let_def
    by (auto simp: lease_ok_def split: prod.split option.split intro!: returns_bind [OF lease_from_packet_ok])
  then obtain l where "DHCPLeaseCreateWithDictionary dict ct cid w = Some l" "\<forall>x. l = Some x \<longrightarrow> lease_ok x" if "d = Some dict" for dict
    by (cases d) (auto simp: returns_def)
  moreover have "lease_ok (x\<lparr>ls_tentative := b\<rparr>) = lease_ok x" for x b by (simp add: lease_ok_def)
  ultimately show ?thesis
    by (cases d) (auto simp: DHCPLeaseListRead_def Let_def remove_stale_ok split: option.split)
qed

lemma lease_list_update_keeps:
  "client_ok s \<Longrightarrow> list_all lease_ok ls \<Longrightarrow> keeps s (upd (dh_lease_list_update (\<lambda>_. ls)) s)"
  by (simp add: keeps_def client_ok_def)

lemma recover_lease_keeps:
  assumes "client_ok s"
  shows "returns (keeps s) (recover_lease s)"
proof -
  obtain ct cid where c: "get_client_id s = (ct, cid)" by fastforce
  obtain ls ip where ls: "DHCPLeaseListRead (now s) (s_lease_file s) (ci_is_wireless (s_if s)) ct cid = Some (ls, ip)"
      "list_all lease_ok ls"
    using lease_list_read_ok [of "now s" "s_lease_file s" "ci_is_wireless (s_if s)" ct cid] by (auto simp: returns_def)
  let ?s1 = "case ip of None \<Rightarrow> s | Some ip \<Rightarrow> remove_unused_ip ip s"
  have k1: "keeps s ?s1" using keeps_refl [OF assms] by (auto split: option.split)
  let ?s2 = "upd (dh_lease_list_update (\<lambda>_. ls)) ?s1"
  have k2: "keeps s ?s2" using keeps_trans [OF k1 lease_list_update_keeps [OF keepsD(1) [OF k1] ls(2)]] .
  show ?thesis
  proof (cases "ls = []")
    case True
    with k2 c ls(1) show ?thesis by (simp add: recover_lease_def Let_def)
  next
    case False
    then have "lease_ok (last ls)" using ls(2) by (simp add: list_all_iff)
    then obtain b s3 where "switch_to_lease (last ls) True ?s2 = Some (b, s3)" "keeps ?s2 s3"
      using switch_to_lease_keeps [OF keepsD(1) [OF k2], of "last ls" True] by (auto simp: returns_def)
    with False k2 c ls(1) show ?thesis by (auto simp: recover_lease_def Let_def dest: keeps_trans)
  qed
qed

lemma check_lease_keeps: "client_ok s \<Longrightarrow> dhcp_check_lease s = (v, t) \<Longrightarrow> keeps s t"
  by (auto simp: dhcp_check_lease_def Let_def keeps_refl split: if_splits)

section \<open>Requests\<close>

lemma make_request_ok:
  assumes "client_ok s"
  shows "returns (\<lambda>(ok, oa, t). client_ok t \<and> area_ok request_area_size oa \<and>
      (\<exists>p. t = upd (\<lambda>d. d\<lparr>dh_request := ok, dh_txbuf := p\<rparr>) s)) (make_request msg b v6 s)"
proof -
  have "globals_ok (s_globals s)" "length (ci_link_address (s_if s)) \<le> 16" using assms by (simp_all add: client_ok_def)
  from make_dhcp_request_ok [OF this, of msg "ci_arptype (s_if s)" "dh_client_id (dh s)" b v6] assms show ?thesis
    by (auto simp: make_request_def returns_def client_ok_def)
qed

lemma complete_request_ok:
  assumes "client_ok s" "area_ok request_area_size oa" "\<forall>f \<in> set fs. 0 < fst f \<and> fst f < dhcptag_end_e"
  shows "returns (\<lambda>(ok, t). client_ok t \<and> (\<exists>p n. t = upd (\<lambda>d. d\<lparr>dh_txbuf := p, dh_request_size := n\<rparr>) s))
    (complete_request fs name b oa s)"
proof -
  have "pkt_ok 312 (dh_txbuf (dh s))" using assms(1) by (simp add: client_ok_def)
  then obtain p n where "ClientOptions.finish_request fs name (dh_txbuf (dh s)) oa = Some (p, n)" "pkt_ok 312 p"
    using finish_request_ok [OF _ assms(2,3), of 312 "dh_txbuf (dh s)" name] by (auto simp: returns_def)
  with assms(1) show ?thesis
    by (auto simp: complete_request_def client_ok_def
        intro!: exI [of _ p] exI [of _ "case n of None \<Rightarrow> dh_request_size (dh s) | Some k \<Rightarrow> if b then k else dh_request_size (dh s)"])
qed

lemma build_request_ok:
  assumes "client_ok s" "\<forall>f \<in> set fs. 0 < fst f \<and> fst f < dhcptag_end_e"
  shows "returns (\<lambda>(ok, t). client_ok t \<and>
      (\<exists>r p n. t = upd (\<lambda>d. d\<lparr>dh_request := r, dh_txbuf := p, dh_request_size := n\<rparr>) s \<and> (ok \<longrightarrow> r)))
    (build_request msg b fs s)"
proof -
  obtain ok oa s1 p where m: "make_request msg b (ServiceCanDoIPv6OnlyPreferred s) s = Some (ok, oa, s1)"
      "client_ok s1" "area_ok request_area_size oa" "s1 = upd (\<lambda>d. d\<lparr>dh_request := ok, dh_txbuf := p\<rparr>) s"
    using make_request_ok [OF assms(1), of msg b "ServiceCanDoIPv6OnlyPreferred s"] by (auto simp: returns_def)
  show ?thesis
  proof (cases ok)
    case True
    obtain ok2 s2 p2 n2 where "complete_request fs (name_to_supply s1) True oa s1 = Some (ok2, s2)" "client_ok s2"
        "s2 = upd (\<lambda>d. d\<lparr>dh_txbuf := p2, dh_request_size := n2\<rparr>) s1"
      using complete_request_ok [OF m(2,3) assms(2), of "name_to_supply s1" True] by (auto simp: returns_def)
    with True m(1) m(4) show ?thesis
      by (auto simp: build_request_def comp_def intro!: exI [of _ True] exI [of _ p2] exI [of _ n2])
  next
    case False
    with m show ?thesis
      by (auto simp: build_request_def intro!: exI [of _ False] exI [of _ p] exI [of _ "dh_request_size (dh s)"])
  qed
qed

lemma option_tags [simp]:
  "fst lease_option = dhcptag_lease_time_e" "fst (requested_ip_option ip) = dhcptag_requested_ip_address_e"
  "fst (server_id_option ip) = dhcptag_server_identifier_e"
  by (simp_all add: lease_option_def requested_ip_option_def server_id_option_def)

text \<open>Sending changes the request only.\<close>

definition sent_from :: "service \<Rightarrow> service \<Rightarrow> bool" where
  "sent_from s t \<longleftrightarrow> client_ok t \<and> (\<exists>p. dh t = (dh s)\<lparr>dh_txbuf := p\<rparr>)"

lemma transmit_sent:
  assumes "client_ok s" "dh_request (dh s)"
  shows "returns (\<lambda>(ok, t). client_ok t \<and> dh t = dh s) (bootp_client_transmit a b s)"
  using assms by (auto simp: bootp_client_transmit_def try_call_def Let_def returns_def split: prod.split)

lemma send_request_sent:
  assumes "client_ok s" "dh_request (dh s)"
  shows "returns (sent_from s) (send_request a b s)"
proof -
  let ?p = "(dh_txbuf (dh s))\<lparr>dp_xid := dh_xid (dh s),
            dp_secs := swap16 (word_of_int (trunc (now s - dh_start_secs (dh s))))\<rparr>"
  let ?s = "upd (dh_txbuf_update (\<lambda>p. p\<lparr>dp_xid := dh_xid (dh s),
            dp_secs := swap16 (word_of_int (trunc (now s - dh_start_secs (dh s))))\<rparr>)) s"
  have "client_ok ?s" "dh_request (dh ?s)" using assms by (simp_all add: client_ok_def)
  from transmit_sent [OF this, of a b] assms(2) show ?thesis
    by (auto simp: send_request_def upd_request_def returns_def sent_from_def intro!: exI [of _ ?p])
qed

lemma wait_for_response_good:
  "client_ok s \<Longrightarrow> dh_request (dh s) \<Longrightarrow> good (wait_for_response r f s)"
  by (auto simp: wait_for_response_def Let_def double_wait_def good_def pending_ok_def client_ok_def
      set_relative_def split: prod.split)

lemma sent_fromD: "sent_from s t \<Longrightarrow> client_ok t" "sent_from s t \<Longrightarrow> dh_request (dh t) = dh_request (dh s)"
  by (auto simp: sent_from_def)

section \<open>Ends of states\<close>

lemma wait_start_good: "client_ok s \<Longrightarrow> good (dhcp_wait_start w s)"
  by (simp add: dhcp_wait_start_def Let_def set_relative_good failed_ok)

lemma no_server_good:
  assumes "client_ok s"
  shows "good (dhcp_no_server s)"
proof -
  let ?s = "if G_dhcp_failure_configures_linklocal (s_globals s) then linklocal_service_change True s else s"
  have "client_ok ?s" using assms by (auto simp: view_client_ok [of "linklocal_service_change True s" s])
  note c = cancel_pending [OF this]
  show ?thesis unfolding dhcp_no_server_def by (simp add: c set_relative_good)
qed

lemma saved_ip_ok [simp]:
  "client_ok (upd_saved (sp_our_ip_update g) s) = client_ok s" "resting (upd_saved (sp_our_ip_update g) s) = resting s"
  "resting (dhcp_invalidate_lease s) = resting s"
  by (simp_all add: client_ok_def saved_ok_def resting_def upd_defs)

lemma unbound_good:
  assumes "client_ok s"
  shows "good (dhcp_unbound nak s)"
proof -
  let ?s = "dhcp_cancel_pending_events (dhcp_set_state dhcp_cstate_unbound_e s)"
  have c: "client_ok ?s" "resting ?s" by (rule cancel_pending, simp add: assms)+
  note k = lease_clear_keeps [OF c(1), of nak]
  show ?thesis using keepsD(1,2) [OF k] c(2) by (simp add: dhcp_unbound_def set_relative_good)
qed

lemma goodD: "good s \<Longrightarrow> client_ok s"
  by (simp add: good_def)

lemma keeps_good: "keeps s t \<Longrightarrow> good s \<Longrightarrow> good t"
  by (simp add: good_def keeps_def pending_ok_def)

lemma terminate_good: "client_ok s \<Longrightarrow> good (terminate_lease st s)"
  by (simp add: terminate_lease_def unbound_good)

lemma drop_nak_good: "good s \<Longrightarrow> good (drop_nak nak s)"
  by (simp add: drop_nak_def unbound_good goodD)

lemma decline_good:
  assumes "client_ok s0"
  shows "returns good (dhcp_decline s0)"
proof -
  let ?s = "dhcp_cancel_pending_events (dhcp_set_state dhcp_cstate_decline_e s0)"
  have c: "client_ok ?s" "resting ?s" by (rule cancel_pending, simp add: assms)+
  obtain ok oa s1 p where m: "make_request dhcp_msgtype_decline_e False False ?s = Some (ok, oa, s1)"
      "client_ok s1" "area_ok request_area_size oa" "s1 = upd (\<lambda>d. d\<lparr>dh_request := ok, dh_txbuf := p\<rparr>) ?s"
    using make_request_ok [OF c(1), of dhcp_msgtype_decline_e False False] by (auto simp: returns_def)
  obtain ok2 s2 p2 n2 where m2: "complete_request [requested_ip_option (sp_our_ip (saved s1)), server_id_option (sp_server_ip (saved s1))]
        None False oa s1 = Some (ok2, s2)" "client_ok s2" "s2 = upd (\<lambda>d. d\<lparr>dh_txbuf := p2, dh_request_size := n2\<rparr>) s1"
    using complete_request_ok [OF m(2,3), of "[requested_ip_option (sp_our_ip (saved s1)), server_id_option (sp_server_ip (saved s1))]"
        None False] by (auto simp: returns_def)
  have q: "resting s2" "dh_request (dh s2) = ok" using c(2) by (simp_all add: m(4) m2(3) resting_def)
  show ?thesis
  proof (cases "ok \<and> ok2")
    case True
    then obtain sent s3 where "bootp_client_transmit G_ip_broadcast G_ip_zeroes s2 = Some (sent, s3)" "client_ok s3" "dh s3 = dh s2"
      using transmit_sent [OF m2(2), of G_ip_broadcast G_ip_zeroes] q(2) by (auto simp: returns_def)
    moreover from this have "resting s3" using q by (simp add: resting_def)
    ultimately show ?thesis using True m(1) m2(1) by (auto simp: dhcp_decline_def set_relative_good)
  next
    case False
    then show ?thesis using m(1,2) m2(1,2) by (auto simp: dhcp_decline_def failed_good)
  qed
qed

lemma arp_wait_address_ok: "client_ok s \<Longrightarrow> returns (\<lambda>_. True) (arp_wait_address s)"
  by (auto simp: arp_wait_address_def Let_def client_ok_def saved_ok_def intro!: returns_bind [OF router_from_options_ok])

text \<open>A release leaves nothing pending, unless there is no lease.\<close>

lemma release_good:
  assumes "good s"
  shows "returns (\<lambda>t. good t \<and> (li_valid (lease s) \<longrightarrow> resting t)) (dhcp_release s)"
proof (cases "li_valid (lease s)")
  case False
  with assms show ?thesis by (simp add: dhcp_release_def)
next
  case True
  let ?s0 = "service_router_clear (dhcp_invalidate_lease (dhcp_lease_clear False s))"
  let ?s1 = "dhcp_cancel_pending_events ?s0"
  have "client_ok ?s0" using keepsD(1) [OF lease_clear_keeps [OF goodD [OF assms]]] by simp
  note c = cancel_pending [OF this]
  obtain ok oa s2 p where m: "make_request dhcp_msgtype_release_e False False ?s1 = Some (ok, oa, s2)"
      "client_ok s2" "area_ok request_area_size oa" "s2 = upd (\<lambda>d. d\<lparr>dh_request := ok, dh_txbuf := p\<rparr>) ?s1"
    using make_request_ok [OF c(1), of dhcp_msgtype_release_e False False] by (auto simp: returns_def)
  have q2: "resting s2" "dh_request (dh s2) = ok" using c(2) by (simp_all add: m(4) resting_def)
  show ?thesis
  proof (cases "ok \<and> \<not> (lk_valid (service_link_status ?s1) \<and> \<not> lk_active (service_link_status ?s1))")
    case False
    with True m(1,2) c q2(1) show ?thesis by (auto simp: dhcp_release_def Let_def resting_good)
  next
    case sent: True
    let ?s3 = "upd (dh_xid_update (\<lambda>x. x + 1)) s2"
    let ?s4 = "upd (dh_txbuf_update (\<lambda>p. p\<lparr>dp_xid := dh_xid (dh ?s3), dp_ciaddr := sp_our_ip (saved ?s3)\<rparr>)) ?s3"
    have u: "upd_request (\<lambda>p. p\<lparr>dp_xid := dh_xid (dh ?s3), dp_ciaddr := sp_our_ip (saved ?s3)\<rparr>) ?s3 = Some ?s4"
      using sent q2 by (simp add: upd_request_def)
    have c4: "client_ok ?s4" "resting ?s4" "dh_request (dh ?s4)" using m(2) q2 sent by (simp_all add: client_ok_def resting_def)
    obtain ok2 s5 p2 n2 where m2: "complete_request [server_id_option (sp_server_ip (saved ?s4))] None False oa ?s4 = Some (ok2, s5)"
        "client_ok s5" "s5 = upd (\<lambda>d. d\<lparr>dh_txbuf := p2, dh_request_size := n2\<rparr>) ?s4"
      using complete_request_ok [OF c4(1) m(3), of "[server_id_option (sp_server_ip (saved ?s4))]" None False]
      by (auto simp: returns_def)
    have c5: "resting s5" "dh_request (dh s5)" using c4 by (simp_all add: m2(3) resting_def)
    obtain b s6 where t: "bootp_client_transmit (sp_server_ip (saved s5)) (sp_our_ip (saved s5)) s5 = Some (b, s6)"
        "client_ok s6" "dh s6 = dh s5"
      using transmit_sent [OF m2(2) c5(2), of "sp_server_ip (saved s5)" "sp_our_ip (saved s5)"] by (auto simp: returns_def)
    obtain a where a: "arp_wait_address s6 = Some a" using arp_wait_address_ok [OF t(2)] by (auto simp: returns_def)
    have c6: "resting s6" using c5 t(3) by (simp add: resting_def)
    have rel: "dhcp_release s = (if \<not> ok2 then Some s5 else if \<not> b then Some s6
        else Some (upd_saved (sp_our_ip_update (\<lambda>_. 0)) s6))"
      using True sent m(1) u m2(1) t(1) a unfolding dhcp_release_def Let_def by auto
    show ?thesis unfolding rel using True m2(2) c5(1) t(2) c6 by (simp add: resting_good)
  qed
qed

section \<open>States\<close>

lemma arp_router_detect_ok:
  assumes "client_ok s" "dh_request (dh s)"
  shows "returns (\<lambda>t. client_ok t \<and> dh_request (dh t)) (arp_router_detect ssid nid thr tent s)"
proof -
  let ?r = "DHCPLeaseListCopyARPAddressInfo (new_memory (s_globals s) (w_calls (s_world s))) (now s) ssid nid thr tent
     (dh_lease_list (dh s))"
  obtain infos leases where r: "?r = (infos, leases)" by fastforce
  have ls: "list_all lease_ok leases" using assms(1) r
    by (auto simp: DHCPLeaseListCopyARPAddressInfo_def Let_def client_ok_def remove_stale_ok)
  then have i: "list_all (\<lambda>i. length (ai_target_hardware i) = 16) infos" using r
    by (auto simp: DHCPLeaseListCopyARPAddressInfo_def Let_def list_all_iff arp_info_of_def lease_ok_def MAX_LINK_ADDR_LEN_def)
  let ?s = "upd (dh_lease_list_update (\<lambda>_. leases)) s"
  have c: "client_ok ?s" using assms(1) ls by (simp add: client_ok_def)
  show ?thesis
    using detect_started [OF c i, of A_arp_router] c assms(2) r
    by (auto simp: arp_router_detect_def returns_def arp_started_def Let_def)
qed

lemma arp_router_start_ok:
  assumes "client_ok s" "dh_request (dh s)"
  shows "returns (\<lambda>t. client_ok t \<and> dh_request (dh t)) (arp_router_start s)"
  using arp_router_detect_ok [OF assms] assms by (auto simp: arp_router_start_def Let_def split: option.split)

lemma saved_subnet_mask_ok: "client_ok s \<Longrightarrow> returns (\<lambda>_. True) (saved_subnet_mask s)"
  by (simp add: saved_subnet_mask_def find_u32_returns client_ok_def saved_ok_def)

lemma save_and_publish_keeps: "client_ok s \<Longrightarrow> returns (keeps s) (save_and_publish s)"
  unfolding save_and_publish_def by (rule returns_bind [OF lease_save_keeps]) simp_all

lemma update_router_keeps:
  assumes "client_ok s"
  shows "returns (\<lambda>(c, t). keeps s t) (service_update_router_address (sp_options (saved s)) ip s)"
proof -
  have "dhcpol_ok (sp_options (saved s))" using assms by (simp add: client_ok_def saved_ok_def)
  from returns_obtain [OF router_address_ok [OF this, of ip]] keeps_refl [OF assms] show ?thesis
    by (auto simp: service_update_router_address_def split: option.split)
qed

lemma arp_started_good: "arp_started f s t \<Longrightarrow> resting s \<or> dh_request (dh s) \<Longrightarrow> f \<noteq> A_arp_router \<or> dh_request (dh s) \<Longrightarrow> good t"
  by (auto simp: arp_started_def good_def pending_ok_def resting_def)

text \<open>Resolving the router replaces what the ARP client did; the timer stays.\<close>

lemma resolve_router_ok:
  assumes "client_ok s" "service_resolve_router ip s = (b, t)"
  shows "client_ok t" "dh_timer (dh t) = dh_timer (dh s)" "dh_request (dh t) = dh_request (dh s)"
    "dh_state (dh t) = dh_state (dh s)" "dh_lease (dh t) = dh_lease (dh s)" "dh_receive (dh t) = dh_receive (dh s)"
    "if b then ac_func (dh_arp (dh t)) = Some A_resolve_router else dh_arp (dh t) = dh_arp (dh s)"
proof -
  let ?s = "service_router_flags_clear_specific RIFLAGS_RESOLVE_TIMED_OUT
      (service_router_flags_set_specific RIFLAGS_RESOLVE_IN_PROGRESS (service_router_clear_arp_verified s))"
  have "client_ok ?s" using assms(1) view_client_ok [of ?s s] by simp
  note st = resolve_started [OF this, of A_resolve_router ip "ri_iaddr (router ?s)"
      "S_discover_router_mac_address_secs (s_globals ?s)"]
  have c: "client_ok (service_router_clear_arp_verified s)" using assms(1) view_client_ok [OF view_router(5), of s] by simp
  from st c assms show "client_ok t" "dh_timer (dh t) = dh_timer (dh s)" "dh_request (dh t) = dh_request (dh s)"
      "dh_state (dh t) = dh_state (dh s)" "dh_lease (dh t) = dh_lease (dh s)" "dh_receive (dh t) = dh_receive (dh s)"
      "if b then ac_func (dh_arp (dh t)) = Some A_resolve_router else dh_arp (dh t) = dh_arp (dh s)"
    by (auto simp: service_resolve_router_def Let_def arp_started_def split: if_splits)
qed

text \<open>What is pending in BOUND: the timer for RENEW, the ARP client for the router.\<close>

lemma set_relative_fields [simp]:
  "dh_arp (dh (set_relative a b f s)) = dh_arp (dh s)" "dh_request (dh (set_relative a b f s)) = dh_request (dh s)"
  "dh_timer (dh (set_relative a b f s)) = timer_set_relative (s_world s) (dh_timer (dh s)) a b f"
  "dh_receive (dh (set_relative a b f s)) = dh_receive (dh s)"
  "dh_state (dh (set_relative a b f s)) = dh_state (dh s)" "dh_lease (dh (set_relative a b f s)) = dh_lease (dh s)"
  by (simp_all add: set_relative_def)

lemma schedule_renewal_cases:
  assumes "schedule_renewal s = (b, t)"
  obtains "t = s" | sec usec where
    "t = set_relative sec usec (T_renew_rebind IFEventID_start_e) (upd (dh_renew_rebind_time_update (\<lambda>_. li_t1 (lease s))) s)"
  using assms by (cases "li_t1 (lease s) < now s") (auto simp: schedule_renewal_def Let_def split: if_splits)

lemma renewal_timer_good: "client_ok u \<Longrightarrow> resting u \<Longrightarrow> good (set_relative sec usec (T_renew_rebind IFEventID_start_e) u)"
  by (rule set_relative_good) simp_all

lemma schedule_renewal_ok:
  assumes "client_ok s" "resting s" "schedule_renewal s = (b, t)"
  shows "good t" "ac_func (dh_arp (dh t)) = None"
    "tm_enabled (dh_timer (dh t)) \<longrightarrow> tm_func (dh_timer (dh t)) = Some (T_renew_rebind IFEventID_start_e)"
proof -
  consider "t = s" | sec usec where
    "t = set_relative sec usec (T_renew_rebind IFEventID_start_e) (upd (dh_renew_rebind_time_update (\<lambda>_. li_t1 (lease s))) s)"
    using schedule_renewal_cases [OF assms(3)] by blast
  note cases = this
  show "good t" using cases by cases (use assms(1,2) in \<open>auto intro: renewal_timer_good resting_good\<close>)
  show "ac_func (dh_arp (dh t)) = None"
    using cases by cases (use assms(2) in \<open>simp_all add: resting_def\<close>)
  show "tm_enabled (dh_timer (dh t)) \<longrightarrow> tm_func (dh_timer (dh t)) = Some (T_renew_rebind IFEventID_start_e)"
    using cases by cases (use assms(2) in \<open>simp_all add: resting_def\<close>)
qed

lemma bound_finish_good:
  assumes "client_ok s" "resting s"
  shows "returns good (bound_finish s)"
proof -
  let ?s1 = "run [upd_lease (li_valid_update (\<lambda>_. True)),
                   \<lambda>s. dhcp_lease_set_ssid (ServiceGetSSID s) s,
                   \<lambda>s. dhcp_lease_set_networkID (ServiceGetNetworkID s) s,
                   allow_warning] s"
  have k1: "keeps s ?s1" using keeps_refl [OF assms(1)] by simp
  obtain m where m: "saved_subnet_mask ?s1 = Some m" using saved_subnet_mask_ok [OF keepsD(1) [OF k1]] by (auto simp: returns_def)
  let ?s2 = "run [set_bound_address m, stop_linklocal, upd (dh_disable_arp_collision_detection_update (\<lambda>_. False))] ?s1"
  have k: "keeps s ?s2" using k1 by simp
  have k2: "client_ok ?s2" "resting ?s2" using keepsD(1) [OF k] keepsD(2) [OF k] assms(2) by blast+
  obtain do_arp s3 where s3: "schedule_renewal ?s2 = (do_arp, s3)" by fastforce
  note sr = schedule_renewal_ok [OF k2 s3]
  let ?s3 = "upd (dh_resolve_router_timed_out_update (\<lambda>_. False)) s3"
  have c3: "client_ok ?s3" "good ?s3" using sr(1) goodD [OF sr(1)] by simp_all
  have "returns (\<lambda>(b, t). good t) (resolve_bound_router do_arp ?s3)"
  proof (cases do_arp)
    case True
    obtain changed s4 where s4: "service_update_router_address (sp_options (saved ?s3)) (sp_our_ip (saved ?s3)) ?s3 = Some (changed, s4)"
        "keeps ?s3 s4"
      using update_router_keeps [OF c3(1), of "sp_our_ip (saved ?s3)"] by (auto simp: returns_def)
    have g4: "good s4" using keeps_good [OF s4(2) c3(2)] .
    obtain b s5 where s5: "service_resolve_router (sp_our_ip (saved s4)) s4 = (b, s5)" by fastforce
    have "good s5" using resolve_router_ok [OF keepsD(1) [OF s4(2)] s5] g4
      by (auto simp: good_def pending_ok_def split: if_splits)
    then show ?thesis using True s4 s5 g4 by (simp add: resolve_bound_router_def)
  qed (simp add: resolve_bound_router_def sr(1))
  then obtain b s4 where s4: "resolve_bound_router do_arp ?s3 = Some (b, s4)" "good s4" by (auto simp: returns_def)
  obtain s5 where s5: "save_and_publish s4 = Some s5" "keeps s4 s5"
    using save_and_publish_keeps [OF goodD [OF s4(2)]] by (auto simp: returns_def)
  have "good s5" using keeps_good [OF s5(2) s4(2)] .
  then show ?thesis unfolding bound_finish_def Let_def using m s3 s4 s5 by simp
qed

lemma bound_go_good:
  assumes "client_ok s" "resting s"
  shows "returns good (if p then bound_finish s
      else if q then Some (arp_do (arp_client_probe A_bound a b) s)
      else if r then Some (arp_do (arp_client_announce A_bound a b True) s) else bound_finish s)"
  using bound_finish_good [OF assms] arp_started_good [OF probe_started [OF assms(1), of A_bound] disjI1 [OF assms(2)]]
    arp_started_good [OF announce_started [OF assms(1), of A_bound] disjI1 [OF assms(2)]]
  by simp

lemma bound_start_good:
  assumes "client_ok s"
  shows "returns good (bound_start s)"
proof -
  let ?s0 = "upd (\<lambda>d. d\<lparr>dh_disable_arp_collision_detection := True, dh_trying_since_secs := 0\<rparr>)
     (upd_lease (li_needs_write_update (\<lambda>_. True)) (dhcp_set_state dhcp_cstate_bound_e s))"
  let ?s1 = "dhcp_cancel_pending_events ?s0"
  have "client_ok ?s0" using assms by (simp add: client_ok_def dhcp_set_state_def)
  note c1 = cancel_pending [OF this]
  let ?renewed = "dh_state (dh s) = dhcp_cstate_renew_e \<or> dh_state (dh s) = dhcp_cstate_rebind_e"
  let ?s2 = "if ?renewed then upd_lease (li_needs_write_update (\<lambda>_. should_write_lease ?s1)) ?s1 else service_disable_autoaddr ?s1"
  have c2: "client_ok ?s2" "resting ?s2" using c1 by (simp_all add: resting_def)
  have run: "run [dhcp_set_state dhcp_cstate_bound_e,
                    upd_lease (li_needs_write_update (\<lambda>_. True)),
                    upd (\<lambda>d. d\<lparr>dh_disable_arp_collision_detection := True, dh_trying_since_secs := 0\<rparr>),
                    dhcp_cancel_pending_events] s = ?s1" by simp
  show ?thesis
    unfolding bound_start_def Let_def run by (rule bound_go_good [OF c2])
qed

lemma bound_arp_good:
  assumes "good s"
  shows "returns good (bound_arp result s)"
proof -
  have c: "client_ok s" using assms by (rule goodD)
  have "client_ok (report_conflict s)" using c by (simp add: report_conflict_def Let_def client_ok_def)
  then have "client_ok (service_publish_failure ipconfig_status_address_in_use_e (service_router_clear
      (dhcp_invalidate_lease (dhcp_lease_clear False (report_conflict s)))))"
    using keepsD(1) [OF lease_clear_keeps] by simp
  from decline_good [OF this] bound_finish_good [OF cancel_pending [OF c]] failed_good [OF c] show ?thesis
    by (simp add: bound_arp_def)
qed

lemma init_attempt_good:
  assumes "client_ok s" "dh_request (dh s)"
  shows "returns good (init_attempt s)"
proof -
  let ?s = "upd_try (\<lambda>n. n + 1) s"
  have c: "client_ok ?s" "dh_request (dh ?s)" using assms by (simp_all add: upd_try_def)
  let ?r = "if dh_try (dh ?s) \<ge> G_dhcp_router_arp_at_retry_count (s_globals ?s) + 1 \<and> \<not> service_router_all_valid ?s
      then arp_router_start ?s else Some ?s"
  have "returns (\<lambda>t. client_ok t \<and> dh_request (dh t)) ?r" using arp_router_start_ok [OF c] c by simp
  then obtain s1 where s1: "?r = Some s1" "client_ok s1" "dh_request (dh s1)" by (auto simp: returns_def)
  let ?s2 = "init_give_up_on_router s1"
  have c2: "client_ok ?s2" "dh_request (dh ?s2)" using s1 view_client_ok [OF view_more(3), of s1] by simp_all
  obtain s3 where s3: "send_request G_ip_broadcast G_ip_zeroes ?s2 = Some s3" "sent_from ?s2 s3"
    using send_request_sent [OF c2, of G_ip_broadcast G_ip_zeroes] by (auto simp: returns_def)
  note w = wait_for_response_good [OF sent_fromD(1) [OF s3(2)]] sent_fromD(2) [OF s3(2)]
  show ?thesis unfolding init_attempt_def Let_def s1(1)
    using s3(1) c2 w inactive_good(1) [OF c(1)] bound_start_good [OF c2(1)] no_server_good [OF c2(1)] by simp
qed

lemma dh_request_simps [simp]:
  "dh_request (dh (start_trying s)) = dh_request (dh s)" "dh_request (dh (upd_try n s)) = dh_request (dh s)"
  "dh_request (dh (bootp_client_enable_receive r s)) = dh_request (dh s)"
  "dh_request (dh (dhcp_set_state st s)) = dh_request (dh s)" "dh_request (dh (upd_lease l s)) = dh_request (dh s)"
  "dh_request (dh (dhcp_adjust_lease_info t s)) = dh_request (dh s)"
  by (simp_all add: upd_defs)

lemma request_made:
  assumes "client_ok s" "\<forall>f \<in> set fs. 0 < fst f \<and> fst f < dhcptag_end_e"
  obtains ok t where "build_request msg b fs s = Some (ok, t)" "client_ok t" "ok \<Longrightarrow> dh_request (dh t)"
    "dh_state (dh t) = dh_state (dh s)" "dh_gathering (dh t) = dh_gathering (dh s)" "dh_lease (dh t) = dh_lease (dh s)"
  using build_request_ok [OF assms, of msg b] by (auto simp: returns_def)

lemma begin_init_ok:
  assumes "client_ok s" "dh_request (dh s)"
  shows "client_ok (begin_init st s)" "dh_request (dh (begin_init st s))"
  using assms view_client_ok [OF view_publish(7)]
  by (simp_all add: begin_init_def client_ok_def saved_ok_def bootp_client_enable_receive_def)

lemma init_start_good:
  assumes "client_ok s"
  shows "returns good (init_start s)"
proof -
  let ?s0 = "upd (\<lambda>d. d\<lparr>dh_allow_wake_with_short_lease := True, dh_resolve_router_timed_out := False\<rparr>)
      (dhcp_set_state dhcp_cstate_init_e (upd_lease (li_wifi_mac_is_set_update (\<lambda>_. False)) s))"
  let ?s1 = "start_trying (dhcp_cancel_pending_events ?s0)"
  have "client_ok ?s0" using assms by (simp add: client_ok_def dhcp_set_state_def)
  then have c1: "client_ok ?s1" using cancel_pending(1) by simp
  obtain ok s2 where s2: "build_request dhcp_msgtype_discover_e (dh_must_broadcast (dh ?s1)) [lease_option] ?s1 = Some (ok, s2)"
      "client_ok s2" "ok \<Longrightarrow> dh_request (dh s2)"
    by (rule request_made [OF c1, of "[lease_option]"]) auto
  show ?thesis
    using s2 failed_good [OF s2(2)] init_attempt_good [OF begin_init_ok [OF s2(2)]] by (auto simp: init_start_def Let_def)
qed

lemma select_attempt_good:
  assumes "client_ok s" "dh_request (dh s)"
  shows "returns good (select_attempt s)"
proof -
  let ?s = "upd_try (\<lambda>n. n + 1) s"
  have c: "client_ok ?s" "dh_request (dh ?s)" using assms by simp_all
  obtain s1 where s1: "send_request G_ip_broadcast G_ip_zeroes ?s = Some s1" "sent_from ?s s1"
    using send_request_sent [OF c, of G_ip_broadcast G_ip_zeroes] by (auto simp: returns_def)
  show ?thesis unfolding select_attempt_def Let_def
    using s1 c init_start_good [OF c(1)] wait_for_response_good [OF sent_fromD(1) [OF s1(2)]] sent_fromD(2) [OF s1(2)] by simp
qed

lemma select_start_good:
  assumes "client_ok s"
  shows "returns good (select_start s)"
proof -
  let ?s1 = "dhcp_cancel_pending_events (dhcp_set_state dhcp_cstate_select_e s)"
  have c1: "client_ok ?s1" by (rule cancel_pending) (simp add: assms)
  let ?fs = "[requested_ip_option (sp_our_ip (saved ?s1)), server_id_option (sp_server_ip (saved ?s1))]"
  obtain ok s2 where s2: "build_request dhcp_msgtype_request_e (dh_must_broadcast (dh ?s1)) ?fs ?s1 = Some (ok, s2)"
      "client_ok s2" "ok \<Longrightarrow> dh_request (dh s2)"
    by (rule request_made [OF c1, of ?fs]) auto
  let ?s3 = "bootp_client_enable_receive R_select
         (upd (\<lambda>d. d\<lparr>dh_try := 0, dh_gathering := False, dh_wait_secs := G_initial_wait_secs (s_globals s2)\<rparr>) s2)"
  have c3: "client_ok ?s3" "dh_request (dh ?s3) = dh_request (dh s2)" using s2(2) by (simp_all add: client_ok_def bootp_client_enable_receive_def)
  show ?thesis
    using s2 failed_good [OF s2(2)] select_attempt_good [OF c3(1)] c3(2) by (auto simp: select_start_def Let_def)
qed

section \<open>Received packets\<close>

lemma accept_packet_keeps:
  assumes "client_ok s" "received_ok pkt"
  shows "returns (keeps s) (accept_packet pkt r ip ts s)"
proof -
  obtain b where b: "bytes_of_packet (rd_data pkt) (rd_size pkt) = Some b" "int (length b) = rd_size pkt"
    using bytes_of_packet_ok [of 1264 "rd_data pkt" "rd_size pkt"] assms(2) by (auto simp: returns_def received_ok_def)
  have "length b \<le> 1500" using b(2) assms(2) by (simp add: received_ok_def)
  from save_packet_keeps [OF assms(1) this, of r] b show ?thesis
    by (auto simp: accept_packet_def returns_def)
qed

lemma verify_reply_ok: "client_ok s \<Longrightarrow> received_ok pkt \<Longrightarrow> returns (\<lambda>_. True) (verify_reply pkt s)"
  unfolding verify_reply_def by (rule verify_packet_ok) (simp_all add: client_ok_def)

lemma received_lease: "received_ok pkt \<Longrightarrow> returns (\<lambda>_. True) (dhcp_get_lease_from_options (rd_options pkt))"
  by (simp add: received_ok_def lease_from_options_ok)

lemma select_data_good:
  assumes "good s" "received_ok pkt"
  shows "returns good (select_data pkt s)"
proof -
  have c: "client_ok s" using assms(1) by (rule goodD)
  have nak: "good (select_nak ip s)" for ip
    using assms(1) cancel_pending [OF c] by (simp add: select_nak_def set_relative_good)
  show ?thesis
    unfolding select_data_def
    by (rule returns_bind [OF verify_reply_ok [OF c assms(2)]])
      (auto simp: assms(1) nak split: option.split
        intro!: returns_bind [OF received_lease [OF assms(2)]] returns_bind [OF accept_packet_keeps [OF c assms(2)]] bound_start_good
        dest: keepsD(1))
qed

lemma init_timeout_good: "client_ok s \<Longrightarrow> dh_request (dh s) \<Longrightarrow> returns good (init_timeout s)"
  by (simp add: init_timeout_def select_start_good init_attempt_good)

lemma begin_gathering_good: "good s \<Longrightarrow> dh_request (dh s) \<Longrightarrow> good (begin_gathering f s)"
  by (simp add: begin_gathering_def good_def pending_ok_def client_ok_def)

lemma ipv6_only_wait_ok: "received_ok pkt \<Longrightarrow> returns (\<lambda>_. True) (ipv6_only_wait pkt s)"
  by (simp add: ipv6_only_wait_def ipv6_wait_ok received_ok_def)

lemma count_params_ok:
  assumes "dhcpol_ok l"
  shows "returns (\<lambda>_. True) (dhcpol_count_params l ps)"
  using count_params_spec [OF assms] by simp

lemma init_offer_good:
  assumes "good s" "dh_request (dh s)" "received_ok pkt"
  shows "returns good (init_offer pkt ip s)"
proof -
  have c: "client_ok s" using assms(1) by (rule goodD)
  obtain ts where ts: "dhcp_get_lease_from_options (rd_options pkt) = Some ts"
    using received_lease [OF assms(3)] by (auto simp: returns_def)
  obtain r where r: "offer_rating pkt s = Some r"
    using count_params_ok [of "rd_options pkt" "dhcp_params (s_globals s)"] assms(3)
    by (auto simp: returns_def offer_rating_def received_ok_def)
  have cr: "client_ok (service_router_clear s)" using c by simp
  obtain s1 where s1: "accept_packet pkt r ip ts (service_router_clear s) = Some s1" "keeps (service_router_clear s) s1"
    using accept_packet_keeps [OF cr assms(3), of r ip ts] by (auto simp: returns_def)
  have k: "keeps s s1" using s1(2) by simp
  have g: "good s1" "dh_request (dh s1)" using keeps_good [OF k assms(1)] keepsD(4) [OF k] assms(2) by simp_all
  show ?thesis
    using ts r s1(1) assms(1) select_start_good [OF goodD [OF g(1)]] begin_gathering_good [OF g]
    by (simp add: init_offer_def)
qed

lemma init_data_good:
  assumes "good s" "dh_request (dh s)" "received_ok pkt"
  shows "returns good (init_data pkt s)"
  unfolding init_data_def
  by (rule returns_bind [OF verify_reply_ok [OF goodD [OF assms(1)] assms(3)]])
    (auto simp: assms(1) wait_start_good [OF goodD [OF assms(1)]] split: option.split
      intro!: returns_bind [OF ipv6_only_wait_ok [OF assms(3)]] init_offer_good [OF assms])

section \<open>INIT-REBOOT, RENEW, REBIND\<close>

lemma init_reboot_attempt_good:
  assumes "client_ok s" "dh_request (dh s)"
  shows "returns good (init_reboot_attempt s)"
proof -
  let ?s = "upd_try (\<lambda>n. n + 1) s"
  have c: "client_ok ?s" "dh_request (dh ?s)" using assms by simp_all
  obtain s1 where s1: "arp_router_start ?s = Some s1" "client_ok s1" "dh_request (dh s1)"
    using arp_router_start_ok [OF c] by (auto simp: returns_def)
  let ?s2 = "init_reboot_give_up_on_router s1"
  have c2: "client_ok ?s2" "dh_request (dh ?s2)" using s1 view_client_ok [OF view_more(4), of s1] by simp_all
  obtain s3 where s3: "send_request G_ip_broadcast (source_ip ?s2) ?s2 = Some s3" "sent_from ?s2 s3"
    using send_request_sent [OF c2, of G_ip_broadcast "source_ip ?s2"] by (auto simp: returns_def)
  have "client_ok (upd_try (\<lambda>n. n - 1) (service_publish_failure_sync st False (service_remove_address ?s2)))" for st
    using c2(1) view_client_ok [OF view_publish(10)] by simp
  note w = wait_for_response_good [OF sent_fromD(1) [OF s3(2)]] sent_fromD(2) [OF s3(2)] init_start_good [OF this]
  show ?thesis unfolding init_reboot_attempt_def Let_def
    using s1(1) s3(1) c2 w inactive_good(1) [OF c(1)] by simp
qed

lemma init_reboot_start_good:
  assumes "client_ok s"
  shows "returns good (init_reboot_start ip s)"
proof -
  let ?u = "start_trying (upd (\<lambda>d. d\<lparr>dh_resolve_router_timed_out := False, dh_allow_wake_with_short_lease := True,
      dh_start_secs := now (dhcp_set_state dhcp_cstate_init_reboot_e (upd_lease (li_wifi_mac_is_set_update (\<lambda>_. False)) s))\<rparr>)
      (dhcp_set_state dhcp_cstate_init_reboot_e (upd_lease (li_wifi_mac_is_set_update (\<lambda>_. False)) s)))"
  let ?s0 = "upd (\<lambda>d. d\<lparr>dh_try := 0, dh_wait_secs := G_initial_wait_secs (s_globals s)\<rparr>) ?u"
  let ?s1 = "dhcp_cancel_pending_events ?s0"
  have "client_ok ?u" using assms by (simp add: client_ok_def dhcp_set_state_def start_trying_def)
  then have "client_ok ?s0" by (simp add: client_ok_def)
  then have c1: "client_ok ?s1" by (rule cancel_pending(1))
  let ?ip = "if source_ip s = 0 then ip else source_ip s"
  let ?fs = "[requested_ip_option ?ip, lease_option]"
  obtain ok s2 where s2: "build_request dhcp_msgtype_request_e (dh_must_broadcast (dh ?s1)) ?fs ?s1 = Some (ok, s2)"
      "client_ok s2" "ok \<Longrightarrow> dh_request (dh s2)"
    by (rule request_made [OF c1, of ?fs]) auto
  let ?s3 = "run [upd (\<lambda>d. d\<lparr>dh_got_nak := False, dh_gathering := False, dh_xid := dh_xid d + 1\<rparr>),
             upd_saved (\<lambda>sp. sp\<lparr>sp_our_ip := ?ip, sp_rating := 0\<rparr>),
             service_enable_autoaddr,
             bootp_client_enable_receive R_init_reboot,
             ServiceSetBusy True] s2"
  have c3: "client_ok ?s3" "dh_request (dh ?s3) = dh_request (dh s2)"
    using s2(2) by (simp_all add: client_ok_def saved_ok_def bootp_client_enable_receive_def)
  have r: "run [upd_lease (li_wifi_mac_is_set_update (\<lambda>_. False)),
                   dhcp_set_state dhcp_cstate_init_reboot_e,
                   \<lambda>s. upd (\<lambda>d. d\<lparr>dh_resolve_router_timed_out := False, dh_allow_wake_with_short_lease := True,
                                   dh_start_secs := now s\<rparr>) s,
                   start_trying,
                   upd (\<lambda>d. d\<lparr>dh_try := 0, dh_wait_secs := G_initial_wait_secs (s_globals s)\<rparr>),
                   dhcp_cancel_pending_events] s = ?s1" by simp
  show ?thesis unfolding init_reboot_start_def Let_def r
    using s2(1,3) failed_good [OF s2(2)] init_reboot_attempt_good [OF c3(1)] c3(2) by auto
qed

lemma init_reboot_timeout_good: "client_ok s \<Longrightarrow> dh_request (dh s) \<Longrightarrow> returns good (init_reboot_timeout s)"
  by (simp add: init_reboot_timeout_def bound_start_good init_reboot_attempt_good)

lemma init_reboot_better_good:
  assumes "good s" "dh_request (dh s)" "received_ok pkt"
  shows "returns good (init_reboot_better pkt r ip ts s)"
proof -
  have cr: "client_ok (service_router_clear s)" using goodD [OF assms(1)] by simp
  obtain s1 where s1: "accept_packet pkt r ip ts (service_router_clear s) = Some s1" "keeps (service_router_clear s) s1"
    using accept_packet_keeps [OF cr assms(3), of r ip ts] by (auto simp: returns_def)
  have k: "keeps s s1" using s1(2) by simp
  have g: "good s1" "dh_request (dh s1)" using keeps_good [OF k assms(1)] keepsD(4) [OF k] assms(2) by simp_all
  show ?thesis
    using s1(1) bound_start_good [OF goodD [OF g(1)]] begin_gathering_good [OF g] by (simp add: init_reboot_better_def)
qed

lemma init_reboot_data_good:
  assumes "good s" "dh_request (dh s)" "received_ok pkt"
  shows "returns good (init_reboot_data pkt s)"
proof -
  have c: "client_ok s" using assms(1) by (rule goodD)
  have "returns (\<lambda>_. True) (dhcpol_count_params (rd_options pkt) (dhcp_params (s_globals s)))"
    using assms(3) by (simp add: count_params_ok received_ok_def)
  note cnt = this
  have ack: "returns good (init_reboot_ack pkt ip s)" for ip
    unfolding init_reboot_ack_def
    by (auto simp: assms(1) wait_start_good [OF c] split: option.split
        intro!: returns_bind [OF ipv6_only_wait_ok [OF assms(3)]] returns_bind [OF received_lease [OF assms(3)]]
          init_reboot_better_good [OF assms] returns_bind [OF cnt])
  have "client_ok (service_publish_failure ipconfig_status_lease_terminated_e s)" using c by simp
  from unbound_good [OF this, of True] show ?thesis
    unfolding init_reboot_data_def
    by (intro returns_bind [OF verify_reply_ok [OF c assms(3)]]) (auto simp: assms(1) ack split: option.split)
qed

lemma adjust_for_time_change_ok:
  "client_ok s \<Longrightarrow> client_ok (adjust_for_time_change s)"
  "dh_request (dh (adjust_for_time_change s)) = dh_request (dh s)"
  by (auto simp: adjust_for_time_change_def Let_def split: prod.split)

lemma renew_rebind_wait_good:
  assumes "client_ok s" "dh_request (dh s)"
  shows "good (renew_rebind_wait t s)"
proof -
  let ?u = "\<lambda>x. upd (dh_renew_rebind_time_update (\<lambda>_. x)) s"
  have "good (set_relative a 0 (T_renew_rebind IFEventID_timeout_e) (?u x))" for a x
    by (rule set_relative_good) (use assms in simp_all)
  then show ?thesis using good_view [OF view_publish(4)] by (simp add: renew_rebind_wait_def Let_def)
qed

lemma renew_rebind_attempt_good:
  assumes "client_ok s0" "dh_request (dh s0)"
  shows "returns good (renew_rebind_attempt s0)"
proof -
  let ?s = "adjust_for_time_change s0"
  have c: "client_ok ?s" "dh_request (dh ?s)" using assms adjust_for_time_change_ok by simp_all
  have send: "returns (\<lambda>t. client_ok t \<and> dh_request (dh t)) (send_request a b (upd (dh_xid_update (\<lambda>x. x + 1)) (dhcp_set_state st ?s)))" for a b st
    by (rule returns_mono [OF send_request_sent]) (use c in \<open>auto simp: sent_from_def\<close>)
  have "client_ok (service_publish_failure ipconfig_status_server_not_responding_e ?s)" using c(1) by simp
  from unbound_good [OF this] show ?thesis
    by (auto simp: renew_rebind_attempt_def Let_def renew_rebind_wait_good intro!: returns_bind [OF send])
qed

lemma renew_rebind_start_good:
  assumes "client_ok s"
  shows "returns good (renew_rebind_start s)"
proof -
  let ?s0 = "dhcp_cancel_pending_events s"
  let ?u = "upd (\<lambda>d. d\<lparr>dh_allow_wake_with_short_lease := False, dh_start_secs := now ?s0\<rparr>) ?s0"
  let ?s1 = "dhcp_set_state dhcp_cstate_renew_e (start_trying ?u)"
  have "client_ok ?s0" using cancel_pending(1) [OF assms] .
  then have "client_ok ?u" by (simp add: client_ok_def)
  then have c1: "client_ok ?s1" by simp
  obtain ok oa s2 p where m: "make_request dhcp_msgtype_request_e False (ServiceCanDoIPv6OnlyPreferred ?s1) ?s1 = Some (ok, oa, s2)"
      "client_ok s2" "area_ok request_area_size oa" "s2 = upd (\<lambda>d. d\<lparr>dh_request := ok, dh_txbuf := p\<rparr>) ?s1"
    using make_request_ok [OF c1, of dhcp_msgtype_request_e False "ServiceCanDoIPv6OnlyPreferred ?s1"] by (auto simp: returns_def)
  have rq: "dh_request (dh s2) = ok" by (simp add: m(4))
  show ?thesis
  proof (cases ok)
    case False
    with m(1,2) failed_good show ?thesis by (simp add: renew_rebind_start_def Let_def)
  next
    case True
    let ?s3 = "upd (dh_txbuf_update (\<lambda>p. p\<lparr>dp_ciaddr := sp_our_ip (saved s2)\<rparr>)) (upd_try (\<lambda>_. 0) s2)"
    have u: "upd_request (\<lambda>p. p\<lparr>dp_ciaddr := sp_our_ip (saved s2)\<rparr>) (upd_try (\<lambda>_. 0) s2) = Some ?s3"
      using True rq by (simp add: upd_request_def)
    have c3: "client_ok ?s3" "dh_request (dh ?s3)" using m(2) True rq by (simp_all add: client_ok_def upd_try_def)
    obtain ok2 s4 p2 n2 where m2: "complete_request [lease_option] (name_to_supply ?s3) False oa ?s3 = Some (ok2, s4)"
        "client_ok s4" "s4 = upd (\<lambda>d. d\<lparr>dh_txbuf := p2, dh_request_size := n2\<rparr>) ?s3"
      using complete_request_ok [OF c3(1) m(3), of "[lease_option]" "name_to_supply ?s3" False] by (auto simp: returns_def)
    have "dh_request (dh s4)" using c3(2) by (simp add: m2(3))
    then have "returns good (renew_rebind_attempt (bootp_client_enable_receive R_renew_rebind s4))"
      by (intro renew_rebind_attempt_good) (simp_all add: m2(2))
    then show ?thesis using True m(1) u m2(1) failed_good [OF m2(2)]
      unfolding renew_rebind_start_def Let_def by simp
  qed
qed

lemma renew_rebind_data_good:
  assumes "good s" "received_ok pkt"
  shows "returns good (renew_rebind_data pkt s)"
proof -
  have c: "client_ok s" using assms(1) by (rule goodD)
  show ?thesis
    unfolding renew_rebind_data_def
    by (rule returns_bind [OF verify_reply_ok [OF c assms(2)]])
      (auto simp: assms(1) terminate_good [OF c] split: option.split
        intro!: returns_bind [OF received_lease [OF assms(2)]] returns_bind [OF accept_packet_keeps [OF c assms(2)]] bound_start_good
        dest: keepsD(1))
qed

section \<open>Routers and links\<close>

lemma set_relative_needs:
  "good s \<Longrightarrow> \<not> needs_request f \<Longrightarrow> good (set_relative a b f s)"
  by (auto simp: good_def) (auto simp: pending_ok_def)

lemma put_requested_ip_ok:
  assumes "pkt_ok 312 p"
  shows "returns (\<lambda>(found, q). pkt_ok 312 q) (put_requested_ip ip p)"
proof -
  obtain l where l: "parsed_options p DHCP_PACKET_MIN = Some l" "dhcpol_ok l"
    using parsed_options_ok [OF assms, of DHCP_PACKET_MIN] by (auto simp: returns_def DHCP_PACKET_MIN_def)
  obtain f where f: "dhcpol_find_with_length l dhcptag_requested_ip_address_e 4 = Some f"
    using find_defined [OF l(2), of dhcptag_requested_ip_address_e] by (auto simp: dhcpol_find_with_length_def)
  let ?w = "dp_sname p @ dp_file p @ dp_options p"
  have len: "length (dp_sname p) = 64" "length (dp_file p) = 128" "length (dp_options p) = 312" "length (dp_chaddr p) = 16"
    using assms by (simp_all add: pkt_ok_def dhcp_layout_def)
  show ?thesis
  proof (cases f)
    case None
    with l f assms show ?thesis by (simp add: put_requested_ip_def)
  next
    case (Some r)
    have "4 \<le> int (length r)" using find_with_length_spec [OF l(2) _ _ f [unfolded Some]] by simp
    then have "length ?w - length r + 4 \<le> length ?w" using len by simp
    then have "\<exists>b. wrn ?w (length ?w - length r) (net_uint32_bytes ip) = Some b"
      by (simp add: wrn_def net_uint32_bytes_def)
    then obtain b where b: "wrn ?w (length ?w - length r) (net_uint32_bytes ip) = Some b" "length b = length ?w"
      using length_wrn by blast
    have "length b = 504" using b(2) len by simp
    with l f Some b(1) len show ?thesis
      by (simp add: put_requested_ip_def Let_def pkt_ok_def dhcp_layout_def)
  qed
qed

lemma retarget_request_good:
  assumes "good s" "dh_request (dh s)"
  shows "returns good (retarget_request ip s)"
proof -
  have c: "client_ok s" using assms(1) by (rule goodD)
  let ?s1 = "upd (dh_xid_update (\<lambda>x. x + 1)) s"
  let ?s2 = "upd (dh_txbuf_update (\<lambda>p. p\<lparr>dp_xid := dh_xid (dh ?s1)\<rparr>)) ?s1"
  have u: "upd_request (\<lambda>p. p\<lparr>dp_xid := dh_xid (dh ?s1)\<rparr>) ?s1 = Some ?s2" using assms(2) by (simp add: upd_request_def)
  have "pkt_ok 312 (dh_txbuf (dh ?s2))" using c by (simp add: client_ok_def)
  then obtain found p where p: "put_requested_ip ip (dh_txbuf (dh ?s2)) = Some (found, p)" "pkt_ok 312 p"
    using put_requested_ip_ok [of "dh_txbuf (dh ?s2)" ip] by (auto simp: returns_def)
  have "retarget_request ip s = Some (if found then upd (\<lambda>d. d\<lparr>dh_txbuf := p, dh_try := 0\<rparr>) ?s2 else ?s2)"
    unfolding retarget_request_def Let_def u bind.bind_lunit p(1) by simp
  moreover have "good ?s2" "good (upd (\<lambda>d. d\<lparr>dh_txbuf := p, dh_try := 0\<rparr>) ?s2)"
    using c assms(2) p(2) by (simp_all add: good_def pending_ok_def client_ok_def)
  ultimately show ?thesis by simp
qed

lemma use_router_keeps:
  assumes "client_ok s"
  shows "returns (keeps s) (use_router s)"
proof -
  have "client_ok (service_router_set_all_valid s)" using assms view_client_ok [OF view_router(3), of s] by simp
  then obtain m where "saved_subnet_mask (service_router_set_all_valid s) = Some m"
    using saved_subnet_mask_ok by (auto simp: returns_def)
  then show ?thesis using keeps_refl [OF assms] by (simp add: use_router_def Let_def)
qed

lemma use_router_good: "good s \<Longrightarrow> returns good (use_router s)"
  using returns_mono [OF use_router_keeps [OF goodD]] keeps_good by blast

lemma router_answered_good:
  assumes "good s" "dh_request (dh s)" "lease_ok l"
  shows "returns good (router_answered l s)"
proof -
  have c: "client_ok s" using assms(1) by (rule goodD)
  have "returns (\<lambda>_. True) (dhcp_get_router_address (sp_options (saved s)) (sp_our_ip (saved s)))"
    using c by (simp add: router_address_ok client_ok_def saved_ok_def)
  note r = returns_obtain [OF this]
  obtain b s1 where s1: "switch_to_lease l False s = Some (b, s1)" "keeps s s1"
    using switch_to_lease_keeps [OF c assms(3), of False] by (auto simp: returns_def)
  have g: "good s1" "dh_request (dh s1)" using keeps_good [OF s1(2) assms(1)] keepsD(4) [OF s1(2)] assms(2) by simp_all
  obtain s2 where "retarget_request (ls_our_ip l) s1 = Some s2" "good s2"
    using retarget_request_good [OF g, of "ls_our_ip l"] by (auto simp: returns_def)
  with r s1(1) use_router_good use_router_good [OF assms(1)] drop_nak_good [OF g(1)] g(1) assms(1) show ?thesis
    by (auto simp: router_answered_def)
qed

lemma arp_router_arp_good:
  assumes "good s" "dh_request (dh s)"
  shows "returns good (arp_router_arp result s)"
proof -
  have "lease_ok (dh_lease_list (dh s) ! i)" if "DHCPLeaseListFindLease (dh_lease_list (dh s)) a b c n = Some i" for a b c n i
  proof -
    have "i < length (dh_lease_list (dh s))" using that find_index_less by (auto simp: DHCPLeaseListFindLease_def)
    then show ?thesis using goodD [OF assms(1)] by (simp add: client_ok_def list_all_length)
  qed
  note l = this
  have "returns good (map_option (\<lambda>(_, s). service_router_set_all_valid s) (switch_to_lease l False s))" if "lease_ok l" for l
    using switch_to_lease_keeps [OF goodD [OF assms(1)] that, of False] good_view [OF view_router(3)] keeps_good [OF _ assms(1)]
    by (auto simp: returns_def)
  then show ?thesis
    by (auto simp: arp_router_arp_def Let_def drop_nak_good assms l router_answered_good split: option.split)
qed

lemma resolve_router_retry_good:
  assumes "good s"
  shows "good (resolve_router_retry s)"
proof -
  obtain b t where t: "service_resolve_router (sp_our_ip (saved s)) s = (b, t)" by fastforce
  then show ?thesis using resolve_router_ok [OF goodD [OF assms] t] assms
    by (auto simp: resolve_router_retry_def good_def pending_ok_def split: if_splits)
qed

lemma returns_keeps_good: "good s \<Longrightarrow> returns (keeps s) r \<Longrightarrow> returns good r"
  by (erule returns_mono) (rule keeps_good)

lemma resolve_router_callback_good:
  assumes "good s"
  shows "returns good (resolve_router_callback status s)"
proof (cases status)
  case router_arp_status_no_response_e
  let ?s1 = "set_relative 60 0 T_resolve_router_retry (ServiceSetBusy False s)"
  have g: "good ?s1" using assms by (simp add: set_relative_needs)
  let ?s2 = "dhcp_publish_success (upd (dh_resolve_router_timed_out_update (\<lambda>_. True)) ?s1)"
  have "good ?s2" using g good_view [OF view_publish(12)] by simp
  from returns_keeps_good [OF this lease_save_keeps [OF goodD [OF this]]] g router_arp_status_no_response_e show ?thesis
    by (simp add: resolve_router_callback_def Let_def)
qed (use assms returns_keeps_good [OF _ save_and_publish_keeps [OF goodD]] in \<open>simp_all add: resolve_router_callback_def\<close>)

lemma resolve_router_arp_good:
  assumes "good s" "length (ai_target_hardware (ar_addr result)) = 16"
  shows "returns good (resolve_router_arp result s)"
proof -
  let ?s = "service_router_flags_clear_specific RIFLAGS_RESOLVE_IN_PROGRESS s"
  have g: "good ?s" using assms(1) good_view [OF view_router(2)] by simp
  have "length (ci_link_address (s_if ?s)) \<le> 16" using goodD [OF g] by (simp add: client_ok_def)
  then have "returns (keeps ?s) (copy_hwaddr (ai_target_hardware (ar_addr result)) (length (ci_link_address (s_if ?s))) ?s)"
    by (intro copy_hwaddr_keeps [OF goodD [OF g]]) (simp_all add: assms(2))
  from returns_keeps_good [OF g this]
  have "returns (\<lambda>(st, t). good t) (service_resolve_router_complete result s)"
    using g good_view [OF view_router(1)] good_view [OF view_router(3)]
    by (auto simp: service_resolve_router_complete_def Let_def intro!: returns_bind)
  then show ?thesis unfolding resolve_router_arp_def
    by (rule returns_bind) (auto intro: resolve_router_callback_good)
qed

lemma check_network_keeps:
  assumes "client_ok s"
  shows "returns (keeps s) (check_network s)"
proof -
  have give: "keeps s (give_up_address t) = keeps s t" for t by (simp add: give_up_address_def)
  have "lease_ok (dh_lease_list (dh s) ! i)" if "DHCPLeaseListFindLeaseForWiFi (dh_lease_list (dh s)) a b = Some i" for a b i
    using wifi_scan_less [OF that [unfolded DHCPLeaseListFindLeaseForWiFi_def]] assms by (simp add: client_ok_def list_all_length)
  then have "returns (keeps s) (map_option (\<lambda>(_, s). upd_try (\<lambda>_. 0) s) (switch_to_lease (dh_lease_list (dh s) ! i) False s))"
    if "DHCPLeaseListFindLeaseForWiFi (dh_lease_list (dh s)) a b = Some i" for a b i
    using switch_to_lease_keeps [OF assms, of _ False] that by (fastforce simp: returns_def)
  then show ?thesis
    using keeps_refl [OF assms] by (auto simp: check_network_def Let_def give split: option.split bool.split)
qed

lemma check_link_good:
  assumes "good s"
  shows "returns good (check_link_with_status evid ls s)"
proof -
  have c: "client_ok s" using assms by (rule goodD)
  have "client_ok (upd (\<lambda>d. d\<lparr>dh_try := 0, dh_state := dhcp_cstate_inactive_e\<rparr>) s)" using c by (simp add: client_ok_def)
  then have down: "good (dhcp_cancel_pending_events (upd (\<lambda>d. d\<lparr>dh_try := 0, dh_state := dhcp_cstate_inactive_e\<rparr>) s))"
    using cancel_pending by (blast intro: resting_good)
  have ca: "client_ok (allow_warning s)" using c by simp
  obtain s1 where s1: "check_network (allow_warning s) = Some s1" "keeps (allow_warning s) s1"
    using check_network_keeps [OF ca] by (auto simp: returns_def)
  obtain v s2 where s2: "dhcp_check_lease s1 = (v, s2)" by fastforce
  have k1: "keeps s s1" using s1(2) by simp
  have k2: "keeps s s2" using keeps_trans [OF k1 check_lease_keeps [OF keepsD(1) [OF k1] s2]] .
  have "returns good (init_reboot_start ip s2)" "returns good (init_start s2)" "good s2" for ip
    using init_reboot_start_good init_start_good keepsD(1) [OF k2] keeps_good [OF k2 assms] by blast+
  then show ?thesis using down s1(1) s2 by (auto simp: check_link_with_status_def Let_def)
qed

lemma dhcp_check_link_good: "good s \<Longrightarrow> returns good (dhcp_check_link evid s)"
  by (simp add: dhcp_check_link_def check_link_good)

lemma check_router_start_good:
  assumes "good s" "length (ai_target_hardware info) = 16"
  shows "returns good (check_router_start info s)"
proof -
  let ?s = "ServiceSetBusy True s"
  have c: "client_ok ?s" using goodD [OF assms(1)] by simp
  have "good t" if "arp_started A_check_router ?s t" for t
    using that assms(1) by (auto simp: arp_started_def good_def pending_ok_def)
  then show ?thesis
    unfolding check_router_start_def Let_def
    by (intro returns_mono [OF detect_started [OF c]]) (simp_all add: assms(2))
qed

lemma resume_renewal_good: "good s \<Longrightarrow> returns good (resume_renewal b s)"
  by (simp add: resume_renewal_def set_relative_needs renew_rebind_start_good goodD)

lemma check_router_arp_good: "good s \<Longrightarrow> returns good (check_router_arp result s)"
  by (simp add: check_router_arp_def Let_def dhcp_check_link_good resume_renewal_good)

lemma delayed_start_good: "good s \<Longrightarrow> returns good (dhcp_delayed_start s)"
  by (simp add: dhcp_delayed_start_def init_reboot_start_good goodD dhcp_check_link_good)

section \<open>Events of the daemon\<close>

lemma arp_collision_good:
  assumes "good s"
  shows "returns good (thread_arp_collision ip b s)"
proof -
  obtain d s1 where s1: "ServiceDefendIPv4Address b s = (d, s1)" by fastforce
  have g: "good s1" using good_view [OF view_defend [OF s1]] assms by simp
  have "client_ok (service_publish_failure ipconfig_status_address_in_use_e (dhcp_lease_clear False s1))"
    using keepsD(1) [OF lease_clear_keeps [OF goodD [OF g]]] by simp
  from decline_good [OF this] g s1 assms show ?thesis by (simp add: thread_arp_collision_def)
qed

lemma link_changed_good: "good s \<Longrightarrow> returns good (thread_link_changed evid info ls s)"
  using good_view [OF view_publish(6)] good_view [OF view_more(5)]
  by (auto simp: thread_link_changed_def intro!: check_link_good)

lemma sleep_good: "good s \<Longrightarrow> returns good (thread_sleep s)"
  by (auto simp: thread_sleep_def intro: returns_keeps_good lease_save_keeps goodD)

lemma populate_arpinfo_ok:
  assumes "good s" "service_populate_router_arpinfo s = (i, t)"
  shows "good t" "\<And>x. i = Some x \<Longrightarrow> length (ai_target_hardware x) = 16"
proof -
  have v: "view t = view s" using assms(2) by (auto simp: service_populate_router_arpinfo_def Let_def split: if_splits)
  then show g: "good t" using assms(1) good_view by blast
  show "length (ai_target_hardware x) = 16" if "i = Some x" for x
    using that assms(2) goodD [OF g] by (auto simp: service_populate_router_arpinfo_def Let_def client_ok_def split: if_splits)
qed

lemma wake_with_lease_good:
  assumes "good s"
  shows "returns good (wake_with_lease info s)"
proof -
  obtain i t where t: "(if info = kLinkInfoBSSIDChanged then service_populate_router_arpinfo s else (None, s)) = (i, t)" by fastforce
  then have g: "good t" "\<And>x. i = Some x \<Longrightarrow> length (ai_target_hardware x) = 16"
    using populate_arpinfo_ok [OF assms] assms by (auto split: if_splits)
  show ?thesis unfolding wake_with_lease_def Let_def t
    using init_reboot_start_good [OF goodD [OF assms]] g check_router_start_good resume_renewal_good
    by (auto split: option.split)
qed

lemma wake_good:
  assumes "good s"
  shows "returns good (thread_wake info ls s)"
proof -
  obtain v s1 where s1: "dhcp_check_lease s = (v, s1)" by fastforce
  have g: "good s1" using keeps_good [OF check_lease_keeps [OF goodD [OF assms] s1] assms] .
  have "good (network_changed s)" using good_view [OF view_more(5)] assms by simp
  with g assms s1 wake_with_lease_good [OF g] init_start_good [OF goodD [OF g]] check_link_good show ?thesis
    by (auto simp: thread_wake_def)
qed

lemma bssid_changed_good:
  assumes "good s"
  shows "returns good (thread_bssid_changed s)"
proof -
  obtain i t where t: "service_populate_router_arpinfo s = (i, t)" by fastforce
  show ?thesis using assms populate_arpinfo_ok [OF assms t] check_router_start_good t
    by (auto simp: thread_bssid_changed_def split: option.split)
qed

lemma forget_ssid_good:
  assumes "good s"
  shows "returns good (thread_forget_ssid ssid s)"
proof -
  let ?s1 = "upd (dh_lease_list_update (\<lambda>ls. DHCPLeaseListRemoveLeaseForWiFi ls ssid None)) s"
  have g1: "good ?s1" using assms by (simp add: good_def pending_ok_def client_ok_def remove_wifi_ok)
  have free: "good (free_options t)" if "good t" for t
    using that by (simp add: good_def pending_ok_def free_options_def client_ok_def saved_ok_def)
  obtain s2 where s2: "dhcp_release ?s1 = Some s2" "good s2" using release_good [OF g1] by (auto simp: returns_def)
  have "good (free_options (service_publish_failure ipconfig_status_lease_terminated_e (service_remove_address s2)))"
    using s2(2) by (intro free) simp
  then have "good (ServiceSetBusy False (dhcp_lease_set_networkID None (dhcp_lease_set_ssid None
      (free_options (service_publish_failure ipconfig_status_lease_terminated_e (service_remove_address s2))))))"
    by (simp add: good_def) (simp add: pending_ok_def upd_defs)
  from set_relative_needs [OF this] g1 s2(1) show ?thesis by (simp add: thread_forget_ssid_def Let_def)
qed

lemma active_during_sleep_good:
  assumes "good s" "dhcp_handle_active_during_sleep a b s = (c, t)"
  shows "good t"
proof -
  have w: "good (upd (dh_wake_time_update g) u) = good u" for g u by (simp add: good_def pending_ok_def client_ok_def)
  have "good (cancel_wake s)" using assms(1) by (simp add: cancel_wake_def)
  moreover have "good u" if "try_call (cancel_wake s) = (ok, u)" for ok u
    using calculation good_view [OF view_try_call [OF that]] by simp
  ultimately show ?thesis using assms
    by (auto simp: dhcp_handle_active_during_sleep_def Let_def w split: prod.splits if_splits)
qed

section \<open>Timers, ARP results, packets\<close>

lemma call_timer_good:
  assumes "good s" "needs_request f \<Longrightarrow> dh_request (dh s)"
  shows "returns good (call_timer f s)"
  using assms goodD [OF assms(1)]
  by (cases f) (auto simp: delayed_start_good init_start_good init_timeout_good init_reboot_timeout_good select_attempt_good
      renew_rebind_start_good renew_rebind_attempt_good dhcp_check_link_good resolve_router_retry_good)

lemma timer_fires_good:
  assumes "good s"
  shows "returns good (timer_fires s)"
proof -
  let ?s = "upd (dh_timer_update (\<lambda>_. (dh_timer (dh s))\<lparr>tm_enabled := False\<rparr>)) s"
  have g: "good ?s" "good (upd (dh_timer_update (\<lambda>_. dh_timer (dh s))) s)"
    using assms by (auto simp: good_def pending_ok_def client_ok_def)
  have "needs_request f \<Longrightarrow> dh_request (dh ?s)" if "tm_func (dh_timer (dh s)) = Some f" "tm_enabled (dh_timer (dh s))" for f
    using assms that by (auto simp: good_def pending_ok_def)
  with g call_timer_good [OF g(1)] show ?thesis
    by (auto simp: timer_fires_def timer_callout_process_def)
qed

lemma arp_delivers_good:
  assumes "good s" "ac_callback_source (dh_arp (dh s))"
  shows "returns good (arp_delivers s)"
proof -
  have cb: "ac_callback_source (x_client (arp_ctx_of s))" using assms(2) by (simp add: arp_ctx_of_def)
  obtain f result y where y: "arp_client_do_callback (arp_ctx_of s) = Some (f, result, y)" "arp_ok y"
      "ac_func (x_client (arp_ctx_of s)) = Some f" "ac_func (x_client y) = None" "length (ai_target_hardware (ar_addr result)) = 16"
    by (rule callback_ok [OF client_ok_arp [OF goodD [OF assms(1)]] cb])
  have f: "ac_func (dh_arp (dh s)) = Some f" using y(3) by (simp add: arp_ctx_of_def)
  have g: "good (put_arp y s)" using put_arp_ok [OF goodD [OF assms(1)] y(2)] assms(1) y(4)
    by (auto simp: good_def pending_ok_def)
  have rq: "dh_request (dh (put_arp y s))" if "f = A_arp_router" using assms(1) f that by (auto simp: good_def pending_ok_def)
  have "returns good (call_arp f result (put_arp y s))"
    using g rq y(5)
    by (cases f) (simp_all add: arp_router_arp_good bound_arp_good check_router_arp_good resolve_router_arp_good)
  with y(1) show ?thesis by (simp add: arp_delivers_def)
qed

lemma arp_timer_good:
  assumes "good s" "tm_enabled (ac_timer (dh_arp (dh s)))"
  shows "returns good (arp_do_opt arp_timer_fires s)"
proof -
  have t: "tm_enabled (ac_timer (x_client (arp_ctx_of s)))" using assms(2) by (simp add: arp_ctx_of_def)
  obtain y where y: "arp_timer_fires (arp_ctx_of s) = Some y" "arp_ok y" "ac_func (x_client y) = ac_func (dh_arp (dh s))"
    using arp_timer_ok [OF client_ok_arp [OF goodD [OF assms(1)]] t] by (auto simp: returns_def arp_ctx_of_def)
  have "good (put_arp y s)" using put_arp_ok [OF goodD [OF assms(1)] y(2)] assms(1) y(3)
    by (auto simp: good_def pending_ok_def)
  with y(1) show ?thesis by (simp add: arp_do_opt_def)
qed

lemma arp_reads_good:
  assumes "good s" "\<And>ps. r = ReadPackets ps \<Longrightarrow> list_all (arp_packet_ok (s_arp_if s)) ps"
  shows "returns good (arp_reads r s)"
proof -
  have x: "x_if (arp_ctx_of s) = s_arp_if s" "x_client (arp_ctx_of s) = dh_arp (dh s)" by (simp_all add: arp_ctx_of_def)
  have "\<And>ps. r = ReadPackets ps \<Longrightarrow> \<forall>p \<in> set ps. arp_packet_ok (x_if (arp_ctx_of s)) p"
    using assms(2) by (simp add: x list_all_iff)
  from session_read_ok [OF client_ok_arp [OF goodD [OF assms(1)]] this, where w = "s_world s"]
  obtain c where c: "arp_if_session_read (s_world s) (s_arp_if s) r [dh_arp (dh s)] = Some [c]"
      "arp_ok ((arp_ctx_of s)\<lparr>x_client := c\<rparr>)" "ac_func c = ac_func (dh_arp (dh s))"
    by (auto simp: returns_def x)
  have "good (upd (dh_arp_update (\<lambda>_. c)) s)"
    using assms(1) c(2,3) by (auto simp: good_def pending_ok_def client_ok_def arp_ok_def x)
  with c(1) show ?thesis by (simp add: arp_reads_def)
qed

text \<open>A datagram becomes a packet that the receive function, if there is one, can read.\<close>

lemma deliver_cases:
  assumes "length junk = sizeof_receive_buf" "length datagram + 4 \<le> sizeof_receive_buf"
  obtains "bootp_session_deliver datagram junk s = Some s"
  | f pkt where "dh_receive (dh s) = Some f" "received_ok pkt" "bootp_session_deliver datagram junk s = call_receive f pkt s"
proof -
  let ?n = "min (length datagram) sizeof_receive_buf"
  let ?buf = "take ?n datagram @ take (sizeof_receive_buf - ?n) junk"
  have "length ?buf = 236 + 1264" using assms by (simp add: sizeof_receive_buf_def)
  then obtain p where p: "packet_of_bytes ?buf = Some p" "pkt_ok 1264 p"
    using packet_of_bytes_ok [of ?buf 1264] by (auto simp: returns_def)
  have n: "0 \<le> int ?n" "int ?n + 4 \<le> 236 + int 1264" "int ?n \<le> 1500" using assms(2) by (simp_all add: sizeof_receive_buf_def)
  obtain l where l: "parsed_options p (int ?n) = Some l" "dhcpol_ok l" "\<exists>t. is_dhcp_packet l = Some t"
    using received_options_ok [OF p(2) n(1,2)] by (auto simp: returns_def)
  let ?r = "\<lparr>rd_data = p, rd_size = int ?n, rd_options = l\<rparr>"
  have "received_ok ?r" using p(2) l(2,3) n by (simp add: received_ok_def)
  with that show ?thesis using p(1) l(1) unfolding bootp_session_deliver_def Let_def
    by (cases "int ?n < sizeof_dhcp"; cases "dh_receive (dh s)") simp_all
qed

lemma call_receive_good:
  assumes "good s" "dh_receive (dh s) = Some f" "received_ok pkt"
  shows "returns good (call_receive f pkt s)"
proof -
  have "dh_request (dh s)" using assms(1,2) by (auto simp: good_def pending_ok_def)
  with assms show ?thesis
    by (cases f) (simp_all add: init_data_good init_reboot_data_good select_data_good renew_rebind_data_good)
qed

lemma deliver_good:
  assumes "good s" "length junk = sizeof_receive_buf" "length datagram + 4 \<le> sizeof_receive_buf"
  shows "returns good (bootp_session_deliver datagram junk s)"
  by (rule deliver_cases [OF assms(2,3), of s]) (simp_all add: assms(1) call_receive_good)

section \<open>Starting and stopping\<close>

definition not_started :: "service \<Rightarrow> bool" where
  "not_started s \<longleftrightarrow> \<not> s_private s \<and> globals_ok (s_globals s) \<and> length (ci_link_address (s_if s)) \<le> 16 \<and>
     length (ri_hwaddr (router s)) = 16 \<and> arp_if_ok (s_arp_if s) False"

definition client_inv :: "service \<Rightarrow> bool" where
  "client_inv s \<longleftrightarrow> (if s_private s then good s else not_started s)"

lemma good_private: "good s \<Longrightarrow> s_private s"
  by (simp add: good_def client_ok_def)

lemma good_inv: "good s \<Longrightarrow> client_inv s"
  by (simp add: client_inv_def good_private)

lemma returns_good_inv: "returns good r \<Longrightarrow> returns client_inv r"
  by (erule returns_mono) (rule good_inv)

lemma new_dhcp_ok:
  assumes "not_started s"
  shows "client_ok (s\<lparr>s_private := True, s_dhcp := new_dhcp s\<rparr>)" "resting (s\<lparr>s_private := True, s_dhcp := new_dhcp s\<rparr>)"
proof -
  have p: "pkt_ok 312 (cleared_packet DHCP_PACKET_MIN)" "pkt_ok 1264 (cleared_packet sizeof_saved_pkt)"
    by (simp_all add: pkt_ok_def dhcp_layout_def cleared_packet_def cleared_request_def DHCP_PACKET_MIN_def sizeof_dhcp_def sizeof_saved_pkt_def)
  have d: "dhcpol_ok dhcpol_init" by (simp add: dhcpol_ok_def dhcpol_init_def)
  from assms p d show "client_ok (s\<lparr>s_private := True, s_dhcp := new_dhcp s\<rparr>)"
    by (simp add: client_ok_def not_started_def new_dhcp_def cleared_saved_def saved_ok_def arp_client_ok_def
        arp_if_session_new_client_def timer_callout_init_def no_address_info_def)
  show "resting (s\<lparr>s_private := True, s_dhcp := new_dhcp s\<rparr>)"
    by (simp add: resting_def new_dhcp_def arp_if_session_new_client_def timer_callout_init_def)
qed

lemma thread_start_result:
  assumes "not_started s" "ci_link_type (s_if s) \<in> {IFT_ETHER, IFT_L2VLAN, IFT_IEEE8023ADLAG}" "\<not> ci_loopback (s_if s)"
  obtains u where "thread_start cid s = Some (ipconfig_status_success_e, set_relative 0 0 T_delayed_start u)"
    "client_ok u" "resting u" "dh_state (dh u) = dhcp_cstate_inactive_e"
proof -
  let ?s0 = "s\<lparr>s_private := True, s_dhcp := new_dhcp s\<rparr>"
  let ?s1 = "service_enable_autoaddr (service_router_clear (dhcp_invalidate_lease ?s0))"
  have "keeps ?s0 ?s1" using new_dhcp_ok(1) [OF assms(1)] by (simp add: keeps_refl)
  then have c1: "client_ok ?s1" "resting ?s1" "dh_state (dh ?s1) = dhcp_cstate_inactive_e"
    using keepsD(1,2,5) [of ?s0 ?s1] new_dhcp_ok(2) [OF assms(1)] by (simp_all add: new_dhcp_def)
  have ty: "s_if (dhcp_invalidate_lease u) = s_if u" for u by (simp add: upd_defs)
  have a: "arp_client_init ?s1 = (True, ?s1)" using assms(2) by (simp add: arp_client_init_def ty)
  let ?s2 = "upd (dh_client_id_update (\<lambda>_. if cid = Some [] then None else cid)) ?s1"
  obtain xid w where x: "random_upto 0xffffffff (s_world ?s2) = (xid, w)" by fastforce
  let ?s3 = "upd (\<lambda>d. d\<lparr>dh_lease_list := [], dh_xid := word_of_nat xid\<rparr>) (?s2\<lparr>s_world := w\<rparr>)"
  have c3: "client_ok ?s3" "resting ?s3" "dh_state (dh ?s3) = dhcp_cstate_inactive_e"
    using c1 by (simp_all add: client_ok_def resting_def)
  have "returns (keeps ?s3) (if ServiceIsNetBoot ?s3 then Some ?s3 else recover_lease ?s3)"
    using recover_lease_keeps [OF c3(1)] keeps_refl [OF c3(1)] by simp
  then obtain s4 where s4: "(if ServiceIsNetBoot ?s3 then Some ?s3 else recover_lease ?s3) = Some s4" "keeps ?s3 s4"
    by (auto simp: returns_def)
  have d: "dhcp_start ?s2 = Some (set_relative 0 0 T_delayed_start s4)"
    unfolding dhcp_start_def Let_def x prod.case s4(1) by simp
  have k: "client_ok s4" "resting s4" "dh_state (dh s4) = dhcp_cstate_inactive_e"
    using keepsD(1,2,5) [OF s4(2)] c3(2,3) by simp_all
  show ?thesis
    by (rule that [OF _ k]) (use assms a d in \<open>simp add: thread_start_def not_started_def Let_def\<close>)
qed

lemma thread_start_ok:
  assumes "not_started s" "ci_link_type (s_if s) \<in> {IFT_ETHER, IFT_L2VLAN, IFT_IEEE8023ADLAG}"
  shows "returns (\<lambda>(st, t). client_inv t) (thread_start cid s)"
proof (cases "ci_loopback (s_if s)")
  case True
  with assms(1) show ?thesis by (simp add: thread_start_def client_inv_def not_started_def)
next
  case False
  obtain u where u: "thread_start cid s = Some (ipconfig_status_success_e, set_relative 0 0 T_delayed_start u)"
      "client_ok u" "resting u"
    by (rule thread_start_result [OF assms False]) (rule that, assumption+)
  have "good (set_relative 0 0 T_delayed_start u)" by (rule set_relative_good) (use u in simp_all)
  then show ?thesis by (simp add: u(1) good_inv)
qed

lemma thread_stop_ok:
  assumes "good s"
  shows "returns (\<lambda>(st, t). client_inv t) (thread_stop s)"
proof -
  obtain s1 where s1: "dhcp_release s = Some s1" "good s1" using release_good [OF assms] by (auto simp: returns_def)
  let ?s2 = "dhcp_failed ipconfig_status_media_inactive_e s1"
  have c: "client_ok ?s2" "resting ?s2" using failed_ok [OF goodD [OF s1(2)]] by simp_all
  have "\<not> ac_fd_open (dh_arp (dh ?s2))"
  proof -
    let ?u = "bootp_client_disable_receive (upd (\<lambda>d. d\<lparr>dh_timer := timer_cancel (s_world s1) (dh_timer d)\<rparr>) s1)"
    have "client_ok ?u" using goodD [OF s1(2)] by (simp add: client_ok_def bootp_client_disable_receive_def)
    from cancel_ok(6) [OF client_ok_arp [OF this]] show ?thesis
      by (simp add: dhcp_failed_def dhcp_cancel_pending_events_def arp_do_def free_options_def dhcp_set_state_def)
  qed
  with c(1) have "client_inv (?s2\<lparr>s_private := False\<rparr>)" by (simp add: client_inv_def not_started_def client_ok_def)
  with s1(1) good_private [OF assms] show ?thesis by (simp add: thread_stop_def)
qed

lemma inactive_inv: "good s \<Longrightarrow> good (dhcp_inactive s)"
  by (rule inactive_good) (rule goodD)

lemma dhcp_thread_good:
  assumes "good s" "\<And>cid. e \<noteq> StartEvent cid" "e \<noteq> StopEvent"
  shows "returns (\<lambda>(st, a, t). good t) (dhcp_thread e s)"
  using assms good_private [OF assms(1)]
  by (cases e)
    (auto simp: if_started_def must_be_started_def succeed_def arp_collision_good link_changed_good inactive_inv sleep_good
      wake_good bssid_changed_good forget_ssid_good intro: active_during_sleep_good split: prod.split)

lemma config_method_good:
  assumes "good s" "\<And>cid. e \<noteq> StartEvent cid" "e \<noteq> StopEvent"
  shows "returns (\<lambda>(st, a, t). good t) (config_method e s)"
proof -
  have "good (service_router_clear_arp_verified s)" using assms(1) good_view [OF view_router(5)] by simp
  note g = dhcp_thread_good [OF this] dhcp_thread_good [OF assms(1)]
  show ?thesis using assms(2,3) g by (cases e) (simp_all del: dhcp_thread.simps)
qed

section \<open>Steps\<close>

lemma client_step_inv:
  assumes "client_inv s" "enabled e s" "foreseen e s"
  shows "returns client_inv (client_step e s)"
proof (cases e)
  case (Method m)
  show ?thesis
  proof (cases "s_private s")
    case True
    then have g: "good s" using assms(1) by (simp add: client_inv_def)
    show ?thesis
    proof (cases m)
      case (StartEvent cid)
      then show ?thesis using True assms(1) by (simp add: Method thread_start_def plain_def)
    next
      case StopEvent
      then show ?thesis using thread_stop_ok [OF g] by (auto simp: Method plain_def returns_def)
    qed (use config_method_good [OF g, of m] in \<open>auto simp: Method returns_def good_inv simp del: config_method.simps\<close>)
  next
    case False
    then have n: "not_started s" using assms(1) by (simp add: client_inv_def)
    from False assms(2) Method consider "m = StopEvent" | cid where "m = StartEvent cid" by auto
    then show ?thesis
    proof cases
      case 1
      with False assms(1) show ?thesis by (simp add: Method plain_def thread_stop_def)
    next
      case (2 cid)
      then show ?thesis using thread_start_ok [OF n, of cid] assms(3) by (auto simp: Method plain_def returns_def)
    qed
  qed
next
  case (ArpReads r)
  then have g: "good s" using assms(1,2) by (simp add: client_inv_def)
  have "\<And>ps. r = ReadPackets ps \<Longrightarrow> list_all (arp_packet_ok (s_arp_if s)) ps" using assms(3) ArpReads by simp
  from returns_mono [OF arp_reads_good [OF g this] good_inv] show ?thesis by (simp add: ArpReads)
next
  case (Receives d j)
  then show ?thesis using assms by (simp add: client_inv_def [of s])
    (auto intro: returns_good_inv deliver_good)
next
  case TimerFires
  then show ?thesis using assms by (simp add: client_inv_def [of s])
    (auto intro: returns_good_inv timer_fires_good)
next
  case ArpTimerFires
  then show ?thesis using assms by (simp add: client_inv_def [of s])
    (auto intro: returns_good_inv arp_timer_good)
next
  case ArpDelivers
  then show ?thesis using assms by (simp add: client_inv_def [of s])
    (auto intro: returns_good_inv arp_delivers_good)
qed (use assms in \<open>auto simp: client_inv_def not_started_def good_def client_ok_def pending_ok_def split: if_splits\<close>)

lemma client_steps_inv: "client_steps s0 es s \<Longrightarrow> client_inv s0 \<Longrightarrow> client_inv s"
  by (induction rule: client_steps.induct) (auto dest!: client_step_inv simp: returns_def)

end
