(* ===== verification/ClientProgress.thy ===== *)
theory ClientProgress
  imports ClientSafety
begin

text \<open>
  What the DHCP client waits for fits the state it is in, and a state that tries to get or keep an address
  has a timer: the client does not stop trying.
\<close>

section \<open>What is pending in which state\<close>

fun timer_fits :: "dhcp_timer \<Rightarrow> dhcp_cstate \<Rightarrow> bool" where
  "timer_fits T_delayed_start st \<longleftrightarrow> st = dhcp_cstate_inactive_e"
| "timer_fits (T_init evid) st \<longleftrightarrow>
     st = dhcp_cstate_init_e \<or>
     evid = IFEventID_start_e \<and> st \<in> {dhcp_cstate_select_e, dhcp_cstate_decline_e, dhcp_cstate_unbound_e}"
| "timer_fits T_init_reboot st \<longleftrightarrow> st = dhcp_cstate_init_reboot_e"
| "timer_fits T_select st \<longleftrightarrow> st = dhcp_cstate_select_e"
| "timer_fits (T_renew_rebind evid) st \<longleftrightarrow>
     st \<in> {dhcp_cstate_renew_e, dhcp_cstate_rebind_e} \<or> evid = IFEventID_start_e \<and> st = dhcp_cstate_bound_e"
| "timer_fits T_wait st \<longleftrightarrow> st = dhcp_cstate_inactive_e"
| "timer_fits (T_check_link evid) st \<longleftrightarrow> False"
| "timer_fits T_resolve_router_retry st \<longleftrightarrow> st = dhcp_cstate_bound_e"

fun arp_fits :: "dhcp_arp_func \<Rightarrow> dhcp_cstate \<Rightarrow> bool" where
  "arp_fits A_arp_router st \<longleftrightarrow> st \<in> {dhcp_cstate_init_e, dhcp_cstate_init_reboot_e}"
| "arp_fits A_bound st \<longleftrightarrow> st = dhcp_cstate_bound_e"
| "arp_fits A_check_router st \<longleftrightarrow> st \<in> {dhcp_cstate_bound_e, dhcp_cstate_renew_e, dhcp_cstate_rebind_e}"
| "arp_fits A_resolve_router st \<longleftrightarrow> st = dhcp_cstate_bound_e"

fun receive_fits :: "dhcp_receiver \<Rightarrow> dhcp_cstate \<Rightarrow> bool" where
  "receive_fits R_init st \<longleftrightarrow> st = dhcp_cstate_init_e"
| "receive_fits R_init_reboot st \<longleftrightarrow> st = dhcp_cstate_init_reboot_e"
| "receive_fits R_select st \<longleftrightarrow> st = dhcp_cstate_select_e"
| "receive_fits R_renew_rebind st \<longleftrightarrow> st \<in> {dhcp_cstate_renew_e, dhcp_cstate_rebind_e}"

definition others_fit :: "service \<Rightarrow> bool" where
  "others_fit s \<longleftrightarrow>
     (\<forall>a. ac_func (dh_arp (dh s)) = Some a \<longrightarrow> arp_fits a (dh_state (dh s))) \<and>
     (\<forall>r. dh_receive (dh s) = Some r \<longrightarrow> receive_fits r (dh_state (dh s)))"

definition trying :: "dhcp_cstate \<Rightarrow> bool" where
  "trying st \<longleftrightarrow> st \<in> {dhcp_cstate_init_e, dhcp_cstate_select_e, dhcp_cstate_init_reboot_e, dhcp_cstate_renew_e,
     dhcp_cstate_rebind_e, dhcp_cstate_decline_e, dhcp_cstate_unbound_e}"

definition live :: "service \<Rightarrow> bool" where
  "live s \<longleftrightarrow> others_fit s \<and>
     (if tm_enabled (dh_timer (dh s)) then \<exists>f. tm_func (dh_timer (dh s)) = Some f \<and> timer_fits f (dh_state (dh s))
      else \<not> trying (dh_state (dh s)))"

lemma resting_others: "resting s \<Longrightarrow> others_fit s"
  by (simp add: resting_def others_fit_def)

lemma resting_live: "resting s \<Longrightarrow> \<not> trying (dh_state (dh s)) \<Longrightarrow> live s"
  by (simp add: live_def resting_others) (simp add: resting_def)

lemma keeps_others: "keeps s t \<Longrightarrow> others_fit t = others_fit s"
  by (simp add: keeps_def others_fit_def)

lemma keeps_live: "keeps s t \<Longrightarrow> live s \<Longrightarrow> live t"
  by (simp add: live_def keeps_others) (simp add: keeps_def)

lemma live_others: "live s \<Longrightarrow> others_fit s"
  by (simp add: live_def)

lemma live_view: "view s = view t \<Longrightarrow> live s = live t"
  by (simp add: live_def others_fit_def viewD(6) [of s t])

lemma live_neutral [simp]:
  "live (act a t) = live t" "live (service_remove_address t) = live t"
  "live (service_router_clear t) = live t" "live (service_publish_failure st t) = live t"
  "live (ServiceSetBusy b t) = live t" "live (service_disable_autoaddr t) = live t"
  by (rule live_view, simp)+

lemma others_view: "view s = view t \<Longrightarrow> others_fit s = others_fit t"
  by (simp add: others_fit_def viewD(6) [of s t])

lemma others_neutral [simp]:
  "others_fit (act a t) = others_fit t" "others_fit (service_remove_address t) = others_fit t"
  "others_fit (service_router_clear t) = others_fit t" "others_fit (service_publish_failure st t) = others_fit t"
  "others_fit (ServiceSetBusy b t) = others_fit t" "others_fit (service_disable_autoaddr t) = others_fit t"
  by (rule others_view, simp)+

lemma set_relative_live:
  "others_fit s \<Longrightarrow> timer_fits f (dh_state (dh s)) \<Longrightarrow> live (set_relative a b f s)"
  by (simp add: live_def others_fit_def)

lemma wait_for_response_live:
  "others_fit s \<Longrightarrow> timer_fits f (dh_state (dh s)) \<Longrightarrow> live (wait_for_response r f s)"
  by (auto simp: wait_for_response_def Let_def double_wait_def live_def others_fit_def set_relative_def split: prod.split)

lemma returns_keeps_live: "live s \<Longrightarrow> returns (keeps s) r \<Longrightarrow> returns live r"
  by (erule returns_mono) (rule keeps_live)

lemma state_upd [simp]:
  "dh_state (dh (upd_lease g s)) = dh_state (dh s)" "dh_state (dh (upd_try n s)) = dh_state (dh s)"
  "dh_state (dh (start_trying s)) = dh_state (dh s)" "dh_state (dh (bootp_client_enable_receive r s)) = dh_state (dh s)"
  "dh_state (dh (dhcp_set_state st s)) = st" "dh_state (dh (dhcp_invalidate_lease s)) = dh_state (dh s)"
  "dh_state (dh (upd_saved h s)) = dh_state (dh s)" "dh_state (dh (dhcp_adjust_lease_info t s)) = dh_state (dh s)"
  "dh_state (dh (allow_warning s)) = dh_state (dh s)"
  by (simp_all add: upd_defs)

lemma others_upd [simp]:
  "others_fit (upd_lease g s) = others_fit s" "others_fit (upd_try n s) = others_fit s"
  "others_fit (start_trying s) = others_fit s" "others_fit (dhcp_adjust_lease_info t s) = others_fit s"
  "others_fit (upd (dh_xid_update x) s) = others_fit s" "others_fit (set_relative a b f s) = others_fit s"
  "others_fit (upd (dh_gathering_update y) s) = others_fit s" "others_fit (upd (dh_renew_rebind_time_update z) s) = others_fit s"
  by (simp_all add: others_fit_def) (simp_all add: upd_defs)

lemma live_upd [simp]:
  "live (upd (dh_resolve_router_timed_out_update b) s) = live s" "live (upd_lease g s) = live s"
  "live (upd_try n s) = live s" "live (upd (dh_lease_list_update l) s) = live s"
  "live (upd (dh_wake_time_update w) s) = live s" "live (s\<lparr>s_world := x\<rparr>) = live s" "live (s\<lparr>s_if := i\<rparr>) = live s"
  by (simp_all add: live_def others_fit_def) (simp_all add: upd_defs)

section \<open>Ends of states\<close>

lemma failed_live: "client_ok s \<Longrightarrow> live (dhcp_failed st s)"
  by (simp add: resting_live failed_ok trying_def)

lemma inactive_live: "client_ok s \<Longrightarrow> live (dhcp_inactive s)"
proof -
  have "dh_state (dh (dhcp_inactive s)) = dhcp_cstate_inactive_e" by (simp add: dhcp_inactive_def)
  then show "client_ok s \<Longrightarrow> ?thesis" by (simp add: resting_live inactive_good trying_def)
qed

lemma wait_start_live: "client_ok s \<Longrightarrow> live (dhcp_wait_start w s)"
  by (simp add: dhcp_wait_start_def Let_def set_relative_live resting_others failed_ok)

lemma no_server_live:
  assumes "client_ok s" "dh_state (dh s) = dhcp_cstate_init_e"
  shows "live (dhcp_no_server s)"
proof -
  let ?s = "if G_dhcp_failure_configures_linklocal (s_globals s) then linklocal_service_change True s else s"
  have "client_ok ?s" "dh_state (dh ?s) = dhcp_cstate_init_e"
    using assms by (auto simp: view_client_ok [of "linklocal_service_change True s" s])
  then show ?thesis unfolding dhcp_no_server_def
    by (simp add: set_relative_live resting_others cancel_pending assms(2))
qed

lemma unbound_live:
  assumes "client_ok s"
  shows "live (dhcp_unbound nak s)"
proof -
  let ?s = "dhcp_cancel_pending_events (dhcp_set_state dhcp_cstate_unbound_e s)"
  have c: "client_ok ?s" "resting ?s" by (rule cancel_pending, simp add: assms)+
  note k = lease_clear_keeps [OF c(1), of nak]
  have "resting (dhcp_lease_clear nak ?s)" "dh_state (dh (dhcp_lease_clear nak ?s)) = dhcp_cstate_unbound_e"
    using keepsD(2,5) [OF k] c(2) by simp_all
  then show ?thesis by (simp add: dhcp_unbound_def set_relative_live resting_others)
qed

lemma terminate_live: "client_ok s \<Longrightarrow> live (terminate_lease st s)"
  by (simp add: terminate_lease_def unbound_live)

lemma drop_nak_live: "client_ok s \<Longrightarrow> live s \<Longrightarrow> live (drop_nak nak s)"
  by (simp add: drop_nak_def unbound_live)

lemma made_request_simps:
  assumes "make_request msg b v6 s = Some (ok, oa, t)"
  shows "dh_state (dh t) = dh_state (dh s)" "dh_timer (dh t) = dh_timer (dh s)" "resting t = resting s" "others_fit t = others_fit s"
  using assms by (auto simp: make_request_def resting_def others_fit_def split: bind_splits)

lemma completed_request_simps:
  assumes "complete_request fs name b oa s = Some (ok, t)"
  shows "dh_state (dh t) = dh_state (dh s)" "dh_timer (dh t) = dh_timer (dh s)" "resting t = resting s" "others_fit t = others_fit s"
  using assms by (auto simp: complete_request_def resting_def others_fit_def split: bind_splits)

lemma transmitted_simps:
  assumes "bootp_client_transmit a b s = Some (ok, t)"
  shows "dh t = dh s"
  using assms by (auto simp: bootp_client_transmit_def try_call_def Let_def split: if_splits prod.splits)

lemma decline_live:
  assumes "client_ok s" "dhcp_decline s = Some t"
  shows "live t"
proof -
  let ?s = "dhcp_cancel_pending_events (dhcp_set_state dhcp_cstate_decline_e s)"
  have c: "client_ok ?s" "resting ?s" "dh_state (dh ?s) = dhcp_cstate_decline_e"
    by (rule cancel_pending, simp add: assms)+ simp
  obtain ok oa s1 where m: "make_request dhcp_msgtype_decline_e False False ?s = Some (ok, oa, s1)" "client_ok s1"
      "area_ok request_area_size oa"
    using make_request_ok [OF c(1), of dhcp_msgtype_decline_e False False] by (auto simp: returns_def)
  let ?fs = "[requested_ip_option (sp_our_ip (saved s1)), server_id_option (sp_server_ip (saved s1))]"
  obtain ok2 s2 where m2: "complete_request ?fs None False oa s1 = Some (ok2, s2)" "client_ok s2"
    using complete_request_ok [OF m(2,3), of ?fs None False] by (auto simp: returns_def)
  have "resting s2" "dh_state (dh s2) = dhcp_cstate_decline_e"
    using made_request_simps [OF m(1)] completed_request_simps [OF m2(1)] c by simp_all
  moreover have "live t" if "bootp_client_transmit G_ip_broadcast G_ip_zeroes s2 = Some (b, s3)" "resting s2"
      "dh_state (dh s2) = dhcp_cstate_decline_e" "ok" "ok2" for b s3
  proof -
    have "resting s3" "dh_state (dh s3) = dhcp_cstate_decline_e"
      using that transmitted_simps [OF that(1)] by (simp_all add: resting_def)
    with that m(1) m2(1) assms(2) show ?thesis
      by (auto simp: dhcp_decline_def set_relative_live resting_others)
  qed
  ultimately show ?thesis using assms(2) m(1,2) m2 failed_live
    by (auto simp: dhcp_decline_def split: bind_splits if_splits)
qed

section \<open>States\<close>

lemma arp_started_live:
  "arp_started f s t \<Longrightarrow> live s \<Longrightarrow> arp_fits f (dh_state (dh s)) \<Longrightarrow> live t"
  by (auto simp: arp_started_def live_def others_fit_def)

lemma arp_started_others:
  "arp_started f s t \<Longrightarrow> others_fit s \<Longrightarrow> arp_fits f (dh_state (dh s)) \<Longrightarrow> others_fit t \<and> dh_state (dh t) = dh_state (dh s)"
  by (auto simp: arp_started_def others_fit_def)

lemma arp_router_start_fits:
  assumes "client_ok s" "others_fit s" "arp_fits A_arp_router (dh_state (dh s))" "arp_router_start s = Some t"
  shows "others_fit t \<and> dh_state (dh t) = dh_state (dh s)"
proof -
  have *: "others_fit t \<and> dh_state (dh t) = dh_state (dh s)" if t: "arp_router_detect ssid nid thr tent s = Some t" for ssid nid thr tent
  proof -
    let ?r = "DHCPLeaseListCopyARPAddressInfo (new_memory (s_globals s) (w_calls (s_world s))) (now s) ssid nid thr tent
       (dh_lease_list (dh s))"
    obtain infos leases where r: "?r = (infos, leases)" by fastforce
    have ls: "list_all lease_ok leases" using assms(1) r
      by (auto simp: DHCPLeaseListCopyARPAddressInfo_def Let_def client_ok_def remove_stale_ok)
    then have i: "list_all (\<lambda>i. length (ai_target_hardware i) = 16) infos" using r
      by (auto simp: DHCPLeaseListCopyARPAddressInfo_def Let_def list_all_iff arp_info_of_def lease_ok_def MAX_LINK_ADDR_LEN_def)
    let ?s = "upd (dh_lease_list_update (\<lambda>_. leases)) s"
    have c: "client_ok ?s" "others_fit ?s" using assms(1,2) ls by (simp_all add: client_ok_def others_fit_def)
    show ?thesis
    proof (cases "infos = []")
      case True
      with t r c(2) show ?thesis by (auto simp: arp_router_detect_def Let_def)
    next
      case False
      then have "arp_do_opt (arp_client_detect A_arp_router infos) ?s = Some t" using t r by (simp add: arp_router_detect_def Let_def)
      then have "arp_started A_arp_router ?s t" using detect_started [OF c(1) i, of A_arp_router] by (simp add: returns_def)
      from arp_started_others [OF this c(2)] assms(3) show ?thesis by simp
    qed
  qed
  then show ?thesis using assms(2,4) by (auto simp: arp_router_start_def Let_def split: if_splits option.splits)
qed

lemma schedule_renewal_live:
  assumes "resting s" "dh_state (dh s) = dhcp_cstate_bound_e" "schedule_renewal s = (b, t)"
  shows "live t" "dh_state (dh t) = dhcp_cstate_bound_e"
proof -
  have "live t \<and> dh_state (dh t) = dhcp_cstate_bound_e" using assms(3)
  proof (cases rule: schedule_renewal_cases)
    case 1
    with assms(1,2) show ?thesis by (simp add: resting_live trying_def)
  next
    case (2 sec usec)
    show ?thesis unfolding 2 using assms(1,2) by (simp add: set_relative_live resting_others)
  qed
  then show "live t" "dh_state (dh t) = dhcp_cstate_bound_e" by simp_all
qed

lemma resolve_router_live:
  assumes "client_ok s" "live s" "dh_state (dh s) = dhcp_cstate_bound_e" "service_resolve_router ip s = (b, t)"
  shows "live t"
  using resolve_router_ok [OF assms(1,4)] assms(2,3) by (auto simp: live_def others_fit_def split: if_splits)

lemma bound_finish_live:
  assumes "client_ok s" "resting s" "dh_state (dh s) = dhcp_cstate_bound_e"
  shows "returns live (bound_finish s)"
proof -
  let ?s1 = "run [upd_lease (li_valid_update (\<lambda>_. True)),
                   \<lambda>s. dhcp_lease_set_ssid (ServiceGetSSID s) s,
                   \<lambda>s. dhcp_lease_set_networkID (ServiceGetNetworkID s) s,
                   allow_warning] s"
  have k1: "keeps s ?s1" using keeps_refl [OF assms(1)] by simp
  obtain m where m: "saved_subnet_mask ?s1 = Some m" using saved_subnet_mask_ok [OF keepsD(1) [OF k1]] by (auto simp: returns_def)
  let ?s2 = "run [set_bound_address m, stop_linklocal, upd (dh_disable_arp_collision_detection_update (\<lambda>_. False))] ?s1"
  have k: "keeps s ?s2" using k1 by simp
  have k2: "client_ok ?s2" "resting ?s2" "dh_state (dh ?s2) = dhcp_cstate_bound_e"
    using keepsD(1,2) [OF k] assms(2) trans [OF keepsD(5) [OF k] assms(3)] by blast+
  obtain do_arp s3 where s3: "schedule_renewal ?s2 = (do_arp, s3)" by fastforce
  let ?s3 = "upd (dh_resolve_router_timed_out_update (\<lambda>_. False)) s3"
  have c3: "client_ok ?s3" "live ?s3" "dh_state (dh ?s3) = dhcp_cstate_bound_e"
    using goodD [OF schedule_renewal_ok(1) [OF k2(1,2) s3]] schedule_renewal_live [OF k2(2,3) s3]
    by simp_all
  have "returns (\<lambda>(b, t). client_ok t \<and> live t) (resolve_bound_router do_arp ?s3)"
  proof (cases do_arp)
    case True
    obtain changed s4 where s4: "service_update_router_address (sp_options (saved ?s3)) (sp_our_ip (saved ?s3)) ?s3 = Some (changed, s4)"
        "keeps ?s3 s4"
      using update_router_keeps [OF c3(1), of "sp_our_ip (saved ?s3)"] by (auto simp: returns_def)
    have l4: "client_ok s4" "live s4" "dh_state (dh s4) = dhcp_cstate_bound_e"
      using keepsD(1,5) [OF s4(2)] keeps_live [OF s4(2) c3(2)] c3(3) by simp_all
    obtain b s5 where s5: "service_resolve_router (sp_our_ip (saved s4)) s4 = (b, s5)" by fastforce
    show ?thesis using True s4 s5 l4 resolve_router_live [OF l4 s5] resolve_router_ok(1) [OF l4(1) s5]
      by (simp add: resolve_bound_router_def)
  next
    case False
    then show ?thesis using c3(1,2) unfolding resolve_bound_router_def by simp
  qed
  then obtain b s4 where s4: "resolve_bound_router do_arp ?s3 = Some (b, s4)" "client_ok s4" "live s4" by (auto simp: returns_def)
  obtain s5 where s5: "save_and_publish s4 = Some s5" "keeps s4 s5"
    using save_and_publish_keeps [OF s4(2)] by (auto simp: returns_def)
  have "live s5" using keeps_live [OF s5(2) s4(3)] .
  then show ?thesis unfolding bound_finish_def Let_def using m s3 s4 s5 by simp
qed

lemma bound_go_live:
  assumes "client_ok s" "resting s" "dh_state (dh s) = dhcp_cstate_bound_e"
  shows "returns live (if p then bound_finish s
      else if q then Some (arp_do (arp_client_probe A_bound a b) s)
      else if r then Some (arp_do (arp_client_announce A_bound a b True) s) else bound_finish s)"
proof -
  have "live s" using assms(2,3) by (simp add: resting_live trying_def)
  with assms(3) show ?thesis
    using bound_finish_live [OF assms] arp_started_live [OF probe_started [OF assms(1), of A_bound]]
      arp_started_live [OF announce_started [OF assms(1), of A_bound]]
    by simp
qed

lemma bound_start_live:
  assumes "client_ok s"
  shows "returns live (bound_start s)"
proof -
  let ?s0 = "upd (\<lambda>d. d\<lparr>dh_disable_arp_collision_detection := True, dh_trying_since_secs := 0\<rparr>)
     (upd_lease (li_needs_write_update (\<lambda>_. True)) (dhcp_set_state dhcp_cstate_bound_e s))"
  let ?s1 = "dhcp_cancel_pending_events ?s0"
  have "client_ok ?s0" "dh_state (dh ?s0) = dhcp_cstate_bound_e" using assms by (simp_all add: client_ok_def dhcp_set_state_def)
  then have c1: "client_ok ?s1" "resting ?s1" "dh_state (dh ?s1) = dhcp_cstate_bound_e"
    using cancel_pending [of ?s0] by simp_all
  let ?renewed = "dh_state (dh s) = dhcp_cstate_renew_e \<or> dh_state (dh s) = dhcp_cstate_rebind_e"
  let ?s2 = "if ?renewed then upd_lease (li_needs_write_update (\<lambda>_. should_write_lease ?s1)) ?s1 else service_disable_autoaddr ?s1"
  have c2: "client_ok ?s2" "resting ?s2" "dh_state (dh ?s2) = dhcp_cstate_bound_e" using c1 by simp_all
  have run: "run [dhcp_set_state dhcp_cstate_bound_e,
                    upd_lease (li_needs_write_update (\<lambda>_. True)),
                    upd (\<lambda>d. d\<lparr>dh_disable_arp_collision_detection := True, dh_trying_since_secs := 0\<rparr>),
                    dhcp_cancel_pending_events] s = ?s1" by simp
  show ?thesis
    unfolding bound_start_def Let_def run by (rule bound_go_live [OF c2])
qed

lemma bound_arp_live:
  assumes "client_ok s" "dh_state (dh s) = dhcp_cstate_bound_e" "bound_arp result s = Some t"
  shows "live t"
proof -
  let ?s = "service_publish_failure ipconfig_status_address_in_use_e (service_router_clear
      (dhcp_invalidate_lease (dhcp_lease_clear False (report_conflict s))))"
  have "client_ok (report_conflict s)" using assms(1) by (simp add: report_conflict_def Let_def client_ok_def)
  then have c: "client_ok ?s" using keepsD(1) [OF lease_clear_keeps] by simp
  have "dh_state (dh (dhcp_cancel_pending_events s)) = dhcp_cstate_bound_e" using assms(2) by simp
  note returns_obtain [OF bound_finish_live [OF cancel_pending [OF assms(1)] this]]
  then show ?thesis using assms(3) failed_live [OF assms(1)] decline_live [OF c]
    by (auto simp: bound_arp_def split: if_splits)
qed

lemma send_request_fits:
  assumes "send_request a b s = Some t"
  shows "others_fit t = others_fit s" "dh_state (dh t) = dh_state (dh s)"
  using assms by (auto simp: send_request_def upd_request_def others_fit_def split: if_splits bind_splits
      dest!: transmitted_simps)

lemma init_attempt_live:
  assumes "client_ok s" "dh_request (dh s)" "others_fit s" "dh_state (dh s) = dhcp_cstate_init_e"
  shows "returns live (init_attempt s)"
proof -
  let ?s = "upd_try (\<lambda>n. n + 1) s"
  have c: "client_ok ?s" "dh_request (dh ?s)" using assms by simp_all
  let ?r = "if dh_try (dh ?s) \<ge> G_dhcp_router_arp_at_retry_count (s_globals ?s) + 1 \<and> \<not> service_router_all_valid ?s
      then arp_router_start ?s else Some ?s"
  have "returns (\<lambda>t. client_ok t \<and> dh_request (dh t)) ?r" using arp_router_start_ok [OF c] c by simp
  then obtain s1 where s1: "?r = Some s1" "client_ok s1" "dh_request (dh s1)" by (auto simp: returns_def)
  have f1: "others_fit s1" "dh_state (dh s1) = dhcp_cstate_init_e"
    using s1(1) assms(3,4) arp_router_start_fits [OF c(1)] by (auto split: if_splits)
  let ?s2 = "init_give_up_on_router s1"
  have c2: "client_ok ?s2" "dh_request (dh ?s2)" "others_fit ?s2" "dh_state (dh ?s2) = dhcp_cstate_init_e"
    using s1 f1 view_client_ok [OF view_more(3), of s1] others_view [OF view_more(3), of s1] by simp_all
  obtain s3 where s3: "send_request G_ip_broadcast G_ip_zeroes ?s2 = Some s3"
    using send_request_sent [OF c2(1,2), of G_ip_broadcast G_ip_zeroes] by (auto simp: returns_def)
  have "live (wait_for_response True (T_init IFEventID_timeout_e) s3)"
    using send_request_fits [OF s3] c2 by (intro wait_for_response_live) simp_all
  then show ?thesis unfolding init_attempt_def Let_def s1(1)
    using s3 inactive_live [OF c(1)] bound_start_live [OF c2(1)] no_server_live [OF c2(1,4)] by simp
qed

lemma request_made_fits:
  assumes "client_ok s" "\<forall>f \<in> set fs. 0 < fst f \<and> fst f < dhcptag_end_e"
  obtains ok t where "build_request msg b fs s = Some (ok, t)" "client_ok t" "ok \<Longrightarrow> dh_request (dh t)"
    "dh_state (dh t) = dh_state (dh s)" "resting t = resting s"
  using build_request_ok [OF assms, of msg b] by (auto simp: returns_def resting_def)

lemma init_start_live:
  assumes "client_ok s"
  shows "returns live (init_start s)"
proof -
  let ?s0 = "upd (\<lambda>d. d\<lparr>dh_allow_wake_with_short_lease := True, dh_resolve_router_timed_out := False\<rparr>)
      (dhcp_set_state dhcp_cstate_init_e (upd_lease (li_wifi_mac_is_set_update (\<lambda>_. False)) s))"
  let ?s1 = "start_trying (dhcp_cancel_pending_events ?s0)"
  have "client_ok ?s0" "dh_state (dh ?s0) = dhcp_cstate_init_e" using assms by (simp_all add: client_ok_def dhcp_set_state_def)
  then have c1: "client_ok ?s1" "resting ?s1" "dh_state (dh ?s1) = dhcp_cstate_init_e" using cancel_pending by simp_all
  obtain ok s2 where s2: "build_request dhcp_msgtype_discover_e (dh_must_broadcast (dh ?s1)) [lease_option] ?s1 = Some (ok, s2)"
      "client_ok s2" "ok \<Longrightarrow> dh_request (dh s2)" "dh_state (dh s2) = dhcp_cstate_init_e" "resting s2"
    by (rule request_made_fits [OF c1(1), of "[lease_option]"]) (use c1 in auto)
  have "others_fit (begin_init st s2)" "dh_state (dh (begin_init st s2)) = dhcp_cstate_init_e" for st
    using s2(4,5) by (simp_all add: begin_init_def bootp_client_enable_receive_def others_fit_def resting_def)
  with s2 failed_live [OF s2(2)] init_attempt_live [OF begin_init_ok [OF s2(2)]] show ?thesis
    by (auto simp: init_start_def Let_def)
qed

lemma select_attempt_live:
  assumes "client_ok s" "dh_request (dh s)" "others_fit s" "dh_state (dh s) = dhcp_cstate_select_e"
  shows "returns live (select_attempt s)"
proof -
  let ?s = "upd_try (\<lambda>n. n + 1) s"
  have c: "client_ok ?s" "dh_request (dh ?s)" using assms by simp_all
  obtain s1 where s1: "send_request G_ip_broadcast G_ip_zeroes ?s = Some s1"
    using send_request_sent [OF c, of G_ip_broadcast G_ip_zeroes] by (auto simp: returns_def)
  have "live (wait_for_response False T_select s1)"
    using send_request_fits [OF s1] assms by (intro wait_for_response_live) simp_all
  then show ?thesis unfolding select_attempt_def Let_def using s1 init_start_live [OF c(1)] by simp
qed

lemma select_start_live:
  assumes "client_ok s"
  shows "returns live (select_start s)"
proof -
  let ?s1 = "dhcp_cancel_pending_events (dhcp_set_state dhcp_cstate_select_e s)"
  have c1: "client_ok ?s1" "resting ?s1" "dh_state (dh ?s1) = dhcp_cstate_select_e"
    by (rule cancel_pending, simp add: assms)+ simp
  let ?fs = "[requested_ip_option (sp_our_ip (saved ?s1)), server_id_option (sp_server_ip (saved ?s1))]"
  obtain ok s2 where s2: "build_request dhcp_msgtype_request_e (dh_must_broadcast (dh ?s1)) ?fs ?s1 = Some (ok, s2)"
      "client_ok s2" "ok \<Longrightarrow> dh_request (dh s2)" "dh_state (dh s2) = dhcp_cstate_select_e" "resting s2"
    by (rule request_made_fits [OF c1(1), of ?fs]) (use c1 in auto)
  let ?s3 = "bootp_client_enable_receive R_select
         (upd (\<lambda>d. d\<lparr>dh_try := 0, dh_gathering := False, dh_wait_secs := G_initial_wait_secs (s_globals s2)\<rparr>) s2)"
  have c3: "client_ok ?s3" "dh_request (dh ?s3) = dh_request (dh s2)" "others_fit ?s3" "dh_state (dh ?s3) = dhcp_cstate_select_e"
    using s2(2,4,5) by (simp_all add: client_ok_def bootp_client_enable_receive_def others_fit_def resting_def)
  show ?thesis
    using s2 failed_live [OF s2(2)] select_attempt_live [OF c3(1)] c3(2-4) by (auto simp: select_start_def Let_def)
qed

section \<open>Received packets\<close>

lemma select_data_live:
  assumes "good s" "live s" "dh_state (dh s) = dhcp_cstate_select_e" "received_ok pkt"
  shows "returns live (select_data pkt s)"
proof -
  have c: "client_ok s" using assms(1) by (rule goodD)
  have nak: "live (select_nak ip s)" for ip
    using assms(2,3) cancel_pending [OF c] by (simp add: select_nak_def set_relative_live resting_others)
  show ?thesis
    unfolding select_data_def
    by (rule returns_bind [OF verify_reply_ok [OF c assms(4)]])
      (auto simp: assms(2) nak split: option.split
        intro!: returns_bind [OF received_lease [OF assms(4)]] returns_bind [OF accept_packet_keeps [OF c assms(4)]] bound_start_live
        dest: keepsD(1))
qed

lemma begin_gathering_live:
  "live s \<Longrightarrow> timer_fits f (dh_state (dh s)) \<Longrightarrow> live (begin_gathering f s)"
  by (simp add: begin_gathering_def live_def others_fit_def)

lemma init_offer_live:
  assumes "live s" "client_ok s" "dh_state (dh s) = dhcp_cstate_init_e" "received_ok pkt"
  shows "returns live (init_offer pkt ip s)"
proof -
  obtain ts where ts: "dhcp_get_lease_from_options (rd_options pkt) = Some ts"
    using received_lease [OF assms(4)] by (auto simp: returns_def)
  obtain r where r: "offer_rating pkt s = Some r"
    using count_params_ok [of "rd_options pkt" "dhcp_params (s_globals s)"] assms(4)
    by (auto simp: returns_def offer_rating_def received_ok_def)
  have cr: "client_ok (service_router_clear s)" using assms(2) by simp
  obtain s1 where s1: "accept_packet pkt r ip ts (service_router_clear s) = Some s1" "keeps (service_router_clear s) s1"
    using accept_packet_keeps [OF cr assms(4), of r ip ts] by (auto simp: returns_def)
  have k: "keeps s s1" using s1(2) by simp
  have g: "live s1" "dh_state (dh s1) = dhcp_cstate_init_e" using keeps_live [OF k assms(1)] keepsD(5) [OF k] assms(3) by simp_all
  show ?thesis
    using ts r s1(1) assms(1) select_start_live [OF keepsD(1) [OF k]] begin_gathering_live [OF g(1)] g(2)
    by (simp add: init_offer_def)
qed

lemma init_data_live:
  assumes "live s" "client_ok s" "dh_state (dh s) = dhcp_cstate_init_e" "received_ok pkt"
  shows "returns live (init_data pkt s)"
  unfolding init_data_def
  by (rule returns_bind [OF verify_reply_ok [OF assms(2,4)]])
    (auto simp: assms(1) wait_start_live [OF assms(2)] split: option.split
      intro!: returns_bind [OF ipv6_only_wait_ok [OF assms(4)]] init_offer_live [OF assms])

section \<open>INIT-REBOOT, RENEW, REBIND\<close>

lemma init_reboot_attempt_live:
  assumes "client_ok s" "dh_request (dh s)" "others_fit s" "dh_state (dh s) = dhcp_cstate_init_reboot_e"
  shows "returns live (init_reboot_attempt s)"
proof -
  let ?s = "upd_try (\<lambda>n. n + 1) s"
  have c: "client_ok ?s" "dh_request (dh ?s)" "others_fit ?s" using assms by simp_all
  obtain s1 where s1: "arp_router_start ?s = Some s1" "client_ok s1" "dh_request (dh s1)"
    using arp_router_start_ok [OF c(1,2)] by (auto simp: returns_def)
  have f1: "others_fit s1" "dh_state (dh s1) = dhcp_cstate_init_reboot_e"
    using arp_router_start_fits [OF c(1,3) _ s1(1)] assms(4) by simp_all
  let ?s2 = "init_reboot_give_up_on_router s1"
  have c2: "client_ok ?s2" "dh_request (dh ?s2)" "others_fit ?s2" "dh_state (dh ?s2) = dhcp_cstate_init_reboot_e"
    using s1 f1 view_client_ok [OF view_more(4), of s1] others_view [OF view_more(4), of s1] by simp_all
  obtain s3 where s3: "send_request G_ip_broadcast (source_ip ?s2) ?s2 = Some s3"
    using send_request_sent [OF c2(1,2), of G_ip_broadcast "source_ip ?s2"] by (auto simp: returns_def)
  have "live (wait_for_response True T_init_reboot s3)"
    using send_request_fits [OF s3] c2 by (intro wait_for_response_live) simp_all
  moreover have "client_ok (upd_try (\<lambda>n. n - 1) (service_publish_failure_sync st False (service_remove_address ?s2)))" for st
    using c2(1) view_client_ok [OF view_publish(10)] by simp
  ultimately show ?thesis unfolding init_reboot_attempt_def Let_def
    using s1(1) s3 init_start_live inactive_live [OF c(1)] by simp
qed

lemma init_reboot_start_live:
  assumes "client_ok s"
  shows "returns live (init_reboot_start ip s)"
proof -
  let ?u = "start_trying (upd (\<lambda>d. d\<lparr>dh_resolve_router_timed_out := False, dh_allow_wake_with_short_lease := True,
      dh_start_secs := now (dhcp_set_state dhcp_cstate_init_reboot_e (upd_lease (li_wifi_mac_is_set_update (\<lambda>_. False)) s))\<rparr>)
      (dhcp_set_state dhcp_cstate_init_reboot_e (upd_lease (li_wifi_mac_is_set_update (\<lambda>_. False)) s)))"
  let ?s0 = "upd (\<lambda>d. d\<lparr>dh_try := 0, dh_wait_secs := G_initial_wait_secs (s_globals s)\<rparr>) ?u"
  let ?s1 = "dhcp_cancel_pending_events ?s0"
  have "client_ok ?u" "dh_state (dh ?u) = dhcp_cstate_init_reboot_e"
    using assms by (simp_all add: client_ok_def dhcp_set_state_def start_trying_def)
  then have "client_ok ?s0" "dh_state (dh ?s0) = dhcp_cstate_init_reboot_e" by (simp_all add: client_ok_def)
  then have c1: "client_ok ?s1" "resting ?s1" "dh_state (dh ?s1) = dhcp_cstate_init_reboot_e"
    using cancel_pending [of ?s0] by simp_all
  let ?ip = "if source_ip s = 0 then ip else source_ip s"
  let ?fs = "[requested_ip_option ?ip, lease_option]"
  obtain ok s2 where s2: "build_request dhcp_msgtype_request_e (dh_must_broadcast (dh ?s1)) ?fs ?s1 = Some (ok, s2)"
      "client_ok s2" "ok \<Longrightarrow> dh_request (dh s2)" "dh_state (dh s2) = dhcp_cstate_init_reboot_e" "resting s2"
    by (rule request_made_fits [OF c1(1), of ?fs]) (use c1 in auto)
  let ?s3 = "run [upd (\<lambda>d. d\<lparr>dh_got_nak := False, dh_gathering := False, dh_xid := dh_xid d + 1\<rparr>),
             upd_saved (\<lambda>sp. sp\<lparr>sp_our_ip := ?ip, sp_rating := 0\<rparr>),
             service_enable_autoaddr,
             bootp_client_enable_receive R_init_reboot,
             ServiceSetBusy True] s2"
  have c3: "client_ok ?s3" "dh_request (dh ?s3) = dh_request (dh s2)" "others_fit ?s3" "dh_state (dh ?s3) = dhcp_cstate_init_reboot_e"
    using s2(2,4,5)
    by (simp_all add: client_ok_def saved_ok_def bootp_client_enable_receive_def others_fit_def resting_def)
  have r: "run [upd_lease (li_wifi_mac_is_set_update (\<lambda>_. False)),
                   dhcp_set_state dhcp_cstate_init_reboot_e,
                   \<lambda>s. upd (\<lambda>d. d\<lparr>dh_resolve_router_timed_out := False, dh_allow_wake_with_short_lease := True,
                                   dh_start_secs := now s\<rparr>) s,
                   start_trying,
                   upd (\<lambda>d. d\<lparr>dh_try := 0, dh_wait_secs := G_initial_wait_secs (s_globals s)\<rparr>),
                   dhcp_cancel_pending_events] s = ?s1" by simp
  show ?thesis unfolding init_reboot_start_def Let_def r
    using s2(1,3) failed_live [OF s2(2)] init_reboot_attempt_live [OF c3(1)] c3(2-4) by auto
qed

lemma init_reboot_better_live:
  assumes "live s" "client_ok s" "dh_state (dh s) = dhcp_cstate_init_reboot_e" "received_ok pkt"
  shows "returns live (init_reboot_better pkt r ip ts s)"
proof -
  have cr: "client_ok (service_router_clear s)" using assms(2) by simp
  obtain s1 where s1: "accept_packet pkt r ip ts (service_router_clear s) = Some s1" "keeps (service_router_clear s) s1"
    using accept_packet_keeps [OF cr assms(4), of r ip ts] by (auto simp: returns_def)
  have k: "keeps s s1" using s1(2) by simp
  have g: "live s1" "dh_state (dh s1) = dhcp_cstate_init_reboot_e"
    using keeps_live [OF k assms(1)] keepsD(5) [OF k] assms(3) by simp_all
  show ?thesis
    using s1(1) bound_start_live [OF keepsD(1) [OF k]] begin_gathering_live [OF g(1)] g(2) by (simp add: init_reboot_better_def)
qed

lemma init_reboot_data_live:
  assumes "live s" "client_ok s" "dh_state (dh s) = dhcp_cstate_init_reboot_e" "received_ok pkt"
  shows "returns live (init_reboot_data pkt s)"
proof -
  have cnt: "returns (\<lambda>_. True) (dhcpol_count_params (rd_options pkt) (dhcp_params (s_globals s)))"
    using assms(4) by (simp add: count_params_ok received_ok_def)
  have ack: "returns live (init_reboot_ack pkt ip s)" for ip
    unfolding init_reboot_ack_def
    by (auto simp: assms(1) wait_start_live [OF assms(2)] split: option.split
        intro!: returns_bind [OF ipv6_only_wait_ok [OF assms(4)]] returns_bind [OF received_lease [OF assms(4)]]
          init_reboot_better_live [OF assms] returns_bind [OF cnt])
  have nak: "live (upd (dh_got_nak_update (\<lambda>_. True)) s)" using assms(1) by (simp add: live_def others_fit_def)
  have "client_ok (service_publish_failure ipconfig_status_lease_terminated_e s)" using assms(2) by simp
  from unbound_live [OF this, of True] show ?thesis
    unfolding init_reboot_data_def
    by (intro returns_bind [OF verify_reply_ok [OF assms(2,4)]]) (auto simp: assms(1) ack nak split: option.split)
qed

lemma adjust_for_time_change_fits:
  "others_fit (adjust_for_time_change s) = others_fit s" "dh_state (dh (adjust_for_time_change s)) = dh_state (dh s)"
proof -
  have w: "others_fit (s\<lparr>s_world := w\<rparr>) = others_fit s" for w by (simp add: others_fit_def)
  show "others_fit (adjust_for_time_change s) = others_fit s" "dh_state (dh (adjust_for_time_change s)) = dh_state (dh s)"
    by (auto simp: adjust_for_time_change_def Let_def w split: prod.split)
qed

lemma renew_rebind_wait_live:
  assumes "others_fit s" "dh_state (dh s) \<in> {dhcp_cstate_renew_e, dhcp_cstate_rebind_e}"
  shows "live (renew_rebind_wait t s)"
proof -
  have "live (set_relative a 0 (T_renew_rebind IFEventID_timeout_e) (upd (dh_renew_rebind_time_update (\<lambda>_. x)) s))" for a x
    by (rule set_relative_live) (use assms in auto)
  then show ?thesis using live_view [OF view_publish(4)] by (simp add: renew_rebind_wait_def Let_def)
qed

text \<open>Between RENEW and REBIND what else is pending still fits.\<close>

lemma renew_rebind_others:
  "others_fit s \<Longrightarrow> dh_state (dh s) \<in> {dhcp_cstate_renew_e, dhcp_cstate_rebind_e} \<Longrightarrow>
   st \<in> {dhcp_cstate_renew_e, dhcp_cstate_rebind_e} \<Longrightarrow> others_fit (dhcp_set_state st s)"
proof (unfold others_fit_def, intro conjI allI impI)
  fix a
  assume "dh_state (dh s) \<in> {dhcp_cstate_renew_e, dhcp_cstate_rebind_e}" "st \<in> {dhcp_cstate_renew_e, dhcp_cstate_rebind_e}"
    "(\<forall>a. ac_func (dh_arp (dh s)) = Some a \<longrightarrow> arp_fits a (dh_state (dh s))) \<and>
     (\<forall>r. dh_receive (dh s) = Some r \<longrightarrow> receive_fits r (dh_state (dh s)))" "ac_func (dh_arp (dh (dhcp_set_state st s))) = Some a"
  then show "arp_fits a (dh_state (dh (dhcp_set_state st s)))" by (cases a) (auto simp: dhcp_set_state_def)
next
  fix r
  assume "dh_state (dh s) \<in> {dhcp_cstate_renew_e, dhcp_cstate_rebind_e}" "st \<in> {dhcp_cstate_renew_e, dhcp_cstate_rebind_e}"
    "(\<forall>a. ac_func (dh_arp (dh s)) = Some a \<longrightarrow> arp_fits a (dh_state (dh s))) \<and>
     (\<forall>r. dh_receive (dh s) = Some r \<longrightarrow> receive_fits r (dh_state (dh s)))" "dh_receive (dh (dhcp_set_state st s)) = Some r"
  then show "receive_fits r (dh_state (dh (dhcp_set_state st s)))" by (cases r) (auto simp: dhcp_set_state_def)
qed

lemma renew_rebind_attempt_live:
  assumes "client_ok s0" "dh_request (dh s0)" "others_fit s0" "dh_state (dh s0) \<in> {dhcp_cstate_renew_e, dhcp_cstate_rebind_e}"
  shows "returns live (renew_rebind_attempt s0)"
proof -
  let ?s = "adjust_for_time_change s0"
  have c: "client_ok ?s" "dh_request (dh ?s)" "others_fit ?s" "dh_state (dh ?s) \<in> {dhcp_cstate_renew_e, dhcp_cstate_rebind_e}"
    using assms adjust_for_time_change_ok adjust_for_time_change_fits by simp_all
  have send: "returns (\<lambda>t. others_fit t \<and> dh_state (dh t) = st) (send_request a b (upd (dh_xid_update (\<lambda>x. x + 1)) (dhcp_set_state st ?s)))"
    if "st \<in> {dhcp_cstate_renew_e, dhcp_cstate_rebind_e}" for a b st
  proof -
    let ?u = "upd (dh_xid_update (\<lambda>x. x + 1)) (dhcp_set_state st ?s)"
    have u: "client_ok ?u" "dh_request (dh ?u)" "others_fit ?u" using c renew_rebind_others [OF c(3,4) that] by simp_all
    obtain t where "send_request a b ?u = Some t" using send_request_sent [OF u(1,2), of a b] by (auto simp: returns_def)
    with send_request_fits [OF this] u(3) show ?thesis by simp
  qed
  have "client_ok (service_publish_failure ipconfig_status_server_not_responding_e ?s)" using c(1) by simp
  from unbound_live [OF this] show ?thesis
    by (auto simp: renew_rebind_attempt_def Let_def renew_rebind_wait_live intro!: returns_bind [OF send])
qed

lemma renew_rebind_start_live:
  assumes "client_ok s"
  shows "returns live (renew_rebind_start s)"
proof -
  let ?s0 = "dhcp_cancel_pending_events s"
  let ?u = "upd (\<lambda>d. d\<lparr>dh_allow_wake_with_short_lease := False, dh_start_secs := now ?s0\<rparr>) ?s0"
  let ?s1 = "dhcp_set_state dhcp_cstate_renew_e (start_trying ?u)"
  have "client_ok ?u" "resting ?u" using cancel_pending [OF assms] by (simp_all add: client_ok_def resting_def)
  then have c1: "client_ok ?s1" "resting ?s1" "dh_state (dh ?s1) = dhcp_cstate_renew_e" by simp_all
  obtain ok oa s2 p where m: "make_request dhcp_msgtype_request_e False (ServiceCanDoIPv6OnlyPreferred ?s1) ?s1 = Some (ok, oa, s2)"
      "client_ok s2" "area_ok request_area_size oa" "s2 = upd (\<lambda>d. d\<lparr>dh_request := ok, dh_txbuf := p\<rparr>) ?s1"
    using make_request_ok [OF c1(1), of dhcp_msgtype_request_e False "ServiceCanDoIPv6OnlyPreferred ?s1"] by (auto simp: returns_def)
  have rq: "dh_request (dh s2) = ok" "resting s2" "dh_state (dh s2) = dhcp_cstate_renew_e"
    using made_request_simps [OF m(1)] c1 by (simp_all add: m(4))
  show ?thesis
  proof (cases ok)
    case False
    with m(1,2) failed_live show ?thesis by (simp add: renew_rebind_start_def Let_def)
  next
    case True
    let ?s3 = "upd (dh_txbuf_update (\<lambda>p. p\<lparr>dp_ciaddr := sp_our_ip (saved s2)\<rparr>)) (upd_try (\<lambda>_. 0) s2)"
    have u: "upd_request (\<lambda>p. p\<lparr>dp_ciaddr := sp_our_ip (saved s2)\<rparr>) (upd_try (\<lambda>_. 0) s2) = Some ?s3"
      using True rq by (simp add: upd_request_def)
    have c3: "client_ok ?s3" "dh_request (dh ?s3)" "resting ?s3" "dh_state (dh ?s3) = dhcp_cstate_renew_e"
      using m(2) True rq by (simp_all add: client_ok_def upd_try_def resting_def)
    obtain ok2 s4 p2 n2 where m2: "complete_request [lease_option] (name_to_supply ?s3) False oa ?s3 = Some (ok2, s4)"
        "client_ok s4" "s4 = upd (\<lambda>d. d\<lparr>dh_txbuf := p2, dh_request_size := n2\<rparr>) ?s3"
      using complete_request_ok [OF c3(1) m(3), of "[lease_option]" "name_to_supply ?s3" False] by (auto simp: returns_def)
    have r4: "dh_request (dh s4)" "resting s4" "dh_state (dh s4) = dhcp_cstate_renew_e"
      using c3(2) completed_request_simps [OF m2(1)] c3 by (simp_all add: m2(3))
    have "returns live (renew_rebind_attempt (bootp_client_enable_receive R_renew_rebind s4))"
      by (intro renew_rebind_attempt_live)
        (use r4 in \<open>simp_all add: m2(2)\<close>, simp add: others_fit_def resting_def bootp_client_enable_receive_def)
    then show ?thesis using True m(1) u m2(1) failed_live [OF m2(2)]
      unfolding renew_rebind_start_def Let_def by simp
  qed
qed

lemma renew_rebind_data_live:
  assumes "live s" "client_ok s" "received_ok pkt"
  shows "returns live (renew_rebind_data pkt s)"
  unfolding renew_rebind_data_def
  by (rule returns_bind [OF verify_reply_ok [OF assms(2,3)]])
    (auto simp: assms(1) terminate_live [OF assms(2)] split: option.split
      intro!: returns_bind [OF received_lease [OF assms(3)]] returns_bind [OF accept_packet_keeps [OF assms(2,3)]] bound_start_live
      dest: keepsD(1))

section \<open>Routers and links\<close>

lemma put_requested_fits:
  assumes "retarget_request ip s = Some t"
  shows "live t = live s"
  using assms
  by (auto simp: retarget_request_def upd_request_def live_def others_fit_def Let_def split: if_splits bind_splits prod.splits)

lemma router_answered_live:
  assumes "good s" "live s" "dh_request (dh s)" "lease_ok l"
  shows "returns live (router_answered l s)"
proof -
  have c: "client_ok s" using assms(1) by (rule goodD)
  have "returns (\<lambda>_. True) (dhcp_get_router_address (sp_options (saved s)) (sp_our_ip (saved s)))"
    using c by (simp add: router_address_ok client_ok_def saved_ok_def)
  note r = returns_obtain [OF this]
  obtain b s1 where s1: "switch_to_lease l False s = Some (b, s1)" "keeps s s1"
    using switch_to_lease_keeps [OF c assms(4), of False] by (auto simp: returns_def)
  have g: "good s1" "dh_request (dh s1)" "live s1"
    using keeps_good [OF s1(2) assms(1)] keepsD(4) [OF s1(2)] assms(3) keeps_live [OF s1(2) assms(2)] by simp_all
  obtain s2 where s2: "retarget_request (ls_our_ip l) s1 = Some s2" "good s2"
    using retarget_request_good [OF g(1,2), of "ls_our_ip l"] by (auto simp: returns_def)
  have "live s2" using put_requested_fits [OF s2(1)] g(3) by simp
  then have u: "returns live (use_router s2)" "returns live (use_router s1)" "returns live (use_router s)"
    using returns_keeps_live [OF _ use_router_keeps [OF goodD]] s2(2) g assms(1,2) by blast+
  then show ?thesis using r s1(1) s2(1) drop_nak_live [OF goodD [OF g(1)] g(3)] g(3) assms(2)
    by (auto simp: router_answered_def)
qed

lemma arp_router_arp_live:
  assumes "good s" "live s" "dh_request (dh s)"
  shows "returns live (arp_router_arp result s)"
proof -
  have c: "client_ok s" using assms(1) by (rule goodD)
  have l: "lease_ok (dh_lease_list (dh s) ! i)" if "DHCPLeaseListFindLease (dh_lease_list (dh s)) a b c n = Some i" for a b c n i
  proof -
    have "i < length (dh_lease_list (dh s))" using that find_index_less by (auto simp: DHCPLeaseListFindLease_def)
    then show ?thesis using goodD [OF assms(1)] by (simp add: client_ok_def list_all_length)
  qed
  have "returns live (map_option (\<lambda>(_, s). service_router_set_all_valid s) (switch_to_lease l False s))" if "lease_ok l" for l
    using switch_to_lease_keeps [OF c that, of False] live_view [OF view_router(3)] keeps_live [OF _ assms(2)]
    by (auto simp: returns_def)
  then show ?thesis
    by (auto simp: arp_router_arp_def Let_def drop_nak_live c assms l router_answered_live split: option.split)
qed

lemma resolve_router_callback_live:
  assumes "client_ok s" "live s" "dh_state (dh s) = dhcp_cstate_bound_e"
  shows "returns live (resolve_router_callback status s)"
proof (cases status)
  case router_arp_status_no_response_e
  let ?s1 = "set_relative 60 0 T_resolve_router_retry (ServiceSetBusy False s)"
  have g: "client_ok ?s1" "live ?s1" using assms by (simp_all add: set_relative_live live_others)
  let ?s2 = "dhcp_publish_success (upd (dh_resolve_router_timed_out_update (\<lambda>_. True)) ?s1)"
  have "client_ok ?s2" "live ?s2" using g view_client_ok [OF view_publish(12)] live_view [OF view_publish(12)] by simp_all
  from returns_keeps_live [OF this(2) lease_save_keeps [OF this(1)]] g router_arp_status_no_response_e show ?thesis
    by (simp add: resolve_router_callback_def Let_def)
qed (use assms returns_keeps_live [OF _ save_and_publish_keeps] in \<open>simp_all add: resolve_router_callback_def\<close>)

lemma resolve_router_arp_live:
  assumes "client_ok s" "live s" "dh_state (dh s) = dhcp_cstate_bound_e" "length (ai_target_hardware (ar_addr result)) = 16"
  shows "returns live (resolve_router_arp result s)"
proof -
  let ?s = "service_router_flags_clear_specific RIFLAGS_RESOLVE_IN_PROGRESS s"
  have k: "keeps s ?s" using keeps_refl [OF assms(1)] keeps_view [OF view_router(2)] by simp
  have "length (ci_link_address (s_if ?s)) \<le> 16" using keepsD(1) [OF k] by (simp add: client_ok_def)
  then have "returns (keeps ?s) (copy_hwaddr (ai_target_hardware (ar_addr result)) (length (ci_link_address (s_if ?s))) ?s)"
    by (intro copy_hwaddr_keeps [OF keepsD(1) [OF k]]) (simp_all add: assms(4))
  then have "returns (keeps s) (copy_hwaddr (ai_target_hardware (ar_addr result)) (length (ci_link_address (s_if ?s))) ?s)"
    by (rule returns_mono) (rule keeps_trans [OF k])
  then have "returns (\<lambda>(st, t). keeps s t) (service_resolve_router_complete result s)"
    using k keeps_view [OF view_router(1)] by (auto simp: service_resolve_router_complete_def Let_def intro!: returns_bind)
  then show ?thesis unfolding resolve_router_arp_def
    by (rule returns_bind)
      (use keeps_live [OF _ assms(2)] keepsD(5) assms(3) in \<open>auto intro!: resolve_router_callback_live dest: keepsD(1)\<close>)
qed

lemma check_link_live:
  assumes "client_ok s" "live s"
  shows "returns live (check_link_with_status evid ls s)"
proof -
  let ?u = "upd (\<lambda>d. d\<lparr>dh_try := 0, dh_state := dhcp_cstate_inactive_e\<rparr>) s"
  have "client_ok ?u" "dh_state (dh ?u) = dhcp_cstate_inactive_e" using assms(1) by (simp_all add: client_ok_def)
  then have down: "live (dhcp_cancel_pending_events ?u)"
    using cancel_pending(2) by (intro resting_live) (simp_all add: trying_def)
  have ca: "client_ok (allow_warning s)" using assms(1) by simp
  obtain s1 where s1: "check_network (allow_warning s) = Some s1" "keeps (allow_warning s) s1"
    using check_network_keeps [OF ca] by (auto simp: returns_def)
  obtain v s2 where s2: "dhcp_check_lease s1 = (v, s2)" by fastforce
  have k1: "keeps s s1" using s1(2) by simp
  have k2: "keeps s s2" using keeps_trans [OF k1 check_lease_keeps [OF keepsD(1) [OF k1] s2]] .
  have "returns live (init_reboot_start ip s2)" "returns live (init_start s2)" "live s2" for ip
    using init_reboot_start_live init_start_live keepsD(1) [OF k2] keeps_live [OF k2 assms(2)] by blast+
  then show ?thesis using down s1(1) s2 by (auto simp: check_link_with_status_def Let_def)
qed

lemma dhcp_check_link_live: "client_ok s \<Longrightarrow> live s \<Longrightarrow> returns live (dhcp_check_link evid s)"
  by (simp add: dhcp_check_link_def check_link_live)

lemma delayed_start_live: "client_ok s \<Longrightarrow> live s \<Longrightarrow> returns live (dhcp_delayed_start s)"
  by (simp add: dhcp_delayed_start_def init_reboot_start_live dhcp_check_link_live)

lemma check_router_start_live:
  assumes "client_ok s" "live s" "arp_fits A_check_router (dh_state (dh s))" "length (ai_target_hardware info) = 16"
  shows "returns live (check_router_start info s)"
proof -
  let ?s = "ServiceSetBusy True s"
  have c: "client_ok ?s" "live ?s" "arp_fits A_check_router (dh_state (dh ?s))" using assms by simp_all
  have "live t" if "arp_started A_check_router ?s t" for t using arp_started_live [OF that c(2,3)] .
  then show ?thesis
    unfolding check_router_start_def Let_def
    by (intro returns_mono [OF detect_started [OF c(1)]]) (simp_all add: assms(4))
qed

lemma resume_renewal_live:
  "client_ok s \<Longrightarrow> live s \<Longrightarrow> arp_fits A_check_router (dh_state (dh s)) \<Longrightarrow> returns live (resume_renewal b s)"
  by (auto simp: resume_renewal_def renew_rebind_start_live live_others intro!: set_relative_live)

lemma check_router_arp_live:
  "client_ok s \<Longrightarrow> live s \<Longrightarrow> arp_fits A_check_router (dh_state (dh s)) \<Longrightarrow> returns live (check_router_arp result s)"
  by (simp add: check_router_arp_def Let_def dhcp_check_link_live resume_renewal_live)

section \<open>Events of the daemon\<close>

lemma arp_collision_live:
  assumes "good s" "live s"
  shows "returns live (thread_arp_collision ip b s)"
proof -
  obtain d s1 where s1: "ServiceDefendIPv4Address b s = (d, s1)" by fastforce
  have g: "good s1" "live s1" using good_view [OF view_defend [OF s1]] live_view [OF view_defend [OF s1]] assms by simp_all
  let ?t = "service_publish_failure ipconfig_status_address_in_use_e (dhcp_lease_clear False s1)"
  have c: "client_ok ?t" using keepsD(1) [OF lease_clear_keeps [OF goodD [OF g(1)]]] by simp
  obtain u where "dhcp_decline ?t = Some u" "live u" using decline_good [OF c] decline_live [OF c] by (auto simp: returns_def)
  with g s1 assms show ?thesis by (simp add: thread_arp_collision_def)
qed

lemma link_changed_live:
  assumes "client_ok s" "live s"
  shows "returns live (thread_link_changed evid info ls s)"
proof -
  have "client_ok (linklocal_service_change False (network_changed s))" "live (linklocal_service_change False (network_changed s))"
    using assms view_client_ok [OF view_publish(6)] view_client_ok [OF view_more(5)] live_view [OF view_publish(6)]
      live_view [OF view_more(5)] by simp_all
  with assms show ?thesis by (simp add: thread_link_changed_def check_link_live)
qed

lemma sleep_live: "client_ok s \<Longrightarrow> live s \<Longrightarrow> returns live (thread_sleep s)"
  by (auto simp: thread_sleep_def intro: returns_keeps_live lease_save_keeps)

lemma populate_view: "service_populate_router_arpinfo s = (i, t) \<Longrightarrow> view t = view s"
  by (auto simp: service_populate_router_arpinfo_def Let_def split: if_splits)

lemma bound_like: "S_dhcp_cstate_is_bound_renew_or_rebind st \<Longrightarrow> arp_fits A_check_router st"
  by (auto simp: S_dhcp_cstate_is_bound_renew_or_rebind_def)

lemma wake_with_lease_live:
  assumes "good s" "live s"
  shows "returns live (wake_with_lease info s)"
proof (cases "\<not> S_dhcp_cstate_is_bound_renew_or_rebind (dh_state (dh s)) \<or> \<not> ServiceIsPublished s \<or> dh_resolve_router_timed_out (dh s)")
  case True
  then show ?thesis using init_reboot_start_live [OF goodD [OF assms(1)]] unfolding wake_with_lease_def by simp
next
  case False
  obtain i t where t: "(if info = kLinkInfoBSSIDChanged then service_populate_router_arpinfo s else (None, s)) = (i, t)" by fastforce
  then have v: "view t = view s" "\<And>x. i = Some x \<Longrightarrow> length (ai_target_hardware x) = 16"
    using populate_arpinfo_ok [OF assms(1)] populate_view by (auto split: if_splits)
  have l: "client_ok t" "live t" "arp_fits A_check_router (dh_state (dh t))"
    using view_client_ok [OF v(1)] live_view [OF v(1)] viewD(6) [OF v(1)] goodD [OF assms(1)] assms(2) False bound_like by simp_all
  show ?thesis using False check_router_start_live [OF l v(2)] resume_renewal_live [OF l]
    unfolding wake_with_lease_def Let_def t by (auto split: option.split)
qed

lemma wake_live:
  assumes "good s" "live s"
  shows "returns live (thread_wake info ls s)"
proof -
  obtain v s1 where s1: "dhcp_check_lease s = (v, s1)" by fastforce
  note k = check_lease_keeps [OF goodD [OF assms(1)] s1]
  have g: "good s1" "live s1" using keeps_good [OF k assms(1)] keeps_live [OF k assms(2)] .
  have n: "client_ok (network_changed s)" "live (network_changed s)"
    using view_client_ok [OF view_more(5)] live_view [OF view_more(5)] assms(2) goodD [OF assms(1)] by simp_all
  show ?thesis using g assms s1 wake_with_lease_live [OF g] init_start_live [OF goodD [OF g(1)]] check_link_live [OF n]
    by (auto simp: thread_wake_def)
qed

lemma bssid_changed_live:
  assumes "good s" "live s"
  shows "returns live (thread_bssid_changed s)"
proof -
  obtain i t where t: "service_populate_router_arpinfo s = (i, t)" by fastforce
  note v = populate_view [OF t]
  have l: "client_ok t" "live t" "dh_state (dh t) = dh_state (dh s)"
    using view_client_ok [OF v] live_view [OF v] viewD(6) [OF v] goodD [OF assms(1)] assms(2) by simp_all
  show ?thesis using assms(2) l populate_arpinfo_ok(2) [OF assms(1) t] check_router_start_live [OF l(1,2)] bound_like t
    by (auto simp: thread_bssid_changed_def split: option.split)
qed

lemma active_during_sleep_live:
  assumes "live s" "dhcp_handle_active_during_sleep a b s = (c, t)"
  shows "live t"
proof -
  have "live (cancel_wake s)" using assms(1) by (simp add: cancel_wake_def)
  moreover have "live u" if "try_call (cancel_wake s) = (ok, u)" for ok u
    using calculation live_view [OF view_try_call [OF that]] by simp
  ultimately show ?thesis using assms
    by (auto simp: dhcp_handle_active_during_sleep_def Let_def split: prod.splits if_splits)
qed

section \<open>Steps\<close>

lemma call_timer_live:
  assumes "good s" "needs_request f \<Longrightarrow> dh_request (dh s)" "others_fit s" "timer_fits f (dh_state (dh s))"
    "\<not> trying (dh_state (dh s)) \<Longrightarrow> live s"
  shows "returns live (call_timer f s)"
proof (cases f)
  case (T_renew_rebind evid)
  then show ?thesis using assms goodD [OF assms(1)]
    by (auto simp: renew_rebind_start_live intro!: renew_rebind_attempt_live)
next
  case T_resolve_router_retry
  obtain b t where t: "service_resolve_router (sp_our_ip (saved s)) s = (b, t)" by fastforce
  have "live s" using assms(4,5) T_resolve_router_retry by (simp add: trying_def)
  from resolve_router_live [OF goodD [OF assms(1)] this _ t] t T_resolve_router_retry assms(4) show ?thesis
    by (simp add: resolve_router_retry_def)
qed (use assms goodD [OF assms(1)] in \<open>auto simp: delayed_start_live init_start_live init_timeout_def select_start_live
      init_attempt_live init_reboot_timeout_def bound_start_live init_reboot_attempt_live select_attempt_live
      dhcp_check_link_live trying_def\<close>)

lemma timer_fires_live:
  assumes "good s" "live s" "tm_enabled (dh_timer (dh s))"
  shows "returns live (timer_fires s)"
proof -
  let ?s = "upd (dh_timer_update (\<lambda>_. (dh_timer (dh s))\<lparr>tm_enabled := False\<rparr>)) s"
  obtain f where f: "tm_func (dh_timer (dh s)) = Some f" "timer_fits f (dh_state (dh s))" "others_fit s"
    using assms(2,3) by (auto simp: live_def)
  have g: "good ?s" using assms(1) by (auto simp: good_def pending_ok_def client_ok_def)
  have "needs_request f \<Longrightarrow> dh_request (dh ?s)" using assms(1,3) f(1) by (auto simp: good_def pending_ok_def)
  moreover have "others_fit ?s" "timer_fits f (dh_state (dh ?s))" "\<not> trying (dh_state (dh ?s)) \<Longrightarrow> live ?s"
    using f by (simp_all add: live_def others_fit_def)
  ultimately have "returns live (call_timer f ?s)" by (rule call_timer_live [OF g])
  then show ?thesis using f(1) assms(3) by (simp add: timer_fires_def timer_callout_process_def)
qed

lemma arp_delivers_live:
  assumes "good s" "live s" "ac_callback_source (dh_arp (dh s))"
  shows "returns live (arp_delivers s)"
proof -
  have cb: "ac_callback_source (x_client (arp_ctx_of s))" using assms(3) by (simp add: arp_ctx_of_def)
  obtain f result y where y: "arp_client_do_callback (arp_ctx_of s) = Some (f, result, y)" "arp_ok y"
      "ac_func (x_client (arp_ctx_of s)) = Some f" "ac_func (x_client y) = None" "length (ai_target_hardware (ar_addr result)) = 16"
    by (rule callback_ok [OF client_ok_arp [OF goodD [OF assms(1)]] cb])
  let ?s = "put_arp y s"
  have f: "ac_func (dh_arp (dh s)) = Some f" "arp_fits f (dh_state (dh s))"
    using y(3) assms(2) by (auto simp: arp_ctx_of_def live_def others_fit_def)
  have g: "good ?s" using put_arp_ok [OF goodD [OF assms(1)] y(2)] assms(1) y(4) by (auto simp: good_def pending_ok_def)
  have l: "live ?s" using assms(2) y(4) by (simp add: live_def others_fit_def)
  have rq: "dh_request (dh ?s)" if "f = A_arp_router" using assms(1) f that by (auto simp: good_def pending_ok_def)
  have st: "dh_state (dh ?s) = dh_state (dh s)" by simp
  have "returns live (call_arp f result ?s)"
  proof (cases f)
    case A_bound
    then obtain t where "bound_arp result ?s = Some t" using bound_arp_good [OF g] by (auto simp: returns_def)
    with A_bound f(2) bound_arp_live [OF goodD [OF g]] show ?thesis by simp
  qed (use g l rq f(2) y(5) in \<open>simp_all add: arp_router_arp_live check_router_arp_live resolve_router_arp_live goodD\<close>)
  with y(1) show ?thesis by (simp add: arp_delivers_def)
qed

lemma arp_timer_live:
  assumes "good s" "live s" "tm_enabled (ac_timer (dh_arp (dh s)))"
  shows "returns live (arp_do_opt arp_timer_fires s)"
proof -
  have t: "tm_enabled (ac_timer (x_client (arp_ctx_of s)))" using assms(3) by (simp add: arp_ctx_of_def)
  obtain y where y: "arp_timer_fires (arp_ctx_of s) = Some y" "ac_func (x_client y) = ac_func (dh_arp (dh s))"
    using arp_timer_ok [OF client_ok_arp [OF goodD [OF assms(1)]] t] by (auto simp: returns_def arp_ctx_of_def)
  with assms(2) show ?thesis by (simp add: arp_do_opt_def live_def others_fit_def)
qed

lemma arp_reads_live:
  assumes "good s" "live s" "\<And>ps. r = ReadPackets ps \<Longrightarrow> list_all (arp_packet_ok (s_arp_if s)) ps"
  shows "returns live (arp_reads r s)"
proof -
  have x: "x_if (arp_ctx_of s) = s_arp_if s" "x_client (arp_ctx_of s) = dh_arp (dh s)" by (simp_all add: arp_ctx_of_def)
  have "\<And>ps. r = ReadPackets ps \<Longrightarrow> \<forall>p \<in> set ps. arp_packet_ok (x_if (arp_ctx_of s)) p"
    using assms(3) by (simp add: x list_all_iff)
  from session_read_ok [OF client_ok_arp [OF goodD [OF assms(1)]] this, where w = "s_world s"]
  obtain c where c: "arp_if_session_read (s_world s) (s_arp_if s) r [dh_arp (dh s)] = Some [c]" "ac_func c = ac_func (dh_arp (dh s))"
    by (auto simp: returns_def x)
  with assms(2) show ?thesis by (simp add: arp_reads_def live_def others_fit_def)
qed

lemma deliver_live:
  assumes "good s" "live s" "length junk = sizeof_receive_buf" "length datagram + 4 \<le> sizeof_receive_buf"
  shows "returns live (bootp_session_deliver datagram junk s)"
proof (rule deliver_cases [OF assms(3,4), of s])
  fix f pkt
  assume f: "dh_receive (dh s) = Some f" "received_ok pkt" "bootp_session_deliver datagram junk s = call_receive f pkt s"
  have "receive_fits f (dh_state (dh s))" using assms(2) f(1) by (auto simp: live_def others_fit_def)
  then show ?thesis using assms(1,2) f(2,3) goodD [OF assms(1)]
    by (cases f) (simp_all add: init_data_live init_reboot_data_live select_data_live renew_rebind_data_live)
qed (simp add: assms(2))

lemma thread_start_live:
  assumes "not_started s" "ci_link_type (s_if s) \<in> {IFT_ETHER, IFT_L2VLAN, IFT_IEEE8023ADLAG}"
    "thread_start cid s = Some (st, t)" "s_private t"
  shows "live t"
proof -
  have "\<not> ci_loopback (s_if s)" using assms(1,3,4) by (auto simp: thread_start_def not_started_def)
  then obtain u where u: "thread_start cid s = Some (ipconfig_status_success_e, set_relative 0 0 T_delayed_start u)"
      "resting u" "dh_state (dh u) = dhcp_cstate_inactive_e"
    by (rule thread_start_result [OF assms(1,2)]) (rule that, assumption+)
  have "live (set_relative 0 0 T_delayed_start u)" by (rule set_relative_live) (use u in \<open>simp_all add: resting_others\<close>)
  with u(1) assms(3) show ?thesis by simp
qed

lemma dhcp_thread_live:
  assumes "good s" "live s" "\<And>cid. e \<noteq> StartEvent cid" "e \<noteq> StopEvent" "\<And>ssid. e \<noteq> ForgetSsidEvent ssid"
  shows "returns (\<lambda>(st, a, t). live t) (dhcp_thread e s)"
  using assms good_private [OF assms(1)] goodD [OF assms(1)]
  by (cases e)
    (auto simp: if_started_def must_be_started_def succeed_def arp_collision_live link_changed_live inactive_live sleep_live
      wake_live bssid_changed_live intro: active_during_sleep_live split: prod.split)

lemma config_method_live:
  assumes "good s" "live s" "\<And>cid. e \<noteq> StartEvent cid" "e \<noteq> StopEvent" "\<And>ssid. e \<noteq> ForgetSsidEvent ssid"
  shows "returns (\<lambda>(st, a, t). live t) (config_method e s)"
proof -
  have "good (service_router_clear_arp_verified s)" "live (service_router_clear_arp_verified s)"
    using assms(1,2) good_view [OF view_router(5)] live_view [OF view_router(5)] by simp_all
  note g = dhcp_thread_live [OF this] dhcp_thread_live [OF assms(1,2)]
  show ?thesis using assms(3-) g by (cases e) (simp_all del: dhcp_thread.simps)
qed

text \<open>The client was not told to forget a network.\<close>

definition forgets :: "stimulus \<Rightarrow> bool" where
  "forgets e \<longleftrightarrow> (\<exists>ssid. e = Method (ForgetSsidEvent ssid))"

lemma client_step_live:
  assumes "client_inv s" "s_private s \<longrightarrow> live s" "enabled e s" "foreseen e s" "\<not> forgets e" "client_step e s = Some t" "s_private t"
  shows "live t"
proof (cases "s_private s")
  case True
  then have g: "good s" "live s" using assms(1,2) by (simp_all add: client_inv_def)
  have "returns live (client_step e s)"
  proof (cases e)
    case (Method m)
    show ?thesis
    proof (cases m)
      case (StartEvent cid)
      then show ?thesis using True g(2) by (simp add: Method thread_start_def plain_def)
    next
      case StopEvent
      then show ?thesis using assms(6,7) True by (auto simp: Method plain_def thread_stop_def split: bind_splits)
    next
      case (ForgetSsidEvent ssid)
      then show ?thesis using assms(5) by (simp add: Method forgets_def)
    qed (use config_method_live [OF g, of m] in \<open>auto simp: Method returns_def simp del: config_method.simps\<close>)
  next
    case (ArpReads r)
    have "\<And>ps. r = ReadPackets ps \<Longrightarrow> list_all (arp_packet_ok (s_arp_if s)) ps" using assms(4) ArpReads by simp
    from arp_reads_live [OF g this] show ?thesis by (simp add: ArpReads)
  qed (use assms(3,4) g in \<open>auto simp: timer_fires_live arp_timer_live arp_delivers_live deliver_live\<close>)
  with assms(6) show ?thesis by simp
next
  case False
  then have n: "not_started s" using assms(1) by (simp add: client_inv_def)
  show ?thesis
  proof (cases e)
    case (Method m)
    with False assms(3) consider "m = StopEvent" | cid where "m = StartEvent cid" by auto
    then show ?thesis
    proof cases
      case 1
      with False assms(6,7) show ?thesis by (simp add: Method plain_def thread_stop_def)
    next
      case (2 cid)
      with assms(4,6,7) thread_start_live [OF n] show ?thesis by (auto simp: Method plain_def)
    qed
  qed (use False assms(3,6,7) in auto)
qed

lemma client_steps_live:
  "client_steps s0 es s \<Longrightarrow> not_started s0 \<Longrightarrow> list_all (\<lambda>e. \<not> forgets e) es \<Longrightarrow>
   client_inv s \<and> (s_private s \<longrightarrow> live s)"
proof (induction rule: client_steps.induct)
  case (no_step s)
  then show ?case by (simp add: client_inv_def not_started_def)
next
  case (more_steps s es s1 e s2)
  then have i: "client_inv s1" "s_private s1 \<longrightarrow> live s1" "\<not> forgets e" by simp_all
  have "client_inv s2" using client_step_inv [OF i(1) more_steps.hyps(2,3)] more_steps.hyps(4) by simp
  with client_step_live [OF i(1,2) more_steps.hyps(2,3) i(3) more_steps.hyps(4)] show ?case by blast
qed

end
