(* ===== verification/ClientRequests.thy ===== *)
theory ClientRequests
  imports ClientDataFacts
begin

text \<open>
  A request of the DHCP client, read by the parser that the server uses, has the options that the client
  put into it.
\<close>

section \<open>The options of a request\<close>

definition requested_params :: "client_globals \<Rightarrow> bool \<Rightarrow> u8 list" where
  "requested_params g v6 =
     (if \<not> v6 \<and> dhcp_parameter_is_ok g dhcptag_ipv6_only_preferred_e
      then filter (\<lambda>p. p \<noteq> dhcptag_ipv6_only_preferred_e) (dhcp_params g) else dhcp_params g)"

definition base_options :: "client_globals \<Rightarrow> u8 \<Rightarrow> u8 list \<Rightarrow> u8 \<Rightarrow> u8 list option \<Rightarrow> bool \<Rightarrow> (int \<times> u8 list) list" where
  "base_options g msg hwaddr hwtype cid v6 =
     (dhcptag_dhcp_message_type_e, [msg]) #
     (if msg \<noteq> dhcp_msgtype_decline_e \<and> msg \<noteq> dhcp_msgtype_release_e
      then [(dhcptag_parameter_request_list_e, requested_params g v6), (dhcptag_max_dhcp_message_size_e, net_uint16_bytes 1500)]
      else []) @
     [(dhcptag_client_identifier_e, client_identifier hwtype hwaddr cid)]"

text \<open>The name of the host, when there is room for it.\<close>

definition name_options :: "(int \<times> u8 list) list \<Rightarrow> string option \<Rightarrow> (int \<times> u8 list) list" where
  "name_options os name =
     (case name of
        None \<Rightarrow> []
      | Some n \<Rightarrow> if length (str_bytes n) \<le> 255 \<and> space (os @ [(dhcptag_host_name_e, str_bytes n)]) + 1 \<le> request_area_size
                  then [(dhcptag_host_name_e, str_bytes n)] else [])"

section \<open>Areas that hold options\<close>

definition area_holds :: "dhcpoa \<Rightarrow> (int \<times> u8 list) list \<Rightarrow> bool" where
  "area_holds oa os \<longleftrightarrow> oa_holds oa (map as_field os) \<and> oa_offset oa = space os \<and> oa_size oa = request_area_size \<and>
     oa_reserve oa = 1 \<and> int (length (oa_buffer oa)) = request_area_size"

lemma space_append: "space (xs @ ys) = space xs + space ys"
  by (simp add: space_def)

lemma space_Nil [simp]: "space [] = 0"
  by (simp add: space_def)

lemma space_one: "space [(t, d)] = int (length d) + 2"
  by (simp add: space_def)

lemma area_holds_add:
  assumes "area_holds oa os" "legal (t, d)" "space (os @ [(t, d)]) + 1 \<le> request_area_size"
  shows "returns (\<lambda>(ok, oa'). ok \<and> area_holds oa' (os @ [(t, d)])) (add_option oa t d)"
proof -
  have h: "oa_holds oa (map as_field os)" using assms(1) by (simp add: area_holds_def)
  have l: "0 < t" "t < dhcptag_end_e" "0 \<le> int (length d)" "int (length d) \<le> DHCP_OPTION_SIZE_MAX" "nat (int (length d)) \<le> length d"
    using assms(2) by (auto simp: legal_def DHCP_OPTION_SIZE_MAX_def)
  have f: "oa_offset oa + int (length d) + 2 + oa_reserve oa \<le> oa_size oa"
    using assms(1,3) by (simp add: area_holds_def space_append space_one)
  obtain oa' where "dhcpoa_add oa t (int (length d)) d = Some (dhcpoa_success_e, oa')"
      "oa_holds oa' (map as_field os @ [(word_of_int t, take (nat (int (length d))) d)])"
      "oa_offset oa' = oa_offset oa + int (length d) + 2" "oa_size oa' = oa_size oa" "oa_reserve oa' = oa_reserve oa"
      "length (oa_buffer oa') = length (oa_buffer oa)"
    by (rule dhcpoa_add_option [OF h l f])
  with assms(1) show ?thesis by (simp add: add_option_def area_holds_def space_append space_one as_field_def)
qed

lemma area_holds_add_all:
  assumes "area_holds oa os" "\<forall>f \<in> set fs. legal f" "space (os @ fs) + 1 \<le> request_area_size"
  shows "returns (\<lambda>(ok, oa'). ok \<and> area_holds oa' (os @ fs)) (ClientOptions.add_all oa fs)"
  using assms
proof (induction fs arbitrary: oa os)
  case (Cons f fs)
  obtain t d where f: "f = (t, d)" by (cases f)
  have sp: "space (os @ [(t, d)]) + 1 \<le> request_area_size"
    using Cons.prems(3) space_nonneg [of fs] by (simp add: f space_append space_Cons space_one)
  obtain oa1 where oa1: "add_option oa t d = Some (True, oa1)" "area_holds oa1 (os @ [f])"
    using area_holds_add [OF Cons.prems(1) _ sp] Cons.prems(2) by (auto simp: f returns_def)
  show ?case using Cons.IH [OF oa1(2)] Cons.prems(2,3) oa1(1) by (simp add: f)
qed simp

lemma area_holds_name:
  assumes "area_holds oa os"
  shows "returns (\<lambda>oa'. area_holds oa' (os @ name_options os name)) (add_host_name name oa)"
proof (cases name)
  case (Some n)
  let ?d = "str_bytes n"
  show ?thesis
  proof (cases "length ?d \<le> 255 \<and> space (os @ [(dhcptag_host_name_e, ?d)]) + 1 \<le> request_area_size")
    case True
    have "returns (\<lambda>(ok, oa'). ok \<and> area_holds oa' (os @ [(dhcptag_host_name_e, ?d)])) (add_option oa dhcptag_host_name_e ?d)"
      by (rule area_holds_add [OF assms]) (use True in \<open>simp_all add: legal_def\<close>)
    with True Some show ?thesis by (auto simp: add_host_name_def name_options_def returns_def)
  next
    case False
    have h: "oa_holds oa (map as_field os)" using assms by (simp add: area_holds_def)
    obtain e r where "dhcpoa_add oa dhcptag_host_name_e (int (length ?d)) ?d = Some (r, oa\<lparr>oa_err := Some e\<rparr>)"
    proof (cases "length ?d \<le> 255")
      case False
      then show ?thesis using that dhcpoa_add_too_long [of "int (length ?d)" oa dhcptag_host_name_e ?d]
        by (simp add: DHCP_OPTION_SIZE_MAX_def)
    next
      case True
      then have "oa_offset oa + int (length ?d) + 2 + oa_reserve oa > oa_size oa"
        using False assms by (simp add: area_holds_def space_append space_one)
      then obtain e where "dhcpoa_add oa dhcptag_host_name_e (int (length ?d)) ?d = Some (dhcpoa_full_e, oa\<lparr>oa_err := Some e\<rparr>)"
        by (rule dhcpoa_add_full [OF h, of dhcptag_host_name_e "int (length ?d)" ?d, rotated 3])
          (use True in \<open>simp_all add: DHCP_OPTION_SIZE_MAX_def\<close>)
      with that show ?thesis by blast
    qed
    with False Some assms show ?thesis by (auto simp: add_host_name_def name_options_def add_option_def area_holds_def)
  qed
qed (use assms in \<open>simp add: add_host_name_def name_options_def\<close>)

lemma area_holds_end:
  assumes "area_holds oa os"
  obtains oa' where "add_option oa dhcptag_end_e [] = Some (True, oa')" "dhcpoa_used oa' = space os + 1"
    "\<And>rest. tlv_parse (take (nat (space os + 1)) (oa_buffer oa') @ rest) = Some (map as_field os)"
    "int (length (oa_buffer oa')) = request_area_size" "space os + 1 \<le> request_area_size"
proof -
  have h: "oa_holds oa (map as_field os)" using assms by (simp add: area_holds_def)
  have room: "oa_offset oa + 1 \<le> oa_size oa" using h assms by (auto simp: oa_holds_def oa_ok_def area_holds_def)
  have l: "0 \<le> DHCP_OPTION_SIZE_MAX" by (simp add: DHCP_OPTION_SIZE_MAX_def)
  obtain oa' where oa': "dhcpoa_add oa dhcptag_end_e 0 [] = Some (dhcpoa_success_e, oa')" "oa_ok oa'"
      "\<And>rest. tlv_parse (written oa' @ rest) = Some (map as_field os)" "oa_offset oa' = oa_offset oa + 1"
      "length (oa_buffer oa') = length (oa_buffer oa)"
    by (rule dhcpoa_add_end [OF h room l, of "[]"]) (rule that, assumption+)
  show ?thesis
    by (rule that [of oa']) (use oa' assms room in \<open>simp_all add: add_option_def area_holds_def dhcpoa_used_def oa_ok_def written_def\<close>)
qed

section \<open>Building and parsing\<close>

text \<open>The header of a request; a FireWire address is not in it.\<close>

definition has_header :: "bool \<Rightarrow> u8 \<Rightarrow> u8 list \<Rightarrow> dhcp \<Rightarrow> bool" where
  "has_header broadcast hwtype hwaddr p \<longleftrightarrow>
     dp_op p = BOOTREQUEST \<and> dp_htype p = hwtype \<and> dp_flags p = (if broadcast then swap16 0x8000 else 0) \<and>
     dp_yiaddr p = 0 \<and> dp_giaddr p = 0 \<and>
     (if hwtype = 24 then dp_hlen p = 0
      else dp_hlen p = word_of_nat (length hwaddr) \<and> take (length hwaddr) (dp_chaddr p) = hwaddr)"

lemma has_header_upd [simp]:
  "has_header b t h (with_options p oa) = has_header b t h p" "has_header b t h (p\<lparr>dp_xid := x\<rparr>) = has_header b t h p"
  "has_header b t h (p\<lparr>dp_xid := x, dp_secs := y\<rparr>) = has_header b t h p"
  by (simp_all add: has_header_def with_options_def)

lemma request_has_header:
  assumes "request_header n hwtype hwaddr b = Some p"
  shows "has_header b hwtype hwaddr p"
proof (cases "hwtype = 24")
  case False
  then obtain c where c: "wrn (replicate 16 0) 0 hwaddr = Some c"
      "p = (cleared_request n)\<lparr>dp_htype := hwtype, dp_op := BOOTREQUEST, dp_flags := (if b then swap16 0x8000 else 0),
             dp_hlen := word_of_nat (length hwaddr), dp_chaddr := c\<rparr>"
    using assms by (auto simp: request_header_def Let_def cleared_request_def split: bind_splits)
  have "take (length hwaddr) c = hwaddr" using c(1) by (auto simp: wrn_def split: if_splits)
  with False show ?thesis by (simp add: has_header_def c(2) cleared_request_def)
qed (use assms in \<open>auto simp: request_header_def has_header_def cleared_request_def\<close>)

lemma make_request_holds:
  assumes "globals_ok g" "length hwaddr \<le> 16"
    "\<forall>f \<in> set (base_options g msg hwaddr hwtype cid v6). legal f"
    "space (base_options g msg hwaddr hwtype cid v6) + 1 \<le> request_area_size"
  shows "returns (\<lambda>(ok, p, oa). ok \<and> pkt_ok 312 p \<and> area_holds oa (base_options g msg hwaddr hwtype cid v6) \<and>
      has_header (mb \<or> G_must_broadcast g) hwtype hwaddr p)
    (make_dhcp_request g DHCP_PACKET_MIN msg hwaddr hwtype cid mb v6)"
proof -
  obtain p where p: "request_header DHCP_PACKET_MIN hwtype hwaddr (mb \<or> G_must_broadcast g) = Some p" "pkt_ok 312 p"
    using request_header_ok [OF assms(2)] by (auto simp: returns_def)
  note hd = request_has_header [OF p(1)]
  obtain w where w: "wrn (dp_options p) 0 rfc_magic = Some w" "length w = 312"
    using p(2) by (auto simp: wrn_def pkt_ok_def rfc_magic_def)
  have sz: "DHCP_PACKET_MIN - sizeof_dhcp - int RFC_MAGIC_SIZE = request_area_size" "request_area_size = 308"
    by (simp_all add: request_area_size_def DHCP_PACKET_MIN_def sizeof_dhcp_def RFC_MAGIC_SIZE_def)
  obtain oa where oa: "dhcpoa_init (drop RFC_MAGIC_SIZE w) request_area_size = Some oa" "area_holds oa []"
    by (rule oa_init_holds [of request_area_size "drop RFC_MAGIC_SIZE w" 1])
      (use w(2) in \<open>auto simp: dhcpoa_init_def area_holds_def sz(2) RFC_MAGIC_SIZE_def space_def\<close>)
  let ?b = "base_options g msg hwaddr hwtype cid v6"
  let ?m = "(dhcptag_dhcp_message_type_e, [msg])" and ?c = "(dhcptag_client_identifier_e, client_identifier hwtype hwaddr cid)"
  let ?ask = "msg \<noteq> dhcp_msgtype_decline_e \<and> msg \<noteq> dhcp_msgtype_release_e"
  let ?q = "if ?ask then [(dhcptag_parameter_request_list_e, requested_params g v6),
      (dhcptag_max_dhcp_message_size_e, net_uint16_bytes 1500)] else []"
  have b: "?b = [?m] @ ?q @ [?c]" by (simp add: base_options_def)
  have legal: "legal ?m" "legal ?c" "\<forall>f \<in> set ?q. legal f" using assms(3) unfolding b by simp_all
  have room: "space [?m] + 1 \<le> request_area_size" "space ([?m] @ ?q) + 1 \<le> request_area_size" "space (([?m] @ ?q) @ [?c]) + 1 \<le> request_area_size"
    using assms(4) space_nonneg [of ?q] space_nonneg [of "[?c]"] space_append [of "[?m]" ?q] space_append [of "[?m] @ ?q" "[?c]"]
    unfolding b append_assoc [symmetric] by linarith+
  obtain oa1 where oa1: "add_option oa dhcptag_dhcp_message_type_e [msg] = Some (True, oa1)" "area_holds oa1 [?m]"
    using area_holds_add [OF oa(2) legal(1)] room(1) by (auto simp: returns_def)
  then have m1: "dhcpoa_add_dhcpmsg oa msg = Some (dhcpoa_success_e, oa1)"
    by (auto simp: add_option_def dhcpoa_add_dhcpmsg_def)
  let ?mid = "if ?ask then do {
            (ok, oa) \<leftarrow> add_parameter_request_list g v6 oa1;
            if \<not> ok then Some (False, oa)
            else add_option oa dhcptag_max_dhcp_message_size_e (net_uint16_bytes 1500) }
          else Some (True, oa1)"
  have par: "add_parameter_request_list g v6 oa1 = add_option oa1 dhcptag_parameter_request_list_e (requested_params g v6)"
  proof -
    have "filter (\<lambda>p. p \<noteq> dhcptag_ipv6_only_preferred_e) (dhcp_params g) \<noteq> []"
      if "dhcp_parameter_is_ok g dhcptag_ipv6_only_preferred_e"
      using that assms(1) by (auto simp: globals_ok_def dhcp_parameter_is_ok_def filter_empty_conv)
    then show ?thesis by (auto simp: add_parameter_request_list_def requested_params_def Let_def)
  qed
  have all: "ClientOptions.add_all oa1 ?q = ?mid"
    unfolding par by (auto split: bind_splits prod.splits)
  obtain oa2 where oa2: "?mid = Some (True, oa2)" "area_holds oa2 ([?m] @ ?q)"
    using area_holds_add_all [OF oa1(2) legal(3) room(2)] unfolding all by (auto simp: returns_def)
  obtain oa3 where oa3: "add_option oa2 dhcptag_client_identifier_e (client_identifier hwtype hwaddr cid) = Some (True, oa3)"
      "area_holds oa3 (([?m] @ ?q) @ [?c])"
    using area_holds_add [OF oa2(2) legal(2) room(3)] by (auto simp: returns_def)
  have "area_holds oa3 ?b" using oa3(2) unfolding b by simp
  moreover have "pkt_ok 312 (with_options p oa3)" using with_options_ok [OF p(2)] oa3(2) by (simp add: area_holds_def)
  ultimately show ?thesis
    unfolding make_dhcp_request_def p(1) w(1) sz(1) oa(1) m1 bind.bind_lunit prod.case oa2(1) using oa3(1) hd by simp
qed

lemma overload_none: "(\<And>d. (52, d) \<notin> set fs) \<Longrightarrow> overload_fields pkt fs = []"
proof -
  assume a: "\<And>d. (52, d) \<notin> set fs"
  have "uint t \<noteq> 52" if "(t, d) \<in> set fs" for t d
  proof
    assume "uint t = 52"
    then have "t = 52" by (simp add: word_uint_eq_iff)
    with that a show False by blast
  qed
  then have "find (\<lambda>(t, d). uint t = dhcptag_option_overload_e) fs = None" by (auto simp: find_None_iff)
  then show ?thesis unfolding overload_fields_def by simp
qed

lemma finish_request_parses:
  assumes "pkt_ok 312 p" "area_holds oa os" "\<forall>f \<in> set fs. legal f" "space (os @ fs) + 1 \<le> request_area_size"
    "\<And>d. (52, d) \<notin> set (map as_field (os @ fs))"
  shows "returns (\<lambda>(q, n). \<exists>k l. n = Some k \<and> 300 \<le> k \<and> k \<le> 548 \<and> pkt_ok 312 q \<and>
      dhcpol_parse_packet q k = Some (Inr l) \<and> dhcpol_ok l \<and> opts l = map as_field (os @ fs @ name_options (os @ fs) name) \<and>
      has_header b hwtype hwaddr q = has_header b hwtype hwaddr p)
    (ClientOptions.finish_request fs name p oa)"
proof -
  obtain oa1 where oa1: "ClientOptions.add_all oa fs = Some (True, oa1)" "area_holds oa1 (os @ fs)"
    using area_holds_add_all [OF assms(2-4)] by (auto simp: returns_def)
  let ?os = "(os @ fs) @ name_options (os @ fs) name"
  obtain oa2 where oa2: "add_host_name name oa1 = Some oa2" "area_holds oa2 ?os"
    using area_holds_name [OF oa1(2), of name] by (auto simp: returns_def)
  obtain oa3 where oa3: "add_option oa2 dhcptag_end_e [] = Some (True, oa3)" "dhcpoa_used oa3 = space ?os + 1"
      "\<And>rest. tlv_parse (take (nat (space ?os + 1)) (oa_buffer oa3) @ rest) = Some (map as_field ?os)"
      "int (length (oa_buffer oa3)) = request_area_size" "space ?os + 1 \<le> request_area_size"
    by (rule area_holds_end [OF oa2(2)]) (rule that, assumption+)
  let ?q = "with_options p oa3" and ?k = "request_size_of oa3"
  have q: "pkt_ok 312 ?q" using with_options_ok [OF assms(1) oa3(4)] .
  have sz: "request_area_size = 308" by (simp add: request_area_size_def DHCP_PACKET_MIN_def sizeof_dhcp_def RFC_MAGIC_SIZE_def)
  have k: "?k = (let n = 241 + space ?os in if n < 300 then 300 else n)" "0 \<le> space ?os"
    by (simp_all add: request_size_of_def oa3(2) sizeof_dhcp_def RFC_MAGIC_SIZE_def sizeof_bootp_def space_nonneg Let_def)
  have kb: "300 \<le> ?k" "?k \<le> 548" "nat (space ?os + 1) \<le> nat ?k - 240"
    using k oa3(5) sz by (auto simp: Let_def split: if_splits)
  have "tlv_parse (take (nat ?k - 240) (oa_buffer oa3)) = Some (map as_field ?os)"
  proof -
    let ?n = "nat (space ?os + 1)"
    obtain j where "nat ?k - 240 = ?n + j" using kb(3) le_Suc_ex by blast
    then have "take (nat ?k - 240) (oa_buffer oa3) = take ?n (oa_buffer oa3) @ take j (drop ?n (oa_buffer oa3))"
      by (simp add: take_add)
    then show ?thesis using oa3(3) by simp
  qed
  moreover have "overload_fields ?q (map as_field ?os) = []"
    by (rule overload_none) (use assms(5) in \<open>auto simp: name_options_def as_field_def split: option.splits\<close>)
  moreover have "dp_options ?q = rfc_magic @ oa_buffer oa3" by (simp add: with_options_def)
  ultimately have "packet_fields ?q (nat ?k) = Some (map as_field ?os)"
    using kb(1) by (simp add: packet_fields_def rfc_magic_def)
  moreover have "dhcp_layout ?q" "0 \<le> ?k" "nat ?k \<le> 236 + length (dp_options ?q)" using q kb by (auto simp: pkt_ok_def)
  note parse_packet_spec [OF this]
  ultimately have "\<exists>l. dhcpol_parse_packet ?q ?k = Some (Inr l) \<and> dhcpol_ok l \<and> opts l = map as_field ?os" by simp
  then show ?thesis using oa1(1) oa2(1) oa3(1) kb q by (simp add: ClientOptions.finish_request_def)
qed

end
