(* ===== verification/ClientMessages.thy ===== *)
theory ClientMessages
  imports ClientProgress ClientRequests
begin

text \<open>
  What the DHCP client sends: the request that a state builds is sent as it was built, with the state's
  transaction identifier, and the parser reads the options of the state from it.
\<close>

section \<open>Requests of a service\<close>

text \<open>A packet of which \<open>k\<close> bytes are sent, read by \<open>dhcpol_parse_packet\<close>.\<close>

definition carries :: "dhcp \<Rightarrow> int \<Rightarrow> (int \<times> u8 list) list \<Rightarrow> bool" where
  "carries p k os \<longleftrightarrow> 300 \<le> k \<and> k \<le> 548 \<and>
     (\<exists>l. dhcpol_parse_packet p k = Some (Inr l) \<and> dhcpol_ok l \<and> opts l = map as_field os)"

lemma parse_packet_same:
  assumes "dp_options p = dp_options q" "dp_file p = dp_file q" "dp_sname p = dp_sname q"
  shows "dhcpol_parse_packet p k = dhcpol_parse_packet q k"
proof -
  have "parse_overloads p = parse_overloads q" by (rule ext) (simp only: parse_overloads_def assms)
  then show ?thesis by (simp only: dhcpol_parse_packet_def assms(1))
qed

lemma parse_packet_fields:
  "dhcpol_parse_packet (p\<lparr>dp_xid := x\<rparr>) k = dhcpol_parse_packet p k"
  "dhcpol_parse_packet (p\<lparr>dp_xid := x, dp_secs := y\<rparr>) k = dhcpol_parse_packet p k"
  "dhcpol_parse_packet (p\<lparr>dp_ciaddr := a\<rparr>) k = dhcpol_parse_packet p k"
  by (rule parse_packet_same, simp_all)+

lemma carries_upd [simp]:
  "carries (p\<lparr>dp_xid := x\<rparr>) k os = carries p k os" "carries (p\<lparr>dp_xid := x, dp_secs := y\<rparr>) k os = carries p k os"
  "carries (p\<lparr>dp_ciaddr := a\<rparr>) k os = carries p k os"
  by (simp_all add: carries_def parse_packet_fields)

definition own_options :: "u8 \<Rightarrow> service \<Rightarrow> (int \<times> u8 list) list" where
  "own_options msg s = base_options (s_globals s) msg (ci_link_address (s_if s)) (ci_arptype (s_if s))
     (dh_client_id (dh s)) (ServiceCanDoIPv6OnlyPreferred s)"

definition request_fits :: "u8 \<Rightarrow> (int \<times> u8 list) list \<Rightarrow> service \<Rightarrow> bool" where
  "request_fits msg fs s \<longleftrightarrow> (\<forall>f \<in> set (own_options msg s @ fs). legal f) \<and>
     space (own_options msg s @ fs) + 1 \<le> request_area_size"

text \<open>The header and the options of a request that a state sends.\<close>

definition is_request :: "u8 \<Rightarrow> (int \<times> u8 list) list \<Rightarrow> service \<Rightarrow> dhcp \<Rightarrow> int \<Rightarrow> bool" where
  "is_request msg fs s p k \<longleftrightarrow>
     has_header (dh_must_broadcast (dh s) \<or> G_must_broadcast (s_globals s)) (ci_arptype (s_if s)) (ci_link_address (s_if s)) p \<and>
     carries p k (own_options msg s @ fs @ name_options (own_options msg s @ fs) (name_to_supply s))"

lemma is_request_upd [simp]:
  "is_request msg fs s (p\<lparr>dp_xid := x, dp_secs := y\<rparr>) k = is_request msg fs s p k"
  by (simp add: is_request_def)

lemma name_of_same: "s_globals s = s_globals t \<Longrightarrow> s_if s = s_if t \<Longrightarrow> name_to_supply s = name_to_supply t"
  by (simp add: name_to_supply_def ServiceIsPrivacyRequired_def split: option.split)

lemma request_of_same:
  assumes "s_globals s = s_globals t" "s_if s = s_if t" "dh_client_id (dh s) = dh_client_id (dh t)"
    "dh_must_broadcast (dh s) = dh_must_broadcast (dh t)"
  shows "own_options msg s = own_options msg t" "request_fits msg fs s = request_fits msg fs t"
    "is_request msg fs s = is_request msg fs t"
  using assms name_of_same [OF assms(1,2)]
  by (simp_all add: own_options_def request_fits_def is_request_def ServiceCanDoIPv6OnlyPreferred_def fun_eq_iff)

lemma own_options_no_overload: "(52, d) \<notin> set (map as_field (own_options msg s))"
  by (auto simp: own_options_def base_options_def as_field_def)

lemma make_request_area:
  assumes "client_ok s" "\<forall>f \<in> set (base_options (s_globals s) msg (ci_link_address (s_if s)) (ci_arptype (s_if s)) (dh_client_id (dh s)) v6). legal f"
    "space (base_options (s_globals s) msg (ci_link_address (s_if s)) (ci_arptype (s_if s)) (dh_client_id (dh s)) v6) + 1 \<le> request_area_size"
  obtains oa p where "make_request msg mb v6 s = Some (True, oa, upd (\<lambda>d. d\<lparr>dh_request := True, dh_txbuf := p\<rparr>) s)" "pkt_ok 312 p"
    "area_holds oa (base_options (s_globals s) msg (ci_link_address (s_if s)) (ci_arptype (s_if s)) (dh_client_id (dh s)) v6)"
    "has_header (mb \<or> G_must_broadcast (s_globals s)) (ci_arptype (s_if s)) (ci_link_address (s_if s)) p"
proof -
  have g: "globals_ok (s_globals s)" "length (ci_link_address (s_if s)) \<le> 16" using assms(1) by (simp_all add: client_ok_def)
  let ?b = "base_options (s_globals s) msg (ci_link_address (s_if s)) (ci_arptype (s_if s)) (dh_client_id (dh s)) v6"
  obtain p oa where m: "make_dhcp_request (s_globals s) DHCP_PACKET_MIN msg (ci_link_address (s_if s)) (ci_arptype (s_if s))
      (dh_client_id (dh s)) mb v6 = Some (True, p, oa)" "pkt_ok 312 p" "area_holds oa ?b"
      "has_header (mb \<or> G_must_broadcast (s_globals s)) (ci_arptype (s_if s)) (ci_link_address (s_if s)) p"
    using make_request_holds [OF g assms(2,3), of mb] unfolding returns_def by (clarsimp split: option.splits)
  show ?thesis by (rule that [OF _ m(2-4)]) (simp add: make_request_def m(1))
qed

lemma complete_request_parses:
  assumes "pkt_ok 312 (dh_txbuf (dh s))" "area_holds oa os" "\<forall>f \<in> set fs. legal f" "space (os @ fs) + 1 \<le> request_area_size"
    "\<And>d. (52, d) \<notin> set (map as_field (os @ fs))"
  obtains q k where "complete_request fs name b oa s =
      Some (True, upd (\<lambda>d. d\<lparr>dh_txbuf := q, dh_request_size := if b then k else dh_request_size d\<rparr>) s)"
    "carries q k (os @ fs @ name_options (os @ fs) name)" "has_header mb ty hw q = has_header mb ty hw (dh_txbuf (dh s))"
proof -
  obtain q k where q: "ClientOptions.finish_request fs name (dh_txbuf (dh s)) oa = Some (q, Some k)"
      "carries q k (os @ fs @ name_options (os @ fs) name)" "has_header mb ty hw q = has_header mb ty hw (dh_txbuf (dh s))"
    using finish_request_parses [OF assms, where name = name and b = mb and hwtype = ty and hwaddr = hw]
    unfolding returns_def carries_def by (clarsimp split: option.splits)
  show ?thesis by (rule that [OF _ q(2,3)]) (simp add: complete_request_def q(1))
qed

lemma build_request_holds:
  assumes "client_ok s" "request_fits msg fs s" "\<And>d. (52, d) \<notin> set (map as_field fs)"
  shows "returns (\<lambda>(ok, t). ok \<and> (\<exists>p k. t = upd (\<lambda>d. d\<lparr>dh_request := True, dh_txbuf := p, dh_request_size := k\<rparr>) s \<and>
      is_request msg fs s p k))
    (build_request msg (dh_must_broadcast (dh s)) fs s)"
proof -
  let ?b = "own_options msg s"
  let ?mb = "dh_must_broadcast (dh s) \<or> G_must_broadcast (s_globals s)" and ?ty = "ci_arptype (s_if s)" and ?hw = "ci_link_address (s_if s)"
  have fits: "\<forall>f \<in> set ?b. legal f" "\<forall>f \<in> set fs. legal f" "space (?b @ fs) + 1 \<le> request_area_size"
    using assms(2) by (auto simp: request_fits_def)
  then have sp: "space ?b + 1 \<le> request_area_size" using space_nonneg [of fs] by (simp add: space_append)
  obtain oa p where m: "make_request msg (dh_must_broadcast (dh s)) (ServiceCanDoIPv6OnlyPreferred s) s =
        Some (True, oa, upd (\<lambda>d. d\<lparr>dh_request := True, dh_txbuf := p\<rparr>) s)" "pkt_ok 312 p" "area_holds oa ?b" "has_header ?mb ?ty ?hw p"
    by (rule make_request_area [OF assms(1), of msg "ServiceCanDoIPv6OnlyPreferred s", folded own_options_def, OF fits(1) sp])
      (rule that, assumption+)
  let ?s1 = "upd (\<lambda>d. d\<lparr>dh_request := True, dh_txbuf := p\<rparr>) s"
  have n: "name_to_supply ?s1 = name_to_supply s" by (rule name_of_same) simp_all
  have o: "(52, d) \<notin> set (map as_field (?b @ fs))" for d
    using assms(3) [of d] own_options_no_overload [of d msg s] by simp
  have p: "pkt_ok 312 (dh_txbuf (dh ?s1))" using m(2) by simp
  obtain q k where q: "complete_request fs (name_to_supply s) True oa ?s1 =
        Some (True, upd (\<lambda>d. d\<lparr>dh_txbuf := q, dh_request_size := if True then k else dh_request_size d\<rparr>) ?s1)"
      "carries q k (?b @ fs @ name_options (?b @ fs) (name_to_supply s))" "has_header ?mb ?ty ?hw q = has_header ?mb ?ty ?hw (dh_txbuf (dh ?s1))"
    by (rule complete_request_parses [OF p m(3) fits(2,3) o]) (rule that, assumption+)
  have "build_request msg (dh_must_broadcast (dh s)) fs s =
      Some (True, upd (\<lambda>d. d\<lparr>dh_request := True, dh_txbuf := q, dh_request_size := k\<rparr>) s)"
    using q(1) by (simp add: build_request_def m(1) n comp_def)
  moreover have "is_request msg fs s q k" using q(2,3) m(4) by (simp add: is_request_def)
  ultimately show ?thesis by auto
qed

section \<open>Sending\<close>

lemma send_request_action:
  assumes "dh_request (dh s)" "w_outcome (s_world s) (w_calls (s_world s))"
  shows "send_request dest src s =
    Some (act (Transmit dest src ((dh_txbuf (dh s))\<lparr>dp_xid := dh_xid (dh s),
              dp_secs := swap16 (word_of_int (trunc (now s - dh_start_secs (dh s))))\<rparr>) (dh_request_size (dh s)))
       (upd (dh_txbuf_update (\<lambda>p. p\<lparr>dp_xid := dh_xid (dh s),
              dp_secs := swap16 (word_of_int (trunc (now s - dh_start_secs (dh s))))\<rparr>))
         (s\<lparr>s_world := (s_world s)\<lparr>w_calls := w_calls (s_world s) + 1\<rparr>\<rparr>)))"
  using assms by (simp add: send_request_def upd_request_def bootp_client_transmit_def try_call_def next_outcome_def act_def)

text \<open>The first try of INIT sends the request that was built.\<close>

lemma wait_for_response_fields [simp]:
  "s_actions (wait_for_response r f s) = s_actions s" "dh_state (dh (wait_for_response r f s)) = dh_state (dh s)"
  "tm_func (dh_timer (dh (wait_for_response r f s))) = Some f" "tm_enabled (dh_timer (dh (wait_for_response r f s)))"
  "dh_receive (dh (wait_for_response r f s)) = dh_receive (dh s)" "s_v4 (wait_for_response r f s) = s_v4 s"
  by (simp_all add: wait_for_response_def double_wait_def set_relative_def Let_def split: prod.split)

lemma init_attempt_first:
  assumes "dh_request (dh s)" "dh_try (dh s) = 0" "0 < G_dhcp_router_arp_at_retry_count (s_globals s)"
    "0 \<le> G_max_retries (s_globals s)" "\<And>n. w_outcome (s_world s) n"
  shows "returns (\<lambda>t. dh_state (dh t) = dh_state (dh s) \<and> tm_enabled (dh_timer (dh t)) \<and>
      tm_func (dh_timer (dh t)) = Some (T_init IFEventID_timeout_e) \<and> dh_receive (dh t) = dh_receive (dh s) \<and>
      (\<exists>secs. last (s_actions t) = Transmit G_ip_broadcast G_ip_zeroes
         ((dh_txbuf (dh s))\<lparr>dp_xid := dh_xid (dh s), dp_secs := secs\<rparr>) (dh_request_size (dh s)))) (init_attempt s)"
proof -
  let ?s = "upd_try (\<lambda>n. n + 1) s" and ?t = "init_give_up_on_router (upd_try (\<lambda>n. n + 1) s)"
  have d: "s_dhcp ?t = s_dhcp ?s" "s_globals ?t = s_globals s" using viewD [OF view_more(3), of ?s] by (simp_all add: upd_try_def)
  have w: "w_outcome (s_world ?t) (w_calls (s_world ?t))"
    using assms(5) by (simp add: init_give_up_on_router_def Let_def linklocal_service_change_def ServiceSetStatus_def
        ServiceGenerateFailureSymptom_def act_def upd_try_def)
  have r: "dh_request (dh ?t)" "dh_try (dh ?t) = 1" "dh_xid (dh ?t) = dh_xid (dh s)" "dh_txbuf (dh ?t) = dh_txbuf (dh s)"
      "dh_request_size (dh ?t) = dh_request_size (dh s)" "dh_state (dh ?t) = dh_state (dh s)" "dh_receive (dh ?t) = dh_receive (dh s)"
    unfolding d using assms(1,2) by (simp_all add: upd_try_def)
  have e: "init_attempt s = map_option (wait_for_response True (T_init IFEventID_timeout_e)) (send_request G_ip_broadcast G_ip_zeroes ?t)"
    using assms(2-4) r(2) d(2)
    by (simp add: init_attempt_def Let_def link_is_lost_def upd_try_def map_conv_bind_option comp_def)
  show ?thesis unfolding e send_request_action [OF r(1) w] r(3-5) by (auto simp: r(6,7) act_def upd_try_def)
qed

text \<open>Entering INIT.\<close>

lemma start_trying_fields [simp]:
  "s_globals (start_trying s) = s_globals s" "s_if (start_trying s) = s_if s" "s_world (start_trying s) = s_world s"
  "dh_xid (dh (start_trying s)) = dh_xid (dh s)" "dh_client_id (dh (start_trying s)) = dh_client_id (dh s)"
  "dh_must_broadcast (dh (start_trying s)) = dh_must_broadcast (dh s)" "dh_state (dh (start_trying s)) = dh_state (dh s)"
  by (simp_all add: start_trying_def)

lemma cancel_pending_more [simp]:
  "dh_xid (dh (dhcp_cancel_pending_events s)) = dh_xid (dh s)"
  "dh_client_id (dh (dhcp_cancel_pending_events s)) = dh_client_id (dh s)"
  "dh_must_broadcast (dh (dhcp_cancel_pending_events s)) = dh_must_broadcast (dh s)"
  "s_actions (dhcp_cancel_pending_events s) = s_actions s"
  by (simp_all add: dhcp_cancel_pending_events_def arp_do_def bootp_client_disable_receive_def put_arp_def)

lemma begin_init_fields:
  "dh_request (dh (begin_init st s)) = dh_request (dh s)" "dh_try (dh (begin_init st s)) = 0"
  "dh_xid (dh (begin_init st s)) = dh_xid (dh s) + 1" "dh_txbuf (dh (begin_init st s)) = dh_txbuf (dh s)"
  "dh_request_size (dh (begin_init st s)) = dh_request_size (dh s)" "dh_state (dh (begin_init st s)) = dh_state (dh s)"
  "dh_receive (dh (begin_init st s)) = Some R_init" "s_globals (begin_init st s) = s_globals s"
  "s_world (begin_init st s) = s_world s"
  by (simp_all add: begin_init_def bootp_client_enable_receive_def service_enable_autoaddr_def ServiceSetBusy_def act_def)

lemma init_start_sends:
  assumes "client_ok s" "request_fits dhcp_msgtype_discover_e [lease_option] s"
    "0 < G_dhcp_router_arp_at_retry_count (s_globals s)" "0 \<le> G_max_retries (s_globals s)" "\<And>n. w_outcome (s_world s) n"
  shows "returns (\<lambda>t. dh_state (dh t) = dhcp_cstate_init_e \<and> tm_enabled (dh_timer (dh t)) \<and>
      tm_func (dh_timer (dh t)) = Some (T_init IFEventID_timeout_e) \<and> dh_receive (dh t) = Some R_init \<and>
      (\<exists>p k. last (s_actions t) = Transmit G_ip_broadcast G_ip_zeroes p k \<and> dp_xid p = dh_xid (dh s) + 1 \<and>
         is_request dhcp_msgtype_discover_e [lease_option] s p k)) (init_start s)"
proof -
  let ?s0 = "upd (\<lambda>d. d\<lparr>dh_allow_wake_with_short_lease := True, dh_resolve_router_timed_out := False\<rparr>)
      (dhcp_set_state dhcp_cstate_init_e (upd_lease (li_wifi_mac_is_set_update (\<lambda>_. False)) s))"
  let ?s1 = "start_trying (dhcp_cancel_pending_events ?s0)"
  have "client_ok ?s0" using assms(1) by (simp add: client_ok_def dhcp_set_state_def)
  then have c1: "client_ok ?s1" using cancel_pending by simp
  have f: "s_globals ?s1 = s_globals s" "s_if ?s1 = s_if s" "dh_client_id (dh ?s1) = dh_client_id (dh s)"
      "dh_must_broadcast (dh ?s1) = dh_must_broadcast (dh s)" "dh_xid (dh ?s1) = dh_xid (dh s)"
      "dh_state (dh ?s1) = dhcp_cstate_init_e"
    by (simp_all add: dhcp_set_state_def)
  note r = request_of_same [OF f(1-4)]
  obtain p k where b: "build_request dhcp_msgtype_discover_e (dh_must_broadcast (dh ?s1)) [lease_option] ?s1 =
      Some (True, upd (\<lambda>d. d\<lparr>dh_request := True, dh_txbuf := p, dh_request_size := k\<rparr>) ?s1)"
      "is_request dhcp_msgtype_discover_e [lease_option] ?s1 p k"
    using build_request_holds [OF c1, of dhcp_msgtype_discover_e "[lease_option]"] assms(2) r(2)
    by (auto simp: returns_def lease_option_def as_field_def)
  let ?s2 = "upd (\<lambda>d. d\<lparr>dh_request := True, dh_txbuf := p, dh_request_size := k\<rparr>) ?s1"
  have w: "w_outcome (s_world (dhcp_cancel_pending_events u)) n = w_outcome (s_world u) n" for u n
    by (simp add: dhcp_cancel_pending_events_def arp_do_def bootp_client_disable_receive_def arp_ctx_of_def arp_client_cancel_def
        cancel_timer_def arp_client_close_fd_def Let_def)
  have e: "init_start s = init_attempt (begin_init (dh_state (dh s)) ?s2)"
    unfolding init_start_def Let_def using b(1) by simp
  show ?thesis unfolding e
    by (rule returns_mono [OF init_attempt_first])
      (use assms(3-5) b(2) f r(3) w in \<open>auto simp: begin_init_fields dhcp_set_state_def\<close>)
qed

section \<open>Declining\<close>

definition decline_options :: "service \<Rightarrow> (int \<times> u8 list) list" where
  "decline_options s = own_options dhcp_msgtype_decline_e s @
     [requested_ip_option (sp_our_ip (saved s)), server_id_option (sp_server_ip (saved s))]"

lemma decline_base: "own_options dhcp_msgtype_decline_e s = base_options (s_globals s) dhcp_msgtype_decline_e
    (ci_link_address (s_if s)) (ci_arptype (s_if s)) (dh_client_id (dh s)) False"
  by (simp add: own_options_def base_options_def)

lemma decline_no_overload: "(52, d) \<notin> set (map as_field (decline_options s))"
  using own_options_no_overload [of d dhcp_msgtype_decline_e s]
  by (auto simp: decline_options_def as_field_def requested_ip_option_def server_id_option_def)

lemma remove_address_zero [simp]: "v4_addr (s_v4 (service_remove_address s)) = 0"
  by (simp add: service_remove_address_def Let_def linklocal_set_needs_attention_def remove_ip_def act_def)

text \<open>Actions stay.\<close>

lemma actions_kept:
  "a \<in> set (s_actions s) \<Longrightarrow> a \<in> set (s_actions (service_remove_address s))"
  "a \<in> set (s_actions s) \<Longrightarrow> a \<in> set (s_actions (upd f s))"
  "a \<in> set (s_actions s) \<Longrightarrow> a \<in> set (s_actions (dhcp_invalidate_lease s))"
  "a \<in> set (s_actions s) \<Longrightarrow> a \<in> set (s_actions (service_router_clear s))"
  "a \<in> set (s_actions s) \<Longrightarrow> a \<in> set (s_actions (service_disable_autoaddr s))"
  "a \<in> set (s_actions s) \<Longrightarrow> a \<in> set (s_actions (ServiceSetBusy b s))"
  "a \<in> set (s_actions s) \<Longrightarrow> a \<in> set (s_actions (set_relative x y g s))"
  by (simp_all add: service_remove_address_def Let_def linklocal_set_needs_attention_def remove_ip_def act_def upd_defs
      service_router_clear_def upd_router_def service_disable_autoaddr_def ServiceSetBusy_def)

lemma v4_addr_kept [simp]:
  "v4_addr (s_v4 (upd f s)) = v4_addr (s_v4 s)" "v4_addr (s_v4 (dhcp_invalidate_lease s)) = v4_addr (s_v4 s)"
  "v4_addr (s_v4 (service_router_clear s)) = v4_addr (s_v4 s)" "v4_addr (s_v4 (service_disable_autoaddr s)) = v4_addr (s_v4 s)"
  "v4_addr (s_v4 (ServiceSetBusy b s)) = v4_addr (s_v4 s)" "v4_addr (s_v4 (set_relative x y g s)) = v4_addr (s_v4 s)"
  by (simp_all add: act_def upd_defs service_router_clear_def upd_router_def service_disable_autoaddr_def ServiceSetBusy_def)

lemma transmit_works:
  assumes "dh_request (dh s)" "w_outcome (s_world s) (w_calls (s_world s))"
  shows "bootp_client_transmit dest src s = Some (True, act (Transmit dest src (dh_txbuf (dh s)) (dh_request_size (dh s)))
    (s\<lparr>s_world := (s_world s)\<lparr>w_calls := w_calls (s_world s) + 1\<rparr>\<rparr>))"
  using assms by (simp add: bootp_client_transmit_def try_call_def next_outcome_def act_def)

lemma decline_sends:
  assumes "client_ok s" "\<forall>f \<in> set (decline_options s). legal f" "space (decline_options s) + 1 \<le> request_area_size"
    "\<And>n. w_outcome (s_world s) n"
  obtains t p k where "dhcp_decline s = Some t" "dh_state (dh t) = dhcp_cstate_decline_e" "v4_addr (s_v4 t) = 0" "\<not> li_valid (lease t)"
    "sp_our_ip (saved t) = 0" "tm_func (dh_timer (dh t)) = Some (T_init IFEventID_start_e)" "tm_enabled (dh_timer (dh t))"
    "Transmit G_ip_broadcast G_ip_zeroes p (dh_request_size (dh s)) \<in> set (s_actions t)" "carries p k (decline_options s)"
    "has_header (G_must_broadcast (s_globals s)) (ci_arptype (s_if s)) (ci_link_address (s_if s)) p"
proof -
  let ?s = "dhcp_cancel_pending_events (dhcp_set_state dhcp_cstate_decline_e s)"
  let ?b = "own_options dhcp_msgtype_decline_e s"
  let ?fs = "[requested_ip_option (sp_our_ip (saved s)), server_id_option (sp_server_ip (saved s))]"
  let ?mb = "G_must_broadcast (s_globals s)" and ?ty = "ci_arptype (s_if s)" and ?hw = "ci_link_address (s_if s)"
  have c: "client_ok ?s" by (rule cancel_pending, simp add: assms(1))
  have f: "s_globals ?s = s_globals s" "s_if ?s = s_if s" "dh_client_id (dh ?s) = dh_client_id (dh s)" "saved ?s = saved s"
      "dh_request_size (dh ?s) = dh_request_size (dh s)"
    by (simp_all add: dhcp_set_state_def) (simp add: dhcp_cancel_pending_events_def arp_do_def bootp_client_disable_receive_def)
  have fits: "\<forall>f \<in> set ?b. legal f" "\<forall>f \<in> set ?fs. legal f" "space (?b @ ?fs) + 1 \<le> request_area_size"
    using assms(2,3) by (auto simp: decline_options_def)
  then have sp: "space ?b + 1 \<le> request_area_size" using space_nonneg [of ?fs] by (simp only: space_append)
  obtain oa p where m: "make_request dhcp_msgtype_decline_e False False ?s =
        Some (True, oa, upd (\<lambda>d. d\<lparr>dh_request := True, dh_txbuf := p\<rparr>) ?s)" "pkt_ok 312 p" "area_holds oa ?b"
      "has_header (False \<or> ?mb) ?ty ?hw p"
    by (rule make_request_area [OF c, of dhcp_msgtype_decline_e False, unfolded f, folded decline_base, OF fits(1) sp])
      (rule that, assumption+)
  let ?s1 = "upd (\<lambda>d. d\<lparr>dh_request := True, dh_txbuf := p\<rparr>) ?s"
  have p: "pkt_ok 312 (dh_txbuf (dh ?s1))" using m(2) by simp
  obtain q k where q: "complete_request ?fs None False oa ?s1 =
        Some (True, upd (\<lambda>d. d\<lparr>dh_txbuf := q, dh_request_size := if False then k else dh_request_size d\<rparr>) ?s1)"
      "carries q k (?b @ ?fs @ name_options (?b @ ?fs) None)" "has_header ?mb ?ty ?hw q = has_header ?mb ?ty ?hw (dh_txbuf (dh ?s1))"
    by (rule complete_request_parses [OF p m(3) fits(2,3) decline_no_overload [unfolded decline_options_def]]) (rule that, assumption+)
  let ?s2 = "upd (\<lambda>d. d\<lparr>dh_txbuf := q, dh_request_size := if False then k else dh_request_size d\<rparr>) ?s1"
  have w: "w_outcome (s_world ?s2) (w_calls (s_world ?s2))"
    using assms(4) by (simp add: dhcp_cancel_pending_events_def arp_do_def bootp_client_disable_receive_def arp_ctx_of_def
        arp_client_cancel_def cancel_timer_def arp_client_close_fd_def Let_def dhcp_set_state_def)
  have sv: "saved ?s1 = saved s" using f(4) by simp
  let ?s3 = "act (Transmit G_ip_broadcast G_ip_zeroes q (dh_request_size (dh s)))
    (?s2\<lparr>s_world := (s_world ?s2)\<lparr>w_calls := w_calls (s_world ?s2) + 1\<rparr>\<rparr>)"
  have tr: "bootp_client_transmit G_ip_broadcast G_ip_zeroes ?s2 = Some (True, ?s3)"
    using transmit_works [OF _ w, of G_ip_broadcast G_ip_zeroes] f(5) by simp
  let ?wait = "\<lambda>s. set_relative (if interface_is_isolated s then 1 else 10) 0 (T_init IFEventID_start_e) s"
  let ?t = "?wait (ServiceSetBusy False (service_disable_autoaddr (service_router_clear (dhcp_invalidate_lease
      (upd_saved (sp_our_ip_update (\<lambda>_. 0)) (service_remove_address ?s3))))))"
  have e: "dhcp_decline s = Some ?t"
    unfolding dhcp_decline_def Let_def run.simps m(1) bind.bind_lunit prod.case sv q(1) tr by simp
  have "Transmit G_ip_broadcast G_ip_zeroes q (dh_request_size (dh s)) \<in> set (s_actions ?s3)" by (simp add: act_def)
  then have a: "Transmit G_ip_broadcast G_ip_zeroes q (dh_request_size (dh s)) \<in> set (s_actions ?t)" by (intro actions_kept)
  have st: "dh_state (dh ?t) = dhcp_cstate_decline_e" "\<not> li_valid (lease ?t)" "sp_our_ip (saved ?t) = 0"
    by (simp_all add: dhcp_invalidate_lease_def dhcp_lease_set_ssid_def dhcp_lease_set_networkID_def dhcp_set_state_def)
      (simp add: set_relative_def dhcp_invalidate_lease_def dhcp_lease_set_ssid_def dhcp_lease_set_networkID_def)
  have h: "has_header ?mb ?ty ?hw q" using q(3) m(4) by simp
  show ?thesis
    by (rule that [OF e st(1) _ st(2,3) _ _ a _ h]) (use q(2) in \<open>simp_all add: decline_options_def name_options_def\<close>)
qed

lemma decline_of_same:
  assumes "s_globals s = s_globals t" "s_if s = s_if t" "dh_client_id (dh s) = dh_client_id (dh t)" "saved s = saved t"
  shows "decline_options s = decline_options t"
  using assms by (simp add: decline_options_def own_options_def ServiceCanDoIPv6OnlyPreferred_def)

text \<open>What a conflict does before the DECLINE.\<close>

definition given_up :: "service \<Rightarrow> service" where
  "given_up s = service_publish_failure ipconfig_status_address_in_use_e (service_router_clear
     (dhcp_invalidate_lease (dhcp_lease_clear False (report_conflict s))))"

lemma given_up_ok:
  shows "client_ok s \<Longrightarrow> client_ok (given_up s)" "s_globals (given_up s) = s_globals s" "s_if (given_up s) = s_if s"
    "dh_client_id (dh (given_up s)) = dh_client_id (dh s)" "saved (given_up s) = saved s"
    "dh_request_size (dh (given_up s)) = dh_request_size (dh s)" "w_outcome (s_world (given_up s)) = w_outcome (s_world s)"
proof -
  assume "client_ok s"
  then have "client_ok (report_conflict s)" by (simp add: report_conflict_def Let_def client_ok_def)
  then show "client_ok (given_up s)" using keepsD(1) [OF lease_clear_keeps] by (simp add: given_up_def)
next
  have rc: "s_globals (report_conflict s) = s_globals s" "s_if (report_conflict s) = s_if s"
      "dh_client_id (dh (report_conflict s)) = dh_client_id (dh s)" "saved (report_conflict s) = saved s"
      "dh_request_size (dh (report_conflict s)) = dh_request_size (dh s)" "s_world (report_conflict s) = s_world s"
    by (simp_all add: report_conflict_def Let_def act_def)
  have wl: "s_globals (write_leases u) = s_globals u" "s_if (write_leases u) = s_if u" "dh_client_id (dh (write_leases u)) = dh_client_id (dh u)"
      "saved (write_leases u) = saved u" "dh_request_size (dh (write_leases u)) = dh_request_size (dh u)"
      "w_outcome (s_world (write_leases u)) = w_outcome (s_world u)" for u
    by (simp_all add: write_leases_def try_call_def next_outcome_def Let_def split: prod.split)
  show "s_globals (given_up s) = s_globals s" "s_if (given_up s) = s_if s"
    "dh_client_id (dh (given_up s)) = dh_client_id (dh s)" "saved (given_up s) = saved s"
    "dh_request_size (dh (given_up s)) = dh_request_size (dh s)" "w_outcome (s_world (given_up s)) = w_outcome (s_world s)"
    by (simp_all add: given_up_def dhcp_lease_clear_def Let_def rc wl upd_defs split: prod.split)
      (simp add: rc wl service_publish_failure_def service_publish_failure_sync_def service_router_clear_def upd_router_def act_def)
qed

section \<open>Getting the address\<close>

lemma probe_target: "ac_target_ip (x_client (arp_client_probe f a b x)) = b"
  by (auto simp: arp_client_probe_def Let_def arp_client_setup_context_def set_addresses_def start_request_def arp_client_open_fd_def
      arp_client_probe_retransmit_def begin_command_def finish_with_def arp_client_schedule_callback_def arp_client_cancel_callback_def
      set_timer_def arp_client_transmit_def arp_client_close_fd_def split: prod.splits if_splits)

lemma select_bound_start:
  assumes "dh_state (dh s) = dhcp_cstate_select_e" "\<not> ServiceIsNetBoot s" "\<not> interface_is_isolated s" "client_ok s"
  obtains u where "bound_start s = Some (arp_do (arp_client_probe A_bound G_ip_zeroes (sp_our_ip (saved s))) u)" "client_ok u"
    "s_v4 u = s_v4 s" "s_actions u = s_actions s @ [FlushRoutes 0 0, SetAutoaddr False]" "dh_state (dh u) = dhcp_cstate_bound_e"
proof -
  let ?s0 = "upd (\<lambda>d. d\<lparr>dh_disable_arp_collision_detection := True, dh_trying_since_secs := 0\<rparr>)
     (upd_lease (li_needs_write_update (\<lambda>_. True)) (dhcp_set_state dhcp_cstate_bound_e s))"
  let ?u = "service_disable_autoaddr (dhcp_cancel_pending_events ?s0)"
  have "client_ok ?s0" using assms(4) by (simp add: client_ok_def dhcp_set_state_def)
  then have c: "client_ok ?u" using cancel_pending by simp
  have "bound_start s = Some (arp_do (arp_client_probe A_bound G_ip_zeroes (sp_our_ip (saved ?u))) ?u)"
    using assms(1-3) by (simp add: bound_start_def Let_def ServiceIsNetBoot_def interface_is_isolated_def dhcp_set_state_def)
  moreover have "saved ?u = saved s" "s_v4 ?u = s_v4 s" "dh_state (dh ?u) = dhcp_cstate_bound_e"
      "s_actions ?u = s_actions s @ [FlushRoutes 0 0, SetAutoaddr False]"
    by (simp_all add: dhcp_set_state_def service_disable_autoaddr_def act_def)
  ultimately show ?thesis using that c by simp
qed

text \<open>What the end of BOUND leaves alone.\<close>

definition same_binding :: "service \<Rightarrow> service \<Rightarrow> bool" where
  "same_binding s t \<longleftrightarrow> v4_addr (s_v4 t) = v4_addr (s_v4 s) \<and> li_valid (lease t) = li_valid (lease s) \<and> saved t = saved s \<and>
     dh_state (dh t) = dh_state (dh s)"

lemma same_binding_trans: "same_binding s t \<Longrightarrow> same_binding t u \<Longrightarrow> same_binding s u"
  by (simp add: same_binding_def)

lemma schedule_renewal_same: "schedule_renewal s = (b, t) \<Longrightarrow> same_binding s t"
  by (auto simp: schedule_renewal_def Let_def same_binding_def set_relative_def split: if_splits)

lemma resolve_router_same: "service_resolve_router ip s = (b, t) \<Longrightarrow> same_binding s t"
  by (auto simp: service_resolve_router_def Let_def same_binding_def arp_do_def service_router_flags_clear_specific_def
      service_router_flags_set_specific_def service_router_clear_arp_verified_def upd_router_def split: if_splits)

lemma update_router_same:
  "service_update_router_address l ip s = Some (b, t) \<Longrightarrow> same_binding s t"
  by (auto simp: service_update_router_address_def same_binding_def service_router_clear_def service_router_set_iaddr_def
      service_router_flags_set_specific_def upd_router_def split: bind_splits option.splits if_splits)

lemma resolve_bound_same:
  assumes "resolve_bound_router d s = Some (b, t)"
  shows "same_binding s t"
proof (cases d)
  case True
  then obtain c u where u: "service_update_router_address (sp_options (saved s)) (sp_our_ip (saved s)) s = Some (c, u)"
      "(if c then service_resolve_router (sp_our_ip (saved u)) u else (False, u)) = (b, t)"
    using assms by (auto simp: resolve_bound_router_def split: bind_splits)
  from u(2) have "same_binding u t" using resolve_router_same by (cases c) (auto simp: same_binding_def)
  with update_router_same [OF u(1)] show ?thesis by (rule same_binding_trans)
qed (use assms in \<open>simp add: resolve_bound_router_def same_binding_def\<close>)

lemma save_and_publish_same: "save_and_publish s = Some t \<Longrightarrow> same_binding s t"
  by (auto simp: save_and_publish_def dhcp_lease_save_def write_leases_def Let_def same_binding_def try_call_def
      dhcp_publish_success_def ServicePublishSuccessIPv4_def act_def split: bind_splits prod.splits if_splits)

lemma bound_finish_binds:
  assumes "client_ok s" "resting s"
  obtains t where "bound_finish s = Some t" "v4_addr (s_v4 t) = sp_our_ip (saved s)" "li_valid (lease t)" "dh_state (dh t) = dh_state (dh s)"
    "saved t = saved s"
proof -
  obtain t where t: "bound_finish s = Some t" using bound_finish_good [OF assms] by (auto simp: returns_def)
  let ?s1 = "run [upd_lease (li_valid_update (\<lambda>_. True)),
                   \<lambda>s. dhcp_lease_set_ssid (ServiceGetSSID s) s,
                   \<lambda>s. dhcp_lease_set_networkID (ServiceGetNetworkID s) s,
                   allow_warning] s"
  obtain m where m: "saved_subnet_mask ?s1 = Some m" using t by (auto simp: bound_finish_def Let_def split: bind_splits)
  let ?s2 = "run [set_bound_address m, stop_linklocal, upd (dh_disable_arp_collision_detection_update (\<lambda>_. False))] ?s1"
  have s2: "v4_addr (s_v4 ?s2) = sp_our_ip (saved s)" "li_valid (lease ?s2)" "dh_state (dh ?s2) = dh_state (dh s)" "saved ?s2 = saved s"
    by (simp_all add: stop_linklocal_def linklocal_service_change_def act_def set_bound_address_def service_set_address_def Let_def
        linklocal_set_needs_attention_def ServiceGetActiveIPAddress_def)
      (simp_all add: upd_defs)
  obtain d s3 where s3: "schedule_renewal ?s2 = (d, s3)" by fastforce
  let ?s3 = "upd (dh_resolve_router_timed_out_update (\<lambda>_. False)) s3"
  obtain b s4 where s4: "resolve_bound_router d ?s3 = Some (b, s4)" "(if b then Some s4 else map_option (ServiceSetBusy False) (save_and_publish s4)) = Some t"
    using t unfolding bound_finish_def Let_def m bind.bind_lunit s3 prod.case by (auto split: bind_splits)
  have "same_binding s3 ?s3" by (simp add: same_binding_def)
  with schedule_renewal_same [OF s3] resolve_bound_same [OF s4(1)] have 1: "same_binding ?s2 s4" by (blast intro: same_binding_trans)
  have "same_binding s4 t" using s4(2) save_and_publish_same by (cases b) (auto simp: same_binding_def)
  with 1 have "same_binding ?s2 t" by (rule same_binding_trans)
  with that [OF t] s2 show ?thesis by (simp add: same_binding_def)
qed

section \<open>What a release leaves alone\<close>

lemma make_request_frame:
  "make_request msg b v6 s = Some (ok, oa, t) \<Longrightarrow>
   dh_try (dh t) = dh_try (dh s) \<and> dh_state (dh t) = dh_state (dh s) \<and> lease t = lease s \<and> s_if t = s_if s"
  by (auto simp: make_request_def split: bind_splits)

lemma complete_request_frame:
  "complete_request fs name b oa s = Some (ok, t) \<Longrightarrow>
   dh_try (dh t) = dh_try (dh s) \<and> dh_state (dh t) = dh_state (dh s) \<and> lease t = lease s \<and> s_if t = s_if s"
  by (auto simp: complete_request_def split: bind_splits)

lemma transmit_frame_if: "bootp_client_transmit a b s = Some (ok, t) \<Longrightarrow> dh t = dh s \<and> s_if t = s_if s"
  by (auto simp: bootp_client_transmit_def try_call_def Let_def act_def split: if_splits prod.splits)

definition same_try :: "service \<Rightarrow> service \<Rightarrow> bool" where
  "same_try s t \<longleftrightarrow> dh_try (dh t) = dh_try (dh s) \<and> dh_state (dh t) = dh_state (dh s) \<and> s_if t = s_if s \<and> \<not> li_valid (lease t)"

lemma release_frame:
  assumes "dhcp_release s = Some t" "li_valid (lease s)"
  shows "same_try s t"
proof -
  let ?s1 = "run [dhcp_lease_clear False, dhcp_invalidate_lease, service_router_clear, dhcp_cancel_pending_events] s"
  have lc: "dh_try (dh (dhcp_lease_clear False s)) = dh_try (dh s)" "dh_state (dh (dhcp_lease_clear False s)) = dh_state (dh s)"
      "s_if (dhcp_lease_clear False s) = s_if s"
    by (simp_all add: dhcp_lease_clear_def write_leases_def try_call_def Let_def split: prod.split)
  have 1: "same_try s ?s1" by (simp add: same_try_def) (simp add: upd_defs lc)
  show ?thesis
    using assms 1
    by (auto simp: dhcp_release_def Let_def upd_request_def same_try_def split: bind_splits if_splits
        dest!: make_request_frame complete_request_frame transmit_frame_if simp del: run.simps)
qed

section \<open>Looking for the router of a lease\<close>

lemma no_router_answer:
  assumes "client_ok s" "\<not> ar_error r" "\<not> ar_in_use r"
  obtains t where "resolve_router_arp r s = Some t" "client_ok t" "dh_state (dh t) = dh_state (dh s)" "lease t = lease s"
    "tm_func (dh_timer (dh t)) = Some T_resolve_router_retry" "tm_enabled (dh_timer (dh t))"
proof -
  let ?u = "ServiceSetBusy False (service_router_flags_set_specific RIFLAGS_RESOLVE_TIMED_OUT
      (service_router_flags_clear_specific RIFLAGS_RESOLVE_IN_PROGRESS s))"
  let ?v = "set_relative 60 0 T_resolve_router_retry ?u"
  have c: "client_ok ?v" using assms(1) view_client_ok [OF view_router(1)] view_client_ok [OF view_router(2)] by simp
  let ?w = "dhcp_publish_success (upd (dh_resolve_router_timed_out_update (\<lambda>_. True)) ?v)"
  have "keeps ?v ?w" using keeps_refl [OF c] by simp
  note k = keepsD(1) [OF this]
  obtain w where w: "dhcp_lease_save True ?w = Some w" "keeps ?w w" using lease_save_keeps [OF k] by (auto simp: returns_def)
  have l: "lease w = lease ?w" using w(1)
    by (auto simp: dhcp_lease_save_def write_leases_def Let_def try_call_def split: bind_splits prod.splits)
  have e: "resolve_router_arp r s = (if dh_resolve_router_timed_out (dh ?v) then Some ?v else Some w)"
    using assms(2,3) w(1) by (simp add: resolve_router_arp_def service_resolve_router_complete_def Let_def resolve_router_callback_def)
  show ?thesis
  proof (cases "dh_resolve_router_timed_out (dh ?v)")
    case True
    with e c show ?thesis by (intro that [of ?v]) simp_all
  next
    case False
    have "dh_timer (dh w) = dh_timer (dh ?v)" "dh_state (dh w) = dh_state (dh ?v)" using w(2) by (simp_all add: keeps_def)
    with e c False l keepsD(1) [OF w(2)] show ?thesis by (intro that [of w]) simp_all
  qed
qed

lemma router_answer:
  assumes "client_ok s" "\<not> ar_error r" "ar_in_use r" "length (ai_target_hardware (ar_addr r)) = 16"
  obtains t where "resolve_router_arp r s = Some t" "dh_timer (dh t) = dh_timer (dh s)" "dh_state (dh t) = dh_state (dh s)"
    "li_valid (lease t) = li_valid (lease s)"
proof -
  let ?u = "service_router_flags_clear_specific RIFLAGS_RESOLVE_IN_PROGRESS s"
  have c: "client_ok ?u" using assms(1) view_client_ok [OF view_router(2)] by simp
  have n: "length (ci_link_address (s_if ?u)) \<le> length (ai_target_hardware (ar_addr r))" "length (ci_link_address (s_if ?u)) \<le> 16"
    using c assms(4) by (simp_all add: client_ok_def)
  obtain u where u: "copy_hwaddr (ai_target_hardware (ar_addr r)) (length (ci_link_address (s_if ?u))) ?u = Some u" "keeps ?u u"
    using returns_obtain [OF copy_hwaddr_keeps [OF c n]] by blast
  let ?v = "ServiceSetBusy False (service_router_set_all_valid u)"
  have kv: "keeps ?u ?v" using u(2) by simp
  obtain t where t: "save_and_publish ?v = Some t" "keeps ?v t"
    using save_and_publish_keeps [OF keepsD(1) [OF kv]] by (auto simp: returns_def)
  have "resolve_router_arp r s = Some t"
    using assms(2,3) u(1) t(1) by (simp add: resolve_router_arp_def service_resolve_router_complete_def Let_def resolve_router_callback_def)
  moreover have "lease ?v = lease s" using u(1) by (auto simp: copy_hwaddr_def upd_router_def split: bind_splits)
  ultimately show ?thesis
    using that [of t] kv t(2) save_and_publish_same [OF t(1)] by (simp add: keeps_def same_binding_def)
qed

end
