(* ===== verification/ClientProps.thy ===== *)
theory ClientProps
  imports ClientMessages
begin

text \<open>
  The properties of the DHCP client, with a sample client on an Ethernet interface.
\<close>

section \<open>A sample client\<close>

definition sample_globals :: client_globals where
  "sample_globals = \<lparr>G_must_broadcast = False, G_initial_wait_secs = 1, G_max_wait_secs = 8, G_max_retries = 9, G_gather_secs = 1,
     G_router_arp = True, G_router_arp_wifi_lease_start_threshold_secs = 86400, G_dhcp_router_arp_at_retry_count = 3,
     G_dhcp_allocate_linklocal_at_retry_count = 4, G_dhcp_generate_failure_symptom_at_retry_count = 6,
     G_dhcp_failure_configures_linklocal = True, G_dhcp_success_deconfigures_linklocal = True, G_dhcp_init_reboot_retry_count = 4,
     G_dhcp_select_retry_count = 2, G_dhcp_lease_write_t1_threshold_secs = 3600, G_discover_and_publish_router_mac_address = True,
     G_wake_skew_secs = 30, G_min_wake_interval_secs = 900, G_min_short_wake_interval_secs = 60,
     S_discover_router_mac_address_secs = 5, S_defend_ip_address_interval_secs = 10, S_defend_ip_address_count = 5, G_on_osx = True,
     dhcp_params = [1, 3, 6, 15], dhcp_ipv6_only_preferred = False, dhcp_hostname = None, device_type = None, netboot_ip = 0,
     ip_to_string = (\<lambda>_. ''''), new_memory = (\<lambda>_ _. 0)\<rparr>"

definition sample_world :: world where
  "sample_world = \<lparr>w_mono = 1000, w_offset = 0, w_time_generation = 0, w_clock_set = False, w_outcome = (\<lambda>_. True),
     w_random = (\<lambda>_. 5), w_calls = 0\<rparr>"

definition sample_if :: client_if where
  "sample_if = \<lparr>ci_loopback = False, ci_link_type = 6, ci_arptype = 1, ci_link_address = [2, 0, 0, 0, 0, 1],
     ci_link_address_is_private = False, ci_is_wireless = False, ci_is_expensive = False, ci_is_carplay = False,
     ci_link_status = \<lparr>lk_valid = True, lk_active = True, lk_wake_on_same_network = True\<rparr>, ci_netboot = False, ci_wifi = None,
     ci_services_v6 = [], ci_other_ips = []\<rparr>"

definition sample_session :: arp_if_session where
  "sample_session = \<lparr>is_session = default_arp_session, is_arptype = 1, is_link_address = [2, 0, 0, 0, 0, 1], is_fw_addr = [],
     is_read_fd = False, is_read_fd_refcount = 0, is_sent = []\<rparr>"

definition sample_v4 :: service_ipv4 where
  "sample_v4 = \<lparr>v4_addr = 0, v4_mask = 0, v4_netaddr = 0, v4_broadcast = 0,
     v4_router = \<lparr>ri_flags = 0, ri_iaddr = 0, ri_hwaddr = replicate 16 0\<rparr>, v4_ip_assigned_time = 0, v4_ip_conflict_time = 0,
     v4_ip_conflict_count = 0\<rparr>"

text \<open>The service before it is started; \<open>s_dhcp\<close> is not allocated yet.\<close>

definition unstarted :: service where
  "unstarted = \<lparr>s_world = sample_world, s_globals = sample_globals, s_if = sample_if, s_arp_if = sample_session, s_lease_file = None,
     s_status = ipconfig_status_success_e, s_ready = False, s_busy = False, s_address_acquisition_failure = False,
     s_v4 = sample_v4, s_private = False,
     s_dhcp = \<lparr>dh_allow_wake_with_short_lease = False, dh_arp = arp_if_session_new_client sample_world sample_session,
       dh_receive = None, dh_client_id = None, dh_conflicting_address = 0, dh_disable_arp_collision_detection = False,
       dh_gathering = False, dh_got_nak = False, dh_lease = cleared_lease, dh_lease_list = [], dh_must_broadcast = False,
       dh_request = False, dh_txbuf = cleared_packet DHCP_PACKET_MIN, dh_request_size = 0, dh_renew_rebind_time = 0,
       dh_resolve_router_timed_out = False, dh_saved = cleared_saved, dh_state = dhcp_cstate_inactive_e,
       dh_start_secs = 0, dh_timer = timer_callout_init sample_world, dh_try = 0, dh_trying_since_secs = 0, dh_xid = 0,
       dh_user_warned = False, dh_wait_secs = 0, dh_wake_time = 0\<rparr>,
     s_actions = []\<rparr>"

lemma unstarted_ok: "not_started unstarted"
  by (simp add: not_started_def unstarted_def sample_globals_def globals_ok_def sample_if_def sample_v4_def arp_if_ok_def sample_session_def)

text \<open>The same client, started.\<close>

definition started_client :: service where
  "started_client = unstarted\<lparr>s_private := True, s_dhcp := new_dhcp unstarted\<rparr>"

lemma started_client_ok: "client_ok started_client" "resting started_client"
  using new_dhcp_ok [OF unstarted_ok] by (simp_all add: started_client_def)

lemma started_client_fields:
  "s_globals started_client = sample_globals" "s_if started_client = sample_if" "s_world started_client = sample_world"
  "dh_client_id (dh started_client) = None" "dh_xid (dh started_client) = 0" "dh_must_broadcast (dh started_client) = False"
  by (simp_all add: started_client_def unstarted_def new_dhcp_def sample_if_def)

lemma sample_options:
  "own_options msg started_client =
     (53, [msg]) # (if msg \<noteq> 4 \<and> msg \<noteq> 7 then [(55, [1, 3, 6, 15]), (57, [5, 220])] else []) @ [(61, [1, 2, 0, 0, 0, 0, 1])]"
  by (simp add: own_options_def started_client_fields base_options_def sample_globals_def sample_if_def requested_params_def
      dhcp_parameter_is_ok_def client_identifier_def ServiceCanDoIPv6OnlyPreferred_def net_uint16_bytes_def)

lemma sample_fits: "request_fits dhcp_msgtype_discover_e [lease_option] started_client"
  by (simp add: request_fits_def sample_options legal_def lease_option_def space_def net_uint32_bytes_def request_area_size_def
      DHCP_PACKET_MIN_def sizeof_dhcp_def RFC_MAGIC_SIZE_def)

section \<open>Safety and progress\<close>











section \<open>Getting an address\<close>

text \<open>C7. Entering INIT, the client broadcasts a DISCOVER with the next transaction identifier, its hardware
  address and, as the server's parser reads them, exactly the options of a DISCOVER: type, requested
  parameters, maximum size, client identifier, the lease time it would like and its name; it then waits for
  offers and for its timer.\<close>

theorem init_sends_discover:
  assumes "client_ok s" "request_fits dhcp_msgtype_discover_e [lease_option] s"
    "0 < G_dhcp_router_arp_at_retry_count (s_globals s)" "0 \<le> G_max_retries (s_globals s)" "\<And>n. w_outcome (s_world s) n"
  shows "\<exists>t p k. init_start s = Some t \<and> last (s_actions t) = Transmit G_ip_broadcast G_ip_zeroes p k \<and>
    dp_xid p = dh_xid (dh s) + 1 \<and> is_request dhcp_msgtype_discover_e [lease_option] s p k \<and>
    dh_state (dh t) = dhcp_cstate_init_e \<and> dh_receive (dh t) = Some R_init \<and>
    tm_enabled (dh_timer (dh t)) \<and> tm_func (dh_timer (dh t)) = Some (T_init IFEventID_timeout_e)"
  using init_start_sends [OF assms] by (auto simp: returns_def)

theorem init_sends_discover_witness:
  "\<exists>t p k. init_start started_client = Some t \<and> last (s_actions t) = Transmit 0xffffffff 0 p k \<and> dp_xid p = 1 \<and>
    carries p k [(53, [1]), (55, [1, 3, 6, 15]), (57, [5, 220]), (61, [1, 2, 0, 0, 0, 0, 1]), lease_option]"
proof -
  have g: "0 < G_dhcp_router_arp_at_retry_count (s_globals started_client)" "0 \<le> G_max_retries (s_globals started_client)"
    by (simp_all add: started_client_fields sample_globals_def)
  have w: "w_outcome (s_world started_client) n" for n by (simp add: started_client_fields sample_world_def)
  have "name_to_supply started_client = None"
    by (simp add: name_to_supply_def ServiceIsPrivacyRequired_def started_client_fields sample_if_def sample_globals_def)
  with init_sends_discover [OF started_client_ok(1) sample_fits g w] show ?thesis
    by (auto simp: is_request_def sample_options started_client_fields name_options_def)
qed






text \<open>C10. When nobody answers the probe, the client uses the address: it becomes the address of the interface
  and the lease is valid.\<close>

theorem free_address_is_used:
  assumes "client_ok s" "\<not> ar_error r" "\<not> ar_in_use r"
  shows "\<exists>t. bound_arp r s = Some t \<and> v4_addr (s_v4 t) = sp_our_ip (saved s) \<and> li_valid (lease t) \<and>
    dh_state (dh t) = dh_state (dh s) \<and> saved t = saved s"
proof -
  note c = cancel_pending [OF assms(1)]
  obtain t where "bound_finish (dhcp_cancel_pending_events s) = Some t" "v4_addr (s_v4 t) = sp_our_ip (saved (dhcp_cancel_pending_events s))"
      "li_valid (lease t)" "dh_state (dh t) = dh_state (dh (dhcp_cancel_pending_events s))"
      "saved t = saved (dhcp_cancel_pending_events s)"
    by (rule bound_finish_binds [OF c]) (rule that, assumption+)
  with assms(2,3) show ?thesis by (auto simp: bound_arp_def)
qed

theorem free_address_is_used_witness:
  "\<exists>t. bound_arp \<lparr>ar_error = False, ar_in_use = False, ar_addr = no_address_info\<rparr>
      (upd (dh_saved_update (sp_our_ip_update (\<lambda>_. 0x11000009))) started_client) = Some t \<and> v4_addr (s_v4 t) = 0x11000009"
proof -
  let ?s = "upd (dh_saved_update (sp_our_ip_update (\<lambda>_. 0x11000009))) started_client"
  have "client_ok ?s" using started_client_ok(1) by simp
  from free_address_is_used [OF this, of "\<lparr>ar_error = False, ar_in_use = False, ar_addr = no_address_info\<rparr>"] show ?thesis by auto
qed

section \<open>Keeping an address\<close>

text \<open>C22. Whatever lease time, T1 and T2 a server gives, the client's times are in order: T1 is not after T2, T2 is
  before the end of the lease, and a lease without an end has no T1 and T2.\<close>

theorem lease_times_ordered:
  "case lease_times (at_least MIN_LEASE_LENGTH l) (at_least MIN_T1_VAL a) (at_least MIN_T2_VAL b) of (n, t1, t2) \<Rightarrow>
     if n = ClientOptions.DHCP_INFINITE_LEASE then t1 = 0 \<and> t2 = 0 else 1 \<le> t1 \<and> t1 \<le> t2 \<and> t2 < n"
proof -
  have by_lease: "1 \<le> n div 2 \<and> n div 2 \<le> word_of_int (uint n * 7 div 8) \<and> word_of_int (uint n * 7 div 8) < n"
    if "2 \<le> n" for n :: u32
  proof -
    have u: "2 \<le> uint n" "uint n < 2 ^ 32" using that uint_lt2p [of n] by (simp_all add: word_le_def)
    have "uint (word_of_int (uint n * 7 div 8) :: u32) = uint n * 7 div 8" using u by (simp add: uint_word_of_int)
    moreover have "uint (n div 2) = uint n div 2" by (simp add: uint_div)
    moreover have "1 \<le> x div 2 \<and> x div 2 \<le> x * 7 div 8 \<and> x * 7 div 8 < x" if "2 \<le> x" for x :: int
      using that by linarith
    ultimately show ?thesis using u(1) by (simp add: word_le_def word_less_def)
  qed
  have two: "2 \<le> m" if "at_least k v = Some m" "2 \<le> k" for k m :: u32 and v
    using that by (auto simp: at_least_def split: if_splits)
  let ?l = "at_least MIN_LEASE_LENGTH l" and ?a = "at_least MIN_T1_VAL a" and ?b = "at_least MIN_T2_VAL b"
  have m: "\<And>n. ?l = Some n \<Longrightarrow> 2 \<le> n" "\<And>n. ?a = Some n \<Longrightarrow> 2 \<le> n" "\<And>n. ?b = Some n \<Longrightarrow> 2 \<le> n"
    by (erule two, simp add: MIN_LEASE_LENGTH_def MIN_T1_VAL_def MIN_T2_VAL_def)+
  define n where "n = (case ?l of Some l \<Rightarrow> l | None \<Rightarrow> (case ?a of Some t1 \<Rightarrow> t1
      | None \<Rightarrow> (case ?b of Some t2 \<Rightarrow> t2 | None \<Rightarrow> DEFAULT_LEASE_LENGTH)))"
  have n2: "2 \<le> n" using m by (auto simp: n_def DEFAULT_LEASE_LENGTH_def split: option.split)
  have own: "1 \<le> t1 \<and> t1 \<le> t2 \<and> t2 < n" if "?a = Some t1" "?b = Some t2" "\<not> (t1 \<ge> n \<or> t2 \<ge> n \<or> t2 < t1)" for t1 t2
    using m(2) [OF that(1)] that(3) by (auto simp: not_le not_less elim: order_trans [rotated])
  show ?thesis
    unfolding lease_times_def Let_def n_def [symmetric] using by_lease [OF n2] own by (auto split: option.split)
qed

text \<open>C18. When ARP gets no answer from the router of a new lease, the timer that was to renew the lease is set to
  look for the router again; when the router answers that, no timer is set any more: the client is in BOUND
  and will not renew its lease.\<close>

theorem renewal_is_lost:
  assumes "client_ok s" "dh_state (dh s) = dhcp_cstate_bound_e" "\<not> ar_error r" "\<not> ar_in_use r"
    "\<not> ar_error r2" "ar_in_use r2" "length (ai_target_hardware (ar_addr r2)) = 16"
  shows "\<exists>t u v. resolve_router_arp r s = Some t \<and> tm_func (dh_timer (dh t)) = Some T_resolve_router_retry \<and>
    timer_fires t = Some u \<and> resolve_router_arp r2 u = Some v \<and>
    dh_state (dh v) = dhcp_cstate_bound_e \<and> li_valid (lease v) = li_valid (lease s) \<and> \<not> tm_enabled (dh_timer (dh v))"
proof -
  obtain t where t: "resolve_router_arp r s = Some t" "client_ok t" "dh_state (dh t) = dhcp_cstate_bound_e" "lease t = lease s"
      "tm_func (dh_timer (dh t)) = Some T_resolve_router_retry" "tm_enabled (dh_timer (dh t))"
    by (rule no_router_answer [OF assms(1,3,4)]) (use assms(2) that in simp)
  let ?t = "upd (dh_timer_update (\<lambda>_. (dh_timer (dh t))\<lparr>tm_enabled := False\<rparr>)) t"
  obtain b u where u: "service_resolve_router (sp_our_ip (saved ?t)) ?t = (b, u)" by fastforce
  have c: "client_ok ?t" using t(2) by (simp add: client_ok_def)
  note ru = resolve_router_ok [OF c u]
  have f: "timer_fires t = Some u"
    using t(5,6) u by (simp add: timer_fires_def timer_callout_process_def resolve_router_retry_def)
  obtain v where v: "resolve_router_arp r2 u = Some v" "dh_timer (dh v) = dh_timer (dh u)" "dh_state (dh v) = dh_state (dh u)"
      "li_valid (lease v) = li_valid (lease u)"
    by (rule router_answer [OF ru(1) assms(5-7)]) (rule that, assumption+)
  show ?thesis using t f v ru by auto
qed

theorem renewal_is_lost_witness:
  "\<exists>t u v. resolve_router_arp \<lparr>ar_error = False, ar_in_use = False, ar_addr = no_address_info\<rparr>
      (upd (dh_state_update (\<lambda>_. dhcp_cstate_bound_e)) started_client) = Some t \<and> timer_fires t = Some u \<and>
    resolve_router_arp \<lparr>ar_error = False, ar_in_use = True, ar_addr = no_address_info\<rparr> u = Some v \<and> \<not> tm_enabled (dh_timer (dh v))"
proof -
  have "client_ok (upd (dh_state_update (\<lambda>_. dhcp_cstate_bound_e)) started_client)"
    using started_client_ok(1) by (simp add: client_ok_def)
  from renewal_is_lost [OF this, of "\<lparr>ar_error = False, ar_in_use = False, ar_addr = no_address_info\<rparr>"
      "\<lparr>ar_error = False, ar_in_use = True, ar_addr = no_address_info\<rparr>"]
  show ?thesis by (auto simp: no_address_info_def)
qed

text \<open>C19. A client in INIT that is told to forget the network of its old lease, before it tried a second time,
  stops: its timer finds that it is in INIT already, and after that neither a timer nor a packet nor ARP
  brings it on.\<close>

theorem forget_ssid_stalls:
  assumes "good s" "dh_state (dh s) = dhcp_cstate_init_e" "dh_try (dh s) = 1" "li_valid (lease s)" "li_ssid (lease s) = Some ssid"
    "lk_valid (ci_link_status (s_if s))" "lk_active (ci_link_status (s_if s))"
  shows "\<exists>t u. thread_forget_ssid ssid s = Some t \<and> timer_fires t = Some u \<and>
    dh_state (dh u) = dhcp_cstate_init_e \<and> resting u"
proof -
  let ?s1 = "upd (dh_lease_list_update (\<lambda>ls. DHCPLeaseListRemoveLeaseForWiFi ls ssid None)) s"
  have g1: "good ?s1" using assms(1) by (simp add: good_def pending_ok_def client_ok_def remove_wifi_ok)
  obtain s2 where s2: "dhcp_release ?s1 = Some s2" "resting s2" using release_good [OF g1] assms(4) by (auto simp: returns_def)
  have f: "same_try ?s1 s2" by (rule release_frame [OF s2(1)]) (simp add: assms(4))
  let ?s3 = "ServiceSetBusy False (dhcp_lease_set_networkID None (dhcp_lease_set_ssid None
      (free_options (service_publish_failure ipconfig_status_lease_terminated_e (service_remove_address s2)))))"
  have s3: "resting ?s3" "dh_try (dh ?s3) = 1" "dh_state (dh ?s3) = dhcp_cstate_init_e" "s_if ?s3 = s_if s" "\<not> li_valid (lease ?s3)"
      "li_ssid (lease ?s3) = None"
    using s2(2) f assms(2,3) by (simp_all add: same_try_def upd_defs free_options_def resting_def)
  let ?t = "set_relative 0 (USECS_PER_SEC div 2) (T_check_link IFEventID_forget_ssid_e) ?s3"
  have t: "thread_forget_ssid ssid s = Some ?t" using s2(1) assms(5) by (simp add: thread_forget_ssid_def Let_def)
  let ?v = "upd (dh_timer_update (\<lambda>_. (dh_timer (dh ?t))\<lparr>tm_enabled := False\<rparr>)) ?t"
  have v: "dh_try (dh ?v) = 1" "dh_state (dh ?v) = dhcp_cstate_init_e" "s_if ?v = s_if s" "\<not> li_valid (lease ?v)" "resting ?v"
    using s3 by (simp_all add: resting_def) (simp_all add: set_relative_def)
  have cn: "check_network (allow_warning ?v) = Some (allow_warning ?v)"
    using v(4) by (simp add: check_network_def allow_warning_def split: option.split)
  have "timer_fires ?t = dhcp_check_link IFEventID_forget_ssid_e ?v"
    by (simp add: timer_fires_def timer_callout_process_def)
  also have "\<dots> = Some (allow_warning ?v)"
    using v(1-4) assms(6,7) cn
    by (simp add: dhcp_check_link_def check_link_with_status_def service_link_status_def link_status_is_inactive_def
        link_status_is_active_def dhcp_check_lease_def allow_warning_def)
  finally have u: "timer_fires ?t = Some (allow_warning ?v)" .
  have "resting (allow_warning ?v)" "dh_state (dh (allow_warning ?v)) = dhcp_cstate_init_e"
    using v(2,5) by (simp_all add: resting_def) (simp_all add: allow_warning_def)
  with t u show ?thesis by blast
qed

theorem forget_ssid_stalls_witness:
  "\<exists>s t u. good s \<and> tm_enabled (dh_timer (dh s)) \<and> dh_state (dh s) = dhcp_cstate_init_e \<and> thread_forget_ssid ''net'' s = Some t \<and>
    timer_fires t = Some u \<and> dh_state (dh u) = dhcp_cstate_init_e \<and> resting u"
proof -
  let ?a = "upd (\<lambda>d. d\<lparr>dh_state := dhcp_cstate_init_e, dh_try := 1, dh_request := True,
      dh_lease := (dh_lease d)\<lparr>li_valid := True, li_ssid := Some ''net''\<rparr>\<rparr>) started_client"
  let ?s = "set_relative 1 0 (T_init IFEventID_timeout_e) ?a"
  have c: "client_ok ?a" using started_client_ok(1) by (simp add: client_ok_def)
  have g: "good ?s" by (rule set_relative_good) (use c in simp_all)
  have f: "dh_try (dh ?s) = 1" "dh_state (dh ?s) = dhcp_cstate_init_e" "li_valid (lease ?s)" "li_ssid (lease ?s) = Some ''net''"
      "lk_valid (ci_link_status (s_if ?s))" "lk_active (ci_link_status (s_if ?s))" "tm_enabled (dh_timer (dh ?s))"
    by simp_all (simp_all add: set_relative_def started_client_fields sample_if_def)
  from forget_ssid_stalls [OF g f(2,1,3-6)] g f(2,7) show ?thesis by blast
qed

section \<open>The lease file\<close>








end
