(* ===== verification/ArpProps.thy ===== *)
theory ArpProps
  imports ArpFacts
begin

text \<open>
  What the ARP client sends when it asks whether an address is in use and nobody answers.
\<close>

section \<open>A silent probe\<close>

fun fires :: "nat \<Rightarrow> 'f arp_ctx \<Rightarrow> 'f arp_ctx option" where
  "fires 0 x = Some x"
| "fires (Suc k) x = Option.bind (arp_timer_fires x) (fires k)"

text \<open>The broadcast frames of a probe: from nobody, or, when the address is announced, from the address itself.\<close>

definition probe_frame :: "u8 list \<Rightarrow> in_addr \<Rightarrow> in_addr \<Rightarrow> bool \<Rightarrow> arp_frame" where
  "probe_frame link_address sender target announce =
     \<lparr>af_dhost = replicate 6 0xff, af_shost = take 6 link_address, af_sha = take 6 link_address,
      af_spa = (if announce \<and> sender = 0 then target else sender), af_tpa = target\<rparr>"

text \<open>\<open>j\<close> of the \<open>n + m\<close> frames were sent.\<close>

definition ready :: "nat \<Rightarrow> nat \<Rightarrow> arp_frame list \<Rightarrow> in_addr \<Rightarrow> in_addr \<Rightarrow> u8 list \<Rightarrow> nat \<Rightarrow> 'f arp_ctx \<Rightarrow> bool" where
  "ready n m base sender target la j x \<longleftrightarrow>
     ac_try (x_client x) = int j \<and> pi_probe_count (ac_probe_info (x_client x)) = int n \<and>
     pi_gratuitous_count (ac_probe_info (x_client x)) = int m \<and> \<not> pi_skip_first (ac_probe_info (x_client x)) \<and>
     ac_sender_ip (x_client x) = sender \<and> ac_target_ip (x_client x) = target \<and>
     is_arptype (x_if x) = ARPHRD_ETHER \<and> is_link_address (x_if x) = la \<and> (\<forall>k. w_outcome (x_world x) k) \<and>
     is_sent (x_if x) = base @ map (\<lambda>i. probe_frame la sender target (n \<le> i)) [0..<j]"

definition waiting :: "'f arp_ctx \<Rightarrow> bool" where
  "waiting x \<longleftrightarrow> tm_enabled (ac_timer (x_client x)) \<and> tm_func (ac_timer (x_client x)) = Some ArpProbeRetransmit"

definition answered_free :: "'f arp_ctx \<Rightarrow> bool" where
  "answered_free x \<longleftrightarrow> ac_command_status (x_client x) = arp_status_not_in_use_e \<and> ac_callback_source (x_client x)"

lemma retransmit_ready:
  assumes "ready n m base sip tip la j x" "j < n + m"
  shows "ready n m base sip tip la (Suc j) (arp_client_probe_retransmit x) \<and> waiting (arp_client_probe_retransmit x)"
proof -
  have le: "int n + int m - int j \<le> int m \<longleftrightarrow> n \<le> j" by auto
  show ?thesis using assms le
    by (auto simp: ready_def waiting_def arp_client_probe_retransmit_def Let_def arp_client_transmit_def next_outcome_def set_timer_def
        arp_frame_of_def probe_frame_def split: prod.split)
qed

lemma retransmit_finished:
  assumes "ready n m base sip tip la (n + m) x"
  shows "ready n m base sip tip la (n + m) (arp_client_probe_retransmit x) \<and> answered_free (arp_client_probe_retransmit x)"
  using assms
  by (auto simp: ready_def answered_free_def arp_client_probe_retransmit_def Let_def finish_with_def arp_client_schedule_callback_def
      arp_client_cancel_callback_def)

lemma waiting_fires:
  assumes "ready n m base sip tip la j x" "waiting x"
  obtains y where "arp_timer_fires x = Some (arp_client_probe_retransmit y)" "ready n m base sip tip la j y"
  by (rule that [of "set_client (ac_timer_update (\<lambda>_. (ac_timer (x_client x))\<lparr>tm_enabled := False\<rparr>)) x"])
    (use assms in \<open>simp_all add: arp_timer_fires_def timer_callout_process_def waiting_def ready_def\<close>)

lemma silent_fires:
  "ready n m base sip tip la j x \<Longrightarrow> waiting x \<Longrightarrow> j \<le> n + m \<Longrightarrow>
   \<exists>y. fires (Suc (n + m - j)) x = Some y \<and> ready n m base sip tip la (n + m) y \<and> answered_free y"
proof (induction "n + m - j" arbitrary: j x)
  case 0
  obtain y where y: "arp_timer_fires x = Some (arp_client_probe_retransmit y)" "ready n m base sip tip la j y"
    using waiting_fires [OF 0(2,3)] by blast
  with 0 retransmit_finished [of n m base sip tip la y] show ?case by simp
next
  case (Suc k)
  obtain y where y: "arp_timer_fires x = Some (arp_client_probe_retransmit y)" "ready n m base sip tip la j y"
    using waiting_fires [OF Suc.prems(1,2)] by blast
  have j: "j < n + m" "k = n + m - Suc j" "n + m - j = Suc (n + m - Suc j)" using Suc.hyps(2) by simp_all
  from retransmit_ready [OF y(2) j(1)] Suc.hyps(1) [OF j(2)] j(1) y(1) show ?case unfolding j(3) by simp
qed

lemma open_ready:
  assumes "ready n m base sip tip la j x"
  shows "fst (arp_client_open_fd x)" "ready n m base sip tip la j (snd (arp_client_open_fd x))"
  using assms by (auto simp: arp_client_open_fd_def Let_def next_outcome_def ready_def)

lemma first_then_rest: "map (\<lambda>i. F (n \<le> i)) [0..<n + m] = replicate n (F False) @ replicate m (F True)"
  by (rule nth_equalityI) (auto simp: nth_append)

lemma probe_ready:
  assumes "pi_probe_count (ac_probe_info (x_client x)) = int n" "pi_gratuitous_count (ac_probe_info (x_client x)) = int m"
    "is_arptype (x_if x) = ARPHRD_ETHER" "\<And>k. w_outcome (x_world x) k"
  obtains y where "arp_client_probe f sip tip x = arp_client_probe_retransmit y"
    "ready n m (is_sent (x_if x)) sip tip (is_link_address (x_if x)) 0 y"
proof -
  let ?c = "arp_client_setup_context f sip tip False x"
  have c: "ready n m (is_sent (x_if x)) sip tip (is_link_address (x_if x)) 0 ?c"
    using assms
    by (auto simp: ready_def arp_client_setup_context_def set_addresses_def start_request_def arp_client_cancel_def Let_def cancel_timer_def
        arp_client_close_fd_def arp_client_cancel_callback_def)
  obtain y where y: "arp_client_open_fd ?c = (True, y)" "ready n m (is_sent (x_if x)) sip tip (is_link_address (x_if x)) 0 y"
    using open_ready [OF c] by (cases "arp_client_open_fd ?c") simp
  show ?thesis
    by (rule that [of "begin_command arp_client_command_probe_e y"])
      (use y in \<open>simp_all add: arp_client_probe_def begin_command_def ready_def\<close>)
qed

text \<open>C24. A probe that nobody answers sends its probes and then its announcements, no more and no fewer, one each
  time its timer fires, and then reports that the address is not in use; a probe without a sender asks as
  nobody and announces as the address itself.\<close>

theorem silent_probe_reports_free:
  assumes "pi_probe_count (ac_probe_info (x_client x)) = int n" "pi_gratuitous_count (ac_probe_info (x_client x)) = int m"
    "is_arptype (x_if x) = ARPHRD_ETHER" "\<And>k. w_outcome (x_world x) k"
  shows "\<exists>y. fires (n + m) (arp_client_probe f sip tip x) = Some y \<and>
    is_sent (x_if y) = is_sent (x_if x) @ replicate n (probe_frame (is_link_address (x_if x)) sip tip False) @
      replicate m (probe_frame (is_link_address (x_if x)) sip tip True) \<and>
    ac_command_status (x_client y) = arp_status_not_in_use_e \<and> ac_callback_source (x_client y)"
proof -
  let ?r = "ready n m (is_sent (x_if x)) sip tip (is_link_address (x_if x))"
  obtain y where y: "arp_client_probe f sip tip x = arp_client_probe_retransmit y" "?r 0 y"
    by (rule probe_ready [OF assms]) (rule that, assumption+)
  have "\<exists>z. fires (n + m) (arp_client_probe_retransmit y) = Some z \<and> ?r (n + m) z \<and> answered_free z"
  proof (cases "n + m")
    case 0
    then have "?r (n + m) y" using y(2) by (simp only:)
    from retransmit_finished [OF this] 0 show ?thesis by simp
  next
    case (Suc k)
    then have k: "0 < n + m" "Suc 0 \<le> n + m" "Suc (n + m - Suc 0) = n + m" by simp_all
    note r = retransmit_ready [OF y(2) k(1)]
    show ?thesis by (rule silent_fires [OF conjunct1 [OF r] conjunct2 [OF r] k(2), unfolded k(3)])
  qed
  then obtain z where z: "fires (n + m) (arp_client_probe_retransmit y) = Some z" "?r (n + m) z" "answered_free z" by blast
  have sent: "is_sent (x_if z) = is_sent (x_if x) @ replicate n (probe_frame (is_link_address (x_if x)) sip tip False) @
      replicate m (probe_frame (is_link_address (x_if x)) sip tip True)"
    using z(2) unfolding ready_def by (simp only: first_then_rest)
  show ?thesis unfolding y(1) using z(1,3) sent unfolding answered_free_def by blast
qed

definition sample_arp :: "unit arp_ctx" where
  "sample_arp =
     (let w = \<lparr>w_mono = 0, w_offset = 0, w_time_generation = 0, w_clock_set = False, w_outcome = (\<lambda>_. True), w_random = (\<lambda>_. 0),
                w_calls = 0\<rparr>;
          s = \<lparr>is_session = default_arp_session, is_arptype = 1, is_link_address = [2, 0, 0, 0, 0, 1], is_fw_addr = [],
               is_read_fd = False, is_read_fd_refcount = 0, is_sent = []\<rparr>
      in \<lparr>x_world = w, x_if = s, x_client = arp_if_session_new_client w s\<rparr>)"

theorem silent_probe_reports_free_witness:
  "\<exists>y. fires 5 (arp_client_probe () 0 0x11000009 sample_arp) = Some y \<and>
    map af_spa (is_sent (x_if y)) = [0, 0, 0, 0x11000009, 0x11000009] \<and> ac_command_status (x_client y) = arp_status_not_in_use_e"
proof -
  have "pi_probe_count (ac_probe_info (x_client sample_arp)) = int 3" "pi_gratuitous_count (ac_probe_info (x_client sample_arp)) = int 2"
    "is_arptype (x_if sample_arp) = ARPHRD_ETHER" "\<And>k. w_outcome (x_world sample_arp) k" "is_sent (x_if sample_arp) = []"
    by (simp_all add: sample_arp_def Let_def default_arp_session_def arp_if_session_new_client_def ARPHRD_ETHER_def)
  from silent_probe_reports_free [OF this(1-4), of "()" 0 "0x11000009"] this(5) show ?thesis
    by (auto simp: probe_frame_def numeral_eq_Suc)
qed

end
