(* ===== verification/Spec2Isabelle.thy ===== *)
theory Spec2Isabelle
  imports ServerProps InCksum IPv4ClasslessRoute RouterAdvFacts DHCPv6Props ClientProps ArpProps
begin

text \<open>
  The BOOTP and DHCP server, the DHCP and DHCPv6 clients of the configuration daemon, and the protocol
  library of the bootp project.

  \<^bold>\<open>The program.\<close>  The server (\<open>bootpd.tproj\<close>) receives packets on a socket, decides from their options
  and its settings whether BOOTP, DHCP or the relay serves them, and sends at most one reply, or one
  copy for each relay.  Its leases are entries of a cache that is written to a file after each
  change and read again at start.  It rests on the library \<open>bootplib\<close>: option areas, property lists,
  the cache, subnets, interfaces and the pending offers.

  The client (\<open>IPConfiguration.bproj\<close>) is a state machine that the daemon's events, a timer, datagrams and ARP
  results drive.  It builds requests in option areas, reads what servers answer with the library's parser,
  probes an address with ARP before it uses it, keeps the leases of the networks it was on and writes the
  last one to a file.  The DHCPv6 client of the same daemon asks for an address, for a prefix or only for
  information; all its instances share one socket descriptor.  The library also has the encodings that the
  clients use: domain name lists, classless routes, the Internet checksum.

  \<^bold>\<open>How C is modelled.\<close>  A buffer is a list of bytes, and a pointer into it the list from that point on;
  machine integers are words, or \<open>int\<close> where the code uses \<open>int\<close> within bounds that are proved.  An
  access outside an object, a null pointer that is followed and a loop that does not end have no
  result: \<open>None\<close> of the outermost option type.  That a definition returns \<open>Some\<close> is therefore the
  statement that the code is safe and ends.  Errors the code reports are values inside the \<open>Some\<close>.
  Loops without a bound of their own (\<open>acquire_loop\<close>, \<open>read_loop\<close>) are partial functions and are proved
  to end, or, where they do not, proved not to.  \<open>malloc\<close> may fail where the code looks at its result
  (theory PtrList) and does not fail elsewhere.

  \<^bold>\<open>The theories\<close>, from the bottom up.

  \<^item> Prelude: memory accesses, byte order (\<open>bootplib/nbo.h\<close>, \<open>util.h\<close>), loops that may fail; the
    collections \<open>mem\<close> and \<open>wf\<close>.  CLib: the numbers of \<open>printf\<close> and \<open>strtol\<close>.
  \<^item> PtrList and DynArray (\<open>ptrlist.c\<close>, \<open>dynarray.c\<close>): arrays of pointers, refined to lists; the locale
    \<open>growable\<close> is what their clients rely on.
  \<^item> DhcpOptions, DhcpOptionFacts (\<open>dhcp_options.c\<close>): parsing a packet, its overloaded fields and vendor
    options into lists of options; every parser is refined to a specification on fields.
    DhcpOptionArea: writing options into a bounded area, and the round trip with the parser.
  \<^item> NetInfo (\<open>netinfo.c\<close>): property lists.  NICache, NICacheFacts (\<open>NICache.c\<close>): the host cache as a
    doubly linked list on a heap, refined to a list in most-recently-used order (locale \<open>mru_store\<close>).
    NICacheFile: its file format and round trip.  HostIdentifier (\<open>host_identifier.c\<close>): client
    identifiers as strings.  HostList (\<open>hostlist.c\<close>): offers not yet taken.
  \<^item> Subnets (\<open>subnets.c\<close>): sorted ranges and the search for a free address.  Interfaces
    (\<open>interfaces.c\<close>, parts of \<open>bootpd.c\<close>): addresses, allow and deny lists, services.
  \<^item> DhcpLeases, BootpdReply, DhcpServer, Bootpd (\<open>dhcpd.c\<close>, \<open>bootpd.c\<close>, \<open>bootpdfile.c\<close>): the server.  The
    record \<open>server\<close> holds what changes (leases and their file, offers, subnets, interfaces, packets
    sent), \<open>config\<close> what does not, \<open>locals\<close> the variables of \<open>dhcp_request\<close>, whose blocks and \<open>goto\<close>s are
    one definition each; \<open>serve\<close> handles one packet after another.
  \<^item> DhcpLeaseFacts, DhcpReplyFacts, DhcpServerFacts, BootpdFacts: every operation returns and keeps the
    invariant \<open>stored\<close>: entries well-formed and writable, records distinct, the file in step with the
    leases.  ServerProps: the properties of the server, and a small server they are applied to.
  \<^item> InCksum (\<open>in_cksum.c\<close>): the unrolled loops compute the checksum of RFC 1071.  ByteBuffer: buffers that
    bytes are appended to, with the locale \<open>append_buffer\<close> for its clients IPv4ClasslessRoute
    (\<open>IPv4ClasslessRoute.c\<close>) and DNSNameList, DNSNameFacts, DNSNameRoundtrip (\<open>DNSNameList.c\<close>): reading ends
    on any bytes, and what was written, compressed or not, is read back.
  \<^item> DNSServers, DNSServerFacts (\<open>DNSEncryptedServers.c\<close>): the encrypted DNS servers of DHCP, DHCPv6 and router
    advertisements, from bytes to sorted entries.  RouterAdv, RouterAdvFacts (\<open>RouterAdvertisement.c\<close>,
    \<open>RTADVSocket.c\<close>): a packet's options, found once, and every question about them, answered from inside
    the packet.
  \<^item> DHCPv6Options, DHCPv6OptionFacts (\<open>DHCPv6.c\<close>, \<open>DHCPv6Options.c\<close>, \<open>DHCPDUID.c\<close>): messages, options and client
    identifiers of DHCPv6.  The parser is refined to rows of fields, each a code and its bytes; an area gives
    back what was written into it.

  \<^item> Timer (\<open>timer.c\<close>): time, callouts, and what the client sees of the system.  ArpSession, ArpFacts, ArpProps
    (\<open>arp_session.c\<close>): probing, announcing, resolving and detecting addresses; a silent probe sends exactly
    its frames.
  \<^item> ClientOptions, ClientLease, ClientService, ClientActions, DhcpClient, DhcpThread (\<open>dhcp.c\<close>, \<open>DHCPLease.c\<close>,
    parts of \<open>ipconfigd.c\<close> and \<open>bootp_session.c\<close>): the DHCP client.  The record \<open>service\<close> holds a service with
    its interface, its ARP session and the client's data; what the daemon tells the kernel and the network
    is the list \<open>s_actions\<close>.  Each handler of the source is a function of the service, with one definition
    for each event it is called with; \<open>client_step\<close> is one event, \<open>client_steps\<close> any number of them.
  \<^item> ClientDataFacts, ClientFacts, ClientSafety: every handler returns and keeps the invariant \<open>good\<close>, so that
    no sequence of events crashes the client.  ClientProgress: what is pending fits the state, and a state
    that wants something has a timer (\<open>live\<close>).  ClientRequests, ClientMessages: the requests of the client
    as the parser reads them, and what the handlers do with an address.  ClientProps: the properties of
    the client, and a small client they are applied to.

  \<^item> DHCPv6Socket (\<open>DHCPv6Socket.c\<close>): the shared descriptor, counted by the sockets that are open and closed a while
    after the last one; \<open>socket_step\<close> is one call for one of the sockets.
  \<^item> DHCPv6Client, DHCPv6States (\<open>DHCPv6Client.c\<close>): the client.  The record \<open>client6\<close> is the structure of the
    source with its socket, its timer and what the daemon tells it (\<open>env6\<close>); what it does to the interface and the
    network is the list \<open>c6_actions\<close>.  Each state of the source is one function for each event it is called
    with (\<open>Request_start\<close>, \<open>Request_timeout\<close>, \<open>Request_data\<close>); \<open>dhcpv6_pd_thread\<close> is prefix delegation as a service.
  \<^item> DHCPv6ClientFacts, DHCPv6Safety: every function returns and keeps the invariant \<open>inv6\<close>: the pointers into the
    saved packet are there in the states that follow them.  DHCPv6Events: one step of the client
    (\<open>step6\<close>), when it can happen (\<open>possible6\<close>), any number of them (\<open>steps6\<close>).  DHCPv6Messages: the messages of the
    client as the parser reads them.  DHCPv6Props: its properties, and a small client they are applied to.

  \<^bold>\<open>Bounds.\<close>  Packets of up to 2044 bytes are served: some options are looked at without a check of their
  length, so a longer one could be read past its end.  Fields of the lease file fit the lines of
  1024 bytes that it is read with.  Compressed name lists are at most 16384 bytes, the range of a
  pointer.  The checksum covers at most 65536 bytes, where its sum fits an \<open>int\<close>.

  \<^bold>\<open>Parameters.\<close>  The conversions of addresses between numbers and text (record \<open>netlib\<close>), which files
  exist, whether the disk can be written, the settings, and the contents of new memory.  For the clients, the
  outcomes of system calls and the random numbers (record \<open>world\<close>), about which nothing is assumed, and for the
  DHCPv6 client what the daemon knows of the link and the host (record \<open>env6\<close>).  A datagram of DHCPv6 comes
  only when the daemon has an identifier, without which it sends nothing.

  \<^bold>\<open>Not modelled.\<close>  Sockets, logging, the kernel's interface lists, signals and the reloading of
  settings; NetBoot, which the server is built without; the Core Foundation parts of the library; of the
  daemon, everything but the DHCP and DHCPv6 clients and what they call, of the DHCP client the INFORM and
  BOOTP methods, and the rounding of floating-point times (times are rational numbers); the DHCPv6 server, what
  the daemon does with router advertisements (\<open>rtadv.c\<close>), the command line tools, the frameworks and the third-party \<open>rtadvd\<close>.
\<close>

end
